(* ===== verification/Prelude.thy ===== *)
theory Prelude
  imports Complex_Main "HOL-Library.AList"
begin

text \<open>
  The shared vocabulary of the development: Python exceptions as values, binary floating point
  numbers with their infinities and NaN, insertion-ordered dictionaries, bounded deques, and the
  generic lemmas about them.

  \<^item> \<open>pyfloat\<close> is a Python \<open>float\<close>: a finite value, one of the two infinities, or NaN. Comparisons
    and the propagation of non-finite values follow IEEE-754 (every comparison with NaN is
    \<open>False\<close>). The finite part is a real number: rounding and overflow of finite arithmetic are
    not modelled.
  \<^item> \<open>'v dict\<close> is a Python dictionary with string keys: an association list in insertion order.
    \<open>AList.update\<close> replaces a value in place or appends a new key at the end, which is what
    \<open>d[k] = v\<close> does; \<open>AList.delete\<close> is \<open>d.pop(k, None)\<close>.
  \<^item> \<open>dq_append n\<close> is \<open>append\<close> on a \<open>deque(maxlen=n)\<close>.
\<close>

section \<open>Collections of hints\<close>

named_theorems fl_simps "evaluation of floating point operations"
named_theorems inv_intros "preservation of component invariants"

section \<open>Exceptions\<close>

text \<open>The text argument names the check that raised, in ASCII.\<close>

datatype py_exn =
    KeyError string
  | ValueError string
  | TypeError string
  | RuntimeError string
  | ConfigError string
  | ZeroDivisionError
  | OverflowError string

type_synonym 'a result = "py_exn + 'a"

fun res_bind :: "'a result \<Rightarrow> ('a \<Rightarrow> 'b result) \<Rightarrow> 'b result" where
  "res_bind (Inl e) f = Inl e"
| "res_bind (Inr x) f = f x"

lemma res_bind_Inr_iff:
  "res_bind r f = Inr y \<longleftrightarrow> (\<exists>x. r = Inr x \<and> f x = Inr y)"
  by (cases r) auto

lemma res_bind_Inl_iff:
  "res_bind r f = Inl e \<longleftrightarrow> r = Inl e \<or> (\<exists>x. r = Inr x \<and> f x = Inl e)"
  by (cases r) auto

section \<open>Floats\<close>

datatype pyfloat = Fin real | PosInf | NegInf | NaN

definition fl_isfinite :: "pyfloat \<Rightarrow> bool" where
  "fl_isfinite x = (case x of Fin _ \<Rightarrow> True | _ \<Rightarrow> False)"

definition fl_isnan :: "pyfloat \<Rightarrow> bool" where
  "fl_isnan x = (x = NaN)"

definition fl_isinf :: "pyfloat \<Rightarrow> bool" where
  "fl_isinf x = (x = PosInf \<or> x = NegInf)"

fun fl_less :: "pyfloat \<Rightarrow> pyfloat \<Rightarrow> bool" where
  "fl_less (Fin a) (Fin b) = (a < b)"
| "fl_less (Fin a) PosInf = True"
| "fl_less NegInf (Fin b) = True"
| "fl_less NegInf PosInf = True"
| "fl_less _ _ = False"

definition fl_eq :: "pyfloat \<Rightarrow> pyfloat \<Rightarrow> bool" where
  "fl_eq a b = (a = b \<and> a \<noteq> NaN)"

definition fl_le :: "pyfloat \<Rightarrow> pyfloat \<Rightarrow> bool" where
  "fl_le a b = (fl_less a b \<or> fl_eq a b)"

fun fl_neg :: "pyfloat \<Rightarrow> pyfloat" where
  "fl_neg (Fin a) = Fin (- a)"
| "fl_neg PosInf = NegInf"
| "fl_neg NegInf = PosInf"
| "fl_neg NaN = NaN"

fun fl_abs :: "pyfloat \<Rightarrow> pyfloat" where
  "fl_abs (Fin a) = Fin \<bar>a\<bar>"
| "fl_abs NaN = NaN"
| "fl_abs _ = PosInf"

fun fl_add :: "pyfloat \<Rightarrow> pyfloat \<Rightarrow> pyfloat" where
  "fl_add (Fin a) (Fin b) = Fin (a + b)"
| "fl_add NaN _ = NaN"
| "fl_add _ NaN = NaN"
| "fl_add PosInf NegInf = NaN"
| "fl_add NegInf PosInf = NaN"
| "fl_add PosInf _ = PosInf"
| "fl_add NegInf _ = NegInf"
| "fl_add (Fin _) PosInf = PosInf"
| "fl_add (Fin _) NegInf = NegInf"

definition fl_sub :: "pyfloat \<Rightarrow> pyfloat \<Rightarrow> pyfloat" where
  "fl_sub a b = fl_add a (fl_neg b)"

definition fl_sgn :: "pyfloat \<Rightarrow> real" where
  "fl_sgn x = (case x of Fin a \<Rightarrow> sgn a | PosInf \<Rightarrow> 1 | NegInf \<Rightarrow> -1 | NaN \<Rightarrow> 0)"

definition fl_mul :: "pyfloat \<Rightarrow> pyfloat \<Rightarrow> pyfloat" where
  "fl_mul x y =
     (case (x, y) of
        (NaN, _) \<Rightarrow> NaN
      | (_, NaN) \<Rightarrow> NaN
      | (Fin a, Fin b) \<Rightarrow> Fin (a * b)
      | _ \<Rightarrow> (let s = fl_sgn x * fl_sgn y
              in if s = 0 then NaN else if s > 0 then PosInf else NegInf))"

text \<open>Division by a zero float raises \<open>ZeroDivisionError\<close> in Python.\<close>

definition fl_div :: "pyfloat \<Rightarrow> pyfloat \<Rightarrow> pyfloat result" where
  "fl_div x y =
     (if y = Fin 0 then Inl ZeroDivisionError
      else Inr (case (x, y) of
        (NaN, _) \<Rightarrow> NaN
      | (_, NaN) \<Rightarrow> NaN
      | (Fin a, Fin b) \<Rightarrow> Fin (a / b)
      | (Fin _, _) \<Rightarrow> Fin 0
      | (_, Fin b) \<Rightarrow> (if fl_sgn x * sgn b > 0 then PosInf else NegInf)
      | _ \<Rightarrow> NaN))"

definition fl_sum :: "pyfloat list \<Rightarrow> pyfloat" where
  "fl_sum xs = foldl fl_add (Fin 0) xs"

lemma fl_isfinite_Fin [simp]: "fl_isfinite (Fin x)"
  and fl_isfinite_PosInf [simp]: "\<not> fl_isfinite PosInf"
  and fl_isfinite_NegInf [simp]: "\<not> fl_isfinite NegInf"
  and fl_isfinite_NaN [simp]: "\<not> fl_isfinite NaN"
  by (simp_all add: fl_isfinite_def)

lemma fl_isfinite_iff: "fl_isfinite x \<longleftrightarrow> (\<exists>a. x = Fin a)"
  by (cases x) auto

lemma fl_isfinite_notnan: "fl_isfinite x \<longleftrightarrow> \<not> fl_isnan x \<and> \<not> fl_isinf x"
  by (cases x) (auto simp: fl_isnan_def fl_isinf_def)

lemma fl_less_NaN [simp]: "\<not> fl_less NaN x" "\<not> fl_less x NaN"
  by (cases x; simp)+

lemma fl_le_NaN [simp]: "\<not> fl_le NaN x" "\<not> fl_le x NaN"
  by (auto simp: fl_le_def fl_eq_def)

lemma fl_le_Fin [simp]: "fl_le (Fin a) (Fin b) \<longleftrightarrow> a \<le> b"
  by (auto simp: fl_le_def fl_eq_def)

lemma fl_less_asym: "fl_less x y \<Longrightarrow> \<not> fl_less y x"
  by (cases x; cases y) auto

lemma fl_less_not_le: "fl_less x y \<Longrightarrow> \<not> fl_le y x"
  by (cases x; cases y) (auto simp: fl_le_def fl_eq_def)

lemma fl_not_le_iff: "x \<noteq> NaN \<Longrightarrow> y \<noteq> NaN \<Longrightarrow> \<not> fl_le x y \<longleftrightarrow> fl_less y x"
  by (cases x; cases y) (auto simp: fl_le_def fl_eq_def)

lemma fl_less_trans: "fl_less x y \<Longrightarrow> fl_less y z \<Longrightarrow> fl_less x z"
  by (cases x; cases y; cases z) auto

lemma fl_sub_Fin [simp, fl_simps]: "fl_sub (Fin a) (Fin b) = Fin (a - b)"
  by (simp add: fl_sub_def)

lemma fl_mul_Fin [simp, fl_simps]: "fl_mul (Fin a) (Fin b) = Fin (a * b)"
  by (simp add: fl_mul_def)

lemma fl_div_Fin [simp, fl_simps]: "b \<noteq> 0 \<Longrightarrow> fl_div (Fin a) (Fin b) = Inr (Fin (a / b))"
  by (simp add: fl_div_def)

lemma fl_div_zero [simp]: "fl_div x (Fin 0) = Inl ZeroDivisionError"
  by (simp add: fl_div_def)

lemma foldl_fl_add_Fin: "foldl fl_add (Fin s) (map Fin xs) = Fin (s + sum_list xs)"
  by (induction xs arbitrary: s) (auto simp: algebra_simps)

lemma fl_sum_Fin [simp, fl_simps]: "fl_sum (map Fin xs) = Fin (sum_list xs)"
  by (simp add: fl_sum_def foldl_fl_add_Fin)

text \<open>Python's \<open>int(x)\<close> on a finite float truncates towards zero.\<close>

definition py_int :: "real \<Rightarrow> int" where
  "py_int x = (if x \<ge> 0 then \<lfloor>x\<rfloor> else \<lceil>x\<rceil>)"

section \<open>Dictionaries\<close>

type_synonym 'v dict = "(string \<times> 'v) list"

abbreviation dict_get :: "('k \<times> 'v) list \<Rightarrow> 'k \<Rightarrow> 'v option" where
  "dict_get d k \<equiv> map_of d k"

abbreviation dict_set :: "'k \<Rightarrow> 'v \<Rightarrow> ('k \<times> 'v) list \<Rightarrow> ('k \<times> 'v) list" where
  "dict_set k v d \<equiv> AList.update k v d"

abbreviation dict_del :: "'k \<Rightarrow> ('k \<times> 'v) list \<Rightarrow> ('k \<times> 'v) list" where
  "dict_del k d \<equiv> AList.delete k d"

abbreviation dict_keys :: "('k \<times> 'v) list \<Rightarrow> 'k list" where
  "dict_keys d \<equiv> map fst d"

definition dict_getd :: "('k \<times> 'v) list \<Rightarrow> 'k \<Rightarrow> 'v \<Rightarrow> 'v" where
  "dict_getd d k v = (case map_of d k of None \<Rightarrow> v | Some x \<Rightarrow> x)"

text \<open>A well-formed dictionary has each key once.\<close>

definition dict_ok :: "('k \<times> 'v) list \<Rightarrow> bool" where
  "dict_ok d = distinct (map fst d)"

lemma dict_ok_empty [simp, intro]: "dict_ok []"
  by (simp add: dict_ok_def)

lemma dict_ok_set [simp, inv_intros]: "dict_ok d \<Longrightarrow> dict_ok (dict_set k v d)"
  by (simp add: dict_ok_def distinct_update)

lemma dict_ok_del [simp, inv_intros]: "dict_ok d \<Longrightarrow> dict_ok (dict_del k d)"
  by (simp add: dict_ok_def distinct_delete)

lemma dict_get_set: "dict_get (dict_set k v d) k' = (if k' = k then Some v else dict_get d k')"
  by (simp add: update_conv)

lemma dict_get_set_same [simp]: "dict_get (dict_set k v d) k = Some v"
  by (simp add: update_conv)

lemma dict_get_set_other [simp]: "k' \<noteq> k \<Longrightarrow> dict_get (dict_set k v d) k' = dict_get d k'"
  by (simp add: update_conv)

lemma dict_get_del: "dict_get (dict_del k d) k' = (if k' = k then None else dict_get d k')"
  by (simp add: delete_conv)

lemma dict_get_del_same [simp]: "dict_get (dict_del k d) k = None"
  by (simp add: delete_conv)

lemma dict_get_del_other [simp]: "k' \<noteq> k \<Longrightarrow> dict_get (dict_del k d) k' = dict_get d k'"
  by (simp add: delete_conv)

lemma dict_get_mem: "dict_get d k = Some v \<Longrightarrow> (k, v) \<in> set d"
  by (rule map_of_SomeD)

lemma dict_mem_get: "dict_ok d \<Longrightarrow> (k, v) \<in> set d \<Longrightarrow> dict_get d k = Some v"
  by (simp add: dict_ok_def)

lemma dict_get_None_iff: "dict_get d k = None \<longleftrightarrow> k \<notin> set (dict_keys d)"
  by (simp add: map_of_eq_None_iff)

lemma dict_getd_set [simp]: "dict_getd (dict_set k v d) k w = v"
  by (simp add: dict_getd_def)

lemma dict_keys_set: "set (dict_keys (dict_set k v d)) = insert k (set (dict_keys d))"
  using dom_update [of k v d] by (simp add: dom_map_of_conv_image_fst)

section \<open>Bounded deques\<close>

definition dq_append :: "nat \<Rightarrow> 'a \<Rightarrow> 'a list \<Rightarrow> 'a list" where
  "dq_append n x xs = (let ys = xs @ [x] in drop (length ys - n) ys)"

lemma dq_append_length: "length (dq_append n x xs) \<le> n"
  by (simp add: dq_append_def Let_def)

lemma dq_append_not_empty [simp]: "0 < n \<Longrightarrow> dq_append n x xs \<noteq> []"
  by (simp add: dq_append_def Let_def)

lemma dq_append_last [simp]: "0 < n \<Longrightarrow> last (dq_append n x xs) = x"
  by (simp add: dq_append_def Let_def last_drop)

lemma dq_append_set: "set (dq_append n x xs) \<subseteq> insert x (set xs)"
  using set_drop_subset [of "length (xs @ [x]) - n" "xs @ [x]"]
  by (auto simp: dq_append_def Let_def)

lemma dq_append_small: "length xs < n \<Longrightarrow> dq_append n x xs = xs @ [x]"
  by (simp add: dq_append_def Let_def)

text \<open>
  The contract of the bounded logs that several components keep (alarm history, safety events,
  interlock events): an append operation, the list of retained entries, and the bound.
\<close>

locale bounded_log =
  fixes push :: "'a \<Rightarrow> 'l \<Rightarrow> 'l"
    and entries :: "'l \<Rightarrow> 'a list"
    and bound :: nat
  assumes entries_push: "entries (push x l) = dq_append bound x (entries l)"
    and bound_pos: "0 < bound"
begin

lemma push_bounded: "length (entries (push x l)) \<le> bound"
  by (simp add: entries_push dq_append_length)

lemma push_newest: "last (entries (push x l)) = x"
  by (simp add: entries_push bound_pos)

lemma push_keeps_bound: "length (entries l) \<le> bound \<Longrightarrow> length (entries (push x l)) \<le> bound"
  by (rule push_bounded)

lemma pushes_bounded:
  "length (entries l) \<le> bound \<Longrightarrow> length (entries (foldl (\<lambda>a x. push x a) l xs)) \<le> bound"
  by (induction xs arbitrary: l) (auto simp: push_bounded)

end

section \<open>Strings\<close>

text \<open>
  \<open>channel.split(" ", 1)[0] if " " in channel else channel\<close>: the part before the first space.
  The code points of the source are UTF-8 bytes here; a space is one byte in both.
\<close>

definition short_name :: "string \<Rightarrow> string" where
  "short_name ch = takeWhile (\<lambda>c. c \<noteq> CHR '' '') ch"

text \<open>\<open>len\<close> of a text: the bytes that do not continue a character.\<close>

definition py_len :: "string \<Rightarrow> nat" where
  "py_len s = length (filter (\<lambda>c. let n = (of_char c :: nat) in \<not> (128 \<le> n \<and> n < 192)) s)"

end
