(* ===== verification/Readings.thy ===== *)
theory Readings
  imports Prelude
begin

text \<open>
  The data every component exchanges: \<open>Reading\<close> and \<open>ChannelStatus\<close> of
  \<^verbatim>\<open>src/cryodaq/drivers/base.py\<close> with its usability predicate and the
  instrument-register evidence, and the SMU channel names of
  \<^verbatim>\<open>src/cryodaq/core/smu_channel.py\<close>.
\<close>

section \<open>Values in metadata mappings\<close>

datatype pyval =
    PNone
  | PBool bool
  | PInt int
  | PFloat pyfloat
  | PStr string
  | PList "pyval list"
  | PDict "(string \<times> pyval) list"

fun is_PStr :: "pyval \<Rightarrow> bool" where
  "is_PStr (PStr _) = True"
| "is_PStr _ = False"

fun the_PStr :: "pyval \<Rightarrow> string" where
  "the_PStr (PStr s) = s"
| "the_PStr _ = []"

section \<open>Readings\<close>

datatype channel_status = OK | OVERRANGE | UNDERRANGE | SENSOR_ERROR | TIMEOUT

fun status_value :: "channel_status \<Rightarrow> string" where
  "status_value OK = ''ok''"
| "status_value OVERRANGE = ''overrange''"
| "status_value UNDERRANGE = ''underrange''"
| "status_value SENSOR_ERROR = ''sensor_error''"
| "status_value TIMEOUT = ''timeout''"

text \<open>The timestamp is the POSIX timestamp in seconds of the source's aware \<open>datetime\<close>.\<close>

record reading =
  r_timestamp :: real
  r_instrument_id :: string
  r_channel :: string
  r_value :: pyfloat
  r_unit :: string
  r_status :: channel_status
  r_metadata :: "pyval dict"

text \<open>
  \<open>raw\<close>, which only the recording of data reads: the records of the safety and alarm components leave it
  out, those of the acquisition carry it.
\<close>

record raw_reading = reading +
  r_raw :: "pyfloat option"

definition is_usable :: "reading \<Rightarrow> bool" where
  "is_usable r = (r_status r = OK \<and> fl_isfinite (r_value r))"

abbreviation INSTRUMENT_STATUS_FAULT_REASONS_KEY :: string where
  "INSTRUMENT_STATUS_FAULT_REASONS_KEY \<equiv> ''instrument_status_fault_reasons''"

abbreviation INSTRUMENT_STATUS_REGISTER_KEY :: string where
  "INSTRUMENT_STATUS_REGISTER_KEY \<equiv> ''instrument_status_register''"

definition INSTRUMENT_STATUS_REGISTER_VALUES :: "string list" where
  "INSTRUMENT_STATUS_REGISTER_VALUES = [''LakeShore 218 RDGST'']"

definition instrument_status_fault_reasons :: "reading \<Rightarrow> string list" where
  "instrument_status_fault_reasons r =
     (if r_status r = OK then []
      else
        (case (dict_get (r_metadata r) INSTRUMENT_STATUS_REGISTER_KEY,
               dict_get (r_metadata r) INSTRUMENT_STATUS_FAULT_REASONS_KEY) of
           (Some (PStr register), Some (PList reasons)) \<Rightarrow>
             (if register \<notin> set INSTRUMENT_STATUS_REGISTER_VALUES \<or> reasons = [] then []
              else if 8 < length reasons
                      \<or> (\<exists>x \<in> set reasons. \<not> is_PStr x \<or> the_PStr x = []) then []
              else map the_PStr reasons)
         | _ \<Rightarrow> []))"

lemma is_usable_finite: "is_usable r \<Longrightarrow> \<exists>x. r_value r = Fin x"
  by (auto simp: is_usable_def fl_isfinite_iff)

lemma usable_no_fault_reasons: "is_usable r \<Longrightarrow> instrument_status_fault_reasons r = []"
  by (simp add: is_usable_def instrument_status_fault_reasons_def)

lemma fault_reasons_bounded: "length (instrument_status_fault_reasons r) \<le> 8"
  by (auto simp: instrument_status_fault_reasons_def
      split: if_splits option.splits pyval.splits)

lemma fault_reasons_nonempty_text:
  "x \<in> set (instrument_status_fault_reasons r) \<Longrightarrow> x \<noteq> []"
  by (auto simp: instrument_status_fault_reasons_def
      split: if_splits option.splits pyval.splits)

section \<open>SMU channels\<close>

datatype smu_channel = smua | smub

instantiation smu_channel :: linorder
begin

definition less_eq_smu_channel :: "smu_channel \<Rightarrow> smu_channel \<Rightarrow> bool" where
  "less_eq_smu_channel a b = (a = smua \<or> b = smub)"

definition less_smu_channel :: "smu_channel \<Rightarrow> smu_channel \<Rightarrow> bool" where
  "less_smu_channel a b = (a = smua \<and> b = smub)"

instance
proof
  fix a b c :: smu_channel
  show "(a < b) = (a \<le> b \<and> \<not> b \<le> a)"
    by (cases a; cases b) (simp_all add: less_eq_smu_channel_def less_smu_channel_def)
  show "a \<le> a"
    by (cases a) (simp_all add: less_eq_smu_channel_def)
  show "a \<le> b \<Longrightarrow> b \<le> c \<Longrightarrow> a \<le> c"
    by (cases a; cases b; cases c) (simp_all add: less_eq_smu_channel_def)
  show "a \<le> b \<Longrightarrow> b \<le> a \<Longrightarrow> a = b"
    by (cases a; cases b) (simp_all add: less_eq_smu_channel_def)
  show "a \<le> b \<or> b \<le> a"
    by (cases a; cases b) (simp_all add: less_eq_smu_channel_def)
qed

end

definition SMU_CHANNELS :: "smu_channel list" where
  "SMU_CHANNELS = [smua, smub]"

lemma set_SMU_CHANNELS [simp]: "set SMU_CHANNELS = UNIV"
  using smu_channel.exhaust by (auto simp: SMU_CHANNELS_def)

fun smu_name :: "smu_channel \<Rightarrow> string" where
  "smu_name smua = ''smua''"
| "smu_name smub = ''smub''"

text \<open>
  \<open>str.strip()\<close> and \<open>str.lower()\<close> on ASCII text (the whitespace and the case pairs outside
  ASCII are not modelled).
\<close>

definition py_isspace :: "char \<Rightarrow> bool" where
  "py_isspace c = (let n = (of_char c :: nat) in n = 32 \<or> (9 \<le> n \<and> n \<le> 13) \<or> (28 \<le> n \<and> n \<le> 31))"

definition py_strip :: "string \<Rightarrow> string" where
  "py_strip s = rev (dropWhile py_isspace (rev (dropWhile py_isspace s)))"

definition py_lower_char :: "char \<Rightarrow> char" where
  "py_lower_char c =
     (let n = (of_char c :: nat) in if 65 \<le> n \<and> n \<le> 90 then char_of (n + 32) else c)"

definition py_lower :: "string \<Rightarrow> string" where
  "py_lower s = map py_lower_char s"

definition normalize_smu_channel :: "string option \<Rightarrow> smu_channel result" where
  "normalize_smu_channel channel =
     (let value = py_lower (py_strip (case channel of None \<Rightarrow> ''smua''
                                      | Some s \<Rightarrow> if s = [] then ''smua'' else s))
      in if value = ''smua'' then Inr smua
         else if value = ''smub'' then Inr smub
         else Inl (ValueError ''Invalid Keithley channel''))"

text \<open>C-level facts: the default channel, round trip through the name, case folding.\<close>

lemma normalize_none: "normalize_smu_channel None = Inr smua"
  by code_simp

lemma normalize_smua: "normalize_smu_channel (Some ''smua'') = Inr smua"
  by code_simp

lemma normalize_smub: "normalize_smu_channel (Some ''smub'') = Inr smub"
  by code_simp

lemma normalize_name: "normalize_smu_channel (Some (smu_name c)) = Inr c"
  by (cases c) (simp_all add: normalize_smua normalize_smub)

lemma normalize_invalid: "normalize_smu_channel (Some ''smuc'') = Inl (ValueError ''Invalid Keithley channel'')"
  by code_simp

end
