(* ===== verification/Rate.thy ===== *)
theory Rate
  imports Readings
begin

text \<open>
  \<open>RateEstimator\<close> of \<^verbatim>\<open>src/cryodaq/core/rate_estimator.py\<close>: per-channel sliding windows of
  (timestamp, value) samples with a clock-jump guard, and the ordinary least squares slope over
  them. The state is the record \<open>rate_est\<close>; \<open>rate_push\<close>, \<open>get_rate\<close> and \<open>get_rate_custom_window\<close>
  are the operations. Timestamps are finite (they come from \<open>datetime.timestamp()\<close>); values may
  be non-finite.
\<close>

section \<open>State\<close>

type_synonym sample = "real \<times> pyfloat"

record rate_est =
  re_window_s :: real
  re_min_points :: nat
  re_min_span_s :: "real option"
  re_clock_jump_poll_factor :: real
  re_maxlen :: nat
  re_drift_reset_count :: nat
  re_buffers :: "sample list dict"
  re_consec_drops :: "nat dict"
  re_last_rate :: "pyfloat dict"
  re_serve_stale :: "bool dict"
  re_short_to_full :: "string dict"

definition rate_init :: "real \<Rightarrow> nat \<Rightarrow> real option \<Rightarrow> real \<Rightarrow> rate_est" where
  "rate_init window_s min_points min_span_s factor =
     \<lparr> re_window_s = window_s, re_min_points = min_points, re_min_span_s = min_span_s,
       re_clock_jump_poll_factor = factor,
       re_maxlen = nat (max 500 (py_int (window_s * 20) + 100)),
       re_drift_reset_count = 5,
       re_buffers = [], re_consec_drops = [], re_last_rate = [], re_serve_stale = [],
       re_short_to_full = [] \<rparr>"

section \<open>Classifying a timestamp\<close>

datatype decision = DOk | DDrop | DReset

text \<open>\<open>statistics.median\<close> of a non-empty list.\<close>

definition median :: "real list \<Rightarrow> real" where
  "median xs =
     (let ys = sort xs; n = length ys
      in if odd n then ys ! (n div 2) else (ys ! (n div 2 - 1) + ys ! (n div 2)) / 2)"

definition sample_gaps :: "sample list \<Rightarrow> real list" where
  "sample_gaps buf = map (\<lambda>i. fst (buf ! (i + 1)) - fst (buf ! i)) [0..<length buf - 1]"

definition clock_jump_decision :: "real \<Rightarrow> sample list \<Rightarrow> real \<Rightarrow> decision" where
  "clock_jump_decision factor buf timestamp =
     (let gap = timestamp - fst (last buf);
          period = (if 2 \<le> length buf then median (sample_gaps buf) else 0)
      in if 0 \<le> gap then
           (if 0 < period \<and> factor * period < gap then DReset else DOk)
         else
           (let tolerance = max 1 (0.5 * period)
            in if - gap \<le> tolerance then DDrop else DReset))"

section \<open>Adding a sample\<close>

text \<open>The tail of \<open>push\<close>: append, end the drop streak, trim to the window, index the name.\<close>

definition rate_accept :: "rate_est \<Rightarrow> string \<Rightarrow> sample list \<Rightarrow> real \<Rightarrow> pyfloat \<Rightarrow> rate_est" where
  "rate_accept e channel buf timestamp value =
     (let cutoff = timestamp - re_window_s e;
          buf' = dropWhile (\<lambda>p. fst p < cutoff) (dq_append (re_maxlen e) (timestamp, value) buf);
          short = short_name channel
      in e\<lparr> re_buffers := dict_set channel buf' (re_buffers e),
            re_consec_drops := dict_set channel 0 (re_consec_drops e),
            re_short_to_full := (if short \<noteq> channel then dict_set short channel (re_short_to_full e)
                                 else re_short_to_full e) \<rparr>)"

definition rate_push :: "rate_est \<Rightarrow> string \<Rightarrow> real \<Rightarrow> pyfloat \<Rightarrow> rate_est" where
  "rate_push e channel timestamp value =
     (let buf = dict_getd (re_buffers e) channel []
      in if buf = [] then rate_accept e channel [] timestamp value
         else
           (case clock_jump_decision (re_clock_jump_poll_factor e) buf timestamp of
              DDrop \<Rightarrow>
                (let drops = dict_getd (re_consec_drops e) channel 0 + 1
                 in if drops < re_drift_reset_count e
                    then e\<lparr> re_consec_drops := dict_set channel drops (re_consec_drops e) \<rparr>
                    else rate_accept e channel [] timestamp value)
            | DReset \<Rightarrow>
                (let e' = (if 0 < timestamp - fst (last buf)
                           then e\<lparr> re_serve_stale := dict_set channel True (re_serve_stale e) \<rparr>
                           else e)
                 in rate_accept e' channel [] timestamp value)
            | DOk \<Rightarrow> rate_accept e channel buf timestamp value))"

section \<open>The least squares slope\<close>

definition ols_slope_per_min :: "sample list \<Rightarrow> pyfloat option" where
  "ols_slope_per_min points =
     (let n = length points
      in if n < 2 then None
         else
           (let t0 = fst (hd points);
                ts = map (\<lambda>p. fst p - t0) points;
                vs = map snd points;
                t_mean = sum_list ts / real n
            in case fl_div (fl_sum vs) (Fin (real n)) of
                 Inl _ \<Rightarrow> None
               | Inr v_mean \<Rightarrow>
                   (let num = fl_sum (map2 (\<lambda>t v. fl_mul (Fin (t - t_mean)) (fl_sub v v_mean)) ts vs);
                        den = sum_list (map (\<lambda>t. (t - t_mean) ^ 2) ts)
                    in if den = 0 \<or> fl_isnan num then None
                       else (case fl_div num (Fin den) of
                               Inl _ \<Rightarrow> None
                             | Inr slope_per_sec \<Rightarrow> Some (fl_mul slope_per_sec (Fin 60))))))"

section \<open>Queries\<close>

definition rate_resolve_channel :: "rate_est \<Rightarrow> string \<Rightarrow> string" where
  "rate_resolve_channel e channel =
     (if dict_get (re_buffers e) channel \<noteq> None then channel
      else dict_getd (re_short_to_full e) channel channel)"

definition span_below :: "real option \<Rightarrow> sample list \<Rightarrow> bool" where
  "span_below min_span buf =
     (case min_span of None \<Rightarrow> False | Some s \<Rightarrow> fst (last buf) - fst (hd buf) < s)"

definition rate_insufficient :: "rate_est \<Rightarrow> sample list \<Rightarrow> bool" where
  "rate_insufficient e buf =
     (buf = [] \<or> length buf < re_min_points e \<or> span_below (re_min_span_s e) buf)"

definition get_rate :: "rate_est \<Rightarrow> string \<Rightarrow> pyfloat option \<times> rate_est" where
  "get_rate e channel0 =
     (let channel = rate_resolve_channel e channel0;
          buf = dict_getd (re_buffers e) channel []
      in if rate_insufficient e buf then
           (if dict_getd (re_serve_stale e) channel False
               \<and> dict_get (re_last_rate e) channel \<noteq> None
            then (dict_get (re_last_rate e) channel, e)
            else (None, e))
         else
           (case ols_slope_per_min buf of
              None \<Rightarrow> (None, e)
            | Some rate \<Rightarrow>
                (Some rate, e\<lparr> re_last_rate := dict_set channel rate (re_last_rate e),
                               re_serve_stale := dict_set channel False (re_serve_stale e) \<rparr>)))"

definition get_rate_custom_window :: "rate_est \<Rightarrow> string \<Rightarrow> real \<Rightarrow> pyfloat option" where
  "get_rate_custom_window e channel0 window_s =
     (let channel = rate_resolve_channel e channel0;
          buf = dict_getd (re_buffers e) channel []
      in if buf = [] then None
         else
           (let cutoff = fst (last buf) - window_s;
                points = filter (\<lambda>p. cutoff \<le> fst p) buf
            in if length points < re_min_points e then None
               else if span_below (re_min_span_s e) points then None
               else ols_slope_per_min points))"

definition rate_channels :: "rate_est \<Rightarrow> string list" where
  "rate_channels e = dict_keys (re_buffers e)"

definition rate_buffer_size :: "rate_est \<Rightarrow> string \<Rightarrow> nat" where
  "rate_buffer_size e channel =
     length (dict_getd (re_buffers e) (rate_resolve_channel e channel) [])"

section \<open>The buffer invariant\<close>

text \<open>
  A stored buffer is never empty, its timestamps never go backwards, it fits the deque bound, and
  every sample lies within the window before the newest one. The drop counter stays below the
  drift limit.
\<close>

definition buf_ok :: "rate_est \<Rightarrow> sample list \<Rightarrow> bool" where
  "buf_ok e buf =
     (buf \<noteq> [] \<and> sorted (map fst buf) \<and> length buf \<le> re_maxlen e
      \<and> (\<forall>p \<in> set buf. fst (last buf) - re_window_s e \<le> fst p))"

definition rate_params_ok :: "rate_est \<Rightarrow> bool" where
  "rate_params_ok e = (0 \<le> re_window_s e \<and> 0 < re_maxlen e \<and> 0 < re_drift_reset_count e)"

definition rate_inv :: "rate_est \<Rightarrow> bool" where
  "rate_inv e =
     (rate_params_ok e \<and> dict_ok (re_buffers e)
      \<and> (\<forall>ch buf. dict_get (re_buffers e) ch = Some buf \<longrightarrow> buf_ok e buf)
      \<and> (\<forall>ch n. dict_get (re_consec_drops e) ch = Some n \<longrightarrow> n < re_drift_reset_count e))"

lemma sorted_map_fst_append:
  "sorted (map fst (xs @ [p])) \<longleftrightarrow>
     sorted (map fst xs) \<and> (\<forall>q \<in> set xs. fst q \<le> (fst p :: real))"
  by (auto simp: sorted_append)

lemma sorted_le_last: "sorted (map fst xs) \<Longrightarrow> p \<in> set xs \<Longrightarrow> (fst p :: real) \<le> fst (last xs)"
proof (induction xs rule: rev_induct)
  case (snoc x xs)
  then show ?case by (auto simp: sorted_append)
qed simp

lemma sorted_dropWhile: "sorted (map f xs) \<Longrightarrow> sorted (map f (dropWhile P xs))"
  by (induction xs) auto

lemma dropWhile_append_snoc: "\<not> P x \<Longrightarrow> dropWhile P (xs @ [x]) = dropWhile P xs @ [x]"
  by (induction xs) auto

lemma sorted_dropWhile_ge:
  "sorted (map fst xs) \<Longrightarrow> p \<in> set (dropWhile (\<lambda>q. fst q < (c::real)) xs) \<Longrightarrow> c \<le> fst p"
  by (induction xs) (auto split: if_splits)

lemma drop_snoc: "n \<le> length xs \<Longrightarrow> drop n (xs @ [x]) = drop n xs @ [x]"
  by simp

lemma dq_append_snoc: "0 < n \<Longrightarrow> dq_append n x xs = drop (Suc (length xs) - n) xs @ [x]"
  by (simp add: dq_append_def Let_def)

text \<open>What \<open>rate_accept\<close> stores, when the sample is not older than the buffer.\<close>

lemma accepted_buf_ok:
  assumes params: "rate_params_ok e"
    and srt: "sorted (map fst buf)"
    and le: "\<forall>p \<in> set buf. fst p \<le> t"
  shows "buf_ok e (dropWhile (\<lambda>p. fst p < t - re_window_s e) (dq_append (re_maxlen e) (t, v) buf))"
proof -
  let ?P = "\<lambda>p :: sample. fst p < t - re_window_s e"
  let ?d = "drop (Suc (length buf) - re_maxlen e) buf"
  let ?b = "dropWhile ?P (?d @ [(t, v)])"
  have eq: "dq_append (re_maxlen e) (t, v) buf = ?d @ [(t, v)]"
    using params by (simp add: dq_append_snoc rate_params_ok_def)
  have snoc: "?b = dropWhile ?P ?d @ [(t, v)]"
    using params by (intro dropWhile_append_snoc) (simp add: rate_params_ok_def)
  have "sorted (map fst ?d)"
    using srt by (simp add: drop_map [symmetric] sorted_wrt_drop)
  moreover have "\<forall>q \<in> set ?d. fst q \<le> t"
    using le by (auto dest: in_set_dropD)
  ultimately have srt': "sorted (map fst (?d @ [(t, v)]))"
    unfolding sorted_map_fst_append by simp
  have "length ?b \<le> length (?d @ [(t, v)])"
    by (rule length_dropWhile_le)
  also have "\<dots> \<le> re_maxlen e"
    using params by (auto simp: rate_params_ok_def)
  finally have len: "length ?b \<le> re_maxlen e" .
  have "sorted (map fst ?b)"
    using srt' by (rule sorted_dropWhile)
  moreover have "\<forall>p \<in> set ?b. t - re_window_s e \<le> fst p"
    using sorted_dropWhile_ge [OF srt'] by blast
  moreover have "last ?b = (t, v)"
    by (simp add: snoc)
  ultimately show ?thesis
    using len by (simp add: buf_ok_def eq snoc)
qed

lemma dict_getd_nonempty: "dict_getd d ch [] = buf \<Longrightarrow> buf \<noteq> [] \<Longrightarrow> dict_get d ch = Some buf"
  by (auto simp: dict_getd_def split: option.splits)

lemma rate_accept_inv:
  assumes inv: "rate_inv e"
    and srt: "sorted (map fst buf)" and le: "\<forall>p \<in> set buf. fst p \<le> t"
  shows "rate_inv (rate_accept e ch buf t v)"
proof -
  have "rate_params_ok e" using inv by (simp add: rate_inv_def)
  note ok = accepted_buf_ok [OF this srt le, of v]
  show ?thesis
    using inv ok
    by (auto simp: rate_inv_def rate_accept_def Let_def rate_params_ok_def buf_ok_def dict_get_set)
qed

lemma rate_inv_serve_stale [simp]: "rate_inv (e\<lparr>re_serve_stale := x\<rparr>) = rate_inv e"
  by (simp add: rate_inv_def rate_params_ok_def buf_ok_def)

lemma rate_inv_last_rate [simp]: "rate_inv (e\<lparr>re_last_rate := x\<rparr>) = rate_inv e"
  by (simp add: rate_inv_def rate_params_ok_def buf_ok_def)

lemma rate_inv_consec:
  "rate_inv e \<Longrightarrow> n < re_drift_reset_count e \<Longrightarrow>
     rate_inv (e\<lparr>re_consec_drops := dict_set ch n (re_consec_drops e)\<rparr>)"
  by (auto simp: rate_inv_def rate_params_ok_def buf_ok_def dict_get_set)

lemma decision_ok_ge: "clock_jump_decision f buf t = DOk \<Longrightarrow> fst (last buf) \<le> t"
  by (auto simp: clock_jump_decision_def Let_def split: if_splits)

theorem rate_push_inv:
  assumes "rate_inv e"
  shows "rate_inv (rate_push e ch t v)"
proof (cases "dict_getd (re_buffers e) ch [] = []")
  case True
  with assms show ?thesis by (simp add: rate_push_def rate_accept_inv)
next
  case False
  let ?buf = "dict_getd (re_buffers e) ch []"
  have "dict_get (re_buffers e) ch = Some ?buf"
    using dict_getd_nonempty [OF refl False] .
  then have ok: "buf_ok e ?buf"
    using assms by (auto simp: rate_inv_def)
  show ?thesis
  proof (cases "clock_jump_decision (re_clock_jump_poll_factor e) ?buf t")
    case DOk
    have "fst (last ?buf) \<le> t" using DOk by (rule decision_ok_ge)
    then have "\<forall>p \<in> set ?buf. fst p \<le> t"
      using ok sorted_le_last by (fastforce simp: buf_ok_def)
    moreover have "sorted (map fst ?buf)" using ok by (simp add: buf_ok_def)
    ultimately show ?thesis
      using False DOk assms by (simp add: rate_push_def rate_accept_inv)
  next
    case DDrop
    then show ?thesis
      using False assms by (simp add: rate_push_def rate_accept_inv rate_inv_consec Let_def)
  next
    case DReset
    then show ?thesis
      using False assms by (simp add: rate_push_def rate_accept_inv Let_def)
  qed
qed

lemma rate_init_inv: "0 \<le> w \<Longrightarrow> rate_inv (rate_init w m s f)"
  by (simp add: rate_init_def rate_inv_def rate_params_ok_def)

text \<open>A whole history of samples, in arrival order.\<close>

definition rate_pushes :: "rate_est \<Rightarrow> (string \<times> real \<times> pyfloat) list \<Rightarrow> rate_est" where
  "rate_pushes e xs = foldl (\<lambda>a (ch, t, v). rate_push a ch t v) e xs"

lemma rate_pushes_inv: "rate_inv e \<Longrightarrow> rate_inv (rate_pushes e xs)"
  by (induction xs arbitrary: e) (auto simp: rate_pushes_def rate_push_inv)

lemma rate_push_params [simp]:
  "re_window_s (rate_push e ch t v) = re_window_s e"
  "re_min_points (rate_push e ch t v) = re_min_points e"
  "re_min_span_s (rate_push e ch t v) = re_min_span_s e"
  "re_maxlen (rate_push e ch t v) = re_maxlen e"
  "re_drift_reset_count (rate_push e ch t v) = re_drift_reset_count e"
  "re_last_rate (rate_push e ch t v) = re_last_rate e"
  by (auto simp: rate_push_def rate_accept_def Let_def split: decision.splits)

lemma rate_pushes_params [simp]:
  "re_window_s (rate_pushes e xs) = re_window_s e"
  "re_drift_reset_count (rate_pushes e xs) = re_drift_reset_count e"
  "re_maxlen (rate_pushes e xs) = re_maxlen e"
  by (induction xs arbitrary: e) (auto simp: rate_pushes_def)

text \<open>
  in every buffer the estimator ever holds, timestamps are non-decreasing, the length is
  within the deque bound, no sample is older than the window, and no channel has dropped as many
  samples in a row as the drift limit.
\<close>

theorem rate_history_bounded:
  assumes "0 \<le> w"
    and "dict_get (re_buffers (rate_pushes (rate_init w m s f) xs)) ch = Some buf"
  shows "buf \<noteq> [] \<and> sorted (map fst buf)
    \<and> length buf \<le> nat (max 500 (py_int (w * 20) + 100))
    \<and> (\<forall>p \<in> set buf. fst (last buf) - w \<le> fst p)
    \<and> dict_getd (re_consec_drops (rate_pushes (rate_init w m s f) xs)) ch 0 < 5"
proof -
  let ?e = "rate_pushes (rate_init w m s f) xs"
  have inv: "rate_inv ?e"
    using assms(1) by (intro rate_pushes_inv rate_init_inv)
  then have "buf_ok ?e buf"
    using assms(2) by (auto simp: rate_inv_def)
  moreover have "dict_getd (re_consec_drops ?e) ch 0 < 5"
    using inv
    by (auto simp: rate_inv_def dict_getd_def rate_init_def split: option.splits)
  ultimately show ?thesis
    by (simp add: buf_ok_def rate_init_def)
qed

theorem rate_history_bounded_witness:
  "sorted (map fst [(0::real, Fin 1), (1, Fin 2)])
   \<and> dict_get (re_buffers (rate_pushes (rate_init 120 2 None 4)
        [(''c'', 0, Fin 1), (''c'', 1, Fin 2)])) ''c'' = Some [(0, Fin 1), (1, Fin 2)]"
proof -
  have h: "dict_get (re_buffers (rate_pushes (rate_init 120 2 None 4)
        [(''c'', 0, Fin 1), (''c'', 1, Fin 2)])) ''c'' = Some [(0, Fin 1), (1, Fin 2)]"
    by (simp add: rate_pushes_def rate_init_def rate_push_def rate_accept_def Let_def dict_getd_def
        dq_append_def clock_jump_decision_def py_int_def short_name_def)
  show ?thesis
    using rate_history_bounded [OF _ h] h by simp
qed

section \<open>No channel goes blind\<close>

definition rate_newest :: "rate_est \<Rightarrow> string \<Rightarrow> sample option" where
  "rate_newest e ch =
     (case dict_get (re_buffers e) ch of Some (p # ps) \<Rightarrow> Some (last (p # ps)) | _ \<Rightarrow> None)"

lemma accepted_last:
  fixes v :: pyfloat
  assumes "rate_params_ok e"
  shows "last (dropWhile (\<lambda>p. fst p < t - re_window_s e) (dq_append (re_maxlen e) (t, v) buf)) = (t, v)
    \<and> dropWhile (\<lambda>p. fst p < t - re_window_s e) (dq_append (re_maxlen e) (t, v) buf) \<noteq> []"
proof -
  let ?P = "\<lambda>p :: sample. fst p < t - re_window_s e"
  let ?d = "drop (Suc (length buf) - re_maxlen e) buf"
  have "dropWhile ?P (?d @ [(t, v)]) = dropWhile ?P ?d @ [(t, v)]"
    using assms by (intro dropWhile_append_snoc) (simp add: rate_params_ok_def)
  moreover have "dq_append (re_maxlen e) (t, v) buf = ?d @ [(t, v)]"
    using assms by (simp add: dq_append_snoc rate_params_ok_def)
  ultimately show ?thesis by simp
qed

lemma rate_accept_newest:
  "rate_params_ok e \<Longrightarrow> rate_newest (rate_accept e ch buf t v) ch = Some (t, v)"
  using accepted_last [of e t v buf]
  by (auto simp: rate_newest_def rate_accept_def Let_def split: list.splits)

lemma rate_accept_drops: "dict_getd (re_consec_drops (rate_accept e ch buf t v)) ch 0 = 0"
  by (simp add: rate_accept_def Let_def)

lemma rate_push_cases:
  assumes "rate_params_ok e"
  shows "(rate_newest (rate_push e ch t v) ch = Some (t, v)
            \<and> dict_getd (re_consec_drops (rate_push e ch t v)) ch 0 = 0)
       \<or> (re_buffers (rate_push e ch t v) = re_buffers e
            \<and> dict_getd (re_consec_drops (rate_push e ch t v)) ch 0
                = dict_getd (re_consec_drops e) ch 0 + 1
            \<and> dict_getd (re_consec_drops e) ch 0 + 1 < re_drift_reset_count e)"
proof -
  have "rate_params_ok (e\<lparr>re_serve_stale := x\<rparr>)" for x
    using assms by (simp add: rate_params_ok_def)
  note new = rate_accept_newest [OF assms] rate_accept_newest [OF this]
  show ?thesis
    by (auto simp: rate_push_def Let_def new rate_accept_drops split: decision.splits)
qed

lemma rate_pushes_snoc: "rate_pushes e (xs @ [(ch, t, v)]) = rate_push (rate_pushes e xs) ch t v"
  by (simp add: rate_pushes_def)

lemma rate_push_params_ok: "rate_params_ok e \<Longrightarrow> rate_params_ok (rate_push e ch t v)"
  by (simp add: rate_params_ok_def)

lemma rate_pushes_params_ok: "rate_params_ok e \<Longrightarrow> rate_params_ok (rate_pushes e xs)"
  by (simp add: rate_params_ok_def)

lemma all_dropped_count:
  assumes "rate_params_ok e" and "xs \<noteq> []"
    and "\<forall>k < length xs. rate_newest (rate_pushes e (map (\<lambda>(t, v). (ch, t, v)) (take (Suc k) xs))) ch
            \<noteq> Some (xs ! k)"
  shows "length xs \<le> dict_getd (re_consec_drops (rate_pushes e (map (\<lambda>(t, v). (ch, t, v)) xs))) ch 0
    \<and> dict_getd (re_consec_drops (rate_pushes e (map (\<lambda>(t, v). (ch, t, v)) xs))) ch 0
        < re_drift_reset_count e"
  using assms
proof (induction xs rule: rev_induct)
  case (snoc x xs)
  obtain t v where x: "x = (t, v)" by (cases x)
  let ?p = "rate_pushes e (map (\<lambda>(t, v). (ch, t, v)) xs)"
  have prem: "\<forall>k < length xs. rate_newest (rate_pushes e
      (map (\<lambda>(t, v). (ch, t, v)) (take (Suc k) xs))) ch \<noteq> Some (xs ! k)"
  proof (intro allI impI)
    fix k assume k: "k < length xs"
    show "rate_newest (rate_pushes e (map (\<lambda>(t, v). (ch, t, v)) (take (Suc k) xs))) ch \<noteq> Some (xs ! k)"
      using snoc.prems(3) [rule_format, of k] k by (simp add: nth_append)
  qed
  have last: "rate_newest (rate_push ?p ch t v) ch \<noteq> Some (t, v)"
    using snoc.prems(3) [rule_format, of "length xs"] by (simp add: x rate_pushes_snoc)
  have "length xs \<le> dict_getd (re_consec_drops ?p) ch 0"
    using snoc.IH [OF snoc.prems(1) _ prem] by (cases "xs = []") auto
  then show ?case
    using rate_push_cases [OF rate_pushes_params_ok [OF snoc.prems(1)],
        of "map (\<lambda>(t, v). (ch, t, v)) xs" ch t v] last
    by (simp add: x rate_pushes_snoc)
qed simp

text \<open>
  C31: blindness to backward clock drift is bounded. Among any run of consecutive samples of one
  channel as long as the drift limit (5), at least one is stored as the newest sample of the
  channel's buffer, whatever the timestamps are.
\<close>

theorem rate_drift_bounded:
  assumes "rate_params_ok e" and "re_drift_reset_count e \<le> length xs"
  shows "\<exists>k < length xs.
    rate_newest (rate_pushes e (map (\<lambda>(t, v). (ch, t, v)) (take (Suc k) xs))) ch = Some (xs ! k)"
proof (rule ccontr)
  assume "\<not> ?thesis"
  moreover have "xs \<noteq> []" using assms by (auto simp: rate_params_ok_def)
  ultimately show False
    using all_dropped_count [OF assms(1), of xs ch] assms(2) by fastforce
qed

theorem rate_drift_bounded_witness:
  "\<exists>k < length (replicate 5 (0::real, Fin 1)).
     rate_newest (rate_pushes (rate_init 120 8 (Some 30) 4)
       (map (\<lambda>(t, v). (''c'', t, v)) (take (Suc k) (replicate 5 (0, Fin 1))))) ''c''
     = Some (replicate 5 (0, Fin 1) ! k)"
  by (rule rate_drift_bounded) (simp_all add: rate_init_def rate_params_ok_def)

section \<open>The slope\<close>

lemma map2_fin:
  "map2 (\<lambda>t v. fl_mul (Fin (t - m)) (fl_sub v (Fin w))) ts (map Fin vs)
     = map Fin (map2 (\<lambda>t v. (t - m) * (v - w)) ts vs)"
  by (induction ts vs rule: list_induct2') auto

text \<open>On finite samples the routine is the textbook formula over the reals.\<close>

lemma map_fst_zip_with: "length ts = length vs \<Longrightarrow> map (\<lambda>p. f (fst p)) (zip ts vs) = map f ts"
  by (induction ts vs rule: list_induct2) auto

lemma ols_finite:
  assumes len: "length ts = length vs" and two: "2 \<le> length ts"
  shows "ols_slope_per_min (zip ts (map Fin vs)) =
    (let n = real (length ts); rs = map (\<lambda>t. t - hd ts) ts; m = sum_list rs / n;
         w = sum_list vs / n; den = sum_list (map (\<lambda>t. (t - m)^2) rs)
     in if den = 0 then None
        else Some (Fin (sum_list (map2 (\<lambda>t v. (t - m) * (v - w)) rs vs) / den * 60)))"
proof -
  have ne: "ts \<noteq> []" "vs \<noteq> []" using len two by (cases ts; cases vs; auto)+
  have hd: "fst (hd (zip ts (map Fin vs))) = hd ts"
    using ne by (cases ts; cases vs) auto
  have fsts: "map (\<lambda>p. fst p - hd ts) (zip ts (map Fin vs)) = map (\<lambda>t. t - hd ts) ts"
    using len by (intro map_fst_zip_with) simp
  have snds: "map snd (zip ts (map Fin vs)) = map Fin vs"
    using len by simp
  have n: "real (length ts) \<noteq> 0" using two by linarith
  show ?thesis
    using two n len
    by (simp add: ols_slope_per_min_def Let_def hd fsts snds map2_fin fl_isnan_def
        fl_div_Fin del: map_map)
qed

lemma sum_list_affine: "sum_list (map (\<lambda>t. a + b * t) ts) = real (length ts) * a + b * sum_list ts"
  by (induction ts) (auto simp: algebra_simps)

lemma sum_list_shift: "sum_list (map (\<lambda>t. t - h) ts) = sum_list ts - real (length ts) * h"
  by (induction ts) (auto simp: algebra_simps)

lemma sum_map2_affine:
  "sum_list (map2 (\<lambda>r v. (r - m) * (v - (a + b * (m + h)))) (map (\<lambda>t. t - h) ts) (map (\<lambda>t. a + b * t) ts))
     = b * sum_list (map (\<lambda>r. (r - m)^2) (map (\<lambda>t. t - h) ts))"
  for m a b h :: real
  by (induction ts) (auto simp: algebra_simps power2_eq_square)

lemma sum_squares_zero:
  "sum_list (map (\<lambda>r. (r - m)^2) rs) = 0 \<longleftrightarrow> (\<forall>r \<in> set rs. r = (m::real))"
  by (subst sum_list_nonneg_eq_0_iff) auto

lemma all_eq_mean:
  "rs \<noteq> [] \<Longrightarrow> \<forall>r \<in> set rs. r = (c::real) \<Longrightarrow> sum_list rs / real (length rs) = c"
proof -
  assume "rs \<noteq> []" "\<forall>r \<in> set rs. r = c"
  moreover have "\<forall>r \<in> set rs. r = c \<Longrightarrow> sum_list rs = real (length rs) * c"
    by (induction rs) (auto simp: algebra_simps)
  ultimately show ?thesis by simp
qed

lemma den_zero_iff:
  assumes "ts \<noteq> []"
  shows "sum_list (map (\<lambda>r. (r - sum_list (map (\<lambda>t. t - h) ts) / real (length ts))^2) (map (\<lambda>t. t - h) ts)) = 0
     \<longleftrightarrow> (\<exists>c. \<forall>t \<in> set ts. t = (c::real))"
    (is "?l = 0 \<longleftrightarrow> ?r")
proof
  assume "?l = 0"
  then have "\<forall>r \<in> set (map (\<lambda>t. t - h) ts). r = sum_list (map (\<lambda>t. t - h) ts) / real (length ts)"
    by (rule sum_squares_zero [THEN iffD1])
  then have "\<forall>t \<in> set ts. t = sum_list (map (\<lambda>t. t - h) ts) / real (length ts) + h"
    by (auto simp: algebra_simps)
  then show ?r by blast
next
  assume ?r
  then obtain c where "\<forall>t \<in> set ts. t = c" by blast
  then have c: "\<forall>r \<in> set (map (\<lambda>t. t - h) ts). r = c - h" by auto
  have "sum_list (map (\<lambda>t. t - h) ts) / real (length (map (\<lambda>t. t - h) ts)) = c - h"
    using assms c by (intro all_eq_mean) auto
  then show "?l = 0"
    unfolding sum_squares_zero using c by simp
qed

text \<open>
  the slope is defined exactly when at least two samples exist and their timestamps are not all
  equal, for finite values.
\<close>

theorem ols_defined_iff:
  assumes "length ts = length vs"
  shows "ols_slope_per_min (zip ts (map Fin vs)) \<noteq> None
    \<longleftrightarrow> 2 \<le> length ts \<and> \<not> (\<exists>c. \<forall>t \<in> set ts. t = c)"
proof (cases "2 \<le> length ts")
  case True
  then have "ts \<noteq> []" by auto
  then show ?thesis
    using True ols_finite [OF assms True] den_zero_iff [of ts "hd ts"]
    by (simp add: Let_def)
next
  case False
  with assms show ?thesis by (simp add: ols_slope_per_min_def)
qed

theorem ols_defined_iff_witness:
  "length [0::real, 1] = length [3::real, 5] \<and> ols_slope_per_min (zip [0, 1] (map Fin [3, 5])) \<noteq> None"
  using ols_defined_iff [of "[0, 1]" "[3, 5]"] by auto

text \<open>
  on samples of an exact line \<open>a + b t\<close>, at two distinct times or more, the estimate is the
  slope per minute, \<open>60 b\<close>.
\<close>

theorem ols_exact_line:
  assumes two: "2 \<le> length ts" and distinct_times: "\<not> (\<exists>c. \<forall>t \<in> set ts. t = c)"
  shows "ols_slope_per_min (zip ts (map (\<lambda>t. Fin (a + b * t)) ts)) = Some (Fin (60 * b))"
proof -
  let ?vs = "map (\<lambda>t. a + b * t) ts" and ?n = "real (length ts)"
  let ?rs = "map (\<lambda>t. t - hd ts) ts"
  let ?m = "sum_list ?rs / ?n"
  have n: "?n \<noteq> 0" and ne: "ts \<noteq> []" using two by (linarith, cases ts, auto)
  have w: "sum_list ?vs / ?n = a + b * (?m + hd ts)"
    unfolding sum_list_affine sum_list_shift using n by (simp add: field_simps)
  let ?den = "sum_list (map (\<lambda>r. (r - ?m)^2) ?rs)"
  have den: "?den \<noteq> 0"
    using den_zero_iff [OF ne] distinct_times by blast
  have "ols_slope_per_min (zip ts (map Fin ?vs)) =
      (if ?den = 0 then None
       else Some (Fin (sum_list (map2 (\<lambda>r v. (r - ?m) * (v - (a + b * (?m + hd ts)))) ?rs ?vs) / ?den * 60)))"
    using ols_finite [of ts ?vs, OF _ two] unfolding Let_def length_map w by simp
  also have "\<dots> = Some (Fin (b * ?den / ?den * 60))"
    unfolding sum_map2_affine using den by (simp only: if_False)
  also have "\<dots> = Some (Fin (60 * b))"
    using den by simp
  finally show ?thesis
    by (simp add: comp_def)
qed

theorem ols_exact_line_witness:
  "ols_slope_per_min (zip [0, 10] (map (\<lambda>t. Fin (4 + (1/2) * t)) [0, 10])) = Some (Fin 30)"
  using ols_exact_line [of "[0, 10]" 4 "1/2"] by auto

section \<open>Keeping the limit armed\<close>

text \<open>
  after a forward clock jump the last computed rate keeps being served: a forward gap that
  resets the buffer leaves \<open>get_rate\<close> returning the last rate, not \<open>None\<close>.
\<close>

theorem forward_gap_keeps_rate:
  assumes buf: "dict_get (re_buffers e) ch = Some buf" and ne: "buf \<noteq> []"
    and jump: "clock_jump_decision (re_clock_jump_poll_factor e) buf t = DReset"
    and fwd: "fst (last buf) < t"
    and known: "dict_get (re_last_rate e) ch = Some r"
    and min2: "2 \<le> re_min_points e"
  shows "fst (get_rate (rate_push e ch t v) ch) = Some r"
proof -
  have push: "rate_push e ch t v =
      rate_accept (e\<lparr>re_serve_stale := dict_set ch True (re_serve_stale e)\<rparr>) ch [] t v"
    using buf ne jump fwd by (simp add: rate_push_def dict_getd_def Let_def)
  have "length (dict_getd (re_buffers (rate_push e ch t v)) ch []) \<le> 1"
    unfolding push
    by (auto simp: rate_accept_def Let_def dq_append_def
        intro: order_trans [OF length_dropWhile_le])
  then have "rate_insufficient (rate_push e ch t v) (dict_getd (re_buffers (rate_push e ch t v)) ch [])"
    using min2 by (simp add: rate_insufficient_def)
  moreover have "rate_resolve_channel (rate_push e ch t v) ch = ch"
    unfolding push by (simp add: rate_resolve_channel_def rate_accept_def Let_def)
  moreover have "dict_getd (re_serve_stale (rate_push e ch t v)) ch False"
    unfolding push by (simp add: rate_accept_def Let_def)
  ultimately show ?thesis
    using known by (simp add: get_rate_def Let_def)
qed

theorem forward_gap_keeps_rate_witness:
  "fst (get_rate (rate_push ((rate_init 120 2 None 4)\<lparr>
       re_buffers := [(''c'', [(0, Fin 4), (1, Fin 5)])], re_last_rate := [(''c'', Fin 60)]\<rparr>)
     ''c'' 10 (Fin 90)) ''c'') = Some (Fin 60)"
  by (rule forward_gap_keeps_rate [where buf = "[(0, Fin 4), (1, Fin 5)]"])
    (simp_all add: rate_init_def clock_jump_decision_def Let_def sample_gaps_def median_def)

text \<open>
  a rate is only computed afresh from a buffer that has the minimum number of points and spans
  the minimum time; otherwise the result is the stale rate or nothing.
\<close>

theorem get_rate_gate:
  assumes inv: "rate_inv e" and some: "get_rate e ch = (Some r, e')" and changed: "e' \<noteq> e"
  shows "\<exists>buf. dict_get (re_buffers e) (rate_resolve_channel e ch) = Some buf
    \<and> re_min_points e \<le> length buf \<and> 2 \<le> length buf
    \<and> (\<forall>s. re_min_span_s e = Some s \<longrightarrow> s \<le> fst (last buf) - fst (hd buf))
    \<and> ols_slope_per_min buf = Some r
    \<and> dict_get (re_last_rate e') (rate_resolve_channel e ch) = Some r"
proof -
  let ?ch = "rate_resolve_channel e ch"
  let ?buf = "dict_getd (re_buffers e) ?ch []"
  have suff: "\<not> rate_insufficient e ?buf"
    using some changed by (auto simp: get_rate_def Let_def split: if_splits)
  then have ne: "?buf \<noteq> []" by (simp add: rate_insufficient_def)
  have ols: "ols_slope_per_min ?buf = Some r" and e': "dict_get (re_last_rate e') ?ch = Some r"
    using some suff by (auto simp: get_rate_def Let_def split: option.splits)
  have "2 \<le> length ?buf"
    using ols by (auto simp: ols_slope_per_min_def Let_def split: if_splits)
  then show ?thesis
    using suff ols e' dict_getd_nonempty [OF refl ne]
    by (auto simp: rate_insufficient_def span_below_def not_less)
qed

theorem get_rate_gate_witness:
  "\<exists>buf. dict_get [(''c'', [(0::real, Fin 4), (1, Fin 5)])] ''c'' = Some buf \<and> 2 \<le> length buf"
proof -
  let ?e = "(rate_init 120 2 None 4)\<lparr>re_buffers := [(''c'', [(0, Fin 4), (1, Fin 5)])]\<rparr>"
  have ols: "ols_slope_per_min [(0, Fin 4), (1, Fin 5)] = Some (Fin 60)"
    using ols_exact_line [of "[0, 1]" 4 1] by auto
  have inv: "rate_inv ?e"
    by (auto simp: rate_init_def rate_inv_def rate_params_ok_def buf_ok_def dict_ok_def)
  have eq: "get_rate ?e ''c'' = (Some (Fin 60),
      ?e\<lparr>re_last_rate := [(''c'', Fin 60)], re_serve_stale := [(''c'', False)]\<rparr>)"
    by (simp add: get_rate_def Let_def rate_resolve_channel_def rate_insufficient_def
        dict_getd_def span_below_def rate_init_def ols)
  show ?thesis
    using get_rate_gate [OF inv eq] by (simp add: rate_resolve_channel_def rate_init_def)
qed

end
