(* ===== verification/Tracker.thy ===== *)
theory Tracker
  imports Readings
begin

text \<open>
  \<open>ChannelStateTracker\<close> of \<^verbatim>\<open>src/cryodaq/core/channel_state.py\<close>: the latest state per channel,
  its staleness, and the sliding window of fault timestamps. \<open>get\<close> and \<open>get_fault_count\<close> mutate the
  tracker (they refresh \<open>is_stale\<close> and trim the window), so they return it. \<open>now\<close> is the value of
  \<open>time.time()\<close> during the call.
\<close>

section \<open>State\<close>

record channel_state =
  cs_channel :: string
  cs_value :: pyfloat
  cs_timestamp :: real
  cs_unit :: string
  cs_instrument_id :: string
  cs_is_stale :: bool
  cs_fault_count_window :: nat

definition cs_is_usable :: "channel_state \<Rightarrow> bool" where
  "cs_is_usable s = (\<not> cs_is_stale s \<and> fl_isfinite (cs_value s))"

record tracker =
  tk_stale_timeout :: real
  tk_fault_window :: real
  tk_states :: "channel_state dict"
  tk_fault_history :: "real list dict"
  tk_short_to_full :: "string dict"

definition tracker_init :: "real \<Rightarrow> real \<Rightarrow> tracker" where
  "tracker_init stale_timeout_s fault_window_s =
     \<lparr> tk_stale_timeout = stale_timeout_s, tk_fault_window = fault_window_s,
       tk_states = [], tk_fault_history = [], tk_short_to_full = [] \<rparr>"

definition FAULT_MIN :: real where "FAULT_MIN = 0"
definition FAULT_MAX :: real where "FAULT_MAX = 350"

section \<open>Operations\<close>

definition tk_resolve_channel :: "tracker \<Rightarrow> string \<Rightarrow> string" where
  "tk_resolve_channel k channel =
     (if dict_get (tk_states k) channel \<noteq> None then channel
      else dict_getd (tk_short_to_full k) channel channel)"

definition fault_maxlen :: "tracker \<Rightarrow> nat" where
  "fault_maxlen k = nat (max 200 (py_int (tk_fault_window k * 20) + 100))"

definition record_fault :: "tracker \<Rightarrow> string \<Rightarrow> real \<Rightarrow> tracker" where
  "record_fault k channel timestamp =
     (let hist = dq_append (fault_maxlen k) timestamp (dict_getd (tk_fault_history k) channel []);
          cutoff = timestamp - tk_fault_window k
      in k\<lparr> tk_fault_history :=
              dict_set channel (dropWhile (\<lambda>t. t < cutoff) hist) (tk_fault_history k) \<rparr>)"

definition get_fault_count :: "tracker \<Rightarrow> string \<Rightarrow> real \<Rightarrow> nat \<times> tracker" where
  "get_fault_count k channel0 now =
     (let channel = tk_resolve_channel k channel0
      in case dict_get (tk_fault_history k) channel of
           None \<Rightarrow> (0, k)
         | Some hist \<Rightarrow>
             (if hist = [] then (0, k)
              else
                (let hist' = dropWhile (\<lambda>t. t < now - tk_fault_window k) hist
                 in (length hist',
                     k\<lparr> tk_fault_history := dict_set channel hist' (tk_fault_history k) \<rparr>))))"

definition tk_update :: "tracker \<Rightarrow> reading \<Rightarrow> real \<Rightarrow> tracker" where
  "tk_update k r now =
     (let ts = r_timestamp r;
          unusable = (\<not> is_usable r);
          channel = r_channel r;
          state = \<lparr> cs_channel = channel, cs_value = r_value r, cs_timestamp = ts,
                    cs_unit = r_unit r, cs_instrument_id = r_instrument_id r,
                    cs_is_stale = unusable, cs_fault_count_window = 0 \<rparr>;
          k1 = k\<lparr> tk_states := dict_set channel state (tk_states k) \<rparr>;
          short = short_name channel;
          k2 = (if short \<noteq> channel
                then k1\<lparr> tk_short_to_full := dict_set short channel (tk_short_to_full k1) \<rparr>
                else k1);
          k3 = (if r_unit r = ''K''
                   \<and> (unusable \<or> fl_less (r_value r) (Fin FAULT_MIN) \<or> fl_less (Fin FAULT_MAX) (r_value r))
                then record_fault k2 channel ts else k2);
          (n, k4) = get_fault_count k3 channel now
      in k4\<lparr> tk_states := dict_set channel (state\<lparr> cs_fault_count_window := n \<rparr>) (tk_states k4) \<rparr>)"

definition tk_get :: "tracker \<Rightarrow> string \<Rightarrow> real \<Rightarrow> channel_state option \<times> tracker" where
  "tk_get k channel0 now =
     (let channel = tk_resolve_channel k channel0
      in case dict_get (tk_states k) channel of
           None \<Rightarrow> (None, k)
         | Some state \<Rightarrow>
             (let stale = cs_is_stale state \<or> tk_stale_timeout k < now - cs_timestamp state;
                  (n, k') = get_fault_count k channel now;
                  state' = state\<lparr> cs_is_stale := stale, cs_fault_count_window := n \<rparr>
              in (Some state', k'\<lparr> tk_states := dict_set channel state' (tk_states k') \<rparr>)))"

definition get_stale_channels :: "tracker \<Rightarrow> real option \<Rightarrow> real \<Rightarrow> string list" where
  "get_stale_channels k timeout_s now =
     (let threshold = (case timeout_s of None \<Rightarrow> tk_stale_timeout k | Some t \<Rightarrow> t)
      in map fst (filter (\<lambda>(ch, st). cs_is_stale st \<or> threshold < now - cs_timestamp st) (tk_states k)))"

section \<open>Basic facts\<close>

lemma get_fault_count_frame [simp]:
  "tk_states (snd (get_fault_count k ch now)) = tk_states k"
  "tk_stale_timeout (snd (get_fault_count k ch now)) = tk_stale_timeout k"
  "tk_fault_window (snd (get_fault_count k ch now)) = tk_fault_window k"
  "tk_short_to_full (snd (get_fault_count k ch now)) = tk_short_to_full k"
  by (auto simp: get_fault_count_def Let_def split: option.splits)

lemma record_fault_frame [simp]:
  "tk_states (record_fault k ch t) = tk_states k"
  "tk_stale_timeout (record_fault k ch t) = tk_stale_timeout k"
  "tk_fault_window (record_fault k ch t) = tk_fault_window k"
  "tk_short_to_full (record_fault k ch t) = tk_short_to_full k"
  by (simp_all add: record_fault_def Let_def)

lemma tk_get_frame [simp]:
  "tk_stale_timeout (snd (tk_get k ch now)) = tk_stale_timeout k"
  "tk_fault_window (snd (tk_get k ch now)) = tk_fault_window k"
  "tk_short_to_full (snd (tk_get k ch now)) = tk_short_to_full k"
  using get_fault_count_frame
  by (auto simp: tk_get_def Let_def split: option.splits prod.splits)
    (metis snd_conv get_fault_count_frame)+

lemma tk_update_frame [simp]:
  "tk_stale_timeout (tk_update k r now) = tk_stale_timeout k"
  "tk_fault_window (tk_update k r now) = tk_fault_window k"
  by (auto simp: tk_update_def Let_def case_prod_beta)

lemma tk_get_Some:
  assumes "tk_get k ch now = (Some st, k')"
  shows "\<exists>st0. dict_get (tk_states k) (tk_resolve_channel k ch) = Some st0
    \<and> cs_value st = cs_value st0 \<and> cs_timestamp st = cs_timestamp st0
    \<and> cs_is_stale st = (cs_is_stale st0 \<or> tk_stale_timeout k < now - cs_timestamp st0)
    \<and> tk_states k' = dict_set (tk_resolve_channel k ch) st (tk_states k)"
  using assms
  by (auto simp: tk_get_def Let_def case_prod_beta split: option.splits)

lemma tk_get_None:
  "tk_get k ch now = (None, k') \<longleftrightarrow> dict_get (tk_states k) (tk_resolve_channel k ch) = None \<and> k' = k"
  by (auto simp: tk_get_def Let_def case_prod_beta split: option.splits)

lemma tk_update_state:
  "\<exists>n. dict_get (tk_states (tk_update k r now)) (r_channel r) =
     Some \<lparr> cs_channel = r_channel r, cs_value = r_value r, cs_timestamp = r_timestamp r,
            cs_unit = r_unit r, cs_instrument_id = r_instrument_id r,
            cs_is_stale = (\<not> is_usable r), cs_fault_count_window = n \<rparr>"
  by (simp add: tk_update_def Let_def case_prod_beta)

lemma tk_resolve_present:
  "dict_get (tk_states k) ch \<noteq> None \<Longrightarrow> tk_resolve_channel k ch = ch"
  by (simp add: tk_resolve_channel_def)

section \<open>What a consumer may rely on\<close>

text \<open>
  The contract between the tracker and its consumers (alarm evaluator, vacuum guard): a usable
  answer is a finite value not older than the timeout, an answer that is stale stays stale until
  the channel is updated, and reading does not change any channel's value.
\<close>

locale state_source =
  fixes get :: "'k \<Rightarrow> string \<Rightarrow> real \<Rightarrow> channel_state option \<times> 'k"
    and timeout :: "'k \<Rightarrow> real"
    and usable :: "channel_state \<Rightarrow> bool"
  assumes usable_fresh: "get k ch now = (Some st, k') \<Longrightarrow> usable st \<Longrightarrow>
      now - cs_timestamp st \<le> timeout k \<and> fl_isfinite (cs_value st)"
    and stale_sticky: "get k ch now = (Some st, k') \<Longrightarrow> \<not> usable st \<Longrightarrow>
      \<exists>st'. fst (get k' ch now') = Some st' \<and> \<not> usable st'"
    and same_value: "get k ch now = (Some st, k') \<Longrightarrow>
      \<exists>st'. fst (get k' ch now') = Some st' \<and> cs_value st' = cs_value st
        \<and> cs_timestamp st' = cs_timestamp st"
    and absent_stays: "get k ch now = (None, k') \<Longrightarrow> fst (get k' ch now') = None"
    and timeout_kept: "get k ch now = (r, k') \<Longrightarrow> timeout k' = timeout k"
begin

lemma reread_same_value:
  assumes "get k ch now = (Some st, k')" "get k' ch now' = (Some st2, k2)"
  shows "cs_value st2 = cs_value st"
  using same_value [OF assms(1), of now'] assms(2) by auto

lemma unusable_forever:
  assumes "get k ch now = (Some st, k')" "\<not> usable st" "get k' ch now' = (Some st2, k2)"
  shows "\<not> usable st2"
  using stale_sticky [OF assms(1,2), of now'] assms(3) by auto

lemma usable_is_recent:
  assumes "get k ch now = (Some st, k')" "usable st"
  shows "now \<le> cs_timestamp st + timeout k"
  using usable_fresh [OF assms] by simp

end

lemma tk_get_again:
  assumes "tk_get k ch now = (Some st, k')"
  shows "\<exists>st'. fst (tk_get k' ch now') = Some st' \<and> cs_value st' = cs_value st
    \<and> cs_timestamp st' = cs_timestamp st \<and> (cs_is_stale st \<longrightarrow> cs_is_stale st')"
proof -
  let ?c = "tk_resolve_channel k ch"
  from tk_get_Some [OF assms] have states: "tk_states k' = dict_set ?c st (tk_states k)"
    and present: "dict_get (tk_states k) ?c \<noteq> None"
    by auto
  have shorts: "tk_short_to_full k' = tk_short_to_full k"
    using tk_get_frame(3) [of k ch now] assms by simp
  have res: "tk_resolve_channel k' ch = ?c"
  proof (cases "dict_get (tk_states k) ch")
    case None
    then show ?thesis
      using present by (auto simp: tk_resolve_channel_def states shorts dict_get_set)
  next
    case (Some a)
    then show ?thesis
      by (simp add: tk_resolve_channel_def states dict_get_set)
  qed
  show ?thesis
    by (auto simp: tk_get_def Let_def case_prod_beta res states)
qed

interpretation tracker_source: state_source tk_get tk_stale_timeout cs_is_usable
proof unfold_locales
  fix k ch now st k' now' and r :: "channel_state option"
  show "tk_get k ch now = (Some st, k') \<Longrightarrow> cs_is_usable st \<Longrightarrow>
      now - cs_timestamp st \<le> tk_stale_timeout k \<and> fl_isfinite (cs_value st)"
    by (auto simp: cs_is_usable_def dest!: tk_get_Some)
  show "tk_get k ch now = (Some st, k') \<Longrightarrow> \<not> cs_is_usable st \<Longrightarrow>
      \<exists>st'. fst (tk_get k' ch now') = Some st' \<and> \<not> cs_is_usable st'"
    using tk_get_again [of k ch now st k' now'] by (auto simp: cs_is_usable_def)
  show "tk_get k ch now = (Some st, k') \<Longrightarrow>
      \<exists>st'. fst (tk_get k' ch now') = Some st' \<and> cs_value st' = cs_value st
        \<and> cs_timestamp st' = cs_timestamp st"
    using tk_get_again [of k ch now st k' now'] by auto
  show "tk_get k ch now = (None, k') \<Longrightarrow> fst (tk_get k' ch now') = None"
    by (auto simp: tk_get_None) (auto simp: tk_get_def)
  show "tk_get k ch now = (r, k') \<Longrightarrow> tk_stale_timeout k' = tk_stale_timeout k"
    using tk_get_frame(1) [of k ch now] by simp
qed

section \<open>Reading only ages\<close>

text \<open>
  \<open>tk_aged now k k'\<close>: \<open>k'\<close> differs from \<open>k\<close> by reads at time \<open>now\<close> only: same channels, values
  and timestamps, and a state is stale in \<open>k'\<close> only if it was stale or timed out at \<open>now\<close>.
\<close>

definition st_aged :: "real \<Rightarrow> real \<Rightarrow> channel_state option \<Rightarrow> channel_state option \<Rightarrow> bool" where
  "st_aged now timeout a b =
     (case (a, b) of
        (None, None) \<Rightarrow> True
      | (Some x, Some y) \<Rightarrow>
          cs_value y = cs_value x \<and> cs_timestamp y = cs_timestamp x
          \<and> (cs_is_stale x \<longrightarrow> cs_is_stale y)
          \<and> (cs_is_stale y \<longrightarrow> cs_is_stale x \<or> timeout < now - cs_timestamp x)
      | _ \<Rightarrow> False)"

definition tk_aged :: "real \<Rightarrow> tracker \<Rightarrow> tracker \<Rightarrow> bool" where
  "tk_aged now k k' =
     (tk_stale_timeout k' = tk_stale_timeout k \<and> tk_short_to_full k' = tk_short_to_full k
      \<and> (\<forall>ch. st_aged now (tk_stale_timeout k) (dict_get (tk_states k) ch) (dict_get (tk_states k') ch)))"

lemma st_aged_refl [simp]: "st_aged now t a a"
  by (simp add: st_aged_def split: option.splits)

lemma st_aged_trans: "st_aged now t a b \<Longrightarrow> st_aged now t b c \<Longrightarrow> st_aged now t a c"
  by (auto simp: st_aged_def split: option.splits)

lemma tk_aged_refl [simp]: "tk_aged now k k"
  by (simp add: tk_aged_def)

lemma tk_aged_trans: "tk_aged now a b \<Longrightarrow> tk_aged now b c \<Longrightarrow> tk_aged now a c"
  by (auto simp: tk_aged_def intro: st_aged_trans)

lemma tk_aged_fault_count [simp]: "tk_aged now k (snd (get_fault_count k ch t))"
  by (simp add: tk_aged_def)

lemma tk_aged_get [simp]: "tk_aged now k (snd (tk_get k ch now))"
  by (auto simp: tk_aged_def tk_get_def Let_def case_prod_beta st_aged_def dict_get_set
      split: option.splits)

lemma tk_aged_resolve:
  assumes "tk_aged now k k'"
  shows "tk_resolve_channel k' ch = tk_resolve_channel k ch"
proof -
  have "st_aged now (tk_stale_timeout k) (dict_get (tk_states k) ch) (dict_get (tk_states k') ch)"
    using assms by (simp add: tk_aged_def)
  then have "dict_get (tk_states k') ch = None \<longleftrightarrow> dict_get (tk_states k) ch = None"
    by (simp add: st_aged_def split: option.splits)
  then show ?thesis
    using assms by (auto simp: tk_resolve_channel_def tk_aged_def)
qed

text \<open>A channel is unknown at \<open>now\<close> when it has no state or an unusable one.\<close>

definition unknown_at :: "tracker \<Rightarrow> string \<Rightarrow> real \<Rightarrow> bool" where
  "unknown_at k ch now =
     (case fst (tk_get k ch now) of None \<Rightarrow> True | Some st \<Rightarrow> \<not> cs_is_usable st)"

lemma unknown_at_eq:
  "unknown_at k ch now =
     (case dict_get (tk_states k) (tk_resolve_channel k ch) of
        None \<Rightarrow> True
      | Some st \<Rightarrow> cs_is_stale st \<or> tk_stale_timeout k < now - cs_timestamp st
                   \<or> \<not> fl_isfinite (cs_value st))"
  by (auto simp: unknown_at_def tk_get_def Let_def case_prod_beta cs_is_usable_def split: option.splits)

lemma unknown_at_aged:
  assumes "tk_aged now k k'"
  shows "unknown_at k' ch now = unknown_at k ch now"
proof -
  let ?c = "tk_resolve_channel k ch"
  have "st_aged now (tk_stale_timeout k) (dict_get (tk_states k) ?c) (dict_get (tk_states k') ?c)"
    using assms by (simp add: tk_aged_def)
  moreover have "tk_stale_timeout k' = tk_stale_timeout k" using assms by (simp add: tk_aged_def)
  ultimately show ?thesis
    by (auto simp: unknown_at_eq tk_aged_resolve [OF assms] st_aged_def split: option.splits)
qed

section \<open>Properties\<close>

text \<open>
  a received error or non-finite sample is never presented as a measurement: whatever the
  clock says, reading the channel after such an update yields an unusable state carrying the
  received value.
\<close>

theorem bad_reading_not_usable:
  assumes "\<not> is_usable r"
  shows "\<exists>st k'. tk_get (tk_update k r now) (r_channel r) now' = (Some st, k')
    \<and> \<not> cs_is_usable st \<and> cs_value st = r_value r"
proof -
  from tk_update_state [of k r now] obtain n where
    st: "dict_get (tk_states (tk_update k r now)) (r_channel r) =
      Some \<lparr> cs_channel = r_channel r, cs_value = r_value r, cs_timestamp = r_timestamp r,
            cs_unit = r_unit r, cs_instrument_id = r_instrument_id r,
            cs_is_stale = (\<not> is_usable r), cs_fault_count_window = n \<rparr>" by blast
  then have "tk_resolve_channel (tk_update k r now) (r_channel r) = r_channel r"
    by (simp add: tk_resolve_present)
  with st assms show ?thesis
    by (simp add: tk_get_def Let_def case_prod_beta cs_is_usable_def)
qed

definition nan_reading :: reading where
  "nan_reading = \<lparr> r_timestamp = 5, r_instrument_id = ''LS218_1'', r_channel = ''T1 Shield'',
     r_value = NaN, r_unit = ''K'', r_status = SENSOR_ERROR, r_metadata = [] \<rparr>"

theorem bad_reading_not_usable_witness:
  "\<not> is_usable nan_reading
   \<and> (\<exists>st k'. tk_get (tk_update (tracker_init 30 300) nan_reading 5) ''T1 Shield'' 6 = (Some st, k')
        \<and> \<not> cs_is_usable st \<and> cs_value st = NaN)"
proof -
  have "\<not> is_usable nan_reading" by (simp add: nan_reading_def is_usable_def)
  from bad_reading_not_usable [OF this] this show ?thesis
    by (simp add: nan_reading_def)
qed

lemma dropWhile_sorted_filter:
  "sorted xs \<Longrightarrow> dropWhile (\<lambda>t. t < c) xs = filter (\<lambda>t. c \<le> t) xs" for c :: real
  by (induction xs) (auto intro!: filter_True [symmetric] dest: order_trans)

text \<open>
  with fault timestamps in order, the reported fault count is the number of recorded faults
  inside the window before the call, and the count never exceeds the deque bound.
\<close>

theorem fault_count_exact:
  assumes "dict_get (tk_fault_history k) (tk_resolve_channel k ch) = Some hist" and "sorted hist"
  shows "fst (get_fault_count k ch now) = length (filter (\<lambda>t. now - tk_fault_window k \<le> t) hist)"
  using assms by (auto simp: get_fault_count_def Let_def dropWhile_sorted_filter)

theorem fault_count_exact_witness:
  "fst (get_fault_count ((tracker_init 30 300)\<lparr>tk_fault_history := [(''c'', [0, 100, 350])]\<rparr>) ''c'' 400) = 2"
  using fault_count_exact [of "(tracker_init 30 300)\<lparr>tk_fault_history := [(''c'', [0, 100, 350])]\<rparr>" "''c''" "[0, 100, 350]" 400]
  by (simp add: tracker_init_def tk_resolve_channel_def dict_getd_def)

end
