(* ===== verification/AlarmEval.thy ===== *)
theory AlarmEval
  imports Rate Tracker
begin

text \<open>
  \<open>AlarmEvaluator\<close> of \<^verbatim>\<open>src/cryodaq/core/alarm_v2.py\<close>: from an alarm's configuration, the channel
  tracker and the rate estimator to an event or nothing. Configurations are the YAML mappings with
  an absent key as \<open>None\<close>; a missing required key is the \<open>KeyError\<close> it is in the source. Evaluation
  threads the tracker, which reading mutates. \<open>now\<close> is \<open>time.time()\<close> during one evaluation. The
  phase provider and the setpoint provider are parameters (\<open>phase_elapsed\<close>, \<open>setpoint\<close>). Message
  texts are kept as the template and its arguments; \<open>str.format\<close> itself is not modelled.
\<close>

section \<open>Events\<close>

datatype alarm_message =
    MsgPlain string
  | MsgFormat string string "pyfloat option"  \<comment> \<open>template, channel, value or unknown\<close>
  | MsgUnavailable string string              \<comment> \<open>template with the suffix naming the dead channel\<close>
  | MsgDiagnostic string real                 \<comment> \<open>sensor anomaly sustained: channel, seconds\<close>

record alarm_event =
  ae_alarm_id :: string
  ae_level :: string
  ae_message :: alarm_message
  ae_triggered_at :: real
  ae_channels :: "string list"
  ae_values :: "pyfloat dict"
  ae_acknowledged :: bool
  ae_acknowledged_at :: real
  ae_acknowledged_by :: string
  ae_acknowledged_reason :: string
  ae_acknowledgement_request_id :: string
  ae_activation_id :: nat
  ae_evaluator_error :: bool

definition alarm_event_new ::
  "string \<Rightarrow> string \<Rightarrow> alarm_message \<Rightarrow> real \<Rightarrow> string list \<Rightarrow> pyfloat dict \<Rightarrow> alarm_event" where
  "alarm_event_new alarm_id level message triggered_at channels values =
     \<lparr> ae_alarm_id = alarm_id, ae_level = level, ae_message = message,
       ae_triggered_at = triggered_at, ae_channels = channels, ae_values = values,
       ae_acknowledged = False, ae_acknowledged_at = 0, ae_acknowledged_by = [],
       ae_acknowledged_reason = [], ae_acknowledgement_request_id = [],
       ae_activation_id = 0, ae_evaluator_error = False \<rparr>"

section \<open>Configurations\<close>

record cond_cfg =
  c_check :: "string option"
  c_channel :: "string option"
  c_channels :: "string list option"
  c_threshold :: "pyfloat option"
  c_range :: "(pyfloat \<times> pyfloat) option"
  c_setpoint_source :: "string option"
  c_rate_window_s :: "real option"
  c_rate_threshold :: "pyfloat option"

record alarm_cfg = cond_cfg +
  a_alarm_type :: "string option"
  a_level :: "string option"
  a_message :: "string option"
  a_hysteresis :: "pyfloat option"
  a_min_fault_count :: "int option"
  a_operator :: "string option"
  a_conditions :: "cond_cfg list option"
  a_additional_condition :: "cond_cfg option"
  a_timeout_s :: "real option"
  a_sustained_s :: "real option"

text \<open>What the evaluator holds: estimator, phase clock, setpoints.\<close>

record eval_env =
  ev_rate :: rate_est
  ev_phase_elapsed :: "pyfloat option"
  ev_setpoint :: "string \<Rightarrow> pyfloat result"

definition get_opt :: "'a option \<Rightarrow> 'a \<Rightarrow> 'a" where
  "get_opt x d = (case x of None \<Rightarrow> d | Some y \<Rightarrow> y)"

definition require :: "string \<Rightarrow> 'a option \<Rightarrow> 'a result" where
  "require key x = (case x of None \<Rightarrow> Inl (KeyError key) | Some y \<Rightarrow> Inr y)"

definition DEFAULT_RATE_WINDOW_S :: real where "DEFAULT_RATE_WINDOW_S = 120"

definition alarm_resolve_channels :: "('a) cond_cfg_scheme \<Rightarrow> string list" where
  "alarm_resolve_channels cfg =
     (case c_channels cfg of
        Some chs \<Rightarrow> chs
      | None \<Rightarrow>
          (case c_channel cfg of
             Some ch \<Rightarrow> if ch \<noteq> ''phase_elapsed_s'' then [ch] else []
           | None \<Rightarrow> []))"

definition alarm_level :: "alarm_cfg \<Rightarrow> string" where
  "alarm_level cfg = get_opt (a_level cfg) ''WARNING''"

definition alarm_template :: "string \<Rightarrow> alarm_cfg \<Rightarrow> string" where
  "alarm_template alarm_id cfg = get_opt (a_message cfg) (''Alarm '' @ alarm_id)"

definition finite_opt :: "pyfloat option \<Rightarrow> bool" where
  "finite_opt x = (case x of None \<Rightarrow> False | Some v \<Rightarrow> fl_isfinite v)"

text \<open>\<open>active_channels is None or ch in active_channels\<close>\<close>

definition in_active :: "string list option \<Rightarrow> string \<Rightarrow> bool" where
  "in_active active_channels ch = (case active_channels of None \<Rightarrow> True | Some cs \<Rightarrow> ch \<in> set cs)"

section \<open>Threshold alarms\<close>

definition check_threshold_channel ::
  "eval_env \<Rightarrow> tracker \<Rightarrow> real \<Rightarrow> string \<Rightarrow> string \<Rightarrow> alarm_cfg \<Rightarrow> (bool \<times> pyfloat) result \<times> tracker" where
  "check_threshold_channel env k now channel check cfg =
     (if check = ''fault_count_in_window'' then
        (let (count, k') = get_fault_count k channel now;
             min_count = get_opt (a_min_fault_count cfg) 1
         in (Inr (min_count \<le> int count, Fin (real count)), k'))
      else
        (let (st, k') = tk_get k channel now
         in case st of
              None \<Rightarrow> (Inr (False, Fin 0), k')
            | Some state \<Rightarrow>
                (let value = cs_value state in
                 (if check = ''above'' then
                    res_bind (require ''threshold'' (c_threshold cfg))
                      (\<lambda>th. Inr (fl_less th value, value))
                  else if check = ''below'' then
                    res_bind (require ''threshold'' (c_threshold cfg))
                      (\<lambda>th. Inr (fl_less value th, value))
                  else if check = ''outside_range'' then
                    res_bind (require ''range'' (c_range cfg))
                      (\<lambda>r. Inr (fl_less value (fst r) \<or> fl_less (snd r) value, value))
                  else if check = ''deviation_from_setpoint'' then
                    res_bind (require ''setpoint_source'' (c_setpoint_source cfg))
                      (\<lambda>src. res_bind (ev_setpoint env src)
                        (\<lambda>sp. res_bind (require ''threshold'' (c_threshold cfg))
                          (\<lambda>th. Inr (fl_less th (fl_abs (fl_sub value sp)), value))))
                  else Inl (ValueError ''unknown threshold check''),
                  k'))))"

definition in_deadband :: "string \<Rightarrow> pyfloat \<Rightarrow> pyfloat \<Rightarrow> pyfloat \<Rightarrow> bool" where
  "in_deadband check value threshold hysteresis =
     ((check = ''above'' \<and> fl_le (fl_sub threshold hysteresis) value)
      \<or> (check = ''below'' \<and> fl_le value (fl_add threshold hysteresis)))"

text \<open>The loop over the alarm's channels.\<close>

fun eval_threshold_loop ::
  "eval_env \<Rightarrow> real \<Rightarrow> string \<Rightarrow> alarm_cfg \<Rightarrow> bool \<Rightarrow> string list option \<Rightarrow> string \<Rightarrow>
   string list \<Rightarrow> tracker \<Rightarrow> alarm_event option result \<times> tracker" where
  "eval_threshold_loop env now alarm_id cfg is_active active_channels check [] k = (Inr None, k)"
| "eval_threshold_loop env now alarm_id cfg is_active active_channels check (ch # chs) k =
     (let template = alarm_template alarm_id cfg;
          level = alarm_level cfg;
          next = eval_threshold_loop env now alarm_id cfg is_active active_channels check chs;
          (st, k1) = tk_get k ch now
      in if (case st of None \<Rightarrow> True | Some state \<Rightarrow> \<not> cs_is_usable state) then
           (if is_active \<and> in_active active_channels ch then
              (Inr (Some (alarm_event_new alarm_id level
                 (case st of None \<Rightarrow> MsgUnavailable template ch
                  | Some state \<Rightarrow> MsgFormat template ch (Some (cs_value state)))
                 now [ch]
                 (case st of None \<Rightarrow> [] | Some state \<Rightarrow> [(ch, cs_value state)]))), k1)
            else next k1)
         else
           (case check_threshold_channel env k1 now ch check cfg of
              (Inl e, k2) \<Rightarrow> (Inl e, k2)
            | (Inr (triggered, value), k2) \<Rightarrow>
                (let event = alarm_event_new alarm_id level (MsgFormat template ch (Some value))
                               now [ch] [(ch, value)]
                 in if triggered then (Inr (Some event), k2)
                    else
                      (case a_hysteresis cfg of
                         Some hysteresis \<Rightarrow>
                           (if is_active \<and> (check = ''above'' \<or> check = ''below'') then
                              (if \<not> in_active active_channels ch then next k2
                               else if in_deadband check value (get_opt (c_threshold cfg) (Fin 0)) hysteresis
                               then (Inr (Some event), k2)
                               else next k2)
                            else next k2)
                       | None \<Rightarrow> next k2))))"

definition eval_threshold ::
  "eval_env \<Rightarrow> tracker \<Rightarrow> real \<Rightarrow> string \<Rightarrow> alarm_cfg \<Rightarrow> bool \<Rightarrow> string list option \<Rightarrow>
   alarm_event option result \<times> tracker" where
  "eval_threshold env k now alarm_id cfg is_active active_channels =
     eval_threshold_loop env now alarm_id cfg is_active active_channels
       (get_opt (c_check cfg) ''above'') (alarm_resolve_channels cfg) k"

section \<open>Composite alarms\<close>

text \<open>Three-valued conjunction and disjunction; \<open>None\<close> is unknown.\<close>

definition and_conditions :: "bool option list \<Rightarrow> bool option" where
  "and_conditions results =
     (if Some False \<in> set results then Some False
      else if \<forall>r \<in> set results. r = Some True then Some True else None)"

definition or_conditions :: "bool option list \<Rightarrow> bool option" where
  "or_conditions results =
     (if Some True \<in> set results then Some True
      else if \<forall>r \<in> set results. r = Some False then Some False else None)"

fun any_loop ::
  "(pyfloat \<Rightarrow> bool) \<Rightarrow> real \<Rightarrow> string list \<Rightarrow> bool \<Rightarrow> tracker \<Rightarrow> bool option \<times> tracker" where
  "any_loop p now [] unknown k = (if unknown then None else Some False, k)"
| "any_loop p now (ch # chs) unknown k =
     (let (st, k1) = tk_get k ch now
      in case st of
           None \<Rightarrow> any_loop p now chs unknown k1
         | Some state \<Rightarrow>
             (if \<not> cs_is_usable state then any_loop p now chs True k1
              else if p (cs_value state) then (Some True, k1)
              else any_loop p now chs unknown k1))"

text \<open>A rate condition: unknown when the channel's own state is unusable or the rate is not finite.\<close>

definition rate_condition ::
  "eval_env \<Rightarrow> tracker \<Rightarrow> real \<Rightarrow> cond_cfg \<Rightarrow> (pyfloat \<Rightarrow> bool result) \<Rightarrow> bool option result \<times> tracker" where
  "rate_condition env k now cond test =
     (case c_channel cond of
        None \<Rightarrow> (Inr (Some False), k)
      | Some ch \<Rightarrow>
          (if ch = [] then (Inr (Some False), k)
           else
             (let (st, k1) = tk_get k ch now
              in if (case st of None \<Rightarrow> False | Some state \<Rightarrow> \<not> cs_is_usable state) then (Inr None, k1)
                 else
                   (let rate = get_rate_custom_window (ev_rate env) ch
                                 (get_opt (c_rate_window_s cond) DEFAULT_RATE_WINDOW_S)
                    in case rate of
                         None \<Rightarrow> (Inr None, k1)
                       | Some r \<Rightarrow>
                           (if \<not> fl_isfinite r then (Inr None, k1)
                            else (res_bind (test r) (\<lambda>b. Inr (Some b)), k1))))))"

definition point_condition ::
  "tracker \<Rightarrow> real \<Rightarrow> string \<Rightarrow> (pyfloat \<Rightarrow> bool result) \<Rightarrow> bool option result \<times> tracker" where
  "point_condition k now ch test =
     (let (st, k1) = tk_get k ch now
      in case st of
           None \<Rightarrow> (Inr (Some False), k1)
         | Some state \<Rightarrow>
             (if \<not> cs_is_usable state then (Inr None, k1)
              else (res_bind (test (cs_value state)) (\<lambda>b. Inr (Some b)), k1)))"

definition eval_condition ::
  "eval_env \<Rightarrow> tracker \<Rightarrow> real \<Rightarrow> cond_cfg \<Rightarrow> bool option result \<times> tracker" where
  "eval_condition env k now cond =
     (let check = get_opt (c_check cond) ''above'';
          threshold = require ''threshold'' (c_threshold cond)
      in if check = ''any_below'' then
           (case threshold of
              Inl e \<Rightarrow> (Inl e, k)
            | Inr th \<Rightarrow>
                (let (b, k1) = any_loop (\<lambda>v. fl_less v th) now (alarm_resolve_channels cond) False k
                 in (Inr b, k1)))
         else if check = ''any_above'' then
           (case threshold of
              Inl e \<Rightarrow> (Inl e, k)
            | Inr th \<Rightarrow>
                (let (b, k1) = any_loop (\<lambda>v. fl_less th v) now (alarm_resolve_channels cond) False k
                 in (Inr b, k1)))
         else if check = ''above'' then
           (case c_channel cond of
              None \<Rightarrow> (Inr (Some False), k)
            | Some ch \<Rightarrow>
                (if ch = [] then (Inr (Some False), k)
                 else if ch = ''phase_elapsed_s'' then
                   (case ev_phase_elapsed env of
                      None \<Rightarrow> (Inr None, k)
                    | Some elapsed \<Rightarrow>
                        (if fl_isfinite elapsed
                         then (res_bind threshold (\<lambda>th. Inr (Some (fl_less th elapsed))), k)
                         else (Inr None, k)))
                 else point_condition k now ch
                        (\<lambda>v. res_bind threshold (\<lambda>th. Inr (fl_less th v)))))
         else if check = ''below'' then
           (case c_channel cond of
              None \<Rightarrow> (Inr (Some False), k)
            | Some ch \<Rightarrow>
                (if ch = [] then (Inr (Some False), k)
                 else point_condition k now ch
                        (\<lambda>v. res_bind threshold (\<lambda>th. Inr (fl_less v th)))))
         else if check = ''rate_above'' then
           rate_condition env k now cond (\<lambda>r. res_bind threshold (\<lambda>th. Inr (fl_less th r)))
         else if check = ''rate_below'' then
           rate_condition env k now cond (\<lambda>r. res_bind threshold (\<lambda>th. Inr (fl_less r th)))
         else if check = ''rate_near_zero'' then
           rate_condition env k now cond
             (\<lambda>r. Inr (fl_less (fl_abs r) (get_opt (c_rate_threshold cond) (Fin (1/10)))))
         else (Inl (ValueError ''unknown composite condition check''), k))"

fun eval_conditions ::
  "eval_env \<Rightarrow> real \<Rightarrow> cond_cfg list \<Rightarrow> tracker \<Rightarrow> bool option list result \<times> tracker" where
  "eval_conditions env now [] k = (Inr [], k)"
| "eval_conditions env now (c # cs) k =
     (case eval_condition env k now c of
        (Inl e, k1) \<Rightarrow> (Inl e, k1)
      | (Inr b, k1) \<Rightarrow>
          (case eval_conditions env now cs k1 of
             (Inl e, k2) \<Rightarrow> (Inl e, k2)
           | (Inr bs, k2) \<Rightarrow> (Inr (b # bs), k2)))"

text \<open>The channels and values reported with a composite event.\<close>

fun collect_channels ::
  "real \<Rightarrow> string list \<Rightarrow> (string \<times> pyfloat) list \<Rightarrow> tracker \<Rightarrow> (string \<times> pyfloat) list \<times> tracker" where
  "collect_channels now [] acc k = (acc, k)"
| "collect_channels now (ch # chs) acc k =
     (let (st, k1) = tk_get k ch now
      in case st of
           None \<Rightarrow> collect_channels now chs acc k1
         | Some state \<Rightarrow>
             (if cs_is_usable state \<and> ch \<notin> set (map fst acc)
              then collect_channels now chs (acc @ [(ch, cs_value state)]) k1
              else collect_channels now chs acc k1))"

definition eval_composite ::
  "eval_env \<Rightarrow> tracker \<Rightarrow> real \<Rightarrow> string \<Rightarrow> alarm_cfg \<Rightarrow> bool \<Rightarrow> alarm_event option result \<times> tracker" where
  "eval_composite env k now alarm_id cfg is_active =
     (let operator = get_opt (a_operator cfg) ''AND'';
          conditions = get_opt (a_conditions cfg) []
      in case eval_conditions env now conditions k of
           (Inl e, k1) \<Rightarrow> (Inl e, k1)
         | (Inr results, k1) \<Rightarrow>
             (if operator \<noteq> ''AND'' \<and> operator \<noteq> ''OR''
              then (Inl (ValueError ''unknown composite operator''), k1)
              else
                (let fired = (if operator = ''AND'' then and_conditions results
                              else or_conditions results)
                 in if fired \<noteq> Some True \<and> \<not> (fired = None \<and> is_active) then (Inr None, k1)
                    else
                      (let (found, k2) = collect_channels now
                             (concat (map alarm_resolve_channels conditions)) [] k1
                       in (Inr (Some (alarm_event_new alarm_id (alarm_level cfg)
                                 (MsgPlain (alarm_template alarm_id cfg)) now
                                 (map fst found) found)), k2)))))"

section \<open>Rate alarms\<close>

text \<open>A rate the estimator could not give is omitted from the values, never shown as zero.\<close>

definition rate_event ::
  "real \<Rightarrow> string \<Rightarrow> string \<Rightarrow> string \<Rightarrow> string \<Rightarrow> pyfloat option \<Rightarrow> alarm_event" where
  "rate_event now alarm_id level template channel rate =
     (let known = finite_opt rate
      in alarm_event_new alarm_id level
           (MsgFormat template channel (if known then rate else None)) now [channel]
           (case rate of Some r \<Rightarrow> (if known then [(channel, r)] else []) | None \<Rightarrow> []))"

text \<open>
  The decision for one channel with a finite rate: \<open>None\<close> stands for the \<open>unknown\<close> flag of the
  source (a relative rate without a current value).
\<close>

definition rate_fired :: "string \<Rightarrow> alarm_cfg \<Rightarrow> channel_state option \<Rightarrow> pyfloat \<Rightarrow> bool option result" where
  "rate_fired check cfg st rate =
     (if check = ''rate_above'' then
        res_bind (require ''threshold'' (c_threshold cfg)) (\<lambda>th. Inr (Some (fl_less th rate)))
      else if check = ''rate_below'' then
        res_bind (require ''threshold'' (c_threshold cfg)) (\<lambda>th. Inr (Some (fl_less rate th)))
      else if check = ''rate_near_zero'' then
        Inr (Some (fl_less (fl_abs rate) (get_opt (c_rate_threshold cfg) (Fin (1/10)))))
      else
        (case st of
           None \<Rightarrow> Inr None
         | Some state \<Rightarrow>
             (if fl_less (Fin 0) (cs_value state) then
                res_bind (fl_div rate (cs_value state))
                  (\<lambda>q. Inr (Some (fl_less (fl_abs q) (get_opt (c_rate_threshold cfg) (Fin (1/100))))))
              else Inr (Some False))))"

fun eval_rate_loop ::
  "eval_env \<Rightarrow> real \<Rightarrow> string \<Rightarrow> alarm_cfg \<Rightarrow> bool \<Rightarrow> string list option \<Rightarrow> string \<Rightarrow>
   string list \<Rightarrow> tracker \<Rightarrow> alarm_event option result \<times> tracker" where
  "eval_rate_loop env now alarm_id cfg is_active active_channels check [] k = (Inr None, k)"
| "eval_rate_loop env now alarm_id cfg is_active active_channels check (ch # chs) k =
     (let next = eval_rate_loop env now alarm_id cfg is_active active_channels check chs;
          keep = (is_active \<and> in_active active_channels ch);
          (st, k1) = tk_get k ch now;
          unknown = (case st of None \<Rightarrow> False | Some state \<Rightarrow> \<not> cs_is_usable state);
          rate = get_rate_custom_window (ev_rate env) ch
                   (get_opt (c_rate_window_s cfg) DEFAULT_RATE_WINDOW_S);
          event = rate_event now alarm_id (alarm_level cfg) (alarm_template alarm_id cfg) ch rate
      in case rate of
           None \<Rightarrow> (if keep then (Inr (Some event), k1) else next k1)
         | Some r \<Rightarrow>
             (if unknown \<or> \<not> fl_isfinite r then
                (if keep then (Inr (Some event), k1) else next k1)
              else
                (case rate_fired check cfg st r of
                   Inl e \<Rightarrow> (Inl e, k1)
                 | Inr None \<Rightarrow> (if keep then (Inr (Some event), k1) else next k1)
                 | Inr (Some False) \<Rightarrow> next k1
                 | Inr (Some True) \<Rightarrow>
                     (case a_additional_condition cfg of
                        None \<Rightarrow> (Inr (Some event), k1)
                      | Some add_cond \<Rightarrow>
                          (case eval_condition env k1 now add_cond of
                             (Inl e, k2) \<Rightarrow> (Inl e, k2)
                           | (Inr (Some True), k2) \<Rightarrow> (Inr (Some event), k2)
                           | (Inr (Some False), k2) \<Rightarrow> next k2
                           | (Inr None, k2) \<Rightarrow>
                               (if keep then (Inr (Some event), k2) else next k2))))))"

definition eval_rate ::
  "eval_env \<Rightarrow> tracker \<Rightarrow> real \<Rightarrow> string \<Rightarrow> alarm_cfg \<Rightarrow> bool \<Rightarrow> string list option \<Rightarrow>
   alarm_event option result \<times> tracker" where
  "eval_rate env k now alarm_id cfg is_active active_channels =
     (let check = get_opt (c_check cfg) ''rate_above''
      in if check \<notin> {''rate_above'', ''rate_below'', ''rate_near_zero'', ''relative_rate_near_zero''}
         then (Inl (ValueError ''unknown rate check''), k)
         else eval_rate_loop env now alarm_id cfg is_active active_channels check
                (alarm_resolve_channels cfg) k)"

section \<open>Stale alarms\<close>

fun eval_stale_loop ::
  "real \<Rightarrow> string \<Rightarrow> string \<Rightarrow> string \<Rightarrow> real \<Rightarrow> string list \<Rightarrow> tracker \<Rightarrow>
   alarm_event option result \<times> tracker" where
  "eval_stale_loop now alarm_id level template timeout [] k = (Inr None, k)"
| "eval_stale_loop now alarm_id level template timeout (ch # chs) k =
     (let (st, k1) = tk_get k ch now
      in case st of
           None \<Rightarrow> eval_stale_loop now alarm_id level template timeout chs k1
         | Some state \<Rightarrow>
             (if \<not> cs_is_usable state \<or> timeout < now - cs_timestamp state
              then (Inr (Some (alarm_event_new alarm_id level (MsgFormat template ch None) now [ch]
                          [(ch, Fin (now - cs_timestamp state))])), k1)
              else eval_stale_loop now alarm_id level template timeout chs k1))"

definition eval_stale ::
  "tracker \<Rightarrow> real \<Rightarrow> string \<Rightarrow> alarm_cfg \<Rightarrow> alarm_event option result \<times> tracker" where
  "eval_stale k now alarm_id cfg =
     eval_stale_loop now alarm_id (alarm_level cfg)
       (get_opt (a_message cfg) ''Stale data: {channel}'') (get_opt (a_timeout_s cfg) 30)
       (alarm_resolve_channels cfg) k"

section \<open>The evaluator\<close>

definition evaluate_raw ::
  "eval_env \<Rightarrow> tracker \<Rightarrow> real \<Rightarrow> string \<Rightarrow> alarm_cfg \<Rightarrow> bool \<Rightarrow> string list option \<Rightarrow>
   alarm_event option result \<times> tracker" where
  "evaluate_raw env k now alarm_id cfg is_active active_channels =
     (if a_alarm_type cfg = Some ''threshold'' then
        eval_threshold env k now alarm_id cfg is_active active_channels
      else if a_alarm_type cfg = Some ''composite'' then
        eval_composite env k now alarm_id cfg is_active
      else if a_alarm_type cfg = Some ''rate'' then
        eval_rate env k now alarm_id cfg is_active active_channels
      else if a_alarm_type cfg = Some ''stale'' then
        eval_stale k now alarm_id cfg
      else (Inl (ValueError ''unknown alarm_type''), k))"

text \<open>
  \<open>evaluate\<close>: an exception becomes a tagged keep-active event for an active alarm and no event for
  an inactive one.
\<close>

definition evaluate ::
  "eval_env \<Rightarrow> tracker \<Rightarrow> real \<Rightarrow> string \<Rightarrow> alarm_cfg \<Rightarrow> bool \<Rightarrow> string list option \<Rightarrow>
   alarm_event option \<times> tracker" where
  "evaluate env k now alarm_id cfg is_active active_channels =
     (case evaluate_raw env k now alarm_id cfg is_active active_channels of
        (Inr ev, k1) \<Rightarrow> (ev, k1)
      | (Inl _, k1) \<Rightarrow>
          (if is_active
           then (Some ((alarm_event_new alarm_id (alarm_level cfg)
                   (MsgPlain (alarm_template alarm_id cfg)) now [] [])\<lparr> ae_evaluator_error := True \<rparr>), k1)
           else (None, k1)))"

section \<open>Three-valued logic\<close>

text \<open>
  the connectives are the strong Kleene ones: negating every input swaps conjunction and
  disjunction, and resolving an unknown input never changes a definite answer.
\<close>

theorem kleene_de_morgan:
  "or_conditions (map (map_option Not) rs) = map_option Not (and_conditions rs)"
proof -
  have neg: "map_option Not x = Some b \<longleftrightarrow> x = Some (\<not> b)" for x b
    by (cases x) auto
  have mem: "Some b \<in> set (map (map_option Not) rs) \<longleftrightarrow> Some (\<not> b) \<in> set rs" for b
    by (auto simp: image_iff neg [symmetric] eq_commute [of "Some _"])
      (metis neg)+
  show ?thesis
    unfolding or_conditions_def and_conditions_def mem
    by (auto simp: neg)
qed

text \<open>\<open>more_known xs ys\<close>: \<open>ys\<close> is \<open>xs\<close> with some unknowns resolved.\<close>

definition more_known :: "bool option list \<Rightarrow> bool option list \<Rightarrow> bool" where
  "more_known xs ys = list_all2 (\<lambda>x y. x = None \<or> x = y) xs ys"

lemma more_known_mem: "more_known xs ys \<Longrightarrow> Some b \<in> set xs \<Longrightarrow> Some b \<in> set ys"
  unfolding more_known_def by (induction rule: list_all2_induct) auto

lemma more_known_all:
  "more_known xs ys \<Longrightarrow> \<forall>x \<in> set xs. x = Some b \<Longrightarrow> \<forall>y \<in> set ys. y = Some b"
  unfolding more_known_def by (induction rule: list_all2_induct) auto

lemma and_conditions_stable:
  assumes "more_known xs ys" and "and_conditions xs = Some b"
  shows "and_conditions ys = Some b"
proof (cases "Some False \<in> set xs")
  case True
  with assms more_known_mem show ?thesis by (auto simp: and_conditions_def)
next
  case False
  with assms(2) have all: "\<forall>x \<in> set xs. x = Some True" and b: "b = True"
    by (auto simp: and_conditions_def split: if_splits)
  from more_known_all [OF assms(1) all] b show ?thesis
    by (auto simp: and_conditions_def)
qed

lemma or_conditions_stable:
  assumes "more_known xs ys" and "or_conditions xs = Some b"
  shows "or_conditions ys = Some b"
proof (cases "Some True \<in> set xs")
  case True
  with assms more_known_mem show ?thesis by (auto simp: or_conditions_def)
next
  case False
  with assms(2) have all: "\<forall>x \<in> set xs. x = Some False" and b: "b = False"
    by (auto simp: or_conditions_def split: if_splits)
  from more_known_all [OF assms(1) all] b show ?thesis
    by (auto simp: or_conditions_def)
qed

section \<open>Ignorance never clears, ignorance never fires\<close>

lemma check_threshold_aged [simp]:
  "tk_aged now k (snd (check_threshold_channel env k now ch check cfg))"
proof (cases "check = ''fault_count_in_window''")
  case True
  then show ?thesis by (simp add: check_threshold_channel_def Let_def case_prod_beta)
next
  case False
  then have "snd (check_threshold_channel env k now ch check cfg) = snd (tk_get k ch now)"
    by (auto simp: check_threshold_channel_def Let_def case_prod_beta split: option.splits)
  then show ?thesis by simp
qed

lemma any_loop_aged: "tk_aged now k (snd (any_loop p now chs u k))"
proof (induction chs arbitrary: u k)
  case (Cons ch chs)
  have "tk_aged now k (snd (any_loop p now chs u' (snd (tk_get k ch now))))" for u'
    using Cons.IH tk_aged_trans tk_aged_get by blast
  then show ?case
    by (simp add: case_prod_beta split: option.splits)
qed simp

lemma rate_condition_aged [simp]: "tk_aged now k (snd (rate_condition env k now cond test))"
  by (simp add: rate_condition_def Let_def case_prod_beta split: option.splits)

lemma point_condition_aged [simp]: "tk_aged now k (snd (point_condition k now ch test))"
  by (simp add: point_condition_def case_prod_beta split: option.splits)

lemma eval_condition_aged [simp]: "tk_aged now k (snd (eval_condition env k now cond))"
  unfolding eval_condition_def Let_def
  by (simp add: case_prod_beta any_loop_aged split: option.splits sum.splits)

lemma threshold_loop_unknown_kept:
  assumes "is_active" and "in_active ac ch" and "ch \<in> set chs" and "unknown_at k ch now"
  shows "fst (eval_threshold_loop env now aid cfg is_active ac check chs k) \<noteq> Inr None"
  using assms(3,4)
proof (induction chs arbitrary: k)
  case (Cons c chs)
  let ?k1 = "snd (tk_get k c now)"
  let ?k2 = "snd (check_threshold_channel env ?k1 now c check cfg)"
  have aged: "tk_aged now k ?k1" "tk_aged now k ?k2"
    using tk_aged_trans [OF tk_aged_get check_threshold_aged] by auto
  show ?case
  proof (cases "c = ch")
    case True
    then have "unknown_at k c now" using Cons.prems by simp
    then show ?thesis
      using assms(1,2) True
      by (auto simp: Let_def case_prod_beta unknown_at_def split: option.splits)
  next
    case False
    then have mem: "ch \<in> set chs" using Cons.prems by simp
    have next1: "fst (eval_threshold_loop env now aid cfg is_active ac check chs ?k1) \<noteq> Inr None"
      using Cons.IH [OF mem] Cons.prems(2) unknown_at_aged [OF aged(1)] by simp
    have next2: "fst (eval_threshold_loop env now aid cfg is_active ac check chs ?k2) \<noteq> Inr None"
      using Cons.IH [OF mem] Cons.prems(2) unknown_at_aged [OF aged(2)] by simp
    show ?thesis
      using next1 next2
      by (auto simp: Let_def case_prod_beta split: option.splits sum.splits prod.splits)
  qed
qed simp

lemma threshold_loop_all_unknown:
  assumes "\<not> is_active" and "\<forall>ch \<in> set chs. unknown_at k ch now"
  shows "fst (eval_threshold_loop env now aid cfg is_active ac check chs k) = Inr None"
  using assms(2)
proof (induction chs arbitrary: k)
  case (Cons c chs)
  let ?k1 = "snd (tk_get k c now)"
  have "\<forall>ch \<in> set chs. unknown_at ?k1 ch now"
    using Cons.prems unknown_at_aged [OF tk_aged_get] by simp
  then have "fst (eval_threshold_loop env now aid cfg is_active ac check chs ?k1) = Inr None"
    by (rule Cons.IH)
  moreover have "unknown_at k c now" using Cons.prems by simp
  ultimately show ?case
    using assms(1) by (auto simp: Let_def case_prod_beta unknown_at_def split: option.splits)
qed simp

lemma evaluate_active_not_None:
  assumes "fst (evaluate_raw env k now aid cfg True ac) \<noteq> Inr None"
  shows "fst (evaluate env k now aid cfg True ac) \<noteq> None"
  using assms
  by (cases "evaluate_raw env k now aid cfg True ac")
    (auto simp: evaluate_def split: sum.splits)

lemma threshold_unknown_event:
  assumes "a_alarm_type cfg = Some ''threshold''"
    and "ch \<in> set (alarm_resolve_channels cfg)" and "in_active ac ch" and "unknown_at k ch now"
  shows "fst (evaluate env k now aid cfg True ac) \<noteq> None"
proof (rule evaluate_active_not_None)
  show "fst (evaluate_raw env k now aid cfg True ac) \<noteq> Inr None"
    unfolding evaluate_raw_def eval_threshold_def
    using threshold_loop_unknown_kept [of True ac ch "alarm_resolve_channels cfg" k now] assms by simp
qed

text \<open>
  losing a sensor never clears an active threshold alarm. If the alarm is active and one of the
  channels that triggered it has no data, stale data or a non-finite value, evaluation returns a
  keep-active event, whatever the other channels and the configuration are (a broken configuration
  included).
\<close>

theorem threshold_unknown_keeps_active:
  assumes "a_alarm_type cfg = Some ''threshold''"
    and "ch \<in> set (alarm_resolve_channels cfg)" and "in_active ac ch" and "unknown_at k ch now"
  shows "fst (evaluate env k now aid cfg True ac) \<noteq> None"
  using assms by (rule threshold_unknown_event)

definition sample_cfg :: alarm_cfg where
  "sample_cfg =
     \<lparr> c_check = Some ''above'', c_channel = Some ''c'', c_channels = None,
       c_threshold = Some (Fin 10), c_range = None, c_setpoint_source = None,
       c_rate_window_s = None, c_rate_threshold = None,
       a_alarm_type = Some ''threshold'', a_level = None, a_message = None,
       a_hysteresis = Some (Fin 2), a_min_fault_count = None, a_operator = None,
       a_conditions = None, a_additional_condition = None, a_timeout_s = None,
       a_sustained_s = None \<rparr>"

definition sample_env :: eval_env where
  "sample_env = \<lparr> ev_rate = rate_init 120 60 None 4, ev_phase_elapsed = Some (Fin 0),
                  ev_setpoint = (\<lambda>key. Inl (KeyError key)) \<rparr>"

theorem threshold_unknown_keeps_active_witness:
  "unknown_at (tracker_init 30 300) ''c'' 5
   \<and> fst (evaluate sample_env (tracker_init 30 300) 5 ''a1'' sample_cfg True (Some [''c''])) \<noteq> None"
proof -
  have u: "unknown_at (tracker_init 30 300) ''c'' 5"
    by (simp add: unknown_at_eq tracker_init_def)
  have "fst (evaluate sample_env (tracker_init 30 300) 5 ''a1'' sample_cfg True (Some [''c''])) \<noteq> None"
    by (rule threshold_unknown_keeps_active [OF _ _ _ u])
      (simp_all add: sample_cfg_def alarm_resolve_channels_def in_active_def)
  with u show ?thesis by simp
qed

text \<open>
  an inactive threshold alarm never fires on missing data: when every configured channel is
  unknown, evaluation gives no event.
\<close>

theorem threshold_unknown_never_fires:
  assumes "a_alarm_type cfg = Some ''threshold''"
    and "\<forall>ch \<in> set (alarm_resolve_channels cfg). unknown_at k ch now"
  shows "fst (evaluate env k now aid cfg False ac) = None"
proof -
  have "fst (evaluate_raw env k now aid cfg False ac) = Inr None"
    unfolding evaluate_raw_def eval_threshold_def
    using threshold_loop_all_unknown [of False "alarm_resolve_channels cfg" k now] assms by simp
  then show ?thesis
    by (cases "evaluate_raw env k now aid cfg False ac") (simp add: evaluate_def)
qed

theorem threshold_unknown_never_fires_witness:
  "fst (evaluate sample_env (tracker_init 30 300) 5 ''a1'' sample_cfg False None) = None"
  by (rule threshold_unknown_never_fires)
    (simp_all add: sample_cfg_def alarm_resolve_channels_def unknown_at_eq tracker_init_def)

section \<open>What a clear means\<close>

lemma tk_get_value_aged:
  assumes "tk_aged now k k'" and "fst (tk_get k' ch now) = Some st'"
  shows "\<exists>st. fst (tk_get k ch now) = Some st \<and> cs_value st = cs_value st'
    \<and> cs_is_usable st = cs_is_usable st'"
proof -
  let ?c = "tk_resolve_channel k ch"
  have "st_aged now (tk_stale_timeout k) (dict_get (tk_states k) ?c) (dict_get (tk_states k') ?c)"
    and "tk_stale_timeout k' = tk_stale_timeout k"
    using assms(1) by (simp_all add: tk_aged_def)
  then show ?thesis
    using assms(2)
    by (auto simp: tk_get_def Let_def case_prod_beta tk_aged_resolve [OF assms(1)] st_aged_def
        cs_is_usable_def split: option.splits)
qed

text \<open>\<open>clear_seen\<close>: the channel has a usable value outside both the trigger zone and the deadband.\<close>

definition clear_seen :: "tracker \<Rightarrow> real \<Rightarrow> string \<Rightarrow> pyfloat \<Rightarrow> pyfloat \<Rightarrow> string \<Rightarrow> bool" where
  "clear_seen k now check threshold hysteresis ch =
     (case fst (tk_get k ch now) of
        None \<Rightarrow> False
      | Some st \<Rightarrow> cs_is_usable st \<and> \<not> in_deadband check (cs_value st) threshold hysteresis)"

lemma clear_seen_aged:
  assumes "tk_aged now k k'" and "clear_seen k' now check th h ch"
  shows "clear_seen k now check th h ch"
  using assms tk_get_value_aged [OF assms(1), of ch]
  by (fastforce simp: clear_seen_def split: option.splits)

lemma check_threshold_value:
  assumes "check = ''above'' \<or> check = ''below''" and "tk_get k ch now = (Some st, k1)"
    and "check_threshold_channel env k1 now ch check cfg = (Inr (b, v), k2)"
  shows "v = cs_value st"
proof -
  have "fst (tk_get k1 ch now) \<noteq> None"
    using tracker_source.same_value [OF assms(2), of now] by auto
  then obtain st2 k3 where g: "tk_get k1 ch now = (Some st2, k3)"
    by (cases "tk_get k1 ch now") auto
  then have "cs_value st2 = cs_value st"
    by (rule tracker_source.reread_same_value [OF assms(2)])
  then show ?thesis
    using assms(1,3) g
    by (auto simp: check_threshold_channel_def res_bind_Inr_iff Let_def)
qed

lemma threshold_loop_clear:
  assumes chk: "check = ''above'' \<or> check = ''below''" and hyst: "a_hysteresis cfg = Some h"
    and mem: "ch \<in> set chs" and act: "in_active ac ch"
    and none: "fst (eval_threshold_loop env now aid cfg True ac check chs k) = Inr None"
  shows "clear_seen k now check (get_opt (c_threshold cfg) (Fin 0)) h ch"
  using mem none
proof (induction chs arbitrary: k)
  case (Cons c chs)
  obtain st k1 where g: "tk_get k c now = (st, k1)" by (cases "tk_get k c now")
  obtain r k2 where ck: "check_threshold_channel env k1 now c check cfg = (r, k2)"
    by (cases "check_threshold_channel env k1 now c check cfg")
  have aged1: "tk_aged now k k1"
    using tk_aged_get [of now k c] g by simp
  have aged2: "tk_aged now k k2"
    using tk_aged_trans [OF aged1 check_threshold_aged [of now k1 env c check cfg]] ck by simp
  let ?next = "\<lambda>k. fst (eval_threshold_loop env now aid cfg True ac check chs k) = Inr None"
  have IH1: "ch \<in> set chs \<Longrightarrow> ?next k1 \<Longrightarrow> ?case"
    using Cons.IH clear_seen_aged [OF aged1] by blast
  have IH2: "ch \<in> set chs \<Longrightarrow> ?next k2 \<Longrightarrow> ?case"
    using Cons.IH clear_seen_aged [OF aged2] by blast
  show ?case
  proof (cases "case st of None \<Rightarrow> True | Some state \<Rightarrow> \<not> cs_is_usable state")
    case True
    then have "\<not> in_active ac c" and "?next k1"
      using Cons.prems(2) by (auto simp: g Let_def split: if_splits)
    then show ?thesis using IH1 act Cons.prems(1) by auto
  next
    case False
    then obtain state where st: "st = Some state" and us: "cs_is_usable state"
      by (auto split: option.splits)
    from Cons.prems(2) False obtain v where r: "r = Inr (False, v)"
      by (auto simp: g ck Let_def split: if_splits sum.splits prod.splits)
    have v: "v = cs_value state"
      using check_threshold_value [OF chk, of k c now state k1] g ck by (simp add: st r)
    have body: "if \<not> in_active ac c then ?next k2
        else \<not> in_deadband check v (get_opt (c_threshold cfg) (Fin 0)) h \<and> ?next k2"
      using Cons.prems(2) us chk by (auto simp: g ck st r hyst Let_def split: if_splits)
    show ?thesis
    proof (cases "c = ch")
      case True
      then show ?thesis
        using body act us g by (simp add: clear_seen_def st v)
    next
      case False
      then show ?thesis
        using body IH2 Cons.prems(1) by (auto split: if_splits)
    qed
  qed
qed simp

text \<open>
  an active threshold alarm with hysteresis evaluates to "no event" only on affirmative
  evidence: every configured channel that triggered it then has a usable value outside the
  deadband.
\<close>

theorem threshold_clear_sound:
  assumes "a_alarm_type cfg = Some ''threshold''"
    and "get_opt (c_check cfg) ''above'' = check" and "check = ''above'' \<or> check = ''below''"
    and "a_hysteresis cfg = Some h"
    and "fst (evaluate env k now aid cfg True ac) = None"
    and "ch \<in> set (alarm_resolve_channels cfg)" and "in_active ac ch"
  shows "clear_seen k now check (get_opt (c_threshold cfg) (Fin 0)) h ch"
proof -
  have "fst (evaluate_raw env k now aid cfg True ac) = Inr None"
    using evaluate_active_not_None assms(5) by blast
  then have "fst (eval_threshold_loop env now aid cfg True ac check (alarm_resolve_channels cfg) k)
      = Inr None"
    using assms(1,2) by (simp add: evaluate_raw_def eval_threshold_def)
  with assms show ?thesis by (intro threshold_loop_clear) auto
qed

definition quiet_tracker :: tracker where
  "quiet_tracker = (tracker_init 30 300)\<lparr> tk_states :=
     [(''c'', \<lparr> cs_channel = ''c'', cs_value = Fin 7, cs_timestamp = 4, cs_unit = ''K'',
               cs_instrument_id = ''i'', cs_is_stale = False, cs_fault_count_window = 0 \<rparr>)] \<rparr>"

theorem threshold_clear_sound_witness:
  "clear_seen quiet_tracker 5 ''above'' (Fin 10) (Fin 2) ''c''"
proof -
  have none: "fst (evaluate sample_env quiet_tracker 5 ''a1'' sample_cfg True (Some [''c''])) = None"
    by (simp add: evaluate_def evaluate_raw_def eval_threshold_def sample_cfg_def get_opt_def
        alarm_resolve_channels_def quiet_tracker_def tracker_init_def tk_get_def Let_def
        tk_resolve_channel_def get_fault_count_def dict_getd_def cs_is_usable_def
        check_threshold_channel_def require_def in_deadband_def in_active_def)
  have "clear_seen quiet_tracker 5 ''above'' (get_opt (c_threshold sample_cfg) (Fin 0)) (Fin 2) ''c''"
    by (rule threshold_clear_sound [OF _ _ _ _ none])
      (simp_all add: sample_cfg_def get_opt_def alarm_resolve_channels_def in_active_def)
  then show ?thesis by (simp add: sample_cfg_def get_opt_def)
qed

text \<open>
  an active composite alarm evaluates to "no event" only when its conditions are definitely
  not met: some condition of a conjunction is known false, or all of a disjunction are.
\<close>

theorem composite_clear_sound:
  assumes "a_alarm_type cfg = Some ''composite''"
    and "fst (evaluate env k now aid cfg True ac) = None"
  shows "\<exists>rs k'. eval_conditions env now (get_opt (a_conditions cfg) []) k = (Inr rs, k')
    \<and> (if get_opt (a_operator cfg) ''AND'' = ''AND'' then Some False \<in> set rs
       else \<forall>r \<in> set rs. r = Some False)"
proof -
  have none: "fst (eval_composite env k now aid cfg True) = Inr None"
    using evaluate_active_not_None [of env k now aid cfg ac] assms
    by (auto simp: evaluate_raw_def)
  obtain r k' where ec: "eval_conditions env now (get_opt (a_conditions cfg) []) k = (r, k')"
    by (cases "eval_conditions env now (get_opt (a_conditions cfg) []) k")
  from none ec obtain rs where r: "r = Inr rs"
    by (cases r) (auto simp: eval_composite_def Let_def)
  have "(if get_opt (a_operator cfg) ''AND'' = ''AND'' then and_conditions rs else or_conditions rs)
      = Some False"
    using none
    by (auto simp: eval_composite_def Let_def ec r case_prod_beta split: if_splits)
  then show ?thesis
    using ec r by (auto simp: and_conditions_def or_conditions_def split: if_splits)
qed

theorem composite_clear_sound_witness:
  "\<exists>rs k'. eval_conditions sample_env 5 [cond_cfg.truncate sample_cfg] quiet_tracker = (Inr rs, k')
    \<and> Some False \<in> set rs"
proof -
  let ?cfg = "sample_cfg\<lparr>a_alarm_type := Some ''composite'',
                a_conditions := Some [cond_cfg.truncate sample_cfg]\<rparr>"
  have none: "fst (evaluate sample_env quiet_tracker 5 ''a1'' ?cfg True None) = None"
    by (simp add: evaluate_def evaluate_raw_def eval_composite_def sample_cfg_def get_opt_def
        alarm_resolve_channels_def quiet_tracker_def tracker_init_def tk_get_def Let_def
        tk_resolve_channel_def get_fault_count_def dict_getd_def cs_is_usable_def
        eval_condition_def point_condition_def require_def and_conditions_def cond_cfg.defs
        exI [of _ False])
  have cfg: "a_alarm_type ?cfg = Some ''composite''" "get_opt (a_operator ?cfg) ''AND'' = ''AND''"
    "get_opt (a_conditions ?cfg) [] = [cond_cfg.truncate sample_cfg]"
    by (simp_all add: sample_cfg_def get_opt_def)
  show ?thesis
    using composite_clear_sound [OF cfg(1) none] unfolding cfg(2,3) by simp
qed

end
