(* ===== verification/AlarmState.thy ===== *)
theory AlarmState
  imports AlarmEval "HOL-Library.List_Lexorder" "HOL-Library.Char_ord"
begin

text \<open>
  \<open>AlarmStateManager\<close> and \<open>tick_alarm\<close> of \<^verbatim>\<open>src/cryodaq/core/alarm_v2.py\<close>: which alarms are
  active, their identities, acknowledgements, the bounded history, and the canonical snapshot.
  \<open>now1\<close> and \<open>now2\<close> are the successive values of \<open>time.time()\<close> inside one call.
\<close>

section \<open>State\<close>

record alarm_history_entry =
  he_alarm_id :: string
  he_transition :: string
  he_at :: real
  he_level :: string
  he_message :: "alarm_message option"
  he_operator :: "string option"
  he_reason :: "string option"
  he_request_id :: "string option"

record alarm_mgr =
  am_active :: "alarm_event dict"
  am_sustained_since :: "real dict"
  am_state_revision :: nat
  am_activation_sequence :: nat
  am_history :: "alarm_history_entry list"

definition alarm_mgr_init :: alarm_mgr where
  "alarm_mgr_init = \<lparr> am_active = [], am_sustained_since = [], am_state_revision = 0,
                      am_activation_sequence = 0, am_history = [] \<rparr>"

definition history_maxlen :: nat where "history_maxlen = 1000"

definition history_append :: "alarm_history_entry \<Rightarrow> alarm_mgr \<Rightarrow> alarm_mgr" where
  "history_append e m = m\<lparr> am_history := dq_append history_maxlen e (am_history m) \<rparr>"

interpretation alarm_history: bounded_log history_append am_history history_maxlen
  by unfold_locales (simp_all add: history_append_def history_maxlen_def)

definition mark_active_mutation :: "alarm_mgr \<Rightarrow> alarm_mgr" where
  "mark_active_mutation m = m\<lparr> am_state_revision := am_state_revision m + 1 \<rparr>"

definition history_entry :: "string \<Rightarrow> string \<Rightarrow> real \<Rightarrow> string \<Rightarrow> alarm_history_entry" where
  "history_entry alarm_id transition ts level =
     \<lparr> he_alarm_id = alarm_id, he_transition = transition, he_at = ts, he_level = level,
       he_message = None, he_operator = None, he_reason = None, he_request_id = None \<rparr>"

definition put_active :: "string \<Rightarrow> alarm_event \<Rightarrow> alarm_mgr \<Rightarrow> alarm_mgr" where
  "put_active alarm_id ev m = m\<lparr> am_active := dict_set alarm_id ev (am_active m) \<rparr>"

section \<open>process\<close>

datatype transition = TRIGGERED | CLEARED

text \<open>Activation of a new alarm, shared by \<open>process\<close> and \<open>publish_diagnostic_alarm\<close>.\<close>

definition activate_alarm :: "alarm_mgr \<Rightarrow> string \<Rightarrow> alarm_event \<Rightarrow> alarm_mgr" where
  "activate_alarm m alarm_id event =
     (let seq = am_activation_sequence m + 1;
          stored = event\<lparr> ae_activation_id := seq \<rparr>;
          m1 = put_active alarm_id stored (m\<lparr> am_activation_sequence := seq \<rparr>)
      in history_append
           ((history_entry alarm_id ''TRIGGERED'' (ae_triggered_at stored) (ae_level stored))
              \<lparr> he_message := Some (ae_message stored) \<rparr>)
           (mark_active_mutation m1))"

definition process_event ::
  "alarm_mgr \<Rightarrow> string \<Rightarrow> alarm_event \<Rightarrow> real option \<Rightarrow> real \<Rightarrow> real \<Rightarrow> transition option \<times> alarm_mgr" where
  "process_event m alarm_id event sustained_s now1 now2 =
     (case sustained_s of
        None \<Rightarrow>
          (let m1 = m\<lparr> am_sustained_since := dict_del alarm_id (am_sustained_since m) \<rparr>
           in (Some TRIGGERED, activate_alarm m1 alarm_id event))
      | Some s \<Rightarrow>
          (let m1 = (case dict_get (am_sustained_since m) alarm_id of
                       None \<Rightarrow> m\<lparr> am_sustained_since := dict_set alarm_id now1 (am_sustained_since m) \<rparr>
                     | Some _ \<Rightarrow> m);
               elapsed = now2 - dict_getd (am_sustained_since m1) alarm_id now1
           in if elapsed < s then (None, m1)
              else (Some TRIGGERED, activate_alarm m1 alarm_id event)))"

definition alarm_process ::
  "alarm_mgr \<Rightarrow> string \<Rightarrow> alarm_event option \<Rightarrow> alarm_cfg \<Rightarrow> real \<Rightarrow> real \<Rightarrow>
   transition option \<times> alarm_mgr" where
  "alarm_process m alarm_id event cfg now1 now2 =
     (case event of
        Some ev \<Rightarrow>
          (case dict_get (am_active m) alarm_id of
             Some active_event \<Rightarrow>
               (if ae_evaluator_error ev then
                  (None, if ae_evaluator_error active_event then m
                         else mark_active_mutation
                                (put_active alarm_id (active_event\<lparr> ae_evaluator_error := True \<rparr>) m))
                else
                  (None, if ae_evaluator_error active_event
                         then mark_active_mutation
                                (put_active alarm_id (active_event\<lparr> ae_evaluator_error := False \<rparr>) m)
                         else m))
           | None \<Rightarrow>
               (if ae_evaluator_error ev then (None, m)
                else process_event m alarm_id ev (a_sustained_s cfg) now1 now2))
      | None \<Rightarrow>
          (let m1 = m\<lparr> am_sustained_since := dict_del alarm_id (am_sustained_since m) \<rparr>
           in case dict_get (am_active m) alarm_id of
                None \<Rightarrow> (None, m1)
              | Some old_event \<Rightarrow>
                  (Some CLEARED,
                   history_append (history_entry alarm_id ''CLEARED'' now1 (ae_level old_event))
                     (mark_active_mutation
                       (m1\<lparr> am_active := dict_del alarm_id (am_active m) \<rparr>)))))"

section \<open>Diagnostic alarms\<close>

definition py_upper_char :: "char \<Rightarrow> char" where
  "py_upper_char c =
     (let n = (of_char c :: nat) in if 97 \<le> n \<and> n \<le> 122 then char_of (n - 32) else c)"

definition publish_diagnostic_alarm ::
  "alarm_mgr \<Rightarrow> string \<Rightarrow> string \<Rightarrow> real \<Rightarrow> real \<Rightarrow> alarm_event option \<times> alarm_mgr" where
  "publish_diagnostic_alarm m channel_id severity age_seconds now1 =
     (let alarm_id = ''diag:'' @ channel_id;
          level = map py_upper_char severity;
          message = MsgDiagnostic channel_id age_seconds
      in case dict_get (am_active m) alarm_id of
           Some existing \<Rightarrow>
             (if level = ''CRITICAL'' \<and> ae_level existing = ''WARNING'' then
                (let up = existing\<lparr> ae_level := level, ae_message := message \<rparr>
                 in (Some up,
                     history_append
                       ((history_entry alarm_id ''SEVERITY_UPGRADED'' now1 level)\<lparr> he_message := Some message \<rparr>)
                       (mark_active_mutation (put_active alarm_id up m))))
              else (None, m))
         | None \<Rightarrow>
             (let event = alarm_event_new alarm_id level message now1 [channel_id]
                            [(channel_id, Fin age_seconds)];
                  m' = activate_alarm m alarm_id event
              in (dict_get (am_active m') alarm_id, m')))"

definition clear_diagnostic_alarm :: "alarm_mgr \<Rightarrow> string \<Rightarrow> real \<Rightarrow> alarm_mgr" where
  "clear_diagnostic_alarm m channel_id now1 =
     (let alarm_id = ''diag:'' @ channel_id
      in case dict_get (am_active m) alarm_id of
           None \<Rightarrow> m
         | Some _ \<Rightarrow>
             history_append (history_entry alarm_id ''CLEARED'' now1 ''INFO'')
               (mark_active_mutation (m\<lparr> am_active := dict_del alarm_id (am_active m) \<rparr>)))"

section \<open>Acknowledgement\<close>

definition hex_char :: "char \<Rightarrow> bool" where
  "hex_char c = (c \<in> set ''0123456789abcdef'')"

definition valid_request_id :: "string \<Rightarrow> bool" where
  "valid_request_id r = (length r = 32 \<and> list_all hex_char r)"

record ack_result =
  ack_alarm_id :: string
  ack_at :: real
  ack_operator :: string
  ack_reason :: string
  ack_request_id :: "string option"

definition acknowledge ::
  "alarm_mgr \<Rightarrow> string \<Rightarrow> string \<Rightarrow> string \<Rightarrow> nat option \<Rightarrow> pyfloat option \<Rightarrow> string option \<Rightarrow> real \<Rightarrow>
   ack_result option result \<times> alarm_mgr" where
  "acknowledge m alarm_id operator reason expected_activation_id acknowledged_at request_id now1 =
     (if (case acknowledged_at of None \<Rightarrow> False
          | Some a \<Rightarrow> \<not> fl_isfinite a \<or> fl_le a (Fin 0))
      then (Inl (ValueError ''acknowledged_at must be one positive finite float''), m)
      else if (case request_id of None \<Rightarrow> False | Some r \<Rightarrow> \<not> valid_request_id r)
      then (Inl (ValueError ''request_id must be exactly 32 lowercase hexadecimal characters''), m)
      else
        (case dict_get (am_active m) alarm_id of
           None \<Rightarrow> (Inr None, m)
         | Some event \<Rightarrow>
             (if (case expected_activation_id of None \<Rightarrow> False
                  | Some i \<Rightarrow> ae_activation_id event \<noteq> i)
              then (Inr None, m)
              else if ae_acknowledged event then (Inr None, m)
              else
                (let ts = (case acknowledged_at of Some (Fin a) \<Rightarrow> a | _ \<Rightarrow> now1);
                     ev' = event\<lparr> ae_acknowledged := True, ae_acknowledged_at := ts,
                             ae_acknowledged_by := operator, ae_acknowledged_reason := reason,
                             ae_acknowledgement_request_id := (case request_id of None \<Rightarrow> [] | Some r \<Rightarrow> r) \<rparr>;
                     m1 = mark_active_mutation (put_active alarm_id ev' m);
                     entry = (history_entry alarm_id ''ACKNOWLEDGED'' ts (ae_level event))
                               \<lparr> he_operator := Some operator, he_reason := Some reason,
                                 he_request_id := request_id \<rparr>
                 in (Inr (Some \<lparr> ack_alarm_id = alarm_id, ack_at = ts, ack_operator = operator,
                                 ack_reason = reason, ack_request_id = request_id \<rparr>),
                     history_append entry m1)))))"

definition acknowledgement_matches ::
  "alarm_mgr \<Rightarrow> string \<Rightarrow> string \<Rightarrow> string \<Rightarrow> string \<Rightarrow> nat \<Rightarrow> pyfloat \<Rightarrow> bool" where
  "acknowledgement_matches m alarm_id operator reason request_id expected_activation_id acknowledged_at =
     (if \<not> valid_request_id request_id \<or> \<not> fl_isfinite acknowledged_at \<or> fl_le acknowledged_at (Fin 0)
      then False
      else
        (case dict_get (am_active m) alarm_id of
           None \<Rightarrow> False
         | Some event \<Rightarrow>
             ae_activation_id event = expected_activation_id \<and> ae_acknowledged event
             \<and> Fin (ae_acknowledged_at event) = acknowledged_at
             \<and> ae_acknowledged_by event = operator \<and> ae_acknowledged_reason event = reason
             \<and> ae_acknowledgement_request_id event = request_id))"

section \<open>Reading the state\<close>

definition get_active :: "alarm_mgr \<Rightarrow> alarm_event dict" where
  "get_active m = am_active m"

text \<open>\<open>items[-limit:]\<close>: the last \<open>limit\<close> entries; all of them for 0; dropping from the front below 0.\<close>

definition alarm_get_history :: "alarm_mgr \<Rightarrow> int \<Rightarrow> alarm_history_entry list" where
  "alarm_get_history m limit =
     (let items = am_history m
      in if 0 < limit then drop (length items - nat limit) items
         else drop (nat (- limit)) items)"

definition SNAPSHOT_MAX_ACTIVE :: nat where "SNAPSHOT_MAX_ACTIVE = 128"
definition SNAPSHOT_MAX_CHANNELS :: nat where "SNAPSHOT_MAX_CHANNELS = 64"
definition SNAPSHOT_MAX_TEXT :: nat where "SNAPSHOT_MAX_TEXT = 256"
definition SNAPSHOT_MAX_CANONICAL_BYTES :: nat where "SNAPSHOT_MAX_CANONICAL_BYTES = 60 * 1024"

definition ALARM_LEVELS :: "string list" where
  "ALARM_LEVELS = [''INFO'', ''WARNING'', ''CRITICAL'']"

text \<open>Text is UTF-8 bytes: the byte limit implies the character limit, control characters are ASCII.\<close>

definition valid_snapshot_text :: "string \<Rightarrow> bool" where
  "valid_snapshot_text v =
     (v \<noteq> [] \<and> length v \<le> SNAPSHOT_MAX_TEXT
      \<and> list_all (\<lambda>c. let n = (of_char c :: nat) in 32 \<le> n \<and> n \<noteq> 127) v)"

record snapshot_entry =
  se_level :: string
  se_triggered_at :: real
  se_channels :: "string list"
  se_acknowledged :: bool
  se_acknowledged_at :: "real option"

definition snapshot_entry_of :: "string \<Rightarrow> alarm_event \<Rightarrow> snapshot_entry option" where
  "snapshot_entry_of alarm_id event =
     (if \<not> valid_snapshot_text alarm_id \<or> ae_alarm_id event \<noteq> alarm_id
         \<or> ae_level event \<notin> set ALARM_LEVELS \<or> ae_triggered_at event < 0
         \<or> SNAPSHOT_MAX_CHANNELS < length (ae_channels event)
         \<or> \<not> list_all valid_snapshot_text (ae_channels event)
         \<or> (ae_acknowledged event \<and> ae_acknowledged_at event < 0)
      then None
      else Some \<lparr> se_level = ae_level event, se_triggered_at = ae_triggered_at event,
                  se_channels = sort (remdups (ae_channels event)),
                  se_acknowledged = ae_acknowledged event,
                  se_acknowledged_at = (if ae_acknowledged event then Some (ae_acknowledged_at event)
                                        else None) \<rparr>)"

fun snapshot_entries :: "alarm_event dict \<Rightarrow> string list \<Rightarrow> (string \<times> snapshot_entry) list option" where
  "snapshot_entries active [] = Some []"
| "snapshot_entries active (i # is) =
     (case dict_get active i of
        None \<Rightarrow> None
      | Some ev \<Rightarrow>
          (case snapshot_entry_of i ev of
             None \<Rightarrow> None
           | Some e \<Rightarrow>
               (case snapshot_entries active is of
                  None \<Rightarrow> None
                | Some es \<Rightarrow> Some ((i, e) # es))))"

record canonical_snapshot =
  sn_state_revision :: nat
  sn_active :: "(string \<times> snapshot_entry) list"
  sn_state_token :: string

text \<open>
  \<open>None\<close> is \<open>AlarmSnapshotUnavailableError\<close>. \<open>dumps\<close> is the canonical JSON encoding and \<open>sha256\<close> the
  hex digest of the standard library.
\<close>

definition snapshot_active_canonical ::
  "((string \<times> snapshot_entry) list \<Rightarrow> string) \<Rightarrow> (string \<Rightarrow> string) \<Rightarrow> alarm_mgr \<Rightarrow>
   canonical_snapshot option" where
  "snapshot_active_canonical dumps sha256 m =
     (if SNAPSHOT_MAX_ACTIVE < length (am_active m) then None
      else
        (case snapshot_entries (am_active m) (sort (dict_keys (am_active m))) of
           None \<Rightarrow> None
         | Some active \<Rightarrow>
             (let canonical = dumps active
              in if SNAPSHOT_MAX_CANONICAL_BYTES < length canonical then None
                 else Some \<lparr> sn_state_revision = am_state_revision m, sn_active = active,
                             sn_state_token = ''sha256:'' @ sha256 canonical \<rparr>)))"

section \<open>The per-alarm pipeline\<close>

record alarm_def =
  ad_alarm_id :: string
  ad_config :: alarm_cfg
  ad_phase_filter :: "string list option"

definition tick_alarm ::
  "alarm_def \<Rightarrow> string option \<Rightarrow> eval_env \<Rightarrow> tracker \<Rightarrow> alarm_mgr \<Rightarrow> real \<Rightarrow> real \<Rightarrow> real \<Rightarrow>
   (alarm_event option \<times> transition option) \<times> tracker \<times> alarm_mgr" where
  "tick_alarm d current_phase env k m now now1 now2 =
     (if (case ad_phase_filter d of None \<Rightarrow> False
          | Some phases \<Rightarrow> (case current_phase of None \<Rightarrow> True | Some p \<Rightarrow> p \<notin> set phases))
      then ((None, None), k, snd (alarm_process m (ad_alarm_id d) None (ad_config d) now1 now2))
      else
        (let active_event = dict_get (get_active m) (ad_alarm_id d);
             (event, k1) = evaluate env k now (ad_alarm_id d) (ad_config d) (active_event \<noteq> None)
                             (map_option ae_channels active_event);
             (tr, m1) = alarm_process m (ad_alarm_id d) event (ad_config d) now1 now2
         in ((event, tr), k1, m1)))"

section \<open>Frame facts\<close>

lemma history_append_frame [simp]:
  "am_active (history_append e m) = am_active m"
  "am_sustained_since (history_append e m) = am_sustained_since m"
  "am_state_revision (history_append e m) = am_state_revision m"
  "am_activation_sequence (history_append e m) = am_activation_sequence m"
  by (simp_all add: history_append_def)

lemma mark_frame [simp]:
  "am_active (mark_active_mutation m) = am_active m"
  "am_sustained_since (mark_active_mutation m) = am_sustained_since m"
  "am_state_revision (mark_active_mutation m) = am_state_revision m + 1"
  "am_activation_sequence (mark_active_mutation m) = am_activation_sequence m"
  "am_history (mark_active_mutation m) = am_history m"
  by (simp_all add: mark_active_mutation_def)

lemma put_active_frame [simp]:
  "am_active (put_active i ev m) = dict_set i ev (am_active m)"
  "am_sustained_since (put_active i ev m) = am_sustained_since m"
  "am_state_revision (put_active i ev m) = am_state_revision m"
  "am_activation_sequence (put_active i ev m) = am_activation_sequence m"
  "am_history (put_active i ev m) = am_history m"
  by (simp_all add: put_active_def)

lemma activate_frame [simp]:
  "am_active (activate_alarm m i ev) =
     dict_set i (ev\<lparr> ae_activation_id := am_activation_sequence m + 1 \<rparr>) (am_active m)"
  "am_state_revision (activate_alarm m i ev) = am_state_revision m + 1"
  "am_activation_sequence (activate_alarm m i ev) = am_activation_sequence m + 1"
  by (simp_all add: activate_alarm_def Let_def)

section \<open>The invariant of the manager\<close>

text \<open>
  Every alarm id is active at most once, activation ids are positive, never above the sequence and
  never shared, and the history is bounded.
\<close>

definition ids_ok :: "alarm_event dict \<Rightarrow> nat \<Rightarrow> bool" where
  "ids_ok active seq =
     ((\<forall>i ev. dict_get active i = Some ev \<longrightarrow> 0 < ae_activation_id ev \<and> ae_activation_id ev \<le> seq)
      \<and> (\<forall>i j ev ev'. dict_get active i = Some ev \<longrightarrow> dict_get active j = Some ev' \<longrightarrow>
            ae_activation_id ev = ae_activation_id ev' \<longrightarrow> i = j))"

definition am_inv :: "alarm_mgr \<Rightarrow> bool" where
  "am_inv m = (dict_ok (am_active m) \<and> ids_ok (am_active m) (am_activation_sequence m)
               \<and> length (am_history m) \<le> history_maxlen)"

lemma am_inv_init: "am_inv alarm_mgr_init"
  by (simp add: am_inv_def alarm_mgr_init_def ids_ok_def)

lemma ids_ok_keep:
  assumes "ids_ok a n" and "dict_get a i = Some ev" and "ae_activation_id ev' = ae_activation_id ev"
  shows "ids_ok (dict_set i ev' a) n"
  unfolding ids_ok_def dict_get_set
proof (intro conjI allI impI)
  fix j e assume "(if j = i then Some ev' else dict_get a j) = Some e"
  then show "0 < ae_activation_id e" "ae_activation_id e \<le> n"
    using assms by (auto simp: ids_ok_def split: if_splits)
next
  fix j k e f
  assume "(if j = i then Some ev' else dict_get a j) = Some e"
    and "(if k = i then Some ev' else dict_get a k) = Some f"
    and "ae_activation_id e = ae_activation_id f"
  then show "j = k"
    using assms by (auto simp: ids_ok_def split: if_splits)
qed

lemma ids_ok_new:
  assumes "ids_ok a n" and "ae_activation_id ev = Suc n"
  shows "ids_ok (dict_set i ev a) (Suc n)"
  using assms unfolding ids_ok_def dict_get_set
  by (fastforce split: if_splits)

lemma ids_ok_del: "ids_ok a n \<Longrightarrow> ids_ok (dict_del i a) n"
  by (auto simp: ids_ok_def dict_get_del split: if_splits)

lemma am_inv_sustained [simp]: "am_inv (m\<lparr>am_sustained_since := x\<rparr>) = am_inv m"
  by (simp add: am_inv_def)

lemma am_inv_mark [simp]: "am_inv (mark_active_mutation m) = am_inv m"
  by (simp add: am_inv_def)

lemma am_inv_history: "am_inv m \<Longrightarrow> am_inv (history_append e m)"
  using alarm_history.push_bounded [of e m] by (simp add: am_inv_def)

lemma am_inv_put:
  "am_inv m \<Longrightarrow> dict_get (am_active m) i = Some ev \<Longrightarrow> ae_activation_id ev' = ae_activation_id ev \<Longrightarrow>
     am_inv (put_active i ev' m)"
  by (simp add: am_inv_def ids_ok_keep)

lemma am_inv_activate: "am_inv m \<Longrightarrow> am_inv (activate_alarm m i ev)"
  unfolding activate_alarm_def Let_def
  by (intro am_inv_history) (simp add: am_inv_def ids_ok_new)

lemma am_inv_del: "am_inv m \<Longrightarrow> am_inv (m\<lparr>am_active := dict_del i (am_active m)\<rparr>)"
  by (simp add: am_inv_def ids_ok_del)

lemmas am_inv_rules = am_inv_history am_inv_put am_inv_activate am_inv_del

lemma process_event_inv: "am_inv m \<Longrightarrow> am_inv (snd (process_event m i ev s t1 t2))"
  by (auto simp: process_event_def Let_def am_inv_activate split: option.splits)

lemma process_inv: "am_inv m \<Longrightarrow> am_inv (snd (alarm_process m i event cfg t1 t2))"
proof (cases event)
  case None
  assume "am_inv m"
  then have "am_inv (m\<lparr>am_sustained_since := x, am_active := dict_del i (am_active m)\<rparr>)" for x
    using am_inv_del [of "m\<lparr>am_sustained_since := x\<rparr>" i] by simp
  then show ?thesis
    using None \<open>am_inv m\<close>
    by (auto simp: alarm_process_def Let_def split: option.splits intro!: am_inv_history)
next
  case (Some ev)
  assume "am_inv m"
  with Some show ?thesis
    by (auto simp: alarm_process_def process_event_inv am_inv_put split: option.splits)
qed

lemma publish_diagnostic_inv: "am_inv m \<Longrightarrow> am_inv (snd (publish_diagnostic_alarm m c sev age t))"
  by (auto simp: publish_diagnostic_alarm_def Let_def split: option.splits
      intro!: am_inv_history am_inv_activate am_inv_put)

lemma clear_diagnostic_inv: "am_inv m \<Longrightarrow> am_inv (clear_diagnostic_alarm m c t)"
  by (auto simp: clear_diagnostic_alarm_def Let_def am_inv_del split: option.splits intro!: am_inv_history)

lemma acknowledge_inv: "am_inv m \<Longrightarrow> am_inv (snd (acknowledge m i oper r e a q t))"
  by (auto simp: acknowledge_def Let_def split: option.splits intro!: am_inv_history am_inv_put)

section \<open>Every sequence of calls\<close>

text \<open>One call of a public mutating method.\<close>

inductive alarm_step :: "alarm_mgr \<Rightarrow> alarm_mgr \<Rightarrow> bool" where
  step_process: "alarm_step m (snd (alarm_process m i event cfg t1 t2))"
| step_publish: "alarm_step m (snd (publish_diagnostic_alarm m c sev age t))"
| step_clear: "alarm_step m (clear_diagnostic_alarm m c t)"
| step_ack: "alarm_step m (snd (acknowledge m i operator r e a q t))"

inductive alarm_reachable :: "alarm_mgr \<Rightarrow> bool" where
  reach_init: "alarm_reachable alarm_mgr_init"
| reach_step: "alarm_reachable m \<Longrightarrow> alarm_step m m' \<Longrightarrow> alarm_reachable m'"

lemma alarm_step_inv: "alarm_step m m' \<Longrightarrow> am_inv m \<Longrightarrow> am_inv m'"
  by (induction rule: alarm_step.induct)
    (simp_all add: process_inv publish_diagnostic_inv clear_diagnostic_inv acknowledge_inv)

lemma alarm_reachable_inv: "alarm_reachable m \<Longrightarrow> am_inv m"
  by (induction rule: alarm_reachable.induct) (auto simp: am_inv_init intro: alarm_step_inv)

text \<open>
  in every state the manager can reach, an activation id names one active alarm and the
  history holds at most 1000 entries.
\<close>

theorem alarm_ids_unique:
  assumes "alarm_reachable m"
    and "dict_get (am_active m) i = Some ev" and "dict_get (am_active m) j = Some ev'"
    and "ae_activation_id ev = ae_activation_id ev'"
  shows "i = j \<and> length (am_history m) \<le> 1000"
  using alarm_reachable_inv [OF assms(1)] assms(2-4)
  by (auto simp: am_inv_def ids_ok_def history_maxlen_def)

theorem alarm_ids_unique_witness:
  "\<exists>ev. dict_get (am_active (snd (publish_diagnostic_alarm alarm_mgr_init ''c'' ''warning'' 300 7))) ''diag:c'' = Some ev
     \<and> length (am_history (snd (publish_diagnostic_alarm alarm_mgr_init ''c'' ''warning'' 300 7))) \<le> 1000"
proof -
  let ?m = "snd (publish_diagnostic_alarm alarm_mgr_init ''c'' ''warning'' 300 7)"
  have r: "alarm_reachable ?m"
    by (rule reach_step [OF reach_init step_publish])
  obtain ev where ev: "dict_get (am_active ?m) ''diag:c'' = Some ev"
    by (simp add: publish_diagnostic_alarm_def alarm_mgr_init_def Let_def)
  from alarm_ids_unique [OF r ev ev refl] ev show ?thesis by simp
qed

section \<open>Transitions\<close>

text \<open>
  \<open>process\<close> reports \<open>TRIGGERED\<close> exactly when an inactive alarm becomes active, \<open>CLEARED\<close>
  exactly when an active one is dropped, and otherwise leaves the set of active alarms as it was.
\<close>

theorem process_transition:
  "case fst (alarm_process m i event cfg t1 t2) of
     Some TRIGGERED \<Rightarrow> dict_get (am_active m) i = None
       \<and> dict_get (am_active (snd (alarm_process m i event cfg t1 t2))) i \<noteq> None
       \<and> event \<noteq> None
   | Some CLEARED \<Rightarrow> dict_get (am_active m) i \<noteq> None
       \<and> dict_get (am_active (snd (alarm_process m i event cfg t1 t2))) i = None
       \<and> event = None
   | None \<Rightarrow> \<forall>j. (dict_get (am_active (snd (alarm_process m i event cfg t1 t2))) j = None)
                    = (dict_get (am_active m) j = None)"
  by (auto simp: alarm_process_def process_event_def Let_def dict_get_set split: option.splits)

lemma process_other:
  "j \<noteq> i \<Longrightarrow> dict_get (am_active (snd (alarm_process m i event cfg t1 t2))) j = dict_get (am_active m) j"
  by (auto simp: alarm_process_def process_event_def Let_def split: option.splits)

text \<open>
  a broken evaluator neither starts nor clears an alarm: an event tagged as an evaluator error
  gives no transition, and every active alarm keeps its identity, acknowledgement and level.
\<close>

theorem evaluator_error_neutral:
  assumes "ae_evaluator_error ev"
  shows "fst (alarm_process m i (Some ev) cfg t1 t2) = None
    \<and> map_option (\<lambda>e. e\<lparr> ae_evaluator_error := False \<rparr>)
          (dict_get (am_active (snd (alarm_process m i (Some ev) cfg t1 t2))) j)
      = map_option (\<lambda>e. e\<lparr> ae_evaluator_error := False \<rparr>) (dict_get (am_active m) j)"
  using assms by (auto simp: alarm_process_def dict_get_set split: option.splits)

definition sample_event :: alarm_event where
  "sample_event = alarm_event_new ''a1'' ''WARNING'' (MsgPlain ''hot'') 3 [''c''] [(''c'', Fin 12)]"

definition one_active :: alarm_mgr where
  "one_active = snd (alarm_process alarm_mgr_init ''a1'' (Some sample_event) sample_cfg 3 3)"

theorem evaluator_error_neutral_witness:
  "fst (alarm_process one_active ''a1'' (Some (sample_event\<lparr>ae_evaluator_error := True\<rparr>)) sample_cfg 4 4) = None
   \<and> map_option (\<lambda>e. e\<lparr> ae_evaluator_error := False \<rparr>)
       (dict_get (am_active (snd (alarm_process one_active ''a1''
          (Some (sample_event\<lparr>ae_evaluator_error := True\<rparr>)) sample_cfg 4 4))) ''a1'')
     = map_option (\<lambda>e. e\<lparr> ae_evaluator_error := False \<rparr>) (dict_get (am_active one_active) ''a1'')"
  by (rule evaluator_error_neutral) simp

text \<open>
  a sustained alarm triggers only after the condition has been held since its recorded start for
  the configured time.
\<close>

theorem sustained_delay:
  assumes "a_sustained_s cfg = Some s"
    and "fst (alarm_process m i (Some ev) cfg t1 t2) = Some TRIGGERED"
  shows "s \<le> t2 - dict_getd (am_sustained_since m) i t1"
  using assms
  by (auto simp: alarm_process_def process_event_def Let_def dict_getd_def
      split: option.splits if_splits)

theorem sustained_delay_witness:
  "(10::real) \<le> 25 - dict_getd [(''a1'', 12)] ''a1'' 25"
proof -
  have t: "fst (alarm_process (alarm_mgr_init\<lparr>am_sustained_since := [(''a1'', 12)]\<rparr>) ''a1''
      (Some sample_event) (sample_cfg\<lparr>a_sustained_s := Some 10\<rparr>) 25 25) = Some TRIGGERED"
    by (simp add: alarm_process_def alarm_mgr_init_def sample_event_def alarm_event_new_def
        process_event_def dict_getd_def)
  show ?thesis
    using sustained_delay [OF _ t, of 10] by (simp add: alarm_mgr_init_def)
qed

section \<open>The revision names the active state\<close>

lemma dict_set_same: "dict_get d k = Some v \<Longrightarrow> dict_set k v d = d"
  by (induction d) auto

text \<open>
  every call that changes the active alarms in any way advances the state revision, and a call
  that leaves the revision alone leaves the active alarms exactly as they were, so two equal
  revisions of one manager describe the same active set.
\<close>

theorem revision_tracks_active:
  assumes "alarm_step m m'"
  shows "am_state_revision m' = am_state_revision m \<and> am_active m' = am_active m
    \<or> am_state_revision m' = am_state_revision m + 1"
  using assms
proof cases
  case (step_process i event cfg t1 t2)
  then show ?thesis
    by (auto simp: alarm_process_def process_event_def Let_def split: option.splits)
next
  case (step_publish c sev age t)
  then show ?thesis
    by (auto simp: publish_diagnostic_alarm_def Let_def split: option.splits)
next
  case (step_clear c t)
  then show ?thesis
    by (auto simp: clear_diagnostic_alarm_def Let_def split: option.splits)
next
  case (step_ack i operator r e a q t)
  then show ?thesis
    by (auto simp: acknowledge_def Let_def split: option.splits)
qed

theorem revision_tracks_active_witness:
  "am_state_revision one_active = 0 \<and> am_active one_active = []
   \<or> am_state_revision one_active = 1"
  using revision_tracks_active [OF step_process [of alarm_mgr_init "''a1''" "Some sample_event" sample_cfg 3 3]]
  unfolding one_active_def by (simp add: alarm_mgr_init_def)

section \<open>Acknowledgement properties\<close>

text \<open>
  C30: a successful acknowledgement with a request id is recognised by \<open>acknowledgement_matches\<close> with
  the same operator, reason, request id, activation and time; the alarm stays active and a second
  acknowledgement changes nothing.
\<close>

theorem acknowledge_roundtrip:
  assumes ok: "acknowledge m i oper reason (Some act) (Some (Fin ts)) (Some rid) now = (Inr (Some r), m')"
  shows "acknowledgement_matches m' i oper reason rid act (Fin ts)
    \<and> acknowledge m' i oper2 reason2 None None None now2 = (Inr None, m')
    \<and> ack_at r = ts \<and> ack_alarm_id r = i
    \<and> (\<forall>j. (dict_get (am_active m') j = None) = (dict_get (am_active m) j = None))"
proof -
  from ok have valid: "valid_request_id rid" "\<not> ts \<le> 0"
    by (auto simp: acknowledge_def split: if_splits)
  from ok valid obtain ev where ev: "dict_get (am_active m) i = Some ev"
    and act: "ae_activation_id ev = act" and fresh: "\<not> ae_acknowledged ev"
    by (auto simp: acknowledge_def split: option.splits if_splits)
  from ok valid ev act fresh show ?thesis
    by (auto simp: acknowledge_def acknowledgement_matches_def Let_def dict_get_set split: if_splits)
qed

definition sample_rid :: string where "sample_rid = replicate 32 (CHR ''a'')"

theorem acknowledge_roundtrip_witness:
  "acknowledgement_matches
     (snd (acknowledge one_active ''a1'' ''op'' ''seen'' (Some 1) (Some (Fin 9)) (Some sample_rid) 9))
     ''a1'' ''op'' ''seen'' sample_rid 1 (Fin 9)"
proof -
  have rid: "valid_request_id sample_rid"
    by (simp add: sample_rid_def valid_request_id_def list_all_iff hex_char_def)
  have ev: "dict_get (am_active one_active) ''a1'' = Some (sample_event\<lparr>ae_activation_id := 1\<rparr>)"
    by (simp add: one_active_def alarm_process_def process_event_def alarm_mgr_init_def
        sample_event_def alarm_event_new_def sample_cfg_def)
  have nack: "\<not> ae_acknowledged (sample_event\<lparr>ae_activation_id := 1\<rparr>)"
    by (simp add: sample_event_def alarm_event_new_def)
  obtain r m' where h: "acknowledge one_active ''a1'' ''op'' ''seen'' (Some 1) (Some (Fin 9)) (Some sample_rid) 9
      = (Inr (Some r), m')"
    using rid ev nack by (simp add: acknowledge_def Let_def)
  from acknowledge_roundtrip [OF h, of "[]" "[]" 0] show ?thesis unfolding h by simp
qed

text \<open>
  an acknowledgement aimed at another activation of the same alarm, or at an alarm that is not
  active, changes nothing.
\<close>

theorem acknowledge_wrong_activation:
  assumes "\<forall>ev. dict_get (am_active m) i = Some ev \<longrightarrow> ae_activation_id ev \<noteq> act"
  shows "snd (acknowledge m i oper reason (Some act) at' rid now) = m"
  using assms by (auto simp: acknowledge_def split: option.splits)

theorem acknowledge_wrong_activation_witness:
  "snd (acknowledge alarm_mgr_init ''a1'' ''op'' ''r'' (Some 1) None None 9) = alarm_mgr_init"
  by (rule acknowledge_wrong_activation) (simp add: alarm_mgr_init_def)

section \<open>The canonical snapshot\<close>

lemma snapshot_entries_keys: "snapshot_entries a is = Some es \<Longrightarrow> map fst es = is"
  by (induction "is" arbitrary: es) (auto split: option.splits)

lemma snapshot_entries_of:
  "snapshot_entries a is = Some es \<Longrightarrow> (i, e) \<in> set es \<Longrightarrow>
     \<exists>ev. dict_get a i = Some ev \<and> snapshot_entry_of i ev = Some e"
  by (induction "is" arbitrary: es) (auto split: option.splits)

text \<open>
  a snapshot lists every active alarm exactly once, ordered by id, each with the level and
  acknowledgement of the stored event and its channels sorted without repetition, within the bounds
  of the closed schema.
\<close>

theorem snapshot_canonical:
  assumes inv: "am_inv m" and some: "snapshot_active_canonical dumps sha m = Some sn"
  shows "sorted (map fst (sn_active sn)) \<and> distinct (map fst (sn_active sn))
    \<and> set (map fst (sn_active sn)) = set (dict_keys (am_active m))
    \<and> length (sn_active sn) \<le> 128
    \<and> (\<forall>(i, e) \<in> set (sn_active sn). \<exists>ev. dict_get (am_active m) i = Some ev
          \<and> se_level e = ae_level ev \<and> se_acknowledged e = ae_acknowledged ev
          \<and> sorted (se_channels e) \<and> distinct (se_channels e)
          \<and> set (se_channels e) = set (ae_channels ev) \<and> length (ae_channels ev) \<le> 64)
    \<and> sn_state_revision sn = am_state_revision m"
proof -
  from some have active: "snapshot_entries (am_active m) (sort (dict_keys (am_active m))) = Some (sn_active sn)"
    and few: "length (am_active m) \<le> 128" and rev: "sn_state_revision sn = am_state_revision m"
    by (auto simp: snapshot_active_canonical_def Let_def SNAPSHOT_MAX_ACTIVE_def
        split: option.splits if_splits)
  note keys = snapshot_entries_keys [OF active]
  have "length (sn_active sn) = length (am_active m)"
    using arg_cong [OF keys, of length] by simp
  moreover have "distinct (dict_keys (am_active m))"
    using inv by (simp add: am_inv_def dict_ok_def)
  moreover have "\<exists>ev. dict_get (am_active m) i = Some ev
          \<and> se_level e = ae_level ev \<and> se_acknowledged e = ae_acknowledged ev
          \<and> sorted (se_channels e) \<and> distinct (se_channels e)
          \<and> set (se_channels e) = set (ae_channels ev) \<and> length (ae_channels ev) \<le> 64"
    if "(i, e) \<in> set (sn_active sn)" for i e
    using snapshot_entries_of [OF active that]
    by (auto simp: snapshot_entry_of_def SNAPSHOT_MAX_CHANNELS_def split: if_splits)
  ultimately show ?thesis
    unfolding keys using few rev by auto
qed

theorem snapshot_canonical_witness:
  "\<exists>sn. snapshot_active_canonical (\<lambda>_. ''{}'') (\<lambda>_. ''00'') one_active = Some sn
     \<and> sorted (map fst (sn_active sn)) \<and> set (map fst (sn_active sn)) = {''a1''}"
proof -
  have inv: "am_inv one_active"
    unfolding one_active_def by (intro process_inv am_inv_init)
  have act: "am_active one_active = [(''a1'', sample_event\<lparr>ae_activation_id := 1\<rparr>)]"
    by (simp add: one_active_def alarm_process_def process_event_def alarm_mgr_init_def
        sample_event_def alarm_event_new_def sample_cfg_def)
  obtain sn where sn: "snapshot_active_canonical (\<lambda>_. ''{}'') (\<lambda>_. ''00'') one_active = Some sn"
    by (simp add: snapshot_active_canonical_def act SNAPSHOT_MAX_ACTIVE_def snapshot_entry_of_def
        valid_snapshot_text_def SNAPSHOT_MAX_TEXT_def sample_event_def alarm_event_new_def
        ALARM_LEVELS_def SNAPSHOT_MAX_CHANNELS_def SNAPSHOT_MAX_CANONICAL_BYTES_def)
  from snapshot_canonical [OF inv sn] sn show ?thesis by (simp add: act)
qed

section \<open>The pipeline\<close>

text \<open>
  a tick never clears an active in-phase threshold alarm while a channel that triggered it is
  unknown: after the tick the alarm is still active with the same activation id and
  acknowledgement.
\<close>

theorem tick_keeps_unknown_alarm:
  assumes "dict_get (am_active m) (ad_alarm_id d) = Some ev"
    and "a_alarm_type (ad_config d) = Some ''threshold''"
    and "ad_phase_filter d = None"
    and "ch \<in> set (alarm_resolve_channels (ad_config d))" and "ch \<in> set (ae_channels ev)"
    and "unknown_at k ch now"
  shows "\<exists>ev'. dict_get (am_active (snd (snd (tick_alarm d phase env k m now t1 t2)))) (ad_alarm_id d) = Some ev'
    \<and> ae_activation_id ev' = ae_activation_id ev \<and> ae_acknowledged ev' = ae_acknowledged ev"
proof -
  obtain e k1 where e: "evaluate env k now (ad_alarm_id d) (ad_config d) True (Some (ae_channels ev)) = (e, k1)"
    by (cases "evaluate env k now (ad_alarm_id d) (ad_config d) True (Some (ae_channels ev))")
  have "fst (evaluate env k now (ad_alarm_id d) (ad_config d) True (Some (ae_channels ev))) \<noteq> None"
    by (rule threshold_unknown_event [OF assms(2,4) _ assms(6)]) (simp add: in_active_def assms(5))
  then obtain ev1 where "e = Some ev1" using e by auto
  then show ?thesis
    using assms(1,3) e
    by (auto simp: tick_alarm_def get_active_def alarm_process_def Let_def case_prod_beta
        split: option.splits)
qed

definition sample_alarm :: alarm_def where
  "sample_alarm = \<lparr> ad_alarm_id = ''a1'', ad_config = sample_cfg, ad_phase_filter = None \<rparr>"

theorem tick_keeps_unknown_alarm_witness:
  "\<exists>ev'. dict_get (am_active (snd (snd
       (tick_alarm sample_alarm None sample_env (tracker_init 30 300) one_active 9 9 9)))) ''a1'' = Some ev'
     \<and> ae_activation_id ev' = 1"
proof -
  have ev: "dict_get (am_active one_active) (ad_alarm_id sample_alarm) = Some (sample_event\<lparr>ae_activation_id := 1\<rparr>)"
    by (simp add: one_active_def alarm_process_def process_event_def alarm_mgr_init_def
        sample_event_def alarm_event_new_def sample_cfg_def sample_alarm_def)
  have u: "unknown_at (tracker_init 30 300) ''c'' 9"
    by (simp add: unknown_at_eq tracker_init_def)
  show ?thesis
    using tick_keeps_unknown_alarm [OF ev _ _ _ _ u, of None sample_env 9 9]
    by (auto simp: sample_alarm_def sample_cfg_def alarm_resolve_channels_def sample_event_def alarm_event_new_def)
qed

end
