(* ===== verification/Vacuum.thy ===== *)
theory Vacuum
  imports AlarmState
begin

text \<open>
  \<open>VacuumGuard\<close> of \<^verbatim>\<open>src/cryodaq/core/vacuum_guard.py\<close>: the DISARMED / ARMED / FIRED machine over
  a pressure and a reference temperature, its alarm, and the opt-in escalation. A tick reads the
  tracker, moves the machine, publishes a state event on a change, passes the event to the alarm
  manager and, on the edge into FIRED, asks the SafetyManager to latch. \<open>now\<close> is \<open>time.time()\<close>,
  \<open>mono1\<close> and \<open>mono2\<close> the two values of \<open>time.monotonic()\<close>. Delivery of the state event and of the
  latch request is the value \<open>vg_published\<close> and \<open>vg_latch\<close> of the outcome (their failure is logged
  and ignored by the source).
\<close>

section \<open>State\<close>

datatype vacuum_state = DISARMED | ARMED | FIRED

definition VG_ALARM_ID :: string where "VG_ALARM_ID = ''vacuum_guard''"

record vacuum_guard =
  vg_pressure_ch :: string
  vg_ref_temp_ch :: string
  vg_arm_threshold_K :: pyfloat
  vg_disarm_threshold_K :: pyfloat
  vg_fire_pressure :: pyfloat
  vg_clear_pressure :: pyfloat
  vg_sustained_s :: pyfloat
  vg_severity :: string
  vg_escalates :: bool
  vg_state :: vacuum_state
  vg_sustained_since :: "real option"

text \<open>The defaults of \<open>__init__\<close>; the reference channel is spelled with a Latin T.\<close>

definition vacuum_guard_init :: "bool \<Rightarrow> vacuum_guard" where
  "vacuum_guard_init escalate =
     \<lparr> vg_pressure_ch = ''VSP63D_1/pressure'', vg_ref_temp_ch = ''T12'',
       vg_arm_threshold_K = Fin 260, vg_disarm_threshold_K = Fin 270,
       vg_fire_pressure = Fin (1/100), vg_clear_pressure = Fin (1/1000), vg_sustained_s = Fin 30,
       vg_severity = ''CRITICAL'', vg_escalates = escalate,
       vg_state = DISARMED, vg_sustained_since = None \<rparr>"

section \<open>The transitions of one tick\<close>

definition vg_step_warm :: "pyfloat \<Rightarrow> vacuum_guard \<Rightarrow> vacuum_guard" where
  "vg_step_warm t_ref g =
     (if fl_le (vg_disarm_threshold_K g) t_ref
      then g\<lparr> vg_state := DISARMED, vg_sustained_since := None \<rparr> else g)"

definition vg_step_arm :: "pyfloat \<Rightarrow> vacuum_guard \<Rightarrow> vacuum_guard" where
  "vg_step_arm t_ref g =
     (if vg_state g = DISARMED \<and> fl_less t_ref (vg_arm_threshold_K g)
      then g\<lparr> vg_state := ARMED \<rparr> else g)"

definition vg_step_recover :: "pyfloat \<Rightarrow> vacuum_guard \<Rightarrow> vacuum_guard" where
  "vg_step_recover p_mbar g =
     (if vg_state g = FIRED \<and> fl_less p_mbar (vg_clear_pressure g)
      then g\<lparr> vg_state := ARMED, vg_sustained_since := None \<rparr> else g)"

definition vg_step_pressure :: "pyfloat \<Rightarrow> real \<Rightarrow> real \<Rightarrow> vacuum_guard \<Rightarrow> vacuum_guard" where
  "vg_step_pressure p_mbar mono1 mono2 g =
     (if vg_state g = ARMED then
        (if fl_less (vg_fire_pressure g) p_mbar then
           (let since = (case vg_sustained_since g of None \<Rightarrow> mono1 | Some s \<Rightarrow> s);
                g1 = g\<lparr> vg_sustained_since := Some since \<rparr>
            in if fl_le (vg_sustained_s g) (Fin (mono2 - since))
               then g1\<lparr> vg_state := FIRED \<rparr> else g1)
         else g\<lparr> vg_sustained_since := None \<rparr>)
      else g)"

definition vg_transition :: "vacuum_guard \<Rightarrow> pyfloat \<Rightarrow> pyfloat \<Rightarrow> real \<Rightarrow> real \<Rightarrow> vacuum_guard" where
  "vg_transition g t_ref p_mbar mono1 mono2 =
     vg_step_pressure p_mbar mono1 mono2
       (vg_step_recover p_mbar (vg_step_arm t_ref (vg_step_warm t_ref g)))"

section \<open>One tick\<close>

record vg_outcome =
  vg_guard :: vacuum_guard
  vg_tracker :: tracker
  vg_mgr :: alarm_mgr
  vg_result :: "transition option"
  vg_published :: "vacuum_state option"
  vg_latch :: "pyfloat option"

definition empty_cfg :: alarm_cfg where
  "empty_cfg =
     \<lparr> c_check = None, c_channel = None, c_channels = None, c_threshold = None, c_range = None,
       c_setpoint_source = None, c_rate_window_s = None, c_rate_threshold = None,
       a_alarm_type = None, a_level = None, a_message = None, a_hysteresis = None,
       a_min_fault_count = None, a_operator = None, a_conditions = None,
       a_additional_condition = None, a_timeout_s = None, a_sustained_s = None \<rparr>"

definition vg_skip :: "vacuum_guard \<Rightarrow> tracker \<Rightarrow> alarm_mgr \<Rightarrow> real \<Rightarrow> vg_outcome" where
  "vg_skip g k m now =
     \<lparr> vg_guard = g, vg_tracker = k,
       vg_mgr = (if vg_state g \<noteq> FIRED then snd (alarm_process m VG_ALARM_ID None empty_cfg now now) else m),
       vg_result = None, vg_published = None, vg_latch = None \<rparr>"

definition vg_event :: "vacuum_guard \<Rightarrow> pyfloat \<Rightarrow> pyfloat \<Rightarrow> real \<Rightarrow> alarm_event" where
  "vg_event g t_ref p_mbar now =
     alarm_event_new VG_ALARM_ID (vg_severity g) (MsgFormat VG_ALARM_ID (vg_pressure_ch g) (Some p_mbar))
       now [vg_pressure_ch g, vg_ref_temp_ch g]
       (dict_set (vg_ref_temp_ch g) t_ref [(vg_pressure_ch g, p_mbar)])"

definition vg_tick ::
  "vacuum_guard \<Rightarrow> tracker \<Rightarrow> alarm_mgr \<Rightarrow> real \<Rightarrow> real \<Rightarrow> real \<Rightarrow> vg_outcome" where
  "vg_tick g k m now mono1 mono2 =
     (let (t_state, k1) = tk_get k (vg_ref_temp_ch g) now
      in case t_state of
           None \<Rightarrow> vg_skip g k1 m now
         | Some ts \<Rightarrow>
             (if cs_is_stale ts then vg_skip g k1 m now
              else
                (let (p_state, k2) = tk_get k1 (vg_pressure_ch g) now
                 in case p_state of
                      None \<Rightarrow> vg_skip g k2 m now
                    | Some ps \<Rightarrow>
                        (if cs_is_stale ps then vg_skip g k2 m now
                         else
                           (let t_ref = cs_value ts; p_mbar = cs_value ps;
                                g' = vg_transition g t_ref p_mbar mono1 mono2;
                                event = (if vg_state g' = FIRED then Some (vg_event g' t_ref p_mbar now)
                                         else None);
                                (tr, m') = alarm_process m VG_ALARM_ID event empty_cfg now now;
                                just_fired = (vg_state g \<noteq> FIRED \<and> vg_state g' = FIRED)
                            in \<lparr> vg_guard = g', vg_tracker = k2, vg_mgr = m', vg_result = tr,
                                 vg_published = (if vg_state g \<noteq> vg_state g' then Some (vg_state g') else None),
                                 vg_latch = (if just_fired \<and> vg_escalates g then Some p_mbar else None) \<rparr>)))))"

section \<open>Facts about a transition\<close>

lemmas vg_step_defs =
  vg_transition_def vg_step_warm_def vg_step_arm_def vg_step_recover_def vg_step_pressure_def

lemma vg_transition_params [simp]:
  "vg_fire_pressure (vg_transition g t p m1 m2) = vg_fire_pressure g"
  "vg_disarm_threshold_K (vg_transition g t p m1 m2) = vg_disarm_threshold_K g"
  "vg_sustained_s (vg_transition g t p m1 m2) = vg_sustained_s g"
  "vg_clear_pressure (vg_transition g t p m1 m2) = vg_clear_pressure g"
  by (simp_all add: vg_step_defs Let_def)

lemma vg_newly_fired:
  assumes "vg_state g \<noteq> FIRED" and "vg_state (vg_transition g t p m1 m2) = FIRED"
  shows "fl_less (vg_fire_pressure g) p
    \<and> (\<exists>s. vg_sustained_since (vg_transition g t p m1 m2) = Some s
          \<and> fl_le (vg_sustained_s g) (Fin (m2 - s)))"
  using assms by (auto simp: vg_step_defs Let_def split: if_splits option.splits)

text \<open>Where the recorded start of a violation comes from.\<close>

lemma vg_since_origin:
  assumes "vg_state g = DISARMED \<longrightarrow> vg_sustained_since g = None"
    and "vg_state (vg_transition g t p m1 m2) = ARMED
         \<or> vg_state g \<noteq> FIRED \<and> vg_state (vg_transition g t p m1 m2) = FIRED"
    and "vg_sustained_since (vg_transition g t p m1 m2) = Some s"
  shows "fl_less (vg_fire_pressure g) p
    \<and> (s = m1 \<or> vg_state g = ARMED \<and> vg_sustained_since g = Some s)"
  using assms
  by (cases "vg_state g") (auto simp: vg_step_defs Let_def split: if_splits option.splits)

lemma vg_disarmed_since:
  "vg_state g = DISARMED \<longrightarrow> vg_sustained_since g = None \<Longrightarrow>
   vg_state (vg_transition g t p m1 m2) = DISARMED \<Longrightarrow>
   vg_sustained_since (vg_transition g t p m1 m2) = None"
  by (cases "vg_state g") (auto simp: vg_step_defs Let_def split: if_splits option.splits)

section \<open>Runs of evaluated ticks\<close>

record vg_sample =
  vs_t :: pyfloat
  vs_p :: pyfloat
  vs_m1 :: real
  vs_m2 :: real

definition vg_next :: "vacuum_guard \<Rightarrow> vg_sample \<Rightarrow> vacuum_guard" where
  "vg_next g x = vg_transition g (vs_t x) (vs_p x) (vs_m1 x) (vs_m2 x)"

definition vg_run :: "vacuum_guard \<Rightarrow> vg_sample list \<Rightarrow> vacuum_guard" where
  "vg_run g xs = foldl vg_next g xs"

text \<open>
  While the guard is armed, a recorded start is the first clock value of a run of samples that all
  exceed the fire pressure; disarmed, nothing is recorded.
\<close>

definition since_ok :: "vacuum_guard \<Rightarrow> vg_sample list \<Rightarrow> bool" where
  "since_ok g xs =
     ((vg_state g = DISARMED \<longrightarrow> vg_sustained_since g = None)
      \<and> (vg_state g = ARMED \<longrightarrow> (\<forall>s. vg_sustained_since g = Some s \<longrightarrow>
           (\<exists>ys z zs. xs = ys @ z # zs \<and> vs_m1 z = s
              \<and> (\<forall>x \<in> set (z # zs). fl_less (vg_fire_pressure g) (vs_p x))))))"

lemma vg_run_snoc [simp]: "vg_run g (xs @ [x]) = vg_next (vg_run g xs) x"
  by (simp add: vg_run_def)

lemma vg_run_fire_pressure [simp]: "vg_fire_pressure (vg_run g xs) = vg_fire_pressure g"
  by (induction xs rule: rev_induct) (simp_all add: vg_run_def vg_next_def)

lemma vg_run_sustained [simp]: "vg_sustained_s (vg_run g xs) = vg_sustained_s g"
  by (induction xs rule: rev_induct) (simp_all add: vg_run_def vg_next_def)

text \<open>The origin of a start, carried over a run.\<close>

lemma since_origin_run:
  assumes ok: "since_ok (vg_run g xs) xs"
    and st: "vg_state (vg_run g (xs @ [x])) = ARMED
         \<or> vg_state (vg_run g xs) \<noteq> FIRED \<and> vg_state (vg_run g (xs @ [x])) = FIRED"
    and since: "vg_sustained_since (vg_run g (xs @ [x])) = Some s"
  shows "\<exists>ys z zs. xs @ [x] = ys @ z # zs \<and> vs_m1 z = s
      \<and> (\<forall>x' \<in> set (z # zs). fl_less (vg_fire_pressure g) (vs_p x'))"
proof -
  let ?g = "vg_run g xs"
  have "vg_state ?g = DISARMED \<longrightarrow> vg_sustained_since ?g = None"
    using ok by (simp add: since_ok_def)
  from vg_since_origin [OF this, of "vs_t x" "vs_p x" "vs_m1 x" "vs_m2 x" s] st since
  have high: "fl_less (vg_fire_pressure g) (vs_p x)"
    and cases: "s = vs_m1 x \<or> vg_state ?g = ARMED \<and> vg_sustained_since ?g = Some s"
    by (auto simp: vg_next_def)
  from cases show ?thesis
  proof
    assume "s = vs_m1 x"
    with high show ?thesis by (intro exI [of _ xs] exI [of _ x] exI [of _ "[]"]) simp
  next
    assume "vg_state ?g = ARMED \<and> vg_sustained_since ?g = Some s"
    with ok obtain ys z zs where "xs = ys @ z # zs" "vs_m1 z = s"
      "\<forall>x' \<in> set (z # zs). fl_less (vg_fire_pressure g) (vs_p x')"
      by (auto simp: since_ok_def)
    with high show ?thesis
      by (intro exI [of _ ys] exI [of _ z] exI [of _ "zs @ [x]"]) auto
  qed
qed

lemma vg_run_since_ok:
  assumes "vg_state g = DISARMED" and "vg_sustained_since g = None"
  shows "since_ok (vg_run g xs) xs"
proof (induction xs rule: rev_induct)
  case Nil
  with assms show ?case by (simp add: since_ok_def vg_run_def)
next
  case (snoc x xs)
  have "vg_state (vg_run g xs) = DISARMED \<longrightarrow> vg_sustained_since (vg_run g xs) = None"
    using snoc.IH by (simp add: since_ok_def)
  from vg_disarmed_since [OF this] since_origin_run [OF snoc.IH]
  show ?case
    unfolding since_ok_def by (auto simp: vg_next_def)
qed

text \<open>
  the guard fires only on a sustained violation: when a run of evaluated ticks moves it into
  FIRED, the last ticks all saw a pressure above the fire threshold, and from the first of them to
  the firing tick at least \<open>sustained_s\<close> seconds passed.
\<close>

theorem vacuum_fires_only_sustained:
  assumes "vg_state g = DISARMED" and "vg_sustained_since g = None"
    and "vg_state (vg_run g xs) \<noteq> FIRED" and "vg_state (vg_run g (xs @ [x])) = FIRED"
  shows "\<exists>ys z zs. xs @ [x] = ys @ z # zs
    \<and> (\<forall>x' \<in> set (z # zs). fl_less (vg_fire_pressure g) (vs_p x'))
    \<and> fl_le (vg_sustained_s g) (Fin (vs_m2 x - vs_m1 z))"
proof -
  have ok: "since_ok (vg_run g xs) xs" by (rule vg_run_since_ok [OF assms(1,2)])
  from vg_newly_fired [of "vg_run g xs" "vs_t x" "vs_p x" "vs_m1 x" "vs_m2 x"] assms(3,4)
  obtain s where s: "vg_sustained_since (vg_run g (xs @ [x])) = Some s"
    and long: "fl_le (vg_sustained_s g) (Fin (vs_m2 x - s))"
    by (auto simp: vg_next_def)
  from since_origin_run [OF ok _ s] assms(3,4) long show ?thesis by blast
qed

definition bad_vacuum :: "real \<Rightarrow> vg_sample" where
  "bad_vacuum t = \<lparr> vs_t = Fin 4, vs_p = Fin 1, vs_m1 = t, vs_m2 = t \<rparr>"

theorem vacuum_fires_only_sustained_witness:
  "vg_state (vg_run (vacuum_guard_init True) ([bad_vacuum 0] @ [bad_vacuum 31])) = FIRED
   \<and> (\<exists>ys z zs. [bad_vacuum 0] @ [bad_vacuum 31] = ys @ z # zs
        \<and> fl_le (Fin 30) (Fin (31 - vs_m1 z)))"
proof -
  have a: "vg_state (vg_run (vacuum_guard_init True) [bad_vacuum 0]) \<noteq> FIRED"
    and b: "vg_state (vg_run (vacuum_guard_init True) ([bad_vacuum 0] @ [bad_vacuum 31])) = FIRED"
    by (simp_all add: vg_run_def vg_next_def vacuum_guard_init_def bad_vacuum_def vg_step_defs)
  have i: "vg_state (vacuum_guard_init True) = DISARMED" "vg_sustained_since (vacuum_guard_init True) = None"
    by (simp_all add: vacuum_guard_init_def)
  obtain ys z zs where "[bad_vacuum 0] @ [bad_vacuum 31] = ys @ z # zs"
    and "fl_le (vg_sustained_s (vacuum_guard_init True)) (Fin (vs_m2 (bad_vacuum 31) - vs_m1 z))"
    using vacuum_fires_only_sustained [OF i a b] by blast
  with b show ?thesis by (auto simp: vacuum_guard_init_def bad_vacuum_def)
qed

section \<open>Dropouts and escalation\<close>

text \<open>
  losing the temperature or the pressure sensor during an incident keeps the incident: a FIRED
  guard stays FIRED, its alarm is untouched, and nothing is published or escalated.
\<close>

theorem vacuum_dropout_keeps_fired:
  assumes "vg_state g = FIRED"
    and "fst (tk_get k (vg_ref_temp_ch g) now) = None
      \<or> (\<exists>st. fst (tk_get k (vg_ref_temp_ch g) now) = Some st \<and> cs_is_stale st)
      \<or> fst (tk_get (snd (tk_get k (vg_ref_temp_ch g) now)) (vg_pressure_ch g) now) = None
      \<or> (\<exists>st. fst (tk_get (snd (tk_get k (vg_ref_temp_ch g) now)) (vg_pressure_ch g) now) = Some st
             \<and> cs_is_stale st)"
  shows "vg_guard (vg_tick g k m now m1 m2) = g \<and> vg_mgr (vg_tick g k m now m1 m2) = m
    \<and> vg_published (vg_tick g k m now m1 m2) = None \<and> vg_latch (vg_tick g k m now m1 m2) = None"
  using assms
  by (auto simp: vg_tick_def vg_skip_def Let_def case_prod_beta split: option.splits)

theorem vacuum_dropout_keeps_fired_witness:
  "vg_guard (vg_tick ((vacuum_guard_init True)\<lparr>vg_state := FIRED\<rparr>) (tracker_init 30 300)
      one_active 5 5 5) = (vacuum_guard_init True)\<lparr>vg_state := FIRED\<rparr>"
proof -
  have n: "fst (tk_get (tracker_init 30 300) ch 5) = None" for ch
    by (simp add: tk_get_def tracker_init_def Let_def)
  show ?thesis
    using vacuum_dropout_keeps_fired [of "(vacuum_guard_init True)\<lparr>vg_state := FIRED\<rparr>"
        "tracker_init 30 300" 5 one_active 5 5] n by simp
qed

text \<open>
  escalation happens exactly on the edge into FIRED, and only when the operator opted in.
\<close>

theorem vacuum_latch_on_edge:
  "(vg_latch (vg_tick g k m now m1 m2) \<noteq> None) =
     (vg_escalates g \<and> vg_state g \<noteq> FIRED \<and> vg_state (vg_guard (vg_tick g k m now m1 m2)) = FIRED)"
  by (auto simp: vg_tick_def vg_skip_def Let_def case_prod_beta split: option.splits)

lemma process_none_inactive:
  "dict_get (am_active (snd (alarm_process m i None cfg t1 t2))) i = None"
  by (auto simp: alarm_process_def Let_def split: option.splits)

lemma process_some_active:
  "a_sustained_s cfg = None \<Longrightarrow> \<not> ae_evaluator_error ev \<Longrightarrow>
     dict_get (am_active (snd (alarm_process m i (Some ev) cfg t1 t2))) i \<noteq> None"
  by (auto simp: alarm_process_def process_event_def split: option.splits)

text \<open>
  the alarm list agrees with the machine: if the vacuum alarm is active exactly when the guard
  is FIRED, the same holds after every tick, whatever the sensors deliver.
\<close>

theorem vacuum_alarm_agrees:
  assumes "(dict_get (am_active m) VG_ALARM_ID \<noteq> None) = (vg_state g = FIRED)"
  shows "(dict_get (am_active (vg_mgr (vg_tick g k m now m1 m2))) VG_ALARM_ID \<noteq> None)
    = (vg_state (vg_guard (vg_tick g k m now m1 m2)) = FIRED)"
proof -
  have ev: "\<not> ae_evaluator_error (vg_event g' t p n)" for g' t p n
    by (simp add: vg_event_def alarm_event_new_def)
  have cfg: "a_sustained_s empty_cfg = None" by (simp add: empty_cfg_def)
  show ?thesis
    using assms process_some_active [OF cfg ev]
    by (auto simp: vg_tick_def vg_skip_def Let_def case_prod_beta process_none_inactive
        split: option.splits)
qed

theorem vacuum_alarm_agrees_witness:
  "dict_get (am_active (vg_mgr (vg_tick (vacuum_guard_init True) quiet_tracker alarm_mgr_init 5 5 5)))
      VG_ALARM_ID = None"
proof -
  have "dict_get (am_active alarm_mgr_init) VG_ALARM_ID \<noteq> None \<longleftrightarrow> vg_state (vacuum_guard_init True) = FIRED"
    by (simp add: alarm_mgr_init_def vacuum_guard_init_def)
  from vacuum_alarm_agrees [OF this, of quiet_tracker 5 5 5]
  show ?thesis
    by (auto simp: vg_tick_def vacuum_guard_init_def quiet_tracker_def tk_get_def Let_def
        tracker_init_def tk_resolve_channel_def dict_getd_def vg_skip_def)
qed

end
