(* ===== verification/Interlocks.thy ===== *)
theory Interlocks
  imports Readings
begin

text \<open>
  \<open>InterlockEngine\<close> of \<^verbatim>\<open>src/cryodaq/core/interlock.py\<close>: declared sensor bindings, interlock
  conditions, the ARMED / TRIPPED records, the debounce window for unusable samples, and the
  operator operations. The injected callbacks (trip admission, recovery and dead-channel handlers,
  the broker's descriptor envelopes, the descriptor catalog) are parameters; every call the engine
  makes to the outside is an entry of the effect list it returns. One reading is processed at a
  time at the instant \<open>now\<close>.
\<close>

section \<open>Bindings and conditions\<close>

record binding =
  b_instrument_id :: string
  b_source_key :: string
  b_channel_id :: string
  b_descriptor_envelope :: string

text \<open>
  The catalog gives the channel id and the encoded descriptor of an (instrument, source key) pair.
\<close>

type_synonym catalog = "string \<times> string \<Rightarrow> (string \<times> string) option"

definition resolve_binding :: "catalog \<Rightarrow> pyval \<Rightarrow> binding result" where
  "resolve_binding cat b =
     (case b of
        PDict d \<Rightarrow>
          (if set (dict_keys d) \<noteq> {''instrument_id'', ''source_key''}
           then Inl (ValueError ''binding keys'')
           else
             (case (dict_get d ''instrument_id'', dict_get d ''source_key'') of
                (Some (PStr i), Some (PStr k)) \<Rightarrow>
                  (case cat (i, k) of
                     None \<Rightarrow> Inl (ValueError ''absent from the descriptor catalog'')
                   | Some (channel_id, envelope) \<Rightarrow>
                       Inr \<lparr> b_instrument_id = i, b_source_key = k, b_channel_id = channel_id,
                             b_descriptor_envelope = envelope \<rparr>)
              | _ \<Rightarrow> Inl (ValueError ''identity values must be strings'')))
      | _ \<Rightarrow> Inl (ValueError ''binding keys''))"

fun resolve_all :: "catalog \<Rightarrow> pyval list \<Rightarrow> binding list result" where
  "resolve_all cat [] = Inr []"
| "resolve_all cat (b # bs) =
     res_bind (resolve_binding cat b) (\<lambda>x. res_bind (resolve_all cat bs) (\<lambda>xs. Inr (x # xs)))"

text \<open>The resolved set is a duplicate-free list.\<close>

definition resolve_interlock_channel_bindings :: "catalog \<Rightarrow> pyval option \<Rightarrow> binding list result" where
  "resolve_interlock_channel_bindings cat bindings =
     (case bindings of
        Some (PList bs) \<Rightarrow>
          (if bs = [] then Inl (ValueError ''channel_bindings must be a non-empty list'')
           else res_bind (resolve_all cat bs)
             (\<lambda>rs. let resolved = remdups rs
                   in if length resolved \<noteq> length bs
                      then Inl (ValueError ''channel_bindings must resolve to unique declared sensors'')
                      else Inr resolved))
      | _ \<Rightarrow> Inl (ValueError ''channel_bindings must be a non-empty list''))"

record condition =
  i_name :: string
  i_description :: string
  i_channel_ids :: "string list"
  i_threshold :: pyfloat
  i_comparison :: string
  i_action :: string
  i_channel_bindings :: "binding list"
  i_cooldown_s :: pyfloat

definition condition_post_init :: "condition \<Rightarrow> condition result" where
  "condition_post_init c =
     (if i_comparison c \<noteq> ''>'' \<and> i_comparison c \<noteq> ''<'' then Inl (ValueError ''comparison'')
      else if i_channel_ids c = [] \<or> (\<exists>ch \<in> set (i_channel_ids c). ch = [])
      then Inl (ValueError ''channel_ids'')
      else if i_channel_bindings c \<noteq> []
              \<and> set (map b_channel_id (i_channel_bindings c)) \<noteq> set (i_channel_ids c)
      then Inl (ValueError ''channel_ids disagree with channel_bindings'')
      else Inr c)"

definition matches_channel :: "condition \<Rightarrow> string \<Rightarrow> bool" where
  "matches_channel c channel = (channel \<in> set (i_channel_ids c))"

definition matches_reading :: "condition \<Rightarrow> reading \<Rightarrow> string option \<Rightarrow> bool" where
  "matches_reading c r envelope =
     (if i_channel_bindings c = [] then matches_channel c (r_channel r)
      else
        (case envelope of
           None \<Rightarrow> False
         | Some env \<Rightarrow>
             (\<exists>b \<in> set (i_channel_bindings c). r_instrument_id r = b_instrument_id b
                \<and> r_channel r = b_channel_id b \<and> env = b_descriptor_envelope b)))"

definition is_triggered :: "condition \<Rightarrow> pyfloat \<Rightarrow> bool" where
  "is_triggered c value =
     (if i_comparison c = ''>'' then fl_less (i_threshold c) value else fl_less value (i_threshold c))"

section \<open>The engine\<close>

datatype interlock_state = ArmedI | TrippedI | AcknowledgedI

record interlock_event =
  iv_timestamp :: real
  iv_interlock_name :: string
  iv_channel :: string
  iv_value :: pyfloat
  iv_threshold :: pyfloat
  iv_action_taken :: string

record interlock_record =
  ir_condition :: condition
  ir_state :: interlock_state
  ir_last_trip_time :: "real option"
  ir_trip_count :: nat

record nonusable_window =
  nw_first_ts :: real
  nw_count :: nat
  nw_escalated :: bool
  nw_reasons :: "string list"

record interlock_engine =
  ie_actions :: "string list"
  ie_interlocks :: "interlock_record dict"
  ie_events :: "interlock_event list"
  ie_windows :: "nonusable_window dict"
  ie_min_duration_s :: real
  ie_min_samples :: nat

definition MAX_INTERLOCK_EVENTS :: nat where "MAX_INTERLOCK_EVENTS = 1000"
definition DEFAULT_NONUSABLE_MIN_DURATION_S :: real where "DEFAULT_NONUSABLE_MIN_DURATION_S = 10"
definition DEFAULT_NONUSABLE_MIN_SAMPLES :: nat where "DEFAULT_NONUSABLE_MIN_SAMPLES = 5"

definition interlock_engine_init :: "string list \<Rightarrow> interlock_engine" where
  "interlock_engine_init actions =
     \<lparr> ie_actions = actions, ie_interlocks = [], ie_events = [], ie_windows = [],
       ie_min_duration_s = DEFAULT_NONUSABLE_MIN_DURATION_S,
       ie_min_samples = DEFAULT_NONUSABLE_MIN_SAMPLES \<rparr>"

definition add_condition :: "interlock_engine \<Rightarrow> condition \<Rightarrow> interlock_engine result" where
  "add_condition e c =
     (if dict_get (ie_interlocks e) (i_name c) \<noteq> None then Inl (ValueError ''already registered'')
      else if i_action c \<noteq> ''warning'' \<and> i_action c \<notin> set (ie_actions e)
      then Inl (ValueError ''unknown action'')
      else Inr (e\<lparr> ie_interlocks := dict_set (i_name c)
             \<lparr> ir_condition = c, ir_state = ArmedI, ir_last_trip_time = None, ir_trip_count = 0 \<rparr>
             (ie_interlocks e) \<rparr>))"

definition put_record :: "string \<Rightarrow> interlock_record \<Rightarrow> interlock_engine \<Rightarrow> interlock_engine" where
  "put_record n r e = e\<lparr> ie_interlocks := dict_set n r (ie_interlocks e) \<rparr>"

section \<open>Callbacks and effects\<close>

datatype admission = AdmFalse | AdmOther | AdmRaise
datatype handler_outcome = HOk | HRaise
datatype dead_outcome = DeadTrue | DeadFalse | DeadRaise

text \<open>An absent callback is \<open>None\<close>.\<close>

record callbacks =
  cb_trip_handler :: bool
  cb_alarm_publisher :: bool
  cb_dead_channel :: "(condition \<Rightarrow> reading \<Rightarrow> dead_outcome) option"
  cb_dead_recovery :: "(condition \<Rightarrow> reading \<Rightarrow> handler_outcome) option"
  cb_trip_admission :: "(condition \<Rightarrow> reading \<Rightarrow> admission) option"
  cb_warning_recovery :: "(condition \<Rightarrow> reading \<Rightarrow> handler_outcome) option"

datatype effect =
    EffAction string string          \<comment> \<open>protective callable: interlock, action\<close>
  | EffTripHandler string            \<comment> \<open>trip handler for the interlock\<close>
  | EffNotify string                 \<comment> \<open>the loud notification\<close>
  | EffDeadChannel string string     \<comment> \<open>dead-channel handler: interlock, channel\<close>
  | EffDeadRecovery string string
  | EffWarningRecovery string
  | EffDiagnosticAlarm string real   \<comment> \<open>alarm for the channel, span in seconds\<close>

section \<open>Tripping and recovering\<close>

definition trip :: "callbacks \<Rightarrow> interlock_engine \<Rightarrow> string \<Rightarrow> interlock_record \<Rightarrow> reading \<Rightarrow> real \<Rightarrow> bool \<Rightarrow>
    interlock_engine \<times> effect list" where
  "trip cb e name r rd now suppress_notification =
     (let c = ir_condition r;
          r' = r\<lparr> ir_state := TrippedI, ir_trip_count := ir_trip_count r + 1,
                  ir_last_trip_time := (if suppress_notification then ir_last_trip_time r else Some now) \<rparr>;
          event = \<lparr> iv_timestamp = now, iv_interlock_name = i_name c, iv_channel = r_channel rd,
                    iv_value = r_value rd, iv_threshold = i_threshold c, iv_action_taken = i_action c \<rparr>
      in ((put_record name r' e)\<lparr> ie_events := dq_append MAX_INTERLOCK_EVENTS event (ie_events e) \<rparr>,
          (if suppress_notification then [] else [EffNotify name])
          @ (if i_action c \<noteq> ''warning'' then [EffAction name (i_action c)] else [])
          @ (if cb_trip_handler cb then [EffTripHandler name] else [])))"

definition trip_is_admitted :: "callbacks \<Rightarrow> condition \<Rightarrow> reading \<Rightarrow> bool" where
  "trip_is_admitted cb c rd =
     (case cb_trip_admission cb of
        None \<Rightarrow> True
      | Some f \<Rightarrow> (case f c rd of AdmFalse \<Rightarrow> False | AdmOther \<Rightarrow> True | AdmRaise \<Rightarrow> True))"

definition in_cooldown :: "condition \<Rightarrow> interlock_record \<Rightarrow> real \<Rightarrow> bool" where
  "in_cooldown c r now =
     (fl_less (Fin 0) (i_cooldown_s c)
      \<and> (case ir_last_trip_time r of None \<Rightarrow> False
         | Some t \<Rightarrow> fl_less (Fin (now - t)) (i_cooldown_s c)))"

definition recover_warning :: "callbacks \<Rightarrow> interlock_engine \<Rightarrow> string \<Rightarrow> interlock_record \<Rightarrow> reading \<Rightarrow> real \<Rightarrow>
    interlock_engine \<times> effect list" where
  "recover_warning cb e name r rd now =
     (let c = ir_condition r
      in if in_cooldown c r now then (e, [])
         else
           (case cb_warning_recovery cb of
              None \<Rightarrow> (put_record name (r\<lparr> ir_state := ArmedI \<rparr>) e, [])
            | Some f \<Rightarrow>
                (case f c rd of
                   HRaise \<Rightarrow> (e, [EffWarningRecovery name])
                 | HOk \<Rightarrow> (put_record name (r\<lparr> ir_state := ArmedI \<rparr>) e, [EffWarningRecovery name]))))"

section \<open>The debounce window\<close>

definition handle_usable :: "callbacks \<Rightarrow> interlock_engine \<Rightarrow> reading \<Rightarrow> condition \<Rightarrow>
    interlock_engine \<times> effect list" where
  "handle_usable cb e rd c =
     (case cb_dead_recovery cb of
        None \<Rightarrow> (e\<lparr> ie_windows := dict_del (r_channel rd) (ie_windows e) \<rparr>, [])
      | Some f \<Rightarrow>
          (case f c rd of
             HRaise \<Rightarrow> (e, [EffDeadRecovery (i_name c) (r_channel rd)])
           | HOk \<Rightarrow> (e\<lparr> ie_windows := dict_del (r_channel rd) (ie_windows e) \<rparr>,
                     [EffDeadRecovery (i_name c) (r_channel rd)])))"

definition window_for :: "interlock_engine \<Rightarrow> reading \<Rightarrow> nonusable_window" where
  "window_for e rd =
     (let reasons = instrument_status_fault_reasons rd;
          fresh = \<lparr> nw_first_ts = r_timestamp rd, nw_count = 0, nw_escalated = False,
                    nw_reasons = reasons \<rparr>
      in case dict_get (ie_windows e) (r_channel rd) of
           None \<Rightarrow> fresh
         | Some w \<Rightarrow> (if nw_reasons w \<noteq> reasons then fresh else w))"

definition handle_nonusable :: "callbacks \<Rightarrow> interlock_engine \<Rightarrow> reading \<Rightarrow> condition \<Rightarrow>
    interlock_engine \<times> effect list" where
  "handle_nonusable cb e rd c =
     (let w0 = window_for e rd;
          w = w0\<lparr> nw_count := nw_count w0 + 1 \<rparr>;
          span_s = r_timestamp rd - nw_first_ts w;
          put = (\<lambda>w. e\<lparr> ie_windows := dict_set (r_channel rd) w (ie_windows e) \<rparr>)
      in if nw_escalated w then (put w, [])
         else
           (let alarm = (if cb_alarm_publisher cb then [EffDiagnosticAlarm (r_channel rd) span_s] else [])
            in if ie_min_samples e \<le> nw_count w \<and> ie_min_duration_s e \<le> span_s then
                 (case cb_dead_channel cb of
                    None \<Rightarrow> (put (w\<lparr> nw_escalated := True \<rparr>), alarm)
                  | Some f \<Rightarrow>
                      (put (w\<lparr> nw_escalated := (f c rd = DeadTrue) \<rparr>),
                       alarm @ [EffDeadChannel (i_name c) (r_channel rd)]))
               else (put w, alarm)))"

section \<open>Processing one reading\<close>

definition ilk_matching :: "interlock_engine \<Rightarrow> reading \<Rightarrow> string option \<Rightarrow> (string \<times> interlock_record) list" where
  "ilk_matching e rd env =
     filter (\<lambda>(n, r). ir_state r = ArmedI \<and> matches_reading (ir_condition r) rd env) (ie_interlocks e)"

definition ilk_protected :: "interlock_engine \<Rightarrow> reading \<Rightarrow> string option \<Rightarrow> (string \<times> interlock_record) list" where
  "ilk_protected e rd env =
     filter (\<lambda>(n, r). matches_reading (ir_condition r) rd env) (ie_interlocks e)"

fun trip_loop :: "callbacks \<Rightarrow> reading \<Rightarrow> real \<Rightarrow> (string \<times> interlock_record) list \<Rightarrow> interlock_engine \<Rightarrow>
    interlock_engine \<times> effect list" where
  "trip_loop cb rd now [] e = (e, [])"
| "trip_loop cb rd now ((n, r) # rs) e =
     (if is_triggered (ir_condition r) (r_value rd) \<and> trip_is_admitted cb (ir_condition r) rd then
        (let (e1, f1) = trip cb e n r rd now (in_cooldown (ir_condition r) r now);
             (e2, f2) = trip_loop cb rd now rs e1
         in (e2, f1 @ f2))
      else trip_loop cb rd now rs e)"

text \<open>The recovery pass reads each record as the trips left it.\<close>

fun recovery_loop :: "callbacks \<Rightarrow> reading \<Rightarrow> real \<Rightarrow> string list \<Rightarrow> interlock_engine \<Rightarrow>
    interlock_engine \<times> effect list" where
  "recovery_loop cb rd now [] e = (e, [])"
| "recovery_loop cb rd now (n # ns) e =
     (case dict_get (ie_interlocks e) n of
        None \<Rightarrow> recovery_loop cb rd now ns e
      | Some r \<Rightarrow>
          (if i_action (ir_condition r) = ''warning'' \<and> ir_state r = TrippedI
              \<and> \<not> is_triggered (ir_condition r) (r_value rd) then
             (let (e1, f1) = recover_warning cb e n r rd now;
                  (e2, f2) = recovery_loop cb rd now ns e1
              in (e2, f1 @ f2))
           else recovery_loop cb rd now ns e))"

definition process_reading :: "callbacks \<Rightarrow> interlock_engine \<Rightarrow> reading \<Rightarrow> string option \<Rightarrow> real \<Rightarrow>
    interlock_engine \<times> effect list" where
  "process_reading cb e rd env now =
     (let matching = ilk_matching e rd env;
          protected_matching = ilk_protected e rd env
      in if \<not> is_usable rd \<and> protected_matching \<noteq> [] then
           handle_nonusable cb e rd (ir_condition (snd (hd protected_matching)))
         else
           (let (e1, f1) = (if is_usable rd \<and> protected_matching \<noteq> []
                            then handle_usable cb e rd (ir_condition (snd (hd protected_matching)))
                            else (e, []));
                (e2, f2) = trip_loop cb rd now matching e1;
                (e3, f3) = (if is_usable rd then recovery_loop cb rd now (map fst protected_matching) e2
                            else (e2, []))
            in (e3, f1 @ f2 @ f3)))"

section \<open>Operator operations\<close>

definition ilk_acknowledge :: "interlock_engine \<Rightarrow> string \<Rightarrow> interlock_engine result" where
  "ilk_acknowledge e name =
     (case dict_get (ie_interlocks e) name of
        None \<Rightarrow> Inl (KeyError name)
      | Some r \<Rightarrow> Inr (put_record name (r\<lparr> ir_state := ArmedI \<rparr>) e))"

definition rearmable :: "interlock_record \<Rightarrow> bool" where
  "rearmable r = (ir_state r = TrippedI \<and> i_action (ir_condition r) \<noteq> ''warning'')"

definition rearm_tripped_control_interlocks :: "interlock_engine \<Rightarrow> string list \<times> interlock_engine" where
  "rearm_tripped_control_interlocks e =
     (map fst (filter (\<lambda>(n, r). rearmable r) (ie_interlocks e)),
      e\<lparr> ie_interlocks :=
           map (\<lambda>(n, r). (n, if rearmable r then r\<lparr> ir_state := ArmedI \<rparr> else r)) (ie_interlocks e) \<rparr>)"

definition ilk_get_state :: "interlock_engine \<Rightarrow> interlock_state dict" where
  "ilk_get_state e = map (\<lambda>(n, r). (n, ir_state r)) (ie_interlocks e)"

section \<open>The escalation configuration\<close>

definition py_number :: "pyval \<Rightarrow> pyfloat option" where
  "py_number v = (case v of PInt i \<Rightarrow> Some (Fin (of_int i)) | PFloat x \<Rightarrow> Some x | _ \<Rightarrow> None)"

definition protected_instruments :: "interlock_engine \<Rightarrow> string list" where
  "protected_instruments e =
     remdups (concat (map (\<lambda>(n, r). map b_instrument_id (i_channel_bindings (ir_condition r)))
                          (ie_interlocks e)))"

fun check_cadence :: "(string \<times> pyval) list \<Rightarrow> real \<Rightarrow> nat \<Rightarrow> string list \<Rightarrow> unit result" where
  "check_cadence intervals d n [] = Inr ()"
| "check_cadence intervals d n (i # is) =
     (case dict_get intervals i of
        None \<Rightarrow> Inl (ConfigError ''missing exact poll interval'')
      | Some v \<Rightarrow>
          (case py_number v of
             None \<Rightarrow> Inl (ConfigError ''missing exact poll interval'')
           | Some (Fin cadence) \<Rightarrow>
               (if cadence \<le> 0 then Inl (ConfigError ''invalid poll interval'')
                else if cadence * real n < d then Inl (ConfigError ''exceeds cadence bound'')
                else check_cadence intervals d n is)
           | Some _ \<Rightarrow> Inl (ConfigError ''invalid poll interval'')))"

definition load_nonusable_escalation ::
  "interlock_engine \<Rightarrow> pyval option \<Rightarrow> (string \<times> pyval) list option \<Rightarrow> interlock_engine result" where
  "load_nonusable_escalation e block poll_intervals =
     (case block of
        None \<Rightarrow> Inr e
      | Some PNone \<Rightarrow> Inr e
      | Some (PDict d) \<Rightarrow>
          (let duration_value = dict_getd d ''min_duration_s'' (PFloat (Fin DEFAULT_NONUSABLE_MIN_DURATION_S));
               samples_value = dict_getd d ''min_samples'' (PInt (int DEFAULT_NONUSABLE_MIN_SAMPLES))
           in case (py_number duration_value, samples_value) of
                (Some dur, PInt n) \<Rightarrow>
                  (case dur of
                     Fin ds \<Rightarrow>
                       (if ds \<le> 0 \<or> n \<le> 0 then Inl (ConfigError ''positive finite min_duration_s and min_samples'')
                        else if int DEFAULT_NONUSABLE_MIN_SAMPLES < n
                        then Inl (ConfigError ''min_samples exceeds the reviewed maximum'')
                        else
                          (case poll_intervals of
                             None \<Rightarrow> Inl (ConfigError ''requires configured poll intervals'')
                           | Some intervals \<Rightarrow>
                               (if protected_instruments e = []
                                then Inl (ConfigError ''no protected instrument bindings'')
                                else res_bind (check_cadence intervals ds (nat n) (protected_instruments e))
                                  (\<lambda>_. Inr (e\<lparr> ie_min_duration_s := ds, ie_min_samples := nat n \<rparr>)))))
                   | _ \<Rightarrow> Inl (ConfigError ''positive finite min_duration_s and min_samples''))
              | _ \<Rightarrow> Inl (ConfigError ''exact numeric min_duration_s and exact integer min_samples''))
      | Some _ \<Rightarrow> Inl (ConfigError ''nonusable_escalation must be a mapping''))"

section \<open>Facts about the operations\<close>

text \<open>The event list is the bounded log of the prelude.\<close>

definition push_event :: "interlock_event \<Rightarrow> interlock_engine \<Rightarrow> interlock_engine" where
  "push_event ev e = e\<lparr> ie_events := dq_append MAX_INTERLOCK_EVENTS ev (ie_events e) \<rparr>"

interpretation interlock_log: bounded_log push_event ie_events MAX_INTERLOCK_EVENTS
  by unfold_locales (simp_all add: push_event_def MAX_INTERLOCK_EVENTS_def)

named_theorems ilk_simps "fields an interlock operation leaves or sets"

lemma put_record_fields [simp]:
  "ie_interlocks (put_record n r e) = dict_set n r (ie_interlocks e)"
  "ie_windows (put_record n r e) = ie_windows e"
  "ie_events (put_record n r e) = ie_events e"
  "ie_actions (put_record n r e) = ie_actions e"
  "ie_min_samples (put_record n r e) = ie_min_samples e"
  "ie_min_duration_s (put_record n r e) = ie_min_duration_s e"
  by (simp_all add: put_record_def)

definition tripped_record :: "interlock_record \<Rightarrow> real \<Rightarrow> bool \<Rightarrow> interlock_record" where
  "tripped_record r now quiet =
     r\<lparr> ir_state := TrippedI, ir_trip_count := ir_trip_count r + 1,
        ir_last_trip_time := (if quiet then ir_last_trip_time r else Some now) \<rparr>"

lemma tripped_record_fields [simp]:
  "ir_state (tripped_record r now q) = TrippedI"
  "ir_trip_count (tripped_record r now q) = Suc (ir_trip_count r)"
  "ir_condition (tripped_record r now q) = ir_condition r"
  by (simp_all add: tripped_record_def)

lemma trip_interlocks [ilk_simps]:
  "ie_interlocks (fst (trip cb e n r rd now q)) = dict_set n (tripped_record r now q) (ie_interlocks e)"
  by (simp add: trip_def Let_def tripped_record_def)

lemma trip_windows [ilk_simps]: "ie_windows (fst (trip cb e n r rd now q)) = ie_windows e"
  by (simp add: trip_def Let_def)

lemma trip_action:
  "EffAction m a \<in> set (snd (trip cb e n r rd now q)) \<longleftrightarrow>
     m = n \<and> a = i_action (ir_condition r) \<and> a \<noteq> ''warning''"
  by (auto simp: trip_def Let_def)

lemma handle_usable_interlocks [ilk_simps]:
  "ie_interlocks (fst (handle_usable cb e rd c)) = ie_interlocks e"
  by (simp add: handle_usable_def split: option.splits handler_outcome.splits)

lemma handle_usable_action: "EffAction m a \<notin> set (snd (handle_usable cb e rd c))"
  by (simp add: handle_usable_def split: option.splits handler_outcome.splits)

lemma handle_nonusable_interlocks [ilk_simps]:
  "ie_interlocks (fst (handle_nonusable cb e rd c)) = ie_interlocks e"
  by (simp add: handle_nonusable_def Let_def split: option.splits)

lemma handle_nonusable_action: "EffAction m a \<notin> set (snd (handle_nonusable cb e rd c))"
  by (simp add: handle_nonusable_def Let_def split: option.splits)

lemma recover_warning_interlocks:
  "ie_interlocks (fst (recover_warning cb e n r rd now)) = ie_interlocks e
   \<or> ie_interlocks (fst (recover_warning cb e n r rd now))
       = dict_set n (r\<lparr> ir_state := ArmedI \<rparr>) (ie_interlocks e)"
  by (auto simp: recover_warning_def Let_def split: option.splits handler_outcome.splits)

lemma recover_warning_action: "EffAction m a \<notin> set (snd (recover_warning cb e n r rd now))"
  by (simp add: recover_warning_def Let_def split: option.splits handler_outcome.splits)

lemma trip_loop_Cons_fst:
  "fst (trip_loop cb rd now ((n, r) # rs) e) =
     (if is_triggered (ir_condition r) (r_value rd) \<and> trip_is_admitted cb (ir_condition r) rd
      then fst (trip_loop cb rd now rs (fst (trip cb e n r rd now (in_cooldown (ir_condition r) r now))))
      else fst (trip_loop cb rd now rs e))"
  by (simp add: Let_def split: prod.splits)

lemma trip_loop_Cons_snd:
  "snd (trip_loop cb rd now ((n, r) # rs) e) =
     (if is_triggered (ir_condition r) (r_value rd) \<and> trip_is_admitted cb (ir_condition r) rd
      then snd (trip cb e n r rd now (in_cooldown (ir_condition r) r now))
           @ snd (trip_loop cb rd now rs (fst (trip cb e n r rd now (in_cooldown (ir_condition r) r now))))
      else snd (trip_loop cb rd now rs e))"
  by (simp add: Let_def split: prod.splits)

lemma trip_loop_other:
  "n \<notin> fst ` set rs \<Longrightarrow>
     dict_get (ie_interlocks (fst (trip_loop cb rd now rs e))) n = dict_get (ie_interlocks e) n"
  by (induction rs arbitrary: e)
     (auto simp: trip_loop_Cons_fst ilk_simps simp del: trip_loop.simps(2))

text \<open>A record of the loop ends tripped exactly when its condition is met and admitted.\<close>

lemma trip_loop_at:
  assumes "distinct (map fst rs)" "(n, r) \<in> set rs" "dict_get (ie_interlocks e) n = Some r"
  shows "dict_get (ie_interlocks (fst (trip_loop cb rd now rs e))) n =
     Some (if is_triggered (ir_condition r) (r_value rd) \<and> trip_is_admitted cb (ir_condition r) rd
           then tripped_record r now (in_cooldown (ir_condition r) r now) else r)"
  using assms
proof (induction rs arbitrary: e)
  case (Cons x rs)
  obtain m q where x: "x = (m, q)" by force
  show ?case
  proof (cases "m = n")
    case True
    hence "q = r" and notin: "n \<notin> fst ` set rs" using Cons.prems x by force+
    thus ?thesis
      using True x Cons.prems(3)
      by (simp add: trip_loop_Cons_fst trip_loop_other ilk_simps del: trip_loop.simps(2))
  next
    case False
    thus ?thesis
      using Cons x by (auto simp: trip_loop_Cons_fst ilk_simps simp del: trip_loop.simps(2))
  qed
qed simp

lemma trip_loop_action:
  "EffAction n a \<in> set (snd (trip_loop cb rd now rs e)) \<longleftrightarrow>
     (\<exists>r. (n, r) \<in> set rs \<and> is_triggered (ir_condition r) (r_value rd)
          \<and> trip_is_admitted cb (ir_condition r) rd
          \<and> a = i_action (ir_condition r) \<and> a \<noteq> ''warning'')"
proof (induction rs arbitrary: e)
  case (Cons x rs)
  obtain m q where x: "x = (m, q)" by force
  have "EffAction n a \<in> set (snd (trip_loop cb rd now (x # rs) e)) \<longleftrightarrow>
        (is_triggered (ir_condition q) (r_value rd) \<and> trip_is_admitted cb (ir_condition q) rd
          \<and> n = m \<and> a = i_action (ir_condition q) \<and> a \<noteq> ''warning'')
        \<or> (\<exists>r. (n, r) \<in> set rs \<and> is_triggered (ir_condition r) (r_value rd)
          \<and> trip_is_admitted cb (ir_condition r) rd
          \<and> a = i_action (ir_condition r) \<and> a \<noteq> ''warning'')"
    unfolding x trip_loop_Cons_snd
    by (simp add: Cons.IH trip_action) blast
  thus ?case unfolding x by auto
qed simp

lemma recovery_loop_Cons_fst:
  "fst (recovery_loop cb rd now (n # ns) e) =
     (case dict_get (ie_interlocks e) n of
        None \<Rightarrow> fst (recovery_loop cb rd now ns e)
      | Some r \<Rightarrow>
          (if i_action (ir_condition r) = ''warning'' \<and> ir_state r = TrippedI
              \<and> \<not> is_triggered (ir_condition r) (r_value rd)
           then fst (recovery_loop cb rd now ns (fst (recover_warning cb e n r rd now)))
           else fst (recovery_loop cb rd now ns e)))"
  by (simp add: Let_def split: prod.splits option.splits)

text \<open>The recovery pass changes a record only where an observational warning is back in range.\<close>

lemma recovery_loop_keeps:
  assumes "dict_get (ie_interlocks e) n = Some r"
    and "i_action (ir_condition r) \<noteq> ''warning'' \<or> ir_state r \<noteq> TrippedI
         \<or> is_triggered (ir_condition r) (r_value rd)"
  shows "dict_get (ie_interlocks (fst (recovery_loop cb rd now ns e))) n = Some r"
  using assms(1)
proof (induction ns arbitrary: e)
  case (Cons m ns)
  have other: "dict_get (ie_interlocks (fst (recover_warning cb e m q rd now))) n = Some r"
    if "m \<noteq> n" for q
    using that Cons.prems recover_warning_interlocks [of cb e m q rd now] by auto
  show ?case
    using Cons assms(2) other
    by (cases "m = n") (auto simp: recovery_loop_Cons_fst simp del: recovery_loop.simps(2) split: option.splits)
qed simp

lemma recovery_loop_action: "EffAction m a \<notin> set (snd (recovery_loop cb rd now ns e))"
proof (induction ns arbitrary: e)
  case (Cons n ns)
  thus ?case
    using recover_warning_action [of m a cb e n _ rd now]
    by (auto split: option.splits prod.splits) (metis snd_conv)+
qed simp

lemma trip_loop_ok [inv_intros]:
  "dict_ok (ie_interlocks e) \<Longrightarrow> dict_ok (ie_interlocks (fst (trip_loop cb rd now rs e)))"
proof (induction rs arbitrary: e)
  case (Cons x rs)
  thus ?case by (cases x) (simp add: trip_loop_Cons_fst ilk_simps del: trip_loop.simps(2))
qed simp

lemma recovery_loop_ok [inv_intros]:
  "dict_ok (ie_interlocks e) \<Longrightarrow> dict_ok (ie_interlocks (fst (recovery_loop cb rd now ns e)))"
proof (induction ns arbitrary: e)
  case (Cons n ns)
  have "dict_ok (ie_interlocks (fst (recover_warning cb e n q rd now)))" for q
    using Cons.prems recover_warning_interlocks [of cb e n q rd now] by auto
  thus ?case
    using Cons by (auto simp: recovery_loop_Cons_fst simp del: recovery_loop.simps(2) split: option.splits)
qed simp

lemmas loops_ok = trip_loop_ok recovery_loop_ok

text \<open>One usable reading, as the composition of the three passes.\<close>

definition usable_prefix :: "callbacks \<Rightarrow> interlock_engine \<Rightarrow> reading \<Rightarrow> string option \<Rightarrow>
    interlock_engine \<times> effect list" where
  "usable_prefix cb e rd env =
     (if is_usable rd \<and> ilk_protected e rd env \<noteq> []
      then handle_usable cb e rd (ir_condition (snd (hd (ilk_protected e rd env)))) else (e, []))"

lemma usable_prefix_facts [simp]:
  "ie_interlocks (fst (usable_prefix cb e rd env)) = ie_interlocks e"
  "EffAction n a \<notin> set (snd (usable_prefix cb e rd env))"
  by (simp_all add: usable_prefix_def ilk_simps handle_usable_action)

lemma process_usable:
  assumes "is_usable rd"
  shows "process_reading cb e rd env now =
     (let e2 = fst (trip_loop cb rd now (ilk_matching e rd env) (fst (usable_prefix cb e rd env)))
      in (fst (recovery_loop cb rd now (map fst (ilk_protected e rd env)) e2),
          snd (usable_prefix cb e rd env)
          @ snd (trip_loop cb rd now (ilk_matching e rd env) (fst (usable_prefix cb e rd env)))
          @ snd (recovery_loop cb rd now (map fst (ilk_protected e rd env)) e2)))"
  using assms unfolding process_reading_def usable_prefix_def
  by (simp add: Let_def split: prod.splits)

lemma matching_subset: "set (ilk_matching e rd env) \<subseteq> set (ilk_protected e rd env)"
  by (auto simp: ilk_matching_def ilk_protected_def)

lemma process_unusable:
  assumes "\<not> is_usable rd"
  shows "ie_interlocks (fst (process_reading cb e rd env now)) = ie_interlocks e"
    and "EffAction n a \<notin> set (snd (process_reading cb e rd env now))"
proof -
  have none: "ilk_protected e rd env = [] \<Longrightarrow> ilk_matching e rd env = []"
    using matching_subset [of e rd env] by auto
  show "ie_interlocks (fst (process_reading cb e rd env now)) = ie_interlocks e"
    using assms none by (simp add: process_reading_def Let_def ilk_simps)
  show "EffAction n a \<notin> set (snd (process_reading cb e rd env now))"
    using assms none by (simp add: process_reading_def Let_def handle_nonusable_action)
qed

lemma matching_distinct: "dict_ok (ie_interlocks e) \<Longrightarrow> distinct (map fst (ilk_matching e rd env))"
  by (simp add: dict_ok_def ilk_matching_def distinct_map_filter)

lemma matching_mem:
  "dict_get (ie_interlocks e) n = Some r \<Longrightarrow> ir_state r = ArmedI \<Longrightarrow>
   matches_reading (ir_condition r) rd env \<Longrightarrow> (n, r) \<in> set (ilk_matching e rd env)"
  by (auto simp: ilk_matching_def dest: dict_get_mem)

section \<open>Series of readings\<close>

text \<open>
  The check loop: each published reading is processed in order, with the callbacks as they answer
  at that reading.
\<close>

type_synonym delivery = "callbacks \<times> reading \<times> string option \<times> real"

fun check_loop :: "delivery list \<Rightarrow> interlock_engine \<Rightarrow> interlock_engine" where
  "check_loop [] e = e"
| "check_loop ((cb, rd, env, now) # ds) e = check_loop ds (fst (process_reading cb e rd env now))"

lemma check_loop_append: "check_loop (xs @ ys) e = check_loop ys (check_loop xs e)"
  by (induction xs arbitrary: e) auto

lemma protected_cong:
  "ie_interlocks e' = ie_interlocks e \<Longrightarrow> ilk_protected e' rd env = ilk_protected e rd env"
  by (simp add: ilk_protected_def)

text \<open>A delivery of an unusable sample of the channel that no handler settles.\<close>

definition unsettled :: "interlock_engine \<Rightarrow> string \<Rightarrow> string list \<Rightarrow> delivery \<Rightarrow> bool" where
  "unsettled e ch reasons d =
     (case d of (cb, rd, env, now) \<Rightarrow>
        \<not> is_usable rd \<and> r_channel rd = ch \<and> instrument_status_fault_reasons rd = reasons
        \<and> ilk_protected e rd env \<noteq> []
        \<and> (case cb_dead_channel cb of None \<Rightarrow> False
           | Some f \<Rightarrow> f (ir_condition (snd (hd (ilk_protected e rd env)))) rd \<noteq> DeadTrue))"

definition delivery_ts :: "delivery \<Rightarrow> real" where
  "delivery_ts d = r_timestamp (fst (snd d))"

lemma unsettled_step:
  assumes "unsettled e ch reasons (cb, rd, env, now)" "ie_interlocks e' = ie_interlocks e"
    "dict_get (ie_windows e') ch = None \<and> w = \<lparr> nw_first_ts = r_timestamp rd, nw_count = 0,
        nw_escalated = False, nw_reasons = reasons \<rparr>
     \<or> dict_get (ie_windows e') ch = Some w \<and> \<not> nw_escalated w \<and> nw_reasons w = reasons"
  shows "dict_get (ie_windows (fst (process_reading cb e' rd env now))) ch
           = Some (w\<lparr> nw_count := Suc (nw_count w) \<rparr>)"
    and "ie_min_samples (fst (process_reading cb e' rd env now)) = ie_min_samples e'"
    and "ie_min_duration_s (fst (process_reading cb e' rd env now)) = ie_min_duration_s e'"
    and "EffDeadChannel (i_name (ir_condition (snd (hd (ilk_protected e rd env))))) ch
           \<in> set (snd (process_reading cb e' rd env now))
         \<longleftrightarrow> ie_min_samples e' \<le> Suc (nw_count w) \<and> ie_min_duration_s e' \<le> r_timestamp rd - nw_first_ts w"
proof -
  let ?c = "ir_condition (snd (hd (ilk_protected e rd env)))"
  have p: "process_reading cb e' rd env now = handle_nonusable cb e' rd ?c"
    using assms(1) protected_cong [OF assms(2)]
    by (simp add: unsettled_def process_reading_def Let_def)
  have ch: "r_channel rd = ch" "instrument_status_fault_reasons rd = reasons"
    using assms(1) by (simp_all add: unsettled_def)
  have wf: "window_for e' rd = w" "\<not> nw_escalated w"
    using assms(3) ch by (auto simp: window_for_def Let_def)
  obtain f where f: "cb_dead_channel cb = Some f" "f ?c rd \<noteq> DeadTrue"
    using assms(1) by (auto simp: unsettled_def split: option.splits)
  show "dict_get (ie_windows (fst (process_reading cb e' rd env now))) ch
           = Some (w\<lparr> nw_count := Suc (nw_count w) \<rparr>)"
    using wf f ch by (simp add: p handle_nonusable_def Let_def)
  show "ie_min_samples (fst (process_reading cb e' rd env now)) = ie_min_samples e'"
    using wf f ch by (simp add: p handle_nonusable_def Let_def)
  show "ie_min_duration_s (fst (process_reading cb e' rd env now)) = ie_min_duration_s e'"
    using wf f ch by (simp add: p handle_nonusable_def Let_def)
  show "EffDeadChannel (i_name ?c) ch \<in> set (snd (process_reading cb e' rd env now))
         \<longleftrightarrow> ie_min_samples e' \<le> Suc (nw_count w) \<and> ie_min_duration_s e' \<le> r_timestamp rd - nw_first_ts w"
    using wf f ch by (simp add: p handle_nonusable_def Let_def)
qed

lemma unsettled_keeps:
  assumes "unsettled e ch reasons (cb, rd, env, now)" "ie_interlocks e' = ie_interlocks e"
  shows "ie_interlocks (fst (process_reading cb e' rd env now)) = ie_interlocks e"
  using assms process_unusable(1) [of rd cb e' env now] by (simp add: unsettled_def)

text \<open>The window counts the whole series and dates it from its first sample.\<close>

lemma unsettled_run:
  assumes "\<forall>d \<in> set ds. unsettled e ch reasons d" "ie_interlocks e' = ie_interlocks e"
    "dict_get (ie_windows e') ch = Some w" "\<not> nw_escalated w" "nw_reasons w = reasons"
  shows "dict_get (ie_windows (check_loop ds e')) ch = Some (w\<lparr> nw_count := nw_count w + length ds \<rparr>)
     \<and> ie_interlocks (check_loop ds e') = ie_interlocks e
     \<and> ie_min_samples (check_loop ds e') = ie_min_samples e'
     \<and> ie_min_duration_s (check_loop ds e') = ie_min_duration_s e'"
  using assms
proof (induction ds arbitrary: e' w)
  case (Cons d ds)
  obtain cb rd env now where d: "d = (cb, rd, env, now)" by (metis prod_cases4)
  have u: "unsettled e ch reasons (cb, rd, env, now)" using Cons.prems d by simp
  let ?e = "fst (process_reading cb e' rd env now)"
  note st = unsettled_step [OF u Cons.prems(2), of w]
  have "dict_get (ie_windows ?e) ch = Some (w\<lparr> nw_count := Suc (nw_count w) \<rparr>)"
    using Cons.prems st(1) by simp
  from Cons.IH [OF _ unsettled_keeps [OF u Cons.prems(2)] this] show ?case
    using Cons.prems st(2,3) d by simp
qed simp

section \<open>Properties\<close>

definition sample_condition :: condition where
  "sample_condition =
     \<lparr> i_name = ''overheat'', i_description = [], i_channel_ids = [''T1''], i_threshold = Fin 350,
       i_comparison = ''>'', i_action = ''emergency_off'',
       i_channel_bindings = [\<lparr> b_instrument_id = ''LS1'', b_source_key = ''k'', b_channel_id = ''T1'',
                               b_descriptor_envelope = ''env'' \<rparr>],
       i_cooldown_s = Fin 10 \<rparr>"

definition sample_record :: interlock_record where
  "sample_record = \<lparr> ir_condition = sample_condition, ir_state = ArmedI,
                     ir_last_trip_time = Some 99, ir_trip_count = 3 \<rparr>"

definition sample_engine :: interlock_engine where
  "sample_engine = (interlock_engine_init [''emergency_off''])
     \<lparr> ie_interlocks := [(''overheat'', sample_record)] \<rparr>"

definition sample_callbacks :: callbacks where
  "sample_callbacks =
     \<lparr> cb_trip_handler = True, cb_alarm_publisher = True, cb_dead_channel = Some (\<lambda>c r. DeadFalse),
       cb_dead_recovery = Some (\<lambda>c r. HOk), cb_trip_admission = Some (\<lambda>c r. AdmRaise),
       cb_warning_recovery = None \<rparr>"

definition t1_reading :: "real \<Rightarrow> pyfloat \<Rightarrow> reading" where
  "t1_reading t v = \<lparr> r_timestamp = t, r_instrument_id = ''LS1'', r_channel = ''T1'', r_value = v,
                      r_unit = ''K'', r_status = OK, r_metadata = [] \<rparr>"

text \<open>
  C29: An armed guard whose declared sensor delivers a usable reading beyond the threshold always
  trips when the lifecycle gate does not refuse it (a gate that raises admits it): the record
  latches TRIPPED, its trip count grows by one, and the protective callable of its action is
  called, inside the notification cooldown too. Only an explicit refusal leaves the record as it
  was.
\<close>
theorem violation_always_trips:
  assumes "dict_ok (ie_interlocks e)" "dict_get (ie_interlocks e) n = Some r"
    and "ir_state r = ArmedI" "matches_reading (ir_condition r) rd env" "is_usable rd"
    and "is_triggered (ir_condition r) (r_value rd)"
  shows "if trip_is_admitted cb (ir_condition r) rd
         then (\<exists>r'. dict_get (ie_interlocks (fst (process_reading cb e rd env now))) n = Some r'
                 \<and> ir_state r' = TrippedI \<and> ir_trip_count r' = Suc (ir_trip_count r)
                 \<and> (i_action (ir_condition r) \<noteq> ''warning'' \<longrightarrow>
                      EffAction n (i_action (ir_condition r))
                        \<in> set (snd (process_reading cb e rd env now))))
         else dict_get (ie_interlocks (fst (process_reading cb e rd env now))) n = Some r"
proof -
  let ?e1 = "fst (usable_prefix cb e rd env)"
  let ?e2 = "fst (trip_loop cb rd now (ilk_matching e rd env) ?e1)"
  have mem: "(n, r) \<in> set (ilk_matching e rd env)" using assms(2-4) by (rule matching_mem)
  have at_n: "dict_get (ie_interlocks ?e2) n =
      Some (if trip_is_admitted cb (ir_condition r) rd
            then tripped_record r now (in_cooldown (ir_condition r) r now) else r)"
    using trip_loop_at [OF matching_distinct [OF assms(1)] mem, of ?e1 cb rd now] assms(2,6) by simp
  have act: "trip_is_admitted cb (ir_condition r) rd \<Longrightarrow> i_action (ir_condition r) \<noteq> ''warning'' \<Longrightarrow>
      EffAction n (i_action (ir_condition r))
        \<in> set (snd (trip_loop cb rd now (ilk_matching e rd env) ?e1))"
    using trip_loop_action [of n "i_action (ir_condition r)" cb rd now "ilk_matching e rd env" ?e1] mem assms(6)
    by blast
  show ?thesis
    using recovery_loop_keeps [OF at_n, of rd cb now "map fst (ilk_protected e rd env)"] assms(6) act
    by (simp add: process_usable [OF assms(5)] Let_def)
qed

lemma violation_always_trips_witness:
  "\<exists>r'. dict_get (ie_interlocks (fst (process_reading sample_callbacks sample_engine
            (t1_reading 100 (Fin 400)) (Some ''env'') 100))) ''overheat'' = Some r'
        \<and> ir_state r' = TrippedI \<and> ir_trip_count r' = 4"
  using violation_always_trips [of sample_engine "''overheat''" sample_record
      "t1_reading 100 (Fin 400)" "Some ''env''" sample_callbacks 100]
  by (simp add: sample_engine_def sample_record_def sample_condition_def sample_callbacks_def
      t1_reading_def dict_ok_def matches_reading_def is_usable_def is_triggered_def
      trip_is_admitted_def) auto

text \<open>
  A protective callable is called for one reason only: a usable reading of a declared sensor of
  an armed guard, beyond that guard's threshold, that the lifecycle gate admits; the action called
  is the one the guard declares, and an observational \<open>warning\<close> guard never calls one. In
  particular an unusable reading (NaN, infinite, or an error status) never does.
\<close>
theorem action_only_on_violation:
  assumes "EffAction n a \<in> set (snd (process_reading cb e rd env now))"
  shows "is_usable rd \<and> a \<noteq> ''warning''
    \<and> (\<exists>r. (n, r) \<in> set (ie_interlocks e) \<and> ir_state r = ArmedI \<and> a = i_action (ir_condition r)
          \<and> matches_reading (ir_condition r) rd env \<and> is_triggered (ir_condition r) (r_value rd)
          \<and> trip_is_admitted cb (ir_condition r) rd)"
proof -
  have u: "is_usable rd" using assms process_unusable(2) by blast
  have "EffAction n a \<in> set (snd (trip_loop cb rd now (ilk_matching e rd env) (fst (usable_prefix cb e rd env))))"
    using assms by (auto simp: process_usable [OF u] Let_def recovery_loop_action)
  thus ?thesis using u by (auto simp: trip_loop_action ilk_matching_def)
qed

lemma action_only_on_violation_witness:
  "EffAction ''overheat'' ''emergency_off'' \<in> set (snd (process_reading sample_callbacks sample_engine
      (t1_reading 100 (Fin 400)) (Some ''env'') 100))
   \<and> is_usable (t1_reading 100 (Fin 400)) \<and> ''emergency_off'' \<noteq> ''warning''"
proof -
  have h: "EffAction ''overheat'' ''emergency_off'' \<in> set (snd (process_reading sample_callbacks
      sample_engine (t1_reading 100 (Fin 400)) (Some ''env'') 100))"
    by (simp add: process_reading_def Let_def ilk_matching_def ilk_protected_def sample_engine_def
        sample_record_def sample_condition_def sample_callbacks_def t1_reading_def matches_reading_def
        is_usable_def is_triggered_def trip_is_admitted_def trip_def handle_usable_def
        interlock_engine_init_def)
  show ?thesis using h action_only_on_violation [OF h] by blast
qed

text \<open>
  A tripped control interlock is latched: no sequence of readings, whatever the callbacks
  answer, changes its record. Only the operator operations (acknowledge and re-arm) do.
\<close>
theorem control_trip_latched:
  assumes "dict_ok (ie_interlocks e)" "dict_get (ie_interlocks e) n = Some r"
    and "ir_state r = TrippedI" "i_action (ir_condition r) \<noteq> ''warning''"
  shows "dict_get (ie_interlocks (check_loop ds e)) n = Some r"
  using assms(1,2)
proof (induction ds arbitrary: e)
  case (Cons d ds)
  obtain cb rd env now where d: "d = (cb, rd, env, now)" by (metis prod_cases4)
  let ?e1 = "fst (process_reading cb e rd env now)"
  have "dict_get (ie_interlocks ?e1) n = Some r \<and> dict_ok (ie_interlocks ?e1)"
  proof (cases "is_usable rd")
    case True
    have "n \<notin> fst ` set (ilk_matching e rd env)"
      using Cons.prems assms(3) by (auto simp: ilk_matching_def dict_mem_get)
    hence "dict_get (ie_interlocks (fst (trip_loop cb rd now (ilk_matching e rd env)
             (fst (usable_prefix cb e rd env))))) n = Some r"
      using Cons.prems by (simp add: trip_loop_other)
    thus ?thesis
      using assms(4) Cons.prems by (simp add: process_usable [OF True] Let_def recovery_loop_keeps loops_ok)
  qed (use process_unusable(1) Cons.prems in simp)
  thus ?case using Cons.IH d by simp
qed simp

lemma control_trip_latched_witness:
  "dict_get (ie_interlocks (check_loop [(sample_callbacks, t1_reading 1 (Fin 4), Some ''env'', 1)]
     (put_record ''overheat'' (sample_record\<lparr> ir_state := TrippedI \<rparr>) sample_engine))) ''overheat''
   = Some (sample_record\<lparr> ir_state := TrippedI \<rparr>)"
  by (rule control_trip_latched)
     (simp_all add: sample_engine_def sample_record_def sample_condition_def dict_ok_def)

text \<open>
  A dead protected sensor is escalated to the safety authority neither early nor never. In an
  unbroken series of unusable readings of one channel with the same evidence, whose escalations the
  handler has not settled, the handler is called for a reading exactly when the series has reached
  the configured number of samples and the configured measurement-time span; so a refused or failed
  escalation is retried at each further reading.
\<close>
theorem dead_channel_escalation:
  assumes "\<forall>d \<in> set (d0 # ds). unsettled e ch reasons d"
    and "unsettled e ch reasons (cb, rd, env, now)"
    and "dict_get (ie_windows e) ch = None"
  shows "EffDeadChannel (i_name (ir_condition (snd (hd (ilk_protected e rd env))))) ch
           \<in> set (snd (process_reading cb (check_loop (d0 # ds) e) rd env now))
         \<longleftrightarrow> ie_min_samples e \<le> length (d0 # ds) + 1
             \<and> ie_min_duration_s e \<le> r_timestamp rd - delivery_ts d0"
proof -
  obtain cb0 rd0 env0 now0 where d: "d0 = (cb0, rd0, env0, now0)" by (metis prod_cases4)
  have u: "unsettled e ch reasons (cb0, rd0, env0, now0)" using assms(1) d by simp
  let ?e = "fst (process_reading cb0 e rd0 env0 now0)"
  let ?w = "\<lparr> nw_first_ts = r_timestamp rd0, nw_count = 0, nw_escalated = False, nw_reasons = reasons \<rparr>"
  note st = unsettled_step [OF u refl, of ?w]
  have w: "dict_get (ie_windows ?e) ch = Some (?w\<lparr> nw_count := Suc (nw_count ?w) \<rparr>)"
    by (rule st(1)) (simp add: assms(3))
  have run: "dict_get (ie_windows (check_loop ds ?e)) ch = Some (?w\<lparr> nw_count := Suc (length ds) \<rparr>)
     \<and> ie_interlocks (check_loop ds ?e) = ie_interlocks e
     \<and> ie_min_samples (check_loop ds ?e) = ie_min_samples e
     \<and> ie_min_duration_s (check_loop ds ?e) = ie_min_duration_s e"
    using unsettled_run [of ds e ch reasons, OF _ unsettled_keeps [OF u refl] w] assms(1,3) st(2,3) by simp
  show ?thesis
    using unsettled_step(4) [OF assms(2), of "check_loop ds ?e" "?w\<lparr> nw_count := Suc (length ds) \<rparr>"] run
    by (simp add: d delivery_ts_def)
qed

definition dead_delivery :: "real \<Rightarrow> delivery" where
  "dead_delivery t = (sample_callbacks, t1_reading t NaN, Some ''env'', t)"

lemma dead_channel_escalation_witness:
  "EffDeadChannel ''overheat'' ''T1''
     \<in> set (snd (process_reading sample_callbacks
          (check_loop [dead_delivery 0, dead_delivery 2, dead_delivery 4, dead_delivery 6] sample_engine)
          (t1_reading 11 NaN) (Some ''env'') 11))"
proof -
  have u: "unsettled sample_engine ''T1'' (instrument_status_fault_reasons (t1_reading 0 NaN)) (dead_delivery t)" for t
    by (simp add: unsettled_def dead_delivery_def t1_reading_def is_usable_def sample_engine_def
        ilk_protected_def matches_reading_def sample_record_def sample_condition_def
        sample_callbacks_def instrument_status_fault_reasons_def)
  have last: "unsettled sample_engine ''T1'' (instrument_status_fault_reasons (t1_reading 0 NaN))
      (sample_callbacks, t1_reading 11 NaN, Some ''env'', 11)"
    using u [of 11] by (simp add: dead_delivery_def)
  have "dict_get (ie_windows sample_engine) ''T1'' = None"
    by (simp add: sample_engine_def interlock_engine_init_def)
  from dead_channel_escalation [of "dead_delivery 0" "[dead_delivery 2, dead_delivery 4, dead_delivery 6]", OF _ last this]
  show ?thesis
    by (simp add: u) (simp add: dead_delivery_def t1_reading_def sample_engine_def ilk_protected_def
        sample_record_def sample_condition_def matches_reading_def delivery_ts_def
        interlock_engine_init_def DEFAULT_NONUSABLE_MIN_SAMPLES_def DEFAULT_NONUSABLE_MIN_DURATION_S_def)
qed

lemma rearmed_names:
  "dict_ok d \<Longrightarrow> n \<in> set (map fst (filter (\<lambda>(n, r). rearmable r) d)) \<longleftrightarrow>
     (\<exists>r. dict_get d n = Some r \<and> rearmable r)"
  by (force simp: dict_mem_get dest: dict_get_mem)

lemma rearmed_get:
  "dict_get (map (\<lambda>(n, r). (n, if rearmable r then r\<lparr> ir_state := ArmedI \<rparr> else r)) d) n
     = map_option (\<lambda>r. if rearmable r then r\<lparr> ir_state := ArmedI \<rparr> else r) (dict_get d n)"
  by (induction d) auto

text \<open>
  After re-arming no control interlock is left tripped, the returned names are exactly the
  tripped control interlocks, and every other record (an observational warning, an armed guard) is
  untouched.
\<close>
theorem rearm_exact:
  assumes "dict_ok (ie_interlocks e)"
  shows "case rearm_tripped_control_interlocks e of (names, e') \<Rightarrow>
     \<forall>n. dict_get (ie_interlocks e') n =
            map_option (\<lambda>r. if n \<in> set names then r\<lparr> ir_state := ArmedI \<rparr> else r) (dict_get (ie_interlocks e) n)
       \<and> (n \<in> set names \<longleftrightarrow> (\<exists>r. dict_get (ie_interlocks e) n = Some r \<and> ir_state r = TrippedI
                                  \<and> i_action (ir_condition r) \<noteq> ''warning''))"
  unfolding rearm_tripped_control_interlocks_def prod.case
  using rearmed_names [OF assms]
  by (auto simp: rearmed_get option.map_id0 rearmable_def [symmetric] simp del: set_filter set_map
      intro!: option.map_cong0 split: if_splits)

lemma rearm_exact_witness:
  "case rearm_tripped_control_interlocks
      (put_record ''overheat'' (sample_record\<lparr> ir_state := TrippedI \<rparr>) sample_engine) of (names, e') \<Rightarrow>
     dict_get (ie_interlocks e') ''overheat'' = Some sample_record"
proof -
  have ok: "dict_ok (ie_interlocks (put_record ''overheat'' (sample_record\<lparr> ir_state := TrippedI \<rparr>) sample_engine))"
    by (simp add: sample_engine_def dict_ok_def)
  show ?thesis
    using rearm_exact [OF ok]
    by (auto simp: sample_engine_def sample_record_def sample_condition_def split: prod.splits)
qed

text \<open>
  An accepted escalation configuration can never delay protection beyond one sampling budget:
  the duration is positive, the number of samples lies between 1 and the reviewed maximum, and for
  every instrument with a declared guard the poll interval is configured, positive, and bounds the
  duration by \<open>interval * samples\<close>. A rejected or absent block leaves the engine as it was.
\<close>
theorem escalation_config_bounded:
  assumes "load_nonusable_escalation e block intervals = Inr e'"
  shows "e' = e \<or>
    (0 < ie_min_duration_s e' \<and> 0 < ie_min_samples e' \<and> ie_min_samples e' \<le> DEFAULT_NONUSABLE_MIN_SAMPLES
     \<and> (\<exists>iv. intervals = Some iv
          \<and> (\<forall>i \<in> set (protected_instruments e). \<exists>v cadence. dict_get iv i = Some v
               \<and> py_number v = Some (Fin cadence) \<and> 0 < cadence
               \<and> ie_min_duration_s e' \<le> cadence * real (ie_min_samples e'))))"
proof -
  have cadence: "check_cadence iv d n is = Inr () \<Longrightarrow>
      \<forall>i \<in> set is. \<exists>v cadence. dict_get iv i = Some v \<and> py_number v = Some (Fin cadence)
        \<and> 0 < cadence \<and> d \<le> cadence * real n" for iv d n "is"
    by (induction "is") (auto split: option.splits pyfloat.splits if_splits)
  show ?thesis
    using assms unfolding load_nonusable_escalation_def
    by (auto simp: Let_def res_bind_Inr_iff split: option.splits pyval.splits pyfloat.splits if_splits
        dest!: cadence)
qed

lemma escalation_config_bounded_witness:
  "\<exists>e'. load_nonusable_escalation sample_engine (Some (PDict [(''min_samples'', PInt 4)]))
          (Some [(''LS1'', PInt 3)]) = Inr e' \<and> ie_min_duration_s e' \<le> 3 * real (ie_min_samples e')"
proof -
  have "load_nonusable_escalation sample_engine (Some (PDict [(''min_samples'', PInt 4)]))
          (Some [(''LS1'', PInt 3)])
        = Inr (sample_engine\<lparr> ie_min_duration_s := 10, ie_min_samples := 4 \<rparr>)"
    by (simp add: load_nonusable_escalation_def dict_getd_def py_number_def protected_instruments_def
        sample_engine_def sample_record_def sample_condition_def
        DEFAULT_NONUSABLE_MIN_SAMPLES_def DEFAULT_NONUSABLE_MIN_DURATION_S_def)
  from this escalation_config_bounded [OF this] show ?thesis
    by (auto simp: sample_engine_def sample_record_def sample_condition_def protected_instruments_def
        py_number_def interlock_engine_init_def DEFAULT_NONUSABLE_MIN_SAMPLES_def)
qed

end
