(* ===== verification/Queues.thy ===== *)
theory Queues
  imports Readings
begin

text \<open>
  \<open>asyncio.Queue\<close> of the Python standard library as the brokers use it: a FIFO with a capacity that
  is unbounded when \<open>maxsize\<close> is not positive, \<open>full\<close>, \<open>put_nowait\<close> (\<open>None\<close> is \<open>QueueFull\<close>) and
  \<open>get_nowait\<close> (\<open>None\<close> is \<open>QueueEmpty\<close>). The locale states the contract a broker relies on when it
  delivers one item.
\<close>

record 'a aqueue =
  q_items :: "'a list"
  q_maxsize :: int

definition q_new :: "int \<Rightarrow> 'a aqueue" where
  "q_new n = \<lparr> q_items = [], q_maxsize = n \<rparr>"

definition q_full :: "'a aqueue \<Rightarrow> bool" where
  "q_full q = (0 < q_maxsize q \<and> q_maxsize q \<le> int (length (q_items q)))"

definition q_put_nowait :: "'a \<Rightarrow> 'a aqueue \<Rightarrow> 'a aqueue option" where
  "q_put_nowait x q = (if q_full q then None else Some (q\<lparr> q_items := q_items q @ [x] \<rparr>))"

definition q_get_nowait :: "'a aqueue \<Rightarrow> ('a \<times> 'a aqueue) option" where
  "q_get_nowait q = (case q_items q of [] \<Rightarrow> None | x # xs \<Rightarrow> Some (x, q\<lparr> q_items := xs \<rparr>))"

text \<open>No queue holds more than its capacity.\<close>

definition q_ok :: "'a aqueue \<Rightarrow> bool" where
  "q_ok q = (0 < q_maxsize q \<longrightarrow> int (length (q_items q)) \<le> q_maxsize q)"

section \<open>The delivery contract\<close>

locale fifo =
  fixes put :: "'a \<Rightarrow> 'q \<Rightarrow> 'q option"
    and full :: "'q \<Rightarrow> bool"
    and items :: "'q \<Rightarrow> 'a list"
    and ok :: "'q \<Rightarrow> bool"
  assumes put_full_iff: "put x q = None \<longleftrightarrow> full q"
    and put_items: "put x q = Some q' \<Longrightarrow> items q' = items q @ [x]"
    and put_ok: "ok q \<Longrightarrow> put x q = Some q' \<Longrightarrow> ok q'"
begin

lemma put_not_full: "\<not> full q \<Longrightarrow> \<exists>q'. put x q = Some q' \<and> items q' = items q @ [x]"
  using put_full_iff put_items by (cases "put x q") auto

lemma put_the: "\<not> full q \<Longrightarrow> items (the (put x q)) = items q @ [x]"
  using put_not_full [of q x] by auto

lemma put_the_ok: "\<not> full q \<Longrightarrow> ok q \<Longrightarrow> ok (the (put x q))"
  using put_not_full [of q x] put_ok by auto

lemma put_length: "put x q = Some q' \<Longrightarrow> length (items q') = Suc (length (items q))"
  by (simp add: put_items)

text \<open>Dropping the item of a full queue or appending it: nothing already queued is lost.\<close>

definition offer :: "'a \<Rightarrow> 'q \<Rightarrow> 'q" where
  "offer x q = (case put x q of None \<Rightarrow> q | Some q' \<Rightarrow> q')"

lemma offer_items: "items (offer x q) = (if full q then items q else items q @ [x])"
  using put_full_iff [of x q] by (auto simp: offer_def put_items split: option.splits)

lemma offer_ok: "ok q \<Longrightarrow> ok (offer x q)"
  by (auto simp: offer_def put_ok split: option.splits)

end

interpretation aq: fifo q_put_nowait q_full q_items q_ok
  by unfold_locales (auto simp: q_put_nowait_def q_full_def q_ok_def split: if_splits)

lemma q_put_maxsize [simp]: "q_put_nowait x q = Some q' \<Longrightarrow> q_maxsize q' = q_maxsize q"
  by (auto simp: q_put_nowait_def split: if_splits)

lemma q_new_fields [simp]: "q_items (q_new n) = []" "q_maxsize (q_new n) = n" "q_ok (q_new n)"
  by (simp_all add: q_new_def q_ok_def)

lemma q_get_ok [inv_intros]: "q_ok q \<Longrightarrow> q_get_nowait q = Some (x, q') \<Longrightarrow> q_ok q'"
  by (auto simp: q_get_nowait_def q_ok_def split: list.splits)

lemma q_full_nonempty: "q_full q \<Longrightarrow> q_items q \<noteq> []"
  by (auto simp: q_full_def)

end
