(* ===== verification/SafetyBroker.thy ===== *)
theory SafetyBroker
  imports Queues
begin

text \<open>
  \<open>SafetyBroker\<close> of \<^verbatim>\<open>src/cryodaq/core/safety_broker.py\<close>: the channel from the scheduler to the
  safety manager. Its subscriber list is fixed by \<open>freeze\<close>, it records the last update of every
  channel, and a full queue calls the overflow callback (a fault of the safety manager) instead of
  dropping data silently. \<open>now\<close> is \<open>time.monotonic()\<close>; an exception of the callback is caught by the
  source, so only the call is observable here.
\<close>

record safety_subscription =
  ss_name :: string
  ss_queue :: "reading aqueue"
  ss_maxsize :: int

record safety_broker =
  sb_subscribers :: "safety_subscription dict"
  sb_frozen :: bool
  sb_last_update :: "real dict"
  sb_total_published :: nat
  sb_overflow_callback :: bool

definition safety_broker_init :: safety_broker where
  "safety_broker_init = \<lparr> sb_subscribers = [], sb_frozen = False, sb_last_update = [],
     sb_total_published = 0, sb_overflow_callback = False \<rparr>"

definition sb_subscribe :: "string \<Rightarrow> int \<Rightarrow> safety_broker \<Rightarrow> safety_broker result" where
  "sb_subscribe name maxsize b =
     (if maxsize \<le> 0 then Inl (ValueError ''maxsize must be > 0'')
      else if sb_frozen b then Inl (RuntimeError ''frozen'')
      else if dict_get (sb_subscribers b) name \<noteq> None then Inl (ValueError ''already registered'')
      else Inr (b\<lparr> sb_subscribers := dict_set name
             \<lparr> ss_name = name, ss_queue = q_new maxsize, ss_maxsize = maxsize \<rparr> (sb_subscribers b) \<rparr>))"

definition sb_freeze :: "safety_broker \<Rightarrow> safety_broker" where
  "sb_freeze b = b\<lparr> sb_frozen := True \<rparr>"

definition sb_set_overflow_callback :: "safety_broker \<Rightarrow> safety_broker" where
  "sb_set_overflow_callback b = b\<lparr> sb_overflow_callback := True \<rparr>"

datatype broker_effect = OverflowCallback

text \<open>The fan-out stops at the first full queue.\<close>

fun sb_fanout :: "reading \<Rightarrow> bool \<Rightarrow> (string \<times> safety_subscription) list \<Rightarrow>
    (string \<times> safety_subscription) list \<times> broker_effect list" where
  "sb_fanout r callback [] = ([], [])"
| "sb_fanout r callback ((n, s) # ss) =
     (if q_full (ss_queue s) then ((n, s) # ss, if callback then [OverflowCallback] else [])
      else
        (let (ss', eff) = sb_fanout r callback ss
         in ((n, s\<lparr> ss_queue := (case q_put_nowait r (ss_queue s) of None \<Rightarrow> ss_queue s | Some q \<Rightarrow> q) \<rparr>) # ss',
             eff)))"

definition sb_publish :: "reading \<Rightarrow> real \<Rightarrow> safety_broker \<Rightarrow> safety_broker \<times> broker_effect list" where
  "sb_publish r now b =
     (let (subs, eff) = sb_fanout r (sb_overflow_callback b) (sb_subscribers b)
      in (b\<lparr> sb_total_published := sb_total_published b + 1,
             sb_last_update := dict_set (r_channel r) now (sb_last_update b),
             sb_subscribers := subs \<rparr>, eff))"

fun sb_publish_batch :: "(reading \<times> real) list \<Rightarrow> safety_broker \<Rightarrow> safety_broker \<times> broker_effect list" where
  "sb_publish_batch [] b = (b, [])"
| "sb_publish_batch ((r, now) # rs) b =
     (let (b1, e1) = sb_publish r now b; (b2, e2) = sb_publish_batch rs b1 in (b2, e1 @ e2))"

definition sb_get_last_update :: "safety_broker \<Rightarrow> string \<Rightarrow> real" where
  "sb_get_last_update b channel = dict_getd (sb_last_update b) channel 0"

definition sb_get_all_last_updates :: "safety_broker \<Rightarrow> real dict" where
  "sb_get_all_last_updates b = sb_last_update b"

section \<open>Facts about the fan-out\<close>

abbreviation sub_items :: "string \<times> safety_subscription \<Rightarrow> reading list" where
  "sub_items ns \<equiv> q_items (ss_queue (snd ns))"

lemma offered_items:
  "\<not> q_full q \<Longrightarrow> q_items (case q_put_nowait r q of None \<Rightarrow> q | Some q' \<Rightarrow> q') = q_items q @ [r]"
  using aq.put_not_full [of q r] by auto

lemma fanout_names: "map fst (fst (sb_fanout r c ss)) = map fst ss"
  by (induction ss) (auto split: prod.splits)

lemma fanout_complete:
  "\<forall>ns \<in> set ss. \<not> q_full (ss_queue (snd ns)) \<Longrightarrow>
     snd (sb_fanout r c ss) = [] \<and> map sub_items (fst (sb_fanout r c ss)) = map (\<lambda>ns. sub_items ns @ [r]) ss"
  by (induction ss) (auto simp: offered_items split: prod.splits)

lemma fanout_overflow:
  "ns \<in> set ss \<Longrightarrow> q_full (ss_queue (snd ns)) \<Longrightarrow>
     snd (sb_fanout r c ss) = (if c then [OverflowCallback] else [])"
  by (induction ss) (auto split: prod.splits)

text \<open>Nothing already queued is removed or reordered.\<close>

lemma fanout_keeps:
  "list_all2 (\<lambda>new old. sub_items new = sub_items old \<or> sub_items new = sub_items old @ [r])
     (fst (sb_fanout r c ss)) ss"
proof (induction ss)
  case (Cons x ss)
  obtain n s where x: "x = (n, s)" by force
  show ?case
    using Cons by (auto simp: x offered_items list_all2_same split: prod.splits)
qed simp

text \<open>
  Safety data is never lost silently. Publishing a reading appends it to the queue of every
  subscriber; if any subscriber's queue is full, the overflow callback (a fault of the safety
  manager) is called instead, exactly once. Readings already queued are kept in either case, and
  the channel's last-update time is that of this reading.
\<close>
theorem safety_publish_no_silent_loss:
  assumes "sb_overflow_callback b"
  shows "case sb_publish r now b of (b', eff) \<Rightarrow>
     (if \<exists>ns \<in> set (sb_subscribers b). q_full (ss_queue (snd ns)) then eff = [OverflowCallback]
      else eff = [] \<and> map sub_items (sb_subscribers b') = map (\<lambda>ns. sub_items ns @ [r]) (sb_subscribers b))
     \<and> list_all2 (\<lambda>new old. sub_items new = sub_items old \<or> sub_items new = sub_items old @ [r])
          (sb_subscribers b') (sb_subscribers b)
     \<and> sb_get_last_update b' (r_channel r) = now"
proof -
  have some: "(\<exists>ns \<in> set (sb_subscribers b). q_full (ss_queue (snd ns))) \<longrightarrow>
      snd (sb_fanout r True (sb_subscribers b)) = [OverflowCallback]"
    using fanout_overflow [of _ "sb_subscribers b" r True] by auto
  show ?thesis
    using assms some fanout_complete [of "sb_subscribers b" r True] fanout_keeps [of r True "sb_subscribers b"]
    by (simp add: sb_publish_def sb_get_last_update_def case_prod_beta)
qed

definition one_reading :: reading where
  "one_reading = \<lparr> r_timestamp = 1, r_instrument_id = ''LS1'', r_channel = ''T1'', r_value = Fin 4,
                   r_unit = ''K'', r_status = OK, r_metadata = [] \<rparr>"

definition full_broker :: safety_broker where
  "full_broker = safety_broker_init
     \<lparr> sb_subscribers := [(''sm'', \<lparr> ss_name = ''sm'', ss_queue = \<lparr> q_items = [one_reading], q_maxsize = 1 \<rparr>,
                                    ss_maxsize = 1 \<rparr>)],
       sb_overflow_callback := True \<rparr>"

lemma safety_publish_no_silent_loss_witness:
  "snd (sb_publish one_reading 5 full_broker) = [OverflowCallback]"
proof -
  have cb: "sb_overflow_callback full_broker" by (simp add: full_broker_def)
  show ?thesis
    using safety_publish_no_silent_loss [OF cb, of one_reading 5]
    by (simp add: full_broker_def q_full_def split: prod.splits)
qed

end
