(* ===== verification/EventBus.thy ===== *)
theory EventBus
  imports Queues "HOL-Library.List_Lexorder" "HOL-Library.Char_ord"
begin

text \<open>
  \<open>EventBus\<close> of \<^verbatim>\<open>src/cryodaq/core/event_bus.py\<close>: named queues of engine events, the lossy
  \<open>publish\<close>, and \<open>publish_required\<close>, which admits one identity-bound event to every retained queue or
  to none and issues a receipt that \<open>validates_required_publication\<close> checks.

  \<open>json.dumps\<close> with \<open>allow_nan=False\<close> and \<open>sort_keys=True\<close> (\<open>None\<close> when the event is not canonically
  serializable) and \<open>sha256().hexdigest()\<close> are parameters. The private capability object of a bus is
  a number that identifies the bus.
\<close>

record engine_event =
  ee_event_type :: string
  ee_timestamp :: real
  ee_payload :: "pyval dict"
  ee_experiment_id :: "string option"

record event_receipt =
  er_event_digest :: string
  er_admitted_subscribers :: nat
  er_subscriber_names :: "string list"
  er_event_identity :: "string option"
  er_payload_digest :: "string option"
  er_authority :: nat

record event_bus =
  eb_subscribers :: "engine_event aqueue dict"
  eb_authority :: nat

definition eb_init :: "nat \<Rightarrow> event_bus" where
  "eb_init authority = \<lparr> eb_subscribers = [], eb_authority = authority \<rparr>"

definition eb_subscribe :: "string \<Rightarrow> int \<Rightarrow> event_bus \<Rightarrow> event_bus" where
  "eb_subscribe name maxsize b = b\<lparr> eb_subscribers := dict_set name (q_new maxsize) (eb_subscribers b) \<rparr>"

definition eb_unsubscribe :: "string \<Rightarrow> event_bus \<Rightarrow> event_bus" where
  "eb_unsubscribe name b = b\<lparr> eb_subscribers := dict_del name (eb_subscribers b) \<rparr>"

definition eb_publish :: "engine_event \<Rightarrow> event_bus \<Rightarrow> event_bus" where
  "eb_publish ev b = b\<lparr> eb_subscribers := map (\<lambda>(n, q). (n, aq.offer ev q)) (eb_subscribers b) \<rparr>"

definition hex_char :: "char \<Rightarrow> bool" where
  "hex_char c = (c \<in> set ''0123456789abcdef'')"

definition identity_char :: "char \<Rightarrow> bool" where
  "identity_char c = (c \<in> set ''ABCDEFGHIJKLMNOPQRSTUVWXYZabcdefghijklmnopqrstuvwxyz0123456789_.-'')"

definition valid_identity :: "string \<Rightarrow> bool" where
  "valid_identity s = (1 \<le> length s \<and> length s \<le> 128 \<and> list_all identity_char s)"

definition valid_digest :: "string \<Rightarrow> bool" where
  "valid_digest s = (length s = 64 \<and> list_all hex_char s)"

definition eb_publish_required ::
  "(engine_event \<Rightarrow> string option) \<Rightarrow> (string \<Rightarrow> string) \<Rightarrow> engine_event \<Rightarrow> string option \<Rightarrow> string option \<Rightarrow>
   event_bus \<Rightarrow> (event_bus \<times> event_receipt) result" where
  "eb_publish_required canonical sha256 ev event_identity payload_digest b =
     (if (event_identity = None) \<noteq> (payload_digest = None)
      then Inl (ValueError ''identity and payload digest must be supplied together'')
      else if (case event_identity of None \<Rightarrow> False | Some i \<Rightarrow> \<not> valid_identity i)
      then Inl (ValueError ''event identity is invalid'')
      else if (case payload_digest of None \<Rightarrow> False | Some d \<Rightarrow> \<not> valid_digest d)
      then Inl (ValueError ''payload digest is invalid'')
      else if event_identity \<noteq> None
              \<and> (dict_get (ee_payload ev) ''cycle_identity'' \<noteq> map_option PStr event_identity
                 \<or> dict_get (ee_payload ev) ''source_digest'' \<noteq> map_option PStr payload_digest)
      then Inl (ValueError ''event identity does not match its payload'')
      else
        (case canonical ev of
           None \<Rightarrow> Inl (ValueError ''event is not canonically serializable'')
         | Some text \<Rightarrow>
             (let names = sort (dict_keys (eb_subscribers b))
              in if names = [] then Inl (RuntimeError ''no retained subscriber'')
                 else if \<exists>(n, q) \<in> set (eb_subscribers b). q_full q
                 then Inl (RuntimeError ''capacity unavailable'')
                 else Inr (b\<lparr> eb_subscribers :=
                        map (\<lambda>(n, q). (n, the (q_put_nowait ev q))) (eb_subscribers b) \<rparr>,
                      \<lparr> er_event_digest = sha256 text, er_admitted_subscribers = length names,
                        er_subscriber_names = names, er_event_identity = event_identity,
                        er_payload_digest = payload_digest, er_authority = eb_authority b \<rparr>))))"

definition eb_validates :: "event_bus \<Rightarrow> event_receipt \<Rightarrow> string \<Rightarrow> string \<Rightarrow> bool" where
  "eb_validates b r event_identity payload_digest =
     (er_authority r = eb_authority b \<and> er_event_identity r = Some event_identity
      \<and> er_payload_digest r = Some payload_digest \<and> valid_digest (er_event_digest r)
      \<and> 0 < er_admitted_subscribers r
      \<and> er_admitted_subscribers r = length (er_subscriber_names r)
      \<and> er_subscriber_names r = sort (remdups (er_subscriber_names r)))"

definition eb_subscriber_count :: "event_bus \<Rightarrow> nat" where
  "eb_subscriber_count b = length (eb_subscribers b)"

section \<open>Properties\<close>

text \<open>The lossy path drops an event only for a subscriber whose queue is full, and keeps what is queued.\<close>

lemma publish_items:
  "map (\<lambda>(n, q). q_items q) (eb_subscribers (eb_publish ev b)) =
     map (\<lambda>(n, q). if q_full q then q_items q else q_items q @ [ev]) (eb_subscribers b)"
  by (simp add: eb_publish_def case_prod_beta aq.offer_items)

lemma required_cut:
  "\<forall>(n, q) \<in> set d. \<not> q_full q \<Longrightarrow>
     map (\<lambda>(n, q). (n, q_items q)) (map (\<lambda>(n, q). (n, the (q_put_nowait ev q))) d)
       = map (\<lambda>(n, q). (n, q_items q @ [ev])) d"
  by (auto simp: aq.put_the)

lemma sorted_keys_canonical:
  "dict_ok d \<Longrightarrow> sort (remdups (sort (dict_keys d))) = sort (dict_keys (d :: 'v dict))"
  by (simp add: dict_ok_def sort_key_id_if_sorted)

text \<open>
  A required publication is all or nothing. When it returns a receipt, every registered queue
  received the event at its end, nobody was skipped, there was at least one subscriber, the receipt
  counts them, and the issuing bus accepts it for the event's identity and payload digest (given
  that the digest function returns 64 lower-case hex characters); any other bus refuses it.
\<close>
theorem required_event_all_or_nothing:
  assumes sha: "\<And>text. valid_digest (sha256 text)"
    and ok: "dict_ok (eb_subscribers b)"
    and run: "eb_publish_required canonical sha256 ev (Some i) (Some d) b = Inr (b', receipt)"
  shows "map (\<lambda>(n, q). (n, q_items q)) (eb_subscribers b') =
           map (\<lambda>(n, q). (n, q_items q @ [ev])) (eb_subscribers b)
    \<and> 0 < eb_subscriber_count b \<and> er_admitted_subscribers receipt = eb_subscriber_count b
    \<and> (eb_validates c receipt i d \<longleftrightarrow> eb_authority c = eb_authority b)"
proof -
  from run have room: "\<forall>(n, q) \<in> set (eb_subscribers b). \<not> q_full q"
    and b': "b' = b\<lparr> eb_subscribers := map (\<lambda>(n, q). (n, the (q_put_nowait ev q))) (eb_subscribers b) \<rparr>"
    and r: "\<exists>text. receipt = \<lparr> er_event_digest = sha256 text, er_admitted_subscribers = length (eb_subscribers b),
        er_subscriber_names = sort (dict_keys (eb_subscribers b)), er_event_identity = Some i,
        er_payload_digest = Some d, er_authority = eb_authority b \<rparr>"
    and pos: "sort (dict_keys (eb_subscribers b)) \<noteq> []"
    by (auto simp: eb_publish_required_def Let_def split: if_splits option.splits)
  have "0 < length (eb_subscribers b)" using pos by (cases "eb_subscribers b") auto
  thus ?thesis
    using required_cut [OF room, of ev] r sha sorted_keys_canonical [OF ok]
    by (auto simp: b' eb_validates_def eb_subscriber_count_def)
qed

definition sample_event :: engine_event where
  "sample_event = \<lparr> ee_event_type = ''cycle'', ee_timestamp = 1,
     ee_payload = [(''cycle_identity'', PStr ''c1''), (''source_digest'', PStr (replicate 64 (CHR ''a'')))],
     ee_experiment_id = None \<rparr>"

definition sample_bus :: event_bus where
  "sample_bus = eb_subscribe ''z'' 2 (eb_subscribe ''log'' 5 (eb_init 7))"

lemma required_event_all_or_nothing_witness:
  "\<exists>b' receipt. eb_publish_required (\<lambda>_. Some ''{}'') (\<lambda>_. replicate 64 (CHR ''f'')) sample_event
        (Some ''c1'') (Some (replicate 64 (CHR ''a''))) sample_bus = Inr (b', receipt)
     \<and> eb_validates sample_bus receipt ''c1'' (replicate 64 (CHR ''a''))"
proof -
  let ?run = "eb_publish_required (\<lambda>_. Some ''{}'') (\<lambda>_. replicate 64 (CHR ''f'')) sample_event
        (Some ''c1'') (Some (replicate 64 (CHR ''a''))) sample_bus"
  have sha: "valid_digest (replicate 64 (CHR ''f''))" by (simp add: valid_digest_def hex_char_def list_all_iff)
  have ok: "dict_ok (eb_subscribers sample_bus)"
    by (simp add: sample_bus_def eb_subscribe_def eb_init_def dict_ok_def)
  have "\<exists>b' receipt. ?run = Inr (b', receipt)"
    by (simp add: eb_publish_required_def sample_event_def sample_bus_def eb_subscribe_def eb_init_def
        valid_identity_def identity_char_def valid_digest_def hex_char_def list_all_iff q_full_def Let_def)
  then obtain b' receipt where r: "?run = Inr (b', receipt)" by blast
  show ?thesis using r required_event_all_or_nothing [OF sha ok r, of sample_bus] by auto
qed

end
