(* ===== verification/DataBroker.thy ===== *)
theory DataBroker
  imports Queues
begin

text \<open>
  \<open>DataBroker\<close> of \<^verbatim>\<open>src/cryodaq/core/broker.py\<close>: publisher reservations, subscriptions with their
  overflow policies, \<open>publish\<close> and \<open>publish_batch\<close> with the provenance metadata, and the required
  publication protocol (claim, acknowledge, reject, withdrawal on timeout or cancellation, receipt).

  Object identities are numbers: a \<open>PublisherAuthority\<close> carries the number of its private capability
  object, the broker the number of its receipt authority, and a queued \<open>RequiredPublication\<close> is an
  index into the broker's list of envelopes, which the queue, the timer and the awaiting caller share.
\<close>

section \<open>Required publications\<close>

datatype publication_state = UNCLAIMED | CLAIMED | ACKNOWLEDGED | REJECTED | WITHDRAWN

datatype publication_failure = NotSettled | TimedOut | CallerCancelled

text \<open>The settlement future: pending, a result, or an exception.\<close>

datatype settlement = Pending | Settled | Failed publication_failure

record required_publication =
  rp_reading :: reading
  rp_request_id :: string
  rp_request_fingerprint :: string
  rp_settlement :: settlement
  rp_state :: publication_state

definition rp_new :: "reading \<Rightarrow> string \<Rightarrow> string \<Rightarrow> required_publication" where
  "rp_new r i f = \<lparr> rp_reading = r, rp_request_id = i, rp_request_fingerprint = f,
     rp_settlement = Pending, rp_state = UNCLAIMED \<rparr>"

definition rp_claim :: "required_publication \<Rightarrow> (reading \<times> required_publication) result" where
  "rp_claim p = (if rp_state p \<noteq> UNCLAIMED then Inl (RuntimeError ''no longer claimable'')
                 else Inr (rp_reading p, p\<lparr> rp_state := CLAIMED \<rparr>))"

definition rp_acknowledge :: "required_publication \<Rightarrow> required_publication result" where
  "rp_acknowledge p =
     (case rp_state p of
        UNCLAIMED \<Rightarrow> Inl (RuntimeError ''must be claimed before acknowledgement'')
      | CLAIMED \<Rightarrow>
          (if rp_settlement p \<noteq> Pending then Inl (RuntimeError ''settlement is no longer pending'')
           else Inr (p\<lparr> rp_settlement := Settled, rp_state := ACKNOWLEDGED \<rparr>))
      | ACKNOWLEDGED \<Rightarrow> Inr p
      | _ \<Rightarrow> Inl (RuntimeError ''no longer acknowledgeable''))"

definition rp_reject :: "required_publication \<Rightarrow> required_publication result" where
  "rp_reject p =
     (if rp_state p \<in> {UNCLAIMED, CLAIMED} then
        (if rp_settlement p \<noteq> Pending then Inl (RuntimeError ''settlement is no longer pending'')
         else Inr (p\<lparr> rp_settlement := Failed NotSettled, rp_state := REJECTED \<rparr>))
      else if rp_state p \<in> {REJECTED, WITHDRAWN} then Inr p
      else Inl (RuntimeError ''acknowledged required publication cannot be rejected''))"

definition rp_withdraw_if_unclaimed :: "publication_failure \<Rightarrow> required_publication \<Rightarrow>
    (bool \<times> required_publication) result" where
  "rp_withdraw_if_unclaimed failure p =
     (if rp_state p \<noteq> UNCLAIMED then Inr (False, p)
      else if rp_settlement p \<noteq> Pending then Inl (RuntimeError ''settlement is no longer pending'')
      else Inr (True, p\<lparr> rp_settlement := Failed failure, rp_state := WITHDRAWN \<rparr>))"

text \<open>
  What \<open>_await_required_publication\<close> ends with, for a settled future and whether the caller was
  cancelled while it waited: it returns, raises the failure, or raises the cancellation.
\<close>

datatype await_outcome = Returns | RaisesFailure publication_failure | RaisesCancelled | LostCancellation

definition await_settled :: "settlement \<Rightarrow> bool \<Rightarrow> await_outcome option" where
  "await_settled s cancelled =
     (case s of
        Pending \<Rightarrow> None
      | Settled \<Rightarrow> Some (if cancelled then RaisesCancelled else Returns)
      | Failed CallerCancelled \<Rightarrow> Some (if cancelled then RaisesCancelled else LostCancellation)
      | Failed f \<Rightarrow> Some (RaisesFailure f))"

text \<open>
  The events of one envelope's life: the publisher's calls, the expiry timer, and a cancellation of
  the awaiting caller before it resumes. An operation that raises leaves the envelope as it is.
\<close>

datatype publication_event = EvClaim | EvAcknowledge | EvReject | EvExpire | EvCancel

record publication_run =
  pr_envelope :: required_publication
  pr_cancelled :: bool

fun keep_on_error :: "'a \<Rightarrow> 'a result \<Rightarrow> 'a" where
  "keep_on_error d (Inl e) = d"
| "keep_on_error d (Inr x) = x"

definition publication_step :: "publication_event \<Rightarrow> publication_run \<Rightarrow> publication_run" where
  "publication_step ev s =
     (let p = pr_envelope s
      in case ev of
           EvClaim \<Rightarrow> s\<lparr> pr_envelope := snd (keep_on_error (rp_reading p, p) (rp_claim p)) \<rparr>
         | EvAcknowledge \<Rightarrow> s\<lparr> pr_envelope := keep_on_error p (rp_acknowledge p) \<rparr>
         | EvReject \<Rightarrow> s\<lparr> pr_envelope := keep_on_error p (rp_reject p) \<rparr>
         | EvExpire \<Rightarrow> s\<lparr> pr_envelope := snd (keep_on_error (False, p) (rp_withdraw_if_unclaimed TimedOut p)) \<rparr>
         | EvCancel \<Rightarrow>
             s\<lparr> pr_cancelled := True,
                pr_envelope := snd (keep_on_error (False, p) (rp_withdraw_if_unclaimed CallerCancelled p)) \<rparr>)"

definition publication_history :: "required_publication \<Rightarrow> publication_event list \<Rightarrow> publication_run" where
  "publication_history p evs =
     foldl (\<lambda>s ev. publication_step ev s) \<lparr> pr_envelope = p, pr_cancelled = False \<rparr> evs"

definition publication_outcome :: "publication_run \<Rightarrow> await_outcome option" where
  "publication_outcome s = await_settled (rp_settlement (pr_envelope s)) (pr_cancelled s)"

section \<open>Subscriptions and the broker\<close>

record publisher_authority =
  pa_name :: string
  pa_channels :: "string list"
  pa_identity :: nat

datatype overflow_policy = DROP_OLDEST | DROP_NEWEST

datatype broker_item =
    BareReading reading
  | Published reading "string option"
  | RequiredEnvelope nat

datatype filter_outcome = FilterAccept | FilterSkip | FilterRaise

record subscription =
  su_name :: string
  su_queue :: "broker_item aqueue"
  su_queue_identity :: nat
  su_policy :: overflow_policy
  su_filter_fn :: "(reading \<Rightarrow> filter_outcome) option"
  su_wants_descriptor_envelope :: bool
  su_required_publisher :: bool
  su_dropped :: nat

record data_broker =
  db_subscribers :: "subscription dict"
  db_total_published :: nat
  db_required_publisher_name :: "string option"
  db_required_authority :: nat
  db_reserved_publishers :: "publisher_authority dict"
  db_next_identity :: nat
  db_envelopes :: "required_publication list"

definition DEFAULT_QUEUE_SIZE :: int where "DEFAULT_QUEUE_SIZE = 10000"
definition REQUIRED_PUBLICATION_TIMEOUT_S :: real where "REQUIRED_PUBLICATION_TIMEOUT_S = 5"
definition MAX_PERSISTED_ENVELOPE_BYTES :: nat where "MAX_PERSISTED_ENVELOPE_BYTES = 8192"

abbreviation PERSISTENCE_AUTHORITATIVE_METADATA_KEY :: string where
  "PERSISTENCE_AUTHORITATIVE_METADATA_KEY \<equiv> ''_cryodaq_persistence_authoritative''"
abbreviation PUBLISHER_AUTHORITY_METADATA_KEY :: string where
  "PUBLISHER_AUTHORITY_METADATA_KEY \<equiv> ''_cryodaq_publisher_authority''"

definition data_broker_init :: "nat \<Rightarrow> data_broker" where
  "data_broker_init authority = \<lparr> db_subscribers = [], db_total_published = 0,
     db_required_publisher_name = None, db_required_authority = authority,
     db_reserved_publishers = [], db_next_identity = 0, db_envelopes = [] \<rparr>"

text \<open>Exact non-empty text: equal to its own \<open>strip()\<close>.\<close>

definition exact_text :: "string \<Rightarrow> bool" where
  "exact_text s = (s \<noteq> [] \<and> py_strip s = s)"

definition reserve_publisher :: "string \<Rightarrow> string list \<Rightarrow> data_broker \<Rightarrow>
    (publisher_authority \<times> data_broker) result" where
  "reserve_publisher name channels b =
     (if \<not> exact_text name then Inl (ValueError ''authority name must be exact non-empty text'')
      else if channels = [] \<or> \<not> list_all exact_text channels \<or> \<not> distinct channels
      then Inl (ValueError ''authority channels must be unique exact non-empty text'')
      else if \<exists>c \<in> set channels. dict_get (db_reserved_publishers b) c \<noteq> None
      then Inl (RuntimeError ''channels are already reserved'')
      else
        (let authority = \<lparr> pa_name = name, pa_channels = channels, pa_identity = db_next_identity b \<rparr>
         in Inr (authority,
              b\<lparr> db_next_identity := db_next_identity b + 1,
                 db_reserved_publishers :=
                   foldl (\<lambda>d c. dict_set c authority d) (db_reserved_publishers b) channels \<rparr>)))"

definition db_subscribe :: "string \<Rightarrow> int \<Rightarrow> overflow_policy \<Rightarrow> (reading \<Rightarrow> filter_outcome) option \<Rightarrow>
    bool \<Rightarrow> bool \<Rightarrow> data_broker \<Rightarrow> data_broker result" where
  "db_subscribe name maxsize policy filter_fn wants_envelope required b =
     (if maxsize \<le> 0 then Inl (ValueError ''maxsize must be > 0'')
      else if dict_get (db_subscribers b) name \<noteq> None then Inl (ValueError ''already registered'')
      else if required \<and> db_required_publisher_name b \<noteq> None
      then Inl (RuntimeError ''required publisher is already registered'')
      else Inr (b\<lparr> db_subscribers := dict_set name
               \<lparr> su_name = name, su_queue = q_new maxsize, su_queue_identity = db_next_identity b,
                 su_policy = policy, su_filter_fn = filter_fn,
                 su_wants_descriptor_envelope = wants_envelope, su_required_publisher = required,
                 su_dropped = 0 \<rparr> (db_subscribers b),
             db_next_identity := db_next_identity b + 1,
             db_required_publisher_name := (if required then Some name else db_required_publisher_name b) \<rparr>))"

text \<open>
  Draining the queue of a removed required publisher: every queued envelope is rejected. A
  \<open>reject\<close> that raises ends the loop with the item already taken from the queue.
\<close>

fun drain_required :: "broker_item list \<Rightarrow> required_publication list \<Rightarrow>
    py_exn option \<times> broker_item list \<times> required_publication list" where
  "drain_required [] envs = (None, [], envs)"
| "drain_required (RequiredEnvelope i # items) envs =
     (case rp_reject (envs ! i) of
        Inl e \<Rightarrow> (Some e, items, envs)
      | Inr p \<Rightarrow> drain_required items (envs[i := p]))"
| "drain_required (BareReading r # items) envs = drain_required items envs"
| "drain_required (Published r d # items) envs = drain_required items envs"

text \<open>
  The removed subscription's queue stays with its consumer, so what is drained from it is part of
  the result. The raised exception, if any, comes with the broker the operation leaves.
\<close>

definition db_unsubscribe :: "string \<Rightarrow> nat option \<Rightarrow> data_broker \<Rightarrow> bool result \<times> data_broker" where
  "db_unsubscribe name expected_queue b =
     (case dict_get (db_subscribers b) name of
        None \<Rightarrow> (Inr False, b)
      | Some sub \<Rightarrow>
          (if expected_queue \<noteq> None \<and> expected_queue \<noteq> Some (su_queue_identity sub) then (Inr False, b)
           else
             (let b1 = b\<lparr> db_subscribers := dict_del name (db_subscribers b) \<rparr>
              in if su_required_publisher sub \<and> db_required_publisher_name b = Some name then
                   (case drain_required (q_items (su_queue sub)) (db_envelopes b) of
                      (exn, _, envs) \<Rightarrow>
                        (case exn of None \<Rightarrow> Inr True | Some e \<Rightarrow> Inl e,
                         b1\<lparr> db_required_publisher_name := None, db_envelopes := envs \<rparr>))
                 else (Inr True, b1))))"

section \<open>Publishing\<close>

definition put_item :: "broker_item \<Rightarrow> subscription \<Rightarrow> subscription" where
  "put_item item sub =
     (case q_put_nowait item (su_queue sub) of
        None \<Rightarrow> sub\<lparr> su_dropped := su_dropped sub + 1 \<rparr>
      | Some q \<Rightarrow> sub\<lparr> su_queue := q \<rparr>)"

definition drop_oldest :: "subscription \<Rightarrow> subscription" where
  "drop_oldest sub =
     (case q_get_nowait (su_queue sub) of
        None \<Rightarrow> sub\<lparr> su_dropped := su_dropped sub + 1 \<rparr>
      | Some (_, q) \<Rightarrow> sub\<lparr> su_queue := q, su_dropped := su_dropped sub + 1 \<rparr>)"

definition db_deliver :: "reading \<Rightarrow> string option \<Rightarrow> subscription \<Rightarrow> subscription" where
  "db_deliver r envelope sub =
     (case (case su_filter_fn sub of None \<Rightarrow> FilterAccept | Some f \<Rightarrow> f r) of
        FilterSkip \<Rightarrow> sub
      | FilterRaise \<Rightarrow> sub
      | FilterAccept \<Rightarrow>
          (let item = (if su_wants_descriptor_envelope sub then Published r envelope else BareReading r)
           in if q_full (su_queue sub) then
                (if su_required_publisher sub then sub\<lparr> su_dropped := su_dropped sub + 1 \<rparr>
                 else
                   (case su_policy sub of
                      DROP_OLDEST \<Rightarrow> put_item item (drop_oldest sub)
                    | DROP_NEWEST \<Rightarrow> sub\<lparr> su_dropped := su_dropped sub + 1 \<rparr>))
              else put_item item sub))"

definition published_metadata :: "data_broker \<Rightarrow> reading \<Rightarrow> bool \<Rightarrow> publisher_authority option \<Rightarrow>
    (pyval dict) result" where
  "published_metadata b r persistence_authoritative authority =
     (let m0 = dict_del PUBLISHER_AUTHORITY_METADATA_KEY
                 (dict_del PERSISTENCE_AUTHORITATIVE_METADATA_KEY (r_metadata r));
          finish = (\<lambda>m. if persistence_authoritative
                        then dict_set PERSISTENCE_AUTHORITATIVE_METADATA_KEY (PBool True) m else m)
      in case dict_get (db_reserved_publishers b) (r_channel r) of
           Some reserved \<Rightarrow>
             (if map_option pa_identity authority \<noteq> Some (pa_identity reserved)
              then Inl (RuntimeError ''channel requires its reserved publisher authority'')
              else Inr (finish (dict_set PUBLISHER_AUTHORITY_METADATA_KEY (PStr (pa_name reserved)) m0)))
         | None \<Rightarrow>
             (if authority \<noteq> None
              then Inl (RuntimeError ''publisher authority cannot mark an unreserved channel'')
              else Inr (finish m0)))"

definition db_publish :: "reading \<Rightarrow> bool \<Rightarrow> string option \<Rightarrow> publisher_authority option \<Rightarrow> data_broker \<Rightarrow>
    data_broker result" where
  "db_publish r persistence_authoritative envelope authority b =
     (let envelope' = (case envelope of None \<Rightarrow> None
                       | Some e \<Rightarrow> if MAX_PERSISTED_ENVELOPE_BYTES < length e then None else Some e)
      in res_bind (published_metadata b r persistence_authoritative authority)
           (\<lambda>metadata.
              Inr (b\<lparr> db_total_published := db_total_published b + 1,
                      db_subscribers :=
                        map (\<lambda>(n, s). (n, db_deliver (r\<lparr> r_metadata := metadata \<rparr>) envelope' s))
                            (db_subscribers b) \<rparr>)))"

text \<open>A failing element ends the batch; what was delivered before it stays delivered.\<close>

fun db_publish_each :: "(reading \<times> string option) list \<Rightarrow> bool \<Rightarrow> data_broker \<Rightarrow> py_exn option \<times> data_broker" where
  "db_publish_each [] auth b = (None, b)"
| "db_publish_each ((r, env) # rest) auth b =
     (case db_publish r auth env None b of
        Inl e \<Rightarrow> (Some e, b)
      | Inr b' \<Rightarrow> db_publish_each rest auth b')"

definition db_publish_batch :: "reading list \<Rightarrow> bool \<Rightarrow> string option list option \<Rightarrow> data_broker \<Rightarrow>
    py_exn option \<times> data_broker" where
  "db_publish_batch readings auth envelopes b =
     (case envelopes of
        None \<Rightarrow> db_publish_each (zip readings (replicate (length readings) None)) auth b
      | Some envs \<Rightarrow>
          (if length envs \<noteq> length readings
           then (Some (ValueError ''descriptor_envelopes length disagrees with readings length''), b)
           else db_publish_each (zip readings envs) auth b))"

definition hex_text :: "nat \<Rightarrow> string \<Rightarrow> bool" where
  "hex_text n s = (length s = n \<and> list_all (\<lambda>c. c \<in> set ''0123456789abcdef'') s)"

text \<open>The admission of a required publication: the queued envelope's index, or the refusal.\<close>

definition db_admit_required :: "reading \<Rightarrow> string \<Rightarrow> string \<Rightarrow> data_broker \<Rightarrow> (nat \<times> data_broker) result" where
  "db_admit_required r request_id fingerprint b =
     (if \<not> hex_text 32 request_id then Inl (ValueError ''request_id is invalid'')
      else if \<not> hex_text 64 fingerprint then Inl (ValueError ''fingerprint is invalid'')
      else
        (case db_required_publisher_name b of
           None \<Rightarrow> Inl (RuntimeError ''required publisher is unavailable'')
         | Some name \<Rightarrow>
             (case dict_get (db_subscribers b) name of
                None \<Rightarrow> Inl (RuntimeError ''required publisher is unavailable'')
              | Some sub \<Rightarrow>
                  (if \<not> su_required_publisher sub then Inl (RuntimeError ''required publisher is unavailable'')
                   else
                     (case q_put_nowait (RequiredEnvelope (length (db_envelopes b))) (su_queue sub) of
                        None \<Rightarrow> Inl (RuntimeError ''required publisher queue is full'')
                      | Some q \<Rightarrow>
                          Inr (length (db_envelopes b),
                               b\<lparr> db_envelopes := db_envelopes b @ [rp_new r request_id fingerprint],
                                  db_subscribers := dict_set name (sub\<lparr> su_queue := q \<rparr>) (db_subscribers b) \<rparr>))))))"

record publication_receipt =
  pc_request_id :: string
  pc_request_fingerprint :: string
  pc_authority :: nat

text \<open>\<open>publish_required\<close>: admission, then the envelope's life until it settles, then the receipt.\<close>

definition publish_required :: "reading \<Rightarrow> string \<Rightarrow> string \<Rightarrow> publication_event list \<Rightarrow> data_broker \<Rightarrow>
    (publication_receipt option \<times> await_outcome option) result" where
  "publish_required r request_id fingerprint history b =
     res_bind (db_admit_required r request_id fingerprint b)
       (\<lambda>(i, b'). let outcome = publication_outcome (publication_history (db_envelopes b' ! i) history)
                  in Inr (if outcome = Some Returns
                          then Some \<lparr> pc_request_id = request_id, pc_request_fingerprint = fingerprint,
                                      pc_authority = db_required_authority b \<rparr>
                          else None, outcome))"

definition db_validates :: "data_broker \<Rightarrow> publication_receipt \<Rightarrow> string \<Rightarrow> string \<Rightarrow> bool" where
  "db_validates b receipt request_id fingerprint =
     (pc_authority receipt = db_required_authority b \<and> pc_request_id receipt = request_id
      \<and> pc_request_fingerprint receipt = fingerprint)"

definition db_stats :: "data_broker \<Rightarrow> (string \<times> nat \<times> nat) list \<times> nat" where
  "db_stats b = (map (\<lambda>(n, s). (n, length (q_items (su_queue s)), su_dropped s)) (db_subscribers b),
                 db_total_published b)"

section \<open>The life of a required publication\<close>

lemmas rp_defs = rp_claim_def rp_acknowledge_def rp_reject_def rp_withdraw_if_unclaimed_def

definition run_from :: "publication_run \<Rightarrow> publication_event list \<Rightarrow> publication_run" where
  "run_from s evs = foldl (\<lambda>s ev. publication_step ev s) s evs"

lemma run_from_simps [simp]:
  "run_from s [] = s"
  "run_from s (ev # evs) = run_from (publication_step ev s) evs"
  by (simp_all add: run_from_def)

lemma run_cancelled: "pr_cancelled (run_from s evs) \<longleftrightarrow> pr_cancelled s \<or> EvCancel \<in> set evs"
  by (induction evs arbitrary: s) (auto simp: publication_step_def Let_def split: publication_event.splits)

abbreviation env_state :: "publication_run \<Rightarrow> publication_state" where
  "env_state s \<equiv> rp_state (pr_envelope s)"
abbreviation env_settlement :: "publication_run \<Rightarrow> settlement" where
  "env_settlement s \<equiv> rp_settlement (pr_envelope s)"

text \<open>The future is settled exactly in the final states, with the matching outcome.\<close>

definition envelope_ok :: "publication_run \<Rightarrow> bool" where
  "envelope_ok s =
     (case env_state s of
        UNCLAIMED \<Rightarrow> env_settlement s = Pending
      | CLAIMED \<Rightarrow> env_settlement s = Pending
      | ACKNOWLEDGED \<Rightarrow> env_settlement s = Settled
      | REJECTED \<Rightarrow> env_settlement s = Failed NotSettled
      | WITHDRAWN \<Rightarrow> env_settlement s = Failed TimedOut
                     \<or> env_settlement s = Failed CallerCancelled \<and> pr_cancelled s)"

lemma step_ok [inv_intros]: "envelope_ok s \<Longrightarrow> envelope_ok (publication_step ev s)"
  by (cases "env_state s"; cases ev)
     (auto simp: envelope_ok_def publication_step_def rp_defs Let_def)

lemma run_ok [inv_intros]: "envelope_ok s \<Longrightarrow> envelope_ok (run_from s evs)"
  by (induction evs arbitrary: s) (auto intro: inv_intros)

definition final_state :: "publication_state \<Rightarrow> bool" where
  "final_state st = (st \<in> {ACKNOWLEDGED, REJECTED, WITHDRAWN})"

lemma final_stays: "final_state (env_state s) \<Longrightarrow> env_state (run_from s evs) = env_state s"
proof (induction evs arbitrary: s)
  case (Cons ev evs)
  have "env_state (publication_step ev s) = env_state s"
    using Cons.prems by (cases ev) (auto simp: final_state_def publication_step_def rp_defs Let_def)
  thus ?case using Cons by simp
qed simp

text \<open>What the events must contain for the envelope to end acknowledged.\<close>

fun acked_claimed :: "publication_event list \<Rightarrow> bool" where
  "acked_claimed [] = False"
| "acked_claimed (ev # evs) = (ev = EvAcknowledge \<or> ev \<noteq> EvReject \<and> acked_claimed evs)"

fun acked_unclaimed :: "publication_event list \<Rightarrow> bool" where
  "acked_unclaimed [] = False"
| "acked_unclaimed (ev # evs) =
     (ev = EvClaim \<and> acked_claimed evs \<or> ev = EvAcknowledge \<and> acked_unclaimed evs)"

lemma acked_claimed_iff:
  "acked_claimed evs \<longleftrightarrow> (\<exists>ys zs. evs = ys @ EvAcknowledge # zs \<and> EvReject \<notin> set ys)"
proof (induction evs)
  case (Cons ev evs)
  show ?case
  proof
    assume "acked_claimed (ev # evs)"
    thus "\<exists>ys zs. ev # evs = ys @ EvAcknowledge # zs \<and> EvReject \<notin> set ys"
      using Cons by (auto intro: exI [of _ "[]"] exI [of _ "ev # _"]) (metis append_Cons set_ConsD)
  next
    assume "\<exists>ys zs. ev # evs = ys @ EvAcknowledge # zs \<and> EvReject \<notin> set ys"
    thus "acked_claimed (ev # evs)" using Cons by (auto simp: Cons_eq_append_conv)
  qed
qed simp

lemma acked_unclaimed_iff:
  "acked_unclaimed evs \<longleftrightarrow>
     (\<exists>xs rest. evs = xs @ EvClaim # rest \<and> set xs \<subseteq> {EvAcknowledge} \<and> acked_claimed rest)"
proof (induction evs)
  case (Cons ev evs)
  show ?case
  proof
    assume "acked_unclaimed (ev # evs)"
    then consider "ev = EvClaim" "acked_claimed evs" | "ev = EvAcknowledge" "acked_unclaimed evs" by auto
    thus "\<exists>xs rest. ev # evs = xs @ EvClaim # rest \<and> set xs \<subseteq> {EvAcknowledge} \<and> acked_claimed rest"
    proof cases
      case 1
      thus ?thesis by (intro exI [of _ "[]"] exI [of _ evs]) auto
    next
      case 2
      then obtain xs rest where "evs = xs @ EvClaim # rest" "set xs \<subseteq> {EvAcknowledge}" "acked_claimed rest"
        using Cons by blast
      thus ?thesis using 2 by (intro exI [of _ "ev # xs"] exI [of _ rest]) auto
    qed
  next
    assume "\<exists>xs rest. ev # evs = xs @ EvClaim # rest \<and> set xs \<subseteq> {EvAcknowledge} \<and> acked_claimed rest"
    thus "acked_unclaimed (ev # evs)" using Cons by (auto simp: Cons_eq_append_conv)
  qed
qed simp

lemma claimed_run:
  "envelope_ok s \<Longrightarrow> env_state s = CLAIMED \<Longrightarrow> env_state (run_from s evs) = ACKNOWLEDGED \<longleftrightarrow> acked_claimed evs"
proof (induction evs arbitrary: s)
  case (Cons ev evs)
  have p: "env_settlement s = Pending" using Cons.prems by (simp add: envelope_ok_def)
  show ?case
    using Cons step_ok [OF Cons.prems(1), of ev] p
      final_stays [of "publication_step ev s" evs]
    by (cases ev) (auto simp: publication_step_def rp_defs Let_def final_state_def)
qed simp

lemma unclaimed_run:
  "envelope_ok s \<Longrightarrow> env_state s = UNCLAIMED \<Longrightarrow> env_state (run_from s evs) = ACKNOWLEDGED \<longleftrightarrow> acked_unclaimed evs"
proof (induction evs arbitrary: s)
  case (Cons ev evs)
  have p: "env_settlement s = Pending" using Cons.prems by (simp add: envelope_ok_def)
  show ?case
    using Cons step_ok [OF Cons.prems(1), of ev] p claimed_run [of "publication_step ev s" evs]
      final_stays [of "publication_step ev s" evs]
    by (cases ev) (auto simp: publication_step_def rp_defs Let_def final_state_def)
qed simp

lemma acknowledged_iff_settled: "envelope_ok s \<Longrightarrow> env_settlement s = Settled \<longleftrightarrow> env_state s = ACKNOWLEDGED"
  by (cases "env_state s") (auto simp: envelope_ok_def)

lemma fresh_ok: "envelope_ok \<lparr> pr_envelope = rp_new r i f, pr_cancelled = False \<rparr>"
  by (simp add: envelope_ok_def rp_new_def)

lemma history_run: "publication_history p evs = run_from \<lparr> pr_envelope = p, pr_cancelled = False \<rparr> evs"
  by (simp add: publication_history_def run_from_def)

text \<open>
  A required publication returns a receipt exactly when the publisher claimed the envelope while
  it was still offered (no expiry, rejection or caller cancellation came first), then acknowledged
  it before any rejection, and the caller was not cancelled. A withdrawal never loses the caller's
  cancellation.
\<close>
theorem required_receipt_iff_acknowledged:
  assumes "db_admit_required r request_id fingerprint b = Inr (i, b')"
  shows "publish_required r request_id fingerprint history b =
           Inr (if EvCancel \<notin> set history
                   \<and> (\<exists>xs ys zs. history = xs @ EvClaim # ys @ EvAcknowledge # zs
                        \<and> set xs \<subseteq> {EvAcknowledge} \<and> EvReject \<notin> set ys)
                then Some \<lparr> pc_request_id = request_id, pc_request_fingerprint = fingerprint,
                            pc_authority = db_required_authority b \<rparr>
                else None,
                publication_outcome (publication_history (rp_new r request_id fingerprint) history))
    \<and> publication_outcome (publication_history (rp_new r request_id fingerprint) history) \<noteq> Some LostCancellation"
proof -
  have env: "db_envelopes b' ! i = rp_new r request_id fingerprint"
    using assms by (auto simp: db_admit_required_def split: if_splits option.splits)
  let ?s0 = "\<lparr> pr_envelope = rp_new r request_id fingerprint, pr_cancelled = False \<rparr>"
  let ?s = "run_from ?s0 history"
  have ok: "envelope_ok ?s" by (intro run_ok fresh_ok)
  have acked: "env_state ?s = ACKNOWLEDGED \<longleftrightarrow> acked_unclaimed history"
    by (rule unclaimed_run [OF fresh_ok]) (simp add: rp_new_def)
  have shape: "acked_unclaimed history \<longleftrightarrow>
      (\<exists>xs ys zs. history = xs @ EvClaim # ys @ EvAcknowledge # zs
        \<and> set xs \<subseteq> {EvAcknowledge} \<and> EvReject \<notin> set ys)"
    unfolding acked_unclaimed_iff acked_claimed_iff by blast
  have outcome: "publication_outcome ?s = Some Returns \<longleftrightarrow> env_settlement ?s = Settled \<and> \<not> pr_cancelled ?s"
    by (auto simp: publication_outcome_def await_settled_def split: settlement.splits publication_failure.splits)
  have "publication_outcome ?s \<noteq> Some LostCancellation"
    using ok by (auto simp: publication_outcome_def await_settled_def envelope_ok_def
        split: settlement.splits publication_failure.splits publication_state.splits if_splits)
  thus ?thesis
    unfolding publish_required_def assms res_bind.simps prod.case env history_run Let_def outcome
      acknowledged_iff_settled [OF ok] acked shape run_cancelled
    by (auto simp: history_run)
qed

definition retained_publisher :: data_broker where
  "retained_publisher = keep_on_error (data_broker_init 3)
     (db_subscribe ''zmq'' 1 DROP_OLDEST None False True (data_broker_init 3))"

definition sample_reading :: reading where
  "sample_reading = \<lparr> r_timestamp = 1, r_instrument_id = ''LS1'', r_channel = ''T1'', r_value = Fin 4,
     r_unit = ''K'', r_status = OK, r_metadata = [(PERSISTENCE_AUTHORITATIVE_METADATA_KEY, PBool True)] \<rparr>"

lemma required_receipt_iff_acknowledged_witness:
  "\<exists>outcome. publish_required sample_reading (replicate 32 (CHR ''a'')) (replicate 64 (CHR ''b''))
      [EvClaim, EvExpire, EvAcknowledge] retained_publisher
    = Inr (Some \<lparr> pc_request_id = replicate 32 (CHR ''a''), pc_request_fingerprint = replicate 64 (CHR ''b''),
                  pc_authority = 3 \<rparr>, outcome)"
proof -
  have "\<exists>i b'. db_admit_required sample_reading (replicate 32 (CHR ''a'')) (replicate 64 (CHR ''b''))
      retained_publisher = Inr (i, b')"
    by (simp add: db_admit_required_def retained_publisher_def db_subscribe_def data_broker_init_def
        hex_text_def list_all_iff q_put_nowait_def q_full_def)
  then obtain i b' where h: "db_admit_required sample_reading (replicate 32 (CHR ''a''))
      (replicate 64 (CHR ''b'')) retained_publisher = Inr (i, b')" by blast
  have shape: "\<exists>xs ys zs. [EvClaim, EvExpire, EvAcknowledge] = xs @ EvClaim # ys @ EvAcknowledge # zs
      \<and> set xs \<subseteq> {EvAcknowledge} \<and> EvReject \<notin> set ys"
    by (rule exI [of _ "[]"], rule exI [of _ "[EvExpire]"], rule exI [of _ "[]"]) simp
  show ?thesis
    using required_receipt_iff_acknowledged [OF h, of "[EvClaim, EvExpire, EvAcknowledge]"] shape
    by (simp add: retained_publisher_def db_subscribe_def data_broker_init_def)
qed

section \<open>Delivery and provenance\<close>

definition required_items :: "broker_item aqueue \<Rightarrow> broker_item list" where
  "required_items q = filter (\<lambda>x. case x of RequiredEnvelope _ \<Rightarrow> True | _ \<Rightarrow> False) (q_items q)"

definition accepts :: "subscription \<Rightarrow> reading \<Rightarrow> bool" where
  "accepts sub r = (case su_filter_fn sub of None \<Rightarrow> True | Some f \<Rightarrow> f r = FilterAccept)"

definition delivered_item :: "subscription \<Rightarrow> reading \<Rightarrow> string option \<Rightarrow> broker_item" where
  "delivered_item sub r env = (if su_wants_descriptor_envelope sub then Published r env else BareReading r)"

lemma deliver_skip: "\<not> accepts sub r \<Longrightarrow> db_deliver r env sub = sub"
  by (simp add: db_deliver_def accepts_def split: option.splits filter_outcome.splits)

lemma accepted_filter:
  "accepts sub r \<Longrightarrow> (case su_filter_fn sub of None \<Rightarrow> FilterAccept | Some f \<Rightarrow> f r) = FilterAccept"
  by (simp add: accepts_def split: option.splits)

lemma deliver_room:
  "accepts sub r \<Longrightarrow> \<not> q_full (su_queue sub) \<Longrightarrow> db_deliver r env sub =
     sub\<lparr> su_queue := su_queue sub\<lparr> q_items := q_items (su_queue sub) @ [delivered_item sub r env] \<rparr> \<rparr>"
  by (simp add: db_deliver_def accepted_filter put_item_def q_put_nowait_def delivered_item_def)

lemma deliver_drop:
  "accepts sub r \<Longrightarrow> q_full (su_queue sub) \<Longrightarrow> su_required_publisher sub \<or> su_policy sub = DROP_NEWEST \<Longrightarrow>
     db_deliver r env sub = sub\<lparr> su_dropped := Suc (su_dropped sub) \<rparr>"
  by (auto simp: db_deliver_def accepted_filter)

lemma drop_oldest_full:
  assumes "q_full (su_queue sub)"
  shows "drop_oldest sub = sub\<lparr> su_dropped := Suc (su_dropped sub),
           su_queue := su_queue sub\<lparr> q_items := tl (q_items (su_queue sub)) \<rparr> \<rparr>"
  using q_full_nonempty [OF assms]
  by (cases "q_items (su_queue sub)") (simp_all add: drop_oldest_def q_get_nowait_def)

lemma deliver_oldest:
  assumes "accepts sub r" "q_full (su_queue sub)" "\<not> su_required_publisher sub"
    and "su_policy sub = DROP_OLDEST" "q_ok (su_queue sub)"
  shows "db_deliver r env sub =
     sub\<lparr> su_dropped := Suc (su_dropped sub),
          su_queue := su_queue sub\<lparr> q_items := tl (q_items (su_queue sub)) @ [delivered_item sub r env] \<rparr> \<rparr>"
proof -
  have "\<not> q_full (su_queue (drop_oldest sub))"
    using assms(2,5) q_full_nonempty [OF assms(2)]
    by (cases "q_items (su_queue sub)") (simp_all add: drop_oldest_full q_full_def q_ok_def)
  thus ?thesis
    using assms by (simp add: db_deliver_def accepted_filter put_item_def q_put_nowait_def
        delivered_item_def drop_oldest_full)
qed

text \<open>
  Fan-out to one subscriber is bounded and accounted for. The queue never exceeds its capacity;
  a reading its filter does not accept (or that makes the filter raise) changes nothing; an accepted
  one is either added to the queue or counted: queued plus dropped grows by exactly one. A required
  publisher's queue never loses a queued envelope to ordinary telemetry, and under the drop-oldest
  policy the newest reading always gets in.
\<close>
theorem delivery_accounted:
  assumes "0 < q_maxsize (su_queue sub)" "q_ok (su_queue sub)"
  shows "case db_deliver r env sub of sub' \<Rightarrow>
     q_ok (su_queue sub') \<and> q_maxsize (su_queue sub') = q_maxsize (su_queue sub)
     \<and> (if accepts sub r
         then length (q_items (su_queue sub')) + su_dropped sub'
                = Suc (length (q_items (su_queue sub)) + su_dropped sub)
         else sub' = sub)
     \<and> (su_required_publisher sub \<longrightarrow> required_items (su_queue sub') = required_items (su_queue sub))
     \<and> (accepts sub r \<and> \<not> su_required_publisher sub \<and> su_policy sub = DROP_OLDEST \<longrightarrow>
          last (q_items (su_queue sub'))
            = (if su_wants_descriptor_envelope sub then Published r env else BareReading r))"
proof -
  have full_len: "q_full (su_queue sub) \<Longrightarrow> 0 < length (q_items (su_queue sub))
      \<and> int (length (q_items (su_queue sub))) = q_maxsize (su_queue sub)"
    using assms by (auto simp: q_full_def q_ok_def)
  consider "\<not> accepts sub r" | "accepts sub r" "\<not> q_full (su_queue sub)"
    | "accepts sub r" "q_full (su_queue sub)" "su_required_publisher sub \<or> su_policy sub = DROP_NEWEST"
    | "accepts sub r" "q_full (su_queue sub)" "\<not> su_required_publisher sub" "su_policy sub = DROP_OLDEST"
    using overflow_policy.exhaust by blast
  thus ?thesis
  proof cases
    case 1
    thus ?thesis using assms by (simp add: deliver_skip)
  next
    case 2
    thus ?thesis
      using assms by (simp add: deliver_room delivered_item_def required_items_def q_ok_def q_full_def)
  next
    case 3
    thus ?thesis using assms by (auto simp: deliver_drop)
  next
    case 4
    thus ?thesis
      using assms full_len
      by (simp add: deliver_oldest delivered_item_def q_ok_def)
  qed
qed

definition crowded_subscription :: subscription where
  "crowded_subscription = \<lparr> su_name = ''a'', su_queue = \<lparr> q_items = [RequiredEnvelope 0], q_maxsize = 1 \<rparr>,
     su_queue_identity = 0, su_policy = DROP_OLDEST, su_filter_fn = None,
     su_wants_descriptor_envelope = False, su_required_publisher = True, su_dropped = 4 \<rparr>"

lemma delivery_accounted_witness:
  "required_items (su_queue (db_deliver sample_reading None crowded_subscription)) = [RequiredEnvelope 0]"
proof -
  have room: "0 < q_maxsize (su_queue crowded_subscription)" and ok: "q_ok (su_queue crowded_subscription)"
    by (simp_all add: crowded_subscription_def q_ok_def)
  have "su_required_publisher crowded_subscription"
    and "required_items (su_queue crowded_subscription) = [RequiredEnvelope 0]"
    by (simp_all add: crowded_subscription_def required_items_def)
  thus ?thesis using delivery_accounted [OF room ok, of sample_reading None] by metis
qed

text \<open>
  Provenance marks cannot be forged through reading metadata. Whatever the caller put under the
  two reserved keys, a published reading carries the persistence mark exactly when the publishing
  call asserted it, and the publisher mark exactly when its channel is reserved, with the name of
  the reserving authority; then the caller presented that very authority. All other metadata is
  delivered as given.
\<close>
theorem provenance_not_forged:
  assumes "published_metadata b r auth authority = Inr m"
  shows "dict_get m PERSISTENCE_AUTHORITATIVE_METADATA_KEY = (if auth then Some (PBool True) else None)
    \<and> dict_get m PUBLISHER_AUTHORITY_METADATA_KEY
        = map_option (\<lambda>a. PStr (pa_name a)) (dict_get (db_reserved_publishers b) (r_channel r))
    \<and> map_option pa_identity authority = map_option pa_identity (dict_get (db_reserved_publishers b) (r_channel r))
    \<and> (\<forall>k. k \<noteq> PERSISTENCE_AUTHORITATIVE_METADATA_KEY \<longrightarrow> k \<noteq> PUBLISHER_AUTHORITY_METADATA_KEY \<longrightarrow>
          dict_get m k = dict_get (r_metadata r) k)"
  using assms unfolding published_metadata_def Let_def
  by (auto simp: dict_get_set dict_get_del split: option.splits if_splits)

lemma provenance_not_forged_witness:
  "\<exists>m. published_metadata retained_publisher sample_reading False None = Inr m
     \<and> dict_get m PERSISTENCE_AUTHORITATIVE_METADATA_KEY = None"
proof -
  have "\<exists>m. published_metadata retained_publisher sample_reading False None = Inr m"
    by (simp add: published_metadata_def retained_publisher_def db_subscribe_def data_broker_init_def Let_def)
  then obtain m where m: "published_metadata retained_publisher sample_reading False None = Inr m" by blast
  show ?thesis using m provenance_not_forged [OF m] by simp
qed

end
