(* ===== verification/SourceOff.thy ===== *)
theory SourceOff
  imports Readings
begin

text \<open>
  The typed source-OFF evidence of \<^verbatim>\<open>src/cryodaq/drivers/contracts.py\<close>, and the attributes of the
  reviewed source driver that \<^verbatim>\<open>src/cryodaq/core/safety_manager.py\<close> reads synchronously. The driver
  itself is not modelled: its commands have outcomes that the operations of the safety manager
  receive, and its attributes may change whenever the manager waits.
\<close>

section \<open>OFF evidence\<close>

datatype source_off_result = PHYSICAL_STATE_UNKNOWN | COMMAND_ACCEPTED | DEVICE_REPORTED_OFF
datatype source_off_tier = COMMAND_ONLY | VERIFIED_OFF

definition off_result_satisfies_tier :: "source_off_tier \<Rightarrow> source_off_result \<Rightarrow> bool" where
  "off_result_satisfies_tier tier result =
     ((tier = VERIFIED_OFF \<and> result = DEVICE_REPORTED_OFF)
      \<or> (tier = COMMAND_ONLY \<and> result = COMMAND_ACCEPTED))"

definition physical_off_verified :: "source_off_tier \<Rightarrow> source_off_result \<Rightarrow> bool" where
  "physical_off_verified tier result = (tier = VERIFIED_OFF \<and> result = DEVICE_REPORTED_OFF)"

record off_evidence =
  oe_tier :: source_off_tier
  oe_smua :: source_off_result
  oe_smub :: source_off_result

definition from_global_result :: "source_off_tier \<Rightarrow> source_off_result \<Rightarrow> off_evidence" where
  "from_global_result tier result = \<lparr> oe_tier = tier, oe_smua = result, oe_smub = result \<rparr>"

definition oe_result :: "off_evidence \<Rightarrow> smu_channel \<Rightarrow> source_off_result" where
  "oe_result e c = (case c of smua \<Rightarrow> oe_smua e | smub \<Rightarrow> oe_smub e)"

definition satisfies_tier :: "off_evidence \<Rightarrow> bool" where
  "satisfies_tier e = (off_result_satisfies_tier (oe_tier e) (oe_smua e)
                       \<and> off_result_satisfies_tier (oe_tier e) (oe_smub e))"

definition verified_off :: "off_evidence \<Rightarrow> bool" where
  "verified_off e = (physical_off_verified (oe_tier e) (oe_smua e)
                     \<and> physical_off_verified (oe_tier e) (oe_smub e))"

lemma verified_global [simp]:
  "verified_off (from_global_result tier r) \<longleftrightarrow> tier = VERIFIED_OFF \<and> r = DEVICE_REPORTED_OFF"
  by (simp add: verified_off_def from_global_result_def physical_off_verified_def)

section \<open>The driver as the manager reads it\<close>

record unsafe_observation =
  ob_channel :: string
  ob_connection_generation :: int
  ob_command_epoch :: int
  ob_operation :: string
  ob_kind :: string
  ob_sequence :: int

text \<open>
  An optional capability: absent, exposed with a malformed value, or well formed. An observation
  without its provenance attributes is \<open>None\<close>.
\<close>

datatype 'a capability = Absent | Malformed | Exposed 'a

record source_runtime =
  rt_active :: bool
  rt_p_target :: pyfloat
  rt_v_comp :: pyfloat
  rt_i_comp :: pyfloat

record driver =
  dv_connected :: bool
  dv_output_state_unverified :: bool
  dv_watchdog_trip_pending :: bool
  dv_mock :: bool
  dv_verified_off_source :: bool
  dv_observations :: "unsafe_observation option list capability"
  dv_connection_generation :: "int option"
  dv_active_channels :: "string list capability"
  dv_runtimes :: "(smu_channel \<times> source_runtime) list"

text \<open>The answer of \<open>emergency_off\<close> or \<open>stop_source\<close>.\<close>

datatype drv_value = DvOff source_off_result | DvFalse | DvOther

text \<open>
  What \<open>_settle_shielded_hardware_task\<close> returns for an owned task, and what other tasks did to the
  manager meanwhile (the events are given a meaning where the manager's operations are known).
\<close>

record ('r, 'e) await =
  aw_result :: "string + 'r"
  aw_cancelled :: bool
  aw_interference :: "'e list"

definition smu_of_name :: "string \<Rightarrow> smu_channel option" where
  "smu_of_name n = (if n = ''smua'' then Some smua else if n = ''smub'' then Some smub else None)"

lemma smu_set_finite [simp]: "finite (A :: smu_channel set)"
  by (rule finite_subset [of _ "{smua, smub}"]) (auto intro: smu_channel.exhaust)

end
