(* ===== verification/SafetyState.thy ===== *)
theory SafetyState
  imports SourceOff Rate
begin

text \<open>
  The state of \<open>SafetyManager\<close> (\<^verbatim>\<open>src/cryodaq/core/safety_manager.py\<close>), its synchronous core
  (transition with its event log, abort generations, the synchronous part of a fault latch, child
  authority, expiry of OFF evidence) and the operator snapshot it republishes at every change.

  \<open>sm_clock\<close> is \<open>time.monotonic()\<close>. Texts that the source formats for people are reduced to the
  identifying part, except where their length matters (the operator snapshot's bounded texts).
  Logging, callbacks and the publication of readings have no effect on the state and are omitted;
  \<open>time.time()\<close> and \<open>datetime.now()\<close> stamps of events are omitted likewise.
\<close>

section \<open>Configuration and children\<close>

datatype safety_state = SAFE_OFF | READY | RUN_PERMITTED | RUNNING | FAULT_LATCHED | MANUAL_RECOVERY

fun state_value :: "safety_state \<Rightarrow> string" where
  "state_value SAFE_OFF = ''safe_off''"
| "state_value READY = ''ready''"
| "state_value RUN_PERMITTED = ''run_permitted''"
| "state_value RUNNING = ''running''"
| "state_value FAULT_LATCHED = ''fault_latched''"
| "state_value MANUAL_RECOVERY = ''manual_recovery''"

record safety_event =
  se_from_state :: safety_state
  se_to_state :: safety_state
  se_reason :: string
  se_channel :: string
  se_value :: pyfloat

text \<open>A compiled pattern is its text with its \<open>match\<close> predicate.\<close>

record safety_config =
  sc_critical_channels :: "(string \<times> (string \<Rightarrow> bool)) list"
  sc_stale_timeout_s :: pyfloat
  sc_heartbeat_timeout_s :: pyfloat
  sc_require_keithley_for_run :: bool
  sc_max_dT_dt_K_per_min :: pyfloat
  sc_require_reason :: bool
  sc_cooldown_before_rearm_s :: pyfloat
  sc_max_power_w :: pyfloat
  sc_max_voltage_v :: pyfloat
  sc_max_current_a :: pyfloat

definition safety_config_default :: safety_config where
  "safety_config_default =
     \<lparr> sc_critical_channels = [], sc_stale_timeout_s = Fin 10, sc_heartbeat_timeout_s = Fin 15,
       sc_require_keithley_for_run = True, sc_max_dT_dt_K_per_min = Fin 5, sc_require_reason = True,
       sc_cooldown_before_rearm_s = Fin 60, sc_max_power_w = Fin 5, sc_max_voltage_v = Fin 40,
       sc_max_current_a = Fin 1 \<rparr>"

text \<open>
  A child task: its identity and, once terminal, its outcome. A cancelled task carries its number of
  cancellation requests (\<open>task.cancelling()\<close>).
\<close>

datatype child_outcome = ChCancelled nat | ChCompleted | ChFailed

record child =
  ch_id :: nat
  ch_outcome :: "child_outcome option"

datatype child_role = Collect | Monitor

fun role_name :: "child_role \<Rightarrow> string" where
  "role_name Collect = ''collect''"
| "role_name Monitor = ''monitor''"

text \<open>The binding facts the registry seals, as the manager checks them.\<close>

record runtime_binding =
  rb_issued :: bool
  rb_for_driver :: bool
  rb_simulation :: bool
  rb_reviewed_source :: bool

section \<open>The operator snapshot\<close>

datatype presentation = P_OK | P_CAUTION | P_WARNING | P_FAULT | P_STALE | P_DISCONNECTED
datatype readiness = R_READY | R_BLOCKED | R_UNKNOWN
datatype lifecycle = LcUnknown | Lc safety_state

record blocker =
  bk_code :: string
  bk_state :: presentation
  bk_text :: string

record plant_fact =
  pf_subsystem :: string
  pf_display_name :: string
  pf_state :: presentation
  pf_reason_code :: string

record safety_snapshot =
  sn_revision :: nat
  sn_observed :: real
  sn_lifecycle :: lifecycle
  sn_readiness :: readiness
  sn_evidence :: off_evidence
  sn_verified_off :: bool
  sn_blockers :: "blocker list"
  sn_plant_health :: "plant_fact list"

section \<open>The manager\<close>

text \<open>
  The commands sent to the driver, kept as a trace (the class has no such field).
\<close>

datatype hw_command =
    CmdOff "smu_channel option"
  | CmdStop smu_channel
  | CmdStart smu_channel pyfloat pyfloat pyfloat
  | CmdUpdateTarget smu_channel pyfloat
  | CmdUpdateVoltage smu_channel pyfloat
  | CmdUpdateCurrent smu_channel pyfloat
  | CmdDisconnect

type_synonym identity = "string \<times> string"

record warning =
  ow_code :: string
  ow_reason :: string

record sm =
  sm_clock :: real
  sm_config :: safety_config
  sm_mock :: bool
  sm_driver :: "driver option"
  sm_receipt_expiry :: "real option"
  sm_binding :: "runtime_binding option"
  sm_identity_qualified :: bool
  sm_source_generation :: "nat option"
  sm_next_generation :: nat
  sm_state :: safety_state
  sm_events :: "safety_event list"
  sm_fault_reason :: string
  sm_fault_sources :: "string set"
  sm_fault_time :: real
  sm_fault_revision :: nat
  sm_recovery_reason :: string
  sm_active :: "smu_channel set"
  sm_run_permitted_since :: real
  sm_latest :: "(identity \<times> (real \<times> pyfloat \<times> string)) list"
  sm_instrument_faults :: "(identity \<times> string list) list"
  sm_rate :: rate_est
  sm_child_generation :: nat
  sm_stopping_generation :: "nat option"
  sm_failed_role :: "string option"
  sm_failed_reason :: "string option"
  sm_monitor_active :: bool
  sm_collect :: "child option"
  sm_monitor :: "child option"
  sm_consumed :: "nat set"
  sm_stop_cancelled :: "nat \<Rightarrow> nat option"
  sm_pending_settlements :: "string list"
  sm_connected :: bool
  sm_evidence :: off_evidence
  sm_evidence_at :: real
  sm_persistence_fault :: bool
  sm_mature_dead :: "string dict"
  sm_blind_guards :: "(string \<times> string list \<times> bool \<times> pyfloat) dict"
  sm_blind_records :: "string dict"
  sm_failed_polls :: "string dict"
  sm_predictor_available :: "bool option"
  sm_predictor_reason :: string
  sm_tripped_controls :: "string set"
  sm_abort_generation :: nat
  sm_full_abort_generation :: nat
  sm_latched_abort_generation :: "nat option"
  sm_pending_start_warning :: "(nat \<times> warning) option"
  sm_critical_bindings :: "(identity \<times> string) list option"
  sm_heartbeat_bindings :: "smu_channel \<Rightarrow> identity list"
  sm_snapshot :: safety_snapshot
  sm_commands :: "hw_command list"

definition MAX_SAFETY_EVENTS :: nat where "MAX_SAFETY_EVENTS = 500"

section \<open>Authority of the children\<close>

definition child_of :: "child_role \<Rightarrow> sm \<Rightarrow> child option" where
  "child_of r s = (case r of Collect \<Rightarrow> sm_collect s | Monitor \<Rightarrow> sm_monitor s)"

fun live_child :: "child option \<Rightarrow> bool" where
  "live_child None = False"
| "live_child (Some c) = (ch_outcome c = None)"

definition safety_children_authoritative :: "sm \<Rightarrow> bool" where
  "safety_children_authoritative s =
     ((sm_mock s \<and> sm_child_generation s = 0 \<and> sm_stopping_generation s = None \<and> sm_failed_role s = None)
      \<or> (0 < sm_child_generation s \<and> sm_stopping_generation s \<noteq> Some (sm_child_generation s)
         \<and> sm_failed_role s = None \<and> sm_monitor_active s
         \<and> map_option ch_id (sm_collect s) \<noteq> map_option ch_id (sm_monitor s)
         \<and> live_child (sm_collect s) \<and> live_child (sm_monitor s)))"

section \<open>OFF evidence of the reviewed source\<close>

definition reviewed_source_off_tier :: "sm \<Rightarrow> source_off_tier" where
  "reviewed_source_off_tier s =
     (if sm_mock s \<or> (case sm_driver s of None \<Rightarrow> False | Some d \<Rightarrow> dv_verified_off_source d)
      then VERIFIED_OFF else COMMAND_ONLY)"

definition unknown_global_off_evidence :: "sm \<Rightarrow> off_evidence" where
  "unknown_global_off_evidence s = from_global_result (reviewed_source_off_tier s) PHYSICAL_STATE_UNKNOWN"

definition global_off_evidence_for_result :: "sm \<Rightarrow> drv_value \<Rightarrow> off_evidence" where
  "global_off_evidence_for_result s v =
     from_global_result (reviewed_source_off_tier s)
       (case v of DvOff r \<Rightarrow> r | _ \<Rightarrow> PHYSICAL_STATE_UNKNOWN)"

text \<open>The setter stamps the evidence with the current time.\<close>

definition set_evidence :: "off_evidence \<Rightarrow> sm \<Rightarrow> sm" where
  "set_evidence e s = s\<lparr> sm_evidence := e, sm_evidence_at := sm_clock s \<rparr>"

definition has_current_reviewed_connection_generation :: "sm \<Rightarrow> bool" where
  "has_current_reviewed_connection_generation s =
     (if sm_mock s then safety_children_authoritative s
      else safety_children_authoritative s \<and> sm_identity_qualified s \<and> sm_source_generation s \<noteq> None
           \<and> sm_connected s \<and> (case sm_driver s of None \<Rightarrow> False | Some d \<Rightarrow> dv_connected d))"

definition expire_stale_off_evidence :: "sm \<Rightarrow> sm" where
  "expire_stale_off_evidence s =
     (if \<not> verified_off (sm_evidence s) then s
      else if fl_le (Fin (sm_clock s - sm_evidence_at s)) (sc_stale_timeout_s (sm_config s)) then s
      else set_evidence (unknown_global_off_evidence s) s)"

section \<open>Construction\<close>

definition initial_snapshot :: "real \<Rightarrow> off_evidence \<Rightarrow> safety_snapshot" where
  "initial_snapshot observed evidence =
     \<lparr> sn_revision = 1, sn_observed = observed, sn_lifecycle = LcUnknown, sn_readiness = R_UNKNOWN,
       sn_evidence = evidence, sn_verified_off = False,
       sn_blockers = [\<lparr> bk_code = ''safety_authority_unavailable'', bk_state = P_DISCONNECTED,
                        bk_text = ''Safety authority is not yet available'' \<rparr>],
       sn_plant_health = [\<lparr> pf_subsystem = ''safety_manager'', pf_display_name = ''Safety manager'',
                            pf_state = P_DISCONNECTED, pf_reason_code = ''safety_manager_not_started'' \<rparr>] \<rparr>"

text \<open>A new manager at time \<open>now\<close>: SAFE_OFF, no children, no connection, unknown OFF evidence.\<close>

definition sm_init :: "bool \<Rightarrow> driver option \<Rightarrow> runtime_binding option \<Rightarrow> real option \<Rightarrow> real \<Rightarrow> sm" where
  "sm_init mock drv binding receipt now =
     (let tier = (if mock \<or> (case drv of None \<Rightarrow> False | Some d \<Rightarrow> dv_verified_off_source d)
                  then VERIFIED_OFF else COMMAND_ONLY);
          evidence = from_global_result tier PHYSICAL_STATE_UNKNOWN
      in \<lparr> sm_clock = now, sm_config = safety_config_default, sm_mock = mock, sm_driver = drv,
           sm_receipt_expiry = receipt, sm_binding = binding,
           sm_identity_qualified =
             (drv \<noteq> None \<and> (case binding of None \<Rightarrow> False
                | Some b \<Rightarrow> rb_issued b \<and> rb_for_driver b \<and> rb_reviewed_source b)),
           sm_source_generation = None, sm_next_generation = 0, sm_state = SAFE_OFF, sm_events = [],
           sm_fault_reason = [], sm_fault_sources = {}, sm_fault_time = 0, sm_fault_revision = 0,
           sm_recovery_reason = [], sm_active = {}, sm_run_permitted_since = 0, sm_latest = [],
           sm_instrument_faults = [], sm_rate = rate_init 120 8 (Some 30) 4,
           sm_child_generation = 0, sm_stopping_generation = None, sm_failed_role = None,
           sm_failed_reason = None, sm_monitor_active = False, sm_collect = None, sm_monitor = None,
           sm_consumed = {}, sm_stop_cancelled = (\<lambda>_. None), sm_pending_settlements = [],
           sm_connected = False, sm_evidence = evidence, sm_evidence_at = now,
           sm_persistence_fault = False, sm_mature_dead = [], sm_blind_guards = [],
           sm_blind_records = [], sm_failed_polls = [], sm_predictor_available = None,
           sm_predictor_reason = [], sm_tripped_controls = {}, sm_abort_generation = 0,
           sm_full_abort_generation = 0, sm_latched_abort_generation = None,
           sm_pending_start_warning = None, sm_critical_bindings = None,
           sm_heartbeat_bindings = (\<lambda>_. []), sm_snapshot = initial_snapshot now evidence,
           sm_commands = [] \<rparr>)"

end
