(* ===== verification/SafetySnapshot.thy ===== *)
theory SafetySnapshot
  imports SafetyState "HOL-Library.List_Lexorder" "HOL-Library.Char_ord" "HOL-Library.Product_Lexorder"
begin

text \<open>
  The owner snapshot of the safety manager (\<open>_refresh_operator_safety_snapshot\<close>), the acceptance
  checks of \<open>OperatorSafetySnapshot\<close> in
  \<^verbatim>\<open>src/cryodaq/engine_wiring/operator_safety_snapshot.py\<close> that bound its texts, and the
  synchronous state changes that republish it: \<open>_transition\<close>, \<open>_register_abort_intent\<close> and
  \<open>_begin_fault_latch\<close>.

  \<open>sm_refresh\<close> is the refresh whose snapshot the constructor accepts. \<open>snapshot_fits\<close> says when it
  does; where the source's behaviour on a rejected snapshot matters (a fault), the definition has
  that branch.
\<close>

section \<open>Critical inputs\<close>

definition critical_input_requirements :: "sm \<Rightarrow> (string \<times> (identity \<times> (real \<times> pyfloat \<times> string)) list) list" where
  "critical_input_requirements s =
     (case sm_critical_bindings s of
        Some (b # bs) \<Rightarrow>
          map (\<lambda>i. (snd i, case dict_get (sm_latest s) i of None \<Rightarrow> [] | Some v \<Rightarrow> [(i, v)]))
              (sort (dict_keys (b # bs)))
      | Some [] \<Rightarrow> map (\<lambda>(p, _). (p, [])) (sc_critical_channels (sm_config s))
      | None \<Rightarrow>
          (if \<not> sm_mock s then map (\<lambda>(p, _). (p, [])) (sc_critical_channels (sm_config s))
           else map (\<lambda>(p, m). (p, filter (\<lambda>(i, v). m (snd i)) (sm_latest s)))
                    (sc_critical_channels (sm_config s))))"

text \<open>The first problem of the declared inputs, if any.\<close>

datatype input_problem = InputMissing string | InputStale string | InputBadStatus string string pyfloat
  | InputNotFinite string pyfloat

definition sample_problem :: "sm \<Rightarrow> real \<Rightarrow> identity \<times> (real \<times> pyfloat \<times> string) \<Rightarrow> input_problem option" where
  "sample_problem s now m =
     (case m of (i, (ts, value, status)) \<Rightarrow>
        if fl_less (sc_stale_timeout_s (sm_config s)) (Fin (now - ts)) then Some (InputStale (snd i))
        else if dict_get (sm_instrument_faults s) i \<noteq> None then None
        else if status \<noteq> ''ok'' then Some (InputBadStatus (snd i) status value)
        else if \<not> fl_isfinite value then Some (InputNotFinite (snd i) value)
        else None)"

fun first_some :: "('a \<Rightarrow> 'b option) \<Rightarrow> 'a list \<Rightarrow> 'b option" where
  "first_some f [] = None"
| "first_some f (x # xs) = (case f x of None \<Rightarrow> first_some f xs | Some y \<Rightarrow> Some y)"

text \<open>
  An input without accepted samples is missing (an explicit simulator tolerates it), otherwise the
  first problem of its samples counts. The preconditions, the running checks and the snapshot all
  scan the declarations in this order.
\<close>

definition requirement_problem :: "sm \<Rightarrow> real \<Rightarrow>
    string \<times> (identity \<times> (real \<times> pyfloat \<times> string)) list \<Rightarrow> input_problem option" where
  "requirement_problem s now d =
     (case d of (declared, matches) \<Rightarrow>
        if matches = [] \<and> \<not> sm_mock s then Some (InputMissing declared)
        else first_some (sample_problem s now) matches)"

definition critical_input_problem :: "sm \<Rightarrow> real \<Rightarrow> input_problem option" where
  "critical_input_problem s now =
     first_some (requirement_problem s now) (critical_input_requirements s)"

definition critical_input_snapshot_fact :: "sm \<Rightarrow> real \<Rightarrow> plant_fact \<times> blocker option" where
  "critical_input_snapshot_fact s now =
     (let fact = (\<lambda>st code. \<lparr> pf_subsystem = ''critical_inputs'', pf_display_name = ''Critical inputs'',
                               pf_state = st, pf_reason_code = code \<rparr>);
          both = (\<lambda>st code text. (fact st code, Some \<lparr> bk_code = code, bk_state = st, bk_text = text \<rparr>))
      in case critical_input_problem s now of
           None \<Rightarrow> (fact P_OK ''critical_inputs_current'', None)
         | Some (InputMissing _) \<Rightarrow>
             both P_DISCONNECTED ''critical_input_missing'' ''A required critical input is unavailable''
         | Some (InputStale _) \<Rightarrow>
             both P_STALE ''critical_input_stale'' ''A required critical input is stale''
         | Some _ \<Rightarrow> both P_FAULT ''critical_input_invalid'' ''A required critical input is invalid'')"

section \<open>Facts and blockers of the snapshot\<close>

fun join :: "string \<Rightarrow> string list \<Rightarrow> string" where
  "join sep [] = []"
| "join sep [x] = x"
| "join sep (x # xs) = x @ sep @ join sep xs"

text \<open>The UTF-8 bytes of the display name's Cyrillic prefix (Blind guards, a colon, a space).\<close>

definition blind_prefix :: string where
  "blind_prefix = [CHR 0xD0, CHR 0xA1, CHR 0xD0, CHR 0xBB, CHR 0xD0, CHR 0xB5, CHR 0xD0, CHR 0xBF,
     CHR 0xD1, CHR 0x8B, CHR 0xD0, CHR 0xB5, CHR 0x20, CHR 0xD0, CHR 0xB7, CHR 0xD0, CHR 0xB0,
     CHR 0xD1, CHR 0x89, CHR 0xD0, CHR 0xB8, CHR 0xD1, CHR 0x82, CHR 0xD1, CHR 0x8B, CHR 0x3A, CHR 0x20]"

definition blind_detail :: "string \<times> (string \<times> string list \<times> bool \<times> pyfloat) \<Rightarrow> string" where
  "blind_detail g = (case g of (channel, (interlock, reasons, _, _)) \<Rightarrow>
     channel @ '' ('' @ interlock @ '': '' @ join '', '' reasons @ '')'')"

definition blind_details :: "sm \<Rightarrow> string" where
  "blind_details s = join ''; '' (map blind_detail (sort_key fst (sm_blind_guards s)))"

definition children_facts :: "sm \<Rightarrow> plant_fact list \<times> blocker list" where
  "children_facts s =
     (if safety_children_authoritative s then
        ([\<lparr> pf_subsystem = ''safety_monitor'', pf_display_name = ''Safety monitor and collector'',
            pf_state = P_OK, pf_reason_code = ''safety_children_active'' \<rparr>], [])
      else
        (let role = (case sm_failed_role s of None \<Rightarrow> ''monitor'' | Some r \<Rightarrow> if r = [] then ''monitor'' else r);
             reason = (case sm_failed_reason s of None \<Rightarrow> ''safety_monitor_inactive''
                       | Some r \<Rightarrow> if r = [] then ''safety_monitor_inactive'' else r);
             display = (if sm_failed_role s = Some ''collect'' then ''Safety reading collector'' else ''Safety monitor'')
         in ([\<lparr> pf_subsystem = ''safety_'' @ role, pf_display_name = display,
                pf_state = P_DISCONNECTED, pf_reason_code = reason \<rparr>],
             [\<lparr> bk_code = reason, bk_state = P_DISCONNECTED, bk_text = ''The child is not active'' \<rparr>])))"

definition source_facts :: "sm \<Rightarrow> bool \<Rightarrow> plant_fact list \<times> blocker list" where
  "source_facts s verified =
     (let fact = (\<lambda>st code. [\<lparr> pf_subsystem = ''reviewed_source'', pf_display_name = ''Reviewed source'',
                                pf_state = st, pf_reason_code = code \<rparr>])
      in if \<not> sm_connected s then
           (fact P_DISCONNECTED ''reviewed_source_disconnected'',
            [\<lparr> bk_code = ''reviewed_source_disconnected'', bk_state = P_DISCONNECTED,
               bk_text = ''The reviewed source is disconnected or unqualified'' \<rparr>])
         else if \<not> verified then
           (let st = (if sm_active s \<noteq> {} then P_WARNING else P_CAUTION)
            in (fact st ''reviewed_source_off_unverified'',
                [\<lparr> bk_code = ''reviewed_source_off_unverified'', bk_state = st,
                   bk_text = ''The reviewed source lacks current verified-OFF evidence'' \<rparr>]))
         else (fact P_OK ''reviewed_source_verified_off'', []))"

definition interlock_facts :: "sm \<Rightarrow> plant_fact list \<times> blocker list" where
  "interlock_facts s =
     (let dead = sm_mature_dead s \<noteq> [];
          dead_part = (if dead then
             ([\<lparr> pf_subsystem = ''interlock_channels'', pf_display_name = ''Interlock channel availability'',
                 pf_state = P_FAULT, pf_reason_code = ''mature_dead_interlock_channel'' \<rparr>],
              [\<lparr> bk_code = ''mature_dead_interlock_channel'', bk_state = P_FAULT,
                 bk_text = ''Protected interlock channels are persistently unusable: ''
                           @ join '', '' (sort (dict_keys (sm_mature_dead s))) \<rparr>])
             else ([], []));
          blind_part = (if sm_blind_guards s \<noteq> [] then
             [\<lparr> pf_subsystem = (if dead then ''interlock_blind_guards'' else ''interlock_channels''),
                pf_display_name = blind_prefix @ blind_details s,
                pf_state = P_FAULT, pf_reason_code = ''interlock_guard_blind'' \<rparr>]
             else if dead then []
             else [\<lparr> pf_subsystem = ''interlock_channels'', pf_display_name = ''Interlock channel availability'',
                     pf_state = P_OK, pf_reason_code = ''interlock_channels_current'' \<rparr>])
      in (fst dead_part @ blind_part, snd dead_part))"

definition persistence_facts :: "sm \<Rightarrow> plant_fact list \<times> blocker list" where
  "persistence_facts s =
     (let fact = (\<lambda>st code. [\<lparr> pf_subsystem = ''persistence'', pf_display_name = ''Persistence'',
                                pf_state = st, pf_reason_code = code \<rparr>])
      in if sm_persistence_fault s then
           (fact P_FAULT ''persistence_fault_active'',
            [\<lparr> bk_code = ''persistence_fault_active'', bk_state = P_FAULT,
               bk_text = ''Persistence has an unacknowledged failure'' \<rparr>])
         else if sm_failed_polls s \<noteq> [] then
           (fact P_FAULT ''failed_poll_persistence_unresolved'',
            [\<lparr> bk_code = ''failed_poll_persistence_unresolved'', bk_state = P_FAULT,
               bk_text = ''Failed-poll persistence authority remains unresolved for: ''
                         @ join '', '' (sort (dict_keys (sm_failed_polls s))) \<rparr>])
         else (fact P_OK ''persistence_fault_absent'', []))"

definition fsm_facts :: "sm \<Rightarrow> plant_fact \<times> blocker list" where
  "fsm_facts s =
     (let code = ''safety_state_'' @ state_value (sm_state s);
          fact = (\<lambda>st. \<lparr> pf_subsystem = ''safety_fsm'', pf_display_name = ''Safety state'',
                         pf_state = st, pf_reason_code = code \<rparr>)
      in case sm_state s of
           FAULT_LATCHED \<Rightarrow> (fact P_FAULT, [\<lparr> bk_code = code, bk_state = P_FAULT,
                                bk_text = ''Safety fault recovery is incomplete'' \<rparr>])
         | MANUAL_RECOVERY \<Rightarrow> (fact P_FAULT, [\<lparr> bk_code = code, bk_state = P_FAULT,
                                bk_text = ''Safety fault recovery is incomplete'' \<rparr>])
         | RUN_PERMITTED \<Rightarrow> (fact P_WARNING, [\<lparr> bk_code = ''source_operation_active'', bk_state = P_WARNING,
                                bk_text = ''A source operation is active or being enabled'' \<rparr>])
         | RUNNING \<Rightarrow> (fact P_WARNING, [\<lparr> bk_code = ''source_operation_active'', bk_state = P_WARNING,
                                bk_text = ''A source operation is active or being enabled'' \<rparr>])
         | SAFE_OFF \<Rightarrow> (fact P_CAUTION, [\<lparr> bk_code = ''safety_state_safe_off'', bk_state = P_CAUTION,
                                bk_text = ''Safety is OFF but readiness has not been committed'' \<rparr>])
         | READY \<Rightarrow> (fact P_OK, []))"

section \<open>The refresh\<close>

definition predictor_facts :: "sm \<Rightarrow> plant_fact list" where
  "predictor_facts s =
     (if sm_predictor_available s = Some False
      then [\<lparr> pf_subsystem = ''cooldown_predictor'', pf_display_name = ''Cooldown prediction unavailable'',
              pf_state = P_CAUTION, pf_reason_code = ''cooldown_predictor_unavailable'' \<rparr>]
      else [])"

definition snapshot_blockers :: "sm \<Rightarrow> bool \<Rightarrow> real \<Rightarrow> blocker list" where
  "snapshot_blockers s verified observed =
     snd (children_facts s) @ snd (source_facts s verified)
     @ (case snd (critical_input_snapshot_fact s observed) of None \<Rightarrow> [] | Some b \<Rightarrow> [b])
     @ snd (interlock_facts s) @ snd (persistence_facts s) @ snd (fsm_facts s)"

definition snapshot_plant :: "sm \<Rightarrow> bool \<Rightarrow> real \<Rightarrow> plant_fact list" where
  "snapshot_plant s verified observed =
     fst (fsm_facts s) # fst (children_facts s) @ fst (source_facts s verified)
     @ [fst (critical_input_snapshot_fact s observed)]
     @ fst (interlock_facts s) @ fst (persistence_facts s) @ predictor_facts s"

text \<open>
  A positive receipt does not survive the driver's own negative cache nor its own age. A READY state
  with any blocker is published as unknown, and its OFF evidence is revoked.
\<close>

definition revoked_evidence :: "sm \<Rightarrow> sm" where
  "revoked_evidence s =
     expire_stale_off_evidence
       (case sm_driver s of
          None \<Rightarrow> s
        | Some d \<Rightarrow> if dv_output_state_unverified d then set_evidence (unknown_global_off_evidence s) s else s)"

definition snapshot_verified_off :: "sm \<Rightarrow> bool" where
  "snapshot_verified_off s =
     (safety_children_authoritative s \<and> sm_connected s \<and> verified_off (sm_evidence s)
      \<and> sm_active s = {} \<and> sm_state s \<notin> {RUN_PERMITTED, RUNNING})"

definition snapshot_observed :: "sm \<Rightarrow> real" where
  "snapshot_observed s = max (sm_clock s) (sn_observed (sm_snapshot s))"

definition ready_unqualified :: "sm \<Rightarrow> bool" where
  "ready_unqualified s =
     (sm_state s = READY \<and> snapshot_blockers s (snapshot_verified_off s) (snapshot_observed s) \<noteq> [])"

definition refreshed_evidence :: "sm \<Rightarrow> sm" where
  "refreshed_evidence s0 =
     (let s = revoked_evidence s0
      in if ready_unqualified s then set_evidence (unknown_global_off_evidence s) s else s)"

definition build_snapshot :: "sm \<Rightarrow> safety_snapshot" where
  "build_snapshot s0 =
     (let s = revoked_evidence s0;
          verified = snapshot_verified_off s;
          plant = snapshot_plant s verified (snapshot_observed s);
          unqualified = ready_unqualified s
      in \<lparr> sn_revision = sn_revision (sm_snapshot s0) + 1, sn_observed = snapshot_observed s,
           sn_lifecycle = (if unqualified then LcUnknown else Lc (sm_state s)),
           sn_readiness = (if unqualified then R_UNKNOWN
                           else if sm_state s = READY then R_READY else R_BLOCKED),
           sn_evidence = sm_evidence (refreshed_evidence s0),
           sn_verified_off = (\<not> unqualified \<and> verified),
           sn_blockers = snapshot_blockers s verified (snapshot_observed s),
           sn_plant_health =
             (if unqualified
              then \<lparr> pf_subsystem = ''safety_fsm'', pf_display_name = ''Safety state'', pf_state = P_CAUTION,
                     pf_reason_code = ''ready_state_unqualified'' \<rparr> # tl plant
              else plant) \<rparr>)"

definition sm_refresh :: "sm \<Rightarrow> sm" where
  "sm_refresh s = (refreshed_evidence s)\<lparr> sm_snapshot := build_snapshot s \<rparr>"

text \<open>
  The constructor's bounds on the texts whose length depends on the plant. (Its other checks hold by
  construction of the snapshot; the texts are assumed free of control characters.)
\<close>

definition MAX_TEXT_UTF8_BYTES :: nat where "MAX_TEXT_UTF8_BYTES = 256"
definition MAX_ID_UTF8_BYTES :: nat where "MAX_ID_UTF8_BYTES = 128"

definition blocker_fits :: "blocker \<Rightarrow> bool" where
  "blocker_fits b = (bk_code b \<noteq> [] \<and> length (bk_code b) \<le> MAX_ID_UTF8_BYTES \<and> bk_state b \<noteq> P_OK
     \<and> bk_text b \<noteq> [] \<and> length (bk_text b) \<le> MAX_TEXT_UTF8_BYTES)"

definition plant_fact_fits :: "plant_fact \<Rightarrow> bool" where
  "plant_fact_fits f = (pf_subsystem f \<noteq> [] \<and> length (pf_subsystem f) \<le> MAX_ID_UTF8_BYTES
     \<and> pf_display_name f \<noteq> [] \<and> length (pf_display_name f) \<le> MAX_TEXT_UTF8_BYTES
     \<and> pf_reason_code f \<noteq> [] \<and> length (pf_reason_code f) \<le> MAX_ID_UTF8_BYTES)"

definition snapshot_fits :: "sm \<Rightarrow> bool" where
  "snapshot_fits s = (list_all blocker_fits (sn_blockers (build_snapshot s))
     \<and> list_all plant_fact_fits (sn_plant_health (build_snapshot s)))"

section \<open>Synchronous state changes\<close>

definition transition_cut :: "safety_state \<Rightarrow> string \<Rightarrow> string \<Rightarrow> pyfloat \<Rightarrow> sm \<Rightarrow> sm" where
  "transition_cut new_state reason channel value s =
     s\<lparr> sm_state := new_state,
        sm_events := dq_append MAX_SAFETY_EVENTS
          \<lparr> se_from_state = sm_state s, se_to_state = new_state, se_reason = reason,
            se_channel = channel, se_value = value \<rparr> (sm_events s) \<rparr>"

definition sm_transition :: "safety_state \<Rightarrow> string \<Rightarrow> string \<Rightarrow> pyfloat \<Rightarrow> sm \<Rightarrow> sm" where
  "sm_transition new_state reason channel value s =
     sm_refresh (transition_cut new_state reason channel value s)"

definition register_abort_intent :: "bool \<Rightarrow> sm \<Rightarrow> sm" where
  "register_abort_intent full s =
     s\<lparr> sm_abort_generation := sm_abort_generation s + 1,
        sm_full_abort_generation :=
          (if full then sm_abort_generation s + 1 else sm_full_abort_generation s) \<rparr>"

text \<open>
  The synchronous part of a fault. A repeated latch only joins its source; a new one cuts every
  command in flight, forgets a pending start warning and latches before anything can wait.
  \<open>fault_cut\<close> is the state the latch has when it refreshes the snapshot.
\<close>

definition fault_cut :: "string \<Rightarrow> string \<Rightarrow> pyfloat \<Rightarrow> string \<Rightarrow> sm \<Rightarrow> sm" where
  "fault_cut reason channel value source s =
     (let s1 = register_abort_intent True s;
          s2 = s1\<lparr> sm_latched_abort_generation := Some (sm_abort_generation s1),
                   sm_pending_start_warning := None,
                   sm_fault_sources := {source},
                   sm_fault_revision := sm_fault_revision s1 + 1,
                   sm_fault_reason := reason,
                   sm_fault_time := sm_clock s1 \<rparr>
      in transition_cut FAULT_LATCHED reason channel value s2)"

definition begin_fault_latch :: "string \<Rightarrow> string \<Rightarrow> pyfloat \<Rightarrow> string \<Rightarrow> sm \<Rightarrow> bool \<times> sm" where
  "begin_fault_latch reason channel value source s =
     (if sm_state s = FAULT_LATCHED
      then (False, s\<lparr> sm_fault_sources := insert source (sm_fault_sources s) \<rparr>)
      else (True, sm_refresh (fault_cut reason channel value source s)))"

section \<open>What the refresh leaves alone\<close>

definition evidence_only :: "sm \<Rightarrow> sm \<Rightarrow> bool" where
  "evidence_only t s = (\<exists>e u. t = s\<lparr> sm_evidence := e, sm_evidence_at := u \<rparr>)"

lemma evidence_only_refl: "evidence_only s s"
  unfolding evidence_only_def
  by (rule exI [of _ "sm_evidence s"], rule exI [of _ "sm_evidence_at s"]) simp

lemma evidence_only_set: "evidence_only (set_evidence e s) s"
  unfolding evidence_only_def set_evidence_def by (rule exI, rule exI, rule refl)

lemma evidence_only_trans: "evidence_only u t \<Longrightarrow> evidence_only t s \<Longrightarrow> evidence_only u s"
proof -
  assume "evidence_only u t" "evidence_only t s"
  then obtain e f x y where "u = t\<lparr> sm_evidence := e, sm_evidence_at := x \<rparr>"
      "t = s\<lparr> sm_evidence := f, sm_evidence_at := y \<rparr>"
    unfolding evidence_only_def by blast
  hence "u = s\<lparr> sm_evidence := e, sm_evidence_at := x \<rparr>" by simp
  thus ?thesis unfolding evidence_only_def by blast
qed

lemma evidence_only_expire: "evidence_only (expire_stale_off_evidence s) s"
  by (simp add: expire_stale_off_evidence_def evidence_only_refl evidence_only_set)

lemma evidence_only_revoked: "evidence_only (revoked_evidence s) s"
proof -
  have "evidence_only (case sm_driver s of None \<Rightarrow> s
      | Some d \<Rightarrow> if dv_output_state_unverified d then set_evidence (unknown_global_off_evidence s) s else s) s"
    by (simp add: evidence_only_refl evidence_only_set split: option.splits)
  thus ?thesis unfolding revoked_evidence_def by (rule evidence_only_trans [OF evidence_only_expire])
qed

lemma refreshed_evidence_only: "evidence_only (refreshed_evidence s) (revoked_evidence s)"
  by (simp add: refreshed_evidence_def Let_def evidence_only_refl evidence_only_set)

lemma refreshed_evidence_fields:
  "sm_clock (refreshed_evidence s) = sm_clock s"
  "sm_config (refreshed_evidence s) = sm_config s"
  "sm_mock (refreshed_evidence s) = sm_mock s"
  "sm_driver (refreshed_evidence s) = sm_driver s"
  "sm_receipt_expiry (refreshed_evidence s) = sm_receipt_expiry s"
  "sm_binding (refreshed_evidence s) = sm_binding s"
  "sm_identity_qualified (refreshed_evidence s) = sm_identity_qualified s"
  "sm_source_generation (refreshed_evidence s) = sm_source_generation s"
  "sm_next_generation (refreshed_evidence s) = sm_next_generation s"
  "sm_state (refreshed_evidence s) = sm_state s"
  "sm_events (refreshed_evidence s) = sm_events s"
  "sm_fault_reason (refreshed_evidence s) = sm_fault_reason s"
  "sm_fault_sources (refreshed_evidence s) = sm_fault_sources s"
  "sm_fault_time (refreshed_evidence s) = sm_fault_time s"
  "sm_fault_revision (refreshed_evidence s) = sm_fault_revision s"
  "sm_recovery_reason (refreshed_evidence s) = sm_recovery_reason s"
  "sm_active (refreshed_evidence s) = sm_active s"
  "sm_run_permitted_since (refreshed_evidence s) = sm_run_permitted_since s"
  "sm_latest (refreshed_evidence s) = sm_latest s"
  "sm_instrument_faults (refreshed_evidence s) = sm_instrument_faults s"
  "sm_rate (refreshed_evidence s) = sm_rate s"
  "sm_child_generation (refreshed_evidence s) = sm_child_generation s"
  "sm_stopping_generation (refreshed_evidence s) = sm_stopping_generation s"
  "sm_failed_role (refreshed_evidence s) = sm_failed_role s"
  "sm_failed_reason (refreshed_evidence s) = sm_failed_reason s"
  "sm_monitor_active (refreshed_evidence s) = sm_monitor_active s"
  "sm_collect (refreshed_evidence s) = sm_collect s"
  "sm_monitor (refreshed_evidence s) = sm_monitor s"
  "sm_consumed (refreshed_evidence s) = sm_consumed s"
  "sm_stop_cancelled (refreshed_evidence s) = sm_stop_cancelled s"
  "sm_pending_settlements (refreshed_evidence s) = sm_pending_settlements s"
  "sm_connected (refreshed_evidence s) = sm_connected s"
  "sm_persistence_fault (refreshed_evidence s) = sm_persistence_fault s"
  "sm_mature_dead (refreshed_evidence s) = sm_mature_dead s"
  "sm_blind_guards (refreshed_evidence s) = sm_blind_guards s"
  "sm_blind_records (refreshed_evidence s) = sm_blind_records s"
  "sm_failed_polls (refreshed_evidence s) = sm_failed_polls s"
  "sm_predictor_available (refreshed_evidence s) = sm_predictor_available s"
  "sm_predictor_reason (refreshed_evidence s) = sm_predictor_reason s"
  "sm_tripped_controls (refreshed_evidence s) = sm_tripped_controls s"
  "sm_abort_generation (refreshed_evidence s) = sm_abort_generation s"
  "sm_full_abort_generation (refreshed_evidence s) = sm_full_abort_generation s"
  "sm_latched_abort_generation (refreshed_evidence s) = sm_latched_abort_generation s"
  "sm_pending_start_warning (refreshed_evidence s) = sm_pending_start_warning s"
  "sm_critical_bindings (refreshed_evidence s) = sm_critical_bindings s"
  "sm_heartbeat_bindings (refreshed_evidence s) = sm_heartbeat_bindings s"
  "sm_commands (refreshed_evidence s) = sm_commands s"
  using evidence_only_trans [OF refreshed_evidence_only evidence_only_revoked, of s]
  by (auto simp: evidence_only_def)

lemma sm_refresh_shape:
  "\<exists>e t n. sm_refresh s = s\<lparr> sm_evidence := e, sm_evidence_at := t, sm_snapshot := n \<rparr>"
proof -
  have "evidence_only (refreshed_evidence s) (revoked_evidence s)"
    by (simp add: refreshed_evidence_def Let_def evidence_only_refl evidence_only_set)
  then obtain e u where "refreshed_evidence s = s\<lparr> sm_evidence := e, sm_evidence_at := u \<rparr>"
    using evidence_only_trans [OF _ evidence_only_revoked] unfolding evidence_only_def by blast
  thus ?thesis unfolding sm_refresh_def by metis
qed

lemma sm_refresh_fields [simp]:
  "sm_clock (sm_refresh s) = sm_clock s"
  "sm_config (sm_refresh s) = sm_config s"
  "sm_mock (sm_refresh s) = sm_mock s"
  "sm_driver (sm_refresh s) = sm_driver s"
  "sm_receipt_expiry (sm_refresh s) = sm_receipt_expiry s"
  "sm_binding (sm_refresh s) = sm_binding s"
  "sm_identity_qualified (sm_refresh s) = sm_identity_qualified s"
  "sm_source_generation (sm_refresh s) = sm_source_generation s"
  "sm_next_generation (sm_refresh s) = sm_next_generation s"
  "sm_state (sm_refresh s) = sm_state s"
  "sm_events (sm_refresh s) = sm_events s"
  "sm_fault_reason (sm_refresh s) = sm_fault_reason s"
  "sm_fault_sources (sm_refresh s) = sm_fault_sources s"
  "sm_fault_time (sm_refresh s) = sm_fault_time s"
  "sm_fault_revision (sm_refresh s) = sm_fault_revision s"
  "sm_recovery_reason (sm_refresh s) = sm_recovery_reason s"
  "sm_active (sm_refresh s) = sm_active s"
  "sm_run_permitted_since (sm_refresh s) = sm_run_permitted_since s"
  "sm_latest (sm_refresh s) = sm_latest s"
  "sm_instrument_faults (sm_refresh s) = sm_instrument_faults s"
  "sm_rate (sm_refresh s) = sm_rate s"
  "sm_child_generation (sm_refresh s) = sm_child_generation s"
  "sm_stopping_generation (sm_refresh s) = sm_stopping_generation s"
  "sm_failed_role (sm_refresh s) = sm_failed_role s"
  "sm_failed_reason (sm_refresh s) = sm_failed_reason s"
  "sm_monitor_active (sm_refresh s) = sm_monitor_active s"
  "sm_collect (sm_refresh s) = sm_collect s"
  "sm_monitor (sm_refresh s) = sm_monitor s"
  "sm_consumed (sm_refresh s) = sm_consumed s"
  "sm_stop_cancelled (sm_refresh s) = sm_stop_cancelled s"
  "sm_pending_settlements (sm_refresh s) = sm_pending_settlements s"
  "sm_connected (sm_refresh s) = sm_connected s"
  "sm_persistence_fault (sm_refresh s) = sm_persistence_fault s"
  "sm_mature_dead (sm_refresh s) = sm_mature_dead s"
  "sm_blind_guards (sm_refresh s) = sm_blind_guards s"
  "sm_blind_records (sm_refresh s) = sm_blind_records s"
  "sm_failed_polls (sm_refresh s) = sm_failed_polls s"
  "sm_predictor_available (sm_refresh s) = sm_predictor_available s"
  "sm_predictor_reason (sm_refresh s) = sm_predictor_reason s"
  "sm_tripped_controls (sm_refresh s) = sm_tripped_controls s"
  "sm_abort_generation (sm_refresh s) = sm_abort_generation s"
  "sm_full_abort_generation (sm_refresh s) = sm_full_abort_generation s"
  "sm_latched_abort_generation (sm_refresh s) = sm_latched_abort_generation s"
  "sm_pending_start_warning (sm_refresh s) = sm_pending_start_warning s"
  "sm_critical_bindings (sm_refresh s) = sm_critical_bindings s"
  "sm_heartbeat_bindings (sm_refresh s) = sm_heartbeat_bindings s"
  "sm_commands (sm_refresh s) = sm_commands s"
  using sm_refresh_shape [of s] by auto

lemma set_evidence_fields [simp]:
  "sm_clock (set_evidence e s) = sm_clock s"
  "sm_config (set_evidence e s) = sm_config s"
  "sm_mock (set_evidence e s) = sm_mock s"
  "sm_driver (set_evidence e s) = sm_driver s"
  "sm_receipt_expiry (set_evidence e s) = sm_receipt_expiry s"
  "sm_binding (set_evidence e s) = sm_binding s"
  "sm_identity_qualified (set_evidence e s) = sm_identity_qualified s"
  "sm_source_generation (set_evidence e s) = sm_source_generation s"
  "sm_next_generation (set_evidence e s) = sm_next_generation s"
  "sm_state (set_evidence e s) = sm_state s"
  "sm_events (set_evidence e s) = sm_events s"
  "sm_fault_reason (set_evidence e s) = sm_fault_reason s"
  "sm_fault_sources (set_evidence e s) = sm_fault_sources s"
  "sm_fault_time (set_evidence e s) = sm_fault_time s"
  "sm_fault_revision (set_evidence e s) = sm_fault_revision s"
  "sm_recovery_reason (set_evidence e s) = sm_recovery_reason s"
  "sm_active (set_evidence e s) = sm_active s"
  "sm_run_permitted_since (set_evidence e s) = sm_run_permitted_since s"
  "sm_latest (set_evidence e s) = sm_latest s"
  "sm_instrument_faults (set_evidence e s) = sm_instrument_faults s"
  "sm_rate (set_evidence e s) = sm_rate s"
  "sm_child_generation (set_evidence e s) = sm_child_generation s"
  "sm_stopping_generation (set_evidence e s) = sm_stopping_generation s"
  "sm_failed_role (set_evidence e s) = sm_failed_role s"
  "sm_failed_reason (set_evidence e s) = sm_failed_reason s"
  "sm_monitor_active (set_evidence e s) = sm_monitor_active s"
  "sm_collect (set_evidence e s) = sm_collect s"
  "sm_monitor (set_evidence e s) = sm_monitor s"
  "sm_consumed (set_evidence e s) = sm_consumed s"
  "sm_stop_cancelled (set_evidence e s) = sm_stop_cancelled s"
  "sm_pending_settlements (set_evidence e s) = sm_pending_settlements s"
  "sm_connected (set_evidence e s) = sm_connected s"
  "sm_persistence_fault (set_evidence e s) = sm_persistence_fault s"
  "sm_mature_dead (set_evidence e s) = sm_mature_dead s"
  "sm_blind_guards (set_evidence e s) = sm_blind_guards s"
  "sm_blind_records (set_evidence e s) = sm_blind_records s"
  "sm_failed_polls (set_evidence e s) = sm_failed_polls s"
  "sm_predictor_available (set_evidence e s) = sm_predictor_available s"
  "sm_predictor_reason (set_evidence e s) = sm_predictor_reason s"
  "sm_tripped_controls (set_evidence e s) = sm_tripped_controls s"
  "sm_abort_generation (set_evidence e s) = sm_abort_generation s"
  "sm_full_abort_generation (set_evidence e s) = sm_full_abort_generation s"
  "sm_latched_abort_generation (set_evidence e s) = sm_latched_abort_generation s"
  "sm_pending_start_warning (set_evidence e s) = sm_pending_start_warning s"
  "sm_critical_bindings (set_evidence e s) = sm_critical_bindings s"
  "sm_heartbeat_bindings (set_evidence e s) = sm_heartbeat_bindings s"
  "sm_commands (set_evidence e s) = sm_commands s"
  "sm_evidence (set_evidence e s) = e"
  by (simp_all add: set_evidence_def)

lemma sm_transition_fields [simp]:
  "sm_clock (sm_transition st reason ch v s) = sm_clock s"
  "sm_config (sm_transition st reason ch v s) = sm_config s"
  "sm_mock (sm_transition st reason ch v s) = sm_mock s"
  "sm_driver (sm_transition st reason ch v s) = sm_driver s"
  "sm_receipt_expiry (sm_transition st reason ch v s) = sm_receipt_expiry s"
  "sm_binding (sm_transition st reason ch v s) = sm_binding s"
  "sm_identity_qualified (sm_transition st reason ch v s) = sm_identity_qualified s"
  "sm_source_generation (sm_transition st reason ch v s) = sm_source_generation s"
  "sm_next_generation (sm_transition st reason ch v s) = sm_next_generation s"
  "sm_fault_reason (sm_transition st reason ch v s) = sm_fault_reason s"
  "sm_fault_sources (sm_transition st reason ch v s) = sm_fault_sources s"
  "sm_fault_time (sm_transition st reason ch v s) = sm_fault_time s"
  "sm_fault_revision (sm_transition st reason ch v s) = sm_fault_revision s"
  "sm_recovery_reason (sm_transition st reason ch v s) = sm_recovery_reason s"
  "sm_active (sm_transition st reason ch v s) = sm_active s"
  "sm_run_permitted_since (sm_transition st reason ch v s) = sm_run_permitted_since s"
  "sm_latest (sm_transition st reason ch v s) = sm_latest s"
  "sm_instrument_faults (sm_transition st reason ch v s) = sm_instrument_faults s"
  "sm_rate (sm_transition st reason ch v s) = sm_rate s"
  "sm_child_generation (sm_transition st reason ch v s) = sm_child_generation s"
  "sm_stopping_generation (sm_transition st reason ch v s) = sm_stopping_generation s"
  "sm_failed_role (sm_transition st reason ch v s) = sm_failed_role s"
  "sm_failed_reason (sm_transition st reason ch v s) = sm_failed_reason s"
  "sm_monitor_active (sm_transition st reason ch v s) = sm_monitor_active s"
  "sm_collect (sm_transition st reason ch v s) = sm_collect s"
  "sm_monitor (sm_transition st reason ch v s) = sm_monitor s"
  "sm_consumed (sm_transition st reason ch v s) = sm_consumed s"
  "sm_stop_cancelled (sm_transition st reason ch v s) = sm_stop_cancelled s"
  "sm_pending_settlements (sm_transition st reason ch v s) = sm_pending_settlements s"
  "sm_connected (sm_transition st reason ch v s) = sm_connected s"
  "sm_persistence_fault (sm_transition st reason ch v s) = sm_persistence_fault s"
  "sm_mature_dead (sm_transition st reason ch v s) = sm_mature_dead s"
  "sm_blind_guards (sm_transition st reason ch v s) = sm_blind_guards s"
  "sm_blind_records (sm_transition st reason ch v s) = sm_blind_records s"
  "sm_failed_polls (sm_transition st reason ch v s) = sm_failed_polls s"
  "sm_predictor_available (sm_transition st reason ch v s) = sm_predictor_available s"
  "sm_predictor_reason (sm_transition st reason ch v s) = sm_predictor_reason s"
  "sm_tripped_controls (sm_transition st reason ch v s) = sm_tripped_controls s"
  "sm_abort_generation (sm_transition st reason ch v s) = sm_abort_generation s"
  "sm_full_abort_generation (sm_transition st reason ch v s) = sm_full_abort_generation s"
  "sm_latched_abort_generation (sm_transition st reason ch v s) = sm_latched_abort_generation s"
  "sm_pending_start_warning (sm_transition st reason ch v s) = sm_pending_start_warning s"
  "sm_critical_bindings (sm_transition st reason ch v s) = sm_critical_bindings s"
  "sm_heartbeat_bindings (sm_transition st reason ch v s) = sm_heartbeat_bindings s"
  "sm_commands (sm_transition st reason ch v s) = sm_commands s"
  "sm_state (sm_transition st reason ch v s) = st"
  by (simp_all add: sm_transition_def transition_cut_def)

lemma register_abort_fields [simp]:
  "sm_clock (register_abort_intent full s) = sm_clock s"
  "sm_config (register_abort_intent full s) = sm_config s"
  "sm_mock (register_abort_intent full s) = sm_mock s"
  "sm_driver (register_abort_intent full s) = sm_driver s"
  "sm_receipt_expiry (register_abort_intent full s) = sm_receipt_expiry s"
  "sm_binding (register_abort_intent full s) = sm_binding s"
  "sm_identity_qualified (register_abort_intent full s) = sm_identity_qualified s"
  "sm_source_generation (register_abort_intent full s) = sm_source_generation s"
  "sm_next_generation (register_abort_intent full s) = sm_next_generation s"
  "sm_state (register_abort_intent full s) = sm_state s"
  "sm_events (register_abort_intent full s) = sm_events s"
  "sm_fault_reason (register_abort_intent full s) = sm_fault_reason s"
  "sm_fault_sources (register_abort_intent full s) = sm_fault_sources s"
  "sm_fault_time (register_abort_intent full s) = sm_fault_time s"
  "sm_fault_revision (register_abort_intent full s) = sm_fault_revision s"
  "sm_recovery_reason (register_abort_intent full s) = sm_recovery_reason s"
  "sm_active (register_abort_intent full s) = sm_active s"
  "sm_run_permitted_since (register_abort_intent full s) = sm_run_permitted_since s"
  "sm_latest (register_abort_intent full s) = sm_latest s"
  "sm_instrument_faults (register_abort_intent full s) = sm_instrument_faults s"
  "sm_rate (register_abort_intent full s) = sm_rate s"
  "sm_child_generation (register_abort_intent full s) = sm_child_generation s"
  "sm_stopping_generation (register_abort_intent full s) = sm_stopping_generation s"
  "sm_failed_role (register_abort_intent full s) = sm_failed_role s"
  "sm_failed_reason (register_abort_intent full s) = sm_failed_reason s"
  "sm_monitor_active (register_abort_intent full s) = sm_monitor_active s"
  "sm_collect (register_abort_intent full s) = sm_collect s"
  "sm_monitor (register_abort_intent full s) = sm_monitor s"
  "sm_consumed (register_abort_intent full s) = sm_consumed s"
  "sm_stop_cancelled (register_abort_intent full s) = sm_stop_cancelled s"
  "sm_pending_settlements (register_abort_intent full s) = sm_pending_settlements s"
  "sm_connected (register_abort_intent full s) = sm_connected s"
  "sm_persistence_fault (register_abort_intent full s) = sm_persistence_fault s"
  "sm_mature_dead (register_abort_intent full s) = sm_mature_dead s"
  "sm_blind_guards (register_abort_intent full s) = sm_blind_guards s"
  "sm_blind_records (register_abort_intent full s) = sm_blind_records s"
  "sm_failed_polls (register_abort_intent full s) = sm_failed_polls s"
  "sm_predictor_available (register_abort_intent full s) = sm_predictor_available s"
  "sm_predictor_reason (register_abort_intent full s) = sm_predictor_reason s"
  "sm_tripped_controls (register_abort_intent full s) = sm_tripped_controls s"
  "sm_latched_abort_generation (register_abort_intent full s) = sm_latched_abort_generation s"
  "sm_pending_start_warning (register_abort_intent full s) = sm_pending_start_warning s"
  "sm_critical_bindings (register_abort_intent full s) = sm_critical_bindings s"
  "sm_heartbeat_bindings (register_abort_intent full s) = sm_heartbeat_bindings s"
  "sm_commands (register_abort_intent full s) = sm_commands s"
  "sm_abort_generation (register_abort_intent full s) = Suc (sm_abort_generation s)"
  "sm_full_abort_generation (register_abort_intent full s) =
     (if full then Suc (sm_abort_generation s) else sm_full_abort_generation s)"
  by (simp_all add: register_abort_intent_def)

lemma authoritative_cong:
  "sm_mock s = sm_mock t \<Longrightarrow> sm_child_generation s = sm_child_generation t \<Longrightarrow>
   sm_stopping_generation s = sm_stopping_generation t \<Longrightarrow> sm_failed_role s = sm_failed_role t \<Longrightarrow>
   sm_monitor_active s = sm_monitor_active t \<Longrightarrow> sm_collect s = sm_collect t \<Longrightarrow>
   sm_monitor s = sm_monitor t \<Longrightarrow> safety_children_authoritative s = safety_children_authoritative t"
  by (simp add: safety_children_authoritative_def)

lemma authoritative_refresh [simp]:
  "safety_children_authoritative (sm_refresh s) = safety_children_authoritative s"
  "safety_children_authoritative (set_evidence e s) = safety_children_authoritative s"
  "safety_children_authoritative (sm_transition st reason ch v s) = safety_children_authoritative s"
  by (rule authoritative_cong; simp)+

lemma begin_fault_latch_again:
  "sm_state s = FAULT_LATCHED \<Longrightarrow>
   begin_fault_latch reason ch v source s = (False, s\<lparr> sm_fault_sources := insert source (sm_fault_sources s) \<rparr>)"
  by (simp add: begin_fault_latch_def)

text \<open>What a latch guarantees before anything else can run.\<close>

lemma begin_fault_latch_latches:
  "sm_state (snd (begin_fault_latch reason ch v source s)) = FAULT_LATCHED"
  "sm_active (snd (begin_fault_latch reason ch v source s)) = sm_active s"
  "source \<in> sm_fault_sources (snd (begin_fault_latch reason ch v source s))"
  "sm_abort_generation s \<le> sm_abort_generation (snd (begin_fault_latch reason ch v source s))"
  by (simp_all add: begin_fault_latch_def fault_cut_def transition_cut_def Let_def)

lemma begin_fault_latch_epoch:
  "sm_state s \<noteq> FAULT_LATCHED \<Longrightarrow>
     sm_abort_generation (snd (begin_fault_latch reason ch v source s)) = Suc (sm_abort_generation s)
     \<and> sm_full_abort_generation (snd (begin_fault_latch reason ch v source s)) = Suc (sm_abort_generation s)"
  by (simp add: begin_fault_latch_def fault_cut_def transition_cut_def Let_def)

lemma begin_fault_latch_keeps [simp]:
  "sm_clock (snd (begin_fault_latch reason ch v source s)) = sm_clock s"
  "sm_config (snd (begin_fault_latch reason ch v source s)) = sm_config s"
  "sm_mock (snd (begin_fault_latch reason ch v source s)) = sm_mock s"
  "sm_driver (snd (begin_fault_latch reason ch v source s)) = sm_driver s"
  "sm_active (snd (begin_fault_latch reason ch v source s)) = sm_active s"
  "sm_commands (snd (begin_fault_latch reason ch v source s)) = sm_commands s"
  "sm_state (snd (begin_fault_latch reason ch v source s)) = FAULT_LATCHED"
  by (simp_all add: begin_fault_latch_def fault_cut_def transition_cut_def Let_def)

definition push_safety_event :: "safety_event \<Rightarrow> sm \<Rightarrow> sm" where
  "push_safety_event ev s = s\<lparr> sm_events := dq_append MAX_SAFETY_EVENTS ev (sm_events s) \<rparr>"

interpretation safety_log: bounded_log push_safety_event sm_events MAX_SAFETY_EVENTS
  by unfold_locales (simp_all add: push_safety_event_def MAX_SAFETY_EVENTS_def)

lemma sm_transition_events:
  "sm_events (sm_transition st reason ch v s) =
     sm_events (push_safety_event \<lparr> se_from_state = sm_state s, se_to_state = st, se_reason = reason,
                  se_channel = ch, se_value = v \<rparr> s)"
  by (simp add: sm_transition_def transition_cut_def push_safety_event_def)

end
