(* ===== verification/SafetyChecks.thy ===== *)
theory SafetyChecks
  imports SafetySnapshot
begin

text \<open>
  The checks of the safety manager: qualification (\<open>_energizing_mutation_refusal\<close>), the RUN
  preconditions, the reviewed source's own observations, the collector, and the periodic
  \<open>_run_checks\<close>. A check that faults is the reason it latches; the monitor's hardware settlement of
  that fault is a separate step. \<open>_run_checks\<close> waits once, for the watchdog readback, so it is two
  atomic segments.
\<close>

section \<open>Qualification\<close>

definition explicit_simulation_authorized :: "sm \<Rightarrow> bool" where
  "explicit_simulation_authorized s =
     (sm_mock s \<and>
      (case sm_driver s of
         None \<Rightarrow> True
       | Some d \<Rightarrow>
           (case sm_binding s of
              None \<Rightarrow> False
            | Some b \<Rightarrow> rb_issued b \<and> rb_for_driver b \<and> rb_simulation b \<and> dv_mock d)))"

definition energizing_mutation_refusal :: "sm \<Rightarrow> string option" where
  "energizing_mutation_refusal s =
     (if explicit_simulation_authorized s then None
      else
        (case sm_receipt_expiry s of
           None \<Rightarrow> Some ''UNQUALIFIED: receipt required''
         | Some expiry \<Rightarrow> if expiry \<le> sm_clock s then Some ''UNQUALIFIED: receipt stale'' else None))"

section \<open>Preconditions of RUN\<close>

fun input_problem_text :: "input_problem \<Rightarrow> string" where
  "input_problem_text (InputMissing ch) = ''No data for critical channel: '' @ ch"
| "input_problem_text (InputStale ch) = ''Stale data: '' @ ch"
| "input_problem_text (InputBadStatus ch st v) = ''Channel '' @ ch @ '' status='' @ st"
| "input_problem_text (InputNotFinite ch v) = ''Channel '' @ ch @ '' invalid value''"

definition driver_flag :: "(driver \<Rightarrow> bool) \<Rightarrow> sm \<Rightarrow> bool" where
  "driver_flag f s = (case sm_driver s of None \<Rightarrow> False | Some d \<Rightarrow> f d)"

definition check_preconditions :: "sm \<Rightarrow> string option" where
  "check_preconditions s =
     (case energizing_mutation_refusal s of
        Some r \<Rightarrow> Some r
      | None \<Rightarrow>
     (if \<not> safety_children_authoritative s then Some ''Safety monitor/collector authority is unavailable''
      else if driver_flag dv_watchdog_trip_pending s
      then Some ''Keithley watchdog has unconsumed prior-trip evidence''
      else if sm_failed_polls s \<noteq> []
      then Some (''Failed-poll persistence authority unresolved for instrument(s): ''
                 @ join '', '' (sort (dict_keys (sm_failed_polls s))))
      else if sm_mature_dead s \<noteq> []
      then Some (''Persistently unusable interlock channel(s): ''
                 @ join '', '' (sort (dict_keys (sm_mature_dead s))))
      else
     (case critical_input_problem s (sm_clock s) of
        Some p \<Rightarrow> Some (input_problem_text p)
      | None \<Rightarrow>
     (if sc_require_keithley_for_run (sm_config s) \<and> \<not> sm_mock s \<and> sm_driver s = None
      then Some ''Keithley not connected''
      else if sc_require_keithley_for_run (sm_config s) \<and> \<not> sm_mock s \<and> \<not> driver_flag dv_connected s
      then Some ''Keithley connected=False''
      else if \<not> sm_mock s \<and> \<not> sm_identity_qualified s
      then Some ''Reviewed source lacks exact sealed runtime binding authority''
      else if \<not> sm_mock s \<and> (sm_source_generation s = None \<or> \<not> sm_connected s)
      then Some ''Reviewed source connection generation is UNAVAILABLE''
      else if \<not> sm_mock s \<and> sm_active s = {} \<and> \<not> verified_off (sm_evidence s)
      then Some ''Reviewed source OFF state is UNVERIFIED''
      else if driver_flag dv_output_state_unverified s \<and> sm_active s = {}
      then Some ''Keithley output state UNVERIFIED''
      else if sm_state s = FAULT_LATCHED then Some (''Active fault: '' @ sm_fault_reason s)
      else None))))"

section \<open>Observations of the reviewed source\<close>

text \<open>
  A conflict is the channel it concerns, when one is known, with its description. The loop accepts
  an observation only with exact provenance of the current connection.
\<close>

definition observation_valid :: "int option \<Rightarrow> smu_channel set \<Rightarrow> unsafe_observation \<Rightarrow> smu_channel option" where
  "observation_valid generation seen ob =
     (case smu_of_name (ob_channel ob) of
        None \<Rightarrow> None
      | Some c \<Rightarrow>
          (if c \<in> seen \<or> generation \<noteq> Some (ob_connection_generation ob) \<or> ob_command_epoch ob < 0
              \<or> ob_operation ob \<noteq> ''read_channels_idle_output_query''
              \<or> ob_kind ob \<notin> {''output_on'', ''invalid_readback''} \<or> ob_sequence ob \<le> 0
           then None else Some c))"

fun scan_observations :: "int option \<Rightarrow> smu_channel set \<Rightarrow> smu_channel set \<Rightarrow> unsafe_observation option list \<Rightarrow>
    (smu_channel option \<times> string) option" where
  "scan_observations generation active seen [] = None"
| "scan_observations generation active seen (None # obs) =
     Some (None, ''malformed unsafe-output observation provenance'')"
| "scan_observations generation active seen (Some ob # obs) =
     (case observation_valid generation seen ob of
        None \<Rightarrow> Some (None, ''stale or malformed unsafe-output observation provenance'')
      | Some c \<Rightarrow>
          (if c \<notin> active then Some (Some c, ''positively observed unmanaged '' @ ob_kind ob)
           else scan_observations generation active (insert c seen) obs))"

definition current_unmanaged_output_hazard :: "sm \<Rightarrow> (smu_channel option \<times> string) option" where
  "current_unmanaged_output_hazard s =
     (case sm_driver s of
        None \<Rightarrow> None
      | Some d \<Rightarrow>
          (case dv_observations d of
             Absent \<Rightarrow> None
           | Malformed \<Rightarrow> Some (None, ''malformed unsafe-output observations'')
           | Exposed obs \<Rightarrow> scan_observations (dv_connection_generation d) (sm_active s) {} obs))"

text \<open>Whether the driver exposes its active cut, and the cut when it is well formed.\<close>

definition exact_driver_active_source_cut :: "sm \<Rightarrow> bool \<times> smu_channel set option" where
  "exact_driver_active_source_cut s =
     (case sm_driver s of
        None \<Rightarrow> (False, None)
      | Some d \<Rightarrow>
          (case dv_active_channels d of
             Absent \<Rightarrow> (False, None)
           | Malformed \<Rightarrow> (True, None)
           | Exposed names \<Rightarrow>
               (if (\<exists>n \<in> set names. smu_of_name n = None) \<or> \<not> distinct names then (True, None)
                else (True, Some (set (map (\<lambda>n. the (smu_of_name n)) names))))))"

definition hazardous_success_conflict :: "sm \<Rightarrow> (smu_channel option \<times> string) option" where
  "hazardous_success_conflict s =
     (case current_unmanaged_output_hazard s of
        Some h \<Rightarrow> Some h
      | None \<Rightarrow>
          (case exact_driver_active_source_cut s of
             (False, _) \<Rightarrow> None
           | (True, None) \<Rightarrow> Some (None, ''malformed active-channel cut'')
           | (True, Some owned) \<Rightarrow>
               (if owned - sm_active s \<noteq> {}
                then Some (Some (Min (owned - sm_active s)), ''exact active cut contains an unmanaged channel'')
                else if sm_active s - owned \<noteq> {}
                then Some (Some (Min (sm_active s - owned)), ''ownership is absent from the exact cut'')
                else None)))"

section \<open>The collector\<close>

definition collect_reading :: "reading \<Rightarrow> sm \<Rightarrow> sm" where
  "collect_reading rd s =
     (let i = (r_instrument_id rd, r_channel rd);
          reasons = instrument_status_fault_reasons rd;
          s1 = sm_refresh (s\<lparr> sm_latest := dict_set i (sm_clock s, r_value rd, status_value (r_status rd)) (sm_latest s),
                             sm_instrument_faults :=
                               (if reasons \<noteq> [] then dict_set i reasons (sm_instrument_faults s)
                                else dict_del i (sm_instrument_faults s)) \<rparr>);
          accepted = (case sm_critical_bindings s of None \<Rightarrow> sm_mock s
                      | Some bs \<Rightarrow> dict_get bs i \<noteq> None);
          key = (case sm_critical_bindings s of None \<Rightarrow> r_channel rd
                 | Some bs \<Rightarrow> (case dict_get bs i of None \<Rightarrow> r_channel rd | Some k \<Rightarrow> k))
      in if r_unit rd = ''K'' \<and> is_usable rd \<and> accepted
         then s1\<lparr> sm_rate := rate_push (sm_rate s1) key (r_timestamp rd) (r_value rd) \<rparr>
         else s1)"

section \<open>The periodic checks\<close>

record fault_request =
  fr_reason :: string
  fr_channel :: string
  fr_value :: pyfloat
  fr_source :: string

definition plain_fault :: "string \<Rightarrow> string \<Rightarrow> fault_request" where
  "plain_fault reason channel =
     \<lparr> fr_reason = reason, fr_channel = channel, fr_value = Fin 0, fr_source = ''safety_manager'' \<rparr>"

definition latch_request :: "fault_request \<Rightarrow> sm \<Rightarrow> sm" where
  "latch_request f s = snd (begin_fault_latch (fr_reason f) (fr_channel f) (fr_value f) (fr_source f) s)"

definition smu_opt_name :: "smu_channel option \<Rightarrow> string" where
  "smu_opt_name c = (case c of None \<Rightarrow> [] | Some x \<Rightarrow> smu_name x)"

definition running_input_fault :: "sm \<Rightarrow> real \<Rightarrow> fault_request option" where
  "running_input_fault s now =
     (case critical_input_problem s now of
        None \<Rightarrow> None
      | Some p \<Rightarrow>
          (case p of
             InputMissing ch \<Rightarrow> Some (plain_fault (input_problem_text p) ch)
           | InputStale ch \<Rightarrow> Some (plain_fault (input_problem_text p) ch)
           | InputBadStatus ch st v \<Rightarrow> Some ((plain_fault (input_problem_text p) ch)\<lparr> fr_value := v \<rparr>)
           | InputNotFinite ch v \<Rightarrow> Some ((plain_fault (input_problem_text p) ch)\<lparr> fr_value := v \<rparr>)))"

definition watchdog_pending_fault :: "sm \<Rightarrow> fault_request option" where
  "watchdog_pending_fault s =
     (if driver_flag dv_watchdog_trip_pending s \<and> \<not> sm_mock s \<and> sm_state s \<noteq> FAULT_LATCHED
      then Some (plain_fault ''Keithley watchdog has unconsumed prior-trip evidence'' []) else None)"

text \<open>The faults that do not depend on an active source, in the order of the source.\<close>

definition standing_fault :: "sm \<Rightarrow> fault_request option" where
  "standing_fault s =
     (case current_unmanaged_output_hazard s of
        Some (c, reason) \<Rightarrow>
          (if sm_state s \<noteq> FAULT_LATCHED
           then Some \<lparr> fr_reason = ''Reviewed source unsafe-output observation: '' @ reason,
                  fr_channel = smu_opt_name c, fr_value = Fin 0,
                  fr_source = ''reviewed_source_output_observation'' \<rparr>
           else None)
      | None \<Rightarrow>
          (case energizing_mutation_refusal s of
             Some refusal \<Rightarrow>
               (if sm_state s \<in> {RUN_PERMITTED, RUNNING}
                then Some ((plain_fault refusal [])\<lparr> fr_source := ''qualification_interlock'' \<rparr>)
                else watchdog_pending_fault s)
           | None \<Rightarrow> watchdog_pending_fault s))"

text \<open>
  The first segment: the state it leaves, and the time the checks go on with (\<open>None\<close> when they end).
\<close>

definition run_checks_first :: "sm \<Rightarrow> real option \<times> sm" where
  "run_checks_first s0 =
     (let s = sm_refresh s0
      in case standing_fault s of
           Some f \<Rightarrow> (None, latch_request f s)
         | None \<Rightarrow>
             (case sm_state s of
                MANUAL_RECOVERY \<Rightarrow>
                  (None, if check_preconditions s = None
                         then sm_transition READY ''Recovery preconditions restored'' [] (Fin 0) s else s)
              | SAFE_OFF \<Rightarrow>
                  (None, if check_preconditions s = None \<and> sm_latest s \<noteq> []
                         then sm_transition READY ''All preconditions satisfied'' [] (Fin 0) s else s)
              | READY \<Rightarrow> (None, s)
              | FAULT_LATCHED \<Rightarrow> (None, s)
              | _ \<Rightarrow>
                  (case running_input_fault s (sm_clock s0) of
                     Some f \<Rightarrow> (None, latch_request f s)
                   | None \<Rightarrow> (Some (sm_clock s0), s))))"

text \<open>
  The watchdog readback: the driver has none (or the manager has no driver, or simulates), it
  answers, or it raises.
\<close>

datatype watchdog_readback = WdAbsent | WdClear | WdTripped | WdRaised

definition has_fresh_keithley_data :: "real \<Rightarrow> smu_channel \<Rightarrow> sm \<Rightarrow> bool" where
  "has_fresh_keithley_data now c s =
     (\<exists>(i, (ts, value, status)) \<in> set (sm_latest s).
        status = ''ok'' \<and> i \<in> set (sm_heartbeat_bindings s c)
        \<and> fl_less (Fin (now - ts)) (sc_heartbeat_timeout_s (sm_config s)))"

definition heartbeat_fault :: "real \<Rightarrow> sm \<Rightarrow> fault_request option" where
  "heartbeat_fault now s =
     (if sm_active s \<noteq> {} then
        first_some (\<lambda>c. if c \<in> sm_active s \<and> \<not> has_fresh_keithley_data now c s
                        then Some (plain_fault (''Keithley heartbeat timeout '' @ smu_name c) (smu_name c))
                        else None) SMU_CHANNELS
      else if sm_state s = RUN_PERMITTED \<and> 0 < sm_run_permitted_since s
              \<and> fl_less (sc_heartbeat_timeout_s (sm_config s)) (Fin (now - sm_run_permitted_since s))
      then Some (plain_fault ''start_source() stuck: RUN_PERMITTED without source activation'' [])
      else None)"

definition rate_inputs :: "sm \<Rightarrow> (string \<times> string) list" where
  "rate_inputs s =
     (case sm_critical_bindings s of
        None \<Rightarrow> map (\<lambda>ch. (ch, ch))
                  (filter (\<lambda>ch. sm_mock s \<and> (\<exists>(p, m) \<in> set (sc_critical_channels (sm_config s)). m ch))
                          (rate_channels (sm_rate s)))
      | Some bs \<Rightarrow> map (\<lambda>(i, channel_id). (channel_id, snd i)) (sort_key fst bs))"

fun rate_fault :: "pyfloat \<Rightarrow> (string \<times> string) list \<Rightarrow> rate_est \<Rightarrow> fault_request option \<times> rate_est" where
  "rate_fault limit [] e = (None, e)"
| "rate_fault limit ((key, channel) # rest) e =
     (case get_rate e key of
        (None, e') \<Rightarrow> rate_fault limit rest e'
      | (Some rate, e') \<Rightarrow>
          (if fl_less limit (fl_abs rate)
           then (Some \<lparr> fr_reason = ''Rate limit exceeded '' @ channel, fr_channel = channel,
                        fr_value = fl_abs rate, fr_source = ''safety_manager'' \<rparr>, e')
           else rate_fault limit rest e'))"

definition hardware_fault :: "real \<Rightarrow> watchdog_readback \<Rightarrow> sm \<Rightarrow> fault_request option" where
  "hardware_fault now wd s =
     (if sm_driver s = None \<or> sm_mock s then None
      else
        (case wd of
           WdRaised \<Rightarrow> Some (plain_fault ''Keithley watchdog state readback invalid/unavailable'' [])
         | WdTripped \<Rightarrow> Some (plain_fault ''Keithley late-pet watchdog tripped'' [])
         | _ \<Rightarrow> heartbeat_fault now s))"

definition run_checks_second :: "real \<Rightarrow> watchdog_readback \<Rightarrow> sm \<Rightarrow> sm" where
  "run_checks_second now wd s =
     (case hardware_fault now wd s of
        Some f \<Rightarrow> latch_request f s
      | None \<Rightarrow>
          (case rate_fault (sc_max_dT_dt_K_per_min (sm_config s)) (rate_inputs s) (sm_rate s) of
             (Some f, e) \<Rightarrow> latch_request f (s\<lparr> sm_rate := e \<rparr>)
           | (None, e) \<Rightarrow> s\<lparr> sm_rate := e \<rparr>))"

text \<open>The whole check when nothing happens during the watchdog readback.\<close>

definition run_checks :: "watchdog_readback \<Rightarrow> sm \<Rightarrow> sm" where
  "run_checks wd s =
     (case run_checks_first s of (None, s') \<Rightarrow> s' | (Some now, s') \<Rightarrow> run_checks_second now wd s')"

end
