(* ===== verification/SafetyChildren.thy ===== *)
theory SafetyChildren
  imports SafetyChecks
begin

text \<open>
  The collect and monitor children of the safety manager (start, terminal outcomes, replacement by a
  supervisor), the revocation of a source connection, the synchronous ends of hardware settlements,
  and the interference of other tasks: what they can do to the manager while one operation waits
  with the command lock held.
\<close>

section \<open>Children\<close>

definition is_stop_cancelled_child :: "child \<Rightarrow> sm \<Rightarrow> bool" where
  "is_stop_cancelled_child c s =
     (case ch_outcome c of
        Some (ChCancelled n) \<Rightarrow> sm_stop_cancelled s (ch_id c) = Some n
      | _ \<Rightarrow> False)"

fun outcome_name :: "child_outcome \<Rightarrow> string" where
  "outcome_name (ChCancelled n) = ''cancelled''"
| "outcome_name ChCompleted = ''completed''"
| "outcome_name ChFailed = ''failed''"

text \<open>Everything a lost child revokes, before its fault settles in a task of its own.\<close>

definition revoke_child_authority :: "child_role \<Rightarrow> child_outcome \<Rightarrow> sm \<Rightarrow> sm" where
  "revoke_child_authority role out s =
     (let s1 = set_evidence (unknown_global_off_evidence s)
                 (s\<lparr> sm_source_generation := None, sm_connected := False \<rparr>);
          s2 = s1\<lparr> sm_monitor_active := False, sm_failed_role := Some (role_name role),
                   sm_failed_reason := Some (''safety_'' @ role_name role @ ''_'' @ outcome_name out) \<rparr>;
          reason = ''Safety '' @ role_name role @ '' child exited unexpectedly'';
          s3 = snd (begin_fault_latch reason [] (Fin 0) (''safety_'' @ role_name role) s2)
      in (sm_refresh s3)\<lparr> sm_pending_settlements := sm_pending_settlements s3 @ [reason] \<rparr>)"

definition operator_child_done :: "child \<Rightarrow> child_role \<Rightarrow> nat \<Rightarrow> sm \<Rightarrow> sm" where
  "operator_child_done c role generation s =
     (case ch_outcome c of
        None \<Rightarrow> s
      | Some out \<Rightarrow>
          (if ch_id c \<in> sm_consumed s then s
           else if generation \<noteq> sm_child_generation s \<or> map_option ch_id (child_of role s) \<noteq> Some (ch_id c) then s
           else
             (let s1 = s\<lparr> sm_consumed := insert (ch_id c) (sm_consumed s) \<rparr>
              in if sm_stopping_generation s = Some generation \<and> is_stop_cancelled_child c s then s1
                 else revoke_child_authority role out s1)))"

text \<open>Both roles are looked up before the first outcome is consumed.\<close>

definition observe_terminal_safety_children :: "sm \<Rightarrow> sm" where
  "observe_terminal_safety_children s =
     (let g = sm_child_generation s;
          consume = (\<lambda>role c t. case c of None \<Rightarrow> t
                      | Some x \<Rightarrow> if ch_outcome x \<noteq> None then operator_child_done x role g t else t)
      in consume Monitor (sm_monitor s) (consume Collect (sm_collect s) s))"

definition set_child :: "child_role \<Rightarrow> child option \<Rightarrow> sm \<Rightarrow> sm" where
  "set_child r c s = (case r of Collect \<Rightarrow> s\<lparr> sm_collect := c \<rparr> | Monitor \<Rightarrow> s\<lparr> sm_monitor := c \<rparr>)"

definition other_role :: "child_role \<Rightarrow> child_role" where
  "other_role r = (case r of Collect \<Rightarrow> Monitor | Monitor \<Rightarrow> Collect)"

definition replace_operator_child :: "child_role \<Rightarrow> child \<Rightarrow> sm \<Rightarrow> sm result" where
  "replace_operator_child role c s =
     (if map_option ch_id (child_of (other_role role) s) = Some (ch_id c)
      then Inl (RuntimeError ''children must have distinct task identities'')
      else
        (case child_of role s of
           None \<Rightarrow> Inl (RuntimeError ''cannot replace live or unowned child'')
         | Some current \<Rightarrow>
             (if ch_id current = ch_id c then Inr s
              else if sm_stopping_generation s = Some (sm_child_generation s)
              then Inl (RuntimeError ''cannot replace child while stopping'')
              else if ch_outcome current = None
              then Inl (RuntimeError ''cannot replace live or unowned child'')
              else
                (let s1 = set_child role (Some c) (operator_child_done current role (sm_child_generation s) s)
                 in Inr (if map_option ch_id (sm_collect s1) \<noteq> Some (ch_id current)
                            \<and> map_option ch_id (sm_monitor s1) \<noteq> Some (ch_id current)
                         then s1\<lparr> sm_consumed := sm_consumed s1 - {ch_id current} \<rparr> else s1)))))"

definition complete_stopping_generation_if_settled :: "nat option \<Rightarrow> sm \<Rightarrow> sm" where
  "complete_stopping_generation_if_settled generation s =
     (case sm_stopping_generation s of
        None \<Rightarrow> s
      | Some stopping \<Rightarrow>
          (if generation \<noteq> None \<and> generation \<noteq> Some stopping then s
           else if sm_collect s \<noteq> None \<or> sm_monitor s \<noteq> None \<or> sm_pending_settlements s \<noteq> [] then s
           else s\<lparr> sm_stopping_generation := None \<rparr>))"

text \<open>\<open>start\<close> up to its first publication; the children are two fresh tasks.\<close>

definition record_reviewed_source_connected :: "bool \<Rightarrow> sm \<Rightarrow> sm result" where
  "record_reviewed_source_connected verified s =
     (if \<not> sm_mock s then Inl (RuntimeError ''connection evidence is simulator-only'')
      else if \<not> safety_children_authoritative s then Inl (RuntimeError ''safety child authority is unavailable'')
      else if verified \<and> (sm_active s \<noteq> {} \<or> sm_state s \<in> {RUN_PERMITTED, RUNNING})
      then Inl (ValueError ''cannot accept verified-OFF evidence while a source lifecycle is active'')
      else
        (let s1 = (if sm_source_generation s = None
                   then s\<lparr> sm_source_generation := Some (sm_next_generation s),
                           sm_next_generation := sm_next_generation s + 1 \<rparr> else s);
             s2 = s1\<lparr> sm_connected := True \<rparr>
         in Inr (sm_refresh (set_evidence (from_global_result (reviewed_source_off_tier s2)
                    (if verified then DEVICE_REPORTED_OFF else PHYSICAL_STATE_UNKNOWN)) s2))))"

definition sm_start :: "nat \<Rightarrow> nat \<Rightarrow> sm \<Rightarrow> sm result" where
  "sm_start collect_task monitor_task s =
     (if sm_pending_settlements s \<noteq> [] then Inl (RuntimeError ''child fault settlement is still in progress'')
      else if sm_stopping_generation s \<noteq> None then Inl (RuntimeError ''stop is still in progress'')
      else if sm_collect s \<noteq> None \<or> sm_monitor s \<noteq> None
      then Inl (RuntimeError ''child lifecycle is already owned'')
      else
        (let s1 = s\<lparr> sm_child_generation := sm_child_generation s + 1, sm_stopping_generation := None,
                     sm_failed_role := None, sm_failed_reason := None, sm_consumed := {},
                     sm_stop_cancelled := (\<lambda>_. None),
                     sm_collect := Some \<lparr> ch_id = collect_task, ch_outcome = None \<rparr>,
                     sm_monitor := Some \<lparr> ch_id = monitor_task, ch_outcome = None \<rparr>,
                     sm_monitor_active := True \<rparr>
         in if sm_mock s1 then record_reviewed_source_connected True s1 else Inr (sm_refresh s1)))"

section \<open>Connection authority\<close>

definition revoke_connection :: "sm \<Rightarrow> sm" where
  "revoke_connection s =
     sm_refresh (set_evidence (unknown_global_off_evidence s)
       (s\<lparr> sm_source_generation := None, sm_connected := False \<rparr>))"

definition record_reviewed_source_unavailable :: "sm \<Rightarrow> sm" where
  "record_reviewed_source_unavailable s = revoke_connection s"

definition abandon_reviewed_source_connect :: "nat option \<Rightarrow> sm \<Rightarrow> sm" where
  "abandon_reviewed_source_connect generation s =
     (if generation \<noteq> sm_source_generation s then s
      else revoke_connection (register_abort_intent True s))"

section \<open>Ends of hardware settlements\<close>

text \<open>
  What \<open>_ensure_output_off\<close> does with the driver's answer: only the exact value confirms, and only a
  global OFF produces global evidence.
\<close>

definition commit_output_off :: "smu_channel option \<Rightarrow> string + drv_value \<Rightarrow> sm \<Rightarrow> bool \<times> sm" where
  "commit_output_off channel answer s =
     (let value = (case answer of Inl _ \<Rightarrow> DvFalse | Inr v \<Rightarrow> v);
          evidence = global_off_evidence_for_result s value;
          exact = ((\<exists>v. answer = Inr v) \<and> verified_off evidence);
          retained = has_current_reviewed_connection_generation s;
          s1 = s\<lparr> sm_connected := retained \<rparr>;
          s2 = (if channel = None then set_evidence evidence s1
                else if \<not> exact \<or> \<not> retained then set_evidence (unknown_global_off_evidence s1) s1
                else s1)
      in (exact, sm_refresh s2))"

text \<open>What \<open>_settle_latched_fault\<close> does once its OFF attempt is answered.\<close>

definition commit_fault_settlement :: "bool \<Rightarrow> sm \<Rightarrow> sm" where
  "commit_fault_settlement confirmed s =
     (let s1 = (if confirmed then s\<lparr> sm_active := {} \<rparr> else s);
          s2 = (if sm_driver s = None then s1
                else
                  (let s3 = s1\<lparr> sm_connected := has_current_reviewed_connection_generation s1 \<rparr>
                   in if confirmed then s3 else set_evidence (unknown_global_off_evidence s3) s3))
      in sm_refresh s2)"

definition settle_fault_answered :: "string + drv_value \<Rightarrow> sm \<Rightarrow> sm" where
  "settle_fault_answered answer s =
     (if sm_driver s = None then commit_fault_settlement True s
      else (let (confirmed, s1) = commit_output_off None answer s in commit_fault_settlement confirmed s1))"

section \<open>Interference\<close>

text \<open>
  The steps of other tasks that do not take the command lock: time passes, the driver's attributes
  change, a fault is latched or its settlement ends, an abort is registered, a child ends or its end
  is observed, a connection is abandoned, a reading arrives, persistence or an interlock reports, the
  monitor runs a segment of its checks.
\<close>

datatype env_event =
    EvTick real
  | EvDriver driver
  | EvLatch fault_request
  | EvSettled "string + drv_value"
  | EvAbort bool
  | EvChildEnds child_role child_outcome
  | EvObserveChildren
  | EvAbandon "nat option"
  | EvSettlementOver string
  | EvReading reading
  | EvDeadChannel string string
  | EvBlindGuard string string "string list" pyfloat bool
  | EvRecoveredChannel string
  | EvPersistenceFailure string
  | EvPollFailure string string
  | EvPollRecovered string
  | EvInterlockNamed string
  | EvChecksFirst
  | EvChecksSecond real watchdog_readback

definition child_ends :: "child_role \<Rightarrow> child_outcome \<Rightarrow> sm \<Rightarrow> sm" where
  "child_ends role out s =
     (case child_of role s of
        None \<Rightarrow> s
      | Some c \<Rightarrow> if ch_outcome c = None then set_child role (Some (c\<lparr> ch_outcome := Some out \<rparr>)) s else s)"

definition note_mature_dead :: "string \<Rightarrow> string \<Rightarrow> sm \<Rightarrow> sm" where
  "note_mature_dead interlock channel s =
     (let s1 = s\<lparr> sm_blind_guards := dict_del channel (sm_blind_guards s),
                  sm_blind_records := dict_del channel (sm_blind_records s),
                  sm_mature_dead := dict_set channel interlock (sm_mature_dead s) \<rparr>
      in if dict_get (sm_blind_guards s) channel \<noteq> None
            \<or> dict_get (sm_mature_dead s) channel \<noteq> Some interlock
         then sm_refresh s1 else s1)"

text \<open>
  An instrument-confirmed sensor fault is an advisory: \<open>recorded\<close> says whether its durable row was
  written for this very episode.
\<close>

definition blind_recorded :: "string \<Rightarrow> string \<Rightarrow> string list \<Rightarrow> sm \<Rightarrow> bool" where
  "blind_recorded interlock channel reasons s =
     (case dict_get (sm_blind_guards s) channel of
        None \<Rightarrow> False
      | Some (i, rs, recorded, v) \<Rightarrow> i = interlock \<and> rs = reasons \<and> recorded)"

definition note_blind_guard :: "string \<Rightarrow> string \<Rightarrow> string list \<Rightarrow> pyfloat \<Rightarrow> bool \<Rightarrow> sm \<Rightarrow> sm" where
  "note_blind_guard interlock channel reasons value now_recorded s =
     (let same = (case dict_get (sm_blind_guards s) channel of
                    None \<Rightarrow> False | Some (i, rs, _, _) \<Rightarrow> i = interlock \<and> rs = reasons);
          recorded = blind_recorded interlock channel reasons s;
          s1 = s\<lparr> sm_mature_dead := dict_del channel (sm_mature_dead s),
                  sm_blind_records := (if same then sm_blind_records s else dict_del channel (sm_blind_records s)),
                  sm_blind_guards := dict_set channel (interlock, reasons, recorded, value) (sm_blind_guards s) \<rparr>;
          s2 = (if dict_get (sm_mature_dead s) channel \<noteq> None \<or> \<not> same then sm_refresh s1 else s1)
      in if \<not> recorded \<and> now_recorded
         then s2\<lparr> sm_blind_guards := dict_set channel (interlock, reasons, True, value) (sm_blind_guards s2) \<rparr>
         else s2)"

definition on_interlock_channel_recovered :: "string \<Rightarrow> sm \<Rightarrow> sm" where
  "on_interlock_channel_recovered channel s =
     (let recorded = dict_get (sm_mature_dead s) channel;
          blind = dict_get (sm_blind_guards s) channel;
          s1 = s\<lparr> sm_blind_guards := dict_del channel (sm_blind_guards s),
                  sm_blind_records := dict_del channel (sm_blind_records s) \<rparr>
      in if recorded = None \<and> blind = None then s1
         else sm_refresh (s1\<lparr> sm_mature_dead := dict_del channel (sm_mature_dead s1) \<rparr>))"

text \<open>\<open>on_persistence_failure\<close> and the failed-poll hooks up to the settlement of the fault.\<close>

definition persistence_failure_sync :: "string \<Rightarrow> sm \<Rightarrow> sm" where
  "persistence_failure_sync reason s =
     snd (begin_fault_latch (''Persistence failure: '' @ reason) [] (Fin 0) ''persistence''
            (sm_refresh (s\<lparr> sm_persistence_fault := True \<rparr>)))"

definition failed_poll_failure_sync :: "string \<Rightarrow> string \<Rightarrow> sm \<Rightarrow> sm" where
  "failed_poll_failure_sync instrument reason s =
     persistence_failure_sync (instrument @ '': '' @ reason)
       (s\<lparr> sm_failed_polls := dict_set instrument reason (sm_failed_polls s) \<rparr>)"

definition on_failed_poll_persistence_recovered :: "string \<Rightarrow> sm \<Rightarrow> sm" where
  "on_failed_poll_persistence_recovered instrument s =
     (if dict_get (sm_failed_polls s) instrument = None then s
      else sm_refresh (s\<lparr> sm_failed_polls := dict_del instrument (sm_failed_polls s) \<rparr>))"

text \<open>A retained child-fault settlement has ended.\<close>

definition settlement_over :: "string \<Rightarrow> sm \<Rightarrow> sm" where
  "settlement_over reason s =
     complete_stopping_generation_if_settled None
       (s\<lparr> sm_pending_settlements := remove1 reason (sm_pending_settlements s) \<rparr>)"

text \<open>The driver's attributes change; its class, and so its OFF tier, does not.\<close>

definition driver_changes :: "driver \<Rightarrow> sm \<Rightarrow> sm" where
  "driver_changes d s =
     (case sm_driver s of
        None \<Rightarrow> s
      | Some old \<Rightarrow> s\<lparr> sm_driver := Some (d\<lparr> dv_verified_off_source := dv_verified_off_source old \<rparr>) \<rparr>)"

definition env_apply :: "env_event \<Rightarrow> sm \<Rightarrow> sm" where
  "env_apply ev s =
     (case ev of
        EvTick dt \<Rightarrow> s\<lparr> sm_clock := sm_clock s + \<bar>dt\<bar> \<rparr>
      | EvDriver d \<Rightarrow> driver_changes d s
      | EvLatch f \<Rightarrow> latch_request f s
      | EvSettled answer \<Rightarrow> settle_fault_answered answer s
      | EvAbort full \<Rightarrow> register_abort_intent full s
      | EvChildEnds role out \<Rightarrow> child_ends role out s
      | EvObserveChildren \<Rightarrow> observe_terminal_safety_children s
      | EvAbandon g \<Rightarrow> abandon_reviewed_source_connect g s
      | EvSettlementOver reason \<Rightarrow> settlement_over reason s
      | EvReading rd \<Rightarrow> collect_reading rd s
      | EvDeadChannel interlock ch \<Rightarrow> note_mature_dead interlock ch s
      | EvBlindGuard interlock ch reasons v recorded \<Rightarrow> note_blind_guard interlock ch reasons v recorded s
      | EvRecoveredChannel ch \<Rightarrow> on_interlock_channel_recovered ch s
      | EvPersistenceFailure reason \<Rightarrow> persistence_failure_sync reason s
      | EvPollFailure instrument reason \<Rightarrow> failed_poll_failure_sync instrument reason s
      | EvPollRecovered instrument \<Rightarrow> on_failed_poll_persistence_recovered instrument s
      | EvInterlockNamed n \<Rightarrow> s\<lparr> sm_tripped_controls := insert n (sm_tripped_controls s) \<rparr>
      | EvChecksFirst \<Rightarrow> snd (run_checks_first s)
      | EvChecksSecond now wd \<Rightarrow> run_checks_second now wd s)"

definition env_run :: "env_event list \<Rightarrow> sm \<Rightarrow> sm" where
  "env_run evs s = foldl (\<lambda>t ev. env_apply ev t) s evs"

text \<open>Waiting for an owned hardware task: its settlement, after what happened meanwhile.\<close>

type_synonym 'r hw = "('r, env_event) await"

definition hw_call :: "hw_command \<Rightarrow> 'r hw \<Rightarrow> sm \<Rightarrow> (string + 'r) \<times> bool \<times> sm" where
  "hw_call cmd h s = (aw_result h, aw_cancelled h,
     env_run (aw_interference h) (s\<lparr> sm_commands := sm_commands s @ [cmd] \<rparr>))"

section \<open>The contract of interference\<close>

text \<open>
  What an operation that holds the command lock may rely on while it waits: the abort epochs only
  grow, a latch is kept and always advances the full epoch past the epoch before it, and nobody else
  adds an active source. Its client lemmas are about any sequence of steps.
\<close>

locale interference =
  fixes step :: "'e \<Rightarrow> 's \<Rightarrow> 's"
    and epoch :: "'s \<Rightarrow> nat"
    and full_epoch :: "'s \<Rightarrow> nat"
    and latched :: "'s \<Rightarrow> bool"
    and owned :: "'s \<Rightarrow> 'c set"
  assumes step_epoch: "epoch s \<le> epoch (step e s)"
    and step_full: "full_epoch s \<le> epoch s \<Longrightarrow> full_epoch s \<le> full_epoch (step e s)"
    and step_bound: "full_epoch s \<le> epoch s \<Longrightarrow> full_epoch (step e s) \<le> epoch (step e s)"
    and step_latched: "latched s \<Longrightarrow> latched (step e s)"
    and step_cut: "full_epoch s \<le> epoch s \<Longrightarrow> \<not> latched s \<Longrightarrow> latched (step e s) \<Longrightarrow> epoch s < full_epoch (step e s)"
    and step_owned: "owned (step e s) \<subseteq> owned s"
begin

definition run :: "'e list \<Rightarrow> 's \<Rightarrow> 's" where
  "run es s = foldl (\<lambda>t e. step e t) s es"

lemma run_Nil [simp]: "run [] s = s" and run_Cons [simp]: "run (e # es) s = run es (step e s)"
  by (simp_all add: run_def)

lemma run_epoch: "epoch s \<le> epoch (run es s)"
  by (induction es arbitrary: s) (auto intro: order_trans step_epoch)

lemma run_bound: "full_epoch s \<le> epoch s \<Longrightarrow> full_epoch (run es s) \<le> epoch (run es s)"
  by (induction es arbitrary: s) (auto dest: step_bound)

lemma run_full: "full_epoch s \<le> epoch s \<Longrightarrow> full_epoch s \<le> full_epoch (run es s)"
proof (induction es arbitrary: s)
  case (Cons e es)
  have "full_epoch s \<le> full_epoch (step e s)" using Cons.prems by (rule step_full)
  also have "\<dots> \<le> full_epoch (run es (step e s))" by (rule Cons.IH) (rule step_bound [OF Cons.prems])
  finally show ?case by simp
qed simp

lemma run_latched: "latched s \<Longrightarrow> latched (run es s)"
  by (induction es arbitrary: s) (auto dest: step_latched)

lemma run_owned: "owned (run es s) \<subseteq> owned s"
  by (induction es arbitrary: s) (auto dest!: subsetD [OF step_owned])

lemma run_cut:
  "full_epoch s \<le> epoch s \<Longrightarrow> \<not> latched s \<Longrightarrow> latched (run es s) \<Longrightarrow> epoch s < full_epoch (run es s)"
proof (induction es arbitrary: s)
  case (Cons e es)
  show ?case
  proof (cases "latched (step e s)")
    case True
    have "epoch s < full_epoch (step e s)" using Cons.prems(1,2) True by (rule step_cut)
    also have "\<dots> \<le> full_epoch (run es (step e s))" by (rule run_full) (rule step_bound [OF Cons.prems(1)])
    finally show ?thesis by simp
  next
    case False
    thus ?thesis
      using Cons.IH [OF step_bound [OF Cons.prems(1)] False] Cons.prems(3) step_epoch [of s e] by fastforce
  qed
qed simp

text \<open>If the epoch did not move, no fault was latched meanwhile.\<close>

lemma run_quiet:
  assumes "full_epoch s \<le> epoch s" "epoch (run es s) = epoch s"
  shows "latched (run es s) \<longleftrightarrow> latched s"
  using assms run_cut [of s es] run_bound [of s es] run_latched [of s es] by linarith

end

text \<open>
  One step of the manager as seen by a waiting operation. Nothing but a start energizes: the
  commands it adds contain none.
\<close>

definition is_start :: "hw_command \<Rightarrow> bool" where
  "is_start c = (case c of CmdStart _ _ _ _ \<Rightarrow> True | _ \<Rightarrow> False)"

definition only_safe_commands :: "sm \<Rightarrow> sm \<Rightarrow> bool" where
  "only_safe_commands s t =
     (\<exists>cs. sm_commands t = sm_commands s @ cs \<and> (\<forall>c \<in> set cs. \<not> is_start c))"

lemma only_safe_same: "sm_commands t = sm_commands s \<Longrightarrow> only_safe_commands s t"
  by (simp add: only_safe_commands_def)

lemma only_safe_trans: "only_safe_commands s t \<Longrightarrow> only_safe_commands t u \<Longrightarrow> only_safe_commands s u"
proof -
  assume "only_safe_commands s t" "only_safe_commands t u"
  then obtain cs ds where "sm_commands t = sm_commands s @ cs" "\<forall>c \<in> set cs. \<not> is_start c"
      "sm_commands u = sm_commands t @ ds" "\<forall>c \<in> set ds. \<not> is_start c"
    unfolding only_safe_commands_def by blast
  hence "sm_commands u = sm_commands s @ (cs @ ds) \<and> (\<forall>c \<in> set (cs @ ds). \<not> is_start c)" by auto
  thus ?thesis unfolding only_safe_commands_def by blast
qed

definition interferes :: "sm \<Rightarrow> sm \<Rightarrow> bool" where
  "interferes s t =
     (sm_abort_generation s \<le> sm_abort_generation t
      \<and> (sm_full_abort_generation s \<le> sm_abort_generation s \<longrightarrow>
           sm_full_abort_generation s \<le> sm_full_abort_generation t
           \<and> sm_full_abort_generation t \<le> sm_abort_generation t)
      \<and> (sm_state s = FAULT_LATCHED \<longrightarrow> sm_state t = FAULT_LATCHED)
      \<and> (sm_full_abort_generation s \<le> sm_abort_generation s \<longrightarrow>
           sm_state s \<noteq> FAULT_LATCHED \<longrightarrow> sm_state t = FAULT_LATCHED \<longrightarrow>
           sm_abort_generation s < sm_full_abort_generation t)
      \<and> sm_active t \<subseteq> sm_active s
      \<and> sm_config t = sm_config s \<and> sm_mock t = sm_mock s
      \<and> map_option dv_verified_off_source (sm_driver t) = map_option dv_verified_off_source (sm_driver s)
      \<and> only_safe_commands s t)"

named_theorems calm "operations that interfere only as the contract allows"

lemma interferes_refl [calm]: "interferes s s"
  by (simp add: interferes_def only_safe_same)

lemma interferes_trans: "interferes s t \<Longrightarrow> interferes t u \<Longrightarrow> interferes s u"
  unfolding interferes_def using only_safe_trans [of s t u] by (cases "sm_state t = FAULT_LATCHED") auto

lemma interferes_refresh [calm]: "interferes s (sm_refresh s)"
  and interferes_evidence [calm]: "interferes s (set_evidence e s)"
  and interferes_abort [calm]: "interferes s (register_abort_intent full s)"
  by (auto simp: interferes_def only_safe_same)

lemma interferes_latch [calm]: "interferes s (snd (begin_fault_latch reason ch v source s))"
proof (cases "sm_state s = FAULT_LATCHED")
  case True
  thus ?thesis by (simp add: begin_fault_latch_again interferes_def only_safe_same)
next
  case False
  thus ?thesis using begin_fault_latch_epoch [OF False, of reason ch v source] by (simp add: interferes_def only_safe_same)
qed

lemma interferes_latch_request [calm]: "interferes s (latch_request f s)"
  by (simp add: latch_request_def interferes_latch)

lemma interferes_same:
  "sm_abort_generation t = sm_abort_generation s \<Longrightarrow> sm_full_abort_generation t = sm_full_abort_generation s \<Longrightarrow>
   (sm_state t = FAULT_LATCHED \<longleftrightarrow> sm_state s = FAULT_LATCHED) \<Longrightarrow> sm_active t \<subseteq> sm_active s \<Longrightarrow>
   sm_config t = sm_config s \<Longrightarrow> sm_mock t = sm_mock s \<Longrightarrow> map_option dv_verified_off_source (sm_driver t) = map_option dv_verified_off_source (sm_driver s) \<Longrightarrow>
   sm_commands t = sm_commands s \<Longrightarrow> interferes s t"
  by (simp add: interferes_def only_safe_same)

lemma interferes_then:
  "interferes s u \<Longrightarrow> (\<And>x. interferes x (f x)) \<Longrightarrow> interferes s (f u)"
  by (rule interferes_trans)

lemma interferes_revoke_child [calm]: "interferes s (revoke_child_authority role out s)"
proof -
  let ?s1 = "set_evidence (unknown_global_off_evidence s) (s\<lparr> sm_source_generation := None, sm_connected := False \<rparr>)"
  let ?s2 = "?s1\<lparr> sm_monitor_active := False, sm_failed_role := Some (role_name role),
      sm_failed_reason := Some (''safety_'' @ role_name role @ ''_'' @ outcome_name out) \<rparr>"
  let ?r = "''Safety '' @ role_name role @ '' child exited unexpectedly''"
  let ?s3 = "snd (begin_fault_latch ?r [] (Fin 0) (''safety_'' @ role_name role) ?s2)"
  have "interferes s ?s2" by (rule interferes_same) simp_all
  hence "interferes s (sm_refresh ?s3)"
    using interferes_trans interferes_latch interferes_refresh by meson
  thus ?thesis
    unfolding revoke_child_authority_def Let_def
    by (rule interferes_trans) (rule interferes_same; simp)
qed

lemma interferes_child_done [calm]: "interferes s (operator_child_done c role g s)"
proof -
  let ?s1 = "s\<lparr> sm_consumed := insert (ch_id c) (sm_consumed s) \<rparr>"
  have one: "interferes s ?s1" by (rule interferes_same) simp_all
  have "interferes s (revoke_child_authority role out ?s1)" for out
    using one interferes_revoke_child by (rule interferes_trans)
  thus ?thesis using one by (simp add: operator_child_done_def Let_def calm split: option.splits)
qed

lemma interferes_observe [calm]: "interferes s (observe_terminal_safety_children s)"
proof -
  let ?f = "\<lambda>role c t. case c of None \<Rightarrow> t
      | Some x \<Rightarrow> if ch_outcome x \<noteq> None then operator_child_done x role (sm_child_generation s) t else t"
  have f: "interferes t (?f role c t)" for role c t
    by (simp add: calm split: option.splits)
  show ?thesis
    unfolding observe_terminal_safety_children_def Let_def using f f by (rule interferes_trans)
qed

lemma interferes_revoke_connection [calm]: "interferes s (revoke_connection s)"
  by (rule interferes_same) (simp_all add: revoke_connection_def)

lemma interferes_abandon [calm]: "interferes s (abandon_reviewed_source_connect g s)"
  using interferes_trans [OF interferes_abort interferes_revoke_connection]
  by (simp add: abandon_reviewed_source_connect_def interferes_refl)

lemma interferes_commit_off [calm]: "interferes s (snd (commit_output_off c a s))"
  by (rule interferes_same) (simp_all add: commit_output_off_def Let_def)

lemma interferes_commit_settlement [calm]: "interferes s (commit_fault_settlement confirmed s)"
  by (rule interferes_same) (simp_all add: commit_fault_settlement_def Let_def)

lemma interferes_settle [calm]: "interferes s (settle_fault_answered a s)"
proof -
  have "interferes s (commit_fault_settlement (fst (commit_output_off None a s)) (snd (commit_output_off None a s)))"
    by (rule interferes_trans [OF interferes_commit_off interferes_commit_settlement])
  thus ?thesis by (simp add: settle_fault_answered_def calm case_prod_beta Let_def)
qed

lemma interferes_persistence [calm]: "interferes s (persistence_failure_sync reason s)"
proof -
  have "interferes s (sm_refresh (s\<lparr> sm_persistence_fault := True \<rparr>))"
    by (rule interferes_same) simp_all
  thus ?thesis unfolding persistence_failure_sync_def using interferes_latch by (rule interferes_trans)
qed

lemma interferes_poll_failure [calm]: "interferes s (failed_poll_failure_sync i r s)"
proof -
  have "interferes s (s\<lparr> sm_failed_polls := dict_set i r (sm_failed_polls s) \<rparr>)"
    by (rule interferes_same) simp_all
  thus ?thesis unfolding failed_poll_failure_sync_def using interferes_persistence by (rule interferes_trans)
qed

lemma interferes_poll_recovered [calm]: "interferes s (on_failed_poll_persistence_recovered i s)"
  by (rule interferes_same) (simp_all add: on_failed_poll_persistence_recovered_def)

lemma interferes_mature_dead [calm]: "interferes s (note_mature_dead i ch s)"
  by (rule interferes_same) (simp_all add: note_mature_dead_def Let_def)

lemma interferes_blind_guard [calm]: "interferes s (note_blind_guard i ch rs v r s)"
  by (rule interferes_same) (simp_all add: note_blind_guard_def Let_def)

lemma interferes_channel_recovered [calm]: "interferes s (on_interlock_channel_recovered ch s)"
  by (rule interferes_same) (simp_all add: on_interlock_channel_recovered_def Let_def)

lemma interferes_reading [calm]: "interferes s (collect_reading rd s)"
  by (rule interferes_same) (simp_all add: collect_reading_def Let_def split: option.splits)

lemma interferes_child_ends [calm]: "interferes s (child_ends role out s)"
  by (rule interferes_same) (simp_all add: child_ends_def set_child_def split: option.splits child_role.splits)

lemma interferes_settlement_over [calm]: "interferes s (settlement_over reason s)"
  by (rule interferes_same)
     (simp_all add: settlement_over_def complete_stopping_generation_if_settled_def split: option.splits)

lemma interferes_checks_first [calm]: "interferes s (snd (run_checks_first s))"
proof -
  have t: "interferes x (sm_transition READY r [] (Fin 0) x)" if "sm_state x \<noteq> FAULT_LATCHED" for r x
    by (rule interferes_same) (use that in simp_all)
  have "interferes (sm_refresh s) (snd (run_checks_first s))"
    using t [of "sm_refresh s"]
    by (simp add: run_checks_first_def Let_def calm split: option.splits safety_state.splits)
  thus ?thesis by (rule interferes_trans [OF interferes_refresh])
qed

lemma interferes_checks_second [calm]: "interferes s (run_checks_second now wd s)"
proof -
  have e: "interferes s (s\<lparr> sm_rate := e \<rparr>)" for e
    by (rule interferes_same) simp_all
  have "interferes s (latch_request f (s\<lparr> sm_rate := e \<rparr>))" for f e
    using e interferes_latch_request by (rule interferes_trans)
  thus ?thesis
    using e by (simp add: run_checks_second_def calm split: option.splits prod.splits)
qed

lemma interferes_env [calm]: "interferes s (env_apply ev s)"
proof (cases ev)
  case (EvTick dt)
  show ?thesis by (rule interferes_same) (simp_all add: env_apply_def EvTick)
next
  case (EvDriver d)
  show ?thesis by (rule interferes_same) (simp_all add: env_apply_def EvDriver driver_changes_def split: option.splits)
next
  case (EvInterlockNamed n)
  show ?thesis by (rule interferes_same) (simp_all add: env_apply_def EvInterlockNamed)
qed (simp_all add: env_apply_def calm)

interpretation others: interference env_apply sm_abort_generation sm_full_abort_generation
  "\<lambda>s. sm_state s = FAULT_LATCHED" sm_active
  using interferes_env by unfold_locales (auto simp: interferes_def)

lemma env_run_others: "env_run = others.run"
  by (intro ext) (simp add: env_run_def others.run_def)

lemma env_run_interferes [calm]: "interferes s (env_run evs s)"
proof (induction evs arbitrary: s)
  case (Cons ev evs)
  thus ?case unfolding env_run_def foldl.simps by (rule interferes_trans [OF interferes_env])
qed (simp add: env_run_def calm)

lemma env_run_Nil [simp]: "env_run [] s = s"
  by (simp add: env_run_def)

end
