(* ===== verification/SafetyOff.thy ===== *)
theory SafetyOff
  imports SafetyChildren
begin

text \<open>
  The shutdown paths of the safety manager: the owned OFF command, the settlement of a fault, the
  per-channel stop, the reconciliation of known ownership conflicts, emergency OFF, operator stop
  and interlock trips. Each wait for the driver is an answer together with the interference of other
  tasks during it; the result tells whether the caller's cancellation is re-raised.

  Sharing one running global OFF between concurrent callers is not modelled: every caller receives
  the answer of the operation it waits for.
\<close>

section \<open>Outcomes\<close>

datatype 'a outcome = Returned 'a | CallerCancelled | RaisedExn py_exn

record reply =
  ry_ok :: bool
  ry_state :: safety_state
  ry_active :: "smu_channel set"
  ry_error :: string
  ry_verified_off :: bool

definition mk_reply :: "bool \<Rightarrow> string \<Rightarrow> sm \<Rightarrow> reply" where
  "mk_reply ok err s = \<lparr> ry_ok = ok, ry_state = sm_state s, ry_active = sm_active s, ry_error = err,
                         ry_verified_off = verified_off (sm_evidence s) \<rparr>"

definition finish :: "bool \<Rightarrow> 'a \<Rightarrow> 'a outcome" where
  "finish cancelled r = (if cancelled then CallerCancelled else Returned r)"

text \<open>A wait that does not reach the driver (operator log, publication).\<close>

record side_wait =
  sw_cancelled :: bool
  sw_interference :: "env_event list"

definition side :: "side_wait \<Rightarrow> sm \<Rightarrow> bool \<times> sm" where
  "side w s = (sw_cancelled w, env_run (sw_interference w) s)"

section \<open>The owned OFF command\<close>

text \<open>Whether OFF is exactly confirmed, whether the caller was cancelled, and the state.\<close>

definition ensure_output_off :: "smu_channel option \<Rightarrow> drv_value hw \<Rightarrow> sm \<Rightarrow> bool \<times> bool \<times> sm" where
  "ensure_output_off channel h s =
     (if sm_driver s = None then (True, False, s)
      else
        (let (answer, cancelled, s1) = hw_call (CmdOff channel) h s;
             (exact, s2) = commit_output_off channel answer s1
         in (exact, cancelled, s2)))"

text \<open>A cancelled OFF surfaces in the waiter as a cancellation, so it confirms nothing to it.\<close>

definition off_confirmed :: "bool \<times> bool \<times> sm \<Rightarrow> bool" where
  "off_confirmed r = (fst r \<and> \<not> fst (snd r))"

section \<open>Faults\<close>

record fault_env =
  fe_off :: "drv_value hw"
  fe_log :: side_wait
  fe_publish :: side_wait

text \<open>
  \<open>_settle_latched_fault\<close>: the OFF attempt is a task of its own, so its cancellation is the owned
  task's outcome (an unconfirmed OFF), while the settlement's own caller may be cancelled too.
\<close>

definition settle_latched_fault :: "fault_env \<Rightarrow> sm \<Rightarrow> bool \<times> sm" where
  "settle_latched_fault fe s =
     (let off = (if sm_driver s = None then (True, False, s) else ensure_output_off None (fe_off fe) s);
          s1 = commit_fault_settlement (off_confirmed off) (snd (snd off));
          (c2, s2) = side (fe_log fe) s1;
          (c3, s3) = side (fe_publish fe) s2
      in (c2 \<or> c3, s3))"

text \<open>
  \<open>_fault\<close>. When the snapshot of the latched state does not fit its bounds, the constructor raises
  inside the latch: the state is latched, and the settlement is never reached.
\<close>

definition sm_fault :: "fault_request \<Rightarrow> fault_env \<Rightarrow> sm \<Rightarrow> unit outcome \<times> sm" where
  "sm_fault f fe s =
     (let reason = fr_reason f; ch = fr_channel f; v = fr_value f; src = fr_source f
      in if sm_state s = FAULT_LATCHED then (Returned (), snd (begin_fault_latch reason ch v src s))
         else if \<not> snapshot_fits (fault_cut reason ch v src s)
         then (RaisedExn (ValueError ''operator snapshot''), refreshed_evidence (fault_cut reason ch v src s))
         else
           (let (cancelled, s') = settle_latched_fault fe (snd (begin_fault_latch reason ch v src s))
            in (finish cancelled (), s')))"

definition fault_in :: "fault_request \<Rightarrow> fault_env \<Rightarrow> sm \<Rightarrow> sm" where
  "fault_in f fe s = snd (sm_fault f fe s)"

section \<open>Reconciliation of hazardous success\<close>

record reconcile_env =
  rc_fault :: fault_env
  rc_drain :: side_wait
  rc_proof :: "drv_value hw"
  rc_late_drain :: side_wait
  rc_late_drained :: bool
  rc_ordered :: "drv_value hw"
  rc_publish :: side_wait

definition clear_if :: "bool \<Rightarrow> sm \<Rightarrow> sm" where
  "clear_if b s = (if b then s\<lparr> sm_active := {} \<rparr> else s)"

text \<open>The conflict latches, settles, and is followed by a fresh proof of global OFF.\<close>

definition reconcile_settle :: "string \<Rightarrow> smu_channel option \<Rightarrow> reconcile_env \<Rightarrow> sm \<Rightarrow> bool \<times> sm" where
  "reconcile_settle reason channel re s =
     (let s1 = snd (begin_fault_latch reason (smu_opt_name channel) (Fin 0) ''hazardous_success_reconciliation'' s);
          (c1, s2) = settle_latched_fault (rc_fault re) s1;
          (c2, s3) = side (rc_drain re) s2
      in (c1 \<or> c2, s3))"

text \<open>A global OFF proof that clears the tracked sources when exact.\<close>

definition global_off_proof :: "drv_value hw \<Rightarrow> sm \<Rightarrow> sm" where
  "global_off_proof h s =
     (let off = ensure_output_off None h s in clear_if (off_confirmed off) (snd (snd off)))"

text \<open>Settlements that appeared meanwhile are drained and followed by one more proof.\<close>

definition reconcile_late :: "reconcile_env \<Rightarrow> sm \<Rightarrow> bool \<times> sm" where
  "reconcile_late re s =
     (if sm_pending_settlements s = [] then (False, s)
      else
        (let (c, s1) = side (rc_late_drain re) s
         in (c, if rc_late_drained re then global_off_proof (rc_ordered re) s1 else s1)))"

definition reconcile_hazardous_success :: "string \<Rightarrow> reconcile_env \<Rightarrow> sm \<Rightarrow> string option \<times> bool \<times> sm" where
  "reconcile_hazardous_success operation re s0 =
     (let s = observe_terminal_safety_children s0
      in case hazardous_success_conflict s of
           None \<Rightarrow> (None, False, s)
         | Some (channel, detail) \<Rightarrow>
             (let reason = operation @ '' hazardous-success reconciliation failed: '' @ detail;
                  (c1, s1) = reconcile_settle reason channel re s;
                  s2 = observe_terminal_safety_children (global_off_proof (rc_proof re) s1);
                  (c3, s3) = reconcile_late re s2;
                  (c4, s4) = side (rc_publish re) (sm_refresh s3)
              in (Some reason, c1 \<or> c3 \<or> c4, s4)))"

section \<open>Emergency OFF\<close>

definition resolve_channels :: "smu_channel option \<Rightarrow> smu_channel set" where
  "resolve_channels channel = (case channel of None \<Rightarrow> UNIV | Some c \<Rightarrow> {c})"

record off_env =
  oe_reconcile_before :: reconcile_env
  oe_off :: "drv_value hw"
  oe_fault :: fault_env
  oe_reconcile_after :: reconcile_env
  oe_publish :: side_wait

definition emergency_off_locked :: "smu_channel option \<Rightarrow> off_env \<Rightarrow> sm \<Rightarrow> reply outcome \<times> sm" where
  "emergency_off_locked channel oe s =
     (let channels = resolve_channels channel;
          (r1, c1, s1) = reconcile_hazardous_success ''emergency OFF'' (oe_reconcile_before oe) s
      in if c1 then (CallerCancelled, s1)
         else if r1 \<noteq> None then (Returned (mk_reply False (the r1) s1), s1)
         else
           (let (confirmed, c2, s2) = ensure_output_off channel (oe_off oe) s1
            in if c2 then (CallerCancelled, s2)
               else if \<not> confirmed then
                 (case sm_fault (plain_fault ''emergency_off could not confirm output OFF'' (smu_opt_name channel))
                         (oe_fault oe) s2 of
                    (Returned _, s3) \<Rightarrow>
                      (Returned (mk_reply False ''emergency_off could not confirm output OFF'' s3), s3)
                  | (CallerCancelled, s3) \<Rightarrow> (CallerCancelled, s3)
                  | (RaisedExn e, s3) \<Rightarrow> (RaisedExn e, s3))
               else
                 (let s3 = sm_refresh (s2\<lparr> sm_active := sm_active s2 - channels \<rparr>);
                      (r4, c4, s4) = reconcile_hazardous_success ''emergency OFF'' (oe_reconcile_after oe) s3
                  in if c4 then (CallerCancelled, s4)
                     else if r4 \<noteq> None then (Returned (mk_reply False (the r4) s4), s4)
                     else
                       (let s5 = (if sm_state s4 \<noteq> FAULT_LATCHED \<and> sm_active s4 = {}
                                  then sm_transition SAFE_OFF ''Operator emergency off'' [] (Fin 0) s4 else s4);
                            (c6, s6) = side (oe_publish oe) s5
                        in (finish c6 (mk_reply True [] s5), s6)))))"

text \<open>
  The operator operation registers its abort before it waits for the command lock, during which
  anything may happen.
\<close>

definition emergency_off :: "smu_channel option \<Rightarrow> env_event list \<Rightarrow> off_env \<Rightarrow> sm \<Rightarrow> reply outcome \<times> sm" where
  "emergency_off channel lock_wait oe s =
     emergency_off_locked channel oe (env_run lock_wait (register_abort_intent (channel = None) s))"

section \<open>Stopping channels\<close>

record stop_env =
  se_stop :: "smu_channel \<Rightarrow> drv_value hw"
  se_fault :: fault_env
  se_latched_off :: "drv_value hw"

text \<open>
  The loop over the sorted channels: the channels confirmed stopped, whether a competing authority
  change interrupted it, whether the caller was cancelled, and how it ended (\<open>None\<close>: to the end).
\<close>

definition stop_failed :: "string + drv_value \<Rightarrow> bool" where
  "stop_failed answer = (case answer of Inl _ \<Rightarrow> True | Inr DvFalse \<Rightarrow> True | Inr _ \<Rightarrow> False)"

fun safe_off_loop :: "nat option \<Rightarrow> stop_env \<Rightarrow> smu_channel list \<Rightarrow> smu_channel set \<Rightarrow> bool \<Rightarrow> bool \<Rightarrow> sm \<Rightarrow>
    smu_channel set \<times> bool \<times> bool \<times> unit outcome option \<times> sm" where
  "safe_off_loop expected se [] applied interrupted cancelled s = (applied, interrupted, cancelled, None, s)"
| "safe_off_loop expected se (c # cs) applied interrupted cancelled s =
     (let (answer, cc, s1) = hw_call (CmdStop c) (se_stop se c) s
      in if stop_failed answer then
           (let (out, s2) = sm_fault (plain_fault (''stop_source failed on '' @ smu_name c) (smu_name c)) (se_fault se) s1
            in (applied, True, cancelled \<or> cc, Some out, s2))
         else
           (let s2 = observe_terminal_safety_children (sm_refresh (s1\<lparr> sm_active := sm_active s1 - {c} \<rparr>));
                i = (sm_state s2 = FAULT_LATCHED
                     \<or> (case expected of None \<Rightarrow> False
                        | Some g \<Rightarrow> sm_abort_generation s2 \<noteq> g \<or> \<not> safety_children_authoritative s2))
            in safe_off_loop expected se cs (insert c applied) (interrupted \<or> i) (cancelled \<or> cc) s2))"

definition finish_safe_off :: "string \<Rightarrow> smu_channel set \<Rightarrow> bool \<Rightarrow> bool \<Rightarrow> sm \<Rightarrow>
    (smu_channel set \<times> bool) outcome \<times> sm" where
  "finish_safe_off reason applied interrupted cancelled s =
     (if interrupted then (finish cancelled (applied, True), sm_refresh s)
      else if sm_active s \<noteq> {}
      then (Returned (applied, False), sm_transition RUNNING ''Partial stop'' [] (Fin 0) s)
      else
        (let s1 = s\<lparr> sm_connected := has_current_reviewed_connection_generation s \<rparr>
         in (finish cancelled (applied, False),
             sm_transition SAFE_OFF reason [] (Fin 0) (set_evidence (unknown_global_off_evidence s1) s1))))"

definition safe_off :: "string \<Rightarrow> smu_channel list \<Rightarrow> nat option \<Rightarrow> stop_env \<Rightarrow> sm \<Rightarrow>
    (smu_channel set \<times> bool) outcome \<times> sm" where
  "safe_off reason channels expected se s =
     (if sm_state s = FAULT_LATCHED then
        (let (_, c, s1) = ensure_output_off None (se_latched_off se) s in (finish c ({}, True), s1))
      else if sm_driver s = None then
        finish_safe_off reason (set channels) False False (s\<lparr> sm_active := sm_active s - set channels \<rparr>)
      else
        (let (applied, interrupted, cancelled, ended, s1) = safe_off_loop expected se channels {} False False s
         in case ended of
              Some (RaisedExn e) \<Rightarrow> (RaisedExn e, s1)
            | Some CallerCancelled \<Rightarrow> (CallerCancelled, s1)
            | Some (Returned _) \<Rightarrow> (finish cancelled (applied, True), s1)
            | None \<Rightarrow> finish_safe_off reason applied interrupted cancelled s1))"

section \<open>Operator stop\<close>

record request_stop_env =
  qs_lock_wait :: "env_event list"
  qs_before :: reconcile_env
  qs_latched_off :: "drv_value hw"
  qs_stop :: stop_env
  qs_after :: reconcile_env
  qs_publish :: side_wait

definition channel_list :: "smu_channel option \<Rightarrow> smu_channel list" where
  "channel_list c = (case c of None \<Rightarrow> SMU_CHANNELS | Some x \<Rightarrow> [x])"

definition request_stop_owned :: "smu_channel option \<Rightarrow> nat \<Rightarrow> request_stop_env \<Rightarrow> sm \<Rightarrow> reply outcome \<times> sm" where
  "request_stop_owned channel expected qe s =
     (let (r1, c1, s1) = reconcile_hazardous_success ''operator stop'' (qs_before qe) s
      in if c1 then (CallerCancelled, s1)
         else if r1 \<noteq> None then (Returned (mk_reply False (the r1) s1), s1)
         else if sm_state s1 = FAULT_LATCHED then
           (let (_, c2, s2) = ensure_output_off channel (qs_latched_off qe) s1
            in (finish c2 (mk_reply False ''System is fault-latched - acknowledge_fault required'' s2), s2))
         else
           (case safe_off ''Operator stop'' (channel_list channel) (Some expected) (qs_stop qe) s1 of
              (RaisedExn e, s2) \<Rightarrow> (RaisedExn e, s2)
            | (CallerCancelled, s2) \<Rightarrow> (CallerCancelled, s2)
            | (Returned (applied, interrupted), s2) \<Rightarrow>
                (let (r3, c3, s3) = reconcile_hazardous_success ''operator stop'' (qs_after qe) s2;
                     (c4, s4) = side (qs_publish qe) s3
                 in if c4 \<or> c3 then (CallerCancelled, s4)
                    else
                      (let s5 = observe_terminal_safety_children s4;
                           i = (interrupted \<or> sm_abort_generation s5 \<noteq> expected
                                \<or> sm_state s5 = FAULT_LATCHED \<or> \<not> safety_children_authoritative s5)
                       in if i then (Returned (mk_reply False
                               (case r3 of Some r \<Rightarrow> r
                                | None \<Rightarrow> if sm_state s5 = FAULT_LATCHED then ''Stop failed, fault latched''
                                         else ''Stop interrupted by a competing safety-authority change'') s5), s5)
                          else (Returned (mk_reply True [] s5), s5)))))"

definition request_stop :: "smu_channel option \<Rightarrow> request_stop_env \<Rightarrow> sm \<Rightarrow> reply outcome \<times> sm" where
  "request_stop channel qe s =
     (let s1 = register_abort_intent (channel = None) s
      in request_stop_owned channel (sm_abort_generation s1) qe (env_run (qs_lock_wait qe) s1))"

section \<open>Interlock trips\<close>

record interlock_env =
  ie_fault :: fault_env
  ie_lock_wait :: "env_event list"
  ie_off :: "drv_value hw"
  ie_publish :: side_wait

definition interlock_stop_source :: "string \<Rightarrow> string \<Rightarrow> pyfloat \<Rightarrow> interlock_env \<Rightarrow> sm \<Rightarrow> unit outcome \<times> sm" where
  "interlock_stop_source name channel value ie s0 =
     (let s = env_run (ie_lock_wait ie) (register_abort_intent True s0);
          (answer, c1, s1) = (if sm_driver s = None then (Inr DvOther, False, s)
                              else hw_call (CmdOff None) (ie_off ie) s);
          fault = (\<lambda>text. \<lparr> fr_reason = ''Interlock '' @ name @ text, fr_channel = channel, fr_value = value,
                            fr_source = ''safety_manager'' \<rparr>)
      in if sm_driver s \<noteq> None \<and> answer \<noteq> Inr (DvOff DEVICE_REPORTED_OFF) then
           (case sm_fault (fault (if (\<exists>e. answer = Inl e) then '' (emergency_off failed)''
                                  else '' (emergency_off could not confirm OFF)'')) (ie_fault ie) s1 of
              (Returned _, s2) \<Rightarrow> (finish c1 (), s2)
            | (out, s2) \<Rightarrow> (out, s2))
         else if sm_driver s = None
         then (RaisedExn (RuntimeError ''UnboundLocalError: ok''),
               s1\<lparr> sm_active := {}, sm_connected := has_current_reviewed_connection_generation s1 \<rparr>)
         else
           (let s2 = s1\<lparr> sm_active := {} \<rparr>;
                s3 = s2\<lparr> sm_connected := has_current_reviewed_connection_generation s2 \<rparr>;
                s4 = sm_refresh (set_evidence (global_off_evidence_for_result s3 (DvOff DEVICE_REPORTED_OFF)) s3);
                s5 = (if sm_state s4 \<notin> {FAULT_LATCHED, MANUAL_RECOVERY}
                      then sm_transition SAFE_OFF (''Interlock stop_source: '' @ name) channel value s4 else s4);
                (c6, s6) = side (ie_publish ie) s5
            in (finish (c1 \<or> c6) (), s6)))"

definition on_interlock_trip :: "string \<Rightarrow> string \<Rightarrow> pyfloat \<Rightarrow> string \<Rightarrow> interlock_env \<Rightarrow> sm \<Rightarrow> unit outcome \<times> sm" where
  "on_interlock_trip name channel value action ie s =
     (let s1 = (if action \<noteq> ''warning'' then s\<lparr> sm_tripped_controls := insert name (sm_tripped_controls s) \<rparr> else s);
          s2 = (if action = ''stop_source'' then register_abort_intent True s1 else s1);
          fault = (\<lambda>text source. \<lparr> fr_reason = text @ name, fr_channel = channel, fr_value = value,
                                   fr_source = source \<rparr>)
      in if action = ''emergency_off'' then sm_fault (fault ''Interlock tripped: '' ''interlock'') (ie_fault ie) s2
         else if action = ''stop_source'' then interlock_stop_source name channel value ie s2
         else sm_fault (fault ''Unknown interlock action: '' ''safety_manager'') (ie_fault ie) s2)"

section \<open>Shutdown paths only shut down\<close>

lemma interferes_command:
  "\<not> is_start cmd \<Longrightarrow> interferes s (s\<lparr> sm_commands := sm_commands s @ [cmd] \<rparr>)"
  unfolding interferes_def by (auto simp: only_safe_commands_def)

lemma interferes_hw_call: "\<not> is_start cmd \<Longrightarrow> interferes s (snd (snd (hw_call cmd h s)))"
  unfolding hw_call_def snd_conv by (rule interferes_trans [OF interferes_command env_run_interferes])

lemma interferes_side [calm]: "interferes s (snd (side w s))"
  by (simp add: side_def env_run_interferes)

lemma interferes_ensure [calm]: "interferes s (snd (snd (ensure_output_off c h s)))"
proof -
  have "interferes s (snd (commit_output_off c (fst (hw_call (CmdOff c) h s)) (snd (snd (hw_call (CmdOff c) h s)))))"
    by (rule interferes_trans [OF interferes_hw_call interferes_commit_off]) (simp add: is_start_def)
  thus ?thesis by (simp add: ensure_output_off_def calm case_prod_beta Let_def)
qed

lemma interferes_settle_fault [calm]: "interferes s (snd (settle_latched_fault fe s))"
proof -
  have off: "interferes s (snd (snd (if sm_driver s = None then (True, False, s) else ensure_output_off None (fe_off fe) s)))"
    by (simp add: calm)
  show ?thesis
    unfolding settle_latched_fault_def Let_def case_prod_beta snd_conv
    by (rule interferes_trans [OF interferes_trans [OF interferes_trans [OF off interferes_commit_settlement]
          interferes_side] interferes_side])
qed

lemma interferes_refreshed_evidence [calm]: "interferes s (refreshed_evidence s)"
  by (rule interferes_same) (simp_all add: refreshed_evidence_fields)

lemma interferes_fault_cut: "sm_state s \<noteq> FAULT_LATCHED \<Longrightarrow> interferes s (fault_cut r c v src s)"
  unfolding interferes_def
  by (simp add: fault_cut_def transition_cut_def Let_def only_safe_same)

lemma interferes_fault [calm]: "interferes s (snd (sm_fault f fe s))"
proof -
  have "interferes s (snd (settle_latched_fault fe (snd (begin_fault_latch r c v src s))))" for r c v src
    by (rule interferes_trans [OF interferes_latch interferes_settle_fault])
  moreover have "sm_state s \<noteq> FAULT_LATCHED \<Longrightarrow> interferes s (refreshed_evidence (fault_cut r c v src s))" for r c v src
    by (rule interferes_trans [OF interferes_fault_cut interferes_refreshed_evidence])
  ultimately show ?thesis
    by (simp add: sm_fault_def Let_def case_prod_beta calm)
qed

lemma interferes_clear [calm]: "interferes s (clear_if b s)"
  by (rule interferes_same) (simp_all add: clear_if_def)

lemma fault_latches: "sm_state (snd (sm_fault f fe s)) = FAULT_LATCHED"
proof -
  have "interferes s1 (snd (settle_latched_fault fe s1))" for s1 by (rule interferes_settle_fault)
  hence "sm_state s1 = FAULT_LATCHED \<Longrightarrow> sm_state (snd (settle_latched_fault fe s1)) = FAULT_LATCHED" for s1
    by (simp add: interferes_def)
  moreover have "sm_state (refreshed_evidence (fault_cut r c v src s)) = FAULT_LATCHED" for r c v src
    by (simp add: refreshed_evidence_fields fault_cut_def transition_cut_def Let_def)
  ultimately show ?thesis
    by (simp add: sm_fault_def Let_def case_prod_beta begin_fault_latch_latches)
qed

lemma latched_kept: "interferes s t \<Longrightarrow> sm_state s = FAULT_LATCHED \<Longrightarrow> sm_state t = FAULT_LATCHED"
  by (simp add: interferes_def)

lemma active_shrinks: "interferes s t \<Longrightarrow> sm_active t \<subseteq> sm_active s"
  by (simp add: interferes_def)

lemma no_start: "interferes s t \<Longrightarrow> only_safe_commands s t"
  by (simp add: interferes_def)

lemma driver_kept: "interferes s t \<Longrightarrow> sm_driver t = None \<longleftrightarrow> sm_driver s = None"
  unfolding interferes_def by (cases "sm_driver t"; cases "sm_driver s") auto

lemma tier_kept: "interferes s t \<Longrightarrow> reviewed_source_off_tier t = reviewed_source_off_tier s"
  unfolding interferes_def reviewed_source_off_tier_def by (cases "sm_driver t"; cases "sm_driver s") auto

text \<open>The reconciliation stage by stage.\<close>

lemma interferes_after_latch:
  "interferes (snd (begin_fault_latch reason (smu_opt_name channel) (Fin 0) ''hazardous_success_reconciliation'' s))
     (snd (reconcile_settle reason channel re s))"
  unfolding reconcile_settle_def Let_def case_prod_beta snd_conv
  by (rule interferes_trans [OF interferes_settle_fault interferes_side])

lemma interferes_reconcile_settle [calm]: "interferes s (snd (reconcile_settle reason channel re s))"
  by (rule interferes_trans [OF interferes_latch interferes_after_latch])

lemma reconcile_settle_latched: "sm_state (snd (reconcile_settle reason channel re s)) = FAULT_LATCHED"
  by (rule latched_kept [OF interferes_after_latch]) simp

lemma interferes_proof [calm]: "interferes s (global_off_proof h s)"
  unfolding global_off_proof_def Let_def by (rule interferes_trans [OF interferes_ensure interferes_clear])

lemma interferes_late [calm]: "interferes s (snd (reconcile_late re s))"
proof -
  have "interferes s (global_off_proof (rc_ordered re) (snd (side (rc_late_drain re) s)))"
    by (rule interferes_trans [OF interferes_side interferes_proof])
  thus ?thesis by (simp add: reconcile_late_def calm case_prod_beta Let_def)
qed

lemma reconcile_None:
  "hazardous_success_conflict (observe_terminal_safety_children s) = None \<Longrightarrow>
     reconcile_hazardous_success op re s = (None, False, observe_terminal_safety_children s)"
  by (simp add: reconcile_hazardous_success_def)

lemma reconcile_Some:
  assumes "hazardous_success_conflict (observe_terminal_safety_children s) = Some (c, d)"
  shows "\<exists>r k t. reconcile_hazardous_success op re s = (Some r, k, t)
    \<and> interferes (snd (reconcile_settle r c re (observe_terminal_safety_children s))) t"
proof -
  define r where "r = op @ '' hazardous-success reconciliation failed: '' @ d"
  define s1 where "s1 = snd (reconcile_settle r c re (observe_terminal_safety_children s))"
  define s2 where "s2 = observe_terminal_safety_children (global_off_proof (rc_proof re) s1)"
  define s3 where "s3 = sm_refresh (snd (reconcile_late re s2))"
  define s4 where "s4 = snd (side (rc_publish re) s3)"
  have "interferes s1 s2" unfolding s2_def by (rule interferes_trans [OF interferes_proof interferes_observe])
  moreover have "interferes s2 s3" unfolding s3_def by (rule interferes_trans [OF interferes_late interferes_refresh])
  moreover have "interferes s3 s4" unfolding s4_def by (rule interferes_side)
  ultimately have "interferes s1 s4" by (meson interferes_trans)
  moreover have "\<exists>k. reconcile_hazardous_success op re s = (Some r, k, s4)"
    unfolding reconcile_hazardous_success_def assms Let_def case_prod_beta option.case prod.case
      s4_def s3_def s2_def s1_def r_def fst_conv snd_conv by blast
  ultimately show ?thesis unfolding s1_def by blast
qed

lemma interferes_reconcile [calm]: "interferes s (snd (snd (reconcile_hazardous_success op re s)))"
proof (cases "hazardous_success_conflict (observe_terminal_safety_children s)")
  case None
  thus ?thesis by (simp add: reconcile_None calm)
next
  case (Some cd)
  then obtain c d where cd: "hazardous_success_conflict (observe_terminal_safety_children s) = Some (c, d)"
    by (cases cd) auto
  obtain r k t where "reconcile_hazardous_success op re s = (Some r, k, t)"
      "interferes (snd (reconcile_settle r c re (observe_terminal_safety_children s))) t"
    using reconcile_Some [OF cd] by blast
  thus ?thesis
    using interferes_trans [OF interferes_trans [OF interferes_observe interferes_reconcile_settle]] by simp
qed

lemma reconcile_conflict_latched:
  assumes "reconcile_hazardous_success op re s = (Some r, k, t)"
  shows "sm_state t = FAULT_LATCHED"
proof (cases "hazardous_success_conflict (observe_terminal_safety_children s)")
  case None
  thus ?thesis using assms by (simp add: reconcile_None)
next
  case (Some cd)
  then obtain c d where cd: "hazardous_success_conflict (observe_terminal_safety_children s) = Some (c, d)"
    by (cases cd) auto
  show ?thesis
    using reconcile_Some [OF cd, of op re] assms reconcile_settle_latched latched_kept by fastforce
qed

text \<open>An exactly confirmed OFF was reported by the device itself under the verified tier.\<close>

lemma commit_exact:
  "fst (commit_output_off c a s) \<Longrightarrow> a = Inr (DvOff DEVICE_REPORTED_OFF) \<and> reviewed_source_off_tier s = VERIFIED_OFF"
  by (auto simp: commit_output_off_def global_off_evidence_for_result_def Let_def split: drv_value.splits sum.splits)

lemma ensure_with_driver:
  assumes "sm_driver s = Some d"
  shows "ensure_output_off c h s =
     (let t = env_run (aw_interference h) (s\<lparr> sm_commands := sm_commands s @ [CmdOff c] \<rparr>)
      in (fst (commit_output_off c (aw_result h) t), aw_cancelled h, snd (commit_output_off c (aw_result h) t)))"
  using assms by (simp add: ensure_output_off_def hw_call_def case_prod_beta Let_def)

lemma ensure_command:
  assumes "sm_driver s = Some d"
  shows "CmdOff c \<in> set (sm_commands (snd (snd (ensure_output_off c h s))))"
proof -
  have "interferes (s\<lparr> sm_commands := sm_commands s @ [CmdOff c] \<rparr>) (snd (snd (ensure_output_off c h s)))"
    unfolding ensure_with_driver [OF assms] Let_def snd_conv
    by (rule interferes_trans [OF env_run_interferes interferes_commit_off])
  thus ?thesis by (auto simp: interferes_def only_safe_commands_def)
qed

lemma ensure_exact:
  assumes "sm_driver s = Some d" "fst (ensure_output_off c h s)"
  shows "aw_result h = Inr (DvOff DEVICE_REPORTED_OFF)"
  using assms commit_exact by (auto simp: ensure_with_driver Let_def)

lemma commands_grow: "interferes s t \<Longrightarrow> set (sm_commands s) \<subseteq> set (sm_commands t)"
  by (auto simp: interferes_def only_safe_commands_def)

lemma interferes_off_transition:
  "interferes s (if sm_state s \<noteq> FAULT_LATCHED \<and> P then sm_transition SAFE_OFF r ch v s else s)"
  by (rule interferes_same) auto

text \<open>The successful end of an emergency OFF, after the OFF command was confirmed.\<close>

lemma emergency_success:
  fixes s2 :: sm
  assumes "\<not> c4" "r4 = None" "(r4, c4, s4) = reconcile_hazardous_success op re s3"
    and s3: "s3 = sm_refresh (s2\<lparr> sm_active := sm_active s2 - chs \<rparr>)"
    and s6: "s6 = snd (side w (if sm_state s4 \<noteq> FAULT_LATCHED \<and> P then sm_transition SAFE_OFF r ch v s4 else s4))"
  shows "interferes s2 s6 \<and> sm_active s6 \<inter> chs = {}"
proof -
  have "interferes s3 s4" using interferes_reconcile [of s3 op re] assms(3) by (metis snd_conv)
  hence i: "interferes s3 s6"
    unfolding s6 by (rule interferes_trans [OF interferes_trans [OF _ interferes_off_transition] interferes_side])
  have "interferes s2 s3" by (rule interferes_same) (simp_all add: s3)
  moreover have "sm_active s6 \<subseteq> sm_active s2 - chs" using active_shrinks [OF i] by (simp add: s3)
  ultimately show ?thesis using i by (blast intro: interferes_trans)
qed

end
