(* ===== verification/SafetySamples.thy ===== *)
theory SafetySamples
  imports SafetyOff
begin

text \<open>
  Concrete managers and driver answers for the witnesses: a qualified manager with live children and
  a connected driver, standing by with verified OFF, or running with \<open>smua\<close> active.
\<close>

definition sample_driver :: driver where
  "sample_driver = \<lparr> dv_connected = True, dv_output_state_unverified = False,
     dv_watchdog_trip_pending = False, dv_mock = False, dv_verified_off_source = True,
     dv_observations = Exposed [], dv_connection_generation = Some 1, dv_active_channels = Absent,
     dv_runtimes = [(smua, \<lparr> rt_active = True, rt_p_target = Fin 1, rt_v_comp = Fin 10, rt_i_comp = Fin 1 \<rparr>)] \<rparr>"

definition sample_binding :: runtime_binding where
  "sample_binding = \<lparr> rb_issued = True, rb_for_driver = True, rb_simulation = False, rb_reviewed_source = True \<rparr>"

definition sample_pattern :: "string \<times> (string \<Rightarrow> bool)" where
  "sample_pattern = (''T12'', \<lambda>ch. ch = ''T12'')"

definition standby_sm :: sm where
  "standby_sm = (sm_init False (Some sample_driver) (Some sample_binding) (Some 1000) 100)
     \<lparr> sm_config := safety_config_default\<lparr> sc_critical_channels := [sample_pattern] \<rparr>,
       sm_state := READY,
       sm_source_generation := Some 0, sm_next_generation := 1, sm_connected := True,
       sm_evidence := from_global_result VERIFIED_OFF DEVICE_REPORTED_OFF,
       sm_child_generation := 1, sm_monitor_active := True,
       sm_collect := Some \<lparr> ch_id = 1, ch_outcome = None \<rparr>,
       sm_monitor := Some \<lparr> ch_id = 2, ch_outcome = None \<rparr>,
       sm_critical_bindings := Some [((''LS2'', ''T12''), ''t12'')],
       sm_latest := [((''LS2'', ''T12''), (100, Fin 4, ''ok''))] \<rparr>"

definition running_sm :: sm where
  "running_sm = standby_sm
     \<lparr> sm_state := RUNNING, sm_active := {smua},
       sm_evidence := from_global_result VERIFIED_OFF PHYSICAL_STATE_UNKNOWN \<rparr>"

definition off_answer :: "drv_value hw" where
  "off_answer = \<lparr> aw_result = Inr (DvOff DEVICE_REPORTED_OFF), aw_cancelled = False, aw_interference = [] \<rparr>"

definition no_answer :: "drv_value hw" where
  "no_answer = \<lparr> aw_result = Inl ''timeout'', aw_cancelled = False, aw_interference = [] \<rparr>"

definition quiet_side :: side_wait where
  "quiet_side = \<lparr> sw_cancelled = False, sw_interference = [] \<rparr>"

definition quiet_fault :: fault_env where
  "quiet_fault = \<lparr> fe_off = off_answer, fe_log = quiet_side, fe_publish = quiet_side \<rparr>"

definition quiet_reconcile :: reconcile_env where
  "quiet_reconcile = \<lparr> rc_fault = quiet_fault, rc_drain = quiet_side, rc_proof = off_answer,
     rc_late_drain = quiet_side, rc_late_drained = True, rc_ordered = off_answer, rc_publish = quiet_side \<rparr>"

definition quiet_off :: off_env where
  "quiet_off = \<lparr> oe_reconcile_before = quiet_reconcile, oe_off = off_answer, oe_fault = quiet_fault,
     oe_reconcile_after = quiet_reconcile, oe_publish = quiet_side \<rparr>"

lemmas sample_defs = standby_sm_def running_sm_def sm_init_def sample_driver_def sample_binding_def
  sample_pattern_def safety_config_default_def off_answer_def no_answer_def quiet_side_def quiet_fault_def
  quiet_reconcile_def quiet_off_def

lemma running_fields [simp]:
  "sm_state running_sm = RUNNING" "sm_driver running_sm = Some sample_driver"
  "sm_active running_sm = {smua}" "sm_mock running_sm = False" "sm_abort_generation running_sm = 0"
  "sm_full_abort_generation running_sm = 0"
  by (simp_all add: running_sm_def standby_sm_def sm_init_def Let_def)

lemma running_fits:
  "snapshot_fits (fault_cut ''r'' [] (Fin 0) ''test'' running_sm)"
  unfolding snapshot_fits_def
  by (simp add: sample_defs fault_cut_def transition_cut_def register_abort_intent_def Let_def
      build_snapshot_def revoked_evidence_def expire_stale_off_evidence_def unknown_global_off_evidence_def
      set_evidence_def refreshed_evidence_def ready_unqualified_def snapshot_verified_off_def
      snapshot_blockers_def snapshot_plant_def children_facts_def source_facts_def interlock_facts_def
      persistence_facts_def fsm_facts_def predictor_facts_def critical_input_snapshot_fact_def
      critical_input_problem_def critical_input_requirements_def requirement_problem_def sample_problem_def
      safety_children_authoritative_def blocker_fits_def plant_fact_fits_def
      MAX_TEXT_UTF8_BYTES_def MAX_ID_UTF8_BYTES_def initial_snapshot_def snapshot_observed_def
      reviewed_source_off_tier_def)

end
