(* ===== verification/SafetyOffProps.thy ===== *)
theory SafetyOffProps
  imports SafetySamples
begin

text \<open>
  What the shutdown paths of the safety manager promise: emergency OFF, the settlement of a fault,
  operator stop and interlock trips, under any interference of other tasks.
\<close>

section \<open>Emergency OFF\<close>

lemma emergency_off_cases:
  assumes "emergency_off_locked channel oe s = (Returned reply, s')"
  shows "if ry_ok reply
         then interferes s s' \<and> sm_active s' \<inter> resolve_channels channel = {}
              \<and> (sm_driver s = None \<or> aw_result (oe_off oe) = Inr (DvOff DEVICE_REPORTED_OFF)
                  \<and> CmdOff channel \<in> set (sm_commands s'))
         else interferes s s' \<and> sm_state s' = FAULT_LATCHED"
proof -
  obtain r1 c1 s1 where r1: "reconcile_hazardous_success ''emergency OFF'' (oe_reconcile_before oe) s = (r1, c1, s1)"
    by (metis prod_cases3)
  have i1: "interferes s s1" using interferes_reconcile [of s "''emergency OFF''" "oe_reconcile_before oe"] r1 by simp
  have d1: "sm_driver s1 = None \<longleftrightarrow> sm_driver s = None" using driver_kept [OF i1] .
  obtain confirmed c2 s2 where e: "ensure_output_off channel (oe_off oe) s1 = (confirmed, c2, s2)"
    by (metis prod_cases3)
  have i2: "interferes s s2" using interferes_trans [OF i1 interferes_ensure [of s1 channel "oe_off oe"]] e by simp
  have cmd: "sm_driver s = None \<or> CmdOff channel \<in> set (sm_commands s2)"
    using ensure_command [of s1 _ channel "oe_off oe"] e d1 by (cases "sm_driver s1") simp_all
  let ?f = "plain_fault ''emergency_off could not confirm output OFF'' (smu_opt_name channel)"
  let ?s3 = "sm_refresh (s2\<lparr> sm_active := sm_active s2 - resolve_channels channel \<rparr>)"
  obtain r4 c4 s4 where r4: "reconcile_hazardous_success ''emergency OFF'' (oe_reconcile_after oe) ?s3 = (r4, c4, s4)"
    by (metis prod_cases3)
  have i4: "interferes s s4"
  proof -
    have "interferes s2 ?s3" by (rule interferes_same) simp_all
    moreover have "interferes ?s3 s4"
      using interferes_reconcile [of ?s3 "''emergency OFF''" "oe_reconcile_after oe"] r4 by simp
    ultimately show ?thesis using i2 interferes_trans by blast
  qed
  obtain fo sf where f: "sm_fault ?f (oe_fault oe) s2 = (fo, sf)" by force
  have if2: "interferes s sf" "sm_state sf = FAULT_LATCHED"
    using interferes_trans [OF i2 interferes_fault [of s2 ?f "oe_fault oe"]] fault_latches [of ?f "oe_fault oe" s2] f
    by simp_all
  show ?thesis
  proof (cases "c1 \<or> r1 \<noteq> None")
    case True
    thus ?thesis
      using assms(1) r1 i1 reconcile_conflict_latched [of "''emergency OFF''" "oe_reconcile_before oe" s]
      by (auto simp: emergency_off_locked_def mk_reply_def split: if_splits)
  next
    case first: False
    show ?thesis
    proof (cases "c2 \<or> \<not> confirmed")
      case True
      thus ?thesis
        using assms(1) r1 e f if2 first
        by (auto simp: emergency_off_locked_def mk_reply_def split: if_splits outcome.splits)
    next
      case second: False
      have exact: "sm_driver s = None \<or> aw_result (oe_off oe) = Inr (DvOff DEVICE_REPORTED_OFF)"
        using ensure_exact [of s1 _ channel "oe_off oe"] e second d1 by (cases "sm_driver s1") simp_all
      show ?thesis
      proof (cases "c4 \<or> r4 \<noteq> None")
        case True
        thus ?thesis
          using assms(1) r1 e r4 first second i4
            reconcile_conflict_latched [of "''emergency OFF''" "oe_reconcile_after oe" ?s3]
          by (auto simp: emergency_off_locked_def mk_reply_def split: if_splits)
      next
        case third: False
        let ?s5 = "if sm_state s4 \<noteq> FAULT_LATCHED \<and> sm_active s4 = {}
                   then sm_transition SAFE_OFF ''Operator emergency off'' [] (Fin 0) s4 else s4"
        have s': "s' = snd (side (oe_publish oe) ?s5)" "ry_ok reply"
          using assms(1) r1 e r4 first second third
          by (auto simp: emergency_off_locked_def mk_reply_def finish_def case_prod_beta Let_def split: if_splits)
        have fin: "interferes s2 s' \<and> sm_active s' \<inter> resolve_channels channel = {}"
          by (rule emergency_success [of c4 r4 s4 "''emergency OFF''" "oe_reconcile_after oe" ?s3])
             (use third r4 s' in simp_all)
        have "sm_driver s = None \<or> CmdOff channel \<in> set (sm_commands s')" "interferes s s'"
          using commands_grow [of s2 s'] fin cmd interferes_trans [OF i2] by blast+
        thus ?thesis using s'(2) exact fin by (cases "sm_driver s") simp_all
      qed
    qed
  qed
qed

lemma interferes_emergency [calm]: "interferes s (snd (emergency_off_locked channel oe s))"
proof -
  define r where "r = reconcile_hazardous_success ''emergency OFF'' (oe_reconcile_before oe) s"
  define s1 where "s1 = snd (snd r)"
  define e where "e = ensure_output_off channel (oe_off oe) s1"
  define s2 where "s2 = snd (snd e)"
  define f where "f = sm_fault (plain_fault ''emergency_off could not confirm output OFF'' (smu_opt_name channel)) (oe_fault oe) s2"
  define s3 where "s3 = sm_refresh (s2\<lparr> sm_active := sm_active s2 - resolve_channels channel \<rparr>)"
  define q where "q = reconcile_hazardous_success ''emergency OFF'' (oe_reconcile_after oe) s3"
  define s4 where "s4 = snd (snd q)"
  define s5 where "s5 = (if sm_state s4 \<noteq> FAULT_LATCHED \<and> sm_active s4 = {}
                   then sm_transition SAFE_OFF ''Operator emergency off'' [] (Fin 0) s4 else s4)"
  have i1: "interferes s s1" unfolding s1_def r_def by (rule interferes_reconcile)
  have i2: "interferes s s2" unfolding s2_def e_def by (rule interferes_trans [OF i1 interferes_ensure])
  have if2: "interferes s (snd f)" unfolding f_def by (rule interferes_trans [OF i2 interferes_fault])
  have "interferes s2 s3" by (rule interferes_same) (simp_all add: s3_def)
  moreover have "interferes s3 s4" unfolding s4_def q_def by (rule interferes_reconcile)
  ultimately have i4: "interferes s s4" using i2 interferes_trans by blast
  have "interferes s4 s5" unfolding s5_def by (rule interferes_off_transition)
  hence i6: "interferes s (snd (side (oe_publish oe) s5))"
    using i4 interferes_trans interferes_side by blast
  have "snd (emergency_off_locked channel oe s) \<in> {s1, s2, snd f, s4, snd (side (oe_publish oe) s5)}"
    unfolding emergency_off_locked_def Let_def case_prod_beta
      r_def [symmetric] s1_def [symmetric] e_def [symmetric] s2_def [symmetric] f_def [symmetric]
      s3_def [symmetric] q_def [symmetric] s4_def [symmetric] s5_def [symmetric]
    by (auto split: outcome.splits prod.splits)
  thus ?thesis using i1 i2 if2 i4 i6 by auto
qed

text \<open>
  C1: An emergency OFF never claims more than the device confirmed. If it reports success, the
  device answered the OFF command for that scope with DEVICE_REPORTED_OFF and none of its channels is
  tracked as active; if it reports failure, the manager is fault-latched. Whatever its outcome (also
  when the caller is cancelled) and whatever other tasks do meanwhile, no start command is issued, no
  source becomes active and a latched fault stays latched.
\<close>
theorem emergency_off_sound:
  assumes "sm_driver s = Some d"
  shows "case emergency_off channel lock_wait oe s of (out, s') \<Rightarrow>
     only_safe_commands s s' \<and> sm_active s' \<subseteq> sm_active s
     \<and> (sm_state s = FAULT_LATCHED \<longrightarrow> sm_state s' = FAULT_LATCHED)
     \<and> (case out of
          Returned reply \<Rightarrow>
            (if ry_ok reply
             then sm_active s' \<inter> resolve_channels channel = {}
                  \<and> aw_result (oe_off oe) = Inr (DvOff DEVICE_REPORTED_OFF) \<and> CmdOff channel \<in> set (sm_commands s')
             else sm_state s' = FAULT_LATCHED)
        | _ \<Rightarrow> True)"
proof -
  let ?s = "env_run lock_wait (register_abort_intent (channel = None) s)"
  have i0: "interferes s ?s" by (rule interferes_trans [OF interferes_abort env_run_interferes])
  obtain d' where d': "sm_driver ?s = Some d'" using driver_kept [OF i0] assms by auto
  obtain out s' where run: "emergency_off_locked channel oe ?s = (out, s')" by force
  have "interferes s s'" using interferes_trans [OF i0 interferes_emergency [of ?s channel oe]] run by simp
  thus ?thesis
    using emergency_off_cases [of channel oe ?s _ s'] run d'
    by (cases out) (auto simp: emergency_off_def interferes_def)
qed

lemma emergency_off_sound_witness:
  "case emergency_off None [EvAbort False] quiet_off running_sm of (out, s') \<Rightarrow>
     only_safe_commands running_sm s' \<and> sm_active s' \<subseteq> {smua}"
  using emergency_off_sound [where s = running_sm and d = sample_driver and channel = None
      and lock_wait = "[EvAbort False]" and oe = quiet_off]
  by (auto split: prod.splits)

section \<open>Faults\<close>

lemma commit_exact_iff:
  "fst (commit_output_off c a s) \<longleftrightarrow> a = Inr (DvOff DEVICE_REPORTED_OFF) \<and> reviewed_source_off_tier s = VERIFIED_OFF"
  by (auto simp: commit_output_off_def global_off_evidence_for_result_def Let_def split: drv_value.splits sum.splits)

lemma settlement_active:
  "sm_active (commit_fault_settlement confirmed s) = (if confirmed then {} else sm_active s)"
  by (simp add: commit_fault_settlement_def Let_def)

lemma commit_off_active: "sm_active (snd (commit_output_off c a s)) = sm_active s"
  by (simp add: commit_output_off_def Let_def)

definition latched_now :: "fault_request \<Rightarrow> sm \<Rightarrow> sm" where
  "latched_now f s = snd (begin_fault_latch (fr_reason f) (fr_channel f) (fr_value f) (fr_source f) s)"

lemma fault_new:
  assumes "sm_state s \<noteq> FAULT_LATCHED"
    and "snapshot_fits (fault_cut (fr_reason f) (fr_channel f) (fr_value f) (fr_source f) s)"
  shows "snd (sm_fault f fe s) = snd (settle_latched_fault fe (latched_now f s))"
  using assms by (simp add: sm_fault_def Let_def latched_now_def case_prod_beta)

text \<open>The state right after the OFF attempt of the settlement.\<close>

definition settled_off :: "fault_env \<Rightarrow> sm \<Rightarrow> sm" where
  "settled_off fe s =
     commit_fault_settlement (off_confirmed (ensure_output_off None (fe_off fe) s))
       (snd (snd (ensure_output_off None (fe_off fe) s)))"

lemma settle_after_off:
  "sm_driver s = Some d \<Longrightarrow> interferes (settled_off fe s) (snd (settle_latched_fault fe s))"
  unfolding settle_latched_fault_def Let_def case_prod_beta settled_off_def
  by (simp, rule interferes_trans [OF interferes_side interferes_side])

text \<open>
  C10: Every new fault latches before anything else can run, cuts every command in flight by advancing
  the full abort generation, and commands a global OFF. The tracked sources are dropped when, under
  the verified tier, the device itself reports OFF to an uncancelled attempt; otherwise the fault
  drops none of them: what is no longer tracked afterwards was removed by another task. No start is
  issued and the state stays latched.
\<close>
theorem fault_forces_off:
  assumes "sm_state s \<noteq> FAULT_LATCHED" "sm_driver s = Some d"
    and "snapshot_fits (fault_cut (fr_reason f) (fr_channel f) (fr_value f) (fr_source f) s)"
  shows "case sm_fault f fe s of (out, s') \<Rightarrow>
     sm_state s' = FAULT_LATCHED \<and> sm_abort_generation s < sm_full_abort_generation s'
     \<and> CmdOff None \<in> set (sm_commands s') \<and> only_safe_commands s s'
     \<and> (if aw_result (fe_off fe) = Inr (DvOff DEVICE_REPORTED_OFF) \<and> \<not> aw_cancelled (fe_off fe)
           \<and> reviewed_source_off_tier s = VERIFIED_OFF
        then sm_active s' = {}
        else aw_interference (fe_off fe) = [] \<and> sw_interference (fe_log fe) = []
             \<and> sw_interference (fe_publish fe) = [] \<longrightarrow> sm_active s' = sm_active s)"
proof -
  let ?l = "latched_now f s"
  let ?e = "ensure_output_off None (fe_off fe) ?l"
  let ?s' = "snd (sm_fault f fe s)"
  have new: "?s' = snd (settle_latched_fault fe ?l)" using assms(1,3) by (rule fault_new)
  obtain d' where d': "sm_driver ?l = Some d'"
    using assms(2) by (auto simp: latched_now_def)
  have after: "interferes (settled_off fe ?l) ?s'" using settle_after_off [OF d'] new by simp
  have "CmdOff None \<in> set (sm_commands (settled_off fe ?l))"
    using ensure_command [OF d', of None "fe_off fe"] commands_grow [OF interferes_commit_settlement]
    by (auto simp: settled_off_def)
  hence cmd: "CmdOff None \<in> set (sm_commands ?s')" using commands_grow [OF after] by blast
  have all: "interferes s ?s'" by (rule interferes_fault)
  have lat: "sm_state ?s' = FAULT_LATCHED" by (rule fault_latches)
  have il: "interferes ?l ?s'" using new interferes_settle_fault by simp
  have fl: "sm_full_abort_generation ?l = Suc (sm_abort_generation s)"
    "sm_full_abort_generation ?l \<le> sm_abort_generation ?l"
    using begin_fault_latch_epoch [OF assms(1)] by (simp_all add: latched_now_def)
  hence cuts: "sm_abort_generation s < sm_full_abort_generation ?s'"
    using il by (simp add: interferes_def)
  have t: "interferes s (env_run evs (?l\<lparr> sm_commands := sm_commands ?l @ [CmdOff None] \<rparr>))" for evs
    unfolding latched_now_def
    by (rule interferes_trans [OF interferes_latch interferes_trans [OF interferes_command env_run_interferes]])
       (simp add: is_start_def)
  have conf: "off_confirmed ?e \<longleftrightarrow> aw_result (fe_off fe) = Inr (DvOff DEVICE_REPORTED_OFF)
      \<and> reviewed_source_off_tier s = VERIFIED_OFF \<and> \<not> aw_cancelled (fe_off fe)"
    using tier_kept [OF t] by (auto simp: off_confirmed_def ensure_with_driver [OF d'] Let_def commit_exact_iff)
  have act: "sm_active ?s' = {}" if "off_confirmed ?e"
    using active_shrinks [OF after] that by (simp add: settled_off_def settlement_active)
  have keep: "sm_active ?s' = sm_active s"
    if "\<not> off_confirmed ?e" "aw_interference (fe_off fe) = []" "sw_interference (fe_log fe) = []"
      "sw_interference (fe_publish fe) = []"
  proof -
    have "?s' = settled_off fe ?l"
      using new that d' by (simp add: settle_latched_fault_def Let_def case_prod_beta settled_off_def side_def)
    moreover have "sm_active ?l = sm_active s" by (simp add: latched_now_def)
    ultimately show ?thesis
      using that by (simp add: settled_off_def settlement_active ensure_with_driver [OF d'] Let_def
          commit_off_active)
  qed
  show ?thesis
    using lat cuts cmd all act keep conf by (auto simp: case_prod_beta interferes_def)
qed

definition test_fault :: fault_request where
  "test_fault = \<lparr> fr_reason = ''r'', fr_channel = [], fr_value = Fin 0, fr_source = ''test'' \<rparr>"

lemma fault_forces_off_witness:
  "sm_state (snd (sm_fault test_fault quiet_fault running_sm)) = FAULT_LATCHED
   \<and> CmdOff None \<in> set (sm_commands (snd (sm_fault test_fault quiet_fault running_sm)))"
proof -
  have state: "sm_state running_sm \<noteq> FAULT_LATCHED" and drv: "sm_driver running_sm = Some sample_driver" by simp_all
  have fits: "snapshot_fits (fault_cut (fr_reason test_fault) (fr_channel test_fault) (fr_value test_fault)
      (fr_source test_fault) running_sm)"
    using running_fits by (simp add: test_fault_def)
  show ?thesis using fault_forces_off [OF state drv fits, of quiet_fault] by (simp add: case_prod_beta)
qed

section \<open>The operator snapshot can prevent the OFF\<close>

lemma blind_guards_too_long:
  assumes "sm_blind_guards s \<noteq> []" "MAX_TEXT_UTF8_BYTES < length (blind_prefix @ blind_details s)"
  shows "\<not> snapshot_fits s"
proof -
  let ?r = "revoked_evidence s"
  obtain e u where r: "?r = s\<lparr> sm_evidence := e, sm_evidence_at := u \<rparr>"
    using evidence_only_revoked [of s] by (auto simp: evidence_only_def)
  have d: "blind_details ?r = blind_details s" "sm_blind_guards ?r = sm_blind_guards s"
    unfolding r blind_details_def by simp_all
  define f where "f = \<lparr> pf_subsystem = (if sm_mature_dead ?r \<noteq> [] then ''interlock_blind_guards'' else ''interlock_channels''),
      pf_display_name = blind_prefix @ blind_details ?r, pf_state = P_FAULT,
      pf_reason_code = ''interlock_guard_blind'' \<rparr>"
  have "f \<in> set (fst (interlock_facts ?r))"
    using assms(1) by (simp add: interlock_facts_def Let_def f_def d)
  hence "f \<in> set (sn_plant_health (build_snapshot s))"
    by (simp add: build_snapshot_def Let_def snapshot_plant_def)
  moreover have "\<not> plant_fact_fits f"
    using assms(2) by (simp add: plant_fact_fits_def f_def d)
  ultimately show ?thesis by (auto simp: snapshot_fits_def list_all_iff)
qed

text \<open>
  C28: When the list of blind guards outgrows the 256 bytes of a snapshot text, a fault latches but
  never commands OFF: the snapshot constructor raises inside the latch, the settlement is not
  reached, and since the state is latched every later fault is ignored too. The tracked sources stay
  active.
\<close>
theorem overlong_snapshot_blocks_off:
  assumes "sm_state s \<noteq> FAULT_LATCHED" "sm_blind_guards s \<noteq> []"
    and "MAX_TEXT_UTF8_BYTES < length (blind_prefix @ blind_details s)"
  shows "case sm_fault f fe s of (out, s') \<Rightarrow>
     out = RaisedExn (ValueError ''operator snapshot'') \<and> sm_state s' = FAULT_LATCHED
     \<and> sm_active s' = sm_active s \<and> sm_commands s' = sm_commands s
     \<and> (\<forall>g fe'. sm_active (snd (sm_fault g fe' s')) = sm_active s
               \<and> sm_commands (snd (sm_fault g fe' s')) = sm_commands s)"
proof -
  let ?c = "fault_cut (fr_reason f) (fr_channel f) (fr_value f) (fr_source f) s"
  have "blind_details ?c = blind_details s" "sm_blind_guards ?c = sm_blind_guards s"
    by (simp_all add: fault_cut_def transition_cut_def Let_def blind_details_def)
  hence "\<not> snapshot_fits ?c" using blind_guards_too_long [of ?c] assms(2,3) by simp
  hence run: "sm_fault f fe s = (RaisedExn (ValueError ''operator snapshot''), refreshed_evidence ?c)"
    using assms(1) by (simp add: sm_fault_def)
  have st: "sm_state (refreshed_evidence ?c) = FAULT_LATCHED" "sm_active (refreshed_evidence ?c) = sm_active s"
    "sm_commands (refreshed_evidence ?c) = sm_commands s"
    by (simp_all add: refreshed_evidence_fields fault_cut_def transition_cut_def Let_def)
  show ?thesis unfolding run prod.case using st by (simp add: sm_fault_def begin_fault_latch_again)
qed

text \<open>Two guarded inputs of a LakeShore 218, each with four register reasons.\<close>

definition four_reasons :: "string list" where
  "four_reasons = [''invalid_reading'', ''temperature_under_range'', ''temperature_over_range'',
                   ''sensor_units_over_range'']"

definition two_blind_sm :: sm where
  "two_blind_sm = running_sm\<lparr> sm_blind_guards :=
     [(CHR 0xD0 # CHR 0xA2 # ''11'', (''overheat_cryostat'', four_reasons, True, NaN)),
      (CHR 0xD0 # CHR 0xA2 # ''12'', (''overheat_cryostat'', four_reasons, True, NaN))] \<rparr>"

lemma join_length:
  "length (join sep xs) = sum_list (map length xs) + (length xs - 1) * length sep"
  by (induction sep xs rule: join.induct) auto

lemma sum_list_insort_key:
  "sum_list (map (f :: _ \<Rightarrow> nat) (insort_key k x xs)) = f x + sum_list (map f xs)"
  by (induction xs) auto

lemma blind_details_length:
  "length (blind_details s) = sum_list (map (\<lambda>g. length (blind_detail g)) (sm_blind_guards s))
     + (length (sm_blind_guards s) - 1) * 2"
proof -
  have "sum_list (map f (sort_key k xs)) = sum_list (map f xs)" for f :: "_ \<Rightarrow> nat" and k xs
    by (induction xs) (simp_all add: sum_list_insort_key)
  thus ?thesis by (simp add: blind_details_def join_length comp_def)
qed

lemma overlong_snapshot_blocks_off_witness:
  "sm_commands (snd (sm_fault test_fault quiet_fault two_blind_sm)) = []
   \<and> sm_active (snd (sm_fault test_fault quiet_fault two_blind_sm)) = {smua}"
proof -
  have state: "sm_state two_blind_sm \<noteq> FAULT_LATCHED" and guards: "sm_blind_guards two_blind_sm \<noteq> []"
    by (simp_all add: two_blind_sm_def)
  have long: "MAX_TEXT_UTF8_BYTES < length (blind_prefix @ blind_details two_blind_sm)"
    by (simp add: blind_details_length) (simp add: two_blind_sm_def blind_detail_def four_reasons_def
        join_length blind_prefix_def MAX_TEXT_UTF8_BYTES_def)
  have "sm_commands two_blind_sm = []" "sm_active two_blind_sm = {smua}"
    by (simp_all add: two_blind_sm_def) (simp add: sample_defs Let_def)
  thus ?thesis
    using overlong_snapshot_blocks_off [OF state guards long, of test_fault quiet_fault]
    by (simp add: case_prod_beta)
qed

end
