(* ===== verification/SafetyStopProps.thy ===== *)
theory SafetyStopProps
  imports SafetyOffProps
begin

text \<open>
  What an operator stop and an interlock trip promise: what a reported success says about the
  channels and the device, and what every other answer leaves behind.
\<close>

section \<open>Stopping channels one by one\<close>

lemma after_stop_active:
  "sm_active (observe_terminal_safety_children (sm_refresh (s\<lparr> sm_active := A \<rparr>))) \<subseteq> A"
  using active_shrinks [OF interferes_observe [of "sm_refresh (s\<lparr> sm_active := A \<rparr>)"]] by simp

lemma interferes_drop_active: "interferes s (sm_refresh (s\<lparr> sm_active := sm_active s - A \<rparr>))"
  by (rule interferes_same) simp_all

definition after_stop :: "smu_channel \<Rightarrow> drv_value hw \<Rightarrow> sm \<Rightarrow> sm" where
  "after_stop c h s =
     (let s1 = snd (snd (hw_call (CmdStop c) h s))
      in observe_terminal_safety_children (sm_refresh (s1\<lparr> sm_active := sm_active s1 - {c} \<rparr>)))"

lemma interferes_after_stop: "interferes s (after_stop c h s)"
  unfolding after_stop_def Let_def
  by (rule interferes_trans [OF interferes_hw_call
        interferes_trans [OF interferes_drop_active interferes_observe]]) (simp add: is_start_def)

lemma after_stop_drops: "c \<notin> sm_active (after_stop c h s)"
  using after_stop_active by (fastforce simp: after_stop_def Let_def)

lemma after_stop_command: "CmdStop c \<in> set (sm_commands (after_stop c h s))"
proof -
  have "interferes (s\<lparr> sm_commands := sm_commands s @ [CmdStop c] \<rparr>) (after_stop c h s)"
    unfolding after_stop_def Let_def hw_call_def snd_conv
    by (rule interferes_trans [OF env_run_interferes interferes_trans [OF interferes_drop_active interferes_observe]])
  thus ?thesis using commands_grow by fastforce
qed

lemma stop_loop_fails:
  "stop_failed (aw_result (se_stop se c)) \<Longrightarrow>
     \<exists>out k' f. safe_off_loop expected se (c # cs) applied i k s = (applied, True, k', Some out,
        snd (sm_fault f (se_fault se) (snd (snd (hw_call (CmdStop c) (se_stop se c) s)))))"
  by (simp add: hw_call_def case_prod_beta Let_def) blast

lemma stop_loop_step:
  "\<not> stop_failed (aw_result (se_stop se c)) \<Longrightarrow>
     \<exists>j k'. (i \<longrightarrow> j) \<and> (sm_state (after_stop c (se_stop se c) s) = FAULT_LATCHED \<longrightarrow> j)
       \<and> safe_off_loop expected se (c # cs) applied i k s
         = safe_off_loop expected se cs (insert c applied) j k' (after_stop c (se_stop se c) s)"
  by (rule exI [where x = "i \<or> sm_state (after_stop c (se_stop se c) s) = FAULT_LATCHED
          \<or> (case expected of None \<Rightarrow> False
              | Some g \<Rightarrow> sm_abort_generation (after_stop c (se_stop se c) s) \<noteq> g
                         \<or> \<not> safety_children_authoritative (after_stop c (se_stop se c) s))"],
      rule exI [where x = "k \<or> aw_cancelled (se_stop se c)"])
     (cases expected; simp add: after_stop_def hw_call_def Let_def)

lemma interferes_stop_loop [calm]:
  "interferes s (snd (snd (snd (snd (safe_off_loop expected se cs applied i k s)))))"
proof (induction cs arbitrary: applied i k s)
  case (Cons c cs)
  show ?case
  proof (cases "stop_failed (aw_result (se_stop se c))")
    case True
    have "interferes s (snd (snd (hw_call (CmdStop c) (se_stop se c) s)))"
      by (rule interferes_hw_call) (simp add: is_start_def)
    thus ?thesis
      using stop_loop_fails [OF True, of expected cs applied i k s] interferes_trans interferes_fault by fastforce
  next
    case False
    thus ?thesis
      using stop_loop_step [OF False, of i s expected cs applied k] Cons.IH
        interferes_trans [OF interferes_after_stop] by metis
  qed
qed (simp add: calm)

lemma stop_loop_complete:
  assumes "safe_off_loop expected se cs applied i k s = (applied', False, k', None, t)"
  shows "\<not> i \<and> (\<forall>c \<in> set cs. \<not> stop_failed (aw_result (se_stop se c)) \<and> CmdStop c \<in> set (sm_commands t))
    \<and> sm_active t \<inter> set cs = {} \<and> (sm_state s \<noteq> FAULT_LATCHED \<longrightarrow> sm_state t \<noteq> FAULT_LATCHED)"
  using assms
proof (induction cs arbitrary: applied i k s)
  case (Cons c cs)
  let ?s2 = "after_stop c (se_stop se c) s"
  have ok: "\<not> stop_failed (aw_result (se_stop se c))"
    using Cons.prems stop_loop_fails [of se c expected cs applied i k s] by auto
  obtain j l where j: "i \<longrightarrow> j" "sm_state ?s2 = FAULT_LATCHED \<longrightarrow> j"
      and run: "safe_off_loop expected se cs (insert c applied) j l ?s2 = (applied', False, k', None, t)"
    using stop_loop_step [OF ok, of i s expected cs applied k] Cons.prems by metis
  note ih = Cons.IH [OF run]
  have after: "interferes ?s2 t"
    using interferes_stop_loop [of ?s2 expected se cs "insert c applied" j l] run by simp
  have "CmdStop c \<in> set (sm_commands t)" using after_stop_command commands_grow [OF after] by blast
  moreover have "c \<notin> sm_active t" using after_stop_drops active_shrinks [OF after] by blast
  ultimately show ?case using ih j ok by auto
qed simp

text \<open>A stop without interruption that returned: every channel answered, and none is tracked.\<close>

lemma interferes_finish_safe_off:
  "sm_state s \<noteq> FAULT_LATCHED \<or> i \<Longrightarrow> interferes s (snd (finish_safe_off reason a i k s))"
  unfolding finish_safe_off_def Let_def by (rule interferes_same) (auto split: if_splits)

lemma safe_off_none:
  "sm_state s \<noteq> FAULT_LATCHED \<Longrightarrow> sm_driver s = None \<Longrightarrow>
     safe_off reason cs expected se s = finish_safe_off reason (set cs) False False (s\<lparr> sm_active := sm_active s - set cs \<rparr>)"
  by (simp add: safe_off_def)

lemma safe_off_some:
  assumes "sm_state s \<noteq> FAULT_LATCHED" "sm_driver s \<noteq> None"
    and "safe_off_loop expected se cs {} False False s = (a, i, k, e, t)"
  shows "safe_off reason cs expected se s =
    (case e of None \<Rightarrow> finish_safe_off reason a i k t
      | Some (RaisedExn x) \<Rightarrow> (RaisedExn x, t) | Some CallerCancelled \<Rightarrow> (CallerCancelled, t)
      | Some (Returned _) \<Rightarrow> (finish k (a, True), t))"
proof -
  obtain d where "sm_driver s = Some d" using assms(2) by auto
  thus ?thesis using assms(1,3) by (simp add: safe_off_def split: option.splits outcome.splits)
qed

lemma loop_not_latched:
  assumes "safe_off_loop expected se cs {} False k s = (a, False, k', None, t)" "sm_state s \<noteq> FAULT_LATCHED"
  shows "sm_state t \<noteq> FAULT_LATCHED"
  using stop_loop_complete [OF assms(1)] assms(2) by blast

lemma interferes_safe_off [calm]: "interferes s (snd (safe_off reason cs expected se s))"
proof (cases "sm_state s = FAULT_LATCHED")
  case True
  thus ?thesis by (simp add: safe_off_def calm case_prod_beta Let_def)
next
  case run: False
  show ?thesis
  proof (cases "sm_driver s = None")
    case True
    have "interferes s (s\<lparr> sm_active := sm_active s - set cs \<rparr>)" by (rule interferes_same) auto
    moreover have "interferes (s\<lparr> sm_active := sm_active s - set cs \<rparr>)
        (snd (finish_safe_off reason (set cs) False False (s\<lparr> sm_active := sm_active s - set cs \<rparr>)))"
      by (rule interferes_finish_safe_off) (simp add: run)
    ultimately show ?thesis unfolding safe_off_none [OF run True] by (rule interferes_trans)
  next
    case False
    obtain a i k e t where l: "safe_off_loop expected se cs {} False False s = (a, i, k, e, t)"
      by (metis prod_cases5)
    have it: "interferes s t" using interferes_stop_loop [of s expected se cs "{}" False False] l by simp
    have "e = None \<Longrightarrow> interferes s (snd (finish_safe_off reason a i k t))"
      using it interferes_finish_safe_off [of t i reason a k] loop_not_latched [of expected se cs False s a k t] l run
        interferes_trans by (cases i) auto
    thus ?thesis
      unfolding safe_off_some [OF run False l] using it by (auto split: option.splits outcome.splits)
  qed
qed

text \<open>What a device promised by the channels' stop answers.\<close>

definition all_stopped :: "smu_channel list \<Rightarrow> stop_env \<Rightarrow> sm \<Rightarrow> bool" where
  "all_stopped cs se s =
     list_all (\<lambda>c. \<not> stop_failed (aw_result (se_stop se c)) \<and> CmdStop c \<in> set (sm_commands s)) cs"

lemma safe_off_complete:
  assumes "safe_off reason cs expected se s = (Returned (a, False), t)"
  shows "sm_active t \<inter> set cs = {} \<and> (sm_driver s \<noteq> None \<longrightarrow> all_stopped cs se t)"
proof -
  have run: "sm_state s \<noteq> FAULT_LATCHED"
    using assms by (auto simp: safe_off_def finish_def case_prod_beta Let_def split: if_splits)
  have fin: "sm_active (snd (finish_safe_off reason a' False k u)) = sm_active u"
      "sm_commands (snd (finish_safe_off reason a' False k u)) = sm_commands u" for a' k u
    by (simp_all add: finish_safe_off_def Let_def)
  show ?thesis
  proof (cases "sm_driver s = None")
    case True
    thus ?thesis using assms run fin [of "set cs" False "s\<lparr> sm_active := sm_active s - set cs \<rparr>"]
      by (auto simp: safe_off_none)
  next
    case False
    obtain b i k e u where l: "safe_off_loop expected se cs {} False False s = (b, i, k, e, u)"
      by (metis prod_cases5)
    have "e = None" using assms unfolding safe_off_some [OF run False l]
      by (auto simp: finish_def split: option.splits outcome.splits if_splits)
    moreover have "\<not> i" using assms calculation unfolding safe_off_some [OF run False l]
      by (auto simp: finish_def finish_safe_off_def split: if_splits)
    ultimately have l': "safe_off_loop expected se cs {} False False s = (b, False, k, None, u)"
        and t: "t = snd (finish_safe_off reason b False k u)"
      using l assms unfolding safe_off_some [OF run False l] by auto
    show ?thesis
      using stop_loop_complete [OF l'] fin [of b k u] t by (simp add: all_stopped_def list_all_iff)
  qed
qed

section \<open>Operator stop\<close>

lemma all_stopped_mono: "all_stopped cs se s \<Longrightarrow> interferes s t \<Longrightarrow> all_stopped cs se t"
  using commands_grow by (fastforce simp: all_stopped_def list_all_iff)

lemma interferes_stop_owned [calm]: "interferes s (snd (request_stop_owned channel g qe s))"
proof -
  define r where "r = reconcile_hazardous_success ''operator stop'' (qs_before qe) s"
  define s1 where "s1 = snd (snd r)"
  define e where "e = ensure_output_off channel (qs_latched_off qe) s1"
  define f where "f = safe_off ''Operator stop'' (channel_list channel) (Some g) (qs_stop qe) s1"
  define s2 where "s2 = snd f"
  define q where "q = reconcile_hazardous_success ''operator stop'' (qs_after qe) s2"
  define s4 where "s4 = snd (side (qs_publish qe) (snd (snd q)))"
  define s5 where "s5 = observe_terminal_safety_children s4"
  have i1: "interferes s s1" unfolding s1_def r_def by (rule interferes_reconcile)
  have ie: "interferes s (snd (snd e))" unfolding e_def by (rule interferes_trans [OF i1 interferes_ensure])
  have i2: "interferes s s2" unfolding s2_def f_def by (rule interferes_trans [OF i1 interferes_safe_off])
  have i4: "interferes s s4" unfolding s4_def q_def
    by (rule interferes_trans [OF i2 interferes_trans [OF interferes_reconcile interferes_side]])
  have i5: "interferes s s5" unfolding s5_def by (rule interferes_trans [OF i4 interferes_observe])
  have "snd (request_stop_owned channel g qe s) \<in> {s1, snd (snd e), s2, s4, s5}"
    unfolding request_stop_owned_def Let_def case_prod_beta
      r_def [symmetric] s1_def [symmetric] e_def [symmetric] f_def [symmetric] s2_def [symmetric]
      q_def [symmetric] s4_def [symmetric] s5_def [symmetric]
    by (auto simp: s2_def s5_def [symmetric] q_def s4_def split: outcome.splits prod.splits option.splits)
  thus ?thesis using i1 ie i2 i4 i5 by auto
qed

lemma stop_owned_complete:
  assumes "request_stop_owned channel g qe s = (Returned reply, t)" "ry_ok reply"
  shows "sm_active t \<inter> set (channel_list channel) = {} \<and> sm_state t \<noteq> FAULT_LATCHED
    \<and> safety_children_authoritative t \<and> sm_abort_generation t = g
    \<and> (sm_driver s \<noteq> None \<longrightarrow> all_stopped (channel_list channel) (qs_stop qe) t)"
proof -
  obtain r1 c1 s1 where r1: "reconcile_hazardous_success ''operator stop'' (qs_before qe) s = (r1, c1, s1)"
    by (metis prod_cases3)
  have d1: "sm_driver s1 = None \<longleftrightarrow> sm_driver s = None"
    using driver_kept interferes_reconcile [of s "''operator stop''" "qs_before qe"] r1 by simp
  obtain out s2 where f: "safe_off ''Operator stop'' (channel_list channel) (Some g) (qs_stop qe) s1 = (out, s2)"
    by force
  have first: "\<not> c1" "r1 = None" "sm_state s1 \<noteq> FAULT_LATCHED"
    using assms r1 by (auto simp: request_stop_owned_def mk_reply_def finish_def case_prod_beta Let_def split: if_splits)
  obtain applied i where out: "out = Returned (applied, i)"
    using assms r1 f first
    by (cases out) (auto simp: request_stop_owned_def split: if_splits)
  obtain r3 c3 s3 where r3: "reconcile_hazardous_success ''operator stop'' (qs_after qe) s2 = (r3, c3, s3)"
    by (metis prod_cases3)
  define s5 where "s5 = observe_terminal_safety_children (snd (side (qs_publish qe) s3))"
  have fin: "t = s5" "\<not> i" "sm_abort_generation s5 = g" "sm_state s5 \<noteq> FAULT_LATCHED"
      "safety_children_authoritative s5"
    using assms r1 f first out r3
    by (auto simp: request_stop_owned_def mk_reply_def case_prod_beta Let_def s5_def split: if_splits)
  have "interferes s2 s5" unfolding s5_def
    using interferes_reconcile [of s2 "''operator stop''" "qs_after qe"] r3
      interferes_trans [OF _ interferes_trans [OF interferes_side interferes_observe]] by fastforce
  hence after: "interferes s2 t" using fin(1) by simp
  have c: "sm_active s2 \<inter> set (channel_list channel) = {}
      \<and> (sm_driver s1 \<noteq> None \<longrightarrow> all_stopped (channel_list channel) (qs_stop qe) s2)"
    by (rule safe_off_complete) (use f out fin(2) in simp)
  have "sm_active t \<inter> set (channel_list channel) = {}" using c active_shrinks [OF after] by blast
  moreover have "sm_driver s \<noteq> None \<longrightarrow> all_stopped (channel_list channel) (qs_stop qe) t"
    using c d1 all_stopped_mono [OF _ after] by (cases "sm_driver s"; cases "sm_driver s1") simp_all
  ultimately show ?thesis using fin by blast
qed

text \<open>
  An operator stop that reports success has stopped every channel in its scope: each was
  commanded to stop and answered without failure, none is tracked as active, no fault is latched, the
  children are live and no abort other than its own was registered since. Any stop, successful or
  not, issues no start, activates nothing and keeps a latched fault; the request itself always
  invalidates the starts in flight.
\<close>
theorem operator_stop_sound:
  "case request_stop channel qe s of (out, s') \<Rightarrow>
     only_safe_commands s s' \<and> sm_active s' \<subseteq> sm_active s
     \<and> (sm_state s = FAULT_LATCHED \<longrightarrow> sm_state s' = FAULT_LATCHED)
     \<and> sm_abort_generation s < sm_abort_generation s'
     \<and> (case out of
          Returned reply \<Rightarrow>
            (if ry_ok reply
             then sm_active s' \<inter> resolve_channels channel = {} \<and> sm_state s' \<noteq> FAULT_LATCHED
                  \<and> safety_children_authoritative s' \<and> sm_abort_generation s' = Suc (sm_abort_generation s)
                  \<and> (sm_driver s = None \<or> all_stopped (channel_list channel) (qs_stop qe) s')
             else True)
        | _ \<Rightarrow> True)"
proof -
  let ?r = "register_abort_intent (channel = None) s"
  let ?s = "env_run (qs_lock_wait qe) ?r"
  let ?g = "sm_abort_generation ?r"
  obtain out t where run: "request_stop_owned channel ?g qe ?s = (out, t)" by force
  have i: "interferes ?r t"
    using interferes_trans [OF env_run_interferes interferes_stop_owned [of ?s channel ?g qe]] run by simp
  have ir: "interferes s t" by (rule interferes_trans [OF interferes_abort i])
  have g: "?g = Suc (sm_abort_generation s)" by simp
  have epoch: "sm_abort_generation s < sm_abort_generation t" using i g by (simp add: interferes_def)
  have chs: "set (channel_list channel) = resolve_channels channel"
    by (cases channel) (auto simp: channel_list_def resolve_channels_def SMU_CHANNELS_def intro: smu_channel.exhaust)
  have drv: "sm_driver ?s = None \<longleftrightarrow> sm_driver s = None"
    using driver_kept [OF interferes_trans [OF interferes_abort env_run_interferes]] by blast
  have fin: "sm_active t \<inter> resolve_channels channel = {} \<and> sm_state t \<noteq> FAULT_LATCHED
      \<and> safety_children_authoritative t \<and> sm_abort_generation t = Suc (sm_abort_generation s)
      \<and> (sm_driver s = None \<or> all_stopped (channel_list channel) (qs_stop qe) t)"
    if "out = Returned reply" "ry_ok reply" for reply
    using stop_owned_complete [of channel ?g qe ?s reply t] run that chs drv g
    by (cases "sm_driver s") simp_all
  have "request_stop channel qe s = (out, t)" using run by (simp add: request_stop_def Let_def)
  thus ?thesis using ir epoch fin by (cases out) (simp_all add: interferes_def)
qed

definition quiet_stop :: request_stop_env where
  "quiet_stop = \<lparr> qs_lock_wait = [], qs_before = quiet_reconcile, qs_latched_off = off_answer,
     qs_stop = \<lparr> se_stop = (\<lambda>_. off_answer), se_fault = quiet_fault, se_latched_off = off_answer \<rparr>,
     qs_after = quiet_reconcile, qs_publish = quiet_side \<rparr>"

lemma operator_stop_sound_witness:
  "sm_state (snd (request_stop None quiet_stop (running_sm\<lparr> sm_state := FAULT_LATCHED \<rparr>))) = FAULT_LATCHED
   \<and> 0 < sm_abort_generation (snd (request_stop None quiet_stop (running_sm\<lparr> sm_state := FAULT_LATCHED \<rparr>)))"
  using operator_stop_sound [where channel = None and qe = quiet_stop
      and s = "running_sm\<lparr> sm_state := FAULT_LATCHED \<rparr>"]
  by (auto split: prod.splits)

section \<open>Interlock trips\<close>

lemma interferes_source_cleared:
  "interferes s (sm_refresh (set_evidence e (s\<lparr> sm_active := {}, sm_connected := b \<rparr>)))"
  by (rule interferes_same) simp_all

lemma interferes_off_transition':
  "interferes s (if sm_state s \<notin> {FAULT_LATCHED, MANUAL_RECOVERY} then sm_transition SAFE_OFF r ch v s else s)"
  by (rule interferes_same) auto

lemma fault_continues:
  "(case r of (Returned u, x) \<Rightarrow> (a, x) | (CallerCancelled, x) \<Rightarrow> (CallerCancelled, x)
      | (RaisedExn e, x) \<Rightarrow> (RaisedExn e, x)) = (out, t) \<Longrightarrow> t = snd r"
  by (auto split: prod.splits outcome.splits)

text \<open>The stop of an interlock, from the moment its command lock is held.\<close>

lemma stop_source_cases:
  fixes ie s0
  defines "s \<equiv> env_run (ie_lock_wait ie) (register_abort_intent True s0)"
  assumes drv: "sm_driver s = Some d" and run: "interlock_stop_source name channel value ie s0 = (out, t)"
  shows "interferes s t \<and> CmdOff None \<in> set (sm_commands t)
    \<and> (if aw_result (ie_off ie) = Inr (DvOff DEVICE_REPORTED_OFF) then sm_active t = {} else sm_state t = FAULT_LATCHED)"
proof -
  define s1 where "s1 = snd (snd (hw_call (CmdOff None) (ie_off ie) s))"
  have i1: "interferes s s1" unfolding s1_def by (rule interferes_hw_call) (simp add: is_start_def)
  have "interferes (s\<lparr> sm_commands := sm_commands s @ [CmdOff None] \<rparr>) s1"
    by (simp add: s1_def hw_call_def env_run_interferes)
  hence cmd: "CmdOff None \<in> set (sm_commands s1)" using commands_grow by fastforce
  show ?thesis
  proof (cases "aw_result (ie_off ie) = Inr (DvOff DEVICE_REPORTED_OFF)")
    case False
    let ?f = "\<lparr> fr_reason = ''Interlock '' @ name @ (if \<exists>e. aw_result (ie_off ie) = Inl e
          then '' (emergency_off failed)'' else '' (emergency_off could not confirm OFF)''),
        fr_channel = channel, fr_value = value, fr_source = ''safety_manager'' \<rparr>"
    have "(case sm_fault ?f (ie_fault ie) s1 of (Returned u, x) \<Rightarrow> (finish (aw_cancelled (ie_off ie)) (), x)
        | (CallerCancelled, x) \<Rightarrow> (CallerCancelled, x) | (RaisedExn e, x) \<Rightarrow> (RaisedExn e, x)) = (out, t)"
      using run drv False unfolding interlock_stop_source_def s_def [symmetric] Let_def
      by (simp add: s1_def hw_call_def)
    hence "t = snd (sm_fault ?f (ie_fault ie) s1)" by (rule fault_continues)
    hence "interferes s1 t" "sm_state t = FAULT_LATCHED" using interferes_fault fault_latches by simp_all
    thus ?thesis
      using False interferes_trans [OF i1] cmd commands_grow by auto
  next
    case True
    have hw: "hw_call (CmdOff None) (ie_off ie) s = (Inr (DvOff DEVICE_REPORTED_OFF), aw_cancelled (ie_off ie), s1)"
      using True by (simp add: s1_def hw_call_def)
    let ?b = "has_current_reviewed_connection_generation (s1\<lparr> sm_active := {} \<rparr>)"
    let ?s3 = "s1\<lparr> sm_active := {}, sm_connected := ?b \<rparr>"
    define s4 where "s4 = sm_refresh (set_evidence (global_off_evidence_for_result ?s3 (DvOff DEVICE_REPORTED_OFF)) ?s3)"
    define s5 where "s5 = (if sm_state s4 \<notin> {FAULT_LATCHED, MANUAL_RECOVERY}
        then sm_transition SAFE_OFF (''Interlock stop_source: '' @ name) channel value s4 else s4)"
    have t: "t = snd (side (ie_publish ie) s5)"
      using run drv unfolding interlock_stop_source_def s_def [symmetric] Let_def hw s5_def s4_def
      by (simp only: prod.case case_prod_beta option.distinct if_False simp_thms snd_conv prod.inject) auto
    have i4: "interferes s1 s4" unfolding s4_def by (rule interferes_source_cleared)
    have "interferes s4 s5" unfolding s5_def by (rule interferes_off_transition')
    hence i4t: "interferes s4 t" unfolding t by (rule interferes_trans) (rule interferes_side)
    have "sm_active s4 = {}" by (simp add: s4_def)
    hence "sm_active t = {}" using active_shrinks [OF i4t] by simp
    thus ?thesis
      using True interferes_trans [OF i1 interferes_trans [OF i4 i4t]] cmd
        commands_grow [OF interferes_trans [OF i4 i4t]] by auto
  qed
qed

lemma trip_sets_up:
  "interferes s (s\<lparr> sm_tripped_controls := insert name (sm_tripped_controls s) \<rparr>)"
  by (rule interferes_same) simp_all

text \<open>
  C25: An interlock trip is decisive. A \<open>stop_source\<close> trip cuts every start in flight before it waits
  for anything, commands a global OFF, and ends with no tracked source exactly when the device itself
  reported OFF, and with a latched fault otherwise; every other non-warning action ends latched. In
  each case the interlock is recorded as tripped before the action, nothing is started or activated,
  and a latched fault stays latched.
\<close>
theorem interlock_trip_decisive:
  assumes "sm_driver s = Some d" "action \<noteq> ''warning''"
  shows "case on_interlock_trip name channel v action ie s of (out, s') \<Rightarrow>
     only_safe_commands s s' \<and> sm_active s' \<subseteq> sm_active s
     \<and> (sm_state s = FAULT_LATCHED \<longrightarrow> sm_state s' = FAULT_LATCHED)
     \<and> (if action = ''stop_source''
        then sm_abort_generation s < sm_abort_generation s' \<and> CmdOff None \<in> set (sm_commands s')
             \<and> (if aw_result (ie_off ie) = Inr (DvOff DEVICE_REPORTED_OFF) then sm_active s' = {}
                else sm_state s' = FAULT_LATCHED)
        else sm_state s' = FAULT_LATCHED)"
proof (cases "action = ''stop_source''")
  case False
  obtain f where f: "on_interlock_trip name channel v action ie s
      = sm_fault f (ie_fault ie) (s\<lparr> sm_tripped_controls := insert name (sm_tripped_controls s) \<rparr>)"
    using False assms(2) by (cases "action = ''emergency_off''") (auto simp: on_interlock_trip_def Let_def)
  let ?u = "s\<lparr> sm_tripped_controls := insert name (sm_tripped_controls s) \<rparr>"
  have "interferes s (snd (sm_fault f (ie_fault ie) ?u))"
    by (rule interferes_trans [OF trip_sets_up interferes_fault])
  thus ?thesis using f False fault_latches [of f "ie_fault ie" ?u] by (simp add: case_prod_beta interferes_def)
next
  case True
  let ?u = "register_abort_intent True (s\<lparr> sm_tripped_controls := insert name (sm_tripped_controls s) \<rparr>)"
  let ?v = "env_run (ie_lock_wait ie) (register_abort_intent True ?u)"
  obtain out t where run: "interlock_stop_source name channel v ie ?u = (out, t)" by force
  have all: "on_interlock_trip name channel v action ie s = (out, t)"
    using run True by (simp add: on_interlock_trip_def Let_def)
  have iu: "interferes s ?u" by (rule interferes_trans [OF trip_sets_up interferes_abort])
  have uv: "interferes ?u ?v" by (rule interferes_trans [OF interferes_abort env_run_interferes])
  obtain d' where d': "sm_driver ?v = Some d'" using driver_kept [OF interferes_trans [OF iu uv]] assms(1) by auto
  note c = stop_source_cases [OF d' run]
  have ut: "interferes ?u t" using uv c interferes_trans by blast
  have "sm_abort_generation s < sm_abort_generation t" using ut by (simp add: interferes_def)
  thus ?thesis using all True c interferes_trans [OF iu ut] by (simp add: interferes_def)
qed

definition quiet_interlock :: interlock_env where
  "quiet_interlock = \<lparr> ie_fault = quiet_fault, ie_lock_wait = [], ie_off = no_answer, ie_publish = quiet_side \<rparr>"

lemma interlock_trip_decisive_witness:
  "sm_state (snd (on_interlock_trip ''warmup'' ''T12'' (Fin 300) ''stop_source'' quiet_interlock running_sm)) = FAULT_LATCHED"
  using interlock_trip_decisive [where s = running_sm and d = sample_driver and action = "''stop_source''"
      and name = "''warmup''" and channel = "''T12''" and v = "Fin 300" and ie = quiet_interlock]
  by (simp add: case_prod_beta quiet_interlock_def no_answer_def)

text \<open>
  Without a driver, a \<open>stop_source\<close> trip does not complete: the source is forgotten, but the
  handler then reads a result that was never bound and raises, so neither the OFF evidence nor the
  snapshot nor the state is updated.
\<close>
theorem stop_source_without_driver_raises:
  assumes "sm_driver s = None"
  shows "case on_interlock_trip name channel v ''stop_source'' ie s of (out, s') \<Rightarrow>
     out = RaisedExn (RuntimeError ''UnboundLocalError: ok'') \<and> sm_active s' = {}
     \<and> (ie_lock_wait ie = [] \<longrightarrow> sm_state s' = sm_state s \<and> sm_evidence_at s' = sm_evidence_at s)"
proof -
  let ?u = "register_abort_intent True (s\<lparr> sm_tripped_controls := insert name (sm_tripped_controls s) \<rparr>)"
  let ?v = "env_run (ie_lock_wait ie) (register_abort_intent True ?u)"
  have "interferes s ?v"
    by (rule interferes_trans [OF interferes_trans [OF trip_sets_up interferes_abort]
          interferes_trans [OF interferes_abort env_run_interferes]])
  hence "sm_driver ?v = None" using driver_kept assms by blast
  thus ?thesis by (simp add: on_interlock_trip_def interlock_stop_source_def Let_def register_abort_intent_def)
qed

lemma stop_source_without_driver_raises_witness:
  "fst (on_interlock_trip ''warmup'' ''T12'' (Fin 300) ''stop_source'' quiet_interlock (sm_init True None None None 0))
   = RaisedExn (RuntimeError ''UnboundLocalError: ok'')"
  using stop_source_without_driver_raises [where s = "sm_init True None None None 0" and name = "''warmup''"
      and channel = "''T12''" and v = "Fin 300" and ie = quiet_interlock]
  by (simp add: case_prod_beta sm_init_def Let_def)

end
