(* ===== verification/SafetyCheckProps.thy ===== *)
theory SafetyCheckProps
  imports SafetyStopProps
begin

text \<open>
  What the periodic checks decide: exactly which conditions latch a running source, and what must
  hold before the manager calls itself READY.
\<close>

section \<open>Critical inputs\<close>

lemma first_some_None: "first_some f xs = None \<longleftrightarrow> (\<forall>x \<in> set xs. f x = None)"
  by (induction xs) (auto split: option.splits)

text \<open>An input sample that may not be relied on at time \<open>now\<close>.\<close>

definition unreliable_sample :: "sm \<Rightarrow> real \<Rightarrow> identity \<times> (real \<times> pyfloat \<times> string) \<Rightarrow> bool" where
  "unreliable_sample s now m =
     (case m of (i, (ts, value, status)) \<Rightarrow>
        fl_less (sc_stale_timeout_s (sm_config s)) (Fin (now - ts))
        \<or> dict_get (sm_instrument_faults s) i = None \<and> (status \<noteq> ''ok'' \<or> \<not> fl_isfinite value))"

definition critical_input_unsafe :: "sm \<Rightarrow> real \<Rightarrow> bool" where
  "critical_input_unsafe s now =
     (\<exists>(declared, matches) \<in> set (critical_input_requirements s).
        matches = [] \<and> \<not> sm_mock s \<or> (\<exists>m \<in> set matches. unreliable_sample s now m))"

lemma sample_problem_iff: "sample_problem s now m = None \<longleftrightarrow> \<not> unreliable_sample s now m"
  by (cases m) (auto simp: sample_problem_def unreliable_sample_def)

lemma critical_problem_iff: "critical_input_problem s now = None \<longleftrightarrow> \<not> critical_input_unsafe s now"
proof -
  have "requirement_problem s now d = None \<longleftrightarrow>
      \<not> (case d of (declared, matches) \<Rightarrow> matches = [] \<and> \<not> sm_mock s \<or> (\<exists>m \<in> set matches. unreliable_sample s now m))" for d
    by (cases d) (simp add: requirement_problem_def first_some_None sample_problem_iff)
  thus ?thesis by (simp add: critical_input_problem_def critical_input_unsafe_def first_some_None)
qed

section \<open>Rates\<close>

lemma get_rate_state:
  "snd (get_rate e k) = e \<or>
     (\<exists>r. \<not> rate_insufficient e (dict_getd (re_buffers e) (rate_resolve_channel e k) [])
       \<and> snd (get_rate e k) = e\<lparr> re_last_rate := dict_set (rate_resolve_channel e k) r (re_last_rate e),
           re_serve_stale := dict_set (rate_resolve_channel e k) False (re_serve_stale e) \<rparr>)"
  by (simp add: get_rate_def Let_def split: option.splits) blast

lemma get_rate_read_only: "fst (get_rate (snd (get_rate e k)) k') = fst (get_rate e k')"
proof -
  have fresh: "fst (get_rate (e\<lparr> re_last_rate := dict_set c r (re_last_rate e),
      re_serve_stale := dict_set c False (re_serve_stale e) \<rparr>) k') = fst (get_rate e k')"
    if "\<not> rate_insufficient e (dict_getd (re_buffers e) c [])" for c r
  proof -
    let ?e = "e\<lparr> re_last_rate := dict_set c r (re_last_rate e), re_serve_stale := dict_set c False (re_serve_stale e) \<rparr>"
    have q: "rate_resolve_channel ?e k' = rate_resolve_channel e k'" "\<And>b. rate_insufficient ?e b = rate_insufficient e b"
      by (simp_all add: rate_resolve_channel_def rate_insufficient_def)
    show ?thesis
    proof (cases "rate_insufficient e (dict_getd (re_buffers e) (rate_resolve_channel e k') [])")
      case True
      hence "rate_resolve_channel e k' \<noteq> c" using that by metis
      thus ?thesis using True q by (simp add: get_rate_def Let_def dict_getd_def)
    next
      case False
      thus ?thesis using q by (simp add: get_rate_def Let_def split: option.splits)
    qed
  qed
  show ?thesis using get_rate_state [of e k] fresh by metis
qed

lemma rate_fault_iff:
  "fst (rate_fault limit inputs e) \<noteq> None \<longleftrightarrow>
     (\<exists>(k, ch) \<in> set inputs. \<exists>r. fst (get_rate e k) = Some r \<and> fl_less limit (fl_abs r))"
proof (induction limit inputs e rule: rate_fault.induct)
  case (2 limit key channel rest e)
  show ?case
  proof (cases "get_rate e key")
    case (Pair r e')
    have same: "fst (get_rate e' k) = fst (get_rate e k)" for k using get_rate_read_only [of e key k] Pair by simp
    show ?thesis using 2 Pair same by (cases r) auto
  qed
qed simp

section \<open>A running source\<close>

text \<open>
  The conditions of the source under which a running source may not go on, read off the state. The
  last two clauses are about the device and are skipped by a simulation.
\<close>

definition heartbeat_lost :: "sm \<Rightarrow> bool" where
  "heartbeat_lost s =
     (if sm_active s \<noteq> {}
      then \<exists>c \<in> sm_active s. \<not> has_fresh_keithley_data (sm_clock s) c s
      else sm_state s = RUN_PERMITTED \<and> 0 < sm_run_permitted_since s
           \<and> fl_less (sc_heartbeat_timeout_s (sm_config s)) (Fin (sm_clock s - sm_run_permitted_since s)))"

definition rate_exceeded :: "sm \<Rightarrow> bool" where
  "rate_exceeded s =
     (\<exists>(key, channel) \<in> set (rate_inputs s). \<exists>r.
        fst (get_rate (sm_rate s) key) = Some r \<and> fl_less (sc_max_dT_dt_K_per_min (sm_config s)) (fl_abs r))"

definition unsafe_to_run :: "watchdog_readback \<Rightarrow> sm \<Rightarrow> bool" where
  "unsafe_to_run wd s =
     (current_unmanaged_output_hazard s \<noteq> None
      \<or> energizing_mutation_refusal s \<noteq> None
      \<or> driver_flag dv_watchdog_trip_pending s \<and> \<not> sm_mock s
      \<or> critical_input_unsafe s (sm_clock s)
      \<or> sm_driver s \<noteq> None \<and> \<not> sm_mock s \<and> (wd \<in> {WdRaised, WdTripped} \<or> heartbeat_lost s)
      \<or> rate_exceeded s)"

lemma refresh_reads [simp]:
  "current_unmanaged_output_hazard (sm_refresh s) = current_unmanaged_output_hazard s"
  "energizing_mutation_refusal (sm_refresh s) = energizing_mutation_refusal s"
  "driver_flag f (sm_refresh s) = driver_flag f s"
  "critical_input_problem (sm_refresh s) now = critical_input_problem s now"
  "has_fresh_keithley_data now c (sm_refresh s) = has_fresh_keithley_data now c s"
  "rate_inputs (sm_refresh s) = rate_inputs s"
proof -
  obtain e t n where r: "sm_refresh s = s\<lparr> sm_evidence := e, sm_evidence_at := t, sm_snapshot := n \<rparr>"
    using sm_refresh_shape by blast
  have "sample_problem (sm_refresh s) = sample_problem s" for s
    by (intro ext) (simp add: sample_problem_def case_prod_beta)
  hence "requirement_problem (sm_refresh s) = requirement_problem s"
    by (intro ext) (simp add: requirement_problem_def case_prod_beta)
  moreover have "critical_input_requirements (sm_refresh s) = critical_input_requirements s"
    by (simp add: critical_input_requirements_def cong: option.case_cong list.case_cong)
  ultimately show "critical_input_problem (sm_refresh s) now = critical_input_problem s now"
    by (simp add: critical_input_problem_def)
  show "current_unmanaged_output_hazard (sm_refresh s) = current_unmanaged_output_hazard s"
    by (cases "sm_driver s") (simp_all add: current_unmanaged_output_hazard_def split: capability.splits)
  show "energizing_mutation_refusal (sm_refresh s) = energizing_mutation_refusal s"
    by (simp add: energizing_mutation_refusal_def explicit_simulation_authorized_def cong: option.case_cong)
  show "driver_flag f (sm_refresh s) = driver_flag f s" by (simp add: driver_flag_def)
  show "has_fresh_keithley_data now c (sm_refresh s) = has_fresh_keithley_data now c s"
    by (simp add: has_fresh_keithley_data_def)
  show "rate_inputs (sm_refresh s) = rate_inputs s" by (simp add: rate_inputs_def cong: option.case_cong)
qed

lemma standing_fault_refresh [simp]: "standing_fault (sm_refresh s) = standing_fault s"
  by (cases "energizing_mutation_refusal s"; cases "current_unmanaged_output_hazard s")
     (simp_all add: standing_fault_def watchdog_pending_fault_def case_prod_beta)

lemma standing_fault_running:
  assumes "sm_state s \<in> {RUN_PERMITTED, RUNNING}"
  shows "standing_fault s \<noteq> None \<longleftrightarrow> current_unmanaged_output_hazard s \<noteq> None
    \<or> energizing_mutation_refusal s \<noteq> None \<or> driver_flag dv_watchdog_trip_pending s \<and> \<not> sm_mock s"
  using assms by (auto simp: standing_fault_def watchdog_pending_fault_def split: option.splits)

lemma heartbeat_iff: "heartbeat_fault (sm_clock s) s \<noteq> None \<longleftrightarrow> heartbeat_lost s"
proof -
  have ex: "first_some f SMU_CHANNELS \<noteq> None \<longleftrightarrow> (\<exists>c. f c \<noteq> None)" for f :: "smu_channel \<Rightarrow> fault_request option"
  proof -
    have "set SMU_CHANNELS = UNIV" by (auto simp: SMU_CHANNELS_def intro: smu_channel.exhaust)
    thus ?thesis using first_some_None [of f SMU_CHANNELS] by auto
  qed
  show ?thesis
    unfolding heartbeat_fault_def heartbeat_lost_def
    by (cases "sm_active s = {}") (simp_all only: ex refl if_True if_False simp_thms, auto)
qed

lemma hardware_iff:
  "hardware_fault (sm_clock s) wd s \<noteq> None \<longleftrightarrow>
     sm_driver s \<noteq> None \<and> \<not> sm_mock s \<and> (wd \<in> {WdRaised, WdTripped} \<or> heartbeat_lost s)"
  using heartbeat_iff [of s] by (cases wd; cases "sm_driver s") (auto simp: hardware_fault_def)

lemma latch_request_state [simp]: "sm_state (latch_request f s) = FAULT_LATCHED"
  by (simp add: latch_request_def begin_fault_latch_latches)

lemma second_iff:
  assumes "sm_state s \<noteq> FAULT_LATCHED"
  shows "sm_state (run_checks_second (sm_clock s) wd s) = FAULT_LATCHED \<longleftrightarrow>
    hardware_fault (sm_clock s) wd s \<noteq> None \<or> rate_exceeded s"
proof -
  have "rate_exceeded s \<longleftrightarrow> fst (rate_fault (sc_max_dT_dt_K_per_min (sm_config s)) (rate_inputs s) (sm_rate s)) \<noteq> None"
    unfolding rate_fault_iff rate_exceeded_def by (rule refl)
  thus ?thesis using assms by (auto simp: run_checks_second_def split: option.splits prod.splits)
qed

lemma second_clean:
  assumes "sm_state (run_checks_second now wd s) \<noteq> FAULT_LATCHED"
  shows "sm_state (run_checks_second now wd s) = sm_state s \<and> sm_active (run_checks_second now wd s) = sm_active s"
  using assms by (auto simp: run_checks_second_def split: option.splits prod.splits)

lemma unsafe_refresh:
  "rate_exceeded (sm_refresh s) = rate_exceeded s" "heartbeat_lost (sm_refresh s) = heartbeat_lost s"
  by (simp_all add: rate_exceeded_def heartbeat_lost_def)



section \<open>Becoming ready\<close>

lemma refreshed_off:
  assumes "verified_off (sm_evidence (sm_refresh s))"
  shows "verified_off (sm_evidence s) \<and> \<not> driver_flag dv_output_state_unverified s
    \<and> fl_le (Fin (sm_clock s - sm_evidence_at s)) (sc_stale_timeout_s (sm_config s))"
proof -
  have unknown: "\<not> verified_off (unknown_global_off_evidence t)" for t
    by (simp add: unknown_global_off_evidence_def physical_off_verified_def)
  have "verified_off (sm_evidence (revoked_evidence s))"
    using assms unknown by (auto simp: sm_refresh_def refreshed_evidence_def Let_def set_evidence_def split: if_splits)
  thus ?thesis
    using unknown by (auto simp: revoked_evidence_def expire_stale_off_evidence_def set_evidence_def driver_flag_def
        split: option.splits if_splits)
qed

text \<open>
  C13: Only the checks make the manager READY by themselves, and only from SAFE_OFF or MANUAL_RECOVERY
  with everything a start relies on: live collector and monitor, a current hardware qualification
  receipt (unless the manager is a sealed simulation), no unconsumed watchdog trip, every failed poll
  recovered, no persistently dead interlock channel and reliable critical inputs; and with hardware,
  a sealed identity and connection, and, while no channel is tracked as active, an OFF the device
  itself reported within the stale timeout. A latched fault is never left by a check.
\<close>
theorem ready_only_when_proven:
  assumes "sm_state (run_checks wd s) = READY" "sm_state s \<noteq> READY"
  shows "sm_state s \<in> {SAFE_OFF, MANUAL_RECOVERY}
    \<and> safety_children_authoritative s
    \<and> (explicit_simulation_authorized s \<or> (\<exists>expiry. sm_receipt_expiry s = Some expiry \<and> sm_clock s < expiry))
    \<and> \<not> driver_flag dv_watchdog_trip_pending s
    \<and> sm_failed_polls s = [] \<and> sm_mature_dead s = []
    \<and> \<not> critical_input_unsafe s (sm_clock s)
    \<and> (if sm_mock s then True
       else sm_identity_qualified s \<and> sm_source_generation s \<noteq> None \<and> sm_connected s
            \<and> (sm_active s \<noteq> {} \<or>
               verified_off (sm_evidence s) \<and> \<not> driver_flag dv_output_state_unverified s
               \<and> fl_le (Fin (sm_clock s - sm_evidence_at s)) (sc_stale_timeout_s (sm_config s))))"
proof -
  let ?r = "sm_refresh s"
  have second: "sm_state (run_checks_second now wd t) \<in> {FAULT_LATCHED, sm_state t}" for now t
    using second_clean [of now wd t] by auto
  have pre: "sm_state s \<in> {SAFE_OFF, MANUAL_RECOVERY} \<and> check_preconditions ?r = None"
    using assms second [of "sm_clock s" ?r]
    by (auto simp: run_checks_def run_checks_first_def Let_def split: option.splits safety_state.splits if_splits)
  note ok = pre [THEN conjunct2, unfolded check_preconditions_def]
  have qual: "energizing_mutation_refusal s = None" using ok by (cases "energizing_mutation_refusal s") simp_all
  have inputs: "critical_input_problem s (sm_clock s) = None"
    using ok qual by (cases "critical_input_problem s (sm_clock s)") (simp_all split: if_splits)
  have off: "\<not> sm_mock s \<Longrightarrow> sm_active s = {} \<Longrightarrow> verified_off (sm_evidence ?r)"
    using ok qual inputs by (simp split: if_splits)
  have receipt: "explicit_simulation_authorized s \<or> (\<exists>expiry. sm_receipt_expiry s = Some expiry \<and> sm_clock s < expiry)"
    using qual by (auto simp: energizing_mutation_refusal_def split: if_splits option.splits)
  have rest: "safety_children_authoritative s" "\<not> driver_flag dv_watchdog_trip_pending s" "sm_failed_polls s = []"
      "sm_mature_dead s = []"
      "\<not> sm_mock s \<Longrightarrow> sm_identity_qualified s \<and> sm_source_generation s \<noteq> None \<and> sm_connected s"
    using ok qual inputs by (simp_all split: if_splits)
  show ?thesis
    using pre receipt rest off refreshed_off [of s] critical_problem_iff [of s "sm_clock s"] inputs by auto
qed

lemma refresh_keeps_evidence:
  assumes "\<not> driver_flag dv_output_state_unverified s" "sm_state s \<noteq> READY"
    and "fl_le (Fin (sm_clock s - sm_evidence_at s)) (sc_stale_timeout_s (sm_config s))"
  shows "sm_evidence (sm_refresh s) = sm_evidence s"
proof -
  have "expire_stale_off_evidence s = s" using assms(3) by (simp add: expire_stale_off_evidence_def)
  hence "revoked_evidence s = s"
    using assms(1) by (cases "sm_driver s") (simp_all add: revoked_evidence_def driver_flag_def)
  thus ?thesis using assms(2) by (simp add: sm_refresh_def refreshed_evidence_def ready_unqualified_def Let_def)
qed

lemma safe_off_state_checks:
  "sm_state (run_checks WdClear (standby_sm\<lparr> sm_state := SAFE_OFF \<rparr>)) = READY"
proof -
  let ?s = "standby_sm\<lparr> sm_state := SAFE_OFF \<rparr>"
  have "sm_evidence (sm_refresh ?s) = sm_evidence ?s"
    by (rule refresh_keeps_evidence) (simp_all add: driver_flag_def sample_defs Let_def)
  hence ev: "verified_off (sm_evidence (sm_refresh ?s))"
    by (simp add: standby_sm_def physical_off_verified_def)
  have inputs: "critical_input_problem ?s 100 = None"
    by (simp add: critical_input_problem_def critical_input_requirements_def requirement_problem_def
        sample_problem_def sample_defs Let_def)
  have live: "safety_children_authoritative ?s"
    by (simp add: safety_children_authoritative_def sample_defs Let_def)
  have standing: "standing_fault ?s = None" and refusal: "energizing_mutation_refusal ?s = None"
    by (simp_all add: standing_fault_def watchdog_pending_fault_def current_unmanaged_output_hazard_def
        energizing_mutation_refusal_def explicit_simulation_authorized_def driver_flag_def sample_defs Let_def)
  have fields: "sm_clock ?s = 100" "sm_failed_polls ?s = []" "sm_mature_dead ?s = []" "sm_mock ?s = False"
      "sm_driver ?s = Some sample_driver" "sm_identity_qualified ?s" "sm_source_generation ?s = Some 0"
      "sm_connected ?s" "sm_latest ?s \<noteq> []" "sm_active ?s = {}"
    by (simp_all add: standby_sm_def sm_init_def sample_driver_def sample_binding_def Let_def)
  have flags: "\<not> driver_flag dv_watchdog_trip_pending ?s" "driver_flag dv_connected ?s"
      "\<not> driver_flag dv_output_state_unverified ?s"
    using fields(5) by (simp_all add: driver_flag_def sample_driver_def)
  have "check_preconditions (sm_refresh ?s) = None"
    unfolding check_preconditions_def using ev inputs live refusal fields flags by simp
  moreover have "sm_latest (sm_refresh ?s) \<noteq> []" "sm_state (sm_refresh ?s) = SAFE_OFF" using fields(9) by simp_all
  ultimately show ?thesis using standing by (simp add: run_checks_def run_checks_first_def Let_def)
qed

lemma ready_only_when_proven_witness:
  "safety_children_authoritative (standby_sm\<lparr> sm_state := SAFE_OFF \<rparr>)
   \<and> verified_off (sm_evidence standby_sm)"
proof -
  have st: "sm_state (standby_sm\<lparr> sm_state := SAFE_OFF \<rparr>) \<noteq> READY" "\<not> sm_mock standby_sm" "sm_active standby_sm = {}"
    by (simp, simp_all add: standby_sm_def) (simp_all add: sm_init_def Let_def)
  thus ?thesis using ready_only_when_proven [OF safe_off_state_checks st(1)] by simp
qed

end
