(* ===== verification/SafetyRun.thy ===== *)
theory SafetyRun
  imports SafetyStopProps
begin

text \<open>
  Starting a source: \<open>request_run\<close> with its two passes over \<open>_request_run_locked\<close> (a preflight that
  collects warnings, then the start), the consumption of a latched interlock or recovered persistence
  fault, the target OFF proof before a second channel, the owned start and its revert branches, and
  the reconciliation after publication. Waits are answers with the interference of other tasks.
\<close>

section \<open>The request and its waits\<close>

text \<open>The two epochs are sampled when the method is called.\<close>

record run_request =
  rq_channel :: smu_channel
  rq_p :: pyfloat
  rq_v :: pyfloat
  rq_i :: pyfloat
  rq_abort :: nat
  rq_full :: nat

text \<open>
  The answer of the persistence probe: no hook, a hook that raises and a false answer all count as
  \<open>False\<close>; the probe may wait.
\<close>

record probe =
  pr_answer :: bool
  pr_interference :: "env_event list"

datatype rearm_outcome = RearmAbsent | RearmRaised | Rearmed "string list"

record revoke_env =
  rv_fault :: fault_env
  rv_off :: "drv_value hw"
  rv_off_cancelled :: bool
  rv_publish :: side_wait

record run_env =
  rn_probe :: probe
  rn_rearm :: rearm_outcome
  rn_target_off :: "drv_value hw"
  rn_start :: "unit hw"
  rn_fault :: fault_env
  rn_off :: "drv_value hw"
  rn_off_cancelled :: bool
  rn_full_off :: off_env
  rn_publish :: side_wait
  rn_publish_failed :: bool
  rn_abort_publish :: side_wait
  rn_revoke :: revoke_env

definition refused :: "string \<Rightarrow> sm \<Rightarrow> reply outcome \<times> sm" where
  "refused err s = (Returned (mk_reply False err s), s)"

section \<open>Admission\<close>

definition cooldown_operator_warnings :: "sm \<Rightarrow> warning list" where
  "cooldown_operator_warnings s =
     (if sm_predictor_available s \<noteq> Some False then []
      else [\<lparr> ow_code = ''cooldown_predictor_unavailable'',
              ow_reason = (if sm_predictor_reason s = [] then ''unavailable'' else sm_predictor_reason s) \<rparr>])"

text \<open>A warning of an earlier refused start counts only while no abort came in between.\<close>

definition pending_start_warning :: "nat \<Rightarrow> sm \<Rightarrow> warning option \<times> sm" where
  "pending_start_warning g s =
     (case sm_pending_start_warning s of
        None \<Rightarrow> (None, s)
      | Some (g', w) \<Rightarrow> if g' = g then (Some w, s) else (None, s\<lparr> sm_pending_start_warning := None \<rparr>))"

text \<open>
  A latched fault is consumed by a start when its only source is the interlock, or when its only
  source was persistence and persistence then answers that it can write.
\<close>

definition consume_latch :: "nat \<Rightarrow> probe \<Rightarrow> sm \<Rightarrow> warning option \<times> sm" where
  "consume_latch g pr s =
     (let persistence = (sm_fault_sources s = {''persistence''});
          s1 = (if persistence then env_run (pr_interference pr) s else s);
          recovered = (persistence \<and> pr_answer pr)
      in if sm_fault_sources s1 \<noteq> {''interlock''} \<and> \<not> recovered then (None, s1)
         else
           (let s2 = (if recovered then s1\<lparr> sm_persistence_fault := False \<rparr> else s1);
                w = \<lparr> ow_code = (if recovered then ''latched_persistence_start'' else ''latched_interlock_start''),
                      ow_reason = sm_fault_reason s2 \<rparr>
            in (Some w,
                sm_transition SAFE_OFF ''Operator requested Start under a latched interlock'' [] (Fin 0)
                  (s2\<lparr> sm_pending_start_warning := Some (g, w),
                       sm_recovery_reason := ''Operator requested Start under a latched interlock'',
                       sm_latched_abort_generation := None, sm_fault_sources := {} \<rparr>))))"

definition setpoint_refusal :: "safety_config \<Rightarrow> pyfloat \<Rightarrow> pyfloat \<Rightarrow> pyfloat \<Rightarrow> string option" where
  "setpoint_refusal cfg p v i =
     (if \<not> (fl_isfinite p \<and> fl_isfinite v \<and> fl_isfinite i) then Some ''Non-finite setpoint rejected''
      else if fl_less (sc_max_power_w cfg) p then Some ''P exceeds limit''
      else if fl_less (sc_max_voltage_v cfg) v then Some ''V exceeds limit''
      else if fl_less (sc_max_current_a cfg) i then Some ''I exceeds limit''
      else None)"

definition admit_checked :: "run_request \<Rightarrow> bool \<Rightarrow> warning option \<Rightarrow> sm \<Rightarrow> (string + warning list) \<times> sm" where
  "admit_checked rq preflight w s0 =
     (let s = (if \<not> preflight \<and> w \<noteq> None then s0\<lparr> sm_pending_start_warning := None \<rparr> else s0)
      in if sm_state s \<notin> {SAFE_OFF, READY, RUNNING}
         then (Inl (''Start not allowed from '' @ state_value (sm_state s)), s)
         else if rq_channel rq \<in> sm_active s
         then (Inl (''Channel '' @ smu_name (rq_channel rq) @ '' already active''), s)
         else
           (case check_preconditions s of
              Some reason \<Rightarrow> (Inl reason, s)
            | None \<Rightarrow>
                (case setpoint_refusal (sm_config s) (rq_p rq) (rq_v rq) (rq_i rq) of
                   Some reason \<Rightarrow> (Inl reason, s)
                 | None \<Rightarrow>
                     (Inr ((case w of None \<Rightarrow> [] | Some x \<Rightarrow> [x]) @ cooldown_operator_warnings s), s))))"

definition run_admission :: "run_request \<Rightarrow> bool \<Rightarrow> probe \<Rightarrow> sm \<Rightarrow> (string + warning list) \<times> sm" where
  "run_admission rq preflight pr s =
     (if sm_abort_generation s \<noteq> rq_abort rq then (Inl ''Safety authority changed before source start'', s)
      else
        (let (w, s1) = pending_start_warning (rq_abort rq) s;
             s2 = expire_stale_off_evidence s1
         in if sm_state s2 = FAULT_LATCHED then
              (case consume_latch (rq_abort rq) pr s2 of
                 (None, s3) \<Rightarrow> (Inl (''FAULT: '' @ sm_fault_reason s3), s3)
               | (Some w', s3) \<Rightarrow> admit_checked rq preflight (Some w') s3)
            else admit_checked rq preflight w s2))"

section \<open>Before the start\<close>

definition apply_rearm :: "rearm_outcome \<Rightarrow> warning list \<Rightarrow> sm \<Rightarrow> warning list \<times> sm" where
  "apply_rearm ro ws s =
     (case ro of
        RearmAbsent \<Rightarrow> (ws, s)
      | RearmRaised \<Rightarrow> (ws @ [\<lparr> ow_code = ''interlock_rearm_unconfirmed'', ow_reason = ''hook raised'' \<rparr>], s)
      | Rearmed names \<Rightarrow> (ws, s\<lparr> sm_tripped_controls := {} \<rparr>))"

text \<open>\<open>await self._fault(..)\<close> and the negative reply after it.\<close>

definition fault_then_refuse :: "fault_request \<Rightarrow> fault_env \<Rightarrow> bool \<Rightarrow> string \<Rightarrow> sm \<Rightarrow> reply outcome \<times> sm" where
  "fault_then_refuse f fe cancelled err s =
     (case sm_fault f fe s of
        (Returned _, s') \<Rightarrow> (if cancelled then CallerCancelled else Returned (mk_reply False err s'), s')
      | (CallerCancelled, s') \<Rightarrow> (CallerCancelled, s')
      | (RaisedExn e, s') \<Rightarrow> (RaisedExn e, s'))"

text \<open>The authority changed during the target proof: a full OFF when the change demands one.\<close>

definition authority_lost :: "run_request \<Rightarrow> run_env \<Rightarrow> sm \<Rightarrow> reply outcome \<times> sm" where
  "authority_lost rq re s =
     (let err = ''Safety authority changed before source start''
      in if \<not> (sm_state s = FAULT_LATCHED \<or> rq_abort rq < sm_full_abort_generation s) then refused err s
         else
           (let off = ensure_output_off None (rn_off re) s; s1 = snd (snd off)
            in if off_confirmed off then
                 (let s2 = sm_refresh (s1\<lparr> sm_active := {} \<rparr>)
                  in (if rn_off_cancelled re then CallerCancelled else Returned (mk_reply False err s2), s2))
               else fault_then_refuse
                      (plain_fault (''Safety authority changed during target OFF proof for '' @ smu_name (rq_channel rq))
                        (smu_name (rq_channel rq)))
                      (rn_fault re) (rn_off_cancelled re) err s1))"

definition target_off_proof :: "run_request \<Rightarrow> run_env \<Rightarrow> sm \<Rightarrow> (reply outcome) option \<times> sm" where
  "target_off_proof rq re s =
     (let err = ''Target '' @ smu_name (rq_channel rq) @ '' OFF state is UNVERIFIED before RUN'';
          stop = (\<lambda>r. (Some (fst r), snd r))
      in if sm_mock s \<or> sm_active s = {} then (None, s)
         else if sm_driver s = None then (Some (RaisedExn (RuntimeError ''AssertionError'')), s)
         else if \<not> sm_identity_qualified s \<or> sm_source_generation s = None \<or> \<not> sm_connected s
         then stop (refused err s)
         else
           (let (answer, cancelled, s1) = hw_call (CmdOff (Some (rq_channel rq))) (rn_target_off re) s
            in if cancelled \<or> answer \<noteq> Inr (DvOff DEVICE_REPORTED_OFF)
               then stop (fault_then_refuse (plain_fault err (smu_name (rq_channel rq))) (rn_fault re) cancelled err s1)
               else
                 (let s2 = observe_terminal_safety_children s1
                  in if sm_abort_generation s2 \<noteq> rq_abort rq \<or> sm_state s2 = FAULT_LATCHED
                        \<or> \<not> safety_children_authoritative s2
                     then stop (authority_lost rq re s2)
                     else (None, s2))))"

text \<open>The evidence is dropped and RUN_PERMITTED entered before the start is sent.\<close>

definition begin_start :: "run_request \<Rightarrow> sm \<Rightarrow> sm" where
  "begin_start rq s =
     (let s1 = (if sm_mock s then s\<lparr> sm_connected := True \<rparr> else s);
          s2 = sm_refresh (set_evidence (unknown_global_off_evidence s1) s1)
      in if sm_state s2 \<noteq> RUNNING
         then sm_transition RUN_PERMITTED (''Start requested for '' @ smu_name (rq_channel rq))
                (smu_name (rq_channel rq)) (rq_p rq) (s2\<lparr> sm_run_permitted_since := sm_clock s2 \<rparr>)
         else s2)"

section \<open>The start and its revert branches\<close>

text \<open>
  A start whose result never reaches the caller is followed by a full emergency OFF, and by a fault
  when that OFF ends in an error.
\<close>

definition full_off_then :: "string \<Rightarrow> smu_channel \<Rightarrow> run_env \<Rightarrow> sm \<Rightarrow> sm" where
  "full_off_then reason ch re s =
     (case emergency_off_locked None (rn_full_off re) (register_abort_intent True s) of
        (Returned _, s') \<Rightarrow> s'
      | (_, s') \<Rightarrow> fault_in (plain_fault reason (smu_name ch)) (rn_fault re) s')"

text \<open>An abort during the start: revert the output, keep the other sources.\<close>

definition revert_start :: "run_request \<Rightarrow> run_env \<Rightarrow> sm \<Rightarrow> reply outcome \<times> sm" where
  "revert_start rq re s =
     (let ch = rq_channel rq;
          full = (rq_abort rq < sm_full_abort_generation s);
          err = ''Interlock trip during start - source not activated'';
          off = ensure_output_off (if full then None else Some ch) (rn_off re) s;
          s1 = snd (snd off)
      in if \<not> off_confirmed off
         then fault_then_refuse (plain_fault ''request_run abort could not confirm OFF'' (smu_name ch))
                (rn_fault re) (rn_off_cancelled re) err s1
         else if sm_state s1 = FAULT_LATCHED
         then (if rn_off_cancelled re then CallerCancelled else Returned (mk_reply False err s1), s1)
         else
           (let s2 = clear_if full s1;
                s3 = (if sm_active s2 \<noteq> {}
                      then sm_transition RUNNING ''Start aborted; existing sources remain'' (smu_name ch) (Fin 0) s2
                      else sm_transition SAFE_OFF ''Start aborted before commit'' (smu_name ch) (Fin 0) s2);
                (c4, s4) = side (rn_abort_publish re) s3
            in (if rn_off_cancelled re \<or> c4 then CallerCancelled else Returned (mk_reply False err s4), s4)))"

text \<open>\<open>None\<close>: the device started and nothing has overtaken the request.\<close>

definition await_start :: "run_request \<Rightarrow> run_env \<Rightarrow> sm \<Rightarrow> (reply outcome) option \<times> sm" where
  "await_start rq re s =
     (let ch = rq_channel rq;
          stop = (\<lambda>r. (Some (fst r), snd r));
          (answer, cancelled, s1) = hw_call (CmdStart ch (rq_p rq) (rq_v rq) (rq_i rq)) (rn_start re) s
      in if cancelled then (Some CallerCancelled, full_off_then ''cancelled start could not settle full OFF'' ch re s1)
         else
           (case answer of
              Inl e \<Rightarrow> stop (fault_then_refuse (plain_fault (''Source start failed on '' @ smu_name ch) (smu_name ch))
                              (rn_fault re) False e s1)
            | Inr _ \<Rightarrow>
                (let s2 = (if safety_children_authoritative s1 then s1
                           else
                             (let t = observe_terminal_safety_children s1
                              in if sm_abort_generation t = rq_abort rq then register_abort_intent True t else t))
                 in if sm_state s2 = FAULT_LATCHED then
                      (let s3 = snd (snd (ensure_output_off None (rn_off re) s2))
                       in (Some (if rn_off_cancelled re then CallerCancelled
                                 else Returned (mk_reply False ''Fault during start'' s3)), s3))
                    else if sm_abort_generation s2 \<noteq> rq_abort rq then stop (revert_start rq re s2)
                    else (None, s2))))"

section \<open>After publication\<close>

record revocation =
  rk_full :: bool
  rk_fault :: bool

definition post_publication_run_revocation :: "run_request \<Rightarrow> smu_channel set \<Rightarrow> sm \<Rightarrow> revocation option" where
  "post_publication_run_revocation rq expected s =
     (let latched = (sm_state s = FAULT_LATCHED);
          cut_bad = (case exact_driver_active_source_cut s of (present, owned) \<Rightarrow> present \<and> owned \<noteq> Some expected);
          grave = (\<not> safety_children_authoritative s \<or> sm_pending_settlements s \<noteq> []
                   \<or> sm_active s \<noteq> expected \<or> cut_bad \<or> current_unmanaged_output_hazard s \<noteq> None);
          abort_changed = (sm_abort_generation s \<noteq> rq_abort rq);
          full = (sm_state s \<noteq> RUNNING \<or> grave \<or> abort_changed \<and> sm_full_abort_generation s \<noteq> rq_full rq)
      in if sm_state s = RUNNING \<and> \<not> grave \<and> \<not> abort_changed then None
         else Some \<lparr> rk_full = full, rk_fault = (\<not> latched \<and> (grave \<or> sm_state s \<noteq> RUNNING)) \<rparr>)"

definition settle_revocation :: "run_request \<Rightarrow> revocation \<Rightarrow> revoke_env \<Rightarrow> sm \<Rightarrow> reply outcome \<times> sm" where
  "settle_revocation rq rk ve s =
     (let ch = rq_channel rq;
          err = ''RUN authority revoked after publication for '' @ smu_name ch;
          fault = \<lparr> fr_reason = err, fr_channel = smu_name ch, fr_value = Fin 0,
                    fr_source = ''run_post_publication_reconciliation'' \<rparr>;
          off = ensure_output_off (if rk_full rk then None else Some ch) (rv_off ve) s;
          s1 = (if rk_fault rk \<and> sm_state s \<noteq> FAULT_LATCHED then fault_in fault (rv_fault ve) s
                else
                  (let t = snd (snd off)
                   in if off_confirmed off
                      then t\<lparr> sm_active := (if rk_full rk then {} else sm_active t - {ch}) \<rparr>
                      else if sm_state t \<noteq> FAULT_LATCHED then fault_in fault (rv_fault ve) t
                      else t));
          s2 = (if sm_state s1 \<noteq> FAULT_LATCHED then
                  (if sm_active s1 \<noteq> {} then
                     (if sm_state s1 \<noteq> RUNNING
                      then sm_transition RUNNING ''Revoked start; existing sources remain'' (smu_name ch) (Fin 0) s1
                      else sm_refresh s1)
                   else sm_transition SAFE_OFF ''Revoked start settled OFF'' (smu_name ch) (Fin 0) s1)
                else sm_refresh s1);
          (c, s3) = side (rv_publish ve) s2
      in (if rv_off_cancelled ve \<or> c then CallerCancelled else Returned (mk_reply False err s3), s3))"

section \<open>The locked start\<close>

definition commit_run :: "run_request \<Rightarrow> run_env \<Rightarrow> sm \<Rightarrow> reply outcome \<times> sm" where
  "commit_run rq re s =
     (let ch = rq_channel rq;
          expected = insert ch (sm_active s);
          s1 = s\<lparr> sm_active := expected \<rparr>;
          s2 = (if sm_state s1 \<noteq> RUNNING
                then sm_transition RUNNING (''Source '' @ smu_name ch @ '' enabled'') (smu_name ch) (rq_p rq) s1
                else sm_refresh s1);
          (cancelled, s3) = side (rn_publish re) s2
      in if rn_publish_failed re \<or> cancelled then
           (if cancelled then CallerCancelled else RaisedExn (RuntimeError ''publication failed''),
            full_off_then ''unacknowledged RUN could not settle full OFF'' ch re s3)
         else
           (let s4 = observe_terminal_safety_children s3
            in case post_publication_run_revocation rq expected s4 of
                 None \<Rightarrow> (Returned (mk_reply True [] s4), s4)
               | Some rk \<Rightarrow> settle_revocation rq rk (rn_revoke re) s4))"

definition start_run :: "run_request \<Rightarrow> run_env \<Rightarrow> sm \<Rightarrow> reply outcome \<times> sm" where
  "start_run rq re s =
     (case target_off_proof rq re s of
        (Some out, s1) \<Rightarrow> (out, s1)
      | (None, s1) \<Rightarrow>
          (let s2 = begin_start rq s1
           in if sm_driver s2 = None then
                (if sc_require_keithley_for_run (sm_config s2) \<and> \<not> sm_mock s2
                 then refused ''Keithley not connected'' (sm_transition SAFE_OFF ''Keithley not connected'' [] (Fin 0) s2)
                 else commit_run rq re s2)
              else
                (case await_start rq re s2 of
                   (Some out, s3) \<Rightarrow> (out, s3)
                 | (None, s3) \<Rightarrow> commit_run rq re s3)))"

definition request_run_locked :: "run_request \<Rightarrow> run_env \<Rightarrow> sm \<Rightarrow> reply outcome \<times> sm" where
  "request_run_locked rq re s =
     (case run_admission rq False (rn_probe re) s of
        (Inl err, s1) \<Rightarrow> refused err s1
      | (Inr ws, s1) \<Rightarrow> start_run rq re (snd (apply_rearm (rn_rearm re) ws s1)))"

section \<open>The operation\<close>

text \<open>
  Waiting for the request lock and twice for the command lock, the preflight's probe, and the
  committer of the operator's warning choice: its outcome only labels the receipt, unless the caller
  is cancelled in it.
\<close>

record request_env =
  rx_lock_wait :: "env_event list"
  rx_probe :: probe
  rx_warning_choice :: side_wait
  rx_second_wait :: "env_event list"
  rx_run :: run_env

definition request_run :: "pyfloat \<Rightarrow> pyfloat \<Rightarrow> pyfloat \<Rightarrow> string option \<Rightarrow> request_env \<Rightarrow> sm \<Rightarrow> reply outcome \<times> sm" where
  "request_run p v i channel xe s =
     (let s0 = env_run (rx_lock_wait xe) s
      in case normalize_smu_channel channel of
           Inl e \<Rightarrow> (RaisedExn e, s0)
         | Inr ch \<Rightarrow>
             (let rq = \<lparr> rq_channel = ch, rq_p = p, rq_v = v, rq_i = i,
                         rq_abort = sm_abort_generation s, rq_full = sm_full_abort_generation s \<rparr>
              in case run_admission rq True (rx_probe xe) s0 of
                   (Inl err, s1) \<Rightarrow> refused err s1
                 | (Inr ws, s1) \<Rightarrow>
                     (let (cancelled, s2) = (if ws = [] then (False, s1) else side (rx_warning_choice xe) s1)
                      in if cancelled then (CallerCancelled, s2)
                         else if sm_abort_generation s2 \<noteq> sm_abort_generation s
                         then refused ''Safety authority changed before source start'' s2
                         else request_run_locked rq (rx_run xe) (env_run (rx_second_wait xe) s2))))"

end
