(* ===== verification/SafetyRunProps.thy ===== *)
theory SafetyRunProps
  imports SafetyRun
begin

text \<open>
  What a start promises: what holds when it reports success, what it leaves behind when it does not,
  which start commands it may send, and which latched faults it can consume.
\<close>

section \<open>Steps that neither activate nor start\<close>

text \<open>
  Weaker than \<open>interferes\<close>, since a start may consume a latched fault: nothing becomes active and no
  start is sent.
\<close>

definition quiet :: "sm \<Rightarrow> sm \<Rightarrow> bool" where
  "quiet s t =
     (sm_abort_generation s \<le> sm_abort_generation t \<and> sm_active t \<subseteq> sm_active s
      \<and> sm_config t = sm_config s \<and> sm_mock t = sm_mock s
      \<and> map_option dv_verified_off_source (sm_driver t) = map_option dv_verified_off_source (sm_driver s)
      \<and> only_safe_commands s t)"

lemma quiet_refl: "quiet s s"
  by (simp add: quiet_def only_safe_same)

lemma quiet_trans: "quiet s t \<Longrightarrow> quiet t u \<Longrightarrow> quiet s u"
  using only_safe_trans [of s t u] by (auto simp: quiet_def)

lemma interferes_quiet: "interferes s t \<Longrightarrow> quiet s t"
  by (simp add: interferes_def quiet_def)

lemmas quiet_run = interferes_quiet [OF env_run_interferes]

lemma quiet_same:
  "sm_abort_generation t = sm_abort_generation s \<Longrightarrow> sm_active t \<subseteq> sm_active s \<Longrightarrow> sm_config t = sm_config s \<Longrightarrow>
   sm_mock t = sm_mock s \<Longrightarrow> sm_driver t = sm_driver s \<Longrightarrow> sm_commands t = sm_commands s \<Longrightarrow> quiet s t"
  by (simp add: quiet_def only_safe_same)

lemma quiet_driver: "quiet s t \<Longrightarrow> sm_driver t = None \<longleftrightarrow> sm_driver s = None"
  unfolding quiet_def by (cases "sm_driver t"; cases "sm_driver s") auto

lemma quiet_active: "quiet s t \<Longrightarrow> sm_active t \<subseteq> sm_active s"
  by (simp add: quiet_def)

lemma quiet_commands: "quiet s t \<Longrightarrow> set (sm_commands s) \<subseteq> set (sm_commands t)"
  by (auto simp: quiet_def only_safe_commands_def)

section \<open>Admission\<close>

lemma quiet_pending: "quiet s (snd (pending_start_warning g s))"
  by (rule quiet_same) (auto simp: pending_start_warning_def split: option.splits)

lemma quiet_expire: "quiet s (expire_stale_off_evidence s)"
  by (rule quiet_same) (simp_all add: expire_stale_off_evidence_def)

lemma quiet_consume: "quiet s (snd (consume_latch g pr s))"
proof -
  define s1 where "s1 = (if sm_fault_sources s = {''persistence''} then env_run (pr_interference pr) s else s)"
  have "quiet s s1" by (simp add: s1_def quiet_run quiet_refl)
  moreover have "quiet s1 (snd (consume_latch g pr s))"
    by (rule quiet_same) (simp_all add: consume_latch_def Let_def s1_def)
  ultimately show ?thesis by (rule quiet_trans)
qed

lemma quiet_checked: "quiet s (snd (admit_checked rq preflight w s))"
  by (rule quiet_same) (auto simp: admit_checked_def Let_def split: option.splits)

lemma quiet_admission: "quiet s (snd (run_admission rq preflight pr s))"
proof -
  define s2 where "s2 = expire_stale_off_evidence (snd (pending_start_warning (rq_abort rq) s))"
  have q2: "quiet s s2" unfolding s2_def by (rule quiet_trans [OF quiet_pending quiet_expire])
  have c: "quiet s (snd (admit_checked rq preflight w s2))" for w by (rule quiet_trans [OF q2 quiet_checked])
  have l: "quiet s (snd (consume_latch (rq_abort rq) pr s2))" by (rule quiet_trans [OF q2 quiet_consume])
  hence "quiet s (snd (admit_checked rq preflight w (snd (consume_latch (rq_abort rq) pr s2))))" for w
    using quiet_trans quiet_checked by blast
  thus ?thesis
    using c l unfolding run_admission_def Let_def case_prod_beta s2_def [symmetric]
    by (auto simp: quiet_refl split: option.splits)
qed

text \<open>What an admission has checked, in the state it leaves.\<close>

lemma checked_admits:
  assumes "admit_checked rq preflight w s = (Inr ws, t)"
  shows "sm_state t \<in> {SAFE_OFF, READY, RUNNING} \<and> rq_channel rq \<notin> sm_active t \<and> check_preconditions t = None
    \<and> setpoint_refusal (sm_config t) (rq_p rq) (rq_v rq) (rq_i rq) = None"
  using assms by (auto simp: admit_checked_def Let_def split: if_splits option.splits)

lemma admission_admits:
  assumes "run_admission rq preflight pr s = (Inr ws, t)"
  shows "sm_abort_generation s = rq_abort rq \<and> sm_state t \<in> {SAFE_OFF, READY, RUNNING} \<and> rq_channel rq \<notin> sm_active t
    \<and> check_preconditions t = None \<and> setpoint_refusal (sm_config t) (rq_p rq) (rq_v rq) (rq_i rq) = None"
proof -
  obtain w u where "admit_checked rq preflight w u = (Inr ws, t)" "sm_abort_generation s = rq_abort rq"
    using assms by (auto simp: run_admission_def Let_def case_prod_beta split: if_splits option.splits prod.splits)
  thus ?thesis using checked_admits by blast
qed

section \<open>Before the start\<close>

lemma quiet_rearm: "quiet s (snd (apply_rearm ro ws s))"
  by (rule quiet_same) (simp_all add: apply_rearm_def split: rearm_outcome.splits)

lemma fault_then_refuse_state: "snd (fault_then_refuse f fe c err s) = snd (sm_fault f fe s)"
  by (auto simp: fault_then_refuse_def split: prod.splits outcome.splits)

lemma interferes_fault_then_refuse: "interferes s (snd (fault_then_refuse f fe c err s))"
  unfolding fault_then_refuse_state by (rule interferes_fault)

lemma interferes_authority_lost: "interferes s (snd (authority_lost rq re s))"
proof -
  define off where "off = ensure_output_off None (rn_off re) s"
  define s1 where "s1 = snd (snd off)"
  have i: "interferes s s1" unfolding s1_def off_def by (rule interferes_ensure)
  have "interferes s1 (sm_refresh (s1\<lparr> sm_active := {} \<rparr>))" by (rule interferes_same) simp_all
  hence "interferes s (sm_refresh (s1\<lparr> sm_active := {} \<rparr>))" using i by (rule interferes_trans [rotated])
  moreover have "interferes s (snd (fault_then_refuse f (rn_fault re) c e s1))" for f c e
    by (rule interferes_trans [OF i interferes_fault_then_refuse])
  ultimately show ?thesis
    unfolding authority_lost_def Let_def off_def [symmetric] s1_def [symmetric]
    by (simp add: refused_def interferes_refl)
qed

lemma interferes_target: "interferes s (snd (target_off_proof rq re s))"
proof -
  define s1 where "s1 = snd (snd (hw_call (CmdOff (Some (rq_channel rq))) (rn_target_off re) s))"
  have i: "interferes s s1" unfolding s1_def by (rule interferes_hw_call) (simp add: is_start_def)
  have o: "interferes s (observe_terminal_safety_children s1)" by (rule interferes_trans [OF i interferes_observe])
  have "interferes s (snd (fault_then_refuse f (rn_fault re) c e s1))" for f c e
    by (rule interferes_trans [OF i interferes_fault_then_refuse])
  moreover have "interferes s (snd (authority_lost rq re (observe_terminal_safety_children s1)))"
    by (rule interferes_trans [OF o interferes_authority_lost])
  ultimately show ?thesis
    using o unfolding target_off_proof_def Let_def case_prod_beta s1_def [symmetric]
    by (simp add: refused_def interferes_refl)
qed

lemma quiet_begin: "quiet s (begin_start rq s)"
  by (rule quiet_same) (simp_all add: begin_start_def Let_def)

section \<open>The start\<close>

lemma full_off_settles: "sm_active (full_off_then r ch re s) = {} \<or> sm_state (full_off_then r ch re s) = FAULT_LATCHED"
proof -
  let ?s = "register_abort_intent True s"
  obtain out t where run: "emergency_off_locked None (rn_full_off re) ?s = (out, t)" by force
  show ?thesis
  proof (cases out)
    case (Returned reply)
    thus ?thesis
      using run emergency_off_cases [of None "rn_full_off re" ?s reply t]
      by (auto simp: full_off_then_def resolve_channels_def split: if_splits)
  qed (use run in \<open>simp_all add: full_off_then_def fault_in_def fault_latches\<close>)
qed

lemma interferes_full_off: "interferes s (full_off_then r ch re s)"
proof -
  let ?e = "emergency_off_locked None (rn_full_off re) (register_abort_intent True s)"
  have e: "interferes s (snd ?e)" by (rule interferes_trans [OF interferes_abort interferes_emergency])
  hence "interferes s (fault_in f fe (snd ?e))" for f fe
    unfolding fault_in_def using interferes_trans interferes_fault by blast
  thus ?thesis using e unfolding full_off_then_def by (cases "fst ?e") (auto simp: case_prod_beta)
qed

lemma interferes_revert: "interferes s (snd (revert_start rq re s))"
proof -
  define full where "full = (rq_abort rq < sm_full_abort_generation s)"
  define off where "off = ensure_output_off (if full then None else Some (rq_channel rq)) (rn_off re) s"
  define s1 where "s1 = snd (snd off)"
  define s2 where "s2 = clear_if full s1"
  define s3 where "s3 = (if sm_active s2 \<noteq> {}
      then sm_transition RUNNING ''Start aborted; existing sources remain'' (smu_name (rq_channel rq)) (Fin 0) s2
      else sm_transition SAFE_OFF ''Start aborted before commit'' (smu_name (rq_channel rq)) (Fin 0) s2)"
  have i1: "interferes s s1" unfolding s1_def off_def by (rule interferes_ensure)
  have "interferes s1 s3" if "sm_state s1 \<noteq> FAULT_LATCHED"
  proof -
    have "interferes s1 s2" unfolding s2_def by (rule interferes_clear)
    moreover have "interferes s2 s3" by (rule interferes_same) (use that in \<open>auto simp: s3_def s2_def clear_if_def\<close>)
    ultimately show ?thesis by (rule interferes_trans)
  qed
  hence i3: "sm_state s1 \<noteq> FAULT_LATCHED \<Longrightarrow> interferes s (snd (side w s3))" for w
    using i1 interferes_trans interferes_side by blast
  have "interferes s (snd (fault_then_refuse f (rn_fault re) c e s1))" for f c e
    by (rule interferes_trans [OF i1 interferes_fault_then_refuse])
  thus ?thesis
    using i1 i3 unfolding revert_start_def Let_def case_prod_beta full_def [symmetric] off_def [symmetric]
      s1_def [symmetric] s2_def [symmetric] s3_def [symmetric]
    by simp
qed

text \<open>From the moment the start command is out.\<close>

definition start_sent :: "run_request \<Rightarrow> sm \<Rightarrow> sm" where
  "start_sent rq s = s\<lparr> sm_commands := sm_commands s @ [CmdStart (rq_channel rq) (rq_p rq) (rq_v rq) (rq_i rq)] \<rparr>"

lemma start_call:
  "hw_call (CmdStart (rq_channel rq) (rq_p rq) (rq_v rq) (rq_i rq)) h s
     = (aw_result h, aw_cancelled h, env_run (aw_interference h) (start_sent rq s))"
  by (simp add: hw_call_def start_sent_def)

lemma await_start_sent: "interferes (start_sent rq s) (snd (await_start rq re s))"
proof -
  define s1 where "s1 = env_run (aw_interference (rn_start re)) (start_sent rq s)"
  define s2 where "s2 = (if safety_children_authoritative s1 then s1
      else (if sm_abort_generation (observe_terminal_safety_children s1) = rq_abort rq
            then register_abort_intent True (observe_terminal_safety_children s1)
            else observe_terminal_safety_children s1))"
  let ?s = "start_sent rq s"
  have i1: "interferes ?s s1" unfolding s1_def by (rule env_run_interferes)
  have "interferes s1 s2"
    using interferes_trans [OF interferes_observe interferes_abort] by (simp add: s2_def calm)
  with i1 have i2: "interferes ?s s2" by (rule interferes_trans)
  have branches: "interferes ?s (full_off_then r ch re s1)"
      "interferes ?s (snd (fault_then_refuse f (rn_fault re) c e s1))"
      "interferes ?s (snd (snd (ensure_output_off None h s2)))" "interferes ?s (snd (revert_start rq re s2))"
    for r ch f c e h
    using interferes_trans [OF i1 interferes_full_off] interferes_trans [OF i1 interferes_fault_then_refuse]
      interferes_trans [OF i2 interferes_ensure] interferes_trans [OF i2 interferes_revert] by blast+
  show ?thesis
    unfolding await_start_def Let_def start_call prod.case s1_def [symmetric] s2_def [symmetric]
    using branches i2 by (simp split: sum.splits)
qed

lemma await_start_commits:
  assumes "await_start rq re s = (None, t)"
  shows "aw_result (rn_start re) = Inr () \<and> sm_abort_generation t = rq_abort rq"
  using assms
  by (auto simp: await_start_def start_call Let_def split: if_splits sum.splits)

section \<open>Only the last branch reports success\<close>

definition not_ok :: "reply outcome \<Rightarrow> bool" where
  "not_ok out = (case out of Returned r \<Rightarrow> \<not> ry_ok r | _ \<Rightarrow> True)"

lemma not_ok_simps [simp]:
  "not_ok (Returned (mk_reply b err s)) = (\<not> b)" "not_ok CallerCancelled" "not_ok (RaisedExn e)"
  by (simp_all add: not_ok_def mk_reply_def)

lemma refused_not_ok: "not_ok (fst (refused err s))"
  by (simp add: refused_def)

lemma fault_refuse_not_ok: "not_ok (fst (fault_then_refuse f fe c err s))"
  by (simp add: fault_then_refuse_def split: prod.splits outcome.splits)

lemma authority_not_ok: "not_ok (fst (authority_lost rq re s))"
  by (simp add: authority_lost_def Let_def refused_not_ok fault_refuse_not_ok)

lemma target_not_ok: "target_off_proof rq re s = (Some out, t) \<Longrightarrow> not_ok out"
  using refused_not_ok fault_refuse_not_ok authority_not_ok
  by (auto simp: target_off_proof_def Let_def case_prod_beta split: if_splits)

lemma revert_not_ok: "not_ok (fst (revert_start rq re s))"
  by (simp add: revert_start_def Let_def case_prod_beta fault_refuse_not_ok)

lemma await_not_ok: "await_start rq re s = (Some out, t) \<Longrightarrow> not_ok out"
  using fault_refuse_not_ok revert_not_ok
  by (auto simp: await_start_def start_call Let_def split: if_splits sum.splits)

lemma settle_not_ok: "not_ok (fst (settle_revocation rq rk ve s))"
  by (simp add: settle_revocation_def Let_def case_prod_beta)

section \<open>After publication\<close>

text \<open>A revoked start leaves the channel inactive, or a latched fault.\<close>

definition given_up :: "smu_channel \<Rightarrow> smu_channel set \<Rightarrow> sm \<Rightarrow> bool" where
  "given_up ch A t = (sm_active t \<subseteq> A - {ch} \<or> sm_state t = FAULT_LATCHED)"

lemma given_up_later: "given_up ch A t \<Longrightarrow> interferes t u \<Longrightarrow> given_up ch A u"
  using active_shrinks latched_kept by (fastforce simp: given_up_def)

lemma revocation_settles:
  "interferes s (snd (settle_revocation rq rk ve s)) \<and> given_up (rq_channel rq) (sm_active s) (snd (settle_revocation rq rk ve s))"
proof -
  let ?ch = "rq_channel rq"
  define fault where "fault = \<lparr> fr_reason = ''RUN authority revoked after publication for '' @ smu_name ?ch,
      fr_channel = smu_name ?ch, fr_value = Fin 0, fr_source = ''run_post_publication_reconciliation'' \<rparr>"
  define off where "off = ensure_output_off (if rk_full rk then None else Some ?ch) (rv_off ve) s"
  define u where "u = snd (snd off)"
  define s1 where "s1 = (if rk_fault rk \<and> sm_state s \<noteq> FAULT_LATCHED then fault_in fault (rv_fault ve) s
      else if off_confirmed off then u\<lparr> sm_active := (if rk_full rk then {} else sm_active u - {?ch}) \<rparr>
      else if sm_state u \<noteq> FAULT_LATCHED then fault_in fault (rv_fault ve) u else u)"
  define s2 where "s2 = (if sm_state s1 \<noteq> FAULT_LATCHED then
      (if sm_active s1 \<noteq> {} then
         (if sm_state s1 \<noteq> RUNNING
          then sm_transition RUNNING ''Revoked start; existing sources remain'' (smu_name ?ch) (Fin 0) s1
          else sm_refresh s1)
       else sm_transition SAFE_OFF ''Revoked start settled OFF'' (smu_name ?ch) (Fin 0) s1)
      else sm_refresh s1)"
  have iu: "interferes s u" unfolding u_def off_def by (rule interferes_ensure)
  have "interferes u (u\<lparr> sm_active := (if rk_full rk then {} else sm_active u - {?ch}) \<rparr>)"
    by (rule interferes_same) auto
  hence drop: "interferes s (u\<lparr> sm_active := (if rk_full rk then {} else sm_active u - {?ch}) \<rparr>)"
    using iu interferes_trans by blast
  have f: "interferes s (fault_in fault (rv_fault ve) s)" "interferes s (fault_in fault (rv_fault ve) u)"
    unfolding fault_in_def using interferes_fault interferes_trans [OF iu interferes_fault] by blast+
  have i1: "interferes s s1" using f drop iu by (simp add: s1_def)
  have g1: "given_up ?ch (sm_active s) s1"
    using active_shrinks [OF iu] fault_latches by (auto simp: given_up_def s1_def fault_in_def)
  have "interferes s1 s2" by (rule interferes_same) (simp_all add: s2_def)
  hence i2: "interferes s1 (snd (side (rv_publish ve) s2))" by (rule interferes_trans) (rule interferes_side)
  have "snd (settle_revocation rq rk ve s) = snd (side (rv_publish ve) s2)"
    unfolding settle_revocation_def Let_def case_prod_beta fault_def [symmetric] off_def [symmetric] u_def [symmetric]
      s1_def [symmetric] s2_def [symmetric] by simp
  thus ?thesis using interferes_trans [OF i1 i2] given_up_later [OF g1 i2] by simp
qed

text \<open>No revocation means that the cut is exactly the one the start committed.\<close>

definition uncontested :: "run_request \<Rightarrow> smu_channel set \<Rightarrow> sm \<Rightarrow> bool" where
  "uncontested rq A t =
     (sm_state t = RUNNING \<and> sm_active t = A \<and> sm_abort_generation t = rq_abort rq
      \<and> safety_children_authoritative t \<and> sm_pending_settlements t = []
      \<and> current_unmanaged_output_hazard t = None
      \<and> (case exact_driver_active_source_cut t of (present, owned) \<Rightarrow> present \<longrightarrow> owned = Some A))"

lemma no_revocation: "post_publication_run_revocation rq A t = None \<longleftrightarrow> uncontested rq A t"
  by (cases "current_unmanaged_output_hazard t")
     (auto simp: post_publication_run_revocation_def uncontested_def Let_def split: prod.splits)

lemma commit_result:
  assumes "commit_run rq re s = (out, t)"
  shows "quiet (s\<lparr> sm_active := insert (rq_channel rq) (sm_active s) \<rparr>) t
    \<and> (if not_ok out then given_up (rq_channel rq) (insert (rq_channel rq) (sm_active s)) t
       else uncontested rq (insert (rq_channel rq) (sm_active s)) t)"
proof -
  let ?ch = "rq_channel rq" and ?e = "insert (rq_channel rq) (sm_active s)"
  let ?s1 = "s\<lparr> sm_active := ?e \<rparr>"
  define s2 where "s2 = (if sm_state ?s1 \<noteq> RUNNING
      then sm_transition RUNNING (''Source '' @ smu_name ?ch @ '' enabled'') (smu_name ?ch) (rq_p rq) ?s1
      else sm_refresh ?s1)"
  define s3 where "s3 = snd (side (rn_publish re) s2)"
  define s4 where "s4 = observe_terminal_safety_children s3"
  define full where "full = full_off_then ''unacknowledged RUN could not settle full OFF'' ?ch re s3"
  have "quiet ?s1 s2" by (rule quiet_same) (simp_all add: s2_def)
  hence q3: "quiet ?s1 s3" unfolding s3_def using quiet_trans interferes_quiet [OF interferes_side] by blast
  have q4: "quiet ?s1 s4" unfolding s4_def by (rule quiet_trans [OF q3 interferes_quiet [OF interferes_observe]])
  have qf: "quiet ?s1 full" unfolding full_def by (rule quiet_trans [OF q3 interferes_quiet [OF interferes_full_off]])
  have gf: "given_up ?ch ?e full" using full_off_settles [of _ ?ch re s3] by (auto simp: full_def given_up_def)
  have rev: "quiet ?s1 (snd (settle_revocation rq rk (rn_revoke re) s4))"
      "given_up ?ch ?e (snd (settle_revocation rq rk (rn_revoke re) s4))" for rk
    using quiet_trans [OF q4 interferes_quiet] revocation_settles [of s4 rq rk "rn_revoke re"] quiet_active [OF q4]
    by (auto simp: given_up_def)
  show ?thesis
  proof (cases "rn_publish_failed re \<or> fst (side (rn_publish re) s2)")
    case True
    hence "t = full" "not_ok out"
      using assms unfolding commit_run_def Let_def case_prod_beta s2_def [symmetric] s3_def [symmetric] full_def [symmetric]
      by auto
    thus ?thesis using qf gf by simp
  next
    case ok: False
    have run: "(case post_publication_run_revocation rq ?e s4 of None \<Rightarrow> (Returned (mk_reply True [] s4), s4)
        | Some rk \<Rightarrow> settle_revocation rq rk (rn_revoke re) s4) = (out, t)"
      using assms ok unfolding commit_run_def Let_def case_prod_beta s2_def [symmetric] s3_def [symmetric] s4_def [symmetric]
      by simp
    show ?thesis
    proof (cases "post_publication_run_revocation rq ?e s4")
      case None
      thus ?thesis using run q4 no_revocation [of rq ?e s4] by auto
    next
      case (Some rk)
      hence "t = snd (settle_revocation rq rk (rn_revoke re) s4)" "not_ok out"
        using run settle_not_ok [of rq rk "rn_revoke re" s4] by simp_all
      thus ?thesis using rev by simp
    qed
  qed
qed

section \<open>The whole start\<close>

text \<open>The start commands in the part of the trace an operation adds.\<close>

definition sends_starts :: "hw_command list \<Rightarrow> sm \<Rightarrow> sm \<Rightarrow> bool" where
  "sends_starts xs s t = (\<exists>cs. sm_commands t = sm_commands s @ cs \<and> filter is_start cs = xs)"

lemma quiet_sends: "quiet s t \<Longrightarrow> sends_starts [] s t"
  by (auto simp: quiet_def only_safe_commands_def sends_starts_def filter_empty_conv)

lemma sends_trans: "sends_starts xs s t \<Longrightarrow> sends_starts ys t u \<Longrightarrow> sends_starts (xs @ ys) s u"
  by (auto simp: sends_starts_def)

abbreviation start_command :: "run_request \<Rightarrow> hw_command" where
  "start_command rq \<equiv> CmdStart (rq_channel rq) (rq_p rq) (rq_v rq) (rq_i rq)"

lemma sends_start_sent: "sends_starts [start_command rq] s (start_sent rq s)"
  by (simp add: sends_starts_def start_sent_def is_start_def)

text \<open>
  What a run of the start leaves: at most its own start command, and either a cut nobody contests or
  a channel that is not active.
\<close>

definition start_outcome :: "run_request \<Rightarrow> run_env \<Rightarrow> sm \<Rightarrow> reply outcome \<Rightarrow> sm \<Rightarrow> bool" where
  "start_outcome rq re s out t =
     ((sends_starts [] s t \<or> sends_starts [start_command rq] s t)
      \<and> (if not_ok out then sm_active t \<subseteq> sm_active s \<or> sm_state t = FAULT_LATCHED
         else uncontested rq (sm_active t) t \<and> rq_channel rq \<in> sm_active t
              \<and> sm_active t \<subseteq> insert (rq_channel rq) (sm_active s)
              \<and> (sm_driver s = None
                 \<or> aw_result (rn_start re) = Inr () \<and> sends_starts [start_command rq] s t)))"

lemma start_outcome_later:
  assumes "quiet s u" "start_outcome rq re u out t"
  shows "start_outcome rq re s out t"
  using assms sends_trans [OF quiet_sends [OF assms(1)]] quiet_active [OF assms(1)] quiet_driver [OF assms(1)]
  by (auto simp: start_outcome_def split: if_splits)

lemma commit_outcome:
  assumes "commit_run rq re s = (out, t)" "rq_channel rq \<notin> sm_active s"
  shows "sends_starts [] s t \<and> (if not_ok out then sm_active t \<subseteq> sm_active s \<or> sm_state t = FAULT_LATCHED
         else uncontested rq (insert (rq_channel rq) (sm_active s)) t)"
proof -
  note c = commit_result [OF assms(1)]
  have "sends_starts [] s t" using quiet_sends [OF c [THEN conjunct1]] by (simp add: sends_starts_def)
  thus ?thesis using c assms(2) by (auto simp: given_up_def split: if_splits)
qed

lemma start_run_outcome:
  assumes "start_run rq re s = (out, t)" "rq_channel rq \<notin> sm_active s"
  shows "start_outcome rq re s out t"
proof -
  obtain o1 s1 where t1: "target_off_proof rq re s = (o1, s1)" by force
  have q1: "quiet s s1" using interferes_quiet [OF interferes_target [of s rq re]] t1 by simp
  define s2 where "s2 = begin_start rq s1"
  have q2: "quiet s s2" unfolding s2_def by (rule quiet_trans [OF q1 quiet_begin])
  have fresh: "rq_channel rq \<notin> sm_active s2" using quiet_active [OF q2] assms(2) by blast
  show ?thesis
  proof (cases o1)
    case (Some o')
    hence "out = o'" "t = s1" "not_ok out" using assms(1) t1 target_not_ok [of rq re s o' s1] by (auto simp: start_run_def)
    thus ?thesis using quiet_sends [OF q1] quiet_active [OF q1] by (simp add: start_outcome_def)
  next
    case None
    show ?thesis
    proof (cases "sm_driver s2 = None")
      case True
      have nodrv: "sm_driver s = None" using quiet_driver [OF q2] True by simp
      show ?thesis
      proof (cases "sc_require_keithley_for_run (sm_config s2) \<and> \<not> sm_mock s2")
        case refuse: True
        have "quiet s2 (sm_transition SAFE_OFF ''Keithley not connected'' [] (Fin 0) s2)" by (rule quiet_same) simp_all
        moreover have "t = sm_transition SAFE_OFF ''Keithley not connected'' [] (Fin 0) s2" "not_ok out"
          using assms(1) t1 None True refuse by (auto simp: start_run_def Let_def s2_def [symmetric] refused_def)
        ultimately show ?thesis using quiet_sends quiet_active quiet_trans [OF q2] by (fastforce simp: start_outcome_def)
      next
        case False
        hence run: "commit_run rq re s2 = (out, t)"
          using assms(1) t1 None True unfolding start_run_def by (simp add: Let_def flip: s2_def split: if_splits)
        have "start_outcome rq re s2 out t"
          using commit_outcome [OF run fresh] True by (auto simp: start_outcome_def uncontested_def split: if_splits)
        thus ?thesis by (rule start_outcome_later [OF q2])
      qed
    next
      case False
      obtain o3 s3 where a: "await_start rq re s2 = (o3, s3)" by force
      have i3: "quiet (start_sent rq s2) s3" using interferes_quiet [OF await_start_sent [of rq s2 re]] a by simp
      have sends: "sends_starts [start_command rq] s2 s3"
        using sends_trans [OF sends_start_sent quiet_sends [OF i3]] by simp
      have sub: "sm_active s3 \<subseteq> sm_active s2" using quiet_active [OF i3] by (simp add: start_sent_def)
      show ?thesis
      proof (cases o3)
        case (Some o')
        hence "out = o'" "t = s3" "not_ok out"
          using assms(1) t1 None False a await_not_ok [of rq re s2 o' s3]
          by (auto simp: start_run_def Let_def s2_def [symmetric])
        hence "start_outcome rq re s2 out t" using sends sub by (simp add: start_outcome_def)
        thus ?thesis by (rule start_outcome_later [OF q2])
      next
        case commit: None
        hence run: "commit_run rq re s3 = (out, t)"
          using assms(1) t1 None False a by (simp add: start_run_def Let_def s2_def [symmetric])
        have "rq_channel rq \<notin> sm_active s3" using sub fresh by blast
        note c = commit_outcome [OF run this]
        have "sends_starts [start_command rq] s2 t" using sends_trans [OF sends, of "[]" t] c by simp
        hence "start_outcome rq re s2 out t"
          using c sub await_start_commits [of rq re s2 s3] a commit
          by (auto simp: start_outcome_def uncontested_def split: if_splits)
        thus ?thesis by (rule start_outcome_later [OF q2])
      qed
    qed
  qed
qed

lemma locked_outcome:
  assumes "request_run_locked rq re s = (out, t)"
  shows "start_outcome rq re s out t
    \<and> (sends_starts [] s t \<or> setpoint_refusal (sm_config s) (rq_p rq) (rq_v rq) (rq_i rq) = None)
    \<and> (not_ok out \<or> setpoint_refusal (sm_config s) (rq_p rq) (rq_v rq) (rq_i rq) = None)"
proof -
  obtain a s1 where a: "run_admission rq False (rn_probe re) s = (a, s1)" by force
  have q: "quiet s s1" using quiet_admission [of s rq False "rn_probe re"] a by simp
  show ?thesis
  proof (cases a)
    case (Inl err)
    hence "t = s1" "not_ok out" using assms a by (auto simp: request_run_locked_def refused_def)
    thus ?thesis using quiet_sends [OF q] quiet_active [OF q] by (simp add: start_outcome_def)
  next
    case (Inr ws)
    define s2 where "s2 = snd (apply_rearm (rn_rearm re) ws s1)"
    have q2: "quiet s s2" unfolding s2_def by (rule quiet_trans [OF q quiet_rearm])
    have "sm_active s2 = sm_active s1" by (simp add: s2_def apply_rearm_def split: rearm_outcome.splits)
    hence fresh: "rq_channel rq \<notin> sm_active s2" using admission_admits a Inr by fastforce
    have run: "start_run rq re s2 = (out, t)" using assms a Inr by (simp add: request_run_locked_def s2_def)
    have "sm_config s1 = sm_config s" using q by (simp add: quiet_def)
    thus ?thesis
      using start_outcome_later [OF q2 start_run_outcome [OF run fresh]] admission_admits a Inr by fastforce
  qed
qed

text \<open>What an operator's start leaves, whatever happens.\<close>

lemma request_run_outcome:
  assumes "request_run p v i channel xe s = (out, t)"
  shows "(quiet s t \<and> not_ok out) \<or>
    (\<exists>ch rq u. normalize_smu_channel channel = Inr ch \<and> quiet s u \<and> start_outcome rq (rx_run xe) u out t
      \<and> rq = \<lparr> rq_channel = ch, rq_p = p, rq_v = v, rq_i = i, rq_abort = sm_abort_generation s,
                rq_full = sm_full_abort_generation s \<rparr>
      \<and> (sends_starts [] u t \<or> setpoint_refusal (sm_config s) p v i = None)
      \<and> (not_ok out \<or> setpoint_refusal (sm_config s) p v i = None))"
proof -
  define s0 where "s0 = env_run (rx_lock_wait xe) s"
  have q0: "quiet s s0" unfolding s0_def by (rule quiet_run)
  show ?thesis
  proof (cases "normalize_smu_channel channel")
    case (Inl e)
    thus ?thesis using assms q0 by (auto simp: request_run_def Let_def s0_def)
  next
    case (Inr ch)
    define rq where "rq = \<lparr> rq_channel = ch, rq_p = p, rq_v = v, rq_i = i, rq_abort = sm_abort_generation s,
                rq_full = sm_full_abort_generation s \<rparr>"
    obtain a s1 where a: "run_admission rq True (rx_probe xe) s0 = (a, s1)" by force
    have q1: "quiet s s1" using quiet_trans [OF q0] quiet_admission [of s0 rq True "rx_probe xe"] a by simp
    show ?thesis
    proof (cases a)
      case refuse: (Inl err)
      hence "t = s1 \<and> not_ok out"
        using assms Inr a by (auto simp: request_run_def Let_def s0_def [symmetric] rq_def [symmetric] refused_def)
      thus ?thesis using q1 by simp
    next
      case admit: (Inr ws)
      define w where "w = (if ws = [] then (False, s1) else side (rx_warning_choice xe) s1)"
      define u where "u = env_run (rx_second_wait xe) (snd w)"
      have qw: "quiet s (snd w)"
        using q1 quiet_trans [OF q1 interferes_quiet [OF interferes_side]] by (simp add: w_def)
      have qu: "quiet s u" unfolding u_def by (rule quiet_trans [OF qw quiet_run])
      have run: "(if fst w then (CallerCancelled, snd w)
          else if sm_abort_generation (snd w) \<noteq> sm_abort_generation s
          then refused ''Safety authority changed before source start'' (snd w)
          else request_run_locked rq (rx_run xe) u) = (out, t)"
        using assms unfolding request_run_def Let_def s0_def [symmetric] Inr sum.case rq_def [symmetric] a admit
          prod.case case_prod_beta snd_conv fst_conv sum.case w_def [symmetric] u_def [symmetric] by simp
      show ?thesis
      proof (cases "fst w \<or> sm_abort_generation (snd w) \<noteq> sm_abort_generation s")
        case True
        thus ?thesis using run qw by (auto simp: refused_def split: if_splits)
      next
        case False
        hence l: "request_run_locked rq (rx_run xe) u = (out, t)" using run by simp
        have "sm_config u = sm_config s" using qu by (simp add: quiet_def)
        thus ?thesis using locked_outcome [OF l] qu Inr rq_def by auto
      qed
    qed
  qed
qed

lemma setpoint_accepted:
  "setpoint_refusal cfg p v i = None \<longleftrightarrow> fl_isfinite p \<and> fl_isfinite v \<and> fl_isfinite i
     \<and> \<not> fl_less (sc_max_power_w cfg) p \<and> \<not> fl_less (sc_max_voltage_v cfg) v \<and> \<not> fl_less (sc_max_current_a cfg) i"
  by (auto simp: setpoint_refusal_def)

text \<open>
  C8: A start that reports success was not overtaken by anything. From the call to the reply, across
  every wait, no abort and no new fault was registered; the manager is RUNNING with the requested
  channel active and no channel added besides it, its children are live with no fault settlement left
  over, the source reports no output nobody manages and its own active cut, where it exposes one, is
  the manager's; the setpoints are finite and not above a configured limit, and the device answered
  the one start command that was sent.
\<close>
theorem start_not_overtaken:
  assumes "request_run p v i channel xe s = (Returned reply, t)" "ry_ok reply"
  shows "\<exists>ch. normalize_smu_channel channel = Inr ch \<and> sm_state t = RUNNING
    \<and> ch \<in> sm_active t \<and> sm_active t \<subseteq> insert ch (sm_active s)
    \<and> sm_abort_generation t = sm_abort_generation s
    \<and> safety_children_authoritative t \<and> sm_pending_settlements t = []
    \<and> current_unmanaged_output_hazard t = None
    \<and> (case exact_driver_active_source_cut t of (present, owned) \<Rightarrow> if present then owned = Some (sm_active t) else True)
    \<and> fl_isfinite p \<and> fl_isfinite v \<and> fl_isfinite i
    \<and> \<not> fl_less (sc_max_power_w (sm_config s)) p \<and> \<not> fl_less (sc_max_voltage_v (sm_config s)) v
    \<and> \<not> fl_less (sc_max_current_a (sm_config s)) i
    \<and> (sm_driver s = None
       \<or> aw_result (rn_start (rx_run xe)) = Inr () \<and> sends_starts [CmdStart ch p v i] s t)"
proof -
  have ok: "\<not> not_ok (Returned reply)" using assms(2) by (simp add: not_ok_def)
  obtain ch rq u where f: "normalize_smu_channel channel = Inr ch" "quiet s u"
      "start_outcome rq (rx_run xe) u (Returned reply) t"
      "rq = \<lparr> rq_channel = ch, rq_p = p, rq_v = v, rq_i = i, rq_abort = sm_abort_generation s,
              rq_full = sm_full_abort_generation s \<rparr>"
      "setpoint_refusal (sm_config s) p v i = None"
    using request_run_outcome [OF assms(1)] ok by blast
  have "start_outcome rq (rx_run xe) s (Returned reply) t" by (rule start_outcome_later [OF f(2,3)])
  thus ?thesis
    using f(1,4,5) ok by (auto simp: start_outcome_def uncontested_def setpoint_accepted split: prod.splits)
qed

text \<open>
  C12: A start sends at most one start command, for the requested channel with exactly the requested
  setpoints, and only setpoints that are finite and not above a configured limit: whatever the
  device, the caller and the other tasks do meanwhile.
\<close>
theorem start_commands_bounded:
  "\<exists>xs. sends_starts xs s (snd (request_run p v i channel xe s))
     \<and> (xs = [] \<or> (\<exists>ch. normalize_smu_channel channel = Inr ch \<and> xs = [CmdStart ch p v i]
          \<and> fl_isfinite p \<and> fl_isfinite v \<and> fl_isfinite i
          \<and> \<not> fl_less (sc_max_power_w (sm_config s)) p \<and> \<not> fl_less (sc_max_voltage_v (sm_config s)) v
          \<and> \<not> fl_less (sc_max_current_a (sm_config s)) i))"
proof -
  obtain out t where run: "request_run p v i channel xe s = (out, t)" by force
  have "sends_starts [] s t \<or> (\<exists>ch. normalize_smu_channel channel = Inr ch
      \<and> sends_starts [CmdStart ch p v i] s t \<and> setpoint_refusal (sm_config s) p v i = None)"
  proof (cases "quiet s t")
    case True
    thus ?thesis using quiet_sends by blast
  next
    case False
    then obtain ch rq u where f: "normalize_smu_channel channel = Inr ch" "quiet s u" "start_outcome rq (rx_run xe) u out t"
        "rq = \<lparr> rq_channel = ch, rq_p = p, rq_v = v, rq_i = i, rq_abort = sm_abort_generation s,
                rq_full = sm_full_abort_generation s \<rparr>"
        and sp: "sends_starts [] u t \<or> setpoint_refusal (sm_config s) p v i = None"
      using request_run_outcome [OF run] by blast
    have "sends_starts [] u t \<Longrightarrow> sends_starts [] s t" using sends_trans [OF quiet_sends [OF f(2)]] by fastforce
    thus ?thesis using sp f(1,4) start_outcome_later [OF f(2,3)] by (auto simp: start_outcome_def)
  qed
  thus ?thesis using run by (auto simp: setpoint_accepted)
qed


section \<open>Which latches a start consumes\<close>

lemma latched_admission:
  assumes "sm_state s = FAULT_LATCHED" "sm_abort_generation s = rq_abort rq"
  shows "\<exists>u. run_admission rq preflight pr s =
      (case consume_latch (rq_abort rq) pr u of
         (None, t) \<Rightarrow> (Inl (''FAULT: '' @ sm_fault_reason t), t)
       | (Some w, t) \<Rightarrow> admit_checked rq preflight (Some w) t)
    \<and> sm_state u = FAULT_LATCHED \<and> sm_fault_sources u = sm_fault_sources s \<and> sm_fault_reason u = sm_fault_reason s
    \<and> sm_commands u = sm_commands s \<and> sm_abort_generation u = sm_abort_generation s"
  using assms
  by (intro exI [of _ "expire_stale_off_evidence (snd (pending_start_warning (rq_abort rq) s))"])
     (auto simp: run_admission_def Let_def case_prod_beta pending_start_warning_def expire_stale_off_evidence_def
        split: option.splits)

lemma checked_keeps:
  "sm_state (snd (admit_checked rq preflight w s)) = sm_state s"
  "sm_fault_sources (snd (admit_checked rq preflight w s)) = sm_fault_sources s"
  "sm_abort_generation (snd (admit_checked rq preflight w s)) = sm_abort_generation s"
  "sm_fault_reason (snd (admit_checked rq preflight w s)) = sm_fault_reason s"
  by (simp_all add: admit_checked_def Let_def split: option.splits)

text \<open>
  C27: A latched persistence fault is consumed by a start once persistence answers that it can write,
  and with it every fault that arrives while that answer is awaited: the new source joins the latch
  without advancing any abort generation, and is then cleared with it, so the manager returns to
  SAFE_OFF with no source on record. The same fault an instant before the question blocks the start.
\<close>
theorem probe_race_consumes_new_fault:
  assumes "sm_state s = FAULT_LATCHED" "sm_fault_sources s = {''persistence''}" "rq_abort rq = sm_abort_generation s"
    and "fr_source f \<noteq> ''persistence''" "pr_answer pr" "pr_interference pr = [EvLatch f]"
  shows "(case run_admission rq preflight pr s of (_, t) \<Rightarrow>
      sm_state t = SAFE_OFF \<and> sm_fault_sources t = {} \<and> sm_abort_generation t = sm_abort_generation s
      \<and> sm_fault_reason t = sm_fault_reason s)
    \<and> (case run_admission rq preflight pr (latch_request f s) of (r, t) \<Rightarrow>
      r = Inl (''FAULT: '' @ sm_fault_reason s) \<and> sm_state t = FAULT_LATCHED)"
proof -
  obtain u where run: "run_admission rq preflight pr s = (case consume_latch (rq_abort rq) pr u of
         (None, t) \<Rightarrow> (Inl (''FAULT: '' @ sm_fault_reason t), t)
       | (Some w, t) \<Rightarrow> admit_checked rq preflight (Some w) t)"
      and u: "sm_state u = FAULT_LATCHED" "sm_fault_sources u = {''persistence''}" "sm_fault_reason u = sm_fault_reason s"
        "sm_abort_generation u = sm_abort_generation s"
    using latched_admission [of s rq preflight pr] assms(1-3) by auto
  have join: "env_run [EvLatch f] u = u\<lparr> sm_fault_sources := insert (fr_source f) (sm_fault_sources u) \<rparr>"
    using u(1) by (simp add: env_run_def env_apply_def latch_request_def begin_fault_latch_again)
  obtain w v where c: "consume_latch (rq_abort rq) pr u = (Some w, v)" "sm_state v = SAFE_OFF" "sm_fault_sources v = {}"
      "sm_abort_generation v = sm_abort_generation s" "sm_fault_reason v = sm_fault_reason s"
    using u join assms(5,6) by (simp add: consume_latch_def Let_def)
  have one: "case run_admission rq preflight pr s of (_, t) \<Rightarrow>
      sm_state t = SAFE_OFF \<and> sm_fault_sources t = {} \<and> sm_abort_generation t = sm_abort_generation s
      \<and> sm_fault_reason t = sm_fault_reason s"
    unfolding run c(1) using c(2-5) by (simp add: case_prod_beta checked_keeps)
  let ?l = "latch_request f s"
  have l: "sm_state ?l = FAULT_LATCHED" "sm_fault_sources ?l = {fr_source f, ''persistence''}"
      "sm_abort_generation ?l = rq_abort rq" "sm_fault_reason ?l = sm_fault_reason s"
    using assms(1-3) by (simp_all add: latch_request_def begin_fault_latch_again)
  obtain u' where run': "run_admission rq preflight pr ?l = (case consume_latch (rq_abort rq) pr u' of
         (None, t) \<Rightarrow> (Inl (''FAULT: '' @ sm_fault_reason t), t)
       | (Some w, t) \<Rightarrow> admit_checked rq preflight (Some w) t)"
      and u': "sm_state u' = FAULT_LATCHED" "sm_fault_sources u' = {fr_source f, ''persistence''}"
        "sm_fault_reason u' = sm_fault_reason s"
    using latched_admission [of ?l rq preflight pr, OF l(1,3)] l(2,4) by auto
  have two: "{fr_source f, ''persistence''} \<noteq> {x}" for x
    using assms(4) by (auto simp: doubleton_eq_iff insert_eq_iff)
  have "consume_latch (rq_abort rq) pr u' = (None, u')"
    using u'(2) two assms(4) by (simp add: consume_latch_def Let_def)
  thus ?thesis using one run' u' by simp
qed

text \<open>
  A start that is refused for its setpoints has already consumed an interlock's latch: the manager
  is back in SAFE_OFF with no fault source, no start was sent, and the warning that the interlock had
  fired survives only until the next abort: a later start under another generation does not see it.
\<close>
theorem refused_start_consumes_latch:
  assumes "sm_state s = FAULT_LATCHED" "sm_fault_sources s = {''interlock''}" "rq_abort rq = sm_abort_generation s"
    and "\<not> fl_isfinite (rq_p rq)"
  shows "case run_admission rq True pr s of (r, t) \<Rightarrow>
      (\<exists>err. r = Inl err) \<and> sm_state t = SAFE_OFF \<and> sm_fault_sources t = {} \<and> sm_commands t = sm_commands s
      \<and> fst (pending_start_warning (Suc (rq_abort rq)) t) = None"
proof -
  obtain u where run: "run_admission rq True pr s = (case consume_latch (rq_abort rq) pr u of
         (None, t) \<Rightarrow> (Inl (''FAULT: '' @ sm_fault_reason t), t)
       | (Some w, t) \<Rightarrow> admit_checked rq True (Some w) t)"
      and u: "sm_fault_sources u = {''interlock''}" "sm_commands u = sm_commands s"
    using latched_admission [of s rq True pr] assms(1-3) by auto
  obtain w v where c: "consume_latch (rq_abort rq) pr u = (Some w, v)" "sm_state v = SAFE_OFF" "sm_fault_sources v = {}"
      "sm_commands v = sm_commands s" "sm_pending_start_warning v = Some (rq_abort rq, w)"
    using u by (simp add: consume_latch_def Let_def)
  have "setpoint_refusal (sm_config v) (rq_p rq) (rq_v rq) (rq_i rq) \<noteq> None"
    using assms(4) by (simp add: setpoint_refusal_def)
  hence "\<exists>err. admit_checked rq True (Some w) v = (Inl err, v)"
    by (auto simp: admit_checked_def Let_def split: option.splits)
  thus ?thesis unfolding run c(1) using c(2-5) by (auto simp: pending_start_warning_def)
qed

section \<open>A start on concrete inputs\<close>

definition quiet_revoke :: revoke_env where
  "quiet_revoke = \<lparr> rv_fault = quiet_fault, rv_off = off_answer, rv_off_cancelled = False, rv_publish = quiet_side \<rparr>"

definition quiet_start :: run_env where
  "quiet_start = \<lparr> rn_probe = \<lparr> pr_answer = False, pr_interference = [] \<rparr>, rn_rearm = RearmAbsent,
     rn_target_off = off_answer, rn_start = \<lparr> aw_result = Inr (), aw_cancelled = False, aw_interference = [] \<rparr>,
     rn_fault = quiet_fault, rn_off = off_answer, rn_off_cancelled = False, rn_full_off = quiet_off,
     rn_publish = quiet_side, rn_publish_failed = False, rn_abort_publish = quiet_side, rn_revoke = quiet_revoke \<rparr>"

definition quiet_request :: request_env where
  "quiet_request = \<lparr> rx_lock_wait = [], rx_probe = \<lparr> pr_answer = False, pr_interference = [] \<rparr>,
     rx_warning_choice = quiet_side, rx_second_wait = [], rx_run = quiet_start \<rparr>"

lemma standby_fields [simp]:
  "sm_state standby_sm = READY" "sm_clock standby_sm = 100" "sm_active standby_sm = {}" "sm_mock standby_sm = False"
  "sm_driver standby_sm = Some sample_driver" "sm_abort_generation standby_sm = 0" "sm_full_abort_generation standby_sm = 0"
  "sm_pending_start_warning standby_sm = None" "sm_predictor_available standby_sm = None" "sm_evidence_at standby_sm = 100"
  "sm_pending_settlements standby_sm = []" "sm_commands standby_sm = []" "sm_failed_polls standby_sm = []"
  "sm_mature_dead standby_sm = []" "sm_identity_qualified standby_sm" "sm_source_generation standby_sm = Some 0"
  "sm_connected standby_sm" "sm_evidence standby_sm = from_global_result VERIFIED_OFF DEVICE_REPORTED_OFF"
  "sm_config standby_sm = safety_config_default\<lparr> sc_critical_channels := [sample_pattern] \<rparr>"
  "sm_receipt_expiry standby_sm = Some 1000" "sm_fault_sources standby_sm = {}"
  by (simp_all add: standby_sm_def sm_init_def sample_driver_def sample_binding_def Let_def)

lemma standby_admitted: "check_preconditions standby_sm = None"
proof -
  have "critical_input_problem standby_sm 100 = None"
    by (simp add: critical_input_problem_def critical_input_requirements_def requirement_problem_def
        sample_problem_def sample_defs Let_def)
  moreover have "safety_children_authoritative standby_sm"
    by (simp add: safety_children_authoritative_def sample_defs Let_def)
  moreover have "energizing_mutation_refusal standby_sm = None"
    by (simp add: energizing_mutation_refusal_def explicit_simulation_authorized_def)
  ultimately show ?thesis
    by (simp add: check_preconditions_def driver_flag_def sample_driver_def physical_off_verified_def)
qed

lemma live_children_quiet:
  assumes "live_child (sm_collect s)" "live_child (sm_monitor s)"
  shows "observe_terminal_safety_children s = s"
  using assms by (cases "sm_collect s"; cases "sm_monitor s") (simp_all add: observe_terminal_safety_children_def Let_def)

definition sample_rq :: run_request where
  "sample_rq = \<lparr> rq_channel = smua, rq_p = Fin 1, rq_v = Fin 10, rq_i = Fin 1, rq_abort = 0, rq_full = 0 \<rparr>"

lemma sample_admission: "run_admission sample_rq preflight pr standby_sm = (Inr [], standby_sm)"
proof -
  have "expire_stale_off_evidence standby_sm = standby_sm"
    by (simp add: expire_stale_off_evidence_def safety_config_default_def)
  moreover have "setpoint_refusal (sm_config standby_sm) (Fin 1) (Fin 10) (Fin 1) = None"
    by (simp add: setpoint_refusal_def safety_config_default_def)
  ultimately show ?thesis
    by (simp add: run_admission_def pending_start_warning_def sample_rq_def admit_checked_def standby_admitted
        cooldown_operator_warnings_def)
qed

lemma sample_uncontested:
  assumes "sm_state t = RUNNING" "sm_active t = {smua}" "sm_abort_generation t = 0" "sm_pending_settlements t = []"
    "sm_driver t = Some sample_driver" "safety_children_authoritative t"
  shows "uncontested sample_rq {smua} t"
  using assms by (simp add: uncontested_def sample_rq_def current_unmanaged_output_hazard_def
      exact_driver_active_source_cut_def sample_driver_def)

lemma sample_run:
  "\<exists>reply t. request_run (Fin 1) (Fin 10) (Fin 1) None quiet_request standby_sm = (Returned reply, t) \<and> ry_ok reply"
proof -
  let ?b = "start_sent sample_rq (begin_start sample_rq standby_sm)"
  let ?c = "?b\<lparr> sm_active := {smua} \<rparr>"
  define r where "r = (if sm_state ?c \<noteq> RUNNING
      then sm_transition RUNNING (''Source '' @ smu_name smua @ '' enabled'') (smu_name smua) (Fin 1) ?c else sm_refresh ?c)"
  have kept: "sm_collect ?b = sm_collect standby_sm" "sm_monitor ?b = sm_monitor standby_sm"
      "sm_abort_generation ?b = 0" "sm_active ?b = {}" "sm_driver ?b = Some sample_driver"
      "sm_state ?b = RUN_PERMITTED" "sm_pending_settlements ?b = []" "sm_mock ?b = False"
      "sm_child_generation ?b = sm_child_generation standby_sm" "sm_stopping_generation ?b = sm_stopping_generation standby_sm"
      "sm_failed_role ?b = sm_failed_role standby_sm" "sm_monitor_active ?b = sm_monitor_active standby_sm"
    by (simp_all add: start_sent_def begin_start_def Let_def)
  have live: "live_child (sm_collect standby_sm)" "live_child (sm_monitor standby_sm)"
      "safety_children_authoritative standby_sm"
    by (simp_all add: safety_children_authoritative_def sample_defs Let_def)
  have auth: "safety_children_authoritative ?b"
    using live(3) kept unfolding safety_children_authoritative_def by simp
  have r: "sm_state r = RUNNING" "sm_active r = {smua}" "sm_abort_generation r = 0" "sm_pending_settlements r = []"
      "sm_driver r = Some sample_driver" "sm_collect r = sm_collect standby_sm" "sm_monitor r = sm_monitor standby_sm"
      "safety_children_authoritative r"
    using kept auth unfolding r_def safety_children_authoritative_def by simp_all
  have start: "await_start sample_rq quiet_start (begin_start sample_rq standby_sm) = (None, ?b)"
    using auth kept by (simp add: await_start_def start_call quiet_start_def sample_rq_def [symmetric])
       (simp add: sample_rq_def)
  have "commit_run sample_rq quiet_start ?b = (Returned (mk_reply True [] r), r)"
    unfolding commit_run_def Let_def
    using r kept live sample_uncontested [of r] no_revocation [of sample_rq "{smua}" r] live_children_quiet [of r]
    by (simp add: quiet_start_def side_def quiet_side_def sample_rq_def r_def [unfolded sample_rq_def])
  hence "start_run sample_rq quiet_start standby_sm = (Returned (mk_reply True [] r), r)"
    using start by (simp add: start_run_def target_off_proof_def begin_start_def Let_def)
  hence "request_run_locked sample_rq quiet_start standby_sm = (Returned (mk_reply True [] r), r)"
    by (simp add: request_run_locked_def sample_admission apply_rearm_def quiet_start_def)
  thus ?thesis
    by (simp add: request_run_def normalize_none quiet_request_def sample_rq_def [symmetric] sample_admission mk_reply_def)
qed

lemma start_not_overtaken_witness:
  "\<exists>t. sm_state t = RUNNING \<and> smua \<in> sm_active t \<and> sends_starts [CmdStart smua (Fin 1) (Fin 10) (Fin 1)] standby_sm t"
proof -
  obtain reply t where run: "request_run (Fin 1) (Fin 10) (Fin 1) None quiet_request standby_sm = (Returned reply, t)"
      "ry_ok reply"
    using sample_run by blast
  show ?thesis using start_not_overtaken [OF run] by (auto simp: normalize_none)
qed


definition full_disk_sm :: "string \<Rightarrow> sm" where
  "full_disk_sm source = standby_sm\<lparr> sm_state := FAULT_LATCHED, sm_fault_sources := {source} \<rparr>"

definition vacuum_fault :: fault_request where
  "vacuum_fault = \<lparr> fr_reason = ''vacuum loss'', fr_channel = [], fr_value = Fin 0, fr_source = ''vacuum_guard'' \<rparr>"

lemma probe_race_consumes_new_fault_witness:
  "sm_state (snd (run_admission sample_rq True \<lparr> pr_answer = True, pr_interference = [EvLatch vacuum_fault] \<rparr>
      (full_disk_sm ''persistence''))) = SAFE_OFF"
proof -
  have s: "sm_state (full_disk_sm ''persistence'') = FAULT_LATCHED"
      "sm_fault_sources (full_disk_sm ''persistence'') = {''persistence''}"
      "rq_abort sample_rq = sm_abort_generation (full_disk_sm ''persistence'')"
      "fr_source vacuum_fault \<noteq> ''persistence''"
    by (simp_all add: full_disk_sm_def sample_rq_def vacuum_fault_def)
  show ?thesis
    using probe_race_consumes_new_fault [OF s, of "\<lparr> pr_answer = True, pr_interference = [EvLatch vacuum_fault] \<rparr>" True]
    by (simp add: case_prod_beta)
qed

lemma refused_start_consumes_latch_witness:
  "sm_state (snd (run_admission (sample_rq\<lparr> rq_p := NaN \<rparr>) True \<lparr> pr_answer = False, pr_interference = [] \<rparr>
      (full_disk_sm ''interlock''))) = SAFE_OFF"
proof -
  have s: "sm_state (full_disk_sm ''interlock'') = FAULT_LATCHED"
      "sm_fault_sources (full_disk_sm ''interlock'') = {''interlock''}"
      "rq_abort (sample_rq\<lparr> rq_p := NaN \<rparr>) = sm_abort_generation (full_disk_sm ''interlock'')"
      "\<not> fl_isfinite (rq_p (sample_rq\<lparr> rq_p := NaN \<rparr>))"
    by (simp_all add: full_disk_sm_def sample_rq_def fl_isfinite_def)
  show ?thesis
    using refused_start_consumes_latch [OF s, of "\<lparr> pr_answer = False, pr_interference = [] \<rparr>"]
    by (simp add: case_prod_beta)
qed

end
