(* ===== verification/SafetyOps.thy ===== *)
theory SafetyOps
  imports SafetyRun
begin

text \<open>
  The other operations of the safety manager: live updates of the power target and of the compliance
  limits, the acknowledgement of a fault, the connection lifecycle of the reviewed source, dead
  interlock channels with the durable records of blind guards, and the persistence hooks. Waits are
  answers with the interference of other tasks, as in \<open>SafetyOff\<close>.
\<close>

section \<open>Live updates\<close>

text \<open>The numerical fields of the reply are a list of name and value.\<close>

record update_reply =
  ur_ok :: bool
  ur_error :: string
  ur_values :: "(string \<times> pyfloat) list"
  ur_uncertain :: "string list"

definition update_refused :: "string \<Rightarrow> sm \<Rightarrow> update_reply outcome \<times> sm" where
  "update_refused err s =
     (Returned \<lparr> ur_ok = False, ur_error = err, ur_values = [], ur_uncertain = [] \<rparr>, s)"

definition runtime_of :: "smu_channel \<Rightarrow> sm \<Rightarrow> source_runtime option" where
  "runtime_of ch s = (case sm_driver s of None \<Rightarrow> None | Some d \<Rightarrow> dict_get (dv_runtimes d) ch)"

definition map_runtime :: "smu_channel \<Rightarrow> (source_runtime \<Rightarrow> source_runtime) \<Rightarrow> sm \<Rightarrow> sm" where
  "map_runtime ch f s =
     (case (sm_driver s, runtime_of ch s) of
        (Some d, Some rt) \<Rightarrow> s\<lparr> sm_driver := Some (d\<lparr> dv_runtimes := dict_set ch (f rt) (dv_runtimes d) \<rparr>) \<rparr>
      | _ \<Rightarrow> s)"

definition driver_mock :: "sm \<Rightarrow> bool" where
  "driver_mock s = (case sm_driver s of None \<Rightarrow> False | Some d \<Rightarrow> dv_mock d)"

text \<open>The guards both updates share, in the order of the source.\<close>

definition authority_refusal :: "smu_channel \<Rightarrow> sm \<Rightarrow> string option" where
  "authority_refusal ch s =
     (case energizing_mutation_refusal s of
        Some refusal \<Rightarrow> Some refusal
      | None \<Rightarrow>
          (if \<not> safety_children_authoritative s then Some ''Safety child authority is unavailable''
           else if sm_state s = FAULT_LATCHED then Some (''FAULT: '' @ sm_fault_reason s)
           else if ch \<notin> sm_active s then Some (''Channel '' @ smu_name ch @ '' not active'')
           else None))"

definition instrument_refusal :: "smu_channel \<Rightarrow> sm \<Rightarrow> string option" where
  "instrument_refusal ch s =
     (if sm_driver s = None then Some ''Keithley not connected''
      else
        (case runtime_of ch s of
           None \<Rightarrow> Some (''Channel '' @ smu_name ch @ '' not active on instrument'')
         | Some rt \<Rightarrow> if rt_active rt then None
                      else Some (''Channel '' @ smu_name ch @ '' not active on instrument'')))"

definition value_refusal :: "string \<Rightarrow> pyfloat \<Rightarrow> pyfloat \<Rightarrow> string option" where
  "value_refusal name limit x =
     (if \<not> fl_isfinite x then Some (''Non-finite '' @ name @ '' rejected'')
      else if fl_le x (Fin 0) then Some (name @ '' must be > 0'')
      else if fl_less limit x then Some (name @ '' exceeds limit'')
      else None)"

text \<open>\<open>await self._fault(..)\<close> followed by an outcome of the caller.\<close>

definition fault_then :: "fault_request \<Rightarrow> fault_env \<Rightarrow> (sm \<Rightarrow> 'a outcome) \<Rightarrow> sm \<Rightarrow> 'a outcome \<times> sm" where
  "fault_then f fe out s =
     (case sm_fault f fe s of
        (Returned _, s') \<Rightarrow> (out s', s')
      | (CallerCancelled, s') \<Rightarrow> (CallerCancelled, s')
      | (RaisedExn e, s') \<Rightarrow> (RaisedExn e, s'))"

text \<open>An update was overtaken when an abort, a fault or the end of a child came during its write.\<close>

definition update_overtaken :: "nat \<Rightarrow> sm \<Rightarrow> bool" where
  "update_overtaken abort s =
     (sm_abort_generation s \<noteq> abort \<or> sm_state s = FAULT_LATCHED \<or> \<not> safety_children_authoritative s)"

record target_env =
  te_lock_wait :: "env_event list"
  te_write :: "unit hw"
  te_fault :: fault_env
  te_latched_off :: "drv_value hw"
  te_latched_off_cancelled :: bool
  te_authority_off :: off_env
  te_authority_off_cancelled :: bool

definition target_fault :: "string \<Rightarrow> smu_channel \<Rightarrow> fault_request" where
  "target_fault reason ch =
     \<lparr> fr_reason = reason @ smu_name ch, fr_channel = smu_name ch, fr_value = Fin 0,
       fr_source = ''safety_target_update'' \<rparr>"

text \<open>
  The runtime was looked up before the write, so a reply after it reads that object, also when the
  driver has dropped it since.
\<close>

definition held_runtime :: "smu_channel \<Rightarrow> source_runtime \<Rightarrow> sm \<Rightarrow> source_runtime" where
  "held_runtime ch rt s = (case runtime_of ch s of None \<Rightarrow> rt | Some r \<Rightarrow> r)"

text \<open>A failed write: its outcome is uncertain, so it latches, or repeats OFF under a standing latch.\<close>

definition target_uncertain ::
    "smu_channel \<Rightarrow> source_runtime \<Rightarrow> bool \<Rightarrow> target_env \<Rightarrow> sm \<Rightarrow> update_reply outcome \<times> sm" where
  "target_uncertain ch rt cancelled te s =
     (let err = ''Power-target update outcome is uncertain on '';
          reply = (\<lambda>c t. if c then CallerCancelled
                         else Returned \<lparr> ur_ok = False, ur_error = err @ smu_name ch,
                                ur_values = [(''p_target'', rt_p_target (held_runtime ch rt t))],
                                ur_uncertain = [''p_target''] \<rparr>)
      in if sm_state s \<noteq> FAULT_LATCHED
         then fault_then (target_fault err ch) (te_fault te) (reply cancelled) s
         else
           (case sm_fault (target_fault err ch) (te_fault te) s of
              (Returned _, s1) \<Rightarrow>
                (let off = ensure_output_off None (te_latched_off te) s1;
                     s2 = snd (snd off);
                     s3 = (if off_confirmed off then sm_refresh (s2\<lparr> sm_active := {} \<rparr>) else s2)
                 in (reply (cancelled \<or> te_latched_off_cancelled te) s3, s3))
            | (CallerCancelled, s1) \<Rightarrow> (CallerCancelled, s1)
            | (RaisedExn e, s1) \<Rightarrow> (RaisedExn e, s1)))"

definition target_written ::
    "smu_channel \<Rightarrow> pyfloat \<Rightarrow> source_runtime \<Rightarrow> nat \<Rightarrow> nat \<Rightarrow> target_env \<Rightarrow> sm \<Rightarrow> update_reply outcome \<times> sm" where
  "target_written ch p rt abort full te s0 =
     (let s = observe_terminal_safety_children s0
      in if update_overtaken abort s then
           (let (out, s1) = emergency_off_locked (if sm_full_abort_generation s \<noteq> full then None else Some ch)
                              (te_authority_off te) s;
                confirmed = (case out of Returned r \<Rightarrow> ry_ok r | _ \<Rightarrow> False)
            in (if te_authority_off_cancelled te then CallerCancelled
                else Returned \<lparr> ur_ok = False,
                       ur_error = (if confirmed then ''Safety authority was lost after a power-target update''
                                   else ''Safety authority was lost and OFF was not confirmed''),
                       ur_values = [(''p_target'', rt_p_target (held_runtime ch rt s1))],
                       ur_uncertain = [] \<rparr>, s1))
         else (Returned \<lparr> ur_ok = True, ur_error = [], ur_values = [(''p_target'', p)], ur_uncertain = [] \<rparr>, s))"

definition update_target :: "pyfloat \<Rightarrow> string option \<Rightarrow> target_env \<Rightarrow> sm \<Rightarrow> update_reply outcome \<times> sm" where
  "update_target p channel te s0 =
     (let s = env_run (te_lock_wait te) s0
      in case normalize_smu_channel channel of
           Inl e \<Rightarrow> (RaisedExn e, s)
         | Inr ch \<Rightarrow>
             (case first_some (\<lambda>r. r) [authority_refusal ch s, value_refusal ''p_target'' (sc_max_power_w (sm_config s)) p,
                                       instrument_refusal ch s] of
                Some err \<Rightarrow> update_refused err s
              | None \<Rightarrow>
                  (let rt = the (runtime_of ch s);
                       (answer, cancelled, s1) = hw_call (CmdUpdateTarget ch p) (te_write te) s
                   in case answer of
                        Inl e \<Rightarrow> target_uncertain ch rt cancelled te s1
                      | Inr _ \<Rightarrow>
                          (if cancelled
                           then fault_then (target_fault ''Power-target update completed after caller cancellation on '' ch)
                                  (te_fault te) (\<lambda>_. CallerCancelled) s1
                           else target_written ch p rt (sm_abort_generation s) (sm_full_abort_generation s) te s1))))"

section \<open>Compliance limits\<close>

datatype limit = LimitV | LimitI

fun limit_field :: "limit \<Rightarrow> string" where
  "limit_field LimitV = ''v_comp''"
| "limit_field LimitI = ''i_comp''"

fun limit_command :: "limit \<Rightarrow> smu_channel \<Rightarrow> pyfloat \<Rightarrow> hw_command" where
  "limit_command LimitV ch x = CmdUpdateVoltage ch x"
| "limit_command LimitI ch x = CmdUpdateCurrent ch x"

fun set_limit :: "limit \<Rightarrow> pyfloat \<Rightarrow> source_runtime \<Rightarrow> source_runtime" where
  "set_limit LimitV x rt = rt\<lparr> rt_v_comp := x \<rparr>"
| "set_limit LimitI x rt = rt\<lparr> rt_i_comp := x \<rparr>"

record limit_env =
  le_write :: "unit hw"
  le_fault :: fault_env

definition limit_fault :: "string \<Rightarrow> limit \<Rightarrow> smu_channel \<Rightarrow> fault_request" where
  "limit_fault reason l ch =
     \<lparr> fr_reason = limit_field l @ reason @ smu_name ch, fr_channel = smu_name ch, fr_value = Fin 0,
       fr_source = ''safety_limit_update'' \<rparr>"

text \<open>
  One limit: \<open>None\<close> when it is applied and the update may go on. A simulated driver is not written
  to: only the runtime is set.
\<close>

definition write_limit ::
    "limit \<Rightarrow> smu_channel \<Rightarrow> nat \<Rightarrow> (string \<times> pyfloat) list \<Rightarrow> pyfloat \<Rightarrow> limit_env \<Rightarrow> sm
       \<Rightarrow> (update_reply outcome) option \<times> sm" where
  "write_limit l ch abort applied x le s =
     (let stop = (\<lambda>r. (Some (fst r), snd r));
          uncertain = ''-limit write outcome is uncertain on ''
      in if driver_mock s then (None, map_runtime ch (set_limit l x) s)
         else
           (let (answer, cancelled, s1) = hw_call (limit_command l ch x) (le_write le) s
            in case answer of
                 Inl e \<Rightarrow>
                   stop (fault_then (limit_fault uncertain l ch) (le_fault le)
                     (\<lambda>_. if cancelled then CallerCancelled
                          else Returned \<lparr> ur_ok = False, ur_error = limit_field l @ uncertain @ smu_name ch,
                                 ur_values = applied, ur_uncertain = [limit_field l] \<rparr>) s1)
               | Inr _ \<Rightarrow>
                   (let s2 = map_runtime ch (set_limit l x) s1
                    in if cancelled
                       then stop (fault_then (limit_fault ''-limit write completed after caller cancellation on '' l ch)
                              (le_fault le) (\<lambda>_. CallerCancelled) s2)
                       else
                         (let s3 = observe_terminal_safety_children s2
                          in if update_overtaken abort s3
                             then (Some (Returned \<lparr> ur_ok = False,
                                     ur_error = ''Safety authority was lost after a limit write reached hardware'',
                                     ur_values = applied @ [(limit_field l, x)], ur_uncertain = [] \<rparr>), s3)
                             else (None, s3)))))"

text \<open>An absent limit is skipped.\<close>

definition write_optional ::
    "limit \<Rightarrow> smu_channel \<Rightarrow> nat \<Rightarrow> (string \<times> pyfloat) list \<Rightarrow> pyfloat option \<Rightarrow> limit_env \<Rightarrow> sm
       \<Rightarrow> (update_reply outcome) option \<times> sm" where
  "write_optional l ch abort applied x le s =
     (case x of None \<Rightarrow> (None, s) | Some v \<Rightarrow> write_limit l ch abort applied v le s)"

definition optional_refusal :: "string \<Rightarrow> pyfloat \<Rightarrow> pyfloat option \<Rightarrow> string option" where
  "optional_refusal name limit x = (case x of None \<Rightarrow> None | Some v \<Rightarrow> value_refusal name limit v)"

record limits_env =
  me_lock_wait :: "env_event list"
  me_v :: limit_env
  me_i :: limit_env

definition limits_applied :: "smu_channel \<Rightarrow> source_runtime \<Rightarrow> sm \<Rightarrow> update_reply outcome \<times> sm" where
  "limits_applied ch rt s =
     (let r = held_runtime ch rt s
      in (Returned \<lparr> ur_ok = True, ur_error = [],
            ur_values = [(''v_comp'', rt_v_comp r), (''i_comp'', rt_i_comp r)], ur_uncertain = [] \<rparr>, s))"

definition update_limits ::
    "string option \<Rightarrow> pyfloat option \<Rightarrow> pyfloat option \<Rightarrow> limits_env \<Rightarrow> sm \<Rightarrow> update_reply outcome \<times> sm" where
  "update_limits channel v i me s0 =
     (let s = env_run (me_lock_wait me) s0
      in case normalize_smu_channel channel of
           Inl e \<Rightarrow> (RaisedExn e, s)
         | Inr ch \<Rightarrow>
             (case first_some (\<lambda>r. r) [authority_refusal ch s, instrument_refusal ch s,
                 optional_refusal ''v_comp'' (sc_max_voltage_v (sm_config s)) v,
                 optional_refusal ''i_comp'' (sc_max_current_a (sm_config s)) i] of
                Some err \<Rightarrow> update_refused err s
              | None \<Rightarrow>
                  (let rt = the (runtime_of ch s); abort = sm_abort_generation s
                   in case write_optional LimitV ch abort [] v (me_v me) s of
                        (Some out, s1) \<Rightarrow> (out, s1)
                      | (None, s1) \<Rightarrow>
                          (case write_optional LimitI ch abort
                                  (case v of None \<Rightarrow> [] | Some x \<Rightarrow> [(''v_comp'', x)]) i (me_i me) s1 of
                             (Some out, s2) \<Rightarrow> (out, s2)
                           | (None, s2) \<Rightarrow> limits_applied ch rt s2))))"

section \<open>Acknowledgement\<close>

text \<open>
  The driver's watchdog hook: absent, answering at once or after a wait, or raising. Its wait is not
  shielded from the caller's cancellation.
\<close>

datatype watchdog_ack = AckAbsent | AckAnswer bool | AckRaised

record ack_env =
  ae_lock_wait :: "env_event list"
  ae_watchdog :: watchdog_ack
  ae_watchdog_wait :: side_wait
  ae_publish :: side_wait

definition ack_refusal :: "string \<Rightarrow> sm \<Rightarrow> string option" where
  "ack_refusal reason s =
     (if sm_state s \<noteq> FAULT_LATCHED then Some ''No active fault to acknowledge''
      else if sc_require_reason (sm_config s) \<and> py_strip reason = [] then Some ''A reason is required''
      else if fl_less (Fin (sm_clock s - sm_fault_time s)) (sc_cooldown_before_rearm_s (sm_config s))
      then Some ''Wait for the recovery cooldown''
      else None)"

definition commit_acknowledge :: "string \<Rightarrow> ack_env \<Rightarrow> sm \<Rightarrow> reply outcome \<times> sm" where
  "commit_acknowledge reason ae s =
     (let s1 = sm_transition MANUAL_RECOVERY (''Fault acknowledged: '' @ reason) [] (Fin 0)
                 (s\<lparr> sm_persistence_fault := False \<rparr>);
          (cancelled, s2) = side (ae_publish ae) s1
      in (if cancelled then CallerCancelled else Returned (mk_reply True [] s2), s2))"

definition acknowledge_fault :: "string \<Rightarrow> ack_env \<Rightarrow> sm \<Rightarrow> reply outcome \<times> sm" where
  "acknowledge_fault reason ae s0 =
     (let s = env_run (ae_lock_wait ae) s0
      in case ack_refusal reason s of
           Some err \<Rightarrow> refused err s
         | None \<Rightarrow>
             (let s1 = s\<lparr> sm_recovery_reason := py_strip reason \<rparr>
              in if sm_driver s1 = None \<or> ae_watchdog ae = AckAbsent then commit_acknowledge reason ae s1
                 else
                   (let (cancelled, s2) = side (ae_watchdog_wait ae) s1
                    in if cancelled then (CallerCancelled, s2)
                       else if ae_watchdog ae \<noteq> AckAnswer True
                       then refused ''Watchdog trip evidence could not be acknowledged'' s2
                       else commit_acknowledge reason ae s2)))"

definition set_cooldown_predictor_status :: "bool \<Rightarrow> string \<Rightarrow> env_event list \<Rightarrow> sm \<Rightarrow> sm" where
  "set_cooldown_predictor_status available reason wait s =
     sm_refresh ((env_run wait s)\<lparr> sm_predictor_available := Some available,
                                   sm_predictor_reason := (if available then [] else reason) \<rparr>)"

section \<open>The connection of the reviewed source\<close>

text \<open>
  A caller names the driver and the sealed binding it acts for; the manager compares identities. The
  two flags say whether they are the manager's own objects.
\<close>

record claimant =
  cm_own_driver :: bool
  cm_own_binding :: bool

definition require_reviewed_source_identity :: "claimant \<Rightarrow> sm \<Rightarrow> unit result" where
  "require_reviewed_source_identity cm s =
     (if \<not> sm_identity_qualified s \<or> \<not> cm_own_driver cm \<or> \<not> cm_own_binding cm
         \<or> (case sm_binding s of None \<Rightarrow> True
             | Some b \<Rightarrow> \<not> rb_issued b \<or> \<not> rb_for_driver b \<or> \<not> rb_reviewed_source b)
      then Inl (ValueError ''reviewed-source sealed runtime binding identity mismatch'')
      else Inr ())"

record connect_env =
  ce_lock_wait :: "env_event list"
  ce_fault :: fault_env

text \<open>The token is the generation; an unrecorded one is consumed from the counter as well.\<close>

definition fresh_generation :: "sm \<Rightarrow> nat \<times> sm" where
  "fresh_generation s = (sm_next_generation s, s\<lparr> sm_next_generation := sm_next_generation s + 1 \<rparr>)"

definition begin_reviewed_source_connect :: "claimant \<Rightarrow> string \<Rightarrow> connect_env \<Rightarrow> sm \<Rightarrow> nat outcome \<times> sm" where
  "begin_reviewed_source_connect cm context ce s0 =
     (case require_reviewed_source_identity cm s0 of
        Inl e \<Rightarrow> (RaisedExn e, s0)
      | Inr _ \<Rightarrow>
          (let s = env_run (ce_lock_wait ce) (register_abort_intent True s0)
           in case require_reviewed_source_identity cm s of
                Inl e \<Rightarrow> (RaisedExn e, s)
              | Inr _ \<Rightarrow>
                  (let s1 = revoke_connection s
                   in if \<not> safety_children_authoritative s1
                      then (RaisedExn (RuntimeError ''cannot grant a generation without live safety children''), s1)
                      else if sm_active s \<noteq> {} then
                        (case sm_fault (plain_fault (''reviewed source connection changed while active '' @ context) [])
                                (ce_fault ce) s1 of
                           (Returned _, s2) \<Rightarrow> (let (g, s3) = fresh_generation s2 in (Returned g, s3))
                         | (CallerCancelled, s2) \<Rightarrow> (CallerCancelled, s2)
                         | (RaisedExn e, s2) \<Rightarrow> (RaisedExn e, s2))
                      else
                        (let (g, s2) = fresh_generation s1
                         in (Returned g, s2\<lparr> sm_source_generation := Some g \<rparr>)))))"

definition connect_evidence :: "sm \<Rightarrow> off_evidence \<times> sm" where
  "connect_evidence s =
     (let connected = (case sm_driver s of None \<Rightarrow> False | Some d \<Rightarrow> dv_connected d);
          verified = (connected \<and> (case sm_driver s of None \<Rightarrow> False | Some d \<Rightarrow> \<not> dv_output_state_unverified d));
          evidence = from_global_result (reviewed_source_off_tier s)
                       (if verified then DEVICE_REPORTED_OFF else PHYSICAL_STATE_UNKNOWN);
          s1 = set_evidence evidence (s\<lparr> sm_connected := connected \<rparr>);
          s2 = sm_refresh (if verified then s1\<lparr> sm_active := {} \<rparr> else s1)
      in (sm_evidence s2, s2))"

definition complete_reviewed_source_connect ::
    "claimant \<Rightarrow> nat option \<Rightarrow> env_event list \<Rightarrow> sm \<Rightarrow> off_evidence outcome \<times> sm" where
  "complete_reviewed_source_connect cm generation wait s0 =
     (let s = env_run wait s0
      in case require_reviewed_source_identity cm s of
           Inl e \<Rightarrow> (RaisedExn e, s)
         | Inr _ \<Rightarrow>
             (if \<not> safety_children_authoritative s \<or> generation \<noteq> sm_source_generation s
              then (Returned (unknown_global_off_evidence s), s)
              else (let (e, s1) = connect_evidence s in (Returned e, s1))))"

definition mark_reviewed_source_uncertain ::
    "claimant \<Rightarrow> nat option \<Rightarrow> string \<Rightarrow> connect_env \<Rightarrow> sm \<Rightarrow> unit outcome \<times> sm" where
  "mark_reviewed_source_uncertain cm generation context ce s0 =
     (case require_reviewed_source_identity cm s0 of
        Inl e \<Rightarrow> (RaisedExn e, s0)
      | Inr _ \<Rightarrow>
          (if generation \<noteq> sm_source_generation s0 then (Returned (), s0)
           else
             (let s = env_run (ce_lock_wait ce) (register_abort_intent True s0)
              in case require_reviewed_source_identity cm s of
                   Inl e \<Rightarrow> (RaisedExn e, s)
                 | Inr _ \<Rightarrow>
                     (if generation \<noteq> sm_source_generation s then (Returned (), s)
                      else
                        (let s1 = revoke_connection s
                         in if sm_active s1 = {} then (Returned (), s1)
                            else sm_fault (plain_fault (''reviewed source connection uncertain '' @ context) [])
                                   (ce_fault ce) s1)))))"

record disconnect_env =
  de_lock_wait :: "env_event list"
  de_off :: "drv_value hw"
  de_disconnect :: "unit hw"
  de_fault :: fault_env
  de_publish :: side_wait

definition disconnected_for_good :: "string \<Rightarrow> sm \<Rightarrow> sm" where
  "disconnected_for_good context s =
     (let s1 = sm_refresh (s\<lparr> sm_active := {}, sm_connected := False \<rparr>)
      in if sm_state s1 \<noteq> FAULT_LATCHED
         then sm_transition SAFE_OFF (''Reviewed source disconnected: '' @ context) [] (Fin 0) s1 else s1)"

definition disconnect_fails :: "string \<Rightarrow> bool \<Rightarrow> disconnect_env \<Rightarrow> sm \<Rightarrow> bool outcome \<times> sm" where
  "disconnect_fails reason cancelled de s =
     fault_then (plain_fault reason []) (de_fault de) (\<lambda>_. if cancelled then CallerCancelled else Returned False) s"

definition disconnect_reviewed_source :: "claimant \<Rightarrow> string \<Rightarrow> disconnect_env \<Rightarrow> sm \<Rightarrow> bool outcome \<times> sm" where
  "disconnect_reviewed_source cm context de s0 =
     (case require_reviewed_source_identity cm s0 of
        Inl e \<Rightarrow> (RaisedExn e, s0)
      | Inr _ \<Rightarrow>
          (let s = env_run (de_lock_wait de) (register_abort_intent True s0)
           in case require_reviewed_source_identity cm s of
                Inl e \<Rightarrow> (RaisedExn e, s)
              | Inr _ \<Rightarrow>
                  (let (answer, c1, s1) = hw_call (CmdOff None) (de_off de) (revoke_connection s);
                       value = (case answer of Inl _ \<Rightarrow> DvFalse | Inr v \<Rightarrow> v);
                       evidence = global_off_evidence_for_result s1 value;
                       s2 = set_evidence evidence s1
                   in if (\<exists>e. answer = Inl e) \<or> \<not> verified_off evidence
                      then disconnect_fails (''reviewed source disconnect lacked verified OFF '' @ context) c1 de (sm_refresh s2)
                      else
                        (let (ended, c3, s3) = hw_call CmdDisconnect (de_disconnect de) s2
                         in if (\<exists>e. ended = Inl e) \<or> (case sm_driver s3 of None \<Rightarrow> True | Some d \<Rightarrow> dv_connected d)
                            then disconnect_fails (''reviewed source disconnect failed after OFF proof '' @ context)
                                   (c1 \<or> c3) de s3
                            else
                              (let (c4, s4) = side (de_publish de) (disconnected_for_good context s3)
                               in (finish (c1 \<or> c3 \<or> c4) True, s4))))))"

section \<open>Dead interlock channels\<close>

text \<open>\<open>DeadLatched\<close> is the boolean of an ordinary episode; the others answer an advisory.\<close>

datatype dead_reply = DeadLatched bool | AdvisoryRecorded | AdvisoryRetry

text \<open>The durable log: whether a callback is wired, whether the row failed, and the wait.\<close>

record blind_log =
  bl_wired :: bool
  bl_failed :: bool
  bl_wait :: side_wait

text \<open>\<open>_record_blind_guard\<close>: the caller's cancellation is re-raised after the row has settled.\<close>

definition record_blind_guard :: "blind_log \<Rightarrow> sm \<Rightarrow> bool outcome \<times> sm" where
  "record_blind_guard bl s =
     (if \<not> bl_wired bl then (Returned False, s)
      else (let (cancelled, s1) = side (bl_wait bl) s in (finish cancelled (\<not> bl_failed bl), s1)))"

definition advise_blind_guard ::
    "string \<Rightarrow> string \<Rightarrow> string list \<Rightarrow> pyfloat \<Rightarrow> blind_log \<Rightarrow> sm \<Rightarrow> dead_reply outcome \<times> sm" where
  "advise_blind_guard interlock channel reasons value bl s =
     (let s1 = note_blind_guard interlock channel reasons value False s
      in if blind_recorded interlock channel reasons s then (Returned AdvisoryRecorded, s1)
         else if \<not> bl_wired bl then (Returned AdvisoryRetry, s1)
         else
           (case record_blind_guard bl s1 of
              (Returned True, s2) \<Rightarrow>
                (Returned AdvisoryRecorded,
                 s2\<lparr> sm_blind_guards := dict_set channel (interlock, reasons, True, value) (sm_blind_guards s2) \<rparr>)
            | (Returned False, s2) \<Rightarrow> (Returned AdvisoryRetry, s2)
            | (CallerCancelled, s2) \<Rightarrow> (CallerCancelled, s2)
            | (RaisedExn e, s2) \<Rightarrow> (RaisedExn e, s2)))"

definition on_interlock_dead_channel ::
    "string \<Rightarrow> string \<Rightarrow> pyfloat \<Rightarrow> reading option \<Rightarrow> blind_log \<Rightarrow> fault_env \<Rightarrow> sm \<Rightarrow> dead_reply outcome \<times> sm" where
  "on_interlock_dead_channel interlock channel value rd bl fe s =
     (let reasons = (case rd of None \<Rightarrow> [] | Some r \<Rightarrow> instrument_status_fault_reasons r)
      in if reasons \<noteq> [] then advise_blind_guard interlock channel reasons value bl s
         else
           (let s1 = note_mature_dead interlock channel s
            in if sm_state s1 = FAULT_LATCHED then (Returned (DeadLatched True), s1)
               else if sm_state s1 \<notin> {RUN_PERMITTED, RUNNING} then (Returned (DeadLatched False), s1)
               else fault_then (plain_fault (''Interlock channel dead: '' @ channel) channel\<lparr> fr_value := value \<rparr>) fe
                      (\<lambda>_. Returned (DeadLatched True)) s1))"

text \<open>
  Binding every blind guard to a new experiment, over a sorted copy of the guards. The environment
  gives the log's answer for each channel. Values compare structurally here, while two distinct NaN
  objects differ in Python.
\<close>

fun bind_blind_guards ::
    "string \<Rightarrow> (string \<times> (string \<times> string list \<times> bool \<times> pyfloat)) list \<Rightarrow> (string \<Rightarrow> blind_log) \<Rightarrow> string list \<Rightarrow> sm
       \<Rightarrow> string list outcome \<times> sm" where
  "bind_blind_guards experiment [] bl failures s = (Returned failures, s)"
| "bind_blind_guards experiment ((channel, episode) # rest) bl failures s =
     (if dict_get (sm_blind_records s) channel = Some experiment
      then bind_blind_guards experiment rest bl failures s
      else
        (case record_blind_guard (bl channel) s of
           (Returned True, s1) \<Rightarrow>
             bind_blind_guards experiment rest bl failures
               (if dict_get (sm_blind_guards s1) channel = Some episode
                then s1\<lparr> sm_blind_records := dict_set channel experiment (sm_blind_records s1) \<rparr> else s1)
         | (Returned False, s1) \<Rightarrow> bind_blind_guards experiment rest bl (failures @ [channel]) s1
         | (CallerCancelled, s1) \<Rightarrow> (CallerCancelled, s1)
         | (RaisedExn e, s1) \<Rightarrow> (RaisedExn e, s1)))"

definition record_blind_guards_for_experiment ::
    "string \<Rightarrow> (string \<Rightarrow> blind_log) \<Rightarrow> sm \<Rightarrow> unit outcome \<times> sm" where
  "record_blind_guards_for_experiment experiment bl s =
     (if experiment = [] then (RaisedExn (ValueError ''experiment_id''), s)
      else
        (case bind_blind_guards experiment (sort_key fst (sm_blind_guards s)) bl [] s of
           (Returned failures, s1) \<Rightarrow>
             (if failures = [] then Returned ()
              else RaisedExn (RuntimeError ''blind-guard experiment binding was not durable''), s1)
         | (CallerCancelled, s1) \<Rightarrow> (CallerCancelled, s1)
         | (RaisedExn e, s1) \<Rightarrow> (RaisedExn e, s1)))"

section \<open>Persistence and public faults\<close>

definition on_persistence_failure :: "string \<Rightarrow> fault_env \<Rightarrow> sm \<Rightarrow> unit outcome \<times> sm" where
  "on_persistence_failure reason fe s =
     sm_fault \<lparr> fr_reason = ''Persistence failure: '' @ reason, fr_channel = [], fr_value = Fin 0,
                fr_source = ''persistence'' \<rparr> fe (sm_refresh (s\<lparr> sm_persistence_fault := True \<rparr>))"

definition on_failed_poll_persistence_failure :: "string \<Rightarrow> string \<Rightarrow> fault_env \<Rightarrow> sm \<Rightarrow> unit outcome \<times> sm" where
  "on_failed_poll_persistence_failure instrument reason fe s =
     on_persistence_failure (instrument @ '': '' @ reason) fe
       (s\<lparr> sm_failed_polls := dict_set instrument reason (sm_failed_polls s) \<rparr>)"

definition latch_fault :: "string \<Rightarrow> string \<Rightarrow> string \<Rightarrow> pyfloat \<Rightarrow> fault_env \<Rightarrow> sm \<Rightarrow> unit outcome \<times> sm" where
  "latch_fault reason source channel value fe s =
     sm_fault \<lparr> fr_reason = reason, fr_channel = channel, fr_value = value, fr_source = source \<rparr> fe s"

section \<open>What observers are shown\<close>

datatype keithley_source_state = KsOff | KsOn | KsFault | KsUnknown

text \<open>
  One channel of \<open>_publish_keithley_channel_states\<close>: \<open>observed\<close> and \<open>age\<close> are the evidence and its age
  when the publication began.
\<close>

definition published_channel_state ::
    "smu_channel \<Rightarrow> string option \<Rightarrow> off_evidence \<Rightarrow> real \<Rightarrow> sm \<Rightarrow> keithley_source_state \<times> off_evidence" where
  "published_channel_state ch fault_channel observed age s =
     (if fault_channel = Some (smu_name ch) then (KsFault, sm_evidence s)
      else if ch \<in> sm_active s then (KsOn, sm_evidence s)
      else if oe_result observed ch = DEVICE_REPORTED_OFF
      then (if fl_less (sc_stale_timeout_s (sm_config s)) (Fin age) then (KsUnknown, unknown_global_off_evidence s)
            else (KsOff, sm_evidence s))
      else (KsUnknown, sm_evidence s))"

record status_report =
  st_state :: safety_state
  st_fault_reason :: string
  st_fault_revision :: nat
  st_recovery_reason :: string
  st_channels_tracked :: nat
  st_connected :: bool
  st_active :: "smu_channel list"
  st_mock :: bool
  st_mode :: string
  st_refusal :: "string option"

definition get_status :: "sm \<Rightarrow> status_report" where
  "get_status s =
     (let refusal = energizing_mutation_refusal s
      in \<lparr> st_state = sm_state s, st_fault_reason = sm_fault_reason s, st_fault_revision = sm_fault_revision s,
           st_recovery_reason = sm_recovery_reason s, st_channels_tracked = length (sm_latest s),
           st_connected = (case sm_driver s of None \<Rightarrow> False | Some d \<Rightarrow> dv_connected d),
           st_active = filter (\<lambda>c. c \<in> sm_active s) SMU_CHANNELS, st_mock = sm_mock s,
           st_mode = (if explicit_simulation_authorized s then ''SIMULATION''
                      else if refusal = None then ''QUALIFIED'' else ''UNQUALIFIED''),
           st_refusal = refusal \<rparr>)"

end
