(* ===== verification/SafetyTrace.thy ===== *)
theory SafetyTrace
  imports SafetyOffProps
begin

text \<open>
  The exact traces of the shutdown paths: other tasks send no command during a wait, and a fault, a
  reconciliation or an emergency OFF sends nothing but OFF commands.
\<close>

named_theorems silent "steps that send no command"

lemma silent_refresh [silent]: "sm_commands (sm_refresh s) = sm_commands s"
  and silent_evidence [silent]: "sm_commands (set_evidence e s) = sm_commands s"
  and silent_abort [silent]: "sm_commands (register_abort_intent full s) = sm_commands s"
  and silent_latch [silent]: "sm_commands (latch_request f s) = sm_commands s"
  by (simp_all add: latch_request_def)

lemma silent_revoke_child [silent]: "sm_commands (revoke_child_authority role out s) = sm_commands s"
  by (simp add: revoke_child_authority_def Let_def)

lemma silent_child_done [silent]: "sm_commands (operator_child_done c role g s) = sm_commands s"
  by (simp add: operator_child_done_def Let_def silent split: option.splits)

lemma silent_observe [silent]: "sm_commands (observe_terminal_safety_children s) = sm_commands s"
  by (simp add: observe_terminal_safety_children_def Let_def silent split: option.splits)

lemma silent_commit_off [silent]: "sm_commands (snd (commit_output_off c a s)) = sm_commands s"
  by (simp add: commit_output_off_def Let_def)

lemma silent_commit_settlement [silent]: "sm_commands (commit_fault_settlement confirmed s) = sm_commands s"
  by (simp add: commit_fault_settlement_def Let_def)

lemma silent_settle [silent]: "sm_commands (settle_fault_answered a s) = sm_commands s"
  by (simp add: settle_fault_answered_def case_prod_beta Let_def silent)

lemma silent_revoke [silent]: "sm_commands (revoke_connection s) = sm_commands s"
  by (simp add: revoke_connection_def)

lemma silent_persistence [silent]: "sm_commands (persistence_failure_sync reason s) = sm_commands s"
  by (simp add: persistence_failure_sync_def)

lemma silent_checks_first [silent]: "sm_commands (snd (run_checks_first s)) = sm_commands s"
  by (simp add: run_checks_first_def Let_def silent split: option.splits safety_state.splits)

lemma silent_checks_second [silent]: "sm_commands (run_checks_second now wd s) = sm_commands s"
  by (simp add: run_checks_second_def silent split: option.splits prod.splits)

lemma silent_env [silent]: "sm_commands (env_apply ev s) = sm_commands s"
  by (cases ev)
     (simp_all add: env_apply_def silent driver_changes_def child_ends_def set_child_def
        abandon_reviewed_source_connect_def settlement_over_def complete_stopping_generation_if_settled_def
        collect_reading_def note_mature_dead_def note_blind_guard_def on_interlock_channel_recovered_def
        failed_poll_failure_sync_def on_failed_poll_persistence_recovered_def Let_def
      split: option.splits child_role.splits)

lemma silent_run [silent]: "sm_commands (env_run evs s) = sm_commands s"
  by (induction evs arbitrary: s) (simp_all add: env_run_def silent)

lemma silent_side [silent]: "sm_commands (snd (side w s)) = sm_commands s"
  by (simp add: side_def silent)

lemma hw_call_commands: "sm_commands (snd (snd (hw_call cmd h s))) = sm_commands s @ [cmd]"
  by (simp add: hw_call_def silent)

section \<open>OFF commands only\<close>

definition adds_offs :: "smu_channel option list \<Rightarrow> sm \<Rightarrow> sm \<Rightarrow> bool" where
  "adds_offs cs s t = (sm_commands t = sm_commands s @ map CmdOff cs)"

definition only_offs :: "sm \<Rightarrow> sm \<Rightarrow> bool" where
  "only_offs s t = (\<exists>cs. adds_offs cs s t)"

named_theorems offs "steps that send only OFF commands"

lemma silent_offs: "sm_commands t = sm_commands s \<Longrightarrow> only_offs s t"
  unfolding only_offs_def adds_offs_def by (rule exI [where x = "[]"]) simp

lemma offs_trans: "only_offs s t \<Longrightarrow> only_offs t u \<Longrightarrow> only_offs s u"
proof -
  assume "only_offs s t" "only_offs t u"
  then obtain cs ds where "adds_offs cs s t" "adds_offs ds t u" unfolding only_offs_def by blast
  hence "adds_offs (cs @ ds) s u" by (simp add: adds_offs_def)
  thus ?thesis unfolding only_offs_def by blast
qed

lemma offs_after_silent: "sm_commands t = sm_commands s \<Longrightarrow> only_offs t u \<Longrightarrow> only_offs s u"
  by (simp add: only_offs_def adds_offs_def)

lemma offs_before_silent: "only_offs s t \<Longrightarrow> sm_commands u = sm_commands t \<Longrightarrow> only_offs s u"
  by (simp add: only_offs_def adds_offs_def)

lemma offs_ensure [offs]: "only_offs s (snd (snd (ensure_output_off c h s)))"
proof (cases "sm_driver s")
  case None
  thus ?thesis by (simp add: ensure_output_off_def silent_offs)
next
  case (Some d)
  have "adds_offs [c] s (snd (snd (ensure_output_off c h s)))"
    by (simp add: ensure_with_driver [OF Some] Let_def adds_offs_def silent)
  thus ?thesis unfolding only_offs_def by blast
qed

lemma offs_settle_fault [offs]: "only_offs s (snd (settle_latched_fault fe s))"
proof -
  have o: "only_offs s (snd (snd (if sm_driver s = None then (True, False, s) else ensure_output_off None (fe_off fe) s)))"
    by (simp add: offs silent_offs)
  show ?thesis
    unfolding settle_latched_fault_def Let_def case_prod_beta snd_conv
    by (rule offs_before_silent [OF o]) (simp add: silent)
qed

lemma silent_fault_cut [silent]: "sm_commands (fault_cut r c v src s) = sm_commands s"
  by (simp add: fault_cut_def transition_cut_def Let_def)

lemma offs_fault [offs]: "only_offs s (snd (sm_fault f fe s))"
proof -
  have "only_offs s (snd (settle_latched_fault fe (snd (begin_fault_latch r c v src s))))" for r c v src
    by (rule offs_after_silent [OF _ offs_settle_fault]) simp
  moreover have "only_offs s (refreshed_evidence (fault_cut r c v src s))" for r c v src
    by (rule silent_offs) (simp add: refreshed_evidence_fields silent)
  ultimately show ?thesis by (simp add: sm_fault_def Let_def case_prod_beta silent_offs)
qed

lemma offs_proof [offs]: "only_offs s (global_off_proof h s)"
  unfolding global_off_proof_def Let_def
  by (rule offs_before_silent [OF offs_ensure]) (simp add: clear_if_def)

lemma offs_late [offs]: "only_offs s (snd (reconcile_late re s))"
proof -
  have "only_offs s (global_off_proof (rc_ordered re) (snd (side (rc_late_drain re) s)))"
    by (rule offs_after_silent [OF _ offs_proof]) (simp add: silent)
  thus ?thesis by (simp add: reconcile_late_def case_prod_beta Let_def silent_offs silent)
qed

lemma offs_reconcile_settle [offs]: "only_offs s (snd (reconcile_settle reason channel re s))"
proof -
  define s1 where "s1 = snd (begin_fault_latch reason (smu_opt_name channel) (Fin 0) ''hazardous_success_reconciliation'' s)"
  have "only_offs s1 (snd (settle_latched_fault (rc_fault re) s1))" by (rule offs_settle_fault)
  hence "only_offs s1 (snd (reconcile_settle reason channel re s))"
    by (rule offs_before_silent) (simp add: reconcile_settle_def s1_def Let_def case_prod_beta silent)
  thus ?thesis by (rule offs_after_silent [rotated]) (simp add: s1_def)
qed

lemma offs_reconcile [offs]: "only_offs s (snd (snd (reconcile_hazardous_success op re s)))"
proof -
  define s0 where "s0 = observe_terminal_safety_children s"
  have s0: "sm_commands s0 = sm_commands s" by (simp add: s0_def silent)
  have "only_offs s0 (snd (snd (reconcile_hazardous_success op re s)))"
  proof (cases "hazardous_success_conflict s0")
    case None
    thus ?thesis by (simp add: reconcile_None s0_def silent_offs)
  next
    case (Some cd)
    obtain c d where cd: "cd = (c, d)" by force
    define r where "r = op @ '' hazardous-success reconciliation failed: '' @ d"
    define s1 where "s1 = snd (reconcile_settle r c re s0)"
    define s2 where "s2 = observe_terminal_safety_children (global_off_proof (rc_proof re) s1)"
    define s3 where "s3 = snd (reconcile_late re s2)"
    have "only_offs s0 s1" unfolding s1_def by (rule offs_reconcile_settle)
    moreover have "only_offs s1 s2" unfolding s2_def by (rule offs_before_silent [OF offs_proof]) (simp add: silent)
    moreover have "only_offs s2 s3" unfolding s3_def by (rule offs_late)
    ultimately have "only_offs s0 s3" using offs_trans by blast
    moreover have "sm_commands (snd (snd (reconcile_hazardous_success op re s))) = sm_commands s3"
      using Some unfolding cd reconcile_hazardous_success_def s0_def [symmetric]
      by (simp add: Let_def case_prod_beta silent s3_def s2_def s1_def r_def)
    ultimately show ?thesis by (rule offs_before_silent)
  qed
  thus ?thesis using s0 by (rule offs_after_silent [rotated])
qed

lemma offs_emergency [offs]: "only_offs s (snd (emergency_off_locked channel oe s))"
proof -
  define r where "r = reconcile_hazardous_success ''emergency OFF'' (oe_reconcile_before oe) s"
  define s1 where "s1 = snd (snd r)"
  define e where "e = ensure_output_off channel (oe_off oe) s1"
  define s2 where "s2 = snd (snd e)"
  define f where "f = sm_fault (plain_fault ''emergency_off could not confirm output OFF'' (smu_opt_name channel)) (oe_fault oe) s2"
  define s3 where "s3 = sm_refresh (s2\<lparr> sm_active := sm_active s2 - resolve_channels channel \<rparr>)"
  define q where "q = reconcile_hazardous_success ''emergency OFF'' (oe_reconcile_after oe) s3"
  define s4 where "s4 = snd (snd q)"
  define s5 where "s5 = (if sm_state s4 \<noteq> FAULT_LATCHED \<and> sm_active s4 = {}
                   then sm_transition SAFE_OFF ''Operator emergency off'' [] (Fin 0) s4 else s4)"
  have i1: "only_offs s s1" unfolding s1_def r_def by (rule offs_reconcile)
  have i2: "only_offs s s2" unfolding s2_def e_def by (rule offs_trans [OF i1 offs_ensure])
  have if2: "only_offs s (snd f)" unfolding f_def by (rule offs_trans [OF i2 offs_fault])
  have "only_offs s s3" by (rule offs_before_silent [OF i2]) (simp add: s3_def)
  hence i4: "only_offs s s4" unfolding s4_def q_def by (rule offs_trans [OF _ offs_reconcile])
  have i6: "only_offs s (snd (side (oe_publish oe) s5))"
    by (rule offs_before_silent [OF i4]) (simp add: s5_def silent)
  have "snd (emergency_off_locked channel oe s) \<in> {s1, s2, snd f, s4, snd (side (oe_publish oe) s5)}"
    unfolding emergency_off_locked_def Let_def case_prod_beta
      r_def [symmetric] s1_def [symmetric] e_def [symmetric] s2_def [symmetric] f_def [symmetric]
      s3_def [symmetric] q_def [symmetric] s4_def [symmetric] s5_def [symmetric]
    by (auto split: outcome.splits prod.splits)
  thus ?thesis using i1 i2 if2 i4 i6 by auto
qed

text \<open>Whatever its outcome, an emergency OFF latched a fault or has sent the OFF command.\<close>

lemma emergency_decisive:
  assumes "sm_driver s \<noteq> None"
  shows "sm_state (snd (emergency_off_locked channel oe s)) = FAULT_LATCHED
    \<or> (\<exists>cs. adds_offs cs s (snd (emergency_off_locked channel oe s)) \<and> channel \<in> set cs)"
proof (cases "hazardous_success_conflict (observe_terminal_safety_children s) = None")
  case True
  define u where "u = observe_terminal_safety_children s"
  define t where "t = snd (snd (ensure_output_off channel (oe_off oe) u))"
  have rec: "reconcile_hazardous_success ''emergency OFF'' (oe_reconcile_before oe) s = (None, False, u)"
    using True by (simp add: reconcile_None u_def)
  have u: "sm_commands u = sm_commands s" by (simp add: u_def silent)
  have "sm_driver u \<noteq> None" using driver_kept [OF interferes_observe [of s]] assms by (simp add: u_def)
  then obtain d where d: "sm_driver u = Some d" by blast
  have t: "adds_offs [channel] s t"
    by (simp add: t_def ensure_with_driver [OF d] adds_offs_def silent Let_def u)
  define s3 where "s3 = sm_refresh (t\<lparr> sm_active := sm_active t - resolve_channels channel \<rparr>)"
  have "only_offs t (snd (emergency_off_locked channel oe s))"
  proof -
    have s3: "sm_commands s3 = sm_commands t" by (simp add: s3_def)
    have q: "only_offs t (snd (snd (reconcile_hazardous_success op re s3)))" for op re
      by (rule offs_after_silent [OF s3 offs_reconcile])
    have q': "only_offs t x" if "sm_commands x = sm_commands (snd (snd (reconcile_hazardous_success op re s3)))" for op re x
      by (rule offs_before_silent [OF q that])
    show ?thesis
      unfolding emergency_off_locked_def rec Let_def case_prod_beta fst_conv snd_conv t_def [symmetric] s3_def [symmetric]
      by (auto simp: silent silent_offs intro: q q' offs_before_silent [OF offs_fault] split: outcome.splits)
  qed
  then obtain cs where "adds_offs cs t (snd (emergency_off_locked channel oe s))" unfolding only_offs_def by blast
  hence "adds_offs (channel # cs) s (snd (emergency_off_locked channel oe s))" using t by (simp add: adds_offs_def)
  thus ?thesis by (meson list.set_intros(1))
next
  case False
  obtain r k t where rec: "reconcile_hazardous_success ''emergency OFF'' (oe_reconcile_before oe) s = (r, k, t)"
    by (metis prod_cases3)
  obtain r' where r: "r = Some r'"
    using False reconcile_Some [of s _ _ "''emergency OFF''" "oe_reconcile_before oe"] rec by fastforce
  have "sm_state t = FAULT_LATCHED" by (rule reconcile_conflict_latched [OF rec [unfolded r]])
  thus ?thesis using rec r by (simp add: emergency_off_locked_def)
qed

end
