(* ===== verification/SafetyOpsProps.thy ===== *)
theory SafetyOpsProps
  imports SafetyOps SafetyTrace SafetyRunProps SafetyCheckProps
begin

text \<open>
  What the live updates, the acknowledgement, the connection lifecycle and the dead-channel hook of the
  safety manager promise.
\<close>

section \<open>The power target\<close>

definition target_admitted :: "smu_channel \<Rightarrow> pyfloat \<Rightarrow> sm \<Rightarrow> bool" where
  "target_admitted ch p s =
     (energizing_mutation_refusal s = None \<and> safety_children_authoritative s \<and> sm_state s \<noteq> FAULT_LATCHED
      \<and> ch \<in> sm_active s
      \<and> fl_isfinite p \<and> fl_less (Fin 0) p \<and> \<not> fl_less (sc_max_power_w (sm_config s)) p
      \<and> (case runtime_of ch s of None \<Rightarrow> False | Some rt \<Rightarrow> rt_active rt))"

lemma value_accepted:
  "value_refusal name limit x = None \<longleftrightarrow> fl_isfinite x \<and> fl_less (Fin 0) x \<and> \<not> fl_less limit x"
  by (cases x) (auto simp: value_refusal_def fl_le_def fl_eq_def)

lemma authority_accepted:
  "authority_refusal ch s = None \<longleftrightarrow> energizing_mutation_refusal s = None \<and> safety_children_authoritative s
     \<and> sm_state s \<noteq> FAULT_LATCHED \<and> ch \<in> sm_active s"
  by (auto simp: authority_refusal_def split: option.splits)

lemma instrument_accepted:
  "instrument_refusal ch s = None \<longleftrightarrow> (case runtime_of ch s of None \<Rightarrow> False | Some rt \<Rightarrow> rt_active rt)"
  by (auto simp: instrument_refusal_def runtime_of_def split: option.splits)

lemma target_guard:
  "first_some (\<lambda>r. r) [authority_refusal ch s, value_refusal n (sc_max_power_w (sm_config s)) p, instrument_refusal ch s]
     = None \<longleftrightarrow> target_admitted ch p s"
  unfolding first_some_None
  by (auto simp: target_admitted_def value_accepted authority_accepted instrument_accepted)

definition update_ok :: "update_reply outcome \<Rightarrow> bool" where
  "update_ok out = (case out of Returned r \<Rightarrow> ur_ok r | _ \<Rightarrow> False)"

lemma update_ok_simps [simp]:
  "update_ok (Returned r) = ur_ok r" "\<not> update_ok CallerCancelled" "\<not> update_ok (RaisedExn e)"
  by (simp_all add: update_ok_def)

lemma fault_then_state: "snd (fault_then f fe out s) = snd (sm_fault f fe s)"
  by (auto simp: fault_then_def split: prod.splits outcome.splits)

lemma fault_then_latches: "sm_state (snd (fault_then f fe out s)) = FAULT_LATCHED"
  unfolding fault_then_state by (rule fault_latches)

lemma fault_then_offs: "only_offs s (snd (fault_then f fe out s))"
  unfolding fault_then_state by (rule offs_fault)

lemma fault_then_interferes: "interferes s (snd (fault_then f fe out s))"
  unfolding fault_then_state by (rule interferes_fault)

lemma fault_then_not_ok: "(\<And>t. \<not> update_ok (out t)) \<Longrightarrow> \<not> update_ok (fst (fault_then f fe out s))"
  by (auto simp: fault_then_def split: prod.splits outcome.splits)

text \<open>What a written target leaves: success without any interruption, or a latched fault, or OFF.\<close>

definition settled_update :: "nat \<Rightarrow> sm \<Rightarrow> update_reply outcome \<times> sm \<Rightarrow> bool" where
  "settled_update abort s r =
     (interferes s (snd r) \<and> only_offs s (snd r)
      \<and> (if update_ok (fst r) then \<not> update_overtaken abort (snd r) \<and> sm_commands (snd r) = sm_commands s
         else sm_state (snd r) = FAULT_LATCHED \<or> sm_driver s = None
              \<or> sm_commands (snd r) \<noteq> sm_commands s))"

lemma uncertain_settled: "settled_update abort s (target_uncertain ch rt c te s)"
proof (cases "sm_state s = FAULT_LATCHED")
  case False
  thus ?thesis
    by (simp add: settled_update_def target_uncertain_def fault_then_latches fault_then_offs fault_then_interferes
        fault_then_not_ok Let_def)
next
  case True
  have f: "sm_fault g (te_fault te) s = (Returned (), s\<lparr> sm_fault_sources := insert (fr_source g) (sm_fault_sources s) \<rparr>)" for g
    using True by (simp add: sm_fault_def begin_fault_latch_def Let_def)
  define s1 where "s1 = s\<lparr> sm_fault_sources := insert (fr_source (target_fault ''Power-target update outcome is uncertain on '' ch)) (sm_fault_sources s) \<rparr>"
  define off where "off = ensure_output_off None (te_latched_off te) s1"
  define s2 where "s2 = snd (snd off)"
  define s3 where "s3 = (if off_confirmed off then sm_refresh (s2\<lparr> sm_active := {} \<rparr>) else s2)"
  have "interferes s s1" by (rule interferes_same) (simp_all add: s1_def)
  moreover have "interferes s1 s2" unfolding s2_def off_def by (rule interferes_ensure)
  moreover have "interferes s2 s3" by (rule interferes_same) (simp_all add: s3_def)
  ultimately have i: "interferes s s3" using interferes_trans by blast
  have "only_offs s s2" unfolding s2_def off_def by (rule offs_after_silent [OF _ offs_ensure]) (simp add: s1_def)
  hence o: "only_offs s s3" by (rule offs_before_silent) (simp add: s3_def)
  have l: "sm_state s3 = FAULT_LATCHED" using latched_kept [OF i] True .
  have "snd (target_uncertain ch rt c te s) = s3 \<and> \<not> update_ok (fst (target_uncertain ch rt c te s))"
    using True unfolding target_uncertain_def f s1_def [symmetric] Let_def off_def [symmetric]
    by (simp add: s2_def s3_def s1_def [symmetric] f off_def [symmetric])
  thus ?thesis using i o l by (simp add: settled_update_def)
qed

lemma written_settled: "settled_update abort s (target_written ch p rt abort full te s)"
proof (cases "update_overtaken abort (observe_terminal_safety_children s)")
  case False
  thus ?thesis
    by (simp add: settled_update_def target_written_def Let_def calm silent silent_offs)
next
  case True
  define u where "u = observe_terminal_safety_children s"
  define ch' where "ch' = (if sm_full_abort_generation u \<noteq> full then None else Some ch)"
  define t where "t = snd (emergency_off_locked ch' (te_authority_off te) u)"
  have out: "snd (target_written ch p rt abort full te s) = t \<and> \<not> update_ok (fst (target_written ch p rt abort full te s))"
    using True by (simp add: target_written_def u_def [symmetric] ch'_def [symmetric] t_def Let_def case_prod_beta)
  have u: "sm_commands u = sm_commands s" by (simp add: u_def silent)
  have "interferes s t" unfolding t_def u_def by (rule interferes_trans [OF interferes_observe interferes_emergency])
  moreover have "only_offs s t" unfolding t_def by (rule offs_after_silent [OF u offs_emergency])
  moreover have "sm_driver s = None \<or> sm_state t = FAULT_LATCHED
      \<or> sm_commands t \<noteq> sm_commands s"
  proof (cases "sm_driver s = None")
    case False
    hence "sm_driver u \<noteq> None" using driver_kept [OF interferes_observe [of s]] by (simp add: u_def)
    from emergency_decisive [OF this, of ch' "te_authority_off te"] show ?thesis
      unfolding t_def [symmetric] by (auto simp: adds_offs_def u)
  qed simp
  ultimately show ?thesis using out by (auto simp: settled_update_def)
qed

lemma update_target_admitted:
  assumes "normalize_smu_channel channel = Inr ch" "target_admitted ch p u" and u: "u = env_run (te_lock_wait te) s"
  shows "settled_update (sm_abort_generation u)
    (snd (snd (hw_call (CmdUpdateTarget ch p) (te_write te) u))) (update_target p channel te s)"
proof -
  let ?t = "snd (snd (hw_call (CmdUpdateTarget ch p) (te_write te) u))"
  have "settled_update A ?t (fault_then f fe (\<lambda>_. CallerCancelled) ?t)" for A f fe
    by (simp add: settled_update_def fault_then_latches fault_then_offs fault_then_interferes fault_then_not_ok)
  thus ?thesis
    using assms target_guard [of ch u "''p_target''" p] uncertain_settled written_settled
    by (auto simp: update_target_def Let_def hw_call_def split: sum.splits)
qed

text \<open>
  A live update of the power target is all or nothing. If the target is not a finite positive
  number within the configured power, or the channel is not an active source under full authority,
  the update is refused without touching anything. Otherwise exactly one write is sent, for that
  channel and that value, and afterwards nothing but OFF commands; a success means that no abort, no
  fault and no loss of a child overtook it, and anything else (a failed write, a cancelled caller, lost
  authority) ends in a latched fault or with OFF commanded.
\<close>

theorem update_target_sound:
  assumes "normalize_smu_channel channel = Inr ch"
    and run: "update_target p channel te s = (out, t)"
    and u: "u = env_run (te_lock_wait te) s"
  shows "if target_admitted ch p u
         then (\<exists>cs. sm_commands t = sm_commands s @ CmdUpdateTarget ch p # map CmdOff cs
                \<and> (if update_ok out
                   then cs = [] \<and> sm_abort_generation t = sm_abort_generation u \<and> sm_state t \<noteq> FAULT_LATCHED
                        \<and> safety_children_authoritative t
                   else sm_state t = FAULT_LATCHED \<or> cs \<noteq> []))
              \<and> sm_active t \<subseteq> sm_active s
         else \<not> update_ok out \<and> t = u"
proof (cases "target_admitted ch p u")
  case False
  then obtain err where "first_some (\<lambda>r. r) [authority_refusal ch u,
      value_refusal ''p_target'' (sc_max_power_w (sm_config u)) p, instrument_refusal ch u] = Some err"
    using target_guard [of ch u "''p_target''" p] by blast
  thus ?thesis using assms False by (auto simp: update_target_def Let_def update_refused_def)
next
  case True
  let ?w = "snd (snd (hw_call (CmdUpdateTarget ch p) (te_write te) u))"
  have se: "settled_update (sm_abort_generation u) ?w (out, t)"
    using update_target_admitted [OF assms(1) True u] run by simp
  have cw: "sm_commands ?w = sm_commands s @ [CmdUpdateTarget ch p]"
    by (simp add: hw_call_commands u silent)
  obtain cs where cs: "sm_commands t = sm_commands ?w @ map CmdOff cs"
    using se by (auto simp: settled_update_def only_offs_def adds_offs_def)
  have iu: "interferes u ?w" by (rule interferes_hw_call) (simp add: is_start_def)
  have "sm_driver u \<noteq> None" using True by (cases "sm_driver u") (simp_all add: target_admitted_def runtime_of_def)
  hence dw: "sm_driver ?w \<noteq> None" using driver_kept [OF iu] by simp
  have "interferes s t"
    using interferes_trans [OF interferes_trans [OF env_run_interferes [of s "te_lock_wait te"]], of ?w t] iu se u
    by (simp add: settled_update_def)
  hence "sm_active t \<subseteq> sm_active s" by (rule active_shrinks)
  thus ?thesis using True se cs cw dw by (auto simp: settled_update_def update_overtaken_def split: if_splits)
qed

section \<open>Compliance limits\<close>

definition limits_admitted :: "smu_channel \<Rightarrow> pyfloat option \<Rightarrow> pyfloat option \<Rightarrow> sm \<Rightarrow> bool" where
  "limits_admitted ch v i s =
     (energizing_mutation_refusal s = None \<and> safety_children_authoritative s \<and> sm_state s \<noteq> FAULT_LATCHED
      \<and> ch \<in> sm_active s
      \<and> (case runtime_of ch s of None \<Rightarrow> False | Some rt \<Rightarrow> rt_active rt)
      \<and> (\<forall>x. v = Some x \<longrightarrow> fl_isfinite x \<and> fl_less (Fin 0) x \<and> \<not> fl_less (sc_max_voltage_v (sm_config s)) x)
      \<and> (\<forall>x. i = Some x \<longrightarrow> fl_isfinite x \<and> fl_less (Fin 0) x \<and> \<not> fl_less (sc_max_current_a (sm_config s)) x))"

lemma optional_accepted: "optional_refusal n l x = None \<longleftrightarrow> (\<forall>y. x = Some y \<longrightarrow> value_refusal n l y = None)"
  by (simp add: optional_refusal_def split: option.splits)

lemma limits_guard:
  "first_some (\<lambda>r. r) [authority_refusal ch s, instrument_refusal ch s,
      optional_refusal nv (sc_max_voltage_v (sm_config s)) v, optional_refusal ni (sc_max_current_a (sm_config s)) i]
     = None \<longleftrightarrow> limits_admitted ch v i s"
  unfolding first_some_None
  by (auto simp: limits_admitted_def value_accepted authority_accepted instrument_accepted optional_accepted)

lemma map_runtime_fields [simp]:
  "sm_commands (map_runtime ch f s) = sm_commands s" "sm_state (map_runtime ch f s) = sm_state s"
  "sm_abort_generation (map_runtime ch f s) = sm_abort_generation s" "sm_active (map_runtime ch f s) = sm_active s"
  by (simp_all add: map_runtime_def split: option.splits)

lemma map_runtime_authority [simp]:
  "safety_children_authoritative (map_runtime ch f s) = safety_children_authoritative s"
  by (rule authoritative_cong) (simp_all add: map_runtime_def split: option.splits)

text \<open>One limit: at most its own command, then OFFs; it goes on exactly when nothing overtook it.\<close>

lemma write_limit_effect:
  assumes "\<not> update_overtaken abort s" "write_limit l ch abort applied x le s = (out, t)"
  shows "\<exists>ws cs. sm_commands t = sm_commands s @ ws @ map CmdOff cs \<and> set ws \<subseteq> {limit_command l ch x}
    \<and> (if out = None then cs = [] \<and> \<not> update_overtaken abort t
       else \<not> update_ok (the out) \<and> update_overtaken abort t)"
proof (cases "driver_mock s")
  case True
  hence "out = None" "t = map_runtime ch (set_limit l x) s" using assms by (auto simp: write_limit_def)
  moreover have "\<not> update_overtaken abort (map_runtime ch (set_limit l x) s)"
    using assms by (simp add: update_overtaken_def)
  ultimately show ?thesis by (intro exI [where x = "[]"]) simp
next
  case False
  define s1 where "s1 = snd (snd (hw_call (limit_command l ch x) (le_write le) s))"
  have c1: "sm_commands s1 = sm_commands s @ [limit_command l ch x]" by (simp add: s1_def hw_call_commands)
  define s2 where "s2 = map_runtime ch (set_limit l x) s1"
  have fault: ?thesis if y: "sm_commands y = sm_commands s1" and o': "\<And>z. \<not> update_ok (o' z)"
      and ft: "(out, t) = (Some (fst (fault_then g (le_fault le) o' y)), snd (fault_then g (le_fault le) o' y))" for g o' y
  proof -
    obtain cs where "sm_commands t = sm_commands s1 @ map CmdOff cs"
      using fault_then_offs [of y g "le_fault le" o'] y ft by (auto simp: only_offs_def adds_offs_def)
    moreover have "\<not> update_ok (the out)" "sm_state t = FAULT_LATCHED"
      using ft o' fault_then_not_ok [of o' g "le_fault le" y] fault_then_latches [of g "le_fault le" o' y] by auto
    ultimately show ?thesis
      using ft by (intro exI [where x = "[limit_command l ch x]"] exI [where x = cs])
        (simp add: c1 update_overtaken_def)
  qed
  have plain: ?thesis if "t = observe_terminal_safety_children s2"
      "if out = None then \<not> update_overtaken abort t else \<not> update_ok (the out) \<and> update_overtaken abort t"
    using that by (intro exI [where x = "[limit_command l ch x]"] exI [where x = "[]"])
      (auto simp: c1 s2_def silent split: if_splits)
  show ?thesis
  proof (cases "aw_result (le_write le)")
    case (Inl e)
    let ?g = "limit_fault ''-limit write outcome is uncertain on '' l ch"
    let ?o = "\<lambda>_. if aw_cancelled (le_write le) then CallerCancelled
        else Returned \<lparr> ur_ok = False, ur_error = limit_field l @ ''-limit write outcome is uncertain on '' @ smu_name ch,
               ur_values = applied, ur_uncertain = [limit_field l] \<rparr>"
    have "(out, t) = (Some (fst (fault_then ?g (le_fault le) ?o s1)), snd (fault_then ?g (le_fault le) ?o s1))"
      using assms(2) False Inl by (auto simp: write_limit_def hw_call_def s1_def Let_def)
    thus ?thesis by (intro fault [where y = s1 and g = ?g and o' = ?o]) simp_all
  next
    case (Inr r)
    show ?thesis
    proof (cases "aw_cancelled (le_write le)")
      case True
      let ?g = "limit_fault ''-limit write completed after caller cancellation on '' l ch"
      have "(out, t) = (Some (fst (fault_then ?g (le_fault le) (\<lambda>_. CallerCancelled) s2)),
          snd (fault_then ?g (le_fault le) (\<lambda>_. CallerCancelled :: update_reply outcome) s2))"
        using assms(2) False Inr True by (auto simp: write_limit_def hw_call_def s1_def s2_def Let_def)
      thus ?thesis by (intro fault [where y = s2 and g = ?g and o' = "\<lambda>_. CallerCancelled"]) (simp_all add: s2_def)
    next
      case go: False
      show ?thesis
        by (rule plain)
           (use assms(2) False Inr go in \<open>auto simp: write_limit_def hw_call_def s1_def s2_def Let_def split: if_splits\<close>)
    qed
  qed
qed

lemma write_optional_effect:
  assumes "\<not> update_overtaken abort s" "write_optional l ch abort applied x le s = (out, t)"
  shows "\<exists>ws cs. sm_commands t = sm_commands s @ ws @ map CmdOff cs \<and> set ws \<subseteq> limit_command l ch ` set_option x
    \<and> (if out = None then cs = [] \<and> \<not> update_overtaken abort t
       else \<not> update_ok (the out) \<and> update_overtaken abort t)"
proof (cases x)
  case None
  thus ?thesis using assms by (intro exI [where x = "[]"]) (auto simp: write_optional_def)
next
  case (Some y)
  thus ?thesis using assms(2) write_limit_effect [OF assms(1), of l ch applied y le out t]
    by (simp add: write_optional_def)
qed

text \<open>
  A live update of the compliance limits validates both values before it writes either. A refused
  update touches nothing. An admitted one sends only the voltage and current commands it was asked
  for, and then nothing but OFF commands; it succeeds exactly when no abort, no fault and no loss of a
  child has overtaken it at its end.
\<close>

theorem update_limits_sound:
  assumes "normalize_smu_channel channel = Inr ch"
    and run: "update_limits channel v i me s = (out, t)"
    and u: "u = env_run (me_lock_wait me) s"
  shows "if limits_admitted ch v i u
         then \<exists>ws cs. sm_commands t = sm_commands s @ ws @ map CmdOff cs
                \<and> set ws \<subseteq> CmdUpdateVoltage ch ` set_option v \<union> CmdUpdateCurrent ch ` set_option i
                \<and> (update_ok out \<longleftrightarrow> \<not> update_overtaken (sm_abort_generation u) t)
                \<and> (update_ok out \<longrightarrow> cs = [])
         else \<not> update_ok out \<and> t = u"
proof (cases "limits_admitted ch v i u")
  case False
  then obtain err where "first_some (\<lambda>r. r) [authority_refusal ch u, instrument_refusal ch u,
      optional_refusal ''v_comp'' (sc_max_voltage_v (sm_config u)) v,
      optional_refusal ''i_comp'' (sc_max_current_a (sm_config u)) i] = Some err"
    using limits_guard [of ch u "''v_comp''" v "''i_comp''" i] by blast
  thus ?thesis using assms False by (auto simp: update_limits_def Let_def update_refused_def)
next
  case True
  let ?A = "sm_abort_generation u"
  have n: "\<not> update_overtaken ?A u" using True by (simp add: limits_admitted_def update_overtaken_def)
  have imgs: "limit_command LimitV ch ` set_option v = CmdUpdateVoltage ch ` set_option v"
    "limit_command LimitI ch ` set_option i = CmdUpdateCurrent ch ` set_option i" by auto
  obtain o1 s1 where w1: "write_optional LimitV ch ?A [] v (me_v me) u = (o1, s1)" by force
  obtain o2 s2 where w2: "write_optional LimitI ch ?A (case v of None \<Rightarrow> [] | Some x \<Rightarrow> [(''v_comp'', x)]) i (me_i me) s1
      = (o2, s2)" by force
  have run': "update_limits channel v i me s = (case o1 of Some o' \<Rightarrow> (o', s1)
      | None \<Rightarrow> (case o2 of Some o' \<Rightarrow> (o', s2) | None \<Rightarrow> limits_applied ch (the (runtime_of ch u)) s2))"
    using assms(1) u True w1 w2 limits_guard [of ch u "''v_comp''" v "''i_comp''" i]
    by (simp add: update_limits_def Let_def split: option.splits)
  obtain ws1 cs1 where e1: "sm_commands s1 = sm_commands u @ ws1 @ map CmdOff cs1"
      "set ws1 \<subseteq> CmdUpdateVoltage ch ` set_option v"
      "if o1 = None then cs1 = [] \<and> \<not> update_overtaken ?A s1 else \<not> update_ok (the o1) \<and> update_overtaken ?A s1"
    using write_optional_effect [OF n w1] imgs by auto
  have cu: "sm_commands u = sm_commands s" by (simp add: u silent)
  show ?thesis
  proof (cases o1)
    case (Some o')
    thus ?thesis using True run run' e1 cu
      by (simp, intro exI [where x = ws1] exI [where x = cs1]) auto
  next
    case None
    hence n1: "\<not> update_overtaken ?A s1" using e1 by simp
    obtain ws2 cs2 where e2: "sm_commands s2 = sm_commands s1 @ ws2 @ map CmdOff cs2"
        "set ws2 \<subseteq> CmdUpdateCurrent ch ` set_option i"
        "if o2 = None then cs2 = [] \<and> \<not> update_overtaken ?A s2 else \<not> update_ok (the o2) \<and> update_overtaken ?A s2"
      using write_optional_effect [OF n1 w2] imgs by auto
    have "t = s2 \<and> (if o2 = None then update_ok out else out = the o2)"
      using run run' None by (auto simp: limits_applied_def Let_def split: option.splits)
    thus ?thesis using True None e1 e2 cu
      by (simp, intro exI [where x = "ws1 @ ws2"] exI [where x = cs2]) (auto split: if_splits)
  qed
qed

section \<open>Acknowledgement\<close>

definition ack_admitted :: "string \<Rightarrow> ack_env \<Rightarrow> sm \<Rightarrow> bool" where
  "ack_admitted reason ae s =
     (sm_state s = FAULT_LATCHED
      \<and> (sc_require_reason (sm_config s) \<longrightarrow> py_strip reason \<noteq> [])
      \<and> \<not> fl_less (Fin (sm_clock s - sm_fault_time s)) (sc_cooldown_before_rearm_s (sm_config s))
      \<and> (sm_driver s = None \<or> ae_watchdog ae \<in> {AckAbsent, AckAnswer True}))"

lemma ack_refusal_None:
  "ack_refusal reason s = None \<longleftrightarrow> sm_state s = FAULT_LATCHED
     \<and> (sc_require_reason (sm_config s) \<longrightarrow> py_strip reason \<noteq> [])
     \<and> \<not> fl_less (Fin (sm_clock s - sm_fault_time s)) (sc_cooldown_before_rearm_s (sm_config s))"
  by (auto simp: ack_refusal_def)

lemma commit_acknowledge_ok:
  assumes "commit_acknowledge reason ae s = (out, t)"
  shows "quiet s t \<and> sm_commands t = sm_commands s \<and> (\<forall>r. out = Returned r \<longrightarrow> ry_ok r)"
proof -
  define s1 where "s1 = sm_transition MANUAL_RECOVERY (''Fault acknowledged: '' @ reason) [] (Fin 0)
      (s\<lparr> sm_persistence_fault := False \<rparr>)"
  have "quiet s s1" by (rule quiet_same) (simp_all add: s1_def)
  moreover have "quiet s1 t" using assms interferes_quiet [OF interferes_side [of s1 "ae_publish ae"]]
    by (auto simp: commit_acknowledge_def s1_def case_prod_beta Let_def)
  moreover have "sm_commands t = sm_commands s"
    using assms by (auto simp: commit_acknowledge_def case_prod_beta Let_def silent)
  moreover have "\<forall>r. out = Returned r \<longrightarrow> ry_ok r"
    using assms by (auto simp: commit_acknowledge_def mk_reply_def case_prod_beta Let_def split: if_splits)
  ultimately show ?thesis using quiet_trans by blast
qed


section \<open>Connections\<close>

lemma hw_answer: "fst (hw_call cmd h s) = aw_result h" "fst (snd (hw_call cmd h s)) = aw_cancelled h"
  by (simp_all add: hw_call_def)

lemma revoke_connection_fields [simp]:
  "sm_active (revoke_connection s) = sm_active s" "sm_state (revoke_connection s) = sm_state s"
  "sm_next_generation (revoke_connection s) = sm_next_generation s"
  "sm_source_generation (revoke_connection s) = None" "\<not> sm_connected (revoke_connection s)"
  "sm_abort_generation (revoke_connection s) = sm_abort_generation s"
  "sm_driver (revoke_connection s) = sm_driver s" "sm_mock (revoke_connection s) = sm_mock s"
  by (simp_all add: revoke_connection_def)

lemma refresh_unverified: "\<not> verified_off (sm_evidence s) \<Longrightarrow> \<not> verified_off (sm_evidence (sm_refresh s))"
  by (simp add: sm_refresh_def refreshed_evidence_def revoked_evidence_def expire_stale_off_evidence_def
      set_evidence_def unknown_global_off_evidence_def Let_def split: option.splits)

lemma revoked_unknown: "\<not> verified_off (sm_evidence (revoke_connection s))"
  unfolding revoke_connection_def
  by (rule refresh_unverified) (simp add: set_evidence_def unknown_global_off_evidence_def)

text \<open>
  A new connection revokes before it grants. When a connect attempt of the reviewed source is
  admitted, every command in flight is cut and the OFF evidence is unverified. It is given a current
  generation only while no source is active; while one is active the manager ends fault-latched, and
  the token it hands out was never recorded.
\<close>

theorem connect_revokes_before_grant:
  assumes "begin_reviewed_source_connect cm context ce s = (Returned g, t)"
    and u: "u = env_run (ce_lock_wait ce) (register_abort_intent True s)"
  shows "sm_abort_generation s < sm_abort_generation t \<and> sm_active t \<subseteq> sm_active s
    \<and> (if sm_active u = {}
       then sm_source_generation t = Some g \<and> g = sm_next_generation u \<and> safety_children_authoritative t
            \<and> \<not> sm_connected t \<and> \<not> verified_off (sm_evidence t) \<and> sm_commands t = sm_commands s
       else sm_state t = FAULT_LATCHED)"
proof -
  define s1 where "s1 = revoke_connection u"
  define f where "f = plain_fault (''reviewed source connection changed while active '' @ context) []"
  have "interferes (register_abort_intent True s) u" unfolding u by (rule env_run_interferes)
  moreover have "interferes u s1" unfolding s1_def by (rule interferes_revoke_connection)
  ultimately have i1: "interferes (register_abort_intent True s) s1" by (rule interferes_trans)
  have auth: "safety_children_authoritative s1"
    and tail: "if sm_active u \<noteq> {} then (\<exists>s2. sm_fault f (ce_fault ce) s1 = (Returned (), s2)
        \<and> t = s2\<lparr> sm_next_generation := sm_next_generation s2 + 1 \<rparr>)
      else g = sm_next_generation s1
        \<and> t = s1\<lparr> sm_next_generation := sm_next_generation s1 + 1, sm_source_generation := Some g \<rparr>"
    using assms(1)
    unfolding begin_reviewed_source_connect_def u [symmetric] Let_def s1_def [symmetric] f_def [symmetric]
      fresh_generation_def
    by (auto split: sum.splits if_splits prod.splits outcome.splits)
  obtain x where x: "interferes s1 x" "sm_abort_generation t = sm_abort_generation x" "sm_active t = sm_active x"
      "sm_active u \<noteq> {} \<longrightarrow> sm_state t = FAULT_LATCHED"
  proof (cases "sm_active u = {}")
    case True
    thus ?thesis using tail interferes_refl by (intro that [of s1]) auto
  next
    case False
    then obtain s2 where "sm_fault f (ce_fault ce) s1 = (Returned (), s2)"
        "t = s2\<lparr> sm_next_generation := sm_next_generation s2 + 1 \<rparr>" using tail by auto
    thus ?thesis using interferes_fault [of s1 f "ce_fault ce"] fault_latches [of f "ce_fault ce" s1]
      by (intro that [of s2]) auto
  qed
  have i: "interferes (register_abort_intent True s) x" by (rule interferes_trans [OF i1 x(1)])
  have "sm_abort_generation s < sm_abort_generation t" using i x(2) by (simp add: interferes_def)
  moreover have "sm_active t \<subseteq> sm_active s" using active_shrinks [OF i] x(3) by simp
  moreover have "sm_active u = {} \<Longrightarrow> sm_commands t = sm_commands s \<and> \<not> verified_off (sm_evidence t)
      \<and> safety_children_authoritative t"
    using tail auth revoked_unknown [of u] authoritative_cong [of t s1]
    by (simp add: s1_def silent) (simp add: u silent)
  ultimately show ?thesis using tail x(4) by (auto simp: s1_def)
qed

text \<open>
  A stale connection token is powerless. Completing a connection with a token that is not the
  current generation, or without live children, reports unverified OFF evidence and changes nothing;
  marking it uncertain changes nothing either.
\<close>

theorem stale_token_powerless:
  assumes "require_reviewed_source_identity cm s = Inr ()"
  shows "(g \<noteq> sm_source_generation s \<or> \<not> safety_children_authoritative s \<longrightarrow>
           complete_reviewed_source_connect cm g [] s = (Returned (unknown_global_off_evidence s), s)
           \<and> \<not> verified_off (unknown_global_off_evidence s))
    \<and> (g \<noteq> sm_source_generation s \<longrightarrow> mark_reviewed_source_uncertain cm g context ce s = (Returned (), s))"
  using assms
  by (auto simp: complete_reviewed_source_connect_def mark_reviewed_source_uncertain_def unknown_global_off_evidence_def)

text \<open>
  A completed disconnect of the reviewed source is backed by the device. It reports success only
  after the device answered a global OFF with DEVICE_REPORTED_OFF under the verified tier, and then a
  disconnect command ended without error; no source is tracked afterwards. A failure that is not the
  caller's cancellation leaves a latched fault. In every case the commands sent are that OFF, then at
  most the disconnect, then OFFs.
\<close>

theorem disconnect_sound:
  assumes run: "disconnect_reviewed_source cm context de s = (out, t)"
    and idn: "require_reviewed_source_identity cm s = Inr ()"
    and u: "u = env_run (de_lock_wait de) (register_abort_intent True s)"
    and idu: "require_reviewed_source_identity cm u = Inr ()"
  shows "(\<exists>ds cs. sm_commands t = sm_commands s @ CmdOff None # ds @ map CmdOff cs \<and> set ds \<subseteq> {CmdDisconnect}
            \<and> (out = Returned True \<longrightarrow> ds = [CmdDisconnect] \<and> cs = []))
    \<and> sm_active t \<subseteq> sm_active s
    \<and> (out = Returned True \<longrightarrow> aw_result (de_off de) = Inr (DvOff DEVICE_REPORTED_OFF)
         \<and> reviewed_source_off_tier s = VERIFIED_OFF \<and> (\<exists>x. aw_result (de_disconnect de) = Inr x) \<and> sm_active t = {})
    \<and> (out = Returned False \<longrightarrow> sm_state t = FAULT_LATCHED)"
proof -
  define s1 where "s1 = snd (snd (hw_call (CmdOff None) (de_off de) (revoke_connection u)))"
  define v where "v = (case aw_result (de_off de) of Inl _ \<Rightarrow> DvFalse | Inr v \<Rightarrow> v)"
  define e where "e = global_off_evidence_for_result s1 v"
  define s2 where "s2 = set_evidence e s1"
  define s3 where "s3 = snd (snd (hw_call CmdDisconnect (de_disconnect de) s2))"
  have "interferes (register_abort_intent True s) u" unfolding u by (rule env_run_interferes)
  hence "interferes s u" by (rule interferes_trans [OF interferes_abort])
  hence iu: "interferes s (revoke_connection u)" by (rule interferes_trans [OF _ interferes_revoke_connection])
  have "interferes (revoke_connection u) s1" unfolding s1_def by (rule interferes_hw_call) (simp add: is_start_def)
  hence i1: "interferes s s1" using iu interferes_trans by blast
  hence i2: "interferes s s2" unfolding s2_def by (rule interferes_trans [OF _ interferes_evidence])
  have "interferes s2 s3" unfolding s3_def by (rule interferes_hw_call) (simp add: is_start_def)
  hence i3: "interferes s s3" using i2 interferes_trans by blast
  have c1: "sm_commands s2 = sm_commands s @ [CmdOff None]"
    by (simp add: s2_def s1_def hw_call_commands silent u)
  have c3: "sm_commands s3 = sm_commands s @ [CmdOff None, CmdDisconnect]"
    by (simp add: s3_def hw_call_commands c1)
  have fails: ?thesis
    if x: "interferes s x" "sm_commands x = sm_commands s @ CmdOff None # ds" "set ds \<subseteq> {CmdDisconnect}"
      and r: "disconnect_fails reason c de x = (out, t)" for x ds reason c
  proof -
    have t: "t = snd (sm_fault (plain_fault reason []) (de_fault de) x)" and o: "out \<noteq> Returned True"
      using r by (auto simp: disconnect_fails_def fault_then_def split: prod.splits outcome.splits if_splits)
    obtain cs where "sm_commands t = sm_commands x @ map CmdOff cs"
      using offs_fault [of x] unfolding t only_offs_def adds_offs_def by blast
    moreover have "sm_active t \<subseteq> sm_active s"
      unfolding t by (rule active_shrinks [OF interferes_trans [OF x(1) interferes_fault]])
    moreover have "sm_state t = FAULT_LATCHED" unfolding t by (rule fault_latches)
    ultimately show ?thesis using x o by auto
  qed
  have dev: "verified_off e \<Longrightarrow> \<forall>x. aw_result (de_off de) \<noteq> Inl x \<Longrightarrow>
      aw_result (de_off de) = Inr (DvOff DEVICE_REPORTED_OFF) \<and> reviewed_source_off_tier s = VERIFIED_OFF"
    using tier_kept [OF i1]
    by (auto simp: e_def v_def global_off_evidence_for_result_def split: sum.splits drv_value.splits)
  have run': "(if (\<exists>x. aw_result (de_off de) = Inl x) \<or> \<not> verified_off e
      then disconnect_fails (''reviewed source disconnect lacked verified OFF '' @ context) (aw_cancelled (de_off de)) de (sm_refresh s2)
      else if (\<exists>x. aw_result (de_disconnect de) = Inl x) \<or> (case sm_driver s3 of None \<Rightarrow> True | Some d \<Rightarrow> dv_connected d)
      then disconnect_fails (''reviewed source disconnect failed after OFF proof '' @ context)
             (aw_cancelled (de_off de) \<or> aw_cancelled (de_disconnect de)) de s3
      else (finish (aw_cancelled (de_off de) \<or> aw_cancelled (de_disconnect de) \<or> sw_cancelled (de_publish de)) True,
            snd (side (de_publish de) (disconnected_for_good context s3)))) = (out, t)"
    using run
    unfolding disconnect_reviewed_source_def idn sum.case u [symmetric] idu Let_def case_prod_beta hw_answer
      s1_def [symmetric] v_def [symmetric] e_def [symmetric] s2_def [symmetric] s3_def [symmetric]
    by (simp add: side_def split del: if_split cong: if_cong)
  show ?thesis
  proof (cases "(\<exists>x. aw_result (de_off de) = Inl x) \<or> \<not> verified_off e")
    case True
    show ?thesis
      by (rule fails [of "sm_refresh s2" "[]"])
         (use run' True i2 c1 in \<open>auto intro: interferes_trans [OF i2 interferes_refresh]\<close>)
  next
    case ok: False
    show ?thesis
    proof (cases "(\<exists>x. aw_result (de_disconnect de) = Inl x) \<or> (case sm_driver s3 of None \<Rightarrow> True | Some d \<Rightarrow> dv_connected d)")
      case True
      show ?thesis
        by (rule fails [of s3 "[CmdDisconnect]"]) (use run' ok True i3 c3 in auto)
    next
      case False
      define s4 where "s4 = disconnected_for_good context s3"
      have t: "t = snd (side (de_publish de) s4)" and o: "out \<noteq> Returned False"
        using run' ok False by (auto simp: s4_def finish_def split: if_splits)
      have s4: "sm_active s4 = {}" "sm_commands s4 = sm_commands s3"
        by (simp_all add: s4_def disconnected_for_good_def Let_def)
      have "sm_active t = {}" using active_shrinks [OF interferes_side [of s4 "de_publish de"]] s4 t by simp
      moreover have "sm_commands t = sm_commands s @ [CmdOff None, CmdDisconnect]" by (simp add: t silent s4 c3)
      moreover have "\<exists>x. aw_result (de_disconnect de) = Inr x"
        using False by (cases "aw_result (de_disconnect de)") auto
      moreover have "aw_result (de_off de) = Inr (DvOff DEVICE_REPORTED_OFF) \<and> reviewed_source_off_tier s = VERIFIED_OFF"
        using dev ok by blast
      ultimately show ?thesis using o
        by (intro conjI exI [where x = "[CmdDisconnect]"] exI [where x = "[]"]) simp_all
    qed
  qed
qed

section \<open>Dead channels\<close>

lemma mature_dead_fields [simp]:
  "sm_state (note_mature_dead i ch s) = sm_state s" "sm_commands (note_mature_dead i ch s) = sm_commands s"
  "sm_active (note_mature_dead i ch s) = sm_active s"
  "dict_get (sm_mature_dead (note_mature_dead i ch s)) ch = Some i"
  by (simp_all add: note_mature_dead_def Let_def)

lemma blind_guard_fields [simp]:
  "sm_state (note_blind_guard i ch rs v r s) = sm_state s" "sm_commands (note_blind_guard i ch rs v r s) = sm_commands s"
  by (simp_all add: note_blind_guard_def Let_def)

text \<open>
  A dead protected sensor without a confirmed instrument fault latches exactly when the source
  lifecycle is active: in RUN_PERMITTED and RUNNING the manager ends latched, and elsewhere the
  channel is retained as a blocker of RUN, no command is sent and the escalation is left to be
  retried. A sensor whose instrument reports the fault never latches: it is answered as an advisory,
  which counts as recorded only when its row is durable, and sends no command.
\<close>

theorem dead_channel_exact:
  assumes "on_interlock_dead_channel interlock channel v rd bl fe s = (out, t)"
    and reasons: "reasons = (case rd of None \<Rightarrow> [] | Some r \<Rightarrow> instrument_status_fault_reasons r)"
  shows "if reasons = []
         then (if sm_state s \<in> {FAULT_LATCHED, RUN_PERMITTED, RUNNING}
               then sm_state t = FAULT_LATCHED \<and> out \<noteq> Returned (DeadLatched False)
               else out = Returned (DeadLatched False) \<and> sm_state t = sm_state s
                    \<and> dict_get (sm_mature_dead t) channel = Some interlock \<and> sm_commands t = sm_commands s)
         else sm_commands t = sm_commands s \<and> (\<forall>b. out \<noteq> Returned (DeadLatched b))
              \<and> (out = Returned AdvisoryRecorded \<longrightarrow> blind_recorded interlock channel reasons s
                   \<or> bl_wired bl \<and> \<not> bl_failed bl \<and> \<not> sw_cancelled (bl_wait bl))
              \<and> (\<not> bl_wired bl \<longrightarrow> sm_state t = sm_state s)"
proof (cases "reasons = []")
  case True
  define f where "f = plain_fault (''Interlock channel dead: '' @ channel) channel\<lparr> fr_value := v \<rparr>"
  have run: "(if sm_state s = FAULT_LATCHED then (Returned (DeadLatched True), note_mature_dead interlock channel s)
      else if sm_state s \<notin> {RUN_PERMITTED, RUNNING} then (Returned (DeadLatched False), note_mature_dead interlock channel s)
      else fault_then f fe (\<lambda>_. Returned (DeadLatched True)) (note_mature_dead interlock channel s)) = (out, t)"
    using assms(1) True unfolding on_interlock_dead_channel_def reasons [symmetric] f_def [symmetric]
    by (simp add: Let_def split del: if_split cong: if_cong)
  have o: "fst (fault_then f fe (\<lambda>_. Returned (DeadLatched True)) x) \<noteq> Returned (DeadLatched False)" for x
    by (auto simp: fault_then_def split: prod.splits outcome.splits)
  show ?thesis
    using run True o [of "note_mature_dead interlock channel s"]
      fault_then_latches [of f fe "\<lambda>_. Returned (DeadLatched True)" "note_mature_dead interlock channel s"]
    by (auto split: if_splits)
next
  case False
  have run: "advise_blind_guard interlock channel reasons v bl s = (out, t)"
    using assms(1) False unfolding on_interlock_dead_channel_def reasons [symmetric] by simp
  show ?thesis
    using run False
    by (auto simp: advise_blind_guard_def record_blind_guard_def side_def finish_def silent Let_def
        split: if_splits outcome.splits prod.splits bool.splits)
qed

section \<open>Blind guards and experiments\<close>

definition row_durable :: "blind_log \<Rightarrow> bool" where
  "row_durable bl = (bl_wired bl \<and> \<not> bl_failed bl)"

lemma bind_quiet:
  assumes "\<forall>c. bl_wait (bl c) = \<lparr> sw_cancelled = False, sw_interference = [] \<rparr>" "distinct (map fst xs)"
    and "\<forall>(c, ep) \<in> set xs. dict_get (sm_blind_guards s) c = Some ep"
  shows "\<exists>r. bind_blind_guards e xs bl fs s
      = (Returned (fs @ filter (\<lambda>c. dict_get (sm_blind_records s) c \<noteq> Some e \<and> \<not> row_durable (bl c)) (map fst xs)),
         s\<lparr> sm_blind_records := r \<rparr>)
    \<and> (\<forall>c. dict_get r c = (if c \<in> fst ` set xs \<and> row_durable (bl c) then Some e else dict_get (sm_blind_records s) c))"
  using assms
proof (induction xs arbitrary: fs s)
  case Nil
  show ?case by (rule exI [where x = "sm_blind_records s"]) simp
next
  case (Cons x xs)
  obtain c ep where x: "x = (c, ep)" by (cases x)
  have rest: "\<forall>(c', ep') \<in> set xs. dict_get (sm_blind_guards s) c' = Some ep'" "distinct (map fst xs)"
    "c \<notin> fst ` set xs" "dict_get (sm_blind_guards s) c = Some ep" using Cons.prems by (auto simp: x)
  show ?case
  proof (cases "dict_get (sm_blind_records s) c = Some e")
    case True
    obtain r where "bind_blind_guards e xs bl fs s
      = (Returned (fs @ filter (\<lambda>c. dict_get (sm_blind_records s) c \<noteq> Some e \<and> \<not> row_durable (bl c)) (map fst xs)),
         s\<lparr> sm_blind_records := r \<rparr>)"
      "\<forall>c'. dict_get r c' = (if c' \<in> fst ` set xs \<and> row_durable (bl c') then Some e else dict_get (sm_blind_records s) c')"
      using Cons.IH [OF Cons.prems(1) rest(2) rest(1)] by blast
    thus ?thesis using True by (intro exI [where x = r]) (auto simp: x)
  next
    case False
    have log: "record_blind_guard (bl c) s = (Returned (row_durable (bl c)), s)"
      using Cons.prems(1) by (simp add: record_blind_guard_def row_durable_def side_def finish_def)
    show ?thesis
    proof (cases "row_durable (bl c)")
      case True
      define s' where "s' = s\<lparr> sm_blind_records := dict_set c e (sm_blind_records s) \<rparr>"
      have other: "filter (\<lambda>c. dict_get (sm_blind_records s') c \<noteq> Some e \<and> \<not> row_durable (bl c)) (map fst xs)
          = filter (\<lambda>c. dict_get (sm_blind_records s) c \<noteq> Some e \<and> \<not> row_durable (bl c)) (map fst xs)"
        by (rule filter_cong) (use rest(3) in \<open>auto simp: s'_def dict_get_set\<close>)
      have "\<forall>(c', ep') \<in> set xs. dict_get (sm_blind_guards s') c' = Some ep'" using rest(1) by (simp add: s'_def)
      then obtain r where "bind_blind_guards e xs bl fs s'
          = (Returned (fs @ filter (\<lambda>c. dict_get (sm_blind_records s) c \<noteq> Some e \<and> \<not> row_durable (bl c)) (map fst xs)),
             s'\<lparr> sm_blind_records := r \<rparr>)"
        "\<forall>c'. dict_get r c' = (if c' \<in> fst ` set xs \<and> row_durable (bl c') then Some e else dict_get (sm_blind_records s') c')"
        using Cons.IH [OF Cons.prems(1) rest(2), of s' fs] other by auto
      thus ?thesis using False True log rest(4)
        by (intro exI [where x = r]) (auto simp: x s'_def dict_get_set)
    next
      case nd: False
      obtain r where "bind_blind_guards e xs bl (fs @ [c]) s
          = (Returned ((fs @ [c]) @ filter (\<lambda>c. dict_get (sm_blind_records s) c \<noteq> Some e \<and> \<not> row_durable (bl c)) (map fst xs)),
             s\<lparr> sm_blind_records := r \<rparr>)"
        "\<forall>c'. dict_get r c' = (if c' \<in> fst ` set xs \<and> row_durable (bl c') then Some e else dict_get (sm_blind_records s) c')"
        using Cons.IH [OF Cons.prems(1) rest(2) rest(1), of "fs @ [c]"] by blast
      thus ?thesis using False nd log by (intro exI [where x = r]) (auto simp: x)
    qed
  qed
qed

text \<open>
  Binding the blind guards to an experiment is complete. When nothing interferes with the log, the
  operation returns exactly when every active guard is already bound to that experiment or its row is
  durable, and then every active guard is bound; a guard whose row failed keeps its former binding,
  and no guard is added or dropped.
\<close>

theorem blind_guards_bound:
  assumes "record_blind_guards_for_experiment e bl s = (out, t)" "e \<noteq> []" "dict_ok (sm_blind_guards s)"
    and "\<forall>c. bl_wait (bl c) = \<lparr> sw_cancelled = False, sw_interference = [] \<rparr>"
  shows "(out = Returned () \<longleftrightarrow>
           (\<forall>c \<in> set (dict_keys (sm_blind_guards s)). dict_get (sm_blind_records s) c = Some e \<or> row_durable (bl c)))
    \<and> (\<forall>c \<in> set (dict_keys (sm_blind_guards s)).
         dict_get (sm_blind_records t) c = (if row_durable (bl c) then Some e else dict_get (sm_blind_records s) c))
    \<and> sm_blind_guards t = sm_blind_guards s"
proof -
  let ?xs = "sort_key fst (sm_blind_guards s)"
  have d: "distinct (map fst ?xs)" using assms(3) by (simp add: dict_ok_def distinct_map)
  have g: "\<forall>(c, ep) \<in> set ?xs. dict_get (sm_blind_guards s) c = Some ep"
    using assms(3) dict_mem_get by fastforce
  obtain r where r: "bind_blind_guards e ?xs bl [] s
      = (Returned (filter (\<lambda>c. dict_get (sm_blind_records s) c \<noteq> Some e \<and> \<not> row_durable (bl c)) (map fst ?xs)),
         s\<lparr> sm_blind_records := r \<rparr>)"
      "\<forall>c. dict_get r c = (if c \<in> fst ` set ?xs \<and> row_durable (bl c) then Some e else dict_get (sm_blind_records s) c)"
    using bind_quiet [OF assms(4) d g, of e "[]"] by auto
  have "out = Returned () \<longleftrightarrow>
      filter (\<lambda>c. dict_get (sm_blind_records s) c \<noteq> Some e \<and> \<not> row_durable (bl c)) (map fst ?xs) = []"
    and t: "t = s\<lparr> sm_blind_records := r \<rparr>"
    using assms(1,2) r(1) by (auto simp: record_blind_guards_for_experiment_def split: if_splits)
  moreover have "set (map fst ?xs) = set (dict_keys (sm_blind_guards s))" by simp
  ultimately show ?thesis using r(2) by (auto simp: filter_empty_conv)
qed

section \<open>Witnesses\<close>

lemma running_children:
  "live_child (sm_collect running_sm)" "live_child (sm_monitor running_sm)" "safety_children_authoritative running_sm"
  by (simp_all add: safety_children_authoritative_def sample_defs Let_def)

lemma running_details [simp]:
  "sm_commands running_sm = []" "sm_receipt_expiry running_sm = Some 1000" "sm_clock running_sm = 100"
  "sm_config running_sm = safety_config_default\<lparr> sc_critical_channels := [sample_pattern] \<rparr>"
  "sm_blind_guards running_sm = []" "sm_blind_records running_sm = []" "sm_fault_time running_sm = 0"
  by (simp_all add: running_sm_def standby_sm_def sm_init_def Let_def)

lemma running_authority: "energizing_mutation_refusal running_sm = None"
  by (simp add: energizing_mutation_refusal_def explicit_simulation_authorized_def)

lemma running_runtime: "runtime_of smua running_sm = Some \<lparr> rt_active = True, rt_p_target = Fin 1, rt_v_comp = Fin 10, rt_i_comp = Fin 1 \<rparr>"
  by (simp add: runtime_of_def sample_driver_def)

definition unit_answer :: "unit hw" where
  "unit_answer = \<lparr> aw_result = Inr (), aw_cancelled = False, aw_interference = [] \<rparr>"

definition quiet_target :: target_env where
  "quiet_target = \<lparr> te_lock_wait = [], te_write = unit_answer, te_fault = quiet_fault, te_latched_off = off_answer,
     te_latched_off_cancelled = False, te_authority_off = quiet_off, te_authority_off_cancelled = False \<rparr>"

definition quiet_limits :: limits_env where
  "quiet_limits = \<lparr> me_lock_wait = [], me_v = \<lparr> le_write = unit_answer, le_fault = quiet_fault \<rparr>,
     me_i = \<lparr> le_write = \<lparr> aw_result = Inl ''timeout'', aw_cancelled = False, aw_interference = [] \<rparr>, le_fault = quiet_fault \<rparr> \<rparr>"

lemma update_target_sound_witness:
  "\<exists>out t. update_target (Fin 2) None quiet_target running_sm = (out, t) \<and> update_ok out
     \<and> sm_commands t = [CmdUpdateTarget smua (Fin 2)]"
proof -
  obtain out t where run: "update_target (Fin 2) None quiet_target running_sm = (out, t)" by force
  have adm: "target_admitted smua (Fin 2) running_sm"
    by (simp add: target_admitted_def running_authority running_children running_runtime safety_config_default_def)
  have "observe_terminal_safety_children (running_sm\<lparr> sm_commands := [CmdUpdateTarget smua (Fin 2)] \<rparr>)
      = running_sm\<lparr> sm_commands := [CmdUpdateTarget smua (Fin 2)] \<rparr>"
    by (rule live_children_quiet) (simp_all add: running_children)
  moreover have "safety_children_authoritative (running_sm\<lparr> sm_commands := [CmdUpdateTarget smua (Fin 2)] \<rparr>)"
    using running_children(3) by (simp add: safety_children_authoritative_def)
  ultimately have "update_ok out"
    using run adm
    by (auto simp: update_target_def quiet_target_def normalize_none hw_call_def unit_answer_def target_written_def
        update_overtaken_def target_admitted_def authority_accepted [THEN iffD2] value_accepted [THEN iffD2]
        instrument_accepted [THEN iffD2])
  thus ?thesis using run adm update_target_sound [OF normalize_none run, of running_sm]
    by (simp add: quiet_target_def)
qed

lemma update_limits_sound_witness:
  "\<not> update_ok (fst (update_limits None (Some (Fin 5)) (Some NaN) quiet_limits running_sm))
   \<and> snd (update_limits None (Some (Fin 5)) (Some NaN) quiet_limits running_sm) = running_sm"
proof -
  obtain out t where run: "update_limits None (Some (Fin 5)) (Some NaN) quiet_limits running_sm = (out, t)" by force
  have "\<not> limits_admitted smua (Some (Fin 5)) (Some NaN) running_sm" by (simp add: limits_admitted_def)
  thus ?thesis using run update_limits_sound [OF normalize_none run, of running_sm] by (simp add: quiet_limits_def)
qed

definition latched_sm :: sm where
  "latched_sm = running_sm\<lparr> sm_state := FAULT_LATCHED, sm_active := {}, sm_fault_sources := {''interlock''} \<rparr>"

definition quiet_ack :: ack_env where
  "quiet_ack = \<lparr> ae_lock_wait = [], ae_watchdog = AckAnswer True, ae_watchdog_wait = quiet_side, ae_publish = quiet_side \<rparr>"


definition own :: claimant where
  "own = \<lparr> cm_own_driver = True, cm_own_binding = True \<rparr>"

definition quiet_connect :: connect_env where
  "quiet_connect = \<lparr> ce_lock_wait = [], ce_fault = quiet_fault \<rparr>"

lemma standby_identity: "require_reviewed_source_identity own (s\<lparr> sm_binding := Some sample_binding, sm_identity_qualified := True \<rparr>) = Inr ()"
  by (simp add: require_reviewed_source_identity_def own_def sample_binding_def)

lemma sample_binding_kept [simp]: "sm_binding standby_sm = Some sample_binding" "sm_binding running_sm = Some sample_binding"
  by (simp_all add: running_sm_def standby_sm_def sm_init_def Let_def)

lemma own_identity:
  "sm_identity_qualified s \<Longrightarrow> sm_binding s = Some sample_binding \<Longrightarrow> require_reviewed_source_identity own s = Inr ()"
  by (simp add: require_reviewed_source_identity_def own_def sample_binding_def)

lemma abort_identity [simp]:
  "sm_binding (register_abort_intent full s) = sm_binding s"
  "sm_identity_qualified (register_abort_intent full s) = sm_identity_qualified s"
  by (simp_all add: register_abort_intent_def Let_def)

lemma connect_revokes_before_grant_witness:
  "\<exists>g t. begin_reviewed_source_connect own [] quiet_connect standby_sm = (Returned g, t) \<and> sm_source_generation t = Some g"
proof -
  let ?u = "register_abort_intent True standby_sm"
  have "safety_children_authoritative standby_sm"
    by (simp add: safety_children_authoritative_def sample_defs Let_def)
  hence "safety_children_authoritative (revoke_connection ?u)"
    by (simp add: revoke_connection_def register_abort_intent_def Let_def safety_children_authoritative_def)
  then obtain g t where run: "begin_reviewed_source_connect own [] quiet_connect standby_sm = (Returned g, t)"
    by (auto simp: begin_reviewed_source_connect_def own_identity quiet_connect_def fresh_generation_def Let_def)
  thus ?thesis using connect_revokes_before_grant [OF run, of ?u] by (simp add: quiet_connect_def)
qed

lemma stale_token_powerless_witness:
  "complete_reviewed_source_connect own None [] standby_sm = (Returned (unknown_global_off_evidence standby_sm), standby_sm)"
  using stale_token_powerless [OF own_identity, of standby_sm None] by simp

definition quiet_disconnect :: disconnect_env where
  "quiet_disconnect = \<lparr> de_lock_wait = [], de_off = no_answer, de_disconnect = unit_answer, de_fault = quiet_fault,
     de_publish = quiet_side \<rparr>"

lemma disconnect_sound_witness:
  "fst (disconnect_reviewed_source own [] quiet_disconnect running_sm) \<noteq> Returned True"
proof -
  let ?u = "register_abort_intent True running_sm"
  obtain out t where run: "disconnect_reviewed_source own [] quiet_disconnect running_sm = (out, t)" by force
  have q: "sm_identity_qualified running_sm" by (simp add: running_sm_def)
  have "out \<noteq> Returned True"
    using disconnect_sound [OF run, of ?u] own_identity [of running_sm] own_identity [of ?u] q
    by (auto simp: quiet_disconnect_def no_answer_def)
  thus ?thesis using run by simp
qed

definition quiet_blind :: blind_log where
  "quiet_blind = \<lparr> bl_wired = True, bl_failed = False, bl_wait = quiet_side \<rparr>"

lemma dead_channel_exact_witness:
  "sm_state (snd (on_interlock_dead_channel ''t1'' ''T1'' NaN None quiet_blind quiet_fault running_sm)) = FAULT_LATCHED"
proof -
  obtain out t where run: "on_interlock_dead_channel ''t1'' ''T1'' NaN None quiet_blind quiet_fault running_sm = (out, t)"
    by force
  show ?thesis using dead_channel_exact [OF run refl] run by simp
qed

definition blind_sm :: sm where
  "blind_sm = running_sm\<lparr> sm_blind_guards := [(''T1'', ''t1'', [''OVERRANGE''], False, NaN)] \<rparr>"

lemma blind_guards_bound_witness:
  "dict_get (sm_blind_records (snd (record_blind_guards_for_experiment ''exp'' (\<lambda>_. quiet_blind) blind_sm))) ''T1'' = Some ''exp''"
proof -
  obtain out t where run: "record_blind_guards_for_experiment ''exp'' (\<lambda>_. quiet_blind) blind_sm = (out, t)" by force
  show ?thesis
    using blind_guards_bound [OF run] run
    by (simp add: blind_sm_def dict_ok_def quiet_blind_def quiet_side_def row_durable_def)
qed

end
