(* ===== verification/SafetyShutdown.thy ===== *)
theory SafetyShutdown
  imports SafetyOpsProps
begin

text \<open>
  \<open>stop\<close> of the safety manager: the owner cut, the stop of the sources, the proofs of global OFF around
  the settlement of retained faults and of the children, the HOLD when OFF is not proven, and the
  release of the children. With it the property that the children are given up only after the device
  reported OFF. Each owned task has its answer and whether the caller was cancelled meanwhile.
\<close>

section \<open>The stop\<close>

record owned_off =
  ow_answer :: "drv_value hw"
  ow_cancelled :: bool

record drain_wait =
  dw_wait :: side_wait
  dw_drained :: bool

text \<open>
  \<open>sd_prior_cancellations\<close> is \<open>task.cancelling()\<close> of a live child when \<open>stop\<close> cancels it, and the two
  ends are how the children finish when they have not done so before.
\<close>

record shutdown_env =
  sd_before :: reconcile_env
  sd_sources :: stop_env
  sd_sources_cancelled :: bool
  sd_after :: reconcile_env
  sd_global :: owned_off
  sd_drain :: drain_wait
  sd_ordered :: owned_off
  sd_prior_cancellations :: "child_role \<Rightarrow> nat"
  sd_children :: side_wait
  sd_collect_end :: child_outcome
  sd_monitor_end :: child_outcome
  sd_late_drain :: drain_wait
  sd_final :: owned_off

text \<open>What \<open>stop\<close> captures before its cut.\<close>

record owner_cut =
  oc_generation :: nat
  oc_collect :: "nat option"
  oc_monitor :: "nat option"
  oc_failed_role :: "string option"
  oc_failed_reason :: "string option"

definition capture_owner :: "sm \<Rightarrow> owner_cut" where
  "capture_owner s =
     \<lparr> oc_generation = sm_child_generation s, oc_collect = map_option ch_id (sm_collect s),
       oc_monitor = map_option ch_id (sm_monitor s), oc_failed_role = sm_failed_role s,
       oc_failed_reason = sm_failed_reason s \<rparr>"

definition HOLD_REASON :: string where
  "HOLD_REASON = ''SafetyManager shutdown HOLD: global OFF could not be verified''"

text \<open>The children are not replaced while the cut stands, so the captured tasks are the current ones.\<close>

definition restore_shutdown_owner_cut :: "owner_cut \<Rightarrow> sm \<Rightarrow> sm" where
  "restore_shutdown_owner_cut oc s =
     (let s1 = s\<lparr> sm_stopping_generation := None \<rparr>;
          s2 = (if sm_failed_role s1 = None
                then s1\<lparr> sm_failed_role := oc_failed_role oc, sm_failed_reason := oc_failed_reason oc \<rparr> else s1);
          s3 = s2\<lparr> sm_monitor_active := (sm_failed_role s2 = None \<and> oc_collect oc \<noteq> oc_monitor oc
                     \<and> live_child (sm_collect s2) \<and> live_child (sm_monitor s2)) \<rparr>
      in sm_refresh (observe_terminal_safety_children s3))"

text \<open>A HOLD latches and keeps at most one settlement of its own.\<close>

definition begin_shutdown_hold :: "owner_cut \<Rightarrow> sm \<Rightarrow> sm" where
  "begin_shutdown_hold oc s =
     (let s1 = snd (begin_fault_latch HOLD_REASON [] (Fin 0) ''safety_shutdown'' s);
          s2 = (if HOLD_REASON \<in> set (sm_pending_settlements s1) then s1
                else s1\<lparr> sm_pending_settlements := sm_pending_settlements s1 @ [HOLD_REASON] \<rparr>)
      in restore_shutdown_owner_cut oc s2)"

definition stop_cut :: "sm \<Rightarrow> sm" where
  "stop_cut s =
     (let s1 = register_abort_intent True (s\<lparr> sm_stopping_generation := Some (sm_child_generation s) \<rparr>);
          s2 = s1\<lparr> sm_monitor_active := False,
                  sm_failed_reason := (if sm_failed_role s1 = None then Some ''safety_manager_stopping''
                                       else sm_failed_reason s1) \<rparr>
      in revoke_connection s2)"

text \<open>The reconciliation's reason, the error of the source stop, whether the caller was cancelled.\<close>

definition stop_sources :: "shutdown_env \<Rightarrow> sm \<Rightarrow> string option \<times> py_exn outcome option \<times> bool \<times> sm" where
  "stop_sources sd s =
     (let (r1, c1, s1) = reconcile_hazardous_success ''manager stop'' (sd_before sd) s
      in if r1 \<noteq> None \<or> sm_active s1 = {} then (r1, None, c1, s1)
         else
           (let (out, s2) = safe_off ''system stop'' (filter (\<lambda>c. c \<in> sm_active s1) SMU_CHANNELS) None (sd_sources sd) s1;
                (r3, c3, s3) = reconcile_hazardous_success ''manager stop'' (sd_after sd) s2;
                err = (case out of Returned _ \<Rightarrow> None | CallerCancelled \<Rightarrow> Some CallerCancelled
                       | RaisedExn e \<Rightarrow> Some (RaisedExn e))
            in (r3, err, c1 \<or> sd_sources_cancelled sd \<or> c3, s3)))"

definition shutdown_proof :: "owned_off \<Rightarrow> sm \<Rightarrow> bool \<times> bool \<times> sm" where
  "shutdown_proof ow s =
     (let off = ensure_output_off None (ow_answer ow) s
      in (off_confirmed off, ow_cancelled ow, clear_if (off_confirmed off) (snd (snd off))))"

definition drain_settlements :: "bool \<Rightarrow> drain_wait \<Rightarrow> sm \<Rightarrow> bool \<times> bool \<times> sm" where
  "drain_settlements needed dw s =
     (if \<not> needed then (True, False, s)
      else (let (c, s1) = side (dw_wait dw) s in (dw_drained dw, c, s1)))"

definition cancel_child :: "child_role \<Rightarrow> shutdown_env \<Rightarrow> sm \<Rightarrow> sm" where
  "cancel_child role sd s =
     (case child_of role s of
        None \<Rightarrow> s
      | Some c \<Rightarrow>
          (if ch_outcome c = None \<and> sd_prior_cancellations sd role = 0
           then s\<lparr> sm_stop_cancelled := (sm_stop_cancelled s)(ch_id c := Some 1) \<rparr> else s))"

definition consume_child :: "child_role \<Rightarrow> owner_cut \<Rightarrow> sm \<Rightarrow> sm" where
  "consume_child role oc s =
     (case child_of role s of
        None \<Rightarrow> s
      | Some c \<Rightarrow> operator_child_done c role (oc_generation oc) s)"

definition stop_children :: "shutdown_env \<Rightarrow> owner_cut \<Rightarrow> sm \<Rightarrow> bool \<times> sm" where
  "stop_children sd oc s =
     (let (c, s1) = side (sd_children sd) (cancel_child Monitor sd (cancel_child Collect sd s));
          s2 = child_ends Monitor (sd_monitor_end sd) (child_ends Collect (sd_collect_end sd) s1)
      in (c, consume_child Monitor oc (consume_child Collect oc s2)))"

definition forget_child :: "nat option \<Rightarrow> sm \<Rightarrow> sm" where
  "forget_child task s =
     (case task of
        None \<Rightarrow> s
      | Some i \<Rightarrow>
          (if map_option ch_id (sm_collect s) \<noteq> Some i \<and> map_option ch_id (sm_monitor s) \<noteq> Some i
           then s\<lparr> sm_consumed := sm_consumed s - {i} \<rparr> else s))"

definition release_children :: "owner_cut \<Rightarrow> sm \<Rightarrow> sm" where
  "release_children oc s =
     (let s1 = (if sm_child_generation s = oc_generation oc
                then s\<lparr> sm_collect := (if map_option ch_id (sm_collect s) = oc_collect oc then None else sm_collect s),
                       sm_monitor := (if map_option ch_id (sm_monitor s) = oc_monitor oc then None else sm_monitor s) \<rparr>
                else s)
      in complete_stopping_generation_if_settled (Some (oc_generation oc))
           (forget_child (oc_monitor oc) (forget_child (oc_collect oc) s1)))"

definition stop_error :: "bool \<Rightarrow> string \<Rightarrow> unit outcome" where
  "stop_error cancelled msg = (if cancelled then CallerCancelled else RaisedExn (RuntimeError msg))"

definition SETTLEMENT_HOLD :: string where
  "SETTLEMENT_HOLD = ''SafetyManager shutdown HOLD: child fault settlement is still in progress''"

text \<open>The second half: both children end, their faults settle, and OFF is proven once more.\<close>

definition finish_stop ::
    "shutdown_env \<Rightarrow> owner_cut \<Rightarrow> bool \<Rightarrow> string option \<Rightarrow> py_exn outcome option \<Rightarrow> sm \<Rightarrow> unit outcome \<times> sm" where
  "finish_stop sd oc c0 reason err s =
     (let (c1, s1) = stop_children sd oc s;
          (drained, c2, s2) = drain_settlements (sm_pending_settlements s1 \<noteq> []) (sd_late_drain sd) s1
      in if \<not> drained then (stop_error (c0 \<or> c1 \<or> c2) SETTLEMENT_HOLD, restore_shutdown_owner_cut oc s2)
         else
           (let (proven, c3, s3) = shutdown_proof (sd_final sd) s2; cancelled = (c0 \<or> c1 \<or> c2 \<or> c3)
            in if \<not> proven then (stop_error cancelled HOLD_REASON, begin_shutdown_hold oc s3)
               else
                 (if cancelled then CallerCancelled
                  else case reason of
                         Some r \<Rightarrow> RaisedExn (RuntimeError r)
                       | None \<Rightarrow> (case err of None \<Rightarrow> Returned ()
                                 | Some (RaisedExn e) \<Rightarrow> RaisedExn e
                                 | Some _ \<Rightarrow> CallerCancelled),
                  release_children oc s3)))"

definition sm_stop :: "shutdown_env \<Rightarrow> sm \<Rightarrow> unit outcome \<times> sm" where
  "sm_stop sd s0 =
     (if sm_stopping_generation s0 \<noteq> None then (RaisedExn (RuntimeError ''stop is already in progress''), s0)
      else
        (let s = observe_terminal_safety_children s0;
             oc = capture_owner s;
             (reason, err, c1, s1) = stop_sources sd (stop_cut s);
             (proven, c2, s2) = shutdown_proof (sd_global sd) s1
         in if \<not> proven then (stop_error (c1 \<or> c2) HOLD_REASON, begin_shutdown_hold oc s2)
            else
              (let needed = (sm_pending_settlements s1 \<noteq> [] \<or> sm_pending_settlements s2 \<noteq> []);
                   (drained, c3, s3) = drain_settlements needed (sd_drain sd) s2
               in if \<not> drained
                  then (stop_error (c1 \<or> c2 \<or> c3) SETTLEMENT_HOLD, restore_shutdown_owner_cut oc s3)
                  else
                    (let (ordered, c4, s4) = (if needed then shutdown_proof (sd_ordered sd) s3 else (True, False, s3))
                     in if \<not> ordered then (stop_error (c1 \<or> c2 \<or> c3 \<or> c4) HOLD_REASON, begin_shutdown_hold oc s4)
                        else finish_stop sd oc (c1 \<or> c2 \<or> c3 \<or> c4) reason err s4))))"

section \<open>Nobody else touches the children\<close>

definition same_children :: "sm \<Rightarrow> sm \<Rightarrow> bool" where
  "same_children s t =
     (map_option ch_id (sm_collect t) = map_option ch_id (sm_collect s)
      \<and> map_option ch_id (sm_monitor t) = map_option ch_id (sm_monitor s)
      \<and> sm_child_generation t = sm_child_generation s)"

named_theorems owns "steps that keep the children's tasks"

lemma owns_refl [owns]: "same_children s s"
  by (simp add: same_children_def)

lemma owns_trans: "same_children s t \<Longrightarrow> same_children t u \<Longrightarrow> same_children s u"
  by (simp add: same_children_def)

lemma owns_same:
  "sm_collect t = sm_collect s \<Longrightarrow> sm_monitor t = sm_monitor s \<Longrightarrow> sm_child_generation t = sm_child_generation s
     \<Longrightarrow> same_children s t"
  by (simp add: same_children_def)

lemma latch_children [simp]:
  "sm_collect (snd (begin_fault_latch r ch v src s)) = sm_collect s"
  "sm_monitor (snd (begin_fault_latch r ch v src s)) = sm_monitor s"
  "sm_child_generation (snd (begin_fault_latch r ch v src s)) = sm_child_generation s"
  "sm_stopping_generation (snd (begin_fault_latch r ch v src s)) = sm_stopping_generation s"
  by (simp_all add: begin_fault_latch_def fault_cut_def transition_cut_def register_abort_intent_def Let_def)

lemma owns_refresh [owns]: "same_children s (sm_refresh s)"
  and owns_evidence [owns]: "same_children s (set_evidence e s)"
  and owns_abort [owns]: "same_children s (register_abort_intent full s)"
  and owns_latch [owns]: "same_children s (snd (begin_fault_latch r ch v src s))"
  and owns_request [owns]: "same_children s (latch_request f s)"
  and owns_transition [owns]: "same_children s (sm_transition st r ch v s)"
  by (simp_all add: same_children_def latch_request_def register_abort_intent_def Let_def)

lemma owns_revoke_child [owns]: "same_children s (revoke_child_authority role out s)"
  by (rule owns_same) (simp_all add: revoke_child_authority_def Let_def)

lemma owns_child_done [owns]: "same_children s (operator_child_done c role g s)"
proof -
  have "same_children s (revoke_child_authority role out (s\<lparr> sm_consumed := insert (ch_id c) (sm_consumed s) \<rparr>))" for out
    by (rule owns_trans [OF owns_same owns_revoke_child]) simp_all
  thus ?thesis by (simp add: operator_child_done_def Let_def owns owns_same split: option.splits)
qed

lemma owns_observe [owns]: "same_children s (observe_terminal_safety_children s)"
proof -
  let ?f = "\<lambda>role c t. case c of None \<Rightarrow> t
      | Some x \<Rightarrow> if ch_outcome x \<noteq> None then operator_child_done x role (sm_child_generation s) t else t"
  have f: "same_children t (?f role c t)" for role c t by (simp add: owns split: option.splits)
  show ?thesis unfolding observe_terminal_safety_children_def Let_def using f f by (rule owns_trans)
qed

lemma owns_commit_off [owns]: "same_children s (snd (commit_output_off c a s))"
  by (rule owns_same) (simp_all add: commit_output_off_def Let_def)

lemma owns_commit_settlement [owns]: "same_children s (commit_fault_settlement confirmed s)"
  by (rule owns_same) (simp_all add: commit_fault_settlement_def Let_def)

lemma owns_settle [owns]: "same_children s (settle_fault_answered a s)"
  using owns_trans [OF owns_commit_off owns_commit_settlement]
  by (simp add: settle_fault_answered_def case_prod_beta Let_def owns)

lemma owns_revoke [owns]: "same_children s (revoke_connection s)"
  by (rule owns_same) (simp_all add: revoke_connection_def)

lemma owns_abandon [owns]: "same_children s (abandon_reviewed_source_connect g s)"
  using owns_trans [OF owns_abort owns_revoke] by (simp add: abandon_reviewed_source_connect_def owns)

lemma owns_persistence [owns]: "same_children s (persistence_failure_sync r s)"
  unfolding persistence_failure_sync_def by (rule owns_trans [OF owns_same owns_latch]) simp_all

lemma owns_poll_failure [owns]: "same_children s (failed_poll_failure_sync i r s)"
  unfolding failed_poll_failure_sync_def by (rule owns_trans [OF owns_same owns_persistence]) simp_all

lemma owns_child_ends [owns]: "same_children s (child_ends role out s)"
  by (simp add: same_children_def child_ends_def child_of_def set_child_def split: option.splits child_role.splits)

lemma owns_checks_first [owns]: "same_children s (snd (run_checks_first s))"
proof -
  have "same_children (sm_refresh s) (snd (run_checks_first s))"
    by (simp add: run_checks_first_def Let_def owns split: option.splits safety_state.splits)
  thus ?thesis by (rule owns_trans [OF owns_refresh])
qed

lemma owns_checks_second [owns]: "same_children s (run_checks_second now wd s)"
proof -
  have "same_children s (latch_request f (s\<lparr> sm_rate := e \<rparr>))" for f e
    by (rule owns_trans [OF owns_same owns_request]) simp_all
  moreover have "same_children s (s\<lparr> sm_rate := e \<rparr>)" for e by (rule owns_same) simp_all
  ultimately show ?thesis by (simp add: run_checks_second_def owns split: option.splits prod.splits)
qed

lemma owns_env [owns]: "same_children s (env_apply ev s)"
proof (cases ev)
  case (EvDriver d)
  thus ?thesis by (simp add: env_apply_def driver_changes_def owns_same split: option.splits)
next
  case (EvSettlementOver r)
  thus ?thesis
    by (simp add: env_apply_def settlement_over_def complete_stopping_generation_if_settled_def owns_same split: option.splits)
next
  case (EvReading rd)
  thus ?thesis by (intro owns_same) (simp_all add: env_apply_def collect_reading_def Let_def split: option.splits)
next
  case (EvDeadChannel i ch)
  thus ?thesis by (intro owns_same) (simp_all add: env_apply_def note_mature_dead_def Let_def)
next
  case (EvBlindGuard i ch rs v b)
  thus ?thesis by (intro owns_same) (simp_all add: env_apply_def note_blind_guard_def Let_def)
next
  case (EvRecoveredChannel ch)
  thus ?thesis by (intro owns_same) (simp_all add: env_apply_def on_interlock_channel_recovered_def Let_def)
next
  case (EvPollRecovered i)
  thus ?thesis by (intro owns_same) (simp_all add: env_apply_def on_failed_poll_persistence_recovered_def)
qed (simp_all add: env_apply_def owns owns_same)

lemma owns_run [owns]: "same_children s (env_run evs s)"
proof (induction evs arbitrary: s)
  case (Cons ev evs)
  thus ?case unfolding env_run_def foldl.simps by (rule owns_trans [OF owns_env])
qed (simp add: owns)

lemma owns_side [owns]: "same_children s (snd (side w s))"
  by (simp add: side_def owns)

lemma owns_hw [owns]: "same_children s (snd (snd (hw_call cmd h s)))"
  unfolding hw_call_def snd_conv by (rule owns_trans [OF owns_same owns_run]) simp_all

lemma owns_ensure [owns]: "same_children s (snd (snd (ensure_output_off c h s)))"
proof -
  have "same_children s (snd (commit_output_off c a (snd (snd (hw_call (CmdOff c) h s)))))" for a
    by (rule owns_trans [OF owns_hw owns_commit_off])
  thus ?thesis by (simp add: ensure_output_off_def owns case_prod_beta Let_def)
qed

lemma owns_clear [owns]: "same_children s (clear_if b s)"
  by (rule owns_same) (simp_all add: clear_if_def)

lemma owns_settle_fault [owns]: "same_children s (snd (settle_latched_fault fe s))"
proof -
  have "same_children s (snd (snd (if sm_driver s = None then (True, False, s) else ensure_output_off None (fe_off fe) s)))"
    by (simp add: owns)
  thus ?thesis
    unfolding settle_latched_fault_def Let_def case_prod_beta snd_conv
    by (rule owns_trans [OF owns_trans [OF owns_trans [OF _ owns_commit_settlement] owns_side] owns_side])
qed

lemma owns_fault [owns]: "same_children s (snd (sm_fault f fe s))"
proof -
  have "same_children s (snd (settle_latched_fault fe (snd (begin_fault_latch r c v src s))))" for r c v src
    by (rule owns_trans [OF owns_latch owns_settle_fault])
  moreover have "same_children s (refreshed_evidence (fault_cut r c v src s))" for r c v src
    by (rule owns_same) (simp_all add: refreshed_evidence_fields fault_cut_def transition_cut_def register_abort_intent_def Let_def)
  ultimately show ?thesis by (simp add: sm_fault_def Let_def case_prod_beta owns)
qed

lemma owns_proof [owns]: "same_children s (global_off_proof h s)"
  unfolding global_off_proof_def Let_def by (rule owns_trans [OF owns_ensure owns_clear])

lemma owns_late [owns]: "same_children s (snd (reconcile_late re s))"
proof -
  have "same_children s (global_off_proof h (snd (side w s)))" for h w by (rule owns_trans [OF owns_side owns_proof])
  thus ?thesis by (simp add: reconcile_late_def owns case_prod_beta Let_def)
qed

lemma owns_reconcile_settle [owns]: "same_children s (snd (reconcile_settle r c re s))"
  unfolding reconcile_settle_def Let_def case_prod_beta snd_conv
  by (rule owns_trans [OF owns_trans [OF owns_latch owns_settle_fault] owns_side])

lemma owns_reconcile [owns]: "same_children s (snd (snd (reconcile_hazardous_success op re s)))"
proof -
  have tail: "same_children s (snd (side (rc_publish re) (sm_refresh (snd (reconcile_late re
      (observe_terminal_safety_children (global_off_proof (rc_proof re) (snd (reconcile_settle r c re
        (observe_terminal_safety_children s))))))))))" for r c
    by (rule owns_trans [OF owns_trans [OF owns_trans [OF owns_trans [OF owns_trans [OF owns_trans
          [OF owns_observe owns_reconcile_settle] owns_proof] owns_observe] owns_late] owns_refresh] owns_side])
  show ?thesis
    by (auto simp: reconcile_hazardous_success_def Let_def case_prod_beta owns tail split: option.split)
qed

lemma owns_stop_loop [owns]:
  "same_children s (snd (snd (snd (snd (safe_off_loop expected se cs applied i k s)))))"
proof (induction cs arbitrary: applied i k s)
  case (Cons c cs)
  have here: "same_children s (after_stop c (se_stop se c) s)"
    unfolding after_stop_def Let_def
    by (rule owns_trans [OF owns_hw owns_trans [OF owns_trans [OF owns_same owns_refresh] owns_observe]]) simp_all
  have "same_children s (snd (sm_fault f (se_fault se) (snd (snd (hw_call (CmdStop c) (se_stop se c) s)))))" for f
    by (rule owns_trans [OF owns_hw owns_fault])
  note moved = this
  show ?case
  proof (cases "stop_failed (aw_result (se_stop se c))")
    case True
    thus ?thesis using stop_loop_fails [OF True, of expected cs applied i k s] moved by fastforce
  next
    case False
    thus ?thesis
      using stop_loop_step [OF False, of i s expected cs applied k] Cons.IH owns_trans [OF here] by metis
  qed
qed (simp add: owns)

lemma owns_finish [owns]: "same_children s (snd (finish_safe_off reason a i k s))"
  by (rule owns_same) (simp_all add: finish_safe_off_def Let_def)

lemma owns_safe_off [owns]: "same_children s (snd (safe_off reason cs expected se s))"
proof (cases "sm_state s = FAULT_LATCHED")
  case True
  thus ?thesis by (simp add: safe_off_def owns case_prod_beta Let_def)
next
  case run: False
  show ?thesis
  proof (cases "sm_driver s = None")
    case True
    show ?thesis unfolding safe_off_none [OF run True] by (rule owns_trans [OF owns_same owns_finish]) simp_all
  next
    case False
    obtain a i k e t where l: "safe_off_loop expected se cs {} False False s = (a, i, k, e, t)" by (metis prod_cases5)
    have "same_children s t" using owns_stop_loop [of s expected se cs "{}" False False] l by simp
    thus ?thesis
      unfolding safe_off_some [OF run False l]
      using owns_trans [OF _ owns_finish] by (auto split: option.splits outcome.splits)
  qed
qed

section \<open>The stages\<close>

definition settles :: "sm \<Rightarrow> sm \<Rightarrow> bool" where
  "settles s t = (interferes s t \<and> same_children s t)"

lemma settles_trans: "settles s t \<Longrightarrow> settles t u \<Longrightarrow> settles s u"
  using interferes_trans owns_trans by (auto simp: settles_def)

lemma settles_refl: "settles s s"
  by (simp add: settles_def calm owns)

lemma shutdown_proof_settles: "settles s (snd (snd (shutdown_proof ow s)))"
  unfolding shutdown_proof_def Let_def snd_conv settles_def
  by (intro conjI interferes_trans [OF interferes_ensure interferes_clear] owns_trans [OF owns_ensure owns_clear])

lemma shutdown_proof_exact:
  assumes "shutdown_proof ow s = (True, c, t)"
  shows "sm_active t = {} \<and> (sm_driver s \<noteq> None \<longrightarrow> aw_result (ow_answer ow) = Inr (DvOff DEVICE_REPORTED_OFF)
    \<and> sm_commands t = sm_commands s @ [CmdOff None])"
proof -
  define off where "off = ensure_output_off None (ow_answer ow) s"
  have e: "off_confirmed off" "t = clear_if True (snd (snd off))"
    using assms by (auto simp: shutdown_proof_def off_def Let_def)
  have "aw_result (ow_answer ow) = Inr (DvOff DEVICE_REPORTED_OFF) \<and> sm_commands t = sm_commands s @ [CmdOff None]"
    if d: "sm_driver s = Some d" for d
  proof
    show "aw_result (ow_answer ow) = Inr (DvOff DEVICE_REPORTED_OFF)"
      using ensure_exact [OF d, of None "ow_answer ow"] e(1) by (simp add: off_def off_confirmed_def)
    have "sm_commands (snd (snd off)) = sm_commands s @ [CmdOff None]"
      unfolding off_def ensure_with_driver [OF d] Let_def snd_conv by (simp add: silent)
    thus "sm_commands t = sm_commands s @ [CmdOff None]" by (simp add: e(2) clear_if_def)
  qed
  thus ?thesis using e by (auto simp: clear_if_def)
qed

lemma drain_settles: "settles s (snd (snd (drain_settlements n dw s)))"
proof -
  have "settles s (snd (side w s))" for w unfolding settles_def by (intro conjI interferes_side owns_side)
  thus ?thesis by (simp add: drain_settlements_def case_prod_beta settles_refl Let_def)
qed

lemma observe_stopping [simp]: "sm_stopping_generation (observe_terminal_safety_children s) = sm_stopping_generation s"
proof -
  have "sm_stopping_generation (revoke_child_authority role out t) = sm_stopping_generation t" for role out t
    by (simp add: revoke_child_authority_def Let_def)
  hence d: "sm_stopping_generation (operator_child_done c role g t) = sm_stopping_generation t" for c role g t
    by (simp add: operator_child_done_def Let_def split: option.split)
  show ?thesis unfolding observe_terminal_safety_children_def Let_def
    by (cases "sm_collect s"; cases "sm_monitor s") (simp_all add: d)
qed

lemma restore_settles: "settles s (restore_shutdown_owner_cut oc s)"
  and restore_retryable: "sm_stopping_generation (restore_shutdown_owner_cut oc s) = None"
proof -
  have "settles s (s\<lparr> sm_stopping_generation := None \<rparr>)"
      "settles x (x\<lparr> sm_failed_role := r, sm_failed_reason := q \<rparr>)" "settles x (x\<lparr> sm_monitor_active := b \<rparr>)" for x r q b
    unfolding settles_def by (intro conjI interferes_same owns_same; simp)+
  note step = this
  have "settles x (sm_refresh (observe_terminal_safety_children x))" for x
    unfolding settles_def
    by (intro conjI interferes_trans [OF interferes_observe interferes_refresh] owns_trans [OF owns_observe owns_refresh])
  thus "settles s (restore_shutdown_owner_cut oc s)"
    unfolding restore_shutdown_owner_cut_def Let_def
    using step settles_trans by (cases "sm_failed_role s") (simp_all, meson+)
  show "sm_stopping_generation (restore_shutdown_owner_cut oc s) = None"
    by (simp add: restore_shutdown_owner_cut_def Let_def)
qed

lemma hold_settles: "settles s (begin_shutdown_hold oc s)"
  and hold_latched: "sm_state (begin_shutdown_hold oc s) = FAULT_LATCHED"
  and hold_retryable: "sm_stopping_generation (begin_shutdown_hold oc s) = None"
proof -
  define s1 where "s1 = snd (begin_fault_latch HOLD_REASON [] (Fin 0) ''safety_shutdown'' s)"
  define s2 where "s2 = (if HOLD_REASON \<in> set (sm_pending_settlements s1) then s1
      else s1\<lparr> sm_pending_settlements := sm_pending_settlements s1 @ [HOLD_REASON] \<rparr>)"
  have h: "begin_shutdown_hold oc s = restore_shutdown_owner_cut oc s2"
    by (simp add: begin_shutdown_hold_def s1_def s2_def Let_def)
  have "settles s s1" by (simp add: settles_def s1_def calm owns)
  moreover have "settles s1 s2" unfolding settles_def by (intro conjI interferes_same owns_same; simp add: s2_def)
  ultimately show "settles s (begin_shutdown_hold oc s)" unfolding h using restore_settles settles_trans by blast
  have "sm_state s2 = FAULT_LATCHED" by (simp add: s2_def s1_def begin_fault_latch_latches)
  thus "sm_state (begin_shutdown_hold oc s) = FAULT_LATCHED"
    using latched_kept [of s2 "restore_shutdown_owner_cut oc s2"] restore_settles [of s2 oc] by (simp add: h settles_def)
  show "sm_stopping_generation (begin_shutdown_hold oc s) = None" unfolding h by (rule restore_retryable)
qed

lemma stop_cut_settles: "settles s (stop_cut s)"
proof -
  let ?s1 = "register_abort_intent True (s\<lparr> sm_stopping_generation := Some (sm_child_generation s) \<rparr>)"
  let ?s2 = "?s1\<lparr> sm_monitor_active := False,
                  sm_failed_reason := (if sm_failed_role ?s1 = None then Some ''safety_manager_stopping''
                                       else sm_failed_reason ?s1) \<rparr>"
  have "interferes s (s\<lparr> sm_stopping_generation := Some (sm_child_generation s) \<rparr>)" by (rule interferes_same) simp_all
  hence "interferes s ?s1" by (rule interferes_trans [OF _ interferes_abort])
  moreover have "interferes ?s1 ?s2" by (rule interferes_same) simp_all
  ultimately have "interferes s (revoke_connection ?s2)" using interferes_trans interferes_revoke_connection by blast
  moreover have "same_children s (revoke_connection ?s2)"
    by (rule owns_trans [OF owns_same owns_revoke]) (simp_all add: register_abort_intent_def Let_def)
  ultimately show ?thesis by (simp add: settles_def stop_cut_def Let_def)
qed

lemma stop_sources_settles: "settles s (snd (snd (snd (stop_sources sd s))))"
proof -
  define s1 where "s1 = snd (snd (reconcile_hazardous_success ''manager stop'' (sd_before sd) s))"
  define s2 where "s2 = snd (safe_off ''system stop'' (filter (\<lambda>c. c \<in> sm_active s1) SMU_CHANNELS) None (sd_sources sd) s1)"
  define s3 where "s3 = snd (snd (reconcile_hazardous_success ''manager stop'' (sd_after sd) s2))"
  have "settles s s1" by (simp add: settles_def s1_def calm owns)
  moreover have "settles s1 s2" by (simp add: settles_def s2_def calm owns)
  moreover have "settles s2 s3" by (simp add: settles_def s3_def calm owns)
  moreover have "snd (snd (snd (stop_sources sd s))) \<in> {s1, s3}"
    unfolding stop_sources_def Let_def case_prod_beta s1_def [symmetric] s2_def [symmetric] s3_def [symmetric] by simp
  ultimately show ?thesis using settles_trans by blast
qed

lemma cancel_child_settles: "settles s (cancel_child role sd s)"
proof -
  have "settles s (s\<lparr> sm_stop_cancelled := f \<rparr>)" for f
    unfolding settles_def by (intro conjI interferes_same owns_same; simp)
  thus ?thesis by (simp add: cancel_child_def settles_refl split: option.splits)
qed

lemma consume_child_settles: "settles s (consume_child role oc s)"
  by (simp add: consume_child_def settles_def calm owns split: option.splits)

lemma stop_children_settles: "settles s (snd (stop_children sd oc s))"
proof -
  have "settles x (snd (side w x))" "settles x (child_ends role out x)" for x w role out
    by (simp_all add: settles_def calm owns)
  thus ?thesis
    unfolding stop_children_def Let_def case_prod_beta snd_conv
    using cancel_child_settles consume_child_settles settles_trans by meson
qed

lemma forget_child_shape: "\<exists>c. forget_child i s = s\<lparr> sm_consumed := c \<rparr>"
proof -
  have "\<exists>c. s = s\<lparr> sm_consumed := c \<rparr>" by (rule exI [where x = "sm_consumed s"]) simp
  thus ?thesis unfolding forget_child_def by (cases i) (simp, simp, blast)
qed

lemma complete_stopping_shape: "\<exists>g. complete_stopping_generation_if_settled i s = s\<lparr> sm_stopping_generation := g \<rparr>"
proof -
  have "\<exists>g. s = s\<lparr> sm_stopping_generation := g \<rparr>" by (rule exI [where x = "sm_stopping_generation s"]) simp
  thus ?thesis unfolding complete_stopping_generation_if_settled_def
    by (cases "sm_stopping_generation s") (simp, simp, blast)
qed

lemma release_shape:
  "\<exists>c m k g. release_children oc s = s\<lparr> sm_collect := c, sm_monitor := m, sm_consumed := k, sm_stopping_generation := g \<rparr>
     \<and> (sm_child_generation s = oc_generation oc \<longrightarrow>
          c = (if map_option ch_id (sm_collect s) = oc_collect oc then None else sm_collect s)
          \<and> m = (if map_option ch_id (sm_monitor s) = oc_monitor oc then None else sm_monitor s))"
proof -
  define s1 where "s1 = (if sm_child_generation s = oc_generation oc
      then s\<lparr> sm_collect := (if map_option ch_id (sm_collect s) = oc_collect oc then None else sm_collect s),
              sm_monitor := (if map_option ch_id (sm_monitor s) = oc_monitor oc then None else sm_monitor s) \<rparr> else s)"
  have s1: "s1 = s\<lparr> sm_collect := sm_collect s1, sm_monitor := sm_monitor s1 \<rparr>" by (simp add: s1_def)
  obtain a where a: "forget_child (oc_collect oc) s1 = s1\<lparr> sm_consumed := a \<rparr>" using forget_child_shape by blast
  obtain b where b: "forget_child (oc_monitor oc) (s1\<lparr> sm_consumed := a \<rparr>) = s1\<lparr> sm_consumed := b \<rparr>"
    using forget_child_shape [of "oc_monitor oc" "s1\<lparr> sm_consumed := a \<rparr>"] by auto
  obtain g where "complete_stopping_generation_if_settled (Some (oc_generation oc)) (s1\<lparr> sm_consumed := b \<rparr>)
      = s1\<lparr> sm_consumed := b, sm_stopping_generation := g \<rparr>"
    using complete_stopping_shape [of "Some (oc_generation oc)" "s1\<lparr> sm_consumed := b \<rparr>"] by auto
  hence "release_children oc s = s1\<lparr> sm_consumed := b, sm_stopping_generation := g \<rparr>"
    unfolding release_children_def Let_def s1_def [symmetric] a b .
  also have "\<dots> = s\<lparr> sm_collect := sm_collect s1, sm_monitor := sm_monitor s1, sm_consumed := b, sm_stopping_generation := g \<rparr>"
    by (subst s1) simp
  finally have r: "release_children oc s = \<dots>" .
  have "sm_child_generation s = oc_generation oc \<longrightarrow>
      sm_collect s1 = (if map_option ch_id (sm_collect s) = oc_collect oc then None else sm_collect s)
      \<and> sm_monitor s1 = (if map_option ch_id (sm_monitor s) = oc_monitor oc then None else sm_monitor s)"
    by (simp add: s1_def)
  with r show ?thesis by blast
qed

lemma release_fields [simp]:
  "sm_active (release_children oc s) = sm_active s" "sm_commands (release_children oc s) = sm_commands s"
  using release_shape [of oc s] by auto

lemma release_interferes: "interferes s (release_children oc s)"
proof -
  obtain c m k g where "release_children oc s
      = s\<lparr> sm_collect := c, sm_monitor := m, sm_consumed := k, sm_stopping_generation := g \<rparr>"
    using release_shape [of oc s] by blast
  thus ?thesis by (intro interferes_same) simp_all
qed

lemma release_releases:
  assumes "oc_generation oc = sm_child_generation s" "oc_collect oc = map_option ch_id (sm_collect s)"
    "oc_monitor oc = map_option ch_id (sm_monitor s)"
  shows "sm_collect (release_children oc s) = None \<and> sm_monitor (release_children oc s) = None"
  using release_shape [of oc s] assms by auto

section \<open>What a stop promises\<close>

text \<open>The children stay and the stop can be retried, or they were released after a proven OFF.\<close>

definition stop_result :: "shutdown_env \<Rightarrow> sm \<Rightarrow> unit outcome \<times> sm \<Rightarrow> bool" where
  "stop_result sd s r =
     (interferes s (snd r)
      \<and> (settles s (snd r) \<and> fst r \<noteq> Returned () \<and> sm_stopping_generation (snd r) = None
         \<or> sm_active (snd r) = {} \<and> sm_collect (snd r) = None \<and> sm_monitor (snd r) = None
           \<and> (sm_driver s \<noteq> None \<longrightarrow> aw_result (ow_answer (sd_final sd)) = Inr (DvOff DEVICE_REPORTED_OFF)
                \<and> last (sm_commands (snd r)) = CmdOff None)))"

lemma stop_error_not_ok [simp]: "stop_error c m \<noteq> Returned ()"
  by (simp add: stop_error_def)

lemma kept_result:
  "settles s t \<Longrightarrow> out \<noteq> Returned () \<Longrightarrow> sm_stopping_generation t = None \<Longrightarrow> stop_result sd s (out, t)"
  by (simp add: stop_result_def settles_def)

lemma finish_stop_result:
  assumes oc: "oc_generation oc = sm_child_generation s" "oc_collect oc = map_option ch_id (sm_collect s)"
    "oc_monitor oc = map_option ch_id (sm_monitor s)"
  shows "stop_result sd s (finish_stop sd oc c0 reason err s)"
proof -
  define s1 where "s1 = snd (stop_children sd oc s)"
  define d where "d = drain_settlements (sm_pending_settlements s1 \<noteq> []) (sd_late_drain sd) s1"
  define s2 where "s2 = snd (snd d)"
  define p where "p = shutdown_proof (sd_final sd) s2"
  define s3 where "s3 = snd (snd p)"
  have 1: "settles s s1" unfolding s1_def by (rule stop_children_settles)
  have 2: "settles s s2" unfolding s2_def d_def by (rule settles_trans [OF 1 drain_settles])
  have 3: "settles s s3" unfolding s3_def p_def by (rule settles_trans [OF 2 shutdown_proof_settles])
  have "\<exists>out. finish_stop sd oc c0 reason err s
      = (if \<not> fst d then (stop_error (c0 \<or> fst (stop_children sd oc s) \<or> fst (snd d)) SETTLEMENT_HOLD, restore_shutdown_owner_cut oc s2)
         else if \<not> fst p then (stop_error (c0 \<or> fst (stop_children sd oc s) \<or> fst (snd d) \<or> fst (snd p)) HOLD_REASON,
           begin_shutdown_hold oc s3)
         else (out, release_children oc s3))"
    unfolding finish_stop_def Let_def case_prod_beta s1_def [symmetric] d_def [symmetric] s2_def [symmetric]
      p_def [symmetric] s3_def [symmetric] by (rule exI) (rule refl)
  then obtain out where fin: "finish_stop sd oc c0 reason err s
      = (if \<not> fst d then (stop_error (c0 \<or> fst (stop_children sd oc s) \<or> fst (snd d)) SETTLEMENT_HOLD, restore_shutdown_owner_cut oc s2)
         else if \<not> fst p then (stop_error (c0 \<or> fst (stop_children sd oc s) \<or> fst (snd d) \<or> fst (snd p)) HOLD_REASON,
           begin_shutdown_hold oc s3)
         else (out, release_children oc s3))" ..
  show ?thesis
  proof (cases "fst d")
    case False
    thus ?thesis unfolding fin using kept_result [OF settles_trans [OF 2 restore_settles]] restore_retryable by simp
  next
    case d: True
    show ?thesis
    proof (cases "fst p")
      case False
      thus ?thesis unfolding fin using d kept_result [OF settles_trans [OF 3 hold_settles]] hold_retryable by simp
    next
      case True
      hence p: "shutdown_proof (sd_final sd) s2 = (True, fst (snd p), s3)" by (metis p_def prod.collapse s3_def)
      have dr: "sm_driver s2 = None \<longleftrightarrow> sm_driver s = None" using driver_kept 2 by (simp add: settles_def)
      have rel: "sm_collect (release_children oc s3) = None \<and> sm_monitor (release_children oc s3) = None"
        by (rule release_releases) (use oc 3 in \<open>simp_all add: settles_def same_children_def\<close>)
      have "interferes s (release_children oc s3)"
        using interferes_trans [OF _ release_interferes] 3 by (simp add: settles_def)
      thus ?thesis unfolding fin using d True rel shutdown_proof_exact [OF p] dr by (auto simp: stop_result_def)
    qed
  qed
qed

lemma sm_stop_stages:
  assumes idle: "sm_stopping_generation s = None"
  obtains s0 s1 p where "settles s s0" "s0 = observe_terminal_safety_children s" "settles s s1"
    "p = shutdown_proof (sd_global sd) s1" "settles s (snd (snd p))"
    "\<not> fst p \<Longrightarrow> \<exists>c. sm_stop sd s = (stop_error c HOLD_REASON, begin_shutdown_hold (capture_owner s0) (snd (snd p)))"
    "fst p \<Longrightarrow> (\<exists>x c. settles s x \<and> (sm_stop sd s = (stop_error c SETTLEMENT_HOLD, restore_shutdown_owner_cut (capture_owner s0) x)
        \<or> sm_stop sd s = (stop_error c HOLD_REASON, begin_shutdown_hold (capture_owner s0) x)
        \<or> (\<exists>r e. sm_stop sd s = finish_stop sd (capture_owner s0) c r e x)))"
proof -
  define s0 where "s0 = observe_terminal_safety_children s"
  define q where "q = stop_sources sd (stop_cut s0)"
  define s1 where "s1 = snd (snd (snd q))"
  define p where "p = shutdown_proof (sd_global sd) s1"
  define s2 where "s2 = snd (snd p)"
  define needed where "needed = (sm_pending_settlements s1 \<noteq> [] \<or> sm_pending_settlements s2 \<noteq> [])"
  define d where "d = drain_settlements needed (sd_drain sd) s2"
  define s3 where "s3 = snd (snd d)"
  define og where "og = (if needed then shutdown_proof (sd_ordered sd) s3 else (True, False, s3))"
  define s4 where "s4 = snd (snd og)"
  have 0: "settles s s0" by (simp add: s0_def settles_def calm owns)
  have 1: "settles s s1" unfolding s1_def q_def
    by (rule settles_trans [OF settles_trans [OF 0 stop_cut_settles] stop_sources_settles])
  have 2: "settles s s2" unfolding s2_def p_def by (rule settles_trans [OF 1 shutdown_proof_settles])
  have 3: "settles s s3" unfolding s3_def d_def by (rule settles_trans [OF 2 drain_settles])
  have "settles s3 s4" using shutdown_proof_settles [of s3] settles_refl by (simp add: s4_def og_def)
  hence 4: "settles s s4" by (rule settles_trans [OF 3])
  have run: "sm_stop sd s =
      (if \<not> fst p then (stop_error (fst (snd (snd q)) \<or> fst (snd p)) HOLD_REASON, begin_shutdown_hold (capture_owner s0) s2)
       else if \<not> fst d then (stop_error (fst (snd (snd q)) \<or> fst (snd p) \<or> fst (snd d)) SETTLEMENT_HOLD,
         restore_shutdown_owner_cut (capture_owner s0) s3)
       else if \<not> fst og then (stop_error (fst (snd (snd q)) \<or> fst (snd p) \<or> fst (snd d) \<or> fst (snd og)) HOLD_REASON,
         begin_shutdown_hold (capture_owner s0) s4)
       else finish_stop sd (capture_owner s0) (fst (snd (snd q)) \<or> fst (snd p) \<or> fst (snd d) \<or> fst (snd og))
         (fst q) (fst (snd q)) s4)"
    using idle unfolding sm_stop_def Let_def case_prod_beta s0_def [symmetric] q_def [symmetric] s1_def [symmetric]
      p_def [symmetric] s2_def [symmetric] needed_def [symmetric] d_def [symmetric] s3_def [symmetric]
      og_def [symmetric] s4_def [symmetric] by simp
  show ?thesis
    by (rule that [OF 0 s0_def 1 p_def]) (use 2 3 4 run s2_def in \<open>auto split: if_splits\<close>)
qed

lemma sm_stop_result:
  assumes "sm_stopping_generation s = None"
  shows "stop_result sd s (sm_stop sd s)"
proof -
  obtain s0 s1 p where st: "settles s s0" "s0 = observe_terminal_safety_children s" "settles s s1"
      "p = shutdown_proof (sd_global sd) s1" "settles s (snd (snd p))"
    and neg: "\<not> fst p \<Longrightarrow> \<exists>c. sm_stop sd s = (stop_error c HOLD_REASON, begin_shutdown_hold (capture_owner s0) (snd (snd p)))"
    and pos: "fst p \<Longrightarrow> (\<exists>x c. settles s x \<and> (sm_stop sd s = (stop_error c SETTLEMENT_HOLD, restore_shutdown_owner_cut (capture_owner s0) x)
        \<or> sm_stop sd s = (stop_error c HOLD_REASON, begin_shutdown_hold (capture_owner s0) x)
        \<or> (\<exists>r e. sm_stop sd s = finish_stop sd (capture_owner s0) c r e x)))"
    using sm_stop_stages [OF assms, of sd] by metis
  have fin: "stop_result sd s (finish_stop sd (capture_owner s0) c r e x)" if "settles s x" for c r e x
  proof -
    have "stop_result sd x (finish_stop sd (capture_owner s0) c r e x)"
      by (rule finish_stop_result) (use that st(1) in \<open>simp_all add: capture_owner_def settles_def same_children_def\<close>)
    moreover have "sm_driver x = None \<longleftrightarrow> sm_driver s = None" using driver_kept that by (simp add: settles_def)
    ultimately show ?thesis
      using settles_trans [OF that] interferes_trans [of s x] that by (auto simp: stop_result_def settles_def)
  qed
  show ?thesis
  proof (cases "fst p")
    case False
    from neg [OF this] show ?thesis
      using kept_result [OF settles_trans [OF st(5) hold_settles]] hold_retryable by auto
  next
    case True
    from pos [OF this] show ?thesis
      using fin kept_result [OF settles_trans [OF _ hold_settles]] kept_result [OF settles_trans [OF _ restore_settles]]
        hold_retryable restore_retryable by auto
  qed
qed

text \<open>
  C14: A stop of the safety manager gives up its safety children only on a proven OFF. If it returns,
  or if a child is no longer owned after it, no source is active, and the device answered the final
  global OFF, sent after both children had ended, with DEVICE_REPORTED_OFF; otherwise both children are
  still owned and the stop can be repeated. In no case does it start or activate anything.
\<close>

theorem shutdown_sound:
  assumes "sm_stopping_generation s = None" "sm_stop sd s = (out, t)"
  shows "sm_active t \<subseteq> sm_active s \<and> only_safe_commands s t
    \<and> (if out = Returned () \<or> \<not> same_children s t
       then sm_active t = {} \<and> sm_collect t = None \<and> sm_monitor t = None
            \<and> (sm_driver s \<noteq> None \<longrightarrow> aw_result (ow_answer (sd_final sd)) = Inr (DvOff DEVICE_REPORTED_OFF)
                 \<and> last (sm_commands t) = CmdOff None)
       else sm_stopping_generation t = None \<or> sm_collect t = None \<and> sm_monitor t = None)"
proof -
  have r: "stop_result sd s (out, t)" using sm_stop_result [OF assms(1), of sd] assms(2) by simp
  hence "interferes s t" by (simp add: stop_result_def)
  hence "sm_active t \<subseteq> sm_active s" "only_safe_commands s t" by (simp_all add: interferes_def)
  thus ?thesis using r by (auto simp: stop_result_def settles_def)
qed

text \<open>
  A stop without proof holds. When the device does not answer the global OFF with
  DEVICE_REPORTED_OFF, a stop ends with a latched fault, keeps both safety children, does not return
  normally, and lifts its cut so that it can be repeated.
\<close>

theorem shutdown_hold:
  assumes "sm_stopping_generation s = None" "sm_driver s \<noteq> None"
    and no: "aw_result (ow_answer (sd_global sd)) \<noteq> Inr (DvOff DEVICE_REPORTED_OFF)"
    and run: "sm_stop sd s = (out, t)"
  shows "sm_state t = FAULT_LATCHED \<and> same_children s t \<and> out \<noteq> Returned () \<and> sm_stopping_generation t = None"
proof -
  obtain s0 s1 p where st: "settles s s1" "p = shutdown_proof (sd_global sd) s1" "settles s (snd (snd p))"
    and neg: "\<not> fst p \<Longrightarrow> \<exists>c. sm_stop sd s = (stop_error c HOLD_REASON, begin_shutdown_hold (capture_owner s0) (snd (snd p)))"
    using sm_stop_stages [OF assms(1), of sd] by metis
  have "sm_driver s1 \<noteq> None" using driver_kept [of s s1] assms(2) st(1) by (simp add: settles_def)
  hence "\<not> fst p" using no shutdown_proof_exact [of "sd_global sd" s1 "fst (snd p)" "snd (snd p)"] st(2)
    by (metis prod.collapse)
  from neg [OF this] show ?thesis
    using run hold_latched hold_retryable settles_trans [OF st(3) hold_settles] by (auto simp: settles_def)
qed

section \<open>Witnesses\<close>

definition calm_off :: owned_off where
  "calm_off = \<lparr> ow_answer = off_answer, ow_cancelled = False \<rparr>"

definition calm_drain :: drain_wait where
  "calm_drain = \<lparr> dw_wait = quiet_side, dw_drained = True \<rparr>"

definition quiet_stop :: stop_env where
  "quiet_stop = \<lparr> se_stop = (\<lambda>_. off_answer), se_fault = quiet_fault, se_latched_off = off_answer \<rparr>"

definition quiet_shutdown :: shutdown_env where
  "quiet_shutdown = \<lparr> sd_before = quiet_reconcile, sd_sources = quiet_stop, sd_sources_cancelled = False,
     sd_after = quiet_reconcile, sd_global = calm_off, sd_drain = calm_drain, sd_ordered = calm_off,
     sd_prior_cancellations = (\<lambda>_. 0), sd_children = quiet_side, sd_collect_end = ChCancelled 1,
     sd_monitor_end = ChCancelled 1, sd_late_drain = calm_drain, sd_final = calm_off \<rparr>"

text \<open>A stopping manager whose children are still live, with nothing to settle.\<close>

definition stopping :: "sm \<Rightarrow> bool" where
  "stopping s = (sm_collect s = Some \<lparr> ch_id = 1, ch_outcome = None \<rparr> \<and> sm_monitor s = Some \<lparr> ch_id = 2, ch_outcome = None \<rparr>
     \<and> sm_child_generation s = 1 \<and> sm_stopping_generation s = Some 1 \<and> sm_pending_settlements s = []
     \<and> sm_driver s = Some sample_driver \<and> sm_mock s = False \<and> sm_consumed s = {} \<and> sm_active s = {})"

lemma calm_proof:
  assumes "sm_driver s = Some sample_driver" "sm_mock s = False"
  shows "\<exists>t. shutdown_proof calm_off s = (True, False, t) \<and> sm_collect t = sm_collect s \<and> sm_monitor t = sm_monitor s
    \<and> sm_child_generation t = sm_child_generation s \<and> sm_stopping_generation t = sm_stopping_generation s
    \<and> sm_pending_settlements t = sm_pending_settlements s \<and> sm_driver t = sm_driver s \<and> sm_mock t = sm_mock s
    \<and> sm_consumed t = sm_consumed s \<and> sm_active t = {} \<and> sm_stop_cancelled t = sm_stop_cancelled s"
proof -
  have "reviewed_source_off_tier (s\<lparr> sm_commands := c \<rparr>) = VERIFIED_OFF" for c
    using assms by (simp add: reviewed_source_off_tier_def sample_driver_def)
  thus ?thesis
    by (simp add: shutdown_proof_def calm_off_def ensure_with_driver [OF assms(1)] off_answer_def commit_output_off_def
        global_off_evidence_for_result_def off_confirmed_def clear_if_def Let_def)
qed

lemma calm_children:
  assumes "stopping s"
  shows "\<exists>t. stop_children quiet_shutdown oc s = (False, t) \<and> sm_pending_settlements t = [] \<and> sm_driver t = Some sample_driver
    \<and> sm_mock t = False"
  using assms
  by (simp add: stop_children_def quiet_shutdown_def side_def quiet_side_def cancel_child_def child_of_def child_ends_def
      set_child_def consume_child_def operator_child_done_def is_stop_cancelled_child_def stopping_def Let_def)

lemma calm_finish:
  assumes "stopping s"
  shows "\<exists>t. finish_stop quiet_shutdown oc False None None s = (Returned (), t)"
proof -
  obtain t where t: "stop_children quiet_shutdown oc s = (False, t)" "sm_pending_settlements t = []"
      "sm_driver t = Some sample_driver" "sm_mock t = False"
    using calm_children [OF assms] by blast
  obtain u where u: "shutdown_proof calm_off t = (True, False, u)" using calm_proof [OF t(3,4)] by blast
  have "sd_final quiet_shutdown = calm_off" by (simp add: quiet_shutdown_def)
  thus ?thesis using t u by (simp add: finish_stop_def drain_settlements_def)
qed

lemma calm_sources:
  assumes "stopping s"
  shows "stop_sources quiet_shutdown s = (None, None, False, s)"
proof -
  have "observe_terminal_safety_children s = s" by (rule live_children_quiet) (use assms in \<open>simp_all add: stopping_def\<close>)
  moreover have "hazardous_success_conflict s = None"
    using assms by (simp add: hazardous_success_conflict_def current_unmanaged_output_hazard_def
        exact_driver_active_source_cut_def sample_driver_def stopping_def)
  ultimately show ?thesis using assms
    by (simp add: stop_sources_def reconcile_None stopping_def)
qed

lemma sample_shutdown: "\<exists>t. sm_stop quiet_shutdown standby_sm = (Returned (), t)"
proof -
  have live: "live_child (sm_collect standby_sm)" "live_child (sm_monitor standby_sm)"
    by (simp_all add: standby_sm_def)
  let ?s = "stop_cut standby_sm"
  have st: "stopping ?s"
    by (simp add: stopping_def stop_cut_def revoke_connection_def register_abort_intent_def standby_sm_def sm_init_def Let_def)
  obtain u where u: "shutdown_proof calm_off ?s = (True, False, u)" "stopping u"
    using calm_proof [of ?s] st unfolding stopping_def by force
  obtain t where t: "finish_stop quiet_shutdown (capture_owner standby_sm) False None None u = (Returned (), t)"
    using calm_finish [OF u(2)] by blast
  have "sd_global quiet_shutdown = calm_off" "sm_stopping_generation standby_sm = None"
    by (simp_all add: quiet_shutdown_def standby_sm_def sm_init_def Let_def)
  moreover have "sm_pending_settlements ?s = []" "sm_pending_settlements u = []" using st u by (simp_all add: stopping_def)
  ultimately show ?thesis
    using live_children_quiet [OF live] calm_sources [OF st] u(1) t by (simp add: sm_stop_def drain_settlements_def)
qed

lemma shutdown_sound_witness:
  "\<exists>t. sm_stop quiet_shutdown standby_sm = (Returned (), t) \<and> sm_collect t = None \<and> sm_monitor t = None
     \<and> last (sm_commands t) = CmdOff None"
proof -
  obtain t where run: "sm_stop quiet_shutdown standby_sm = (Returned (), t)" using sample_shutdown by blast
  have "sm_stopping_generation standby_sm = None" by (simp add: standby_sm_def sm_init_def Let_def)
  from shutdown_sound [OF this run] run show ?thesis by simp
qed

lemma shutdown_hold_witness:
  "sm_state (snd (sm_stop (quiet_shutdown\<lparr> sd_global := \<lparr> ow_answer = no_answer, ow_cancelled = False \<rparr> \<rparr>) running_sm))
     = FAULT_LATCHED"
proof -
  let ?sd = "quiet_shutdown\<lparr> sd_global := \<lparr> ow_answer = no_answer, ow_cancelled = False \<rparr> \<rparr>"
  obtain out t where run: "sm_stop ?sd running_sm = (out, t)" by force
  have "sm_stopping_generation running_sm = None" "sm_driver running_sm \<noteq> None"
      "aw_result (ow_answer (sd_global ?sd)) \<noteq> Inr (DvOff DEVICE_REPORTED_OFF)"
    by (simp_all add: running_sm_def standby_sm_def sm_init_def no_answer_def Let_def)
  from shutdown_hold [OF this run] run show ?thesis by simp
qed

end
