(* ===== verification/Commands.thy ===== *)
theory Commands
  imports Prelude
begin

text \<open>
  The command vocabulary of the transports (\<^verbatim>\<open>src/cryodaq/core/command_authority.py\<close>) and the
  structural contract of replies (\<^verbatim>\<open>src/cryodaq/core/command_reply_contract.py\<close>), over a datatype of
  the Python values that commands and replies consist of. The work list of the reply validator is
  proved equivalent to a structural specification.

  Texts are their UTF-8 bytes (\<open>py_len\<close> counts their characters).
  \<open>valid_capability_token\<close> (Unicode printability) is not modelled.
\<close>

section \<open>Python values\<close>

datatype pyobj =
    PNone
  | PBool bool
  | PInt int
  | PFloat pyfloat
  | PStr string
  | PList "pyobj list"
  | PTuple "pyobj list"
  | PDict "(pyobj \<times> pyobj) list"
  | POther

fun decimal_digits :: "nat \<Rightarrow> nat" where
  "decimal_digits n = (if n < 10 then 1 else Suc (decimal_digits (n div 10)))"

declare decimal_digits.simps [simp del]

section \<open>Classes of commands\<close>

datatype command_class = READ | MUTATION | SAFE_DIRECTION

datatype safe_direction_kind = TARGETED_OFF | GLOBAL_OFF | LAUNCHER_SHUTDOWN

definition MUTATION_ENVELOPE_KEYS :: "string list" where
  "MUTATION_ENVELOPE_KEYS = [''protocol_major'', ''mutation_capability'', ''capability_token'']"

definition ASSISTANT_READ_ACTIONS :: "string list" where
  "ASSISTANT_READ_ACTIONS = [''assistant.protocol_version'', ''assistant.query'', ''rag.search'']"

definition SAFE_DIRECTION_ACTIONS :: "string list" where
  "SAFE_DIRECTION_ACTIONS = [''keithley_emergency_off'', ''launcher_shutdown'']"

definition ENGINE_READ_ACTIONS :: "string list" where
  "ENGINE_READ_ACTIONS =
    [''engine_ready'', ''replay_ready'', ''mutation_capabilities'', ''protocol_version'',
     ''periodic_subscription_barrier'', ''periodic_alarm_snapshot'', ''safety_status'',
     ''annunciation_status'', ''sinks_status'', ''alarm_v2_status'', ''recent_alarms'',
     ''alarm_v2_history'', ''get_app_mode'', ''experiment_templates'', ''experiment_status'',
     ''experiment_archive_list'', ''experiment_list_archive'', ''experiment_get_active'',
     ''experiment_get_archive_item'', ''experiment_phase_status'', ''calibration_acquisition_status'',
     ''calibration_v2_extract'', ''calibration_v2_coverage'', ''readings_history'',
     ''cooldown_history_get'', ''log_get'', ''calibration_curve_evaluate'', ''calibration_curve_list'',
     ''calibration_curve_get'', ''calibration_curve_lookup'', ''calibration_runtime_status'',
     ''get_sensor_diagnostics'', ''get_vacuum_trend'', ''cooldown_alarm.status'',
     ''vacuum_guard.status'', ''assistant.query'', ''rag.search'', ''multiline.burst_status'',
     ''cooldown_eta_get'']"

definition PREEMPTIVE_SAFE_DIRECTION_KINDS :: "safe_direction_kind list" where
  "PREEMPTIVE_SAFE_DIRECTION_KINDS = [TARGETED_OFF, GLOBAL_OFF, LAUNCHER_SHUTDOWN]"

definition QUARANTINE_BYPASS_SAFE_DIRECTION_KINDS :: "safe_direction_kind list" where
  "QUARANTINE_BYPASS_SAFE_DIRECTION_KINDS = [GLOBAL_OFF, LAUNCHER_SHUTDOWN]"

definition classify :: "string list \<Rightarrow> pyobj \<Rightarrow> command_class" where
  "classify reads action =
     (case action of
        PStr a \<Rightarrow> (if a \<in> set reads then READ else if a \<in> set SAFE_DIRECTION_ACTIONS then SAFE_DIRECTION else MUTATION)
      | _ \<Rightarrow> MUTATION)"

definition classify_engine_command :: "pyobj \<Rightarrow> command_class" where
  "classify_engine_command action = classify ENGINE_READ_ACTIONS action"

definition classify_client_command :: "pyobj \<Rightarrow> command_class" where
  "classify_client_command action = classify (ENGINE_READ_ACTIONS @ ASSISTANT_READ_ACTIONS) action"

definition is_mutation :: "pyobj \<Rightarrow> bool" where
  "is_mutation action = (classify_engine_command action \<noteq> READ)"

definition requires_compatibility :: "pyobj \<Rightarrow> bool" where
  "requires_compatibility action = (classify_engine_command action = MUTATION)"

definition requires_client_compatibility :: "pyobj \<Rightarrow> bool" where
  "requires_client_compatibility action = (classify_client_command action = MUTATION)"

text \<open>\<open>command.get(key)\<close>: an absent key reads as \<open>None\<close>.\<close>

definition pget :: "(pyobj \<times> pyobj) list \<Rightarrow> string \<Rightarrow> pyobj" where
  "pget d k = (case map_of d (PStr k) of None \<Rightarrow> PNone | Some v \<Rightarrow> v)"

definition is_ordinary_command_endpoint_admitted :: "pyobj \<Rightarrow> bool" where
  "is_ordinary_command_endpoint_admitted command =
     (case command of
        PDict d \<Rightarrow> classify_engine_command (pget d ''cmd'') \<noteq> SAFE_DIRECTION
      | _ \<Rightarrow> False)"

definition starts_with :: "string \<Rightarrow> string \<Rightarrow> bool" where
  "starts_with p s = (take (length p) s = p)"

definition is_assistant_namespaced :: "pyobj \<Rightarrow> bool" where
  "is_assistant_namespaced action =
     (case action of PStr a \<Rightarrow> starts_with ''assistant.'' a \<or> starts_with ''rag.'' a | _ \<Rightarrow> False)"

definition is_canonical_lower_hex :: "nat \<Rightarrow> pyobj \<Rightarrow> bool" where
  "is_canonical_lower_hex n v =
     (case v of
        PStr s \<Rightarrow> py_len s = n \<and> list_all (\<lambda>c. c \<in> set ''0123456789abcdef'') s
      | _ \<Rightarrow> False)"

definition exact_safe_direction_kind :: "pyobj \<Rightarrow> safe_direction_kind option" where
  "exact_safe_direction_kind command =
     (case command of
        PDict d \<Rightarrow>
          (let keys = fst ` set d
           in case pget d ''cmd'' of
                PStr action \<Rightarrow>
                  (if action = ''keithley_emergency_off'' then
                     (if keys = {PStr ''cmd''} then Some GLOBAL_OFF
                      else if keys = {PStr ''cmd'', PStr ''channel''}
                              \<and> (pget d ''channel'' = PStr ''smua'' \<or> pget d ''channel'' = PStr ''smub'')
                      then Some TARGETED_OFF
                      else None)
                   else if action = ''launcher_shutdown''
                           \<and> keys = PStr ` {''cmd'', ''engine_instance_id'', ''request_id'', ''shutdown_capability''}
                           \<and> is_canonical_lower_hex 32 (pget d ''engine_instance_id'')
                           \<and> is_canonical_lower_hex 32 (pget d ''request_id'')
                           \<and> is_canonical_lower_hex 64 (pget d ''shutdown_capability'')
                   then Some LAUNCHER_SHUTDOWN
                   else None)
              | _ \<Rightarrow> None)
      | _ \<Rightarrow> None)"

definition is_exact_safe_direction_envelope :: "pyobj \<Rightarrow> bool" where
  "is_exact_safe_direction_envelope command = (exact_safe_direction_kind command \<noteq> None)"

definition is_exact_targeted_off_envelope :: "pyobj \<Rightarrow> bool" where
  "is_exact_targeted_off_envelope command = (exact_safe_direction_kind command = Some TARGETED_OFF)"

definition is_exact_global_off_envelope :: "pyobj \<Rightarrow> bool" where
  "is_exact_global_off_envelope command = (exact_safe_direction_kind command = Some GLOBAL_OFF)"

definition is_exact_launcher_shutdown_envelope :: "pyobj \<Rightarrow> bool" where
  "is_exact_launcher_shutdown_envelope command = (exact_safe_direction_kind command = Some LAUNCHER_SHUTDOWN)"

definition is_preemptive_safe_direction :: "pyobj \<Rightarrow> bool" where
  "is_preemptive_safe_direction command =
     (case exact_safe_direction_kind command of
        None \<Rightarrow> False | Some k \<Rightarrow> k \<in> set PREEMPTIVE_SAFE_DIRECTION_KINDS)"

definition is_quarantine_bypass_safe_direction :: "pyobj \<Rightarrow> bool" where
  "is_quarantine_bypass_safe_direction command =
     (case exact_safe_direction_kind command of
        None \<Rightarrow> False | Some k \<Rightarrow> k \<in> set QUARANTINE_BYPASS_SAFE_DIRECTION_KINDS)"

definition strip_mutation_envelope :: "(pyobj \<times> pyobj) list \<Rightarrow> (pyobj \<times> pyobj) list" where
  "strip_mutation_envelope d = filter (\<lambda>(k, v). k \<notin> PStr ` set MUTATION_ENVELOPE_KEYS) d"

section \<open>The structural contract of replies\<close>

record reply_limits =
  rl_wire_bytes :: int
  rl_depth :: int
  rl_items :: int
  rl_key_chars :: int
  rl_integer_digits :: int

definition COMMAND_REPLY_HISTORY_MAX_ROWS :: nat where
  "COMMAND_REPLY_HISTORY_MAX_ROWS = 80305"

definition default_reply_limits :: reply_limits where
  "default_reply_limits =
     \<lparr> rl_wire_bytes = 4 * 1024 * 1024, rl_depth = 32, rl_items = 4 * int COMMAND_REPLY_HISTORY_MAX_ROWS + 64,
       rl_key_chars = 256, rl_integer_digits = 128 \<rparr>"

definition is_point :: "pyobj \<Rightarrow> bool" where
  "is_point p = (case p of PList xs \<Rightarrow> length xs = 2 | PTuple xs \<Rightarrow> length xs = 2 | _ \<Rightarrow> False)"

fun history_points :: "pyobj \<Rightarrow> pyobj list option" where
  "history_points (PList ps) = (if list_all is_point ps then Some ps else None)"
| "history_points _ = None"

definition validate_history_row_bound :: "(pyobj \<times> pyobj) list \<Rightarrow> unit result" where
  "validate_history_row_bound value =
     (case pget value ''data'' of
        PDict data \<Rightarrow>
          (if data \<noteq> [] \<and> list_all (\<lambda>(k, v). history_points v \<noteq> None) data
              \<and> COMMAND_REPLY_HISTORY_MAX_ROWS < (\<Sum>(k, v) \<leftarrow> data. length (the (history_points v)))
           then Inl (ValueError ''command reply history contains too many rows'') else Inr ())
      | _ \<Rightarrow> Inr ())"

fun key_ok :: "reply_limits \<Rightarrow> pyobj \<Rightarrow> bool" where
  "key_ok rl (PStr k) = (int (py_len k) \<le> rl_key_chars rl)"
| "key_ok rl _ = False"

text \<open>The check of one value, without its children.\<close>

definition leaf_error :: "reply_limits \<Rightarrow> pyobj \<Rightarrow> string option" where
  "leaf_error rl v =
     (case v of
        PDict kvs \<Rightarrow> (if list_all (\<lambda>(k, c). key_ok rl k) kvs then None else Some ''command reply key is invalid or too long'')
      | PList _ \<Rightarrow> None
      | PTuple _ \<Rightarrow> None
      | PStr s \<Rightarrow> (if rl_wire_bytes rl < int (length s) then Some ''command reply string is too long'' else None)
      | PInt i \<Rightarrow> (if rl_integer_digits rl < int (decimal_digits (nat \<bar>i\<bar>)) then Some ''command reply integer is too large'' else None)
      | PFloat x \<Rightarrow> (if fl_isfinite x then None else Some ''non-finite command reply number'')
      | PNone \<Rightarrow> None
      | PBool _ \<Rightarrow> None
      | POther \<Rightarrow> Some ''command reply contains an unsupported value'')"

fun py_children :: "pyobj \<Rightarrow> pyobj list" where
  "py_children (PDict kvs) = map snd kvs"
| "py_children (PList xs) = xs"
| "py_children (PTuple xs) = xs"
| "py_children _ = []"

fun node_count :: "pyobj \<Rightarrow> nat" where
  "node_count (PDict kvs) = Suc (\<Sum>kv \<leftarrow> kvs. node_count (snd kv))"
| "node_count (PList xs) = Suc (\<Sum>x \<leftarrow> xs. node_count x)"
| "node_count (PTuple xs) = Suc (\<Sum>x \<leftarrow> xs. node_count x)"
| "node_count _ = 1"

lemma node_count_children: "node_count v = Suc (\<Sum>c \<leftarrow> py_children v. node_count c)"
  by (cases v) (simp_all add: comp_def)

definition stack_size :: "(pyobj \<times> int) list \<Rightarrow> nat" where
  "stack_size st = (\<Sum>x \<leftarrow> st. node_count (fst x))"

lemma stack_size_simps [simp]:
  "stack_size [] = 0" "stack_size (x # st) = node_count (fst x) + stack_size st"
  "stack_size (st @ st') = stack_size st + stack_size st'"
  by (simp_all add: stack_size_def)

lemma stack_size_push: "stack_size (rev (map (\<lambda>c. (c, d)) cs)) = (\<Sum>c \<leftarrow> cs. node_count c)"
  by (induction cs) simp_all

text \<open>The loop over the work list; its top is the head, so the children are pushed in reverse.\<close>

function (sequential) scan_reply :: "reply_limits \<Rightarrow> int \<Rightarrow> (pyobj \<times> int) list \<Rightarrow> unit result" where
  "scan_reply rl n [] = Inr ()"
| "scan_reply rl n ((current, depth) # pending) =
     (if rl_items rl < n + 1 then Inl (ValueError ''command reply contains too many items'')
      else if rl_depth rl < depth then Inl (ValueError ''command reply is nested too deeply'')
      else (case leaf_error rl current of
              Some e \<Rightarrow> Inl (ValueError e)
            | None \<Rightarrow> scan_reply rl (n + 1) (rev (map (\<lambda>c. (c, depth + 1)) (py_children current)) @ pending)))"
  by pat_completeness auto

termination
proof (relation "measure (\<lambda>(rl, n, st). stack_size st)", simp)
  fix rl :: reply_limits and n depth :: int and current pending
  have "stack_size (rev (map (\<lambda>c. (c, depth + 1)) (py_children current)) @ pending) < stack_size ((current, depth) # pending)"
    using node_count_children [of current] by (simp add: stack_size_push)
  thus "((rl, n + 1, rev (map (\<lambda>c. (c, depth + 1)) (py_children current)) @ pending), rl, n, (current, depth) # pending)
      \<in> measure (\<lambda>(rl, n, st). stack_size st)"
    by simp
qed

definition validate_command_reply_structure :: "reply_limits \<Rightarrow> pyobj \<Rightarrow> pyobj result" where
  "validate_command_reply_structure rl value =
     (if rl_wire_bytes rl \<le> 0 \<or> rl_depth rl \<le> 0 \<or> rl_items rl \<le> 0 \<or> rl_key_chars rl \<le> 0 \<or> rl_integer_digits rl \<le> 0
      then Inl (ValueError ''command reply limits are invalid'')
      else
        (case value of
           PDict d \<Rightarrow>
             res_bind (validate_history_row_bound d) (\<lambda>_.
               res_bind (scan_reply rl 0 [(value, 1)]) (\<lambda>_. Inr value))
         | _ \<Rightarrow> Inl (ValueError ''command reply JSON root must be an object'')))"

section \<open>The structural specification\<close>

text \<open>Every value below a root passes its own check.\<close>

fun well_formed :: "reply_limits \<Rightarrow> pyobj \<Rightarrow> bool" where
  "well_formed rl (PDict kvs) = (leaf_error rl (PDict kvs) = None \<and> (\<forall>kv \<in> set kvs. well_formed rl (snd kv)))"
| "well_formed rl (PList xs) = (\<forall>x \<in> set xs. well_formed rl x)"
| "well_formed rl (PTuple xs) = (\<forall>x \<in> set xs. well_formed rl x)"
| "well_formed rl v = (leaf_error rl v = None)"

fun nesting :: "pyobj \<Rightarrow> nat" where
  "nesting (PDict kvs) = Suc (fold max (map (\<lambda>kv. nesting (snd kv)) kvs) 0)"
| "nesting (PList xs) = Suc (fold max (map nesting xs) 0)"
| "nesting (PTuple xs) = Suc (fold max (map nesting xs) 0)"
| "nesting _ = 1"

lemma fold_max_le: "fold max xs (a :: nat) \<le> b \<longleftrightarrow> a \<le> b \<and> (\<forall>x \<in> set xs. x \<le> b)"
  by (induction xs arbitrary: a) auto

lemma nesting_children: "nesting v = Suc (fold max (map nesting (py_children v)) 0)"
  by (cases v) (simp_all add: comp_def)

lemma nesting_bound:
  "d + int (nesting v) - 1 \<le> m \<longleftrightarrow> d \<le> m \<and> (\<forall>c \<in> set (py_children v). d + 1 + int (nesting c) - 1 \<le> m)"
proof -
  have "d + int (nesting v) - 1 \<le> m \<longleftrightarrow> d \<le> m \<and> fold max (map nesting (py_children v)) 0 \<le> nat (m - d)"
    by (simp add: nesting_children [of v]) linarith
  also have "\<dots> \<longleftrightarrow> d \<le> m \<and> (\<forall>c \<in> set (py_children v). nesting c \<le> nat (m - d))"
    by (simp add: fold_max_le)
  also have "\<dots> \<longleftrightarrow> d \<le> m \<and> (\<forall>c \<in> set (py_children v). d + 1 + int (nesting c) - 1 \<le> m)"
    by (intro conj_cong ball_cong refl) linarith
  finally show ?thesis .
qed

lemma well_formed_children: "well_formed rl v \<longleftrightarrow> leaf_error rl v = None \<and> (\<forall>c \<in> set (py_children v). well_formed rl c)"
  by (cases v) (simp_all add: leaf_error_def)

definition stack_ok :: "reply_limits \<Rightarrow> (pyobj \<times> int) list \<Rightarrow> bool" where
  "stack_ok rl st = list_all (\<lambda>(v, d). d + int (nesting v) - 1 \<le> rl_depth rl \<and> well_formed rl v) st"

lemma scan_reply_iff:
  "n \<le> rl_items rl \<Longrightarrow> scan_reply rl n st = Inr () \<longleftrightarrow> n + int (stack_size st) \<le> rl_items rl \<and> stack_ok rl st"
proof (induction rl n st rule: scan_reply.induct)
  case (1 rl n)
  thus ?case by (simp add: stack_ok_def)
next
  case (2 rl n current depth pending)
  have size: "n + int (stack_size ((current, depth) # pending))
      = n + 1 + int (stack_size (rev (map (\<lambda>c. (c, depth + 1)) (py_children current)) @ pending))"
    using node_count_children [of current] by (simp add: stack_size_push)
  have ok: "stack_ok rl ((current, depth) # pending) \<longleftrightarrow> depth \<le> rl_depth rl \<and> leaf_error rl current = None
      \<and> stack_ok rl (rev (map (\<lambda>c. (c, depth + 1)) (py_children current)) @ pending)"
    unfolding stack_ok_def
    using nesting_bound [of depth current "rl_depth rl"] well_formed_children [of rl current]
    by (force simp: list_all_iff ball_Un)
  show ?case
  proof (cases "rl_items rl < n + 1 \<or> rl_depth rl < depth \<or> leaf_error rl current \<noteq> None")
    case True
    hence "scan_reply rl n ((current, depth) # pending) \<noteq> Inr ()" by (auto split: option.splits)
    moreover have "\<not> (n + int (stack_size ((current, depth) # pending)) \<le> rl_items rl \<and> stack_ok rl ((current, depth) # pending))"
      using True ok size by linarith
    ultimately show ?thesis by blast
  next
    case False
    thus ?thesis using "2.IH" ok size by (simp del: stack_size_simps add: algebra_simps)
  qed
qed



section \<open>Safe-direction commands\<close>

lemma exact_kind_action:
  assumes "exact_safe_direction_kind c = Some k"
  obtains d a where "c = PDict d" "pget d ''cmd'' = PStr a" "a \<in> set SAFE_DIRECTION_ACTIONS"
  using assms
  by (auto simp: exact_safe_direction_kind_def SAFE_DIRECTION_ACTIONS_def Let_def split: pyobj.splits if_splits)

lemma safe_not_read: "a \<in> set SAFE_DIRECTION_ACTIONS \<Longrightarrow> a \<notin> set ENGINE_READ_ACTIONS"
  by (auto simp: SAFE_DIRECTION_ACTIONS_def ENGINE_READ_ACTIONS_def)

text \<open>
  The safe lane and the ordinary endpoint are disjoint, and naming is not enough. A canonical
  safe-direction envelope is admitted to the preemptive lane and never to the ordinary endpoint; a
  dictionary that names a safe action without being canonical is admitted to neither; only an exact
  global OFF or launcher shutdown may bypass a quarantine; and everything that is not an exact
  observational action or a safe-direction name is classified as a mutation.
\<close>

theorem safe_lane_exclusive:
  "(is_preemptive_safe_direction c \<longrightarrow> \<not> is_ordinary_command_endpoint_admitted c)
   \<and> is_preemptive_safe_direction c = is_exact_safe_direction_envelope c
   \<and> (\<not> is_preemptive_safe_direction c \<and> \<not> is_ordinary_command_endpoint_admitted c \<longrightarrow>
        (\<forall>d. c = PDict d \<longrightarrow> (\<exists>a \<in> set SAFE_DIRECTION_ACTIONS. pget d ''cmd'' = PStr a)))
   \<and> (is_quarantine_bypass_safe_direction c \<longleftrightarrow>
        is_exact_global_off_envelope c \<or> is_exact_launcher_shutdown_envelope c)
   \<and> (is_exact_targeted_off_envelope c \<longrightarrow> \<not> is_quarantine_bypass_safe_direction c)
   \<and> (classify_engine_command x = MUTATION \<longleftrightarrow>
        (\<forall>a \<in> set ENGINE_READ_ACTIONS \<union> set SAFE_DIRECTION_ACTIONS. x \<noteq> PStr a))"
proof -
  have pre: "is_preemptive_safe_direction c \<longleftrightarrow> (\<exists>k. exact_safe_direction_kind c = Some k)"
    by (auto simp: is_preemptive_safe_direction_def PREEMPTIVE_SAFE_DIRECTION_KINDS_def
        split: option.splits intro: safe_direction_kind.exhaust)
  have "is_preemptive_safe_direction c \<longrightarrow> \<not> is_ordinary_command_endpoint_admitted c"
    unfolding pre
    by (auto elim!: exact_kind_action simp: safe_not_read
        is_ordinary_command_endpoint_admitted_def classify_engine_command_def classify_def)
  moreover have "\<not> is_ordinary_command_endpoint_admitted (PDict d) \<longrightarrow> (\<exists>a \<in> set SAFE_DIRECTION_ACTIONS. pget d ''cmd'' = PStr a)" for d
    by (simp add: is_ordinary_command_endpoint_admitted_def classify_engine_command_def classify_def split: pyobj.splits)
  moreover have "is_quarantine_bypass_safe_direction c \<longleftrightarrow>
      exact_safe_direction_kind c \<in> {Some GLOBAL_OFF, Some LAUNCHER_SHUTDOWN}"
    by (auto simp: is_quarantine_bypass_safe_direction_def QUARANTINE_BYPASS_SAFE_DIRECTION_KINDS_def split: option.splits)
  moreover have "classify_engine_command x = MUTATION \<longleftrightarrow>
      (\<forall>a \<in> set ENGINE_READ_ACTIONS \<union> set SAFE_DIRECTION_ACTIONS. x \<noteq> PStr a)"
    by (cases x) (auto simp: classify_engine_command_def classify_def)
  ultimately show ?thesis
    using pre
    by (auto simp: is_exact_safe_direction_envelope_def is_exact_targeted_off_envelope_def
        is_exact_global_off_envelope_def is_exact_launcher_shutdown_envelope_def)
qed

lemma safe_lane_exclusive_witness:
  "\<not> is_ordinary_command_endpoint_admitted (PDict [(PStr ''cmd'', PStr ''keithley_emergency_off'')])
   \<and> is_quarantine_bypass_safe_direction (PDict [(PStr ''cmd'', PStr ''keithley_emergency_off'')])
   \<and> classify_engine_command (PStr ''set_power'') = MUTATION"
proof -
  let ?c = "PDict [(PStr ''cmd'', PStr ''keithley_emergency_off'')]"
  have k: "exact_safe_direction_kind ?c = Some GLOBAL_OFF"
    by (simp add: exact_safe_direction_kind_def pget_def)
  have "\<forall>a \<in> set ENGINE_READ_ACTIONS \<union> set SAFE_DIRECTION_ACTIONS. PStr ''set_power'' \<noteq> PStr a"
    by (simp add: ENGINE_READ_ACTIONS_def SAFE_DIRECTION_ACTIONS_def)
  thus ?thesis using safe_lane_exclusive [of ?c "PStr ''set_power''"] k
    by (auto simp: is_exact_safe_direction_envelope_def is_exact_global_off_envelope_def)
qed

definition SAFE_KEYS :: "string list" where
  "SAFE_KEYS = [''cmd'', ''channel'', ''engine_instance_id'', ''request_id'', ''shutdown_capability'']"

lemma exact_kind_keys: "exact_safe_direction_kind (PDict d) = Some k \<Longrightarrow> fst ` set d \<subseteq> PStr ` set SAFE_KEYS"
  unfolding exact_safe_direction_kind_def pyobj.case Let_def
  by (cases "pget d ''cmd''") (simp_all add: SAFE_KEYS_def split: if_splits)

text \<open>
  Stripping the compatibility envelope leaves no envelope key in the command, keeps every other
  entry in its place, and so can change neither the class of the command nor its safe-direction kind.
\<close>

theorem strip_envelope_neutral:
  "(\<forall>k \<in> set MUTATION_ENVELOPE_KEYS. PStr k \<notin> fst ` set (strip_mutation_envelope d))
   \<and> (\<forall>k. k \<notin> set MUTATION_ENVELOPE_KEYS \<longrightarrow> pget (strip_mutation_envelope d) k = pget d k)
   \<and> strip_mutation_envelope (strip_mutation_envelope d) = strip_mutation_envelope d
   \<and> is_ordinary_command_endpoint_admitted (PDict (strip_mutation_envelope d))
     = is_ordinary_command_endpoint_admitted (PDict d)
   \<and> (exact_safe_direction_kind (PDict d) = Some k \<longrightarrow> strip_mutation_envelope d = d)"
proof -
  have get: "map_of (strip_mutation_envelope d) (PStr k) = map_of d (PStr k)" if "k \<notin> set MUTATION_ENVELOPE_KEYS" for k
    using that by (induction d) (auto simp: strip_mutation_envelope_def)
  have "strip_mutation_envelope d = d" if "\<forall>x \<in> fst ` set d. x \<notin> PStr ` set MUTATION_ENVELOPE_KEYS"
    using that by (auto simp: strip_mutation_envelope_def filter_id_conv)
  moreover have "\<forall>x \<in> fst ` set d. x \<notin> PStr ` set MUTATION_ENVELOPE_KEYS"
    if "exact_safe_direction_kind (PDict d) = Some k"
  proof -
    have "fst ` set d \<subseteq> PStr ` set SAFE_KEYS" using that by (rule exact_kind_keys)
    moreover have "set SAFE_KEYS \<inter> set MUTATION_ENVELOPE_KEYS = {}" by (simp add: SAFE_KEYS_def MUTATION_ENVELOPE_KEYS_def)
    ultimately show ?thesis by blast
  qed
  moreover have "''cmd'' \<notin> set MUTATION_ENVELOPE_KEYS" by (simp add: MUTATION_ENVELOPE_KEYS_def)
  ultimately show ?thesis using get
    by (auto simp: pget_def is_ordinary_command_endpoint_admitted_def strip_mutation_envelope_def)
qed

lemma strip_envelope_neutral_witness:
  "pget (strip_mutation_envelope [(PStr ''cmd'', PStr ''x''), (PStr ''capability_token'', PStr ''t'')]) ''cmd'' = PStr ''x''"
  using strip_envelope_neutral [of "[(PStr ''cmd'', PStr ''x''), (PStr ''capability_token'', PStr ''t'')]"]
  by (simp add: MUTATION_ENVELOPE_KEYS_def pget_def)

end
