(* ===== verification/CooldownAlarm.thy ===== *)
theory CooldownAlarm
  imports Vacuum
begin

text \<open>
  \<open>CooldownAlarm\<close> of \<^verbatim>\<open>src/cryodaq/core/cooldown_alarm.py\<close>: the operator-armed alarm on the
  trajectory of a cooldown and the watchdog after it. The record holds the configuration, the machine,
  the alarm manager and the channel tracker it was constructed with, and two logs: the state events it
  published and the latches it asked the safety manager for. The trained model (duration statistics,
  mean progress curve, \<open>predict\<close>) and the steady state predictor are parameters that may answer or
  raise. An exception inside \<open>publish\<close> or \<open>latch_fault\<close> is logged and ignored by the source.

  A tick awaits the publication of each state event. What other tasks call on the alarm during these
  awaits are the lists \<open>ce_during1\<close> and \<open>ce_during2\<close>; the generation counter of the code is what makes
  an overtaken tick harmless. \<open>ce_now\<close> is \<open>time.time()\<close>, \<open>ce_clk\<close> is \<open>time.monotonic()\<close>.
\<close>

section \<open>State\<close>

datatype cooldown_state =
    CaDISARMED | CaARMED | CaWATCHING | CaFIRED | CaAUTO_DISARMED | CaWATCHDOG | CaWATCHDOG_FIRED

definition CA_ALARM_ID :: string where "CA_ALARM_ID = ''cooldown_alarm''"
definition CA_WATCHDOG_ALARM_ID :: string where "CA_WATCHDOG_ALARM_ID = ''cooldown_watchdog''"
definition RATE_MIN_HISTORY_H :: real where "RATE_MIN_HISTORY_H = 1 / 2"

text \<open>The loaded model: a mean curve or none, either of which may raise (\<open>None\<close> of the answer).\<close>

record cool_model =
  cm_duration_mean :: pyfloat
  cm_duration_std :: pyfloat
  cm_p_of_t_mean :: "(pyfloat \<Rightarrow> pyfloat option) option"
  cm_predict :: "pyfloat \<Rightarrow> pyfloat \<Rightarrow> pyfloat \<Rightarrow> (pyfloat \<times> pyfloat) option"

datatype steady_answer = SsAbsent | SsRaises | SsNone | SsQuasi bool

datatype model_answer = ModelMissing | ModelBroken | ModelLoaded cool_model

record cool_cfg =
  cc_cold_channel :: string
  cc_warm_channel :: string
  cc_k_p :: pyfloat
  cc_sustained_min :: int
  cc_base_temp_K :: pyfloat
  cc_base_epsilon_K :: pyfloat
  cc_auto_disarm_progress :: pyfloat
  cc_eta_slip_window_min :: real
  cc_eta_slip_threshold_h :: pyfloat
  cc_auto_arm :: bool
  cc_watchdog_enabled :: bool
  cc_watchdog_margin_K :: pyfloat
  cc_watchdog_level :: string
  cc_watchdog_sustained_s :: real
  cc_eval_interval_s :: real
  cc_cold_start_skip_margin_K :: pyfloat

record cool =
  ca_cfg :: cool_cfg
  ca_watchdog_required_ticks :: int
  ca_eta_maxlen :: nat
  ca_has_safety :: bool
  ca_state :: cooldown_state
  ca_model :: "cool_model option"
  ca_t_armed :: "real option"
  ca_sustained_count :: nat
  ca_watchdog_count :: nat
  ca_progress :: "pyfloat option"
  ca_eta_h :: "pyfloat option"
  ca_finalize_requested :: bool
  ca_cold_start_skipped :: bool
  ca_cycle_generation :: nat
  ca_eta_history :: "(real \<times> pyfloat) list"
  ca_mgr :: alarm_mgr
  ca_tracker :: tracker
  ca_published :: "(cooldown_state \<times> pyfloat option \<times> pyfloat option) list"
  ca_latches :: "alarm_message list"

text \<open>The values of \<open>cfg.get\<close> where a key is absent.\<close>

definition cool_cfg_default :: cool_cfg where
  "cool_cfg_default =
     \<lparr> cc_cold_channel = ''T12'', cc_warm_channel = ''T11'', cc_k_p = Fin (5/2), cc_sustained_min = 5,
       cc_base_temp_K = Fin 5, cc_base_epsilon_K = Fin 1, cc_auto_disarm_progress = Fin (95/100),
       cc_eta_slip_window_min = 60, cc_eta_slip_threshold_h = Fin (1/2), cc_auto_arm = True,
       cc_watchdog_enabled = False, cc_watchdog_margin_K = Fin 1, cc_watchdog_level = ''WARNING'',
       cc_watchdog_sustained_s = 300, cc_eval_interval_s = 30, cc_cold_start_skip_margin_K = Fin 5 \<rparr>"

text \<open>\<open>__init__\<close>: the interval may not be 0, nor the slip window so negative that the deque has no bound.\<close>

definition cool_init :: "cool_cfg \<Rightarrow> bool \<Rightarrow> tracker \<Rightarrow> alarm_mgr \<Rightarrow> cool result" where
  "cool_init cfg has_safety k m =
     (if cc_eval_interval_s cfg = 0 then Inl ZeroDivisionError
      else
        (let maxlen = py_int (cc_eta_slip_window_min cfg * 2 + 10)
         in if maxlen < 0 then Inl (ValueError ''maxlen must be non-negative'')
            else Inr \<lparr> ca_cfg = cfg,
              ca_watchdog_required_ticks = max 1 \<lceil>cc_watchdog_sustained_s cfg / cc_eval_interval_s cfg\<rceil>,
              ca_eta_maxlen = nat maxlen, ca_has_safety = has_safety,
              ca_state = CaDISARMED, ca_model = None, ca_t_armed = None, ca_sustained_count = 0,
              ca_watchdog_count = 0, ca_progress = None, ca_eta_h = None, ca_finalize_requested = False,
              ca_cold_start_skipped = False, ca_cycle_generation = 0, ca_eta_history = [],
              ca_mgr = m, ca_tracker = k, ca_published = [], ca_latches = [] \<rparr>))"

section \<open>Calls of the operator and the engine\<close>

definition cool_process :: "string \<Rightarrow> alarm_event option \<Rightarrow> real \<Rightarrow> cool \<Rightarrow> transition option \<times> cool" where
  "cool_process alarm_id event now c =
     (let (tr, m) = alarm_process (ca_mgr c) alarm_id event empty_cfg now now
      in (tr, c\<lparr> ca_mgr := m \<rparr>))"

definition cool_clear :: "string \<Rightarrow> real \<Rightarrow> cool \<Rightarrow> cool" where
  "cool_clear alarm_id now c = snd (cool_process alarm_id None now c)"

definition cool_get :: "string \<Rightarrow> real \<Rightarrow> cool \<Rightarrow> channel_state option \<times> cool" where
  "cool_get ch now c = (let (st, k) = tk_get (ca_tracker c) ch now in (st, c\<lparr> ca_tracker := k \<rparr>))"

definition is_auto_arm_enabled :: "cool \<Rightarrow> bool" where
  "is_auto_arm_enabled c = cc_auto_arm (ca_cfg c)"

definition is_cold_start :: "steady_answer \<Rightarrow> real \<Rightarrow> cool \<Rightarrow> bool \<times> cool" where
  "is_cold_start steady now c =
     (let (cold, c1) = cool_get (cc_cold_channel (ca_cfg c)) now c;
          base = cc_base_temp_K (ca_cfg c);
          base_max = fl_add base (cc_cold_start_skip_margin_K (ca_cfg c))
      in (case cold of
            None \<Rightarrow> False
          | Some st \<Rightarrow>
              \<not> cs_is_stale st \<and> fl_le base (cs_value st) \<and> fl_le (cs_value st) base_max
              \<and> (case steady of SsAbsent \<Rightarrow> True | SsRaises \<Rightarrow> False | SsNone \<Rightarrow> False | SsQuasi q \<Rightarrow> q), c1))"

definition cool_arm_ready :: "real \<Rightarrow> cool \<Rightarrow> cool" where
  "cool_arm_ready clk c =
     c\<lparr> ca_t_armed := Some clk, ca_sustained_count := 0, ca_progress := None, ca_eta_h := None,
        ca_eta_history := [], ca_finalize_requested := False, ca_state := CaARMED \<rparr>"

definition cool_arm :: "steady_answer \<Rightarrow> model_answer \<Rightarrow> real \<Rightarrow> real \<Rightarrow> cool \<Rightarrow> bool \<times> cool" where
  "cool_arm steady answer now clk c =
     (let (cold_start, c1) = is_cold_start steady now c
      in if cold_start then
           (let c2 = snd (cool_get (cc_cold_channel (ca_cfg c1)) now c1);
                c3 = snd (cool_get (cc_warm_channel (ca_cfg c2)) now c2)
            in (False, c3\<lparr> ca_cold_start_skipped := True \<rparr>))
         else
           (let c2 = c1\<lparr> ca_cold_start_skipped := False \<rparr>;
                c3 = (if ca_state c2 \<in> {CaAUTO_DISARMED, CaWATCHDOG, CaWATCHDOG_FIRED}
                      then (cool_clear CA_WATCHDOG_ALARM_ID now c2)\<lparr> ca_watchdog_count := 0, ca_state := CaDISARMED \<rparr>
                      else c2)
            in case ca_model c3 of
                 Some _ \<Rightarrow> (True, cool_arm_ready clk c3)
               | None \<Rightarrow>
                   (case answer of
                      ModelLoaded model \<Rightarrow> (True, cool_arm_ready clk (c3\<lparr> ca_model := Some model \<rparr>))
                    | _ \<Rightarrow> (False, c3))))"

definition cool_disarm :: "real \<Rightarrow> cool \<Rightarrow> cool" where
  "cool_disarm now c =
     cool_clear CA_WATCHDOG_ALARM_ID now (cool_clear CA_ALARM_ID now
       (c\<lparr> ca_cycle_generation := ca_cycle_generation c + 1, ca_state := CaDISARMED,
           ca_sustained_count := 0, ca_watchdog_count := 0, ca_finalize_requested := False,
           ca_eta_h := None, ca_progress := None \<rparr>))"

definition notify_experiment_finalized :: "cool \<Rightarrow> cool" where
  "notify_experiment_finalized c = c\<lparr> ca_finalize_requested := True \<rparr>"

definition notify_phase_change :: "string \<Rightarrow> real \<Rightarrow> cool \<Rightarrow> cool" where
  "notify_phase_change new_phase now c =
     (if new_phase = ''cooldown'' then c\<lparr> ca_cold_start_skipped := False \<rparr>
      else if ca_state c = CaDISARMED then c
      else cool_disarm now c)"

datatype cool_call =
    CallArm steady_answer model_answer real
  | CallDisarm
  | CallFinalized
  | CallPhase string

fun cool_apply :: "real \<Rightarrow> cool_call \<Rightarrow> cool \<Rightarrow> cool" where
  "cool_apply now (CallArm steady answer clk) c = snd (cool_arm steady answer now clk c)"
| "cool_apply now CallDisarm c = cool_disarm now c"
| "cool_apply now CallFinalized c = notify_experiment_finalized c"
| "cool_apply now (CallPhase p) c = notify_phase_change p now c"

text \<open>\<open>_publish_state_event\<close>, during whose await other tasks make \<open>calls\<close>.\<close>

definition cool_publish :: "cool_call list \<Rightarrow> real \<Rightarrow> cool \<Rightarrow> cool" where
  "cool_publish calls now c =
     fold (cool_apply now) calls
       (c\<lparr> ca_published := ca_published c @ [(ca_state c, ca_progress c, ca_eta_h c)] \<rparr>)"

section \<open>One tick\<close>

record cool_env =
  ce_now :: real
  ce_clk :: real
  ce_steady :: steady_answer
  ce_during1 :: "cool_call list"
  ce_during2 :: "cool_call list"

text \<open>Python's \<open>max\<close> and \<open>min\<close> of two floats: the first, unless the second compares beyond it.\<close>

definition fl_max :: "pyfloat \<Rightarrow> pyfloat \<Rightarrow> pyfloat" where
  "fl_max a b = (if fl_less a b then b else a)"

definition fl_min :: "pyfloat \<Rightarrow> pyfloat \<Rightarrow> pyfloat" where
  "fl_min a b = (if fl_less b a then b else a)"

text \<open>The quotients of the code divide by a maximum with a positive number, never by zero.\<close>

definition fl_quot :: "pyfloat \<Rightarrow> pyfloat \<Rightarrow> pyfloat" where
  "fl_quot a b = (case fl_div a b of Inr q \<Rightarrow> q | Inl _ \<Rightarrow> NaN)"

lemma fl_max_pos_nonzero: "0 < b \<Longrightarrow> fl_max a (Fin b) \<noteq> Fin 0"
  by (cases a) (auto simp: fl_max_def)

lemma fl_quot_faithful: "0 < b \<Longrightarrow> fl_div a (fl_max x (Fin b)) = Inr (fl_quot a (fl_max x (Fin b)))"
  using fl_max_pos_nonzero [of b x] by (simp add: fl_quot_def fl_div_def)

definition auto_disarm_base :: "cool \<Rightarrow> pyfloat" where
  "auto_disarm_base c = fl_add (cc_base_temp_K (ca_cfg c)) (cc_base_epsilon_K (ca_cfg c))"

definition cooldown_complete :: "cool \<Rightarrow> pyfloat \<Rightarrow> bool" where
  "cooldown_complete c t_cold =
     (fl_le t_cold (auto_disarm_base c)
      \<or> (case ca_progress c of None \<Rightarrow> False | Some p \<Rightarrow> fl_le (cc_auto_disarm_progress (ca_cfg c)) p))"

definition cool_auto_disarm :: "cool_env \<Rightarrow> cool \<Rightarrow> transition option result \<times> cool" where
  "cool_auto_disarm env c =
     (let (tr, c1) = cool_process CA_ALARM_ID None (ce_now env) (c\<lparr> ca_state := CaAUTO_DISARMED \<rparr>);
          c2 = cool_publish (ce_during1 env) (ce_now env) c1
      in (Inr tr,
          if cc_watchdog_enabled (ca_cfg c2)
          then cool_publish (ce_during2 env) (ce_now env) (c2\<lparr> ca_watchdog_count := 0, ca_state := CaWATCHDOG \<rparr>)
          else c2))"

definition expected_progress :: "cool_model \<Rightarrow> pyfloat \<Rightarrow> pyfloat" where
  "expected_progress model t_h =
     (let linear = fl_min (Fin 1) (fl_quot t_h (fl_max (cm_duration_mean model) (Fin (1/10))))
      in case cm_p_of_t_mean model of
           None \<Rightarrow> linear
         | Some curve \<Rightarrow>
             (case curve t_h of None \<Rightarrow> linear | Some p \<Rightarrow> fl_max (Fin 0) (fl_min (Fin 1) p)))"

definition progress_sigma :: "cool_model \<Rightarrow> pyfloat" where
  "progress_sigma model =
     fl_mul (fl_quot (cm_duration_std model) (fl_max (cm_duration_mean model) (Fin (1/10)))) (Fin (1/2))"

definition in_deviation :: "cool \<Rightarrow> cool_model \<Rightarrow> pyfloat \<Rightarrow> pyfloat \<Rightarrow> pyfloat \<Rightarrow> bool" where
  "in_deviation c model t_cold t_h p_actual =
     (fl_less (fl_mul (cc_k_p (ca_cfg c)) (progress_sigma model)) (fl_sub (expected_progress model t_h) p_actual)
      \<and> fl_less (auto_disarm_base c) t_cold)"

text \<open>The slip of the estimate against the newest entry at least 0.9 windows old.\<close>

definition eta_slip :: "cool \<Rightarrow> real \<Rightarrow> pyfloat \<Rightarrow> pyfloat option" where
  "eta_slip c now eta =
     (let window = cc_eta_slip_window_min (ca_cfg c);
          old = filter (\<lambda>(t, e). window * 60 * (9/10) \<le> now - t) (ca_eta_history c)
      in if old = [] then None
         else Some (fl_sub eta (fl_sub (snd (last old)) (Fin (window / 60)))))"

definition deviation_event :: "cool \<Rightarrow> real \<Rightarrow> pyfloat \<Rightarrow> pyfloat \<Rightarrow> pyfloat option \<Rightarrow> alarm_event" where
  "deviation_event c now t_cold t_warm slip =
     (let cold = cc_cold_channel (ca_cfg c); warm = cc_warm_channel (ca_cfg c);
          slipped = (case slip of None \<Rightarrow> False | Some s \<Rightarrow> fl_less (cc_eta_slip_threshold_h (ca_cfg c)) s)
      in alarm_event_new CA_ALARM_ID ''CRITICAL''
           (MsgFormat (if slipped then ''cooldown off plan, ETA slipped'' else ''cooldown off plan'') cold (Some t_cold))
           now [cold, warm] (dict_set warm t_warm [(cold, t_cold)]))"

text \<open>From the updated counter on: the edge, its publication, the generation check, the alarm, the latch.\<close>

definition cool_conclude ::
  "nat \<Rightarrow> cool_env \<Rightarrow> alarm_event \<Rightarrow> cool \<Rightarrow> transition option result \<times> cool" where
  "cool_conclude cycle env ev c =
     (let fire = (cc_sustained_min (ca_cfg c) \<le> int (ca_sustained_count c));
          just_fired = (fire \<and> ca_state c \<noteq> CaFIRED);
          c1 = (if just_fired then cool_publish (ce_during2 env) (ce_now env) (c\<lparr> ca_state := CaFIRED \<rparr>)
                else if \<not> fire \<and> ca_state c = CaFIRED
                then cool_publish (ce_during2 env) (ce_now env) (c\<lparr> ca_state := CaWATCHING \<rparr>)
                else c)
      in if cycle \<noteq> ca_cycle_generation c1 then (Inr None, c1)
         else
           (let (tr, c2) = cool_process CA_ALARM_ID (if fire then Some ev else None) (ce_now env) c1
            in (Inr tr,
                if just_fired \<and> ca_has_safety c2
                then c2\<lparr> ca_latches := ca_latches c2 @ [ae_message ev] \<rparr> else c2)))"

definition cool_predicted ::
  "nat \<Rightarrow> cool_env \<Rightarrow> pyfloat \<Rightarrow> pyfloat \<Rightarrow> pyfloat \<Rightarrow> cool_model \<Rightarrow> pyfloat \<times> pyfloat \<Rightarrow> cool \<Rightarrow>
   transition option result \<times> cool" where
  "cool_predicted cycle env t_cold t_warm t_h model pred c =
     (let (p_actual, eta) = pred;
          c1 = c\<lparr> ca_progress := Some p_actual, ca_eta_h := Some eta,
                  ca_eta_history := dq_append (ca_eta_maxlen c) (ce_now env, eta) (ca_eta_history c) \<rparr>;
          slip = eta_slip c1 (ce_now env) eta;
          c2 = c1\<lparr> ca_sustained_count :=
                     (if in_deviation c1 model t_cold t_h p_actual then Suc (ca_sustained_count c1) else 0) \<rparr>
      in cool_conclude cycle env (deviation_event c2 (ce_now env) t_cold t_warm slip) c2)"

definition cool_quasi_steady :: "cool_env \<Rightarrow> cool \<Rightarrow> cool" where
  "cool_quasi_steady env c =
     (if ca_state c = CaFIRED
      then cool_publish (ce_during2 env) (ce_now env)
             (cool_clear CA_ALARM_ID (ce_now env) (c\<lparr> ca_state := CaWATCHING, ca_sustained_count := 0 \<rparr>))
      else c\<lparr> ca_sustained_count := 0 \<rparr>)"

definition cool_evaluate ::
  "nat \<Rightarrow> cool_env \<Rightarrow> pyfloat \<Rightarrow> pyfloat \<Rightarrow> cool \<Rightarrow> transition option result \<times> cool" where
  "cool_evaluate cycle env t_cold t_warm c =
     (case ca_t_armed c of
        None \<Rightarrow> (Inl (TypeError ''unsupported operand''), c)
      | Some armed \<Rightarrow>
          (let t_h = (ce_clk env - armed) / 3600
           in if cooldown_complete c t_cold then cool_auto_disarm env c
              else if t_h < RATE_MIN_HISTORY_H then (Inr None, c\<lparr> ca_state := CaARMED \<rparr>)
              else
                (let c1 = (if ca_state c = CaARMED
                           then cool_publish (ce_during1 env) (ce_now env) (c\<lparr> ca_state := CaWATCHING \<rparr>) else c)
                 in if ce_steady env = SsQuasi True then (Inr None, cool_quasi_steady env c1)
                    else
                      (case ca_model c1 of
                         None \<Rightarrow> (Inr None, c1)
                       | Some model \<Rightarrow>
                           (case cm_predict model t_cold t_warm (Fin t_h) of
                              None \<Rightarrow> (Inr None, c1)
                            | Some pred \<Rightarrow> cool_predicted cycle env t_cold t_warm (Fin t_h) model pred c1)))))"

definition fresh_value :: "channel_state option \<Rightarrow> pyfloat option" where
  "fresh_value st = (case st of None \<Rightarrow> None | Some s \<Rightarrow> if cs_is_stale s then None else Some (cs_value s))"

definition cool_monitor :: "cool_env \<Rightarrow> cool \<Rightarrow> transition option result \<times> cool" where
  "cool_monitor env c =
     (let (cold, c1) = cool_get (cc_cold_channel (ca_cfg c)) (ce_now env) c;
          (warm, c2) = cool_get (cc_warm_channel (ca_cfg c1)) (ce_now env) c1
      in case (fresh_value cold, fresh_value warm) of
           (Some t_cold, Some t_warm) \<Rightarrow> cool_evaluate (ca_cycle_generation c) env t_cold t_warm c2
         | _ \<Rightarrow> (Inr None, c2))"

definition watchdog_threshold :: "cool \<Rightarrow> pyfloat" where
  "watchdog_threshold c = fl_add (cc_base_temp_K (ca_cfg c)) (cc_watchdog_margin_K (ca_cfg c))"

definition cool_watchdog_tick :: "cool_env \<Rightarrow> cool \<Rightarrow> transition option result \<times> cool" where
  "cool_watchdog_tick env c =
     (let (cold, c1) = cool_get (cc_cold_channel (ca_cfg c)) (ce_now env) c
      in case fresh_value cold of
           None \<Rightarrow> (Inr None, c1)
         | Some t_cold \<Rightarrow>
             (let c2 = (if fl_less (watchdog_threshold c1) t_cold
                        then c1\<lparr> ca_watchdog_count := Suc (ca_watchdog_count c1) \<rparr>
                        else (let z = c1\<lparr> ca_watchdog_count := 0 \<rparr>
                              in if ca_state z = CaWATCHDOG_FIRED
                                 then cool_publish (ce_during1 env) (ce_now env) (z\<lparr> ca_state := CaWATCHDOG \<rparr>)
                                 else z));
                  fire = (ca_watchdog_required_ticks c2 \<le> int (ca_watchdog_count c2));
                  cold_ch = cc_cold_channel (ca_cfg c2);
                  ev = alarm_event_new CA_WATCHDOG_ALARM_ID (cc_watchdog_level (ca_cfg c2))
                         (MsgFormat ''cold stage warming during measurement'' cold_ch (Some t_cold))
                         (ce_now env) [cold_ch] [(cold_ch, t_cold)];
                  c3 = (if fire \<and> ca_state c2 \<noteq> CaWATCHDOG_FIRED
                        then cool_publish (ce_during2 env) (ce_now env) (c2\<lparr> ca_state := CaWATCHDOG_FIRED \<rparr>) else c2);
                  (tr, c4) = cool_process CA_WATCHDOG_ALARM_ID (if fire then Some ev else None) (ce_now env) c3
              in (Inr tr, c4)))"

definition cool_tick :: "cool_env \<Rightarrow> cool \<Rightarrow> transition option result \<times> cool" where
  "cool_tick env c =
     (if ca_finalize_requested c then
        (let c1 = c\<lparr> ca_finalize_requested := False \<rparr>
         in (Inr None, if ca_state c1 \<noteq> CaDISARMED then cool_disarm (ce_now env) c1 else c1))
      else
        (case ca_state c of
           CaDISARMED \<Rightarrow> (Inr None, c)
         | CaAUTO_DISARMED \<Rightarrow> (Inr None, c)
         | CaWATCHDOG \<Rightarrow> cool_watchdog_tick env c
         | CaWATCHDOG_FIRED \<Rightarrow> cool_watchdog_tick env c
         | _ \<Rightarrow> cool_monitor env c))"

end
