(* ===== verification/CooldownProps.thy ===== *)
theory CooldownProps
  imports CooldownAlarm
begin

text \<open>
  Properties of the cooldown alarm: which ticks latch, what a tick that was overtaken by a disarm may
  still do, how long a deviation lasts before the alarm fires, and when the alarm is active.
\<close>

section \<open>What calls and publications may change\<close>

definition alarm_active :: "string \<Rightarrow> cool \<Rightarrow> bool" where
  "alarm_active i c = (dict_get (am_active (ca_mgr c)) i \<noteq> None)"

text \<open>No operation outside a tick activates an alarm, asks for a latch, or turns the generation back.\<close>

definition calls_only :: "cool \<Rightarrow> cool \<Rightarrow> bool" where
  "calls_only c c' =
     (ca_latches c' = ca_latches c \<and> ca_cycle_generation c \<le> ca_cycle_generation c'
      \<and> ca_cfg c' = ca_cfg c \<and> ca_has_safety c' = ca_has_safety c
      \<and> (\<forall>i. alarm_active i c' \<longrightarrow> alarm_active i c))"

lemma calls_only_refl [simp, intro]: "calls_only c c"
  by (simp add: calls_only_def)

lemma calls_only_trans: "calls_only a b \<Longrightarrow> calls_only b c \<Longrightarrow> calls_only a c"
  by (auto simp: calls_only_def)

lemma alarm_process_None_active:
  "dict_get (am_active (snd (alarm_process m i None cfg n1 n2))) j = (if j = i then None else dict_get (am_active m) j)"
  by (auto simp: alarm_process_def history_append_def mark_active_mutation_def Let_def dict_get_del split: option.splits)

lemma alarm_process_Some_active:
  "\<not> ae_evaluator_error ev \<Longrightarrow> a_sustained_s cfg = None \<Longrightarrow>
   (dict_get (am_active (snd (alarm_process m i (Some ev) cfg n1 n2))) j \<noteq> None) = (j = i \<or> dict_get (am_active m) j \<noteq> None)"
  by (auto simp: alarm_process_def process_event_def activate_alarm_def put_active_def history_append_def
      mark_active_mutation_def Let_def dict_get_set split: option.splits)

lemma cool_clear_fields [simp]:
  "ca_state (cool_clear i n c) = ca_state c" "ca_cfg (cool_clear i n c) = ca_cfg c"
  "ca_latches (cool_clear i n c) = ca_latches c" "ca_has_safety (cool_clear i n c) = ca_has_safety c"
  "ca_cycle_generation (cool_clear i n c) = ca_cycle_generation c"
  "ca_sustained_count (cool_clear i n c) = ca_sustained_count c"
  "ca_finalize_requested (cool_clear i n c) = ca_finalize_requested c"
  "ca_model (cool_clear i n c) = ca_model c" "ca_t_armed (cool_clear i n c) = ca_t_armed c"
  "ca_tracker (cool_clear i n c) = ca_tracker c"
  by (simp_all add: cool_clear_def cool_process_def case_prod_beta)

lemma alarm_active_clear [simp]: "alarm_active j (cool_clear i n c) \<longleftrightarrow> j \<noteq> i \<and> alarm_active j c"
  by (simp add: alarm_active_def cool_clear_def cool_process_def case_prod_beta alarm_process_None_active)

lemma alarm_active_mgr:
  "ca_mgr c' = ca_mgr c \<Longrightarrow> alarm_active i c' = alarm_active i c"
  by (simp add: alarm_active_def)

lemma cool_get_fields [simp]:
  "snd (cool_get ch n c) = c\<lparr> ca_tracker := snd (tk_get (ca_tracker c) ch n) \<rparr>"
  "fst (cool_get ch n c) = fst (tk_get (ca_tracker c) ch n)"
  by (simp_all add: cool_get_def case_prod_beta)

lemma cold_start_fields [simp]:
  "snd (is_cold_start s n c) = c\<lparr> ca_tracker := snd (tk_get (ca_tracker c) (cc_cold_channel (ca_cfg c)) n) \<rparr>"
  by (simp add: is_cold_start_def case_prod_beta Let_def)

lemma alarm_active_simps [simp]:
  "alarm_active i (c\<lparr> ca_tracker := k \<rparr>) = alarm_active i c"
  "alarm_active i (c\<lparr> ca_state := st \<rparr>) = alarm_active i c"
  "alarm_active i (c\<lparr> ca_sustained_count := n \<rparr>) = alarm_active i c"
  "alarm_active i (c\<lparr> ca_watchdog_count := n \<rparr>) = alarm_active i c"
  "alarm_active i (c\<lparr> ca_model := mo \<rparr>) = alarm_active i c"
  "alarm_active i (c\<lparr> ca_cold_start_skipped := b \<rparr>) = alarm_active i c"
  "alarm_active i (c\<lparr> ca_finalize_requested := b \<rparr>) = alarm_active i c"
  "alarm_active i (c\<lparr> ca_published := ps \<rparr>) = alarm_active i c"
  "alarm_active i (c\<lparr> ca_latches := ls \<rparr>) = alarm_active i c"
  "alarm_active i (c\<lparr> ca_progress := x \<rparr>) = alarm_active i c"
  "alarm_active i (c\<lparr> ca_eta_h := x \<rparr>) = alarm_active i c"
  "alarm_active i (c\<lparr> ca_eta_history := h \<rparr>) = alarm_active i c"
  "alarm_active i (c\<lparr> ca_t_armed := t \<rparr>) = alarm_active i c"
  "alarm_active i (c\<lparr> ca_cycle_generation := g \<rparr>) = alarm_active i c"
  by (simp_all add: alarm_active_def)

lemma calls_only_arm: "calls_only c (snd (cool_arm s a n k c))"
  by (auto simp: cool_arm_def cool_arm_ready_def calls_only_def case_prod_beta Let_def split: option.splits model_answer.splits)

lemma cool_disarm_fields [simp]:
  "ca_state (cool_disarm n c) = CaDISARMED" "ca_cfg (cool_disarm n c) = ca_cfg c"
  "ca_latches (cool_disarm n c) = ca_latches c" "ca_has_safety (cool_disarm n c) = ca_has_safety c"
  "ca_cycle_generation (cool_disarm n c) = Suc (ca_cycle_generation c)"
  "ca_sustained_count (cool_disarm n c) = 0" "\<not> ca_finalize_requested (cool_disarm n c)"
  "alarm_active i (cool_disarm n c) \<longleftrightarrow> i \<noteq> CA_ALARM_ID \<and> i \<noteq> CA_WATCHDOG_ALARM_ID \<and> alarm_active i c"
  by (auto simp: cool_disarm_def)

lemma calls_only_apply: "calls_only c (cool_apply n call c)"
  by (cases call)
    (auto simp: calls_only_arm notify_experiment_finalized_def notify_phase_change_def,
     auto simp: calls_only_def)

lemma calls_only_fold: "calls_only c (fold (cool_apply n) calls c)"
  by (induction calls arbitrary: c) (auto intro: calls_only_trans calls_only_apply)

lemma calls_only_publish: "calls_only c (cool_publish calls n c)"
  unfolding cool_publish_def
  by (rule calls_only_trans [OF _ calls_only_fold]) (simp add: calls_only_def)

lemma cool_publish_Nil [simp]:
  "cool_publish [] n c = c\<lparr> ca_published := ca_published c @ [(ca_state c, ca_progress c, ca_eta_h c)] \<rparr>"
  by (simp add: cool_publish_def)

section \<open>What a tick emits\<close>

text \<open>Neither a latch requested nor the trajectory alarm newly activated.\<close>

definition no_emission :: "cool \<Rightarrow> cool \<Rightarrow> bool" where
  "no_emission c c' = (ca_latches c' = ca_latches c \<and> (alarm_active CA_ALARM_ID c' \<longrightarrow> alarm_active CA_ALARM_ID c))"

lemma no_emission_refl [simp, intro]: "no_emission c c"
  by (simp add: no_emission_def)

lemma no_emission_trans: "no_emission a b \<Longrightarrow> no_emission b c \<Longrightarrow> no_emission a c"
  by (auto simp: no_emission_def)

lemma calls_no_emission: "calls_only c c' \<Longrightarrow> no_emission c c'"
  by (auto simp: calls_only_def no_emission_def)

lemma no_emission_publish: "no_emission a c \<Longrightarrow> no_emission a (cool_publish calls n c)"
  by (rule no_emission_trans [OF _ calls_no_emission [OF calls_only_publish]])

lemma alarm_ids_differ [simp]: "CA_ALARM_ID \<noteq> CA_WATCHDOG_ALARM_ID" "CA_WATCHDOG_ALARM_ID \<noteq> CA_ALARM_ID"
  by (simp_all add: CA_ALARM_ID_def CA_WATCHDOG_ALARM_ID_def)

lemma empty_cfg_sustained [simp]: "a_sustained_s empty_cfg = None"
  by (simp add: empty_cfg_def)

lemma alarm_event_new_ok [simp]: "\<not> ae_evaluator_error (alarm_event_new i l ms t chs vs)"
  by (simp add: alarm_event_new_def)

lemma deviation_event_ok [simp]: "\<not> ae_evaluator_error (deviation_event c n t1 t2 sl)"
  by (simp add: deviation_event_def Let_def)

lemma cool_process_fields [simp]:
  "ca_state (snd (cool_process i e n c)) = ca_state c" "ca_cfg (snd (cool_process i e n c)) = ca_cfg c"
  "ca_latches (snd (cool_process i e n c)) = ca_latches c" "ca_has_safety (snd (cool_process i e n c)) = ca_has_safety c"
  "ca_cycle_generation (snd (cool_process i e n c)) = ca_cycle_generation c"
  "ca_sustained_count (snd (cool_process i e n c)) = ca_sustained_count c"
  "ca_finalize_requested (snd (cool_process i e n c)) = ca_finalize_requested c"
  "ca_progress (snd (cool_process i e n c)) = ca_progress c" "ca_eta_h (snd (cool_process i e n c)) = ca_eta_h c"
  "ca_published (snd (cool_process i e n c)) = ca_published c"
  "ca_t_armed (snd (cool_process i e n c)) = ca_t_armed c"
  "ca_watchdog_count (snd (cool_process i e n c)) = ca_watchdog_count c"
  "ca_watchdog_required_ticks (snd (cool_process i e n c)) = ca_watchdog_required_ticks c"
  by (simp_all add: cool_process_def case_prod_beta)

lemma alarm_active_process:
  assumes "\<And>ev. e = Some ev \<Longrightarrow> \<not> ae_evaluator_error ev"
  shows "alarm_active j (snd (cool_process i e n c)) \<longleftrightarrow> (if j = i then e \<noteq> None else alarm_active j c)"
  using assms
  by (cases e) (simp_all add: alarm_active_def cool_process_def case_prod_beta alarm_process_None_active
      alarm_process_Some_active del: not_None_eq)

lemma alarm_active_process_simps [simp]:
  "\<not> ae_evaluator_error ev \<Longrightarrow>
   alarm_active j (snd (cool_process i (Some ev) n c)) \<longleftrightarrow> j = i \<or> alarm_active j c"
  "alarm_active j (snd (cool_process i None n c)) \<longleftrightarrow> j \<noteq> i \<and> alarm_active j c"
  using alarm_active_process [of "Some ev" j i n c] alarm_active_process [of None j i n c] by auto

lemma no_emission_watchdog_process:
  "no_emission a c \<Longrightarrow> (\<And>ev. e = Some ev \<Longrightarrow> \<not> ae_evaluator_error ev) \<Longrightarrow>
   no_emission a (snd (cool_process CA_WATCHDOG_ALARM_ID e n c))"
  by (simp add: no_emission_def alarm_active_process)

lemma no_emission_simps [simp]:
  "no_emission a (c\<lparr> ca_tracker := k \<rparr>) = no_emission a c"
  "no_emission a (c\<lparr> ca_state := st \<rparr>) = no_emission a c"
  "no_emission a (c\<lparr> ca_sustained_count := n \<rparr>) = no_emission a c"
  "no_emission a (c\<lparr> ca_watchdog_count := n \<rparr>) = no_emission a c"
  "no_emission a (c\<lparr> ca_finalize_requested := b \<rparr>) = no_emission a c"
  "no_emission a (c\<lparr> ca_progress := x \<rparr>) = no_emission a c"
  "no_emission a (c\<lparr> ca_eta_h := x \<rparr>) = no_emission a c"
  "no_emission a (c\<lparr> ca_eta_history := h \<rparr>) = no_emission a c"
  by (simp_all add: no_emission_def)

lemma no_emission_watchdog: "no_emission c (snd (cool_watchdog_tick env c))"
  unfolding cool_watchdog_tick_def Let_def case_prod_beta cool_get_fields
  by (auto intro!: no_emission_watchdog_process no_emission_publish split: option.splits)

lemma no_emission_clear: "no_emission a c \<Longrightarrow> no_emission a (cool_clear i n c)"
  by (simp add: no_emission_def)

lemma no_emission_disarm: "no_emission a c \<Longrightarrow> no_emission a (cool_disarm n c)"
  by (simp add: no_emission_def)

lemma no_emission_auto_disarm: "no_emission c (snd (cool_auto_disarm env c))"
  unfolding cool_auto_disarm_def Let_def case_prod_beta cool_clear_def [symmetric]
  by (auto intro!: no_emission_publish no_emission_clear)

lemma no_emission_quasi_steady: "no_emission a c \<Longrightarrow> no_emission a (cool_quasi_steady env c)"
  by (auto simp: cool_quasi_steady_def intro!: no_emission_publish no_emission_clear)

lemma conclude_overtaken:
  assumes "ca_cycle_generation (snd (cool_conclude cycle env ev c)) \<noteq> cycle"
  shows "no_emission c (snd (cool_conclude cycle env ev c))"
  using assms
  unfolding cool_conclude_def Let_def case_prod_beta
  by (auto intro!: no_emission_publish split: if_splits)

lemma conclude_latch:
  assumes "ca_latches (snd (cool_conclude cycle env ev c)) \<noteq> ca_latches c" and "\<not> ae_evaluator_error ev"
  shows "ca_latches (snd (cool_conclude cycle env ev c)) = ca_latches c @ [ae_message ev]
    \<and> ca_has_safety c \<and> ca_state c \<noteq> CaFIRED \<and> cc_sustained_min (ca_cfg c) \<le> int (ca_sustained_count c)
    \<and> alarm_active CA_ALARM_ID (snd (cool_conclude cycle env ev c))"
proof -
  have kept: "ca_latches (cool_publish calls n d) = ca_latches d" "ca_has_safety (cool_publish calls n d) = ca_has_safety d" for calls n d
    using calls_only_publish [of d calls n] by (simp_all add: calls_only_def)
  show ?thesis
    using assms unfolding cool_conclude_def Let_def case_prod_beta
    by (auto simp: kept alarm_active_process split: if_splits)
qed

lemma no_emission_monitor:
  assumes "ca_cycle_generation (snd (cool_monitor env c)) \<noteq> ca_cycle_generation c"
  shows "no_emission c (snd (cool_monitor env c))"
proof -
  have ev: "ca_cycle_generation (snd (cool_evaluate g env t w d)) \<noteq> g \<Longrightarrow> no_emission d (snd (cool_evaluate g env t w d))" for g t w d
  proof -
    assume ne: "ca_cycle_generation (snd (cool_evaluate g env t w d)) \<noteq> g"
    define c1 where "c1 = (if ca_state d = CaARMED
      then cool_publish (ce_during1 env) (ce_now env) (d\<lparr> ca_state := CaWATCHING \<rparr>) else d)"
    have c1: "no_emission d c1" by (auto simp: c1_def intro!: no_emission_publish)
    have pred: "no_emission d (snd (cool_predicted g env t w th m p c1))"
      if "ca_cycle_generation (snd (cool_predicted g env t w th m p c1)) \<noteq> g" for th m p
      using that unfolding cool_predicted_def Let_def case_prod_beta
      by (intro no_emission_trans [OF _ conclude_overtaken]) (simp_all add: c1)
    show ?thesis
      using ne c1 pred no_emission_auto_disarm [of d env] no_emission_quasi_steady [OF c1]
      unfolding cool_evaluate_def Let_def c1_def [symmetric]
      by (auto split: option.splits if_splits)
  qed
  show ?thesis
    using assms ev unfolding cool_monitor_def Let_def case_prod_beta cool_get_fields
    by (auto split: option.splits intro: no_emission_trans [OF _ ev])
qed

text \<open>
  A tick that was overtaken emits nothing. Whatever is called on the alarm while a tick publishes
  its state events: if the cycle generation has moved when the tick returns (a disarm, a phase change,
  a finalised experiment), the tick has neither asked the safety manager for a latch nor activated the
  trajectory alarm.
\<close>

theorem overtaken_tick_silent:
  assumes "ca_cycle_generation (snd (cool_tick env c)) \<noteq> ca_cycle_generation c"
  shows "ca_latches (snd (cool_tick env c)) = ca_latches c
    \<and> (alarm_active CA_ALARM_ID (snd (cool_tick env c)) \<longrightarrow> alarm_active CA_ALARM_ID c)"
proof -
  have "no_emission c (snd (cool_tick env c))"
    using assms no_emission_watchdog [of c env] no_emission_monitor [of env c]
    unfolding cool_tick_def Let_def
    by (cases "ca_state c") (auto intro!: no_emission_disarm split: if_splits)
  thus ?thesis by (simp add: no_emission_def)
qed

section \<open>Quiet ticks\<close>

text \<open>What a tick decides, independent of its effects.\<close>

datatype cool_verdict = Unevaluated | Complete | InPlan | Deviates

definition monitoring :: "cool \<Rightarrow> bool" where
  "monitoring c = (\<not> ca_finalize_requested c \<and> ca_state c \<in> {CaARMED, CaWATCHING, CaFIRED})"

definition read_cold :: "cool_env \<Rightarrow> cool \<Rightarrow> pyfloat option" where
  "read_cold env c = fresh_value (fst (tk_get (ca_tracker c) (cc_cold_channel (ca_cfg c)) (ce_now env)))"

definition read_warm :: "cool_env \<Rightarrow> cool \<Rightarrow> pyfloat option" where
  "read_warm env c =
     fresh_value (fst (tk_get (snd (tk_get (ca_tracker c) (cc_cold_channel (ca_cfg c)) (ce_now env)))
                        (cc_warm_channel (ca_cfg c)) (ce_now env)))"

definition elapsed_h :: "cool_env \<Rightarrow> cool \<Rightarrow> real" where
  "elapsed_h env c = (case ca_t_armed c of None \<Rightarrow> 0 | Some t \<Rightarrow> (ce_clk env - t) / 3600)"

definition prediction :: "cool_env \<Rightarrow> cool \<Rightarrow> pyfloat \<Rightarrow> pyfloat \<Rightarrow> (cool_model \<times> pyfloat) option" where
  "prediction env c t_cold t_warm =
     (case ca_model c of
        None \<Rightarrow> None
      | Some m \<Rightarrow> map_option (\<lambda>p. (m, fst p)) (cm_predict m t_cold t_warm (Fin (elapsed_h env c))))"

definition cool_verdict :: "cool_env \<Rightarrow> cool \<Rightarrow> cool_verdict" where
  "cool_verdict env c =
     (case (read_cold env c, read_warm env c, ca_t_armed c) of
        (Some t_cold, Some t_warm, Some _) \<Rightarrow>
          (if \<not> monitoring c then Unevaluated
           else if cooldown_complete c t_cold then Complete
           else if elapsed_h env c < RATE_MIN_HISTORY_H then Unevaluated
           else if ce_steady env = SsQuasi True then InPlan
           else (case prediction env c t_cold t_warm of
                   None \<Rightarrow> Unevaluated
                 | Some (m, p) \<Rightarrow> if in_deviation c m t_cold (Fin (elapsed_h env c)) p then Deviates else InPlan))
      | _ \<Rightarrow> Unevaluated)"

definition quiet_env :: "cool_env \<Rightarrow> bool" where
  "quiet_env env = (ce_during1 env = [] \<and> ce_during2 env = [])"

text \<open>The counter, the state and the latches after a quiet tick of a monitoring alarm.\<close>

definition next_count :: "cool_verdict \<Rightarrow> nat \<Rightarrow> nat" where
  "next_count v n = (case v of InPlan \<Rightarrow> 0 | Deviates \<Rightarrow> Suc n | _ \<Rightarrow> n)"

lemma conclude_quiet:
  assumes "quiet_env env" and "cycle = ca_cycle_generation c" and "\<not> ae_evaluator_error ev"
  shows "ca_sustained_count (snd (cool_conclude cycle env ev c)) = ca_sustained_count c
    \<and> ca_cfg (snd (cool_conclude cycle env ev c)) = ca_cfg c
    \<and> ca_t_armed (snd (cool_conclude cycle env ev c)) = ca_t_armed c
    \<and> ca_finalize_requested (snd (cool_conclude cycle env ev c)) = ca_finalize_requested c
    \<and> ca_state (snd (cool_conclude cycle env ev c)) =
        (if cc_sustained_min (ca_cfg c) \<le> int (ca_sustained_count c) then CaFIRED
         else if ca_state c = CaFIRED then CaWATCHING else ca_state c)
    \<and> ca_latches (snd (cool_conclude cycle env ev c)) =
        ca_latches c @ (if cc_sustained_min (ca_cfg c) \<le> int (ca_sustained_count c) \<and> ca_state c \<noteq> CaFIRED
                           \<and> ca_has_safety c then [ae_message ev] else [])
    \<and> (alarm_active i (snd (cool_conclude cycle env ev c)) \<longleftrightarrow>
        (if i = CA_ALARM_ID then cc_sustained_min (ca_cfg c) \<le> int (ca_sustained_count c) else alarm_active i c))"
  using assms
  by (auto simp: cool_conclude_def Let_def case_prod_beta quiet_env_def)

lemma deviation_cfg: "ca_cfg c' = ca_cfg c \<Longrightarrow> in_deviation c' = in_deviation c"
  by (intro ext) (simp add: in_deviation_def auto_disarm_base_def)

lemma complete_tracker [simp]: "cooldown_complete (c\<lparr> ca_tracker := k \<rparr>) t = cooldown_complete c t"
  by (auto simp: cooldown_complete_def auto_disarm_base_def split: option.splits)

text \<open>The part of a tick behind the two readings.\<close>

definition evaluated :: "cool_env \<Rightarrow> cool \<Rightarrow> pyfloat \<Rightarrow> pyfloat \<Rightarrow> cool" where
  "evaluated env c t w = snd (cool_evaluate (ca_cycle_generation c) env t w c)"

lemma monitor_evaluated:
  assumes "monitoring c"
  shows "snd (cool_tick env c) =
    (let d = c\<lparr> ca_tracker := snd (tk_get (snd (tk_get (ca_tracker c) (cc_cold_channel (ca_cfg c)) (ce_now env)))
                               (cc_warm_channel (ca_cfg c)) (ce_now env)) \<rparr>
     in case (read_cold env c, read_warm env c) of (Some t, Some w) \<Rightarrow> evaluated env d t w | _ \<Rightarrow> d)"
  using assms
  by (auto simp: cool_tick_def cool_monitor_def monitoring_def case_prod_beta Let_def read_cold_def read_warm_def
      evaluated_def split: option.splits)

text \<open>What a quiet tick with verdict \<open>v\<close> does to a monitoring alarm; \<open>early\<close>: within the baseline.\<close>

definition quiet_effect :: "bool \<Rightarrow> cool_verdict \<Rightarrow> cool \<Rightarrow> cool \<Rightarrow> bool" where
  "quiet_effect early v c c' =
     (let fire = (v = Deviates \<and> cc_sustained_min (ca_cfg c) \<le> int (Suc (ca_sustained_count c)))
      in ca_sustained_count c' = next_count v (ca_sustained_count c) \<and> ca_cfg c' = ca_cfg c \<and> ca_t_armed c' = ca_t_armed c
       \<and> (v = Unevaluated \<and> ca_state c = CaFIRED \<and> \<not> early \<longrightarrow> ca_state c' = CaFIRED)
       \<and> (ca_latches c' \<noteq> ca_latches c \<longleftrightarrow> fire \<and> ca_state c \<noteq> CaFIRED \<and> ca_has_safety c)
       \<and> (fire \<longrightarrow> ca_state c' = CaFIRED \<and> alarm_active CA_ALARM_ID c')
       \<and> (\<not> fire \<and> ca_state c' = CaFIRED \<longrightarrow> ca_state c = CaFIRED \<and> v = Unevaluated)
       \<and> (v \<noteq> Unevaluated \<and> alarm_active CA_ALARM_ID c' \<and> ca_state c' \<noteq> CaFIRED \<longrightarrow>
            alarm_active CA_ALARM_ID c \<and> ca_state c \<noteq> CaFIRED)
       \<and> (\<forall>i. alarm_active i c' \<longrightarrow> fire \<and> i = CA_ALARM_ID \<or> alarm_active i c))"

lemma effect_complete: "quiet_env env \<Longrightarrow> quiet_effect early Complete c (snd (cool_auto_disarm env c))"
  by (auto simp: quiet_effect_def cool_auto_disarm_def quiet_env_def case_prod_beta Let_def next_count_def)

lemma effect_quasi: "quiet_env env \<Longrightarrow> quiet_effect early InPlan c (cool_quasi_steady env c)"
  by (auto simp: quiet_effect_def cool_quasi_steady_def quiet_env_def next_count_def)

lemma effect_predicted:
  assumes q: "quiet_env env" and cyc: "cycle = ca_cycle_generation c" and min: "1 \<le> cc_sustained_min (ca_cfg c)"
    and st: "ca_state c \<noteq> CaARMED"
    and v: "v = (if in_deviation c m t_cold t_h (fst p) then Deviates else InPlan)"
  shows "quiet_effect early v c (snd (cool_predicted cycle env t_cold t_warm t_h m p c))"
proof -
  define c1 where "c1 = c\<lparr> ca_progress := Some (fst p), ca_eta_h := Some (snd p),
    ca_eta_history := dq_append (ca_eta_maxlen c) (ce_now env, snd p) (ca_eta_history c) \<rparr>"
  define c2 where "c2 = c1\<lparr> ca_sustained_count := next_count v (ca_sustained_count c) \<rparr>"
  have dev: "in_deviation c1 = in_deviation c" by (rule deviation_cfg) (simp add: c1_def)
  define ev where "ev = deviation_event c2 (ce_now env) t_cold t_warm (eta_slip c1 (ce_now env) (snd p))"
  have ev: "\<not> ae_evaluator_error ev" by (simp add: ev_def)
  have "(if in_deviation c m t_cold t_h (fst p) then Suc (ca_sustained_count c1) else 0) = next_count v (ca_sustained_count c)"
    by (simp add: v next_count_def c1_def)
  hence eq: "snd (cool_predicted cycle env t_cold t_warm t_h m p c) = snd (cool_conclude cycle env ev c2)"
    unfolding cool_predicted_def Let_def case_prod_beta c1_def [symmetric] dev ev_def c2_def by simp
  have c2: "ca_cfg c2 = ca_cfg c" "ca_state c2 = ca_state c" "ca_latches c2 = ca_latches c"
    "ca_has_safety c2 = ca_has_safety c" "\<And>i. alarm_active i c2 = alarm_active i c"
    "ca_sustained_count c2 = next_count v (ca_sustained_count c)" "cycle = ca_cycle_generation c2"
    "ca_t_armed c2 = ca_t_armed c"
    by (simp_all add: c2_def c1_def cyc)
  note con = conclude_quiet [OF q c2(7) ev]
  show ?thesis
    unfolding eq quiet_effect_def Let_def
    using con min v c2 st by (auto simp: next_count_def split: if_splits)
qed

text \<open>A baseline that is over: the step from ARMED to WATCHING before the evaluation.\<close>

definition watching :: "cool \<Rightarrow> cool" where
  "watching c =
     (if ca_state c = CaARMED
      then c\<lparr> ca_state := CaWATCHING, ca_published := ca_published c @ [(CaWATCHING, ca_progress c, ca_eta_h c)] \<rparr> else c)"

lemma watching_fields [simp]:
  "ca_cfg (watching c) = ca_cfg c" "ca_latches (watching c) = ca_latches c" "ca_has_safety (watching c) = ca_has_safety c"
  "ca_cycle_generation (watching c) = ca_cycle_generation c" "ca_sustained_count (watching c) = ca_sustained_count c"
  "alarm_active i (watching c) = alarm_active i c" "ca_model (watching c) = ca_model c" "ca_t_armed (watching c) = ca_t_armed c"
  "ca_state (watching c) = CaFIRED \<longleftrightarrow> ca_state c = CaFIRED" "ca_state (watching c) \<noteq> CaARMED"
  by (auto simp: watching_def)

lemma effect_start:
  assumes "ca_cfg b = ca_cfg a" "ca_latches b = ca_latches a" "ca_has_safety b = ca_has_safety a"
    "ca_sustained_count b = ca_sustained_count a" "\<And>i. alarm_active i b = alarm_active i a"
    "ca_state b = CaFIRED \<longleftrightarrow> ca_state a = CaFIRED" "quiet_effect early v b c" "ca_t_armed b = ca_t_armed a"
  shows "quiet_effect early v a c"
  using assms(7) unfolding quiet_effect_def Let_def assms(1-6,8) .

lemma effect_unevaluated:
  assumes "ca_cfg b = ca_cfg a" "ca_latches b = ca_latches a" "ca_sustained_count b = ca_sustained_count a"
    "\<And>i. alarm_active i b = alarm_active i a" "ca_state b = CaFIRED \<longrightarrow> ca_state a = CaFIRED"
    "ca_state a = CaFIRED \<and> \<not> early \<longrightarrow> ca_state b = CaFIRED" "ca_t_armed b = ca_t_armed a"
  shows "quiet_effect early Unevaluated a b"
  using assms by (simp add: quiet_effect_def Let_def next_count_def)

lemma effect_latch:
  "quiet_effect early v c c' \<Longrightarrow> ca_latches c' \<noteq> ca_latches c \<longleftrightarrow>
     ca_has_safety c \<and> v = Deviates \<and> ca_state c \<noteq> CaFIRED \<and> cc_sustained_min (ca_cfg c) \<le> int (Suc (ca_sustained_count c))"
  unfolding quiet_effect_def Let_def by blast

lemma effect_edge:
  "quiet_effect early v c c' \<Longrightarrow> v = Deviates \<Longrightarrow> cc_sustained_min (ca_cfg c) \<le> int (Suc (ca_sustained_count c)) \<Longrightarrow>
   ca_state c' = CaFIRED \<and> alarm_active CA_ALARM_ID c'"
  unfolding quiet_effect_def Let_def by blast

lemma effect_frame:
  "quiet_effect early v c c' \<Longrightarrow> ca_sustained_count c' = next_count v (ca_sustained_count c) \<and> ca_cfg c' = ca_cfg c
     \<and> ca_t_armed c' = ca_t_armed c"
  unfolding quiet_effect_def Let_def by blast

lemma effect_fired:
  "quiet_effect early v c c' \<Longrightarrow> ca_state c \<noteq> CaFIRED \<Longrightarrow> ca_state c' = CaFIRED \<Longrightarrow>
   v = Deviates \<and> cc_sustained_min (ca_cfg c) \<le> int (Suc (ca_sustained_count c))"
  unfolding quiet_effect_def Let_def by blast

lemma effect_active:
  "quiet_effect early v c c' \<Longrightarrow> (alarm_active CA_ALARM_ID c \<Longrightarrow> ca_state c = CaFIRED \<and> \<not> early) \<Longrightarrow>
   alarm_active CA_ALARM_ID c' \<Longrightarrow> ca_state c' = CaFIRED"
  unfolding quiet_effect_def Let_def by (cases "v = Unevaluated") blast+

lemma effect_other: "quiet_effect early v c c' \<Longrightarrow> i \<noteq> CA_ALARM_ID \<Longrightarrow> alarm_active i c' \<Longrightarrow> alarm_active i c"
  unfolding quiet_effect_def Let_def by blast

lemma quiet_monitoring_tick:
  assumes q: "quiet_env env" and mon: "monitoring c" and armed: "ca_t_armed c \<noteq> None"
    and min: "1 \<le> cc_sustained_min (ca_cfg c)"
  shows "quiet_effect (elapsed_h env c < RATE_MIN_HISTORY_H) (cool_verdict env c) c (snd (cool_tick env c))"
proof -
  define d where "d = c\<lparr> ca_tracker := snd (tk_get (snd (tk_get (ca_tracker c) (cc_cold_channel (ca_cfg c)) (ce_now env)))
    (cc_warm_channel (ca_cfg c)) (ce_now env)) \<rparr>"
  have d: "ca_cfg d = ca_cfg c" "ca_latches d = ca_latches c" "ca_has_safety d = ca_has_safety c"
    "ca_sustained_count d = ca_sustained_count c" "\<And>i. alarm_active i d = alarm_active i c"
    "ca_state d = ca_state c" "ca_t_armed d = ca_t_armed c" "ca_cycle_generation d = ca_cycle_generation c"
    "ca_model d = ca_model c" "cooldown_complete d = cooldown_complete c"
    by (auto simp: d_def)
  obtain a where a: "ca_t_armed c = Some a" using armed by blast
  have el: "(ce_clk env - a) / 3600 = elapsed_h env c" by (simp add: elapsed_h_def a)
  show ?thesis
  proof (cases "read_cold env c = None \<or> read_warm env c = None")
    case True
    hence "snd (cool_tick env c) = d" "cool_verdict env c = Unevaluated"
      using monitor_evaluated [OF mon, of env] by (auto simp: d_def cool_verdict_def Let_def split: option.splits)
    thus ?thesis by (simp add: effect_unevaluated d)
  next
    case False
    then obtain t w where tw: "read_cold env c = Some t" "read_warm env c = Some w" by auto
    have tick: "snd (cool_tick env c) = evaluated env d t w"
      using monitor_evaluated [OF mon, of env] tw by (simp add: d_def Let_def)
    define e where "e = watching d"
    have dur: "ce_during1 env = []" using q by (simp add: quiet_env_def)
    have e: "(if ca_state d = CaARMED then cool_publish (ce_during1 env) (ce_now env) (d\<lparr> ca_state := CaWATCHING \<rparr>) else d) = e"
      by (simp add: e_def watching_def dur)
    have ev: "evaluated env d t w =
       (if cooldown_complete c t then snd (cool_auto_disarm env d)
        else if elapsed_h env c < RATE_MIN_HISTORY_H then d\<lparr> ca_state := CaARMED \<rparr>
        else if ce_steady env = SsQuasi True then cool_quasi_steady env e
        else (case ca_model c of None \<Rightarrow> e
              | Some m \<Rightarrow> (case cm_predict m t w (Fin (elapsed_h env c)) of None \<Rightarrow> e
                  | Some p \<Rightarrow> snd (cool_predicted (ca_cycle_generation c) env t w (Fin (elapsed_h env c)) m p e))))"
      unfolding evaluated_def cool_evaluate_def Let_def e
      unfolding d a option.case el
      by (simp add: e_def d split: option.splits)
    have via_d: "quiet_effect early v c x" if "quiet_effect early v d x" for early v x
      by (rule effect_start [OF _ _ _ _ _ _ that _]) (simp_all add: d)
    have via_e: "quiet_effect early v c x" if "quiet_effect early v e x" for early v x
      by (rule effect_start [OF _ _ _ _ _ _ that _]) (simp_all add: d e_def)
    have pred: "quiet_effect early (if in_deviation c m t (Fin h) (fst p) then Deviates else InPlan) c
        (snd (cool_predicted (ca_cycle_generation c) env t w (Fin h) m p e))" for early m p h
      by (rule via_e, rule effect_predicted [OF q])
        (simp_all add: e_def d min deviation_cfg [of "watching d" c])
    show ?thesis
      unfolding tick ev
      using tw a mon via_d [OF effect_complete [OF q, where c = d]] via_e [OF effect_quasi [OF q, where c = e]] pred
      by (auto simp: cool_verdict_def prediction_def effect_unevaluated d e_def split: option.splits)
  qed
qed

text \<open>A concrete alarm for the witnesses: 2 hours into a cooldown that has made 1 % instead of 20 %.\<close>

definition sample_channel :: "string \<Rightarrow> real \<Rightarrow> channel_state" where
  "sample_channel ch v =
     \<lparr> cs_channel = ch, cs_value = Fin v, cs_timestamp = 0, cs_unit = ''K'', cs_instrument_id = ''ls218'',
       cs_is_stale = False, cs_fault_count_window = 0 \<rparr>"

definition sample_model :: cool_model where
  "sample_model = \<lparr> cm_duration_mean = Fin 10, cm_duration_std = Fin 1, cm_p_of_t_mean = None,
                    cm_predict = (\<lambda>c w t. Some (Fin (1/100), Fin 9)) \<rparr>"

definition sample_cool :: "cooldown_state \<Rightarrow> nat \<Rightarrow> cool" where
  "sample_cool st n =
     \<lparr> ca_cfg = cool_cfg_default, ca_watchdog_required_ticks = 10, ca_eta_maxlen = 130, ca_has_safety = True,
       ca_state = st, ca_model = Some sample_model, ca_t_armed = Some 0, ca_sustained_count = n,
       ca_watchdog_count = 0, ca_progress = None, ca_eta_h = None, ca_finalize_requested = False,
       ca_cold_start_skipped = False, ca_cycle_generation = 0, ca_eta_history = [], ca_mgr = alarm_mgr_init,
       ca_tracker = (tracker_init 30 300)\<lparr> tk_states := [(''T12'', sample_channel ''T12'' 200), (''T11'', sample_channel ''T11'' 210)] \<rparr>,
       ca_published = [], ca_latches = [] \<rparr>"

definition sample_env :: "cool_call list \<Rightarrow> cool_env" where
  "sample_env calls = \<lparr> ce_now = 10, ce_clk = 7200, ce_steady = SsNone, ce_during1 = [], ce_during2 = calls \<rparr>"

lemmas sample_defs =
  read_cold_def read_warm_def monitoring_def fresh_value_def prediction_def elapsed_h_def sample_env_def
  sample_cool_def sample_channel_def sample_model_def tracker_init_def tk_get_def get_fault_count_def
  tk_resolve_channel_def cool_cfg_default_def cooldown_complete_def auto_disarm_base_def RATE_MIN_HISTORY_H_def
  in_deviation_def expected_progress_def progress_sigma_def fl_quot_def fl_max_def fl_min_def

lemma sample_deviates: "cool_verdict (sample_env calls) (sample_cool CaWATCHING n) = Deviates"
  by (simp add: cool_verdict_def sample_defs Let_def)

lemmas tick_defs =
  cool_tick_def cool_monitor_def cool_evaluate_def cool_predicted_def cool_conclude_def cool_publish_def
  deviation_event_def eta_slip_def

lemma overtaken_tick_silent_witness:
  "ca_latches (snd (cool_tick (sample_env [CallDisarm]) (sample_cool CaWATCHING 4))) = []
   \<and> \<not> alarm_active CA_ALARM_ID (snd (cool_tick (sample_env [CallDisarm]) (sample_cool CaWATCHING 4)))"
proof -
  have "ca_cycle_generation (snd (cool_tick (sample_env [CallDisarm]) (sample_cool CaWATCHING 4))) = 1"
    by (simp add: tick_defs sample_defs Let_def case_prod_beta)
  moreover have "ca_cycle_generation (sample_cool CaWATCHING 4) = 0"
    "ca_latches (sample_cool CaWATCHING 4) = []" "\<not> alarm_active CA_ALARM_ID (sample_cool CaWATCHING 4)"
    by (simp_all add: sample_cool_def alarm_active_def alarm_mgr_init_def)
  ultimately show ?thesis
    using overtaken_tick_silent [of "sample_env [CallDisarm]" "sample_cool CaWATCHING 4"] by simp
qed

section \<open>Ticks of every state\<close>

lemma watchdog_keeps:
  assumes "quiet_env env"
  shows "ca_sustained_count (snd (cool_watchdog_tick env c)) = ca_sustained_count c"
    and "ca_cfg (snd (cool_watchdog_tick env c)) = ca_cfg c"
    and "ca_latches (snd (cool_watchdog_tick env c)) = ca_latches c"
    and "ca_t_armed (snd (cool_watchdog_tick env c)) = ca_t_armed c"
    and "ca_watchdog_required_ticks (snd (cool_watchdog_tick env c)) = ca_watchdog_required_ticks c"
    and "ca_state c \<in> {CaWATCHDOG, CaWATCHDOG_FIRED} \<Longrightarrow>
      ca_state (snd (cool_watchdog_tick env c)) \<in> {CaWATCHDOG, CaWATCHDOG_FIRED}"
    and "1 \<le> ca_watchdog_required_ticks c \<Longrightarrow> ca_state c \<in> {CaWATCHDOG, CaWATCHDOG_FIRED} \<Longrightarrow>
      (alarm_active CA_WATCHDOG_ALARM_ID c \<longrightarrow> ca_state c = CaWATCHDOG_FIRED) \<Longrightarrow>
      alarm_active CA_WATCHDOG_ALARM_ID (snd (cool_watchdog_tick env c)) \<longrightarrow>
      ca_state (snd (cool_watchdog_tick env c)) = CaWATCHDOG_FIRED"
    and "i \<noteq> CA_WATCHDOG_ALARM_ID \<Longrightarrow> alarm_active i (snd (cool_watchdog_tick env c)) = alarm_active i c"
  using assms
  by (auto simp: cool_watchdog_tick_def case_prod_beta Let_def quiet_env_def split: option.splits)

lemma tick_cases:
  assumes "quiet_env env"
  obtains (finalized) "ca_finalize_requested c" "snd (cool_tick env c) =
      (if ca_state c = CaDISARMED then c\<lparr> ca_finalize_requested := False \<rparr>
       else cool_disarm (ce_now env) (c\<lparr> ca_finalize_requested := False \<rparr>))"
  | (idle) "\<not> ca_finalize_requested c" "ca_state c \<in> {CaDISARMED, CaAUTO_DISARMED}" "snd (cool_tick env c) = c"
  | (watchdog) "\<not> ca_finalize_requested c" "ca_state c \<in> {CaWATCHDOG, CaWATCHDOG_FIRED}"
      "snd (cool_tick env c) = snd (cool_watchdog_tick env c)"
  | (monitoring) "monitoring c"
  by (cases "ca_state c"; cases "ca_finalize_requested c") (auto simp: cool_tick_def monitoring_def Let_def)

lemma verdict_not_monitoring: "\<not> monitoring c \<Longrightarrow> cool_verdict env c = Unevaluated"
  by (auto simp: cool_verdict_def split: option.splits)

text \<open>
  A latch is requested exactly on the edge. In a tick during which nothing else is called, the
  alarm asks the safety manager for a latch if and only if it has one, the tick evaluated the
  trajectory as deviating, this is at least the configured number of deviating evaluations without one
  in plan, and the alarm was not already fired. It then is in FIRED with its alarm active.
\<close>

theorem cooldown_latch_exact:
  assumes "quiet_env env" and "ca_t_armed c \<noteq> None" and "1 \<le> cc_sustained_min (ca_cfg c)"
  shows "(ca_latches (snd (cool_tick env c)) \<noteq> ca_latches c \<longleftrightarrow>
      ca_has_safety c \<and> cool_verdict env c = Deviates \<and> ca_state c \<noteq> CaFIRED
      \<and> cc_sustained_min (ca_cfg c) \<le> int (Suc (ca_sustained_count c)))
    \<and> (ca_latches (snd (cool_tick env c)) \<noteq> ca_latches c \<longrightarrow>
      ca_state (snd (cool_tick env c)) = CaFIRED \<and> alarm_active CA_ALARM_ID (snd (cool_tick env c)))"
  using assms(1)
proof (cases rule: tick_cases [of env c])
  case monitoring
  note eff = quiet_monitoring_tick [OF assms(1) monitoring assms(2,3)]
  from effect_latch [OF eff] effect_edge [OF eff] show ?thesis by blast
next
  case finalized
  thus ?thesis using verdict_not_monitoring [of c env] by (simp add: monitoring_def)
next
  case idle
  thus ?thesis using verdict_not_monitoring [of c env] by (auto simp: monitoring_def)
next
  case watchdog
  thus ?thesis using verdict_not_monitoring [of c env] watchdog_keeps [OF assms(1)] by (auto simp: monitoring_def)
qed

lemma cooldown_latch_exact_witness:
  "ca_latches (snd (cool_tick (sample_env []) (sample_cool CaWATCHING 4))) \<noteq> []
   \<and> ca_state (snd (cool_tick (sample_env []) (sample_cool CaWATCHING 4))) = CaFIRED"
  using cooldown_latch_exact [of "sample_env []" "sample_cool CaWATCHING 4"] sample_deviates [of "[]" 4]
  by (simp add: quiet_env_def sample_env_def sample_cool_def cool_cfg_default_def)

lemma tick_frame:
  assumes "quiet_env env" and "ca_t_armed c \<noteq> None" and "1 \<le> cc_sustained_min (ca_cfg c)"
  shows "ca_cfg (snd (cool_tick env c)) = ca_cfg c" and "ca_t_armed (snd (cool_tick env c)) = ca_t_armed c"
    and "ca_sustained_count (snd (cool_tick env c)) \<in> {0, next_count (cool_verdict env c) (ca_sustained_count c)}"
    and "ca_state c \<noteq> CaFIRED \<Longrightarrow> ca_state (snd (cool_tick env c)) = CaFIRED \<Longrightarrow>
      cool_verdict env c = Deviates \<and> cc_sustained_min (ca_cfg c) \<le> int (ca_sustained_count (snd (cool_tick env c)))"
proof -
  have t: "ca_t_armed (cool_disarm n x) = ca_t_armed x" for n x by (simp add: cool_disarm_def)
  have "ca_cfg (snd (cool_tick env c)) = ca_cfg c \<and> ca_t_armed (snd (cool_tick env c)) = ca_t_armed c
    \<and> ca_sustained_count (snd (cool_tick env c)) \<in> {0, next_count (cool_verdict env c) (ca_sustained_count c)}
    \<and> (ca_state c \<noteq> CaFIRED \<and> ca_state (snd (cool_tick env c)) = CaFIRED \<longrightarrow>
      cool_verdict env c = Deviates \<and> cc_sustained_min (ca_cfg c) \<le> int (ca_sustained_count (snd (cool_tick env c))))"
    using assms(1)
  proof (cases rule: tick_cases [of env c])
    case monitoring
    note eff = quiet_monitoring_tick [OF assms(1) monitoring assms(2,3)]
    from effect_frame [OF eff] effect_fired [OF eff] show ?thesis by (auto simp: next_count_def)
  next
    case finalized
    thus ?thesis using verdict_not_monitoring [of c env] by (simp add: monitoring_def next_count_def t)
  next
    case idle
    thus ?thesis using verdict_not_monitoring [of c env] by (auto simp: monitoring_def next_count_def)
  next
    case watchdog
    thus ?thesis using verdict_not_monitoring [of c env] watchdog_keeps [OF assms(1), where c = c]
      by (auto simp: monitoring_def next_count_def)
  qed
  thus "ca_cfg (snd (cool_tick env c)) = ca_cfg c" "ca_t_armed (snd (cool_tick env c)) = ca_t_armed c"
    "ca_sustained_count (snd (cool_tick env c)) \<in> {0, next_count (cool_verdict env c) (ca_sustained_count c)}"
    "ca_state c \<noteq> CaFIRED \<Longrightarrow> ca_state (snd (cool_tick env c)) = CaFIRED \<Longrightarrow>
      cool_verdict env c = Deviates \<and> cc_sustained_min (ca_cfg c) \<le> int (ca_sustained_count (snd (cool_tick env c)))"
    by blast+
qed

section \<open>Runs of quiet ticks\<close>

definition cool_run :: "cool \<Rightarrow> cool_env list \<Rightarrow> cool" where
  "cool_run c es = foldl (\<lambda>c e. snd (cool_tick e c)) c es"

text \<open>The verdicts of a run that say something about the trajectory.\<close>

fun evaluations :: "cool \<Rightarrow> cool_env list \<Rightarrow> cool_verdict list" where
  "evaluations c [] = []"
| "evaluations c (e # es) =
     filter (\<lambda>v. v = InPlan \<or> v = Deviates) [cool_verdict e c] @ evaluations (snd (cool_tick e c)) es"

lemma cool_run_simps [simp]:
  "cool_run c [] = c" "cool_run c (e # es) = cool_run (snd (cool_tick e c)) es"
  "cool_run c (es @ [e]) = snd (cool_tick e (cool_run c es))"
  by (simp_all add: cool_run_def)

lemma evaluations_snoc [simp]:
  "evaluations c (es @ [e]) = evaluations c es @ filter (\<lambda>v. v = InPlan \<or> v = Deviates) [cool_verdict e (cool_run c es)]"
  by (induction es arbitrary: c) simp_all

lemma run_frame:
  assumes "\<forall>e \<in> set es. quiet_env e" and "ca_t_armed c \<noteq> None" and "1 \<le> cc_sustained_min (ca_cfg c)"
  shows "ca_cfg (cool_run c es) = ca_cfg c \<and> ca_t_armed (cool_run c es) = ca_t_armed c"
  using assms(1)
proof (induction es rule: rev_induct)
  case (snoc e es)
  thus ?case using tick_frame(1,2) [of e "cool_run c es"] assms(2,3) by simp
qed simp

lemma count_trailing:
  assumes "\<forall>e \<in> set es. quiet_env e" and "ca_t_armed c \<noteq> None" and "1 \<le> cc_sustained_min (ca_cfg c)"
    and "ca_sustained_count c = 0"
  shows "\<exists>vs. evaluations c es = vs @ replicate (ca_sustained_count (cool_run c es)) Deviates"
  using assms(1)
proof (induction es rule: rev_induct)
  case Nil
  thus ?case by (simp add: assms(4))
next
  case (snoc e es)
  let ?c = "cool_run c es"
  obtain vs where vs: "evaluations c es = vs @ replicate (ca_sustained_count ?c) Deviates" using snoc by auto
  have fr: "ca_t_armed ?c \<noteq> None" "1 \<le> cc_sustained_min (ca_cfg ?c)"
    using run_frame [of es c] snoc.prems assms(2,3) by simp_all
  from tick_frame(3) [OF _ fr, of e] snoc.prems
  consider "ca_sustained_count (snd (cool_tick e ?c)) = 0"
    | "ca_sustained_count (snd (cool_tick e ?c)) = next_count (cool_verdict e ?c) (ca_sustained_count ?c)" by auto
  thus ?case
  proof cases
    case 2
    thus ?thesis
      by (cases "cool_verdict e ?c") (auto simp: vs next_count_def replicate_append_same [symmetric])
  qed simp
qed

text \<open>
  The alarm fires only on a sustained deviation. When a run of ticks from an armed alarm with a
  cleared counter moves it into FIRED, the last evaluations of the trajectory, as many as configured,
  all deviated: an evaluation in plan starts the count again, while ticks without usable data or
  without a prediction neither count nor interrupt.
\<close>

theorem cooldown_fires_only_sustained:
  assumes "\<forall>e' \<in> set (es @ [e]). quiet_env e'" and "ca_t_armed c \<noteq> None" and "1 \<le> cc_sustained_min (ca_cfg c)"
    and "ca_sustained_count c = 0"
    and "ca_state (cool_run c es) \<noteq> CaFIRED" and "ca_state (cool_run c (es @ [e])) = CaFIRED"
  shows "\<exists>vs. evaluations c (es @ [e]) = vs @ replicate (nat (cc_sustained_min (ca_cfg c))) Deviates"
proof -
  let ?c = "cool_run c es" and ?n = "nat (cc_sustained_min (ca_cfg c))"
  have fr: "ca_t_armed ?c \<noteq> None" "1 \<le> cc_sustained_min (ca_cfg ?c)" "ca_cfg ?c = ca_cfg c"
    using run_frame [of es c] assms(1-3) by simp_all
  have le: "?n \<le> ca_sustained_count (cool_run c (es @ [e]))"
    using tick_frame(4) [OF _ fr(1,2), of e] assms fr(3) by (simp add: nat_le_iff)
  obtain vs where vs: "evaluations c (es @ [e]) = vs @ replicate (ca_sustained_count (cool_run c (es @ [e]))) Deviates"
    using count_trailing [OF assms(1-4)] by blast
  have "replicate (ca_sustained_count (cool_run c (es @ [e]))) Deviates
      = replicate (ca_sustained_count (cool_run c (es @ [e])) - ?n) Deviates @ replicate ?n Deviates"
    using le by (simp add: replicate_add [symmetric])
  thus ?thesis using vs by (metis append_assoc)
qed

lemma cooldown_fires_only_sustained_witness:
  "\<exists>vs. evaluations (sample_cool CaWATCHING 0 \<lparr> ca_cfg := cool_cfg_default\<lparr> cc_sustained_min := 2 \<rparr> \<rparr>)
          [sample_env [], sample_env []] = vs @ [Deviates, Deviates]"
proof -
  let ?c = "sample_cool CaWATCHING 0 \<lparr> ca_cfg := cool_cfg_default\<lparr> cc_sustained_min := 2 \<rparr> \<rparr>"
  let ?d = "snd (cool_tick (sample_env []) ?c)"
  have d: "ca_state ?d = CaWATCHING" "ca_state (snd (cool_tick (sample_env []) ?d)) = CaFIRED"
    by (simp_all add: tick_defs sample_defs Let_def case_prod_beta cool_process_def)
  show ?thesis
    using cooldown_fires_only_sustained [of "[sample_env []]" "sample_env []" ?c] d
    by (simp add: quiet_env_def sample_env_def sample_cool_def cool_cfg_default_def numeral_2_eq_2)
qed

section \<open>When the alarms are active\<close>

definition alarm_follows :: "cool \<Rightarrow> bool" where
  "alarm_follows c =
     ((alarm_active CA_ALARM_ID c \<longrightarrow> ca_state c = CaFIRED)
      \<and> (alarm_active CA_WATCHDOG_ALARM_ID c \<longrightarrow> ca_state c = CaWATCHDOG_FIRED))"

lemma follows_disarm: "alarm_follows (cool_disarm n c)"
  by (simp add: alarm_follows_def)

lemma follows_arm: "alarm_follows c \<Longrightarrow> ca_state c \<noteq> CaFIRED \<Longrightarrow> alarm_follows (snd (cool_arm s a n k c))"
  by (auto simp: alarm_follows_def cool_arm_def cool_arm_ready_def case_prod_beta Let_def split: option.splits model_answer.splits)

text \<open>
  An active alarm belongs to its state. If the trajectory alarm is active only in FIRED and the
  watchdog alarm only in its fired state, every call of the operator and the engine keeps that, arming
  included unless it re-arms a fired alarm, and so does every tick, provided a fired alarm is past its
  baseline time.
\<close>

theorem alarm_follows_state:
  assumes "alarm_follows c"
  shows "(ca_state c \<noteq> CaFIRED \<or> (\<forall>s a k. call \<noteq> CallArm s a k) \<longrightarrow> alarm_follows (cool_apply n call c))
    \<and> (quiet_env env \<and> ca_t_armed c \<noteq> None \<and> 1 \<le> cc_sustained_min (ca_cfg c) \<and> 1 \<le> ca_watchdog_required_ticks c
       \<and> (ca_state c = CaFIRED \<longrightarrow> RATE_MIN_HISTORY_H \<le> elapsed_h env c) \<longrightarrow> alarm_follows (snd (cool_tick env c)))"
proof (intro conjI impI)
  assume *: "ca_state c \<noteq> CaFIRED \<or> (\<forall>s a k. call \<noteq> CallArm s a k)"
  show "alarm_follows (cool_apply n call c)"
  proof (cases call)
    case (CallArm s a k)
    with * follows_arm [OF assms] show ?thesis by simp
  next
    case CallFinalized
    with assms show ?thesis by (simp add: alarm_follows_def notify_experiment_finalized_def)
  next
    case (CallPhase p)
    with assms follows_disarm show ?thesis by (simp add: notify_phase_change_def) (simp add: alarm_follows_def)
  qed (simp add: follows_disarm)
next
  assume *: "quiet_env env \<and> ca_t_armed c \<noteq> None \<and> 1 \<le> cc_sustained_min (ca_cfg c) \<and> 1 \<le> ca_watchdog_required_ticks c
       \<and> (ca_state c = CaFIRED \<longrightarrow> RATE_MIN_HISTORY_H \<le> elapsed_h env c)"
  hence q: "quiet_env env" by blast
  show "alarm_follows (snd (cool_tick env c))"
    using q
  proof (cases rule: tick_cases [of env c])
    case finalized
    with assms show ?thesis by (auto simp: follows_disarm) (simp add: alarm_follows_def)
  next
    case idle
    with assms show ?thesis by simp
  next
    case watchdog
    have "\<not> alarm_active CA_ALARM_ID c" "alarm_active CA_WATCHDOG_ALARM_ID c \<longrightarrow> ca_state c = CaWATCHDOG_FIRED"
      using assms watchdog(2) by (auto simp: alarm_follows_def)
    thus ?thesis
      using watchdog * watchdog_keeps(7) [OF q, of c] watchdog_keeps(8) [OF q, of CA_ALARM_ID c]
      by (simp add: alarm_follows_def)
  next
    case monitoring
    have eff: "quiet_effect (elapsed_h env c < RATE_MIN_HISTORY_H) (cool_verdict env c) c (snd (cool_tick env c))"
      using quiet_monitoring_tick [OF q monitoring] * by blast
    have "\<not> alarm_active CA_WATCHDOG_ALARM_ID c"
      using assms monitoring by (auto simp: alarm_follows_def monitoring_def)
    hence "\<not> alarm_active CA_WATCHDOG_ALARM_ID (snd (cool_tick env c))"
      using effect_other [OF eff, of CA_WATCHDOG_ALARM_ID] by auto
    moreover have "alarm_active CA_ALARM_ID (snd (cool_tick env c)) \<Longrightarrow> ca_state (snd (cool_tick env c)) = CaFIRED"
      using assms * by (intro effect_active [OF eff]) (auto simp: alarm_follows_def)
    ultimately show ?thesis by (simp add: alarm_follows_def)
  qed
qed

lemma alarm_follows_state_witness:
  "alarm_follows (snd (cool_tick (sample_env []) (sample_cool CaWATCHING 4)))
   \<and> alarm_follows (cool_apply 0 (CallPhase ''measurement'') (sample_cool CaWATCHING 4))"
proof -
  have "alarm_follows (sample_cool CaWATCHING 4)"
    by (simp add: alarm_follows_def alarm_active_def sample_cool_def alarm_mgr_init_def)
  from alarm_follows_state [OF this, of "CallPhase ''measurement''" 0 "sample_env []"] show ?thesis
    by (simp add: quiet_env_def sample_env_def sample_cool_def cool_cfg_default_def)
qed



end
