(* ===== verification/SensorDiag.thy ===== *)
theory SensorDiag
  imports AlarmState
begin

text \<open>
  \<open>SensorDiagnosticsEngine\<close> of \<^verbatim>\<open>src/cryodaq/core/sensor_diagnostics.py\<close>: buffers of the physical
  sensors, noise, drift, outliers, correlation and a health score per channel, and the anomaly tracking
  that publishes diagnostic alarms through the alarm manager, with the feed that fills it
  (\<^verbatim>\<open>engine_wiring/runtime_tasks.py\<close>).

  Parameters: \<open>np_std\<close> and \<open>np_corr\<close> stand for \<open>numpy.std\<close> and \<open>numpy.corrcoef\<close>, \<open>name_physical\<close> for the
  regular expressions that classify channels without a descriptor. \<open>numpy.median\<close> is modelled: NaN if
  there is a NaN, otherwise the middle of the sorted values. \<open>now\<close> is \<open>time.time()\<close>, \<open>clk\<close> is
  \<open>time.monotonic()\<close>.
\<close>

section \<open>The order of numpy's sort\<close>

definition fl_rank :: "pyfloat \<Rightarrow> nat" where
  "fl_rank x = (case x of NegInf \<Rightarrow> 0 | Fin _ \<Rightarrow> 1 | PosInf \<Rightarrow> 2 | NaN \<Rightarrow> 3)"

instantiation pyfloat :: linorder
begin

definition less_eq_pyfloat :: "pyfloat \<Rightarrow> pyfloat \<Rightarrow> bool" where
  "less_eq_pyfloat x y =
     (case (x, y) of (Fin a, Fin b) \<Rightarrow> a \<le> b | _ \<Rightarrow> fl_rank x \<le> fl_rank y)"

definition less_pyfloat :: "pyfloat \<Rightarrow> pyfloat \<Rightarrow> bool" where
  "less_pyfloat x y = (x \<le> y \<and> \<not> y \<le> (x :: pyfloat))"

instance
proof
  fix x y z :: pyfloat
  show "(x < y) = (x \<le> y \<and> \<not> y \<le> x)" by (simp add: less_pyfloat_def)
  show "x \<le> x" by (cases x) (simp_all add: less_eq_pyfloat_def)
  show "x \<le> y \<Longrightarrow> y \<le> z \<Longrightarrow> x \<le> z"
    by (cases x; cases y; cases z) (simp_all add: less_eq_pyfloat_def fl_rank_def)
  show "x \<le> y \<Longrightarrow> y \<le> x \<Longrightarrow> x = y"
    by (cases x; cases y) (simp_all add: less_eq_pyfloat_def fl_rank_def)
  show "x \<le> y \<or> y \<le> x"
    by (cases x; cases y) (auto simp: less_eq_pyfloat_def fl_rank_def)
qed

end

section \<open>Statistics\<close>

definition np_median :: "pyfloat list \<Rightarrow> pyfloat" where
  "np_median xs =
     (if xs = [] \<or> NaN \<in> set xs then NaN
      else
        (let ys = sort xs; n = length ys
         in if odd n then ys ! (n div 2)
            else fl_mul (fl_add (ys ! (n div 2 - 1)) (ys ! (n div 2))) (Fin (1/2))))"

definition mad_sigma :: "pyfloat list \<Rightarrow> pyfloat" where
  "mad_sigma xs =
     (if length xs < 2 then NaN
      else (let m = np_median xs
            in fl_mul (np_median (map (\<lambda>v. fl_abs (fl_sub v m)) xs)) (Fin (14826/10000))))"

record np_env =
  np_std :: "pyfloat list \<Rightarrow> pyfloat"
  np_corr :: "pyfloat list \<Rightarrow> pyfloat list \<Rightarrow> pyfloat"

definition pearson_r :: "np_env \<Rightarrow> pyfloat list \<Rightarrow> pyfloat list \<Rightarrow> pyfloat option" where
  "pearson_r np x y =
     (if length x < 10 \<or> length y < 10 \<or> length x \<noteq> length y then None
      else if np_std np x = Fin 0 \<or> np_std np y = Fin 0 then None
      else (let r = np_corr np x y in if fl_isnan r then None else Some r))"

definition get_noise_threshold :: "pyfloat \<Rightarrow> real" where
  "get_noise_threshold t =
     (if fl_less t (Fin 30) then 2/100
      else if fl_less t (Fin 100) then 5/100
      else if fl_less t (Fin 200) then 1/10
      else 2/10)"

section \<open>State\<close>

datatype channel_role =
    PRIMARY_MEASUREMENT | REFERENCE_MEASUREMENT | ENVIRONMENT | SOURCE_READBACK | DERIVED | EVENT | LEGACY_UNKNOWN

text \<open>The part of a channel descriptor that classification reads.\<close>

record descriptor =
  de_temperature :: bool
  de_unit :: string
  de_role :: channel_role

record channel_diag =
  cd_channel_id :: string
  cd_channel_name :: string
  cd_current_T :: pyfloat
  cd_noise_std :: pyfloat
  cd_noise_mK :: pyfloat
  cd_drift_rate :: pyfloat
  cd_drift_mK_per_min :: pyfloat
  cd_outlier_count :: nat
  cd_correlation :: "pyfloat option"
  cd_health_score :: int
  cd_fault_flags :: "string list"
  cd_updated_at :: real

record diag_summary =
  su_total :: nat
  su_healthy :: nat
  su_warning :: nat
  su_critical :: nat
  su_worst_channel :: string
  su_worst_score :: int
  su_worst_flags :: "string list"

record anomaly =
  an_first :: real
  an_status :: string
  an_warning_ts :: "real option"
  an_critical_ts :: "real option"

record sensor_diag =
  sd_noise_window :: real
  sd_drift_window :: real
  sd_corr_window :: real
  sd_outlier_window :: real
  sd_outlier_sigma :: pyfloat
  sd_drift_threshold :: pyfloat
  sd_corr_min :: pyfloat
  sd_min_points :: int
  sd_catalog :: "descriptor dict option"
  sd_maxlen :: nat
  sd_groups :: "string list dict"
  sd_channel_to_group :: "string dict"
  sd_names :: "string dict"
  sd_is_cold :: "bool dict"
  sd_buffers :: "sample list dict"
  sd_diagnostics :: "channel_diag dict"
  sd_publisher :: bool
  sd_warning_s :: real
  sd_critical_s :: real
  sd_anomaly :: "anomaly dict"
  sd_cooldown_s :: real
  sd_last_notified :: "real dict"
  sd_grace_s :: real
  sd_started :: "real option"

definition diag_maxlen :: "real \<Rightarrow> real \<Rightarrow> nat" where
  "diag_maxlen drift_window corr_window = nat (max 500 (py_int (max drift_window corr_window * 10) + 200))"

definition group_map :: "string list dict \<Rightarrow> string dict" where
  "group_map groups = fold (\<lambda>(g, chs) d. fold (\<lambda>ch e. dict_set ch g e) chs d) groups []"

text \<open>\<open>__init__\<close> with the defaults of \<open>cfg.get\<close>.\<close>

definition sensor_diag_init ::
  "string list dict \<Rightarrow> descriptor dict option \<Rightarrow> bool \<Rightarrow> real \<Rightarrow> real \<Rightarrow> real \<Rightarrow> real \<Rightarrow> sensor_diag" where
  "sensor_diag_init groups catalog publisher warning_s critical_s cooldown_s grace_s =
     \<lparr> sd_noise_window = 120, sd_drift_window = 600, sd_corr_window = 600, sd_outlier_window = 300,
       sd_outlier_sigma = Fin 5, sd_drift_threshold = Fin (1/10), sd_corr_min = Fin (8/10), sd_min_points = 10,
       sd_catalog = catalog, sd_maxlen = diag_maxlen 600 600, sd_groups = groups,
       sd_channel_to_group = group_map groups, sd_names = [], sd_is_cold = [], sd_buffers = [],
       sd_diagnostics = [], sd_publisher = publisher, sd_warning_s = warning_s, sd_critical_s = critical_s,
       sd_anomaly = [], sd_cooldown_s = cooldown_s, sd_last_notified = [], sd_grace_s = grace_s,
       sd_started = None \<rparr>"

section \<open>Channels\<close>

definition is_physical_sensor :: "(string \<Rightarrow> bool) \<Rightarrow> string \<Rightarrow> descriptor dict option \<Rightarrow> bool" where
  "is_physical_sensor name_physical channel catalog =
     (channel \<noteq> []
      \<and> (case (case catalog of None \<Rightarrow> None | Some c \<Rightarrow> dict_get c channel) of
            Some d \<Rightarrow> de_temperature d \<and> de_unit d = ''K''
                      \<and> de_role d \<in> {PRIMARY_MEASUREMENT, REFERENCE_MEASUREMENT, ENVIRONMENT}
          | None \<Rightarrow> name_physical channel))"

definition mark_engine_started :: "real \<Rightarrow> sensor_diag \<Rightarrow> sensor_diag" where
  "mark_engine_started clk s = s\<lparr> sd_started := Some clk \<rparr>"

definition is_in_grace_period :: "real \<Rightarrow> sensor_diag \<Rightarrow> bool" where
  "is_in_grace_period clk s =
     (case sd_started s of None \<Rightarrow> False | Some t \<Rightarrow> 0 < sd_grace_s s \<and> clk - t < sd_grace_s s)"

definition set_channel_names :: "string dict \<Rightarrow> sensor_diag \<Rightarrow> sensor_diag" where
  "set_channel_names names s = s\<lparr> sd_names := names \<rparr>"

definition set_channel_cold_map :: "bool dict \<Rightarrow> sensor_diag \<Rightarrow> sensor_diag" where
  "set_channel_cold_map cold s = s\<lparr> sd_is_cold := cold \<rparr>"

definition is_channel_cold :: "sensor_diag \<Rightarrow> string \<Rightarrow> bool" where
  "is_channel_cold s channel_id =
     (case dict_get (sd_is_cold s) channel_id of
        Some b \<Rightarrow> b
      | None \<Rightarrow> dict_getd (sd_is_cold s) (short_name channel_id) True)"

definition diag_push :: "(string \<Rightarrow> bool) \<Rightarrow> string \<Rightarrow> real \<Rightarrow> pyfloat \<Rightarrow> sensor_diag \<Rightarrow> sensor_diag" where
  "diag_push name_physical channel_id ts v s =
     (if \<not> is_physical_sensor name_physical channel_id (sd_catalog s) then s
      else s\<lparr> sd_buffers := dict_set channel_id
                (dq_append (sd_maxlen s) (ts, v) (dict_getd (sd_buffers s) channel_id [])) (sd_buffers s) \<rparr>)"

text \<open>One reading taken from the queue of \<open>sensor_diag_feed\<close>.\<close>

definition sensor_diag_feed :: "(string \<Rightarrow> bool) \<Rightarrow> reading \<Rightarrow> sensor_diag \<Rightarrow> sensor_diag" where
  "sensor_diag_feed name_physical r s =
     (if is_usable r then diag_push name_physical (r_channel r) (r_timestamp r) (r_value r) s else s)"

section \<open>Diagnostics of one channel\<close>

definition window_points :: "sample list \<Rightarrow> real \<Rightarrow> sample list" where
  "window_points buf w = (if buf = [] then [] else filter (\<lambda>p. fst (last buf) - w \<le> fst p) buf)"

definition window_values :: "sample list \<Rightarrow> real \<Rightarrow> pyfloat list" where
  "window_values buf w = map snd (window_points buf w)"

definition count_outliers :: "sensor_diag \<Rightarrow> pyfloat list \<Rightarrow> nat" where
  "count_outliers s xs =
     (if int (length xs) < sd_min_points s then 0
      else
        (let m = np_median xs; sigma = mad_sigma xs
         in if sigma = Fin 0 \<or> \<not> fl_isfinite sigma then 0
            else length (filter (\<lambda>v. fl_less (fl_mul (sd_outlier_sigma s) sigma) (fl_abs (fl_sub v m))) xs)))"

definition diag_resolve_channel :: "sensor_diag \<Rightarrow> string \<Rightarrow> string" where
  "diag_resolve_channel s short =
     (if dict_get (sd_buffers s) short \<noteq> None then short
      else (case filter (\<lambda>k. short_name k = short) (dict_keys (sd_buffers s)) of [] \<Rightarrow> short | k # _ \<Rightarrow> k))"

text \<open>\<open>round(t, 3)\<close>: to the nearest thousandth, a tie to the even one.\<close>

definition py_round3 :: "real \<Rightarrow> real" where
  "py_round3 t =
     (let x = t * 1000; f = \<lfloor>x\<rfloor>; d = x - of_int f
      in of_int (if d < 1/2 then f else if 1/2 < d then f + 1 else if even f then f else f + 1) / 1000)"

definition rounded_map :: "sample list \<Rightarrow> (real \<times> pyfloat) list" where
  "rounded_map ps = fold (\<lambda>(t, v) d. AList.update (py_round3 t) v d) ps []"

definition neighbour_correlation :: "np_env \<Rightarrow> sensor_diag \<Rightarrow> sample list \<Rightarrow> string \<Rightarrow> pyfloat option" where
  "neighbour_correlation np s my_points n =
     (let n_points = window_points (dict_getd (sd_buffers s) n []) (sd_corr_window s)
      in if int (length n_points) < sd_min_points s then None
         else
           (let mine = rounded_map my_points; theirs = rounded_map n_points;
                common = sort (filter (\<lambda>t. t \<in> set (map fst theirs)) (map fst mine))
            in if int (length common) < sd_min_points s then None
               else pearson_r np (map (\<lambda>t. the (map_of mine t)) common) (map (\<lambda>t. the (map_of theirs t)) common)))"

definition better :: "pyfloat option \<Rightarrow> pyfloat option \<Rightarrow> pyfloat option" where
  "better best r =
     (case r of None \<Rightarrow> best
      | Some x \<Rightarrow> (case best of None \<Rightarrow> r | Some b \<Rightarrow> if fl_less b x then r else best))"

definition compute_correlation :: "np_env \<Rightarrow> sensor_diag \<Rightarrow> string \<Rightarrow> pyfloat option" where
  "compute_correlation np s channel_id =
     (case (case dict_get (sd_channel_to_group s) (short_name channel_id) of
              Some g \<Rightarrow> Some g | None \<Rightarrow> dict_get (sd_channel_to_group s) channel_id) of
        None \<Rightarrow> None
      | Some g \<Rightarrow>
          (let neighbours = filter (\<lambda>f. f \<noteq> channel_id \<and> dict_get (sd_buffers s) f \<noteq> None)
                              (map (diag_resolve_channel s) (dict_getd (sd_groups s) g []));
               my_points = window_points (dict_getd (sd_buffers s) channel_id []) (sd_corr_window s)
           in if neighbours = [] \<or> int (length my_points) < sd_min_points s then None
              else foldl (\<lambda>best n. better best (neighbour_correlation np s my_points n)) None neighbours))"

definition compute_fault_flags ::
  "sensor_diag \<Rightarrow> pyfloat \<Rightarrow> pyfloat \<Rightarrow> pyfloat \<Rightarrow> pyfloat option \<Rightarrow> string list" where
  "compute_fault_flags s t noise drift corr =
     (if fl_less (Fin 350) t then [''disconnected''] else [])
     @ (if fl_le t (Fin 0) then [''shorted''] else [])
     @ (if fl_isfinite noise \<and> fl_less (Fin (get_noise_threshold t)) noise then [''noisy''] else [])
     @ (if fl_isfinite drift \<and> fl_less (sd_drift_threshold s) (fl_abs drift) then [''drifting''] else [])
     @ (case corr of None \<Rightarrow> [] | Some r \<Rightarrow> if fl_less r (sd_corr_min s) then [''uncorrelated''] else [])"

definition noise_penalty :: "pyfloat \<Rightarrow> pyfloat \<Rightarrow> int" where
  "noise_penalty t noise =
     (if fl_isfinite noise
      then (if fl_less (Fin (get_noise_threshold t * 3)) noise then 40
            else if fl_less (Fin (get_noise_threshold t)) noise then 20 else 0)
      else 0)"

definition drift_penalty :: "sensor_diag \<Rightarrow> pyfloat \<Rightarrow> int" where
  "drift_penalty s drift = (if fl_isfinite drift \<and> fl_less (sd_drift_threshold s) (fl_abs drift) then 25 else 0)"

definition outlier_penalty :: "nat \<Rightarrow> int" where
  "outlier_penalty n = (if 5 < n then 30 else if 2 < n then 15 else 0)"

definition correlation_penalty :: "sensor_diag \<Rightarrow> pyfloat option \<Rightarrow> int" where
  "correlation_penalty s corr =
     (case corr of None \<Rightarrow> 0 | Some r \<Rightarrow> if fl_less r (sd_corr_min s) then 20 else 0)"

definition compute_health ::
  "sensor_diag \<Rightarrow> pyfloat \<Rightarrow> pyfloat \<Rightarrow> nat \<Rightarrow> pyfloat option \<Rightarrow> pyfloat \<Rightarrow> int" where
  "compute_health s noise drift outliers corr t =
     (if \<not> fl_isfinite t then 0
      else if fl_less (Fin 350) t \<or> fl_le t (Fin 0) then 0
      else if \<not> fl_isfinite noise \<and> \<not> fl_isfinite drift then 100
      else max 0 (100 - noise_penalty t noise - drift_penalty s drift - outlier_penalty outliers
                  - correlation_penalty s corr))"

definition finite_or_nan :: "pyfloat \<Rightarrow> pyfloat" where
  "finite_or_nan x = (if fl_isfinite x then x else NaN)"

definition compute_channel :: "np_env \<Rightarrow> sensor_diag \<Rightarrow> string \<Rightarrow> sample list \<Rightarrow> real \<Rightarrow> channel_diag" where
  "compute_channel np s channel_id buf now =
     (let t = snd (last buf); name = dict_getd (sd_names s) channel_id channel_id
      in if \<not> is_channel_cold s channel_id then
           \<lparr> cd_channel_id = channel_id, cd_channel_name = name, cd_current_T = t, cd_noise_std = NaN,
             cd_noise_mK = NaN, cd_drift_rate = NaN, cd_drift_mK_per_min = NaN, cd_outlier_count = 0,
             cd_correlation = None, cd_health_score = -1, cd_fault_flags = [''warm_reference''],
             cd_updated_at = now \<rparr>
         else
           (let noise_points = window_values buf (sd_noise_window s);
                noise = (if sd_min_points s \<le> int (length noise_points) then mad_sigma noise_points else NaN);
                drift_points = window_points buf (sd_drift_window s);
                drift = (if sd_min_points s \<le> int (length drift_points)
                         then get_opt (ols_slope_per_min drift_points) NaN else NaN);
                outliers = count_outliers s (window_values buf (sd_outlier_window s));
                corr = compute_correlation np s channel_id
            in \<lparr> cd_channel_id = channel_id, cd_channel_name = name, cd_current_T = t,
                 cd_noise_std = finite_or_nan noise, cd_noise_mK = (if fl_isfinite noise then fl_mul noise (Fin 1000) else NaN),
                 cd_drift_rate = finite_or_nan drift,
                 cd_drift_mK_per_min = (if fl_isfinite drift then fl_mul drift (Fin 1000) else NaN),
                 cd_outlier_count = outliers, cd_correlation = corr,
                 cd_health_score = compute_health s noise drift outliers corr t,
                 cd_fault_flags = compute_fault_flags s t noise drift corr, cd_updated_at = now \<rparr>))"

section \<open>Anomaly tracking\<close>

definition health_to_status :: "int \<Rightarrow> string" where
  "health_to_status h =
     (if h < 0 then ''ok'' else if 80 \<le> h then ''ok'' else if 50 \<le> h then ''warning'' else ''critical'')"

record tracking =
  tr_diag :: sensor_diag
  tr_mgr :: alarm_mgr
  tr_events :: "alarm_event list"

definition track_ok :: "string \<Rightarrow> real \<Rightarrow> tracking \<Rightarrow> tracking" where
  "track_ok channel_id now t =
     (case dict_get (sd_anomaly (tr_diag t)) channel_id of
        None \<Rightarrow> t
      | Some a \<Rightarrow>
          t\<lparr> tr_diag := (tr_diag t)\<lparr> sd_anomaly := dict_del channel_id (sd_anomaly (tr_diag t)) \<rparr>,
             tr_mgr := (if an_warning_ts a \<noteq> None \<or> an_critical_ts a \<noteq> None
                        then clear_diagnostic_alarm (tr_mgr t) channel_id now else tr_mgr t) \<rparr>)"

definition put_anomaly :: "string \<Rightarrow> anomaly \<Rightarrow> tracking \<Rightarrow> tracking" where
  "put_anomaly channel_id a t = t\<lparr> tr_diag := (tr_diag t)\<lparr> sd_anomaly := dict_set channel_id a (sd_anomaly (tr_diag t)) \<rparr> \<rparr>"

definition note_notified :: "string \<Rightarrow> real \<Rightarrow> alarm_event \<Rightarrow> tracking \<Rightarrow> tracking" where
  "note_notified channel_id clk ev t =
     t\<lparr> tr_diag := (tr_diag t)\<lparr> sd_last_notified := dict_set channel_id clk (sd_last_notified (tr_diag t)) \<rparr>,
        tr_events := tr_events t @ [ev] \<rparr>"

definition within_cooldown :: "sensor_diag \<Rightarrow> string \<Rightarrow> real \<Rightarrow> bool" where
  "within_cooldown s channel_id clk =
     (0 < sd_cooldown_s s
      \<and> (case dict_get (sd_last_notified s) channel_id of None \<Rightarrow> False | Some t \<Rightarrow> clk - t < sd_cooldown_s s))"

text \<open>The anomaly record of a channel with its current status.\<close>

definition current_anomaly :: "sensor_diag \<Rightarrow> string \<Rightarrow> string \<Rightarrow> real \<Rightarrow> anomaly" where
  "current_anomaly s channel_id status clk =
     (case dict_get (sd_anomaly s) channel_id of
        None \<Rightarrow> \<lparr> an_first = clk, an_status = status, an_warning_ts = None, an_critical_ts = None \<rparr>
      | Some a \<Rightarrow> a\<lparr> an_status := status \<rparr>)"

definition track_warning :: "string \<Rightarrow> real \<Rightarrow> real \<Rightarrow> anomaly \<Rightarrow> tracking \<Rightarrow> anomaly \<times> tracking" where
  "track_warning channel_id now clk a t =
     (let elapsed = clk - an_first a
      in if sd_warning_s (tr_diag t) \<le> elapsed \<and> an_warning_ts a = None then
           (let (event, m) = publish_diagnostic_alarm (tr_mgr t) channel_id ''warning'' elapsed now;
                t1 = t\<lparr> tr_mgr := m \<rparr>
            in (a\<lparr> an_warning_ts := Some clk \<rparr>,
                case event of
                  None \<Rightarrow> t1
                | Some ev \<Rightarrow> (if within_cooldown (tr_diag t1) channel_id clk then t1
                              else note_notified channel_id clk ev t1)))
         else (a, t))"

definition track_critical :: "string \<Rightarrow> real \<Rightarrow> real \<Rightarrow> anomaly \<Rightarrow> tracking \<Rightarrow> anomaly \<times> tracking" where
  "track_critical channel_id now clk a t =
     (let elapsed = clk - an_first a
      in if sd_critical_s (tr_diag t) \<le> elapsed \<and> an_status a = ''critical'' \<and> an_critical_ts a = None then
           (let (event, m) = publish_diagnostic_alarm (tr_mgr t) channel_id ''critical'' elapsed now;
                t1 = t\<lparr> tr_mgr := m \<rparr>
            in (a\<lparr> an_critical_ts := Some clk \<rparr>,
                case event of None \<Rightarrow> t1 | Some ev \<Rightarrow> note_notified channel_id clk ev t1))
         else (a, t))"

definition track_bad :: "string \<Rightarrow> string \<Rightarrow> real \<Rightarrow> real \<Rightarrow> tracking \<Rightarrow> tracking" where
  "track_bad channel_id status now clk t =
     (let a = current_anomaly (tr_diag t) channel_id status clk;
          (a1, t1) = track_warning channel_id now clk a t;
          (a2, t2) = track_critical channel_id now clk a1 t1
      in put_anomaly channel_id a2 t2)"

definition track_channel :: "real \<Rightarrow> real \<Rightarrow> string \<times> channel_diag \<Rightarrow> tracking \<Rightarrow> tracking" where
  "track_channel now clk x t =
     (let status = health_to_status (cd_health_score (snd x))
      in if status = ''ok'' then track_ok (fst x) now t else track_bad (fst x) status now clk t)"

text \<open>\<open>_update_anomaly_tracking\<close>; \<open>clk1\<close> is the clock of the grace check, \<open>clk2\<close> the one read after it.\<close>

definition update_anomaly_tracking ::
  "real \<Rightarrow> real \<Rightarrow> real \<Rightarrow> sensor_diag \<Rightarrow> alarm_mgr \<Rightarrow> alarm_event list \<times> sensor_diag \<times> alarm_mgr" where
  "update_anomaly_tracking now clk1 clk2 s m =
     (if is_in_grace_period clk1 s then ([], s, m)
      else
        (let t = fold (track_channel now clk2) (sd_diagnostics s) \<lparr> tr_diag = s, tr_mgr = m, tr_events = [] \<rparr>
         in (tr_events t, tr_diag t, tr_mgr t)))"

definition update_channel :: "np_env \<Rightarrow> real \<Rightarrow> string \<times> sample list \<Rightarrow> sensor_diag \<Rightarrow> sensor_diag" where
  "update_channel np now x s =
     (if snd x = [] then s\<lparr> sd_diagnostics := dict_del (fst x) (sd_diagnostics s) \<rparr>
      else s\<lparr> sd_diagnostics := dict_set (fst x) (compute_channel np s (fst x) (snd x) now) (sd_diagnostics s) \<rparr>)"

definition diag_update ::
  "np_env \<Rightarrow> real \<Rightarrow> real \<Rightarrow> real \<Rightarrow> sensor_diag \<Rightarrow> alarm_mgr \<Rightarrow> alarm_event list \<times> sensor_diag \<times> alarm_mgr" where
  "diag_update np now clk1 clk2 s m =
     (let s1 = fold (update_channel np now) (sd_buffers s) s
      in if sd_publisher s1 then update_anomaly_tracking now clk1 clk2 s1 m else ([], s1, m))"

definition diag_get_summary :: "sensor_diag \<Rightarrow> diag_summary" where
  "diag_get_summary s =
     (let diags = map snd (sd_diagnostics s);
          scored = filter (\<lambda>d. 0 \<le> cd_health_score d) diags
      in if diags = [] then
           \<lparr> su_total = 0, su_healthy = 0, su_warning = 0, su_critical = 0, su_worst_channel = [],
             su_worst_score = 100, su_worst_flags = [] \<rparr>
         else
           (let worst = (case scored of
                  [] \<Rightarrow> hd diags
                | d # ds \<Rightarrow> foldl (\<lambda>w x. if cd_health_score x < cd_health_score w then x else w) d ds)
            in \<lparr> su_total = length diags,
                 su_healthy = length (filter (\<lambda>d. 80 \<le> cd_health_score d) scored),
                 su_warning = length (filter (\<lambda>d. 50 \<le> cd_health_score d \<and> cd_health_score d < 80) scored),
                 su_critical = length (filter (\<lambda>d. cd_health_score d < 50) scored),
                 su_worst_channel = cd_channel_id worst, su_worst_score = cd_health_score worst,
                 su_worst_flags = cd_fault_flags worst \<rparr>))"

end
