(* ===== verification/SensorDiagProps.thy ===== *)
theory SensorDiagProps
  imports SensorDiag
begin

text \<open>
  Properties of the sensor diagnostics: the diagnostic alarms in the alarm manager are exactly the
  published anomalies, they are published only after a sustained anomaly, the health score is bounded
  and monotone, and a sensor that stops delivering usable readings keeps its score.
\<close>

section \<open>Alarms and anomalies\<close>

definition diag_id :: "string \<Rightarrow> string" where
  "diag_id ch = ''diag:'' @ ch"

lemma diag_id_inj [simp]: "diag_id a = diag_id b \<longleftrightarrow> a = b"
  by (simp add: diag_id_def)

definition diag_level :: "alarm_mgr \<Rightarrow> string \<Rightarrow> string option" where
  "diag_level m ch = map_option ae_level (dict_get (am_active m) (diag_id ch))"

text \<open>The level at which an anomaly stands in the alarm manager.\<close>

definition published_level :: "anomaly option \<Rightarrow> string option" where
  "published_level a =
     (case a of
        None \<Rightarrow> None
      | Some x \<Rightarrow> if an_critical_ts x \<noteq> None then Some ''CRITICAL''
                  else if an_warning_ts x \<noteq> None then Some ''WARNING'' else None)"

definition alarms_tracked :: "sensor_diag \<Rightarrow> alarm_mgr \<Rightarrow> bool" where
  "alarms_tracked s m = (\<forall>ch. diag_level m ch = published_level (dict_get (sd_anomaly s) ch))"

lemma upper_levels [simp]: "map py_upper_char ''warning'' = ''WARNING''" "map py_upper_char ''critical'' = ''CRITICAL''"
  by code_simp+

lemma publish_warning_level:
  "diag_level (snd (publish_diagnostic_alarm m ch ''warning'' e n)) ch'
    = (if ch' = ch \<and> diag_level m ch = None then Some ''WARNING'' else diag_level m ch')"
  unfolding publish_diagnostic_alarm_def Let_def diag_id_def [symmetric] upper_levels diag_level_def
  by (auto simp: activate_alarm_def put_active_def alarm_event_new_def history_append_def mark_active_mutation_def
      Let_def dict_get_set split: option.splits)

lemma publish_critical_level:
  "diag_level m ch \<in> {None, Some ''WARNING''} \<Longrightarrow>
   diag_level (snd (publish_diagnostic_alarm m ch ''critical'' e n)) ch' = (if ch' = ch then Some ''CRITICAL'' else diag_level m ch')"
  unfolding publish_diagnostic_alarm_def Let_def diag_id_def [symmetric] upper_levels diag_level_def
  by (auto simp: activate_alarm_def put_active_def alarm_event_new_def history_append_def mark_active_mutation_def
      Let_def dict_get_set split: option.splits)

lemma clear_level: "diag_level (clear_diagnostic_alarm m ch n) ch' = (if ch' = ch then None else diag_level m ch')"
  unfolding clear_diagnostic_alarm_def Let_def diag_id_def [symmetric] diag_level_def
  by (auto simp: history_append_def mark_active_mutation_def dict_get_del split: option.splits)

section \<open>One channel of one update\<close>

text \<open>The channel's own record aside, tracking a channel touches no other record and no parameter.\<close>

lemma note_notified_fields [simp]:
  "sd_anomaly (tr_diag (note_notified ch k ev t)) = sd_anomaly (tr_diag t)"
  "tr_mgr (note_notified ch k ev t) = tr_mgr t"
  "sd_warning_s (tr_diag (note_notified ch k ev t)) = sd_warning_s (tr_diag t)"
  "sd_critical_s (tr_diag (note_notified ch k ev t)) = sd_critical_s (tr_diag t)"
  "sd_diagnostics (tr_diag (note_notified ch k ev t)) = sd_diagnostics (tr_diag t)"
  "sd_started (tr_diag (note_notified ch k ev t)) = sd_started (tr_diag t)"
  "sd_grace_s (tr_diag (note_notified ch k ev t)) = sd_grace_s (tr_diag t)"
  by (simp_all add: note_notified_def)

definition same_params :: "tracking \<Rightarrow> tracking \<Rightarrow> bool" where
  "same_params t t' =
     (sd_anomaly (tr_diag t') = sd_anomaly (tr_diag t) \<and> sd_warning_s (tr_diag t') = sd_warning_s (tr_diag t)
      \<and> sd_critical_s (tr_diag t') = sd_critical_s (tr_diag t)
      \<and> sd_diagnostics (tr_diag t') = sd_diagnostics (tr_diag t)
      \<and> sd_started (tr_diag t') = sd_started (tr_diag t) \<and> sd_grace_s (tr_diag t') = sd_grace_s (tr_diag t))"

lemma track_warning_result:
  defines "due a t clk \<equiv> sd_warning_s (tr_diag t) \<le> clk - an_first a \<and> an_warning_ts a = None"
  shows "fst (track_warning ch now clk a t) = (if due a t clk then a\<lparr> an_warning_ts := Some clk \<rparr> else a)"
    and "same_params t (snd (track_warning ch now clk a t))"
    and "diag_level (tr_mgr (snd (track_warning ch now clk a t))) ch' =
      (if due a t clk \<and> ch' = ch \<and> diag_level (tr_mgr t) ch = None then Some ''WARNING'' else diag_level (tr_mgr t) ch')"
  using publish_warning_level [of "tr_mgr t" ch "clk - an_first a" now ch']
  by (auto simp: track_warning_def due_def Let_def case_prod_beta same_params_def split: option.splits)

lemma track_critical_result:
  defines "due a t clk \<equiv> sd_critical_s (tr_diag t) \<le> clk - an_first a \<and> an_status a = ''critical'' \<and> an_critical_ts a = None"
  shows "fst (track_critical ch now clk a t) = (if due a t clk then a\<lparr> an_critical_ts := Some clk \<rparr> else a)"
    and "same_params t (snd (track_critical ch now clk a t))"
    and "diag_level (tr_mgr t) ch \<in> {None, Some ''WARNING''} \<or> \<not> due a t clk \<Longrightarrow>
      diag_level (tr_mgr (snd (track_critical ch now clk a t))) ch' =
      (if due a t clk \<and> ch' = ch then Some ''CRITICAL'' else diag_level (tr_mgr t) ch')"
  using publish_critical_level [of "tr_mgr t" ch "clk - an_first a" now ch']
  by (auto simp: track_critical_def due_def Let_def case_prod_beta same_params_def split: option.splits)

text \<open>The record a bad channel is left with.\<close>

definition advance :: "real \<Rightarrow> real \<Rightarrow> real \<Rightarrow> anomaly \<Rightarrow> anomaly" where
  "advance warning_s critical_s clk a =
     (let a1 = (if warning_s \<le> clk - an_first a \<and> an_warning_ts a = None then a\<lparr> an_warning_ts := Some clk \<rparr> else a)
      in if critical_s \<le> clk - an_first a \<and> an_status a = ''critical'' \<and> an_critical_ts a = None
         then a1\<lparr> an_critical_ts := Some clk \<rparr> else a1)"

lemma track_bad_anomaly:
  "sd_anomaly (tr_diag (track_bad ch st now clk t)) =
     dict_set ch (advance (sd_warning_s (tr_diag t)) (sd_critical_s (tr_diag t)) clk
       (current_anomaly (tr_diag t) ch st clk)) (sd_anomaly (tr_diag t))"
  and track_bad_params:
  "sd_warning_s (tr_diag (track_bad ch st now clk t)) = sd_warning_s (tr_diag t)
   \<and> sd_critical_s (tr_diag (track_bad ch st now clk t)) = sd_critical_s (tr_diag t)
   \<and> sd_diagnostics (tr_diag (track_bad ch st now clk t)) = sd_diagnostics (tr_diag t)
   \<and> sd_started (tr_diag (track_bad ch st now clk t)) = sd_started (tr_diag t)
   \<and> sd_grace_s (tr_diag (track_bad ch st now clk t)) = sd_grace_s (tr_diag t)"
proof -
  define a where "a = current_anomaly (tr_diag t) ch st clk"
  define x where "x = track_warning ch now clk a t"
  define y where "y = track_critical ch now clk (fst x) (snd x)"
  have bad: "track_bad ch st now clk t = put_anomaly ch (fst y) (snd y)"
    by (simp add: track_bad_def a_def x_def y_def Let_def case_prod_beta)
  have x: "fst x = (if sd_warning_s (tr_diag t) \<le> clk - an_first a \<and> an_warning_ts a = None
      then a\<lparr> an_warning_ts := Some clk \<rparr> else a)" "same_params t (snd x)"
    using track_warning_result [where ch = ch and now = now and clk = clk and a = a and t = t] by (simp_all add: x_def)
  have y: "fst y = (if sd_critical_s (tr_diag (snd x)) \<le> clk - an_first (fst x) \<and> an_status (fst x) = ''critical''
      \<and> an_critical_ts (fst x) = None then (fst x)\<lparr> an_critical_ts := Some clk \<rparr> else fst x)" "same_params (snd x) (snd y)"
    using track_critical_result [where ch = ch and now = now and clk = clk and a = "fst x" and t = "snd x"] by (simp_all add: y_def)
  have "fst y = advance (sd_warning_s (tr_diag t)) (sd_critical_s (tr_diag t)) clk a"
    using x y by (simp add: advance_def Let_def same_params_def)
  thus "sd_anomaly (tr_diag (track_bad ch st now clk t)) =
     dict_set ch (advance (sd_warning_s (tr_diag t)) (sd_critical_s (tr_diag t)) clk
       (current_anomaly (tr_diag t) ch st clk)) (sd_anomaly (tr_diag t))"
    using x y by (simp add: bad put_anomaly_def same_params_def a_def)
  show "sd_warning_s (tr_diag (track_bad ch st now clk t)) = sd_warning_s (tr_diag t)
   \<and> sd_critical_s (tr_diag (track_bad ch st now clk t)) = sd_critical_s (tr_diag t)
   \<and> sd_diagnostics (tr_diag (track_bad ch st now clk t)) = sd_diagnostics (tr_diag t)
   \<and> sd_started (tr_diag (track_bad ch st now clk t)) = sd_started (tr_diag t)
   \<and> sd_grace_s (tr_diag (track_bad ch st now clk t)) = sd_grace_s (tr_diag t)"
    using x y by (simp add: bad put_anomaly_def same_params_def)
qed

lemma track_bad_tracked:
  assumes "alarms_tracked (tr_diag t) (tr_mgr t)"
  shows "alarms_tracked (tr_diag (track_bad ch st now clk t)) (tr_mgr (track_bad ch st now clk t))"
proof -
  define a where "a = current_anomaly (tr_diag t) ch st clk"
  define x where "x = track_warning ch now clk a t"
  define y where "y = track_critical ch now clk (fst x) (snd x)"
  have bad: "tr_mgr (track_bad ch st now clk t) = tr_mgr (snd y)"
    by (simp add: track_bad_def a_def x_def y_def Let_def case_prod_beta put_anomaly_def)
  have level: "diag_level (tr_mgr t) ch = published_level (Some a)"
    using assms by (auto simp: alarms_tracked_def a_def current_anomaly_def published_level_def split: option.splits)
  have other: "diag_level (tr_mgr t) ch' = published_level (dict_get (sd_anomaly (tr_diag t)) ch')" for ch'
    using assms by (simp add: alarms_tracked_def)
  have x: "fst x = (if sd_warning_s (tr_diag t) \<le> clk - an_first a \<and> an_warning_ts a = None
      then a\<lparr> an_warning_ts := Some clk \<rparr> else a)" "sd_critical_s (tr_diag (snd x)) = sd_critical_s (tr_diag t)"
    "\<And>ch'. diag_level (tr_mgr (snd x)) ch' = (if sd_warning_s (tr_diag t) \<le> clk - an_first a \<and> an_warning_ts a = None
      \<and> ch' = ch \<and> diag_level (tr_mgr t) ch = None then Some ''WARNING'' else diag_level (tr_mgr t) ch')"
    using track_warning_result [where ch = ch and now = now and clk = clk and a = a and t = t] by (simp_all add: x_def same_params_def)
  have mid: "diag_level (tr_mgr (snd x)) ch = published_level (Some (fst x))"
    using level by (auto simp: x published_level_def)
  have y: "diag_level (tr_mgr (snd y)) ch' = (if (sd_critical_s (tr_diag (snd x)) \<le> clk - an_first (fst x) \<and>
      an_status (fst x) = ''critical'' \<and> an_critical_ts (fst x) = None) \<and> ch' = ch then Some ''CRITICAL''
      else diag_level (tr_mgr (snd x)) ch')" for ch'
    unfolding y_def using mid
    by (intro track_critical_result(3)) (auto simp: published_level_def)
  have "diag_level (tr_mgr (snd y)) ch' = published_level (dict_get (sd_anomaly (tr_diag (track_bad ch st now clk t))) ch')" for ch'
  proof (cases "ch' = ch")
    case True
    show ?thesis
      using mid by (auto simp: y True track_bad_anomaly a_def [symmetric] advance_def Let_def x published_level_def)
  next
    case False
    thus ?thesis by (simp add: y x other track_bad_anomaly)
  qed
  thus ?thesis by (simp add: alarms_tracked_def bad)
qed

lemma track_ok_tracked:
  assumes "alarms_tracked (tr_diag t) (tr_mgr t)"
  shows "alarms_tracked (tr_diag (track_ok ch now t)) (tr_mgr (track_ok ch now t))"
proof (cases "dict_get (sd_anomaly (tr_diag t)) ch")
  case None
  with assms show ?thesis by (simp add: track_ok_def)
next
  case (Some a)
  have "diag_level (tr_mgr t) ch = published_level (Some a)"
    using assms Some by (simp add: alarms_tracked_def)
  with assms Some show ?thesis
    by (auto simp: track_ok_def alarms_tracked_def clear_level dict_get_del published_level_def)
qed

lemma track_channel_tracked:
  "alarms_tracked (tr_diag t) (tr_mgr t) \<Longrightarrow>
   alarms_tracked (tr_diag (track_channel now clk x t)) (tr_mgr (track_channel now clk x t))"
  by (simp add: track_channel_def Let_def track_ok_tracked track_bad_tracked)

lemma track_all_tracked:
  "alarms_tracked (tr_diag t) (tr_mgr t) \<Longrightarrow>
   alarms_tracked (tr_diag (fold (track_channel now clk) xs t)) (tr_mgr (fold (track_channel now clk) xs t))"
  by (induction xs arbitrary: t) (simp_all add: track_channel_tracked)

lemma update_channels_anomaly [simp]:
  "sd_anomaly (fold (update_channel np now) xs s) = sd_anomaly s"
  "sd_publisher (fold (update_channel np now) xs s) = sd_publisher s"
  "sd_warning_s (fold (update_channel np now) xs s) = sd_warning_s s"
  "sd_critical_s (fold (update_channel np now) xs s) = sd_critical_s s"
  "sd_buffers (fold (update_channel np now) xs s) = sd_buffers s"
  by (induction xs arbitrary: s) (simp_all add: update_channel_def)

text \<open>
  The diagnostic alarms are exactly the published anomalies. If the alarm manager holds, for every
  channel, a diagnostic alarm of the level its anomaly record was published at, and none otherwise, an
  update of the diagnostics keeps it so, whatever the scores are: publishing, upgrading to CRITICAL,
  clearing on recovery and keeping the alarm of a channel without a score all agree with the records.
\<close>

theorem diagnostic_alarms_tracked:
  assumes "alarms_tracked s m" and "diag_update np now clk1 clk2 s m = (evs, s', m')"
  shows "alarms_tracked s' m'"
proof -
  define s1 where "s1 = fold (update_channel np now) (sd_buffers s) s"
  have s1: "alarms_tracked s1 m" using assms(1) by (simp add: alarms_tracked_def s1_def)
  have "alarms_tracked (tr_diag (fold (track_channel now clk2) (sd_diagnostics s1) \<lparr> tr_diag = s1, tr_mgr = m, tr_events = [] \<rparr>))
      (tr_mgr (fold (track_channel now clk2) (sd_diagnostics s1) \<lparr> tr_diag = s1, tr_mgr = m, tr_events = [] \<rparr>))"
    by (rule track_all_tracked) (simp add: s1)
  with s1 assms(2) show ?thesis
    by (auto simp: diag_update_def s1_def [symmetric] update_anomaly_tracking_def Let_def split: if_splits)
qed

section \<open>Runs of updates\<close>

lemma track_ok_anomaly: "sd_anomaly (tr_diag (track_ok ch now t)) =
    (if dict_get (sd_anomaly (tr_diag t)) ch = None then sd_anomaly (tr_diag t) else dict_del ch (sd_anomaly (tr_diag t)))"
  by (auto simp: track_ok_def split: option.splits)

lemma track_ok_params:
  "sd_warning_s (tr_diag (track_ok ch now t)) = sd_warning_s (tr_diag t)
   \<and> sd_critical_s (tr_diag (track_ok ch now t)) = sd_critical_s (tr_diag t)
   \<and> sd_diagnostics (tr_diag (track_ok ch now t)) = sd_diagnostics (tr_diag t)
   \<and> sd_started (tr_diag (track_ok ch now t)) = sd_started (tr_diag t)
   \<and> sd_grace_s (tr_diag (track_ok ch now t)) = sd_grace_s (tr_diag t)"
  by (auto simp: track_ok_def split: option.splits)

definition track_params :: "sensor_diag \<Rightarrow> real \<times> real \<times> real option \<times> real" where
  "track_params s = (sd_warning_s s, sd_critical_s s, sd_started s, sd_grace_s s)"

lemma track_channel_params [simp]: "track_params (tr_diag (track_channel now clk x t)) = track_params (tr_diag t)"
  using track_ok_params [of "fst x" now t]
    track_bad_params [of "fst x" "health_to_status (cd_health_score (snd x))" now clk t]
  by (simp add: track_channel_def track_params_def Let_def)

lemma track_all_params [simp]: "track_params (tr_diag (fold (track_channel now clk) xs t)) = track_params (tr_diag t)"
  by (induction xs arbitrary: t) simp_all

text \<open>The record of a channel after a channel of the update.\<close>

definition status_of :: "channel_diag dict \<Rightarrow> string \<Rightarrow> string option" where
  "status_of ds ch = map_option (\<lambda>d. health_to_status (cd_health_score d)) (dict_get ds ch)"

definition next_anomaly :: "sensor_diag \<Rightarrow> real \<Rightarrow> string \<Rightarrow> string option \<Rightarrow> anomaly option" where
  "next_anomaly s clk ch status =
     (case status of
        None \<Rightarrow> dict_get (sd_anomaly s) ch
      | Some st \<Rightarrow> if st = ''ok'' then None
                   else Some (advance (sd_warning_s s) (sd_critical_s s) clk (current_anomaly s ch st clk)))"

lemma track_channel_anomaly:
  "dict_get (sd_anomaly (tr_diag (track_channel now clk x t))) ch =
     (if fst x = ch then next_anomaly (tr_diag t) clk ch (Some (health_to_status (cd_health_score (snd x))))
      else dict_get (sd_anomaly (tr_diag t)) ch)"
  by (auto simp: track_channel_def Let_def next_anomaly_def track_ok_anomaly track_bad_anomaly dict_get_set dict_get_del)

lemma next_anomaly_cong:
  "track_params s' = track_params s \<Longrightarrow> dict_get (sd_anomaly s') ch = dict_get (sd_anomaly s) ch \<Longrightarrow>
   next_anomaly s' clk ch st = next_anomaly s clk ch st"
  by (simp add: next_anomaly_def track_params_def current_anomaly_def split: option.splits)

lemma track_all_anomaly:
  "distinct (map fst xs) \<Longrightarrow>
   dict_get (sd_anomaly (tr_diag (fold (track_channel now clk) xs t))) ch = next_anomaly (tr_diag t) clk ch (status_of xs ch)"
proof (induction xs arbitrary: t)
  case Nil
  show ?case by (simp add: next_anomaly_def status_of_def)
next
  case (Cons x xs)
  let ?t = "track_channel now clk x t"
  have IH: "dict_get (sd_anomaly (tr_diag (fold (track_channel now clk) xs ?t))) ch = next_anomaly (tr_diag ?t) clk ch (status_of xs ch)"
    using Cons by simp
  show ?case
  proof (cases "fst x = ch")
    case True
    hence "status_of xs ch = None"
      using Cons.prems by (auto simp: status_of_def map_of_eq_None_iff)
    thus ?thesis
      using True by (simp add: IH track_channel_anomaly status_of_def next_anomaly_def [of "tr_diag ?t"])
  next
    case False
    hence "next_anomaly (tr_diag ?t) clk ch st = next_anomaly (tr_diag t) clk ch st" for st
      by (intro next_anomaly_cong) (simp_all add: track_channel_anomaly)
    moreover have "status_of (x # xs) ch = status_of xs ch" using False by (cases x) (simp add: status_of_def)
    ultimately show ?thesis using IH by simp
  qed
qed

record diag_tick =
  dt_now :: real
  dt_clk1 :: real
  dt_clk2 :: real
  dt_diags :: "channel_diag dict"

definition diag_step :: "diag_tick \<Rightarrow> sensor_diag \<times> alarm_mgr \<Rightarrow> sensor_diag \<times> alarm_mgr" where
  "diag_step x sm = snd (update_anomaly_tracking (dt_now x) (dt_clk1 x) (dt_clk2 x) ((fst sm)\<lparr> sd_diagnostics := dt_diags x \<rparr>) (snd sm))"

definition diag_run :: "sensor_diag \<times> alarm_mgr \<Rightarrow> diag_tick list \<Rightarrow> sensor_diag \<times> alarm_mgr" where
  "diag_run sm xs = foldl (\<lambda>a x. diag_step x a) sm xs"

lemma diag_run_snoc [simp]: "diag_run sm (xs @ [x]) = diag_step x (diag_run sm xs)" "diag_run sm [] = sm"
  by (simp_all add: diag_run_def)

lemma diag_step_tracked:
  assumes "alarms_tracked (fst sm) (snd sm)"
  shows "alarms_tracked (fst (diag_step x sm)) (snd (diag_step x sm))"
proof -
  let ?t = "\<lparr> tr_diag = (fst sm)\<lparr> sd_diagnostics := dt_diags x \<rparr>, tr_mgr = snd sm, tr_events = [] \<rparr>"
  have "alarms_tracked (tr_diag ?t) (tr_mgr ?t)" using assms by (simp add: alarms_tracked_def)
  from track_all_tracked [OF this, of "dt_now x" "dt_clk2 x" "dt_diags x"] this show ?thesis
    by (simp add: diag_step_def update_anomaly_tracking_def Let_def)
qed

lemma diag_step_params: "track_params (fst (diag_step x sm)) = track_params (fst sm)"
  by (simp add: diag_step_def update_anomaly_tracking_def Let_def) (simp add: track_params_def)

lemma diag_step_params_simps [simp]:
  "sd_warning_s (fst (diag_step x sm)) = sd_warning_s (fst sm)"
  "sd_critical_s (fst (diag_step x sm)) = sd_critical_s (fst sm)"
  "sd_started (fst (diag_step x sm)) = sd_started (fst sm)" "sd_grace_s (fst (diag_step x sm)) = sd_grace_s (fst sm)"
  using diag_step_params [of x sm] by (simp_all add: track_params_def)

lemma diag_run_params: "track_params (fst (diag_run sm xs)) = track_params (fst sm)"
  by (induction xs rule: rev_induct) (simp_all add: diag_step_params)

text \<open>The status an update sees of a channel: none within the grace period.\<close>

definition seen :: "sensor_diag \<Rightarrow> string \<Rightarrow> diag_tick \<Rightarrow> string option" where
  "seen s ch x = (if is_in_grace_period (dt_clk1 x) s then None else status_of (dt_diags x) ch)"

lemma diag_step_anomaly:
  assumes "dict_ok (dt_diags x)"
  shows "dict_get (sd_anomaly (fst (diag_step x sm))) ch = next_anomaly (fst sm) (dt_clk2 x) ch (seen (fst sm) ch x)"
proof -
  let ?s = "(fst sm)\<lparr> sd_diagnostics := dt_diags x \<rparr>"
  have g: "is_in_grace_period k ?s = is_in_grace_period k (fst sm)" for k by (simp add: is_in_grace_period_def split: option.splits)
  have n: "next_anomaly ?s k ch st = next_anomaly (fst sm) k ch st" for k st
    by (rule next_anomaly_cong) (simp_all add: track_params_def)
  show ?thesis
    using track_all_anomaly [of "dt_diags x" "dt_now x" "dt_clk2 x" "\<lparr> tr_diag = ?s, tr_mgr = snd sm, tr_events = [] \<rparr>" ch] assms
    by (simp add: diag_step_def update_anomaly_tracking_def Let_def g seen_def n dict_ok_def) (simp add: next_anomaly_def)
qed

lemma seen_cong: "track_params s' = track_params s \<Longrightarrow> seen s' ch x = seen s ch x"
  by (auto simp: seen_def is_in_grace_period_def track_params_def split: option.splits)

text \<open>
  What an anomaly record says about the updates so far: it dates from an update that saw the channel
  bad, since when none saw it well; a warning was due, and the critical level was due at a critical
  score, when their times were written.
\<close>

definition anomaly_history :: "sensor_diag \<Rightarrow> string \<Rightarrow> diag_tick list \<Rightarrow> anomaly \<Rightarrow> bool" where
  "anomaly_history s ch xs a =
     (\<exists>ys z zs. xs = ys @ z # zs \<and> an_first a = dt_clk2 z \<and> seen s ch z \<notin> {None, Some ''ok''}
        \<and> (\<forall>x \<in> set zs. seen s ch x \<noteq> Some ''ok'')
        \<and> (an_warning_ts a \<noteq> None \<longrightarrow> (\<exists>x \<in> set (z # zs). seen s ch x \<noteq> None \<and> sd_warning_s s \<le> dt_clk2 x - dt_clk2 z))
        \<and> (an_critical_ts a \<noteq> None \<longrightarrow> (\<exists>x \<in> set (z # zs). seen s ch x = Some ''critical'' \<and> sd_critical_s s \<le> dt_clk2 x - dt_clk2 z)))"

lemma advance_fields:
  "an_first (advance w c k a) = an_first a" "an_status (advance w c k a) = an_status a"
  "an_warning_ts (advance w c k a) \<noteq> None \<longleftrightarrow> an_warning_ts a \<noteq> None \<or> w \<le> k - an_first a"
  "an_critical_ts (advance w c k a) \<noteq> None \<longleftrightarrow>
     an_critical_ts a \<noteq> None \<or> c \<le> k - an_first a \<and> an_status a = ''critical''"
  by (auto simp: advance_def Let_def)

lemma history_extend:
  assumes "anomaly_history s ch xs a" and "seen s ch x = None"
  shows "anomaly_history s ch (xs @ [x]) a"
proof -
  from assms(1) obtain ys z zs where h: "xs = ys @ z # zs" "an_first a = dt_clk2 z" "seen s ch z \<notin> {None, Some ''ok''}"
    "\<forall>x \<in> set zs. seen s ch x \<noteq> Some ''ok''"
    "an_warning_ts a \<noteq> None \<longrightarrow> (\<exists>x \<in> set (z # zs). seen s ch x \<noteq> None \<and> sd_warning_s s \<le> dt_clk2 x - dt_clk2 z)"
    "an_critical_ts a \<noteq> None \<longrightarrow> (\<exists>x \<in> set (z # zs). seen s ch x = Some ''critical'' \<and> sd_critical_s s \<le> dt_clk2 x - dt_clk2 z)"
    unfolding anomaly_history_def by blast
  show ?thesis
    unfolding anomaly_history_def
    by (rule exI [of _ ys], rule exI [of _ z], rule exI [of _ "zs @ [x]"]) (use h assms(2) in auto)
qed

lemma history_advance:
  assumes "anomaly_history s ch xs a" and "seen s ch x = Some st" and "st \<noteq> ''ok''"
  shows "anomaly_history s ch (xs @ [x]) (advance (sd_warning_s s) (sd_critical_s s) (dt_clk2 x) (a\<lparr> an_status := st \<rparr>))"
proof -
  from assms(1) obtain ys z zs where h: "xs = ys @ z # zs" "an_first a = dt_clk2 z" "seen s ch z \<notin> {None, Some ''ok''}"
    "\<forall>x \<in> set zs. seen s ch x \<noteq> Some ''ok''"
    "an_warning_ts a \<noteq> None \<longrightarrow> (\<exists>x \<in> set (z # zs). seen s ch x \<noteq> None \<and> sd_warning_s s \<le> dt_clk2 x - dt_clk2 z)"
    "an_critical_ts a \<noteq> None \<longrightarrow> (\<exists>x \<in> set (z # zs). seen s ch x = Some ''critical'' \<and> sd_critical_s s \<le> dt_clk2 x - dt_clk2 z)"
    unfolding anomaly_history_def by blast
  show ?thesis
    unfolding anomaly_history_def advance_fields
    by (rule exI [of _ ys], rule exI [of _ z], rule exI [of _ "zs @ [x]"]) (use h assms(2,3) in auto)
qed

lemma history_start:
  assumes "seen s ch x = Some st" and "st \<noteq> ''ok''"
  shows "anomaly_history s ch (xs @ [x]) (advance (sd_warning_s s) (sd_critical_s s) (dt_clk2 x)
    \<lparr> an_first = dt_clk2 x, an_status = st, an_warning_ts = None, an_critical_ts = None \<rparr>)"
  unfolding anomaly_history_def advance_fields
  by (rule exI [of _ xs], rule exI [of _ x], rule exI [of _ "[]"]) (use assms in auto)

lemma run_history:
  assumes "sd_anomaly s = []" and "\<forall>x \<in> set xs. dict_ok (dt_diags x)"
    and "dict_get (sd_anomaly (fst (diag_run (s, m) xs))) ch = Some a"
  shows "anomaly_history s ch xs a"
  using assms(2,3)
proof (induction xs arbitrary: a rule: rev_induct)
  case Nil
  thus ?case by (simp add: assms(1))
next
  case (snoc x xs)
  define r where "r = diag_run (s, m) xs"
  have par: "track_params (fst r) = track_params s" by (simp add: r_def diag_run_params)
  hence sn: "seen (fst r) ch x = seen s ch x" by (rule seen_cong)
  have IH: "dict_get (sd_anomaly (fst r)) ch = Some b \<Longrightarrow> anomaly_history s ch xs b" for b
    using snoc by (simp add: r_def)
  have a: "next_anomaly (fst r) (dt_clk2 x) ch (seen s ch x) = Some a"
    using snoc.prems diag_step_anomaly [of x r ch] by (simp add: r_def [symmetric] sn)
  show ?case
  proof (cases "seen s ch x")
    case None
    with a IH history_extend [OF _ None] show ?thesis by (simp add: next_anomaly_def)
  next
    case (Some st)
    with a have st: "st \<noteq> ''ok''"
      and eq: "a = advance (sd_warning_s s) (sd_critical_s s) (dt_clk2 x) (current_anomaly (fst r) ch st (dt_clk2 x))"
      using par by (auto simp: next_anomaly_def track_params_def split: if_splits)
    show ?thesis
    proof (cases "dict_get (sd_anomaly (fst r)) ch")
      case None
      thus ?thesis using history_start [OF Some st] by (simp add: eq current_anomaly_def)
    next
      case (Some b)
      thus ?thesis using history_advance [OF IH [OF Some] \<open>seen s ch x = Some st\<close> st] by (simp add: eq current_anomaly_def)
    qed
  qed
qed

text \<open>
  A diagnostic alarm needs a sustained anomaly. When, after any run of updates from an engine
  without anomalies, a diagnostic alarm of a channel is active, then there was a first bad score, no
  good one was seen since, and a later bad score followed it by the configured time: the warning time
  for a WARNING, and for a CRITICAL the critical time with a critical score at its end.
\<close>

theorem diagnostic_alarm_sustained:
  assumes "sd_anomaly s = []" and "alarms_tracked s m" and "\<forall>x \<in> set xs. dict_ok (dt_diags x)"
    and "diag_level (snd (diag_run (s, m) xs)) ch = Some l"
  shows "\<exists>ys z zs x. xs = ys @ z # zs \<and> x \<in> set (z # zs) \<and> seen s ch z \<notin> {None, Some ''ok''}
    \<and> (\<forall>y \<in> set zs. seen s ch y \<noteq> Some ''ok'')
    \<and> (l = ''WARNING'' \<and> seen s ch x \<noteq> None \<and> sd_warning_s s \<le> dt_clk2 x - dt_clk2 z
       \<or> l = ''CRITICAL'' \<and> seen s ch x = Some ''critical'' \<and> sd_critical_s s \<le> dt_clk2 x - dt_clk2 z)"
proof -
  have "alarms_tracked (fst (diag_run (s, m) xs)) (snd (diag_run (s, m) xs))"
    by (induction xs rule: rev_induct) (simp_all add: assms(2) diag_step_tracked)
  with assms(4) have pub: "published_level (dict_get (sd_anomaly (fst (diag_run (s, m) xs))) ch) = Some l"
    by (simp add: alarms_tracked_def)
  then obtain a where a: "dict_get (sd_anomaly (fst (diag_run (s, m) xs))) ch = Some a"
    and l: "l = ''CRITICAL'' \<and> an_critical_ts a \<noteq> None \<or> l = ''WARNING'' \<and> an_warning_ts a \<noteq> None"
    by (auto simp: published_level_def split: option.splits if_splits)
  from run_history [OF assms(1,3) a] obtain ys z zs where h: "xs = ys @ z # zs" "seen s ch z \<notin> {None, Some ''ok''}"
    "\<forall>x \<in> set zs. seen s ch x \<noteq> Some ''ok''"
    "an_warning_ts a \<noteq> None \<longrightarrow> (\<exists>x \<in> set (z # zs). seen s ch x \<noteq> None \<and> sd_warning_s s \<le> dt_clk2 x - dt_clk2 z)"
    "an_critical_ts a \<noteq> None \<longrightarrow> (\<exists>x \<in> set (z # zs). seen s ch x = Some ''critical'' \<and> sd_critical_s s \<le> dt_clk2 x - dt_clk2 z)"
    unfolding anomaly_history_def by blast
  from l h(4,5) obtain x where "x \<in> set (z # zs)"
    "l = ''WARNING'' \<and> seen s ch x \<noteq> None \<and> sd_warning_s s \<le> dt_clk2 x - dt_clk2 z
       \<or> l = ''CRITICAL'' \<and> seen s ch x = Some ''critical'' \<and> sd_critical_s s \<le> dt_clk2 x - dt_clk2 z"
    by blast
  with h(1-3) show ?thesis by blast
qed

section \<open>The health score\<close>

lemma penalties:
  "noise_penalty t noise \<in> {0, 20, 40}" "drift_penalty s drift \<in> {0, 25}" "outlier_penalty n \<in> {0, 15, 30}"
  "correlation_penalty s corr \<in> {0, 20}"
  by (auto simp: noise_penalty_def drift_penalty_def outlier_penalty_def correlation_penalty_def split: option.splits)

lemma status_critical [simp]: "health_to_status h = ''critical'' \<longleftrightarrow> 0 \<le> h \<and> h < 50"
  and status_ok [simp]: "health_to_status h = ''ok'' \<longleftrightarrow> h < 0 \<or> 80 \<le> h"
  by (auto simp: health_to_status_def)

lemma threshold_pos: "0 < get_noise_threshold t"
  by (simp add: get_noise_threshold_def)

lemma noise_flag: "noise_penalty t noise \<noteq> 0 \<Longrightarrow> fl_isfinite noise \<and> fl_less (Fin (get_noise_threshold t)) noise"
  using threshold_pos [of t] by (cases noise) (auto simp: noise_penalty_def split: if_splits)

definition total_penalty :: "sensor_diag \<Rightarrow> pyfloat \<Rightarrow> pyfloat \<Rightarrow> nat \<Rightarrow> pyfloat option \<Rightarrow> pyfloat \<Rightarrow> int" where
  "total_penalty s noise drift outliers corr t =
     noise_penalty t noise + drift_penalty s drift + outlier_penalty outliers + correlation_penalty s corr"

definition bad_value :: "pyfloat \<Rightarrow> bool" where
  "bad_value t = (\<not> fl_isfinite t \<or> fl_less (Fin 350) t \<or> fl_le t (Fin 0))"

lemma health_by_penalty:
  "compute_health s noise drift outliers corr t =
     (if bad_value t then 0 else if \<not> fl_isfinite noise \<and> \<not> fl_isfinite drift then 100
      else max 0 (100 - total_penalty s noise drift outliers corr t))"
  by (auto simp: bad_value_def total_penalty_def compute_health_def)

text \<open>
  The health score is bounded, and its levels mean what they say. A scored channel has a score
  from 0 to 100; it is critical exactly when its reading is not a finite number in (0, 350] or, with
  enough data, its penalties add up to more than 50, which takes at least two soft faults; and a
  channel that is not well names a fault flag unless its reading is NaN or it has more than 5 outliers.
\<close>

theorem health_score_exact:
  "0 \<le> compute_health s noise drift outliers corr t \<and> compute_health s noise drift outliers corr t \<le> 100
   \<and> (health_to_status (compute_health s noise drift outliers corr t) = ''critical'' \<longleftrightarrow>
        bad_value t \<or> (fl_isfinite noise \<or> fl_isfinite drift) \<and> 50 < total_penalty s noise drift outliers corr t)
   \<and> (50 < total_penalty s noise drift outliers corr t \<longrightarrow>
        total_penalty s noise drift outliers corr t \<notin>
          {noise_penalty t noise, drift_penalty s drift, outlier_penalty outliers, correlation_penalty s corr})
   \<and> (health_to_status (compute_health s noise drift outliers corr t) \<noteq> ''ok''
        \<and> compute_fault_flags s t noise drift corr = [] \<longrightarrow> t = NaN \<or> 5 < outliers)"
proof -
  note pen = penalties(1) [of t noise] penalties(2) [of s drift] penalties(3) [of outliers] penalties(4) [of s corr]
  have "0 \<le> total_penalty s noise drift outliers corr t"
    using pen by (auto simp: total_penalty_def)
  moreover have "50 < total_penalty s noise drift outliers corr t \<longrightarrow>
        total_penalty s noise drift outliers corr t \<notin>
          {noise_penalty t noise, drift_penalty s drift, outlier_penalty outliers, correlation_penalty s corr}"
    using pen by auto
  moreover have "t = NaN \<or> 5 < outliers"
    if "compute_health s noise drift outliers corr t < 80" "compute_fault_flags s t noise drift corr = []"
  proof (rule ccontr)
    assume no: "\<not> (t = NaN \<or> 5 < outliers)"
    have "\<not> bad_value t"
      using that(2) no by (cases t) (auto simp: bad_value_def compute_fault_flags_def fl_le_def fl_eq_def split: if_splits)
    moreover have "noise_penalty t noise = 0" "drift_penalty s drift = 0" "correlation_penalty s corr = 0"
      using that(2) noise_flag [of t noise]
      by (auto simp: compute_fault_flags_def drift_penalty_def correlation_penalty_def split: if_splits option.splits)
    moreover have "outlier_penalty outliers \<le> 15" using no by (simp add: outlier_penalty_def)
    ultimately show False using that(1) by (auto simp: health_by_penalty total_penalty_def split: if_splits)
  qed
  ultimately show ?thesis by (auto simp: health_by_penalty split: if_splits)
qed

section \<open>Sensors that fall silent\<close>

lemma compute_channel_diagnostics [simp]:
  "compute_channel np (s\<lparr> sd_diagnostics := x \<rparr>) ch buf now = compute_channel np s ch buf now"
proof -
  let ?s = "s\<lparr> sd_diagnostics := x \<rparr>"
  have *: "is_channel_cold ?s = is_channel_cold s" "count_outliers ?s = count_outliers s"
    "diag_resolve_channel ?s = diag_resolve_channel s"
    "\<And>n d o' c t. compute_health ?s n d o' c t = compute_health s n d o' c t"
    "\<And>t n d c. compute_fault_flags ?s t n d c = compute_fault_flags s t n d c"
    "neighbour_correlation np ?s = neighbour_correlation np s"
    by (auto simp: fun_eq_iff is_channel_cold_def count_outliers_def diag_resolve_channel_def compute_health_def
        drift_penalty_def correlation_penalty_def compute_fault_flags_def neighbour_correlation_def Let_def split: option.splits)
  have "compute_correlation np ?s ch = compute_correlation np s ch"
    by (simp add: compute_correlation_def Let_def * cong: option.case_cong if_cong)
  thus ?thesis by (simp add: compute_channel_def Let_def *)
qed

lemma update_channels_computed:
  "distinct (map fst xs) \<Longrightarrow> (ch, buf) \<in> set xs \<Longrightarrow> buf \<noteq> [] \<Longrightarrow>
   dict_get (sd_diagnostics (fold (update_channel np now) xs s)) ch = Some (compute_channel np s ch buf now)"
proof (induction xs arbitrary: s)
  case (Cons x xs)
  have keep: "dict_get (sd_diagnostics (fold (update_channel np now) ys s')) ch = dict_get (sd_diagnostics s') ch"
    if "ch \<notin> set (map fst ys)" for ys s'
    using that by (induction ys arbitrary: s') (auto simp: update_channel_def dict_get_del)
  have same: "compute_channel np (update_channel np now x s) = compute_channel np s"
    by (auto simp: fun_eq_iff update_channel_def)
  show ?case
  proof (cases "x = (ch, buf)")
    case True
    hence "ch \<notin> set (map fst xs)" using Cons.prems(1) by auto
    moreover have "dict_get (sd_diagnostics (update_channel np now x s)) ch = Some (compute_channel np s ch buf now)"
      using True Cons.prems(3) by (simp add: update_channel_def)
    ultimately show ?thesis using keep [of xs "update_channel np now x s"] by simp
  next
    case False
    with Cons show ?thesis by (simp add: same)
  qed
qed simp

lemma track_all_diagnostics [simp]:
  "sd_diagnostics (tr_diag (fold (track_channel now clk) xs t)) = sd_diagnostics (tr_diag t)"
proof (induction xs arbitrary: t)
  case (Cons x xs)
  have "sd_diagnostics (tr_diag (track_channel now clk x t)) = sd_diagnostics (tr_diag t)"
    using track_ok_params [of "fst x" now t]
      track_bad_params [of "fst x" "health_to_status (cd_health_score (snd x))" now clk t]
    by (simp add: track_channel_def Let_def)
  with Cons show ?case by simp
qed simp

text \<open>
  A dead sensor keeps its score. The feed drops unusable readings and nothing ever empties a
  buffer, so after any number of unusable readings, at any later time, an update gives a channel
  exactly the score and the flags of its last usable readings; the branch of \<open>update\<close> that drops the
  diagnostics of a channel without data is never taken.
\<close>

theorem dead_sensor_keeps_score:
  assumes "dict_ok (sd_buffers s)" and "0 < sd_maxlen s" and "\<forall>c. dict_get (sd_buffers s) c \<noteq> Some []"
    and "\<forall>r \<in> set rs. \<not> is_usable r" and "dict_get (sd_buffers s) ch = Some buf"
  shows "(\<exists>d. dict_get (sd_diagnostics (fst (snd (diag_update np now clk1 clk2 (fold (sensor_diag_feed f) rs s) m)))) ch = Some d
      \<and> cd_health_score d = cd_health_score (compute_channel np s ch buf before)
      \<and> cd_fault_flags d = cd_fault_flags (compute_channel np s ch buf before))
    \<and> (\<forall>r c. dict_get (sd_buffers (sensor_diag_feed f r s)) c \<noteq> Some [])"
proof
  have feed: "fold (sensor_diag_feed f) rs s = s"
    using assms(4) by (induction rs) (simp_all add: sensor_diag_feed_def)
  have "(ch, buf) \<in> set (sd_buffers s)" "buf \<noteq> []" using assms(3,5) by (auto dest: map_of_SomeD)
  hence d: "dict_get (sd_diagnostics (fold (update_channel np now) (sd_buffers s) s)) ch = Some (compute_channel np s ch buf now)"
    using assms(1) by (intro update_channels_computed) (simp_all add: dict_ok_def)
  have "cd_health_score (compute_channel np s ch buf now) = cd_health_score (compute_channel np s ch buf before)"
    "cd_fault_flags (compute_channel np s ch buf now) = cd_fault_flags (compute_channel np s ch buf before)"
    by (simp_all add: compute_channel_def Let_def)
  with d show "\<exists>d. dict_get (sd_diagnostics (fst (snd (diag_update np now clk1 clk2 (fold (sensor_diag_feed f) rs s) m)))) ch = Some d
      \<and> cd_health_score d = cd_health_score (compute_channel np s ch buf before)
      \<and> cd_fault_flags d = cd_fault_flags (compute_channel np s ch buf before)"
    by (auto simp: feed diag_update_def update_anomaly_tracking_def Let_def)
  show "\<forall>r c. dict_get (sd_buffers (sensor_diag_feed f r s)) c \<noteq> Some []"
    using assms(2,3) by (auto simp: sensor_diag_feed_def diag_push_def dict_get_set)
qed

section \<open>Witnesses\<close>

definition sample_np :: np_env where
  "sample_np = \<lparr> np_std = (\<lambda>x. Fin 1), np_corr = (\<lambda>x y. NaN) \<rparr>"

definition sample_diag :: sensor_diag where
  "sample_diag = sensor_diag_init [] None True 300 900 0 0"

definition sample_score :: "int \<Rightarrow> channel_diag" where
  "sample_score h =
     \<lparr> cd_channel_id = ''T1'', cd_channel_name = ''T1'', cd_current_T = Fin 4, cd_noise_std = NaN, cd_noise_mK = NaN,
       cd_drift_rate = NaN, cd_drift_mK_per_min = NaN, cd_outlier_count = 0, cd_correlation = None,
       cd_health_score = h, cd_fault_flags = [], cd_updated_at = 0 \<rparr>"

definition sample_tick :: "real \<Rightarrow> int \<Rightarrow> diag_tick" where
  "sample_tick k h = \<lparr> dt_now = k, dt_clk1 = k, dt_clk2 = k, dt_diags = [(''T1'', sample_score h)] \<rparr>"

lemma sample_tracked: "alarms_tracked sample_diag alarm_mgr_init"
  by (simp add: alarms_tracked_def sample_diag_def sensor_diag_init_def alarm_mgr_init_def diag_level_def published_level_def)

lemma diagnostic_alarms_tracked_witness:
  "case diag_update sample_np 10 10 10 sample_diag alarm_mgr_init of
     (evs, s', m') \<Rightarrow> alarms_tracked s' m'"
  using diagnostic_alarms_tracked [OF sample_tracked] by (auto split: prod.splits)

lemma diagnostic_alarm_sustained_witness:
  "diag_level (snd (diag_run (sample_diag, alarm_mgr_init) [sample_tick 0 40, sample_tick 400 40])) ''T1'' = Some ''WARNING''
   \<and> (\<exists>z \<in> set [sample_tick 0 40, sample_tick 400 40]. \<exists>x \<in> set [sample_tick 0 40, sample_tick 400 40].
        300 \<le> dt_clk2 x - dt_clk2 z)"
proof -
  let ?xs = "[sample_tick 0 40, sample_tick 400 40]"
  have "alarms_tracked (fst (diag_run (sample_diag, alarm_mgr_init) ?xs)) (snd (diag_run (sample_diag, alarm_mgr_init) ?xs))"
    by (simp add: diag_run_def diag_step_tracked sample_tracked)
  moreover have "published_level (dict_get (sd_anomaly (fst (diag_run (sample_diag, alarm_mgr_init) ?xs))) ''T1'') = Some ''WARNING''"
    by (simp add: diag_run_def diag_step_anomaly sample_tick_def dict_ok_def next_anomaly_def seen_def status_of_def
        sample_score_def sample_diag_def sensor_diag_init_def is_in_grace_period_def current_anomaly_def advance_def
        health_to_status_def published_level_def Let_def)
  ultimately have lev: "diag_level (snd (diag_run (sample_diag, alarm_mgr_init) ?xs)) ''T1'' = Some ''WARNING''"
    by (simp add: alarms_tracked_def)
  have "sd_anomaly sample_diag = []" "\<forall>x \<in> set ?xs. dict_ok (dt_diags x)" "sd_warning_s sample_diag = 300"
    by (simp_all add: sample_diag_def sensor_diag_init_def sample_tick_def dict_ok_def)
  with diagnostic_alarm_sustained [OF _ sample_tracked _ lev] obtain ys z zs x where
    "?xs = ys @ z # zs" "x \<in> set (z # zs)" "300 \<le> dt_clk2 x - dt_clk2 z"
    by auto
  moreover from this(1,2) have "z \<in> set ?xs" "x \<in> set ?xs" by (metis in_set_conv_decomp, metis Un_iff set_append)
  ultimately show ?thesis using lev by blast
qed

lemma health_score_exact_witness:
  "health_to_status (compute_health sample_diag (Fin 1) (Fin 1) 0 None (Fin 4)) = ''critical''"
proof -
  have "50 < total_penalty sample_diag (Fin 1) (Fin 1) 0 None (Fin 4)"
    by (simp add: total_penalty_def noise_penalty_def drift_penalty_def outlier_penalty_def correlation_penalty_def
        get_noise_threshold_def sample_diag_def sensor_diag_init_def)
  thus ?thesis using health_score_exact [of sample_diag "Fin 1" "Fin 1" 0 None "Fin 4"] by simp
qed

definition sample_fed :: sensor_diag where
  "sample_fed = sample_diag\<lparr> sd_buffers := [(''T1'', [(0, Fin 4)])] \<rparr>"

definition dead_reading :: reading where
  "dead_reading =
     \<lparr> r_timestamp = 10, r_instrument_id = ''ls218'', r_channel = ''T1'', r_value = NaN, r_unit = ''K'',
       r_status = SENSOR_ERROR, r_metadata = [] \<rparr>"

lemma dead_sensor_keeps_score_witness:
  "\<exists>d. dict_get (sd_diagnostics (fst (snd (diag_update sample_np 9000 9000 9000
      (fold (sensor_diag_feed (\<lambda>c. True)) [dead_reading, dead_reading] sample_fed) alarm_mgr_init)))) ''T1'' = Some d
    \<and> cd_health_score d = 100"
proof -
  have *: "dict_ok (sd_buffers sample_fed)" "0 < sd_maxlen sample_fed" "\<forall>c. dict_get (sd_buffers sample_fed) c \<noteq> Some []"
    "\<forall>r \<in> set [dead_reading, dead_reading]. \<not> is_usable r" "dict_get (sd_buffers sample_fed) ''T1'' = Some [(0, Fin 4)]"
    by (simp_all add: sample_fed_def sample_diag_def sensor_diag_init_def dict_ok_def diag_maxlen_def
        dead_reading_def is_usable_def)
  have h: "cd_health_score (compute_channel sample_np sample_fed ''T1'' [(0, Fin 4)] 0) = 100"
    by (simp add: compute_channel_def is_channel_cold_def short_name_def sample_fed_def sample_diag_def
        sensor_diag_init_def dict_getd_def window_values_def window_points_def compute_health_def Let_def)
  from dead_sensor_keeps_score [OF *, of sample_np 9000 9000 9000 "\<lambda>c. True" alarm_mgr_init 0] h
  show ?thesis by auto
qed

end
