(* ===== verification/SmuProtocol.thy ===== *)
theory SmuProtocol
  imports Readings
begin

text \<open>
  The response language of the Keithley 2604B as \<^verbatim>\<open>drivers/instruments/keithley_2604b.py\<close> reads it:
  bounded ASCII tokens, identities, output states, the nonce-bound OFF challenge, numeric readbacks and
  measurements. Every parser returns its value or the \<open>ValueError\<close> of the source. \<open>float()\<close> and
  \<open>Decimal()\<close> of the standard library are modelled on the texts that reach them: decimal literals with
  their exact value, underscores between digits, the names of infinities and NaN, overflow to infinity.
\<close>

section \<open>Texts\<close>

definition is_digit :: "char \<Rightarrow> bool" where
  "is_digit c = (c \<in> set ''0123456789'')"

definition digit_value :: "char \<Rightarrow> nat" where
  "digit_value c = (of_char c :: nat) - 48"

definition digits_value :: "string \<Rightarrow> nat" where
  "digits_value s = foldl (\<lambda>n c. 10 * n + digit_value c) 0 s"

definition is_ascii :: "string \<Rightarrow> bool" where
  "is_ascii s = list_all (\<lambda>c. (of_char c :: nat) < 128) s"

definition strip_chars :: "string \<Rightarrow> string \<Rightarrow> string" where
  "strip_chars cs s = rev (dropWhile (\<lambda>c. c \<in> set cs) (rev (dropWhile (\<lambda>c. c \<in> set cs) s)))"

text \<open>\<open>s.split(c)\<close>.\<close>

fun split_char :: "char \<Rightarrow> string \<Rightarrow> string list" where
  "split_char c [] = [[]]"
| "split_char c (x # s) =
     (if x = c then [] # split_char c s
      else (case split_char c s of [] \<Rightarrow> [[x]] | p # ps \<Rightarrow> (x # p) # ps))"

text \<open>The fields between \<open>::\<close>.\<close>

fun split_colons :: "string \<Rightarrow> string list" where
  "split_colons [] = [[]]"
| "split_colons [x] = [[x]]"
| "split_colons (x # y # s) =
     (if x = CHR '':'' \<and> y = CHR '':'' then [] # split_colons s
      else (case split_colons (y # s) of [] \<Rightarrow> [[x]] | p # ps \<Rightarrow> (x # p) # ps))"

definition PROTOCOL_TRIM_CHARS :: string where
  "PROTOCOL_TRIM_CHARS = [CHR '' '', CHR 0x09, CHR 0x0D, CHR 0x0A]"

definition bounded_ascii_token :: "string \<Rightarrow> nat \<Rightarrow> string result" where
  "bounded_ascii_token raw max_chars =
     (if raw = [] \<or> max_chars < py_len raw then Inl (ValueError ''response length is outside the bound'')
      else if \<not> is_ascii raw then Inl (ValueError ''response is not ASCII'')
      else (let token = strip_chars PROTOCOL_TRIM_CHARS raw
            in if token = [] then Inl (ValueError ''response is empty'') else Inr token))"

section \<open>Numbers\<close>

definition take_sign :: "string \<Rightarrow> bool \<times> string" where
  "take_sign s = (case s of c # t \<Rightarrow> if c = CHR ''-'' then (True, t) else if c = CHR ''+'' then (False, t) else (False, s)
                  | [] \<Rightarrow> (False, []))"

text \<open>A decimal literal as mantissa and exponent of ten.\<close>

definition parse_decimal :: "string \<Rightarrow> (int \<times> int) option" where
  "parse_decimal s =
     (let (neg, s1) = take_sign s;
          ip = takeWhile is_digit s1; r1 = dropWhile is_digit s1;
          (fp, r2) = (case r1 of c # t \<Rightarrow> if c = CHR ''.'' then (takeWhile is_digit t, dropWhile is_digit t) else ([], r1)
                      | [] \<Rightarrow> ([], []));
          m = int (digits_value (ip @ fp)); m' = (if neg then - m else m)
      in if ip = [] \<and> fp = [] then None
         else (case r2 of
                 [] \<Rightarrow> Some (m', - int (length fp))
               | e # t \<Rightarrow>
                   (if e = CHR ''e'' \<or> e = CHR ''E'' then
                      (let (eneg, t1) = take_sign t; x = int (digits_value t1)
                       in if t1 = [] \<or> \<not> list_all is_digit t1 then None
                          else Some (m', (if eneg then - x else x) - int (length fp)))
                    else None)))"

definition decimal_real :: "int \<times> int \<Rightarrow> real" where
  "decimal_real mx = (if 0 \<le> snd mx then of_int (fst mx) * 10 ^ nat (snd mx) else of_int (fst mx) / 10 ^ nat (- snd mx))"

text \<open>The largest magnitude that still rounds to a finite binary64 lies just below \<open>DOUBLE_OVERFLOW\<close>.\<close>

definition DOUBLE_OVERFLOW :: real where
  "DOUBLE_OVERFLOW = (2 - 1 / 2 ^ 53) * 2 ^ 1023"

definition round_overflow :: "real \<Rightarrow> pyfloat" where
  "round_overflow r = (if DOUBLE_OVERFLOW \<le> r then PosInf else if r \<le> - DOUBLE_OVERFLOW then NegInf else Fin r)"

text \<open>Underscores are allowed between digits only.\<close>

fun underscores_ok :: "bool \<Rightarrow> string \<Rightarrow> bool" where
  "underscores_ok prev [] = True"
| "underscores_ok prev (c # s) =
     (if c = CHR ''_'' then prev \<and> (case s of d # _ \<Rightarrow> is_digit d | [] \<Rightarrow> False) \<and> underscores_ok False s
      else underscores_ok (is_digit c) s)"

definition py_float :: "string \<Rightarrow> pyfloat option" where
  "py_float raw =
     (let s = py_strip raw; (neg, t) = take_sign s; name = py_lower t
      in if name = ''inf'' \<or> name = ''infinity'' then Some (if neg then NegInf else PosInf)
         else if name = ''nan'' then Some NaN
         else if \<not> underscores_ok False s then None
         else map_option (\<lambda>mx. round_overflow (decimal_real mx)) (parse_decimal (filter (\<lambda>c. c \<noteq> CHR ''_'') s)))"

definition parse_finite_readback :: "string \<Rightarrow> pyfloat result" where
  "parse_finite_readback raw =
     res_bind (bounded_ascii_token raw 64) (\<lambda>token.
       (case py_float token of
          None \<Rightarrow> Inl (ValueError ''readback is not numeric'')
        | Some v \<Rightarrow> if fl_isfinite v then Inr v else Inl (ValueError ''readback must be finite'')))"

section \<open>Output states\<close>

text \<open>The exponent limits of \<open>Decimal\<close>: beyond them even a zero raises.\<close>

definition DECIMAL_MAX_EXP :: int where "DECIMAL_MAX_EXP = 999999999999999999"
definition DECIMAL_MIN_EXP :: int where "DECIMAL_MIN_EXP = -1999999999999999997"

text \<open>A token has at most 64 digits, so a value of one has an exponent of at least -64.\<close>

definition parse_output_enabled :: "string \<Rightarrow> bool result" where
  "parse_output_enabled raw =
     res_bind (bounded_ascii_token raw 64) (\<lambda>token.
       (case parse_decimal token of
          None \<Rightarrow> Inl (ValueError ''invalid output-state token'')
        | Some (m, x) \<Rightarrow>
            (if m = 0 \<and> DECIMAL_MIN_EXP \<le> x \<and> x \<le> DECIMAL_MAX_EXP then Inr False
             else if (x = 0 \<and> m = 1) \<or> (x < 0 \<and> -64 \<le> x \<and> m = 10 ^ nat (- x)) then Inr True
             else Inl (ValueError ''output-state token must be exactly 0 or 1''))))"

definition OFF_CHALLENGE_PREFIX :: string where "OFF_CHALLENGE_PREFIX = ''CRYODAQ_OFF_V1''"

definition nonce_ok :: "string \<Rightarrow> bool" where
  "nonce_ok n = (length n = 32 \<and> list_all (\<lambda>c. c \<in> set ''0123456789abcdef'') n)"

definition check_challenge :: "string \<Rightarrow> string list \<Rightarrow> bool result" where
  "check_challenge expected_nonce fs =
     (case fs of
        [prefix, nonce, state] \<Rightarrow>
          (if prefix \<noteq> OFF_CHALLENGE_PREFIX then Inl (ValueError ''output-OFF challenge prefix does not match'')
           else if nonce \<noteq> expected_nonce then Inl (ValueError ''output-OFF challenge nonce is stale or does not match'')
           else Inr (state = ''0''))
      | _ \<Rightarrow> Inl (ValueError ''output-OFF challenge must contain exactly three pipe-separated fields''))"

definition parse_output_off_challenge :: "string \<Rightarrow> string \<Rightarrow> bool result" where
  "parse_output_off_challenge raw expected_nonce =
     (if \<not> nonce_ok expected_nonce then Inl (ValueError ''OFF challenge nonce must be 32 lowercase hexadecimal characters'')
      else res_bind (bounded_ascii_token raw 96) (\<lambda>token. check_challenge expected_nonce (split_char (CHR ''|'') token)))"

definition parse_compliance :: "string \<Rightarrow> bool result" where
  "parse_compliance raw =
     res_bind (bounded_ascii_token raw 64) (\<lambda>token.
       if token = ''true'' then Inr True
       else if token = ''false'' then Inr False
       else Inl (ValueError ''source.compliance must be literal true or false''))"

section \<open>Identities\<close>

definition MOCK_IDN :: string where
  "MOCK_IDN = ''Keithley Instruments Inc., Model 2604B, MOCK00001, 3.0.0''"

definition parse_keithley_idn_family :: "string \<Rightarrow> bool \<Rightarrow> (string \<times> string \<times> string) result" where
  "parse_keithley_idn_family raw mock =
     res_bind (bounded_ascii_token raw 256) (\<lambda>token.
       if mock \<and> token \<noteq> MOCK_IDN then Inl (ValueError ''mock identity does not match'')
       else
         (case map (strip_chars [CHR '' '', CHR 0x09]) (split_char (CHR '','') token) of
            [manufacturer, model, serial, firmware] \<Rightarrow>
              (if manufacturer \<noteq> ''Keithley Instruments Inc.'' then Inl (ValueError ''*IDN? manufacturer'')
               else if model \<noteq> ''Model 2604B'' then Inl (ValueError ''*IDN? model'')
               else Inr (token, serial, firmware))
          | _ \<Rightarrow> Inl (ValueError ''*IDN? response must contain exactly four comma-separated fields'')))"

definition idn_char :: "char \<Rightarrow> bool" where
  "idn_char c =
     (let n = (of_char c :: nat)
      in (48 \<le> n \<and> n \<le> 57) \<or> (65 \<le> n \<and> n \<le> 90) \<or> (97 \<le> n \<and> n \<le> 122) \<or> c \<in> set ''._-'')"

definition idn_value_ok :: "string \<Rightarrow> bool" where
  "idn_value_ok s = (s \<noteq> [] \<and> length s \<le> 64 \<and> list_all idn_char s)"

definition py_upper_ascii :: "string \<Rightarrow> string" where
  "py_upper_ascii s = map (\<lambda>c. let n = (of_char c :: nat) in if 97 \<le> n \<and> n \<le> 122 then char_of (n - 32) else c) s"

definition parse_keithley_idn :: "string \<Rightarrow> bool \<Rightarrow> string option \<Rightarrow> string result" where
  "parse_keithley_idn raw mock expected_serial =
     res_bind (parse_keithley_idn_family raw mock) (\<lambda>(token, serial, firmware).
       if \<not> idn_value_ok serial then Inl (ValueError ''*IDN? serial field'')
       else if \<not> mock \<and> take 4 (py_upper_ascii serial) = ''MOCK''
       then Inl (ValueError ''mock identity is not valid for a physical connection'')
       else if \<not> mock \<and> expected_serial = None
       then Inl (ValueError ''physical Keithley identity requires a configured resource serial'')
       else if \<not> mock \<and> expected_serial \<noteq> Some serial
       then Inl (ValueError ''*IDN? serial does not exactly match the configured USB resource serial'')
       else if \<not> idn_value_ok firmware then Inl (ValueError ''*IDN? firmware field'')
       else Inr token)"

definition hex_digit_value :: "char \<Rightarrow> nat option" where
  "hex_digit_value c =
     (let n = (of_char c :: nat)
      in if 48 \<le> n \<and> n \<le> 57 then Some (n - 48)
         else if 65 \<le> n \<and> n \<le> 70 then Some (n - 55)
         else if 97 \<le> n \<and> n \<le> 102 then Some (n - 87) else None)"

text \<open>\<open>0x\<close> and four hexadecimal digits.\<close>

definition hex16 :: "string \<Rightarrow> nat option" where
  "hex16 s =
     (if length s = 6 \<and> take 2 s = ''0x'' \<and> list_all (\<lambda>c. hex_digit_value c \<noteq> None) (drop 2 s)
      then Some (foldl (\<lambda>n c. 16 * n + the (hex_digit_value c)) 0 (drop 2 s)) else None)"

definition KEITHLEY_VENDOR_ID :: nat where "KEITHLEY_VENDOR_ID = 0x05E6"
definition KEITHLEY_2604_PRODUCT_ID :: nat where "KEITHLEY_2604_PRODUCT_ID = 0x2604"

definition usb_board_ok :: "string \<Rightarrow> bool" where
  "usb_board_ok s = (take 3 s = ''USB'' \<and> list_all is_digit (drop 3 s))"

definition parse_configured_keithley_serial :: "string \<Rightarrow> string result" where
  "parse_configured_keithley_serial resource =
     (let fields = split_colons resource;
          shape = (case fields of
             [b, v, p, s, i] \<Rightarrow> if usb_board_ok b \<and> i = ''INSTR'' then Some (v, p, s) else None
           | [b, v, p, s, n, i] \<Rightarrow>
               if usb_board_ok b \<and> n \<noteq> [] \<and> list_all is_digit n \<and> i = ''INSTR'' then Some (v, p, s) else None
           | _ \<Rightarrow> None)
      in if \<not> is_ascii resource then Inl (ValueError ''Keithley resource must be an ASCII USB VISA resource'')
         else (case shape of
            Some (v, p, s) \<Rightarrow>
              (case (hex16 v, hex16 p) of
                 (Some vid, Some pid) \<Rightarrow>
                   (if s = [] \<or> \<not> list_all idn_char s then Inl (ValueError ''Keithley resource must be canonical'')
                    else if vid \<noteq> KEITHLEY_VENDOR_ID then Inl (ValueError ''Keithley resource vendor ID'')
                    else if pid \<noteq> KEITHLEY_2604_PRODUCT_ID then Inl (ValueError ''Keithley resource product ID'')
                    else if 64 < length s then Inl (ValueError ''Keithley resource serial is overlong'')
                    else Inr s)
               | _ \<Rightarrow> Inl (ValueError ''Keithley resource must be canonical''))
          | None \<Rightarrow> Inl (ValueError ''Keithley resource must be canonical'')))"

section \<open>Measurements\<close>

definition parse_iv_response :: "string \<Rightarrow> (pyfloat \<times> pyfloat) result" where
  "parse_iv_response raw =
     (case split_char (CHR 0x09) (py_strip raw) of
        [i, v] \<Rightarrow>
          (case (py_float i, py_float v) of
             (Some current, Some voltage) \<Rightarrow>
               (if fl_isfinite current \<and> fl_isfinite voltage then Inr (current, voltage)
                else Inl (ValueError ''non-finite IV response''))
           | _ \<Rightarrow> Inl (ValueError ''could not convert string to float''))
      | _ \<Rightarrow> Inl (ValueError ''expected 2 values''))"

text \<open>Rows of \<open>printbuffer\<close>: all timestamps, then all source values, then all currents.\<close>

record buffer_row =
  bf_timestamp :: pyfloat
  bf_voltage :: pyfloat
  bf_current :: pyfloat
  bf_resistance :: pyfloat
  bf_power :: pyfloat

definition quotient_or_nan :: "pyfloat \<Rightarrow> pyfloat \<Rightarrow> pyfloat" where
  "quotient_or_nan v i = (case fl_div v i of Inr q \<Rightarrow> q | Inl _ \<Rightarrow> NaN)"

definition buffer_row_of :: "string \<Rightarrow> string \<Rightarrow> string \<Rightarrow> buffer_row result" where
  "buffer_row_of t v i =
     (case (py_float t, py_float v, py_float i) of
        (Some ts, Some vo, Some cu) \<Rightarrow>
          (if \<not> (fl_isfinite ts \<and> fl_isfinite vo \<and> fl_isfinite cu)
           then Inl (ValueError ''buffer response contains no finite buffered IV rows'')
           else (let power = fl_mul vo cu
                 in Inr \<lparr> bf_timestamp = ts, bf_voltage = vo, bf_current = cu, bf_resistance = quotient_or_nan vo cu,
                          bf_power = (if fl_isfinite power then power else NaN) \<rparr>))
      | _ \<Rightarrow> Inl (ValueError ''buffer response contains an unreadable IV row''))"

fun buffer_rows :: "string list \<Rightarrow> string list \<Rightarrow> string list \<Rightarrow> buffer_row list result" where
  "buffer_rows (t # ts) (v # vs) (i # is) =
     res_bind (buffer_row_of t v i) (\<lambda>r. res_bind (buffer_rows ts vs is) (\<lambda>rs. Inr (r # rs)))"
| "buffer_rows _ _ _ = Inr []"

definition parse_buffer_response :: "string \<Rightarrow> buffer_row list result" where
  "parse_buffer_response raw =
     (if py_strip raw = [] then Inr []
      else
        (let tokens = map py_strip (split_char (CHR '','') (map (\<lambda>c. if c = CHR 0x09 then CHR '','' else c) raw));
             n = length tokens div 3
         in if length tokens mod 3 \<noteq> 0
            then Inl (ValueError ''buffer response does not contain complete timestamp/voltage/current rows'')
            else buffer_rows (take n tokens) (take n (drop n tokens)) (drop (2 * n) tokens)))"

section \<open>The watchdog's readbacks\<close>

definition parse_wdog_version :: "string \<Rightarrow> nat result" where
  "parse_wdog_version raw =
     res_bind (bounded_ascii_token raw 64) (\<lambda>token.
       if list_all is_digit token \<and> (token = ''0'' \<or> hd token \<noteq> CHR ''0'') then Inr (digits_value token)
       else Inl (ValueError ''readback is not a canonical integer''))"

definition parse_wdog_flag :: "string \<Rightarrow> bool result" where
  "parse_wdog_flag raw =
     res_bind (bounded_ascii_token raw 64) (\<lambda>token.
       if token = ''0'' then Inr False else if token = ''1'' then Inr True
       else Inl (ValueError ''readback must be literal 0 or 1''))"

definition parse_wdog_latch :: "string \<Rightarrow> bool result" where
  "parse_wdog_latch raw =
     res_bind (bounded_ascii_token raw 64) (\<lambda>token. if token = ''nil'' then Inr False else parse_wdog_flag token)"

definition validate_wdog_timeout_s :: "pyfloat \<Rightarrow> pyfloat result" where
  "validate_wdog_timeout_s v =
     (if \<not> fl_isfinite v then Inl (ValueError ''watchdog_timeout_s must be finite'')
      else if \<not> (fl_le (Fin 1) v \<and> fl_le v (Fin 300)) then Inl (ValueError ''watchdog_timeout_s out of range'')
      else Inr v)"

section \<open>What the parsers accept\<close>

lemma split_char_no_sep: "c \<notin> set s \<Longrightarrow> split_char c s = [s]"
  by (induction s) auto

lemma split_char_nonempty [simp]: "split_char c s \<noteq> []"
  by (cases s) (auto split: list.splits)

lemma split_char_append: "c \<notin> set p \<Longrightarrow> split_char c (p @ c # s) = p # split_char c s"
  by (induction p) auto

text \<open>The fields of a split, joined again, are the text.\<close>

fun join_char :: "char \<Rightarrow> string list \<Rightarrow> string" where
  "join_char c [] = []"
| "join_char c [p] = p"
| "join_char c (p # q # ps) = p @ c # join_char c (q # ps)"

lemma join_char_Cons: "ps \<noteq> [] \<Longrightarrow> join_char c (p # ps) = p @ c # join_char c ps"
  by (cases ps) auto

lemma join_split [simp]: "join_char c (split_char c s) = s"
proof (induction s)
  case (Cons x s)
  obtain p ps where ps: "split_char c s = p # ps" by (cases "split_char c s") auto
  show ?case
  proof (cases "x = c")
    case True
    thus ?thesis using Cons by (simp add: join_char_Cons)
  next
    case False
    thus ?thesis using Cons ps by (cases ps) (auto simp: join_char_Cons)
  qed
qed simp

lemma split_char_fields: "p \<in> set (split_char c s) \<Longrightarrow> c \<notin> set p"
  by (induction s arbitrary: p) (auto split: if_splits list.splits)

lemma three_fields:
  assumes "(case xs of [a, b, d] \<Rightarrow> f a b d | _ \<Rightarrow> Inl e) = Inr y"
  shows "\<exists>a b d. xs = [a, b, d] \<and> f a b d = Inr y"
proof (cases xs)
  case (Cons a ys)
  thus ?thesis
  proof (cases ys)
    case (Cons b zs)
    thus ?thesis using assms \<open>xs = a # ys\<close> by (cases zs; cases "tl zs") simp_all
  qed (use assms Cons in simp)
qed (use assms in simp)

lemma bounded_ascii_token_Inr:
  "bounded_ascii_token raw n = Inr t \<longleftrightarrow>
     raw \<noteq> [] \<and> py_len raw \<le> n \<and> is_ascii raw \<and> t = strip_chars PROTOCOL_TRIM_CHARS raw \<and> t \<noteq> []"
  by (auto simp: bounded_ascii_token_def Let_def)

lemma check_challenge_True: "check_challenge n fs = Inr True \<longleftrightarrow> fs = [OFF_CHALLENGE_PREFIX, n, ''0'']"
proof
  assume "check_challenge n fs = Inr True"
  from three_fields [OF this [unfolded check_challenge_def]] show "fs = [OFF_CHALLENGE_PREFIX, n, ''0'']"
    by (auto split: if_splits)
qed (simp add: check_challenge_def)

text \<open>
  OFF is accepted from one text only. A challenge response confirms OFF exactly when its nonce is
  well formed and the response, within its length and ASCII bounds and stripped of transport
  whitespace, is literally the prefix, this nonce and the digit 0, separated by bars.
\<close>

theorem off_challenge_exact:
  "parse_output_off_challenge raw nonce = Inr True \<longleftrightarrow>
     nonce_ok nonce \<and> py_len raw \<le> 96 \<and> is_ascii raw
     \<and> strip_chars PROTOCOL_TRIM_CHARS raw = OFF_CHALLENGE_PREFIX @ ''|'' @ nonce @ ''|0''"
proof -
  let ?t = "strip_chars PROTOCOL_TRIM_CHARS raw" and ?x = "OFF_CHALLENGE_PREFIX @ ''|'' @ nonce @ ''|0''"
  have fields: "split_char (CHR ''|'') ?x = [OFF_CHALLENGE_PREFIX, nonce, ''0'']" if "nonce_ok nonce"
  proof -
    have "\<forall>c \<in> set nonce. c \<in> set ''0123456789abcdef''" using that unfolding nonce_ok_def list_all_iff by blast
    moreover have "CHR ''|'' \<notin> set ''0123456789abcdef''" by simp
    ultimately have "CHR ''|'' \<notin> set nonce" by blast
    hence "split_char (CHR ''|'') (nonce @ CHR ''|'' # ''0'') = [nonce, ''0'']" by (simp add: split_char_append)
    moreover have "CHR ''|'' \<notin> set OFF_CHALLENGE_PREFIX" by (simp add: OFF_CHALLENGE_PREFIX_def)
    ultimately show ?thesis using split_char_append [of "CHR ''|''" OFF_CHALLENGE_PREFIX "nonce @ CHR ''|'' # ''0''"] by simp
  qed
  have joined: "?t = ?x" if "split_char (CHR ''|'') ?t = [OFF_CHALLENGE_PREFIX, nonce, ''0'']"
    using join_split [of "CHR ''|''" ?t] that by simp
  have nonempty: "raw \<noteq> []" if "?t \<noteq> []" using that by (auto simp: strip_chars_def)
  show ?thesis
    using fields joined nonempty
    by (auto simp: parse_output_off_challenge_def res_bind_Inr_iff check_challenge_True bounded_ascii_token_Inr
        OFF_CHALLENGE_PREFIX_def)
qed

text \<open>A mantissa of a token of at most 64 characters is below \<open>10 ^ 64\<close>.\<close>

lemma digits_value_snoc: "digits_value (s @ [c]) = 10 * digits_value s + digit_value c"
  by (simp add: digits_value_def)

lemma digit_value_less: "is_digit c \<Longrightarrow> digit_value c < 10"
  by (auto simp: is_digit_def digit_value_def)

lemma digits_value_less: "list_all is_digit s \<Longrightarrow> digits_value s < 10 ^ length s"
proof (induction s rule: rev_induct)
  case Nil
  show ?case by (simp add: digits_value_def)
next
  case (snoc c s)
  hence "digits_value s < 10 ^ length s" "digit_value c < 10" using digit_value_less by simp_all
  thus ?case by (simp add: digits_value_snoc)
qed

lemma take_sign_length: "length (snd (take_sign s)) \<le> length s"
  by (cases s) (auto simp: take_sign_def)

lemma take_drop_while_length: "length (takeWhile P s) + length (dropWhile P s) = length s"
  by (metis length_append takeWhile_dropWhile_id)

lemma parse_decimal_less:
  assumes "parse_decimal s = Some (m, x)"
  shows "\<bar>m\<bar> < 10 ^ length s"
proof -
  define s1 where "s1 = snd (take_sign s)"
  define ip where "ip = takeWhile is_digit s1"
  define r1 where "r1 = dropWhile is_digit s1"
  define fr where "fr = (case r1 of c # t \<Rightarrow> if c = CHR ''.'' then (takeWhile is_digit t, dropWhile is_digit t) else ([], r1)
                      | [] \<Rightarrow> ([], []))"
  define fp where "fp = fst fr"
  have "length ip + length r1 = length s1" by (simp add: ip_def r1_def take_drop_while_length)
  moreover have "length fp \<le> length r1"
    by (auto simp: fp_def fr_def length_takeWhile_le le_SucI split: list.splits)
  ultimately have len: "length (ip @ fp) \<le> length s"
    using take_sign_length [of s] by (simp add: s1_def)
  have "list_all is_digit (ip @ fp)"
    by (auto simp: ip_def fp_def fr_def list_all_iff dest: set_takeWhileD split: list.splits if_splits)
  hence "digits_value (ip @ fp) < 10 ^ length (ip @ fp)" by (rule digits_value_less)
  also have "(10 :: nat) ^ length (ip @ fp) \<le> 10 ^ length s" using len by (intro power_increasing) simp_all
  finally have "int (digits_value (ip @ fp)) < 10 ^ length s" by (metis of_nat_less_iff of_nat_numeral of_nat_power)
  moreover have "\<bar>m\<bar> = int (digits_value (ip @ fp))"
    using assms unfolding parse_decimal_def Let_def case_prod_beta s1_def [symmetric] ip_def [symmetric] r1_def [symmetric]
      fr_def [symmetric] fp_def [symmetric]
    by (auto split: if_splits list.splits)
  ultimately show ?thesis by simp
qed

lemma strip_chars_length: "length (strip_chars cs s) \<le> length s"
  unfolding strip_chars_def by (metis length_dropWhile_le length_rev order_trans)

lemma py_len_ascii: "is_ascii s \<Longrightarrow> py_len s = length s"
proof -
  assume a: "is_ascii s"
  have "filter (\<lambda>c. let n = (of_char c :: nat) in \<not> (128 \<le> n \<and> n < 192)) s = s"
    using a by (intro filter_True) (auto simp: is_ascii_def list_all_iff Let_def)
  thus ?thesis by (simp add: py_len_def)
qed

lemma decimal_real_one:
  assumes "\<bar>m\<bar> < 10 ^ 64"
  shows "decimal_real (m, x) = 1 \<longleftrightarrow> (x = 0 \<and> m = 1) \<or> (x < 0 \<and> -64 \<le> x \<and> m = 10 ^ nat (- x))"
proof (cases "0 \<le> x")
  case True
  have "of_int m * 10 ^ nat x = (1 :: real) \<longleftrightarrow> m * 10 ^ nat x = 1"
    using of_int_eq_1_iff [of "m * 10 ^ nat x", where 'a = real] by (simp only: of_int_mult of_int_power of_int_numeral)
  also have "\<dots> \<longleftrightarrow> x = 0 \<and> m = 1"
  proof
    assume *: "m * 10 ^ nat x = 1"
    have "(0 :: int) < 10 ^ nat x" by simp
    hence "\<not> 10 ^ nat x = (- 1 :: int)" by linarith
    with * have "m = 1 \<and> (10 :: int) ^ nat x = 1" by (simp only: zmult_eq_1_iff) blast
    moreover have "nat x = 0" if "(10 :: int) ^ nat x = 1"
    proof (rule ccontr)
      assume "nat x \<noteq> 0"
      hence "(10 :: int) dvd 10 ^ nat x" by (simp add: dvd_power)
      with that show False by simp
    qed
    ultimately show "x = 0 \<and> m = 1" using True by simp
  qed simp
  finally show ?thesis using True by (simp add: decimal_real_def)
next
  case False
  have "of_int m / 10 ^ nat (- x) = (1 :: real) \<longleftrightarrow> m = 10 ^ nat (- x)"
  proof -
    have "of_int m / 10 ^ nat (- x) = (1 :: real) \<longleftrightarrow> of_int m = (of_int (10 ^ nat (- x)) :: real)"
      by (auto simp: divide_eq_1_iff)
    thus ?thesis using of_int_eq_iff [of m "10 ^ nat (- x)", where 'a = real] by blast
  qed
  moreover have "-64 \<le> x" if "m = 10 ^ nat (- x)"
  proof (rule ccontr)
    assume "\<not> -64 \<le> x"
    hence "(10 :: int) ^ 64 \<le> 10 ^ nat (- x)" by (intro power_increasing) simp_all
    with that assms show False by simp
  qed
  ultimately show ?thesis using False by (auto simp: decimal_real_def)
qed

lemma decimal_real_zero: "decimal_real (m, x) = 0 \<longleftrightarrow> m = 0"
  by (simp add: decimal_real_def)

text \<open>
  An output state is read exactly. A response is read as ON or OFF if and only if it is a bounded
  ASCII token that is a decimal literal of value exactly 1 or exactly 0, the latter within the exponents
  of \<open>Decimal\<close>; every other response, rounded values and names included, is an error.
\<close>

theorem output_state_exact:
  "parse_output_enabled raw = Inr b \<longleftrightarrow>
     (\<exists>t m x. bounded_ascii_token raw 64 = Inr t \<and> parse_decimal t = Some (m, x)
        \<and> decimal_real (m, x) = (if b then 1 else 0)
        \<and> (m = 0 \<longrightarrow> DECIMAL_MIN_EXP \<le> x \<and> x \<le> DECIMAL_MAX_EXP))"
proof -
  have less: "\<bar>m\<bar> < 10 ^ 64" if "bounded_ascii_token raw 64 = Inr t" "parse_decimal t = Some (m, x)" for t m x
  proof -
    have "length t \<le> 64"
      using that(1) strip_chars_length [of PROTOCOL_TRIM_CHARS raw] py_len_ascii [of raw]
      by (simp add: bounded_ascii_token_Inr)
    hence "(10 :: int) ^ length t \<le> 10 ^ 64" by (intro power_increasing) simp_all
    with parse_decimal_less [OF that(2)] show ?thesis by (rule order_less_le_trans)
  qed
  show ?thesis
  proof (cases "bounded_ascii_token raw 64")
    case (Inl e)
    thus ?thesis by (simp add: parse_output_enabled_def)
  next
    case (Inr t)
    show ?thesis
    proof (cases "parse_decimal t")
      case None
      thus ?thesis using Inr by (simp add: parse_output_enabled_def)
    next
      case (Some mx)
      obtain m x where mx: "mx = (m, x)" by force
      have one: "decimal_real (m, x) = 1 \<longleftrightarrow> (x = 0 \<and> m = 1) \<or> (x < 0 \<and> -64 \<le> x \<and> m = 10 ^ nat (- x))"
        using less [OF Inr] Some mx by (intro decimal_real_one) simp
      have "parse_output_enabled raw =
            (if m = 0 \<and> DECIMAL_MIN_EXP \<le> x \<and> x \<le> DECIMAL_MAX_EXP then Inr False
             else if decimal_real (m, x) = 1 then Inr True
             else Inl (ValueError ''output-state token must be exactly 0 or 1''))"
        unfolding one by (simp add: parse_output_enabled_def Inr Some mx)
      thus ?thesis using Inr Some mx decimal_real_zero [of m x] by auto
    qed
  qed
qed

lemma output_state_exact_witness:
  "parse_output_enabled ''1.00e0'' = Inr True \<and> parse_output_enabled ''0.0'' = Inr False"
proof -
  have "bounded_ascii_token ''1.00e0'' 64 = Inr ''1.00e0''" "bounded_ascii_token ''0.0'' 64 = Inr ''0.0''" by code_simp+
  moreover have "parse_decimal ''1.00e0'' = Some (100, -2)" "parse_decimal ''0.0'' = Some (0, -1)" by code_simp+
  moreover have "decimal_real (100, -2) = 1" "decimal_real (0, -1) = 0" by (simp_all add: decimal_real_def)
  ultimately show ?thesis
    using output_state_exact [of "''1.00e0''" True] output_state_exact [of "''0.0''" False]
    by (auto simp: DECIMAL_MIN_EXP_def DECIMAL_MAX_EXP_def)
qed

end
