(* ===== verification/Coroutines.thy ===== *)
theory Coroutines
  imports Prelude
begin

text \<open>
  Coroutines of one event loop, as values. Code between two awaits is atomic: it reads and writes the
  state of its object (\<open>Get\<close>, \<open>Put\<close>), returns or raises. An await is a request to the outside with the
  continuation that takes the answer; the state it resumes with may be another one, since other tasks ran
  meanwhile. Every coroutine is a well-founded value, so bounds on the number of awaits are theorems.

  \<open>wp aw p Q E\<close> is the weakest precondition of a coroutine with respect to a transformer \<open>aw\<close> for its
  awaits: it holds of a ghost value and a state from which \<open>p\<close> only awaits as \<open>aw\<close> admits and ends in
  \<open>Q\<close> or raises in \<open>E\<close>. The locale \<open>await_logic\<close> is the interface of such a transformer.
\<close>

section \<open>Coroutines\<close>

datatype ('s, 'q, 'r, 'e, 'a) co =
    Ret 'a
  | Raise 'e
  | Get "'s \<Rightarrow> ('s, 'q, 'r, 'e, 'a) co"
  | Put 's "('s, 'q, 'r, 'e, 'a) co"
  | Await 'q "'r \<Rightarrow> ('s, 'q, 'r, 'e, 'a) co"

primrec co_bind :: "('s, 'q, 'r, 'e, 'a) co \<Rightarrow> ('a \<Rightarrow> ('s, 'q, 'r, 'e, 'b) co) \<Rightarrow> ('s, 'q, 'r, 'e, 'b) co" where
  "co_bind (Ret x) f = f x"
| "co_bind (Raise e) f = Raise e"
| "co_bind (Get g) f = Get (\<lambda>s. co_bind (g s) f)"
| "co_bind (Put s p) f = Put s (co_bind p f)"
| "co_bind (Await q k) f = Await q (\<lambda>r. co_bind (k r) f)"

text \<open>The result as a value: \<open>Inl\<close> is a raised exception.\<close>

primrec co_attempt :: "('s, 'q, 'r, 'e, 'a) co \<Rightarrow> ('s, 'q, 'r, 'e, 'e + 'a) co" where
  "co_attempt (Ret x) = Ret (Inr x)"
| "co_attempt (Raise e) = Ret (Inl e)"
| "co_attempt (Get g) = Get (\<lambda>s. co_attempt (g s))"
| "co_attempt (Put s p) = Put s (co_attempt p)"
| "co_attempt (Await q k) = Await q (\<lambda>r. co_attempt (k r))"

definition co_result :: "'e + 'a \<Rightarrow> ('s, 'q, 'r, 'e, 'a) co" where
  "co_result r = (case r of Inl e \<Rightarrow> Raise e | Inr x \<Rightarrow> Ret x)"

lemma co_result_simps [simp]: "co_result (Inl e) = Raise e" "co_result (Inr x) = Ret x"
  by (simp_all add: co_result_def)

text \<open>\<open>try: p except e: h e\<close> and \<open>try: p finally: f\<close>.\<close>

definition co_try :: "('s, 'q, 'r, 'e, 'a) co \<Rightarrow> ('e \<Rightarrow> ('s, 'q, 'r, 'e, 'a) co) \<Rightarrow> ('s, 'q, 'r, 'e, 'a) co" where
  "co_try p h = co_bind (co_attempt p) (\<lambda>r. case r of Inl e \<Rightarrow> h e | Inr x \<Rightarrow> Ret x)"

definition co_finally :: "('s, 'q, 'r, 'e, 'a) co \<Rightarrow> ('s, 'q, 'r, 'e, unit) co \<Rightarrow> ('s, 'q, 'r, 'e, 'a) co" where
  "co_finally p f = co_bind (co_attempt p) (\<lambda>r. co_bind f (\<lambda>_. co_result r))"

definition co_then :: "('s, 'q, 'r, 'e, unit) co \<Rightarrow> ('s, 'q, 'r, 'e, 'b) co \<Rightarrow> ('s, 'q, 'r, 'e, 'b) co" where
  "co_then p q = co_bind p (\<lambda>_. q)"

definition co_gets :: "('s \<Rightarrow> 'a) \<Rightarrow> ('s, 'q, 'r, 'e, 'a) co" where
  "co_gets f = Get (\<lambda>s. Ret (f s))"

definition co_modify :: "('s \<Rightarrow> 's) \<Rightarrow> ('s, 'q, 'r, 'e, unit) co" where
  "co_modify f = Get (\<lambda>s. Put (f s) (Ret ()))"

text \<open>\<open>if not f(self): raise e\<close>, and the lifting of a parser.\<close>

definition co_require :: "('s \<Rightarrow> bool) \<Rightarrow> 'e \<Rightarrow> ('s, 'q, 'r, 'e, unit) co" where
  "co_require f e = Get (\<lambda>s. if f s then Ret () else Raise e)"

definition co_when :: "bool \<Rightarrow> ('s, 'q, 'r, 'e, unit) co \<Rightarrow> ('s, 'q, 'r, 'e, unit) co" where
  "co_when b p = (if b then p else Ret ())"

text \<open>\<open>for x in xs: f x\<close>, without and with accumulated values.\<close>

fun co_each :: "('b \<Rightarrow> ('s, 'q, 'r, 'e, unit) co) \<Rightarrow> 'b list \<Rightarrow> ('s, 'q, 'r, 'e, unit) co" where
  "co_each f [] = Ret ()"
| "co_each f (x # xs) = co_then (f x) (co_each f xs)"

fun co_fold :: "('b \<Rightarrow> 'c \<Rightarrow> ('s, 'q, 'r, 'e, 'c) co) \<Rightarrow> 'b list \<Rightarrow> 'c \<Rightarrow> ('s, 'q, 'r, 'e, 'c) co" where
  "co_fold f [] c = Ret c"
| "co_fold f (x # xs) c = co_bind (f x c) (co_fold f xs)"

text \<open>One atomic segment: everything up to the next await.\<close>

primrec co_run :: "('s, 'q, 'r, 'e, 'a) co \<Rightarrow> 's \<Rightarrow> 's \<times> ('s, 'q, 'r, 'e, 'a) co" where
  "co_run (Ret x) s = (s, Ret x)"
| "co_run (Raise e) s = (s, Raise e)"
| "co_run (Get g) s = co_run (g s) s"
| "co_run (Put s' p) s = co_run p s'"
| "co_run (Await q k) s = (s, Await q k)"

text \<open>
  A coroutine driven alone: each item is an answer and the state it resumes with. The result is the list
  of requests, the state after the last segment, and how it ended, if it did.
\<close>

primrec co_drive :: "('s, 'q, 'r, 'e, 'a) co \<Rightarrow> 's \<Rightarrow> ('r \<times> ('s \<Rightarrow> 's)) list \<Rightarrow> 'q list \<times> 's \<times> ('e + 'a) option" where
  "co_drive (Ret x) s as = ([], s, Some (Inr x))"
| "co_drive (Raise e) s as = ([], s, Some (Inl e))"
| "co_drive (Get g) s as = co_drive (g s) s as"
| "co_drive (Put s' p) s as = co_drive p s' as"
| "co_drive (Await q k) s as =
     (case as of
        [] \<Rightarrow> ([q], s, None)
      | (r, f) # bs \<Rightarrow> (let (qs, t) = co_drive (k r) (f s) bs in (q # qs, t)))"

text \<open>The history of a coroutine driven alone: each request with the state it was made in, and its answer.\<close>

primrec co_trace :: "('s, 'q, 'r, 'e, 'a) co \<Rightarrow> 's \<Rightarrow> ('r \<times> ('s \<Rightarrow> 's)) list \<Rightarrow> ('q \<times> 's \<times> 'r option) list" where
  "co_trace (Ret x) s as = []"
| "co_trace (Raise e) s as = []"
| "co_trace (Get g) s as = co_trace (g s) s as"
| "co_trace (Put s' p) s as = co_trace p s' as"
| "co_trace (Await q k) s as =
     (case as of
        [] \<Rightarrow> [(q, s, None)]
      | (r, f) # bs \<Rightarrow> (q, s, Some r) # co_trace (k r) (f s) bs)"

text \<open>At most \<open>n\<close> awaits, each with a request in \<open>R\<close>, whatever the answers and the states.\<close>

primrec co_within :: "('q \<Rightarrow> bool) \<Rightarrow> ('s, 'q, 'r, 'e, 'a) co \<Rightarrow> nat \<Rightarrow> bool" where
  "co_within R (Ret x) n = True"
| "co_within R (Raise e) n = True"
| "co_within R (Get g) n = (\<forall>s. co_within R (g s) n)"
| "co_within R (Put s p) n = co_within R p n"
| "co_within R (Await q k) n = (R q \<and> (case n of 0 \<Rightarrow> False | Suc m \<Rightarrow> \<forall>r. co_within R (k r) m))"

section \<open>Laws\<close>

named_theorems co_simps "rules that move the combinators out of the way"
named_theorems within_intros "bounds on the number of awaits"

lemma co_bind_assoc [co_simps]: "co_bind (co_bind p f) g = co_bind p (\<lambda>x. co_bind (f x) g)"
  by (induction p) auto

lemma co_attempt_bind:
  "co_attempt (co_bind p f) = co_bind (co_attempt p) (\<lambda>r. case r of Inl e \<Rightarrow> Ret (Inl e) | Inr x \<Rightarrow> co_attempt (f x))"
  by (induction p) auto

text \<open>A run never stops inside a segment.\<close>

lemma co_run_stops: "co_run p s = (s', p') \<Longrightarrow> (\<exists>x. p' = Ret x) \<or> (\<exists>e. p' = Raise e) \<or> (\<exists>q k. p' = Await q k)"
proof (induction p arbitrary: s)
  case (Get g)
  from Get.IH [OF rangeI] Get.prems show ?case by simp
qed auto

lemma within_mono: "co_within R p m \<Longrightarrow> m \<le> n \<Longrightarrow> co_within R p n"
proof (induction p arbitrary: m n)
  case (Get g)
  show ?case using Get.IH [OF rangeI, of _ m n] Get.prems by simp
next
  case (Await q k)
  obtain m' where m: "m = Suc m'" using Await.prems(1) by (cases m) auto
  obtain n' where n: "n = Suc n'" using Await.prems(2) m by (cases n) auto
  show ?case using Await.IH [OF rangeI, of _ m' n'] Await.prems by (simp add: m n)
qed auto

lemma within_weaken: "co_within R p n \<Longrightarrow> (\<And>q. R q \<Longrightarrow> R' q) \<Longrightarrow> co_within R' p n"
proof (induction p arbitrary: n)
  case (Await q k)
  thus ?case by (cases n) auto
qed auto

lemma within_bind [within_intros]:
  "co_within R p m \<Longrightarrow> (\<And>x. co_within R (f x) n) \<Longrightarrow> co_within R (co_bind p f) (m + n)"
proof (induction p arbitrary: m)
  case (Ret x)
  show ?case using within_mono [OF Ret.prems(2) [of x]] by simp
next
  case (Await q k)
  thus ?case by (cases m) auto
qed auto

lemma within_attempt [within_intros]: "co_within R p n \<Longrightarrow> co_within R (co_attempt p) n"
proof (induction p arbitrary: n)
  case (Await q k)
  thus ?case by (cases n) auto
qed auto

lemma within_result [within_intros]: "co_within R (co_result r) 0"
  by (cases r) auto

lemma within_leaves [within_intros]:
  "co_within R (Ret x) 0" "co_within R (Raise e) 0" "co_within R (co_gets f) 0" "co_within R (co_modify g) 0"
  "co_within R (co_require c e) 0"
  by (simp_all add: co_gets_def co_modify_def co_require_def)

lemma within_Get [within_intros]: "(\<And>s. co_within R (f s) n) \<Longrightarrow> co_within R (Get f) n"
  and within_Put [within_intros]: "co_within R p n \<Longrightarrow> co_within R (Put s p) n"
  and within_Await: "R q \<Longrightarrow> (\<And>r. co_within R (k r) n) \<Longrightarrow> co_within R (Await q k) (Suc n)"
  by simp_all

lemma within_if [within_intros]:
  "co_within R p m \<Longrightarrow> co_within R q n \<Longrightarrow> co_within R (if b then p else q) (max m n)"
  by (auto intro: within_mono)

lemma within_bool [within_intros]:
  "co_within R p m \<Longrightarrow> co_within R q n \<Longrightarrow> co_within R (case b of True \<Rightarrow> p | False \<Rightarrow> q) (max m n)"
  by (cases b) (auto intro: within_mono)

lemma within_sum [within_intros]:
  "(\<And>x. co_within R (f x) m) \<Longrightarrow> (\<And>x. co_within R (h x) n) \<Longrightarrow>
   co_within R (case y of Inl x \<Rightarrow> f x | Inr x \<Rightarrow> h x) (max m n)"
  by (cases y) (auto intro: within_mono [OF _ max.cobounded1] within_mono [OF _ max.cobounded2])

lemma within_option [within_intros]:
  "co_within R p m \<Longrightarrow> (\<And>x. co_within R (f x) n) \<Longrightarrow>
   co_within R (case y of None \<Rightarrow> p | Some x \<Rightarrow> f x) (max m n)"
  by (cases y) (auto intro: within_mono [OF _ max.cobounded1] within_mono [OF _ max.cobounded2])

lemma within_prod [within_intros]:
  "(\<And>x y. co_within R (f x y) n) \<Longrightarrow> co_within R (case z of (x, y) \<Rightarrow> f x y) n"
  by (cases z) auto

lemma within_Let [within_intros]: "co_within R (f y) n \<Longrightarrow> co_within R (Let y f) n"
  by (simp add: Let_def)

lemma within_try [within_intros]:
  "co_within R p m \<Longrightarrow> (\<And>e. co_within R (h e) n) \<Longrightarrow> co_within R (co_try p h) (m + n)"
  unfolding co_try_def
  by (rule within_bind [OF within_attempt]) (auto split: sum.splits)

lemma within_then [within_intros]: "co_within R p m \<Longrightarrow> co_within R q n \<Longrightarrow> co_within R (co_then p q) (m + n)"
  unfolding co_then_def by (rule within_bind)

lemma within_finally [within_intros]: "co_within R p m \<Longrightarrow> co_within R f n \<Longrightarrow> co_within R (co_finally p f) (m + n)"
  unfolding co_finally_def
  by (rule within_bind [OF within_attempt]) (use within_bind [OF _ within_result, of R f n] in auto)

lemma within_when [within_intros]: "co_within R p n \<Longrightarrow> co_within R (co_when b p) n"
  by (simp add: co_when_def)

lemma within_each: "(\<And>x. x \<in> set xs \<Longrightarrow> co_within R (f x) n) \<Longrightarrow> co_within R (co_each f xs) (length xs * n)"
  by (induction xs) (auto intro: within_then)

lemma within_fold: "(\<And>x c. co_within R (f x c) n) \<Longrightarrow> co_within R (co_fold f xs c) (length xs * n)"
  by (induction xs arbitrary: c) (auto intro: within_bind)

text \<open>A bounded coroutine that got enough answers has ended, and it made no other requests.\<close>

lemma within_drive_ends: "co_within R p n \<Longrightarrow> n \<le> length as \<Longrightarrow> snd (snd (co_drive p s as)) \<noteq> None"
proof (induction p arbitrary: s n as)
  case (Get g)
  show ?case using Get.IH [OF rangeI, of s n as s] Get.prems by simp
next
  case (Await q k)
  then obtain m where n: "n = Suc m" by (cases n) auto
  with Await.prems obtain r f bs where as: "as = (r, f) # bs" by (cases as) auto
  have "snd (snd (co_drive (k r) (f s) bs)) \<noteq> None"
    using Await.IH [of "k r" m bs "f s"] Await.prems n as by auto
  thus ?case by (simp add: as split_beta)
qed auto

lemma within_drive_bounded: "co_within R p n \<Longrightarrow> length (fst (co_drive p s as)) \<le> n"
proof (induction p arbitrary: s n as)
  case (Await q k)
  then obtain m where n: "n = Suc m" by (cases n) auto
  show ?case
  proof (cases as)
    case Nil
    thus ?thesis using n by simp
  next
    case (Cons a bs)
    obtain r f where a: "a = (r, f)" by (cases a) auto
    have "length (fst (co_drive (k r) (f s) bs)) \<le> m" using Await n by auto
    thus ?thesis by (simp add: Cons a n split_beta)
  qed
qed auto

lemma within_trace: "co_within R p n \<Longrightarrow> (q, s', a) \<in> set (co_trace p s as) \<Longrightarrow> R q"
proof (induction p arbitrary: s n as)
  case (Get g)
  show ?case by (rule Get.IH [OF rangeI]) (use Get.prems in auto)
next
  case (Await q' k)
  then obtain m where n: "n = Suc m" by (cases n) auto
  show ?case
  proof (cases as)
    case Nil
    thus ?thesis using Await.prems by simp
  next
    case (Cons x bs)
    obtain r f where x: "x = (r, f)" by (cases x)
    have "(q, s', a) = (q', s, Some r) \<or> (q, s', a) \<in> set (co_trace (k r) (f s) bs)"
      using Await.prems(2) by (simp add: Cons x)
    thus ?thesis using Await.IH [OF rangeI, of r m "f s" bs] Await.prems(1) by (auto simp: n)
  qed
qed auto

section \<open>Weakest preconditions\<close>

primrec wp ::
  "('g \<Rightarrow> 's \<Rightarrow> 'q \<Rightarrow> ('g \<Rightarrow> 's \<Rightarrow> 'r \<Rightarrow> bool) \<Rightarrow> bool) \<Rightarrow> ('s, 'q, 'r, 'e, 'a) co
    \<Rightarrow> ('a \<Rightarrow> 'g \<Rightarrow> 's \<Rightarrow> bool) \<Rightarrow> ('e \<Rightarrow> 'g \<Rightarrow> 's \<Rightarrow> bool) \<Rightarrow> 'g \<Rightarrow> 's \<Rightarrow> bool" where
  "wp aw (Ret x) Q E g s = Q x g s"
| "wp aw (Raise e) Q E g s = E e g s"
| "wp aw (Get f) Q E g s = wp aw (f s) Q E g s"
| "wp aw (Put s' p) Q E g s = wp aw p Q E g s'"
| "wp aw (Await q k) Q E g s = aw g s q (\<lambda>g' s' r. wp aw (k r) Q E g' s')"

lemma wp_Ret [simp]: "wp aw (Ret x) Q E = Q x"
  and wp_Raise [simp]: "wp aw (Raise e) Q E = E e"
  by (simp_all add: fun_eq_iff)

lemma wp_bind [co_simps]: "wp aw (co_bind p f) Q E = wp aw p (\<lambda>x. wp aw (f x) Q E) E"
proof (intro ext)
  show "wp aw (co_bind p f) Q E g s = wp aw p (\<lambda>x. wp aw (f x) Q E) E g s" for g s
    by (induction p arbitrary: g s) auto
qed

lemma wp_attempt [co_simps]: "wp aw (co_attempt p) Q E = wp aw p (\<lambda>x. Q (Inr x)) (\<lambda>e. Q (Inl e))"
proof (intro ext)
  show "wp aw (co_attempt p) Q E g s = wp aw p (\<lambda>x. Q (Inr x)) (\<lambda>e. Q (Inl e)) g s" for g s
    by (induction p arbitrary: g s) auto
qed

lemma wp_try [co_simps]: "wp aw (co_try p h) Q E = wp aw p Q (\<lambda>e. wp aw (h e) Q E)"
  by (simp add: co_try_def co_simps)

lemma wp_finally [co_simps]:
  "wp aw (co_finally p f) Q E = wp aw p (\<lambda>x. wp aw f (\<lambda>_. Q x) E) (\<lambda>e. wp aw f (\<lambda>_. E e) E)"
  by (simp add: co_finally_def co_simps)

lemma wp_then [co_simps]: "wp aw (co_then p q) Q E = wp aw p (\<lambda>_. wp aw q Q E) E"
  by (simp add: co_then_def co_simps)

lemma wp_gets [co_simps]: "wp aw (co_gets f) Q E = (\<lambda>g s. Q (f s) g s)"
  by (simp add: co_gets_def fun_eq_iff)

lemma wp_modify [co_simps]: "wp aw (co_modify f) Q E = (\<lambda>g s. Q () g (f s))"
  by (simp add: co_modify_def fun_eq_iff)

lemma wp_require [co_simps]: "wp aw (co_require c e) Q E = (\<lambda>g s. if c s then Q () g s else E e g s)"
  by (simp add: co_require_def fun_eq_iff)

lemma wp_when [co_simps]: "wp aw (co_when b p) Q E = (if b then wp aw p Q E else Q ())"
  by (simp add: co_when_def)

lemma wp_each [co_simps]:
  "wp aw (co_each f []) Q E = Q ()"
  "wp aw (co_each f (x # xs)) Q E = wp aw (f x) (\<lambda>_. wp aw (co_each f xs) Q E) E"
  by (simp_all add: co_simps)

lemma wp_fold [co_simps]:
  "wp aw (co_fold f [] c) Q E = Q c"
  "wp aw (co_fold f (x # xs) c) Q E = wp aw (f x c) (\<lambda>c. wp aw (co_fold f xs c) Q E) E"
  by (simp_all add: co_simps)

text \<open>The interface of a transformer: it asks less when less is asked of its continuation.\<close>

locale await_logic =
  fixes aw :: "'g \<Rightarrow> 's \<Rightarrow> 'q \<Rightarrow> ('g \<Rightarrow> 's \<Rightarrow> 'r \<Rightarrow> bool) \<Rightarrow> bool"
  assumes aw_weaken: "aw g s q K \<Longrightarrow> (\<And>g' s' r. K g' s' r \<Longrightarrow> K' g' s' r) \<Longrightarrow> aw g s q K'"
begin

lemma wp_weaken:
  "wp aw p Q E g s \<Longrightarrow> (\<And>x g s. Q x g s \<Longrightarrow> Q' x g s) \<Longrightarrow> (\<And>e g s. E e g s \<Longrightarrow> E' e g s)
   \<Longrightarrow> wp aw p Q' E' g s"
proof (induction p arbitrary: g s)
  case (Await q k)
  from Await.prems(1) have "aw g s q (\<lambda>g' s' r. wp aw (k r) Q E g' s')" by simp
  hence "aw g s q (\<lambda>g' s' r. wp aw (k r) Q' E' g' s')"
    by (rule aw_weaken) (rule Await.IH [OF _ _ Await.prems(2,3)], auto)
  thus ?case by simp
qed auto

text \<open>A loop by its invariant.\<close>

lemma wp_each_inv:
  assumes "I g s"
    and "\<And>x g s. x \<in> set xs \<Longrightarrow> I g s \<Longrightarrow> wp aw (f x) (\<lambda>_. I) E g s"
    and "\<And>g s. I g s \<Longrightarrow> Q () g s"
  shows "wp aw (co_each f xs) Q E g s"
  using assms
proof (induction xs arbitrary: g s)
  case (Cons x xs)
  have "wp aw (f x) (\<lambda>_. I) E g s" using Cons.prems by simp
  hence "wp aw (f x) (\<lambda>_. wp aw (co_each f xs) Q E) E g s"
    by (rule wp_weaken) (use Cons in auto)
  thus ?case by (simp add: co_simps)
qed simp

end

section \<open>Histories\<close>

text \<open>
  The transformer for properties of the history: each request is \<open>ok\<close> for what came before it, and any
  answer and any state may come back. The ghost value is the list of what was answered.
\<close>

definition hist_aw ::
  "(('q \<times> 'r) list \<Rightarrow> 's \<Rightarrow> 'q \<Rightarrow> bool) \<Rightarrow> ('q \<times> 'r) list \<Rightarrow> 's \<Rightarrow> 'q \<Rightarrow> (('q \<times> 'r) list \<Rightarrow> 's \<Rightarrow> 'r \<Rightarrow> bool) \<Rightarrow> bool" where
  "hist_aw ok g s q K = (ok g s q \<and> (\<forall>s' r. K (g @ [(q, r)]) s' r))"

lemma hist_awI: "ok g s q \<Longrightarrow> (\<And>s' r. K (g @ [(q, r)]) s' r) \<Longrightarrow> hist_aw ok g s q K"
  and hist_awD: "hist_aw ok g s q K \<Longrightarrow> ok g s q" "hist_aw ok g s q K \<Longrightarrow> K (g @ [(q, r)]) s' r"
  unfolding hist_aw_def by blast+

interpretation hist: await_logic "hist_aw ok" for ok
  by unfold_locales (auto simp: hist_aw_def)

definition answered :: "('q \<times> 's \<times> 'r option) list \<Rightarrow> ('q \<times> 'r) list" where
  "answered es = List.map_filter (\<lambda>(q, s, a). map_option (Pair q) a) es"

lemma answered_simps [simp]:
  "answered [] = []" "answered ((q, s, Some r) # es) = (q, r) # answered es" "answered ((q, s, None) # es) = answered es"
  by (simp_all add: answered_def List.map_filter_simps)

lemma hist_trace:
  assumes "wp (hist_aw ok) p Q E g s" "co_trace p s as = pre @ (q, t, a) # post"
  shows "ok (g @ answered pre) t q"
  using assms
proof (induction p arbitrary: g s as pre)
  case (Get f)
  show ?case by (rule Get.IH [OF rangeI]) (use Get.prems in simp_all)
next
  case (Put s' p)
  show ?case by (rule Put.IH) (use Put.prems in simp_all)
next
  case (Await q' k)
  have w: "ok g s q'" "wp (hist_aw ok) (k r) Q E (g @ [(q', r)]) s'" for s' r
    using hist_awD [OF Await.prems(1) [unfolded wp.simps]] by blast+
  show ?case
  proof (cases as)
    case Nil
    thus ?thesis using Await.prems(2) w(1) by (auto simp: Cons_eq_append_conv)
  next
    case (Cons x bs)
    obtain r f where x: "x = (r, f)" by (cases x)
    show ?thesis
    proof (cases pre)
      case Nil
      thus ?thesis using Await.prems(2) w(1) by (simp add: Cons x)
    next
      case (Cons e pre')
      hence e: "e = (q', s, Some r)" and t: "co_trace (k r) (f s) bs = pre' @ (q, t, a) # post"
        using Await.prems(2) \<open>as = x # bs\<close> by (simp_all add: x)
      from Await.IH [OF rangeI w(2) t] show ?thesis by (simp add: \<open>pre = e # pre'\<close> e)
    qed
  qed
qed auto

text \<open>A coroutine that makes only requests which are always \<open>ok\<close>.\<close>

lemma hist_within:
  assumes "co_within R p n" "\<And>g s q. R q \<Longrightarrow> ok g s q"
    and "\<And>x g s. Q x g s" "\<And>e g s. E e g s"
  shows "wp (hist_aw ok) p Q E g s"
  using assms(1)
proof (induction p arbitrary: g s n)
  case (Get f)
  show ?case unfolding wp.simps by (rule Get.IH [OF rangeI]) (use Get.prems in auto)
next
  case (Await q k)
  then obtain m where n: "n = Suc m" by (cases n) auto
  show ?case unfolding wp.simps
  proof (rule hist_awI)
    show "ok g s q" using assms(2) Await.prems by (simp add: n)
    show "wp (hist_aw ok) (k r) Q E (g @ [(q, r)]) s'" for s' r
      by (rule Await.IH [OF rangeI]) (use Await.prems in \<open>auto simp: n\<close>)
  qed
qed (auto simp: assms(3,4))

section \<open>Histories under a relation on the interference\<close>

text \<open>As before, but what other tasks do to the state during an await is related to it by \<open>R\<close>.\<close>

definition rely_aw ::
  "('s \<Rightarrow> 's \<Rightarrow> bool) \<Rightarrow> (('q \<times> 'r) list \<Rightarrow> 's \<Rightarrow> 'q \<Rightarrow> bool) \<Rightarrow> ('q \<times> 'r) list \<Rightarrow> 's \<Rightarrow> 'q
    \<Rightarrow> (('q \<times> 'r) list \<Rightarrow> 's \<Rightarrow> 'r \<Rightarrow> bool) \<Rightarrow> bool" where
  "rely_aw R ok g s q K = (ok g s q \<and> (\<forall>s' r. R s s' \<longrightarrow> K (g @ [(q, r)]) s' r))"

lemma rely_awI: "ok g s q \<Longrightarrow> (\<And>s' r. R s s' \<Longrightarrow> K (g @ [(q, r)]) s' r) \<Longrightarrow> rely_aw R ok g s q K"
  and rely_awD: "rely_aw R ok g s q K \<Longrightarrow> ok g s q" "rely_aw R ok g s q K \<Longrightarrow> R s s' \<Longrightarrow> K (g @ [(q, r)]) s' r"
  unfolding rely_aw_def by blast+

interpretation rely: await_logic "rely_aw R ok" for R ok
  by unfold_locales (auto simp: rely_aw_def)

definition interference_in :: "('s \<Rightarrow> 's \<Rightarrow> bool) \<Rightarrow> ('r \<times> ('s \<Rightarrow> 's)) list \<Rightarrow> bool" where
  "interference_in R as = (\<forall>(r, f) \<in> set as. \<forall>s. R s (f s))"

lemma interference_in_simps [simp]:
  "interference_in R []"
  "interference_in R ((r, f) # as) \<longleftrightarrow> (\<forall>s. R s (f s)) \<and> interference_in R as"
  by (auto simp: interference_in_def)

lemma rely_trace:
  assumes "wp (rely_aw R ok) p Q E g s" "co_trace p s as = pre @ (q, t, a) # post" "interference_in R as"
  shows "ok (g @ answered pre) t q"
  using assms
proof (induction p arbitrary: g s as pre)
  case (Get f)
  show ?case by (rule Get.IH [OF rangeI]) (use Get.prems in simp_all)
next
  case (Put s' p)
  show ?case by (rule Put.IH) (use Put.prems in simp_all)
next
  case (Await q' k)
  note w = rely_awD [OF Await.prems(1) [unfolded wp.simps]]
  show ?case
  proof (cases as)
    case Nil
    thus ?thesis using Await.prems(2) w(1) by (auto simp: Cons_eq_append_conv)
  next
    case (Cons x bs)
    obtain r f where x: "x = (r, f)" by (cases x)
    have R: "R s (f s)" "interference_in R bs" using Await.prems(3) by (simp_all add: Cons x)
    show ?thesis
    proof (cases pre)
      case Nil
      thus ?thesis using Await.prems(2) w(1) by (simp add: Cons x)
    next
      case (Cons e pre')
      hence e: "e = (q', s, Some r)" and t: "co_trace (k r) (f s) bs = pre' @ (q, t, a) # post"
        using Await.prems(2) \<open>as = x # bs\<close> by (simp_all add: x)
      from Await.IH [OF rangeI w(2) [OF R(1)] t R(2)] show ?thesis by (simp add: \<open>pre = e # pre'\<close> e)
    qed
  qed
qed auto


lemma rely_end:
  assumes "wp (rely_aw R ok) p Q E g s" "co_drive p s as = (qs, t, Some r)" "interference_in R as"
  shows "case r of Inr x \<Rightarrow> Q x (g @ answered (co_trace p s as)) t | Inl e \<Rightarrow> E e (g @ answered (co_trace p s as)) t"
  using assms
proof (induction p arbitrary: g s as qs)
  case (Get f)
  from Get.prems have "wp (rely_aw R ok) (f s) Q E g s" "co_drive (f s) s as = (qs, t, Some r)" by simp_all
  from Get.IH [OF rangeI this Get.prems(3)] show ?case by (cases r) simp_all
next
  case (Await q' k)
  note w = rely_awD [OF Await.prems(1) [unfolded wp.simps]]
  obtain a f bs where as: "as = (a, f) # bs" using Await.prems(2) by (cases as) auto
  obtain qs' where d: "co_drive (k a) (f s) bs = (qs', t, Some r)"
    using Await.prems(2) by (auto simp: as split: prod.splits)
  have R: "R s (f s)" "interference_in R bs" using Await.prems(3) by (simp_all add: as)
  from Await.IH [OF rangeI w(2) [OF R(1)] d R(2)] show ?case by (cases r) (simp_all add: as)
qed (cases r; auto)+

section \<open>Evaluating a run\<close>

text \<open>
  A continuation is only rewritten when it is reached: the congruence rules keep the simplifier out of
  the rest of a program.
\<close>

lemma lazy_congs:
  "q = q' \<Longrightarrow> Await q k = Await q' k" "Get f = Get f" "p = p' \<Longrightarrow> co_bind p bf = co_bind p' bf"
  "t = t' \<Longrightarrow> co_then t r = co_then t' r" "p = p' \<Longrightarrow> co_try p h = co_try p' h"
  "p = p' \<Longrightarrow> co_finally p ff = co_finally p' ff"
  "xs = xs' \<Longrightarrow> co_fold u xs x = co_fold u xs' x" "ys = ys' \<Longrightarrow> co_each v ys = co_each v ys'"
  by simp_all

lemmas co_unfolds = co_then_def co_try_def co_finally_def co_gets_def co_modify_def co_require_def co_when_def

end
