(* ===== verification/SmuDriver.thy ===== *)
theory SmuDriver
  imports SmuProtocol SourceOff Coroutines
begin

text \<open>
  The state of \<open>Keithley2604B\<close> (\<^verbatim>\<open>drivers/instruments/keithley_2604b.py\<close>) and the synchronous
  primitives of its authority over the outputs: command epochs, OFF operations, the start token, the
  evidence that an output is off, unsafe observations, the regulation arithmetic.

  A dictionary over the two SMU channels is a function on \<open>smu_channel\<close>. The configuration is fixed at
  construction; \<open>cf_nonce i\<close> is the \<open>i\<close>-th value that \<open>secrets.token_hex(16)\<close> delivers. The external
  simulator client of the mock mode is not modelled: there is none, and the functions that synchronise
  with it return at once.
\<close>

section \<open>Data\<close>

datatype wdog_mode = WdogOff | WdogBestEffort | WdogRequired

record k26_cfg =
  cf_mock :: bool
  cf_resource :: string
  cf_wdog_mode :: wdog_mode
  cf_wdog_timeout :: pyfloat
  cf_nonce :: "nat \<Rightarrow> string"

definition cf_wdog_enabled :: "k26_cfg \<Rightarrow> bool" where
  "cf_wdog_enabled cfg = (cf_wdog_mode cfg \<noteq> WdogOff)"

record k26 =
  k_connected :: bool
  k_recovery :: bool
  k_connecting :: bool
  k_disconnecting :: bool
  k_teardown :: bool
  k_can_settle :: bool
  k_identity :: string
  k_generation :: int
  k_epoch :: "smu_channel \<Rightarrow> int"
  k_start :: "smu_channel \<Rightarrow> int option"
  k_depth :: "smu_channel \<Rightarrow> nat"
  k_regulation :: "smu_channel \<Rightarrow> int option"
  k_verified :: "smu_channel \<Rightarrow> bool"
  k_vgeneration :: "smu_channel \<Rightarrow> int option"
  k_vepoch :: "smu_channel \<Rightarrow> int option"
  k_observations :: "smu_channel \<Rightarrow> unsafe_observation option"
  k_obs_sequence :: int
  k_runtime :: "smu_channel \<Rightarrow> source_runtime"
  k_last_v :: "smu_channel \<Rightarrow> pyfloat"
  k_compliance :: "smu_channel \<Rightarrow> nat"
  k_unsafe :: bool
  k_wdog_armed :: bool
  k_wdog_autonomous :: bool
  k_wdog_pending :: bool
  k_io_locked :: bool
  k_nonces :: nat

definition channel_runtime :: source_runtime where
  "channel_runtime = \<lparr> rt_active = False, rt_p_target = Fin 0, rt_v_comp = Fin 40, rt_i_comp = Fin 1 \<rparr>"

definition k26_init :: k26 where
  "k26_init =
     \<lparr> k_connected = False, k_recovery = False, k_connecting = False, k_disconnecting = False,
       k_teardown = False, k_can_settle = False, k_identity = [], k_generation = 0,
       k_epoch = (\<lambda>_. 0), k_start = (\<lambda>_. None), k_depth = (\<lambda>_. 0), k_regulation = (\<lambda>_. None),
       k_verified = (\<lambda>_. False), k_vgeneration = (\<lambda>_. None), k_vepoch = (\<lambda>_. None),
       k_observations = (\<lambda>_. None), k_obs_sequence = 0,
       k_runtime = (\<lambda>_. channel_runtime), k_last_v = (\<lambda>_. Fin 0), k_compliance = (\<lambda>_. 0),
       k_unsafe = True, k_wdog_armed = False, k_wdog_autonomous = False, k_wdog_pending = False,
       k_io_locked = False, k_nonces = 0 \<rparr>"

definition upd_runtime :: "smu_channel \<Rightarrow> (source_runtime \<Rightarrow> source_runtime) \<Rightarrow> k26 \<Rightarrow> k26" where
  "upd_runtime c f d = d\<lparr> k_runtime := (k_runtime d)(c := f (k_runtime d c)) \<rparr>"

section \<open>OFF evidence\<close>

definition transport_available :: "k26 \<Rightarrow> bool" where
  "transport_available d = (k_connected d \<or> k_connecting d \<or> k_recovery d)"

definition has_current_off_readback :: "k26 \<Rightarrow> smu_channel \<Rightarrow> bool" where
  "has_current_off_readback d c =
     (transport_available d \<and> k_verified d c \<and> k_vgeneration d c = Some (k_generation d)
      \<and> k_vepoch d c = Some (k_epoch d c))"

definition has_current_off_proof :: "k26 \<Rightarrow> smu_channel \<Rightarrow> bool" where
  "has_current_off_proof d c = (has_current_off_readback d c \<and> k_start d c = None \<and> k_depth d c = 0)"

definition all_off_proofs :: "k26 \<Rightarrow> bool" where
  "all_off_proofs d = list_all (has_current_off_proof d) SMU_CHANNELS"

definition refresh_output_uncertainty :: "k26 \<Rightarrow> k26" where
  "refresh_output_uncertainty d = d\<lparr> k_unsafe := \<not> all_off_proofs d \<rparr>"

definition invalidate_channel_off_evidence :: "smu_channel \<Rightarrow> bool \<Rightarrow> k26 \<Rightarrow> k26" where
  "invalidate_channel_off_evidence c advance_epoch d =
     d\<lparr> k_epoch := (if advance_epoch then (k_epoch d)(c := k_epoch d c + 1) else k_epoch d),
        k_regulation := (k_regulation d)(c := None),
        k_verified := (k_verified d)(c := False),
        k_vgeneration := (k_vgeneration d)(c := None),
        k_vepoch := (k_vepoch d)(c := None),
        k_observations := (k_observations d)(c := None),
        k_unsafe := True \<rparr>"

definition revoke_off_evidence :: "k26 \<Rightarrow> k26" where
  "revoke_off_evidence d =
     d\<lparr> k_verified := (\<lambda>_. False), k_vgeneration := (\<lambda>_. None), k_vepoch := (\<lambda>_. None),
        k_observations := (\<lambda>_. None), k_unsafe := True \<rparr>"

text \<open>The observation is committed exactly when the second component is \<open>True\<close>.\<close>

definition IDLE_QUERY :: string where "IDLE_QUERY = ''read_channels_idle_output_query''"

definition observation_refused :: "smu_channel \<Rightarrow> int \<Rightarrow> int \<Rightarrow> string \<Rightarrow> string \<Rightarrow> k26 \<Rightarrow> bool" where
  "observation_refused c generation epoch operation kind d =
     (operation \<noteq> IDLE_QUERY \<or> kind \<notin> {''output_on'', ''invalid_readback''}
      \<or> \<not> k_connected d \<or> k_connecting d \<or> k_disconnecting d \<or> generation \<noteq> k_generation d
      \<or> epoch \<noteq> k_epoch d c \<or> k_start d c \<noteq> None \<or> k_depth d c \<noteq> 0 \<or> rt_active (k_runtime d c))"

definition record_unsafe_output_observation ::
  "smu_channel \<Rightarrow> int \<Rightarrow> int \<Rightarrow> string \<Rightarrow> string \<Rightarrow> k26 \<Rightarrow> k26 \<times> bool" where
  "record_unsafe_output_observation c generation epoch operation kind d =
     (if observation_refused c generation epoch operation kind d then (d, False)
      else (let d = invalidate_channel_off_evidence c True d; n = k_obs_sequence d + 1
            in (d\<lparr> k_obs_sequence := n,
                   k_observations := (k_observations d)(c := Some
                     \<lparr> ob_channel = smu_name c,
                       ob_connection_generation = k_generation d, ob_command_epoch = k_epoch d c,
                       ob_operation = operation, ob_kind = kind, ob_sequence = n \<rparr>) \<rparr>, True)))"

section \<open>Owned operations\<close>

definition begin_off_one :: "smu_channel \<Rightarrow> k26 \<Rightarrow> k26" where
  "begin_off_one c d =
     invalidate_channel_off_evidence c False
       (d\<lparr> k_epoch := (k_epoch d)(c := k_epoch d c + 1), k_depth := (k_depth d)(c := k_depth d c + 1) \<rparr>)"

text \<open>The token of a channel of \<open>cs\<close> is its epoch in the state that this returns.\<close>

definition begin_off_operation :: "smu_channel list \<Rightarrow> k26 \<Rightarrow> k26" where
  "begin_off_operation cs d = fold begin_off_one cs d"

text \<open>Subtraction of natural numbers ends at 0, like \<open>max(0, depth - 1)\<close>.\<close>

definition finish_off_one :: "smu_channel \<Rightarrow> k26 \<Rightarrow> k26" where
  "finish_off_one c d = d\<lparr> k_depth := (k_depth d)(c := k_depth d c - 1) \<rparr>"

definition finish_off_operation :: "smu_channel list \<Rightarrow> k26 \<Rightarrow> k26" where
  "finish_off_operation cs d = refresh_output_uncertainty (fold finish_off_one cs d)"

text \<open>
  What an operation raises. A cancellation may carry the incomplete close that it interrupted, with
  whether the transport settled.
\<close>

datatype kexn =
    CancelledBy "bool option"
  | OSErr string
  | USBTMCIncompleteCloseError bool
  | PyErr py_exn
  | OutputStateUnverifiedError
  | TransportTeardownIncompleteError
  | FailedConnectCleanupError
  | WatchdogArmError
  | WatchdogTransportAuthorityError

abbreviation CancelledError :: kexn where "CancelledError \<equiv> CancelledBy None"
abbreviation runtime_error :: "string \<Rightarrow> kexn" where "runtime_error s \<equiv> PyErr (RuntimeError s)"
abbreviation value_error :: "string \<Rightarrow> kexn" where "value_error s \<equiv> PyErr (ValueError s)"

definition start_refusal :: "k26_cfg \<Rightarrow> smu_channel \<Rightarrow> k26 \<Rightarrow> kexn option" where
  "start_refusal cfg c d =
     (if k_connecting d \<or> k_disconnecting d then Some (runtime_error ''lifecycle transition blocks source start'')
      else if k_wdog_pending d then Some OutputStateUnverifiedError
      else if \<not> cf_mock cfg \<and> k_identity d = [] then Some OutputStateUnverifiedError
      else if k_start d c \<noteq> None then Some (runtime_error ''source start already in progress'')
      else if k_depth d c \<noteq> 0 then Some (runtime_error ''OFF operation is in progress'')
      else if \<not> has_current_off_proof d c then Some OutputStateUnverifiedError
      else None)"

text \<open>The token is the channel's epoch in the state that this returns.\<close>

definition begin_start_operation :: "smu_channel \<Rightarrow> k26 \<Rightarrow> k26" where
  "begin_start_operation c d =
     (let token = k_epoch d c + 1
      in invalidate_channel_off_evidence c False
           (d\<lparr> k_epoch := (k_epoch d)(c := token), k_start := (k_start d)(c := Some token) \<rparr>))"

definition start_operation_is_current :: "smu_channel \<Rightarrow> int \<Rightarrow> k26 \<Rightarrow> bool" where
  "start_operation_is_current c token d =
     (k_connected d \<and> \<not> k_wdog_pending d \<and> \<not> k_connecting d \<and> \<not> k_disconnecting d
      \<and> k_start d c = Some token \<and> k_epoch d c = token \<and> k_depth d c = 0)"

definition finish_start_operation :: "smu_channel \<Rightarrow> int \<Rightarrow> k26 \<Rightarrow> k26" where
  "finish_start_operation c token d =
     refresh_output_uncertainty
       (if k_start d c = Some token then d\<lparr> k_start := (k_start d)(c := None) \<rparr> else d)"

definition regulation_is_current :: "smu_channel \<Rightarrow> int \<Rightarrow> int \<Rightarrow> k26 \<Rightarrow> bool" where
  "regulation_is_current c generation epoch d =
     (k_connected d \<and> \<not> k_wdog_pending d \<and> \<not> k_connecting d \<and> \<not> k_disconnecting d
      \<and> generation = k_generation d \<and> epoch = k_epoch d c \<and> k_regulation d c = Some epoch
      \<and> k_start d c = None \<and> k_depth d c = 0 \<and> rt_active (k_runtime d c))"

definition mark_admitted :: "smu_channel \<Rightarrow> int option \<Rightarrow> int option \<Rightarrow> k26 \<Rightarrow> bool" where
  "mark_admitted c generation epoch d =
     ((case generation of None \<Rightarrow> True | Some g \<Rightarrow> transport_available d \<and> g = k_generation d)
      \<and> (case epoch of None \<Rightarrow> True | Some e \<Rightarrow> e = k_epoch d c))"

definition mark_commit :: "smu_channel \<Rightarrow> k26 \<Rightarrow> k26" where
  "mark_commit c d =
     (upd_runtime c (\<lambda>r. r\<lparr> rt_active := False, rt_p_target := Fin 0 \<rparr>) d)
       \<lparr> k_regulation := (k_regulation d)(c := None), k_last_v := (k_last_v d)(c := Fin 0),
         k_compliance := (k_compliance d)(c := 0), k_observations := (k_observations d)(c := None),
         k_verified := (k_verified d)(c := True),
         k_vgeneration := (k_vgeneration d)(c := Some (k_generation d)),
         k_vepoch := (k_vepoch d)(c := Some (k_epoch d c)) \<rparr>"

definition mark_channel_off_verified ::
  "smu_channel \<Rightarrow> int option \<Rightarrow> int option \<Rightarrow> k26 \<Rightarrow> k26 \<times> bool" where
  "mark_channel_off_verified c generation epoch d =
     (if \<not> mark_admitted c generation epoch d then (d, False)
      else (refresh_output_uncertainty (mark_commit c d), True))"

text \<open>A transport loss keeps the handle for OFF recovery only.\<close>

definition enter_recovery :: "k26_cfg \<Rightarrow> k26 \<Rightarrow> k26" where
  "enter_recovery cfg d =
     (if cf_mock cfg \<or> \<not> k_connected d then d
      else revoke_off_evidence
             (d\<lparr> k_connected := False, k_recovery := True, k_identity := [], k_wdog_armed := False,
                 k_wdog_autonomous := False \<rparr>))"

section \<open>What others read\<close>

definition output_state_unverified :: "k26_cfg \<Rightarrow> k26 \<Rightarrow> bool" where
  "output_state_unverified cfg d =
     (if \<not> cf_mock cfg \<and> \<not> (k_connected d \<or> k_recovery d) then True else k_unsafe d)"

definition observation_current :: "k26 \<Rightarrow> smu_channel \<Rightarrow> unsafe_observation \<Rightarrow> bool" where
  "observation_current d c ob =
     (ob_channel ob = smu_name c \<and> ob_connection_generation ob = k_generation d
      \<and> ob_command_epoch ob = k_epoch d c \<and> ob_operation ob = IDLE_QUERY
      \<and> ob_kind ob \<in> {''output_on'', ''invalid_readback''}
      \<and> k_start d c = None \<and> k_depth d c = 0 \<and> \<not> rt_active (k_runtime d c))"

definition unsafe_output_observations :: "k26 \<Rightarrow> unsafe_observation list" where
  "unsafe_output_observations d =
     (if \<not> k_connected d \<or> k_connecting d \<or> k_disconnecting d then []
      else List.map_filter
             (\<lambda>c. case k_observations d c of
                    None \<Rightarrow> None
                  | Some ob \<Rightarrow> if observation_current d c ob then Some ob else None) SMU_CHANNELS)"

definition any_active :: "k26 \<Rightarrow> bool" where
  "any_active d = list_ex (\<lambda>c. rt_active (k_runtime d c)) SMU_CHANNELS"

definition active_channels :: "k26 \<Rightarrow> smu_channel list" where
  "active_channels d = filter (\<lambda>c. rt_active (k_runtime d c)) SMU_CHANNELS"

definition COMPLIANCE_NOTIFY_THRESHOLD :: nat where "COMPLIANCE_NOTIFY_THRESHOLD = 10"

definition compliance_persistent :: "smu_channel \<Rightarrow> k26 \<Rightarrow> bool" where
  "compliance_persistent c d = (COMPLIANCE_NOTIFY_THRESHOLD \<le> k_compliance d c)"

section \<open>Constant power regulation\<close>

definition I_MIN_A :: real where "I_MIN_A = 1 / 10 ^ 7"
definition MAX_DELTA_V_PER_STEP :: real where "MAX_DELTA_V_PER_STEP = 1 / 2"

text \<open>\<open>math.sqrt\<close>, and \<open>min\<close> and \<open>max\<close> of two floats, which keep their first argument in doubt.\<close>

fun fl_sqrt :: "pyfloat \<Rightarrow> pyfloat" where
  "fl_sqrt (Fin a) = (if a < 0 then NaN else Fin (sqrt a))"
| "fl_sqrt PosInf = PosInf"
| "fl_sqrt _ = NaN"

definition py_min :: "pyfloat \<Rightarrow> pyfloat \<Rightarrow> pyfloat" where "py_min a b = (if fl_less b a then b else a)"
definition py_max :: "pyfloat \<Rightarrow> pyfloat \<Rightarrow> pyfloat" where "py_max a b = (if fl_less a b then b else a)"

definition clamped_target :: "pyfloat \<Rightarrow> pyfloat \<Rightarrow> pyfloat \<Rightarrow> pyfloat" where
  "clamped_target p_target resistance v_comp =
     py_max (Fin 0) (py_min (fl_sqrt (fl_mul p_target resistance)) v_comp)"

definition slew_limited :: "pyfloat \<Rightarrow> pyfloat \<Rightarrow> pyfloat" where
  "slew_limited current_v target_v =
     (let delta_v = fl_sub target_v current_v
      in if fl_less (Fin MAX_DELTA_V_PER_STEP) (fl_abs delta_v)
         then fl_add current_v (Fin (if fl_less (Fin 0) delta_v then MAX_DELTA_V_PER_STEP else - MAX_DELTA_V_PER_STEP))
         else target_v)"

text \<open>The level to write, or none when the current is noise or the resistance is not positive.\<close>

definition regulation_target :: "source_runtime \<Rightarrow> pyfloat \<Rightarrow> pyfloat \<Rightarrow> pyfloat \<Rightarrow> pyfloat option" where
  "regulation_target r current_v voltage current =
     (if fl_less (Fin I_MIN_A) (fl_abs current) then
        (case fl_div voltage current of
           Inr resistance \<Rightarrow>
             if fl_less (Fin 0) resistance
             then Some (slew_limited current_v (clamped_target (rt_p_target r) resistance (rt_v_comp r)))
             else None
         | Inl _ \<Rightarrow> None)
      else None)"

end
