(* ===== verification/SmuOps.thy ===== *)
theory SmuOps
  imports SmuDriver
begin

text \<open>
  The operations of the Keithley driver as coroutines (\<^verbatim>\<open>drivers/instruments/keithley_2604b.py\<close>).
  A command of the instrument is a value of \<open>tsp\<close>, one constructor for each text the source formats. A
  request is a command for the transport, the wait for the ordinary I/O lock, a point where another task
  is scheduled, or the loading of the watchdog script in a thread. An answer is a text or an exception;
  the exception may be the cancellation of the task.

  The child task of an owned OFF sequence is part of its caller here: the scheduling points before and
  after it stand for its start and for the wake-up of the caller, and a cancellation delivered there for
  every cancellation of the caller while the child runs.
\<close>

section \<open>Requests\<close>

datatype tsp =
    Reset smu_channel | FuncDcVolts smu_channel | AutorangeV smu_channel | AutorangeI smu_channel
  | LimitV smu_channel pyfloat | LimitI smu_channel pyfloat | LevelV smu_channel pyfloat
  | OutputOn smu_channel | OutputOff smu_channel | ErrorClear
  | WdogScript | WdogTimeout pyfloat | WdogRun | WdogDisarm | WdogPet | WdogAcknowledge
  | IdnQ | OutputQ smu_channel | ChallengeQ smu_channel string | MeasureIvQ smu_channel
  | ComplianceQ smu_channel | LevelVQ smu_channel | LimitVQ smu_channel | LimitIQ smu_channel
  | ErrorCountQ | ErrorNextQ | BufferQ int int
  | WdogTrippedQ | WdogVersionQ | WdogAutonomousQ | WdogActiveQ

datatype request = Write tsp | Query tsp | OpenTransport | CloseTransport | AcquireIo | Tick | LoadScript
datatype answer = Answer string | Fail kexn

type_synonym 'a smu_op = "(k26, request, answer, kexn, 'a) co"

definition aw_unit :: "request \<Rightarrow> unit smu_op" where
  "aw_unit q = Await q (\<lambda>a. case a of Answer _ \<Rightarrow> Ret () | Fail e \<Rightarrow> Raise e)"

definition transport_write :: "tsp \<Rightarrow> unit smu_op" where "transport_write cmd = aw_unit (Write cmd)"
definition transport_open :: "unit smu_op" where "transport_open = aw_unit OpenTransport"
definition transport_close :: "unit smu_op" where "transport_close = aw_unit CloseTransport"

definition transport_query :: "tsp \<Rightarrow> string smu_op" where
  "transport_query cmd = Await (Query cmd) (\<lambda>a. case a of Answer s \<Rightarrow> Ret s | Fail e \<Rightarrow> Raise e)"

text \<open>A scheduling point: whether the caller was cancelled there.\<close>

definition tick :: "bool smu_op" where
  "tick = Await Tick (\<lambda>a. case a of Answer _ \<Rightarrow> Ret False | Fail _ \<Rightarrow> Ret True)"

definition lift_result :: "'a result \<Rightarrow> 'a smu_op" where
  "lift_result r = (case r of Inl e \<Rightarrow> Raise (PyErr e) | Inr x \<Rightarrow> Ret x)"

definition is_cancel :: "kexn \<Rightarrow> bool" where "is_cancel e = (case e of CancelledBy _ \<Rightarrow> True | _ \<Rightarrow> False)"

section \<open>Ordinary traffic\<close>

definition raise_if_operationally_barred :: "unit smu_op" where
  "raise_if_operationally_barred =
     Get (\<lambda>d. if k_teardown d then Raise TransportTeardownIncompleteError
              else if k_recovery d then Raise (runtime_error ''blocked on recovery-only transport'')
              else Ret ())"

definition identity_exact :: "k26_cfg \<Rightarrow> string \<Rightarrow> bool" where
  "identity_exact cfg identity =
     (case parse_configured_keithley_serial (cf_resource cfg) of
        Inl _ \<Rightarrow> False
      | Inr serial \<Rightarrow> (case parse_keithley_idn identity False (Some serial) of Inl _ \<Rightarrow> False | Inr _ \<Rightarrow> True))"

definition require_operational_connection :: "k26_cfg \<Rightarrow> unit smu_op" where
  "require_operational_connection cfg =
     co_then raise_if_operationally_barred
       (Get (\<lambda>d. if k_connecting d \<or> k_disconnecting d then Raise (runtime_error ''lifecycle transition'')
                 else if \<not> k_connected d then Raise (runtime_error ''instrument not connected'')
                 else if \<not> cf_mock cfg \<and> \<not> identity_exact cfg (k_identity d)
                 then co_then (co_modify (enter_recovery cfg)) (Raise OutputStateUnverifiedError)
                 else Ret ()))"

text \<open>\<open>async with self._ordinary_io_lock\<close>.\<close>

definition with_io_lock :: "'a smu_op \<Rightarrow> 'a smu_op" where
  "with_io_lock p =
     co_then (aw_unit AcquireIo)
       (co_then (co_modify (\<lambda>d. d\<lparr> k_io_locked := True \<rparr>))
          (co_finally p (co_modify (\<lambda>d. d\<lparr> k_io_locked := False \<rparr>))))"

definition demote :: "k26_cfg \<Rightarrow> kexn \<Rightarrow> 'a smu_op" where
  "demote cfg e = co_then (co_modify (enter_recovery cfg)) (Raise e)"

definition operational_query :: "k26_cfg \<Rightarrow> tsp \<Rightarrow> string smu_op" where
  "operational_query cfg cmd =
     with_io_lock (co_then (require_operational_connection cfg) (co_try (transport_query cmd) (demote cfg)))"

definition operational_write :: "k26_cfg \<Rightarrow> tsp \<Rightarrow> unit smu_op \<Rightarrow> unit smu_op" where
  "operational_write cfg cmd authority_check =
     with_io_lock
       (co_then (require_operational_connection cfg)
          (co_then authority_check (co_try (transport_write cmd) (demote cfg))))"

definition require_current_start :: "smu_channel \<Rightarrow> int \<Rightarrow> unit smu_op" where
  "require_current_start c token =
     co_require (start_operation_is_current c token) (runtime_error ''source start was superseded'')"

definition require_current_regulation :: "smu_channel \<Rightarrow> int \<Rightarrow> int \<Rightarrow> unit smu_op" where
  "require_current_regulation c generation epoch =
     co_require (regulation_is_current c generation epoch) (runtime_error ''regulation was superseded'')"

section \<open>OFF\<close>

text \<open>The caught exceptions: an ordinary one is logged, any other is deferred.\<close>

definition defer_exn :: "kexn \<Rightarrow> kexn option \<Rightarrow> kexn option" where
  "defer_exn e deferred = (if is_cancel e \<and> deferred = None then Some e else deferred)"

definition off_command ::
  "k26_cfg \<Rightarrow> tsp \<Rightarrow> smu_channel \<Rightarrow> (smu_channel \<Rightarrow> bool) \<times> kexn option
    \<Rightarrow> ((smu_channel \<Rightarrow> bool) \<times> kexn option) smu_op" where
  "off_command cfg cmd c acc =
     co_bind (co_attempt (transport_write cmd)) (\<lambda>r.
       case r of
         Inr _ \<Rightarrow> Ret acc
       | Inl e \<Rightarrow> co_then (co_modify (enter_recovery cfg)) (Ret ((fst acc)(c := True), defer_exn e (snd acc))))"

definition off_commands ::
  "k26_cfg \<Rightarrow> smu_channel \<Rightarrow> (smu_channel \<Rightarrow> bool) \<times> kexn option
    \<Rightarrow> ((smu_channel \<Rightarrow> bool) \<times> kexn option) smu_op" where
  "off_commands cfg c acc =
     co_bind (off_command cfg (LevelV c (Fin 0)) c acc) (off_command cfg (OutputOff c) c)"

definition draw_nonce :: "k26_cfg \<Rightarrow> string smu_op" where
  "draw_nonce cfg = Get (\<lambda>d. Put (d\<lparr> k_nonces := k_nonces d + 1 \<rparr>) (Ret (cf_nonce cfg (k_nonces d))))"

definition verify_output_off :: "k26_cfg \<Rightarrow> smu_channel \<Rightarrow> bool smu_op" where
  "verify_output_off cfg c =
     (if cf_mock cfg then Ret True
      else Get (\<lambda>d.
        if \<not> transport_available d then Ret False
        else co_bind (draw_nonce cfg) (\<lambda>nonce.
             co_bind (transport_query (ChallengeQ c nonce)) (\<lambda>response.
               case parse_output_off_challenge response nonce of Inl _ \<Rightarrow> Ret False | Inr off \<Rightarrow> Ret off))))"

definition co_mark :: "smu_channel \<Rightarrow> int option \<Rightarrow> int option \<Rightarrow> bool smu_op" where
  "co_mark c generation epoch =
     Get (\<lambda>d. let (d', committed) = mark_channel_off_verified c generation epoch d in Put d' (Ret committed))"

definition settle_readback ::
  "k26_cfg \<Rightarrow> (smu_channel \<Rightarrow> int) \<Rightarrow> int \<Rightarrow> smu_channel \<Rightarrow> bool \<Rightarrow> bool \<Rightarrow> bool smu_op" where
  "settle_readback cfg tokens generation c confirmed all_confirmed =
     (if confirmed
      then co_bind (co_mark c (Some generation) (Some (tokens c))) (\<lambda>committed. Ret (committed \<and> all_confirmed))
      else co_then
             (co_modify (\<lambda>d. if tokens c = k_epoch d c then invalidate_channel_off_evidence c False d else d))
             (Ret False))"

definition off_readback ::
  "k26_cfg \<Rightarrow> (smu_channel \<Rightarrow> int) \<Rightarrow> int \<Rightarrow> (smu_channel \<Rightarrow> bool) \<Rightarrow> smu_channel \<Rightarrow> bool \<times> kexn option
    \<Rightarrow> (bool \<times> kexn option) smu_op" where
  "off_readback cfg tokens generation failed c acc =
     co_bind (co_attempt (verify_output_off cfg c)) (\<lambda>r.
     co_bind (case r of
                Inr confirmed \<Rightarrow> Ret (confirmed, snd acc)
              | Inl e \<Rightarrow> co_then (co_modify (enter_recovery cfg)) (Ret (False, defer_exn e (snd acc))))
       (\<lambda>(confirmed, deferred).
          co_bind (settle_readback cfg tokens generation c (confirmed \<and> \<not> failed c) (fst acc))
            (\<lambda>all_confirmed. Ret (all_confirmed, deferred))))"

definition attempt_output_off_sequence ::
  "k26_cfg \<Rightarrow> smu_channel list \<Rightarrow> (smu_channel \<Rightarrow> int) \<Rightarrow> int \<Rightarrow> bool smu_op" where
  "attempt_output_off_sequence cfg cs tokens generation =
     (if cf_mock cfg then
        co_fold (\<lambda>c all_confirmed.
          co_bind (co_mark c (Some generation) (Some (tokens c))) (\<lambda>committed. Ret (committed \<and> all_confirmed)))
          cs True
      else
        co_bind (co_fold (off_commands cfg) cs ((\<lambda>_. False), None)) (\<lambda>(failed, deferred).
        co_bind (co_fold (off_readback cfg tokens generation failed) cs (True, deferred)) (\<lambda>(ok, deferred).
          case deferred of Some e \<Rightarrow> Raise e | None \<Rightarrow> Ret ok)))"

text \<open>The result and whether the caller was cancelled meanwhile.\<close>

definition attempt_owned_off :: "k26_cfg \<Rightarrow> smu_channel list \<Rightarrow> (bool \<times> bool) smu_op" where
  "attempt_owned_off cfg cs =
     co_then (co_modify (begin_off_operation cs))
       (Get (\<lambda>d.
          co_bind tick (\<lambda>c1.
          co_bind (co_attempt (attempt_output_off_sequence cfg cs (k_epoch d) (k_generation d))) (\<lambda>r.
          co_bind tick (\<lambda>c2.
          co_then (co_modify (finish_off_operation cs))
            (case r of Inl e \<Rightarrow> Raise e | Inr ok \<Rightarrow> Ret (ok, c1 \<or> c2)))))))"

text \<open>The mock driver without a connection: the OFF evidence is committed without a readback.\<close>

definition mock_disconnected_off :: "smu_channel list \<Rightarrow> unit smu_op" where
  "mock_disconnected_off cs =
     co_modify (\<lambda>d.
       let d' = begin_off_operation cs d
       in finish_off_operation cs
            (fold (\<lambda>c s. fst (mark_channel_off_verified c None (Some (k_epoch d' c)) s)) cs d'))"

definition stop_source :: "k26_cfg \<Rightarrow> string option \<Rightarrow> unit smu_op" where
  "stop_source cfg channel =
     co_bind (lift_result (normalize_smu_channel channel)) (\<lambda>c.
     co_then raise_if_operationally_barred
       (Get (\<lambda>d.
          if \<not> k_connected d then
            (if cf_mock cfg then mock_disconnected_off [c]
             else co_then (co_modify (\<lambda>d. d\<lparr> k_unsafe := True \<rparr>)) (Raise OutputStateUnverifiedError))
          else
            co_then (require_operational_connection cfg)
              (co_bind (attempt_owned_off cfg [c]) (\<lambda>(off_confirmed, cancelled).
                 if cancelled then Raise CancelledError
                 else if \<not> off_confirmed then Raise OutputStateUnverifiedError
                 else Ret ())))))"

definition target_channels :: "string option \<Rightarrow> smu_channel list result" where
  "target_channels channel =
     (case channel of
        None \<Rightarrow> Inr SMU_CHANNELS
      | Some ch \<Rightarrow> res_bind (normalize_smu_channel (Some ch)) (\<lambda>c. Inr [c]))"

definition emergency_off :: "k26_cfg \<Rightarrow> string option \<Rightarrow> source_off_result smu_op" where
  "emergency_off cfg channel =
     Get (\<lambda>d. if k_teardown d then Raise TransportTeardownIncompleteError
              else co_bind (lift_result (target_channels channel)) (\<lambda>cs.
                if \<not> (k_connected d \<or> k_recovery d) then
                  (if \<not> cf_mock cfg
                   then co_then (co_modify (\<lambda>d. d\<lparr> k_unsafe := True \<rparr>)) (Ret PHYSICAL_STATE_UNKNOWN)
                   else co_then (mock_disconnected_off cs) (Ret DEVICE_REPORTED_OFF))
                else
                  co_bind (attempt_owned_off cfg cs) (\<lambda>(off_confirmed, cancelled).
                    if cancelled then Raise CancelledError
                    else Ret (if off_confirmed then DEVICE_REPORTED_OFF else PHYSICAL_STATE_UNKNOWN))))"

end
