(* ===== verification/SmuSource.thy ===== *)
theory SmuSource
  imports SmuOps
begin

text \<open>
  Switching a source on, changing its limits and its target, and the acquisition with the constant power
  regulation (\<^verbatim>\<open>drivers/instruments/keithley_2604b.py\<close>).
\<close>

section \<open>Start\<close>

datatype command_evidence = REQUESTED | DEVICE_ACKNOWLEDGED

definition write_owned :: "k26_cfg \<Rightarrow> smu_channel \<Rightarrow> int \<Rightarrow> tsp \<Rightarrow> unit smu_op" where
  "write_owned cfg c token cmd =
     co_then (require_current_start c token)
       (co_then (operational_write cfg cmd (require_current_start c token))
          (require_current_start c token))"

definition start_commands :: "smu_channel \<Rightarrow> pyfloat \<Rightarrow> pyfloat \<Rightarrow> tsp list" where
  "start_commands c v_compliance i_compliance =
     [Reset c, FuncDcVolts c, AutorangeV c, AutorangeI c, LimitV c v_compliance, LimitI c i_compliance,
      LevelV c (Fin 0)]"

text \<open>The part of the \<open>try\<close> block before \<open>output_on_attempted\<close> is set, and the part after it.\<close>

definition start_prepare :: "k26_cfg \<Rightarrow> smu_channel \<Rightarrow> int \<Rightarrow> pyfloat \<Rightarrow> pyfloat \<Rightarrow> unit smu_op" where
  "start_prepare cfg c token v_compliance i_compliance =
     (if cf_mock cfg then
        co_then (co_modify (\<lambda>d. (upd_runtime c (\<lambda>r. r\<lparr> rt_active := True \<rparr>) d)
                                  \<lparr> k_regulation := (k_regulation d)(c := Some token) \<rparr>))
          (require_current_start c token)
      else
        co_then (co_each (write_owned cfg c token) (start_commands c v_compliance i_compliance))
          (require_current_start c token))"

definition start_output :: "k26_cfg \<Rightarrow> smu_channel \<Rightarrow> int \<Rightarrow> command_evidence smu_op" where
  "start_output cfg c token =
     (if cf_mock cfg then Ret REQUESTED
      else
        co_then (co_modify (upd_runtime c (\<lambda>r. r\<lparr> rt_active := True \<rparr>)))
        (co_then (operational_write cfg (OutputOn c) (require_current_start c token))
        (co_then (require_current_start c token)
        (co_bind (operational_query cfg (OutputQ c)) (\<lambda>raw.
         co_bind (lift_result (parse_output_enabled raw)) (\<lambda>output_on.
         co_then (require_current_start c token)
        (if \<not> output_on then Raise (runtime_error ''OUTPUT_ON readback did not confirm ON'')
         else co_then (co_modify (\<lambda>d. d\<lparr> k_last_v := (k_last_v d)(c := Fin 0),
                                          k_compliance := (k_compliance d)(c := 0),
                                          k_regulation := (k_regulation d)(c := Some token) \<rparr>))
                (Ret DEVICE_ACKNOWLEDGED))))))))"

text \<open>The handler of every failure of a start; it always raises.\<close>

definition failed_start_uncertain :: "smu_channel \<Rightarrow> bool \<Rightarrow> k26 \<Rightarrow> k26" where
  "failed_start_uncertain c output_on_attempted d =
     (upd_runtime c (\<lambda>r. r\<lparr> rt_active := output_on_attempted,
                             rt_p_target := (if output_on_attempted then rt_p_target r else Fin 0) \<rparr>) d)
       \<lparr> k_regulation := (k_regulation d)(c := None), k_unsafe := True \<rparr>"

definition failed_start :: "k26_cfg \<Rightarrow> smu_channel \<Rightarrow> bool \<Rightarrow> kexn \<Rightarrow> 'a smu_op" where
  "failed_start cfg c output_on_attempted original_error =
     co_bind (co_attempt (attempt_owned_off cfg [c])) (\<lambda>r.
     co_bind (case r of
                Inr x \<Rightarrow> Ret x
              | Inl _ \<Rightarrow> co_gets (\<lambda>d. (has_current_off_readback d c, False))) (\<lambda>(exact, cancelled).
     co_then (co_when (\<not> exact) (co_modify (failed_start_uncertain c output_on_attempted)))
       (Raise (if \<not> is_cancel original_error \<and> cancelled then CancelledError else original_error))))"

definition start_arguments :: "pyfloat \<Rightarrow> pyfloat \<Rightarrow> pyfloat \<Rightarrow> kexn option" where
  "start_arguments p v i =
     (if \<not> (fl_isfinite p \<and> fl_isfinite v \<and> fl_isfinite i) then Some (value_error ''P/V/I must be finite'')
      else if fl_le p (Fin 0) \<or> fl_le v (Fin 0) \<or> fl_le i (Fin 0) then Some (value_error ''P/V/I must be > 0'')
      else None)"

definition start_claim :: "smu_channel \<Rightarrow> pyfloat \<Rightarrow> pyfloat \<Rightarrow> pyfloat \<Rightarrow> k26 \<Rightarrow> k26" where
  "start_claim c p v i d =
     (let d1 = begin_start_operation c d
      in (upd_runtime c (\<lambda>r. r\<lparr> rt_p_target := p, rt_v_comp := v, rt_i_comp := i \<rparr>) d1)
           \<lparr> k_regulation := (k_regulation d1)(c := None) \<rparr>)"

definition start_source ::
  "k26_cfg \<Rightarrow> string option \<Rightarrow> pyfloat \<Rightarrow> pyfloat \<Rightarrow> pyfloat \<Rightarrow> command_evidence smu_op" where
  "start_source cfg channel p v i =
     co_bind (lift_result (normalize_smu_channel channel)) (\<lambda>c.
     co_then (require_operational_connection cfg)
       (case start_arguments p v i of
          Some e \<Rightarrow> Raise e
        | None \<Rightarrow> Get (\<lambda>d.
            if rt_active (k_runtime d c) then Raise (runtime_error ''channel already active'')
            else (case start_refusal cfg c d of
              Some e \<Rightarrow> Raise e
            | None \<Rightarrow>
                (let d' = start_claim c p v i d; token = k_epoch d' c
                 in Put d'
                      (co_finally
                         (co_bind (co_attempt (start_prepare cfg c token v i)) (\<lambda>r.
                            case r of
                              Inl e \<Rightarrow> failed_start cfg c False e
                            | Inr _ \<Rightarrow> co_try (start_output cfg c token) (failed_start cfg c True)))
                         (co_modify (finish_start_operation c token))))))))"

section \<open>Limits and target\<close>

definition readback_matches :: "string \<Rightarrow> pyfloat \<Rightarrow> kexn option" where
  "readback_matches raw value =
     (case parse_finite_readback raw of
        Inl e \<Rightarrow> Some (PyErr e)
      | Inr applied \<Rightarrow> if fl_eq applied value then None else Some (runtime_error ''readback does not match''))"

definition program_limit :: "k26_cfg \<Rightarrow> tsp \<Rightarrow> tsp \<Rightarrow> pyfloat \<Rightarrow> unit smu_op \<Rightarrow> unit smu_op" where
  "program_limit cfg write query value authority =
     (if cf_mock cfg then Ret ()
      else co_then (operational_write cfg write authority)
             (co_bind (operational_query cfg query) (\<lambda>raw.
                case readback_matches raw value of Some e \<Rightarrow> Raise e | None \<Rightarrow> Ret ())))"

definition update_source_limit ::
  "k26_cfg \<Rightarrow> string option \<Rightarrow> pyfloat option \<Rightarrow> pyfloat option \<Rightarrow> pyfloat smu_op" where
  "update_source_limit cfg channel v_comp i_comp =
     co_bind (lift_result (normalize_smu_channel channel)) (\<lambda>c.
       if (v_comp = None) = (i_comp = None) then Raise (value_error ''exactly one of v_comp or i_comp is required'')
       else
         (let is_v = (v_comp \<noteq> None); value = (case v_comp of Some v \<Rightarrow> v | None \<Rightarrow> the i_comp)
          in if \<not> fl_isfinite value \<or> fl_le value (Fin 0)
             then Raise (value_error ''source compliance limit must be finite and > 0'')
             else
               co_then (require_operational_connection cfg)
                 (Get (\<lambda>d.
                    if \<not> rt_active (k_runtime d c) then Raise (runtime_error ''source is not active'')
                    else
                      (let authority = require_current_regulation c (k_generation d) (k_epoch d c)
                       in co_then authority
                         (co_then
                            (if is_v then program_limit cfg (LimitV c value) (LimitVQ c) value authority
                             else program_limit cfg (LimitI c value) (LimitIQ c) value authority)
                         (co_then authority
                         (co_then
                            (co_modify (upd_runtime c (\<lambda>r. if is_v then r\<lparr> rt_v_comp := value \<rparr> else r\<lparr> rt_i_comp := value \<rparr>)))
                            (Ret value)))))))))"

definition update_source_limits ::
  "k26_cfg \<Rightarrow> string option \<Rightarrow> pyfloat option \<Rightarrow> pyfloat option \<Rightarrow> unit smu_op" where
  "update_source_limits cfg channel v_compliance i_compliance =
     (if v_compliance = None \<and> i_compliance = None
      then Raise (value_error ''at least one source compliance limit is required'')
      else
        co_then
          (if v_compliance = None then Ret ()
           else co_bind (update_source_limit cfg channel v_compliance None) (\<lambda>_. Ret ()))
          (if i_compliance = None then Ret ()
           else co_bind (update_source_limit cfg channel None i_compliance) (\<lambda>_. Ret ())))"

definition update_source_target :: "k26_cfg \<Rightarrow> string option \<Rightarrow> pyfloat \<Rightarrow> unit smu_op" where
  "update_source_target cfg channel p_target =
     co_bind (lift_result (normalize_smu_channel channel)) (\<lambda>c.
       if \<not> fl_isfinite p_target \<or> fl_le p_target (Fin 0)
       then Raise (value_error ''source target must be finite and > 0'')
       else
         co_then (require_operational_connection cfg)
           (Get (\<lambda>d.
              if \<not> rt_active (k_runtime d c) then Raise (runtime_error ''source is not active'')
              else
                (let authority = require_current_regulation c (k_generation d) (k_epoch d c)
                 in co_then authority
                   (co_then (co_modify (upd_runtime c (\<lambda>r. r\<lparr> rt_p_target := p_target \<rparr>))) authority)))))"

section \<open>Acquisition\<close>

text \<open>A reading of the driver; its metadata is reduced to the compliance mark.\<close>

record smu_reading =
  sr_channel :: smu_channel
  sr_field :: string
  sr_unit :: string
  sr_value :: pyfloat
  sr_status :: channel_status
  sr_compliance :: bool

definition IV_FIELDS :: "(string \<times> string) list" where
  "IV_FIELDS = [(''voltage'', ''V''), (''current'', ''A''), (''resistance'', ''Ohm''), (''power'', ''W'')]"

definition iv_value :: "string \<Rightarrow> pyfloat \<Rightarrow> pyfloat \<Rightarrow> pyfloat \<Rightarrow> pyfloat" where
  "iv_value f voltage current resistance =
     (if f = ''voltage'' then voltage else if f = ''current'' then current
      else if f = ''resistance'' then resistance else fl_mul voltage current)"

definition build_channel_readings ::
  "smu_channel \<Rightarrow> pyfloat \<Rightarrow> pyfloat \<Rightarrow> pyfloat option \<Rightarrow> bool \<Rightarrow> smu_reading list" where
  "build_channel_readings c voltage current resistance_override compliance =
     (let resistance = (case resistance_override of Some r \<Rightarrow> r | None \<Rightarrow> quotient_or_nan voltage current)
      in map (\<lambda>(f, u). let value = iv_value f voltage current resistance
                       in \<lparr> sr_channel = c, sr_field = f, sr_unit = u,
                            sr_value = (if fl_isfinite value then value else NaN),
                            sr_status = (if fl_isfinite value then OK else SENSOR_ERROR),
                            sr_compliance = compliance \<rparr>) IV_FIELDS)"

definition error_readings_for_channel :: "smu_channel \<Rightarrow> smu_reading list" where
  "error_readings_for_channel c =
     map (\<lambda>(f, u). \<lparr> sr_channel = c, sr_field = f, sr_unit = u, sr_value = NaN, sr_status = SENSOR_ERROR,
                     sr_compliance = False \<rparr>) IV_FIELDS"

definition co_record :: "smu_channel \<Rightarrow> int \<Rightarrow> int \<Rightarrow> string \<Rightarrow> bool smu_op" where
  "co_record c generation epoch kind =
     Get (\<lambda>d. let (d', committed) = record_unsafe_output_observation c generation epoch IDLE_QUERY kind d
              in Put d' (Ret committed))"

text \<open>A channel that is not driven: look at its output state, and measure it only if it is on.\<close>

definition read_idle_channel :: "k26_cfg \<Rightarrow> smu_channel \<Rightarrow> smu_reading list smu_op" where
  "read_idle_channel cfg c =
     Get (\<lambda>d. let generation = k_generation d; epoch = k_epoch d c
       in co_bind (operational_query cfg (OutputQ c)) (\<lambda>output_raw.
            case parse_output_enabled output_raw of
              Inl _ \<Rightarrow> co_bind (co_record c generation epoch ''invalid_readback'')
                        (\<lambda>_. Ret (error_readings_for_channel c))
            | Inr False \<Rightarrow> Ret (build_channel_readings c (Fin 0) (Fin 0) (Some (Fin 0)) False)
            | Inr True \<Rightarrow>
                co_bind (co_record c generation epoch ''output_on'') (\<lambda>committed.
                  if \<not> committed then Ret (error_readings_for_channel c)
                  else co_bind (operational_query cfg (MeasureIvQ c)) (\<lambda>raw.
                       co_bind (lift_result (parse_iv_response raw)) (\<lambda>(current, voltage).
                         Ret (build_channel_readings c voltage current None False))))))"

definition regulate :: "k26_cfg \<Rightarrow> smu_channel \<Rightarrow> int \<Rightarrow> int \<Rightarrow> pyfloat \<Rightarrow> pyfloat \<Rightarrow> unit smu_op" where
  "regulate cfg c generation epoch voltage current =
     Get (\<lambda>d.
       case regulation_target (k_runtime d c) (k_last_v d c) voltage current of
         None \<Rightarrow> Ret ()
       | Some target_v \<Rightarrow>
           (if regulation_is_current c generation epoch d then
              co_then (operational_write cfg (LevelV c target_v) (require_current_regulation c generation epoch))
                (Get (\<lambda>d2.
                   if regulation_is_current c generation epoch d2 then
                     co_bind (operational_query cfg (LevelVQ c)) (\<lambda>raw.
                     co_bind (lift_result (parse_finite_readback raw)) (\<lambda>applied_v.
                     co_then (require_current_regulation c generation epoch)
                       (co_modify (\<lambda>d. d\<lparr> k_last_v := (k_last_v d)(c := applied_v) \<rparr>))))
                   else Ret ()))
            else Ret ()))"

definition count_compliance :: "smu_channel \<Rightarrow> int \<Rightarrow> int \<Rightarrow> bool \<Rightarrow> k26 \<Rightarrow> k26" where
  "count_compliance c generation epoch in_compliance d =
     (if regulation_is_current c generation epoch d
      then d\<lparr> k_compliance := (k_compliance d)(c := if in_compliance then k_compliance d c + 1 else 0) \<rparr>
      else d)"

definition read_active_channel :: "k26_cfg \<Rightarrow> smu_channel \<Rightarrow> smu_reading list smu_op" where
  "read_active_channel cfg c =
     Get (\<lambda>d. let generation = k_generation d; epoch = k_epoch d c
       in co_bind (operational_query cfg (MeasureIvQ c)) (\<lambda>raw.
          co_bind (lift_result (parse_iv_response raw)) (\<lambda>(current, voltage).
          co_bind (operational_query cfg (ComplianceQ c)) (\<lambda>comp_raw.
          co_bind (lift_result (parse_compliance comp_raw)) (\<lambda>in_compliance.
          co_then (co_modify (count_compliance c generation epoch in_compliance))
          (co_then (if in_compliance then Ret () else regulate cfg c generation epoch voltage current)
             (Ret (build_channel_readings c voltage current None in_compliance))))))))"

text \<open>Only ordinary exceptions become error readings; losing the transport ends the acquisition.\<close>

definition read_one_channel :: "k26_cfg \<Rightarrow> smu_channel \<Rightarrow> smu_reading list \<Rightarrow> smu_reading list smu_op" where
  "read_one_channel cfg c readings =
     co_try
       (co_bind (Get (\<lambda>d. if \<not> rt_active (k_runtime d c) then read_idle_channel cfg c else read_active_channel cfg c))
          (\<lambda>rs. Ret (readings @ rs)))
       (\<lambda>e. case e of
              CancelledBy _ \<Rightarrow> Raise e
            | OSErr _ \<Rightarrow> Raise e
            | _ \<Rightarrow> Get (\<lambda>d. if k_recovery d then Raise e else Ret (readings @ error_readings_for_channel c)))"

definition wdog_pet :: "k26_cfg \<Rightarrow> unit smu_op" where
  "wdog_pet cfg =
     co_then raise_if_operationally_barred
       (Get (\<lambda>d.
          if \<not> (cf_wdog_enabled cfg \<and> k_wdog_armed d) \<or> cf_mock cfg then Ret ()
          else co_try (operational_write cfg WdogPet (Ret ()))
                 (\<lambda>e. if is_cancel e then Raise e
                      else Get (\<lambda>d. if k_recovery d then Raise e else Ret ()))))"

text \<open>The acquisition of a physical instrument.\<close>

definition read_channels :: "k26_cfg \<Rightarrow> smu_reading list smu_op" where
  "read_channels cfg =
     co_then (require_operational_connection cfg)
       (co_then (wdog_pet cfg) (co_fold (read_one_channel cfg) SMU_CHANNELS []))"

section \<open>Other queries\<close>

definition read_buffer :: "k26_cfg \<Rightarrow> int \<Rightarrow> int \<Rightarrow> buffer_row list smu_op" where
  "read_buffer cfg start_idx count =
     co_then (require_operational_connection cfg)
       (co_bind (operational_query cfg (BufferQ start_idx (start_idx + count - 1))) (\<lambda>raw.
          lift_result (parse_buffer_response raw)))"

definition check_error :: "k26_cfg \<Rightarrow> string option smu_op" where
  "check_error cfg =
     co_then (require_operational_connection cfg)
       (co_bind (operational_query cfg ErrorCountQ) (\<lambda>raw.
          let response = py_strip raw
          in if response = [] then Raise (value_error ''error queue count response is empty'')
             else if response = ''0'' then Ret None else Ret (Some response)))"

end
