(* ===== verification/SmuLifecycle.thy ===== *)
theory SmuLifecycle
  imports SmuSource
begin

text \<open>
  The late-pet watchdog, connecting and disconnecting (\<^verbatim>\<open>drivers/instruments/keithley_2604b.py\<close>).
\<close>

section \<open>The watchdog\<close>

definition WDOG_SCRIPT_VERSION :: nat where "WDOG_SCRIPT_VERSION = 3"

definition wdog_reject_unknown_latch :: "k26_cfg \<Rightarrow> unit smu_op" where
  "wdog_reject_unknown_latch cfg =
     co_then (co_modify (\<lambda>d. d\<lparr> k_wdog_armed := False, k_wdog_autonomous := False \<rparr>))
       (if cf_wdog_mode cfg = WdogRequired then Raise WatchdogArmError else Ret ())"

definition authority_failure :: "kexn \<Rightarrow> 'a smu_op" where
  "authority_failure e = Raise (if is_cancel e then e else WatchdogTransportAuthorityError)"

definition wdog_authority_query :: "tsp \<Rightarrow> string smu_op" where
  "wdog_authority_query cmd = co_try (transport_query cmd) authority_failure"

definition wdog_authority_write :: "tsp \<Rightarrow> unit smu_op" where
  "wdog_authority_write cmd = co_try (transport_write cmd) authority_failure"

definition arm_result :: "'a result \<Rightarrow> 'a smu_op" where
  "arm_result r = (case r of Inl _ \<Rightarrow> Raise WatchdogArmError | Inr x \<Rightarrow> Ret x)"

text \<open>The readback of the autonomy bit: a required autonomy that is not confirmed refuses.\<close>

definition wdog_read_autonomy :: "k26_cfg \<Rightarrow> unit smu_op" where
  "wdog_read_autonomy cfg =
     co_then (co_modify (\<lambda>d. d\<lparr> k_wdog_autonomous := False \<rparr>))
     (co_bind (wdog_authority_query WdogAutonomousQ) (\<lambda>raw.
        case parse_wdog_flag raw of
          Inl _ \<Rightarrow> if cf_wdog_mode cfg = WdogRequired then Raise WatchdogArmError else Ret ()
        | Inr autonomous \<Rightarrow>
            co_then (co_modify (\<lambda>d. d\<lparr> k_wdog_autonomous := autonomous \<rparr>))
              (if \<not> autonomous \<and> cf_wdog_mode cfg = WdogRequired then Raise WatchdogArmError else Ret ())))"

text \<open>The uploading part, before and after \<open>run_issued\<close> is set.\<close>

definition wdog_upload :: "k26_cfg \<Rightarrow> unit smu_op" where
  "wdog_upload cfg =
     co_then (aw_unit LoadScript)
     (co_then (wdog_authority_write WdogScript)
     (co_bind (wdog_authority_query WdogVersionQ) (\<lambda>ver_raw.
      co_bind (arm_result (parse_wdog_version ver_raw)) (\<lambda>ver.
      if ver \<noteq> WDOG_SCRIPT_VERSION then Raise WatchdogArmError
      else co_then (wdog_read_autonomy cfg)
             (wdog_authority_write (WdogTimeout (cf_wdog_timeout cfg)))))))"

definition wdog_run :: "unit smu_op" where
  "wdog_run =
     co_then (wdog_authority_write WdogRun)
     (co_bind (wdog_authority_query WdogActiveQ) (\<lambda>active_raw.
      co_bind (wdog_authority_query WdogTrippedQ) (\<lambda>tripped_raw.
      co_bind (lift_result (parse_wdog_flag active_raw)) (\<lambda>active.
      co_bind (lift_result (parse_wdog_flag tripped_raw)) (\<lambda>tripped.
      if \<not> active \<or> tripped then Raise WatchdogArmError
      else co_modify (\<lambda>d. d\<lparr> k_wdog_armed := True \<rparr>))))))"

text \<open>The handler of an ordinary failure; a cancellation passes.\<close>

definition wdog_arm_failed :: "k26_cfg \<Rightarrow> bool \<Rightarrow> kexn \<Rightarrow> unit smu_op" where
  "wdog_arm_failed cfg run_issued e =
     (if is_cancel e then Raise e
      else
        co_then (co_modify (\<lambda>d. d\<lparr> k_wdog_armed := False, k_wdog_autonomous := False \<rparr>))
        (co_then
           (if run_issued
            then co_try (transport_write WdogDisarm) (\<lambda>x. if is_cancel x then Raise x else Ret ())
            else Ret ())
           (if e = WatchdogTransportAuthorityError \<or> cf_wdog_mode cfg = WdogRequired then Raise e else Ret ())))"

definition wdog_arm :: "k26_cfg \<Rightarrow> unit smu_op" where
  "wdog_arm cfg =
     co_then raise_if_operationally_barred
     (if \<not> cf_wdog_enabled cfg \<or> cf_mock cfg then Ret ()
      else
        co_then (co_modify (\<lambda>d. d\<lparr> k_wdog_armed := False, k_wdog_autonomous := False \<rparr>))
        (Get (\<lambda>d.
          if k_wdog_pending d then Ret ()
          else
            co_bind (wdog_authority_query WdogTrippedQ) (\<lambda>raw.
              case parse_wdog_latch raw of
                Inl _ \<Rightarrow> wdog_reject_unknown_latch cfg
              | Inr True \<Rightarrow> co_modify (\<lambda>d. d\<lparr> k_wdog_pending := True \<rparr>)
              | Inr False \<Rightarrow>
                  co_bind (co_attempt (wdog_upload cfg)) (\<lambda>r.
                    case r of
                      Inl e \<Rightarrow> wdog_arm_failed cfg False e
                    | Inr _ \<Rightarrow> co_try wdog_run (wdog_arm_failed cfg True))))))"

definition wdog_disarm :: "k26_cfg \<Rightarrow> unit smu_op" where
  "wdog_disarm cfg =
     co_then raise_if_operationally_barred
       (Get (\<lambda>d.
          if \<not> (cf_wdog_enabled cfg \<and> k_wdog_armed d) \<or> cf_mock cfg then Ret ()
          else co_finally
                 (co_try (transport_write WdogDisarm) (\<lambda>e. if is_cancel e then Raise e else Ret ()))
                 (co_modify (\<lambda>d. d\<lparr> k_wdog_armed := False, k_wdog_autonomous := False \<rparr>))))"

definition wdog_tripped :: "k26_cfg \<Rightarrow> bool smu_op" where
  "wdog_tripped cfg =
     co_then raise_if_operationally_barred
       (Get (\<lambda>d.
          if k_wdog_pending d then Ret True
          else if \<not> (cf_wdog_enabled cfg \<and> k_wdog_armed d) \<or> cf_mock cfg \<or> \<not> k_connected d then Ret False
          else co_bind (operational_query cfg WdogTrippedQ) (\<lambda>raw.
               co_bind (lift_result (parse_wdog_flag raw)) (\<lambda>tripped.
               co_then (co_when tripped (co_modify (\<lambda>d. d\<lparr> k_wdog_pending := True \<rparr>))) (Ret tripped)))))"

text \<open>The commands of an acknowledgement; \<open>force_upload\<close> when the latch of the instrument is gone.\<close>

definition ack_installed_version :: "k26_cfg \<Rightarrow> bool \<Rightarrow> nat option smu_op" where
  "ack_installed_version cfg force_upload =
     (if force_upload then Ret None
      else co_bind (operational_query cfg WdogVersionQ) (\<lambda>raw.
             if py_lower (py_strip raw) = ''nil'' then Ret None
             else co_bind (lift_result (parse_wdog_version raw)) (\<lambda>v. Ret (Some v))))"

definition ack_upgrade :: "k26_cfg \<Rightarrow> unit smu_op" where
  "ack_upgrade cfg =
     co_then (aw_unit LoadScript)
     (co_then (operational_write cfg WdogScript (Ret ()))
     (co_bind (operational_query cfg WdogVersionQ) (\<lambda>uploaded_raw.
      co_bind (lift_result (parse_wdog_version uploaded_raw)) (\<lambda>uploaded.
      if uploaded \<noteq> WDOG_SCRIPT_VERSION then Raise WatchdogArmError
      else
        co_bind (operational_query cfg WdogAutonomousQ) (\<lambda>autonomous_raw.
        co_bind (lift_result (parse_wdog_flag autonomous_raw)) (\<lambda>autonomous.
        if autonomous then Raise WatchdogArmError
        else co_then (operational_write cfg (WdogTimeout (cf_wdog_timeout cfg)) (Ret ()))
               (operational_write cfg WdogRun (Ret ()))))))))"

definition ack_commands :: "k26_cfg \<Rightarrow> bool \<Rightarrow> unit smu_op" where
  "ack_commands cfg force_upload =
     co_bind (ack_installed_version cfg force_upload) (\<lambda>version.
     co_then (if version = Some WDOG_SCRIPT_VERSION then operational_write cfg WdogAcknowledge (Ret ())
              else ack_upgrade cfg)
     (co_bind (operational_query cfg WdogActiveQ) (\<lambda>active_raw.
      co_bind (operational_query cfg WdogTrippedQ) (\<lambda>tripped_raw.
      co_bind (lift_result (parse_wdog_flag active_raw)) (\<lambda>active.
      co_bind (lift_result (parse_wdog_flag tripped_raw)) (\<lambda>still_tripped.
      if \<not> active \<or> still_tripped then Raise WatchdogArmError else Ret ()))))))"

definition ack_failed :: "kexn \<Rightarrow> bool smu_op" where
  "ack_failed e =
     (if is_cancel e then Raise e
      else
        co_then (co_modify (\<lambda>d. d\<lparr> k_wdog_armed := False \<rparr>))
          (Get (\<lambda>d.
             co_then
               (if \<not> k_recovery d
                then co_try (transport_write WdogDisarm) (\<lambda>x. if is_cancel x then Raise x else Ret ())
                else Ret ())
               (Ret False))))"

definition ack_latch :: "k26_cfg \<Rightarrow> string \<Rightarrow> (bool \<times> bool) smu_op" where
  "ack_latch cfg raw =
     (if strip_chars PROTOCOL_TRIM_CHARS raw = ''nil'' then
        Get (\<lambda>d. if \<not> k_wdog_pending d
                 then Raise (value_error ''watchdog latch disappeared without host-side pending evidence'')
                 else Ret (True, False))
      else co_bind (lift_result (parse_wdog_flag raw)) (\<lambda>tripped. Ret (False, tripped)))"

definition acknowledge_wdog_trip :: "k26_cfg \<Rightarrow> bool smu_op" where
  "acknowledge_wdog_trip cfg =
     co_then raise_if_operationally_barred
       (Get (\<lambda>d.
          if \<not> cf_wdog_enabled cfg \<or> cf_mock cfg then Ret True
          else if \<not> k_connected d then Ret (\<not> k_wdog_pending d)
          else if \<not> k_wdog_armed d \<and> \<not> k_wdog_pending d then Ret True
          else
            co_bind (operational_query cfg WdogTrippedQ) (\<lambda>raw.
            co_bind (ack_latch cfg raw) (\<lambda>(fresh_instrument, tripped).
            Get (\<lambda>d.
              if \<not> tripped \<and> \<not> k_wdog_pending d then Ret True
              else
                co_then (co_modify (\<lambda>d. d\<lparr> k_wdog_pending := True \<rparr>))
                (co_bind (emergency_off cfg None) (\<lambda>off.
                 if off \<noteq> DEVICE_REPORTED_OFF then Ret False
                 else if cf_wdog_mode cfg = WdogRequired then Ret False
                 else
                   co_bind (co_attempt (ack_commands cfg (fresh_instrument \<or> \<not> tripped))) (\<lambda>r.
                     case r of
                       Inl e \<Rightarrow> ack_failed e
                     | Inr _ \<Rightarrow>
                         co_then
                           (co_modify (\<lambda>d. d\<lparr> k_wdog_armed := True, k_wdog_autonomous := False, k_wdog_pending := False \<rparr>))
                           (Ret True)))))))))"

section \<open>Connecting\<close>

definition settles_later :: "kexn \<Rightarrow> bool" where
  "settles_later e = (case e of USBTMCIncompleteCloseError settled \<Rightarrow> \<not> settled | _ \<Rightarrow> False)"

text \<open>A previous close that is not settled is settled first.\<close>

definition settle_previous_teardown :: "unit smu_op" where
  "settle_previous_teardown =
     Get (\<lambda>d.
       if \<not> k_teardown d then Ret ()
       else if \<not> k_can_settle d then Raise TransportTeardownIncompleteError
       else
         co_bind (co_attempt transport_close) (\<lambda>r.
           case r of
             Inl e \<Rightarrow>
               (if is_cancel e then Raise e
                else co_then (co_modify (\<lambda>d. d\<lparr> k_can_settle := settles_later e \<rparr>))
                       (Raise TransportTeardownIncompleteError))
           | Inr _ \<Rightarrow>
               co_modify (\<lambda>d. revoke_off_evidence
                 (d\<lparr> k_teardown := False, k_can_settle := False, k_recovery := False, k_connected := False,
                     k_identity := [] \<rparr>))))"

definition token_truthy :: "int option \<Rightarrow> bool" where
  "token_truthy t = (case t of None \<Rightarrow> False | Some n \<Rightarrow> n \<noteq> 0)"

definition connect_refusal :: "k26 \<Rightarrow> kexn option" where
  "connect_refusal d =
     (if k_recovery d then Some (runtime_error ''recovery transport remains open'')
      else if k_connected d \<or> k_connecting d \<or> k_disconnecting d then Some (runtime_error ''connect already active'')
      else if list_ex (\<lambda>c. token_truthy (k_start d c)) SMU_CHANNELS \<or> list_ex (\<lambda>c. k_depth d c \<noteq> 0) SMU_CHANNELS
      then Some (runtime_error ''source transition blocks connect'')
      else None)"

text \<open>Everything up to the first await of a connect that is admitted.\<close>

definition connect_claim :: "k26 \<Rightarrow> k26" where
  "connect_claim d =
     revoke_off_evidence
       (d\<lparr> k_connecting := True, k_generation := k_generation d + 1,
           k_epoch := (\<lambda>c. k_epoch d c + 1), k_start := (\<lambda>_. None),
           k_runtime := (\<lambda>c. (k_runtime d c)\<lparr> rt_active := False, rt_p_target := Fin 0 \<rparr>),
           k_last_v := (\<lambda>_. Fin 0), k_compliance := (\<lambda>_. 0),
           k_wdog_armed := False, k_wdog_autonomous := False \<rparr>)"

definition expected_serial :: "k26_cfg \<Rightarrow> string option result" where
  "expected_serial cfg =
     (if cf_mock cfg then Inr None
      else res_bind (parse_configured_keithley_serial (cf_resource cfg)) (\<lambda>s. Inr (Some s)))"

text \<open>The \<open>try\<close> block until the family is authorised, and from there to its end.\<close>

definition connect_identify :: "k26_cfg \<Rightarrow> string smu_op" where
  "connect_identify cfg =
     co_then transport_open
     (co_bind (transport_query IdnQ) (\<lambda>idn_raw.
      co_bind (lift_result (parse_keithley_idn_family idn_raw (cf_mock cfg))) (\<lambda>_. Ret idn_raw)))"

definition connect_secure :: "k26_cfg \<Rightarrow> string option \<Rightarrow> string \<Rightarrow> string smu_op" where
  "connect_secure cfg serial idn_raw =
     co_bind (attempt_owned_off cfg SMU_CHANNELS) (\<lambda>(off_confirmed, cancelled).
       if cancelled then Raise CancelledError
       else if \<not> off_confirmed then Raise OutputStateUnverifiedError
       else
         co_bind (lift_result (parse_keithley_idn idn_raw (cf_mock cfg) serial)) (\<lambda>identity.
         co_then (transport_write ErrorClear)
         (co_then (wdog_arm cfg) (Ret identity))))"

definition drop_connection :: "k26 \<Rightarrow> k26" where
  "drop_connection d =
     revoke_off_evidence (d\<lparr> k_connected := False, k_recovery := False, k_identity := [] \<rparr>)"

definition cleanup_settles_later :: "kexn \<Rightarrow> bool" where
  "cleanup_settles_later e =
     (case e of CancelledBy (Some settled) \<Rightarrow> \<not> settled | _ \<Rightarrow> settles_later e)"

text \<open>Whether the cleanup failed.\<close>

definition settle_failed_connect :: "bool smu_op" where
  "settle_failed_connect =
     co_then (co_modify drop_connection)
     (co_bind (co_attempt transport_close) (\<lambda>r.
      co_then
        (case r of
           Inr _ \<Rightarrow> Ret ()
         | Inl e \<Rightarrow> co_modify (\<lambda>d. d\<lparr> k_teardown := True, k_can_settle := cleanup_settles_later e \<rparr>))
     (co_then (co_modify (\<lambda>d. (drop_connection d)\<lparr> k_connecting := False \<rparr>))
        (Ret (case r of Inr _ \<Rightarrow> False | Inl _ \<Rightarrow> True)))))"

definition failed_connect :: "bool \<Rightarrow> kexn \<Rightarrow> 'a smu_op" where
  "failed_connect family_authorized connect_error =
     co_then (co_modify (\<lambda>d. d\<lparr> k_identity := [] \<rparr>))
     (Get (\<lambda>d0.
      co_then (co_modify (\<lambda>d. d\<lparr> k_connecting := False \<rparr>))
      (if family_authorized \<and> \<not> all_off_proofs d0
       then co_then (co_modify (\<lambda>d. d\<lparr> k_connected := False, k_recovery := True, k_unsafe := True \<rparr>))
              (Raise connect_error)
       else
         co_bind settle_failed_connect (\<lambda>cleanup_failed.
           Raise (if cleanup_failed \<and> \<not> is_cancel connect_error then FailedConnectCleanupError else connect_error)))))"

definition connect :: "k26_cfg \<Rightarrow> unit smu_op" where
  "connect cfg =
     co_then settle_previous_teardown
     (Get (\<lambda>d.
       case connect_refusal d of
         Some e \<Rightarrow> Raise e
       | None \<Rightarrow>
           co_then (co_modify (\<lambda>d. d\<lparr> k_identity := [] \<rparr>))
           (co_bind (lift_result (expected_serial cfg)) (\<lambda>serial.
            co_then (co_modify connect_claim)
            (co_bind (co_attempt (connect_identify cfg)) (\<lambda>r.
               case r of
                 Inl e \<Rightarrow> failed_connect False e
               | Inr idn_raw \<Rightarrow>
                   co_bind (co_try (connect_secure cfg serial idn_raw) (failed_connect True)) (\<lambda>identity.
                     co_modify (\<lambda>d. d\<lparr> k_identity := identity, k_connected := True, k_recovery := False,
                                         k_connecting := False \<rparr>))))))))"

section \<open>Disconnecting\<close>

text \<open>The answer of the close task; the generation decides whether it still settles the connection.\<close>

definition close_settled_state :: "k26 \<Rightarrow> k26" where
  "close_settled_state d =
     revoke_off_evidence
       (d\<lparr> k_connected := False, k_recovery := False, k_identity := [], k_wdog_armed := False,
           k_wdog_autonomous := False \<rparr>)"

definition close_unsettled_state :: "bool \<Rightarrow> bool \<Rightarrow> k26 \<Rightarrow> k26" where
  "close_unsettled_state close_settled can_settle d =
     revoke_off_evidence
       (d\<lparr> k_connected := False, k_recovery := \<not> close_settled, k_identity := [], k_wdog_armed := False,
           k_wdog_autonomous := False, k_teardown := True, k_can_settle := can_settle \<rparr>)"

definition disconnect_close :: "int \<Rightarrow> bool \<Rightarrow> kexn option \<Rightarrow> unit smu_op" where
  "disconnect_close generation cancelled0 error0 =
     co_bind (co_attempt transport_close) (\<lambda>r.
     co_bind tick (\<lambda>c.
     Get (\<lambda>d.
       (let close_settled = (case r of Inl _ \<Rightarrow> False | Inr _ \<Rightarrow> True);
            cancelled = (cancelled0 \<or> c \<or> (case r of Inl e \<Rightarrow> is_cancel e | Inr _ \<Rightarrow> False));
            error1 = (case error0 of Some e \<Rightarrow> Some e
                      | None \<Rightarrow> (case r of Inl e \<Rightarrow> if is_cancel e then None else Some e | Inr _ \<Rightarrow> None));
            current = (k_generation d = generation);
            error2 = (if close_settled \<and> \<not> current \<and> error1 = None
                      then Some TransportTeardownIncompleteError else error1)
        in co_then
             (co_modify
                (if close_settled \<and> current then close_settled_state
                 else close_unsettled_state close_settled (case error1 of Some e \<Rightarrow> settles_later e | None \<Rightarrow> False)))
             (if cancelled then Raise CancelledError
              else (case error2 of
                      None \<Rightarrow> Ret ()
                    | Some (USBTMCIncompleteCloseError _) \<Rightarrow> Raise TransportTeardownIncompleteError
                    | Some e \<Rightarrow> Raise e))))))"

text \<open>The OFF proof that authorises the close: whether it is there, whether the caller was cancelled, an error.\<close>

definition disconnect_prove_off :: "k26_cfg \<Rightarrow> (bool \<times> bool \<times> kexn option) smu_op" where
  "disconnect_prove_off cfg =
     Get (\<lambda>d. if all_off_proofs d then Ret (True, False, None)
              else co_bind (co_attempt (attempt_owned_off cfg SMU_CHANNELS)) (\<lambda>r.
                     case r of
                       Inr (ok, cancelled) \<Rightarrow> Ret (ok, cancelled, None)
                     | Inl e \<Rightarrow> co_gets (\<lambda>d. (all_off_proofs d, is_cancel e, if is_cancel e then None else Some e))))"

text \<open>A disarm that is cancelled or fails still closes.\<close>

definition disconnect_disarm :: "k26_cfg \<Rightarrow> bool \<Rightarrow> bool \<times> kexn option \<Rightarrow> (bool \<times> kexn option) smu_op" where
  "disconnect_disarm cfg recovery_only acc =
     (if recovery_only then Ret acc
      else co_bind (co_attempt (wdog_disarm cfg)) (\<lambda>r.
             case r of
               Inr _ \<Rightarrow> Ret acc
             | Inl e \<Rightarrow> Ret (if is_cancel e then (True, snd acc)
                             else (fst acc, case snd acc of None \<Rightarrow> Some e | Some x \<Rightarrow> Some x))))"

definition disconnect_body :: "k26_cfg \<Rightarrow> unit smu_op" where
  "disconnect_body cfg =
     Get (\<lambda>d.
       (let recovery_only = k_recovery d; generation = k_generation d
        in if \<not> (k_connected d \<or> recovery_only)
           then co_modify (\<lambda>d. revoke_off_evidence (d\<lparr> k_identity := [] \<rparr>))
           else if recovery_only \<and> \<not> all_off_proofs d then Raise OutputStateUnverifiedError
           else
             co_bind (disconnect_prove_off cfg) (\<lambda>(off_confirmed, cancelled, error).
               if \<not> off_confirmed then
                 co_then (co_modify (\<lambda>d. d\<lparr> k_unsafe := True \<rparr>))
                   (Raise (if cancelled then CancelledError
                           else (case error of Some e \<Rightarrow> e | None \<Rightarrow> OutputStateUnverifiedError)))
               else
                 co_bind (disconnect_disarm cfg recovery_only (cancelled, error)) (\<lambda>(cancelled, error).
                   disconnect_close generation cancelled error))))"

definition disconnect :: "k26_cfg \<Rightarrow> unit smu_op" where
  "disconnect cfg =
     Get (\<lambda>d.
       if k_teardown d then Raise TransportTeardownIncompleteError
       else if k_connecting d \<or> k_disconnecting d then Raise (runtime_error ''lifecycle transition blocks disconnect'')
       else
         co_then (co_modify (\<lambda>d. d\<lparr> k_disconnecting := True \<rparr>))
           (co_finally (disconnect_body cfg) (co_modify (\<lambda>d. d\<lparr> k_disconnecting := False \<rparr>))))"

end
