(* ===== verification/SmuLogic.thy ===== *)
theory SmuLogic
  imports SmuLifecycle
begin

text \<open>
  Reasoning about the operations of the Keithley driver while other operations of the same driver
  interleave with them: a rely-guarantee logic on the coroutines.

  The world of one driver is its state, the outputs of the instrument, and the commands that wait in the
  first-in first-out queue of the transport's lock (\<open>USBTMCTransport._lock\<close>), each with the number under
  which it was issued. A command is \<open>risky\<close> for a channel when it may leave its output on: switching it
  on, and opening the transport, since nothing is known of the instrument before.

  \<open>guar\<close> bounds what one atomic segment of an operation does, \<open>rely\<close> what an operation may assume about
  everything that happens while it waits. The number \<open>n c\<close> counts the OFF operations on \<open>c\<close> that the
  operation itself owns: as long as there is one, no other operation can switch \<open>c\<close> on.
\<close>

section \<open>The world of one driver\<close>

record smu_world =
  w_drv :: k26
  w_on :: "smu_channel \<Rightarrow> bool"
  w_wire :: "(nat \<times> request) list"
  w_seq :: nat

type_synonym owned = "smu_channel \<Rightarrow> nat"
type_synonym segment = "owned \<times> smu_world"

abbreviation none_owned :: owned where "none_owned \<equiv> (\<lambda>_. 0)"

fun on_wire :: "request \<Rightarrow> bool" where
  "on_wire (Write _) = True"
| "on_wire (Query _) = True"
| "on_wire OpenTransport = True"
| "on_wire CloseTransport = True"
| "on_wire _ = False"

definition risky :: "smu_channel \<Rightarrow> request \<Rightarrow> bool" where
  "risky c q = (q = Write (OutputOn c) \<or> q = OpenTransport)"

definition risks :: "request option \<Rightarrow> smu_channel \<Rightarrow> bool" where
  "risks oq c = (case oq of None \<Rightarrow> False | Some q \<Rightarrow> risky c q)"

text \<open>No start holds the authority of the current epoch.\<close>

definition quiet :: "k26 \<Rightarrow> smu_channel \<Rightarrow> bool" where
  "quiet d c = (k_start d c \<noteq> Some (k_epoch d c))"

definition hot :: "smu_world \<Rightarrow> smu_channel \<Rightarrow> bool" where
  "hot W c = (w_on W c \<or> (\<exists>e \<in> set (w_wire W). risky c (snd e)))"

definition cold :: "smu_world \<Rightarrow> smu_channel \<Rightarrow> bool" where
  "cold W c = (quiet (w_drv W) c \<and> \<not> hot W c)"

definition proved :: "k26 \<Rightarrow> smu_channel \<Rightarrow> bool" where
  "proved d c = (k_verified d c \<and> k_vgeneration d c = Some (k_generation d) \<and> k_vepoch d c = Some (k_epoch d c))"

definition smu_inv :: "smu_world \<Rightarrow> bool" where
  "smu_inv W =
     ((\<forall>c t. k_start (w_drv W) c = Some t \<longrightarrow> t \<le> k_epoch (w_drv W) c)
      \<and> (\<forall>c. proved (w_drv W) c \<longrightarrow> cold W c)
      \<and> (\<not> k_unsafe (w_drv W) \<longrightarrow> (\<forall>c. proved (w_drv W) c)))"

text \<open>The world after a segment that ended in state \<open>d\<close> with a request, if any.\<close>

definition issue :: "smu_world \<Rightarrow> k26 \<Rightarrow> request option \<Rightarrow> smu_world" where
  "issue W d oq =
     (case oq of
        Some q \<Rightarrow> if on_wire q then W\<lparr> w_drv := d, w_wire := w_wire W @ [(w_seq W, q)], w_seq := w_seq W + 1 \<rparr>
                  else W\<lparr> w_drv := d \<rparr>
      | None \<Rightarrow> W\<lparr> w_drv := d \<rparr>)"

section \<open>Rely and guarantee\<close>

definition rely :: "owned \<Rightarrow> smu_world \<Rightarrow> smu_world \<Rightarrow> bool" where
  "rely n W W' =
     (k_generation (w_drv W) \<le> k_generation (w_drv W')
      \<and> (\<forall>c. k_epoch (w_drv W) c \<le> k_epoch (w_drv W') c)
      \<and> k_nonces (w_drv W) \<le> k_nonces (w_drv W')
      \<and> w_seq W \<le> w_seq W'
      \<and> (\<forall>e \<in> set (w_wire W'). fst e < w_seq W \<longrightarrow> e \<in> set (w_wire W))
      \<and> (\<forall>c. quiet (w_drv W) c \<and> k_epoch (w_drv W') c = k_epoch (w_drv W) c
              \<and> k_generation (w_drv W') = k_generation (w_drv W) \<longrightarrow>
              quiet (w_drv W') c
              \<and> (\<forall>e \<in> set (w_wire W'). risky c (snd e) \<longrightarrow> fst e < w_seq W)
              \<and> (hot W' c \<longrightarrow> hot W c))
      \<and> (\<forall>c. 0 < n c \<longrightarrow> k_generation (w_drv W') = k_generation (w_drv W) \<and> (cold W c \<longrightarrow> cold W' c)))"

definition guar :: "k26_cfg \<Rightarrow> segment \<Rightarrow> owned \<Rightarrow> k26 \<Rightarrow> request option \<Rightarrow> bool" where
  "guar cfg g n d oq =
     (let n0 = fst g; W = snd g; d0 = w_drv W
      in k_generation d0 \<le> k_generation d
         \<and> (\<forall>c. k_epoch d0 c \<le> k_epoch d c)
         \<and> k_nonces d0 \<le> k_nonces d
         \<and> (\<forall>c. k_depth d c + n0 c = k_depth d0 c + n c)
         \<and> (\<forall>c. quiet d0 c \<and> k_epoch d c = k_epoch d0 c \<and> k_generation d = k_generation d0
                 \<longrightarrow> quiet d c \<and> \<not> risks oq c)
         \<and> (\<forall>c. n0 c < k_depth d0 c \<longrightarrow>
                 k_generation d = k_generation d0 \<and> (quiet d0 c \<longrightarrow> quiet d c \<and> \<not> risks oq c))
         \<and> (\<forall>c nonce. oq = Some (Query (ChallengeQ c nonce)) \<longrightarrow>
                 (\<exists>i. k_nonces d0 \<le> i \<and> i < k_nonces d \<and> nonce = cf_nonce cfg i))
         \<and> smu_inv (issue W d oq))"

text \<open>
  What is known when an operation resumes with an answer. An accepted OFF challenge was executed in some
  world \<open>We\<close> on the way, when everything issued before it had been executed, and the output was off then.
\<close>

definition off_answer :: "request \<Rightarrow> answer \<Rightarrow> smu_channel \<Rightarrow> bool" where
  "off_answer q a c =
     (\<exists>nonce s. q = Query (ChallengeQ c nonce) \<and> a = Answer s \<and> parse_output_off_challenge s nonce = Inr True)"

definition resumes :: "owned \<Rightarrow> smu_world \<Rightarrow> request \<Rightarrow> answer \<Rightarrow> smu_world \<Rightarrow> bool" where
  "resumes n W q a W' =
     (rely n W W' \<and> smu_inv W' \<and> (\<forall>c. n c \<le> k_depth (w_drv W') c)
      \<and> (\<forall>c. off_answer q a c \<longrightarrow>
            (\<exists>We. rely n W We \<and> \<not> w_on We c \<and> (\<forall>e \<in> set (w_wire We). w_seq W \<le> fst e) \<and> rely n We W')))"

definition smu_aw ::
  "k26_cfg \<Rightarrow> segment \<Rightarrow> k26 \<Rightarrow> request \<Rightarrow> (segment \<Rightarrow> k26 \<Rightarrow> answer \<Rightarrow> bool) \<Rightarrow> bool" where
  "smu_aw cfg g d q K =
     (\<exists>n. guar cfg g n d (Some q)
          \<and> (\<forall>W' a. resumes n (issue (snd g) d (Some q)) q a W' \<longrightarrow> K (n, W') (w_drv W') a))"

lemma smu_awI:
  "guar cfg g n d (Some q) \<Longrightarrow> (\<And>W' a. resumes n (issue (snd g) d (Some q)) q a W' \<Longrightarrow> K (n, W') (w_drv W') a)
   \<Longrightarrow> smu_aw cfg g d q K"
  unfolding smu_aw_def by blast

interpretation smu: await_logic "smu_aw cfg" for cfg
  by unfold_locales (auto simp: smu_aw_def)

text \<open>A segment that has not ended yet.\<close>

abbreviation seg :: "k26_cfg \<Rightarrow> segment \<Rightarrow> owned \<Rightarrow> k26 \<Rightarrow> bool" where
  "seg cfg g n d \<equiv> guar cfg g n d None"

section \<open>Laws of the relations\<close>

lemma issue_simps [simp]:
  "w_drv (issue W d oq) = d" "w_on (issue W d oq) = w_on W"
  "issue W d None = W\<lparr> w_drv := d \<rparr>"
  by (auto simp: issue_def split: option.splits)

lemma risks_simps [simp]: "\<not> risks None c" "risks (Some q) c = risky c q"
  by (simp_all add: risks_def)

lemma rely_refl [simp]: "(\<And>e. e \<in> set (w_wire W) \<Longrightarrow> fst e < w_seq W) \<Longrightarrow> rely n W W"
  by (auto simp: rely_def)

lemma rely_weaken: "rely n W W' \<Longrightarrow> (\<And>c. m c \<le> n c) \<Longrightarrow> rely m W W'"
  unfolding rely_def by (meson order_less_le_trans)

lemma rely_trans:
  assumes "rely n W W'" "rely n W' W''"
  shows "rely n W W''"
proof -
  note a = assms(1) [unfolded rely_def] and b = assms(2) [unfolded rely_def]
  have wire: "e \<in> set (w_wire W)" if "e \<in> set (w_wire W'')" "fst e < w_seq W" for e
    using a b that by (meson order_less_le_trans)
  have q: "quiet (w_drv W'') c \<and> (\<forall>e \<in> set (w_wire W''). risky c (snd e) \<longrightarrow> fst e < w_seq W) \<and> (hot W'' c \<longrightarrow> hot W c)"
    if *: "quiet (w_drv W) c" "k_epoch (w_drv W'') c = k_epoch (w_drv W) c"
      "k_generation (w_drv W'') = k_generation (w_drv W)" for c
  proof -
    have e1: "k_epoch (w_drv W') c = k_epoch (w_drv W) c" using a b * by (metis order_antisym)
    have g1: "k_generation (w_drv W') = k_generation (w_drv W)" using a b * by (metis order_antisym)
    have s1: "quiet (w_drv W') c" "\<forall>e \<in> set (w_wire W'). risky c (snd e) \<longrightarrow> fst e < w_seq W" "hot W' c \<longrightarrow> hot W c"
      using a *(1) e1 g1 by blast+
    have e2: "k_epoch (w_drv W'') c = k_epoch (w_drv W') c" and g2: "k_generation (w_drv W'') = k_generation (w_drv W')"
      using * e1 g1 by simp_all
    have s2: "quiet (w_drv W'') c" "\<forall>e \<in> set (w_wire W''). risky c (snd e) \<longrightarrow> fst e < w_seq W'" "hot W'' c \<longrightarrow> hot W' c"
      using b s1(1) e2 g2 by blast+
    show ?thesis using s1 s2 b by blast
  qed
  have n: "k_generation (w_drv W'') = k_generation (w_drv W) \<and> (cold W c \<longrightarrow> cold W'' c)" if "0 < n c" for c
    using a b that by (metis (no_types))
  show ?thesis unfolding rely_def
    using a b wire q n by (meson order_trans)
qed

lemma rely_epoch: "rely n W W' \<Longrightarrow> k_epoch (w_drv W) c \<le> k_epoch (w_drv W') c"
  by (simp add: rely_def)

lemma rely_owned: "rely n W W' \<Longrightarrow> 0 < n c \<Longrightarrow> k_generation (w_drv W') = k_generation (w_drv W)"
  by (simp add: rely_def)

lemma rely_cold: "rely n W W' \<Longrightarrow> 0 < n c \<Longrightarrow> cold W c \<Longrightarrow> cold W' c"
  by (simp add: rely_def)

lemma rely_quiet:
  "rely n W W' \<Longrightarrow> quiet (w_drv W) c \<Longrightarrow> k_epoch (w_drv W') c = k_epoch (w_drv W) c
   \<Longrightarrow> k_generation (w_drv W') = k_generation (w_drv W)
   \<Longrightarrow> quiet (w_drv W') c \<and> (\<forall>e \<in> set (w_wire W'). risky c (snd e) \<longrightarrow> fst e < w_seq W) \<and> (hot W' c \<longrightarrow> hot W c)"
  unfolding rely_def by blast

section \<open>Segments\<close>

lemma seg_refl: "smu_inv W \<Longrightarrow> seg cfg (n, W) n (w_drv W)"
  by (simp add: guar_def Let_def)

lemma seg_resumed: "resumes n W q a W' \<Longrightarrow> seg cfg (n, W') n (w_drv W')"
  by (intro seg_refl) (simp add: resumes_def)

lemma seg_inv: "seg cfg g n d \<Longrightarrow> smu_inv ((snd g)\<lparr> w_drv := d \<rparr>)"
  by (simp add: guar_def Let_def)

lemma seg_depth: "seg cfg g n d \<Longrightarrow> k_depth d c + fst g c = k_depth (w_drv (snd g)) c + n c"
  by (simp add: guar_def Let_def)

text \<open>A request that is neither risky nor a challenge keeps a segment a guarantee.\<close>

definition harmless :: "request \<Rightarrow> bool" where
  "harmless q = ((\<forall>c. \<not> risky c q) \<and> (\<forall>c nonce. q \<noteq> Query (ChallengeQ c nonce)))"

lemma hot_issue: "\<not> risks oq c \<Longrightarrow> hot (issue W d oq) c = hot (W\<lparr> w_drv := d \<rparr>) c"
  by (auto simp: hot_def issue_def risks_def split: option.splits if_splits)

lemma inv_issue: "(\<And>c. proved d c \<Longrightarrow> \<not> risks oq c) \<Longrightarrow> smu_inv (W\<lparr> w_drv := d \<rparr>) \<Longrightarrow> smu_inv (issue W d oq)"
  unfolding smu_inv_def cold_def by (auto simp: hot_issue)

lemma guar_harmless: "seg cfg g n d \<Longrightarrow> harmless q \<Longrightarrow> guar cfg g n d (Some q)"
  using inv_issue [of d "Some q" "snd g"] by (simp add: guar_def Let_def harmless_def)

lemma aw_harmless:
  assumes "seg cfg g n d" "harmless q"
    and "\<And>W' a. resumes n (issue (snd g) d (Some q)) q a W' \<Longrightarrow> seg cfg (n, W') n (w_drv W') \<Longrightarrow> K (n, W') (w_drv W') a"
  shows "smu_aw cfg g d q K"
  unfolding smu_aw_def
  using guar_harmless [OF assms(1,2)] assms(3) seg_resumed by blast

text \<open>
  Composing a segment with one more synchronous step: what the step may change.
\<close>

lemma seg_step:
  assumes s: "seg cfg g n d"
    and gen: "k_generation d \<le> k_generation d'" and ep: "\<And>c. k_epoch d c \<le> k_epoch d' c" and no: "k_nonces d \<le> k_nonces d'"
    and dep: "\<And>c. k_depth d' c + n c = k_depth d c + n' c"
    and qu: "\<And>c. quiet d c \<Longrightarrow> k_epoch d' c = k_epoch d c \<Longrightarrow> k_generation d' = k_generation d \<Longrightarrow> quiet d' c"
    and ow: "\<And>c. n c < k_depth d c \<Longrightarrow> k_generation d' = k_generation d \<and> (quiet d c \<longrightarrow> quiet d' c)"
    and inv: "smu_inv ((snd g)\<lparr> w_drv := d' \<rparr>)"
  shows "seg cfg g n' d'"
proof -
  obtain n0 W where g: "g = (n0, W)" by (cases g)
  let ?d0 = "w_drv W"
  have gd: "k_generation ?d0 \<le> k_generation d" "\<And>c. k_epoch ?d0 c \<le> k_epoch d c" "k_nonces ?d0 \<le> k_nonces d"
    "\<And>c. k_depth d c + n0 c = k_depth ?d0 c + n c"
    "\<And>c. quiet ?d0 c \<Longrightarrow> k_epoch d c = k_epoch ?d0 c \<Longrightarrow> k_generation d = k_generation ?d0 \<Longrightarrow> quiet d c"
    "\<And>c. n0 c < k_depth ?d0 c \<Longrightarrow> k_generation d = k_generation ?d0 \<and> (quiet ?d0 c \<longrightarrow> quiet d c)"
    using s by (auto simp: guar_def Let_def g)
  have dep': "k_depth d' c + n0 c = k_depth ?d0 c + n' c" for c using dep [of c] gd(4) [of c] by linarith
  have qu': "quiet d' c" if "quiet ?d0 c" "k_epoch d' c = k_epoch ?d0 c" "k_generation d' = k_generation ?d0" for c
  proof -
    have "k_epoch d c = k_epoch ?d0 c" "k_generation d = k_generation ?d0"
      using that gen ep [of c] gd(1) gd(2) [of c] by linarith+
    thus ?thesis using gd(5) [of c] qu [of c] that by simp
  qed
  have ow': "k_generation d' = k_generation ?d0 \<and> (quiet ?d0 c \<longrightarrow> quiet d' c)" if "n0 c < k_depth ?d0 c" for c
  proof -
    have "n c < k_depth d c" using that gd(4) [of c] by linarith
    with ow [of c] gd(6) [OF that] show ?thesis by simp
  qed
  show ?thesis unfolding guar_def Let_def
    using gd(1,2,3) gen ep no dep' qu' ow' inv by (auto simp: g intro: order_trans)
qed

text \<open>Steps that touch nothing of the authority over the outputs.\<close>

definition same_authority :: "k26 \<Rightarrow> k26 \<Rightarrow> bool" where
  "same_authority d d' =
     (k_generation d' = k_generation d \<and> k_epoch d' = k_epoch d \<and> k_start d' = k_start d \<and> k_depth d' = k_depth d
      \<and> k_verified d' = k_verified d \<and> k_vgeneration d' = k_vgeneration d \<and> k_vepoch d' = k_vepoch d
      \<and> k_nonces d \<le> k_nonces d' \<and> (k_unsafe d' = k_unsafe d \<or> k_unsafe d'))"

lemma same_authority_inv: "same_authority d d' \<Longrightarrow> smu_inv (W\<lparr> w_drv := d \<rparr>) \<Longrightarrow> smu_inv (W\<lparr> w_drv := d' \<rparr>)"
  unfolding smu_inv_def cold_def hot_def quiet_def proved_def same_authority_def by auto

lemma seg_same: "seg cfg g n d \<Longrightarrow> same_authority d d' \<Longrightarrow> seg cfg g n d'"
  by (rule seg_step) (auto simp: same_authority_def quiet_def dest: seg_inv intro: same_authority_inv [unfolded same_authority_def])

text \<open>Steps that only take evidence away.\<close>

definition less_evidence :: "k26 \<Rightarrow> k26 \<Rightarrow> bool" where
  "less_evidence d d' =
     (k_generation d' = k_generation d \<and> k_epoch d' = k_epoch d \<and> k_start d' = k_start d \<and> k_depth d' = k_depth d
      \<and> k_nonces d' = k_nonces d \<and> k_unsafe d' \<and> (\<forall>c. proved d' c \<longrightarrow> proved d c))"

lemma seg_less: "seg cfg g n d \<Longrightarrow> less_evidence d d' \<Longrightarrow> seg cfg g n d'"
proof (rule seg_step, assumption)
  assume s: "seg cfg g n d" and l: "less_evidence d d'"
  show "smu_inv ((snd g)\<lparr>w_drv := d'\<rparr>)"
    using seg_inv [OF s] l unfolding smu_inv_def cold_def hot_def quiet_def less_evidence_def by auto
qed (auto simp: less_evidence_def quiet_def)

text \<open>The single steps of the driver's authority.\<close>

lemma seg_enter_recovery: "seg cfg g n d \<Longrightarrow> seg cfg g n (enter_recovery cfg d)"
  by (cases "cf_mock cfg \<or> \<not> k_connected d")
    (auto simp: enter_recovery_def revoke_off_evidence_def less_evidence_def proved_def elim!: seg_less)

lemma seg_invalidate: "seg cfg g n d \<Longrightarrow> seg cfg g n (invalidate_channel_off_evidence c False d)"
  by (erule seg_less) (auto simp: less_evidence_def invalidate_channel_off_evidence_def proved_def)

lemma seg_revoke:
  "seg cfg g n d \<Longrightarrow> same_authority d d1 \<Longrightarrow> seg cfg g n (revoke_off_evidence d1)"
  by (drule seg_same, assumption, erule seg_less) (auto simp: less_evidence_def revoke_off_evidence_def proved_def)

lemma all_off_proofs_iff: "all_off_proofs d \<longleftrightarrow> (\<forall>c. has_current_off_proof d c)"
  by (simp add: all_off_proofs_def list_all_iff)

lemma proof_proved: "has_current_off_proof d c \<Longrightarrow> proved d c"
  by (simp add: has_current_off_proof_def has_current_off_readback_def proved_def)

lemma inv_refresh: "smu_inv (W\<lparr> w_drv := d \<rparr>) \<Longrightarrow> smu_inv (W\<lparr> w_drv := refresh_output_uncertainty d \<rparr>)"
proof -
  assume i: "smu_inv (W\<lparr> w_drv := d \<rparr>)"
  have p: "proved (refresh_output_uncertainty d) c = proved d c" for c by (simp add: proved_def refresh_output_uncertainty_def)
  have k: "cold (W\<lparr> w_drv := refresh_output_uncertainty d \<rparr>) c = cold (W\<lparr> w_drv := d \<rparr>) c" for c
    by (simp add: cold_def hot_def quiet_def refresh_output_uncertainty_def)
  have "\<not> k_unsafe (refresh_output_uncertainty d) \<Longrightarrow> proved d c" for c
    by (simp add: refresh_output_uncertainty_def all_off_proofs_iff proof_proved)
  moreover have "k_start (refresh_output_uncertainty d) = k_start d" "k_epoch (refresh_output_uncertainty d) = k_epoch d"
    by (simp_all add: refresh_output_uncertainty_def)
  ultimately show ?thesis using i unfolding smu_inv_def by (auto simp: p k)
qed

lemma refresh_simps [simp]:
  "k_generation (refresh_output_uncertainty d) = k_generation d" "k_epoch (refresh_output_uncertainty d) = k_epoch d"
  "k_start (refresh_output_uncertainty d) = k_start d" "k_depth (refresh_output_uncertainty d) = k_depth d"
  "k_nonces (refresh_output_uncertainty d) = k_nonces d" "quiet (refresh_output_uncertainty d) c = quiet d c"
  by (simp_all add: refresh_output_uncertainty_def quiet_def)

lemma seg_refresh: "seg cfg g n d \<Longrightarrow> seg cfg g n (refresh_output_uncertainty d)"
  using inv_refresh [OF seg_inv] by (rule seg_step [rotated -1]) auto

text \<open>Claiming and releasing an OFF operation changes what the operation owns.\<close>

definition own :: "smu_channel list \<Rightarrow> owned \<Rightarrow> owned" where
  "own cs n = (\<lambda>c. n c + count_list cs c)"

lemma begin_off_one_simps [simp]:
  "k_generation (begin_off_one c d) = k_generation d" "k_nonces (begin_off_one c d) = k_nonces d"
  "k_start (begin_off_one c d) = k_start d" "k_epoch (begin_off_one c d) = (k_epoch d)(c := k_epoch d c + 1)"
  "k_depth (begin_off_one c d) = (k_depth d)(c := k_depth d c + 1)"
  by (simp_all add: begin_off_one_def invalidate_channel_off_evidence_def)

lemma start_below: "smu_inv (W\<lparr> w_drv := d \<rparr>) \<Longrightarrow> k_start d c = Some t \<Longrightarrow> t \<le> k_epoch d c"
  by (simp add: smu_inv_def)

lemma inv_begin_off_one:
  assumes "smu_inv (W\<lparr> w_drv := d \<rparr>)"
  shows "smu_inv (W\<lparr> w_drv := begin_off_one c d \<rparr>)"
proof -
  have p: "proved (begin_off_one c d) x \<Longrightarrow> x \<noteq> c \<and> proved d x" for x
    by (auto simp: proved_def begin_off_one_def invalidate_channel_off_evidence_def split: if_splits)
  have q: "x \<noteq> c \<Longrightarrow> cold (W\<lparr> w_drv := begin_off_one c d \<rparr>) x = cold (W\<lparr> w_drv := d \<rparr>) x" for x
    by (simp add: cold_def hot_def quiet_def)
  have "k_unsafe (begin_off_one c d)" by (simp add: begin_off_one_def invalidate_channel_off_evidence_def)
  moreover have "t \<le> k_epoch (begin_off_one c d) x" if "k_start d x = Some t" for x t
    using start_below [OF assms that] by auto
  ultimately show ?thesis using assms p q unfolding smu_inv_def by auto
qed

lemma seg_begin_off_one:
  assumes "seg cfg g n d"
  shows "seg cfg g (n(c := n c + 1)) (begin_off_one c d)"
    and "quiet (begin_off_one c d) c"
proof -
  have new: "k_start d c \<noteq> Some (k_epoch d c + 1)" using start_below [OF seg_inv [OF assms], of c "k_epoch d c + 1"] by auto
  thus "quiet (begin_off_one c d) c" by (simp add: quiet_def)
  show "seg cfg g (n(c := n c + 1)) (begin_off_one c d)"
    using new inv_begin_off_one [OF seg_inv [OF assms]]
    by (intro seg_step [OF assms]) (auto simp: quiet_def)
qed

text \<open>The claim of a list of channels: the segment, and for every claimed channel its token and quiet.\<close>

lemma seg_begin_off:
  assumes "seg cfg g n d" "distinct cs"
  shows "seg cfg g (own cs n) (begin_off_operation cs d)
    \<and> k_generation (begin_off_operation cs d) = k_generation d
    \<and> (\<forall>c \<in> set cs. quiet (begin_off_operation cs d) c)
    \<and> (\<forall>c. quiet d c \<longrightarrow> quiet (begin_off_operation cs d) c)"
  using assms
proof (induction cs arbitrary: n d)
  case Nil
  thus ?case by (simp add: own_def begin_off_operation_def)
next
  case (Cons c cs)
  let ?d = "begin_off_one c d"
  have s: "seg cfg g (n(c := n c + 1)) ?d" by (rule seg_begin_off_one(1)) (rule Cons.prems(1))
  have q: "quiet ?d x" if "quiet d x" for x
    using that seg_begin_off_one(2) [OF Cons.prems(1), of c] by (cases "x = c") (auto simp: quiet_def)
  have own_Cons: "own cs (n(c := n c + 1)) = own (c # cs) n" by (auto simp: own_def)
  from Cons.IH [OF s, unfolded own_Cons] Cons.prems(2) show ?case
    using seg_begin_off_one(2) [OF Cons.prems(1), of c] q by (auto simp: begin_off_operation_def)
qed

lemma finish_off_one_simps [simp]:
  "k_generation (finish_off_one c d) = k_generation d" "k_nonces (finish_off_one c d) = k_nonces d"
  "k_start (finish_off_one c d) = k_start d" "k_epoch (finish_off_one c d) = k_epoch d"
  "k_depth (finish_off_one c d) = (k_depth d)(c := k_depth d c - 1)" "k_unsafe (finish_off_one c d) = k_unsafe d"
  "proved (finish_off_one c d) x = proved d x" "quiet (finish_off_one c d) x = quiet d x"
  by (simp_all add: finish_off_one_def proved_def quiet_def)

lemma finish_off_fold [simp]:
  "k_generation (fold finish_off_one cs d) = k_generation d" "k_nonces (fold finish_off_one cs d) = k_nonces d"
  "k_start (fold finish_off_one cs d) = k_start d" "k_epoch (fold finish_off_one cs d) = k_epoch d"
  "k_unsafe (fold finish_off_one cs d) = k_unsafe d"
  "proved (fold finish_off_one cs d) x = proved d x" "quiet (fold finish_off_one cs d) x = quiet d x"
  by (induction cs arbitrary: d) simp_all

lemma finish_off_depth: "k_depth (fold finish_off_one cs d) c = k_depth d c - count_list cs c"
  by (induction cs arbitrary: d) auto

lemma seg_finish_off:
  assumes s: "seg cfg g (own cs n) d" and le: "\<And>c. own cs n c \<le> k_depth d c"
  shows "seg cfg g n (finish_off_operation cs d)"
proof -
  let ?e = "fold finish_off_one cs d"
  have k: "cold (W\<lparr> w_drv := ?e \<rparr>) c = cold (W\<lparr> w_drv := d \<rparr>) c" for W c by (simp add: cold_def hot_def)
  have "smu_inv ((snd g)\<lparr> w_drv := ?e \<rparr>)"
    using seg_inv [OF s] unfolding smu_inv_def by (auto simp: k)
  hence "seg cfg g n ?e"
    using le [unfolded own_def] add_leD2 [OF le [unfolded own_def]]
    by (intro seg_step [OF s]) (auto simp: finish_off_depth own_def)
  thus ?thesis unfolding finish_off_operation_def by (rule seg_refresh)
qed

lemma finish_off_quiet [simp]: "quiet (finish_off_operation cs d) c = quiet d c"
  by (simp add: finish_off_operation_def)

text \<open>Committing OFF evidence needs the knowledge that the channel is off and cannot be switched on.\<close>

lemma mark_simps [simp]:
  "k_generation (fst (mark_channel_off_verified c g e d)) = k_generation d"
  "k_epoch (fst (mark_channel_off_verified c g e d)) = k_epoch d"
  "k_start (fst (mark_channel_off_verified c g e d)) = k_start d"
  "k_depth (fst (mark_channel_off_verified c g e d)) = k_depth d"
  "k_nonces (fst (mark_channel_off_verified c g e d)) = k_nonces d"
  "quiet (fst (mark_channel_off_verified c g e d)) x = quiet d x"
  "snd (mark_channel_off_verified c g e d) = mark_admitted c g e d"
  by (simp_all add: mark_channel_off_verified_def mark_commit_def upd_runtime_def quiet_def)

lemma seg_mark:
  assumes s: "seg cfg g n d"
    and off: "mark_admitted c ge ep d \<Longrightarrow> cold ((snd g)\<lparr> w_drv := d \<rparr>) c"
  shows "seg cfg g n (fst (mark_channel_off_verified c ge ep d))"
proof (cases "mark_admitted c ge ep d")
  case False
  thus ?thesis using s by (simp add: mark_channel_off_verified_def)
next
  case True
  let ?d = "mark_commit c d"
  have e: "k_epoch ?d = k_epoch d" "k_start ?d = k_start d" "k_generation ?d = k_generation d"
    "k_depth ?d = k_depth d" "k_nonces ?d = k_nonces d" "k_unsafe ?d = k_unsafe d"
    by (simp_all add: mark_commit_def upd_runtime_def)
  have p: "proved ?d x = (x = c \<or> proved d x)" for x by (auto simp: proved_def mark_commit_def upd_runtime_def)
  have k: "cold (W\<lparr> w_drv := ?d \<rparr>) x = cold (W\<lparr> w_drv := d \<rparr>) x" for W x
    by (simp add: cold_def hot_def quiet_def e)
  have "smu_inv ((snd g)\<lparr> w_drv := ?d \<rparr>)"
    using seg_inv [OF s] off [OF True] unfolding smu_inv_def by (auto simp: p k e)
  hence "seg cfg g n ?d" by (intro seg_step [OF s]) (auto simp: quiet_def e)
  hence "seg cfg g n (refresh_output_uncertainty ?d)" by (rule seg_refresh)
  thus ?thesis using True by (simp add: mark_channel_off_verified_def)
qed

text \<open>A start claims a channel only while nobody owns an OFF operation on it.\<close>

lemma seg_begin_start:
  assumes s: "seg cfg g n d" and "start_refusal cfg c d = None"
  shows "seg cfg g n (begin_start_operation c d)"
proof -
  let ?d = "begin_start_operation c d"
  have 0: "k_depth d c = 0" using assms(2) by (simp add: start_refusal_def split: if_splits)
  have e: "k_epoch ?d = (k_epoch d)(c := k_epoch d c + 1)" "k_start ?d = (k_start d)(c := Some (k_epoch d c + 1))"
    "k_generation ?d = k_generation d" "k_depth ?d = k_depth d" "k_nonces ?d = k_nonces d" "k_unsafe ?d"
    by (simp_all add: begin_start_operation_def invalidate_channel_off_evidence_def Let_def)
  have p: "proved ?d x \<Longrightarrow> x \<noteq> c \<and> proved d x" for x
    by (auto simp: proved_def begin_start_operation_def invalidate_channel_off_evidence_def Let_def split: if_splits)
  have k: "x \<noteq> c \<Longrightarrow> cold (W\<lparr> w_drv := ?d \<rparr>) x = cold (W\<lparr> w_drv := d \<rparr>) x" for W x
    by (simp add: cold_def hot_def quiet_def e)
  have "smu_inv ((snd g)\<lparr> w_drv := ?d \<rparr>)"
    using seg_inv [OF s] p k unfolding smu_inv_def by (auto simp: e)
  thus ?thesis using 0 by (intro seg_step [OF s]) (auto simp: e quiet_def)
qed

lemma seg_finish_start: "seg cfg g n d \<Longrightarrow> seg cfg g n (finish_start_operation c t d)"
proof -
  assume s: "seg cfg g n d"
  let ?d = "d\<lparr> k_start := (k_start d)(c := None) \<rparr>"
  have p: "proved ?d x = proved d x" for x by (simp add: proved_def)
  have k: "cold (W\<lparr> w_drv := d \<rparr>) x \<Longrightarrow> cold (W\<lparr> w_drv := ?d \<rparr>) x" for W x by (auto simp: cold_def hot_def quiet_def)
  have "smu_inv ((snd g)\<lparr> w_drv := ?d \<rparr>)"
    using seg_inv [OF s] p k unfolding smu_inv_def by auto
  hence "seg cfg g n ?d" by (intro seg_step [OF s]) (auto simp: quiet_def)
  thus ?thesis using s seg_refresh by (simp add: finish_start_operation_def)
qed

lemma seg_record:
  assumes s: "seg cfg g n d"
  shows "seg cfg g n (fst (record_unsafe_output_observation c ge ep op kind d))"
proof (cases "observation_refused c ge ep op kind d")
  case True
  thus ?thesis using s by (simp add: record_unsafe_output_observation_def)
next
  case False
  let ?d = "fst (record_unsafe_output_observation c ge ep op kind d)"
  have st: "k_start d c = None" using False by (simp add: observation_refused_def)
  have e: "k_epoch ?d = (k_epoch d)(c := k_epoch d c + 1)" "k_start ?d = k_start d"
    "k_generation ?d = k_generation d" "k_depth ?d = k_depth d" "k_nonces ?d = k_nonces d" "k_unsafe ?d"
    using False by (simp_all add: record_unsafe_output_observation_def invalidate_channel_off_evidence_def Let_def)
  have p: "proved ?d x \<Longrightarrow> x \<noteq> c \<and> proved d x" for x
    using False by (auto simp: proved_def record_unsafe_output_observation_def invalidate_channel_off_evidence_def Let_def split: if_splits)
  have k: "x \<noteq> c \<Longrightarrow> cold (W\<lparr> w_drv := ?d \<rparr>) x = cold (W\<lparr> w_drv := d \<rparr>) x" for W x
    by (simp add: cold_def hot_def quiet_def e)
  have b: "t \<le> k_epoch ?d x" if "k_start ?d x = Some t" for x t
    using start_below [OF seg_inv [OF s]] that by (fastforce simp: e)
  have "smu_inv ((snd g)\<lparr> w_drv := ?d \<rparr>)"
    using seg_inv [OF s] p k b unfolding smu_inv_def by (auto simp: e)
  thus ?thesis using st by (intro seg_step [OF s]) (auto simp: e quiet_def)
qed

end
