(* ===== verification/SmuRules.thy ===== *)
theory SmuRules
  imports SmuLogic
begin

text \<open>
  Every operation of the Keithley driver keeps the guarantee. Most of an operation is \<open>ordinary\<close>: it keeps
  the segment condition whatever the answers are, by a rule per combinator (\<open>ordinary_intros\<close>). Three
  places need an argument: the OFF sequence, which commits evidence; the command that switches an output
  on; the claim of a new connection, which opens the transport.
\<close>

section \<open>Ordinary programs\<close>

definition ordinary :: "k26_cfg \<Rightarrow> 'a smu_op \<Rightarrow> bool" where
  "ordinary cfg p =
     (\<forall>n g d Q E. seg cfg g n d \<longrightarrow> (\<forall>x g d. seg cfg g n d \<longrightarrow> Q x g d) \<longrightarrow> (\<forall>e g d. seg cfg g n d \<longrightarrow> E e g d)
                   \<longrightarrow> wp (smu_aw cfg) p Q E g d)"

named_theorems ordinary_intros "rules for ordinary programs"

lemma ordinaryI:
  "(\<And>n g d Q E. seg cfg g n d \<Longrightarrow> (\<And>x g d. seg cfg g n d \<Longrightarrow> Q x g d) \<Longrightarrow> (\<And>e g d. seg cfg g n d \<Longrightarrow> E e g d)
     \<Longrightarrow> wp (smu_aw cfg) p Q E g d) \<Longrightarrow> ordinary cfg p"
  unfolding ordinary_def by blast

lemma ordinaryD:
  "ordinary cfg p \<Longrightarrow> seg cfg g n d \<Longrightarrow> (\<And>x g d. seg cfg g n d \<Longrightarrow> Q x g d) \<Longrightarrow> (\<And>e g d. seg cfg g n d \<Longrightarrow> E e g d)
   \<Longrightarrow> wp (smu_aw cfg) p Q E g d"
  unfolding ordinary_def by blast

lemma ordinary_Ret [ordinary_intros]: "ordinary cfg (Ret x)"
  and ordinary_Raise [ordinary_intros]: "ordinary cfg (Raise e)"
  by (auto intro!: ordinaryI)

lemma ordinary_bind [ordinary_intros]:
  assumes "ordinary cfg p" "\<And>x. ordinary cfg (f x)"
  shows "ordinary cfg (co_bind p f)"
  by (rule ordinaryI) (auto simp: wp_bind intro!: ordinaryD [OF assms(1)] ordinaryD [OF assms(2)])

lemma ordinary_then [ordinary_intros]: "ordinary cfg p \<Longrightarrow> ordinary cfg q \<Longrightarrow> ordinary cfg (co_then p q)"
  unfolding co_then_def by (rule ordinary_bind)

lemma ordinary_attempt [ordinary_intros]: "ordinary cfg p \<Longrightarrow> ordinary cfg (co_attempt p)"
  by (rule ordinaryI) (auto simp: wp_attempt intro!: ordinaryD [of cfg p])

lemma ordinary_sum [ordinary_intros]:
  "(\<And>x. ordinary cfg (h x)) \<Longrightarrow> (\<And>x. ordinary cfg (f x)) \<Longrightarrow> ordinary cfg (case y of Inl x \<Rightarrow> h x | Inr x \<Rightarrow> f x)"
  by (cases y) auto

lemma ordinary_try [ordinary_intros]:
  "ordinary cfg p \<Longrightarrow> (\<And>e. ordinary cfg (h e)) \<Longrightarrow> ordinary cfg (co_try p h)"
  unfolding co_try_def
  by (intro ordinary_intros)

lemma ordinary_result [ordinary_intros]: "ordinary cfg (co_result r)"
  by (cases r) (auto intro: ordinary_intros)

lemma ordinary_finally [ordinary_intros]: "ordinary cfg p \<Longrightarrow> ordinary cfg f \<Longrightarrow> ordinary cfg (co_finally p f)"
  unfolding co_finally_def by (intro ordinary_intros)

lemma ordinary_Get [ordinary_intros]: "(\<And>d. ordinary cfg (f d)) \<Longrightarrow> ordinary cfg (Get f)"
  by (rule ordinaryI) (auto intro: ordinaryD)

lemma ordinary_modify:
  "(\<And>g n d. seg cfg g n d \<Longrightarrow> seg cfg g n (f d)) \<Longrightarrow> ordinary cfg (co_modify f)"
  by (rule ordinaryI) (auto simp: wp_modify)

lemma ordinary_gets [ordinary_intros]: "ordinary cfg (co_gets f)"
  and ordinary_require [ordinary_intros]: "ordinary cfg (co_require c e)"
  by (rule ordinaryI, simp add: wp_gets wp_require)+

lemma ordinary_when [ordinary_intros]: "ordinary cfg p \<Longrightarrow> ordinary cfg (co_when b p)"
  by (simp add: co_when_def ordinary_Ret)

lemma ordinary_each [ordinary_intros]: "(\<And>x. x \<in> set xs \<Longrightarrow> ordinary cfg (f x)) \<Longrightarrow> ordinary cfg (co_each f xs)"
  by (induction xs) (auto intro!: ordinary_intros)

lemma ordinary_fold [ordinary_intros]:
  "(\<And>x c. x \<in> set xs \<Longrightarrow> ordinary cfg (f x c)) \<Longrightarrow> ordinary cfg (co_fold f xs c)"
  by (induction xs arbitrary: c) (auto intro!: ordinary_intros)

lemma ordinary_if [ordinary_intros]: "ordinary cfg p \<Longrightarrow> ordinary cfg q \<Longrightarrow> ordinary cfg (if b then p else q)"
  by simp

lemma ordinary_option [ordinary_intros]:
  "ordinary cfg p \<Longrightarrow> (\<And>x. ordinary cfg (f x)) \<Longrightarrow> ordinary cfg (case y of None \<Rightarrow> p | Some x \<Rightarrow> f x)"
  by (cases y) auto

lemma ordinary_bool [ordinary_intros]:
  "ordinary cfg p \<Longrightarrow> ordinary cfg q \<Longrightarrow> ordinary cfg (case b of True \<Rightarrow> p | False \<Rightarrow> q)"
  by (cases b) auto

lemma ordinary_prod [ordinary_intros]:
  "(\<And>x y. ordinary cfg (f x y)) \<Longrightarrow> ordinary cfg (case z of (x, y) \<Rightarrow> f x y)"
  by (cases z) auto

lemma ordinary_kexn [ordinary_intros]:
  assumes "\<And>x. ordinary cfg (f1 x)" "\<And>x. ordinary cfg (f2 x)" "\<And>x. ordinary cfg (f3 x)" "\<And>x. ordinary cfg (f4 x)"
    "ordinary cfg f5" "ordinary cfg f6" "ordinary cfg f7" "ordinary cfg f8" "ordinary cfg f9"
  shows "ordinary cfg (case e of CancelledBy x \<Rightarrow> f1 x | OSErr x \<Rightarrow> f2 x | USBTMCIncompleteCloseError x \<Rightarrow> f3 x
     | PyErr x \<Rightarrow> f4 x | OutputStateUnverifiedError \<Rightarrow> f5 | TransportTeardownIncompleteError \<Rightarrow> f6
     | FailedConnectCleanupError \<Rightarrow> f7 | WatchdogArmError \<Rightarrow> f8 | WatchdogTransportAuthorityError \<Rightarrow> f9)"
  using assms by (cases e) auto

lemma ordinary_Let [ordinary_intros]: "ordinary cfg (f y) \<Longrightarrow> ordinary cfg (Let y f)"
  by (simp add: Let_def)

lemma ordinary_answer [ordinary_intros]:
  "(\<And>x. ordinary cfg (f x)) \<Longrightarrow> (\<And>x. ordinary cfg (h x)) \<Longrightarrow> ordinary cfg (case a of Answer x \<Rightarrow> f x | Fail x \<Rightarrow> h x)"
  by (cases a) auto

text \<open>Awaits.\<close>

lemma ordinary_await:
  assumes "harmless q" "\<And>a. ordinary cfg (k a)"
  shows "ordinary cfg (Await q k)"
  by (rule ordinaryI) (auto intro!: aw_harmless [OF _ assms(1)] ordinaryD [OF assms(2)])

lemma harmless_simps [simp]:
  "harmless (Write cmd) = (\<forall>c. cmd \<noteq> OutputOn c)" "harmless (Query cmd) = (\<forall>c nonce. cmd \<noteq> ChallengeQ c nonce)"
  "harmless CloseTransport" "harmless AcquireIo" "harmless Tick" "harmless LoadScript"
  by (auto simp: harmless_def risky_def)

lemma ordinary_aw_unit [ordinary_intros]: "harmless q \<Longrightarrow> ordinary cfg (aw_unit q)"
  unfolding aw_unit_def by (intro ordinary_await ordinary_intros)

lemma ordinary_write [ordinary_intros]: "(\<And>c. cmd \<noteq> OutputOn c) \<Longrightarrow> ordinary cfg (transport_write cmd)"
  unfolding transport_write_def by (rule ordinary_aw_unit) simp

lemma ordinary_query [ordinary_intros]: "(\<And>c nonce. cmd \<noteq> ChallengeQ c nonce) \<Longrightarrow> ordinary cfg (transport_query cmd)"
  unfolding transport_query_def by (intro ordinary_await ordinary_intros) simp

lemma ordinary_close [ordinary_intros]: "ordinary cfg transport_close"
  unfolding transport_close_def by (rule ordinary_aw_unit) simp

lemma ordinary_tick [ordinary_intros]: "ordinary cfg tick"
  unfolding tick_def by (intro ordinary_await ordinary_intros) simp

lemma ordinary_lift [ordinary_intros]: "ordinary cfg (lift_result r)"
  unfolding lift_result_def by (intro ordinary_intros)

text \<open>Updates.\<close>

lemmas ordinary_updates = same_authority_def upd_runtime_def count_compliance_def failed_start_uncertain_def

lemma ordinary_same [ordinary_intros]: "(\<And>d. same_authority d (f d)) \<Longrightarrow> ordinary cfg (co_modify f)"
  by (rule ordinary_modify) (rule seg_same)

section \<open>Ordinary traffic\<close>

lemma ordinary_recovery [ordinary_intros]: "ordinary cfg (co_modify (enter_recovery cfg))"
  by (rule ordinary_modify) (rule seg_enter_recovery)

lemma ordinary_barred [ordinary_intros]: "ordinary cfg raise_if_operationally_barred"
  unfolding raise_if_operationally_barred_def by (intro ordinary_intros)

lemma ordinary_operational [ordinary_intros]: "ordinary cfg (require_operational_connection cfg)"
  unfolding require_operational_connection_def by (intro ordinary_intros)

lemma ordinary_demote [ordinary_intros]: "ordinary cfg (demote cfg e)"
  unfolding demote_def by (intro ordinary_intros)

lemma ordinary_lock [ordinary_intros]: "ordinary cfg p \<Longrightarrow> ordinary cfg (with_io_lock p)"
  unfolding with_io_lock_def by (intro ordinary_bind ordinary_then ordinary_finally ordinary_aw_unit ordinary_same) (auto simp: same_authority_def)

lemma ordinary_operational_query [ordinary_intros]:
  "(\<And>c nonce. cmd \<noteq> ChallengeQ c nonce) \<Longrightarrow> ordinary cfg (operational_query cfg cmd)"
  unfolding operational_query_def by (intro ordinary_intros) auto

lemma ordinary_operational_write [ordinary_intros]:
  "(\<And>c. cmd \<noteq> OutputOn c) \<Longrightarrow> ordinary cfg p \<Longrightarrow> ordinary cfg (operational_write cfg cmd p)"
  unfolding operational_write_def by (intro ordinary_intros) auto

section \<open>The OFF sequence\<close>

text \<open>
  What an OFF sequence on \<open>cs\<close> knows: it owns every channel; the token of a channel is not above its
  epoch, and while it is the epoch no start has authority; the channels of \<open>D\<close> are off.
\<close>

definition off_state ::
  "k26_cfg \<Rightarrow> smu_channel list \<Rightarrow> (smu_channel \<Rightarrow> int) \<Rightarrow> int \<Rightarrow> owned \<Rightarrow> smu_channel set \<Rightarrow> segment \<Rightarrow> k26 \<Rightarrow> bool" where
  "off_state cfg cs tok gen n D g d =
     (seg cfg g n d \<and> cs \<noteq> [] \<and> k_generation d = gen
      \<and> (\<forall>c \<in> set cs. 0 < n c \<and> tok c \<le> k_epoch d c \<and> (k_epoch d c = tok c \<longrightarrow> quiet d c))
      \<and> D \<subseteq> set cs \<and> (\<forall>c \<in> D. cold ((snd g)\<lparr> w_drv := d \<rparr>) c))"

lemma off_state_seg: "off_state cfg cs tok gen n D g d \<Longrightarrow> seg cfg g n d"
  by (simp add: off_state_def)

lemma off_state_mono: "off_state cfg cs tok gen n D g d \<Longrightarrow> D' \<subseteq> D \<Longrightarrow> off_state cfg cs tok gen n D' g d"
  unfolding off_state_def by blast

text \<open>A synchronous step that changes no epoch, generation or start token keeps the knowledge.\<close>

lemma cold_cong:
  "k_start d' c = k_start d c \<Longrightarrow> k_epoch d' c = k_epoch d c \<Longrightarrow> cold (W\<lparr> w_drv := d' \<rparr>) c = cold (W\<lparr> w_drv := d \<rparr>) c"
  by (simp add: cold_def hot_def quiet_def)

lemma off_state_step:
  assumes "off_state cfg cs tok gen n D g d" "seg cfg g n d'"
    and "k_generation d' = k_generation d" "k_epoch d' = k_epoch d" "k_start d' = k_start d"
  shows "off_state cfg cs tok gen n D g d'"
  using assms cold_cong [of d' _ d "snd g"] unfolding off_state_def by (simp add: quiet_def)

lemma off_state_recovery:
  assumes "off_state cfg cs tok gen n D g d"
  shows "off_state cfg cs tok gen n D g (enter_recovery cfg d)"
  using assms seg_enter_recovery [OF off_state_seg [OF assms]]
  by (rule off_state_step) (simp_all add: enter_recovery_def revoke_off_evidence_def)

lemma off_state_invalidate:
  assumes "off_state cfg cs tok gen n D g d"
  shows "off_state cfg cs tok gen n D g (invalidate_channel_off_evidence c False d)"
  using assms seg_invalidate [OF off_state_seg [OF assms]]
  by (rule off_state_step) (simp_all add: invalidate_channel_off_evidence_def)

text \<open>The knowledge survives an await.\<close>

lemma off_state_resumes:
  assumes o: "off_state cfg cs tok gen n D g d" and q: "\<And>c. \<not> risky c q"
    and r: "resumes n (issue (snd g) d (Some q)) q a W'"
  shows "off_state cfg cs tok gen n D (n, W') (w_drv W')"
proof -
  let ?W = "issue (snd g) d (Some q)"
  have rel: "rely n ?W W'" using r by (simp add: resumes_def)
  obtain x where x: "x \<in> set cs" using o by (cases cs) (auto simp: off_state_def)
  have gen: "k_generation (w_drv W') = gen"
    using rely_owned [OF rel, of x] o x by (auto simp: off_state_def)
  have c: "tok c \<le> k_epoch (w_drv W') c \<and> (k_epoch (w_drv W') c = tok c \<longrightarrow> quiet (w_drv W') c)" if "c \<in> set cs" for c
  proof -
    have t: "tok c \<le> k_epoch d c" "k_epoch d c = tok c \<longrightarrow> quiet d c" using o that by (auto simp: off_state_def)
    have m: "k_epoch d c \<le> k_epoch (w_drv W') c" using rely_epoch [OF rel, of c] by simp
    have "quiet (w_drv W') c" if e: "k_epoch (w_drv W') c = tok c"
      using rely_quiet [OF rel, of c] t m e gen o by (auto simp: off_state_def)
    thus ?thesis using t m by auto
  qed
  have k: "cold W' c" if "c \<in> D" for c
  proof (rule rely_cold [OF rel])
    show "0 < n c" using o that by (auto simp: off_state_def)
    have "cold ((snd g)\<lparr> w_drv := d \<rparr>) c" using o that by (simp add: off_state_def)
    thus "cold ?W c" using q hot_issue [of "Some q" c "snd g" d] by (simp add: cold_def)
  qed
  show ?thesis
    using o c gen k seg_resumed [OF r] by (auto simp: off_state_def)
qed

lemma aw_off:
  assumes "off_state cfg cs tok gen n D g d" "harmless q"
    and "\<And>W' a. off_state cfg cs tok gen n D (n, W') (w_drv W') \<Longrightarrow> (\<And>c. n c \<le> k_depth (w_drv W') c) \<Longrightarrow> K (n, W') (w_drv W') a"
  shows "smu_aw cfg g d q K"
proof (rule aw_harmless [OF off_state_seg [OF assms(1)] assms(2)])
  fix W' a
  assume r: "resumes n (issue (snd g) d (Some q)) q a W'"
  show "K (n, W') (w_drv W') a"
    using assms(3) [OF off_state_resumes [OF assms(1) _ r]] assms(2) r by (simp add: harmless_def resumes_def)
qed

lemma wp_off_command:
  assumes "off_state cfg cs tok gen n D g d" "\<And>c. cmd \<noteq> OutputOn c"
    and "\<And>acc g d. off_state cfg cs tok gen n D g d \<Longrightarrow> Q acc g d"
  shows "wp (smu_aw cfg) (off_command cfg cmd c acc) Q E g d"
proof -
  have "wp (smu_aw cfg) (co_attempt (transport_write cmd))
          (\<lambda>r. wp (smu_aw cfg) (case r of Inr _ \<Rightarrow> Ret acc
             | Inl e \<Rightarrow> co_then (co_modify (enter_recovery cfg)) (Ret ((fst acc)(c := True), defer_exn e (snd acc)))) Q E) E g d"
    unfolding transport_write_def aw_unit_def wp_attempt wp.simps
    by (rule aw_off [OF assms(1)])
      (use assms(2,3) off_state_recovery in \<open>auto simp: co_simps split: answer.split\<close>)
  thus ?thesis by (simp add: off_command_def wp_bind)
qed

lemma wp_off_pair:
  assumes "off_state cfg cs tok gen n D g d"
    and "\<And>acc g d. off_state cfg cs tok gen n D g d \<Longrightarrow> Q acc g d"
  shows "wp (smu_aw cfg) (off_commands cfg c acc) Q E g d"
  unfolding off_commands_def wp_bind
  by (rule wp_off_command [OF assms(1)], simp, rule wp_off_command, assumption, simp, rule assms(2))

lemma wp_off_commands:
  assumes "off_state cfg cs tok gen n D g d"
    and "\<And>acc g d. off_state cfg cs tok gen n D g d \<Longrightarrow> Q acc g d"
  shows "wp (smu_aw cfg) (co_fold (off_commands cfg) xs acc) Q E g d"
  using assms
proof (induction xs arbitrary: acc g d)
  case (Cons x xs)
  show ?case unfolding wp_fold
    by (rule wp_off_pair [OF Cons.prems(1)]) (rule Cons.IH, assumption, rule Cons.prems(2))
qed (simp add: wp_fold)

text \<open>The readback: an accepted challenge means off, as long as the token is the epoch.\<close>

lemma guar_challenge:
  assumes s: "seg cfg g n d"
  shows "guar cfg g n (d\<lparr> k_nonces := k_nonces d + 1 \<rparr>) (Some (Query (ChallengeQ c (cf_nonce cfg (k_nonces d)))))"
proof -
  let ?d = "d\<lparr> k_nonces := k_nonces d + 1 \<rparr>" and ?q = "Query (ChallengeQ c (cf_nonce cfg (k_nonces d)))"
  have s': "seg cfg g n ?d" by (rule seg_same [OF s]) (simp add: same_authority_def)
  have n: "k_nonces (w_drv (snd g)) \<le> k_nonces d" using s by (simp add: guar_def Let_def)
  have q: "\<not> risky x ?q" for x by (simp add: risky_def)
  have "smu_inv (issue (snd g) ?d (Some ?q))"
    using inv_issue [of ?d "Some ?q" "snd g"] seg_inv [OF s'] q by simp
  thus ?thesis using s' n q by (auto simp: guar_def Let_def)
qed

lemma resumes_off:
  assumes "resumes n W q a W'" "off_answer q a c"
  shows "\<exists>We. rely n W We \<and> \<not> w_on We c \<and> (\<forall>e \<in> set (w_wire We). w_seq W \<le> fst e) \<and> rely n We W'"
proof -
  from assms(1) have "off_answer q a c \<longrightarrow> (\<exists>We. rely n W We \<and> \<not> w_on We c \<and> (\<forall>e \<in> set (w_wire We). w_seq W \<le> fst e) \<and> rely n We W')"
    unfolding resumes_def by (elim conjE) (erule spec)
  with assms(2) show ?thesis by (rule mp [rotated])
qed

lemma challenge_off:
  assumes o: "off_state cfg cs tok gen n D g d" and c: "c \<in> set cs"
    and r: "resumes n (issue (snd g) d (Some q)) q a W'" and a: "off_answer q a c" and e: "k_epoch (w_drv W') c = tok c"
  shows "cold W' c"
proof -
  let ?W = "issue (snd g) d (Some q)"
  obtain We where we: "rely n ?W We" "\<not> w_on We c" "\<And>e. e \<in> set (w_wire We) \<Longrightarrow> w_seq ?W \<le> fst e" "rely n We W'"
    using resumes_off [OF r a] by auto
  have t: "tok c \<le> k_epoch d c" "k_epoch d c = tok c \<Longrightarrow> quiet d c" "0 < n c" using o c by (auto simp: off_state_def)
  have m: "k_epoch d c \<le> k_epoch (w_drv We) c" "k_epoch (w_drv We) c \<le> k_epoch (w_drv W') c"
    using rely_epoch [OF we(1), of c] rely_epoch [OF we(4), of c] by simp_all
  have ep: "k_epoch (w_drv We) c = k_epoch (w_drv ?W) c" "quiet (w_drv ?W) c" using t m e by auto
  have gn: "k_generation (w_drv We) = k_generation (w_drv ?W)" using rely_owned [of n _ _ c] we(1) t(3) by blast
  have "quiet (w_drv We) c \<and> (\<forall>x \<in> set (w_wire We). risky c (snd x) \<longrightarrow> fst x < w_seq ?W)"
    using rely_quiet [OF we(1) ep(2) ep(1) gn] by blast
  hence "cold We c" using we(2,3) by (fastforce simp: cold_def hot_def)
  thus ?thesis using rely_cold [OF we(4) t(3)] by blast
qed

lemma wp_verify:
  assumes "\<not> cf_mock cfg" and o: "off_state cfg cs tok gen n D g d" and c: "c \<in> set cs"
    and Q: "\<And>b g d. off_state cfg cs tok gen n D g d \<Longrightarrow>
               (b \<Longrightarrow> k_epoch d c = tok c \<Longrightarrow> cold ((snd g)\<lparr> w_drv := d \<rparr>) c) \<Longrightarrow> Q b g d"
    and E: "\<And>e g d. off_state cfg cs tok gen n D g d \<Longrightarrow> E e g d"
  shows "wp (smu_aw cfg) (verify_output_off cfg c) Q E g d"
proof (cases "transport_available d")
  case False
  thus ?thesis using assms(1) Q [OF o, of False] by (simp add: verify_output_off_def)
next
  case True
  let ?n = "cf_nonce cfg (k_nonces d)" and ?d = "d\<lparr> k_nonces := k_nonces d + 1 \<rparr>"
  let ?q = "Query (ChallengeQ c ?n)"
  have o': "off_state cfg cs tok gen n D g ?d"
    by (rule off_state_step [OF o]) (auto intro: seg_same [OF off_state_seg [OF o]] simp: same_authority_def)
  have k: "wp (smu_aw cfg)
             (case a of Answer s \<Rightarrow> Ret s | Fail e \<Rightarrow> Raise e)
             (\<lambda>response. wp (smu_aw cfg)
               (case parse_output_off_challenge response ?n of Inl _ \<Rightarrow> Ret False | Inr off \<Rightarrow> Ret off) Q E) E (n, W') (w_drv W')"
    if r: "resumes n (issue (snd g) ?d (Some ?q)) ?q a W'" for W' a
  proof -
    have o2: "off_state cfg cs tok gen n D (n, W') (w_drv W')"
      by (rule off_state_resumes [OF o' _ r]) (simp add: risky_def)
    show ?thesis
    proof (cases a)
      case (Fail e)
      thus ?thesis using E [OF o2] by simp
    next
      case (Answer s)
      show ?thesis
      proof (cases "parse_output_off_challenge s ?n")
        case (Inl x)
        thus ?thesis using Q [OF o2, of False] Answer by simp
      next
        case (Inr off)
        have "cold ((snd (n, W'))\<lparr> w_drv := w_drv W' \<rparr>) c" if "off" "k_epoch (w_drv W') c = tok c"
          using challenge_off [OF o' c r _ that(2)] Answer Inr that(1) by (simp add: off_answer_def)
        thus ?thesis using Q [OF o2, of off] Answer Inr by simp
      qed
    qed
  qed
  have "smu_aw cfg g ?d ?q (\<lambda>g' s' a. wp (smu_aw cfg) (case a of Answer s \<Rightarrow> Ret s | Fail e \<Rightarrow> Raise e)
             (\<lambda>response. wp (smu_aw cfg)
               (case parse_output_off_challenge response ?n of Inl _ \<Rightarrow> Ret False | Inr off \<Rightarrow> Ret off) Q E) E g' s')"
    by (rule smu_awI [OF guar_challenge [OF off_state_seg [OF o]]]) (rule k)
  thus ?thesis using True assms(1)
    by (simp add: verify_output_off_def draw_nonce_def transport_query_def wp_bind)
qed

lemma wp_settle:
  assumes o: "off_state cfg cs tok gen n D g d" and c: "c \<in> set cs"
    and off: "confirmed \<Longrightarrow> k_epoch d c = tok c \<Longrightarrow> cold ((snd g)\<lparr> w_drv := d \<rparr>) c"
    and Q: "\<And>b D' d. off_state cfg cs tok gen n D' g d \<Longrightarrow> D \<subseteq> D' \<Longrightarrow> (b \<Longrightarrow> ok \<and> c \<in> D') \<Longrightarrow> Q b g d"
  shows "wp (smu_aw cfg) (settle_readback cfg tok gen c confirmed ok) Q E g d"
proof (cases confirmed)
  case True
  let ?m = "mark_channel_off_verified c (Some gen) (Some (tok c)) d"
  have admitted: "cold ((snd g)\<lparr> w_drv := d \<rparr>) c" if "mark_admitted c (Some gen) (Some (tok c)) d"
    using off [OF True] that by (simp add: mark_admitted_def)
  have s: "seg cfg g n (fst ?m)" by (rule seg_mark [OF off_state_seg [OF o] admitted])
  have o2: "off_state cfg cs tok gen n D g (fst ?m)" by (rule off_state_step [OF o s]) simp_all
  have o3: "off_state cfg cs tok gen n (if snd ?m then insert c D else D) g (fst ?m)"
    using o2 c admitted cold_cong [of "fst ?m" c d "snd g"] unfolding off_state_def by auto
  have "Q (snd ?m \<and> ok) g (fst ?m)"
    by (rule Q [OF o3]) auto
  thus ?thesis using True by (simp add: settle_readback_def co_mark_def wp_bind split_beta)
next
  case False
  have "Q False g (if tok c = k_epoch d c then invalidate_channel_off_evidence c False d else d)"
    by (rule Q [where D' = D]) (use o off_state_invalidate [OF o] in auto)
  thus ?thesis using False by (simp add: settle_readback_def wp_then wp_modify)
qed

lemma wp_off_readback:
  assumes m: "\<not> cf_mock cfg" and o: "off_state cfg cs tok gen n D g d" and c: "c \<in> set cs"
    and Q: "\<And>acc' D' g d. off_state cfg cs tok gen n D' g d \<Longrightarrow> D \<subseteq> D' \<Longrightarrow> (fst acc' \<Longrightarrow> fst acc \<and> c \<in> D') \<Longrightarrow> Q acc' g d"
  shows "wp (smu_aw cfg) (off_readback cfg tok gen failed c acc) Q E g d"
proof -
  have settle: "wp (smu_aw cfg) (settle_readback cfg tok gen c (b \<and> \<not> failed c) (fst acc)) (\<lambda>x. wp (smu_aw cfg) (Ret (x, e)) Q E) E g d"
    if "off_state cfg cs tok gen n D g d" "b \<Longrightarrow> k_epoch d c = tok c \<Longrightarrow> cold ((snd g)\<lparr> w_drv := d \<rparr>) c" for b e g d
  proof (rule wp_settle [OF that(1) c])
    fix b' D' d'
    assume "off_state cfg cs tok gen n D' g d'" "D \<subseteq> D'" "b' \<Longrightarrow> fst acc \<and> c \<in> D'"
    hence "Q (b', e) g d'" by (intro Q) auto
    thus "wp (smu_aw cfg) (Ret (b', e)) Q E g d'" by simp
  qed (use that(2) in simp)
  show ?thesis
    unfolding off_readback_def wp_bind wp_attempt
  proof (rule wp_verify [OF m o c], goal_cases)
    case (1 b g d)
    thus ?case using settle by (simp add: wp_bind)
  next
    case (2 e g d)
    thus ?case using settle [of g "enter_recovery cfg d" False] off_state_recovery by (simp add: wp_bind wp_then wp_modify)
  qed
qed

lemma wp_off_readbacks:
  assumes m: "\<not> cf_mock cfg"
    and "off_state cfg cs tok gen n D g d" "set xs \<subseteq> set cs"
    and "\<And>acc' D' g d. off_state cfg cs tok gen n D' g d \<Longrightarrow> (fst acc' \<Longrightarrow> fst acc \<and> D \<union> set xs \<subseteq> D') \<Longrightarrow> Q acc' g d"
  shows "wp (smu_aw cfg) (co_fold (off_readback cfg tok gen failed) xs acc) Q E g d"
  using assms(2-)
proof (induction xs arbitrary: acc g d D)
  case Nil
  thus ?case by (auto simp: wp_fold)
next
  case (Cons x xs)
  show ?case unfolding wp_fold
  proof (rule wp_off_readback [OF m Cons.prems(1)])
    fix acc' :: "bool \<times> kexn option" and D' g d
    assume o: "off_state cfg cs tok gen n D' g d" and D: "D \<subseteq> D'" "fst acc' \<Longrightarrow> fst acc \<and> x \<in> D'"
    show "wp (smu_aw cfg) (co_fold (off_readback cfg tok gen failed) xs acc') Q E g d"
    proof (rule Cons.IH [OF o])
      fix acc2 :: "bool \<times> kexn option" and D2 g d
      assume "off_state cfg cs tok gen n D2 g d" "fst acc2 \<Longrightarrow> fst acc' \<and> D' \<union> set xs \<subseteq> D2"
      thus "Q acc2 g d" by (intro Cons.prems(3)) (use D in auto)
    qed (use Cons.prems(2) in simp)
  qed (use Cons.prems(2) in simp)
qed

lemma wp_off_sequence:
  assumes m: "\<not> cf_mock cfg" and o: "off_state cfg cs tok gen n {} g d"
    and Q: "\<And>ok D g d. off_state cfg cs tok gen n D g d \<Longrightarrow> (ok \<Longrightarrow> set cs \<subseteq> D) \<Longrightarrow> Q ok g d"
    and E: "\<And>e D g d. off_state cfg cs tok gen n D g d \<Longrightarrow> E e g d"
  shows "wp (smu_aw cfg) (attempt_output_off_sequence cfg cs tok gen) Q E g d"
proof -
  let ?tail = "\<lambda>x. case x of (ok, deferred) \<Rightarrow> case deferred of Some e \<Rightarrow> Raise e | None \<Rightarrow> Ret ok"
  have r: "wp (smu_aw cfg) (co_fold (off_readback cfg tok gen failed) cs (True, deferred))
      (\<lambda>x. wp (smu_aw cfg) (?tail x) Q E) E g d"
    if "off_state cfg cs tok gen n {} g d" for failed deferred g d
  proof (rule wp_off_readbacks [OF m that])
    fix acc :: "bool \<times> kexn option" and D g d
    assume o: "off_state cfg cs tok gen n D g d" and D: "fst acc \<Longrightarrow> fst (True, deferred) \<and> {} \<union> set cs \<subseteq> D"
    obtain ok e where acc: "acc = (ok, e)" by (cases acc)
    show "wp (smu_aw cfg) (?tail acc) Q E g d"
      using Q [OF o, of ok] E [OF o] D by (cases e) (auto simp: acc)
  qed simp
  have "wp (smu_aw cfg) (co_fold (off_commands cfg) cs (\<lambda>_. False, None))
      (\<lambda>x. wp (smu_aw cfg) (case x of (failed, deferred) \<Rightarrow>
         co_bind (co_fold (off_readback cfg tok gen failed) cs (True, deferred)) ?tail) Q E) E g d"
  proof (rule wp_off_commands [OF o])
    fix acc :: "(smu_channel \<Rightarrow> bool) \<times> kexn option" and g d
    assume o: "off_state cfg cs tok gen n {} g d"
    obtain f e where acc: "acc = (f, e)" by (cases acc)
    show "wp (smu_aw cfg) (case acc of (failed, deferred) \<Rightarrow>
         co_bind (co_fold (off_readback cfg tok gen failed) cs (True, deferred)) ?tail) Q E g d"
      unfolding acc prod.case wp_bind by (rule r [OF o])
  qed
  thus ?thesis using m by (simp add: attempt_output_off_sequence_def wp_bind)
qed

text \<open>An owned OFF operation: a confirmed one leaves every channel off when it returns.\<close>

lemma own_pos: "c \<in> set cs \<Longrightarrow> 0 < own cs n c"
  by (induction cs) (auto simp: own_def)

lemma off_state_begin:
  assumes "seg cfg g n d" "distinct cs" "cs \<noteq> []"
  shows "off_state cfg cs (k_epoch (begin_off_operation cs d)) (k_generation (begin_off_operation cs d)) (own cs n) {} g
           (begin_off_operation cs d)"
  using seg_begin_off [OF assms(1,2)] assms(3) own_pos by (auto simp: off_state_def)

lemma wp_tick:
  assumes "off_state cfg cs tok gen n D g d"
    and "\<And>b g d. off_state cfg cs tok gen n D g d \<Longrightarrow> (\<And>c. n c \<le> k_depth d c) \<Longrightarrow> Q b g d"
  shows "wp (smu_aw cfg) tick Q E g d"
  unfolding tick_def wp.simps
  by (rule aw_off [OF assms(1)]) (use assms(2) in \<open>auto split: answer.split\<close>)

lemma wp_owned_off:
  assumes m: "\<not> cf_mock cfg" and s: "seg cfg g n d" and cs: "distinct cs" "cs \<noteq> []"
    and Q: "\<And>ok c g d. seg cfg g n d \<Longrightarrow> (ok \<Longrightarrow> (\<And>x. x \<in> set cs \<Longrightarrow> cold ((snd g)\<lparr> w_drv := d \<rparr>) x)) \<Longrightarrow> Q (ok, c) g d"
    and E: "\<And>e g d. seg cfg g n d \<Longrightarrow> E e g d"
  shows "wp (smu_aw cfg) (attempt_owned_off cfg cs) Q E g d"
proof -
  let ?d = "begin_off_operation cs d"
  let ?tok = "k_epoch ?d" and ?gen = "k_generation ?d"
  let ?off = "off_state cfg cs ?tok ?gen (own cs n)"
  have finish: "wp (smu_aw cfg) tick (\<lambda>c2. wp (smu_aw cfg)
       (co_then (co_modify (finish_off_operation cs)) (case r of Inl e \<Rightarrow> Raise e | Inr ok \<Rightarrow> Ret (ok, c1 \<or> c2))) Q E) E g d"
    if o: "?off D g d" and D: "r = Inr True \<Longrightarrow> set cs \<subseteq> D" for r :: "kexn + bool" and c1 D g d
  proof (rule wp_tick [OF o])
    fix c2 g d
    assume o: "?off D g d" and le: "\<And>c. own cs n c \<le> k_depth d c"
    have s: "seg cfg g n (finish_off_operation cs d)" by (rule seg_finish_off [OF off_state_seg [OF o] le])
    have k: "cold ((snd g)\<lparr> w_drv := finish_off_operation cs d \<rparr>) x" if "x \<in> D" for x
      using o that by (simp add: off_state_def cold_def hot_def)
    show "wp (smu_aw cfg)
       (co_then (co_modify (finish_off_operation cs)) (case r of Inl e \<Rightarrow> Raise e | Inr ok \<Rightarrow> Ret (ok, c1 \<or> c2))) Q E g d"
    proof (cases r)
      case (Inl e)
      thus ?thesis using E [OF s] by (simp add: wp_then wp_modify)
    next
      case (Inr ok)
      have "Q (ok, c1 \<or> c2) g (finish_off_operation cs d)" by (rule Q [OF s]) (use D k Inr in auto)
      thus ?thesis using Inr by (simp add: wp_then wp_modify)
    qed
  qed
  have run: "wp (smu_aw cfg) (co_attempt (attempt_output_off_sequence cfg cs ?tok ?gen))
       (\<lambda>r. wp (smu_aw cfg) (co_bind tick (\<lambda>c2. co_then (co_modify (finish_off_operation cs))
              (case r of Inl e \<Rightarrow> Raise e | Inr ok \<Rightarrow> Ret (ok, c1 \<or> c2)))) Q E) E g d"
    if o: "?off {} g d" for c1 g d
    unfolding wp_attempt wp_bind
    by (rule wp_off_sequence [OF m o]) (rule finish, assumption, simp)+
  have "wp (smu_aw cfg) tick (\<lambda>c1. wp (smu_aw cfg) (co_bind (co_attempt (attempt_output_off_sequence cfg cs ?tok ?gen))
       (\<lambda>r. co_bind tick (\<lambda>c2. co_then (co_modify (finish_off_operation cs))
              (case r of Inl e \<Rightarrow> Raise e | Inr ok \<Rightarrow> Ret (ok, c1 \<or> c2))))) Q E) E g ?d"
    by (rule wp_tick [OF off_state_begin [OF s cs]]) (use run in \<open>simp add: wp_bind\<close>)
  thus ?thesis by (simp add: attempt_owned_off_def wp_then wp_modify wp_bind)
qed

lemma ordinary_owned_off [ordinary_intros]:
  "\<not> cf_mock cfg \<Longrightarrow> distinct cs \<Longrightarrow> cs \<noteq> [] \<Longrightarrow> ordinary cfg (attempt_owned_off cfg cs)"
  by (rule ordinaryI, rule wp_owned_off) auto

end
