(* ===== verification/SmuSafe.thy ===== *)
theory SmuSafe
  imports SmuRules
begin

text \<open>
  Every operation of the physical Keithley driver keeps the guarantee, and what the OFF operations
  promise when they return.
\<close>

section \<open>OFF operations\<close>

text \<open>What an operation that returns \<open>x\<close> promises about its channels.\<close>

definition reports_off :: "smu_channel list \<Rightarrow> bool \<Rightarrow> segment \<Rightarrow> k26 \<Rightarrow> bool" where
  "reports_off cs b g d = (b \<longrightarrow> (\<forall>c \<in> set cs. cold ((snd g)\<lparr> w_drv := d \<rparr>) c))"

lemma target_channels_ok: "target_channels channel = Inr cs \<Longrightarrow> distinct cs \<and> cs \<noteq> []"
  by (auto simp: target_channels_def res_bind_Inr_iff SMU_CHANNELS_def split: option.splits)

lemma wp_emergency_off:
  assumes m: "\<not> cf_mock cfg" and s: "seg cfg g n d"
    and Q: "\<And>r g d. seg cfg g n d \<Longrightarrow> (\<And>cs. target_channels channel = Inr cs \<Longrightarrow> reports_off cs (r = DEVICE_REPORTED_OFF) g d) \<Longrightarrow> Q r g d"
    and E: "\<And>e g d. seg cfg g n d \<Longrightarrow> E e g d"
  shows "wp (smu_aw cfg) (emergency_off cfg channel) Q E g d"
proof (cases "k_teardown d")
  case True
  thus ?thesis using E [OF s] by (simp add: emergency_off_def)
next
  case False
  show ?thesis
  proof (cases "target_channels channel")
    case (Inl e)
    thus ?thesis using False E [OF s] by (simp add: emergency_off_def wp_bind lift_result_def)
  next
    case (Inr cs)
    let ?p = "co_bind (attempt_owned_off cfg cs) (\<lambda>(off_confirmed, cancelled).
                    if cancelled then Raise CancelledError
                    else Ret (if off_confirmed then DEVICE_REPORTED_OFF else PHYSICAL_STATE_UNKNOWN))"
    have "wp (smu_aw cfg) ?p Q E g d" unfolding wp_bind
    proof (rule wp_owned_off [OF m s])
      fix ok c g d
      assume s: "seg cfg g n d" and k: "ok \<Longrightarrow> (\<And>x. x \<in> set cs \<Longrightarrow> cold ((snd g)\<lparr> w_drv := d \<rparr>) x)"
      have "Q (if ok then DEVICE_REPORTED_OFF else PHYSICAL_STATE_UNKNOWN) g d"
        by (rule Q [OF s]) (use k Inr in \<open>auto simp: reports_off_def\<close>)
      thus "wp (smu_aw cfg) (case (ok, c) of (off_confirmed, cancelled) \<Rightarrow> if cancelled then Raise CancelledError
                    else Ret (if off_confirmed then DEVICE_REPORTED_OFF else PHYSICAL_STATE_UNKNOWN)) Q E g d"
        using E [OF s] by simp
    qed (use target_channels_ok [OF Inr] E in auto)
    moreover have "Q PHYSICAL_STATE_UNKNOWN g (d\<lparr> k_unsafe := True \<rparr>)"
      by (rule Q [OF seg_same [OF s]]) (simp_all add: same_authority_def reports_off_def)
    ultimately show ?thesis using False Inr m
      by (simp add: emergency_off_def wp_bind lift_result_def wp_then wp_modify)
  qed
qed

lemma ordinary_emergency [ordinary_intros]: "\<not> cf_mock cfg \<Longrightarrow> ordinary cfg (emergency_off cfg channel)"
  by (rule ordinaryI, rule wp_emergency_off) auto

lemma wp_stop_source:
  assumes m: "\<not> cf_mock cfg" and s: "seg cfg g n d"
    and Q: "\<And>g d. seg cfg g n d \<Longrightarrow> (\<And>c. normalize_smu_channel channel = Inr c \<Longrightarrow> reports_off [c] True g d) \<Longrightarrow> Q () g d"
    and E: "\<And>e g d. seg cfg g n d \<Longrightarrow> E e g d"
  shows "wp (smu_aw cfg) (stop_source cfg channel) Q E g d"
proof (cases "normalize_smu_channel channel")
  case (Inl e)
  thus ?thesis using E [OF s] by (simp add: stop_source_def wp_bind lift_result_def)
next
  case (Inr c)
  have off: "wp (smu_aw cfg) (co_bind (attempt_owned_off cfg [c]) (\<lambda>(off_confirmed, cancelled).
                 if cancelled then Raise CancelledError
                 else if \<not> off_confirmed then Raise OutputStateUnverifiedError
                 else Ret ())) Q E g d" if s: "seg cfg g n d" for g d
    unfolding wp_bind
  proof (rule wp_owned_off [OF m s])
    fix ok b g d
    assume s: "seg cfg g n d" and k: "ok \<Longrightarrow> (\<And>x. x \<in> set [c] \<Longrightarrow> cold ((snd g)\<lparr> w_drv := d \<rparr>) x)"
    have "ok \<Longrightarrow> Q () g d" by (rule Q [OF s]) (use k Inr in \<open>auto simp: reports_off_def\<close>)
    thus "wp (smu_aw cfg) (case (ok, b) of (off_confirmed, cancelled) \<Rightarrow> if cancelled then Raise CancelledError
                 else if \<not> off_confirmed then Raise OutputStateUnverifiedError else Ret ()) Q E g d"
      using E [OF s] by simp
  qed (use E in auto)
  have up: "wp (smu_aw cfg) (co_then (require_operational_connection cfg) p) Q E g d"
    if "\<And>g d. seg cfg g n d \<Longrightarrow> wp (smu_aw cfg) p Q E g d" "seg cfg g n d" for p g d
    unfolding wp_then by (rule ordinaryD [OF ordinary_operational]) (use that E in auto)
  have "E OutputStateUnverifiedError g (d\<lparr> k_unsafe := True \<rparr>)"
    by (rule E [OF seg_same [OF s]]) (simp add: same_authority_def)
  thus ?thesis using m Inr E [OF s] up [OF off s]
    by (simp add: stop_source_def wp_bind lift_result_def raise_if_operationally_barred_def wp_then wp_modify)
qed

lemma ordinary_stop [ordinary_intros]: "\<not> cf_mock cfg \<Longrightarrow> ordinary cfg (stop_source cfg channel)"
  by (rule ordinaryI, rule wp_stop_source) auto

section \<open>Starting\<close>

lemma ordinary_current_start [ordinary_intros]: "ordinary cfg (require_current_start c token)"
  unfolding require_current_start_def by (intro ordinary_intros)

lemma ordinary_current_regulation [ordinary_intros]: "ordinary cfg (require_current_regulation c ge ep)"
  unfolding require_current_regulation_def by (intro ordinary_intros)

lemma ordinary_write_owned [ordinary_intros]:
  "(\<And>x. cmd \<noteq> OutputOn x) \<Longrightarrow> ordinary cfg (write_owned cfg c token cmd)"
  unfolding write_owned_def by (intro ordinary_intros)

lemma start_commands_off: "cmd \<in> set (start_commands c v i) \<Longrightarrow> cmd \<noteq> OutputOn x"
  by (auto simp: start_commands_def)

lemma ordinary_prepare: "\<not> cf_mock cfg \<Longrightarrow> ordinary cfg (start_prepare cfg c token v i)"
  by (simp add: start_prepare_def) (intro ordinary_intros start_commands_off)

text \<open>The command that switches on is issued with the authority of the current epoch.\<close>

lemma guar_output_on:
  assumes s: "seg cfg g n d" and a: "start_operation_is_current c token d"
  shows "guar cfg g n d (Some (Write (OutputOn c)))"
proof -
  have nq: "\<not> quiet d c" using a by (simp add: start_operation_is_current_def quiet_def)
  have np: "\<not> proved d c" using seg_inv [OF s] nq by (auto simp: smu_inv_def cold_def)
  have r: "risky x (Write (OutputOn c)) = (x = c)" for x by (auto simp: risky_def)
  have "smu_inv (issue (snd g) d (Some (Write (OutputOn c))))"
    using inv_issue [of d "Some (Write (OutputOn c))" "snd g"] seg_inv [OF s] np by (auto simp: r)
  thus ?thesis using s nq by (auto simp: guar_def Let_def r)
qed

lemma ordinary_output_on:
  "ordinary cfg (co_then (require_current_start c token) (co_try (transport_write (OutputOn c)) (demote cfg)))"
proof (rule ordinaryI)
  fix n g d and Q :: "unit \<Rightarrow> segment \<Rightarrow> k26 \<Rightarrow> bool" and E :: "kexn \<Rightarrow> segment \<Rightarrow> k26 \<Rightarrow> bool"
  assume s: "seg cfg g n d" and Q: "\<And>x g d. seg cfg g n d \<Longrightarrow> Q x g d" and E: "\<And>e g d. seg cfg g n d \<Longrightarrow> E e g d"
  have "smu_aw cfg g d (Write (OutputOn c))
          (\<lambda>g' s' a. wp (smu_aw cfg) (case a of Answer _ \<Rightarrow> Ret () | Fail e \<Rightarrow> Raise e) Q (\<lambda>e. wp (smu_aw cfg) (demote cfg e) Q E) g' s')"
    if a: "start_operation_is_current c token d"
  proof (rule smu_awI [OF guar_output_on [OF s a]])
    fix W' a
    assume "resumes n (issue (snd g) d (Some (Write (OutputOn c)))) (Write (OutputOn c)) a W'"
    note s' = seg_resumed [OF this, of cfg]
    show "wp (smu_aw cfg) (case a of Answer _ \<Rightarrow> Ret () | Fail e \<Rightarrow> Raise e) Q (\<lambda>e. wp (smu_aw cfg) (demote cfg e) Q E) (n, W') (w_drv W')"
      using Q [OF s'] ordinaryD [OF ordinary_demote s', of Q E] Q E by (cases a) auto
  qed
  thus "wp (smu_aw cfg) (co_then (require_current_start c token) (co_try (transport_write (OutputOn c)) (demote cfg))) Q E g d"
    using E [OF s] by (simp add: wp_then wp_try require_current_start_def wp_require transport_write_def aw_unit_def)
qed

lemma ordinary_switch_on: "ordinary cfg (operational_write cfg (OutputOn c) (require_current_start c token))"
  unfolding operational_write_def
  by (intro ordinary_lock ordinary_then [OF ordinary_operational] ordinary_output_on)

lemma ordinary_output: "\<not> cf_mock cfg \<Longrightarrow> ordinary cfg (start_output cfg c token)"
  by (simp add: start_output_def)
    (intro ordinary_intros ordinary_switch_on; simp add: ordinary_updates)

lemma ordinary_failed_start [ordinary_intros]: "\<not> cf_mock cfg \<Longrightarrow> ordinary cfg (failed_start cfg c b e)"
  unfolding failed_start_def by (intro ordinary_intros) (auto simp: ordinary_updates)

lemma seg_claim: "seg cfg g n d \<Longrightarrow> start_refusal cfg c d = None \<Longrightarrow> seg cfg g n (start_claim c p v i d)"
  by (drule seg_begin_start, assumption, erule seg_same) (simp add: start_claim_def Let_def ordinary_updates)

lemma ordinary_start [ordinary_intros]:
  assumes m: "\<not> cf_mock cfg"
  shows "ordinary cfg (start_source cfg channel p v i)"
proof -
  let ?body = "\<lambda>c token. co_finally
                         (co_bind (co_attempt (start_prepare cfg c token v i)) (\<lambda>r.
                            case r of
                              Inl e \<Rightarrow> failed_start cfg c False e
                            | Inr _ \<Rightarrow> co_try (start_output cfg c token) (failed_start cfg c True)))
                         (co_modify (finish_start_operation c token))"
  have body: "ordinary cfg (?body c token)" for c token
    by (intro ordinary_intros ordinary_prepare ordinary_output ordinary_modify seg_finish_start m)
  have claim: "ordinary cfg (Get (\<lambda>d. case start_refusal cfg c d of Some e \<Rightarrow> Raise e
       | None \<Rightarrow> (let d' = start_claim c p v i d; token = k_epoch d' c in Put d' (?body c token))))" for c
  proof (rule ordinaryI)
    fix n g d and Q :: "command_evidence \<Rightarrow> segment \<Rightarrow> k26 \<Rightarrow> bool" and E :: "kexn \<Rightarrow> segment \<Rightarrow> k26 \<Rightarrow> bool"
    assume s: "seg cfg g n d" and Q: "\<And>x g d. seg cfg g n d \<Longrightarrow> Q x g d" and E: "\<And>e g d. seg cfg g n d \<Longrightarrow> E e g d"
    show "wp (smu_aw cfg) (Get (\<lambda>d. case start_refusal cfg c d of Some e \<Rightarrow> Raise e
       | None \<Rightarrow> (let d' = start_claim c p v i d; token = k_epoch d' c in Put d' (?body c token)))) Q E g d"
    proof (cases "start_refusal cfg c d")
      case None
      show ?thesis using ordinaryD [OF body seg_claim [OF s None], of Q E] Q E by (simp add: None Let_def)
    qed (use E [OF s] in simp)
  qed
  show ?thesis unfolding start_source_def
  proof (intro ordinary_bind ordinary_lift ordinary_then ordinary_operational ordinary_option ordinary_Raise)
    fix c
    show "ordinary cfg (Get (\<lambda>d. if rt_active (k_runtime d c) then Raise (runtime_error ''channel already active'')
            else (case start_refusal cfg c d of Some e \<Rightarrow> Raise e
               | None \<Rightarrow> (let d' = start_claim c p v i d; token = k_epoch d' c in Put d' (?body c token)))))"
    proof (rule ordinaryI)
      fix n g d and Q :: "command_evidence \<Rightarrow> segment \<Rightarrow> k26 \<Rightarrow> bool" and E :: "kexn \<Rightarrow> segment \<Rightarrow> k26 \<Rightarrow> bool"
      assume s: "seg cfg g n d" and Q: "\<And>x g d. seg cfg g n d \<Longrightarrow> Q x g d" and E: "\<And>e g d. seg cfg g n d \<Longrightarrow> E e g d"
      show "wp (smu_aw cfg) (Get (\<lambda>d. if rt_active (k_runtime d c) then Raise (runtime_error ''channel already active'')
            else (case start_refusal cfg c d of Some e \<Rightarrow> Raise e
               | None \<Rightarrow> (let d' = start_claim c p v i d; token = k_epoch d' c in Put d' (?body c token))))) Q E g d"
        using ordinaryD [OF claim s, of Q E] Q E E [OF s] by simp
    qed
  qed
qed

section \<open>Limits, target and acquisition\<close>

lemma ordinary_program_limit [ordinary_intros]:
  "(\<And>x. w \<noteq> OutputOn x) \<Longrightarrow> (\<And>x y. q \<noteq> ChallengeQ x y) \<Longrightarrow> ordinary cfg p \<Longrightarrow> ordinary cfg (program_limit cfg w q value p)"
  unfolding program_limit_def by (intro ordinary_intros)

lemma ordinary_limit [ordinary_intros]: "ordinary cfg (update_source_limit cfg channel v i)"
  unfolding update_source_limit_def by (intro ordinary_intros) (auto simp: ordinary_updates)

lemma ordinary_limits [ordinary_intros]: "ordinary cfg (update_source_limits cfg channel v i)"
  unfolding update_source_limits_def by (intro ordinary_intros)

lemma ordinary_target [ordinary_intros]: "ordinary cfg (update_source_target cfg channel p)"
  unfolding update_source_target_def by (intro ordinary_intros) (auto simp: ordinary_updates)

lemma ordinary_record [ordinary_intros]: "ordinary cfg (co_record c ge ep kind)"
  by (rule ordinaryI) (simp add: co_record_def split_beta seg_record)

lemma ordinary_idle [ordinary_intros]: "ordinary cfg (read_idle_channel cfg c)"
  unfolding read_idle_channel_def by (intro ordinary_intros) auto

lemma ordinary_regulate [ordinary_intros]: "ordinary cfg (regulate cfg c ge ep v i)"
  unfolding regulate_def by (intro ordinary_intros) (auto simp: ordinary_updates)

lemma ordinary_active [ordinary_intros]: "ordinary cfg (read_active_channel cfg c)"
  unfolding read_active_channel_def by (intro ordinary_intros) (auto simp: ordinary_updates)

lemma ordinary_read_one [ordinary_intros]: "ordinary cfg (read_one_channel cfg c rs)"
  unfolding read_one_channel_def by (intro ordinary_intros)

lemma ordinary_pet [ordinary_intros]: "ordinary cfg (wdog_pet cfg)"
  unfolding wdog_pet_def by (intro ordinary_intros) auto

lemma ordinary_read [ordinary_intros]: "ordinary cfg (read_channels cfg)"
  unfolding read_channels_def by (intro ordinary_intros)

lemma ordinary_buffer [ordinary_intros]: "ordinary cfg (read_buffer cfg a b)"
  unfolding read_buffer_def by (intro ordinary_intros) auto

lemma ordinary_check_error [ordinary_intros]: "ordinary cfg (check_error cfg)"
  unfolding check_error_def by (intro ordinary_intros) auto

section \<open>The watchdog\<close>

lemma ordinary_wdog_query [ordinary_intros]:
  "(\<And>x y. q \<noteq> ChallengeQ x y) \<Longrightarrow> ordinary cfg (wdog_authority_query q)"
  unfolding wdog_authority_query_def authority_failure_def by (intro ordinary_intros)

lemma ordinary_wdog_write [ordinary_intros]:
  "(\<And>x. w \<noteq> OutputOn x) \<Longrightarrow> ordinary cfg (wdog_authority_write w)"
  unfolding wdog_authority_write_def authority_failure_def by (intro ordinary_intros)

lemma ordinary_arm_result [ordinary_intros]: "ordinary cfg (arm_result r)"
  unfolding arm_result_def by (intro ordinary_intros)

lemma ordinary_arm_failed [ordinary_intros]: "ordinary cfg (wdog_arm_failed cfg b e)"
  unfolding wdog_arm_failed_def by (intro ordinary_intros) (auto simp: ordinary_updates)

lemma ordinary_upload [ordinary_intros]: "ordinary cfg (wdog_upload cfg)"
  unfolding wdog_upload_def wdog_read_autonomy_def by (intro ordinary_intros) (auto simp: ordinary_updates)

lemma ordinary_run [ordinary_intros]: "ordinary cfg wdog_run"
  unfolding wdog_run_def by (intro ordinary_intros) (auto simp: ordinary_updates)

lemma ordinary_arm [ordinary_intros]: "ordinary cfg (wdog_arm cfg)"
  unfolding wdog_arm_def wdog_reject_unknown_latch_def by (intro ordinary_intros) (auto simp: ordinary_updates)

lemma ordinary_disarm [ordinary_intros]: "ordinary cfg (wdog_disarm cfg)"
  unfolding wdog_disarm_def by (intro ordinary_intros) (auto simp: ordinary_updates)

lemma ordinary_tripped [ordinary_intros]: "ordinary cfg (wdog_tripped cfg)"
  unfolding wdog_tripped_def by (intro ordinary_intros) (auto simp: ordinary_updates)

lemma ordinary_ack_commands [ordinary_intros]: "ordinary cfg (ack_commands cfg b)"
  unfolding ack_commands_def ack_installed_version_def ack_upgrade_def by (intro ordinary_intros) auto

lemma ordinary_ack_failed [ordinary_intros]: "ordinary cfg (ack_failed e)"
  unfolding ack_failed_def by (intro ordinary_intros) (auto simp: ordinary_updates)

lemma ordinary_acknowledge [ordinary_intros]: "\<not> cf_mock cfg \<Longrightarrow> ordinary cfg (acknowledge_wdog_trip cfg)"
  unfolding acknowledge_wdog_trip_def ack_latch_def by (intro ordinary_intros) (auto simp: ordinary_updates)

section \<open>Connecting and disconnecting\<close>

text \<open>Steps that revoke all evidence.\<close>

lemma ordinary_less: "(\<And>d. less_evidence d (f d)) \<Longrightarrow> ordinary cfg (co_modify f)"
  by (rule ordinary_modify) (rule seg_less)

lemmas revokes = less_evidence_def revoke_off_evidence_def proved_def drop_connection_def close_settled_state_def
  close_unsettled_state_def

lemma ordinary_settle_previous [ordinary_intros]: "ordinary cfg settle_previous_teardown"
  unfolding settle_previous_teardown_def
  by (intro ordinary_Get ordinary_if ordinary_Ret ordinary_Raise ordinary_bind ordinary_attempt ordinary_close ordinary_sum
      ordinary_then ordinary_less ordinary_same) (auto simp: ordinary_updates revokes)

lemma ordinary_settle_failed [ordinary_intros]: "ordinary cfg settle_failed_connect"
  unfolding settle_failed_connect_def
  by (intro ordinary_then ordinary_less ordinary_bind ordinary_attempt ordinary_close ordinary_sum ordinary_Ret ordinary_same)
    (auto simp: ordinary_updates revokes)

lemma ordinary_failed_connect [ordinary_intros]: "ordinary cfg (failed_connect b e)"
  unfolding failed_connect_def by (intro ordinary_intros) (auto simp: ordinary_updates)

lemma ordinary_secure [ordinary_intros]: "\<not> cf_mock cfg \<Longrightarrow> ordinary cfg (connect_secure cfg serial idn)"
  unfolding connect_secure_def by (intro ordinary_intros) (auto simp: SMU_CHANNELS_def)

text \<open>The claim of a connection opens the transport, in a new generation and without any OFF operation.\<close>

lemma claim_simps [simp]:
  "k_generation (connect_claim d) = k_generation d + 1" "k_epoch (connect_claim d) c = k_epoch d c + 1"
  "k_start (connect_claim d) = (\<lambda>_. None)" "k_depth (connect_claim d) = k_depth d" "k_nonces (connect_claim d) = k_nonces d"
  "k_unsafe (connect_claim d)" "\<not> proved (connect_claim d) c"
  by (simp_all add: connect_claim_def revoke_off_evidence_def proved_def)

lemma guar_open:
  assumes s: "seg cfg g n d" and 0: "\<And>c. k_depth d c = 0"
  shows "guar cfg g n (connect_claim d) (Some OpenTransport)"
proof -
  let ?d = "connect_claim d"
  have "smu_inv (issue (snd g) ?d (Some OpenTransport))" by (simp add: smu_inv_def)
  moreover have "k_generation (w_drv (snd g)) \<le> k_generation d" "k_epoch (w_drv (snd g)) c \<le> k_epoch d c"
    "k_nonces (w_drv (snd g)) \<le> k_nonces d" for c
    using s by (simp_all add: guar_def Let_def)
  moreover have "\<not> fst g c < k_depth (w_drv (snd g)) c" for c
    using seg_depth [OF s, of c] 0 [of c] by simp
  moreover have "k_epoch (w_drv (snd g)) c \<le> k_epoch d c + 1" for c using calculation(3) [of c] by simp
  ultimately show ?thesis using seg_depth [OF s]
    by (simp add: guar_def Let_def)
qed

lemma ordinary_rest_of_identify:
  "ordinary cfg (co_bind (transport_query IdnQ) (\<lambda>idn_raw.
      co_bind (lift_result (parse_keithley_idn_family idn_raw b)) (\<lambda>_. Ret idn_raw)))"
  by (intro ordinary_intros) auto

lemma connect_refusal_depth: "connect_refusal d = None \<Longrightarrow> k_depth d c = 0"
  by (cases c) (auto simp: connect_refusal_def SMU_CHANNELS_def split: if_splits)

lemma connect_refusal_identity: "connect_refusal (d\<lparr> k_identity := i \<rparr>) = connect_refusal d"
  by (simp add: connect_refusal_def)

lemma ordinary_claim_and_open:
  assumes "\<And>r. ordinary cfg (f r)" "seg cfg g n d" "connect_refusal d = None"
    and Q: "\<And>x g d. seg cfg g n d \<Longrightarrow> Q x g d" and E: "\<And>e g d. seg cfg g n d \<Longrightarrow> E e g d"
  shows "wp (smu_aw cfg) (co_then (co_modify connect_claim) (co_bind (co_attempt (connect_identify cfg)) f)) Q E g d"
proof -
  let ?rest = "co_bind (transport_query IdnQ) (\<lambda>idn_raw.
      co_bind (lift_result (parse_keithley_idn_family idn_raw (cf_mock cfg))) (\<lambda>_. Ret idn_raw))"
  have rest: "wp (smu_aw cfg) ?rest (\<lambda>x. wp (smu_aw cfg) (f (Inr x)) Q E) (\<lambda>e. wp (smu_aw cfg) (f (Inl e)) Q E) g d"
    if "seg cfg g n d" for g d
    by (rule ordinaryD [OF ordinary_rest_of_identify that]) (rule ordinaryD [OF assms(1)], assumption, rule Q, assumption, rule E, assumption)+
  have "smu_aw cfg g (connect_claim d) OpenTransport
     (\<lambda>g' s' a. wp (smu_aw cfg) (case a of Answer _ \<Rightarrow> Ret () | Fail e \<Rightarrow> Raise e)
        (\<lambda>_. wp (smu_aw cfg) ?rest (\<lambda>x. wp (smu_aw cfg) (f (Inr x)) Q E) (\<lambda>e. wp (smu_aw cfg) (f (Inl e)) Q E))
        (\<lambda>e. wp (smu_aw cfg) (f (Inl e)) Q E) g' s')"
  proof (rule smu_awI [OF guar_open [OF assms(2) connect_refusal_depth [OF assms(3)]]])
    fix W' a
    assume "resumes n (issue (snd g) (connect_claim d) (Some OpenTransport)) OpenTransport a W'"
    note s = seg_resumed [OF this, of cfg]
    have "wp (smu_aw cfg) (f (Inl e)) Q E (n, W') (w_drv W')" for e
      by (rule ordinaryD [OF assms(1) s]) (rule Q, assumption, rule E, assumption)
    with rest [OF s] show "wp (smu_aw cfg) (case a of Answer _ \<Rightarrow> Ret () | Fail e \<Rightarrow> Raise e)
        (\<lambda>_. wp (smu_aw cfg) ?rest (\<lambda>x. wp (smu_aw cfg) (f (Inr x)) Q E) (\<lambda>e. wp (smu_aw cfg) (f (Inl e)) Q E))
        (\<lambda>e. wp (smu_aw cfg) (f (Inl e)) Q E) (n, W') (w_drv W')"
      by (cases a) simp_all
  qed
  thus ?thesis
    by (simp add: wp_then wp_modify wp_bind wp_attempt connect_identify_def transport_open_def aw_unit_def)
qed

lemma ordinary_connect [ordinary_intros]:
  assumes m: "\<not> cf_mock cfg"
  shows "ordinary cfg (connect cfg)"
proof -
  let ?f = "\<lambda>serial r. case r of
                 Inl e \<Rightarrow> failed_connect False e
               | Inr idn_raw \<Rightarrow>
                   co_bind (co_try (connect_secure cfg serial idn_raw) (failed_connect True)) (\<lambda>identity.
                     co_modify (\<lambda>d. d\<lparr> k_identity := identity, k_connected := True, k_recovery := False,
                                         k_connecting := False \<rparr>))"
  have f: "ordinary cfg (?f serial r)" for serial r
    by (intro ordinary_intros m) (auto simp: ordinary_updates)
  let ?p = "Get (\<lambda>d. case connect_refusal d of Some e \<Rightarrow> Raise e
       | None \<Rightarrow> co_then (co_modify (\<lambda>d. d\<lparr> k_identity := [] \<rparr>))
           (co_bind (lift_result (expected_serial cfg)) (\<lambda>serial.
            co_then (co_modify connect_claim) (co_bind (co_attempt (connect_identify cfg)) (?f serial)))))"
  have "ordinary cfg ?p"
  proof (rule ordinaryI)
    fix n g d and Q :: "unit \<Rightarrow> segment \<Rightarrow> k26 \<Rightarrow> bool" and E :: "kexn \<Rightarrow> segment \<Rightarrow> k26 \<Rightarrow> bool"
    assume s: "seg cfg g n d" and Q: "\<And>x g d. seg cfg g n d \<Longrightarrow> Q x g d" and E: "\<And>e g d. seg cfg g n d \<Longrightarrow> E e g d"
    have s2: "seg cfg g n (d\<lparr> k_identity := [] \<rparr>)" by (rule seg_same [OF s]) (simp add: same_authority_def)
    show "wp (smu_aw cfg) ?p Q E g d"
    proof (cases "connect_refusal d")
      case None
      show ?thesis
      proof (cases "expected_serial cfg")
        case (Inr serial)
        have "wp (smu_aw cfg) (co_then (co_modify connect_claim) (co_bind (co_attempt (connect_identify cfg)) (?f serial)))
                Q E g (d\<lparr> k_identity := [] \<rparr>)"
          by (rule ordinary_claim_and_open [OF f s2]) (use None Q E connect_refusal_identity in auto)
        thus ?thesis using None Inr by (simp add: lift_result_def wp_bind wp_then wp_modify)
      qed (use None E [OF s2] in \<open>simp add: lift_result_def wp_bind wp_then wp_modify\<close>)
    qed (use E [OF s] in simp)
  qed
  thus ?thesis unfolding connect_def by (intro ordinary_then ordinary_settle_previous)
qed

lemma ordinary_prove_off [ordinary_intros]: "\<not> cf_mock cfg \<Longrightarrow> ordinary cfg (disconnect_prove_off cfg)"
  unfolding disconnect_prove_off_def by (intro ordinary_intros) (auto simp: SMU_CHANNELS_def)

lemma ordinary_disconnect_disarm [ordinary_intros]: "ordinary cfg (disconnect_disarm cfg b acc)"
  unfolding disconnect_disarm_def by (intro ordinary_intros)

lemma ordinary_disconnect_close [ordinary_intros]: "ordinary cfg (disconnect_close ge b e)"
proof -
  have u: "ordinary cfg (co_modify (if b then close_settled_state else close_unsettled_state x y))" for b x y
    by (cases b; simp; rule ordinary_less) (auto simp: revokes)
  show ?thesis unfolding disconnect_close_def Let_def
    by (intro ordinary_bind ordinary_attempt ordinary_close ordinary_tick ordinary_Get ordinary_then u ordinary_intros)
qed

lemma ordinary_disconnect_body [ordinary_intros]: "\<not> cf_mock cfg \<Longrightarrow> ordinary cfg (disconnect_body cfg)"
proof -
  assume m: "\<not> cf_mock cfg"
  have r: "ordinary cfg (co_modify (\<lambda>d. revoke_off_evidence (d\<lparr> k_identity := [] \<rparr>)))"
    by (rule ordinary_less) (auto simp: revokes)
  show ?thesis unfolding disconnect_body_def Let_def
    by (intro ordinary_Get ordinary_if r ordinary_intros m) (auto simp: ordinary_updates)
qed

lemma ordinary_disconnect [ordinary_intros]: "\<not> cf_mock cfg \<Longrightarrow> ordinary cfg (disconnect cfg)"
  unfolding disconnect_def by (intro ordinary_intros) (auto simp: ordinary_updates)

end
