(* ===== verification/SmuSystem.thy ===== *)
theory SmuSystem
  imports SmuSafe
begin

text \<open>
  Any number of operations of one Keithley driver, interleaved by the event loop, on an instrument that is
  a parameter. The transport executes one command after the other in the order in which the operations
  reached its lock. An operation that is cancelled while it waits there withdraws its command; a command
  that fails may or may not have reached the instrument; opening the transport finds the instrument in any
  state.
\<close>

section \<open>The instrument\<close>

text \<open>
  \<open>inst_reply x old cmd r\<close>: the instrument in state \<open>x\<close> may answer \<open>cmd\<close> with \<open>r\<close>, when challenges with
  the nonces \<open>old\<close> were executed before. A text that was printed for an older challenge may still be
  delivered: a reply is only bound to the state when its nonce is new.
\<close>

record 'd instrument =
  inst_exec :: "'d \<Rightarrow> tsp \<Rightarrow> 'd"
  inst_on :: "'d \<Rightarrow> smu_channel \<Rightarrow> bool"
  inst_reply :: "'d \<Rightarrow> string list \<Rightarrow> tsp \<Rightarrow> string \<Rightarrow> bool"

definition only_on_switches_on :: "'d instrument \<Rightarrow> bool" where
  "only_on_switches_on D = (\<forall>x cmd c. inst_on D (inst_exec D x cmd) c \<longrightarrow> inst_on D x c \<or> cmd = OutputOn c)"

definition honest_challenge :: "'d instrument \<Rightarrow> bool" where
  "honest_challenge D =
     (\<forall>x old c nonce r. inst_reply D x old (ChallengeQ c nonce) r \<and> nonce \<notin> set old
        \<and> parse_output_off_challenge r nonce = Inr True \<longrightarrow> \<not> inst_on D x c)"

section \<open>Operations and tasks\<close>

datatype smu_call =
    CallConnect | CallDisconnect
  | CallStart "string option" pyfloat pyfloat pyfloat
  | CallStop "string option"
  | CallEmergencyOff "string option"
  | CallRead
  | CallLimits "string option" "pyfloat option" "pyfloat option"
  | CallTarget "string option" pyfloat
  | CallBuffer int int
  | CallCheckError | CallWdogTripped | CallWdogAcknowledge

datatype smu_outcome = Done | ReportedOff source_off_result

definition finish :: "'a smu_op \<Rightarrow> smu_outcome smu_op" where
  "finish p = co_bind p (\<lambda>_. Ret Done)"

fun call_body :: "k26_cfg \<Rightarrow> smu_call \<Rightarrow> smu_outcome smu_op" where
  "call_body cfg CallConnect = finish (connect cfg)"
| "call_body cfg CallDisconnect = finish (disconnect cfg)"
| "call_body cfg (CallStart ch p v i) = finish (start_source cfg ch p v i)"
| "call_body cfg (CallStop ch) = finish (stop_source cfg ch)"
| "call_body cfg (CallEmergencyOff ch) = co_bind (emergency_off cfg ch) (\<lambda>r. Ret (ReportedOff r))"
| "call_body cfg CallRead = finish (read_channels cfg)"
| "call_body cfg (CallLimits ch v i) = finish (update_source_limits cfg ch v i)"
| "call_body cfg (CallTarget ch p) = finish (update_source_target cfg ch p)"
| "call_body cfg (CallBuffer a b) = finish (read_buffer cfg a b)"
| "call_body cfg CallCheckError = finish (check_error cfg)"
| "call_body cfg CallWdogTripped = finish (wdog_tripped cfg)"
| "call_body cfg CallWdogAcknowledge = finish (acknowledge_wdog_trip cfg)"

record task =
  t_call :: smu_call
  t_prog :: "smu_outcome smu_op"
  t_answer :: "answer option"

record 'd smu_system =
  y_drv :: k26
  y_inst :: 'd
  y_wire :: "(nat \<times> nat \<times> request) list"
  y_seq :: nat
  y_used :: "string list"
  y_tasks :: "task list"

definition system_init :: "'d \<Rightarrow> 'd smu_system" where
  "system_init x = \<lparr> y_drv = k26_init, y_inst = x, y_wire = [], y_seq = 0, y_used = [], y_tasks = [] \<rparr>"

section \<open>Steps\<close>

text \<open>
  A call starts a task. A task resumes with an answer: for a command that is the answer the transport left
  for it; the I/O lock is only granted while it is free. The transport executes the first command: it
  succeeds with a text, or fails with or without having reached the instrument. A waiting command is
  withdrawn with its task's exception.
\<close>

datatype 'd smu_event =
    Call smu_call
  | Resume nat answer
  | Execute string
  | ExecuteFails bool kexn
  | OpenOn 'd
  | Withdraw nat kexn

text \<open>Run task \<open>i\<close> with program \<open>p\<close> to its next await.\<close>

definition proceed :: "nat \<Rightarrow> smu_outcome smu_op \<Rightarrow> 'd smu_system \<Rightarrow> 'd smu_system" where
  "proceed i p y =
     (let (d, p') = co_run p (y_drv y);
          y1 = y\<lparr> y_drv := d, y_tasks := (y_tasks y)[i := (y_tasks y ! i)\<lparr> t_prog := p', t_answer := None \<rparr>] \<rparr>
      in case p' of
           Await q k \<Rightarrow> if on_wire q then y1\<lparr> y_wire := y_wire y @ [(y_seq y, i, q)], y_seq := y_seq y + 1 \<rparr> else y1
         | _ \<Rightarrow> y1)"

fun may_resume :: "k26 \<Rightarrow> request \<Rightarrow> answer option \<Rightarrow> answer \<Rightarrow> bool" where
  "may_resume d AcquireIo m a = (case a of Answer _ \<Rightarrow> \<not> k_io_locked d | Fail _ \<Rightarrow> True)"
| "may_resume d Tick m a = True"
| "may_resume d LoadScript m a = True"
| "may_resume d q m a = (m = Some a)"

definition resume :: "nat \<Rightarrow> answer \<Rightarrow> 'd smu_system \<Rightarrow> 'd smu_system option" where
  "resume i a y =
     (if i < length (y_tasks y) then
        (case t_prog (y_tasks y ! i) of
           Await q k \<Rightarrow> if may_resume (y_drv y) q (t_answer (y_tasks y ! i)) a then Some (proceed i (k a) y) else None
         | _ \<Rightarrow> None)
      else None)"

definition leave_answer :: "nat \<Rightarrow> answer \<Rightarrow> 'd smu_system \<Rightarrow> 'd smu_system" where
  "leave_answer i a y = y\<lparr> y_tasks := (y_tasks y)[i := (y_tasks y ! i)\<lparr> t_answer := Some a \<rparr>] \<rparr>"

fun challenge_nonces :: "request \<Rightarrow> string list" where
  "challenge_nonces (Query (ChallengeQ c nonce)) = [nonce]"
| "challenge_nonces _ = []"

text \<open>What reaching the instrument does.\<close>

definition reach_inst :: "'d instrument \<Rightarrow> request \<Rightarrow> 'd smu_system \<Rightarrow> 'd smu_system" where
  "reach_inst D q y =
     (case q of
        Write cmd \<Rightarrow> y\<lparr> y_inst := inst_exec D (y_inst y) cmd \<rparr>
      | _ \<Rightarrow> y\<lparr> y_used := challenge_nonces q @ y_used y \<rparr>)"

definition admissible :: "'d instrument \<Rightarrow> 'd smu_system \<Rightarrow> request \<Rightarrow> string \<Rightarrow> bool" where
  "admissible D y q r =
     (case q of
        Query cmd \<Rightarrow> inst_reply D (y_inst y) (y_used y) cmd r
      | OpenTransport \<Rightarrow> False
      | _ \<Rightarrow> True)"

fun smu_step :: "'d instrument \<Rightarrow> k26_cfg \<Rightarrow> 'd smu_event \<Rightarrow> 'd smu_system \<Rightarrow> 'd smu_system option" where
  "smu_step D cfg (Call call) y =
     Some (y\<lparr> y_tasks := y_tasks y @ [\<lparr> t_call = call, t_prog = Await Tick (\<lambda>_. call_body cfg call), t_answer = None \<rparr>] \<rparr>)"
| "smu_step D cfg (Resume i a) y = resume i a y"
| "smu_step D cfg (Execute r) y =
     (case y_wire y of
        [] \<Rightarrow> None
      | (s, i, q) # rest \<Rightarrow>
          if admissible D y q r then Some (leave_answer i (Answer r) (reach_inst D q (y\<lparr> y_wire := rest \<rparr>))) else None)"
| "smu_step D cfg (ExecuteFails reached e) y =
     (case y_wire y of
        [] \<Rightarrow> None
      | (s, i, q) # rest \<Rightarrow>
          Some (leave_answer i (Fail e) ((if reached then reach_inst D q else id) (y\<lparr> y_wire := rest \<rparr>))))"
| "smu_step D cfg (OpenOn x) y =
     (case y_wire y of
        (s, i, OpenTransport) # rest \<Rightarrow> Some (leave_answer i (Answer []) (y\<lparr> y_wire := rest, y_inst := x \<rparr>))
      | _ \<Rightarrow> None)"
| "smu_step D cfg (Withdraw i e) y =
     (if i \<in> fst ` set (map snd (y_wire y))
      then Some (leave_answer i (Fail e) (y\<lparr> y_wire := filter (\<lambda>x. fst (snd x) \<noteq> i) (y_wire y) \<rparr>))
      else None)"

fun smu_run :: "'d instrument \<Rightarrow> k26_cfg \<Rightarrow> 'd smu_event list \<Rightarrow> 'd smu_system \<Rightarrow> 'd smu_system option" where
  "smu_run D cfg [] y = Some y"
| "smu_run D cfg (e # es) y = (case smu_step D cfg e y of None \<Rightarrow> None | Some y' \<Rightarrow> smu_run D cfg es y')"

section \<open>The invariant of the system\<close>

definition world_of :: "'d instrument \<Rightarrow> 'd smu_system \<Rightarrow> smu_world" where
  "world_of D y =
     \<lparr> w_drv = y_drv y, w_on = inst_on D (y_inst y), w_wire = map (\<lambda>(s, i, q). (s, q)) (y_wire y), w_seq = y_seq y \<rparr>"

text \<open>What a finished call promises.\<close>

fun promises :: "smu_call \<Rightarrow> smu_outcome \<Rightarrow> smu_world \<Rightarrow> bool" where
  "promises (CallEmergencyOff ch) x W =
     (\<forall>cs. target_channels ch = Inr cs \<longrightarrow> x = ReportedOff DEVICE_REPORTED_OFF \<longrightarrow> (\<forall>c \<in> set cs. cold W c))"
| "promises (CallStop ch) x W = (\<forall>c. normalize_smu_channel ch = Inr c \<longrightarrow> cold W c)"
| "promises _ x W = True"

definition call_post :: "k26_cfg \<Rightarrow> smu_call \<Rightarrow> smu_outcome \<Rightarrow> segment \<Rightarrow> k26 \<Rightarrow> bool" where
  "call_post cfg call x g d = (seg cfg g none_owned d \<and> promises call x ((snd g)\<lparr> w_drv := d \<rparr>))"

abbreviation call_wp :: "k26_cfg \<Rightarrow> smu_call \<Rightarrow> smu_outcome smu_op \<Rightarrow> segment \<Rightarrow> k26 \<Rightarrow> bool" where
  "call_wp cfg call p \<equiv> wp (smu_aw cfg) p (call_post cfg call) (\<lambda>e g d. seg cfg g none_owned d)"

lemma wp_finish: "wp aw (finish p) Q E = wp aw p (\<lambda>_. Q Done) E"
  by (simp add: finish_def wp_bind)

text \<open>Every call keeps the guarantee from its first segment on.\<close>

lemma ordinary_finish:
  assumes "ordinary cfg p" "seg cfg g none_owned d" "\<And>W. promises call Done W"
  shows "call_wp cfg call (finish p) g d"
  unfolding wp_finish by (rule ordinaryD [OF assms(1,2)]) (auto simp: call_post_def assms(3))

lemma call_ok:
  assumes m: "\<not> cf_mock cfg" and s: "seg cfg g none_owned d"
  shows "call_wp cfg call (call_body cfg call) g d"
proof (cases call)
  case (CallStop ch)
  show ?thesis unfolding CallStop call_body.simps wp_finish
    by (rule wp_stop_source [OF m s]) (auto simp: call_post_def reports_off_def)
next
  case (CallEmergencyOff ch)
  show ?thesis unfolding CallEmergencyOff call_body.simps wp_bind
    by (rule wp_emergency_off [OF m s]) (auto simp: call_post_def reports_off_def)
qed (auto intro!: ordinary_finish ordinary_intros s m)

text \<open>A task that waits with request \<open>q\<close>, owning \<open>n\<close>, since the world \<open>W1\<close> of its last segment.\<close>

definition waits ::
  "'d instrument \<Rightarrow> k26_cfg \<Rightarrow> 'd smu_system \<Rightarrow> nat \<Rightarrow> owned \<Rightarrow> request \<Rightarrow> (answer \<Rightarrow> smu_outcome smu_op) \<Rightarrow> bool" where
  "waits D cfg y i n q k =
     (\<exists>W1. rely n W1 (world_of D y)
           \<and> (\<forall>W' a. resumes n W1 q a W' \<longrightarrow> call_wp cfg (t_call (y_tasks y ! i)) (k a) (n, W') (w_drv W'))
           \<and> (\<forall>s r. (s, i, r) \<in> set (y_wire y) \<longrightarrow> r = q \<and> w_seq W1 = Suc s \<and> t_answer (y_tasks y ! i) = None)
           \<and> (\<forall>a c. t_answer (y_tasks y ! i) = Some a \<longrightarrow> off_answer q a c \<longrightarrow>
                (\<exists>We. rely n W1 We \<and> \<not> w_on We c \<and> (\<forall>e \<in> set (w_wire We). w_seq W1 \<le> fst e) \<and> rely n We (world_of D y))))"

definition task_ok :: "'d instrument \<Rightarrow> k26_cfg \<Rightarrow> 'd smu_system \<Rightarrow> nat \<Rightarrow> owned \<Rightarrow> bool" where
  "task_ok D cfg y i n =
     (case t_prog (y_tasks y ! i) of
        Await q k \<Rightarrow> waits D cfg y i n q k
      | _ \<Rightarrow> n = none_owned \<and> (\<forall>s r. (s, i, r) \<notin> set (y_wire y)))"

text \<open>The nonces that are in use were drawn, and each only once.\<close>

definition wire_nonces :: "(nat \<times> nat \<times> request) list \<Rightarrow> string list" where
  "wire_nonces es = concat (map (challenge_nonces \<circ> snd \<circ> snd) es)"

lemma wire_nonces_simps [simp]:
  "wire_nonces [] = []" "wire_nonces ((s, i, q) # es) = challenge_nonces q @ wire_nonces es"
  "wire_nonces (es @ es') = wire_nonces es @ wire_nonces es'"
  by (simp_all add: wire_nonces_def)

definition nonces_ok :: "k26_cfg \<Rightarrow> nat \<Rightarrow> string list \<Rightarrow> bool" where
  "nonces_ok cfg m xs = (distinct xs \<and> (\<forall>x \<in> set xs. \<exists>i < m. x = cf_nonce cfg i))"

lemma nonces_ok_mono: "nonces_ok cfg m xs \<Longrightarrow> m \<le> m' \<Longrightarrow> nonces_ok cfg m' xs"
  unfolding nonces_ok_def by (meson order_less_le_trans)

lemma nonces_ok_sub:
  assumes "nonces_ok cfg m (xs @ ys)" "distinct zs" "set zs \<subseteq> set xs"
  shows "nonces_ok cfg m (zs @ ys)"
  using assms unfolding nonces_ok_def by auto

lemma nonces_ok_fresh:
  assumes "inj (cf_nonce cfg)" "nonces_ok cfg m (xs @ ys)" "m \<le> j" "j < m'"
  shows "nonces_ok cfg m' ((xs @ [cf_nonce cfg j]) @ ys)"
proof -
  have "cf_nonce cfg j \<notin> set (xs @ ys)"
  proof
    assume "cf_nonce cfg j \<in> set (xs @ ys)"
    then obtain i where "i < m" "cf_nonce cfg j = cf_nonce cfg i" using assms(2) by (auto simp: nonces_ok_def)
    thus False using injD [OF assms(1)] assms(3) by fastforce
  qed
  moreover have "nonces_ok cfg m' (xs @ ys)" using nonces_ok_mono [OF assms(2)] assms(3,4) by simp
  ultimately show ?thesis using assms(4) by (auto simp: nonces_ok_def)
qed

definition wire_ok :: "k26_cfg \<Rightarrow> 'd smu_system \<Rightarrow> bool" where
  "wire_ok cfg y =
     (sorted_wrt (<) (map fst (y_wire y))
      \<and> (\<forall>e \<in> set (y_wire y). fst e < y_seq y \<and> fst (snd e) < length (y_tasks y) \<and> on_wire (snd (snd e)))
      \<and> nonces_ok cfg (k_nonces (y_drv y)) (wire_nonces (y_wire y) @ y_used y))"

definition depth_ok :: "'d smu_system \<Rightarrow> (nat \<Rightarrow> owned) \<Rightarrow> bool" where
  "depth_ok y N = (\<forall>c. k_depth (y_drv y) c = (\<Sum>i < length (y_tasks y). N i c))"

definition system_ok :: "'d instrument \<Rightarrow> k26_cfg \<Rightarrow> (nat \<Rightarrow> owned) \<Rightarrow> 'd smu_system \<Rightarrow> bool" where
  "system_ok D cfg N y =
     (smu_inv (world_of D y) \<and> wire_ok cfg y \<and> depth_ok y N \<and> (\<forall>i < length (y_tasks y). task_ok D cfg y i (N i)))"

lemma world_of_simps [simp]:
  "w_drv (world_of D y) = y_drv y" "w_on (world_of D y) = inst_on D (y_inst y)" "w_seq (world_of D y) = y_seq y"
  "w_wire (world_of D y) = map (\<lambda>(s, i, q). (s, q)) (y_wire y)"
  by (simp_all add: world_of_def)

lemma system_ok_init: "system_ok D cfg N (system_init x)"
  by (simp add: system_ok_def system_init_def smu_inv_def wire_ok_def depth_ok_def nonces_ok_def k26_init_def proved_def)

lemma owned_two:
  assumes "depth_ok y N" "i < length (y_tasks y)" "j < length (y_tasks y)" "i \<noteq> j"
  shows "N i c + N j c \<le> k_depth (y_drv y) c"
proof -
  have "(\<Sum>x \<in> {i, j}. N x c) \<le> (\<Sum>x < length (y_tasks y). N x c)"
    by (rule sum_mono2) (use assms in auto)
  thus ?thesis using assms by (simp add: depth_ok_def)
qed

lemma owned_one: "depth_ok y N \<Longrightarrow> i < length (y_tasks y) \<Longrightarrow> N i c \<le> k_depth (y_drv y) c"
  using member_le_sum [of i "{..<length (y_tasks y)}" "\<lambda>i. N i c"] by (simp add: depth_ok_def)

lemma sum_upd_nat:
  fixes N :: "nat \<Rightarrow> owned"
  assumes i: "i < m"
  shows "(\<Sum>x < m. (N(i := n)) x c) + N i c = (\<Sum>x < m. N x c) + n c"
proof -
  have f: "finite {..<m}" "i \<in> {..<m}" using i by simp_all
  have r: "(\<Sum>x \<in> {..<m} - {i}. (N(i := n)) x c) = (\<Sum>x \<in> {..<m} - {i}. N x c)" by (rule sum.cong) auto
  show ?thesis using sum.remove [OF f, of "\<lambda>x. (N(i := n)) x c"] sum.remove [OF f, of "\<lambda>x. N x c"] r by simp
qed

lemma wire_below: "wire_ok cfg y \<Longrightarrow> e \<in> set (w_wire (world_of D y)) \<Longrightarrow> fst e < w_seq (world_of D y)"
  by (auto simp: wire_ok_def)

lemma rely_here: "wire_ok cfg y \<Longrightarrow> rely n (world_of D y) (world_of D y)"
  by (rule rely_refl) (rule wire_below)

section \<open>Other tasks\<close>

lemma waitsI:
  assumes "rely n W1 (world_of D y)"
    "\<And>W' a. resumes n W1 q a W' \<Longrightarrow> call_wp cfg (t_call (y_tasks y ! i)) (k a) (n, W') (w_drv W')"
    "\<And>s r. (s, i, r) \<in> set (y_wire y) \<Longrightarrow> r = q \<and> w_seq W1 = Suc s \<and> t_answer (y_tasks y ! i) = None"
    "\<And>a c. t_answer (y_tasks y ! i) = Some a \<Longrightarrow> off_answer q a c \<Longrightarrow>
        \<exists>We. rely n W1 We \<and> \<not> w_on We c \<and> (\<forall>e \<in> set (w_wire We). w_seq W1 \<le> fst e) \<and> rely n We (world_of D y)"
  shows "waits D cfg y i n q k"
  unfolding waits_def by (intro exI [of _ W1] conjI assms(1)) (use assms(2-4) in blast)+

text \<open>A task that is not touched stays as it is under any step that it may rely on.\<close>

lemma waits_other:
  assumes "waits D cfg y i n q k" "rely n (world_of D y) (world_of D y')"
    and "y_tasks y' ! i = y_tasks y ! i" "\<And>s r. (s, i, r) \<in> set (y_wire y') \<Longrightarrow> (s, i, r) \<in> set (y_wire y)"
  shows "waits D cfg y' i n q k"
proof -
  from assms(1) obtain W1 where w: "rely n W1 (world_of D y)"
    "\<And>W' a. resumes n W1 q a W' \<Longrightarrow> call_wp cfg (t_call (y_tasks y ! i)) (k a) (n, W') (w_drv W')"
    "\<And>s r. (s, i, r) \<in> set (y_wire y) \<Longrightarrow> r = q \<and> w_seq W1 = Suc s \<and> t_answer (y_tasks y ! i) = None"
    "\<And>a c. t_answer (y_tasks y ! i) = Some a \<Longrightarrow> off_answer q a c \<Longrightarrow>
        \<exists>We. rely n W1 We \<and> \<not> w_on We c \<and> (\<forall>e \<in> set (w_wire We). w_seq W1 \<le> fst e) \<and> rely n We (world_of D y)"
    unfolding waits_def by blast
  have "\<exists>We. rely n W1 We \<and> \<not> w_on We c \<and> (\<forall>e \<in> set (w_wire We). w_seq W1 \<le> fst e) \<and> rely n We (world_of D y')"
    if "t_answer (y_tasks y' ! i) = Some a" "off_answer q a c" for a c
    using w(4) [of a c] that assms(2,3) rely_trans by metis
  moreover have "r = q \<and> w_seq W1 = Suc s \<and> t_answer (y_tasks y' ! i) = None" if "(s, i, r) \<in> set (y_wire y')" for s r
    using w(3) [OF assms(4) [OF that]] assms(3) by simp
  ultimately show ?thesis
    by (intro waitsI [of n W1] rely_trans [OF w(1) assms(2)]) (simp_all add: assms(3) w(2))
qed

lemma task_other:
  assumes "task_ok D cfg y i n" "rely n (world_of D y) (world_of D y')"
    and "y_tasks y' ! i = y_tasks y ! i" "\<And>s r. (s, i, r) \<in> set (y_wire y') \<Longrightarrow> (s, i, r) \<in> set (y_wire y)"
  shows "task_ok D cfg y' i n"
  using assms waits_other [OF _ assms(2,3)] by (auto simp: task_ok_def split: co.splits)

text \<open>The guarantee of a segment is what the others rely on.\<close>

lemma hot_mono: "w_on W' = w_on W \<Longrightarrow> set (w_wire W') \<subseteq> set (w_wire W) \<Longrightarrow> hot W' c \<Longrightarrow> hot W c"
  by (auto simp: hot_def)

lemma issue_wire: "e \<in> set (w_wire (issue W d oq)) \<Longrightarrow> e \<in> set (w_wire W) \<or> (\<exists>q. oq = Some q \<and> e = (w_seq W, q))"
  by (auto simp: issue_def split: option.splits if_splits)

lemma issue_seq: "w_seq W \<le> w_seq (issue W d oq)"
  by (auto simp: issue_def split: option.splits)

lemma hot_issue_iff: "hot (issue W d oq) c \<Longrightarrow> \<not> risks oq c \<Longrightarrow> hot W c"
  using hot_issue [of oq c W d] by (simp add: hot_def)

lemma guar_rely:
  assumes g: "guar cfg (n, W) n' d oq" and le: "\<And>c. n c + m c \<le> k_depth (w_drv W) c"
    and below: "\<And>e. e \<in> set (w_wire W) \<Longrightarrow> fst e < w_seq W"
  shows "rely m W (issue W d oq)"
proof -
  note g' = g [unfolded guar_def Let_def fst_conv snd_conv]
  have old: "e \<in> set (w_wire W)" if "e \<in> set (w_wire (issue W d oq))" "fst e < w_seq W" for e
    using issue_wire [OF that(1)] that(2) by auto
  have q: "quiet d c \<and> (\<forall>e \<in> set (w_wire (issue W d oq)). risky c (snd e) \<longrightarrow> fst e < w_seq W) \<and> (hot (issue W d oq) c \<longrightarrow> hot W c)"
    if "quiet (w_drv W) c" "k_epoch d c = k_epoch (w_drv W) c" "k_generation d = k_generation (w_drv W)" for c
  proof -
    have r: "quiet d c" "\<not> risks oq c" using g' that by blast+
    have "fst e < w_seq W" if "e \<in> set (w_wire (issue W d oq))" "risky c (snd e)" for e
      using issue_wire [OF that(1)]
    proof
      assume "e \<in> set (w_wire W)"
      thus ?thesis by (rule below)
    qed (use that(2) r(2) in auto)
    with r hot_issue_iff show ?thesis by blast
  qed
  have o: "k_generation d = k_generation (w_drv W) \<and> (cold W c \<longrightarrow> cold (issue W d oq) c)" if "0 < m c" for c
  proof -
    have "n c < k_depth (w_drv W) c" using le [of c] that by linarith
    hence "k_generation d = k_generation (w_drv W)" "quiet (w_drv W) c \<Longrightarrow> quiet d c \<and> \<not> risks oq c" using g' by blast+
    thus ?thesis using hot_issue_iff by (auto simp: cold_def)
  qed
  show ?thesis unfolding rely_def issue_simps
    by (intro conjI) (use g' issue_seq old q o in blast)+
qed

section \<open>Preservation\<close>

subsection \<open>A call\<close>

lemma call_step_ok:
  assumes m: "\<not> cf_mock cfg" and ok: "system_ok D cfg N y"
  shows "\<exists>N'. system_ok D cfg N' (the (smu_step D cfg (Call call) y))"
proof -
  let ?t = "\<lparr> t_call = call, t_prog = Await Tick (\<lambda>_. call_body cfg call), t_answer = None \<rparr>"
  let ?y = "y\<lparr> y_tasks := y_tasks y @ [?t] \<rparr>" and ?l = "length (y_tasks y)" and ?N = "N(length (y_tasks y) := none_owned)"
  have w: "world_of D ?y = world_of D y" by (simp add: world_of_def)
  have wk: "wire_ok cfg y" and inv: "smu_inv (world_of D y)" and dep: "depth_ok y N"
    and tk: "\<And>i. i < ?l \<Longrightarrow> task_ok D cfg y i (N i)"
    using ok by (simp_all add: system_ok_def)
  have wk': "wire_ok cfg ?y" using wk by (fastforce simp: wire_ok_def)
  have dep': "depth_ok ?y ?N" using dep by (simp add: depth_ok_def)
  have new: "task_ok D cfg ?y ?l none_owned"
  proof -
    have "waits D cfg ?y ?l none_owned Tick (\<lambda>_. call_body cfg call)"
    proof (rule waitsI [of none_owned "world_of D y"])
      show "rely none_owned (world_of D y) (world_of D ?y)" unfolding w by (rule rely_here [OF wk])
      show "call_wp cfg (t_call (y_tasks ?y ! ?l)) (call_body cfg call) (none_owned, W') (w_drv W')"
        if "resumes none_owned (world_of D y) Tick a W'" for W' a
        using call_ok [OF m seg_resumed [OF that]] by simp
    next
      fix s r assume "(s, ?l, r) \<in> set (y_wire ?y)"
      thus "r = Tick \<and> w_seq (world_of D y) = Suc s \<and> t_answer (y_tasks ?y ! ?l) = None" using wk by (auto simp: wire_ok_def)
    qed simp
    thus ?thesis by (simp add: task_ok_def)
  qed
  have old: "task_ok D cfg ?y i (?N i)" if "i < ?l" for i
  proof -
    have "task_ok D cfg ?y i (N i)"
      by (rule task_other [OF tk [OF that]]) (use that rely_here [OF wk] in \<open>simp_all add: w nth_append\<close>)
    thus ?thesis using that by simp
  qed
  have "system_ok D cfg ?N ?y" unfolding system_ok_def w
    using inv wk' dep' old new by (auto simp: less_Suc_eq)
  thus ?thesis by auto
qed

subsection \<open>A segment\<close>

lemma wp_run: "wp aw p Q E g s = wp aw (snd (co_run p s)) Q E g (fst (co_run p s))"
  by (induction p arbitrary: s) (auto simp: split_beta)

lemma proceed_eq:
  assumes "co_run p (y_drv y) = (d, p')"
  shows "proceed i p y =
     y\<lparr> y_drv := d, y_tasks := (y_tasks y)[i := (y_tasks y ! i)\<lparr> t_prog := p', t_answer := None \<rparr>],
        y_wire := (case p' of Await q k \<Rightarrow> if on_wire q then y_wire y @ [(y_seq y, i, q)] else y_wire y | _ \<Rightarrow> y_wire y),
        y_seq := (case p' of Await q k \<Rightarrow> if on_wire q then y_seq y + 1 else y_seq y | _ \<Rightarrow> y_seq y) \<rparr>"
  by (cases p') (simp_all add: proceed_def assms)

lemma proceed_simps:
  assumes "co_run p (y_drv y) = (d, p')"
  shows "y_drv (proceed i p y) = d" "y_inst (proceed i p y) = y_inst y" "y_used (proceed i p y) = y_used y"
    "y_tasks (proceed i p y) = (y_tasks y)[i := (y_tasks y ! i)\<lparr> t_prog := p', t_answer := None \<rparr>]"
    "y_wire (proceed i p y) = (case p' of Await q k \<Rightarrow> if on_wire q then y_wire y @ [(y_seq y, i, q)] else y_wire y | _ \<Rightarrow> y_wire y)"
    "y_seq (proceed i p y) = (case p' of Await q k \<Rightarrow> if on_wire q then y_seq y + 1 else y_seq y | _ \<Rightarrow> y_seq y)"
  by (simp_all add: proceed_eq [OF assms])

definition request_of :: "('s, 'q, 'r, 'e, 'a) co \<Rightarrow> 'q option" where
  "request_of p = (case p of Await q k \<Rightarrow> Some q | _ \<Rightarrow> None)"

lemma world_proceed:
  assumes "co_run p (y_drv y) = (d, p')"
  shows "world_of D (proceed i p y) = issue (world_of D y) d (request_of p')"
  using proceed_simps [OF assms] by (auto simp: world_of_def issue_def request_of_def split: co.splits)

text \<open>What a segment leaves: a guarantee with the new ownership, and the task in order.\<close>

definition leaves :: "k26_cfg \<Rightarrow> smu_call \<Rightarrow> segment \<Rightarrow> owned \<Rightarrow> k26 \<Rightarrow> smu_outcome smu_op \<Rightarrow> bool" where
  "leaves cfg call g n d p =
     (guar cfg g n d (request_of p)
      \<and> (case p of
            Await q k \<Rightarrow> (\<forall>W' a. resumes n (issue (snd g) d (Some q)) q a W' \<longrightarrow> call_wp cfg call (k a) (n, W') (w_drv W'))
          | Ret x \<Rightarrow> n = none_owned \<and> promises call x ((snd g)\<lparr> w_drv := d \<rparr>)
          | _ \<Rightarrow> n = none_owned))"

lemma call_wp_leaves:
  assumes "call_wp cfg call p g s" "co_run p s = (d, p')"
  shows "\<exists>n. leaves cfg call g n d p'"
proof -
  have w: "call_wp cfg call p' g d" using assms by (simp add: wp_run [of _ p])
  from co_run_stops [OF assms(2)] show ?thesis
  proof (elim disjE exE)
    fix x assume "p' = Ret x"
    thus ?thesis using w by (auto simp: leaves_def request_of_def call_post_def)
  next
    fix e assume "p' = Raise e"
    thus ?thesis using w by (auto simp: leaves_def request_of_def)
  next
    fix q k assume "p' = Await q k"
    thus ?thesis using w by (auto simp: leaves_def request_of_def smu_aw_def)
  qed
qed

lemma leaves_wire:
  assumes inj: "inj (cf_nonce cfg)" and l: "leaves cfg call (n0, world_of D y) n d p'" and r: "co_run p (y_drv y) = (d, p')"
    and ok: "wire_ok cfg y" and i: "i < length (y_tasks y)"
  shows "wire_ok cfg (proceed i p y)"
proof -
  note ps = proceed_simps [OF r, of i]
  have g: "guar cfg (n0, world_of D y) n d (request_of p')" using l by (simp add: leaves_def)
  have mono: "k_nonces (y_drv y) \<le> k_nonces d" using g by (simp add: guar_def Let_def)
  have old: "nonces_ok cfg (k_nonces (y_drv y)) (wire_nonces (y_wire y) @ y_used y)" using ok by (simp add: wire_ok_def)
  have nonces: "nonces_ok cfg (k_nonces d) ((wire_nonces (y_wire y) @ challenge_nonces q) @ y_used y)"
    if "request_of p' = Some q" for q
  proof (cases "\<exists>c nonce. q = Query (ChallengeQ c nonce)")
    case True
    then obtain c nonce where q: "q = Query (ChallengeQ c nonce)" by blast
    have "\<exists>j. k_nonces (y_drv y) \<le> j \<and> j < k_nonces d \<and> nonce = cf_nonce cfg j"
      using g that by (simp add: q guar_def Let_def)
    then obtain j where j: "k_nonces (y_drv y) \<le> j" "j < k_nonces d" "nonce = cf_nonce cfg j" by blast
    show ?thesis using nonces_ok_fresh [OF inj old j(1,2)] by (simp add: q j(3))
  next
    case False
    hence "challenge_nonces q = []" by (cases q rule: challenge_nonces.cases) auto
    thus ?thesis using nonces_ok_mono [OF old mono] by simp
  qed
  have keep: "nonces_ok cfg (k_nonces d) (wire_nonces (y_wire y) @ y_used y)" by (rule nonces_ok_mono [OF old mono])
  show ?thesis
  proof (cases "\<exists>q k. p' = Await q k \<and> on_wire q")
    case True
    then obtain q k where p': "p' = Await q k" "on_wire q" by blast
    show ?thesis using ok nonces [of q] i
      unfolding wire_ok_def ps by (auto simp: p' request_of_def sorted_wrt_append less_Suc_eq)
  next
    case False
    hence "y_wire (proceed i p y) = y_wire y" "y_seq (proceed i p y) = y_seq y" using ps(5,6) by (auto split: co.splits)
    thus ?thesis using ok keep unfolding wire_ok_def ps(1,3,4) by simp
  qed
qed

lemma leaves_depth:
  assumes l: "leaves cfg call (N i, world_of D y) n d p'" and r: "co_run p (y_drv y) = (d, p')"
    and dep: "depth_ok y N" and i: "i < length (y_tasks y)"
  shows "depth_ok (proceed i p y) (N(i := n))"
proof -
  have "k_depth d c + N i c = k_depth (y_drv y) c + n c" for c
    using l by (simp add: leaves_def guar_def Let_def)
  moreover have "(\<Sum>x < length (y_tasks y). (N(i := n)) x c) + N i c = (\<Sum>x < length (y_tasks y). N x c) + n c" for c
    by (rule sum_upd_nat [OF i])
  ultimately have "k_depth d c = (\<Sum>x < length (y_tasks y). (N(i := n)) x c)" for c
    using dep unfolding depth_ok_def by (metis add_right_cancel)
  thus ?thesis by (simp add: depth_ok_def proceed_simps [OF r])
qed

lemma segment_ok:
  assumes inj: "inj (cf_nonce cfg)" and wk: "wire_ok cfg y" and dep: "depth_ok y N" and i: "i < length (y_tasks y)"
    and tk: "\<And>j. j < length (y_tasks y) \<Longrightarrow> j \<noteq> i \<Longrightarrow> task_ok D cfg y j (N j)"
    and nowire: "\<And>s r. (s, i, r) \<notin> set (y_wire y)"
    and w: "call_wp cfg (t_call (y_tasks y ! i)) p (N i, world_of D y) (y_drv y)"
  shows "\<exists>N'. system_ok D cfg N' (proceed i p y)
    \<and> (\<forall>x. t_prog (y_tasks (proceed i p y) ! i) = Ret x \<longrightarrow> promises (t_call (y_tasks y ! i)) x (world_of D (proceed i p y)))"
proof -
  let ?call = "t_call (y_tasks y ! i)" and ?W = "world_of D y"
  obtain d p' where r: "co_run p (y_drv y) = (d, p')" by (cases "co_run p (y_drv y)")
  obtain n where l: "leaves cfg ?call (N i, ?W) n d p'" using call_wp_leaves [OF w r] by blast
  note ps = proceed_simps [OF r, of i] and wp = world_proceed [OF r, of D i]
  have g: "guar cfg (N i, ?W) n d (request_of p')" using l by (simp add: leaves_def)
  let ?y = "proceed i p y"
  have wk': "wire_ok cfg ?y" by (rule leaves_wire [OF inj l r wk i])
  have inv: "smu_inv (world_of D ?y)" using g by (simp add: guar_def Let_def wp)
  have other: "task_ok D cfg ?y j (N j)" if j: "j < length (y_tasks y)" "j \<noteq> i" for j
  proof (rule task_other [OF tk [OF j]])
    show "rely (N j) ?W (world_of D ?y)" unfolding wp
      by (rule guar_rely [OF g]) (use owned_two [OF dep i j(1)] j(2) wire_below [OF wk] in auto)
    show "y_tasks ?y ! j = y_tasks y ! j" using j by (simp add: ps)
    show "(s, j, r) \<in> set (y_wire y)" if "(s, j, r) \<in> set (y_wire ?y)" for s r
      using that j(2) by (auto simp: ps split: co.splits if_splits)
  qed
  have task: "t_call (y_tasks ?y ! i) = ?call" "t_prog (y_tasks ?y ! i) = p'" "t_answer (y_tasks ?y ! i) = None"
    using i by (simp_all add: ps)
  have self: "task_ok D cfg ?y i n"
  proof (cases p')
    case (Await q k)
    have "waits D cfg ?y i n q k"
    proof (rule waitsI [of n "world_of D ?y"])
      show "rely n (world_of D ?y) (world_of D ?y)" by (rule rely_here [OF wk'])
      show "call_wp cfg (t_call (y_tasks ?y ! i)) (k a) (n, W') (w_drv W')" if "resumes n (world_of D ?y) q a W'" for W' a
        using l that Await unfolding task(1) wp by (simp add: leaves_def request_of_def)
      show "r = q \<and> w_seq (world_of D ?y) = Suc s \<and> t_answer (y_tasks ?y ! i) = None" if "(s, i, r) \<in> set (y_wire ?y)" for s r
        using that nowire [of s r] task(3) Await by (auto simp: ps split: if_splits)
    qed (simp add: task)
    thus ?thesis using Await by (simp add: task_ok_def task)
  qed (use l nowire task co_run_stops [OF r] in \<open>auto simp: task_ok_def leaves_def ps\<close>)
  have "system_ok D cfg (N(i := n)) ?y"
    unfolding system_ok_def using inv wk' leaves_depth [of cfg ?call N i D y n d p' p, OF l r dep i] other self by (simp add: ps)
  moreover have "promises ?call x (world_of D ?y)" if "t_prog (y_tasks ?y ! i) = Ret x" for x
    using l that by (simp add: task leaves_def wp request_of_def)
  ultimately show ?thesis by blast
qed

lemma resume_ok:
  assumes inj: "inj (cf_nonce cfg)" and ok: "system_ok D cfg N y" and s: "resume i a y = Some y'"
  shows "\<exists>N'. system_ok D cfg N' y'
    \<and> (\<forall>x. t_prog (y_tasks y' ! i) = Ret x \<longrightarrow> promises (t_call (y_tasks y' ! i)) x (world_of D y'))"
proof -
  have i: "i < length (y_tasks y)" using s by (auto simp: resume_def split: if_splits)
  then obtain q k where t: "t_prog (y_tasks y ! i) = Await q k" and may: "may_resume (y_drv y) q (t_answer (y_tasks y ! i)) a"
    and y': "y' = proceed i (k a) y"
    using s by (auto simp: resume_def split: co.splits if_splits)
  have wk: "wire_ok cfg y" and dep: "depth_ok y N" and inv: "smu_inv (world_of D y)"
    and tk: "\<And>j. j < length (y_tasks y) \<Longrightarrow> task_ok D cfg y j (N j)"
    using ok by (simp_all add: system_ok_def)
  have w: "waits D cfg y i (N i) q k" using tk [OF i] t by (simp add: task_ok_def)
  then obtain W1 where w1: "rely (N i) W1 (world_of D y)"
    "\<And>W' a. resumes (N i) W1 q a W' \<Longrightarrow> call_wp cfg (t_call (y_tasks y ! i)) (k a) (N i, W') (w_drv W')"
    "\<And>s r. (s, i, r) \<in> set (y_wire y) \<Longrightarrow> r = q \<and> w_seq W1 = Suc s \<and> t_answer (y_tasks y ! i) = None"
    "\<And>a c. t_answer (y_tasks y ! i) = Some a \<Longrightarrow> off_answer q a c \<Longrightarrow>
        \<exists>We. rely (N i) W1 We \<and> \<not> w_on We c \<and> (\<forall>e \<in> set (w_wire We). w_seq W1 \<le> fst e) \<and> rely (N i) We (world_of D y)"
    unfolding waits_def by blast
  have m: "on_wire q \<Longrightarrow> t_answer (y_tasks y ! i) = Some a" using may by (cases q) auto
  have nowire: "(s, i, r) \<notin> set (y_wire y)" for s r
  proof
    assume e: "(s, i, r) \<in> set (y_wire y)"
    hence "on_wire q" using wk w1(3) by (force simp: wire_ok_def)
    thus False using m w1(3) [OF e] by simp
  qed
  have "resumes (N i) W1 q a (world_of D y)"
    unfolding resumes_def
  proof (intro conjI allI impI)
    show "N i c \<le> k_depth (w_drv (world_of D y)) c" for c using owned_one [OF dep i] by simp
    fix c assume o: "off_answer q a c"
    hence "on_wire q" by (auto simp: off_answer_def)
    from w1(4) [OF m [OF this] o]
    show "\<exists>We. rely (N i) W1 We \<and> \<not> w_on We c \<and> (\<forall>e \<in> set (w_wire We). w_seq W1 \<le> fst e) \<and> rely (N i) We (world_of D y)" .
  qed (rule w1(1), rule inv)
  hence "call_wp cfg (t_call (y_tasks y ! i)) (k a) (N i, world_of D y) (y_drv y)" using w1(2) by fastforce
  from segment_ok [OF inj wk dep i tk nowire this]
  obtain N' where n: "system_ok D cfg N' (proceed i (k a) y)"
    "\<And>x. t_prog (y_tasks (proceed i (k a) y) ! i) = Ret x \<Longrightarrow> promises (t_call (y_tasks y ! i)) x (world_of D (proceed i (k a) y))"
    by blast
  obtain d p' where "co_run (k a) (y_drv y) = (d, p')" by (cases "co_run (k a) (y_drv y)")
  from proceed_simps(4) [OF this, of i] i have "t_call (y_tasks (proceed i (k a) y) ! i) = t_call (y_tasks y ! i)" by simp
  with n show ?thesis unfolding y' by auto
qed

subsection \<open>The transport\<close>

lemma rely_shrink:
  assumes "w_drv W' = w_drv W" "w_seq W' = w_seq W" and sub: "set (w_wire W') \<subseteq> set (w_wire W)"
    and hot: "\<And>c. hot W' c \<Longrightarrow> hot W c" and below: "\<And>e. e \<in> set (w_wire W) \<Longrightarrow> fst e < w_seq W"
  shows "rely m W W'"
  unfolding rely_def cold_def using sub hot below by (auto simp: assms(1,2))

text \<open>A command of task \<open>i\<close> leaves the wire with an answer.\<close>

lemma answered_ok:
  assumes ok: "system_ok D cfg N y" and e: "(s, i, q) \<in> set (y_wire y)"
    and y': "y_drv y' = y_drv y" "y_seq y' = y_seq y" "y_tasks y' = (y_tasks y)[i := (y_tasks y ! i)\<lparr> t_answer := Some a \<rparr>]"
    and wire: "set (y_wire y') \<subseteq> set (y_wire y)" "sorted_wrt (<) (map fst (y_wire y'))" "\<And>s r. (s, i, r) \<notin> set (y_wire y')"
    and nonces: "nonces_ok cfg (k_nonces (y_drv y)) (wire_nonces (y_wire y') @ y_used y')"
    and on: "\<And>c. inst_on D (y_inst y') c \<Longrightarrow> hot (world_of D y) c"
    and off: "\<And>c. off_answer q a c \<Longrightarrow> \<not> inst_on D (y_inst y') c \<and> (\<forall>x \<in> set (y_wire y'). Suc s \<le> fst x)"
  shows "system_ok D cfg N y'"
proof -
  have wk: "wire_ok cfg y" and dep: "depth_ok y N" and inv: "smu_inv (world_of D y)"
    and tk: "\<And>j. j < length (y_tasks y) \<Longrightarrow> task_ok D cfg y j (N j)"
    using ok by (simp_all add: system_ok_def)
  have sub: "set (w_wire (world_of D y')) \<subseteq> set (w_wire (world_of D y))" using image_mono [OF wire(1), of "\<lambda>(s, i, q). (s, q)"] by simp
  have hot: "hot (world_of D y) c" if "hot (world_of D y') c" for c
  proof -
    consider "inst_on D (y_inst y') c" | e where "e \<in> set (w_wire (world_of D y'))" "risky c (snd e)"
      using \<open>hot (world_of D y') c\<close> unfolding hot_def world_of_simps(2) by blast
    thus ?thesis
    proof cases
      case 2
      thus ?thesis using sub unfolding hot_def by blast
    qed (rule on)
  qed
  have rel: "rely m (world_of D y) (world_of D y')" for m
    by (rule rely_shrink) (use sub hot wire_below [OF wk] in \<open>simp_all add: y'\<close>)
  have wk': "wire_ok cfg y'" using wk wire nonces by (auto simp: wire_ok_def y')
  have inv': "smu_inv (world_of D y')" using inv hot by (auto simp: smu_inv_def cold_def y')
  have dep': "depth_ok y' N" using dep by (simp add: depth_ok_def y')
  have "task_ok D cfg y' j (N j)" if j: "j < length (y_tasks y)" for j
  proof (cases "j = i")
    case False
    show ?thesis by (rule task_other [OF tk [OF j] rel]) (use False wire(1) in \<open>auto simp: y'\<close>)
  next
    case True
    with tk [OF j] e obtain q' k where t: "t_prog (y_tasks y ! i) = Await q' k" and w: "waits D cfg y i (N i) q' k"
      by (auto simp: task_ok_def split: co.splits)
    then obtain W1 where w1: "rely (N i) W1 (world_of D y)"
      "\<And>W' a. resumes (N i) W1 q' a W' \<Longrightarrow> call_wp cfg (t_call (y_tasks y ! i)) (k a) (N i, W') (w_drv W')"
      "\<And>s r. (s, i, r) \<in> set (y_wire y) \<Longrightarrow> r = q' \<and> w_seq W1 = Suc s"
      unfolding waits_def by blast
    have q: "q' = q" "w_seq W1 = Suc s" using w1(3) [OF e] by simp_all
    have task: "y_tasks y' ! i = (y_tasks y ! i)\<lparr> t_answer := Some a \<rparr>" using j True by (simp add: y')
    have rel1: "rely (N i) W1 (world_of D y')" by (rule rely_trans [OF w1(1) rel])
    have "waits D cfg y' i (N i) q' k"
    proof (rule waitsI [OF rel1])
      fix a' c assume "t_answer (y_tasks y' ! i) = Some a'" "off_answer q' a' c"
      hence "\<not> inst_on D (y_inst y') c" "\<forall>x \<in> set (y_wire y'). Suc s \<le> fst x" using off [of c] by (simp_all add: task q)
      thus "\<exists>We. rely (N i) W1 We \<and> \<not> w_on We c \<and> (\<forall>e \<in> set (w_wire We). w_seq W1 \<le> fst e) \<and> rely (N i) We (world_of D y')"
        using rel1 rely_here [OF wk'] by (intro exI [of _ "world_of D y'"]) (auto simp: q(2))
    qed (use w1(2) wire(3) in \<open>auto simp: task\<close>)
    thus ?thesis using t True by (simp add: task_ok_def task)
  qed
  thus ?thesis unfolding system_ok_def using inv' wk' dep' by (simp add: y')
qed

lemma hot_wire: "(s, i, q) \<in> set (y_wire y) \<Longrightarrow> risky c q \<Longrightarrow> hot (world_of D y) c"
  by (force simp: hot_def)

lemma head_facts:
  assumes "wire_ok cfg y" "y_wire y = (s, i, q) # rest"
  shows "sorted_wrt (<) (map fst rest)" "\<And>x. x \<in> set rest \<Longrightarrow> Suc s \<le> fst x"
    "nonces_ok cfg (k_nonces (y_drv y)) (challenge_nonces q @ wire_nonces rest @ y_used y)"
  using assms by (auto simp: wire_ok_def)

lemma one_entry:
  assumes "system_ok D cfg N y" "(s, i, q) \<in> set (y_wire y)" "(s', i, q') \<in> set (y_wire y)"
  shows "s' = s"
proof -
  have "i < length (y_tasks y)" using assms(1,2) by (auto simp: system_ok_def wire_ok_def)
  hence "task_ok D cfg y i (N i)" using assms(1) by (simp add: system_ok_def)
  with assms(2) obtain x k where "waits D cfg y i (N i) x k" by (auto simp: task_ok_def split: co.splits)
  thus ?thesis using assms(2,3) unfolding waits_def by (metis Suc_inject)
qed

text \<open>The first command is executed, or fails with or without having reached the instrument.\<close>

lemma reach_facts:
  "y_drv (reach_inst D q y) = y_drv y" "y_seq (reach_inst D q y) = y_seq y" "y_tasks (reach_inst D q y) = y_tasks y"
  "y_wire (reach_inst D q y) = y_wire y" "y_used (reach_inst D q y) = challenge_nonces q @ y_used y"
  by (cases q; simp add: reach_inst_def)+

lemma reach_on:
  "only_on_switches_on D \<Longrightarrow> inst_on D (y_inst (reach_inst D q y)) c \<Longrightarrow> inst_on D (y_inst y) c \<or> risky c q"
  by (cases q) (auto simp: reach_inst_def only_on_switches_on_def risky_def)

lemma head_answered_ok:
  assumes laws: "only_on_switches_on D" and ok: "system_ok D cfg N y" and w: "y_wire y = (s, i, q) # rest"
    and y1: "y1 = y\<lparr> y_wire := rest \<rparr> \<or> y1 = reach_inst D q (y\<lparr> y_wire := rest \<rparr>)"
    and off: "\<And>c. off_answer q a c \<Longrightarrow> \<not> inst_on D (y_inst y1) c"
  shows "system_ok D cfg N (leave_answer i a y1)"
proof -
  have wk: "wire_ok cfg y" using ok by (simp add: system_ok_def)
  note h = head_facts [OF wk w]
  have y1': "y_drv y1 = y_drv y" "y_seq y1 = y_seq y" "y_tasks y1 = y_tasks y" "y_wire y1 = rest"
    "y_used y1 = y_used y \<or> y_used y1 = challenge_nonces q @ y_used y"
    using y1 by (auto simp: reach_facts)
  have on: "inst_on D (y_inst y1) c \<Longrightarrow> hot (world_of D y) c" for c
    using y1 reach_on [OF laws, of q "y\<lparr> y_wire := rest \<rparr>" c] hot_wire [of s i q y c D] w by (auto simp: hot_def)
  have nonces: "nonces_ok cfg (k_nonces (y_drv y)) (wire_nonces rest @ y_used y1)"
    using h(3) y1'(5) by (auto simp: nonces_ok_def)
  have no: "(s', i, r) \<notin> set rest" for s' r
    using one_entry [OF ok, of s i q s' r] w h(2) [of "(s', i, r)"] by auto
  show ?thesis
    by (rule answered_ok [OF ok, of s i q])
      (use w h(1,2) no nonces on off y1' in \<open>auto simp: leave_answer_def\<close>)
qed

lemma execute_ok:
  assumes laws: "only_on_switches_on D" "honest_challenge D" and ok: "system_ok D cfg N y"
    and s: "smu_step D cfg (Execute r) y = Some y'"
  shows "system_ok D cfg N y'"
proof -
  obtain s i q rest where w: "y_wire y = (s, i, q) # rest" and adm: "admissible D y q r"
    and y': "y' = leave_answer i (Answer r) (reach_inst D q (y\<lparr> y_wire := rest \<rparr>))"
    using s by (auto split: list.splits if_splits)
  have wk: "wire_ok cfg y" using ok by (simp add: system_ok_def)
  have "\<not> inst_on D (y_inst (reach_inst D q (y\<lparr> y_wire := rest \<rparr>))) c" if o: "off_answer q (Answer r) c" for c
  proof -
    obtain nonce where q: "q = Query (ChallengeQ c nonce)" "parse_output_off_challenge r nonce = Inr True"
      using o by (auto simp: off_answer_def)
    have "nonce \<notin> set (y_used y)" using head_facts(3) [OF wk w] by (auto simp: q nonces_ok_def)
    moreover have "inst_reply D (y_inst y) (y_used y) (ChallengeQ c nonce) r" using adm by (simp add: admissible_def q)
    ultimately have "\<not> inst_on D (y_inst y) c" using laws(2) q(2) unfolding honest_challenge_def by blast
    thus ?thesis by (simp add: reach_inst_def q)
  qed
  thus ?thesis unfolding y' by (intro head_answered_ok [OF laws(1) ok w]) auto
qed

lemma execute_fails_ok:
  assumes laws: "only_on_switches_on D" and ok: "system_ok D cfg N y"
    and s: "smu_step D cfg (ExecuteFails reached e) y = Some y'"
  shows "system_ok D cfg N y'"
proof -
  obtain s i q rest where w: "y_wire y = (s, i, q) # rest"
    and y': "y' = leave_answer i (Fail e) ((if reached then reach_inst D q else id) (y\<lparr> y_wire := rest \<rparr>))"
    using s by (auto split: list.splits)
  show ?thesis unfolding y' by (rule head_answered_ok [OF laws ok w]) (auto simp: off_answer_def)
qed

lemma open_ok:
  assumes ok: "system_ok D cfg N y" and s: "smu_step D cfg (OpenOn x) y = Some y'"
  shows "system_ok D cfg N y'"
proof -
  obtain s i rest where w: "y_wire y = (s, i, OpenTransport) # rest"
    and y': "y' = leave_answer i (Answer []) (y\<lparr> y_wire := rest, y_inst := x \<rparr>)"
    using s by (auto split: list.splits request.splits)
  have wk: "wire_ok cfg y" using ok by (simp add: system_ok_def)
  note h = head_facts [OF wk w]
  have no: "(s', i, r) \<notin> set rest" for s' r
    using one_entry [OF ok, of s i OpenTransport s' r] w h(2) [of "(s', i, r)"] by auto
  have on: "hot (world_of D y) c" for c using hot_wire [of s i OpenTransport y c D] w by (simp add: risky_def)
  show ?thesis unfolding y'
    by (rule answered_ok [OF ok, of s i OpenTransport])
      (use w h no on in \<open>auto simp: leave_answer_def off_answer_def\<close>)
qed

lemma withdraw_ok:
  assumes ok: "system_ok D cfg N y" and s: "smu_step D cfg (Withdraw i e) y = Some y'"
  shows "system_ok D cfg N y'"
proof -
  obtain s q where w: "(s, i, q) \<in> set (y_wire y)" and y': "y' = leave_answer i (Fail e) (y\<lparr> y_wire := filter (\<lambda>x. fst (snd x) \<noteq> i) (y_wire y) \<rparr>)"
    using s by (auto split: if_splits)
  have wk: "wire_ok cfg y" using ok by (simp add: system_ok_def)
  have srt: "sorted_wrt (<) (map fst (filter P es))" if "sorted_wrt (<) (map fst es)" for P and es :: "(nat \<times> nat \<times> request) list"
    using that by (induction es) auto
  have sub: "set (wire_nonces (filter P es)) \<subseteq> set (wire_nonces es)" for P es by (induction es) auto
  have dis: "distinct (wire_nonces (filter P es))" if "distinct (wire_nonces es)" for P es
    using that sub by (induction es) (auto, blast)
  have "nonces_ok cfg (k_nonces (y_drv y)) (wire_nonces (filter (\<lambda>x. fst (snd x) \<noteq> i) (y_wire y)) @ y_used y)"
    by (rule nonces_ok_sub [of _ _ "wire_nonces (y_wire y)"]) (use wk sub dis in \<open>auto simp: wire_ok_def nonces_ok_def\<close>)
  thus ?thesis unfolding y'
    by (intro answered_ok [OF ok w])
      (use wk srt in \<open>auto simp: leave_answer_def off_answer_def wire_ok_def hot_def\<close>)
qed

subsection \<open>Every run\<close>

lemma system_step_ok:
  assumes "\<not> cf_mock cfg" "inj (cf_nonce cfg)" "only_on_switches_on D" "honest_challenge D"
    and "system_ok D cfg N y" "smu_step D cfg e y = Some y'"
  shows "\<exists>N'. system_ok D cfg N' y'"
proof (cases e)
  case (Call call)
  thus ?thesis using call_step_ok [OF assms(1,5), of call] assms(6) by simp
next
  case (Resume i a)
  thus ?thesis using resume_ok [OF assms(2,5), of i a y'] assms(6) by auto
next
  case (Execute r)
  thus ?thesis using execute_ok [OF assms(3,4,5)] assms(6) by blast
next
  case (ExecuteFails b e)
  thus ?thesis using execute_fails_ok [OF assms(3,5)] assms(6) by blast
next
  case (OpenOn x)
  thus ?thesis using open_ok [OF assms(5)] assms(6) by blast
next
  case (Withdraw i e)
  thus ?thesis using withdraw_ok [OF assms(5)] assms(6) by blast
qed

lemma system_run_ok:
  assumes "\<not> cf_mock cfg" "inj (cf_nonce cfg)" "only_on_switches_on D" "honest_challenge D"
  shows "system_ok D cfg N y \<Longrightarrow> smu_run D cfg es y = Some y' \<Longrightarrow> \<exists>N'. system_ok D cfg N' y'"
proof (induction es arbitrary: N y)
  case (Cons e es)
  then obtain y1 where y1: "smu_step D cfg e y = Some y1" "smu_run D cfg es y1 = Some y'" by (auto split: option.splits)
  from system_step_ok [OF assms Cons.prems(1) y1(1)] obtain N1 where "system_ok D cfg N1 y1" by blast
  from Cons.IH [OF this y1(2)] show ?case .
qed auto

end
