(* ===== verification/SmuExample.thy ===== *)
theory SmuExample
  imports SmuSystem
begin

text \<open>
  A concrete instrument, the configuration of a driver for it, and runs of the driver on it. The
  properties of the driver are applied to these.
\<close>

section \<open>The instrument\<close>

datatype box = Box bool bool

fun box_on :: "box \<Rightarrow> smu_channel \<Rightarrow> bool" where
  "box_on (Box a b) smua = a"
| "box_on (Box a b) smub = b"

fun box_exec :: "box \<Rightarrow> tsp \<Rightarrow> box" where
  "box_exec (Box a b) (OutputOn smua) = Box True b"
| "box_exec (Box a b) (OutputOn smub) = Box a True"
| "box_exec (Box a b) (OutputOff smua) = Box False b"
| "box_exec (Box a b) (OutputOff smub) = Box a False"
| "box_exec x _ = x"

definition off_reply :: "string \<Rightarrow> string" where
  "off_reply nonce = ''CRYODAQ_OFF_V1|'' @ nonce @ ''|0''"

fun box_reply :: "box \<Rightarrow> string list \<Rightarrow> tsp \<Rightarrow> string \<Rightarrow> bool" where
  "box_reply x old (ChallengeQ c nonce) r = (r = (if box_on x c then ''ON'' else off_reply nonce))"
| "box_reply x old _ r = True"

definition box :: "box instrument" where
  "box = \<lparr> inst_exec = box_exec, inst_on = box_on, inst_reply = box_reply \<rparr>"

lemma box_switches: "only_on_switches_on box"
  unfolding only_on_switches_on_def
proof (intro allI impI)
  fix x cmd c
  assume "inst_on box (inst_exec box x cmd) c"
  thus "inst_on box x c \<or> cmd = OutputOn c"
    by (cases x; cases c; cases "(x, cmd)" rule: box_exec.cases) (auto simp: box_def)
qed

lemma no_challenge_in_ON: "parse_output_off_challenge ''ON'' nonce \<noteq> Inr True"
proof
  assume "parse_output_off_challenge ''ON'' nonce = Inr True"
  then obtain token where "bounded_ascii_token ''ON'' 96 = Inr token" "check_challenge nonce (split_char (CHR ''|'') token) = Inr True"
    by (auto simp: parse_output_off_challenge_def res_bind_Inr_iff split: if_splits)
  moreover have "bounded_ascii_token ''ON'' 96 = Inr ''ON''" "split_char (CHR ''|'') ''ON'' = [''ON'']" by code_simp+
  ultimately show False by (simp add: check_challenge_def)
qed

lemma box_honest: "honest_challenge box"
  using no_challenge_in_ON by (auto simp: honest_challenge_def box_def)

section \<open>The configuration\<close>

definition box_nonce :: "nat \<Rightarrow> string" where
  "box_nonce i =
     (if i < 16 then replicate 31 (CHR ''0'') @ [''0123456789abcdef'' ! i] else replicate (32 + i) (CHR ''0''))"

lemma box_nonce_inj: "inj box_nonce"
proof (rule injI)
  fix i j :: nat
  assume eq: "box_nonce i = box_nonce j"
  have len: "length (box_nonce k) = (if k < 16 then 32 else 32 + k)" for k by (simp add: box_nonce_def)
  have dist: "distinct ''0123456789abcdef''" "length ''0123456789abcdef'' = 16" by simp_all
  from arg_cong [OF eq, of length] consider "i = j" | "i < 16" "j < 16" unfolding len by (auto split: if_splits)
  thus "i = j"
  proof cases
    case 2
    hence "''0123456789abcdef'' ! i = ''0123456789abcdef'' ! j" using eq by (simp add: box_nonce_def)
    thus ?thesis using nth_eq_iff_index_eq [OF dist(1)] 2 dist(2) by metis
  qed
qed

definition box_cfg :: k26_cfg where
  "box_cfg =
     \<lparr> cf_mock = False, cf_resource = ''USB0::0x05E6::0x2604::ABC1::INSTR'', cf_wdog_mode = WdogOff,
       cf_wdog_timeout = Fin 5, cf_nonce = box_nonce \<rparr>"

lemma box_cfg_laws: "\<not> cf_mock box_cfg" "inj (cf_nonce box_cfg)"
  by (simp_all add: box_cfg_def box_nonce_inj)

lemma box_cfg_simps [simp]:
  "cf_mock box_cfg = False" "cf_resource box_cfg = ''USB0::0x05E6::0x2604::ABC1::INSTR''"
  "cf_wdog_mode box_cfg = WdogOff" "cf_nonce box_cfg = box_nonce"
  by (simp_all add: box_cfg_def)

definition box_idn :: string where
  "box_idn = ''Keithley Instruments Inc., Model 2604B, ABC1, 3.0.0''"

lemma box_idn_nonempty [simp]: "box_idn \<noteq> []"
  by (simp add: box_idn_def)

lemma box_parses [simp]:
  "parse_output_off_challenge (off_reply (box_nonce 0)) (box_nonce 0) = Inr True"
  "parse_output_off_challenge (off_reply (box_nonce (Suc 0))) (box_nonce (Suc 0)) = Inr True"
  "parse_output_off_challenge (off_reply (box_nonce (Suc (Suc 0)))) (box_nonce (Suc (Suc 0))) = Inr True"
  "parse_output_off_challenge (off_reply (box_nonce (Suc (Suc (Suc 0))))) (box_nonce (Suc (Suc (Suc 0)))) = Inr True"
  "parse_keithley_idn box_idn False (Some ''ABC1'') = Inr box_idn"
  "parse_keithley_idn_family box_idn False = Inr (box_idn, ''ABC1'', ''3.0.0'')"
  "parse_configured_keithley_serial ''USB0::0x05E6::0x2604::ABC1::INSTR'' = Inr ''ABC1''"
  by code_simp+

section \<open>Evaluation\<close>

lemmas system_unfolds = resume_def proceed_def leave_answer_def reach_inst_def admissible_def system_init_def finish_def
  k26_init_def channel_runtime_def box_def Let_def SMU_CHANNELS_def

lemmas op_unfolds = connect_def settle_previous_teardown_def connect_refusal_def expected_serial_def lift_result_def
  connect_claim_def connect_identify_def transport_open_def transport_close_def transport_query_def transport_write_def
  aw_unit_def tick_def connect_secure_def attempt_owned_off_def attempt_output_off_sequence_def off_commands_def
  off_command_def off_readback_def verify_output_off_def draw_nonce_def settle_readback_def co_mark_def wdog_arm_def
  raise_if_operationally_barred_def emergency_off_def target_channels_def failed_connect_def settle_failed_connect_def

lemmas state_unfolds = begin_off_operation_def begin_off_one_def mark_channel_off_verified_def mark_admitted_def
  mark_commit_def finish_off_operation_def finish_off_one_def refresh_output_uncertainty_def all_off_proofs_def
  has_current_off_proof_def has_current_off_readback_def transport_available_def upd_runtime_def
  invalidate_channel_off_evidence_def revoke_off_evidence_def cf_wdog_enabled_def output_state_unverified_def
  token_truthy_def drop_connection_def enter_recovery_def is_cancel_def

section \<open>Runs\<close>

abbreviation ok_answer :: answer where "ok_answer \<equiv> Answer []"

definition off_commands_events :: "nat \<Rightarrow> nat \<Rightarrow> nat \<Rightarrow> box smu_event list" where
  "off_commands_events i m n =
     [Resume i ok_answer,
      Execute [], Resume i ok_answer, Execute [], Resume i ok_answer,
      Execute [], Resume i ok_answer, Execute [], Resume i ok_answer,
      Execute (off_reply (box_nonce m)), Resume i (Answer (off_reply (box_nonce m))),
      Execute (off_reply (box_nonce n)), Resume i (Answer (off_reply (box_nonce n)))]"

text \<open>Connecting to a box that has both outputs on.\<close>

definition connect_events :: "box smu_event list" where
  "connect_events =
     [Call CallConnect, Resume 0 ok_answer, OpenOn (Box True True), Resume 0 ok_answer,
      Execute box_idn, Resume 0 (Answer box_idn)] @ off_commands_events 0 0 1 @
     [Resume 0 ok_answer, Execute [], Resume 0 ok_answer]"

lemma connect_run:
  "map_option (\<lambda>y. (y_inst y, output_state_unverified box_cfg (y_drv y))) (smu_run box box_cfg connect_events (system_init (Box True True)))
     = Some (Box False False, False)"
  by (simp add: connect_events_def off_commands_events_def system_unfolds co_unfolds op_unfolds state_unfolds cong: lazy_congs)

text \<open>Then an emergency OFF of both channels, up to the last step of its task, and that step.\<close>

definition off_events :: "box smu_event list" where
  "off_events = connect_events @ [Call (CallEmergencyOff None), Resume 1 ok_answer] @ off_commands_events 1 (Suc (Suc 0)) (Suc (Suc (Suc 0)))"

lemma smu_run_append:
  "smu_run D cfg (es @ es') y = (case smu_run D cfg es y of None \<Rightarrow> None | Some y' \<Rightarrow> smu_run D cfg es' y')"
  by (induction es arbitrary: y) (auto split: option.split)

lemma off_run:
  "\<exists>y y'. smu_run box box_cfg off_events (system_init (Box True True)) = Some y
     \<and> smu_step box box_cfg (Resume 1 ok_answer) y = Some y'
     \<and> t_call (y_tasks y' ! 1) = CallEmergencyOff None
     \<and> t_prog (y_tasks y' ! 1) = Ret (ReportedOff DEVICE_REPORTED_OFF)
     \<and> y_inst y' = Box False False \<and> length (y_tasks y') = 2 \<and> t_prog (y_tasks y' ! 0) = Ret Done"
  by (simp add: off_events_def connect_events_def off_commands_events_def system_unfolds co_unfolds op_unfolds state_unfolds
      cong: lazy_congs)

text \<open>
  A connect whose identification failed is still closing the transport when another connect begins. The
  outputs are off throughout, and the instrument answers everything that is asked of it.
\<close>

definition race_events :: "box smu_event list" where
  "race_events =
     [Call CallConnect, Resume 0 ok_answer, OpenOn (Box False False), Resume 0 ok_answer,
      ExecuteFails False (OSErr []), Resume 0 (Fail (OSErr [])),
      Call CallConnect, Resume 1 ok_answer,
      Execute [], OpenOn (Box False False), Resume 1 ok_answer, Resume 0 ok_answer,
      Execute box_idn, Resume 1 (Answer box_idn), Resume 1 ok_answer,
      Execute [], Resume 1 ok_answer, Execute [], Resume 1 ok_answer,
      Execute [], Resume 1 ok_answer, Execute [], Resume 1 ok_answer,
      Resume 1 ok_answer]"

lemma race_run:
  "\<exists>y. smu_run box box_cfg race_events (system_init (Box False False)) = Some y
     \<and> t_call (y_tasks y ! 1) = CallConnect \<and> t_prog (y_tasks y ! 1) = Raise OutputStateUnverifiedError \<and> k_recovery (y_drv y) \<and> y_inst y = Box False False"
  by (simp add: race_events_def system_unfolds co_unfolds op_unfolds state_unfolds cong: lazy_congs)

section \<open>A connected driver\<close>

definition connected_state :: k26 where
  "connected_state =
     k26_init\<lparr> k_connected := True, k_identity := box_idn, k_generation := 1, k_verified := (\<lambda>_. True),
                k_vgeneration := (\<lambda>_. Some 1), k_vepoch := (\<lambda>_. Some 0), k_unsafe := False \<rparr>"

definition regulated_state :: k26 where
  "regulated_state =
     (upd_runtime smua (\<lambda>_. \<lparr> rt_active = True, rt_p_target = Fin 1, rt_v_comp = Fin 10, rt_i_comp = Fin 1 \<rparr>) connected_state)
       \<lparr> k_regulation := (\<lambda>_. Some 0) \<rparr>"

text \<open>A start, up to the command that switches on; one step of the regulation.\<close>

lemmas start_unfolds = start_source_def require_operational_connection_def identity_exact_def start_arguments_def
  start_refusal_def start_claim_def begin_start_operation_def start_prepare_def start_commands_def write_owned_def
  require_current_start_def start_operation_is_current_def operational_write_def operational_query_def with_io_lock_def
  demote_def start_output_def connected_state_def normalize_smua

lemma start_run:
  "\<exists>t s. co_trace (call_body box_cfg (CallStart (Some ''smua'') (Fin 1) (Fin 10) (Fin 1))) connected_state
       (replicate 15 (Answer [], id)) = t @ [(Write (OutputOn smua), s, None)]"
proof -
  let ?t = "co_trace (call_body box_cfg (CallStart (Some ''smua'') (Fin 1) (Fin 10) (Fin 1))) connected_state
       (replicate 15 (Answer [], id))"
  have "\<exists>a b c d e f g h i j k l m n p s. ?t = [a, b, c, d, e, f, g, h, i, j, k, l, m, n, p, (Write (OutputOn smua), s, None)]"
    by (simp add: numeral_eq_Suc start_unfolds system_unfolds co_unfolds op_unfolds state_unfolds cong: lazy_congs)
  thus ?thesis by (metis append_Cons append_Nil)
qed

lemmas regulate_unfolds = regulate_def regulation_target_def clamped_target_def slew_limited_def py_min_def py_max_def
  regulation_is_current_def require_current_regulation_def regulated_state_def MAX_DELTA_V_PER_STEP_def I_MIN_A_def

lemma regulate_run:
  "\<exists>s. (Write (LevelV smua (Fin (1 / 2))), s, None) \<in>
     set (co_trace (regulate box_cfg smua 1 0 (Fin 1) (Fin 1)) regulated_state [(Answer [], id)])"
  by (simp add: regulate_unfolds start_unfolds system_unfolds co_unfolds op_unfolds state_unfolds cong: lazy_congs)
end
