(* ===== verification/SmuBounds.thy ===== *)
theory SmuBounds
  imports SmuLifecycle
begin

text \<open>
  Every operation of the Keithley driver makes a bounded number of requests, whatever the answers are and
  whatever other operations do meanwhile; and only switching a source on writes a command that switches an
  output on. The bounds are the sums of the longest paths.
\<close>

definition no_on :: "request \<Rightarrow> bool" where
  "no_on q = (\<forall>c. q \<noteq> Write (OutputOn c))"

lemma no_on_simps [simp]:
  "no_on (Write cmd) = (\<forall>c. cmd \<noteq> OutputOn c)" "no_on (Query cmd)" "no_on OpenTransport" "no_on CloseTransport"
  "no_on AcquireIo" "no_on Tick" "no_on LoadScript"
  by (auto simp: no_on_def)

section \<open>Requests\<close>

lemma within_kexn [within_intros]:
  assumes "\<And>x. co_within R (f1 x) n" "\<And>x. co_within R (f2 x) n" "\<And>x. co_within R (f3 x) n" "\<And>x. co_within R (f4 x) n"
    "co_within R f5 n" "co_within R f6 n" "co_within R f7 n" "co_within R f8 n" "co_within R f9 n"
  shows "co_within R (case e of CancelledBy x \<Rightarrow> f1 x | OSErr x \<Rightarrow> f2 x | USBTMCIncompleteCloseError x \<Rightarrow> f3 x
     | PyErr x \<Rightarrow> f4 x | OutputStateUnverifiedError \<Rightarrow> f5 | TransportTeardownIncompleteError \<Rightarrow> f6
     | FailedConnectCleanupError \<Rightarrow> f7 | WatchdogArmError \<Rightarrow> f8 | WatchdogTransportAuthorityError \<Rightarrow> f9) n"
  using assms by (cases e) auto

lemma within_answer:
  "(\<And>x. co_within R (f x) n) \<Longrightarrow> (\<And>e. co_within R (h e) n) \<Longrightarrow> co_within R (case a of Answer x \<Rightarrow> f x | Fail e \<Rightarrow> h e) n"
  by (cases a) auto

lemma within_unit [within_intros]: "R q \<Longrightarrow> co_within R (aw_unit q) 1"
  unfolding aw_unit_def One_nat_def by (intro within_Await within_answer within_leaves)

lemma within_write [within_intros]: "R (Write cmd) \<Longrightarrow> co_within R (transport_write cmd) 1"
  unfolding transport_write_def by (rule within_unit)

lemma within_open [within_intros]: "R OpenTransport \<Longrightarrow> co_within R transport_open 1"
  unfolding transport_open_def by (rule within_unit)

lemma within_close [within_intros]: "R CloseTransport \<Longrightarrow> co_within R transport_close 1"
  unfolding transport_close_def by (rule within_unit)

lemma within_query [within_intros]: "R (Query cmd) \<Longrightarrow> co_within R (transport_query cmd) 1"
  unfolding transport_query_def One_nat_def by (intro within_Await within_answer within_leaves)

lemma within_tick [within_intros]: "R Tick \<Longrightarrow> co_within R tick 1"
  unfolding tick_def One_nat_def by (intro within_Await within_answer within_leaves)

lemma within_lift [within_intros]: "co_within R (lift_result r) 0"
  by (simp add: lift_result_def split: sum.split)

section \<open>Ordinary traffic\<close>

lemma within_barred [within_intros]: "co_within R raise_if_operationally_barred 0"
  by (simp add: raise_if_operationally_barred_def)

lemma within_operational [within_intros]: "co_within R (require_operational_connection cfg) 0"
  unfolding require_operational_connection_def by (rule within_mono, (rule within_intros | assumption | simp)+)

lemma within_demote [within_intros]: "co_within R (demote cfg e) 0"
  unfolding demote_def by (rule within_mono, (rule within_intros | assumption | simp)+)

lemma within_lock [within_intros]: "R AcquireIo \<Longrightarrow> co_within R p n \<Longrightarrow> co_within R (with_io_lock p) (n + 1)"
  unfolding with_io_lock_def by (rule within_mono, (rule within_intros | assumption | simp)+)

lemma within_operational_query [within_intros]:
  "R AcquireIo \<Longrightarrow> R (Query cmd) \<Longrightarrow> co_within R (operational_query cfg cmd) 2"
  unfolding operational_query_def by (rule within_mono, (rule within_intros | assumption | simp)+)

lemma within_operational_write [within_intros]:
  "R AcquireIo \<Longrightarrow> R (Write cmd) \<Longrightarrow> co_within R p 0 \<Longrightarrow> co_within R (operational_write cfg cmd p) 2"
  unfolding operational_write_def by (rule within_mono, (rule within_intros | assumption | simp)+)

section \<open>OFF\<close>

lemma within_off_command [within_intros]: "no_on (Write cmd) \<Longrightarrow> co_within no_on (off_command cfg cmd c acc) 1"
  unfolding off_command_def by (rule within_mono, (rule within_intros | assumption | simp)+)

lemma within_off_commands [within_intros]: "co_within no_on (off_commands cfg c acc) 2"
  unfolding off_commands_def by (rule within_mono, (rule within_intros | assumption | simp)+)

lemma within_draw_nonce [within_intros]: "co_within no_on (draw_nonce cfg) 0"
  unfolding draw_nonce_def by (rule within_mono, (rule within_intros | assumption | simp)+)

lemma within_verify_output_off [within_intros]: "co_within no_on (verify_output_off cfg c) 1"
  unfolding verify_output_off_def by (rule within_mono, (rule within_intros | assumption | simp)+)

lemma within_co_mark [within_intros]: "co_within no_on (co_mark c g e) 0"
  unfolding co_mark_def by (rule within_mono, (rule within_intros | assumption | simp)+)

lemma within_settle_readback [within_intros]: "co_within no_on (settle_readback cfg tokens g c b1 b2) 0"
  unfolding settle_readback_def by (rule within_mono, (rule within_intros | assumption | simp)+)

lemma within_off_readback [within_intros]: "co_within no_on (off_readback cfg tokens g failed c acc) 1"
  unfolding off_readback_def by (rule within_mono, (rule within_intros | assumption | simp)+)

lemma within_mock_disconnected_off [within_intros]: "co_within no_on (mock_disconnected_off cs) 0"
  unfolding mock_disconnected_off_def by (rule within_mono, (rule within_intros | assumption | simp)+)

section \<open>Starting, limits and target\<close>

lemma within_require_current_start [within_intros]: "co_within no_on (require_current_start c token) 0"
  unfolding require_current_start_def by (rule within_mono, (rule within_intros | assumption | simp)+)

lemma within_require_current_regulation [within_intros]: "co_within no_on (require_current_regulation c g e) 0"
  unfolding require_current_regulation_def by (rule within_mono, (rule within_intros | assumption | simp)+)

lemma within_write_owned [within_intros]: "no_on (Write cmd) \<Longrightarrow> co_within no_on (write_owned cfg c token cmd) 2"
  unfolding write_owned_def by (rule within_mono, (rule within_intros | assumption | simp)+)

lemma within_program_limit [within_intros]: "no_on (Write w) \<Longrightarrow> co_within no_on p 0 \<Longrightarrow> co_within no_on (program_limit cfg w q v p) 4"
  unfolding program_limit_def by (rule within_mono, (rule within_intros | assumption | simp)+)

lemma within_update_source_limit [within_intros]: "co_within no_on (update_source_limit cfg ch v i) 4"
  unfolding update_source_limit_def by (rule within_mono, (rule within_intros | assumption | simp)+)

lemma within_update_source_limits [within_intros]: "co_within no_on (update_source_limits cfg ch v i) 8"
  unfolding update_source_limits_def by (rule within_mono, (rule within_intros | assumption | simp)+)

lemma within_update_source_target [within_intros]: "co_within no_on (update_source_target cfg ch p) 0"
  unfolding update_source_target_def by (rule within_mono, (rule within_intros | assumption | simp)+)

section \<open>Acquisition\<close>

lemma within_co_record [within_intros]: "co_within no_on (co_record c g e kind) 0"
  unfolding co_record_def by (rule within_mono, (rule within_intros | assumption | simp)+)

lemma within_read_idle_channel [within_intros]: "co_within no_on (read_idle_channel cfg c) 4"
  unfolding read_idle_channel_def by (rule within_mono, (rule within_intros | assumption | simp)+)

lemma within_regulate [within_intros]: "co_within no_on (regulate cfg c g e v i) 4"
  unfolding regulate_def by (rule within_mono, (rule within_intros | assumption | simp)+)

lemma within_read_active_channel [within_intros]: "co_within no_on (read_active_channel cfg c) 8"
  unfolding read_active_channel_def by (rule within_mono, (rule within_intros | assumption | simp)+)

lemma within_read_one_channel [within_intros]: "co_within no_on (read_one_channel cfg c rs) 8"
  unfolding read_one_channel_def by (rule within_mono, (rule within_intros | assumption | simp)+)

lemma within_wdog_pet [within_intros]: "co_within no_on (wdog_pet cfg) 2"
  unfolding wdog_pet_def by (rule within_mono, (rule within_intros | assumption | simp)+)

lemma within_read_buffer [within_intros]: "co_within no_on (read_buffer cfg a b) 2"
  unfolding read_buffer_def by (rule within_mono, (rule within_intros | assumption | simp)+)

lemma within_check_error [within_intros]: "co_within no_on (check_error cfg) 2"
  unfolding check_error_def by (rule within_mono, (rule within_intros | assumption | simp)+)

section \<open>The watchdog\<close>

lemma within_wdog_reject_unknown_latch [within_intros]: "co_within no_on (wdog_reject_unknown_latch cfg) 0"
  unfolding wdog_reject_unknown_latch_def by (rule within_mono, (rule within_intros | assumption | simp)+)

lemma within_wdog_authority_query [within_intros]: "co_within no_on (wdog_authority_query q) 1"
  unfolding wdog_authority_query_def authority_failure_def by (rule within_mono, (rule within_intros | assumption | simp)+)

lemma within_wdog_authority_write [within_intros]: "no_on (Write w) \<Longrightarrow> co_within no_on (wdog_authority_write w) 1"
  unfolding wdog_authority_write_def authority_failure_def by (rule within_mono, (rule within_intros | assumption | simp)+)

lemma within_arm_result [within_intros]: "co_within no_on (arm_result r) 0"
  unfolding arm_result_def by (rule within_mono, (rule within_intros | assumption | simp)+)

lemma within_wdog_read_autonomy [within_intros]: "co_within no_on (wdog_read_autonomy cfg) 1"
  unfolding wdog_read_autonomy_def by (rule within_mono, (rule within_intros | assumption | simp)+)

lemma within_wdog_upload [within_intros]: "co_within no_on (wdog_upload cfg) 5"
  unfolding wdog_upload_def by (rule within_mono, (rule within_intros | assumption | simp)+)

lemma within_wdog_run [within_intros]: "co_within no_on wdog_run 3"
  unfolding wdog_run_def by (rule within_mono, (rule within_intros | assumption | simp)+)

lemma within_wdog_arm_failed [within_intros]: "co_within no_on (wdog_arm_failed cfg b e) 1"
  unfolding wdog_arm_failed_def by (rule within_mono, (rule within_intros | assumption | simp)+)

lemma within_wdog_arm [within_intros]: "co_within no_on (wdog_arm cfg) 10"
  unfolding wdog_arm_def by (rule within_mono, (rule within_intros | assumption | simp)+)

lemma within_wdog_disarm [within_intros]: "co_within no_on (wdog_disarm cfg) 1"
  unfolding wdog_disarm_def by (rule within_mono, (rule within_intros | assumption | simp)+)

lemma within_wdog_tripped [within_intros]: "co_within no_on (wdog_tripped cfg) 2"
  unfolding wdog_tripped_def by (rule within_mono, (rule within_intros | assumption | simp)+)

lemma within_ack_installed_version [within_intros]: "co_within no_on (ack_installed_version cfg b) 2"
  unfolding ack_installed_version_def by (rule within_mono, (rule within_intros | assumption | simp)+)

lemma within_ack_upgrade [within_intros]: "co_within no_on (ack_upgrade cfg) 11"
  unfolding ack_upgrade_def by (rule within_mono, (rule within_intros | assumption | simp)+)

lemma within_ack_commands [within_intros]: "co_within no_on (ack_commands cfg b) 17"
  unfolding ack_commands_def by (rule within_mono, (rule within_intros | assumption | simp)+)

lemma within_ack_failed [within_intros]: "co_within no_on (ack_failed e) 1"
  unfolding ack_failed_def by (rule within_mono, (rule within_intros | assumption | simp)+)

lemma within_ack_latch [within_intros]: "co_within no_on (ack_latch cfg raw) 0"
  unfolding ack_latch_def by (rule within_mono, (rule within_intros | assumption | simp)+)

section \<open>Connecting and disconnecting\<close>

lemma within_settle_previous_teardown [within_intros]: "co_within no_on settle_previous_teardown 1"
  unfolding settle_previous_teardown_def by (rule within_mono, (rule within_intros | assumption | simp)+)

lemma within_connect_identify [within_intros]: "co_within no_on (connect_identify cfg) 2"
  unfolding connect_identify_def by (rule within_mono, (rule within_intros | assumption | simp)+)

lemma within_settle_failed_connect [within_intros]: "co_within no_on settle_failed_connect 1"
  unfolding settle_failed_connect_def by (rule within_mono, (rule within_intros | assumption | simp)+)

lemma within_failed_connect [within_intros]: "co_within no_on (failed_connect b e) 1"
  unfolding failed_connect_def by (rule within_mono, (rule within_intros | assumption | simp)+)

lemma within_disconnect_close [within_intros]: "co_within no_on (disconnect_close g b e) 2"
  unfolding disconnect_close_def by (rule within_mono, (rule within_intros | assumption | simp)+)

lemma within_disconnect_disarm [within_intros]: "co_within no_on (disconnect_disarm cfg b acc) 1"
  unfolding disconnect_disarm_def by (rule within_mono, (rule within_intros | assumption | simp)+)

section \<open>Operations on lists of channels\<close>

lemma within_off_sequence:
  "co_within no_on (attempt_output_off_sequence cfg cs tokens generation) (length cs * 2 + length cs)"
proof -
  have "co_within no_on (co_fold (\<lambda>c all_confirmed. co_bind (co_mark c (Some generation) (Some (tokens c)))
          (\<lambda>committed. Ret (committed \<and> all_confirmed))) cs True) (length cs * 0)"
    by (rule within_fold) (rule within_mono, (rule within_intros | simp)+)
  moreover have "co_within no_on (co_fold (off_commands cfg) cs acc) (length cs * 2)" for acc
    by (rule within_fold) (rule within_off_commands)
  moreover have "co_within no_on (co_fold (off_readback cfg tokens generation failed) cs acc) (length cs * 1)" for failed acc
    by (rule within_fold) (rule within_off_readback)
  ultimately show ?thesis
    unfolding attempt_output_off_sequence_def
    by (intro within_mono [OF within_if [of _ _ 0 _ "length cs * 2 + (length cs * 1 + 0)"]] within_bind within_prod within_option [of _ _ 0 _ 0, simplified]
        within_leaves) (auto intro: within_leaves)
qed

lemma within_owned: "co_within no_on (attempt_owned_off cfg cs) (length cs * 2 + length cs + 2)"
  unfolding attempt_owned_off_def
  by (rule within_mono, (rule within_intros within_off_sequence | assumption | simp)+)

lemma within_owned_one [within_intros]: "co_within no_on (attempt_owned_off cfg [c]) 5"
  and within_owned_both [within_intros]: "co_within no_on (attempt_owned_off cfg SMU_CHANNELS) 8"
  using within_owned [of cfg "[c]"] within_owned [of cfg SMU_CHANNELS] by (simp_all add: SMU_CHANNELS_def)

lemma within_stop_source [within_intros]: "co_within no_on (stop_source cfg ch) 5"
  unfolding stop_source_def by (rule within_mono, (rule within_intros | assumption | simp)+)

lemma within_lifted:
  assumes "\<And>x. r = Inr x \<Longrightarrow> co_within R (f x) n"
  shows "co_within R (co_bind (lift_result r) f) n"
  using assms by (cases r) (simp_all add: lift_result_def)

lemma within_emergency_off [within_intros]: "co_within no_on (emergency_off cfg ch) 8"
proof -
  have "co_within no_on (attempt_owned_off cfg cs) 8" if "target_channels ch = Inr cs" for cs
  proof (rule within_mono [OF within_owned])
    show "length cs * 2 + length cs + 2 \<le> 8"
      using that by (auto simp: target_channels_def res_bind_Inr_iff SMU_CHANNELS_def split: option.splits)
  qed
  thus ?thesis unfolding emergency_off_def
    by (intro within_Get) (rule within_if [of _ _ 0 _ 8, simplified], simp, rule within_lifted,
      rule within_mono, (rule within_intros | assumption | simp)+)
qed

section \<open>Starting\<close>

lemma within_prepare [within_intros]: "co_within no_on (start_prepare cfg c token v i) 14"
proof -
  have "co_within no_on (co_each (write_owned cfg c token) (start_commands c v i)) (length (start_commands c v i) * 2)"
    by (rule within_each) (rule within_write_owned, auto simp: start_commands_def)
  hence each: "co_within no_on (co_each (write_owned cfg c token) (start_commands c v i)) 14" by (simp add: start_commands_def)
  show ?thesis unfolding start_prepare_def by (rule within_mono, (rule within_intros each | assumption | simp)+)
qed

lemma within_failed_start [within_intros]: "co_within no_on (failed_start cfg c b e) 5"
  unfolding failed_start_def by (rule within_mono, (rule within_intros | assumption | simp)+)

abbreviation any_request :: "request \<Rightarrow> bool" where "any_request \<equiv> (\<lambda>_. True)"

lemma within_any: "co_within no_on p n \<Longrightarrow> co_within any_request p n"
  by (erule within_weaken) simp

lemma within_current: "co_within R (require_current_start c token) 0"
  by (simp add: require_current_start_def within_intros)

lemma within_start_output: "co_within any_request (start_output cfg c token) 4"
  unfolding start_output_def by (rule within_mono, (rule within_intros within_current | assumption | simp)+)

lemma within_start_source: "co_within any_request (start_source cfg ch p v i) 23"
  unfolding start_source_def
  by (rule within_mono, (rule within_intros within_start_output within_any [OF within_prepare] within_any [OF within_failed_start]
      | assumption | simp)+)

section \<open>The other operations\<close>

lemma within_read_channels [within_intros]: "co_within no_on (read_channels cfg) 18"
proof -
  have "co_within no_on (co_fold (read_one_channel cfg) SMU_CHANNELS []) (length SMU_CHANNELS * 8)"
    by (rule within_fold) (rule within_read_one_channel)
  hence each: "co_within no_on (co_fold (read_one_channel cfg) SMU_CHANNELS []) 16" by (simp add: SMU_CHANNELS_def)
  show ?thesis unfolding read_channels_def by (rule within_mono, (rule within_intros each | assumption | simp)+)
qed

lemma within_acknowledge [within_intros]: "co_within no_on (acknowledge_wdog_trip cfg) 28"
  unfolding acknowledge_wdog_trip_def by (rule within_mono, (rule within_intros | assumption | simp)+)

lemma within_connect_secure [within_intros]: "co_within no_on (connect_secure cfg serial idn_raw) 19"
  unfolding connect_secure_def by (rule within_mono, (rule within_intros | assumption | simp)+)

lemma within_connect [within_intros]: "co_within no_on (connect cfg) 23"
  unfolding connect_def by (rule within_mono, (rule within_intros | assumption | simp)+)

lemma within_prove_off [within_intros]: "co_within no_on (disconnect_prove_off cfg) 8"
  unfolding disconnect_prove_off_def by (rule within_mono, (rule within_intros | assumption | simp)+)

lemma within_disconnect_body [within_intros]: "co_within no_on (disconnect_body cfg) 11"
  unfolding disconnect_body_def by (rule within_mono, (rule within_intros | assumption | simp)+)

lemma within_disconnect [within_intros]: "co_within no_on (disconnect cfg) 11"
  unfolding disconnect_def by (rule within_mono, (rule within_intros | assumption | simp)+)

end
