(* ===== verification/SmuStart.thy ===== *)
theory SmuStart
  imports SmuBounds
begin

text \<open>
  What precedes the command that switches an output on, in the history of one operation: the requests it
  made and what they were answered, whatever happened to the driver in between.
\<close>

section \<open>The obligation of a request\<close>

fun accepted_write :: "request \<times> answer \<Rightarrow> tsp list" where
  "accepted_write (Write cmd, Answer _) = [cmd]"
| "accepted_write _ = []"

definition accepted :: "(request \<times> answer) list \<Rightarrow> tsp list" where
  "accepted g = concat (map accepted_write g)"

lemma accepted_simps [simp]:
  "accepted [] = []" "accepted (g @ h) = accepted g @ accepted h" "accepted (x # g) = accepted_write x @ accepted g"
  by (simp_all add: accepted_def)

text \<open>Switching \<open>c\<close> on needs the authority of the current start and the seven accepted commands.\<close>

definition start_authorised ::
  "smu_channel \<Rightarrow> pyfloat \<Rightarrow> pyfloat \<Rightarrow> smu_channel \<Rightarrow> (request \<times> answer) list \<Rightarrow> k26 \<Rightarrow> bool" where
  "start_authorised c0 v i c g d =
     (c = c0 \<and> start_operation_is_current c (k_epoch d c) d \<and> accepted g = start_commands c v i)"

definition on_ok ::
  "smu_channel \<Rightarrow> pyfloat \<Rightarrow> pyfloat \<Rightarrow> (request \<times> answer) list \<Rightarrow> k26 \<Rightarrow> request \<Rightarrow> bool" where
  "on_ok c0 v i g d q = (\<forall>c. q = Write (OutputOn c) \<longrightarrow> start_authorised c0 v i c g d)"

abbreviation start_wp ::
  "smu_channel \<Rightarrow> pyfloat \<Rightarrow> pyfloat \<Rightarrow> 'a smu_op \<Rightarrow> ('a \<Rightarrow> (request \<times> answer) list \<Rightarrow> k26 \<Rightarrow> bool)
    \<Rightarrow> (request \<times> answer) list \<Rightarrow> k26 \<Rightarrow> bool" where
  "start_wp c0 v i p Q \<equiv> wp (hist_aw (on_ok c0 v i)) p Q (\<lambda>_ _ _. True)"

lemma no_on_ok: "no_on q \<Longrightarrow> on_ok c0 v i g d q"
  by (simp add: no_on_def on_ok_def)

text \<open>An operation without such a command.\<close>

lemma start_wp_no_on: "co_within no_on p n \<Longrightarrow> (\<And>x g d. Q x g d) \<Longrightarrow> start_wp c0 v i p Q g d"
  by (rule hist_within [of no_on]) (auto intro: no_on_ok)

section \<open>A write under the I/O lock\<close>

text \<open>The command is issued in a state in which the authority \<open>P\<close> was just checked.\<close>

lemma wp_locked_write:
  assumes lock: "ok g d AcquireIo" and ok: "\<And>a d. P d \<Longrightarrow> ok (g @ [(AcquireIo, Answer a)]) d (Write cmd)"
    and Q: "\<And>a b d. Q () (g @ [(AcquireIo, Answer a), (Write cmd, Answer b)]) d"
  shows "wp (hist_aw ok) (operational_write cfg cmd (co_require P e)) Q (\<lambda>_ _ _. True) g d"
proof -
  let ?locked = "co_finally (co_then (require_operational_connection cfg)
          (co_then (co_require P e) (co_try (transport_write cmd) (demote cfg))))
       (co_modify (\<lambda>d. d\<lparr> k_io_locked := False \<rparr>))"
  have "wp (hist_aw ok) ?locked Q (\<lambda>_ _ _. True) (g @ [(AcquireIo, Answer a)]) d" for a d
  proof -
    let ?Q = "\<lambda>x g' d. Q x g' (d\<lparr> k_io_locked := False \<rparr>)" and ?g = "g @ [(AcquireIo, Answer a)]"
    have w: "wp (hist_aw ok) (co_try (transport_write cmd) (demote cfg)) ?Q (\<lambda>_ _ _. True) ?g d" if "P d" for d
      unfolding wp_try transport_write_def aw_unit_def wp.simps
    proof (rule hist_awI)
      show "ok ?g d (Write cmd)" by (rule ok [OF that])
      show "wp (hist_aw ok) (case r of Answer _ \<Rightarrow> Ret () | Fail e \<Rightarrow> Raise e) ?Q
              (\<lambda>e. wp (hist_aw ok) (demote cfg e) ?Q (\<lambda>_ _ _. True)) (?g @ [(Write cmd, r)]) d" for d r
        by (cases r) (use Q in \<open>auto simp: demote_def co_simps\<close>)
    qed
    show ?thesis
      using w by (simp add: co_simps require_operational_connection_def raise_if_operationally_barred_def)
  qed
  thus ?thesis unfolding operational_write_def with_io_lock_def aw_unit_def wp_then wp.simps
    by (intro hist_awI lock) (auto simp: wp_modify split: answer.split)
qed

section \<open>A start\<close>

lemma wp_start_write:
  assumes "\<And>a d. start_operation_is_current c token d \<Longrightarrow> on_ok c0 v i (g @ [(AcquireIo, Answer a)]) d (Write cmd)"
    and "\<And>a b d. Q () (g @ [(AcquireIo, Answer a), (Write cmd, Answer b)]) d"
  shows "start_wp c0 v i (operational_write cfg cmd (require_current_start c token)) Q g d"
  unfolding require_current_start_def by (rule wp_locked_write) (use assms no_on_ok in auto)

text \<open>One configuring command, and all of them.\<close>

lemma wp_write_owned:
  assumes "no_on (Write cmd)" "\<And>g' d. accepted g' = accepted g @ [cmd] \<Longrightarrow> Q () g' d"
  shows "start_wp c0 v i (write_owned cfg c token cmd) Q g d"
proof -
  have "start_wp c0 v i (operational_write cfg cmd (require_current_start c token))
          (\<lambda>_. start_wp c0 v i (require_current_start c token) Q) g d" for d
    by (rule wp_start_write) (use assms in \<open>auto intro: no_on_ok simp: require_current_start_def wp_require\<close>)
  thus ?thesis by (simp add: write_owned_def wp_then require_current_start_def wp_require)
qed

lemma wp_start_commands:
  assumes "\<And>cmd. cmd \<in> set cmds \<Longrightarrow> no_on (Write cmd)" "\<And>g' d. accepted g' = accepted g @ cmds \<Longrightarrow> Q () g' d"
  shows "start_wp c0 v i (co_each (write_owned cfg c token) cmds) Q g d"
  using assms
proof (induction cmds arbitrary: g d)
  case (Cons cmd cmds)
  have "start_wp c0 v i (co_each (write_owned cfg c token) cmds) Q g' d" if "accepted g' = accepted g @ [cmd]" for g' d
    by (rule Cons.IH) (use Cons.prems that in auto)
  with Cons.prems(1) show ?case unfolding wp_each by (intro wp_write_owned) auto
qed simp

lemma wp_prepare:
  assumes "accepted g = []" "\<And>g' d. cf_mock cfg \<or> accepted g' = start_commands c v i \<Longrightarrow> Q () g' d"
  shows "start_wp c0 v0 i0 (start_prepare cfg c token v i) Q g d"
proof (cases "cf_mock cfg")
  case True
  thus ?thesis using assms(2) by (simp add: start_prepare_def co_simps require_current_start_def)
next
  case False
  have "start_wp c0 v0 i0 (co_each (write_owned cfg c token) (start_commands c v i))
          (\<lambda>_. start_wp c0 v0 i0 (require_current_start c token) Q) g d"
    by (rule wp_start_commands) (use assms in \<open>auto simp: start_commands_def require_current_start_def wp_require\<close>)
  thus ?thesis using False by (simp add: start_prepare_def wp_then)
qed

lemma wp_output:
  assumes "cf_mock cfg \<or> accepted g = start_commands c v i"
  shows "start_wp c v i (start_output cfg c token) (\<lambda>_ _ _. True) g d"
proof (cases "cf_mock cfg")
  case True
  thus ?thesis by (simp add: start_output_def)
next
  case False
  let ?rest = "co_then (require_current_start c token)
        (co_bind (operational_query cfg (OutputQ c)) (\<lambda>raw.
         co_bind (lift_result (parse_output_enabled raw)) (\<lambda>output_on.
         co_then (require_current_start c token)
        (if \<not> output_on then Raise (runtime_error ''OUTPUT_ON readback did not confirm ON'')
         else co_then (co_modify (\<lambda>d. d\<lparr> k_last_v := (k_last_v d)(c := Fin 0),
                                          k_compliance := (k_compliance d)(c := 0),
                                          k_regulation := (k_regulation d)(c := Some token) \<rparr>))
                (Ret DEVICE_ACKNOWLEDGED)))))"
  have "co_within no_on ?rest 2"
    by (rule within_mono, (rule within_intros | assumption | simp)+)
  hence rest: "start_wp c v i ?rest (\<lambda>_ _ _. True) g d" for g d by (rule start_wp_no_on) simp
  have "start_wp c v i (operational_write cfg (OutputOn c) (require_current_start c token)) (\<lambda>_. start_wp c v i ?rest (\<lambda>_ _ _. True)) g d" for d
  proof (rule wp_start_write [OF _ rest])
    fix a d
    assume s: "start_operation_is_current c token d"
    hence "start_operation_is_current c (k_epoch d c) d" by (simp add: start_operation_is_current_def)
    thus "on_ok c v i (g @ [(AcquireIo, Answer a)]) d (Write (OutputOn c))"
      using assms False by (auto simp: on_ok_def start_authorised_def)
  qed
  thus ?thesis using False by (simp add: start_output_def wp_then wp_modify wp_bind)
qed

text \<open>The whole operation.\<close>

lemma wp_started:
  assumes "accepted g = []"
  shows "start_wp c v i
           (co_finally
             (co_bind (co_attempt (start_prepare cfg c token v i)) (\<lambda>r.
                case r of
                  Inl e \<Rightarrow> failed_start cfg c False e
                | Inr _ \<Rightarrow> co_try (start_output cfg c token) (failed_start cfg c True)))
             (co_modify (finish_start_operation c token))) (\<lambda>_ _ _. True) g d"
proof -
  have failed: "start_wp c v i (failed_start cfg c b e) (\<lambda>_ _ _. True) g d" for b e g d
    by (rule start_wp_no_on [OF within_failed_start]) simp
  have out: "wp (hist_aw (on_ok c v i)) (start_output cfg c token) (\<lambda>_ _ _. True)
               (\<lambda>e. start_wp c v i (failed_start cfg c True e) (\<lambda>_ _ _. True)) g' d"
    if "cf_mock cfg \<or> accepted g' = start_commands c v i" for g' d
    by (rule hist.wp_weaken [OF wp_output [OF that]]) (use failed in auto)
  have "start_wp c v i (start_prepare cfg c token v i)
          (\<lambda>_. wp (hist_aw (on_ok c v i)) (start_output cfg c token) (\<lambda>_ _ _. True)
               (\<lambda>e. start_wp c v i (failed_start cfg c True e) (\<lambda>_ _ _. True))) g d"
    by (rule wp_prepare [OF assms out])
  hence "wp (hist_aw (on_ok c v i)) (start_prepare cfg c token v i)
          (\<lambda>_. wp (hist_aw (on_ok c v i)) (start_output cfg c token) (\<lambda>_ _ _. True)
               (\<lambda>e. start_wp c v i (failed_start cfg c True e) (\<lambda>_ _ _. True)))
          (\<lambda>e. start_wp c v i (failed_start cfg c False e) (\<lambda>_ _ _. True)) g d"
    by (rule hist.wp_weaken) (use failed in auto)
  thus ?thesis by (simp add: wp_finally wp_bind wp_attempt wp_try wp_modify)
qed

lemma wp_start_source:
  assumes "normalize_smu_channel ch = Inr c"
  shows "start_wp c v i (start_source cfg ch p v i) (\<lambda>_ _ _. True) [] d"
  using wp_started [of "[]" c v i cfg]
  by (simp add: start_source_def assms lift_result_def wp_bind wp_then require_operational_connection_def
      raise_if_operationally_barred_def wp_modify Let_def split: option.split)

text \<open>A refused call makes no request.\<close>

lemma start_refused_early:
  assumes "(\<exists>e. normalize_smu_channel ch = Inl e) \<or> start_arguments p v i \<noteq> None"
  shows "co_within (\<lambda>_. False) (start_source cfg ch p v i) 0"
  using assms
  by (auto simp: start_source_def lift_result_def within_intros split: sum.split
      intro!: within_then [of _ _ 0 _ 0, simplified])

section \<open>Regulation\<close>

text \<open>A level is written only while the regulation it was computed for is current.\<close>

definition level_ok :: "smu_channel \<Rightarrow> int \<Rightarrow> int \<Rightarrow> pyfloat option \<Rightarrow> (request \<times> answer) list \<Rightarrow> k26 \<Rightarrow> request \<Rightarrow> bool" where
  "level_ok c generation epoch target g d q =
     (\<forall>cmd. q = Write cmd \<longrightarrow> (\<exists>t. target = Some t \<and> cmd = LevelV c t) \<and> regulation_is_current c generation epoch d)"

definition no_write :: "request \<Rightarrow> bool" where
  "no_write q = (\<forall>cmd. q \<noteq> Write cmd)"

lemma no_write_simps [simp]: "no_write (Query cmd)" "no_write AcquireIo"
  by (simp_all add: no_write_def)

lemma no_write_ok: "no_write q \<Longrightarrow> level_ok c ge ep t g d q"
  by (simp add: no_write_def level_ok_def)

lemma within_current_regulation: "co_within R (require_current_regulation c ge ep) 0"
  by (simp add: require_current_regulation_def within_intros)

lemma wp_regulation_write:
  assumes "ok g d AcquireIo" "\<And>a d. regulation_is_current c ge ep d \<Longrightarrow> ok (g @ [(AcquireIo, Answer a)]) d (Write cmd)"
    and "\<And>g d. wp (hist_aw ok) p Q (\<lambda>_ _ _. True) g d"
  shows "wp (hist_aw ok) (operational_write cfg cmd (require_current_regulation c ge ep))
           (\<lambda>_. wp (hist_aw ok) p Q (\<lambda>_ _ _. True)) (\<lambda>_ _ _. True) g d"
  unfolding require_current_regulation_def by (rule wp_locked_write) (use assms in auto)

lemma wp_regulate:
  "wp (hist_aw (level_ok c ge ep (regulation_target (k_runtime d c) (k_last_v d c) voltage current)))
     (regulate cfg c ge ep voltage current) (\<lambda>_ _ _. True) (\<lambda>_ _ _. True) g d"
proof (cases "regulation_target (k_runtime d c) (k_last_v d c) voltage current")
  case (Some t)
  let ?ok = "level_ok c ge ep (Some t)"
  let ?rest = "Get (\<lambda>d2.
                   if regulation_is_current c ge ep d2 then
                     co_bind (operational_query cfg (LevelVQ c)) (\<lambda>raw.
                     co_bind (lift_result (parse_finite_readback raw)) (\<lambda>applied_v.
                     co_then (require_current_regulation c ge ep)
                       (co_modify (\<lambda>d. d\<lparr> k_last_v := (k_last_v d)(c := applied_v) \<rparr>))))
                   else Ret ())"
  have "co_within no_write ?rest 2"
    by (rule within_mono, (rule within_intros within_current_regulation | assumption | simp)+)
  hence rest: "wp (hist_aw ?ok) ?rest (\<lambda>_ _ _. True) (\<lambda>_ _ _. True) g d" for g d
    by (rule hist_within) (auto intro: no_write_ok)
  have "wp (hist_aw ?ok) (operational_write cfg (LevelV c t) (require_current_regulation c ge ep))
          (\<lambda>_. wp (hist_aw ?ok) ?rest (\<lambda>_ _ _. True) (\<lambda>_ _ _. True)) (\<lambda>_ _ _. True) g d"
    by (rule wp_regulation_write [OF _ _ rest]) (auto simp: level_ok_def)
  thus ?thesis by (simp add: regulate_def Some wp_then)
qed (simp add: regulate_def)

section \<open>The regulation arithmetic\<close>

lemma clamped_between:
  assumes "0 \<le> m"
  shows "\<exists>x. clamped_target p r (Fin m) = Fin x \<and> 0 \<le> x \<and> x \<le> m"
  using assms by (cases "fl_sqrt (fl_mul p r)") (auto simp: clamped_target_def py_min_def py_max_def)

lemma slew_between:
  assumes "0 \<le> u" "u \<le> m" "0 \<le> x" "x \<le> m"
  shows "\<exists>y. slew_limited (Fin u) (Fin x) = Fin y \<and> \<bar>y - u\<bar> \<le> 1 / 2 \<and> 0 \<le> y \<and> y \<le> m"
  using assms by (auto simp: slew_limited_def Let_def MAX_DELTA_V_PER_STEP_def)

lemma regulation_between:
  assumes "regulation_target r (Fin u) voltage current = Some t" "rt_v_comp r = Fin m" "0 \<le> u" "u \<le> m"
  shows "\<exists>y. t = Fin y \<and> \<bar>y - u\<bar> \<le> 1 / 2 \<and> 0 \<le> y \<and> y \<le> m"
proof -
  obtain q where "t = slew_limited (Fin u) (clamped_target (rt_p_target r) q (Fin m))"
    using assms(1,2) by (auto simp: regulation_target_def split: if_splits sum.splits)
  moreover obtain x where "clamped_target (rt_p_target r) q (Fin m) = Fin x" "0 \<le> x" "x \<le> m"
    using clamped_between [of m "rt_p_target r" q] assms(3,4) by auto
  ultimately show ?thesis using slew_between [OF assms(3,4), of x] by simp
qed

end
