(* ===== verification/SmuProps.thy ===== *)
theory SmuProps
  imports SmuExample SmuStart
begin

text \<open>The properties of the Keithley driver.\<close>

section \<open>Proofs of OFF\<close>

text \<open>What is cold has its output off, and nothing waits at the transport that could switch it on.\<close>

definition certainly_off :: "'d instrument \<Rightarrow> 'd smu_system \<Rightarrow> smu_channel \<Rightarrow> bool" where
  "certainly_off D y c =
     (\<not> inst_on D (y_inst y) c
      \<and> list_all (\<lambda>(s, i, q). q \<noteq> Write (OutputOn c) \<and> q \<noteq> OpenTransport) (y_wire y))"

lemma cold_certainly_off: "cold (world_of D y) c \<Longrightarrow> certainly_off D y c"
  unfolding cold_def hot_def risky_def certainly_off_def by (force simp: list_all_iff)

lemma run_init_ok:
  assumes "\<not> cf_mock cfg" "inj (cf_nonce cfg)" "only_on_switches_on D" "honest_challenge D"
    and "smu_run D cfg es (system_init x) = Some y"
  shows "\<exists>N. system_ok D cfg N y"
  using system_run_ok [OF assms(1-4) system_ok_init assms(5)] .

text \<open>
  C2: The Keithley driver never claims more than it knows. Take any sequence of calls to the driver
  (connect, disconnect, start, stop, emergency OFF, acquisition, limit and target changes, watchdog calls),
  interleaved in any way at their awaits, with commands that fail before or after they reached the
  instrument, with cancellations, and with an instrument that may answer a query with anything except that
  it prints a fresh OFF challenge only while the output is off. Whenever the driver's
  \<open>output_state_unverified\<close> is false, the output of both channels is off and no command that could switch
  one on, and no opening of another connection, is waiting at the transport.
\<close>

theorem smu_off_proof_sound:
  assumes "\<not> cf_mock cfg" "inj (cf_nonce cfg)" "only_on_switches_on D" "honest_challenge D"
    and "smu_run D cfg es (system_init x) = Some y" "\<not> output_state_unverified cfg (y_drv y)"
  shows "certainly_off D y c"
proof -
  obtain N where "system_ok D cfg N y" using run_init_ok [OF assms(1-5)] by blast
  hence inv: "smu_inv (world_of D y)" by (simp add: system_ok_def)
  have "\<not> k_unsafe (y_drv y)" using assms(1,6) by (simp add: output_state_unverified_def split: if_splits)
  hence "cold (world_of D y) c" using inv by (simp add: smu_inv_def)
  thus ?thesis by (rule cold_certainly_off)
qed

theorem smu_off_proof_sound_witness:
  "\<exists>y. smu_run box box_cfg connect_events (system_init (Box True True)) = Some y
     \<and> \<not> output_state_unverified box_cfg (y_drv y) \<and> certainly_off box y smua"
proof -
  obtain y where y: "smu_run box box_cfg connect_events (system_init (Box True True)) = Some y"
    "\<not> output_state_unverified box_cfg (y_drv y)"
    using connect_run by auto
  from smu_off_proof_sound [OF box_cfg_laws box_switches box_honest y] y show ?thesis by blast
qed

text \<open>
  C3: In every such run, when an \<open>emergency_off\<close> call returns \<open>DEVICE_REPORTED_OFF\<close>, every channel it was
  asked for has its output off at that moment, and nothing that could switch it on is waiting at the
  transport, however many other operations were interleaved with it.
\<close>

theorem smu_reported_off_sound:
  assumes "\<not> cf_mock cfg" "inj (cf_nonce cfg)" "only_on_switches_on D" "honest_challenge D"
    and "smu_run D cfg es (system_init x) = Some y" "smu_step D cfg (Resume i a) y = Some y'"
    and "t_call (y_tasks y' ! i) = CallEmergencyOff channel"
    and "t_prog (y_tasks y' ! i) = Ret (ReportedOff DEVICE_REPORTED_OFF)"
    and "target_channels channel = Inr cs" "c \<in> set cs"
  shows "certainly_off D y' c"
proof -
  obtain N where "system_ok D cfg N y" using run_init_ok [OF assms(1-5)] by blast
  moreover have "resume i a y = Some y'" using assms(6) by simp
  ultimately have "promises (t_call (y_tasks y' ! i)) (ReportedOff DEVICE_REPORTED_OFF) (world_of D y')"
    using resume_ok [OF assms(2)] assms(8) by blast
  thus ?thesis using assms(7,9,10) by (intro cold_certainly_off) simp
qed

theorem smu_reported_off_sound_witness:
  "\<exists>y y'. smu_run box box_cfg off_events (system_init (Box True True)) = Some y
     \<and> smu_step box box_cfg (Resume 1 ok_answer) y = Some y' \<and> certainly_off box y' smub"
proof -
  obtain y y' where y: "smu_run box box_cfg off_events (system_init (Box True True)) = Some y"
    "smu_step box box_cfg (Resume 1 ok_answer) y = Some y'"
    "t_call (y_tasks y' ! 1) = CallEmergencyOff None" "t_prog (y_tasks y' ! 1) = Ret (ReportedOff DEVICE_REPORTED_OFF)"
    using off_run by blast
  have cs: "target_channels None = Inr [smua, smub]" "smub \<in> set [smua, smub]" by (simp_all add: target_channels_def SMU_CHANNELS_def)
  from smu_reported_off_sound [OF box_cfg_laws box_switches box_honest y cs] y(1,2) show ?thesis by blast
qed

definition ended :: "task \<Rightarrow> bool" where
  "ended t = (case t_prog t of Ret _ \<Rightarrow> True | Raise _ \<Rightarrow> True | _ \<Rightarrow> False)"

lemma ended_owns_nothing: "task_ok D cfg y i n \<Longrightarrow> ended (y_tasks y ! i) \<Longrightarrow> n c = 0"
  by (auto simp: task_ok_def ended_def split: co.splits)

text \<open>
  When every operation that was called has returned or raised, in whatever order and however it was
  cancelled, no channel is still marked as having an OFF operation in progress: an ended operation never
  leaves the driver refusing starts for an OFF that nobody runs.
\<close>

theorem smu_idle_owns_nothing:
  assumes "\<not> cf_mock cfg" "inj (cf_nonce cfg)" "only_on_switches_on D" "honest_challenge D"
    and "smu_run D cfg es (system_init x) = Some y" "list_all ended (y_tasks y)"
  shows "k_depth (y_drv y) c = 0"
proof -
  obtain N where N: "system_ok D cfg N y" using run_init_ok [OF assms(1-5)] by blast
  have "N i c = 0" if "i < length (y_tasks y)" for i
    using ended_owns_nothing [of D cfg y i "N i" c] N assms(6) that by (simp add: system_ok_def list_all_length)
  thus ?thesis using N by (simp add: system_ok_def depth_ok_def)
qed

theorem smu_idle_owns_nothing_witness:
  "\<exists>y. smu_run box box_cfg (off_events @ [Resume 1 ok_answer]) (system_init (Box True True)) = Some y
     \<and> list_all ended (y_tasks y) \<and> k_depth (y_drv y) smua = 0"
proof -
  obtain y y' where y: "smu_run box box_cfg off_events (system_init (Box True True)) = Some y"
    "smu_step box box_cfg (Resume 1 ok_answer) y = Some y'" "length (y_tasks y') = 2"
    "t_prog (y_tasks y' ! 1) = Ret (ReportedOff DEVICE_REPORTED_OFF)" "t_prog (y_tasks y' ! 0) = Ret Done"
    using off_run by blast
  have run: "smu_run box box_cfg (off_events @ [Resume 1 ok_answer]) (system_init (Box True True)) = Some y'"
    using y(1,2) by (simp add: smu_run_append)
  have e: "list_all ended (y_tasks y')" using y(3-5) by (auto simp: list_all_length ended_def less_2_cases_iff)
  from smu_idle_owns_nothing [OF box_cfg_laws box_switches box_honest run e] run e show ?thesis by blast
qed

section \<open>Switching on\<close>

lemma call_without_on:
  assumes "\<And>ch p v i. call \<noteq> CallStart ch p v i"
  shows "\<exists>n. co_within no_on (call_body cfg call) n"
proof (cases call)
  case (CallStart ch p v i)
  with assms show ?thesis by blast
qed (auto simp: finish_def intro!: exI within_intros)

text \<open>
  C4: Only \<open>start_source\<close> writes the command that switches an output on, and only for its own channel. At
  that moment its arguments are finite and positive, it still holds the start authority of the channel's
  current epoch with no OFF operation in progress, and the instrument has accepted exactly the seven
  configuring commands, in order: reset, DC volts, the two autoranges, both compliance limits with the
  requested values, and level 0. This holds for every history of answers, and whatever other operations did
  to the driver at each await.
\<close>

theorem switching_on_is_prepared:
  assumes "co_trace (call_body cfg call) d as = before @ (Write (OutputOn c), s, a) # after"
  shows "\<exists>ch p v i. call = CallStart ch p v i \<and> normalize_smu_channel ch = Inr c \<and> start_arguments p v i = None
           \<and> start_operation_is_current c (k_epoch s c) s \<and> accepted (answered before) = start_commands c v i"
proof -
  have mem: "(Write (OutputOn c), s, a) \<in> set (co_trace (call_body cfg call) d as)" using assms by simp
  obtain ch p v i where call: "call = CallStart ch p v i"
    using call_without_on [of call cfg] within_trace [OF _ mem, of no_on] by fastforce
  have early: "False" if "co_within (\<lambda>_. False) (start_source cfg ch p v i) 0"
  proof -
    have "co_within (\<lambda>_. False) (call_body cfg call) (0 + 0)"
      unfolding call call_body.simps finish_def by (rule within_bind [OF that within_leaves(1)])
    from within_trace [OF this mem] show False .
  qed
  obtain c0 where c0: "normalize_smu_channel ch = Inr c0" "start_arguments p v i = None"
    using early start_refused_early [of ch p v i cfg] by (cases "normalize_smu_channel ch") auto
  have "start_wp c0 v i (call_body cfg call) (\<lambda>_ _ _. True) [] d"
    using wp_start_source [OF c0(1), of v i cfg p d] by (simp add: call finish_def wp_bind)
  from hist_trace [OF this assms] have "start_authorised c0 v i c (answered before) s" by (simp add: on_ok_def)
  thus ?thesis using call c0 by (auto simp: start_authorised_def)
qed

theorem switching_on_is_prepared_witness:
  "\<exists>before s.
     co_trace (call_body box_cfg (CallStart (Some ''smua'') (Fin 1) (Fin 10) (Fin 1))) connected_state
       (replicate 15 (Answer [], id)) = before @ [(Write (OutputOn smua), s, None)]
     \<and> accepted (answered before) = start_commands smua (Fin 10) (Fin 1)"
proof -
  obtain t s where t: "co_trace (call_body box_cfg (CallStart (Some ''smua'') (Fin 1) (Fin 10) (Fin 1))) connected_state
       (replicate 15 (Answer [], id)) = t @ [(Write (OutputOn smua), s, None)]"
    using start_run by blast
  from switching_on_is_prepared [OF t] have "accepted (answered t) = start_commands smua (Fin 10) (Fin 1)" by auto
  with t show ?thesis by blast
qed



section \<open>Ending\<close>

fun call_bound :: "smu_call \<Rightarrow> nat" where
  "call_bound CallConnect = 23"
| "call_bound CallDisconnect = 11"
| "call_bound (CallStart ch p v i) = 23"
| "call_bound (CallStop ch) = 5"
| "call_bound (CallEmergencyOff ch) = 8"
| "call_bound CallRead = 18"
| "call_bound (CallLimits ch v i) = 8"
| "call_bound (CallTarget ch p) = 0"
| "call_bound (CallBuffer a b) = 2"
| "call_bound CallCheckError = 2"
| "call_bound CallWdogTripped = 2"
| "call_bound CallWdogAcknowledge = 28"

lemma within_finish: "co_within R p n \<Longrightarrow> co_within R (finish p) n"
  unfolding finish_def using within_bind [of R p n "\<lambda>_. Ret Done" 0] by simp

lemma within_call: "co_within any_request (call_body cfg call) (call_bound call)"
proof (cases call)
  case (CallEmergencyOff ch)
  show ?thesis unfolding CallEmergencyOff call_body.simps call_bound.simps
    using within_bind [OF within_any [OF within_emergency_off], of "\<lambda>r. Ret (ReportedOff r)" 0] by (simp add: within_leaves)
next
  case (CallStart ch p v i)
  thus ?thesis by (simp add: within_finish within_start_source)
qed (simp_all, (intro within_finish within_any within_intros)+)

text \<open>
  C5: Every call of the driver ends: none makes more than a fixed number of requests (at most 28, for the
  acknowledgement of a watchdog trip; 8 for an emergency OFF of both channels; 5 for a stop), whatever the
  answers and whatever others do meanwhile, and once that many answers have come it has returned or raised.
\<close>

theorem driver_calls_end:
  "length (fst (co_drive (call_body cfg call) d as)) \<le> call_bound call
   \<and> (call_bound call \<le> length as \<longrightarrow> (\<exists>r. snd (snd (co_drive (call_body cfg call) d as)) = Some r))"
  using within_drive_bounded [OF within_call] within_drive_ends [OF within_call] by blast

theorem driver_calls_end_witness:
  "\<exists>r. snd (snd (co_drive (call_body box_cfg (CallEmergencyOff None)) connected_state (replicate 8 (Answer [], id)))) = Some r"
  using driver_calls_end [of box_cfg "CallEmergencyOff None" connected_state "replicate 8 (Answer [], id)"] by simp


end
