(* ===== verification/Throttle.thy ===== *)
theory Throttle
  imports Readings "HOL-Library.Sublist"
begin

text \<open>
  The selection of readings for the archive: \<open>AdaptiveThrottle\<close> of
  \<^verbatim>\<open>src/cryodaq/core/housekeeping.py\<close>. The scheduler asks it which readings of a poll are persisted and
  then published to the data broker. The regular expressions of its configuration are predicates on the
  channel name (\<open>pattern.search\<close> of the compiled expression). A timestamp is a number of seconds, and so
  is the difference of two.
\<close>

section \<open>State\<close>

record throttle_cfg =
  th_enabled :: bool
  th_include :: "(string \<Rightarrow> bool) list"
  th_exclude :: "(string \<Rightarrow> bool) list"
  th_protected :: "(string \<Rightarrow> bool) list"
  th_stable_duration_s :: pyfloat
  th_max_interval_s :: pyfloat
  th_transition_holdoff_s :: real
  th_default_delta :: pyfloat
  th_delta_by_unit :: "pyfloat dict"

record throttle_state =
  ts_last_seen :: pyfloat
  ts_last_emitted :: pyfloat
  ts_emitted_at :: real
  ts_stable_since :: real

record throttle =
  th_state :: "string \<Rightarrow> throttle_state option"
  th_active_alarms :: int
  th_transition_until :: "real option"
  th_suppressed :: nat

definition throttle_init :: throttle where
  "throttle_init = \<lparr> th_state = (\<lambda>_. None), th_active_alarms = 0, th_transition_until = None, th_suppressed = 0 \<rparr>"

section \<open>Runtime signals\<close>

text \<open>\<open>round\<close> of a finite float to an integer, a tie to the even one.\<close>

definition py_round :: "real \<Rightarrow> int" where
  "py_round x =
     (let f = \<lfloor>x\<rfloor>; d = x - of_int f in if d < 1/2 then f else if 1/2 < d then f + 1 else if even f then f else f + 1)"

definition is_transition :: "'a reading_scheme \<Rightarrow> bool" where
  "is_transition r = (dict_get (r_metadata r) ''is_transition'' \<noteq> Some (PBool False))"

text \<open>\<open>str(x).lower() != "running"\<close>: no value but a string prints as that word.\<close>

definition not_running :: "'a reading_scheme \<Rightarrow> bool" where
  "not_running r = (case dict_get (r_metadata r) ''state'' of Some (PStr s) \<Rightarrow> py_lower s \<noteq> ''running'' | _ \<Rightarrow> True)"

definition begin_transition :: "throttle_cfg \<Rightarrow> 'a reading_scheme \<Rightarrow> throttle \<Rightarrow> throttle" where
  "begin_transition cfg r t = t\<lparr> th_transition_until := Some (r_timestamp r + th_transition_holdoff_s cfg) \<rparr>"

definition observe_runtime_signal :: "throttle_cfg \<Rightarrow> 'a reading_scheme \<Rightarrow> throttle \<Rightarrow> throttle result" where
  "observe_runtime_signal cfg r t =
     (if r_channel r = ''analytics/alarm_count'' then
        (case r_value r of
           Fin v \<Rightarrow> Inr (t\<lparr> th_active_alarms := max 0 (py_round v) \<rparr>)
         | NaN \<Rightarrow> Inl (ValueError ''cannot convert float NaN to integer'')
         | _ \<Rightarrow> Inl (OverflowError ''cannot convert float infinity to integer''))
      else if take 33 (r_channel r) = ''analytics/keithley_channel_state/'' then
        Inr (if is_transition r then begin_transition cfg r t else t)
      else if r_channel r = ''analytics/safety_state'' then
        Inr (if not_running r \<and> is_transition r then begin_transition cfg r t else t)
      else Inr t)"

section \<open>Selection\<close>

definition matches_any :: "string \<Rightarrow> (string \<Rightarrow> bool) list \<Rightarrow> bool" where
  "matches_any channel patterns = list_ex (\<lambda>p. p channel) patterns"

text \<open>The readings that are always archived, and do not touch the state of their channel.\<close>

definition always_emitted :: "throttle_cfg \<Rightarrow> throttle \<Rightarrow> 'a reading_scheme \<Rightarrow> bool" where
  "always_emitted cfg t r =
     (0 < th_active_alarms t
      \<or> r_status r \<noteq> OK
      \<or> (case th_transition_until t of Some u \<Rightarrow> r_timestamp r \<le> u | None \<Rightarrow> False)
      \<or> matches_any (r_channel r) (th_protected cfg)
      \<or> matches_any (r_channel r) (th_exclude cfg)
      \<or> (th_include cfg \<noteq> [] \<and> \<not> matches_any (r_channel r) (th_include cfg)))"

definition first_state :: "'a reading_scheme \<Rightarrow> throttle_state" where
  "first_state r =
     \<lparr> ts_last_seen = r_value r, ts_last_emitted = r_value r, ts_emitted_at = r_timestamp r, ts_stable_since = r_timestamp r \<rparr>"

definition emitted_state :: "'a reading_scheme \<Rightarrow> throttle_state \<Rightarrow> throttle_state" where
  "emitted_state r st = st\<lparr> ts_last_emitted := r_value r, ts_emitted_at := r_timestamp r \<rparr>"

definition delta_threshold :: "throttle_cfg \<Rightarrow> 'a reading_scheme \<Rightarrow> pyfloat" where
  "delta_threshold cfg r = (case dict_get (th_delta_by_unit cfg) (r_unit r) of Some d \<Rightarrow> d | None \<Rightarrow> th_default_delta cfg)"

text \<open>The decision on a channel that was seen before, and its new state.\<close>

definition thin_channel :: "throttle_cfg \<Rightarrow> 'a reading_scheme \<Rightarrow> throttle_state \<Rightarrow> throttle_state \<times> bool" where
  "thin_channel cfg r st =
     (let delta = fl_abs (fl_sub (r_value r) (ts_last_seen st));
          seen = st\<lparr> ts_last_seen := r_value r \<rparr>
      in if fl_less (delta_threshold cfg r) delta
         then ((emitted_state r seen)\<lparr> ts_stable_since := r_timestamp r \<rparr>, True)
         else if fl_less (Fin (r_timestamp r - ts_stable_since st)) (th_stable_duration_s cfg) then (emitted_state r seen, True)
         else if fl_le (th_max_interval_s cfg) (Fin (r_timestamp r - ts_emitted_at st)) then (emitted_state r seen, True)
         else (seen, False))"

definition set_channel :: "string \<Rightarrow> throttle_state \<Rightarrow> throttle \<Rightarrow> throttle" where
  "set_channel c st t = t\<lparr> th_state := (th_state t)(c := Some st) \<rparr>"

definition should_emit :: "throttle_cfg \<Rightarrow> 'a reading_scheme \<Rightarrow> throttle \<Rightarrow> throttle \<times> bool" where
  "should_emit cfg r t =
     (if always_emitted cfg t r then (t, True)
      else (case th_state t (r_channel r) of
              None \<Rightarrow> (set_channel (r_channel r) (first_state r) t, True)
            | Some st \<Rightarrow> (let (st', b) = thin_channel cfg r st in (set_channel (r_channel r) st' t, b))))"

fun filter_loop :: "throttle_cfg \<Rightarrow> 'a reading_scheme list \<Rightarrow> throttle \<Rightarrow> throttle \<times> 'a reading_scheme list" where
  "filter_loop cfg [] t = (t, [])"
| "filter_loop cfg (r # rs) t =
     (let (t1, b) = should_emit cfg r t;
          t2 = (if b then t1 else t1\<lparr> th_suppressed := th_suppressed t1 + 1 \<rparr>);
          (t3, out) = filter_loop cfg rs t2
      in (t3, if b then r # out else out))"

definition filter_for_archive :: "throttle_cfg \<Rightarrow> 'a reading_scheme list \<Rightarrow> throttle \<Rightarrow> throttle \<times> 'a reading_scheme list" where
  "filter_for_archive cfg rs t = (if \<not> th_enabled cfg then (t, rs) else filter_loop cfg rs t)"

section \<open>What is selected\<close>

lemma filter_loop_length:
  "length (snd (filter_loop cfg rs t)) + th_suppressed (fst (filter_loop cfg rs t)) = length rs + th_suppressed t"
  by (induction rs arbitrary: t) (auto simp: should_emit_def set_channel_def split_beta Let_def split: option.splits)

lemma filter_loop_keeps:
  "r \<in> set rs \<Longrightarrow> r_status r \<noteq> OK \<Longrightarrow> r \<in> set (snd (filter_loop cfg rs t))"
  by (induction rs arbitrary: t) (auto simp: should_emit_def always_emitted_def split_beta Let_def)

lemma filter_loop_sub: "subseq (snd (filter_loop cfg rs t)) rs"
  by (induction rs arbitrary: t) (auto simp: split_beta Let_def)

section \<open>Histories\<close>

text \<open>What happens to the throttle: a runtime signal, or a poll. The decisions of all polls, in order.\<close>

datatype throttle_event = Signal reading | Poll "reading list"

fun decide_loop :: "throttle_cfg \<Rightarrow> reading list \<Rightarrow> throttle \<Rightarrow> throttle \<times> (reading \<times> bool) list" where
  "decide_loop cfg [] t = (t, [])"
| "decide_loop cfg (r # rs) t =
     (let (t1, b) = should_emit cfg r t; (t2, ds) = decide_loop cfg rs t1 in (t2, (r, b) # ds))"

fun throttle_run :: "throttle_cfg \<Rightarrow> throttle_event list \<Rightarrow> throttle \<Rightarrow> (reading \<times> bool) list" where
  "throttle_run cfg [] t = []"
| "throttle_run cfg (Signal r # es) t =
     (case observe_runtime_signal cfg r t of Inl _ \<Rightarrow> [] | Inr t' \<Rightarrow> throttle_run cfg es t')"
| "throttle_run cfg (Poll rs # es) t = (let (t', ds) = decide_loop cfg rs t in ds @ throttle_run cfg es t')"

lemma filter_of_decisions: "snd (filter_loop cfg rs t) = map fst (filter snd (snd (decide_loop cfg rs t)))"
proof -
  have cong: "should_emit cfg r (t\<lparr> th_suppressed := n \<rparr>) = (let (t', b) = should_emit cfg r t in (t'\<lparr> th_suppressed := n \<rparr>, b))" for r t n
    by (simp add: should_emit_def always_emitted_def set_channel_def split_beta Let_def split: option.split)
  have sup: "th_suppressed (fst (should_emit cfg r t)) = th_suppressed t" for r t
    by (simp add: should_emit_def set_channel_def split_beta Let_def split: option.split)
  have dec: "decide_loop cfg rs (t\<lparr> th_suppressed := n \<rparr>) = (let (t', ds) = decide_loop cfg rs t in (t'\<lparr> th_suppressed := n \<rparr>, ds))" for rs t n
    by (induction rs arbitrary: t) (simp_all add: cong split_beta Let_def)
  show "snd (filter_loop cfg rs t) = map fst (filter snd (snd (decide_loop cfg rs t)))"
    by (induction rs arbitrary: t) (auto simp: split_beta Let_def dec)
qed

text \<open>The state of a channel remembers an archived reading of it, and the value that was seen last.\<close>

definition knows :: "(reading \<times> bool) list \<Rightarrow> string \<Rightarrow> throttle_state \<Rightarrow> bool" where
  "knows ds c st =
     ((\<exists>e. (e, True) \<in> set ds \<and> r_channel e = c \<and> r_timestamp e = ts_emitted_at st)
      \<and> (\<exists>e b. (e, b) \<in> set ds \<and> r_channel e = c \<and> r_value e = ts_last_seen st))"

definition remembers :: "(reading \<times> bool) list \<Rightarrow> throttle \<Rightarrow> bool" where
  "remembers ds t = (\<forall>c st. th_state t c = Some st \<longrightarrow> knows ds c st)"

lemma remembers_mono: "remembers ds t \<Longrightarrow> set ds \<subseteq> set ds' \<Longrightarrow> remembers ds' t"
  unfolding remembers_def knows_def by (meson subsetD)

lemma remembers_set: "remembers ds t \<Longrightarrow> knows ds c st \<Longrightarrow> remembers ds (set_channel c st t)"
  by (simp add: remembers_def set_channel_def)

lemma thin_emitted:
  "snd (thin_channel cfg r st) \<Longrightarrow>
     ts_last_seen (fst (thin_channel cfg r st)) = r_value r \<and> ts_emitted_at (fst (thin_channel cfg r st)) = r_timestamp r"
  by (auto simp: thin_channel_def emitted_state_def Let_def split: if_splits)

lemma thin_suppressed:
  "\<not> snd (thin_channel cfg r st) \<Longrightarrow>
     fst (thin_channel cfg r st) = st\<lparr> ts_last_seen := r_value r \<rparr>
     \<and> \<not> fl_less (delta_threshold cfg r) (fl_abs (fl_sub (r_value r) (ts_last_seen st)))
     \<and> \<not> fl_le (th_max_interval_s cfg) (Fin (r_timestamp r - ts_emitted_at st))"
  by (auto simp: thin_channel_def Let_def split: if_splits)

lemma thin_knows:
  assumes "knows ds (r_channel r) st" "thin_channel cfg r st = (st', b)"
  shows "knows (ds @ [(r, b)]) (r_channel r) st'"
proof (cases b)
  case True
  hence "ts_last_seen st' = r_value r \<and> ts_emitted_at st' = r_timestamp r" using thin_emitted [of cfg r st] assms(2) by simp
  thus ?thesis using True by (auto simp: knows_def)
next
  case False
  hence st': "st' = st\<lparr> ts_last_seen := r_value r \<rparr>" using thin_suppressed [of cfg r st] assms(2) by simp
  obtain e where "(e, True) \<in> set ds" "r_channel e = r_channel r" "r_timestamp e = ts_emitted_at st"
    using assms(1) unfolding knows_def by blast
  thus ?thesis unfolding st' knows_def by auto
qed

lemma should_emit_remembers:
  assumes "remembers ds t" "should_emit cfg r t = (t', b)"
  shows "remembers (ds @ [(r, b)]) t'"
proof -
  have m: "remembers (ds @ [(r, b)]) t" by (rule remembers_mono [OF assms(1)]) auto
  consider "always_emitted cfg t r" | "\<not> always_emitted cfg t r" "th_state t (r_channel r) = None"
    | st where "\<not> always_emitted cfg t r" "th_state t (r_channel r) = Some st" by (cases "th_state t (r_channel r)") auto
  thus ?thesis
  proof cases
    case 1
    thus ?thesis using m assms(2) by (simp add: should_emit_def)
  next
    case 2
    hence t': "t' = set_channel (r_channel r) (first_state r) t" "b" using assms(2) by (auto simp: should_emit_def)
    have "knows (ds @ [(r, b)]) (r_channel r) (first_state r)" using t'(2) by (auto simp: knows_def first_state_def)
    thus ?thesis unfolding t'(1) by (rule remembers_set [OF m])
  next
    case 3
    obtain st' where th: "thin_channel cfg r st = (st', b)" and t': "t' = set_channel (r_channel r) st' t"
      using 3 assms(2) by (cases "thin_channel cfg r st") (auto simp: should_emit_def)
    have "knows ds (r_channel r) st" using assms(1) 3(2) by (simp add: remembers_def)
    from thin_knows [OF this th] show ?thesis unfolding t' by (rule remembers_set [OF m])
  qed
qed

lemma suppressed_facts:
  assumes "remembers ds t" "should_emit cfg r t = (t', False)"
  shows "r_status r = OK \<and> \<not> matches_any (r_channel r) (th_protected cfg)
    \<and> (\<exists>e. (e, True) \<in> set ds \<and> r_channel e = r_channel r \<and> \<not> fl_le (th_max_interval_s cfg) (Fin (r_timestamp r - r_timestamp e)))
    \<and> (\<exists>e b. (e, b) \<in> set ds \<and> r_channel e = r_channel r \<and> \<not> fl_less (delta_threshold cfg r) (fl_abs (fl_sub (r_value r) (r_value e))))"
proof -
  have a: "\<not> always_emitted cfg t r" using assms(2) by (auto simp: should_emit_def)
  then obtain st where st: "th_state t (r_channel r) = Some st" "\<not> snd (thin_channel cfg r st)"
    using assms(2) by (auto simp: should_emit_def split_beta Let_def split: option.splits)
  obtain e where e: "(e, True) \<in> set ds" "r_channel e = r_channel r" "r_timestamp e = ts_emitted_at st"
    using assms(1) st(1) unfolding remembers_def knows_def by blast
  obtain e' b where e': "(e', b) \<in> set ds" "r_channel e' = r_channel r" "r_value e' = ts_last_seen st"
    using assms(1) st(1) unfolding remembers_def knows_def by blast
  have d: "\<not> fl_less (delta_threshold cfg r) (fl_abs (fl_sub (r_value r) (r_value e')))"
    "\<not> fl_le (th_max_interval_s cfg) (Fin (r_timestamp r - r_timestamp e))"
    using thin_suppressed [OF st(2)] by (simp_all add: e(3) e'(3))
  have "r_status r = OK" "\<not> matches_any (r_channel r) (th_protected cfg)" using a by (simp_all add: always_emitted_def)
  thus ?thesis using e e' d by blast
qed

lemma decide_loop_facts:
  assumes "remembers ds t" "decide_loop cfg rs t = (t', es)"
  shows "remembers (ds @ es) t'
    \<and> (\<forall>xs r ys. es = xs @ (r, False) # ys \<longrightarrow> (\<exists>t1 t2. remembers (ds @ xs) t1 \<and> should_emit cfg r t1 = (t2, False)))"
  using assms
proof (induction rs arbitrary: ds t es)
  case (Cons r rs)
  obtain t1 b where s: "should_emit cfg r t = (t1, b)" by (cases "should_emit cfg r t")
  obtain es1 where d: "decide_loop cfg rs t1 = (t', es1)" and es: "es = (r, b) # es1"
    using Cons.prems(2) by (auto simp: s split_beta Let_def prod_eq_iff)
  note r1 = should_emit_remembers [OF Cons.prems(1) s]
  note IH = Cons.IH [OF r1 d]
  have "\<exists>t1 t2. remembers (ds @ xs) t1 \<and> should_emit cfg x t1 = (t2, False)" if "es = xs @ (x, False) # ys" for xs x ys
  proof (cases xs)
    case Nil
    thus ?thesis using that es s Cons.prems(1) by auto
  next
    case (Cons z zs)
    hence "es1 = zs @ (x, False) # ys" "z = (r, b)" using that es by auto
    thus ?thesis using IH Cons by fastforce
  qed
  thus ?case using IH es by simp
qed simp

lemma run_suppressed:
  assumes "remembers ds t" "throttle_run cfg es t = xs @ (r, False) # ys"
  shows "\<exists>t1 t2. remembers (ds @ xs) t1 \<and> should_emit cfg r t1 = (t2, False)"
  using assms
proof (induction es arbitrary: ds t xs)
  case (Cons ev es)
  show ?case
  proof (cases ev)
    case (Signal x)
    then obtain t' where t': "observe_runtime_signal cfg x t = Inr t'" "throttle_run cfg es t' = xs @ (r, False) # ys"
      using Cons.prems(2) by (auto split: sum.splits)
    have "th_state t' = th_state t" using t'(1)
      by (auto simp: observe_runtime_signal_def begin_transition_def split: if_splits pyfloat.splits)
    hence "remembers ds t'" using Cons.prems(1) by (simp add: remembers_def)
    from Cons.IH [OF this t'(2)] show ?thesis .
  next
    case (Poll rs)
    obtain t' zs where d: "decide_loop cfg rs t = (t', zs)" by (cases "decide_loop cfg rs t")
    note f = decide_loop_facts [OF Cons.prems(1) d]
    have eq: "zs @ throttle_run cfg es t' = xs @ (r, False) # ys" using Cons.prems(2) by (simp add: Poll d)
    from eq consider us where "zs = xs @ us" "us \<noteq> []" "us @ throttle_run cfg es t' = (r, False) # ys"
      | us where "xs = zs @ us" "throttle_run cfg es t' = us @ (r, False) # ys"
      unfolding append_eq_append_conv2 by fastforce
    thus ?thesis
    proof cases
      case 1
      then obtain vs where "zs = xs @ (r, False) # vs" by (cases us) auto
      thus ?thesis using f by blast
    next
      case 2
      from Cons.IH [OF conjunct1 [OF f] 2(2)] show ?thesis by (simp add: 2(1))
    qed
  qed
qed simp

text \<open>
  The archive selection never silences a channel for long. In every history of polls and runtime
  signals, a reading that is left out has status OK, belongs to no protected pattern, is less than the
  maximal interval newer than an archived reading of the same channel, and is within the configured delta
  of a value of that channel that was seen before.
\<close>

theorem throttle_gap_bounded:
  assumes "throttle_run cfg es throttle_init = xs @ (r, False) # ys"
  shows "r_status r = OK \<and> \<not> matches_any (r_channel r) (th_protected cfg)
    \<and> (\<exists>e. (e, True) \<in> set xs \<and> r_channel e = r_channel r \<and> \<not> fl_le (th_max_interval_s cfg) (Fin (r_timestamp r - r_timestamp e)))
    \<and> (\<exists>e b. (e, b) \<in> set xs \<and> r_channel e = r_channel r \<and> \<not> fl_less (delta_threshold cfg r) (fl_abs (fl_sub (r_value r) (r_value e))))"
proof -
  have "remembers [] throttle_init" by (simp add: remembers_def throttle_init_def)
  from run_suppressed [OF this assms] show ?thesis using suppressed_facts by fastforce
qed

section \<open>Concrete histories\<close>

definition plain_cfg :: "real \<Rightarrow> real \<Rightarrow> real \<Rightarrow> throttle_cfg" where
  "plain_cfg stable_s max_interval delta =
     \<lparr> th_enabled = True, th_include = [], th_exclude = [], th_protected = [], th_stable_duration_s = Fin stable_s,
       th_max_interval_s = Fin max_interval, th_transition_holdoff_s = 30, th_default_delta = Fin delta, th_delta_by_unit = [] \<rparr>"

definition kelvin :: "real \<Rightarrow> real \<Rightarrow> reading" where
  "kelvin time v =
     \<lparr> r_timestamp = time, r_instrument_id = ''LS218'', r_channel = ''T1'', r_value = Fin v, r_unit = ''K'', r_status = OK,
       r_metadata = [] \<rparr>"

lemma kelvin_simps [simp]:
  "r_timestamp (kelvin x v) = x" "r_channel (kelvin x v) = ''T1''" "r_value (kelvin x v) = Fin v" "r_unit (kelvin x v) = ''K''"
  "r_status (kelvin x v) = OK"
  by (simp_all add: kelvin_def)

lemma plain_not_always:
  "th_active_alarms t = 0 \<Longrightarrow> th_transition_until t = None \<Longrightarrow> \<not> always_emitted (plain_cfg s m d) t (kelvin x v)"
  by (simp add: always_emitted_def plain_cfg_def matches_any_def)

theorem throttle_gap_bounded_witness:
  "throttle_run (plain_cfg 1 5 1) [Poll [kelvin 0 0, kelvin 10 0, kelvin 12 0]] throttle_init
     = [(kelvin 0 0, True), (kelvin 10 0, True)] @ (kelvin 12 0, False) # []
   \<and> r_status (kelvin 12 0) = OK"
proof -
  have run: "throttle_run (plain_cfg 1 5 1) [Poll [kelvin 0 0, kelvin 10 0, kelvin 12 0]] throttle_init
     = [(kelvin 0 0, True), (kelvin 10 0, True)] @ (kelvin 12 0, False) # []"
    by (simp add: should_emit_def always_emitted_def plain_cfg_def matches_any_def throttle_init_def set_channel_def first_state_def
        thin_channel_def emitted_state_def delta_threshold_def)
  from throttle_gap_bounded [OF run] run show ?thesis by blast
qed

section \<open>Slow drift\<close>

text \<open>Readings of a channel that moves by \<open>d\<close> from one to the next, \<open>h\<close> seconds apart, after time \<open>x0\<close>.\<close>

definition drift :: "real \<Rightarrow> real \<Rightarrow> real \<Rightarrow> nat \<Rightarrow> nat \<Rightarrow> reading list" where
  "drift x0 h d k n = map (\<lambda>i. kelvin (x0 + real i * h) (real i * d)) [k..<n]"

lemma drift_nth: "i < n - k \<Longrightarrow> drift x0 h d k n ! i = kelvin (x0 + real (k + i) * h) (real (k + i) * d)"
  and drift_length: "length (drift x0 h d k n) = n - k"
  by (simp_all add: drift_def)

definition drifting :: "real \<Rightarrow> real \<Rightarrow> throttle \<Rightarrow> bool" where
  "drifting x0 v t =
     (th_active_alarms t = 0 \<and> th_transition_until t = None
      \<and> (\<exists>st. th_state t ''T1'' = Some st \<and> ts_last_seen st = Fin v \<and> ts_emitted_at st = x0 \<and> ts_stable_since st = 0))"

lemma drift_suppressed:
  assumes "drifting x0 (real k * d - d) t" "0 \<le> d" "s \<le> x0" "0 \<le> h" "real n * h < m + h"
  shows "snd (filter_loop (plain_cfg s m d) (drift x0 h d k n) t) = []"
  using assms(1)
proof (induction "n - k" arbitrary: k t)
  case 0
  thus ?case by (simp add: drift_def)
next
  case (Suc j)
  hence k: "k < n" by simp
  let ?r = "kelvin (x0 + real k * h) (real k * d)"
  have split: "drift x0 h d k n = ?r # drift x0 h d (Suc k) n" using k by (simp add: drift_def upt_conv_Cons)
  obtain st where st: "th_state t ''T1'' = Some st" "ts_last_seen st = Fin (real k * d - d)" "ts_emitted_at st = x0" "ts_stable_since st = 0"
    and t: "th_active_alarms t = 0" "th_transition_until t = None"
    using Suc.prems unfolding drifting_def by blast
  have "real (Suc k) * h \<le> real n * h" using k assms(4) by (intro mult_right_mono) auto
  hence time: "real k * h < m" using assms(5) by (simp add: algebra_simps)
  have "0 \<le> real k * h" using assms(4) by simp
  hence "thin_channel (plain_cfg s m d) ?r st = (st\<lparr> ts_last_seen := Fin (real k * d) \<rparr>, False)"
    using st time assms(2,3) by (simp add: thin_channel_def plain_cfg_def delta_threshold_def)
  hence e: "should_emit (plain_cfg s m d) ?r t = (set_channel ''T1'' (st\<lparr> ts_last_seen := Fin (real k * d) \<rparr>) t, False)"
    using plain_not_always [OF t] st(1) by (simp add: should_emit_def)
  let ?t = "(set_channel ''T1'' (st\<lparr> ts_last_seen := Fin (real k * d) \<rparr>) t)\<lparr> th_suppressed := th_suppressed t + 1 \<rparr>"
  have "drifting x0 (real (Suc k) * d - d) ?t"
    using st t by (simp add: drifting_def set_channel_def algebra_simps)
  from Suc.hyps(1) [OF _ this] Suc.hyps(2) show ?case
    by (simp add: split e set_channel_def split_beta Let_def)
qed

text \<open>
  The throttle compares a reading with the last one it saw, not with the last one it archived
  (\<open>last_emitted_value\<close> is stored and never read). So a slow drift is never noticed: for every bound there
  is a history in which each reading is within the configured delta of its predecessor, and the channel
  has moved by more than the bound while every reading after the second one was left out.
\<close>

theorem slow_drift_unarchived:
  assumes "0 < delta" "0 < max_interval"
  shows "\<exists>(rs :: reading list) n. snd (filter_for_archive (plain_cfg stable_s max_interval delta) rs throttle_init) = take 2 rs
           \<and> (\<forall>i. Suc i < length rs \<longrightarrow> (\<exists>a b. r_value (rs ! i) = Fin a \<and> r_value (rs ! Suc i) = Fin b \<and> \<bar>b - a\<bar> \<le> delta))
           \<and> r_value (rs ! 1) = Fin 0 \<and> r_value (last rs) = Fin n \<and> bound < n"
proof -
  obtain N :: nat where N: "bound / delta < real N" using reals_Archimedean2 by blast
  define x0 where "x0 = Max {stable_s, max_interval, 0}"
  define h where "h = max_interval / real (N + 2)"
  have x0: "stable_s \<le> x0" "max_interval \<le> x0" "0 \<le> x0" by (simp_all add: x0_def)
  have h: "0 < h" "real (N + 2) * h = max_interval" using assms(2) by (simp_all add: h_def)
  let ?c = "plain_cfg stable_s max_interval delta"
  let ?ds = "drift x0 h delta 1 (N + 2)"
  let ?rs = "kelvin 0 0 # kelvin x0 0 # ?ds"
  let ?st = "\<lparr> ts_last_seen = Fin 0, ts_last_emitted = Fin 0, ts_emitted_at = x0, ts_stable_since = 0 \<rparr>"
  let ?t = "set_channel ''T1'' ?st (set_channel ''T1'' (first_state (kelvin 0 0)) throttle_init)"
  have e0: "should_emit ?c (kelvin 0 0) throttle_init = (set_channel ''T1'' (first_state (kelvin 0 0)) throttle_init, True)"
    using plain_not_always [of throttle_init stable_s max_interval delta 0 0] by (simp add: should_emit_def throttle_init_def)
  have e1: "should_emit ?c (kelvin x0 0) (set_channel ''T1'' (first_state (kelvin 0 0)) throttle_init) = (?t, True)"
    using plain_not_always [of "set_channel ''T1'' (first_state (kelvin 0 0)) throttle_init" stable_s max_interval delta x0 0] x0 assms(1)
    by (simp add: should_emit_def throttle_init_def set_channel_def thin_channel_def first_state_def emitted_state_def
        plain_cfg_def delta_threshold_def)
  have "drifting x0 (real 1 * delta - delta) ?t" by (simp add: drifting_def set_channel_def throttle_init_def)
  hence "snd (filter_loop ?c ?ds ?t) = []"
    by (rule drift_suppressed) (use assms x0 h in simp_all)
  hence out: "snd (filter_for_archive ?c ?rs throttle_init) = take 2 ?rs"
    by (simp add: filter_for_archive_def plain_cfg_def [of stable_s] e0 [unfolded plain_cfg_def] e1 [unfolded plain_cfg_def] split_beta Let_def)
  have nth: "?rs ! Suc i = kelvin (x0 + real i * h) (real i * delta)" if "i < N + 2" for i
  proof (cases i)
    case (Suc j)
    thus ?thesis using drift_nth [of j "N + 2" 1 x0 h delta] that by simp
  qed simp
  have len: "length ?rs = N + 3" by (simp add: drift_length)
  have step: "\<exists>a b. r_value (?rs ! i) = Fin a \<and> r_value (?rs ! Suc i) = Fin b \<and> \<bar>b - a\<bar> \<le> delta" if "Suc i < length ?rs" for i
  proof (cases i)
    case 0
    thus ?thesis using assms(1) by simp
  next
    case (Suc j)
    hence "j < N + 2" "Suc j < N + 2" using that len by simp_all
    hence "r_value (?rs ! i) = Fin (real j * delta)" "r_value (?rs ! Suc i) = Fin (real (Suc j) * delta)"
      unfolding Suc using nth [of j] nth [of "Suc j"] by simp_all
    moreover have "\<bar>real (Suc j) * delta - real j * delta\<bar> \<le> delta" using assms(1) by (simp add: algebra_simps)
    ultimately show ?thesis by blast
  qed
  have "last ?rs = ?rs ! (length ?rs - 1)" by (rule last_conv_nth) simp
  hence last: "last ?rs = ?rs ! Suc (N + 1)" by (simp only: len) simp
  have "bound < real (N + 1) * delta" using N assms(1) by (simp add: field_simps)
  hence "r_value (last ?rs) = Fin (real (N + 1) * delta)" "bound < real (N + 1) * delta" using nth [of "N + 1"] last by simp_all
  thus ?thesis using out step by (intro exI [of _ ?rs] exI [of _ "real (N + 1) * delta"]) auto
qed

theorem slow_drift_unarchived_witness:
  "\<exists>(rs :: reading list) n. snd (filter_for_archive (plain_cfg 120 30 (1 / 50)) rs throttle_init) = take 2 rs \<and> r_value (last rs) = Fin n \<and> 1000 < n"
  using slow_drift_unarchived [of "1 / 50" 30 120 1000] by force

end
