(* ===== verification/CalAcquire.thy ===== *)
theory CalAcquire
  imports Readings
begin

text \<open>
  Recording raw sensor units next to temperatures while a calibration runs:
  \<open>CalibrationAcquisitionService\<close> of \<^verbatim>\<open>src/cryodaq/core/calibration_acquisition.py\<close>. The resolution of a
  channel reference by the channel manager is a parameter; without a channel manager it is not asked.
\<close>

section \<open>State\<close>

record cal =
  cal_active :: bool
  cal_reference :: "string option"
  cal_targets :: "string list"
  cal_points :: nat
  cal_t_min :: "real option"
  cal_t_max :: "real option"

definition cal_init :: cal where
  "cal_init = \<lparr> cal_active = False, cal_reference = None, cal_targets = [], cal_points = 0, cal_t_min = None, cal_t_max = None \<rparr>"

fun resolve_targets :: "(string \<Rightarrow> string result) \<Rightarrow> string list \<Rightarrow> string list result" where
  "resolve_targets f [] = Inr []"
| "resolve_targets f (c # cs) = res_bind (f c) (\<lambda>x. res_bind (resolve_targets f cs) (\<lambda>xs. Inr (x # xs)))"

text \<open>Both resolutions are done before anything is changed.\<close>

definition cal_activate :: "(string \<Rightarrow> string result) option \<Rightarrow> string \<Rightarrow> string list \<Rightarrow> cal \<Rightarrow> cal result" where
  "cal_activate manager reference targets s =
     res_bind (case manager of None \<Rightarrow> Inr reference | Some f \<Rightarrow> f reference) (\<lambda>ref.
     res_bind (case manager of None \<Rightarrow> Inr targets | Some f \<Rightarrow> resolve_targets f targets) (\<lambda>tgs.
       Inr (s\<lparr> cal_active := True, cal_reference := Some ref, cal_targets := tgs, cal_points := 0,
               cal_t_min := None, cal_t_max := None \<rparr>)))"

definition cal_deactivate :: "cal \<Rightarrow> cal" where
  "cal_deactivate s = s\<lparr> cal_active := False \<rparr>"

section \<open>Preparing a poll\<close>

text \<open>The range that would be applied: the keys \<open>t_min\<close> and \<open>t_max\<close> of the pending dictionary.\<close>

type_synonym pending = "real option \<times> real option"

fun reference_temperature :: "cal \<Rightarrow> raw_reading \<Rightarrow> real option" where
  "reference_temperature s r =
     (if Some (r_channel r) = cal_reference s \<and> r_status r = OK
      then (case r_value r of Fin t \<Rightarrow> if t < 1 then None else Some t | _ \<Rightarrow> None)
      else None)"

definition pending_step :: "cal \<Rightarrow> raw_reading \<Rightarrow> pending \<Rightarrow> pending" where
  "pending_step s r p =
     (case reference_temperature s r of
        None \<Rightarrow> p
      | Some t \<Rightarrow>
          (let cur_min = (case fst p of None \<Rightarrow> cal_t_min s | x \<Rightarrow> x);
               cur_max = (case snd p of None \<Rightarrow> cal_t_max s | x \<Rightarrow> x)
           in (if (case cur_min of None \<Rightarrow> True | Some m \<Rightarrow> t < m) then Some t else fst p,
               if (case cur_max of None \<Rightarrow> True | Some m \<Rightarrow> m < t) then Some t else snd p)))"

definition pending_range :: "cal \<Rightarrow> raw_reading list \<Rightarrow> pending" where
  "pending_range s krdg = fold (pending_step s) krdg (None, None)"

definition srdg_reading :: "raw_reading \<Rightarrow> raw_reading" where
  "srdg_reading r =
     r\<lparr> r_channel := r_channel r @ ''_raw'', r_unit := ''sensor_unit'', r_status := OK, r_raw := Some (r_value r),
        r_metadata := [(''reading_kind'', PStr ''calibration_srdg''), (''source_channel'', PStr (r_channel r))] \<rparr>"

definition srdg_admitted :: "cal \<Rightarrow> raw_reading \<Rightarrow> bool" where
  "srdg_admitted s r = (r_channel r \<in> set (cal_targets s) \<and> r_status r = OK \<and> fl_isfinite (r_value r))"

definition prepare_srdg_readings :: "raw_reading list \<Rightarrow> raw_reading list \<Rightarrow> cal \<Rightarrow> raw_reading list \<times> pending option" where
  "prepare_srdg_readings krdg srdg s =
     (if \<not> cal_active s then ([], None)
      else (map srdg_reading (filter (srdg_admitted s) srdg),
            let p = pending_range s krdg in if p = (None, None) then None else Some p))"

definition widen_min :: "real option \<Rightarrow> real option \<Rightarrow> real option" where
  "widen_min new old =
     (case new of None \<Rightarrow> old | Some n \<Rightarrow> (case old of None \<Rightarrow> Some n | Some m \<Rightarrow> if n < m then Some n else Some m))"

definition widen_max :: "real option \<Rightarrow> real option \<Rightarrow> real option" where
  "widen_max new old =
     (case new of None \<Rightarrow> old | Some n \<Rightarrow> (case old of None \<Rightarrow> Some n | Some m \<Rightarrow> if m < n then Some n else Some m))"

definition on_srdg_persisted :: "nat \<Rightarrow> pending option \<Rightarrow> cal \<Rightarrow> cal" where
  "on_srdg_persisted count p s =
     (let s1 = s\<lparr> cal_points := cal_points s + count \<rparr>
      in case p of
           None \<Rightarrow> s1
         | Some (lo, hi) \<Rightarrow> s1\<lparr> cal_t_min := widen_min lo (cal_t_min s1), cal_t_max := widen_max hi (cal_t_max s1) \<rparr>)"

text \<open>
  The deprecated entry: it writes on its own. The environment gives the writer's answer and the service as
  it is after that await.
\<close>

definition cal_on_readings :: "(raw_reading list \<Rightarrow> cal \<Rightarrow> bool \<times> cal) \<Rightarrow> raw_reading list \<Rightarrow> raw_reading list \<Rightarrow> cal \<Rightarrow> cal" where
  "cal_on_readings write_immediate krdg srdg s =
     (if \<not> cal_active s then s
      else (let (to_write, p) = prepare_srdg_readings krdg srdg s
            in if to_write = [] then s
               else (let (persisted, s') = write_immediate to_write s
                     in if persisted then on_srdg_persisted (length to_write) p s' else s')))"

section \<open>The temperature range\<close>

text \<open>The usable reference temperatures of a poll, and the smallest and largest of several.\<close>

definition reference_temperatures :: "cal \<Rightarrow> raw_reading list \<Rightarrow> real list" where
  "reference_temperatures s krdg = List.map_filter (reference_temperature s) krdg"

definition least_of :: "real option \<Rightarrow> real list \<Rightarrow> real option" where
  "least_of old xs = fold (\<lambda>x m. Some (case m of None \<Rightarrow> x | Some y \<Rightarrow> min x y)) xs old"

definition greatest_of :: "real option \<Rightarrow> real list \<Rightarrow> real option" where
  "greatest_of old xs = fold (\<lambda>x m. Some (case m of None \<Rightarrow> x | Some y \<Rightarrow> max x y)) xs old"

lemma pending_fold:
  "widen_min (fst (fold (pending_step s) krdg p)) (cal_t_min s) = least_of (widen_min (fst p) (cal_t_min s)) (reference_temperatures s krdg)
   \<and> widen_max (snd (fold (pending_step s) krdg p)) (cal_t_max s) = greatest_of (widen_max (snd p) (cal_t_max s)) (reference_temperatures s krdg)"
  if "\<And>m. fst p = Some m \<Longrightarrow> (case cal_t_min s of None \<Rightarrow> True | Some y \<Rightarrow> m < y)"
     "\<And>m. snd p = Some m \<Longrightarrow> (case cal_t_max s of None \<Rightarrow> True | Some y \<Rightarrow> y < m)"
  using that
proof (induction krdg arbitrary: p)
  case Nil
  show ?case by (simp add: reference_temperatures_def least_of_def greatest_of_def List.map_filter_simps)
next
  case (Cons r krdg)
  show ?case
  proof (cases "reference_temperature s r")
    case None
    hence "pending_step s r p = p" "reference_temperatures s (r # krdg) = reference_temperatures s krdg"
      by (simp_all add: pending_step_def reference_temperatures_def List.map_filter_simps)
    thus ?thesis using Cons by simp
  next
    case (Some t)
    let ?p = "pending_step s r p"
    have refs: "reference_temperatures s (r # krdg) = t # reference_temperatures s krdg"
      using Some by (simp add: reference_temperatures_def List.map_filter_simps)
    have lo: "widen_min (fst ?p) (cal_t_min s) = Some (case widen_min (fst p) (cal_t_min s) of None \<Rightarrow> t | Some y \<Rightarrow> min t y)"
      and hi: "widen_max (snd ?p) (cal_t_max s) = Some (case widen_max (snd p) (cal_t_max s) of None \<Rightarrow> t | Some y \<Rightarrow> max t y)"
      and new: "\<And>m. fst ?p = Some m \<Longrightarrow> (case cal_t_min s of None \<Rightarrow> True | Some y \<Rightarrow> m < y)"
        "\<And>m. snd ?p = Some m \<Longrightarrow> (case cal_t_max s of None \<Rightarrow> True | Some y \<Rightarrow> y < m)"
      using Some Cons.prems
      by (auto simp: pending_step_def widen_min_def widen_max_def Let_def split: option.splits if_splits)
    from Cons.IH [OF new] show ?thesis by (simp add: refs lo hi least_of_def greatest_of_def)
  qed
qed

text \<open>
  A calibration counts exactly what was persisted. Preparing a poll changes nothing; only the report
  that the prepared points were persisted adds their number, and it moves the recorded temperature range
  to the least and the greatest of the old bounds and all usable reference temperatures (status OK, finite,
  at least 1 K) of that poll. What is written is, in order, each finite OK raw reading of a target channel,
  under the channel's name with \<open>_raw\<close>.
\<close>

theorem calibration_range_exact:
  assumes "cal_active s" "prepare_srdg_readings krdg srdg s = (points, p)"
  shows "on_srdg_persisted (length points) p s =
           s\<lparr> cal_points := cal_points s + length points,
              cal_t_min := least_of (cal_t_min s) (reference_temperatures s krdg),
              cal_t_max := greatest_of (cal_t_max s) (reference_temperatures s krdg) \<rparr>
         \<and> points = map srdg_reading (filter (srdg_admitted s) srdg)"
proof -
  have p: "p = (let q = pending_range s krdg in if q = (None, None) then None else Some q)"
    and pts: "points = map srdg_reading (filter (srdg_admitted s) srdg)"
    using assms by (simp_all add: prepare_srdg_readings_def)
  have r: "widen_min (fst (pending_range s krdg)) (cal_t_min s) = least_of (cal_t_min s) (reference_temperatures s krdg)"
    "widen_max (snd (pending_range s krdg)) (cal_t_max s) = greatest_of (cal_t_max s) (reference_temperatures s krdg)"
    using pending_fold [of "(None, None)" s krdg] by (simp_all add: pending_range_def widen_min_def widen_max_def)
  show ?thesis
  proof (cases "pending_range s krdg = (None, None)")
    case True
    hence "least_of (cal_t_min s) (reference_temperatures s krdg) = cal_t_min s"
      "greatest_of (cal_t_max s) (reference_temperatures s krdg) = cal_t_max s"
      using r by (simp_all add: widen_min_def widen_max_def)
    thus ?thesis using p pts True by (simp add: on_srdg_persisted_def Let_def)
  next
    case False
    thus ?thesis using p pts r by (cases "pending_range s krdg") (auto simp: on_srdg_persisted_def Let_def)
  qed
qed

definition cal_example :: cal where
  "cal_example =
     \<lparr> cal_active = True, cal_reference = Some ''T1'', cal_targets = [''T2''], cal_points = 4, cal_t_min = Some 20, cal_t_max = None \<rparr>"

definition temperature_of :: "string \<Rightarrow> pyfloat \<Rightarrow> raw_reading" where
  "temperature_of c v =
     \<lparr> r_timestamp = 0, r_instrument_id = ''LS218'', r_channel = c, r_value = v, r_unit = ''K'', r_status = OK, r_metadata = [], r_raw = None \<rparr>"

theorem calibration_range_exact_witness:
  "\<exists>points p. prepare_srdg_readings [temperature_of ''T1'' (Fin 30), temperature_of ''T1'' (Fin 10)]
       [temperature_of ''T2'' (Fin 5), temperature_of ''T3'' (Fin 6)] cal_example = (points, p)
     \<and> cal_t_max (on_srdg_persisted (length points) p cal_example)
         = greatest_of None (reference_temperatures cal_example [temperature_of ''T1'' (Fin 30), temperature_of ''T1'' (Fin 10)])"
proof -
  obtain points p where p: "prepare_srdg_readings [temperature_of ''T1'' (Fin 30), temperature_of ''T1'' (Fin 10)]
       [temperature_of ''T2'' (Fin 5), temperature_of ''T3'' (Fin 6)] cal_example = (points, p)"
    by (cases "prepare_srdg_readings [temperature_of ''T1'' (Fin 30), temperature_of ''T1'' (Fin 10)]
       [temperature_of ''T2'' (Fin 5), temperature_of ''T3'' (Fin 6)] cal_example")
  have act: "cal_active cal_example" and none: "cal_t_max cal_example = None" by (simp_all add: cal_example_def)
  note exact = conjunct1 [OF calibration_range_exact [OF act p]]
  have "cal_t_max (on_srdg_persisted (length points) p cal_example)
      = greatest_of (cal_t_max cal_example) (reference_temperatures cal_example [temperature_of ''T1'' (Fin 30), temperature_of ''T1'' (Fin 10)])"
    unfolding exact by simp
  with p show ?thesis unfolding none by blast
qed

end
