(* ===== verification/SqliteWrites.thy ===== *)
theory SqliteWrites
  imports Readings
begin

text \<open>
  The writing of readings to SQLite: the sentinel codec of \<^verbatim>\<open>src/cryodaq/storage/sentinel.py\<close> and, of
  \<^verbatim>\<open>src/cryodaq/storage/sqlite_writer.py\<close>, the rows of a batch, the transaction loop of one day with its
  treatment of a full disk and of a locked database, the batches that cross midnight, and the ledger of
  commit settlements. SQLite itself is an input: for each day the clock readings of the attempts that found
  the database locked, and how the attempt after them ended. \<open>wr_db\<close> is a ghost: the rows committed so far.
  Timestamps are POSIX seconds, so a day is a number (the days of UTC).
\<close>

section \<open>The sentinel\<close>

definition SENTINEL :: real where "SENTINEL = - 8888 * 10 ^ 85"

definition is_sentinel :: "pyfloat \<Rightarrow> bool" where
  "is_sentinel v = fl_eq v (Fin SENTINEL)"

definition sent_encode :: "pyfloat \<Rightarrow> channel_status \<Rightarrow> pyfloat \<times> string" where
  "sent_encode v st = (if st \<noteq> OK \<or> \<not> fl_isfinite v then Fin SENTINEL else v, status_value st)"

definition sent_decode :: "pyfloat \<Rightarrow> string \<Rightarrow> pyfloat" where
  "sent_decode v st = (if py_lower st \<noteq> status_value OK \<or> is_sentinel v \<or> \<not> fl_isfinite v then NaN else v)"

lemma sentinel_roundtrip_iff:
  "sent_decode (fst (sent_encode v st)) (snd (sent_encode v st)) = (if st = OK \<and> fl_isfinite v \<and> \<not> is_sentinel v then v else NaN)"
proof -
  have "py_lower ''ok'' = ''ok''" "py_lower ''overrange'' \<noteq> ''ok''" "py_lower ''underrange'' \<noteq> ''ok''"
    "py_lower ''sensor_error'' \<noteq> ''ok''" "py_lower ''timeout'' \<noteq> ''ok''" by code_simp+
  thus ?thesis by (cases st) (auto simp: sent_encode_def sent_decode_def is_sentinel_def fl_eq_def fl_isfinite_def)
qed

section \<open>The writer\<close>

text \<open>Exceptions as the acquisition tells them apart: a cancellation, a timeout, any other \<open>Exception\<close>.\<close>

datatype aexn = Cancelled | TimedOut | Exn string

type_synonym row = "real \<times> string \<times> string \<times> pyfloat \<times> string \<times> string \<times> string option"

text \<open>A reading bound to its descriptor: the owned reading under its channel id, and the envelope.\<close>

record bound =
  bd_reading :: raw_reading
  bd_channel_id :: string
  bd_envelope :: string

record receipt =
  rc_entries :: "bound list"
  rc_revision :: nat

record wr =
  wr_stopping :: bool
  wr_disk_full :: bool
  wr_locked_count :: nat
  wr_locked_first :: real
  wr_checkpoint :: nat
  wr_total_written :: nat
  wr_signals :: "string list"
  wr_next :: nat
  wr_retained :: "nat list"
  wr_consumed :: "nat list"
  wr_revision :: nat
  wr_issued :: "receipt list"
  wr_settled_receipts :: "receipt list"
  wr_db :: "row list"

text \<open>
  What the writer is constructed with: whether it has a live catalog, \<open>bind\<close> of that catalog, the hash of a
  reading's descriptor if it has a catalog, and whether a persistence-failure callback is wired.
\<close>

record wr_cfg =
  wc_live :: bool
  wc_bind :: "raw_reading \<Rightarrow> aexn + bound"
  wc_hash :: "(raw_reading \<Rightarrow> aexn + string) option"
  wc_callback :: bool

definition COMMIT_SETTLEMENT_CAPACITY :: nat where "COMMIT_SETTLEMENT_CAPACITY = 1024"
definition MAX_COMMIT_REVISION :: nat where "MAX_COMMIT_REVISION = 2 ^ 63 - 1"
definition LOCKED_FAILURE_THRESHOLD :: nat where "LOCKED_FAILURE_THRESHOLD = 3"
definition LOCKED_FAILURE_SPAN_S :: real where "LOCKED_FAILURE_SPAN_S = 15"

definition wr_init :: wr where
  "wr_init =
     \<lparr> wr_stopping = False, wr_disk_full = False, wr_locked_count = 0, wr_locked_first = 0, wr_checkpoint = 0,
       wr_total_written = 0, wr_signals = [], wr_next = 0, wr_retained = [], wr_consumed = [], wr_revision = 0,
       wr_issued = [], wr_settled_receipts = [], wr_db = [] \<rparr>"

definition clear_disk_full :: "wr \<Rightarrow> wr" where
  "clear_disk_full s = s\<lparr> wr_disk_full := False \<rparr>"

definition signal_persistence_failure :: "wr_cfg \<Rightarrow> string \<Rightarrow> wr \<Rightarrow> wr" where
  "signal_persistence_failure cfg reason s = (if wc_callback cfg then s\<lparr> wr_signals := wr_signals s @ [reason] \<rparr> else s)"

section \<open>The rows of a batch\<close>

text \<open>A sentinel or a value that is not finite is refused under status OK.\<close>

definition row_refused :: "raw_reading \<Rightarrow> bool" where
  "row_refused r = (r_status r = OK \<and> (\<not> fl_isfinite (r_value r) \<or> is_sentinel (r_value r)))"

definition row_of :: "raw_reading \<Rightarrow> string option \<Rightarrow> row" where
  "row_of r h =
     (r_timestamp r, if r_instrument_id r = [] then ''unknown'' else r_instrument_id r, r_channel r,
      fst (sent_encode (r_value r) (r_status r)), r_unit r, snd (sent_encode (r_value r) (r_status r)), h)"

fun build_rows :: "wr_cfg \<Rightarrow> raw_reading list \<Rightarrow> aexn + row list" where
  "build_rows cfg [] = Inr []"
| "build_rows cfg (r # rs) =
     (if row_refused r then build_rows cfg rs
      else (case (case wc_hash cfg of None \<Rightarrow> Inr None | Some f \<Rightarrow> map_sum id Some (f r)) of
              Inl e \<Rightarrow> Inl e
            | Inr h \<Rightarrow> map_sum id (Cons (row_of r h)) (build_rows cfg rs)))"

section \<open>The transaction of one day\<close>

text \<open>
  An attempt that raises \<open>sqlite3.OperationalError\<close> has its message and the clock after it; the attempt after
  those ends otherwise: it commits, or something else is raised.
\<close>

type_synonym op_error = "string \<times> real"

datatype attempt = Commits | Fails string

fun py_in :: "string \<Rightarrow> string \<Rightarrow> bool" where
  "py_in phrase [] = (phrase = [])"
| "py_in phrase (c # cs) = (take (length phrase) (c # cs) = phrase \<or> py_in phrase cs)"

definition disk_full_phrases :: "string list" where
  "disk_full_phrases =
     [''database or disk is full'', ''database is full'', ''no space left on device'',
      ''not enough space on the disk'', ''disk quota exceeded'']"

definition locked_phrases :: "string list" where
  "locked_phrases = [''database is locked'', ''database is busy'']"

definition mentions :: "string list \<Rightarrow> string \<Rightarrow> bool" where
  "mentions phrases msg = list_ex (\<lambda>p. py_in p (py_lower msg)) phrases"

definition day_committed :: "row list \<Rightarrow> wr \<Rightarrow> wr" where
  "day_committed rows s =
     s\<lparr> wr_db := wr_db s @ rows, wr_locked_count := 0,
        wr_checkpoint := (if 60 \<le> wr_checkpoint s + 1 then 0 else wr_checkpoint s + 1),
        wr_total_written := wr_total_written s + length rows \<rparr>"

definition note_locked :: "real \<Rightarrow> wr \<Rightarrow> wr" where
  "note_locked now s =
     s\<lparr> wr_locked_first := (if wr_locked_count s = 0 then now else wr_locked_first s), wr_locked_count := wr_locked_count s + 1 \<rparr>"

definition lock_sustained :: "real \<Rightarrow> wr \<Rightarrow> bool" where
  "lock_sustained now s = (LOCKED_FAILURE_THRESHOLD \<le> wr_locked_count s \<and> LOCKED_FAILURE_SPAN_S \<le> now - wr_locked_first s)"

fun day_loop :: "wr_cfg \<Rightarrow> row list \<Rightarrow> op_error list \<Rightarrow> attempt \<Rightarrow> wr \<Rightarrow> wr \<times> (aexn + bool)" where
  "day_loop cfg rows ((msg, now) # errors) end s =
     (if mentions disk_full_phrases msg
      then (signal_persistence_failure cfg (''disk full: '' @ msg) (s\<lparr> wr_disk_full := True \<rparr>), Inr False)
      else if mentions locked_phrases msg
      then (let s1 = note_locked now s
            in if lock_sustained now s1
               then (signal_persistence_failure cfg (''database locked; batch not persisted: '' @ msg) s1, Inr False)
               else day_loop cfg rows errors end s1)
      else (s, Inl (Exn msg)))"
| "day_loop cfg rows [] Commits s = (day_committed rows s, Inr True)"
| "day_loop cfg rows [] (Fails e) s = (s, Inl (Exn e))"

text \<open>The input of one day.\<close>

type_synonym day_io = "op_error list \<times> attempt"

definition write_day_batch :: "wr_cfg \<Rightarrow> day_io \<Rightarrow> raw_reading list \<Rightarrow> wr \<Rightarrow> wr \<times> (aexn + bool)" where
  "write_day_batch cfg io batch s =
     (case build_rows cfg batch of
        Inl e \<Rightarrow> (s, Inl e)
      | Inr rows \<Rightarrow> if rows = [] then (s, Inr True) else day_loop cfg rows (fst io) (snd io) s)"

section \<open>Batches\<close>

definition day_of :: "raw_reading \<Rightarrow> int" where
  "day_of r = \<lfloor>r_timestamp r / 86400\<rfloor>"

definition days_of :: "raw_reading list \<Rightarrow> int list" where
  "days_of rs = sort (remdups (map day_of rs))"

text \<open>\<open>_write_batch\<close>: every day is written, a failed one is remembered.\<close>

fun write_days :: "wr_cfg \<Rightarrow> (int \<Rightarrow> day_io) \<Rightarrow> raw_reading list \<Rightarrow> int list \<Rightarrow> bool \<Rightarrow> wr \<Rightarrow> wr \<times> (aexn + bool)" where
  "write_days cfg io batch [] ok s = (s, Inr ok)"
| "write_days cfg io batch (d # ds) ok s =
     (case write_day_batch cfg (io d) (filter (\<lambda>r. day_of r = d) batch) s of
        (s1, Inl e) \<Rightarrow> (s1, Inl e)
      | (s1, Inr b) \<Rightarrow> write_days cfg io batch ds (ok \<and> b) s1)"

definition write_batch :: "wr_cfg \<Rightarrow> (int \<Rightarrow> day_io) \<Rightarrow> raw_reading list \<Rightarrow> wr \<Rightarrow> wr \<times> (aexn + bool)" where
  "write_batch cfg io batch s = write_days cfg io batch (days_of batch) True s"

text \<open>\<open>_write_live_batch\<close>: the whole batch is validated first, and the first failed day ends it.\<close>

definition live_reading :: "bound \<Rightarrow> raw_reading" where
  "live_reading b = (bd_reading b)\<lparr> r_channel := bd_channel_id b \<rparr>"

fun write_live_days :: "wr_cfg \<Rightarrow> (int \<Rightarrow> day_io) \<Rightarrow> raw_reading list \<Rightarrow> int list \<Rightarrow> wr \<Rightarrow> wr \<times> (aexn + bool)" where
  "write_live_days cfg io batch [] s = (s, Inr True)"
| "write_live_days cfg io batch (d # ds) s =
     (case write_day_batch cfg (io d) (filter (\<lambda>r. day_of r = d) batch) s of
        (s1, Inl e) \<Rightarrow> (s1, Inl e)
      | (s1, Inr False) \<Rightarrow> (s1, Inr False)
      | (s1, Inr True) \<Rightarrow> write_live_days cfg io batch ds s1)"

definition write_live_batch :: "wr_cfg \<Rightarrow> (int \<Rightarrow> day_io) \<Rightarrow> bound list \<Rightarrow> wr \<Rightarrow> wr \<times> (aexn + bound list option)" where
  "write_live_batch cfg io batch s =
     (if \<not> wc_live cfg then (s, Inl (Exn ''RuntimeError''))
      else if batch = [] then (s, Inl (Exn ''ValueError''))
      else if list_ex (\<lambda>b. row_refused (bd_reading b)) batch then (s, Inl (Exn ''ValueError''))
      else (let rs = map live_reading batch
            in (case write_live_days cfg io rs (days_of rs) s of
                  (s1, Inl e) \<Rightarrow> (s1, Inl e)
                | (s1, Inr False) \<Rightarrow> (s1, Inr None)
                | (s1, Inr True) \<Rightarrow> (s1, Inr (Some batch)))))"

section \<open>The ledger of commits\<close>

definition issue_committed_batch :: "wr_cfg \<Rightarrow> bound list \<Rightarrow> wr \<Rightarrow> wr \<times> (aexn + receipt)" where
  "issue_committed_batch cfg bs s =
     (if \<not> wc_live cfg \<or> bs = [] then (s, Inl (Exn ''RuntimeError''))
      else if MAX_COMMIT_REVISION \<le> wr_revision s then (s, Inl (Exn ''OverflowError''))
      else (let r = \<lparr> rc_entries = bs, rc_revision = wr_revision s + 1 \<rparr>
            in (s\<lparr> wr_revision := wr_revision s + 1, wr_issued := wr_issued s @ [r] \<rparr>, Inr r)))"

text \<open>The owner task: it is refused when the writer is stopping by the time it starts.\<close>

definition commit_owner ::
  "wr_cfg \<Rightarrow> bool \<Rightarrow> (int \<Rightarrow> day_io) \<Rightarrow> bound list \<Rightarrow> wr \<Rightarrow> wr \<times> (aexn + receipt option)" where
  "commit_owner cfg refused io bs s =
     (if refused then (s, Inl (Exn ''RuntimeError''))
      else (case write_live_batch cfg io bs s of
              (s1, Inl e) \<Rightarrow> (s1, Inl e)
            | (s1, Inr None) \<Rightarrow> (s1, Inr None)
            | (s1, Inr (Some bs')) \<Rightarrow> (case issue_committed_batch cfg bs' s1 of (s2, r) \<Rightarrow> (s2, map_sum id Some r))))"

fun bind_all :: "(raw_reading \<Rightarrow> aexn + bound) \<Rightarrow> raw_reading list \<Rightarrow> aexn + bound list" where
  "bind_all f [] = Inr []"
| "bind_all f (r # rs) =
     (case f r of Inl e \<Rightarrow> Inl e | Inr b \<Rightarrow> map_sum id (Cons b) (bind_all f rs))"

text \<open>A ticket is its number with the batch of its owner task.\<close>

type_synonym ticket = "nat \<times> bound list"

definition begin_committed :: "wr_cfg \<Rightarrow> raw_reading list \<Rightarrow> wr \<Rightarrow> wr \<times> (aexn + ticket)" where
  "begin_committed cfg rs s =
     (if \<not> wc_live cfg then (s, Inl (Exn ''RuntimeError''))
      else if wr_stopping s then (s, Inl (Exn ''RuntimeError''))
      else if COMMIT_SETTLEMENT_CAPACITY \<le> length (wr_retained s)
           then (s, Inl (Exn ''commit settlement capacity exhausted; admission refused''))
      else (case bind_all (wc_bind cfg) rs of
              Inl e \<Rightarrow> (s, Inl e)
            | Inr bs \<Rightarrow> (s\<lparr> wr_next := wr_next s + 1, wr_retained := wr_retained s @ [wr_next s] \<rparr>, Inr (wr_next s, bs))))"

definition release_committed :: "ticket \<Rightarrow> wr \<Rightarrow> wr \<times> (aexn + unit)" where
  "release_committed t s =
     (if fst t \<notin> set (wr_retained s) then (s, Inl (Exn ''RuntimeError''))
      else if fst t \<notin> set (wr_consumed s) then (s, Inl (Exn ''RuntimeError''))
      else (s\<lparr> wr_retained := removeAll (fst t) (wr_retained s) \<rparr>, Inr ()))"

definition entries_from_commit :: "receipt \<Rightarrow> wr \<Rightarrow> aexn + bound list" where
  "entries_from_commit r s = (if r \<in> set (wr_issued s) \<and> rc_entries r \<noteq> [] then Inr (rc_entries r) else Inl (Exn ''TypeError''))"

section \<open>What a write leaves behind\<close>

text \<open>A reading is stored when a row of it is committed. Nothing is ever taken back.\<close>

definition stored :: "raw_reading \<Rightarrow> wr \<Rightarrow> bool" where
  "stored r s = (\<exists>h. row_of r h \<in> set (wr_db s))"

definition db_grows :: "wr \<Rightarrow> wr \<Rightarrow> bool" where
  "db_grows s s' = (set (wr_db s) \<subseteq> set (wr_db s'))"

lemma db_grows_refl [simp, intro]: "db_grows s s"
  and db_grows_trans: "db_grows s s' \<Longrightarrow> db_grows s' s'' \<Longrightarrow> db_grows s s''"
  and stored_grows: "stored r s \<Longrightarrow> db_grows s s' \<Longrightarrow> stored r s'"
  by (auto simp: db_grows_def stored_def)

lemma signal_db [simp]: "wr_db (signal_persistence_failure cfg e s) = wr_db s"
  by (simp add: signal_persistence_failure_def)

lemma day_loop_db:
  "day_loop cfg rows errors end s = (s', r) \<Longrightarrow> wr_db s' = (if r = Inr True then wr_db s @ rows else wr_db s)"
  by (induction cfg rows errors "end" s rule: day_loop.induct)
    (auto simp: Let_def note_locked_def day_committed_def split: if_splits)

lemma build_rows_all:
  "build_rows cfg rs = Inr rows \<Longrightarrow> r \<in> set rs \<Longrightarrow> \<not> row_refused r \<Longrightarrow> \<exists>h. row_of r h \<in> set rows"
proof (induction rs arbitrary: rows)
  case (Cons x rs)
  show ?case
  proof (cases "row_refused x")
    case True
    thus ?thesis using Cons by auto
  next
    case False
    then obtain h rows' where rows: "rows = row_of x h # rows'" "build_rows cfg rs = Inr rows'"
      using Cons.prems(1) by (auto split: sum.splits option.splits simp: map_sum_def)
    thus ?thesis using Cons.IH [OF rows(2)] Cons.prems by auto
  qed
qed simp

lemma write_day_grows: "write_day_batch cfg io batch s = (s', r) \<Longrightarrow> db_grows s s'"
  by (auto simp: write_day_batch_def db_grows_def dest!: day_loop_db split: sum.splits if_splits)

lemma write_day_stored:
  assumes "write_day_batch cfg io batch s = (s', Inr True)" "r \<in> set batch" "\<not> row_refused r"
  shows "stored r s'"
proof -
  obtain rows where rows: "build_rows cfg batch = Inr rows" using assms(1) by (auto simp: write_day_batch_def split: sum.splits)
  from build_rows_all [OF rows assms(2,3)] obtain h where h: "row_of r h \<in> set rows" by blast
  hence "day_loop cfg rows (fst io) (snd io) s = (s', Inr True)" using assms(1) rows by (auto simp: write_day_batch_def split: if_splits)
  from day_loop_db [OF this] h show ?thesis by (auto simp: stored_def)
qed

lemma write_days_spec:
  assumes "write_days cfg io batch ds ok s = (s', r)"
  shows "db_grows s s' \<and> (r = Inr True \<longrightarrow> ok \<and> (\<forall>x\<in>set batch. day_of x \<in> set ds \<longrightarrow> \<not> row_refused x \<longrightarrow> stored x s'))"
  using assms
proof (induction ds arbitrary: ok s)
  case (Cons d ds)
  obtain s1 q where w: "write_day_batch cfg (io d) (filter (\<lambda>r. day_of r = d) batch) s = (s1, q)"
    by (cases "write_day_batch cfg (io d) (filter (\<lambda>r. day_of r = d) batch) s")
  note g = write_day_grows [OF w]
  show ?case
  proof (cases q)
    case (Inl e)
    thus ?thesis using Cons.prems w g by auto
  next
    case (Inr b)
    hence "write_days cfg io batch ds (ok \<and> b) s1 = (s', r)" using Cons.prems w by simp
    note IH = Cons.IH [OF this]
    have "stored x s1" if "b" "x \<in> set batch" "day_of x = d" "\<not> row_refused x" for x
      using write_day_stored [of cfg "io d" _ s s1 x] w that Inr by auto
    thus ?thesis using IH g db_grows_trans stored_grows by (metis set_ConsD)
  qed
qed auto

lemma write_live_days_spec:
  assumes "write_live_days cfg io batch ds s = (s', r)"
  shows "db_grows s s' \<and> (r = Inr True \<longrightarrow> (\<forall>x\<in>set batch. day_of x \<in> set ds \<longrightarrow> \<not> row_refused x \<longrightarrow> stored x s'))"
  using assms
proof (induction ds arbitrary: s)
  case (Cons d ds)
  obtain s1 q where w: "write_day_batch cfg (io d) (filter (\<lambda>r. day_of r = d) batch) s = (s1, q)"
    by (cases "write_day_batch cfg (io d) (filter (\<lambda>r. day_of r = d) batch) s")
  note g = write_day_grows [OF w]
  consider "q \<noteq> Inr True" "s' = s1" "r = q" | "q = Inr True" "write_live_days cfg io batch ds s1 = (s', r)"
    using Cons.prems w by (auto split: sum.splits bool.splits)
  thus ?case
  proof cases
    case 1
    thus ?thesis using g by auto
  next
    case 2
    have "stored x s1" if "x \<in> set batch" "day_of x = d" "\<not> row_refused x" for x
      using write_day_stored [of cfg "io d" _ s s1 x] w that 2 by auto
    thus ?thesis using Cons.IH [OF 2(2)] g db_grows_trans stored_grows by (metis set_ConsD)
  qed
qed simp

lemma days_of_all: "x \<in> set rs \<Longrightarrow> day_of x \<in> set (days_of rs)"
  by (simp add: days_of_def)

lemma write_batch_spec:
  assumes "write_batch cfg io batch s = (s', r)"
  shows "db_grows s s' \<and> (r = Inr True \<longrightarrow> (\<forall>x\<in>set batch. \<not> row_refused x \<longrightarrow> stored x s'))"
  using write_days_spec [OF assms [unfolded write_batch_def]] days_of_all by blast

lemma write_live_batch_spec:
  assumes "write_live_batch cfg io batch s = (s', r)"
  shows "db_grows s s' \<and> (\<forall>bs. r = Inr (Some bs) \<longrightarrow> bs = batch \<and> (\<forall>b\<in>set batch. stored (live_reading b) s'))"
proof -
  let ?rs = "map live_reading batch"
  obtain s1 q where w: "write_live_days cfg io ?rs (days_of ?rs) s = (s1, q)" by (cases "write_live_days cfg io ?rs (days_of ?rs) s")
  note spec = write_live_days_spec [OF w]
  have "stored (live_reading b) s1"
    if "q = Inr True" "b \<in> set batch" "\<not> list_ex (\<lambda>b. row_refused (bd_reading b)) batch" for b
  proof -
    have "\<not> row_refused (live_reading b)" using that(2,3) by (auto simp: list_ex_iff row_refused_def live_reading_def)
    thus ?thesis using spec that(1,2) days_of_all [of "live_reading b" ?rs] by auto
  qed
  moreover have "db_grows s s1" using spec by blast
  ultimately show ?thesis using assms w
    by (auto simp: write_live_batch_def Let_def split: if_splits sum.splits bool.splits)
qed

lemma commit_owner_spec:
  assumes "commit_owner cfg refused io batch s = (s', r)"
  shows "db_grows s s' \<and> (\<forall>rc. r = Inr (Some rc) \<longrightarrow> rc_entries rc = batch \<and> rc \<in> set (wr_issued s')
    \<and> (\<forall>b\<in>set batch. stored (live_reading b) s'))"
proof -
  obtain s1 q where w: "write_live_batch cfg io batch s = (s1, q)" by (cases "write_live_batch cfg io batch s")
  show ?thesis using assms w write_live_batch_spec [OF w]
    by (auto simp: commit_owner_def issue_committed_batch_def Let_def db_grows_def stored_def split: if_splits sum.splits option.splits)
qed

section \<open>A locked database\<close>

text \<open>The clock readings of consecutive locked attempts, the retry delay apart at least.\<close>

fun spaced :: "real \<Rightarrow> real \<Rightarrow> real list \<Rightarrow> bool" where
  "spaced d prev [] = True"
| "spaced d prev (x # xs) = (prev + d \<le> x \<and> spaced d x xs)"

lemma spaced_from: "spaced d prev xs \<Longrightarrow> i < length xs \<Longrightarrow> prev + d * real (i + 1) \<le> xs ! i"
proof (induction xs arbitrary: prev i)
  case (Cons x xs)
  thus ?case by (cases i) (fastforce simp: algebra_simps)+
qed simp

text \<open>Attempts that all found the database locked.\<close>

definition all_locked :: "op_error list \<Rightarrow> bool" where
  "all_locked es = list_all (\<lambda>(msg, _). mentions locked_phrases msg \<and> \<not> mentions disk_full_phrases msg) es"

lemma day_loop_locked:
  assumes "all_locked ((msg, now) # es)"
  shows "day_loop cfg rows ((msg, now) # es) end s =
    (let s1 = note_locked now s
     in if lock_sustained now s1
        then (signal_persistence_failure cfg (''database locked; batch not persisted: '' @ msg) s1, Inr False)
        else day_loop cfg rows es end s1)"
  using assms by (simp add: all_locked_def)

lemma day_loop_gives_up:
  assumes "all_locked es" "LOCKED_FAILURE_THRESHOLD \<le> wr_locked_count s + length es" "es \<noteq> []"
    and "0 < wr_locked_count s" "LOCKED_FAILURE_SPAN_S \<le> snd (last es) - wr_locked_first s"
  shows "snd (day_loop cfg rows es end s) = Inr False"
  using assms
proof (induction es arbitrary: s)
  case (Cons e es)
  obtain msg now where e: "e = (msg, now)" by (cases e)
  let ?s = "note_locked now s"
  note step = day_loop_locked [of msg now es, folded e, OF Cons.prems(1)]
  show ?case
  proof (cases "lock_sustained now ?s")
    case False
    hence ne: "es \<noteq> []" using Cons.prems by (auto simp: e lock_sustained_def note_locked_def)
    moreover have "snd (day_loop cfg rows es end ?s) = Inr False"
      by (rule Cons.IH) (use Cons.prems ne in \<open>auto simp: note_locked_def all_locked_def\<close>)
    ultimately show ?thesis using False by (simp add: step Let_def del: day_loop.simps)
  qed (simp add: step Let_def del: day_loop.simps)
qed simp

lemma day_loop_prefix:
  assumes "all_locked (xs @ ys)" "\<And>end. snd (day_loop cfg rows xs end s) = Inr False"
  shows "day_loop cfg rows (xs @ ys) end s = day_loop cfg rows xs end' s"
  using assms
proof (induction xs arbitrary: s)
  case Nil
  from Nil(2) [of Commits] show ?case by simp
next
  case (Cons e xs)
  obtain msg now where e: "e = (msg, now)" by (cases e)
  have l: "all_locked ((msg, now) # xs)" "all_locked ((msg, now) # xs @ ys)" "all_locked (xs @ ys)"
    using Cons.prems(1) by (simp_all add: e all_locked_def)
  show ?case
  proof (cases "lock_sustained now (note_locked now s)")
    case True
    thus ?thesis by (simp add: e day_loop_locked l Let_def del: day_loop.simps)
  next
    case False
    have "snd (day_loop cfg rows xs end (note_locked now s)) = Inr False" for "end"
      using Cons.prems(2) [of "end"] False by (simp add: e day_loop_locked l Let_def del: day_loop.simps)
    from Cons.IH [OF l(3) this] show ?thesis using False by (simp add: e day_loop_locked l Let_def del: day_loop.simps)
  qed
qed

text \<open>
  A locked database is retried, but not for ever. If the attempts are at least the retry delay of 0.1 s
  apart, the writer gives up by its 152nd locked attempt (15 s and three failures): whatever would have
  come after them is never tried, the batch is reported as not persisted, and no row of it is committed.
\<close>

theorem lock_retry_bounded:
  assumes "all_locked errors" "spaced (1/10) t0 (map snd errors)" "0 < wr_locked_count s \<longrightarrow> wr_locked_first s \<le> t0"
    and "152 \<le> length errors"
  shows "day_loop cfg rows errors end s = day_loop cfg rows (take 152 errors) end' s
    \<and> snd (day_loop cfg rows errors end s) = Inr False
    \<and> wr_db (fst (day_loop cfg rows errors end s)) = wr_db s"
proof -
  obtain msg x xs where l: "errors = (msg, x) # xs" and len: "151 \<le> length xs" using assms(4) by (cases errors) auto
  have x: "t0 + 1/10 \<le> x" and sp: "spaced (1/10) x (map snd xs)" using assms(2) by (simp_all add: l)
  have t: "take 152 errors = (msg, x) # take 151 xs" by (simp add: l)
  have "set (take 152 errors) \<subseteq> set errors" by (rule set_take_subset)
  hence lock: "all_locked ((msg, x) # take 151 xs)" unfolding t [symmetric] using assms(1) by (auto simp: all_locked_def list_all_iff)
  let ?s = "note_locked x s"
  have first: "wr_locked_first ?s \<le> x" using assms(3) x by (auto simp: note_locked_def)
  have "x + 1/10 * real (150 + 1) \<le> map snd xs ! 150" by (rule spaced_from [OF sp]) (use len in simp)
  moreover have "snd (last (take 151 xs)) = map snd xs ! 150" using len by (subst last_conv_nth) (auto simp: min_def)
  ultimately have span: "LOCKED_FAILURE_SPAN_S \<le> snd (last (take 151 xs)) - wr_locked_first ?s"
    using first by (simp add: LOCKED_FAILURE_SPAN_S_def)
  have up: "snd (day_loop cfg rows (take 152 errors) e s) = Inr False" for e
  proof (cases "lock_sustained x ?s")
    case False
    have "snd (day_loop cfg rows (take 151 xs) e ?s) = Inr False"
      by (rule day_loop_gives_up)
        (use lock len span in \<open>auto simp: LOCKED_FAILURE_THRESHOLD_def note_locked_def all_locked_def\<close>)
    thus ?thesis using False by (simp add: t day_loop_locked [OF lock] Let_def del: day_loop.simps)
  qed (simp add: t day_loop_locked [OF lock] Let_def del: day_loop.simps)
  have eq: "day_loop cfg rows errors end s = day_loop cfg rows (take 152 errors) end' s"
    using day_loop_prefix [of "take 152 errors" "drop 152 errors" cfg rows s "end" end', OF _ up] assms(1)
    by simp
  have f: "snd (day_loop cfg rows errors end s) = Inr False" using up unfolding eq .
  moreover have "wr_db (fst (day_loop cfg rows errors end s)) = wr_db s"
    using day_loop_db [of cfg rows errors "end" s "fst (day_loop cfg rows errors end s)" "Inr False"] f
    by (metis prod.collapse sum.inject(2))
  ultimately show ?thesis using eq by blast
qed

theorem lock_retry_bounded_witness:
  "snd (day_loop \<lparr> wc_live = True, wc_bind = (\<lambda>r. Inl Cancelled), wc_hash = None, wc_callback = True \<rparr> []
     (map (\<lambda>i. (''database is locked'', real i)) [1..<300]) Commits wr_init) = Inr False"
proof -
  have sp: "spaced (1/10) (real k) (map real [Suc k..<n])" for k n
  proof (induction "n - k" arbitrary: k)
    case (Suc m)
    show ?case
    proof (cases "Suc k < n")
      case True
      hence "[Suc k..<n] = Suc k # [Suc (Suc k)..<n]" by (simp add: upt_conv_Cons)
      moreover have "spaced (1/10) (real (Suc k)) (map real [Suc (Suc k)..<n])" using Suc.hyps(1) [of "Suc k"] Suc.hyps(2) by auto
      ultimately show ?thesis by simp
    qed simp
  qed simp
  have m: "mentions locked_phrases ''database is locked'' \<and> \<not> mentions disk_full_phrases ''database is locked''" by code_simp
  have l: "all_locked (map (\<lambda>i. (''database is locked'', real i)) [1..<300])"
    using m by (auto simp: all_locked_def list_all_iff)
  have s: "spaced (1/10) 0 (map snd (map (\<lambda>i. (''database is locked'', real i)) [1..<300]))"
    using sp [of 0 300] by (simp add: o_def)
  show ?thesis using lock_retry_bounded [OF l s, of wr_init] by (simp add: wr_init_def)
qed

end
