(* ===== verification/SchedState.thy ===== *)
theory SchedState
  imports Throttle CalAcquire SqliteWrites SourceOff Coroutines
begin

text \<open>
  The state of the scheduler (\<^verbatim>\<open>src/cryodaq/core/scheduler.py\<close>) and its interface. Its operations are
  coroutines: they await drivers, the writer's thread, the two brokers, the safety manager's callbacks,
  child tasks and sleeps, and other tasks may change the shared state at every await. Objects that several
  tasks share have addresses: a child task and a connect attempt are numbers, looked up in \<open>aq_tasks\<close> and
  \<open>aq_attempts\<close>. A created task is pending until the event loop, an interference, sets its result; what it
  was created to run is remembered in \<open>aq_spawned\<close>. \<open>aq_log\<close> is a ghost: the synchronous calls that were made.
\<close>

section \<open>State\<close>

datatype tres = ResNone | ResBool bool | ResReadings "raw_reading list"
datatype child_task = Pending | Finished "aexn + tres"

text \<open>\<open>_ReviewedConnectAttempt\<close>.\<close>

record rattempt =
  ra_generation :: "nat option"
  ra_owner_task :: "nat option"
  ra_abandon_requested :: bool
  ra_generation_issued :: bool
  ra_driver_io_started :: bool
  ra_connected_committed :: bool
  ra_off_evidence :: "off_evidence option"
  ra_settled_safe :: bool
  ra_operation_error :: "aexn option"
  ra_failure :: "aexn option"
  ra_abandon_event :: bool
  ra_revocation_observed :: bool
  ra_driver_task :: "nat option"
  ra_cleanup_retry_task :: "nat option"

definition fresh_attempt :: rattempt where
  "fresh_attempt =
     \<lparr> ra_generation = None, ra_owner_task = None, ra_abandon_requested = False, ra_generation_issued = False,
       ra_driver_io_started = False, ra_connected_committed = False, ra_off_evidence = None, ra_settled_safe = False,
       ra_operation_error = None, ra_failure = None, ra_abandon_event = False, ra_revocation_observed = False,
       ra_driver_task = None, ra_cleanup_retry_task = None \<rparr>"

text \<open>\<open>_InstrumentState\<close> without its configuration.\<close>

record inst =
  is_task :: "nat option"
  is_consecutive_errors :: nat
  is_total_reads :: nat
  is_total_errors :: nat
  is_backoff_s :: real
  is_generation :: "nat option"
  is_settlement_task :: "nat option"
  is_attempt :: "nat option"
  is_disconnect_task :: "nat option"
  is_disconnect_required :: bool
  is_disconnect_revision :: nat
  is_disconnect_task_revision :: "nat option"

definition INITIAL_BACKOFF_S :: real where "INITIAL_BACKOFF_S = 1"

definition fresh_inst :: inst where
  "fresh_inst =
     \<lparr> is_task = None, is_consecutive_errors = 0, is_total_reads = 0, is_total_errors = 0, is_backoff_s = INITIAL_BACKOFF_S,
       is_generation = None, is_settlement_task = None, is_attempt = None, is_disconnect_task = None,
       is_disconnect_required = False, is_disconnect_revision = 0, is_disconnect_task_revision = None \<rparr>"

datatype acq_event =
    CommitObserved receipt
  | RejectionObserved nat string
  | AmbiguityObserved
  | Recovered string
  | Abandoned string nat

text \<open>What a child task was created to run.\<close>

datatype spawn =
    DisconnectExact string nat
  | OwnConnect string nat
  | CleanupRetry string nat
  | DriverConnectTask string
  | AbandonWait nat
  | AbortConnectTask string
  | BusOperation string string
  | BusCancel string nat
  | PollTask string
  | BusPollTask string

record acq =
  aq_writer :: wr
  aq_throttle :: throttle
  aq_cal :: cal
  aq_inst :: "string \<Rightarrow> inst"
  aq_missing_reported :: bool
  aq_running :: bool
  aq_connected :: "string \<Rightarrow> bool"
  aq_tasks :: "nat \<Rightarrow> child_task"
  aq_next_task :: nat
  aq_spawned :: "(nat \<times> spawn) list"
  aq_cancel_requests :: "nat list"
  aq_attempts :: "nat \<Rightarrow> rattempt"
  aq_next_attempt :: nat
  aq_ticks :: nat
  aq_terminal_bus :: "string list"
  aq_unsettled_bus :: "string \<Rightarrow> nat option"
  aq_shared_tasks :: "(string \<times> nat) list"
  aq_log :: "acq_event list"

section \<open>Configuration\<close>

text \<open>What the synchronous abandonment callback does.\<close>

datatype abandon_result = ReturnsNone | ReturnsOther | RaisesExn string

text \<open>
  A driver with its \<open>InstrumentConfig\<close> and its runtime binding. \<open>dr_reviewed\<close>: the binding names a reviewed
  source; \<open>dr_sealed\<close>: that binding is issued by the registry, for this very driver. Bus descriptor and
  coordinator are identities. \<open>dr_async_read\<close>: \<open>safe_read\<close> is a coroutine function.
\<close>

datatype recovery_level = DEVICE_CLEAR | INTERFACE_CLEAR | REOPEN_BUS

record bus_descriptor =
  bu_bus_id :: string
  bu_levels :: "recovery_level set"
  bu_recovery_timeout_s :: real

record poll_device =
  dr_name :: string
  dr_has_srdg :: bool
  dr_failure_readings :: "raw_reading list"
  dr_enabled :: bool
  dr_poll_interval_s :: real
  dr_read_timeout_s :: real
  dr_connect_timeout_s :: real
  dr_reviewed :: bool
  dr_sealed :: bool
  dr_descriptor :: "bus_descriptor option"
  dr_coordinator :: "nat option"
  dr_participant :: bool
  dr_lifecycle :: bool
  dr_async_read :: bool
  dr_async_recover :: bool

text \<open>
  The constructor's arguments. An observer is a callable that returns normally or raises; the scheduler
  only sees which. Handlers that are awaited are requests; for them there is only whether they are wired.
  The \<open>n\<close>-th reading of the loop's clock is \<open>ac_clock n\<close>.
\<close>

record acq_cfg =
  ac_writer :: "wr_cfg option"
  ac_publish_unpersisted :: bool
  ac_throttle :: "throttle_cfg option"
  ac_calibration :: bool
  ac_safety_broker :: bool
  ac_commit_observer :: "(receipt \<Rightarrow> bool) option"
  ac_rejection_observer :: "(nat \<Rightarrow> string \<Rightarrow> bool) option"
  ac_ambiguity_observer :: bool
  ac_failed_handler :: bool
  ac_recovery_handler :: "(string \<Rightarrow> bool) option"
  ac_connect_begin :: bool
  ac_connect_complete :: bool
  ac_uncertain :: bool
  ac_abandon :: "(string \<Rightarrow> nat \<Rightarrow> abandon_result) option"
  ac_disconnect :: bool
  ac_drain_timeout_s :: real
  ac_clock :: "nat \<Rightarrow> real"

section \<open>Requests\<close>

datatype acq_req =
    ReadSrdg string
  | CommitWait nat
  | WriteImmediate "raw_reading list"
  | PublishData "raw_reading list" bool "string list option"
  | PublishSafety "raw_reading list"
  | FailedPoll string string
  | DriverConnect string real
  | DriverRead string real
  | DriverDisconnect string real
  | SleepFor real
  | WaitTask nat "real option"
  | WaitTasks "nat list" real
  | WaitFirst nat nat
  | ConnectBegin string
  | ConnectComplete string nat
  | ConnectUncertain string nat
  | ReviewedDisconnect string "nat option"
  | MarkDisconnected string
  | AbortConnect string real

datatype acq_ans =
    Threw aexn
  | Replied
  | Readings "raw_reading list"
  | OwnerCancelled
  | Ran bool "int \<Rightarrow> day_io"
  | Flag bool
  | Generation nat
  | Evidence off_evidence

type_synonym 'a acq_co = "(acq, acq_req, acq_ans, aexn, 'a) co"

definition upd_inst :: "string \<Rightarrow> (inst \<Rightarrow> inst) \<Rightarrow> acq \<Rightarrow> acq" where
  "upd_inst name f s = s\<lparr> aq_inst := (aq_inst s)(name := f (aq_inst s name)) \<rparr>"

definition upd_attempt :: "nat \<Rightarrow> (rattempt \<Rightarrow> rattempt) \<Rightarrow> acq \<Rightarrow> acq" where
  "upd_attempt a f s = s\<lparr> aq_attempts := (aq_attempts s)(a := f (aq_attempts s a)) \<rparr>"

definition count_success :: "inst \<Rightarrow> inst" where
  "count_success i = i\<lparr> is_total_reads := is_total_reads i + 1, is_consecutive_errors := 0, is_backoff_s := INITIAL_BACKOFF_S \<rparr>"

definition count_error :: "inst \<Rightarrow> inst" where
  "count_error i = i\<lparr> is_consecutive_errors := is_consecutive_errors i + 1, is_total_errors := is_total_errors i + 1 \<rparr>"

definition log_event :: "acq_event \<Rightarrow> acq \<Rightarrow> acq" where
  "log_event e s = s\<lparr> aq_log := aq_log s @ [e] \<rparr>"

section \<open>Awaits\<close>

text \<open>An await whose result is not used, an await of readings, of a truth value, of other results.\<close>

definition aw_done :: "acq_req \<Rightarrow> unit acq_co" where
  "aw_done q = Await q (\<lambda>a. case a of Threw e \<Rightarrow> Raise e | _ \<Rightarrow> Ret ())"

definition aw_readings :: "acq_req \<Rightarrow> raw_reading list acq_co" where
  "aw_readings q = Await q (\<lambda>a. case a of Threw e \<Rightarrow> Raise e | Readings rs \<Rightarrow> Ret rs | _ \<Rightarrow> Raise (Exn ''TypeError''))"

definition aw_flag :: "acq_req \<Rightarrow> bool acq_co" where
  "aw_flag q = Await q (\<lambda>a. case a of Threw e \<Rightarrow> Raise e | Flag b \<Rightarrow> Ret b | _ \<Rightarrow> Ret False)"

definition aw_generation :: "acq_req \<Rightarrow> nat acq_co" where
  "aw_generation q = Await q (\<lambda>a. case a of Threw e \<Rightarrow> Raise e | Generation g \<Rightarrow> Ret g | _ \<Rightarrow> Raise (Exn ''TypeError''))"

text \<open>The answer of the completion callback, which the caller checks for its exact type.\<close>

definition aw_evidence :: "acq_req \<Rightarrow> off_evidence option acq_co" where
  "aw_evidence q = Await q (\<lambda>a. case a of Threw e \<Rightarrow> Raise e | Evidence x \<Rightarrow> Ret (Some x) | _ \<Rightarrow> Ret None)"

text \<open>\<open>loop.time()\<close>.\<close>

definition read_clock :: "acq_cfg \<Rightarrow> real acq_co" where
  "read_clock cfg = Get (\<lambda>s. Put (s\<lparr> aq_ticks := aq_ticks s + 1 \<rparr>) (Ret (ac_clock cfg (aq_ticks s))))"

text \<open>\<open>asyncio.create_task\<close>, \<open>task.done()\<close>, \<open>task.result()\<close> and \<open>task.cancel()\<close>.\<close>

definition create_task :: "spawn \<Rightarrow> nat acq_co" where
  "create_task b =
     Get (\<lambda>s. let n = aq_next_task s
              in Put (s\<lparr> aq_next_task := n + 1, aq_tasks := (aq_tasks s)(n := Pending), aq_spawned := aq_spawned s @ [(n, b)] \<rparr>) (Ret n))"

definition task_done :: "nat \<Rightarrow> acq \<Rightarrow> bool" where
  "task_done t s = (aq_tasks s t \<noteq> Pending)"

definition task_result :: "nat \<Rightarrow> tres acq_co" where
  "task_result t =
     Get (\<lambda>s. case aq_tasks s t of
                Pending \<Rightarrow> Raise (Exn ''InvalidStateError'')
              | Finished (Inl e) \<Rightarrow> Raise e
              | Finished (Inr v) \<Rightarrow> Ret v)"

definition request_cancel :: "nat \<Rightarrow> acq \<Rightarrow> acq" where
  "request_cancel t s = s\<lparr> aq_cancel_requests := aq_cancel_requests s @ [t] \<rparr>"

text \<open>A synchronous operation of the writer.\<close>

definition on_writer :: "(wr \<Rightarrow> wr \<times> (aexn + 'a)) \<Rightarrow> 'a acq_co" where
  "on_writer f = Get (\<lambda>s. case f (aq_writer s) of (w, r) \<Rightarrow> Put (s\<lparr> aq_writer := w \<rparr>) (co_result r))"

end
