(* ===== verification/Acquire.thy ===== *)
theory Acquire
  imports SchedState
begin

text \<open>
  The acquisition pipeline: \<open>Scheduler._process_readings\<close>, \<open>_publish_failed_poll_readings\<close> and the
  observers of \<^verbatim>\<open>src/cryodaq/core/scheduler.py\<close>, with the writer of \<open>SqliteWrites\<close>, the throttle and the
  calibration service. The writer is \<open>SQLiteWriter\<close>, so the fallbacks for writers without \<open>begin_committed\<close>
  are not there. The work of the writer's thread is accounted where the waiting coroutine resumes.
\<close>

section \<open>Observers\<close>

definition observe_ambiguity :: "acq_cfg \<Rightarrow> acq \<Rightarrow> acq" where
  "observe_ambiguity cfg s = (if ac_ambiguity_observer cfg then log_event AmbiguityObserved s else s)"

definition observe_commit :: "acq_cfg \<Rightarrow> receipt \<Rightarrow> acq \<Rightarrow> acq" where
  "observe_commit cfg rc s =
     (case ac_commit_observer cfg of
        None \<Rightarrow> s
      | Some f \<Rightarrow> (let s1 = log_event (CommitObserved rc) s in if f rc then s1 else observe_ambiguity cfg s1))"

definition observe_rejection :: "acq_cfg \<Rightarrow> nat \<Rightarrow> string \<Rightarrow> acq \<Rightarrow> acq" where
  "observe_rejection cfg n reason s =
     (case ac_rejection_observer cfg of
        None \<Rightarrow> s
      | Some f \<Rightarrow> (let s1 = log_event (RejectionObserved n reason) s in if f n reason then s1 else observe_ambiguity cfg s1))"

section \<open>Waiting for a commit\<close>

definition consume :: "nat \<Rightarrow> wr \<Rightarrow> wr" where
  "consume n w = w\<lparr> wr_consumed := n # wr_consumed w \<rparr>"

definition upd_writer :: "(wr \<Rightarrow> wr) \<Rightarrow> acq \<Rightarrow> acq" where
  "upd_writer f s = s\<lparr> aq_writer := f (aq_writer s) \<rparr>"

text \<open>\<open>CommittedBatchSettlement.wait\<close>: a cancelled wait consumes nothing, a finished owner is consumed.\<close>

definition settlement_wait :: "wr_cfg \<Rightarrow> ticket \<Rightarrow> receipt option acq_co" where
  "settlement_wait wc t =
     Await (CommitWait (fst t)) (\<lambda>a. case a of
         Threw e \<Rightarrow> Raise e
       | OwnerCancelled \<Rightarrow> co_then (co_modify (upd_writer (consume (fst t)))) (Raise Cancelled)
       | Ran refused io \<Rightarrow>
           co_finally (on_writer (commit_owner wc refused io (snd t))) (co_modify (upd_writer (consume (fst t))))
       | _ \<Rightarrow> Raise (Exn ''TypeError''))"

definition discard_consumed :: "nat \<Rightarrow> wr \<Rightarrow> wr" where
  "discard_consumed n w = (if n \<in> set (wr_consumed w) then w\<lparr> wr_retained := removeAll n (wr_retained w) \<rparr> else w)"

definition settle_committed :: "wr_cfg \<Rightarrow> ticket \<Rightarrow> receipt option acq_co" where
  "settle_committed wc t =
     Get (\<lambda>s. if fst t \<notin> set (wr_retained (aq_writer s)) then Raise (Exn ''RuntimeError'')
              else co_finally (settlement_wait wc t) (co_modify (upd_writer (discard_consumed (fst t)))))"

text \<open>The cancellation branch: the admitted operation is settled, and the cancellation goes on.\<close>

definition settle_after_cancel :: "acq_cfg \<Rightarrow> wr_cfg \<Rightarrow> ticket \<Rightarrow> receipt option acq_co" where
  "settle_after_cancel cfg wc t =
     co_then
       (co_try
         (co_bind (settle_committed wc t) (\<lambda>r. case r of
             Some rc \<Rightarrow> co_modify (observe_commit cfg rc)
           | None \<Rightarrow> co_modify (observe_ambiguity cfg)))
         (\<lambda>e. co_modify (observe_ambiguity cfg)))
       (Raise Cancelled)"

definition await_receipt :: "acq_cfg \<Rightarrow> wr_cfg \<Rightarrow> raw_reading list \<Rightarrow> receipt option acq_co" where
  "await_receipt cfg wc combined =
     co_bind (co_attempt (on_writer (begin_committed wc combined))) (\<lambda>b. case b of
         Inl e \<Rightarrow> co_then (co_modify (observe_ambiguity cfg)) (Raise e)
       | Inr t \<Rightarrow>
           co_try
             (co_bind (settlement_wait wc t) (\<lambda>receipt. co_then (on_writer (release_committed t)) (Ret receipt)))
             (\<lambda>e. if e = Cancelled then settle_after_cancel cfg wc t
                  else co_then (co_modify (observe_ambiguity cfg)) (Raise e)))"

section \<open>Checking a receipt\<close>

definition same_number :: "pyfloat option \<Rightarrow> pyfloat option \<Rightarrow> bool" where
  "same_number left right =
     (case (left, right) of
        (None, None) \<Rightarrow> True
      | (Some a, Some b) \<Rightarrow> fl_eq a b \<or> fl_isnan a \<and> fl_isnan b
      | _ \<Rightarrow> False)"

text \<open>Equality of dictionaries does not look at their order.\<close>

definition dict_same :: "pyval dict \<Rightarrow> pyval dict \<Rightarrow> bool" where
  "dict_same a b =
     (list_all (\<lambda>(k, v). dict_get b k = dict_get a k) a \<and> list_all (\<lambda>(k, v). dict_get a k = dict_get b k) b)"

definition receipt_reading_matches :: "raw_reading \<Rightarrow> raw_reading \<Rightarrow> bool" where
  "receipt_reading_matches committed admitted =
     (let restored = committed\<lparr> r_channel := r_channel admitted \<rparr>
      in r_timestamp restored = r_timestamp admitted
         \<and> r_instrument_id restored = r_instrument_id admitted
         \<and> r_channel restored = r_channel admitted
         \<and> same_number (Some (r_value restored)) (Some (r_value admitted))
         \<and> r_unit restored = r_unit admitted
         \<and> r_status restored = r_status admitted
         \<and> same_number (r_raw restored) (r_raw admitted)
         \<and> dict_same (r_metadata restored) (r_metadata admitted))"

section \<open>Persisting\<close>

text \<open>What may be published: the readings, their envelopes, and whether the batch was persisted.\<close>

type_synonym committed = "raw_reading list \<times> string list option \<times> bool"

text \<open>\<open>None\<close> is \<open>return False\<close>.\<close>

definition commit_batch :: "acq_cfg \<Rightarrow> wr_cfg \<Rightarrow> nat \<Rightarrow> raw_reading list \<Rightarrow> committed option acq_co" where
  "commit_batch cfg wc n combined =
     co_bind (await_receipt cfg wc combined) (\<lambda>receipt. case receipt of
         None \<Rightarrow> co_then (co_modify (observe_rejection cfg (length combined) ''descriptor_commit_refused'')) (Ret None)
       | Some rc \<Rightarrow>
           co_bind (on_writer (\<lambda>w. (w, entries_from_commit rc w))) (\<lambda>entries.
             if length entries \<noteq> length combined
             then co_then (co_modify (observe_ambiguity cfg)) (Raise (Exn ''RuntimeError''))
             else if \<not> list_all2 (\<lambda>admitted entry. receipt_reading_matches (bd_reading entry) admitted) combined entries
             then co_then (co_modify (observe_ambiguity cfg)) (Raise (Exn ''RuntimeError''))
             else co_then (co_modify (observe_commit cfg rc))
                    (Ret (Some (take n (map bd_reading entries), Some (take n (map bd_envelope entries)), True)))))"

definition write_immediate :: "wr_cfg \<Rightarrow> raw_reading list \<Rightarrow> bool acq_co" where
  "write_immediate wc rs =
     (if wc_live wc then Raise (Exn ''RuntimeError'')
      else Await (WriteImmediate rs) (\<lambda>a. case a of
             Threw e \<Rightarrow> Raise e
           | OwnerCancelled \<Rightarrow> Raise Cancelled
           | Ran refused io \<Rightarrow> if refused then Raise (Exn ''RuntimeError'') else on_writer (write_batch wc io rs)
           | _ \<Rightarrow> Raise (Exn ''TypeError'')))"

text \<open>The \<open>try\<close> block of step 1b, and the checks after it. \<open>n\<close> is the number of selected readings.\<close>

definition persist :: "acq_cfg \<Rightarrow> wr_cfg \<Rightarrow> string \<Rightarrow> raw_reading list \<Rightarrow> raw_reading list \<Rightarrow> committed option acq_co" where
  "persist cfg wc name selected combined =
     co_bind
       (co_try
         (if wc_live wc then commit_batch cfg wc (length selected) combined
          else co_bind (write_immediate wc combined) (\<lambda>b. Ret (Some (selected, None, b))))
         (\<lambda>e. if e = Cancelled then Raise e else co_then (co_modify (upd_inst name count_error)) (Ret None)))
       (\<lambda>r. case r of
          None \<Rightarrow> Ret None
        | Some (pub, envs, persisted) \<Rightarrow>
            Get (\<lambda>s. if wr_disk_full (aq_writer s) then Ret None
                     else if \<not> persisted then Ret None
                     else Ret (Some (pub, envs, True))))"

section \<open>A poll\<close>

text \<open>Steps 1a: the raw sensor readings, with the range they would widen.\<close>

definition read_srdg :: "acq_cfg \<Rightarrow> poll_device \<Rightarrow> raw_reading list \<Rightarrow> (raw_reading list \<times> pending option) acq_co" where
  "read_srdg cfg d rs =
     Get (\<lambda>s. if ac_calibration cfg \<and> cal_active (aq_cal s) \<and> dr_has_srdg d
              then co_try
                     (co_bind (aw_readings (ReadSrdg (dr_name d))) (\<lambda>srdg.
                        co_gets (\<lambda>s. prepare_srdg_readings rs srdg (aq_cal s))))
                     (\<lambda>e. if e = Cancelled then Raise e else Ret ([], None))
              else Ret ([], None))"

definition select_readings :: "acq_cfg \<Rightarrow> raw_reading list \<Rightarrow> raw_reading list acq_co" where
  "select_readings cfg rs =
     (case ac_throttle cfg of
        None \<Rightarrow> Ret rs
      | Some tc \<Rightarrow> Get (\<lambda>s. case filter_for_archive tc rs (aq_throttle s) of
                            (t, out) \<Rightarrow> Put (s\<lparr> aq_throttle := t \<rparr>) (Ret out)))"

definition count_srdg :: "raw_reading list \<Rightarrow> pending option \<Rightarrow> acq \<Rightarrow> acq" where
  "count_srdg srdg p s = (if srdg = [] then s else s\<lparr> aq_cal := on_srdg_persisted (length srdg) p (aq_cal s) \<rparr>)"

definition note_recovered :: "acq_cfg \<Rightarrow> string \<Rightarrow> unit acq_co" where
  "note_recovered cfg name =
     (case ac_recovery_handler cfg of
        None \<Rightarrow> Ret ()
      | Some f \<Rightarrow> co_then (co_modify (log_event (Recovered name))) (if f name then Ret () else Raise (Exn ''Exception'')))"

text \<open>Step 2.\<close>

definition publish :: "acq_cfg \<Rightarrow> string \<Rightarrow> raw_reading list \<Rightarrow> committed \<Rightarrow> bool acq_co" where
  "publish cfg name rs c =
     (case c of (pub, envs, authoritative) \<Rightarrow>
        co_then (co_when (pub \<noteq> []) (aw_done (PublishData pub authoritative envs)))
       (co_then (co_when (ac_safety_broker cfg) (aw_done (PublishSafety rs)))
       (co_then (co_when (pub \<noteq> [] \<and> authoritative) (note_recovered cfg name))
          (Ret (pub \<noteq> [])))))"

definition process_selected :: "acq_cfg \<Rightarrow> poll_device \<Rightarrow> raw_reading list \<Rightarrow> raw_reading list \<Rightarrow> bool acq_co" where
  "process_selected cfg d rs selected =
     co_bind (read_srdg cfg d rs) (\<lambda>(srdg, p).
     co_bind
       (case ac_writer cfg of
          Some wc \<Rightarrow> if selected @ srdg = [] then Ret (Some (selected, None, False))
                     else persist cfg wc (dr_name d) selected (selected @ srdg)
        | None \<Rightarrow> Ret (Some (selected, None, False))) (\<lambda>r. case r of
        None \<Rightarrow> Ret False
      | Some c \<Rightarrow> co_then (co_modify (count_srdg srdg p)) (publish cfg (dr_name d) rs c)))"

definition process_readings :: "acq_cfg \<Rightarrow> poll_device \<Rightarrow> bool \<Rightarrow> raw_reading list \<Rightarrow> bool acq_co" where
  "process_readings cfg d successful rs =
     Get (\<lambda>s. if ac_writer cfg \<noteq> None \<and> wr_disk_full (aq_writer s) then Ret False
              else co_bind (select_readings cfg rs) (\<lambda>selected.
                co_then (co_when successful (co_modify (upd_inst (dr_name d) count_success)))
                (if ac_writer cfg = None \<and> \<not> ac_publish_unpersisted cfg
                 then co_then (co_modify (\<lambda>s. s\<lparr> aq_missing_reported := True \<rparr>)) (Ret False)
                 else process_selected cfg d rs selected)))"

section \<open>Failed polls\<close>

definition report_failed_poll :: "acq_cfg \<Rightarrow> string \<Rightarrow> string \<Rightarrow> unit acq_co" where
  "report_failed_poll cfg name reason =
     (if ac_failed_handler cfg then aw_done (FailedPoll name reason) else Ret ())"

definition publish_failed_poll :: "acq_cfg \<Rightarrow> poll_device \<Rightarrow> unit acq_co" where
  "publish_failed_poll cfg d =
     (if dr_failure_readings d = [] then Ret ()
      else co_bind (co_attempt (process_readings cfg d False (dr_failure_readings d))) (\<lambda>r. case r of
        Inl e \<Rightarrow>
          if e = Cancelled then Raise e
          else co_then (report_failed_poll cfg (dr_name d) ''failed-poll pipeline raised'') (Raise e)
      | Inr delivered \<Rightarrow>
          co_when (\<not> delivered)
            (report_failed_poll cfg (dr_name d)
               ''failed-poll samples could not obtain persistence-backed publication authority'')))"

end
