(* ===== verification/Reviewed.thy ===== *)
theory Reviewed
  imports Acquire
begin

text \<open>
  The lifecycle of a reviewed source in \<^verbatim>\<open>src/cryodaq/core/scheduler.py\<close>: how the scheduler connects one,
  revokes its generation when something about it is uncertain, and disconnects it, with the child tasks that
  own this work and outlive the caller. \<open>own_reviewed_connect\<close>, \<open>disconnect_reviewed_exact\<close> and
  \<open>settle_failed_attempt\<close> are what the tasks \<open>OwnConnect\<close>, \<open>DisconnectExact\<close> and \<open>CleanupRetry\<close> run.
\<close>

section \<open>The instrument\<close>

definition me :: "poll_device \<Rightarrow> acq \<Rightarrow> inst" where
  "me d s = aq_inst s (dr_name d)"

definition upd :: "poll_device \<Rightarrow> (inst \<Rightarrow> inst) \<Rightarrow> acq \<Rightarrow> acq" where
  "upd d f = upd_inst (dr_name d) f"

definition connected :: "poll_device \<Rightarrow> acq \<Rightarrow> bool" where
  "connected d s = aq_connected s (dr_name d)"

text \<open>\<open>_reviewed_binding\<close> is not \<open>None\<close>.\<close>

definition reviewed_binding :: "poll_device \<Rightarrow> bool" where
  "reviewed_binding d = (dr_reviewed d \<and> dr_sealed d)"

abbreviation SETTLEMENT_INCOMPLETE :: aexn where
  "SETTLEMENT_INCOMPLETE \<equiv> Exn ''ReviewedSourceSettlementIncomplete''"

abbreviation CONNECT_ABANDONED :: aexn where
  "CONNECT_ABANDONED \<equiv> Exn ''_ReviewedConnectAbandoned''"

definition set_generation :: "nat option \<Rightarrow> poll_device \<Rightarrow> acq \<Rightarrow> acq" where
  "set_generation g d = upd d (\<lambda>i. i\<lparr> is_generation := g \<rparr>)"

definition set_required :: "bool \<Rightarrow> poll_device \<Rightarrow> acq \<Rightarrow> acq" where
  "set_required b d = upd d (\<lambda>i. i\<lparr> is_disconnect_required := b \<rparr>)"

definition set_disconnect_task :: "nat option \<Rightarrow> nat option \<Rightarrow> poll_device \<Rightarrow> acq \<Rightarrow> acq" where
  "set_disconnect_task t r d = upd d (\<lambda>i. i\<lparr> is_disconnect_task := t, is_disconnect_task_revision := r \<rparr>)"

definition invalidate_receipt :: "poll_device \<Rightarrow> acq \<Rightarrow> acq" where
  "invalidate_receipt d =
     upd d (\<lambda>i. i\<lparr> is_disconnect_revision := is_disconnect_revision i + 1, is_disconnect_required := True \<rparr>)"

section \<open>Uncertainty and disconnection\<close>

definition mark_reviewed_uncertain :: "acq_cfg \<Rightarrow> poll_device \<Rightarrow> nat option \<Rightarrow> unit acq_co" where
  "mark_reviewed_uncertain cfg d generation =
     (if \<not> reviewed_binding d then Raise (Exn ''RuntimeError'')
      else Get (\<lambda>s. case (case generation of None \<Rightarrow> is_generation (me d s) | Some g \<Rightarrow> Some g) of
          None \<Rightarrow> Ret ()
        | Some g \<Rightarrow>
            if \<not> ac_uncertain cfg then Raise (Exn ''RuntimeError'')
            else co_then (aw_done (ConnectUncertain (dr_name d) g))
                   (co_modify (\<lambda>s. if is_generation (me d s) = Some g then set_generation None d s else s))))"

definition disconnect_reviewed_exact :: "acq_cfg \<Rightarrow> poll_device \<Rightarrow> nat option \<Rightarrow> bool acq_co" where
  "disconnect_reviewed_exact cfg d revision =
     (if \<not> reviewed_binding d \<or> \<not> ac_disconnect cfg then Ret False
      else Get (\<lambda>s. let rv = (case revision of None \<Rightarrow> is_disconnect_revision (me d s) | Some r \<Rightarrow> r)
        in co_then (co_modify (set_required True d))
             (co_bind (aw_flag (ReviewedDisconnect (dr_name d) (is_generation (me d s)))) (\<lambda>result.
                Get (\<lambda>s. if result \<and> \<not> connected d s
                         then co_then (co_modify (\<lambda>s. let s1 = set_generation None d s
                                in if rv = is_disconnect_revision (me d s1) then set_required False d s1 else s1))
                                (Ret True)
                         else Ret False)))))"

text \<open>A finished disconnect task proves the disconnection only if nothing has called for a newer one.\<close>

definition disconnect_receipt_holds :: "poll_device \<Rightarrow> nat option \<Rightarrow> tres \<Rightarrow> acq \<Rightarrow> bool" where
  "disconnect_receipt_holds d rv r s =
     (r = ResBool True \<and> rv = Some (is_disconnect_revision (me d s)) \<and> \<not> is_disconnect_required (me d s) \<and> \<not> connected d s)"

text \<open>The check of a retained task that is done. It comes after the requirement was set, so it never holds.\<close>

definition consume_disconnect_task :: "poll_device \<Rightarrow> nat \<Rightarrow> bool acq_co" where
  "consume_disconnect_task d t =
     Get (\<lambda>s. let rv = is_disconnect_task_revision (me d s)
       in co_then (co_modify (set_disconnect_task None None d))
            (co_bind (co_attempt (task_result t)) (\<lambda>r. case r of
                Inl e \<Rightarrow> Ret False
              | Inr x \<Rightarrow> Get (\<lambda>s. if disconnect_receipt_holds d rv x s
                                  then co_then (co_modify (set_required False d)) (Ret True) else Ret False))))"

definition start_disconnect_task :: "poll_device \<Rightarrow> nat acq_co" where
  "start_disconnect_task d =
     Get (\<lambda>s. let rv = is_disconnect_revision (me d s)
       in co_bind (create_task (DisconnectExact (dr_name d) rv)) (\<lambda>t.
            co_then (co_modify (set_disconnect_task (Some t) (Some rv) d)) (Ret t)))"

definition await_disconnect_task :: "poll_device \<Rightarrow> real \<Rightarrow> nat \<Rightarrow> bool acq_co" where
  "await_disconnect_task d timeout t =
     co_then (aw_done (WaitTask t (Some timeout)))
       (Get (\<lambda>s. if \<not> task_done t s then Ret False
         else (let rv = is_disconnect_task_revision (me d s)
           in co_then (co_modify (set_disconnect_task None None d))
                (co_bind (task_result t) (\<lambda>x.
                   Get (\<lambda>s. if disconnect_receipt_holds d rv x s
                            then co_then (co_modify (set_required False d)) (Ret True) else Ret False))))))"

definition disconnect_reviewed :: "poll_device \<Rightarrow> real \<Rightarrow> bool acq_co" where
  "disconnect_reviewed d timeout =
     co_try
       (Get (\<lambda>s. case is_disconnect_task (me d s) of
            None \<Rightarrow> co_bind (start_disconnect_task d) (await_disconnect_task d timeout)
          | Some t \<Rightarrow>
              if task_done t s
              then co_bind (consume_disconnect_task d t) (\<lambda>proven.
                     if proven then Ret True else co_bind (start_disconnect_task d) (await_disconnect_task d timeout))
              else await_disconnect_task d timeout t))
       (\<lambda>e. if e = Cancelled then Raise e
            else if e = TimedOut then Ret False
            else co_then (co_modify (\<lambda>s. case is_disconnect_task (me d s) of
                     Some t \<Rightarrow> if task_done t s then set_disconnect_task None None d s else s
                   | None \<Rightarrow> s))
                   (Ret False))"

definition disconnect_driver :: "acq_cfg \<Rightarrow> poll_device \<Rightarrow> real \<Rightarrow> bool acq_co" where
  "disconnect_driver cfg d timeout =
     (if dr_reviewed d
      then (if \<not> reviewed_binding d \<or> \<not> ac_disconnect cfg then Ret False
            else co_then (co_modify (set_required True d)) (disconnect_reviewed d timeout))
      else co_try (co_then (aw_done (DriverDisconnect (dr_name d) timeout)) (Ret True))
             (\<lambda>e. if e = Cancelled then Raise e else Ret False))"

text \<open>The generation is cut at once, by a callback that does not await.\<close>

definition revoke_generation_now :: "acq_cfg \<Rightarrow> poll_device \<Rightarrow> nat \<Rightarrow> unit acq_co" where
  "revoke_generation_now cfg d g =
     co_then (co_modify (invalidate_receipt d))
       (case ac_abandon cfg of
          None \<Rightarrow> Raise (Exn ''RuntimeError'')
        | Some f \<Rightarrow>
            co_then (co_modify (log_event (Abandoned (dr_name d) g)))
              (case f (dr_name d) g of
                 ReturnsNone \<Rightarrow> co_modify (set_generation None d)
               | ReturnsOther \<Rightarrow> Raise (Exn ''TypeError'')
               | RaisesExn e \<Rightarrow> Raise (Exn e)))"

definition retain_disconnect_settlement :: "poll_device \<Rightarrow> unit acq_co" where
  "retain_disconnect_settlement d =
     co_then (co_modify (set_required True d))
       (Get (\<lambda>s. if is_disconnect_task (me d s) = None then co_bind (start_disconnect_task d) (\<lambda>t. Ret ()) else Ret ()))"

section \<open>Connecting\<close>

definition adjudicate_attempt :: "poll_device \<Rightarrow> bool \<Rightarrow> bool acq_co" where
  "adjudicate_attempt d raise_operation_error =
     Get (\<lambda>s. case is_attempt (me d s) of
         None \<Rightarrow> Ret True
       | Some a \<Rightarrow>
           (case ra_owner_task (aq_attempts s a) of
              None \<Rightarrow> Ret False
            | Some t \<Rightarrow>
                if \<not> task_done t s then Ret False
                else co_bind (co_attempt (task_result t)) (\<lambda>r.
                  co_then (case r of Inl e \<Rightarrow> co_modify (upd_attempt a (\<lambda>x. x\<lparr> ra_failure := Some e \<rparr>)) | Inr _ \<Rightarrow> Ret ())
                  (Get (\<lambda>s. let x = aq_attempts s a in
                     if ra_failure x \<noteq> None then Raise SETTLEMENT_INCOMPLETE
                     else if \<not> (ra_connected_committed x \<or> ra_settled_safe x) then Raise SETTLEMENT_INCOMPLETE
                     else co_then (co_modify (upd d (\<lambda>i. i\<lparr> is_attempt := None, is_settlement_task := None,
                                     is_generation := (if ra_settled_safe x then None else is_generation i) \<rparr>)))
                            (if raise_operation_error \<and> ra_operation_error x \<noteq> None then Raise (Exn ''RuntimeError'')
                             else Ret True))))))"

definition require_not_abandoned :: "nat \<Rightarrow> unit acq_co" where
  "require_not_abandoned a = co_require (\<lambda>s. \<not> ra_abandon_requested (aq_attempts s a)) CONNECT_ABANDONED"

text \<open>The \<open>try\<close> block of the owner: begin, driver I/O that an abandonment interrupts, completion.\<close>

definition owner_io :: "poll_device \<Rightarrow> nat \<Rightarrow> unit acq_co" where
  "owner_io d a =
     co_then (co_modify (upd_attempt a (\<lambda>x. x\<lparr> ra_driver_io_started := True \<rparr>)))
    (co_then (co_modify (set_required True d))
    (co_bind (create_task (DriverConnectTask (dr_name d))) (\<lambda>t.
     co_then (co_modify (upd_attempt a (\<lambda>x. x\<lparr> ra_driver_task := Some t \<rparr>)))
    (co_bind (create_task (AbandonWait a)) (\<lambda>w.
     co_then (aw_done (WaitFirst t w))
    (co_then (co_require (task_done t) CONNECT_ABANDONED)
    (co_then (co_modify (request_cancel w))
    (co_then (aw_done (WaitTask w None))
    (co_bind (task_result t) (\<lambda>_. require_not_abandoned a))))))))))"

definition owner_complete :: "poll_device \<Rightarrow> nat \<Rightarrow> nat \<Rightarrow> unit acq_co" where
  "owner_complete d a g =
     co_bind (aw_evidence (ConnectComplete (dr_name d) g)) (\<lambda>ev. case ev of
         None \<Rightarrow> Raise (Exn ''RuntimeError'')
       | Some e \<Rightarrow>
           if \<not> satisfies_tier e then Raise (Exn ''RuntimeError'')
           else co_then (co_modify (upd_attempt a (\<lambda>x. x\<lparr> ra_off_evidence := Some e \<rparr>)))
               (co_then (require_not_abandoned a)
               (co_then (co_modify (upd_attempt a (\<lambda>x. x\<lparr> ra_connected_committed := True \<rparr>)))
                  (co_modify (set_required False d)))))"

definition owner_connect :: "poll_device \<Rightarrow> nat \<Rightarrow> unit acq_co" where
  "owner_connect d a =
     co_bind (aw_generation (ConnectBegin (dr_name d))) (\<lambda>g.
     co_then (co_modify (upd_attempt a (\<lambda>x. x\<lparr> ra_generation := Some g, ra_generation_issued := True \<rparr>)))
    (co_then (co_modify (set_generation (Some g) d))
    (co_then (require_not_abandoned a)
    (co_then (owner_io d a) (owner_complete d a g)))))"

text \<open>Cleaning up: the revocation, then the disconnection. Failures are collected in order.\<close>

definition owner_revoke :: "acq_cfg \<Rightarrow> poll_device \<Rightarrow> nat \<Rightarrow> aexn list acq_co" where
  "owner_revoke cfg d a =
     Get (\<lambda>s. case (ra_generation_issued (aq_attempts s a), ra_generation (aq_attempts s a)) of
         (True, Some g) \<Rightarrow>
           co_bind (co_attempt (co_then (mark_reviewed_uncertain cfg d (Some g)) (co_modify (set_generation None d)))) (\<lambda>r.
             co_then (co_modify (upd_attempt a (\<lambda>x. x\<lparr> ra_revocation_observed := True \<rparr>)))
               (Ret (case r of Inl e \<Rightarrow> [e] | Inr _ \<Rightarrow> [])))
       | _ \<Rightarrow> Ret [])"

definition owner_disconnect :: "acq_cfg \<Rightarrow> poll_device \<Rightarrow> nat \<Rightarrow> (bool \<times> aexn list) acq_co" where
  "owner_disconnect cfg d a =
     Get (\<lambda>s. if \<not> ra_driver_io_started (aq_attempts s a) then Ret (True, [])
       else co_bind (co_attempt
              (co_then
                (case ra_driver_task (aq_attempts s a) of
                   None \<Rightarrow> Ret ()
                 | Some t \<Rightarrow> if task_done t s then Ret ()
                             else co_bind (co_attempt (aw_done (WaitTask t None))) (\<lambda>_. Ret ()))
                (disconnect_reviewed_exact cfg d None))) (\<lambda>r. case r of
            Inl e \<Rightarrow> Ret (False, [e])
          | Inr safe \<Rightarrow> Ret (safe, if safe then [] else [Exn ''RuntimeError''])))"

definition settle_owner :: "nat \<Rightarrow> bool \<Rightarrow> aexn list \<Rightarrow> acq \<Rightarrow> acq" where
  "settle_owner a safe failures =
     (if safe then upd_attempt a (\<lambda>x. x\<lparr> ra_failure := None, ra_settled_safe := True \<rparr>)
      else if failures \<noteq> [] then upd_attempt a (\<lambda>x. x\<lparr> ra_failure := Some (hd failures) \<rparr>)
      else id)"

definition own_reviewed_connect :: "acq_cfg \<Rightarrow> poll_device \<Rightarrow> nat \<Rightarrow> unit acq_co" where
  "own_reviewed_connect cfg d a =
     co_bind (co_attempt (owner_connect d a)) (\<lambda>r. case r of
         Inr _ \<Rightarrow> Ret ()
       | Inl e \<Rightarrow>
           co_then (co_modify (upd_attempt a (\<lambda>x. x\<lparr> ra_operation_error := Some e \<rparr>)))
          (co_bind (owner_revoke cfg d a) (\<lambda>f1.
           co_bind (owner_disconnect cfg d a) (\<lambda>(safe, f2). co_modify (settle_owner a safe (f1 @ f2))))))"

definition settle_failed_attempt :: "acq_cfg \<Rightarrow> poll_device \<Rightarrow> nat \<Rightarrow> bool acq_co" where
  "settle_failed_attempt cfg d a =
     co_bind
       (Get (\<lambda>s. case (ra_generation_issued (aq_attempts s a), ra_generation (aq_attempts s a)) of
            (True, Some g) \<Rightarrow>
              co_bind (co_attempt (mark_reviewed_uncertain cfg d (Some g))) (\<lambda>r. case r of
                  Inr _ \<Rightarrow> Ret True
                | Inl e \<Rightarrow> co_then (co_modify (upd_attempt a (\<lambda>x. x\<lparr> ra_failure := Some e \<rparr>))) (Ret False))
          | (issued, _) \<Rightarrow> Ret (\<not> issued)))
       (\<lambda>revocation_safe.
          Get (\<lambda>s. if ra_driver_io_started (aq_attempts s a)
                   then co_bind (co_attempt (disconnect_reviewed_exact cfg d None)) (\<lambda>r. case r of
                          Inr b \<Rightarrow> Ret b
                        | Inl e \<Rightarrow> co_then (co_modify (upd_attempt a (\<lambda>x. x\<lparr> ra_failure := Some e \<rparr>))) (Ret False))
                   else Ret revocation_safe))"

definition attempt_proven_safe :: "poll_device \<Rightarrow> nat \<Rightarrow> acq \<Rightarrow> acq" where
  "attempt_proven_safe d a s =
     set_required False d (set_generation None d (upd_attempt a (\<lambda>x. x\<lparr> ra_failure := None, ra_settled_safe := True \<rparr>) s))"

definition set_retry :: "nat option \<Rightarrow> nat \<Rightarrow> acq \<Rightarrow> acq" where
  "set_retry t a = upd_attempt a (\<lambda>x. x\<lparr> ra_cleanup_retry_task := t \<rparr>)"

text \<open>A retry that is done is consumed; otherwise one is created, or the running one kept.\<close>

definition await_retry :: "poll_device \<Rightarrow> nat \<Rightarrow> real \<Rightarrow> nat \<Rightarrow> bool acq_co" where
  "await_retry d a timeout t =
     co_then (aw_done (WaitTask t (Some timeout)))
       (Get (\<lambda>s. if \<not> task_done t s then Ret False
         else co_then (co_modify (set_retry None a))
           (co_bind (co_attempt (task_result t)) (\<lambda>r.
              co_then (case r of Inl e \<Rightarrow> co_modify (upd_attempt a (\<lambda>x. x\<lparr> ra_failure := Some e \<rparr>)) | Inr _ \<Rightarrow> Ret ())
                (if r \<noteq> Inr (ResBool True)
                 then co_then (co_modify (upd_attempt a (\<lambda>x. if ra_failure x = None
                                 then x\<lparr> ra_failure := Some (Exn ''RuntimeError'') \<rparr> else x)))
                        (Ret False)
                 else co_then (co_modify (attempt_proven_safe d a)) (Ret True))))))"

definition retry_failed_attempt :: "poll_device \<Rightarrow> nat \<Rightarrow> real \<Rightarrow> bool acq_co" where
  "retry_failed_attempt d a timeout =
     Get (\<lambda>s. case ra_owner_task (aq_attempts s a) of
         None \<Rightarrow> Ret False
       | Some owner \<Rightarrow>
           if \<not> task_done owner s then Ret False
           else (let create = co_bind (create_task (CleanupRetry (dr_name d) a)) (\<lambda>t.
                       co_then (co_modify (set_retry (Some t) a)) (await_retry d a timeout t))
             in (case ra_cleanup_retry_task (aq_attempts s a) of
                   None \<Rightarrow> create
                 | Some t \<Rightarrow>
                     if \<not> task_done t s then await_retry d a timeout t
                     else co_then (co_modify (set_retry None a))
                       (co_bind (co_attempt (task_result t)) (\<lambda>r. case r of
                            Inr (ResBool True) \<Rightarrow> co_then (co_modify (attempt_proven_safe d a)) (Ret True)
                          | Inr _ \<Rightarrow> create
                          | Inl e \<Rightarrow> co_then (co_modify (upd_attempt a (\<lambda>x. x\<lparr> ra_failure := Some e \<rparr>))) create)))))"

text \<open>Only the incomplete settlement is caught.\<close>

definition settle_poll_barrier :: "poll_device \<Rightarrow> bool acq_co" where
  "settle_poll_barrier d =
     Get (\<lambda>s. case is_attempt (me d s) of
         None \<Rightarrow> Ret True
       | Some a \<Rightarrow>
           co_bind (co_attempt (adjudicate_attempt d False)) (\<lambda>r. case r of
               Inr b \<Rightarrow> Ret b
             | Inl e \<Rightarrow>
                 if e \<noteq> SETTLEMENT_INCOMPLETE then Raise e
                 else co_bind (retry_failed_attempt d a (dr_connect_timeout_s d)) (\<lambda>ok.
                   if \<not> ok then Ret False
                   else co_try (adjudicate_attempt d False)
                          (\<lambda>e. if e = SETTLEMENT_INCOMPLETE then Ret False else Raise e))))"

text \<open>The first ambiguous read: revoke, whatever that raises, then disconnect.\<close>

definition settle_read_uncertainty :: "acq_cfg \<Rightarrow> poll_device \<Rightarrow> bool acq_co" where
  "settle_read_uncertainty cfg d =
     (if \<not> reviewed_binding d then Ret True
      else co_bind (co_attempt (mark_reviewed_uncertain cfg d None)) (\<lambda>_.
             disconnect_driver cfg d (dr_connect_timeout_s d)))"

definition request_connect_abandon :: "acq_cfg \<Rightarrow> poll_device \<Rightarrow> nat \<Rightarrow> unit acq_co" where
  "request_connect_abandon cfg d a =
     co_then (co_modify (upd_attempt a (\<lambda>x. x\<lparr> ra_abandon_requested := True, ra_abandon_event := True \<rparr>)))
       (Get (\<lambda>s. case (ra_generation_issued (aq_attempts s a), ra_generation (aq_attempts s a)) of
            (True, Some g) \<Rightarrow>
              co_try (revoke_generation_now cfg d g)
                (\<lambda>e. co_modify (upd_attempt a (\<lambda>x. x\<lparr> ra_failure := Some e \<rparr>)))
          | _ \<Rightarrow> Ret ()))"

definition connect_authority_complete :: "acq_cfg \<Rightarrow> bool" where
  "connect_authority_complete cfg =
     (ac_connect_begin cfg \<and> ac_connect_complete cfg \<and> ac_uncertain cfg \<and> ac_abandon cfg \<noteq> None \<and> ac_disconnect cfg)"

definition new_attempt :: "poll_device \<Rightarrow> nat acq_co" where
  "new_attempt d =
     Get (\<lambda>s. let a = aq_next_attempt s
       in Put (upd d (\<lambda>i. i\<lparr> is_attempt := Some a \<rparr>)
                (s\<lparr> aq_next_attempt := a + 1, aq_attempts := (aq_attempts s)(a := fresh_attempt) \<rparr>)) (Ret a))"

text \<open>The caller of a connect waits for its owner, and abandons it on a cancellation or a timeout.\<close>

definition await_owner :: "acq_cfg \<Rightarrow> poll_device \<Rightarrow> nat \<Rightarrow> nat \<Rightarrow> unit acq_co" where
  "await_owner cfg d a t =
     co_bind (co_attempt (aw_done (WaitTask t (Some (dr_connect_timeout_s d))))) (\<lambda>r. case r of
         Inl e \<Rightarrow> if e = Cancelled then co_then (request_connect_abandon cfg d a) (Raise e) else Raise e
       | Inr _ \<Rightarrow>
           Get (\<lambda>s. if \<not> task_done t s then co_then (request_connect_abandon cfg d a) (Raise TimedOut)
                    else co_bind (adjudicate_attempt d True) (\<lambda>_. Ret ())))"

definition connect_reviewed :: "acq_cfg \<Rightarrow> poll_device \<Rightarrow> unit acq_co" where
  "connect_reviewed cfg d =
     co_bind (adjudicate_attempt d False) (\<lambda>ok.
       if \<not> ok then Raise SETTLEMENT_INCOMPLETE
       else co_bind (new_attempt d) (\<lambda>a.
            co_bind (create_task (OwnConnect (dr_name d) a)) (\<lambda>t.
            co_then (co_modify (\<lambda>s. upd d (\<lambda>i. i\<lparr> is_settlement_task := Some t \<rparr>)
                                      (upd_attempt a (\<lambda>x. x\<lparr> ra_owner_task := Some t \<rparr>) s)))
              (await_owner cfg d a t))))"

definition connect_driver :: "acq_cfg \<Rightarrow> poll_device \<Rightarrow> unit acq_co" where
  "connect_driver cfg d =
     (if \<not> reviewed_binding d then aw_done (DriverConnect (dr_name d) (dr_connect_timeout_s d))
      else if \<not> connect_authority_complete cfg then Raise (Exn ''RuntimeError'')
      else Get (\<lambda>s.
        if is_disconnect_required (me d s) \<or> is_disconnect_task (me d s) \<noteq> None
        then co_bind (disconnect_driver cfg d (dr_connect_timeout_s d)) (\<lambda>ok.
               if \<not> ok then Raise SETTLEMENT_INCOMPLETE else connect_reviewed cfg d)
        else connect_reviewed cfg d))"

end
