(* ===== verification/PollLoop.thy ===== *)
theory PollLoop
  imports Reviewed
begin

text \<open>
  The loop that polls one standalone instrument: \<open>Scheduler._poll_loop\<close>, its backoff and its deadlines
  (\<^verbatim>\<open>src/cryodaq/core/scheduler.py\<close>). One iteration takes the deadline it starts with and returns the next
  one; the loop runs as long as the scheduler does, here for a given number of iterations at most.
\<close>

section \<open>Time\<close>

definition MAX_BACKOFF_S :: real where "MAX_BACKOFF_S = 60"
definition STANDALONE_INITIAL_BACKOFF_S :: real where "STANDALONE_INITIAL_BACKOFF_S = 30"
definition STANDALONE_MAX_BACKOFF_S :: real where "STANDALONE_MAX_BACKOFF_S = 300"
definition DISCONNECT_TIMEOUT_S :: real where "DISCONNECT_TIMEOUT_S = 5"

definition set_backoff :: "real \<Rightarrow> inst \<Rightarrow> inst" where
  "set_backoff b i = i\<lparr> is_backoff_s := b \<rparr>"

definition backoff :: "poll_device \<Rightarrow> real \<Rightarrow> unit acq_co" where
  "backoff d max_s =
     Get (\<lambda>s. let delay = min (is_backoff_s (me d s)) max_s
       in co_then (aw_done (SleepFor delay))
            (co_modify (\<lambda>s. upd d (set_backoff (min (is_backoff_s (me d s) * 2) max_s)) s)))"

text \<open>The next deadline on the grid of the interval. \<open>int\<close> cuts a positive quotient down.\<close>

definition next_deadline :: "real \<Rightarrow> real \<Rightarrow> real \<Rightarrow> real" where
  "next_deadline interval deadline now =
     (let n = deadline + interval
      in if n < now then n + of_int (\<lfloor>(now - n) / interval\<rfloor> + 1) * interval else n)"

definition handle_error :: "acq_cfg \<Rightarrow> poll_device \<Rightarrow> unit acq_co" where
  "handle_error cfg d =
     Get (\<lambda>s. if 3 \<le> is_consecutive_errors (me d s)
              then co_bind (disconnect_driver cfg d DISCONNECT_TIMEOUT_S) (\<lambda>_. backoff d MAX_BACKOFF_S)
              else Ret ())"

section \<open>An iteration\<close>

text \<open>\<open>None\<close> is \<open>continue\<close>: the next iteration starts with the same deadline.\<close>

definition poll_failed :: "acq_cfg \<Rightarrow> poll_device \<Rightarrow> unit option acq_co" where
  "poll_failed cfg d =
     co_then (if reviewed_binding d then co_bind (settle_read_uncertainty cfg d) (\<lambda>_. Ret ()) else Ret ())
    (co_then (co_modify (upd d count_error))
    (co_then (publish_failed_poll cfg d)
       (if reviewed_binding d then co_then (backoff d STANDALONE_MAX_BACKOFF_S) (Ret None)
        else Get (\<lambda>s. if 3 \<le> is_consecutive_errors (me d s)
               then co_bind (disconnect_driver cfg d DISCONNECT_TIMEOUT_S) (\<lambda>_.
                    co_then (co_modify (\<lambda>s. upd d (set_backoff (max (is_backoff_s (me d s)) STANDALONE_INITIAL_BACKOFF_S)) s))
                   (co_then (backoff d STANDALONE_MAX_BACKOFF_S) (Ret None)))
               else Ret (Some ())))))"

definition poll_read :: "acq_cfg \<Rightarrow> poll_device \<Rightarrow> unit option acq_co" where
  "poll_read cfg d =
     co_bind
       (co_attempt
         (co_bind (aw_readings (DriverRead (dr_name d) (dr_read_timeout_s d))) (\<lambda>rs.
          co_then (co_modify (upd d (\<lambda>i. i\<lparr> is_consecutive_errors := 0, is_backoff_s := INITIAL_BACKOFF_S \<rparr>)))
            (co_bind (process_readings cfg d True rs) (\<lambda>_. Ret ())))))
       (\<lambda>r. case r of
          Inr _ \<Rightarrow> Ret (Some ())
        | Inl e \<Rightarrow>
            if e = Cancelled
            then co_bind (settle_read_uncertainty cfg d) (\<lambda>_. Raise Cancelled)
            else poll_failed cfg d)"

definition poll_connect :: "acq_cfg \<Rightarrow> poll_device \<Rightarrow> unit option acq_co" where
  "poll_connect cfg d =
     co_bind
       (co_attempt
         (co_then (connect_driver cfg d)
            (co_modify (upd d (\<lambda>i. i\<lparr> is_consecutive_errors := 0, is_backoff_s := INITIAL_BACKOFF_S \<rparr>)))))
       (\<lambda>r. case r of
          Inr _ \<Rightarrow> poll_read cfg d
        | Inl e \<Rightarrow> if e = Cancelled then Raise e else co_then (backoff d MAX_BACKOFF_S) (Ret None))"

text \<open>The barriers before any I/O.\<close>

definition poll_guarded :: "acq_cfg \<Rightarrow> poll_device \<Rightarrow> unit option acq_co" where
  "poll_guarded cfg d =
     Get (\<lambda>s.
       if reviewed_binding d \<and> (is_disconnect_required (me d s) \<or> is_disconnect_task (me d s) \<noteq> None)
       then co_bind (disconnect_driver cfg d (dr_connect_timeout_s d)) (\<lambda>_. co_then (backoff d MAX_BACKOFF_S) (Ret None))
       else if reviewed_binding d \<and> connected d s \<and> is_generation (me d s) = None
       then co_bind (disconnect_driver cfg d DISCONNECT_TIMEOUT_S) (\<lambda>_. co_then (backoff d MAX_BACKOFF_S) (Ret None))
       else if \<not> connected d s then poll_connect cfg d
       else poll_read cfg d)"

text \<open>A settled attempt leads back to the top of the loop, like an unsettled one after its backoff.\<close>

definition poll_body :: "acq_cfg \<Rightarrow> poll_device \<Rightarrow> unit option acq_co" where
  "poll_body cfg d =
     Get (\<lambda>s. if is_attempt (me d s) \<noteq> None
       then co_bind (settle_poll_barrier d) (\<lambda>settled.
              if \<not> settled then co_then (backoff d MAX_BACKOFF_S) (Ret None) else Ret None)
       else poll_guarded cfg d)"

definition poll_iteration :: "acq_cfg \<Rightarrow> poll_device \<Rightarrow> real \<Rightarrow> real acq_co" where
  "poll_iteration cfg d deadline =
     co_bind (poll_body cfg d) (\<lambda>r. case r of
         None \<Rightarrow> Ret deadline
       | Some _ \<Rightarrow>
           co_bind (read_clock cfg) (\<lambda>now. let n = next_deadline (dr_poll_interval_s d) deadline now in
           co_bind (read_clock cfg) (\<lambda>now'.
           co_then (aw_done (SleepFor (max 0 (n - now')))) (Ret n))))"

fun poll_loop_n :: "acq_cfg \<Rightarrow> poll_device \<Rightarrow> nat \<Rightarrow> real \<Rightarrow> real acq_co" where
  "poll_loop_n cfg d 0 deadline = Ret deadline"
| "poll_loop_n cfg d (Suc n) deadline =
     Get (\<lambda>s. if \<not> aq_running s then Ret deadline
              else co_bind (poll_iteration cfg d deadline) (poll_loop_n cfg d n))"

definition poll_loop :: "acq_cfg \<Rightarrow> poll_device \<Rightarrow> nat \<Rightarrow> real acq_co" where
  "poll_loop cfg d n = co_bind (read_clock cfg) (\<lambda>now. poll_loop_n cfg d n (now + dr_poll_interval_s d))"

end
