(* ===== verification/BusPoll.thy ===== *)
theory BusPoll
  imports PollLoop
begin

text \<open>
  The loop that polls the instruments of one shared bus in turn: \<open>Scheduler._shared_bus_poll_loop\<close> with its
  bounded operations on the bus and the escalation of its recovery (\<^verbatim>\<open>src/cryodaq/core/scheduler.py\<close>).
  The local variables of the loop are the record \<open>bus_loc\<close>; one pass of the loop takes and returns it.
\<close>

section \<open>Bounded operations\<close>

definition make_terminal :: "string \<Rightarrow> acq \<Rightarrow> acq" where
  "make_terminal bus s = (if bus \<in> set (aq_terminal_bus s) then s else s\<lparr> aq_terminal_bus := bus # aq_terminal_bus s \<rparr>)"

text \<open>A task that resists its cancellation keeps the bus: its authority is terminal.\<close>

definition cancel_bus_recovery :: "nat \<Rightarrow> real \<Rightarrow> string \<Rightarrow> bool acq_co" where
  "cancel_bus_recovery t timeout bus =
     co_then (co_modify (request_cancel t))
    (co_then (aw_done (WaitTask t (Some timeout)))
       (Get (\<lambda>s. if task_done t s then Ret True
                 else co_then (co_modify (\<lambda>s. (make_terminal bus s)\<lparr> aq_unsettled_bus := (aq_unsettled_bus s)(bus := Some t) \<rparr>))
                        (Ret False))))"

text \<open>The callback of a retained task, when it is done at last.\<close>

definition bus_operation_settled :: "string \<Rightarrow> acq \<Rightarrow> acq" where
  "bus_operation_settled bus s = s\<lparr> aq_unsettled_bus := (aq_unsettled_bus s)(bus := None) \<rparr>"

text \<open>
  The wait for a bus operation. On a cancellation a task of its own settles the operation; a second
  cancellation does not reach that task.
\<close>

definition await_bus_task :: "string \<Rightarrow> nat \<Rightarrow> real \<Rightarrow> unit acq_co" where
  "await_bus_task bus t timeout =
     co_try (aw_done (WaitTask t (Some timeout)))
       (\<lambda>e. if e = Cancelled
            then co_bind (create_task (BusCancel bus t)) (\<lambda>u.
                 co_bind (co_attempt (aw_done (WaitTask u None))) (\<lambda>r. case r of
                     Inl e' \<Rightarrow> if e' = Cancelled then Raise Cancelled else Raise e'
                   | Inr _ \<Rightarrow> Raise Cancelled))
            else Raise e)"

definition bus_refuses :: "string \<Rightarrow> bool \<Rightarrow> acq \<Rightarrow> bool" where
  "bus_refuses bus is_async s = (bus \<in> set (aq_terminal_bus s) \<or> \<not> is_async)"

definition bounded_bus_recovery :: "string \<Rightarrow> bool \<Rightarrow> string \<Rightarrow> real \<Rightarrow> bool \<Rightarrow> bool option acq_co" where
  "bounded_bus_recovery bus is_async label timeout completion_is_success =
     Get (\<lambda>s. if bus_refuses bus is_async s then co_then (co_modify (make_terminal bus)) (Ret None)
       else co_bind (create_task (BusOperation bus label)) (\<lambda>t.
            co_then (await_bus_task bus t timeout)
              (Get (\<lambda>s. if task_done t s
                 then co_bind (co_attempt (task_result t)) (\<lambda>r. case r of
                        Inr x \<Rightarrow> Ret (Some (completion_is_success \<or> x = ResBool True \<or> (\<exists>r rs. x = ResReadings (r # rs))))
                      | Inl _ \<Rightarrow> Ret (Some False))
                 else co_bind (cancel_bus_recovery t timeout bus) (\<lambda>settled.
                        Ret (if settled then Some False else None))))))"

definition bounded_bus_read :: "string \<Rightarrow> bool \<Rightarrow> string \<Rightarrow> real \<Rightarrow> raw_reading list option acq_co" where
  "bounded_bus_read bus is_async label timeout =
     Get (\<lambda>s. if bus_refuses bus is_async s then co_then (co_modify (make_terminal bus)) (Ret None)
       else co_bind (create_task (BusOperation bus label)) (\<lambda>t.
            co_then (await_bus_task bus t timeout)
              (Get (\<lambda>s. if task_done t s
                 then co_bind (task_result t) (\<lambda>r. case r of
                        ResReadings rs \<Rightarrow> Ret (Some rs)
                      | _ \<Rightarrow> Raise (Exn ''TypeError''))
                 else co_bind (cancel_bus_recovery t timeout bus) (\<lambda>settled.
                        if settled then Raise TimedOut else Ret None)))))"

definition mark_disconnected :: "acq_cfg \<Rightarrow> poll_device \<Rightarrow> unit acq_co" where
  "mark_disconnected cfg d =
     (let raw = co_bind (disconnect_driver cfg d DISCONNECT_TIMEOUT_S) (\<lambda>_. Ret ())
      in if dr_participant d
         then co_try (aw_done (MarkDisconnected (dr_name d))) (\<lambda>e. if e = Cancelled then Raise e else raw)
         else raw)"

definition abort_partial_connect :: "acq_cfg \<Rightarrow> poll_device \<Rightarrow> unit acq_co" where
  "abort_partial_connect cfg d =
     (if \<not> dr_lifecycle d then co_bind (disconnect_driver cfg d DISCONNECT_TIMEOUT_S) (\<lambda>_. Ret ())
      else co_try (aw_done (AbortConnect (dr_name d) (dr_connect_timeout_s d)))
        (\<lambda>e. if e = Cancelled
             then co_bind (create_task (AbortConnectTask (dr_name d))) (\<lambda>t.
                  co_then
                    (co_try (aw_done (WaitTask t (Some (dr_connect_timeout_s d))))
                      (\<lambda>e. if e = Cancelled then Raise e else co_modify (request_cancel t)))
                    (Raise Cancelled))
             else Ret ()))"

section \<open>The bus\<close>

text \<open>
  The devices of a bus, the descriptor of the first, whether there is a recovery coordinator and whether its
  two operations are coroutine functions.
\<close>

record bus_group =
  bg_id :: string
  bg_devices :: "poll_device list"
  bg_descriptor :: "bus_descriptor option"
  bg_coordinator :: bool
  bg_async_clear :: bool
  bg_async_reopen :: bool

record bus_loc =
  bl_due :: "string \<Rightarrow> real"
  bl_eligible :: "string \<Rightarrow> real"
  bl_backoff :: "string \<Rightarrow> real"
  bl_correlated :: nat
  bl_failure_generation :: "string list"
  bl_ifc_succeeded :: bool

definition set_due :: "poll_device \<Rightarrow> real \<Rightarrow> bus_loc \<Rightarrow> bus_loc" where
  "set_due d x loc = loc\<lparr> bl_due := (bl_due loc)(dr_name d := x) \<rparr>"

definition set_eligible :: "poll_device \<Rightarrow> real \<Rightarrow> bus_loc \<Rightarrow> bus_loc" where
  "set_eligible d x loc = loc\<lparr> bl_eligible := (bl_eligible loc)(dr_name d := x) \<rparr>"

definition set_bus_backoff :: "poll_device \<Rightarrow> real \<Rightarrow> bus_loc \<Rightarrow> bus_loc" where
  "set_bus_backoff d x loc = loc\<lparr> bl_backoff := (bl_backoff loc)(dr_name d := x) \<rparr>"

definition hold_off :: "acq_cfg \<Rightarrow> poll_device \<Rightarrow> bus_loc \<Rightarrow> bus_loc acq_co" where
  "hold_off cfg d loc = co_bind (read_clock cfg) (\<lambda>now. Ret (set_eligible d (now + bl_backoff loc (dr_name d)) loc))"

definition grow_backoff :: "poll_device \<Rightarrow> bus_loc \<Rightarrow> bus_loc" where
  "grow_backoff d loc = set_bus_backoff d (min (bl_backoff loc (dr_name d) * 2) 1) loc"

text \<open>Here a deadline that is now has passed.\<close>

definition bus_deadline :: "real \<Rightarrow> real \<Rightarrow> real \<Rightarrow> real" where
  "bus_deadline interval due now =
     (let n = due + interval
      in if n \<le> now then n + of_int (\<lfloor>(now - n) / interval\<rfloor> + 1) * interval else n)"

datatype dev_outcome = DevOk | DevFail | DevStop

definition publish_all_failed :: "acq_cfg \<Rightarrow> bus_group \<Rightarrow> unit acq_co" where
  "publish_all_failed cfg g = co_each (publish_failed_poll cfg) (bg_devices g)"

section \<open>One device\<close>

definition supports :: "recovery_level \<Rightarrow> poll_device \<Rightarrow> bool" where
  "supports l d = (case dr_descriptor d of None \<Rightarrow> False | Some b \<Rightarrow> l \<in> bu_levels b)"

text \<open>The bus no longer obeys: everything on it has failed, a reviewed source loses its generation.\<close>

definition bus_read_terminal :: "acq_cfg \<Rightarrow> bus_group \<Rightarrow> poll_device \<Rightarrow> unit acq_co" where
  "bus_read_terminal cfg g d =
     co_then (publish_all_failed cfg g)
       (if reviewed_binding d
        then co_then
          (Get (\<lambda>s. case is_generation (me d s) of None \<Rightarrow> Ret () | Some gen \<Rightarrow> revoke_generation_now cfg d gen))
          (retain_disconnect_settlement d)
        else Ret ())"

definition bus_read_device :: "acq_cfg \<Rightarrow> bus_group \<Rightarrow> poll_device \<Rightarrow> bus_loc \<Rightarrow> (bus_loc \<times> dev_outcome) acq_co" where
  "bus_read_device cfg g d loc =
     co_bind (bounded_bus_read (bg_id g) (dr_async_read d) (dr_name d) (dr_read_timeout_s d)) (\<lambda>r. case r of
         None \<Rightarrow> co_then (bus_read_terminal cfg g d) (Ret (loc, DevStop))
       | Some rs \<Rightarrow>
           co_bind (process_readings cfg d True rs) (\<lambda>_. Ret (set_bus_backoff d (1/100) loc, DevOk)))"

definition bus_cancelled :: "acq_cfg \<Rightarrow> bus_group \<Rightarrow> poll_device \<Rightarrow> bool \<Rightarrow> (bus_loc \<times> dev_outcome) acq_co" where
  "bus_cancelled cfg g d read_started =
     co_then
       (if reviewed_binding d
        then (if read_started then co_bind (settle_read_uncertainty cfg d) (\<lambda>_. Ret ()) else Ret ())
        else Get (\<lambda>s. if bg_id g \<notin> set (aq_terminal_bus s) then abort_partial_connect cfg d else Ret ()))
       (Raise Cancelled)"

definition bus_recover_device :: "acq_cfg \<Rightarrow> bus_group \<Rightarrow> poll_device \<Rightarrow> bool acq_co" where
  "bus_recover_device cfg g d =
     (if dr_participant d \<and> supports DEVICE_CLEAR d
      then co_bind (bounded_bus_recovery (bg_id g) (dr_async_recover d) (dr_name d) (dr_connect_timeout_s d) True) (\<lambda>r.
             case r of None \<Rightarrow> co_then (publish_all_failed cfg g) (Ret False) | Some _ \<Rightarrow> Ret True)
      else Ret True)"

definition bus_failed :: "acq_cfg \<Rightarrow> bus_group \<Rightarrow> poll_device \<Rightarrow> bool \<Rightarrow> bus_loc \<Rightarrow> (bus_loc \<times> dev_outcome) acq_co" where
  "bus_failed cfg g d read_started loc =
     (if reviewed_binding d
      then co_then (if read_started then co_bind (settle_read_uncertainty cfg d) (\<lambda>_. Ret ()) else Ret ())
          (co_then (co_modify (upd d count_error))
          (co_bind (hold_off cfg d loc) (\<lambda>loc. Ret (grow_backoff d loc, DevFail))))
      else co_then (Get (\<lambda>s. if \<not> connected d s then abort_partial_connect cfg d else Ret ()))
          (co_then (co_modify (upd d count_error))
          (co_then (publish_failed_poll cfg d)
          (co_bind (bus_recover_device cfg g d) (\<lambda>usable.
             if \<not> usable then Ret (loc, DevStop)
             else co_then (Get (\<lambda>s. if 3 \<le> is_consecutive_errors (me d s) then mark_disconnected cfg d else Ret ()))
                 (co_bind (hold_off cfg d loc) (\<lambda>loc. Ret (grow_backoff d loc, DevFail))))))))"

definition bus_handler ::
  "acq_cfg \<Rightarrow> bus_group \<Rightarrow> poll_device \<Rightarrow> bus_loc \<Rightarrow> bool \<Rightarrow> aexn \<Rightarrow> (bus_loc \<times> dev_outcome) acq_co" where
  "bus_handler cfg g d loc read_started e =
     (if e = Cancelled then bus_cancelled cfg g d read_started else bus_failed cfg g d read_started loc)"

text \<open>The \<open>try\<close> statement, and its \<open>finally\<close>.\<close>

definition bus_try_device :: "acq_cfg \<Rightarrow> bus_group \<Rightarrow> poll_device \<Rightarrow> bus_loc \<Rightarrow> (bus_loc \<times> dev_outcome) acq_co" where
  "bus_try_device cfg g d loc =
     co_bind (co_attempt (Get (\<lambda>s. if \<not> connected d s then connect_driver cfg d else Ret ()))) (\<lambda>r. case r of
         Inl e \<Rightarrow> bus_handler cfg g d loc False e
       | Inr _ \<Rightarrow> co_try (bus_read_device cfg g d loc) (bus_handler cfg g d loc True))"

definition bus_device_io :: "acq_cfg \<Rightarrow> bus_group \<Rightarrow> poll_device \<Rightarrow> bus_loc \<Rightarrow> (bus_loc \<times> dev_outcome) acq_co" where
  "bus_device_io cfg g d loc =
     co_bind (co_attempt (bus_try_device cfg g d loc)) (\<lambda>r.
     co_bind (read_clock cfg) (\<lambda>now. case r of
         Inl e \<Rightarrow> Raise e
       | Inr (loc, out) \<Rightarrow> Ret (set_due d (bus_deadline (dr_poll_interval_s d) (bl_due loc (dr_name d)) now) loc, out)))"

definition bus_barrier_failed :: "acq_cfg \<Rightarrow> poll_device \<Rightarrow> bool \<Rightarrow> bus_loc \<Rightarrow> (bus_loc \<times> dev_outcome) acq_co" where
  "bus_barrier_failed cfg d publishes loc =
     co_then (co_modify (upd d count_error))
    (co_then (if publishes then publish_failed_poll cfg d else Ret ())
       (co_bind (hold_off cfg d loc) (\<lambda>loc. Ret (loc, DevFail))))"

definition bus_guarded :: "acq_cfg \<Rightarrow> bus_group \<Rightarrow> poll_device \<Rightarrow> bus_loc \<Rightarrow> (bus_loc \<times> dev_outcome) acq_co" where
  "bus_guarded cfg g d loc =
     Get (\<lambda>s. if reviewed_binding d \<and> connected d s \<and> is_generation (me d s) = None
       then co_bind (disconnect_driver cfg d (dr_connect_timeout_s d)) (\<lambda>_. bus_barrier_failed cfg d False loc)
       else bus_device_io cfg g d loc)"

definition bus_disconnect_barrier :: "acq_cfg \<Rightarrow> bus_group \<Rightarrow> poll_device \<Rightarrow> bus_loc \<Rightarrow> (bus_loc \<times> dev_outcome) acq_co" where
  "bus_disconnect_barrier cfg g d loc =
     Get (\<lambda>s. if reviewed_binding d \<and> (is_disconnect_required (me d s) \<or> is_disconnect_task (me d s) \<noteq> None)
       then co_bind (disconnect_driver cfg d (dr_connect_timeout_s d)) (\<lambda>ok.
              if \<not> ok then bus_barrier_failed cfg d False loc else bus_guarded cfg g d loc)
       else bus_guarded cfg g d loc)"

definition bus_device :: "acq_cfg \<Rightarrow> bus_group \<Rightarrow> poll_device \<Rightarrow> bus_loc \<Rightarrow> (bus_loc \<times> dev_outcome) acq_co" where
  "bus_device cfg g d loc =
     Get (\<lambda>s. if is_attempt (me d s) \<noteq> None
       then co_bind (settle_poll_barrier d) (\<lambda>settled.
              if \<not> settled then bus_barrier_failed cfg d True loc else bus_disconnect_barrier cfg g d loc)
       else bus_disconnect_barrier cfg g d loc)"

text \<open>The due devices in turn, with the numbers of failures and successes. \<open>None\<close>: the loop returns.\<close>

fun bus_devices ::
  "acq_cfg \<Rightarrow> bus_group \<Rightarrow> poll_device list \<Rightarrow> nat \<Rightarrow> nat \<Rightarrow> bus_loc \<Rightarrow> (bus_loc \<times> nat \<times> nat) option acq_co" where
  "bus_devices cfg g [] failures successes loc = Ret (Some (loc, failures, successes))"
| "bus_devices cfg g (d # ds) failures successes loc =
     co_bind (bus_device cfg g d loc) (\<lambda>(loc, out). case out of
         DevStop \<Rightarrow> Ret None
       | DevFail \<Rightarrow> bus_devices cfg g ds (failures + 1) successes loc
       | DevOk \<Rightarrow> bus_devices cfg g ds failures (successes + 1) loc)"

section \<open>Escalation\<close>

definition note_pass :: "poll_device list \<Rightarrow> nat \<Rightarrow> nat \<Rightarrow> bus_loc \<Rightarrow> bus_loc" where
  "note_pass due failures successes loc =
     (if 0 < successes then loc\<lparr> bl_failure_generation := [], bl_correlated := 0, bl_ifc_succeeded := False \<rparr>
      else if 0 < failures then loc\<lparr> bl_failure_generation := bl_failure_generation loc @ map dr_name due \<rparr>
      else loc)"

definition completed_epoch :: "bus_group \<Rightarrow> bus_loc \<Rightarrow> bool" where
  "completed_epoch g loc = (set (bl_failure_generation loc) = set (map dr_name (bg_devices g)))"

definition note_epoch :: "bus_loc \<Rightarrow> bus_loc" where
  "note_epoch loc = loc\<lparr> bl_correlated := bl_correlated loc + 1, bl_failure_generation := [] \<rparr>"

definition bus_clear :: "acq_cfg \<Rightarrow> bus_group \<Rightarrow> bus_descriptor \<Rightarrow> bus_loc \<Rightarrow> bus_loc option acq_co" where
  "bus_clear cfg g b loc =
     (if 3 \<le> bl_correlated loc \<and> \<not> bl_ifc_succeeded loc \<and> INTERFACE_CLEAR \<in> bu_levels b
      then co_bind (bounded_bus_recovery (bg_id g) (bg_async_clear g) ''interface clear'' (bu_recovery_timeout_s b) False) (\<lambda>r.
        case r of
          None \<Rightarrow> co_then (publish_all_failed cfg g) (Ret None)
        | Some ok \<Rightarrow>
            co_then (if ok then co_each (mark_disconnected cfg) (bg_devices g) else Ret ())
              (Ret (Some (loc\<lparr> bl_ifc_succeeded := ok \<rparr>))))
      else Ret (Some loc))"

definition bus_reopen :: "acq_cfg \<Rightarrow> bus_group \<Rightarrow> bus_descriptor \<Rightarrow> bus_loc \<Rightarrow> bus_loc option acq_co" where
  "bus_reopen cfg g b loc =
     (if 6 \<le> bl_correlated loc \<and> REOPEN_BUS \<in> bu_levels b
      then co_bind (bounded_bus_recovery (bg_id g) (bg_async_reopen g) ''reopen'' (bu_recovery_timeout_s b) False) (\<lambda>r.
        case r of
          None \<Rightarrow> co_then (publish_all_failed cfg g) (Ret None)
        | Some ok \<Rightarrow>
            if ok then co_then (co_each (mark_disconnected cfg) (bg_devices g))
                         (Ret (Some (loc\<lparr> bl_correlated := 0, bl_ifc_succeeded := False \<rparr>)))
            else Ret (Some loc))
      else Ret (Some loc))"

definition bus_escalate :: "acq_cfg \<Rightarrow> bus_group \<Rightarrow> bus_loc \<Rightarrow> bus_loc option acq_co" where
  "bus_escalate cfg g loc =
     (if \<not> completed_epoch g loc then Ret (Some loc)
      else (let loc1 = note_epoch loc in case bg_descriptor g of
              None \<Rightarrow> Ret (Some loc1)
            | Some b \<Rightarrow>
                if \<not> bg_coordinator g then Ret (Some loc1)
                else co_bind (bus_clear cfg g b loc1) (\<lambda>r. case r of
                       None \<Rightarrow> Ret None
                     | Some loc2 \<Rightarrow> bus_reopen cfg g b loc2)))"

section \<open>The loop\<close>

definition bus_is_due :: "bus_loc \<Rightarrow> real \<Rightarrow> poll_device \<Rightarrow> bool" where
  "bus_is_due loc now d = (bl_due loc (dr_name d) \<le> now \<and> bl_eligible loc (dr_name d) \<le> now)"

definition bus_wake :: "bus_group \<Rightarrow> bus_loc \<Rightarrow> real" where
  "bus_wake g loc = Min (set (map (\<lambda>d. max (bl_due loc (dr_name d)) (bl_eligible loc (dr_name d))) (bg_devices g)))"

definition bus_pass :: "acq_cfg \<Rightarrow> bus_group \<Rightarrow> bus_loc \<Rightarrow> bus_loc option acq_co" where
  "bus_pass cfg g loc =
     co_bind (read_clock cfg) (\<lambda>now.
       let due = filter (bus_is_due loc now) (bg_devices g)
       in if due = []
          then co_bind (read_clock cfg) (\<lambda>now'. co_then (aw_done (SleepFor (max 0 (bus_wake g loc - now')))) (Ret (Some loc)))
          else co_bind (bus_devices cfg g due 0 0 loc) (\<lambda>r. case r of
                 None \<Rightarrow> Ret None
               | Some (loc', failures, successes) \<Rightarrow> bus_escalate cfg g (note_pass due failures successes loc')))"

fun bus_loop_n :: "acq_cfg \<Rightarrow> bus_group \<Rightarrow> nat \<Rightarrow> bus_loc \<Rightarrow> bus_loc option acq_co" where
  "bus_loop_n cfg g 0 loc = Ret (Some loc)"
| "bus_loop_n cfg g (Suc n) loc =
     Get (\<lambda>s. if \<not> aq_running s then Ret (Some loc)
              else co_bind (bus_pass cfg g loc) (\<lambda>r. case r of None \<Rightarrow> Ret None | Some loc' \<Rightarrow> bus_loop_n cfg g n loc'))"

text \<open>Every device has clock readings of its own for its first deadline and eligibility.\<close>

fun clock_each :: "acq_cfg \<Rightarrow> poll_device list \<Rightarrow> (string \<Rightarrow> real) \<Rightarrow> (string \<Rightarrow> real) acq_co" where
  "clock_each cfg [] f = Ret f"
| "clock_each cfg (d # ds) f = co_bind (read_clock cfg) (\<lambda>now. clock_each cfg ds (f(dr_name d := now)))"

definition bus_coordinators :: "bus_group \<Rightarrow> nat list" where
  "bus_coordinators g = remdups (List.map_filter dr_coordinator (bg_devices g))"

definition bus_loop :: "acq_cfg \<Rightarrow> bus_group \<Rightarrow> nat \<Rightarrow> bus_loc option acq_co" where
  "bus_loop cfg g n =
     co_bind (clock_each cfg (bg_devices g) (\<lambda>_. 0)) (\<lambda>due.
     co_bind (clock_each cfg (bg_devices g) (\<lambda>_. 0)) (\<lambda>eligible.
       if 1 < length (bus_coordinators g) then Raise (Exn ''RuntimeError'')
       else bus_loop_n cfg g n
              \<lparr> bl_due = due, bl_eligible = eligible, bl_backoff = (\<lambda>_. 1/100), bl_correlated = 0,
                bl_failure_generation = [], bl_ifc_succeeded = False \<rparr>))"

end
