(* ===== verification/SchedStop.thy ===== *)
theory SchedStop
  imports BusPoll
begin

text \<open>
  Registering instruments, starting the poll tasks and stopping them: \<open>Scheduler.add\<close>, \<open>start\<close> and \<open>stop\<close>
  (\<^verbatim>\<open>src/cryodaq/core/scheduler.py\<close>). The registered instruments are a list, in the order of the dictionary
  \<open>_instruments\<close>. The poll tasks, and what they retain, are child tasks of the state.
\<close>

section \<open>Registration\<close>

text \<open>A reviewed source that is connected already has no generation: it must be disconnected first.\<close>

definition sched_add :: "poll_device \<Rightarrow> poll_device list \<Rightarrow> poll_device list acq_co" where
  "sched_add d ds =
     (if dr_name d \<in> set (map dr_name ds) then Raise (Exn ''ValueError'')
      else co_then
        (co_modify (\<lambda>s. upd d (\<lambda>_. fresh_inst\<lparr> is_disconnect_required := reviewed_binding d \<and> connected d s \<rparr>) s))
        (Ret (ds @ [d])))"

section \<open>Starting\<close>

text \<open>A descriptor-authoritative writer and two brokers need both safety handlers.\<close>

definition handlers_missing :: "acq_cfg \<Rightarrow> bool" where
  "handlers_missing cfg =
     (ac_safety_broker cfg \<and> (case ac_writer cfg of None \<Rightarrow> False | Some wc \<Rightarrow> wc_live wc)
      \<and> (\<not> ac_failed_handler cfg \<or> ac_recovery_handler cfg = None))"

definition add_to_group :: "string \<Rightarrow> poll_device \<Rightarrow> (string \<times> poll_device list) list \<Rightarrow> (string \<times> poll_device list) list" where
  "add_to_group bus d gs = AList.update bus ((case map_of gs bus of None \<Rightarrow> [] | Some ds \<Rightarrow> ds) @ [d]) gs"

fun shared_groups :: "poll_device list \<Rightarrow> (string \<times> poll_device list) list \<Rightarrow> (string \<times> poll_device list) list" where
  "shared_groups [] gs = gs"
| "shared_groups (d # ds) gs =
     shared_groups ds
       (if dr_enabled d then (case dr_descriptor d of None \<Rightarrow> gs | Some b \<Rightarrow> add_to_group (bu_bus_id b) d gs) else gs)"

definition standalone :: "poll_device list \<Rightarrow> poll_device list" where
  "standalone ds = filter (\<lambda>d. dr_enabled d \<and> dr_descriptor d = None) ds"

definition contradictory :: "string \<times> poll_device list \<Rightarrow> bool" where
  "contradictory g =
     (length (remdups (map dr_descriptor (snd g))) \<noteq> 1 \<or> 1 < length (remdups (map dr_coordinator (snd g))))"

definition set_task :: "nat option \<Rightarrow> poll_device \<Rightarrow> acq \<Rightarrow> acq" where
  "set_task t d = upd d (\<lambda>i. i\<lparr> is_task := t \<rparr>)"

definition start_group :: "string \<times> poll_device list \<Rightarrow> unit acq_co" where
  "start_group g =
     co_bind (create_task (BusPollTask (fst g))) (\<lambda>t.
     co_then (co_modify (\<lambda>s. s\<lparr> aq_shared_tasks := AList.update (fst g) t (aq_shared_tasks s) \<rparr>))
       (co_each (\<lambda>d. co_modify (set_task (Some t) d)) (snd g)))"

definition start_alone :: "poll_device \<Rightarrow> unit acq_co" where
  "start_alone d = co_bind (create_task (PollTask (dr_name d))) (\<lambda>t. co_modify (set_task (Some t) d))"

definition set_running :: "bool \<Rightarrow> acq \<Rightarrow> acq" where
  "set_running b s = s\<lparr> aq_running := b \<rparr>"

definition sched_start :: "acq_cfg \<Rightarrow> poll_device list \<Rightarrow> unit acq_co" where
  "sched_start cfg ds =
     (if handlers_missing cfg then Raise (Exn ''RuntimeError'')
      else co_then (co_modify (set_running True))
        (let groups = shared_groups ds []
         in if list_ex contradictory groups
            then co_then (co_modify (set_running False)) (Raise (Exn ''ValueError''))
            else co_then (co_each start_group groups) (co_each start_alone (standalone ds))))"

section \<open>Stopping\<close>

definition live :: "acq \<Rightarrow> nat option \<Rightarrow> nat list" where
  "live s t = (case t of None \<Rightarrow> [] | Some n \<Rightarrow> if task_done n s then [] else [n])"

definition poll_tasks :: "poll_device list \<Rightarrow> acq \<Rightarrow> nat list" where
  "poll_tasks ds s =
     remdups (concat (map (\<lambda>d. live s (is_task (me d s))) ds) @ concat (map (\<lambda>(b, t). live s (Some t)) (aq_shared_tasks s)))"

text \<open>Drain, then cancel. The results of the completed tasks are taken and dropped.\<close>

definition stop_drain :: "acq_cfg \<Rightarrow> poll_device list \<Rightarrow> unit acq_co" where
  "stop_drain cfg ds =
     Get (\<lambda>s. let ts = poll_tasks ds s
       in if ts = [] then Ret ()
          else co_then (aw_done (WaitTasks ts (ac_drain_timeout_s cfg)))
            (Get (\<lambda>s. let pending = filter (\<lambda>t. \<not> task_done t s) ts
              in if pending = [] then Ret ()
                 else co_then (co_modify (\<lambda>s. foldl (\<lambda>s t. request_cancel t s) s pending))
                        (aw_done (WaitTasks pending (ac_drain_timeout_s cfg))))))"

text \<open>The generation of a reviewed source whose poll task resists is cut at once.\<close>

definition stop_revoke :: "acq_cfg \<Rightarrow> poll_device \<Rightarrow> unit acq_co" where
  "stop_revoke cfg d =
     Get (\<lambda>s. if live s (is_task (me d s)) = [] \<or> \<not> reviewed_binding d then Ret ()
       else co_then
         (case is_generation (me d s) of
            Some g \<Rightarrow> revoke_generation_now cfg d g
          | None \<Rightarrow> co_modify (invalidate_receipt d))
         (retain_disconnect_settlement d))"

definition abandon_attempt :: "poll_device \<Rightarrow> acq \<Rightarrow> acq" where
  "abandon_attempt d s =
     (case is_attempt (me d s) of
        None \<Rightarrow> s
      | Some a \<Rightarrow> upd_attempt a (\<lambda>x. x\<lparr> ra_abandon_requested := True, ra_abandon_event := True \<rparr>) s)"

definition reviewed_tasks :: "poll_device \<Rightarrow> acq \<Rightarrow> nat list" where
  "reviewed_tasks d s =
     (case is_attempt (me d s) of
        None \<Rightarrow> []
      | Some a \<Rightarrow> live s (ra_owner_task (aq_attempts s a)) @ live s (ra_cleanup_retry_task (aq_attempts s a)))
     @ live s (is_disconnect_task (me d s))"

definition stop_settle :: "acq_cfg \<Rightarrow> poll_device list \<Rightarrow> unit acq_co" where
  "stop_settle cfg ds =
     co_then (co_each (\<lambda>d. co_modify (abandon_attempt d)) ds)
       (Get (\<lambda>s. let ts = remdups (concat (map (\<lambda>d. reviewed_tasks d s) ds))
         in if ts = [] then Ret () else aw_done (WaitTasks ts (ac_drain_timeout_s cfg))))"

datatype stop_verdict = StopSettled | StopReviewed | StopOrdinary

definition remaining :: "acq_cfg \<Rightarrow> real \<Rightarrow> real acq_co" where
  "remaining cfg deadline = co_bind (read_clock cfg) (\<lambda>now. Ret (max 0 (deadline - now)))"

definition stop_attempt :: "acq_cfg \<Rightarrow> real \<Rightarrow> poll_device \<Rightarrow> bool acq_co" where
  "stop_attempt cfg deadline d =
     Get (\<lambda>s. case is_attempt (me d s) of
         None \<Rightarrow> Ret True
       | Some a \<Rightarrow>
           (case ra_owner_task (aq_attempts s a) of
              None \<Rightarrow> Ret False
            | Some t \<Rightarrow>
                if \<not> task_done t s then Ret False
                else co_bind (co_attempt (task_result t)) (\<lambda>r.
                  co_then (case r of Inl e \<Rightarrow> co_modify (upd_attempt a (\<lambda>x. x\<lparr> ra_failure := Some e \<rparr>)) | Inr _ \<Rightarrow> Ret ())
                    (co_bind
                      (Get (\<lambda>s. if ra_failure (aq_attempts s a) \<noteq> None
                                then co_bind (remaining cfg deadline) (retry_failed_attempt d a) else Ret True))
                      (\<lambda>settled. if \<not> settled then Ret False
                         else co_try (adjudicate_attempt d False)
                                (\<lambda>e. if e = SETTLEMENT_INCOMPLETE then Ret False else Raise e))))))"

definition bus_operation_live :: "poll_device \<Rightarrow> acq \<Rightarrow> bool" where
  "bus_operation_live d s =
     (case dr_descriptor d of
        None \<Rightarrow> False
      | Some b \<Rightarrow> bu_bus_id b \<in> set (aq_terminal_bus s) \<and> live s (aq_unsettled_bus s (bu_bus_id b)) \<noteq> [])"

definition needs_disconnect :: "poll_device \<Rightarrow> acq \<Rightarrow> bool" where
  "needs_disconnect d s =
     (is_disconnect_required (me d s) \<or> is_disconnect_task (me d s) \<noteq> None \<or> is_generation (me d s) \<noteq> None \<or> connected d s)"

definition stop_disconnect :: "acq_cfg \<Rightarrow> real \<Rightarrow> poll_device \<Rightarrow> stop_verdict acq_co" where
  "stop_disconnect cfg deadline d =
     (if reviewed_binding d
      then Get (\<lambda>s. if needs_disconnect d s
             then co_bind (remaining cfg deadline) (\<lambda>left.
                  co_bind (disconnect_driver cfg d left) (\<lambda>ok. Ret (if ok then StopSettled else StopReviewed)))
             else Ret StopSettled)
      else co_bind (disconnect_driver cfg d DISCONNECT_TIMEOUT_S) (\<lambda>ok. Ret (if ok then StopSettled else StopOrdinary)))"

text \<open>A live operation on a terminal bus defers the disconnection.\<close>

definition stop_unsettled :: "poll_device \<Rightarrow> stop_verdict acq_co" where
  "stop_unsettled d =
     (if reviewed_binding d then co_then (co_modify (invalidate_receipt d)) (Ret StopReviewed) else Ret StopOrdinary)"

definition stop_one :: "acq_cfg \<Rightarrow> real \<Rightarrow> poll_device \<Rightarrow> stop_verdict acq_co" where
  "stop_one cfg deadline d =
     Get (\<lambda>s. if live s (is_task (me d s)) \<noteq> [] then stop_unsettled d
       else co_then (co_modify (set_task None d))
         (co_bind (stop_attempt cfg deadline d) (\<lambda>ok.
            if \<not> ok then Ret StopReviewed
            else Get (\<lambda>s. if bus_operation_live d s then stop_unsettled d else stop_disconnect cfg deadline d))))"

definition stop_all :: "acq_cfg \<Rightarrow> real \<Rightarrow> poll_device list \<Rightarrow> stop_verdict list acq_co" where
  "stop_all cfg deadline ds =
     co_fold (\<lambda>d vs. co_bind (stop_one cfg deadline d) (\<lambda>v. Ret (vs @ [v]))) ds []"

definition sched_stop :: "acq_cfg \<Rightarrow> poll_device list \<Rightarrow> unit acq_co" where
  "sched_stop cfg ds =
     co_then (co_modify (set_running False))
    (co_then (stop_drain cfg ds)
    (co_then (co_each (stop_revoke cfg) ds)
    (co_bind (read_clock cfg) (\<lambda>now.
     co_then (stop_settle cfg ds)
    (co_bind (stop_all cfg (now + ac_drain_timeout_s cfg) ds) (\<lambda>vs.
       if StopReviewed \<in> set vs then Raise SETTLEMENT_INCOMPLETE
       else if StopOrdinary \<in> set vs then Raise (Exn ''RuntimeError'')
       else co_modify (\<lambda>s. s\<lparr> aq_shared_tasks := [] \<rparr>)))))))"

end
