(* ===== verification/CoKeeps.thy ===== *)
theory CoKeeps
  imports Coroutines
begin

text \<open>
  State invariants of coroutines: \<open>co_keeps aw I p\<close> says that \<open>p\<close>, started in \<open>I\<close>, only makes admitted awaits and
  ends in \<open>I\<close>, whether it returns or raises. The rules follow the combinators, so that an operation
  is checked step by step; the rules for the runs of \<open>rely_aw\<close> turn the result into one about histories.
\<close>

definition co_keeps ::
  "('g \<Rightarrow> 's \<Rightarrow> 'q \<Rightarrow> ('g \<Rightarrow> 's \<Rightarrow> 'r \<Rightarrow> bool) \<Rightarrow> bool) \<Rightarrow> ('s \<Rightarrow> bool) \<Rightarrow> ('s, 'q, 'r, 'e, 'a) co \<Rightarrow> bool" where
  "co_keeps aw I p = (\<forall>g s. I s \<longrightarrow> wp aw p (\<lambda>_ _ s. I s) (\<lambda>_ _ s. I s) g s)"

named_theorems keeps_intros "steps of a coroutine that keep an invariant"

lemma keepsI: "(\<And>g s. I s \<Longrightarrow> wp aw p (\<lambda>_ _ s. I s) (\<lambda>_ _ s. I s) g s) \<Longrightarrow> co_keeps aw I p"
  and keepsD: "co_keeps aw I p \<Longrightarrow> I s \<Longrightarrow> wp aw p (\<lambda>_ _ s. I s) (\<lambda>_ _ s. I s) g s"
  by (auto simp: co_keeps_def)

lemma keeps_leaves [keeps_intros]: "co_keeps aw I (Ret x)" "co_keeps aw I (Raise e)" "co_keeps aw I (co_gets f)"
    "co_keeps aw I (co_require c e)"
  by (auto simp: co_keeps_def co_simps)

lemma keeps_Get [keeps_intros]: "(\<And>s. co_keeps aw I (f s)) \<Longrightarrow> co_keeps aw I (Get f)"
  by (auto simp: co_keeps_def)

lemma keeps_modify [keeps_intros]: "(\<And>s. I s \<Longrightarrow> I (f s)) \<Longrightarrow> co_keeps aw I (co_modify f)"
  by (auto simp: co_keeps_def co_simps)

lemma keeps_update: "(\<And>s. I s \<Longrightarrow> I (f s)) \<Longrightarrow> (\<And>s. co_keeps aw I (p s)) \<Longrightarrow> co_keeps aw I (Get (\<lambda>s. Put (f s) (p s)))"
  by (auto simp: co_keeps_def)

lemma keeps_branches [keeps_intros]:
  "co_keeps aw I p \<Longrightarrow> co_keeps aw I q \<Longrightarrow> co_keeps aw I (if b then p else q)"
  "co_keeps aw I p \<Longrightarrow> (\<And>x. co_keeps aw I (f x)) \<Longrightarrow> co_keeps aw I (case y of None \<Rightarrow> p | Some x \<Rightarrow> f x)"
  "(\<And>e. co_keeps aw I (h e)) \<Longrightarrow> (\<And>x. co_keeps aw I (f x)) \<Longrightarrow> co_keeps aw I (case r of Inl e \<Rightarrow> h e | Inr x \<Rightarrow> f x)"
  "(\<And>x z. co_keeps aw I (k x z)) \<Longrightarrow> co_keeps aw I (case w of (x, z) \<Rightarrow> k x z)"
  "co_keeps aw I p \<Longrightarrow> co_keeps aw I q \<Longrightarrow> co_keeps aw I (case b of True \<Rightarrow> p | False \<Rightarrow> q)"
  "co_keeps aw I (m v) \<Longrightarrow> co_keeps aw I (Let v m)"
  by (auto simp: co_keeps_def split: option.split sum.split prod.split bool.split)

lemma keeps_when [keeps_intros]: "co_keeps aw I p \<Longrightarrow> co_keeps aw I (co_when b p)"
  by (simp add: co_when_def keeps_leaves)

lemma keeps_result [keeps_intros]: "co_keeps aw I (co_result r)"
  by (cases r) (simp_all add: keeps_leaves)

context await_logic
begin

lemma keeps_bind [keeps_intros]:
  assumes "co_keeps aw I p" "\<And>x. co_keeps aw I (f x)"
  shows "co_keeps aw I (co_bind p f)"
proof (rule keepsI, unfold wp_bind)
  fix g s
  assume "I s"
  from keepsD [OF assms(1) this]
  show "wp aw p (\<lambda>x. wp aw (f x) (\<lambda>_ _ s. I s) (\<lambda>_ _ s. I s)) (\<lambda>_ _ s. I s) g s"
    by (rule wp_weaken) (rule keepsD [OF assms(2)], assumption+)
qed

lemma keeps_attempt [keeps_intros]: "co_keeps aw I p \<Longrightarrow> co_keeps aw I (co_attempt p)"
  by (simp add: co_keeps_def co_simps)

lemma keeps_then [keeps_intros]: "co_keeps aw I p \<Longrightarrow> co_keeps aw I q \<Longrightarrow> co_keeps aw I (co_then p q)"
  unfolding co_then_def by (rule keeps_bind)

lemma keeps_try [keeps_intros]: "co_keeps aw I p \<Longrightarrow> (\<And>e. co_keeps aw I (h e)) \<Longrightarrow> co_keeps aw I (co_try p h)"
  unfolding co_try_def by (intro keeps_bind keeps_attempt keeps_branches(3) keeps_leaves)

lemma keeps_finally [keeps_intros]: "co_keeps aw I p \<Longrightarrow> co_keeps aw I f \<Longrightarrow> co_keeps aw I (co_finally p f)"
  unfolding co_finally_def by (intro keeps_bind keeps_attempt keeps_result)

lemma keeps_each [keeps_intros]: "(\<And>x. x \<in> set xs \<Longrightarrow> co_keeps aw I (f x)) \<Longrightarrow> co_keeps aw I (co_each f xs)"
  by (induction xs) (auto intro: keeps_intros keeps_then)

lemma keeps_fold [keeps_intros]: "(\<And>x c. x \<in> set xs \<Longrightarrow> co_keeps aw I (f x c)) \<Longrightarrow> co_keeps aw I (co_fold f xs c)"
  by (induction xs arbitrary: c) (auto intro: keeps_intros keeps_bind)

end

text \<open>A run whose interference stays in \<open>R\<close> makes each request in a state that is \<open>ok\<close>, and ends in \<open>I\<close>.\<close>

lemma keeps_trace:
  assumes "co_keeps (rely_aw R ok) I p" "I s" "interference_in R as" "(q, t, a) \<in> set (co_trace p s as)"
  shows "\<exists>g. ok g t q"
proof -
  obtain pre post where "co_trace p s as = pre @ (q, t, a) # post" using assms(4) by (meson split_list)
  from rely_trace [OF keepsD [OF assms(1,2)] this assms(3)] show ?thesis by blast
qed

lemma keeps_end:
  assumes "co_keeps (rely_aw R ok) I p" "I s" "interference_in R as" "co_drive p s as = (qs, t, Some r)"
  shows "I t"
  using rely_end [OF keepsD [OF assms(1,2), where g = "[]"] assms(4,3)] by (cases r) auto

text \<open>Under \<open>rely_aw\<close> postconditions are conjoined, and without requirements everything is admitted.\<close>

lemma rely_conj:
  "wp (rely_aw R ok) p Q E g s \<Longrightarrow> wp (rely_aw R ok) p Q' E' g s \<Longrightarrow>
   wp (rely_aw R ok) p (\<lambda>x g s. Q x g s \<and> Q' x g s) (\<lambda>e g s. E e g s \<and> E' e g s) g s"
proof (induction p arbitrary: g s)
  case (Await q k)
  note w = rely_awD [OF Await.prems(1) [unfolded wp.simps]] rely_awD(2) [OF Await.prems(2) [unfolded wp.simps]]
  show ?case unfolding wp.simps by (rule rely_awI) (auto intro: w Await.IH)
qed auto

lemma rely_any: "wp (rely_aw R (\<lambda>_ _ _. True)) p (\<lambda>_ _ _. True) (\<lambda>_ _ _. True) g s"
  by (induction p arbitrary: g s) (auto simp: rely_aw_def)

lemma rely_ball:
  "(\<And>i. i \<in> A \<Longrightarrow> wp (rely_aw R (\<lambda>_ _ _. True)) p (Q i) (\<lambda>_ _ _. True) g s) \<Longrightarrow>
   wp (rely_aw R (\<lambda>_ _ _. True)) p (\<lambda>x g s. \<forall>i\<in>A. Q i x g s) (\<lambda>_ _ _. True) g s"
  by (induction p arbitrary: g s) (auto simp: rely_aw_def)

end
