(* ===== verification/SchedTyping.thy ===== *)
theory SchedTyping
  imports SchedStop CoKeeps
begin

text \<open>
  The store of the scheduler is well typed: what a record of the state refers to is a child task that was
  created for exactly this purpose. Every coroutine of the scheduler keeps the store well typed, as
  long as the others do.
\<close>

section \<open>The typing of the store\<close>

text \<open>A child number names one child, and only numbers below the counter are in use.\<close>

definition spawned_once :: "acq \<Rightarrow> bool" where
  "spawned_once s = (distinct (map fst (aq_spawned s)) \<and> (\<forall>t\<in>set (map fst (aq_spawned s)). t < aq_next_task s))"

definition spawned :: "acq \<Rightarrow> nat \<Rightarrow> spawn \<Rightarrow> bool" where
  "spawned s t b = ((t, b) \<in> set (aq_spawned s))"

definition inst_typed :: "acq \<Rightarrow> string \<Rightarrow> inst \<Rightarrow> bool" where
  "inst_typed s n i =
     ((\<forall>t. is_task i = Some t \<longrightarrow> spawned s t (PollTask n) \<or> (\<exists>bus. spawned s t (BusPollTask bus)))
      \<and> (\<forall>a. is_attempt i = Some a \<longrightarrow> a < aq_next_attempt s)
      \<and> (\<forall>t. is_disconnect_task i = Some t \<longrightarrow>
           (\<exists>rv. is_disconnect_task_revision i = Some rv \<and> rv \<le> is_disconnect_revision i \<and> spawned s t (DisconnectExact n rv))))"

text \<open>A committed attempt has the evidence for it; an owner that has returned has decided.\<close>

definition attempt_typed :: "acq \<Rightarrow> nat \<Rightarrow> rattempt \<Rightarrow> bool" where
  "attempt_typed s a x =
     ((\<forall>t. ra_owner_task x = Some t \<longrightarrow> (\<exists>n. spawned s t (OwnConnect n a)))
      \<and> (\<forall>t. ra_cleanup_retry_task x = Some t \<longrightarrow> (\<exists>n. spawned s t (CleanupRetry n a)))
      \<and> (ra_connected_committed x \<longrightarrow> (\<exists>e. ra_off_evidence x = Some e \<and> satisfies_tier e))
      \<and> (\<forall>t v. ra_owner_task x = Some t \<longrightarrow> aq_tasks s t = Finished (Inr v) \<longrightarrow>
           ra_connected_committed x \<or> ra_operation_error x \<noteq> None))"

definition sched_typed :: "acq \<Rightarrow> bool" where
  "sched_typed s =
     (spawned_once s \<and> (\<forall>n. inst_typed s n (aq_inst s n)) \<and> (\<forall>a. attempt_typed s a (aq_attempts s a)))"

lemma typed_cong:
  "aq_inst s' = aq_inst s \<Longrightarrow> aq_tasks s' = aq_tasks s \<Longrightarrow> aq_next_task s' = aq_next_task s \<Longrightarrow>
   aq_spawned s' = aq_spawned s \<Longrightarrow> aq_attempts s' = aq_attempts s \<Longrightarrow> aq_next_attempt s' = aq_next_attempt s \<Longrightarrow>
   sched_typed s' = sched_typed s"
  by (simp add: sched_typed_def spawned_once_def spawned_def inst_typed_def attempt_typed_def)

named_theorems typed_steps "updates that keep the store typed"
named_theorems inv_steps "updates that keep an invariant of the scheduler"

lemma typed_plain [typed_steps]:
  "sched_typed s \<Longrightarrow> sched_typed (s\<lparr> aq_writer := w \<rparr>)" "sched_typed s \<Longrightarrow> sched_typed (s\<lparr> aq_throttle := t \<rparr>)"
  "sched_typed s \<Longrightarrow> sched_typed (s\<lparr> aq_cal := c \<rparr>)" "sched_typed s \<Longrightarrow> sched_typed (s\<lparr> aq_missing_reported := b \<rparr>)"
  "sched_typed s \<Longrightarrow> sched_typed (s\<lparr> aq_running := b \<rparr>)" "sched_typed s \<Longrightarrow> sched_typed (s\<lparr> aq_ticks := n \<rparr>)"
  "sched_typed s \<Longrightarrow> sched_typed (s\<lparr> aq_cancel_requests := cs \<rparr>)" "sched_typed s \<Longrightarrow> sched_typed (s\<lparr> aq_terminal_bus := bs \<rparr>)"
  "sched_typed s \<Longrightarrow> sched_typed (s\<lparr> aq_unsettled_bus := f \<rparr>)" "sched_typed s \<Longrightarrow> sched_typed (s\<lparr> aq_shared_tasks := ts \<rparr>)"
  "sched_typed s \<Longrightarrow> sched_typed (s\<lparr> aq_log := es \<rparr>)"
  by (simp_all add: sched_typed_def spawned_once_def spawned_def inst_typed_def attempt_typed_def)

lemma typed_upd_inst:
  assumes "sched_typed s" "inst_typed s n (aq_inst s n) \<Longrightarrow> inst_typed s n (f (aq_inst s n))"
  shows "sched_typed (upd_inst n f s)"
  using assms by (auto simp: sched_typed_def upd_inst_def spawned_once_def spawned_def inst_typed_def attempt_typed_def)

lemma typed_upd_attempt:
  assumes "sched_typed s" "attempt_typed s a (aq_attempts s a) \<Longrightarrow> attempt_typed s a (f (aq_attempts s a))"
  shows "sched_typed (upd_attempt a f s)"
  using assms by (auto simp: sched_typed_def upd_attempt_def spawned_once_def spawned_def inst_typed_def attempt_typed_def)

definition with_child :: "spawn \<Rightarrow> acq \<Rightarrow> acq" where
  "with_child b s = s\<lparr> aq_next_task := aq_next_task s + 1, aq_tasks := (aq_tasks s)(aq_next_task s := Pending),
     aq_spawned := aq_spawned s @ [(aq_next_task s, b)] \<rparr>"

lemma with_child_simps [simp]:
  "aq_inst (with_child b s) = aq_inst s" "aq_attempts (with_child b s) = aq_attempts s"
  "aq_next_attempt (with_child b s) = aq_next_attempt s" "aq_next_task (with_child b s) = aq_next_task s + 1"
  "aq_tasks (with_child b s) = (aq_tasks s)(aq_next_task s := Pending)"
  "spawned (with_child b s) t c \<longleftrightarrow> spawned s t c \<or> (t, c) = (aq_next_task s, b)"
  "aq_running (with_child b s) = aq_running s" "aq_connected (with_child b s) = aq_connected s"
  by (auto simp: with_child_def spawned_def)

lemma create_task_eq: "create_task b = Get (\<lambda>s. Put (with_child b s) (Ret (aq_next_task s)))"
  by (simp add: create_task_def with_child_def Let_def)

lemma typed_spawn [typed_steps]:
  assumes "sched_typed s"
  shows "sched_typed (with_child b s)"
proof -
  have "spawned_once (with_child b s)"
    using assms by (fastforce simp: sched_typed_def spawned_once_def with_child_def)
  moreover have "inst_typed (with_child b s) n (aq_inst s n)" for n
    using assms by (fastforce simp: sched_typed_def inst_typed_def)
  moreover have "attempt_typed (with_child b s) a (aq_attempts s a)" for a
  proof -
    have "attempt_typed s a (aq_attempts s a)" using assms by (simp add: sched_typed_def)
    thus ?thesis by (auto simp: attempt_typed_def)
  qed
  ultimately show ?thesis by (simp add: sched_typed_def)
qed

section \<open>Invariants of the scheduler\<close>

text \<open>
  The interface of an invariant \<open>I\<close> that the coroutines of the scheduler keep: it survives the interference,
  admits every request that is not \<open>special\<close> and every child that is \<open>allowed\<close>, and every update
  that keeps the store well typed. A bus whose operations are not allowed is terminal. Instruments
  that are not \<open>mine\<close> are not touched, and only those in \<open>connects\<close> get a connect attempt.
\<close>

definition started_attempt :: "poll_device \<Rightarrow> acq \<Rightarrow> acq" where
  "started_attempt d s =
     (let a = aq_next_attempt s
      in upd d (\<lambda>i. i\<lparr> is_attempt := Some a \<rparr>) (s\<lparr> aq_next_attempt := a + 1, aq_attempts := (aq_attempts s)(a := fresh_attempt) \<rparr>))"

lemma new_attempt_eq: "new_attempt d = Get (\<lambda>s. Put (started_attempt d s) (Ret (aq_next_attempt s)))"
  by (simp add: new_attempt_def started_attempt_def Let_def)

text \<open>An update of an instrument drops its poll task or its attempt, or leaves them alone, and stays well typed.\<close>

definition inst_step :: "acq \<Rightarrow> string \<Rightarrow> inst \<Rightarrow> inst \<Rightarrow> bool" where
  "inst_step s n i j =
     ((is_task j = is_task i \<or> is_task j = None) \<and> (is_attempt j = is_attempt i \<or> is_attempt j = None)
      \<and> (inst_typed s n i \<longrightarrow> inst_typed s n j))"

locale sched_inv =
  fixes R :: "acq \<Rightarrow> acq \<Rightarrow> bool"
    and ok :: "(acq_req \<times> acq_ans) list \<Rightarrow> acq \<Rightarrow> acq_req \<Rightarrow> bool"
    and I :: "acq \<Rightarrow> bool"
    and special :: "acq_req \<Rightarrow> bool"
    and allowed :: "spawn \<Rightarrow> bool"
    and mine connects :: "string \<Rightarrow> bool"
  assumes I_rely: "I s \<Longrightarrow> R s s' \<Longrightarrow> I s'"
    and I_calls: "I s \<Longrightarrow> \<not> special q \<Longrightarrow> ok g s q"
    and only_reads: "special q \<Longrightarrow> \<exists>name timeout. q = DriverRead name timeout"
    and I_plain: "I s \<Longrightarrow> I (s\<lparr> aq_writer := w \<rparr>)" "I s \<Longrightarrow> I (s\<lparr> aq_throttle := t \<rparr>)" "I s \<Longrightarrow> I (s\<lparr> aq_cal := c \<rparr>)"
      "I s \<Longrightarrow> I (s\<lparr> aq_missing_reported := b \<rparr>)" "I s \<Longrightarrow> I (s\<lparr> aq_running := b \<rparr>)" "I s \<Longrightarrow> I (s\<lparr> aq_ticks := m \<rparr>)"
      "I s \<Longrightarrow> I (s\<lparr> aq_cancel_requests := cs \<rparr>)" "I s \<Longrightarrow> I (s\<lparr> aq_unsettled_bus := f \<rparr>)"
      "I s \<Longrightarrow> I (s\<lparr> aq_shared_tasks := ts \<rparr>)" "I s \<Longrightarrow> I (s\<lparr> aq_log := es \<rparr>)"
      "I s \<Longrightarrow> I (s\<lparr> aq_terminal_bus := b' # aq_terminal_bus s \<rparr>)"
    and I_inst: "mine n \<Longrightarrow> I s \<Longrightarrow> inst_step s n (aq_inst s n) (h (aq_inst s n)) \<Longrightarrow> I (upd_inst n h s)"
    and I_attempt: "I s \<Longrightarrow> (attempt_typed s a (aq_attempts s a) \<Longrightarrow> attempt_typed s a (k (aq_attempts s a))) \<Longrightarrow> I (upd_attempt a k s)"
    and I_started: "connects (dr_name d) \<Longrightarrow> I s \<Longrightarrow> I (started_attempt d s)"
    and I_spawn: "I s \<Longrightarrow> allowed c' \<Longrightarrow> I (with_child c' s)"
    and child_allowed: "(\<And>bus l. c' \<noteq> BusOperation bus l) \<Longrightarrow> allowed c'"
    and bus_allowed: "I s \<Longrightarrow> bus \<notin> set (aq_terminal_bus s) \<Longrightarrow> allowed (BusOperation bus l)"
begin

abbreviation keeps :: "'a acq_co \<Rightarrow> bool" where
  "keeps \<equiv> co_keeps (rely_aw R ok) I"

lemma keeps_await:
  assumes "\<not> special q" "\<And>a. keeps (k a)"
  shows "keeps (Await q k)"
  unfolding co_keeps_def wp.simps
  by (intro allI impI rely_awI) (use assms in \<open>auto intro: I_calls I_rely dest: keepsD\<close>)

lemma ordinary:
  "\<not> special (ReadSrdg n)" "\<not> special (CommitWait t)" "\<not> special (WriteImmediate rs)" "\<not> special (PublishData rs b es)"
  "\<not> special (PublishSafety rs)" "\<not> special (FailedPoll n r)" "\<not> special (DriverConnect n x)" "\<not> special (DriverDisconnect n x)"
  "\<not> special (SleepFor x)" "\<not> special (WaitTask t y)" "\<not> special (WaitTasks ts x)" "\<not> special (WaitFirst t u)"
  "\<not> special (ConnectBegin n)" "\<not> special (ConnectComplete n t)" "\<not> special (ConnectUncertain n t)"
  "\<not> special (ReviewedDisconnect n g)" "\<not> special (MarkDisconnected n)" "\<not> special (AbortConnect n x)"
  by (auto dest: only_reads)

lemma keeps_aw:
  assumes "\<not> special q"
  shows "keeps (aw_done q)" "keeps (aw_readings q)" "keeps (aw_flag q)" "keeps (aw_generation q)" "keeps (aw_evidence q)"
  unfolding aw_done_def aw_readings_def aw_flag_def aw_generation_def aw_evidence_def
  by (rule keeps_await [OF assms], simp split: acq_ans.split, intro allI impI conjI keeps_leaves)+

lemmas keeps_calls [keeps_intros] = ordinary [THEN keeps_aw(1)] ordinary [THEN keeps_aw(2)] ordinary [THEN keeps_aw(3)]
  ordinary [THEN keeps_aw(4)] ordinary [THEN keeps_aw(5)]

lemma keeps_create [keeps_intros]: "allowed c \<Longrightarrow> keeps (create_task c)"
  unfolding create_task_eq by (rule keeps_update) (auto intro: I_spawn keeps_leaves)

lemma keeps_clock [keeps_intros]: "keeps (read_clock cfg)"
  unfolding read_clock_def by (rule keeps_update) (auto intro: I_plain keeps_leaves)

lemma keeps_task_result [keeps_intros]: "keeps (task_result t)"
  unfolding task_result_def
  by (rule keeps_Get, simp split: child_task.split sum.split, intro allI impI conjI keeps_leaves)

lemma keeps_on_writer [keeps_intros]: "keeps (on_writer f)"
  unfolding on_writer_def
  by (rule keepsI) (simp split: prod.split, auto intro: I_plain keepsD [OF keeps_result])

end

end
