(* ===== verification/SchedKeeps.thy ===== *)
theory SchedKeeps
  imports SchedTyping
begin

text \<open>
  Every coroutine of the scheduler keeps every invariant of the interface \<open>sched_inv\<close>. The lemmas follow the
  order of the definitions; each is a walk through the code.
\<close>

section \<open>Steps\<close>

context sched_inv
begin

lemma steps_of_records [inv_steps]:
  assumes "I s"
  shows "I (log_event e s)" "I (upd_writer w s)" "I (request_cancel t s)" "I (set_running b s)"
    "I (s\<lparr> aq_missing_reported := b \<rparr>)" "I (s\<lparr> aq_shared_tasks := ts \<rparr>)" "I (bus_operation_settled bus s)"
  using assms by (simp_all add: log_event_def upd_writer_def request_cancel_def set_running_def bus_operation_settled_def I_plain)

lemma steps_of_observers [inv_steps]:
  assumes "I s"
  shows "I (observe_ambiguity cfg s)" "I (observe_commit cfg rc s)" "I (observe_rejection cfg n e s)" "I (count_srdg rs p s)"
    "I (make_terminal bus s)"
  using assms
  by (simp_all add: observe_ambiguity_def observe_commit_def observe_rejection_def count_srdg_def make_terminal_def Let_def
      steps_of_records I_plain split: option.split)

text \<open>Updates of an instrument that leave its tasks and its attempt alone.\<close>

lemma step_of_inst:
  assumes "mine n" "I s" "\<And>i. is_task (h i) = is_task i \<and> is_attempt (h i) = is_attempt i \<and> is_disconnect_task (h i) = is_disconnect_task i
      \<and> is_disconnect_task_revision (h i) = is_disconnect_task_revision i \<and> is_disconnect_revision i \<le> is_disconnect_revision (h i)"
  shows "I (upd_inst n h s)"
  by (rule I_inst [OF assms(1,2)]) (use assms(3) [of "aq_inst s n"] in \<open>auto simp: inst_step_def inst_typed_def intro: order.trans\<close>)

lemma steps_of_count [inv_steps]:
  assumes "mine n" "I s"
  shows "I (upd_inst n count_error s)" "I (upd_inst n count_success s)"
  by (rule step_of_inst [OF assms], simp add: count_error_def count_success_def)+

lemma steps_of_inst [inv_steps]:
  assumes "mine (dr_name d)" "I s"
  shows "I (upd d count_error s)" "I (upd d (set_backoff b) s)"
    "I (upd d (\<lambda>i. i\<lparr> is_consecutive_errors := 0, is_backoff_s := b \<rparr>) s)"
    "I (set_generation gen d s)" "I (set_required q d s)" "I (invalidate_receipt d s)"
    "I (upd d (\<lambda>i. i\<lparr> is_settlement_task := st \<rparr>) s)"
  unfolding upd_def set_generation_def set_required_def invalidate_receipt_def
  by (rule step_of_inst [OF assms], simp add: count_error_def count_success_def set_backoff_def)+

lemma step_of_task_cleared [inv_steps]:
  assumes "mine (dr_name d)" "I s"
  shows "I (set_disconnect_task None None d s)" "I (set_task None d s)"
    "I (upd d (\<lambda>i. i\<lparr> is_attempt := None, is_settlement_task := None, is_generation := gen i \<rparr>) s)"
  unfolding upd_def set_disconnect_task_def set_task_def
  by (rule I_inst [OF assms], simp add: inst_step_def inst_typed_def)+

text \<open>Updates of an attempt.\<close>

lemma step_of_attempt:
  assumes "I s" "\<And>x. ra_owner_task (k x) = ra_owner_task x \<and> ra_cleanup_retry_task (k x) = ra_cleanup_retry_task x
      \<and> ra_connected_committed (k x) = ra_connected_committed x \<and> ra_off_evidence (k x) = ra_off_evidence x
      \<and> (ra_operation_error x \<noteq> None \<longrightarrow> ra_operation_error (k x) \<noteq> None)"
  shows "I (upd_attempt a k s)"
  by (rule I_attempt [OF assms(1)]) (use assms(2) [of "aq_attempts s a"] in \<open>auto simp: attempt_typed_def\<close>)

lemma steps_of_attempt [inv_steps]:
  assumes "I s"
  shows "I (upd_attempt a (\<lambda>x. x\<lparr> ra_failure := f \<rparr>) s)"
    "I (upd_attempt a (\<lambda>x. if ra_failure x = None then x\<lparr> ra_failure := f \<rparr> else x) s)"
    "I (upd_attempt a (\<lambda>x. x\<lparr> ra_driver_io_started := b \<rparr>) s)" "I (upd_attempt a (\<lambda>x. x\<lparr> ra_driver_task := t \<rparr>) s)"
    "I (upd_attempt a (\<lambda>x. x\<lparr> ra_failure := f, ra_settled_safe := b \<rparr>) s)"
    "I (upd_attempt a (\<lambda>x. x\<lparr> ra_generation := gen, ra_generation_issued := b \<rparr>) s)"
    "I (upd_attempt a (\<lambda>x. x\<lparr> ra_revocation_observed := b \<rparr>) s)" "I (upd_attempt a (\<lambda>x. x\<lparr> ra_operation_error := Some e \<rparr>) s)"
    "I (upd_attempt a (\<lambda>x. x\<lparr> ra_abandon_requested := b, ra_abandon_event := c \<rparr>) s)"
  by (rule step_of_attempt [OF assms], simp)+

lemma steps_of_settling [inv_steps]:
  assumes "I s"
  shows "I (settle_owner a safe fs s)" "I (abandon_attempt d s)" "I (set_retry None a s)"
    "mine (dr_name d) \<Longrightarrow> I (attempt_proven_safe d a s)"
  using assms
  by (auto simp: settle_owner_def attempt_proven_safe_def abandon_attempt_def set_retry_def attempt_typed_def
      intro!: steps_of_attempt steps_of_inst I_attempt split: option.split)

section \<open>The pipeline\<close>

lemma keeps_settlement_wait [keeps_intros]: "keeps (settlement_wait wc t)"
  unfolding settlement_wait_def
  by (rule keeps_await [OF ordinary(2)], simp split: acq_ans.split, intro allI impI conjI keeps_intros inv_steps)

lemma keeps_settle_after_cancel [keeps_intros]: "keeps (settle_after_cancel cfg wc t)"
  unfolding settle_after_cancel_def settle_committed_def by (intro keeps_intros inv_steps)

lemma keeps_await_receipt [keeps_intros]: "keeps (await_receipt cfg wc rs)"
  unfolding await_receipt_def by (intro keeps_intros inv_steps)

lemma keeps_commit_batch [keeps_intros]: "keeps (commit_batch cfg wc n rs)"
  unfolding commit_batch_def by (intro keeps_intros inv_steps)

lemma keeps_write_immediate [keeps_intros]: "keeps (write_immediate wc rs)"
  unfolding write_immediate_def
  by (intro keeps_intros keeps_await ordinary) (simp split: acq_ans.split, intro allI impI conjI keeps_intros)

lemma keeps_persist [keeps_intros]: "mine name \<Longrightarrow> keeps (persist cfg wc name sel rs)"
  unfolding persist_def by (intro keeps_intros inv_steps)

lemma keeps_read_srdg [keeps_intros]: "keeps (read_srdg cfg d rs)"
  unfolding read_srdg_def by (intro keeps_intros inv_steps)

lemma keeps_select_readings [keeps_intros]: "keeps (select_readings cfg rs)"
  unfolding select_readings_def
  by (intro keeps_intros keepsI) (auto intro: I_plain split: prod.split)

lemma keeps_publish [keeps_intros]: "keeps (publish cfg name rs c)"
  unfolding publish_def note_recovered_def by (intro keeps_intros inv_steps)

lemma keeps_process_readings [keeps_intros]: "mine (dr_name d) \<Longrightarrow> keeps (process_readings cfg d b rs)"
  unfolding process_readings_def process_selected_def by (intro keeps_intros inv_steps)

lemma keeps_publish_failed_poll [keeps_intros]: "mine (dr_name d) \<Longrightarrow> keeps (publish_failed_poll cfg d)"
  unfolding publish_failed_poll_def report_failed_poll_def by (intro keeps_intros inv_steps)

section \<open>Reviewed sources\<close>

lemma allowed_children [keeps_intros]:
  "allowed (DisconnectExact n r)" "allowed (OwnConnect n a)" "allowed (CleanupRetry n a)" "allowed (DriverConnectTask n)"
  "allowed (AbandonWait a)" "allowed (AbortConnectTask n)" "allowed (BusCancel bus t)" "allowed (PollTask n)" "allowed (BusPollTask bus)"
  by (rule child_allowed, simp)+

lemma step_of_disconnect_task:
  assumes "mine (dr_name d)" "I s"
  shows "I (set_disconnect_task (Some (aq_next_task s)) (Some (is_disconnect_revision (me d s))) d
             (with_child (DisconnectExact (dr_name d) (is_disconnect_revision (me d s))) s))"
  unfolding set_disconnect_task_def upd_def
  by (rule I_inst [OF assms(1) I_spawn [OF assms(2) allowed_children(1)]]) (simp add: inst_step_def inst_typed_def me_def)

lemma keeps_start_disconnect_task [keeps_intros]: "mine (dr_name d) \<Longrightarrow> keeps (start_disconnect_task d)"
  unfolding start_disconnect_task_def
  by (rule keepsI) (simp add: create_task_eq co_simps Let_def step_of_disconnect_task)

lemma keeps_mark_reviewed_uncertain [keeps_intros]: "mine (dr_name d) \<Longrightarrow> keeps (mark_reviewed_uncertain cfg d g)"
  unfolding mark_reviewed_uncertain_def by (intro keeps_intros) (auto intro: inv_steps)

lemma keeps_disconnect_reviewed_exact [keeps_intros]: "mine (dr_name d) \<Longrightarrow> keeps (disconnect_reviewed_exact cfg d rv)"
  unfolding disconnect_reviewed_exact_def by (intro keeps_intros inv_steps) (auto simp: Let_def intro: inv_steps)

lemma keeps_await_disconnect_task [keeps_intros]: "mine (dr_name d) \<Longrightarrow> keeps (await_disconnect_task d x t)"
  unfolding await_disconnect_task_def by (intro keeps_intros inv_steps)

lemma keeps_disconnect_reviewed [keeps_intros]: "mine (dr_name d) \<Longrightarrow> keeps (disconnect_reviewed d x)"
  unfolding disconnect_reviewed_def consume_disconnect_task_def
  by (intro keeps_intros inv_steps) (auto intro: inv_steps split: option.split)

lemma keeps_disconnect_driver [keeps_intros]: "mine (dr_name d) \<Longrightarrow> keeps (disconnect_driver cfg d x)"
  unfolding disconnect_driver_def by (intro keeps_intros inv_steps)

lemma keeps_revoke_generation_now [keeps_intros]: "mine (dr_name d) \<Longrightarrow> keeps (revoke_generation_now cfg d g)"
  unfolding revoke_generation_now_def
  by (intro keeps_intros inv_steps; (assumption | simp split: abandon_result.split, intro allI impI conjI keeps_intros inv_steps))

lemma keeps_retain_disconnect_settlement [keeps_intros]: "mine (dr_name d) \<Longrightarrow> keeps (retain_disconnect_settlement d)"
  unfolding retain_disconnect_settlement_def by (intro keeps_intros inv_steps)

lemma keeps_adjudicate_attempt [keeps_intros]: "mine (dr_name d) \<Longrightarrow> keeps (adjudicate_attempt d b)"
  unfolding adjudicate_attempt_def by (intro keeps_intros inv_steps)

lemma keeps_require_not_abandoned [keeps_intros]: "keeps (require_not_abandoned a)"
  unfolding require_not_abandoned_def by (intro keeps_intros)

lemma keeps_owner_io [keeps_intros]: "mine (dr_name d) \<Longrightarrow> keeps (owner_io d a)"
  unfolding owner_io_def by (intro keeps_intros inv_steps)

text \<open>The evidence is stored before the attempt is committed.\<close>

lemma step_of_commit:
  assumes "I s" "satisfies_tier e"
  shows "I (upd_attempt a (\<lambda>x. x\<lparr> ra_off_evidence := Some e \<rparr>) s)"
    "I (upd_attempt a (\<lambda>x. x\<lparr> ra_connected_committed := True \<rparr>) (upd_attempt a (\<lambda>x. x\<lparr> ra_off_evidence := Some e \<rparr>) s))"
proof -
  show *: "I (upd_attempt a (\<lambda>x. x\<lparr> ra_off_evidence := Some e \<rparr>) s)"
    by (rule I_attempt [OF assms(1)]) (use assms(2) in \<open>auto simp: attempt_typed_def\<close>)
  show "I (upd_attempt a (\<lambda>x. x\<lparr> ra_connected_committed := True \<rparr>) (upd_attempt a (\<lambda>x. x\<lparr> ra_off_evidence := Some e \<rparr>) s))"
    by (rule I_attempt [OF *]) (use assms(2) in \<open>auto simp: attempt_typed_def upd_attempt_def\<close>)
qed

lemma keeps_owner_complete [keeps_intros]: 
  assumes "mine (dr_name d)"
  shows "keeps (owner_complete d a g)"
  unfolding owner_complete_def
proof (rule rely.keeps_bind, intro keeps_intros, rule keeps_branches, intro keeps_intros)
  fix e
  show "keeps (if \<not> satisfies_tier e then Raise (Exn ''RuntimeError'')
     else co_then (co_modify (upd_attempt a (\<lambda>x. x\<lparr> ra_off_evidence := Some e \<rparr>)))
          (co_then (require_not_abandoned a)
          (co_then (co_modify (upd_attempt a (\<lambda>x. x\<lparr> ra_connected_committed := True \<rparr>))) (co_modify (set_required False d)))))"
    by (intro keepsI) (auto simp: co_simps require_not_abandoned_def step_of_commit assms intro!: inv_steps)
qed

lemma keeps_owner_connect [keeps_intros]: "mine (dr_name d) \<Longrightarrow> keeps (owner_connect d a)"
  unfolding owner_connect_def by (intro keeps_intros inv_steps)

lemma keeps_own_reviewed_connect [keeps_intros]: "mine (dr_name d) \<Longrightarrow> keeps (own_reviewed_connect cfg d a)"
  unfolding own_reviewed_connect_def owner_revoke_def owner_disconnect_def by (intro keeps_intros inv_steps)

lemma keeps_settle_failed_attempt [keeps_intros]: "mine (dr_name d) \<Longrightarrow> keeps (settle_failed_attempt cfg d a)"
  unfolding settle_failed_attempt_def by (intro keeps_intros inv_steps)

lemma keeps_await_retry [keeps_intros]: "mine (dr_name d) \<Longrightarrow> keeps (await_retry d a x t)"
  unfolding await_retry_def by (intro keeps_intros inv_steps)

lemma step_of_retry:
  assumes "I s"
  shows "I (set_retry (Some (aq_next_task s)) a (with_child (CleanupRetry n a) s))"
  unfolding set_retry_def
  by (rule I_attempt [OF I_spawn [OF assms allowed_children(3)]]) (auto simp: attempt_typed_def)

lemma keeps_tres [keeps_intros]:
  "keeps p \<Longrightarrow> (\<And>b. keeps (f b)) \<Longrightarrow> (\<And>rs. keeps (h rs)) \<Longrightarrow>
   keeps (case r of ResNone \<Rightarrow> p | ResBool b \<Rightarrow> f b | ResReadings rs \<Rightarrow> h rs)"
  by (cases r) simp_all

lemma keeps_create_retry:
  "mine (dr_name d) \<Longrightarrow> keeps (co_bind (create_task (CleanupRetry (dr_name d) a)) (\<lambda>t. co_then (co_modify (set_retry (Some t) a)) (await_retry d a x t)))"
  by (rule keepsI) (simp add: create_task_eq co_simps keepsD [OF keeps_await_retry] step_of_retry)

lemma keeps_retry_failed_attempt [keeps_intros]: "mine (dr_name d) \<Longrightarrow> keeps (retry_failed_attempt d a x)"
  unfolding retry_failed_attempt_def Let_def
  by (rule keeps_create_retry | rule keeps_intros inv_steps | assumption)+

lemma keeps_settle_poll_barrier [keeps_intros]: "mine (dr_name d) \<Longrightarrow> keeps (settle_poll_barrier d)"
  unfolding settle_poll_barrier_def by (intro keeps_intros inv_steps)

lemma keeps_settle_read_uncertainty [keeps_intros]: "mine (dr_name d) \<Longrightarrow> keeps (settle_read_uncertainty cfg d)"
  unfolding settle_read_uncertainty_def by (intro keeps_intros inv_steps)

lemma keeps_request_connect_abandon [keeps_intros]: "mine (dr_name d) \<Longrightarrow> keeps (request_connect_abandon cfg d a)"
  unfolding request_connect_abandon_def by (intro keeps_intros inv_steps)

lemma keeps_await_owner [keeps_intros]: "mine (dr_name d) \<Longrightarrow> keeps (await_owner cfg d a t)"
  unfolding await_owner_def by (intro keeps_intros inv_steps)

lemma step_of_owner:
  assumes "mine (dr_name d)" "I s"
  shows "I (upd d (\<lambda>i. i\<lparr> is_settlement_task := Some (aq_next_task s) \<rparr>)
             (upd_attempt a (\<lambda>x. x\<lparr> ra_owner_task := Some (aq_next_task s) \<rparr>) (with_child (OwnConnect n a) s)))"
  by (rule steps_of_inst [OF assms(1)], rule I_attempt [OF I_spawn [OF assms(2) allowed_children(2)]]) (auto simp: attempt_typed_def)

lemma keeps_connect_reviewed [keeps_intros]: 
  assumes "mine (dr_name d)" "connects (dr_name d)"
  shows "keeps (connect_reviewed cfg d)"
  unfolding connect_reviewed_def
proof (rule rely.keeps_bind, rule keeps_adjudicate_attempt [OF assms(1)], rule keeps_branches, rule keeps_leaves)
  show "keeps (co_bind (new_attempt d) (\<lambda>a.
            co_bind (create_task (OwnConnect (dr_name d) a)) (\<lambda>t.
            co_then (co_modify (\<lambda>s. upd d (\<lambda>i. i\<lparr> is_settlement_task := Some t \<rparr>)
                                      (upd_attempt a (\<lambda>x. x\<lparr> ra_owner_task := Some t \<rparr>) s)))
              (await_owner cfg d a t))))"
    by (rule keepsI)
      (simp add: create_task_eq new_attempt_eq co_simps keepsD [OF keeps_await_owner] step_of_owner I_started assms)
qed

lemma keeps_connect_driver [keeps_intros]: "mine (dr_name d) \<Longrightarrow> connects (dr_name d) \<Longrightarrow> keeps (connect_driver cfg d)"
  unfolding connect_driver_def by (intro keeps_intros inv_steps)

section \<open>The loops\<close>

lemma keeps_backoff [keeps_intros]: "mine (dr_name d) \<Longrightarrow> keeps (backoff d x)"
  unfolding backoff_def by (intro keeps_intros) (auto intro: inv_steps)

lemma keeps_poll_failed [keeps_intros]: "mine (dr_name d) \<Longrightarrow> keeps (poll_failed cfg d)"
  unfolding poll_failed_def by (intro keeps_intros; (assumption | auto intro: inv_steps))

lemma keeps_handle_error [keeps_intros]: "mine (dr_name d) \<Longrightarrow> keeps (handle_error cfg d)"
  unfolding handle_error_def by (intro keeps_intros)

lemma keeps_cancel_bus_recovery [keeps_intros]: "keeps (cancel_bus_recovery t x bus)"
  unfolding cancel_bus_recovery_def by (intro keeps_intros) (auto intro: inv_steps I_plain)

lemma keeps_await_bus_task [keeps_intros]: "keeps (await_bus_task bus t x)"
  unfolding await_bus_task_def by (intro keeps_intros)

text \<open>A bus operation is only started on a bus that is not terminal.\<close>

lemma keeps_bus_operation [keeps_intros]:
  assumes "\<And>t. keeps (f t)"
  shows "keeps (Get (\<lambda>s. if bus_refuses bus is_async s then co_then (co_modify (make_terminal bus)) (Ret x)
     else co_bind (create_task (BusOperation bus label)) f))"
  using assms
  by (intro keepsI) (auto simp: bus_refuses_def create_task_eq co_simps intro: inv_steps I_spawn bus_allowed keepsD)

lemma keeps_bounded_bus_recovery [keeps_intros]: "keeps (bounded_bus_recovery bus is_async label x b)"
  unfolding bounded_bus_recovery_def by (intro keeps_intros inv_steps)

lemma keeps_bounded_bus_read [keeps_intros]: "keeps (bounded_bus_read bus is_async label x)"
  unfolding bounded_bus_read_def by (intro keeps_intros inv_steps)

lemma keeps_mark_disconnected [keeps_intros]: "mine (dr_name d) \<Longrightarrow> keeps (mark_disconnected cfg d)"
  unfolding mark_disconnected_def by (intro keeps_intros)

lemma keeps_abort_partial_connect [keeps_intros]: "mine (dr_name d) \<Longrightarrow> keeps (abort_partial_connect cfg d)"
  unfolding abort_partial_connect_def by (intro keeps_intros inv_steps)

lemma keeps_hold_off [keeps_intros]: "keeps (hold_off cfg d loc)"
  unfolding hold_off_def by (intro keeps_intros)

lemma keeps_publish_all_failed [keeps_intros]: "(\<And>e. e \<in> set (bg_devices g) \<Longrightarrow> mine (dr_name e)) \<Longrightarrow> keeps (publish_all_failed cfg g)"
  unfolding publish_all_failed_def by (intro keeps_intros)

lemma keeps_bus_read_device [keeps_intros]: "mine (dr_name d) \<Longrightarrow> (\<And>e. e \<in> set (bg_devices g) \<Longrightarrow> mine (dr_name e)) \<Longrightarrow> keeps (bus_read_device cfg g d loc)"
  unfolding bus_read_device_def bus_read_terminal_def by (intro keeps_intros)

lemma keeps_bus_handler [keeps_intros]: "mine (dr_name d) \<Longrightarrow> (\<And>e. e \<in> set (bg_devices g) \<Longrightarrow> mine (dr_name e)) \<Longrightarrow> keeps (bus_handler cfg g d loc b e)"
  unfolding bus_handler_def bus_cancelled_def bus_failed_def bus_recover_device_def by (intro keeps_intros inv_steps)

lemma keeps_bus_device_io [keeps_intros]: "mine (dr_name d) \<Longrightarrow> connects (dr_name d) \<Longrightarrow> (\<And>e. e \<in> set (bg_devices g) \<Longrightarrow> mine (dr_name e)) \<Longrightarrow> keeps (bus_device_io cfg g d loc)"
  unfolding bus_device_io_def bus_try_device_def by (intro keeps_intros)

lemma keeps_bus_device [keeps_intros]: "mine (dr_name d) \<Longrightarrow> connects (dr_name d) \<Longrightarrow> (\<And>e. e \<in> set (bg_devices g) \<Longrightarrow> mine (dr_name e)) \<Longrightarrow> keeps (bus_device cfg g d loc)"
  unfolding bus_device_def bus_disconnect_barrier_def bus_guarded_def bus_barrier_failed_def by (intro keeps_intros inv_steps)

lemma keeps_bus_devices [keeps_intros]:
  assumes "\<And>e. e \<in> set (bg_devices g) \<Longrightarrow> mine (dr_name e) \<and> connects (dr_name e)" "set ds \<subseteq> set (bg_devices g)"
  shows "keeps (bus_devices cfg g ds m n loc)"
  using assms(2)
proof (induction ds arbitrary: m n loc)
  case (Cons d ds)
  hence d: "mine (dr_name d)" "connects (dr_name d)" and IH: "keeps (bus_devices cfg g ds m n loc)" for m n loc
    using assms(1) by auto
  show ?case unfolding bus_devices.simps
    by (rule rely.keeps_bind [OF keeps_bus_device [OF d]])
      (auto split: prod.split dev_outcome.split intro: IH keeps_leaves simp: assms(1))
qed (simp add: keeps_leaves)

lemma keeps_bus_escalate [keeps_intros]: "(\<And>e. e \<in> set (bg_devices g) \<Longrightarrow> mine (dr_name e)) \<Longrightarrow> keeps (bus_escalate cfg g loc)"
  unfolding bus_escalate_def bus_clear_def bus_reopen_def by (intro keeps_intros)

lemma keeps_bus_pass [keeps_intros]: "(\<And>e. e \<in> set (bg_devices g) \<Longrightarrow> mine (dr_name e) \<and> connects (dr_name e)) \<Longrightarrow> keeps (bus_pass cfg g loc)"
  unfolding bus_pass_def by (intro keeps_intros; (assumption | auto))

lemma keeps_bus_loop_n [keeps_intros]: "(\<And>e. e \<in> set (bg_devices g) \<Longrightarrow> mine (dr_name e) \<and> connects (dr_name e)) \<Longrightarrow> keeps (bus_loop_n cfg g n loc)"
  by (induction n arbitrary: loc) (auto intro!: keeps_intros)

lemma keeps_clock_each [keeps_intros]: "keeps (clock_each cfg ds f)"
  by (induction ds arbitrary: f) (auto intro!: keeps_intros)

lemma keeps_bus_loop [keeps_intros]: "(\<And>e. e \<in> set (bg_devices g) \<Longrightarrow> mine (dr_name e) \<and> connects (dr_name e)) \<Longrightarrow> keeps (bus_loop cfg g n)"
  unfolding bus_loop_def by (intro keeps_intros)

section \<open>Stopping\<close>

lemma keeps_stop_drain [keeps_intros]: "keeps (stop_drain cfg ds)"
proof -
  have "I s \<Longrightarrow> I (foldl (\<lambda>s t. request_cancel t s) s ts)" for ts s
    by (induction ts arbitrary: s) (auto intro: inv_steps)
  thus ?thesis unfolding stop_drain_def by (intro keeps_intros)
qed

lemma keeps_stop_revoke [keeps_intros]: "mine (dr_name d) \<Longrightarrow> keeps (stop_revoke cfg d)"
  unfolding stop_revoke_def by (intro keeps_intros inv_steps)

lemma keeps_stop_settle [keeps_intros]: "keeps (stop_settle cfg ds)"
  unfolding stop_settle_def by (intro keeps_intros inv_steps)

lemma keeps_stop_one [keeps_intros]: "mine (dr_name d) \<Longrightarrow> keeps (stop_one cfg x d)"
  unfolding stop_one_def stop_attempt_def stop_unsettled_def stop_disconnect_def remaining_def by (intro keeps_intros inv_steps)

lemma keeps_sched_stop [keeps_intros]: "(\<And>e. e \<in> set ds \<Longrightarrow> mine (dr_name e)) \<Longrightarrow> keeps (sched_stop cfg ds)"
  unfolding sched_stop_def stop_all_def by (intro keeps_intros inv_steps)

end

section \<open>The poll loop\<close>

text \<open>Its reads are special: they need what the barriers and a connect establish, here called \<open>ready\<close>.\<close>

definition barriers_passed :: "poll_device \<Rightarrow> acq \<Rightarrow> bool" where
  "barriers_passed d s =
     (connected d s \<and> is_attempt (me d s) = None
      \<and> (reviewed_binding d \<longrightarrow>
           \<not> is_disconnect_required (me d s) \<and> is_disconnect_task (me d s) = None \<and> is_generation (me d s) \<noteq> None))"

definition errors_reset :: "inst \<Rightarrow> inst" where
  "errors_reset i = i\<lparr> is_consecutive_errors := 0, is_backoff_s := INITIAL_BACKOFF_S \<rparr>"

locale sched_reads = sched_inv +
  fixes cfg :: acq_cfg and d :: poll_device and ready :: "acq \<Rightarrow> bool"
  assumes mine_d: "mine (dr_name d)"
    and read_ok: "I s \<Longrightarrow> ready s \<Longrightarrow> ok g s (DriverRead (dr_name d) x)"
    and guard_ready: "I s \<Longrightarrow> barriers_passed d s \<Longrightarrow> ready s"
    and reset_ready: "I s \<Longrightarrow> ready s \<Longrightarrow> ready (upd d errors_reset s)"
    and connect_ready: "I s \<Longrightarrow> is_attempt (me d s) = None \<Longrightarrow>
      wp (rely_aw R ok) (connect_driver cfg d) (\<lambda>_ g s. I s \<and> ready s) (\<lambda>_ _ s. I s) g s"
begin

lemma poll_read_keeps:
  assumes "I s" "ready s"
  shows "wp (rely_aw R ok) (poll_read cfg d) (\<lambda>_ _ s. I s) (\<lambda>_ _ s. I s) g s"
proof -
  have h: "keeps (case r of Inr u \<Rightarrow> Ret (Some ())
      | Inl e \<Rightarrow> if e = Cancelled then co_bind (settle_read_uncertainty cfg d) (\<lambda>_. Raise Cancelled) else poll_failed cfg d)"
    for r :: "aexn + unit"
    by (cases r) (auto intro!: keeps_intros mine_d)
  have b: "keeps (co_then (co_modify (upd d (\<lambda>i. i\<lparr> is_consecutive_errors := 0, is_backoff_s := INITIAL_BACKOFF_S \<rparr>)))
        (co_bind (process_readings cfg d True rs) (\<lambda>_. Ret ())))" for rs
    by (intro keeps_intros inv_steps mine_d)
  have c: "keeps (co_bind (co_attempt (case a of Threw e \<Rightarrow> Raise e
        | Readings rs \<Rightarrow> co_then (co_modify (upd d (\<lambda>i. i\<lparr> is_consecutive_errors := 0, is_backoff_s := INITIAL_BACKOFF_S \<rparr>)))
             (co_bind (process_readings cfg d True rs) (\<lambda>_. Ret ()))
        | _ \<Rightarrow> Raise (Exn ''TypeError''))) (\<lambda>r. case r of Inr u \<Rightarrow> Ret (Some ())
      | Inl e \<Rightarrow> if e = Cancelled then co_bind (settle_read_uncertainty cfg d) (\<lambda>_. Raise Cancelled) else poll_failed cfg d))"
    for a
    by (rule rely.keeps_bind [OF rely.keeps_attempt h]) (cases a, auto intro: keeps_leaves b)
  have e: "poll_read cfg d = Await (DriverRead (dr_name d) (dr_read_timeout_s d))
      (\<lambda>a. co_bind (co_attempt (case a of Threw e \<Rightarrow> Raise e
        | Readings rs \<Rightarrow> co_then (co_modify (upd d (\<lambda>i. i\<lparr> is_consecutive_errors := 0, is_backoff_s := INITIAL_BACKOFF_S \<rparr>)))
             (co_bind (process_readings cfg d True rs) (\<lambda>_. Ret ()))
        | _ \<Rightarrow> Raise (Exn ''TypeError''))) (\<lambda>r. case r of Inr u \<Rightarrow> Ret (Some ())
      | Inl e \<Rightarrow> if e = Cancelled then co_bind (settle_read_uncertainty cfg d) (\<lambda>_. Raise Cancelled) else poll_failed cfg d))"
    unfolding poll_read_def aw_readings_def
    by (simp, intro ext, rename_tac a, case_tac a, simp_all)
  show ?thesis unfolding e wp.simps
    by (rule rely_awI) (use assms in \<open>auto intro: read_ok keepsD [OF c] I_rely\<close>)
qed

lemma poll_connect_keeps:
  assumes "I s" "is_attempt (me d s) = None"
  shows "wp (rely_aw R ok) (poll_connect cfg d) (\<lambda>_ _ s. I s) (\<lambda>_ _ s. I s) g s"
proof -
  have b: "keeps (co_then (backoff d MAX_BACKOFF_S) (Ret None))" by (intro keeps_intros mine_d)
  have r: "I (upd d errors_reset s)" if "I s" for s
    using that unfolding upd_def by (rule step_of_inst [OF mine_d]) (simp add: errors_reset_def)
  have "wp (rely_aw R ok) (connect_driver cfg d)
      (\<lambda>_ g s. wp (rely_aw R ok) (poll_read cfg d) (\<lambda>_ _ s. I s) (\<lambda>_ _ s. I s) g (upd d errors_reset s))
      (\<lambda>e g s. wp (rely_aw R ok) (if e = Cancelled then Raise e else co_then (backoff d MAX_BACKOFF_S) (Ret None))
         (\<lambda>_ _ s. I s) (\<lambda>_ _ s. I s) g s) g s"
    by (rule rely.wp_weaken [OF connect_ready [OF assms]])
      (auto intro!: poll_read_keeps reset_ready keepsD [OF b] r)
  thus ?thesis unfolding poll_connect_def by (simp add: co_simps errors_reset_def [abs_def] cong: if_cong)
qed

lemma poll_guarded_keeps:
  assumes "I s" "is_attempt (me d s) = None"
  shows "wp (rely_aw R ok) (poll_guarded cfg d) (\<lambda>_ _ s. I s) (\<lambda>_ _ s. I s) g s"
proof -
  have b: "keeps (co_bind (disconnect_driver cfg d x) (\<lambda>_. co_then (backoff d MAX_BACKOFF_S) (Ret None)))" for x
    by (intro keeps_intros mine_d)
  show ?thesis unfolding poll_guarded_def wp.simps
    using assms by (auto intro!: keepsD [OF b] poll_connect_keeps poll_read_keeps guard_ready simp: barriers_passed_def)
qed

lemma keeps_poll_body [keeps_intros]: "keeps (poll_body cfg d)"
proof (rule keepsI)
  fix g s
  assume s: "I s"
  have b: "keeps (co_bind (settle_poll_barrier d)
      (\<lambda>settled. if \<not> settled then co_then (backoff d MAX_BACKOFF_S) (Ret None) else Ret None))" by (intro keeps_intros mine_d)
  show "wp (rely_aw R ok) (poll_body cfg d) (\<lambda>_ _ s. I s) (\<lambda>_ _ s. I s) g s"
    using keepsD [OF b s] poll_guarded_keeps [OF s] by (auto simp: poll_body_def)
qed

lemma keeps_poll_loop_n [keeps_intros]: "keeps (poll_loop_n cfg d n x)"
  by (induction n arbitrary: x) (auto intro!: keeps_intros simp: poll_iteration_def)

lemma keeps_poll_loop: "keeps (poll_loop cfg d n)"
  unfolding poll_loop_def by (intro keeps_intros)

end

end
