(* ===== verification/SchedSafe.thy ===== *)
theory SchedSafe
  imports SchedKeeps
begin

text \<open>
  What the invariants of the scheduler give: the typing of the store, the authority under which a reviewed
  source is read, and the silence of a terminal bus. Each is an interpretation of \<open>sched_inv\<close>.
\<close>

section \<open>The store stays well typed\<close>

lemma typed_started: "sched_typed s \<Longrightarrow> sched_typed (started_attempt d s)"
proof -
  assume s: "sched_typed s"
  have "inst_typed (started_attempt d s) n (aq_inst (started_attempt d s) n)" for n
  proof -
    have "inst_typed s n (aq_inst s n)" using s by (simp add: sched_typed_def)
    thus ?thesis by (auto simp: inst_typed_def started_attempt_def upd_def upd_inst_def spawned_def Let_def less_Suc_eq)
  qed
  moreover have "attempt_typed (started_attempt d s) a (aq_attempts (started_attempt d s) a)" for a
  proof -
    have "attempt_typed s a (aq_attempts s a)" using s by (simp add: sched_typed_def)
    thus ?thesis by (auto simp: attempt_typed_def started_attempt_def upd_def upd_inst_def spawned_def Let_def fresh_attempt_def)
  qed
  moreover have "spawned_once (started_attempt d s)"
    using s by (simp add: sched_typed_def spawned_once_def started_attempt_def upd_def upd_inst_def Let_def)
  ultimately show ?thesis by (simp add: sched_typed_def)
qed

definition typing_kept :: "acq \<Rightarrow> acq \<Rightarrow> bool" where
  "typing_kept s s' = (sched_typed s \<longrightarrow> sched_typed s')"

lemma typed_closed:
  "sched_typed s \<Longrightarrow> inst_step s n (aq_inst s n) (h (aq_inst s n)) \<Longrightarrow> sched_typed (upd_inst n h s)"
  "sched_typed s \<Longrightarrow> (attempt_typed s a (aq_attempts s a) \<Longrightarrow> attempt_typed s a (k (aq_attempts s a))) \<Longrightarrow> sched_typed (upd_attempt a k s)"
  by (auto intro: typed_upd_inst typed_upd_attempt simp: inst_step_def)

interpretation typing: sched_inv typing_kept "\<lambda>g s q. sched_typed s" sched_typed "\<lambda>_. False" "\<lambda>_. True" "\<lambda>_. True" "\<lambda>_. True"
  by unfold_locales (auto simp: typing_kept_def intro: typed_steps typed_started typed_closed)

interpretation typing_reads: sched_reads typing_kept "\<lambda>g s q. sched_typed s" sched_typed "\<lambda>_. False" "\<lambda>_. True" "\<lambda>_. True" "\<lambda>_. True"
    cfg d "\<lambda>_. True" for cfg d
  by unfold_locales (simp_all add: keepsD [OF typing.keeps_connect_driver])

text \<open>A start makes no request.\<close>

lemma typed_set_task:
  "sched_typed s \<Longrightarrow> spawned s t (PollTask (dr_name d)) \<or> (\<exists>bus. spawned s t (BusPollTask bus)) \<Longrightarrow> sched_typed (set_task (Some t) d s)"
  unfolding set_task_def upd_def by (rule typed_upd_inst) (auto simp: inst_typed_def)

lemma start_group_keeps: "typing.keeps (start_group grp)"
proof (rule keepsI)
  fix g s
  assume s: "sched_typed s"
  let ?t = "aq_next_task s"
  let ?I = "\<lambda>g s. sched_typed s \<and> spawned s ?t (BusPollTask (fst grp))"
  have "?I g (with_child (BusPollTask (fst grp)) s\<lparr> aq_shared_tasks := ts \<rparr>)" for ts
    using typed_plain(10) [OF typed_spawn [OF s]] by (simp add: spawned_def with_child_def)
  moreover have "?I g s \<Longrightarrow> ?I g (set_task (Some ?t) d s)" for g s d
    using typed_set_task by (auto simp: set_task_def upd_def upd_inst_def spawned_def)
  ultimately show "wp (rely_aw typing_kept (\<lambda>g s q. sched_typed s)) (start_group grp) (\<lambda>_ _ s. sched_typed s) (\<lambda>_ _ s. sched_typed s) g s"
    by (simp add: start_group_def create_task_eq co_simps) (rule rely.wp_each_inv [where I = ?I], auto simp: co_simps)
qed

lemma start_alone_keeps: "typing.keeps (start_alone d)"
  by (rule keepsI) (auto simp: start_alone_def create_task_eq co_simps intro!: typed_set_task typed_spawn)

lemma sched_start_keeps: "typing.keeps (sched_start cfg ds)"
  unfolding sched_start_def Let_def
  by (intro keeps_intros start_group_keeps start_alone_keeps) (auto intro: inv_steps)

text \<open>The coroutines that the scheduler runs: the poll loops, what the children do, its start and its stop.\<close>

definition scheduler_code :: "acq_cfg \<Rightarrow> poll_device \<Rightarrow> bus_group \<Rightarrow> poll_device list \<Rightarrow> nat \<Rightarrow> nat \<Rightarrow> unit acq_co list" where
  "scheduler_code cfg d grp ds a n =
     [co_bind (poll_loop cfg d n) (\<lambda>_. Ret ()), co_bind (bus_loop cfg grp n) (\<lambda>_. Ret ()), own_reviewed_connect cfg d a,
      co_bind (disconnect_reviewed_exact cfg d (Some n)) (\<lambda>_. Ret ()), co_bind (settle_failed_attempt cfg d a) (\<lambda>_. Ret ()),
      sched_start cfg ds, sched_stop cfg ds]"


section \<open>A reviewed source is read with authority only\<close>

text \<open>The newest connect owner of an instrument.\<close>

definition owns_connect :: "poll_device \<Rightarrow> nat \<times> spawn \<Rightarrow> bool" where
  "owns_connect d = (\<lambda>(t, b). case b of OwnConnect n a \<Rightarrow> n = dr_name d | _ \<Rightarrow> False)"

definition last_owner :: "poll_device \<Rightarrow> acq \<Rightarrow> (nat \<times> spawn) option" where
  "last_owner d s = (let bs = filter (owns_connect d) (aq_spawned s) in if bs = [] then None else Some (last bs))"

lemma last_owner_new: "last_owner d (with_child (OwnConnect (dr_name d) a) s) = Some (aq_next_task s, OwnConnect (dr_name d) a)"
  by (simp add: last_owner_def with_child_def owns_connect_def)

lemma last_owner_cong: "aq_spawned s' = aq_spawned s \<Longrightarrow> last_owner d s' = last_owner d s"
  by (simp add: last_owner_def)

text \<open>A connect just settled: its owner returned and committed the attempt, on OFF evidence.\<close>

definition connect_settled :: "poll_device \<Rightarrow> acq \<Rightarrow> bool" where
  "connect_settled d s =
     (is_attempt (me d s) = None
      \<and> (\<exists>t a v e. last_owner d s = Some (t, OwnConnect (dr_name d) a) \<and> aq_tasks s t = Finished (Inr v)
           \<and> ra_owner_task (aq_attempts s a) = Some t \<and> ra_connected_committed (aq_attempts s a)
           \<and> ra_failure (aq_attempts s a) = None
           \<and> ra_off_evidence (aq_attempts s a) = Some e \<and> satisfies_tier e))"

definition has_authority :: "poll_device \<Rightarrow> acq \<Rightarrow> bool" where
  "has_authority d s = (reviewed_binding d \<longrightarrow> barriers_passed d s \<or> connect_settled d s)"

text \<open>Only the poll loop of an instrument starts and drops its connect attempts, and an attempt keeps its owner.\<close>

definition connects_kept :: "poll_device \<Rightarrow> acq \<Rightarrow> acq \<Rightarrow> bool" where
  "connects_kept d s s' =
     (typing_kept s s' \<and> is_attempt (me d s') = is_attempt (me d s) \<and> last_owner d s' = last_owner d s
      \<and> (\<forall>a. ra_owner_task (aq_attempts s a) \<noteq> None \<longrightarrow> ra_owner_task (aq_attempts s' a) = ra_owner_task (aq_attempts s a)))"

definition read_authorised :: "poll_device \<Rightarrow> acq \<Rightarrow> acq_req \<Rightarrow> bool" where
  "read_authorised d s q = (case q of DriverRead n x \<Rightarrow> has_authority d s | _ \<Rightarrow> True)"

fun is_read :: "acq_req \<Rightarrow> bool" where
  "is_read (DriverRead n x) = True"
| "is_read _ = False"

lemma is_read_iff: "is_read q \<longleftrightarrow> (\<exists>n x. q = DriverRead n x)"
  by (cases q) simp_all

interpretation reading: sched_inv "connects_kept d" "\<lambda>g s. read_authorised d s" sched_typed is_read "\<lambda>_. True" "\<lambda>_. True" "\<lambda>_. True" for d
proof
  show "\<not> is_read q \<Longrightarrow> read_authorised d s q" for s q
    by (cases q) (simp_all add: read_authorised_def)
qed (auto simp: connects_kept_def typing_kept_def is_read_iff intro: typed_steps typed_started typed_closed)

abbreviation read_aw :: "poll_device \<Rightarrow> _" where
  "read_aw d \<equiv> rely_aw (connects_kept d) (\<lambda>g s. read_authorised d s)"

text \<open>What the caller of a connect finds when its owner is done.\<close>

lemma wp_adjudicate_connect:
  assumes "sched_typed s" "is_attempt (me d s) = Some a" "ra_owner_task (aq_attempts s a) = Some t" "task_done t s"
    and "last_owner d s = Some (t, OwnConnect (dr_name d) a)"
  shows "wp (read_aw d) (adjudicate_attempt d True) (\<lambda>_ g s. sched_typed s \<and> connect_settled d s) (\<lambda>_ _ s. sched_typed s) g s"
proof (cases "aq_tasks s t")
  case (Finished r)
  show ?thesis
  proof (cases r)
    case (Inl e)
    thus ?thesis using assms(1-4) Finished reading.steps_of_attempt(1) [OF assms(1)]
      by (simp add: adjudicate_attempt_def task_result_def co_simps upd_attempt_def)
  next
    case (Inr v)
    have a: "attempt_typed s a (aq_attempts s a)" using assms(1) by (simp add: sched_typed_def)
    hence d: "ra_connected_committed (aq_attempts s a) \<or> ra_operation_error (aq_attempts s a) \<noteq> None"
      using assms(3) Finished Inr by (auto simp: attempt_typed_def)
    have typed: "sched_typed (upd d (\<lambda>i. i\<lparr> is_attempt := None, is_settlement_task := None, is_generation := h i \<rparr>) s)" for h
      by (rule reading.step_of_task_cleared(3) [OF _ assms(1)]) simp
    have settled: "connect_settled d (upd d (\<lambda>i. i\<lparr> is_attempt := None, is_settlement_task := None, is_generation := h i \<rparr>) s)"
      if "ra_failure (aq_attempts s a) = None" "ra_connected_committed (aq_attempts s a)" for h
      using that assms(3,5) Finished Inr a
      by (auto simp: connect_settled_def attempt_typed_def upd_def upd_inst_def me_def last_owner_def)
    show ?thesis using assms(1-4) d typed settled
      by (auto simp: adjudicate_attempt_def task_result_def Finished Inr co_simps Let_def)
  qed
qed (use assms(4) in \<open>simp add: task_done_def\<close>)

text \<open>A new owner: the attempt, its owner and the newest connect agree.\<close>

definition with_owner :: "poll_device \<Rightarrow> acq \<Rightarrow> acq" where
  "with_owner d s =
     (let a = aq_next_attempt s; t = aq_next_task s
      in upd d (\<lambda>i. i\<lparr> is_settlement_task := Some t \<rparr>)
           (upd_attempt a (\<lambda>x. x\<lparr> ra_owner_task := Some t \<rparr>) (with_child (OwnConnect (dr_name d) a) (started_attempt d s))))"

lemma next_task_started [simp]: "aq_next_task (started_attempt d s) = aq_next_task s"
  by (simp add: started_attempt_def upd_def upd_inst_def Let_def)

lemma with_owner_facts:
  assumes "sched_typed s"
  shows "sched_typed (with_owner d s)" "is_attempt (me d (with_owner d s)) = Some (aq_next_attempt s)"
    "ra_owner_task (aq_attempts (with_owner d s) (aq_next_attempt s)) = Some (aq_next_task s)"
    "last_owner d (with_owner d s) = Some (aq_next_task s, OwnConnect (dr_name d) (aq_next_attempt s))"
proof -
  show "sched_typed (with_owner d s)"
    using typing.step_of_owner [OF TrueI typed_started [OF assms, of d], of d "aq_next_attempt s" "dr_name d"]
    by (simp add: with_owner_def Let_def)
  show "is_attempt (me d (with_owner d s)) = Some (aq_next_attempt s)"
    by (simp add: with_owner_def Let_def me_def upd_def upd_inst_def upd_attempt_def started_attempt_def)
  show "ra_owner_task (aq_attempts (with_owner d s) (aq_next_attempt s)) = Some (aq_next_task s)"
    by (simp add: with_owner_def Let_def upd_def upd_inst_def upd_attempt_def)
  have "aq_spawned (with_owner d s) = aq_spawned (with_child (OwnConnect (dr_name d) (aq_next_attempt s)) (started_attempt d s))"
    by (simp add: with_owner_def Let_def upd_def upd_inst_def upd_attempt_def)
  from last_owner_cong [OF this]
  show "last_owner d (with_owner d s) = Some (aq_next_task s, OwnConnect (dr_name d) (aq_next_attempt s))"
    by (simp add: last_owner_new)
qed

lemma wp_await_owner:
  assumes "sched_typed s" "is_attempt (me d s) = Some a" "ra_owner_task (aq_attempts s a) = Some t"
    and "last_owner d s = Some (t, OwnConnect (dr_name d) a)"
  shows "wp (read_aw d) (await_owner cfg d a t) (\<lambda>_ g s. sched_typed s \<and> connect_settled d s) (\<lambda>_ _ s. sched_typed s) g s"
  unfolding await_owner_def aw_done_def co_attempt.simps co_bind.simps wp.simps
proof (rule rely_awI)
  show "read_authorised d s (WaitTask t (Some (dr_connect_timeout_s d)))" by (simp add: read_authorised_def)
next
  fix s' x
  assume R: "connects_kept d s s'"
  hence s': "sched_typed s'" "is_attempt (me d s') = Some a" "ra_owner_task (aq_attempts s' a) = Some t"
    "last_owner d s' = Some (t, OwnConnect (dr_name d) a)"
    using assms by (auto simp: connects_kept_def typing_kept_def)
  have ab: "wp (read_aw d) (co_then (request_connect_abandon cfg d a) (Raise e)) Q (\<lambda>_ _ s. sched_typed s) g s'" for e Q g
    by (subst wp_then, rule rely.wp_weaken [OF keepsD [OF reading.keeps_request_connect_abandon s'(1)]]) auto
  show "wp (read_aw d) (co_bind (co_attempt (case x of Threw e \<Rightarrow> Raise e | _ \<Rightarrow> Ret ()))
        (\<lambda>r. case r of
           Inl e \<Rightarrow> if e = Cancelled then co_then (request_connect_abandon cfg d a) (Raise e) else Raise e
         | Inr _ \<Rightarrow> Get (\<lambda>s. if \<not> task_done t s then co_then (request_connect_abandon cfg d a) (Raise TimedOut)
                            else co_bind (adjudicate_attempt d True) (\<lambda>_. Ret ()))))
        (\<lambda>_ g s. sched_typed s \<and> connect_settled d s) (\<lambda>_ _ s. sched_typed s) (g @ [(WaitTask t (Some (dr_connect_timeout_s d)), x)]) s'"
    using s' by (cases x) (auto simp: ab wp_bind intro!: wp_adjudicate_connect)
qed

lemma wp_connect_reviewed:
  assumes "sched_typed s"
  shows "wp (read_aw d) (connect_reviewed cfg d) (\<lambda>_ g s. sched_typed s \<and> connect_settled d s) (\<lambda>_ _ s. sched_typed s) g s"
proof -
  have own: "wp (read_aw d) (co_bind (new_attempt d) (\<lambda>a. co_bind (create_task (OwnConnect (dr_name d) a)) (\<lambda>t.
            co_then (co_modify (\<lambda>s. upd d (\<lambda>i. i\<lparr> is_settlement_task := Some t \<rparr>)
                                      (upd_attempt a (\<lambda>x. x\<lparr> ra_owner_task := Some t \<rparr>) s)))
              (await_owner cfg d a t)))) (\<lambda>_ g s. sched_typed s \<and> connect_settled d s) (\<lambda>_ _ s. sched_typed s) g s"
    if "sched_typed s" for g s
    using wp_await_owner [OF with_owner_facts [OF that]]
    by (simp add: new_attempt_eq create_task_eq co_simps with_owner_def Let_def)
  show ?thesis unfolding connect_reviewed_def wp_bind
    by (rule rely.wp_weaken [OF keepsD [OF reading.keeps_adjudicate_attempt assms]]) (auto intro: own)
qed

lemma wp_connect_driver:
  assumes "sched_typed s"
  shows "wp (read_aw d) (connect_driver cfg d) (\<lambda>_ g s. sched_typed s \<and> has_authority d s) (\<lambda>_ _ s. sched_typed s) g s"
proof (cases "reviewed_binding d")
  case True
  have c: "wp (read_aw d) (connect_reviewed cfg d) (\<lambda>_ g s. sched_typed s \<and> has_authority d s) (\<lambda>_ _ s. sched_typed s) g s"
    if "sched_typed s" for g s
    by (rule rely.wp_weaken [OF wp_connect_reviewed [OF that]]) (auto simp: has_authority_def)
  have "wp (read_aw d) (co_bind (disconnect_driver cfg d x) (\<lambda>ok. if \<not> ok then Raise SETTLEMENT_INCOMPLETE else connect_reviewed cfg d))
      (\<lambda>_ g s. sched_typed s \<and> has_authority d s) (\<lambda>_ _ s. sched_typed s) g s" for x
    unfolding wp_bind
    by (rule rely.wp_weaken [OF keepsD [OF reading.keeps_disconnect_driver [OF TrueI] assms]]) (auto intro: c)
  with c [OF assms] True show ?thesis using assms by (simp add: connect_driver_def)
next
  case False
  have "reading.keeps d (aw_done (DriverConnect (dr_name d) (dr_connect_timeout_s d)))" by (intro keeps_intros)
  from rely.wp_weaken [OF keepsD [OF this assms]] False show ?thesis
    by (auto simp: connect_driver_def has_authority_def)
qed

interpretation reading_loop: sched_reads "connects_kept d" "\<lambda>g s. read_authorised d s" sched_typed is_read "\<lambda>_. True" "\<lambda>_. True" "\<lambda>_. True"
    cfg d "has_authority d" for cfg d
proof
  show "wp (read_aw d) (connect_driver cfg d) (\<lambda>_ g s. sched_typed s \<and> has_authority d s) (\<lambda>_ _ s. sched_typed s) g s"
    if "sched_typed s" for g s by (rule wp_connect_driver [OF that])
qed (auto simp: read_authorised_def has_authority_def barriers_passed_def connect_settled_def me_def upd_def upd_inst_def
      errors_reset_def last_owner_def connected_def)

text \<open>
  C16: A reviewed source is only read with authority. In every run of its poll loop, however long and with
  whatever the other tasks do meanwhile, each read is requested in a state without a connect attempt in
  flight in which either the source is connected, has a generation that is not revoked and owes no
  disconnection, or its newest connect owner has just returned with a committed attempt that did not fail and
  has OFF evidence that satisfies its tier. (The other tasks keep the store typed and leave the connect
  attempts of this instrument to its poll loop.)
\<close>

theorem reviewed_read_authorised:
  assumes "reviewed_binding d" "sched_typed s" "interference_in (connects_kept d) as"
    and "(DriverRead name x, t, ans) \<in> set (co_trace (poll_loop cfg d n) s as)"
  shows "barriers_passed d t \<or> connect_settled d t"
  using keeps_trace [OF reading_loop.keeps_poll_loop assms(2-4)] assms(1)
  by (simp add: read_authorised_def has_authority_def)

end
