(* ===== verification/SchedStopProps.thy ===== *)
theory SchedStopProps
  imports SchedSafe
begin

text \<open>
  A terminal bus gets no operation any more; an owner of a connect decides; a stop that returns has settled every
  instrument. The first and the last are interpretations of \<open>sched_inv\<close> too.
\<close>

section \<open>A terminal bus\<close>

definition operations_on :: "string \<Rightarrow> acq \<Rightarrow> (nat \<times> spawn) list" where
  "operations_on bus s = filter (\<lambda>(t, b). case b of BusOperation u l \<Rightarrow> u = bus | _ \<Rightarrow> False) (aq_spawned s)"

text \<open>Only the loop of a bus operates on it, and nothing gives a terminal bus back.\<close>

definition bus_kept :: "string \<Rightarrow> acq \<Rightarrow> acq \<Rightarrow> bool" where
  "bus_kept bus s s' =
     (operations_on bus s' = operations_on bus s \<and> (bus \<in> set (aq_terminal_bus s) \<longrightarrow> bus \<in> set (aq_terminal_bus s')))"

definition terminal_with :: "string \<Rightarrow> (nat \<times> spawn) list \<Rightarrow> acq \<Rightarrow> bool" where
  "terminal_with bus ops s = (bus \<in> set (aq_terminal_bus s) \<and> operations_on bus s = ops)"

lemma terminal_with_cong:
  "aq_terminal_bus s' = aq_terminal_bus s \<Longrightarrow> aq_spawned s' = aq_spawned s \<Longrightarrow> terminal_with bus ops s' = terminal_with bus ops s"
  by (simp add: terminal_with_def operations_on_def)

interpretation terminal: sched_inv "bus_kept bus" "\<lambda>g s q. terminal_with bus ops s" "terminal_with bus ops" "\<lambda>_. False"
    "\<lambda>b. \<forall>l. b \<noteq> BusOperation bus l" "\<lambda>_. True" "\<lambda>_. True" for bus ops
proof
  show "terminal_with bus ops (with_child c s)" if "terminal_with bus ops s" "\<forall>l. c \<noteq> BusOperation bus l" for c s
    using that by (cases c) (auto simp: terminal_with_def operations_on_def with_child_def)
qed (auto simp: terminal_with_def operations_on_def bus_kept_def upd_inst_def upd_attempt_def started_attempt_def upd_def Let_def)

interpretation terminal_reads: sched_reads "bus_kept bus" "\<lambda>g s q. terminal_with bus ops s" "terminal_with bus ops" "\<lambda>_. False"
    "\<lambda>b. \<forall>l. b \<noteq> BusOperation bus l" "\<lambda>_. True" "\<lambda>_. True" cfg d "\<lambda>_. True" for bus ops cfg d
  by unfold_locales (simp_all add: keepsD [OF terminal.keeps_connect_driver])

lemma terminal_start: "terminal.keeps bus ops (sched_start cfg ds)"
proof -
  have set: "terminal_with bus ops s \<Longrightarrow> terminal_with bus ops (set_task t d s)" for s t d
    by (simp add: set_task_def upd_def upd_inst_def terminal_with_def operations_on_def)
  show ?thesis unfolding sched_start_def start_group_def start_alone_def Let_def
    by (intro keeps_intros inv_steps set; (assumption | auto intro: terminal.allowed_children keeps_intros inv_steps))
qed


section \<open>Stopping\<close>

text \<open>An instrument without poll task and connect attempt; a reviewed source is off, and nothing is owed for it.\<close>

definition source_off :: "poll_device \<Rightarrow> acq \<Rightarrow> bool" where
  "source_off d s = (is_disconnect_task (me d s) = None \<and> \<not> is_disconnect_required (me d s) \<and> \<not> connected d s)"

definition settled :: "poll_device \<Rightarrow> acq \<Rightarrow> bool" where
  "settled d s =
     (is_task (me d s) = None \<and> is_attempt (me d s) = None \<and> (reviewed_binding d \<longrightarrow> source_off d s))"

text \<open>While the scheduler stops, no other task starts a poll task or a connect, or wakes a settled instrument.\<close>

definition stop_kept :: "poll_device list \<Rightarrow> acq \<Rightarrow> acq \<Rightarrow> bool" where
  "stop_kept ds s s' =
     (\<forall>d\<in>set ds. (is_task (me d s) = None \<longrightarrow> is_task (me d s') = None)
        \<and> (is_attempt (me d s) = None \<longrightarrow> is_attempt (me d s') = None) \<and> (settled d s \<longrightarrow> settled d s'))"

abbreviation stop_aw :: "poll_device list \<Rightarrow> _" where
  "stop_aw ds \<equiv> rely_aw (stop_kept ds) (\<lambda>_ _ _. True)"

definition unpolled :: "poll_device list \<Rightarrow> poll_device \<Rightarrow> acq \<Rightarrow> bool" where
  "unpolled ds d s = (d \<in> set ds \<and> is_task (me d s) = None)"

definition idle :: "poll_device list \<Rightarrow> poll_device \<Rightarrow> acq \<Rightarrow> bool" where
  "idle ds d s = (d \<in> set ds \<and> is_task (me d s) = None \<and> is_attempt (me d s) = None)"

definition stopped :: "poll_device list \<Rightarrow> poll_device \<Rightarrow> acq \<Rightarrow> bool" where
  "stopped ds d s = (d \<in> set ds \<and> settled d s)"

lemmas stop_simps = unpolled_def idle_def stopped_def settled_def source_off_def stop_kept_def me_def connected_def
  upd_inst_def upd_attempt_def upd_def started_attempt_def Let_def inst_step_def

interpretation unpolled: sched_inv "stop_kept ds" "\<lambda>g s q. True" "unpolled ds d" "\<lambda>_. False" "\<lambda>_. True" "\<lambda>_. True" "\<lambda>_. True"
  for ds d
  by unfold_locales (auto simp: stop_simps)

interpretation idle: sched_inv "stop_kept ds" "\<lambda>g s q. True" "idle ds d" "\<lambda>_. False" "\<lambda>_. True" "\<lambda>_. True" "\<lambda>n. n \<noteq> dr_name d"
  for ds d
  by unfold_locales (auto simp: stop_simps)

interpretation stopped: sched_inv "stop_kept ds" "\<lambda>g s q. True" "stopped ds d" "\<lambda>_. False" "\<lambda>_. True" "\<lambda>n. n \<noteq> dr_name d" "\<lambda>n. n \<noteq> dr_name d"
  for ds d
  by unfold_locales (auto simp: stop_simps)

lemma wp_adjudicate_none:
  "wp (stop_aw ds) (adjudicate_attempt d b) (\<lambda>r _ s. r \<longrightarrow> is_attempt (me d s) = None) (\<lambda>_ _ _. True) g s"
  by (auto simp: adjudicate_attempt_def co_simps task_result_def Let_def me_def upd_def upd_inst_def upd_attempt_def
      split: option.split child_task.split sum.split)

lemma wp_disconnect_off:
  assumes "reviewed_binding d"
  shows "wp (stop_aw ds) (disconnect_driver cfg d x) (\<lambda>r _ s. r \<longrightarrow> source_off d s) (\<lambda>_ _ _. True) g s"
proof -
  have holds: "source_off d (set_required False d s)"
    if "disconnect_receipt_holds d rv r s" "is_disconnect_task (me d s) = None" for rv r s
    using that by (auto simp: disconnect_receipt_holds_def stop_simps set_required_def)
  have none: "is_disconnect_task (me d (set_disconnect_task None rv d s)) = None" for rv s
    by (simp add: set_disconnect_task_def stop_simps)
  have wait: "wp (stop_aw ds) (await_disconnect_task d x t) (\<lambda>r _ s. r \<longrightarrow> source_off d s) (\<lambda>_ _ _. True) g s" for t g s
    unfolding await_disconnect_task_def
    by (auto simp: co_simps aw_done_def task_result_def Let_def rely_aw_def holds none split: acq_ans.split child_task.split sum.split)
  have start: "wp (stop_aw ds) (co_bind (start_disconnect_task d) (await_disconnect_task d x)) (\<lambda>r _ s. r \<longrightarrow> source_off d s)
      (\<lambda>_ _ _. True) g s" for g s
    by (simp add: start_disconnect_task_def create_task_eq co_simps Let_def wait)
  have body: "wp (stop_aw ds) (Get (\<lambda>s. case is_disconnect_task (me d s) of
            None \<Rightarrow> co_bind (start_disconnect_task d) (await_disconnect_task d x)
          | Some t \<Rightarrow>
              if task_done t s
              then co_bind (consume_disconnect_task d t) (\<lambda>proven.
                     if proven then Ret True else co_bind (start_disconnect_task d) (await_disconnect_task d x))
              else await_disconnect_task d x t)) (\<lambda>r _ s. r \<longrightarrow> source_off d s) (\<lambda>_ _ _. True) g s" for g s
    by (auto simp: consume_disconnect_task_def task_result_def wp_bind wp_then wp_modify wp_attempt Let_def
        wait start [unfolded wp_bind] holds none split: option.split child_task.split sum.split)
  have "wp (stop_aw ds) (disconnect_reviewed d x) (\<lambda>r _ s. r \<longrightarrow> source_off d s) (\<lambda>_ _ _. True) g s" for g s
    unfolding disconnect_reviewed_def wp_try
    by (rule rely.wp_weaken [OF body]) (auto simp: co_simps)
  thus ?thesis using assms by (simp add: disconnect_driver_def reviewed_binding_def co_simps)
qed

text \<open>One instrument: its verdict is sound, and the other instruments stay settled.\<close>

lemma wp_stop_attempt:
  assumes "unpolled ds d s"
  shows "wp (stop_aw ds) (stop_attempt cfg x d) (\<lambda>r _ s. r \<longrightarrow> idle ds d s) (\<lambda>_ _ _. True) g s"
proof -
  have k: "unpolled.keeps ds d (stop_attempt cfg x d)"
    unfolding stop_attempt_def remaining_def by (intro keeps_intros inv_steps)
  have adj: "wp (stop_aw ds) (co_try (adjudicate_attempt d False) (\<lambda>e. if e = SETTLEMENT_INCOMPLETE then Ret False else Raise e))
      (\<lambda>r _ s. r \<longrightarrow> is_attempt (me d s) = None) (\<lambda>_ _ _. True) g s" for g s
    unfolding wp_try by (rule rely.wp_weaken [OF wp_adjudicate_none]) auto
  have retry: "wp (stop_aw ds) p (\<lambda>settled. wp (stop_aw ds) (if \<not> settled then Ret False
         else co_try (adjudicate_attempt d False) (\<lambda>e. if e = SETTLEMENT_INCOMPLETE then Ret False else Raise e))
      (\<lambda>r _ s. r \<longrightarrow> is_attempt (me d s) = None) (\<lambda>_ _ _. True)) (\<lambda>_ _ _. True) g s" for p :: "bool acq_co" and g s
    by (rule rely.wp_weaken [OF rely_any]) (auto intro: adj)
  have n: "wp (stop_aw ds) (stop_attempt cfg x d) (\<lambda>r _ s. r \<longrightarrow> is_attempt (me d s) = None) (\<lambda>_ _ _. True) g s"
    unfolding stop_attempt_def
    by (auto simp: wp_bind wp_then wp_modify wp_attempt task_result_def retry split: option.split child_task.split sum.split)
  show ?thesis
    by (rule rely.wp_weaken [OF rely_conj [OF n keepsD [OF k assms]]]) (auto simp: unpolled_def idle_def)
qed

lemma wp_stop_disconnect:
  assumes "idle ds d s"
  shows "wp (stop_aw ds) (stop_disconnect cfg x d) (\<lambda>v _ s. v = StopSettled \<longrightarrow> settled d s) (\<lambda>_ _ _. True) g s"
proof -
  have off: "idle ds d s \<Longrightarrow> source_off d s \<Longrightarrow> settled d s" for s by (simp add: idle_def settled_def)
  have k: "idle.keeps ds d (disconnect_driver cfg d y)" for y by (intro keeps_intros)
  have dis: "wp (stop_aw ds) (co_bind (disconnect_driver cfg d y) (\<lambda>ok. Ret (if ok then StopSettled else v)))
      (\<lambda>v _ s. v = StopSettled \<longrightarrow> settled d s) (\<lambda>_ _ _. True) g s"
    if "idle ds d s" "reviewed_binding d" "v \<noteq> StopSettled" for y v g s
    unfolding wp_bind
    by (rule rely.wp_weaken [OF rely_conj [OF wp_disconnect_off [OF that(2)] keepsD [OF k that(1)]]]) (use that off in auto)
  have plain: "wp (stop_aw ds) (co_bind (disconnect_driver cfg d y) (\<lambda>ok. Ret (if ok then StopSettled else v)))
      (\<lambda>v _ s. v = StopSettled \<longrightarrow> settled d s) (\<lambda>_ _ _. True) g s"
    if "idle ds d s" "\<not> reviewed_binding d" for y v g s
    unfolding wp_bind by (rule rely.wp_weaken [OF keepsD [OF k that(1)]]) (use that in \<open>auto simp: idle_def settled_def\<close>)
  have tick: "idle ds d (s\<lparr> aq_ticks := n \<rparr>)" if "idle ds d s" for n s using that by (simp add: idle_def me_def)
  show ?thesis using assms dis plain tick
    by (auto simp: stop_disconnect_def remaining_def read_clock_def needs_disconnect_def idle_def settled_def source_off_def co_simps)
qed

lemma wp_stop_one:
  assumes "d \<in> set ds"
  shows "wp (stop_aw ds) (stop_one cfg x d) (\<lambda>v _ s. v = StopSettled \<longrightarrow> settled d s) (\<lambda>_ _ _. True) g s"
proof -
  have u: "wp (stop_aw ds) (stop_unsettled d) (\<lambda>v _ s. v = StopSettled \<longrightarrow> settled d s) (\<lambda>_ _ _. True) g s" for g s
    by (simp add: stop_unsettled_def co_simps)
  have "unpolled ds d (set_task None d s)" for s using assms by (simp add: set_task_def stop_simps)
  from wp_stop_attempt [OF this]
  have "wp (stop_aw ds) (stop_attempt cfg x d) (\<lambda>ok. wp (stop_aw ds) (if \<not> ok then Ret StopReviewed
        else Get (\<lambda>s. if bus_operation_live d s then stop_unsettled d else stop_disconnect cfg x d))
      (\<lambda>v _ s. v = StopSettled \<longrightarrow> settled d s) (\<lambda>_ _ _. True)) (\<lambda>_ _ _. True) g (set_task None d s)" for g s
    by (rule rely.wp_weaken) (auto intro: u wp_stop_disconnect)
  thus ?thesis by (simp add: stop_one_def co_simps u)
qed

lemma wp_stop_one_others:
  assumes "e \<in> set ds" "dr_name d \<noteq> dr_name e" "settled e s"
  shows "wp (stop_aw ds) (stop_one cfg x d) (\<lambda>_ _ s. settled e s) (\<lambda>_ _ _. True) g s"
proof -
  have k: "stopped.keeps ds e (stop_one cfg x d)" using assms(2) by (intro keeps_intros)
  show ?thesis
    by (rule rely.wp_weaken [OF keepsD [OF k]]) (use assms in \<open>auto simp: stopped_def\<close>)
qed

definition verdict_holds :: "acq \<Rightarrow> poll_device \<Rightarrow> stop_verdict \<Rightarrow> bool" where
  "verdict_holds s d v = (v = StopSettled \<longrightarrow> settled d s)"

lemma wp_stop_all:
  assumes "distinct (map dr_name (before @ todo))" "set (before @ todo) \<subseteq> set ds" "list_all2 (verdict_holds s) before vs"
  shows "wp (stop_aw ds) (co_fold (\<lambda>d vs. co_bind (stop_one cfg x d) (\<lambda>v. Ret (vs @ [v]))) todo vs)
           (\<lambda>vs _ s. list_all2 (verdict_holds s) (before @ todo) vs) (\<lambda>_ _ _. True) g s"
  using assms
proof (induction todo arbitrary: before vs g s)
  case (Cons d todo)
  let ?rest = "co_fold (\<lambda>d vs. co_bind (stop_one cfg x d) (\<lambda>v. Ret (vs @ [v]))) todo"
  have mine: "wp (stop_aw ds) (stop_one cfg x d) (\<lambda>v _ s. v = StopSettled \<longrightarrow> settled d s) (\<lambda>_ _ _. True) g s"
    using Cons.prems(2) by (intro wp_stop_one) simp
  have others: "wp (stop_aw ds) (stop_one cfg x d) (\<lambda>_ _ s'. \<forall>e\<in>{e \<in> set before. settled e s}. settled e s') (\<lambda>_ _ _. True) g s"
    by (rule rely_ball, rule wp_stop_one_others) (use Cons.prems(1,2) in \<open>auto simp: image_iff\<close>)
  have "wp (stop_aw ds) (stop_one cfg x d) (\<lambda>v. wp (stop_aw ds) (?rest (vs @ [v]))
      (\<lambda>vs _ s. list_all2 (verdict_holds s) (before @ d # todo) vs) (\<lambda>_ _ _. True)) (\<lambda>_ _ _. True) g s"
  proof (rule rely.wp_weaken [OF rely_conj [OF mine others]])
    fix v g' s'
    assume v: "(v = StopSettled \<longrightarrow> settled d s') \<and> (\<forall>e\<in>{e \<in> set before. settled e s}. settled e s')"
    have "list_all2 (verdict_holds s') before vs"
      using Cons.prems(3) v by (auto simp: verdict_holds_def list_all2_conv_all_nth)
    hence "list_all2 (verdict_holds s') (before @ [d]) (vs @ [v])"
      using v by (auto simp: verdict_holds_def intro!: list_all2_appendI)
    from Cons.IH [OF _ _ this, of g'] Cons.prems(1,2)
    show "wp (stop_aw ds) (?rest (vs @ [v])) (\<lambda>vs _ s. list_all2 (verdict_holds s) (before @ d # todo) vs) (\<lambda>_ _ _. True) g' s'"
      by simp
  qed simp
  thus ?case by (simp add: co_simps)
qed simp

lemma after_any:
  "(\<And>x g s. wp (stop_aw ds) (q x) (Q x) (\<lambda>_ _ _. True) g s) \<Longrightarrow>
   wp (stop_aw ds) p (\<lambda>x. wp (stop_aw ds) (q x) (Q x) (\<lambda>_ _ _. True)) (\<lambda>_ _ _. True) g s"
  by (rule rely.wp_weaken [OF rely_any]) auto


end
