(* ===== verification/SchedOwner.thy ===== *)
theory SchedOwner
  imports SchedSafe
begin

text \<open>
  The owner of a connect decides: it commits the attempt on OFF evidence, or it records an error, revokes the
  generation and calls the attempt safe only after an exact disconnection.
\<close>

section \<open>The record of an attempt\<close>

lemma attempts_simps [simp]:
  "aq_attempts (upd_attempt a f s) = (aq_attempts s)(a := f (aq_attempts s a))" "aq_attempts (upd_inst n h s) = aq_attempts s"
  "aq_attempts (upd d h s) = aq_attempts s" "aq_attempts (set_required b d s) = aq_attempts s"
  "aq_attempts (set_generation gen d s) = aq_attempts s" "aq_attempts (request_cancel t s) = aq_attempts s"
  by (simp_all add: upd_attempt_def upd_inst_def upd_def set_required_def set_generation_def request_cancel_def)

lemma connected_simps [simp]:
  "connected d (upd_attempt a f s) = connected d s" "connected d (set_required b d' s) = connected d s"
  "connected d (set_generation gen d' s) = connected d s"
  by (simp_all add: connected_def upd_attempt_def set_required_def set_generation_def upd_def upd_inst_def)

text \<open>What only the owner writes while it runs.\<close>

definition owner_kept :: "nat \<Rightarrow> acq \<Rightarrow> acq \<Rightarrow> bool" where
  "owner_kept a s s' =
     (let x = aq_attempts s a; y = aq_attempts s' a
      in ra_connected_committed y = ra_connected_committed x \<and> ra_settled_safe y = ra_settled_safe x
         \<and> ra_operation_error y = ra_operation_error x \<and> ra_off_evidence y = ra_off_evidence x
         \<and> ra_generation y = ra_generation x \<and> ra_generation_issued y = ra_generation_issued x
         \<and> ra_driver_io_started y = ra_driver_io_started x)"

abbreviation owner_aw :: "nat \<Rightarrow> _" where
  "owner_aw a \<equiv> rely_aw (owner_kept a) (\<lambda>_ _ _. True)"

definition undecided :: "rattempt \<Rightarrow> bool" where
  "undecided x = (\<not> ra_connected_committed x \<and> \<not> ra_settled_safe x)"

definition committed_with :: "poll_device \<Rightarrow> (acq_req \<times> acq_ans) list \<Rightarrow> rattempt \<Rightarrow> bool" where
  "committed_with d g x =
     (ra_connected_committed x \<and> \<not> ra_settled_safe x
      \<and> (\<exists>g' gen e. g = g' @ [(ConnectComplete (dr_name d) gen, Evidence e)] \<and> satisfies_tier e \<and> ra_off_evidence x = Some e))"

definition failed_safely :: "acq_cfg \<Rightarrow> poll_device \<Rightarrow> (acq_req \<times> acq_ans) list \<Rightarrow> acq \<Rightarrow> rattempt \<Rightarrow> bool" where
  "failed_safely cfg d g s x =
     (\<not> ra_connected_committed x \<and> ra_operation_error x \<noteq> None
      \<and> (\<forall>gen. ra_generation_issued x \<and> ra_generation x = Some gen \<and> reviewed_binding d \<and> ac_uncertain cfg \<longrightarrow>
           ConnectUncertain (dr_name d) gen \<in> fst ` set g)
      \<and> (ra_settled_safe x \<longrightarrow> \<not> ra_driver_io_started x
           \<or> \<not> connected d s \<and> (\<exists>g' gen. g = g' @ [(ReviewedDisconnect (dr_name d) gen, Flag True)])))"

lemma owner_keptD:
  assumes "owner_kept a s s'"
  shows "undecided (aq_attempts s' a) = undecided (aq_attempts s a)"
    "ra_operation_error (aq_attempts s' a) = ra_operation_error (aq_attempts s a)"
    "ra_generation (aq_attempts s' a) = ra_generation (aq_attempts s a)"
    "ra_generation_issued (aq_attempts s' a) = ra_generation_issued (aq_attempts s a)"
    "ra_driver_io_started (aq_attempts s' a) = ra_driver_io_started (aq_attempts s a)"
  using assms by (simp_all add: owner_kept_def undecided_def Let_def)

section \<open>The connect\<close>

lemma undecided_simps [simp]:
  "undecided (x\<lparr> ra_generation := gen, ra_generation_issued := b \<rparr>) = undecided x" "undecided (x\<lparr> ra_driver_io_started := b \<rparr>) = undecided x"
  "undecided (x\<lparr> ra_driver_task := t \<rparr>) = undecided x" "undecided (x\<lparr> ra_operation_error := e \<rparr>) = undecided x"
  "undecided (x\<lparr> ra_revocation_observed := b \<rparr>) = undecided x" "undecided (x\<lparr> ra_off_evidence := ev \<rparr>) = undecided x"
  by (simp_all add: undecided_def)

lemma wp_owner_io:
  assumes "undecided (aq_attempts s a)"
  shows "wp (owner_aw a) (owner_io d a) (\<lambda>_ _ s. undecided (aq_attempts s a)) (\<lambda>_ _ s. undecided (aq_attempts s a)) g s"
  using assms
  by (auto simp: owner_io_def aw_done_def create_task_eq task_result_def require_not_abandoned_def co_simps rely_aw_def owner_keptD
      split: acq_ans.split child_task.split sum.split)

lemma wp_owner_complete:
  assumes "undecided (aq_attempts s a)"
  shows "wp (owner_aw a) (owner_complete d a gen) (\<lambda>_ g s. committed_with d g (aq_attempts s a)) (\<lambda>_ _ s. undecided (aq_attempts s a)) g s"
  using assms
  by (auto simp: owner_complete_def aw_evidence_def require_not_abandoned_def co_simps rely_aw_def owner_keptD committed_with_def
      split: acq_ans.split) (auto simp: undecided_def owner_kept_def Let_def)

lemma wp_owner_connect:
  assumes "undecided (aq_attempts s a)"
  shows "wp (owner_aw a) (owner_connect d a) (\<lambda>_ g s. committed_with d g (aq_attempts s a)) (\<lambda>_ _ s. undecided (aq_attempts s a)) g s"
proof -
  have io: "wp (owner_aw a) (owner_io d a) (\<lambda>x. wp (owner_aw a) (owner_complete d a gen)
      (\<lambda>_ g s. committed_with d g (aq_attempts s a)) (\<lambda>_ _ s. undecided (aq_attempts s a))) (\<lambda>_ _ s. undecided (aq_attempts s a)) g s"
    if "undecided (aq_attempts s a)" for gen g s
    by (rule rely.wp_weaken [OF wp_owner_io [OF that]]) (auto intro: wp_owner_complete)
  show ?thesis using assms
    by (auto simp: owner_connect_def aw_generation_def require_not_abandoned_def co_simps rely_aw_def owner_keptD io
        split: acq_ans.split)
qed

section \<open>The cleanup\<close>

definition failing :: "nat \<Rightarrow> acq \<Rightarrow> bool" where
  "failing a s = (undecided (aq_attempts s a) \<and> ra_operation_error (aq_attempts s a) \<noteq> None)"

definition revoked :: "acq_cfg \<Rightarrow> poll_device \<Rightarrow> nat \<Rightarrow> (acq_req \<times> acq_ans) list \<Rightarrow> acq \<Rightarrow> bool" where
  "revoked cfg d a g s =
     (\<forall>gen. ra_generation_issued (aq_attempts s a) \<and> ra_generation (aq_attempts s a) = Some gen \<and> reviewed_binding d \<and> ac_uncertain cfg \<longrightarrow>
        ConnectUncertain (dr_name d) gen \<in> fst ` set g)"

lemma failing_simps [simp]:
  "failing a (set_generation gen d s) = failing a s" "failing a (set_required b d s) = failing a s"
  "revoked cfg d a g (set_generation gen d' s) = revoked cfg d a g s" "revoked cfg d a g (set_required b d' s) = revoked cfg d a g s"
  "revoked cfg d a g s \<Longrightarrow> revoked cfg d a (g @ h) s"
  by (auto simp: failing_def revoked_def)

lemma failing_kept:
  assumes "owner_kept a s s'"
  shows "failing a s' = failing a s" "revoked cfg d a g s' = revoked cfg d a g s"
  using owner_keptD [OF assms] by (simp_all add: failing_def revoked_def)

lemma wp_owner_revoke:
  assumes "failing a s"
  shows "wp (owner_aw a) (owner_revoke cfg d a) (\<lambda>_ g s. failing a s \<and> revoked cfg d a g s) (\<lambda>_ _ _. False) g s"
proof -
  have obs: "failing a (upd_attempt a (\<lambda>x. x\<lparr> ra_revocation_observed := b \<rparr>) s) = failing a s"
    "revoked cfg d a g (upd_attempt a (\<lambda>x. x\<lparr> ra_revocation_observed := b \<rparr>) s) = revoked cfg d a g s" for b s g
    by (simp_all add: failing_def revoked_def)
  consider (none) "\<not> ra_generation_issued (aq_attempts s a) \<or> ra_generation (aq_attempts s a) = None"
    | (some) gen where "ra_generation_issued (aq_attempts s a)" "ra_generation (aq_attempts s a) = Some gen"
    by (cases "ra_generation (aq_attempts s a)") auto
  thus ?thesis
  proof cases
    case none
    thus ?thesis using assms by (auto simp: owner_revoke_def revoked_def split: option.split bool.split)
  next
    case (some gen)
    have "revoked cfg d a g s" if "\<not> reviewed_binding d \<or> \<not> ac_uncertain cfg" for g s using that by (auto simp: revoked_def)
    moreover have "revoked cfg d a (g @ [(ConnectUncertain (dr_name d) gen, x)]) s'" if "owner_kept a s s'" for s' g x
      using that some by (auto simp: revoked_def owner_keptD)
    ultimately show ?thesis using assms some
      by (auto simp: owner_revoke_def mark_reviewed_uncertain_def aw_done_def co_simps rely_aw_def obs failing_kept
          split: acq_ans.split)
  qed
qed

lemma wp_disconnect_exact:
  assumes "failing a s" "revoked cfg d a g s"
  shows "wp (owner_aw a) (disconnect_reviewed_exact cfg d rv)
     (\<lambda>safe g s. failing a s \<and> revoked cfg d a g s
        \<and> (safe \<longrightarrow> \<not> connected d s \<and> (\<exists>g' gen. g = g' @ [(ReviewedDisconnect (dr_name d) gen, Flag True)])))
     (\<lambda>_ g s. failing a s \<and> revoked cfg d a g s) g s"
  using assms
  by (auto simp: disconnect_reviewed_exact_def aw_flag_def co_simps rely_aw_def failing_kept Let_def split: acq_ans.split)

lemma wp_owner_disconnect:
  assumes "failing a s" "revoked cfg d a g s"
  shows "wp (owner_aw a) (owner_disconnect cfg d a)
     (\<lambda>(safe, _) g s. failing a s \<and> revoked cfg d a g s
        \<and> (safe \<longrightarrow> \<not> ra_driver_io_started (aq_attempts s a)
             \<or> \<not> connected d s \<and> (\<exists>g' gen. g = g' @ [(ReviewedDisconnect (dr_name d) gen, Flag True)])))
     (\<lambda>_ _ _. False) g s"
proof -
  have dis: "wp (owner_aw a) (disconnect_reviewed_exact cfg d None)
     (\<lambda>x. wp (owner_aw a) (Ret (x, if x then [] else [Exn ''RuntimeError''])) (\<lambda>(safe, _) g s. failing a s \<and> revoked cfg d a g s
        \<and> (safe \<longrightarrow> \<not> ra_driver_io_started (aq_attempts s a)
             \<or> \<not> connected d s \<and> (\<exists>g' gen. g = g' @ [(ReviewedDisconnect (dr_name d) gen, Flag True)]))) (\<lambda>_ _ _. False))
     (\<lambda>e. wp (owner_aw a) (Ret (False, [e])) (\<lambda>(safe, _) g s. failing a s \<and> revoked cfg d a g s
        \<and> (safe \<longrightarrow> \<not> ra_driver_io_started (aq_attempts s a)
             \<or> \<not> connected d s \<and> (\<exists>g' gen. g = g' @ [(ReviewedDisconnect (dr_name d) gen, Flag True)]))) (\<lambda>_ _ _. False)) g s"
    if "failing a s" "revoked cfg d a g s" for g s
    by (rule rely.wp_weaken [OF wp_disconnect_exact [OF that]]) auto
  show ?thesis using assms
    by (auto simp: owner_disconnect_def wp_bind wp_attempt wp_then aw_done_def rely_aw_def failing_kept dis [simplified]
        split: option.split acq_ans.split)
qed

lemma wp_own_reviewed_connect:
  assumes "undecided (aq_attempts s a)"
  shows "wp (owner_aw a) (own_reviewed_connect cfg d a)
     (\<lambda>_ g s. committed_with d g (aq_attempts s a) \<or> failed_safely cfg d g s (aq_attempts s a)) (\<lambda>_ _ _. False) g s"
proof -
  let ?Q = "\<lambda>(_ :: unit) g s. committed_with d g (aq_attempts s a) \<or> failed_safely cfg d g s (aq_attempts s a)"
  have settle: "failed_safely cfg d g (settle_owner a safe fs s) (aq_attempts (settle_owner a safe fs s) a)"
    if "failing a s" "revoked cfg d a g s" "safe \<longrightarrow> \<not> ra_driver_io_started (aq_attempts s a)
             \<or> \<not> connected d s \<and> (\<exists>g' gen. g = g' @ [(ReviewedDisconnect (dr_name d) gen, Flag True)])" for safe fs g s
    using that by (auto simp: settle_owner_def failed_safely_def failing_def revoked_def undecided_def)
  have disc: "wp (owner_aw a) (owner_disconnect cfg d a) (\<lambda>x. wp (owner_aw a)
      (case x of (safe, f2) \<Rightarrow> co_modify (settle_owner a safe (f1 @ f2))) ?Q (\<lambda>_ _ _. False)) (\<lambda>_ _ _. False) g s"
    if "failing a s \<and> revoked cfg d a g s" for f1 g s
    by (rule rely.wp_weaken [OF wp_owner_disconnect]) (use that settle in \<open>auto simp: co_simps\<close>)
  have clean: "wp (owner_aw a) (co_bind (owner_revoke cfg d a) (\<lambda>f1.
           co_bind (owner_disconnect cfg d a) (\<lambda>(safe, f2). co_modify (settle_owner a safe (f1 @ f2))))) ?Q (\<lambda>_ _ _. False) g s"
    if "failing a s" for g s
    unfolding wp_bind by (rule rely.wp_weaken [OF wp_owner_revoke [OF that]]) (auto intro: disc)
  show ?thesis unfolding own_reviewed_connect_def wp_bind wp_attempt
    by (rule rely.wp_weaken [OF wp_owner_connect [OF assms]]) (auto simp: wp_then wp_modify intro!: clean simp: failing_def)
qed

text \<open>
  C18: The owner of a connect decides, and never more than was proved. In every run of its task in which nobody else
  writes its attempt, if it ends it ends without raising, and either the attempt is committed and the last
  thing asked was the completion, answered with OFF evidence that satisfies its tier; or it is not
  committed, has its error recorded, the generation it was given was reported as uncertain, and it is called
  settled only if the driver was never touched or the last thing asked was the exact disconnection, which
  answered \<open>True\<close> while the driver is not connected.
\<close>

theorem connect_owner_decides:
  assumes "\<not> ra_connected_committed (aq_attempts s a)" "\<not> ra_settled_safe (aq_attempts s a)" "interference_in (owner_kept a) as"
    and "co_drive (own_reviewed_connect cfg d a) s as = (qs, t, Some r)"
  shows "r = Inr ()
    \<and> (committed_with d (answered (co_trace (own_reviewed_connect cfg d a) s as)) (aq_attempts t a)
       \<or> failed_safely cfg d (answered (co_trace (own_reviewed_connect cfg d a) s as)) t (aq_attempts t a))"
proof -
  have "undecided (aq_attempts s a)" using assms(1,2) by (simp add: undecided_def)
  from rely_end [OF wp_own_reviewed_connect [OF this, where g = "[]"] assms(4,3)] show ?thesis by (cases r) auto
qed

end
