(* ===== verification/SchedStart.thy ===== *)
theory SchedStart
  imports SchedSafe
begin

text \<open>
  What a start of the scheduler leaves behind: one poll task per shared bus and one per other instrument. And what
  ends a poll task: an exception of the failed-poll pipeline.
\<close>

section \<open>The groups\<close>

definition bus_of :: "poll_device \<Rightarrow> string option" where
  "bus_of d = map_option bu_bus_id (dr_descriptor d)"

definition on_bus :: "string \<Rightarrow> poll_device \<Rightarrow> bool" where
  "on_bus b d = (dr_enabled d \<and> bus_of d = Some b)"

definition members :: "(string \<times> poll_device list) list \<Rightarrow> string \<Rightarrow> poll_device list" where
  "members gs b = (case map_of gs b of None \<Rightarrow> [] | Some xs \<Rightarrow> xs)"

lemma members_add: "members (add_to_group bus d gs) b = (if b = bus then members gs b @ [d] else members gs b)"
  by (simp add: members_def add_to_group_def update_conv')

lemma shared_groups_keys: "distinct (map fst gs) \<Longrightarrow> distinct (map fst (shared_groups ds gs))"
  by (induction ds arbitrary: gs) (auto simp: add_to_group_def distinct_update split: option.split)

lemma shared_groups_members: "members (shared_groups ds gs) b = members gs b @ filter (on_bus b) ds"
  by (induction ds arbitrary: gs) (auto simp: members_add on_bus_def bus_of_def split: option.split)

lemma shared_groups_nonempty: "b \<in> fst ` set (shared_groups ds gs) \<longleftrightarrow> b \<in> fst ` set gs \<or> filter (on_bus b) ds \<noteq> []"
proof (induction ds arbitrary: gs)
  case (Cons d ds)
  show ?case using Cons
    by (auto simp: add_to_group_def dom_update on_bus_def bus_of_def split: option.split)
qed simp

lemma group_members:
  assumes "(b, xs) \<in> set (shared_groups ds [])"
  shows "xs = filter (on_bus b) ds" "xs \<noteq> []"
proof -
  have "map_of (shared_groups ds []) b = Some xs" using assms shared_groups_keys [of "[]" ds] by simp
  hence "members (shared_groups ds []) b = xs" by (simp add: members_def)
  thus "xs = filter (on_bus b) ds" using shared_groups_members [of ds "[]" b] by (simp add: members_def)
  moreover have "b \<in> fst ` set (shared_groups ds [])" using assms by (metis fst_conv image_eqI)
  ultimately show "xs \<noteq> []" using shared_groups_nonempty [of b ds "[]"] by simp
qed

lemma group_of:
  assumes "d \<in> set ds" "dr_enabled d" "bus_of d = Some b"
  shows "(b, filter (on_bus b) ds) \<in> set (shared_groups ds [])"
proof -
  have "filter (on_bus b) ds \<noteq> []" using assms by (auto simp: on_bus_def filter_empty_conv)
  hence "b \<in> fst ` set (shared_groups ds [])" using shared_groups_nonempty [of b ds "[]"] by simp
  then obtain xs where "(b, xs) \<in> set (shared_groups ds [])" by auto
  with group_members(1) [OF this] show ?thesis by simp
qed

section \<open>The effect of a start\<close>

definition started_group :: "string \<times> poll_device list \<Rightarrow> acq \<Rightarrow> acq" where
  "started_group g s =
     foldl (\<lambda>s' d. set_task (Some (aq_next_task s)) d s')
       (let s1 = with_child (BusPollTask (fst g)) s in s1\<lparr> aq_shared_tasks := AList.update (fst g) (aq_next_task s) (aq_shared_tasks s1) \<rparr>)
       (snd g)"

definition started_alone :: "poll_device \<Rightarrow> acq \<Rightarrow> acq" where
  "started_alone d s = set_task (Some (aq_next_task s)) d (with_child (PollTask (dr_name d)) s)"

lemma drive_then_modify: "co_drive (co_bind (co_each (\<lambda>d. co_modify (f d)) ds) k) s as = co_drive (k ()) (foldl (\<lambda>s d. f d s) s ds) as"
  by (induction ds arbitrary: s) (simp_all add: co_then_def co_modify_def co_bind_assoc)

lemma drive_start_group: "co_drive (co_bind (start_group g) k) s as = co_drive (k ()) (started_group g s) as"
  by (simp add: start_group_def create_task_eq co_then_def co_modify_def co_bind_assoc started_group_def Let_def
      drive_then_modify [unfolded co_modify_def])

lemma drive_start_alone: "co_drive (co_bind (start_alone d) k) s as = co_drive (k ()) (started_alone d s) as"
  by (simp add: start_alone_def create_task_eq co_modify_def co_bind_assoc started_alone_def)

lemma drive_each:
  fixes k :: "unit \<Rightarrow> unit acq_co"
  assumes "\<And>x s (k :: unit \<Rightarrow> unit acq_co). co_drive (co_bind (p x) k) s as = co_drive (k ()) (f x s) as"
  shows "co_drive (co_bind (co_each p xs) k) s as = co_drive (k ()) (foldl (\<lambda>s x. f x s) s xs) as"
  by (induction xs arbitrary: s) (simp_all add: co_then_def co_bind_assoc assms)

definition started :: "poll_device list \<Rightarrow> acq \<Rightarrow> acq" where
  "started ds s = foldl (\<lambda>s d. started_alone d s) (foldl (\<lambda>s g. started_group g s) (set_running True s) (shared_groups ds [])) (standalone ds)"

lemma drive_start:
  assumes "\<not> handlers_missing cfg" "\<not> list_ex contradictory (shared_groups ds [])"
  shows "co_drive (sched_start cfg ds) s as = ([], started ds s, Some (Inr ()))"
proof -
  let ?s = "foldl (\<lambda>s g. started_group g s) (set_running True s) (shared_groups ds [])"
  have "co_drive (co_bind (co_each start_alone (standalone ds)) Ret) ?s as = ([], started ds s, Some (Inr ()))"
    by (subst drive_each [OF drive_start_alone]) (simp add: started_def)
  moreover have "co_bind p Ret = p" for p :: "unit acq_co" by (induction p) auto
  ultimately have "co_drive (co_each start_alone (standalone ds)) ?s as = ([], started ds s, Some (Inr ()))" by simp
  thus ?thesis using assms
    by (simp add: sched_start_def co_then_def co_modify_def Let_def drive_each [OF drive_start_group])
qed

section \<open>What it leaves\<close>

text \<open>The child a poll task of an instrument runs.\<close>

definition poll_child :: "poll_device \<Rightarrow> spawn" where
  "poll_child d = (case bus_of d of None \<Rightarrow> PollTask (dr_name d) | Some b \<Rightarrow> BusPollTask b)"

definition polled_by :: "nat \<Rightarrow> poll_device \<Rightarrow> acq \<Rightarrow> bool" where
  "polled_by m d s = (is_task (me d s) = Some m \<and> spawned s m (poll_child d))"

lemma set_task_simps [simp]:
  "is_task (aq_inst (set_task t d s) n) = (if n = dr_name d then t else is_task (aq_inst s n))"
  "aq_spawned (set_task t d s) = aq_spawned s" "aq_next_task (set_task t d s) = aq_next_task s" "aq_running (set_task t d s) = aq_running s"
  by (simp_all add: set_task_def upd_def upd_inst_def)

lemma set_tasks_simps [simp]:
  "is_task (aq_inst (foldl (\<lambda>s d. set_task t d s) s ds) n) = (if n \<in> dr_name ` set ds then t else is_task (aq_inst s n))"
  "aq_spawned (foldl (\<lambda>s d. set_task t d s) s ds) = aq_spawned s"
  "aq_next_task (foldl (\<lambda>s d. set_task t d s) s ds) = aq_next_task s"
  "aq_running (foldl (\<lambda>s d. set_task t d s) s ds) = aq_running s"
  by (induction ds arbitrary: s) auto

lemma started_group_simps [simp]:
  "is_task (aq_inst (started_group g s) n) = (if n \<in> dr_name ` set (snd g) then Some (aq_next_task s) else is_task (aq_inst s n))"
  "aq_spawned (started_group g s) = aq_spawned s @ [(aq_next_task s, BusPollTask (fst g))]"
  "aq_next_task (started_group g s) = aq_next_task s + 1" "aq_running (started_group g s) = aq_running s"
  by (simp_all add: started_group_def Let_def with_child_def)

lemma started_alone_simps [simp]:
  "is_task (aq_inst (started_alone d s) n) = (if n = dr_name d then Some (aq_next_task s) else is_task (aq_inst s n))"
  "aq_spawned (started_alone d s) = aq_spawned s @ [(aq_next_task s, PollTask (dr_name d))]"
  "aq_next_task (started_alone d s) = aq_next_task s + 1" "aq_running (started_alone d s) = aq_running s"
  by (simp_all add: started_alone_def with_child_def)

lemma distinct_map_fst_neq: "distinct (map fst (gs @ [h])) \<Longrightarrow> g \<in> set gs \<Longrightarrow> fst g \<noteq> fst h"
  by (metis Un_iff append_is_Nil_conv distinct_append disjoint_iff image_eqI list.set_intros(1) map_append list.simps(9) set_map)

text \<open>The groups have disjoint members, so a later one takes no task away.\<close>

lemma started_groups:
  assumes "\<And>g h d e. g \<in> set gs \<Longrightarrow> h \<in> set gs \<Longrightarrow> d \<in> set (snd g) \<Longrightarrow> e \<in> set (snd h) \<Longrightarrow> dr_name d = dr_name e \<Longrightarrow> fst g = fst h"
    and "distinct (map fst gs)" "g \<in> set gs"
  shows "\<exists>m. spawned (foldl (\<lambda>s g. started_group g s) s gs) m (BusPollTask (fst g))
    \<and> (\<forall>d\<in>set (snd g). is_task (me d (foldl (\<lambda>s g. started_group g s) s gs)) = Some m)"
  using assms
proof (induction gs rule: rev_induct)
  case (snoc h gs)
  let ?s = "foldl (\<lambda>s g. started_group g s) s gs"
  show ?case
  proof (cases "g = h")
    case True
    thus ?thesis by (auto simp: spawned_def me_def)
  next
    case False
    hence g: "g \<in> set gs" using snoc.prems(3) by simp
    have "\<exists>m. spawned ?s m (BusPollTask (fst g)) \<and> (\<forall>d\<in>set (snd g). is_task (me d ?s) = Some m)"
      by (rule snoc.IH) (use snoc.prems(1,2) g in auto)
    then obtain m where m: "spawned ?s m (BusPollTask (fst g))" "\<forall>d\<in>set (snd g). is_task (me d ?s) = Some m" by blast
    have "fst g \<noteq> fst h" using snoc.prems(2) g by (metis distinct_map_fst_neq)
    hence "dr_name d \<notin> dr_name ` set (snd h)" if "d \<in> set (snd g)" for d
      using snoc.prems(1) [of g h d] that g by auto
    thus ?thesis using m by (auto simp: spawned_def me_def)
  qed
qed simp

lemma started_others:
  "n \<notin> dr_name ` set ds \<Longrightarrow> is_task (aq_inst (foldl (\<lambda>s d. started_alone d s) s ds) n) = is_task (aq_inst s n)"
  "spawned s m c \<Longrightarrow> spawned (foldl (\<lambda>s d. started_alone d s) s ds) m c"
  by (induction ds arbitrary: s) (auto simp: spawned_def)

lemma started_single:
  assumes "distinct (map dr_name ds)" "d \<in> set ds"
  shows "\<exists>m. is_task (me d (foldl (\<lambda>s d. started_alone d s) s ds)) = Some m \<and> spawned (foldl (\<lambda>s d. started_alone d s) s ds) m (PollTask (dr_name d))"
  using assms
proof (induction ds arbitrary: s)
  case (Cons e ds)
  show ?case
  proof (cases "d = e")
    case True
    hence "dr_name d \<notin> dr_name ` set ds" using Cons.prems(1) by simp
    from started_others(1) [OF this] show ?thesis
      by (auto simp: True me_def intro!: started_others(2)) (simp add: spawned_def)
  qed (use Cons in auto)
qed simp

lemma started_polled:
  assumes "distinct (map dr_name ds)" "d \<in> set ds" "dr_enabled d"
  shows "\<exists>m. polled_by m d (started ds s)" and "\<And>e m. e \<in> set ds \<Longrightarrow> dr_enabled e \<Longrightarrow> bus_of d \<noteq> None \<Longrightarrow> bus_of e = bus_of d \<Longrightarrow>
     polled_by m d (started ds s) \<Longrightarrow> polled_by m e (started ds s)"
proof -
  let ?gs = "shared_groups ds []"
  let ?s = "foldl (\<lambda>s g. started_group g s) (set_running True s) ?gs"
  have same: "d = e" if "d \<in> set ds" "e \<in> set ds" "dr_name d = dr_name e" for d e
    using assms(1) that by (meson distinct_map inj_onD)
  have dis: "fst g = fst h" if "g \<in> set ?gs" "h \<in> set ?gs" "d \<in> set (snd g)" "e \<in> set (snd h)" "dr_name d = dr_name e" for g h d e
  proof -
    have "d \<in> set ds" "on_bus (fst g) d" "e \<in> set ds" "on_bus (fst h) e"
      using that group_members(1) [of "fst g" "snd g" ds] group_members(1) [of "fst h" "snd h" ds] by auto
    with same [OF _ _ that(5)] show ?thesis by (auto simp: on_bus_def)
  qed
  have keys: "distinct (map fst ?gs)" by (rule shared_groups_keys) simp
  have bus: "\<exists>m. spawned (started ds s) m (BusPollTask b) \<and> (\<forall>x\<in>set ds. dr_enabled x \<and> bus_of x = Some b \<longrightarrow> is_task (me x (started ds s)) = Some m)"
    if "d \<in> set ds" "dr_enabled d" "bus_of d = Some b" for d b
  proof -
    have "\<exists>m. spawned ?s m (BusPollTask b) \<and> (\<forall>x\<in>set (filter (on_bus b) ds). is_task (me x ?s) = Some m)"
      using started_groups [OF _ keys group_of [OF that], of "set_running True s"] dis by force
    then obtain m where m: "spawned ?s m (BusPollTask b)" "\<forall>x\<in>set (filter (on_bus b) ds). is_task (me x ?s) = Some m" by blast
    have "is_task (me x (started ds s)) = Some m" if x: "x \<in> set ds" "dr_enabled x" "bus_of x = Some b" for x
    proof -
      have "dr_name x \<notin> dr_name ` set (standalone ds)"
      proof
        assume "dr_name x \<in> dr_name ` set (standalone ds)"
        then obtain y where y: "y \<in> set ds" "dr_descriptor y = None" "dr_name x = dr_name y" by (auto simp: standalone_def)
        with same [OF x(1) y(1,3)] x(3) show False by (simp add: bus_of_def)
      qed
      from started_others(1) [OF this, of ?s] show ?thesis using m(2) x by (simp add: started_def me_def on_bus_def)
    qed
    moreover have "spawned (started ds s) m (BusPollTask b)" unfolding started_def by (rule started_others(2) [OF m(1)])
    ultimately show ?thesis by blast
  qed
  show "\<exists>m. polled_by m d (started ds s)"
  proof (cases "bus_of d")
    case None
    have "d \<in> set (standalone ds)" using assms(2,3) None by (simp add: standalone_def bus_of_def)
    moreover have "distinct (map dr_name (standalone ds))" using assms(1) by (simp add: standalone_def distinct_map_filter)
    ultimately show ?thesis using started_single [of "standalone ds" d ?s] None by (auto simp: started_def polled_by_def poll_child_def)
  next
    case (Some b)
    thus ?thesis using bus [OF assms(2,3) Some] assms(2,3) by (auto simp: polled_by_def poll_child_def)
  qed
  show "polled_by m e (started ds s)"
    if "e \<in> set ds" "dr_enabled e" "bus_of d \<noteq> None" "bus_of e = bus_of d" "polled_by m d (started ds s)" for e m
  proof -
    from that(3) obtain b where b: "bus_of d = Some b" by (cases "bus_of d") auto
    from bus [OF assms(2,3) b] obtain k where k: "spawned (started ds s) k (BusPollTask b)"
      "\<And>x. x \<in> set ds \<Longrightarrow> dr_enabled x \<Longrightarrow> bus_of x = Some b \<Longrightarrow> is_task (me x (started ds s)) = Some k" by blast
    have "k = m" using k(2) [OF assms(2,3) b] that(5) by (simp add: polled_by_def)
    thus ?thesis using k(1) k(2) [OF that(1,2)] that(4) b by (simp add: polled_by_def poll_child_def)
  qed
qed

lemma one_value: "length (remdups (map f xs)) \<le> 1 \<Longrightarrow> x \<in> set xs \<Longrightarrow> y \<in> set xs \<Longrightarrow> f x = f y"
proof -
  assume l: "length (remdups (map f xs)) \<le> 1" and "x \<in> set xs" "y \<in> set xs"
  hence "f x \<in> set (remdups (map f xs))" "f y \<in> set (remdups (map f xs))" by simp_all
  thus "f x = f y" using l by (cases "remdups (map f xs)") auto
qed

text \<open>
  C21: A start gives every bus to one task. If \<open>start\<close> returns, the scheduler runs and every enabled instrument has a
  poll task that was created for it: the serial loop of its bus, or a loop of its own. Two enabled
  instruments share a task exactly when they are on the same bus, and then they agree on the bus
  descriptor and on the recovery coordinator. If it raises, no task was created, and it does not run
  unless it did before. Nothing is awaited in either case.
\<close>

theorem start_serializes_buses:
  assumes "distinct (map dr_name ds)" "sched_typed s" "co_drive (sched_start cfg ds) s as = (qs, t, Some r)"
    and "d \<in> set ds" "e \<in> set ds" "dr_enabled d" "dr_enabled e"
  shows "qs = [] \<and> (case r of
      Inr _ \<Rightarrow> aq_running t \<and> (\<exists>m. polled_by m d t)
        \<and> (is_task (me d t) = is_task (me e t) \<longleftrightarrow> d = e \<or> bus_of d \<noteq> None \<and> bus_of d = bus_of e)
        \<and> (bus_of d \<noteq> None \<and> bus_of d = bus_of e \<longrightarrow> dr_descriptor d = dr_descriptor e \<and> dr_coordinator d = dr_coordinator e)
    | Inl _ \<Rightarrow> aq_spawned t = aq_spawned s \<and> aq_tasks t = aq_tasks s \<and> (aq_running t \<longrightarrow> aq_running s))"
proof (cases "\<not> handlers_missing cfg \<and> \<not> list_ex contradictory (shared_groups ds [])")
  case True
  hence t: "qs = []" "t = started ds s" "r = Inr ()" using drive_start [of cfg ds s as] assms(3) by auto
  have "typing.keeps (sched_start cfg ds)" by (rule sched_start_keeps)
  from keeps_end [OF this assms(2), of "[]"] drive_start [of cfg ds s "[]"] True
  have "sched_typed t" by (simp add: t)
  hence "distinct (map fst (aq_spawned t))" by (simp add: sched_typed_def spawned_once_def)
  hence once: "c = c'" if "spawned t m c" "spawned t m c'" for m c c'
    using that unfolding spawned_def by (rule eq_key_imp_eq_value)
  obtain m where m: "polled_by m d t" using started_polled(1) [OF assms(1,4,6)] t by blast
  obtain k where k: "polled_by k e t" using started_polled(1) [OF assms(1,5,7)] t by blast
  have name: "dr_name d = dr_name e \<Longrightarrow> d = e" using assms(1,4,5) by (meson distinct_map inj_onD)
  have run: "aq_running t"
  proof -
    have "aq_running (foldl (\<lambda>s g. started_group g s) s gs) = aq_running s" for s gs by (induction gs arbitrary: s) auto
    moreover have "aq_running (foldl (\<lambda>s d. started_alone d s) s ds) = aq_running s" for s ds by (induction ds arbitrary: s) auto
    ultimately show ?thesis by (simp add: t started_def set_running_def)
  qed
  have share: "is_task (me d t) = is_task (me e t) \<longleftrightarrow> d = e \<or> bus_of d \<noteq> None \<and> bus_of d = bus_of e"
  proof
    assume "is_task (me d t) = is_task (me e t)"
    hence "m = k" using m k by (simp add: polled_by_def)
    hence "poll_child d = poll_child e" using m k once by (auto simp: polled_by_def)
    thus "d = e \<or> bus_of d \<noteq> None \<and> bus_of d = bus_of e" using name by (auto simp: poll_child_def split: option.splits)
  next
    assume "d = e \<or> bus_of d \<noteq> None \<and> bus_of d = bus_of e"
    thus "is_task (me d t) = is_task (me e t)"
    proof
      assume b: "bus_of d \<noteq> None \<and> bus_of d = bus_of e"
      have "polled_by m e t"
        unfolding t(2)
        by (rule started_polled(2) [OF assms(1,4,6,5,7) conjunct1 [OF b] conjunct2 [OF b, symmetric] m [unfolded t(2)]])
      thus ?thesis using m by (simp add: polled_by_def)
    qed simp
  qed
  have agree: "dr_descriptor d = dr_descriptor e \<and> dr_coordinator d = dr_coordinator e"
    if bus: "bus_of d \<noteq> None" "bus_of d = bus_of e"
  proof -
    obtain b where b: "bus_of d = Some b" using bus(1) by auto
    let ?xs = "filter (on_bus b) ds"
    have in_xs: "d \<in> set ?xs" "e \<in> set ?xs" using assms(4-7) b bus(2) by (auto simp: on_bus_def)
    have "\<not> contradictory (b, ?xs)" using True group_of [OF assms(4,6) b] by (auto simp: list_ex_iff)
    hence "length (remdups (map dr_descriptor ?xs)) \<le> 1" "length (remdups (map dr_coordinator ?xs)) \<le> 1"
      by (auto simp: contradictory_def)
    thus ?thesis using one_value [of dr_descriptor ?xs d e] one_value [of dr_coordinator ?xs d e] in_xs by blast
  qed
  show ?thesis unfolding t(1,3) sum.case using run share agree m by blast
next
  case False
  thus ?thesis using assms(3) by (auto simp: sched_start_def co_then_def co_modify_def Let_def set_running_def split: if_splits)
qed

section \<open>What ends a poll task\<close>

lemma drive_raises: "co_drive p s as = (qs, t, Some (Inl e)) \<Longrightarrow> co_drive (co_bind p k) s as = (qs, t, Some (Inl e))"
proof (induction p arbitrary: s as qs)
  case (Get f)
  from Get.IH [OF rangeI] Get.prems show ?case by simp
next
  case (Await q f)
  obtain r u bs where as: "as = (r, u) # bs" using Await.prems by (cases as) auto
  obtain qs' where "co_drive (f r) (u s) bs = (qs', t, Some (Inl e))" "qs = q # qs'"
    using Await.prems by (auto simp: as split: prod.splits)
  from Await.IH [OF rangeI this(1)] this(2) show ?case by (simp add: as)
qed auto

text \<open>
  C22: An exception of the failed-poll pipeline ends the poll task. If the read of an instrument fails and the
  publication of its failed-poll samples raises (a broker that refuses a reserved channel, a recovery
  handler that raises), then the poll loop ends with that exception right there, although the scheduler
  runs: nothing is slept, no backoff, and however many iterations were left, the instrument is never
  read again. Nobody looks at the result of the task before the scheduler stops.
\<close>

theorem failed_poll_error_ends_polling:
  assumes "aq_running s" "connected d s" "is_attempt (me d s) = None" "\<not> reviewed_binding d" "e \<noteq> Cancelled"
    and "co_drive (publish_failed_poll cfg d) (upd d count_error (f s)) as = (qs, t, Some (Inl e'))"
  shows "co_drive (poll_loop_n cfg d (Suc n) deadline) s ((Threw e, f) # as)
    = (DriverRead (dr_name d) (dr_read_timeout_s d) # qs, t, Some (Inl e'))"
  using assms(1-5)
  by (simp add: poll_iteration_def poll_body_def poll_guarded_def poll_read_def poll_failed_def aw_readings_def co_then_def co_modify_def
        co_bind_assoc drive_raises [OF assms(6)])

end
