(* ===== verification/AcquireProps.thy ===== *)
theory AcquireProps
  imports Acquire
begin

text \<open>
  Properties of the acquisition pipeline. Other tasks may change everything at an await, but they never take
  back a committed row: that is the relation \<open>only_adds\<close>.
\<close>

section \<open>Persistence first\<close>

definition only_adds :: "acq \<Rightarrow> acq \<Rightarrow> bool" where
  "only_adds s s' = db_grows (aq_writer s) (aq_writer s')"

text \<open>The readings are stored, except those the bool interface of the writer leaves out without a word.\<close>

definition in_store :: "wr_cfg \<Rightarrow> raw_reading list \<Rightarrow> acq \<Rightarrow> bool" where
  "in_store wc pub s = (\<forall>r\<in>set pub. stored r (aq_writer s) \<or> \<not> wc_live wc \<and> row_refused r)"

text \<open>They are the selected readings of the poll, under the channel names of their descriptors.\<close>

definition from_poll :: "wr_cfg \<Rightarrow> raw_reading list \<Rightarrow> raw_reading list \<Rightarrow> bool" where
  "from_poll wc rs pub =
     (\<exists>sel. subseq sel rs \<and> (if wc_live wc then list_all2 receipt_reading_matches pub sel else pub = sel))"

definition bind_names_channel :: "wr_cfg \<Rightarrow> bool" where
  "bind_names_channel wc = (\<forall>r b. wc_bind wc r = Inr b \<longrightarrow> r_channel (bd_reading b) = bd_channel_id b)"

fun is_publish :: "acq_req \<Rightarrow> bool" where
  "is_publish (PublishData pub auth envs) = True"
| "is_publish (PublishSafety rs) = True"
| "is_publish _ = False"

fun was_ok :: "acq_ans \<Rightarrow> bool" where
  "was_ok (Threw e) = False"
| "was_ok _ = True"

definition first_ok :: "wr_cfg \<Rightarrow> raw_reading list \<Rightarrow> (acq_req \<times> acq_ans) list \<Rightarrow> acq \<Rightarrow> acq_req \<Rightarrow> bool" where
  "first_ok wc rs g s q =
     (case q of
        PublishData pub auth envs \<Rightarrow> auth \<and> in_store wc pub s \<and> from_poll wc rs pub
          \<and> (case envs of None \<Rightarrow> \<not> wc_live wc | Some es \<Rightarrow> wc_live wc \<and> length es = length pub)
      | PublishSafety x \<Rightarrow> x = rs
          \<and> (\<forall>(p, a) \<in> set g. case p of PublishData pub auth envs \<Rightarrow> was_ok a \<and> in_store wc pub s | _ \<Rightarrow> True)
      | _ \<Rightarrow> True)"

definition silent :: "(acq_req \<times> acq_ans) list \<Rightarrow> bool" where
  "silent g = list_all (\<lambda>(q, a). \<not> is_publish q) g"

lemma silent_simps [simp]: "silent []" "silent (g @ [(q, a)]) \<longleftrightarrow> silent g \<and> \<not> is_publish q"
  by (simp_all add: silent_def)

lemma only_adds_stored: "stored r (aq_writer s) \<Longrightarrow> only_adds s s' \<Longrightarrow> stored r (aq_writer s')"
  by (simp add: only_adds_def stored_grows)

lemma in_store_grows: "in_store wc pub s \<Longrightarrow> only_adds s s' \<Longrightarrow> in_store wc pub s'"
  by (auto simp: in_store_def intro: only_adds_stored)

lemma in_store_cong: "wr_db (aq_writer s') = wr_db (aq_writer s) \<Longrightarrow> in_store wc pub s' = in_store wc pub s"
  by (simp add: in_store_def stored_def)

named_theorems same_db "steps of the pipeline that commit nothing"

lemma same_db_steps [same_db, simp]:
  "wr_db (aq_writer (log_event e s)) = wr_db (aq_writer s)"
  "wr_db (aq_writer (observe_ambiguity cfg s)) = wr_db (aq_writer s)"
  "wr_db (aq_writer (upd_inst n f s)) = wr_db (aq_writer s)"
  "wr_db (aq_writer (count_srdg rs p s)) = wr_db (aq_writer s)"
  "wr_db (consume k w) = wr_db w"
  "wr_db (discard_consumed k w) = wr_db w"
  by (simp_all add: log_event_def observe_ambiguity_def upd_inst_def count_srdg_def consume_def discard_consumed_def)

lemma observe_db [same_db, simp]:
  "wr_db (aq_writer (observe_commit cfg rc s)) = wr_db (aq_writer s)"
  "wr_db (aq_writer (observe_rejection cfg n e s)) = wr_db (aq_writer s)"
  by (simp_all add: observe_commit_def observe_rejection_def Let_def split: option.split)

lemma wp_on_writer:
  "wp aw (on_writer f) Q E g s =
     (case f (aq_writer s) of (w, r) \<Rightarrow> (case r of Inl e \<Rightarrow> E e g (s\<lparr> aq_writer := w \<rparr>) | Inr x \<Rightarrow> Q x g (s\<lparr> aq_writer := w \<rparr>)))"
  by (auto simp: on_writer_def split: prod.splits sum.splits)

abbreviation acq_aw :: "wr_cfg \<Rightarrow> raw_reading list \<Rightarrow> _" where
  "acq_aw wc rs \<equiv> rely_aw only_adds (first_ok wc rs)"


text \<open>The step of an await: a request that publishes nothing keeps the history silent.\<close>

lemma wp_silent_await:
  assumes "silent g" "\<not> is_publish q"
    and "\<And>s' a. only_adds s s' \<Longrightarrow> silent (g @ [(q, a)]) \<Longrightarrow> wp (acq_aw wc rs) (k a) Q E (g @ [(q, a)]) s'"
  shows "wp (acq_aw wc rs) (Await q k) Q E g s"
  unfolding wp.simps
proof (rule rely_awI)
  show "first_ok wc rs g s q" using assms(2) by (cases q) (simp_all add: first_ok_def)
  show "wp (acq_aw wc rs) (k a) Q E (g @ [(q, a)]) s'" if "only_adds s s'" for s' a
    using assms(3) [OF that] assms(1,2) by simp
qed

text \<open>What a receipt proves: the bound readings of the batch are stored.\<close>

definition proves :: "bound list \<Rightarrow> receipt option \<Rightarrow> acq \<Rightarrow> bool" where
  "proves bs r s =
     (case r of None \<Rightarrow> True | Some rc \<Rightarrow> rc_entries rc = bs \<and> (\<forall>b\<in>set bs. stored (live_reading b) (aq_writer s)))"

lemma proves_cong: "wr_db (aq_writer s') = wr_db (aq_writer s) \<Longrightarrow> proves bs r s' = proves bs r s"
  by (simp add: proves_def stored_def split: option.split)

lemma wp_settlement_wait:
  assumes "silent g"
    and Q: "\<And>r g s. silent g \<Longrightarrow> proves (snd t) r s \<Longrightarrow> Q r g s"
    and E: "\<And>e g s. silent g \<Longrightarrow> E e g s"
  shows "wp (acq_aw wc rs) (settlement_wait wc t) Q E g s"
  unfolding settlement_wait_def
proof (rule wp_silent_await [OF assms(1)])
  fix s' a
  assume g: "silent (g @ [(CommitWait (fst t), a)])"
  show "wp (acq_aw wc rs)
      (case a of Threw e \<Rightarrow> Raise e
       | OwnerCancelled \<Rightarrow> co_then (co_modify (upd_writer (consume (fst t)))) (Raise Cancelled)
       | Ran refused io \<Rightarrow> co_finally (on_writer (commit_owner wc refused io (snd t))) (co_modify (upd_writer (consume (fst t))))
       | _ \<Rightarrow> Raise (Exn ''TypeError'')) Q E (g @ [(CommitWait (fst t), a)]) s'"
  proof (cases a)
    case (Ran refused io)
    obtain w r where w: "commit_owner wc refused io (snd t) (aq_writer s') = (w, r)"
      by (cases "commit_owner wc refused io (snd t) (aq_writer s')")
    have "proves (snd t) x (upd_writer (consume (fst t)) (s'\<lparr> aq_writer := w \<rparr>))" if "r = Inr x" for x
      using commit_owner_spec [OF w] that by (auto simp: proves_def upd_writer_def stored_def split: option.split)
    thus ?thesis using g by (cases r) (simp_all add: Ran co_simps wp_on_writer w Q E del: silent_simps)
  qed (use g in \<open>simp_all add: co_simps E del: silent_simps\<close>)
qed simp_all

lemma wp_settle_after_cancel:
  assumes "silent g" and E: "\<And>e g s. silent g \<Longrightarrow> E e g s"
  shows "wp (acq_aw wc rs) (settle_after_cancel cfg wc t) Q E g s"
  unfolding settle_after_cancel_def settle_committed_def
  by (auto simp: co_simps assms split: option.split intro!: wp_settlement_wait [OF assms(1)])

lemma wp_await_receipt:
  assumes "silent g"
    and Q: "\<And>bs r g s. silent g \<Longrightarrow> bind_all (wc_bind wc) combined = Inr bs \<Longrightarrow> proves bs r s \<Longrightarrow> Q r g s"
    and E: "\<And>e g s. silent g \<Longrightarrow> E e g s"
  shows "wp (acq_aw wc rs) (await_receipt cfg wc combined) Q E g s"
proof -
  obtain w b where b: "begin_committed wc combined (aq_writer s) = (w, b)" by (cases "begin_committed wc combined (aq_writer s)")
  show ?thesis
  proof (cases b)
    case (Inl e)
    thus ?thesis using assms(1) by (simp add: await_receipt_def co_simps wp_on_writer b E)
  next
    case (Inr t)
    have bs: "bind_all (wc_bind wc) combined = Inr (snd t)"
      using b by (auto simp: Inr begin_committed_def split: if_splits sum.splits)
    have rel: "wp (acq_aw wc rs) (co_then (on_writer (release_committed t)) (Ret r)) Q (\<lambda>e g s. silent g \<and> e \<noteq> Cancelled) g s"
      if "silent g" "proves (snd t) r s" for r g s
    proof -
      obtain w' x where w': "release_committed t (aq_writer s) = (w', x)" by (cases "release_committed t (aq_writer s)")
      have "wr_db w' = wr_db (aq_writer s)" "\<And>e. x = Inl e \<Longrightarrow> e \<noteq> Cancelled"
        using w' by (auto simp: release_committed_def split: if_splits)
      moreover from this have "proves (snd t) r (s\<lparr> aq_writer := w' \<rparr>)"
        using that(2) proves_cong [of "s\<lparr> aq_writer := w' \<rparr>" s] by simp
      ultimately show ?thesis using Q [OF that(1) bs] that(1) by (auto simp: co_simps wp_on_writer w' split: sum.split)
    qed
    have err: "wp (acq_aw wc rs) (if e = Cancelled then settle_after_cancel cfg wc t
          else co_then (co_modify (observe_ambiguity cfg)) (Raise e)) Q E g s" if "silent g" for e g s
      using that wp_settle_after_cancel [OF that, of E] by (auto simp: co_simps E)
    have "wp (acq_aw wc rs) (settlement_wait wc t)
        (\<lambda>r. wp (acq_aw wc rs) (co_then (on_writer (release_committed t)) (Ret r)) Q
           (\<lambda>e. wp (acq_aw wc rs) (if e = Cancelled then settle_after_cancel cfg wc t
              else co_then (co_modify (observe_ambiguity cfg)) (Raise e)) Q E))
        (\<lambda>e. wp (acq_aw wc rs) (if e = Cancelled then settle_after_cancel cfg wc t
              else co_then (co_modify (observe_ambiguity cfg)) (Raise e)) Q E) g (s\<lparr> aq_writer := w \<rparr>)"
      by (rule wp_settlement_wait [OF assms(1)], rule rely.wp_weaken [OF rel], assumption+, erule conjE, erule err, erule err)
    thus ?thesis unfolding await_receipt_def by (simp add: co_simps wp_on_writer b Inr)
  qed
qed


section \<open>From a receipt to a publication\<close>

definition committed_ok :: "wr_cfg \<Rightarrow> raw_reading list \<Rightarrow> committed \<Rightarrow> acq \<Rightarrow> bool" where
  "committed_ok wc rs c s =
     (case c of (pub, envs, ok) \<Rightarrow> ok \<longrightarrow> in_store wc pub s \<and> from_poll wc rs pub
        \<and> (case envs of None \<Rightarrow> \<not> wc_live wc | Some es \<Rightarrow> wc_live wc \<and> length es = length pub))"

lemma committed_ok_cong: "wr_db (aq_writer s') = wr_db (aq_writer s) \<Longrightarrow> committed_ok wc rs c s' = committed_ok wc rs c s"
  by (simp add: committed_ok_def in_store_cong [of s' s] split: prod.split)

lemma bind_all_list: "bind_all f rs = Inr bs \<Longrightarrow> list_all2 (\<lambda>r b. f r = Inr b) rs bs"
proof (induction rs arbitrary: bs)
  case (Cons r rs)
  thus ?case by (auto split: sum.splits simp: map_sum_def)
qed simp

lemma live_reading_bound:
  assumes "bind_names_channel wc" "bind_all (wc_bind wc) rs = Inr bs" "b \<in> set bs"
  shows "live_reading b = bd_reading b"
proof -
  obtain r where "wc_bind wc r = Inr b" using bind_all_list [OF assms(2)] assms(3) by (auto simp: list_all2_conv_all_nth in_set_conv_nth)
  hence "bd_channel_id b = r_channel (bd_reading b)" using assms(1) by (simp add: bind_names_channel_def)
  thus ?thesis by (simp add: live_reading_def)
qed

lemma receipt_is_ok:
  assumes "bind_names_channel wc" "wc_live wc" "subseq selected rs" "bind_all (wc_bind wc) (selected @ srdg) = Inr bs"
    and "proves bs (Some rc) s"
    and "list_all2 (\<lambda>admitted entry. receipt_reading_matches (bd_reading entry) admitted) (selected @ srdg) (rc_entries rc)"
  shows "committed_ok wc rs (take (length selected) (map bd_reading (rc_entries rc)),
           Some (take (length selected) (map bd_envelope (rc_entries rc))), True) s"
proof -
  let ?pub = "take (length selected) (map bd_reading (rc_entries rc))"
  have rc: "rc_entries rc = bs" and st: "\<And>b. b \<in> set bs \<Longrightarrow> stored (live_reading b) (aq_writer s)"
    using assms(5) by (auto simp: proves_def)
  have "stored r (aq_writer s)" if r: "r \<in> set ?pub" for r
  proof -
    obtain b where "b \<in> set bs" "r = bd_reading b" using r in_set_takeD by (fastforce simp: rc)
    thus ?thesis using st live_reading_bound [OF assms(1,4)] by metis
  qed
  hence "in_store wc ?pub s" by (simp add: in_store_def)
  moreover have "list_all2 receipt_reading_matches ?pub selected"
  proof -
    obtain us vs where us: "rc_entries rc = us @ vs" "length us = length selected"
      "list_all2 (\<lambda>admitted entry. receipt_reading_matches (bd_reading entry) admitted) selected us"
      using assms(6) by (auto simp: list_all2_append1)
    thus ?thesis by (auto simp: list_all2_conv_all_nth)
  qed
  hence "from_poll wc rs ?pub" unfolding from_poll_def using assms(2,3) by auto
  ultimately show ?thesis using assms(2) by (simp add: committed_ok_def)
qed

lemma wp_commit_batch:
  assumes "silent g" "bind_names_channel wc" "wc_live wc" "subseq selected rs"
    and Q: "\<And>r g s. silent g \<Longrightarrow> (\<And>c. r = Some c \<Longrightarrow> committed_ok wc rs c s) \<Longrightarrow> Q r g s"
    and E: "\<And>e g s. silent g \<Longrightarrow> E e g s"
  shows "wp (acq_aw wc rs) (commit_batch cfg wc (length selected) (selected @ srdg)) Q E g s"
  unfolding commit_batch_def wp_bind
proof (rule wp_await_receipt [OF assms(1)])
  fix bs r g s
  assume g: "silent g" and bs: "bind_all (wc_bind wc) (selected @ srdg) = Inr bs" and r: "proves bs r s"
  show "wp (acq_aw wc rs) (case r of
      None \<Rightarrow> co_then (co_modify (observe_rejection cfg (length (selected @ srdg)) ''descriptor_commit_refused'')) (Ret None)
    | Some rc \<Rightarrow> co_bind (on_writer (\<lambda>w. (w, entries_from_commit rc w))) (\<lambda>entries.
        if length entries \<noteq> length (selected @ srdg) then co_then (co_modify (observe_ambiguity cfg)) (Raise (Exn ''RuntimeError''))
        else if \<not> list_all2 (\<lambda>admitted entry. receipt_reading_matches (bd_reading entry) admitted) (selected @ srdg) entries
        then co_then (co_modify (observe_ambiguity cfg)) (Raise (Exn ''RuntimeError''))
        else co_then (co_modify (observe_commit cfg rc))
               (Ret (Some (take (length selected) (map bd_reading entries),
                           Some (take (length selected) (map bd_envelope entries)), True))))) Q E g s"
  proof (cases r)
    case (Some rc)
    have ok: "committed_ok wc rs (take (length selected) (map bd_reading (rc_entries rc)),
        Some (take (length selected) (map bd_envelope (rc_entries rc))), True) (observe_commit cfg rc s)"
      if "list_all2 (\<lambda>admitted entry. receipt_reading_matches (bd_reading entry) admitted) (selected @ srdg) (rc_entries rc)"
      by (subst committed_ok_cong [OF observe_db(1)]) (rule receipt_is_ok [OF assms(2-4) bs r [unfolded Some] that])
    show ?thesis using g ok
      by (auto simp: Some co_simps wp_on_writer entries_from_commit_def E intro!: Q)
  qed (use g in \<open>auto simp: co_simps intro!: Q\<close>)
qed (rule E)

lemma wp_write_immediate:
  assumes "silent g"
    and Q: "\<And>b g s. silent g \<Longrightarrow> (b \<Longrightarrow> \<not> wc_live wc \<and> in_store wc batch s) \<Longrightarrow> Q b g s"
    and E: "\<And>e g s. silent g \<Longrightarrow> E e g s"
  shows "wp (acq_aw wc rs) (write_immediate wc batch) Q E g s"
proof (cases "wc_live wc")
  case False
  show ?thesis unfolding write_immediate_def
  proof (simp only: False if_False, rule wp_silent_await [OF assms(1)])
    fix s' a
    assume g: "silent (g @ [(WriteImmediate batch, a)])"
    show "wp (acq_aw wc rs)
        (case a of Threw e \<Rightarrow> Raise e | OwnerCancelled \<Rightarrow> Raise Cancelled
         | Ran refused io \<Rightarrow> if refused then Raise (Exn ''RuntimeError'') else on_writer (write_batch wc io batch)
         | _ \<Rightarrow> Raise (Exn ''TypeError'')) Q E (g @ [(WriteImmediate batch, a)]) s'"
    proof (cases a)
      case (Ran refused io)
      obtain w r where w: "write_batch wc io batch (aq_writer s') = (w, r)" by (cases "write_batch wc io batch (aq_writer s')")
      have "r = Inr True \<Longrightarrow> in_store wc batch (s'\<lparr> aq_writer := w \<rparr>)"
        using write_batch_spec [OF w] by (auto simp: in_store_def False)
      thus ?thesis using g by (auto simp: Ran wp_on_writer w False E intro!: Q split: sum.split)
    qed (use g in \<open>auto simp: E\<close>)
  qed simp
qed (use assms in \<open>simp add: write_immediate_def\<close>)


lemma wp_persist:
  assumes "silent g" "bind_names_channel wc" "subseq selected rs"
    and Q: "\<And>r g s. silent g \<Longrightarrow> (\<And>c. r = Some c \<Longrightarrow> snd (snd c) \<and> committed_ok wc rs c s) \<Longrightarrow> Q r g s"
    and E: "\<And>e g s. silent g \<Longrightarrow> E e g s"
  shows "wp (acq_aw wc rs) (persist cfg wc name selected (selected @ srdg)) Q E g s"
proof -
  let ?check = "\<lambda>r. case r of None \<Rightarrow> Ret None
     | Some (pub, envs, persisted) \<Rightarrow>
         Get (\<lambda>s. if wr_disk_full (aq_writer s) then Ret None else if \<not> persisted then Ret None else Ret (Some (pub, envs, True)))"
  let ?h = "\<lambda>e. if e = Cancelled then Raise e else co_then (co_modify (upd_inst name count_error)) (Ret None)"
  have check: "wp (acq_aw wc rs) (?check r) Q E g s" if "silent g" "\<And>c. r = Some c \<Longrightarrow> committed_ok wc rs c s" for r g s
    using that by (cases r) (auto intro!: Q split: prod.splits)
  have h: "wp (acq_aw wc rs) (?h e) (\<lambda>r. wp (acq_aw wc rs) (?check r) Q E) E g s" if "silent g" for e g s
    using that by (auto simp: co_simps E intro!: Q)
  have "wp (acq_aw wc rs) (if wc_live wc then commit_batch cfg wc (length selected) (selected @ srdg)
        else co_bind (write_immediate wc (selected @ srdg)) (\<lambda>b. Ret (Some (selected, None, b))))
      (\<lambda>r. wp (acq_aw wc rs) (?check r) Q E) (\<lambda>e. wp (acq_aw wc rs) (?h e) (\<lambda>r. wp (acq_aw wc rs) (?check r) Q E) E) g s"
  proof (cases "wc_live wc")
    case True
    show ?thesis unfolding if_P [OF True]
      by (rule wp_commit_batch [OF assms(1,2) True assms(3)]) (erule check, assumption, erule h)
  next
    case False
    have "committed_ok wc rs (selected, None, b) s" if "b \<longrightarrow> in_store wc (selected @ srdg) s" for b s
      using that assms(3) False by (auto simp: committed_ok_def in_store_def from_poll_def)
    note imm = this
    show ?thesis unfolding if_not_P [OF False] wp_bind wp_Ret
    proof (rule wp_write_immediate [OF assms(1)])
      fix b g s
      assume "silent g" "b \<Longrightarrow> \<not> wc_live wc \<and> in_store wc (selected @ srdg) s"
      thus "wp (acq_aw wc rs) (?check (Some (selected, None, b))) Q E g s" by (intro check) (auto intro: imm)
    qed (erule h)
  qed
  thus ?thesis unfolding persist_def by (simp only: wp_bind wp_try)
qed

lemma wp_aw_done:
  "wp aw (aw_done q) Q E g s = aw g s q (\<lambda>g s a. case a of Threw e \<Rightarrow> E e g s | _ \<Rightarrow> Q () g s)"
proof -
  have "(\<lambda>g s a. wp aw (case a of Threw e \<Rightarrow> Raise e | _ \<Rightarrow> Ret ()) Q E g s) = (\<lambda>g s a. case a of Threw e \<Rightarrow> E e g s | _ \<Rightarrow> Q () g s)"
    by (intro ext) (simp split: acq_ans.split)
  thus ?thesis by (simp add: aw_done_def)
qed

lemma wp_publish:
  assumes "silent g" "committed_ok wc rs c s" "fst c \<noteq> [] \<Longrightarrow> snd (snd c)"
  shows "wp (acq_aw wc rs) (publish cfg name rs c) (\<lambda>_ _ _. True) (\<lambda>_ _ _. True) g s"
proof -
  obtain pub envs auth where c: "c = (pub, envs, auth)" by (cases c) auto
  have rest: "wp (acq_aw wc rs) (co_then (co_when (ac_safety_broker cfg) (aw_done (PublishSafety rs)))
       (co_then (co_when (pub \<noteq> [] \<and> auth) (note_recovered cfg name)) (Ret (pub \<noteq> [])))) (\<lambda>_ _ _. True) (\<lambda>_ _ _. True) g s"
    if "\<forall>(p, a) \<in> set g. case p of PublishData pub auth envs \<Rightarrow> was_ok a \<and> in_store wc pub s | _ \<Rightarrow> True" for g s
    using that by (auto simp: co_simps wp_aw_done note_recovered_def first_ok_def split: option.split acq_ans.split intro!: rely_awI)
  have quiet: "\<forall>(p, a) \<in> set g. case p of PublishData pub auth envs \<Rightarrow> was_ok a \<and> in_store wc pub s' | _ \<Rightarrow> True" for s'
    using assms(1) by (fastforce simp: silent_def list_all_iff split: acq_req.split)
  show ?thesis
  proof (cases "pub = []")
    case True
    thus ?thesis unfolding publish_def c using rest [OF quiet] by (simp add: co_simps)
  next
    case False
    hence ok: "first_ok wc rs g s (PublishData pub auth envs)" and p: "in_store wc pub s"
      using assms(2,3) by (auto simp: c committed_ok_def first_ok_def split: option.splits)
    have "wp (acq_aw wc rs) (aw_done (PublishData pub auth envs)) (\<lambda>_. wp (acq_aw wc rs)
        (co_then (co_when (ac_safety_broker cfg) (aw_done (PublishSafety rs)))
           (co_then (co_when (pub \<noteq> [] \<and> auth) (note_recovered cfg name)) (Ret (pub \<noteq> [])))) (\<lambda>_ _ _. True) (\<lambda>_ _ _. True))
        (\<lambda>_ _ _. True) g s"
      unfolding wp_aw_done
    proof (rule rely_awI)
      show "first_ok wc rs g s (PublishData pub auth envs)" by (rule ok)
    next
      fix s' a
      assume "only_adds s s'"
      hence "in_store wc pub s'" by (rule in_store_grows [OF p])
      hence "\<forall>(p, x) \<in> set (g @ [(PublishData pub auth envs, a)]).
          case p of PublishData pub auth envs \<Rightarrow> was_ok x \<and> in_store wc pub s' | _ \<Rightarrow> True" if "was_ok a"
        using quiet [of s'] that by auto
      from rest [OF this] show "case a of Threw e \<Rightarrow> True
          | _ \<Rightarrow> wp (acq_aw wc rs) (co_then (co_when (ac_safety_broker cfg) (aw_done (PublishSafety rs)))
             (co_then (co_when (pub \<noteq> [] \<and> auth) (note_recovered cfg name)) (Ret (pub \<noteq> [])))) (\<lambda>_ _ _. True) (\<lambda>_ _ _. True)
             (g @ [(PublishData pub auth envs, a)]) s'"
        by (cases a) simp_all
    qed
    thus ?thesis unfolding publish_def c using False by (simp add: wp_then wp_when)
  qed
qed


lemma wp_read_srdg:
  assumes "silent g" and Q: "\<And>x g s. silent g \<Longrightarrow> Q x g s" and E: "\<And>e g s. silent g \<Longrightarrow> E e g s"
  shows "wp (acq_aw wc rs) (read_srdg cfg d rs) Q E g s"
proof -
  have "rely_aw only_adds (first_ok wc rs) g s (ReadSrdg (dr_name d)) K"
    if "\<And>g s a. silent g \<Longrightarrow> K g s a" for K :: "(acq_req \<times> acq_ans) list \<Rightarrow> acq \<Rightarrow> acq_ans \<Rightarrow> bool"
    using that assms(1) by (auto simp: rely_aw_def first_ok_def)
  thus ?thesis using assms(1) by (auto simp: read_srdg_def co_simps aw_readings_def Q E split: acq_ans.split)
qed

lemma wp_process_selected:
  assumes "silent g" "bind_names_channel wc" "subseq selected rs" "ac_writer cfg = Some wc"
  shows "wp (acq_aw wc rs) (process_selected cfg d rs selected) (\<lambda>_ _ _. True) (\<lambda>_ _ _. True) g s"
  unfolding process_selected_def wp_bind
proof (rule wp_read_srdg [OF assms(1)])
  fix x :: "raw_reading list \<times> pending option" and g s
  assume g: "silent g"
  obtain srdg p where x: "x = (srdg, p)" by (cases x)
  have pub: "wp (acq_aw wc rs) (case r of None \<Rightarrow> Ret False
      | Some c \<Rightarrow> co_then (co_modify (count_srdg srdg p)) (publish cfg (dr_name d) rs c)) (\<lambda>_ _ _. True) (\<lambda>_ _ _. True) g s"
    if "silent g" "\<And>c. r = Some c \<Longrightarrow> (fst c \<noteq> [] \<longrightarrow> snd (snd c)) \<and> committed_ok wc rs c s" for r g s
  proof (cases r)
    case (Some c)
    have "committed_ok wc rs c (count_srdg srdg p s)"
      using that(2) [OF Some] committed_ok_cong [OF same_db_steps(4)] by blast
    with that wp_publish [OF that(1) this] show ?thesis by (auto simp: Some wp_then wp_modify)
  qed simp
  show "wp (acq_aw wc rs) (case x of (srdg, p) \<Rightarrow>
      co_bind (case ac_writer cfg of
          Some wc \<Rightarrow> if selected @ srdg = [] then Ret (Some (selected, None, False))
                     else persist cfg wc (dr_name d) selected (selected @ srdg)
        | None \<Rightarrow> Ret (Some (selected, None, False))) (\<lambda>r. case r of
        None \<Rightarrow> Ret False
      | Some c \<Rightarrow> co_then (co_modify (count_srdg srdg p)) (publish cfg (dr_name d) rs c)))
     (\<lambda>_ _ _. True) (\<lambda>_ _ _. True) g s"
  proof (cases "selected @ srdg = []")
    case True
    thus ?thesis using pub [OF g, of "Some ([], None, False)"] by (simp add: x assms(4) committed_ok_def co_simps)
  next
    case False
    have "wp (acq_aw wc rs) (persist cfg wc (dr_name d) selected (selected @ srdg))
       (\<lambda>r. wp (acq_aw wc rs) (case r of None \<Rightarrow> Ret False
          | Some c \<Rightarrow> co_then (co_modify (count_srdg srdg p)) (publish cfg (dr_name d) rs c)) (\<lambda>_ _ _. True) (\<lambda>_ _ _. True))
       (\<lambda>_ _ _. True) g s"
      by (rule wp_persist [OF g assms(2,3)]) (rule pub, assumption, blast, simp)
    thus ?thesis using False by (auto simp: x assms(4) wp_bind)
  qed
qed simp

lemma filter_for_archive_sub: "filter_for_archive tc rs t = (t', out) \<Longrightarrow> subseq out rs"
  using filter_loop_sub [of tc rs t] by (auto simp: filter_for_archive_def split: if_splits)

lemma wp_process_readings:
  assumes "bind_names_channel wc" "ac_writer cfg = Some wc"
  shows "wp (acq_aw wc rs) (process_readings cfg d successful rs) (\<lambda>_ _ _. True) (\<lambda>_ _ _. True) [] s"
proof -
  have sel: "wp (acq_aw wc rs) (select_readings cfg rs) Q (\<lambda>_ _ _. True) g s"
    if "\<And>selected s. subseq selected rs \<Longrightarrow> Q selected g s" for Q g s
    by (auto simp: select_readings_def split: option.split prod.split intro!: that intro: filter_for_archive_sub)
  show ?thesis
    unfolding process_readings_def wp.simps
    using assms(2) wp_process_selected [OF _ assms(1) _ assms(2), of "[]"]
    by (auto simp: wp_bind co_simps intro!: sel)
qed


end
