(* ===== verification/AcquireRuns.thy ===== *)
theory AcquireRuns
  imports AcquireProps
begin

text \<open>
  Concrete runs of the acquisition pipeline, the leak of commit settlements, what becomes of a failed poll,
  and the bound on the awaits of a poll.
\<close>

section \<open>A concrete writer\<close>

lemmas acq_run = process_readings_def process_selected_def select_readings_def read_srdg_def persist_def commit_batch_def
  await_receipt_def on_writer_def settlement_wait_def publish_def aw_done_def note_recovered_def

definition plain_bind :: "raw_reading \<Rightarrow> aexn + bound" where
  "plain_bind r = Inr \<lparr> bd_reading = r, bd_channel_id = r_channel r, bd_envelope = r_channel r \<rparr>"

definition plain_writer :: wr_cfg where
  "plain_writer = \<lparr> wc_live = True, wc_bind = plain_bind, wc_hash = None, wc_callback = True \<rparr>"

definition plain_acq :: acq_cfg where
  "plain_acq =
     \<lparr> ac_writer = Some plain_writer, ac_publish_unpersisted = False, ac_throttle = None, ac_calibration = False,
       ac_safety_broker = True, ac_commit_observer = None, ac_rejection_observer = None, ac_ambiguity_observer = False,
       ac_failed_handler = True, ac_recovery_handler = None, ac_connect_begin = True, ac_connect_complete = True,
       ac_uncertain = True, ac_abandon = None, ac_disconnect = True, ac_drain_timeout_s = 5, ac_clock = real \<rparr>"

definition acq_init :: acq where
  "acq_init =
     \<lparr> aq_writer = wr_init, aq_throttle = throttle_init, aq_cal = cal_init, aq_inst = (\<lambda>_. fresh_inst),
       aq_missing_reported = False, aq_running = True, aq_connected = (\<lambda>_. False), aq_tasks = (\<lambda>_. Pending), aq_next_task = 0,
       aq_spawned = [], aq_cancel_requests = [], aq_attempts = (\<lambda>_. fresh_attempt), aq_next_attempt = 0, aq_ticks = 0,
       aq_terminal_bus = [], aq_unsettled_bus = (\<lambda>_. None), aq_shared_tasks = [], aq_log = [] \<rparr>"

definition acq_sample :: "string \<Rightarrow> pyfloat \<Rightarrow> raw_reading" where
  "acq_sample c v =
     \<lparr> r_timestamp = 0, r_instrument_id = ''LS218'', r_channel = c, r_value = v, r_unit = ''K'', r_status = OK,
       r_metadata = [], r_raw = None \<rparr>"

definition no_driver :: poll_device where
  "no_driver =
     \<lparr> dr_name = ''LS218'', dr_has_srdg = False, dr_failure_readings = [], dr_enabled = True, dr_poll_interval_s = 1,
       dr_read_timeout_s = 10, dr_connect_timeout_s = 10, dr_reviewed = False, dr_sealed = False, dr_descriptor = None,
       dr_coordinator = None, dr_participant = False, dr_lifecycle = False, dr_async_read = True, dr_async_recover = True \<rparr>"

definition commits :: "int \<Rightarrow> day_io" where "commits = (\<lambda>_. ([], Commits))"

lemmas plain_unfolds = plain_bind_def plain_writer_def plain_acq_def acq_init_def acq_sample_def no_driver_def
  commits_def wr_init_def

lemmas write_unfolds = begin_committed_def release_committed_def entries_from_commit_def commit_owner_def write_live_batch_def
  issue_committed_batch_def days_of_def day_of_def write_day_batch_def row_refused_def is_sentinel_def SENTINEL_def fl_eq_def
  fl_isfinite_def live_reading_def day_committed_def COMMIT_SETTLEMENT_CAPACITY_def MAX_COMMIT_REVISION_def
  receipt_reading_matches_def same_number_def dict_same_def

lemma good_trace:
  "\<exists>t0 t1 t2. co_trace (process_readings plain_acq no_driver True [acq_sample ''T1'' (Fin 4)]) acq_init
     [(Ran False commits, id), (Replied, id), (Replied, id)]
   = [(CommitWait 0, t0, Some (Ran False commits)),
      (PublishData [acq_sample ''T1'' (Fin 4)] True (Some [''T1'']), t1, Some Replied),
      (PublishSafety [acq_sample ''T1'' (Fin 4)], t2, Some Replied)]"
  by (simp add: acq_run co_unfolds plain_unfolds write_unfolds upd_inst_def count_success_def upd_writer_def consume_def
      observe_commit_def count_srdg_def Let_def cong: lazy_congs)


section \<open>Settlements of failed commits\<close>

lemma refused_run:
  assumes "ac_writer cfg = Some wc" "wc_live wc" "ac_throttle cfg = None" "\<not> ac_calibration cfg"
    and "\<not> wr_disk_full (aq_writer s)" "rs \<noteq> []" "begin_committed wc rs (aq_writer s) = (w, Inl e)" "e \<noteq> Cancelled"
  shows "\<exists>t. co_drive (process_readings cfg d b rs) s as = ([], t, Some (Inr False)) \<and> aq_writer t = w"
  using assms by (cases b) (simp_all add: acq_run co_unfolds upd_inst_def observe_ambiguity_def log_event_def cong: lazy_congs)

lemma failed_run:
  assumes "ac_writer cfg = Some wc" "wc_live wc" "ac_throttle cfg = None" "\<not> ac_calibration cfg"
    and "\<not> wr_disk_full (aq_writer s)" "rs \<noteq> []" "begin_committed wc rs (aq_writer s) = (w, Inr t)"
    and "commit_owner wc False io (snd t) w = (w', Inl (Exn e))"
  shows "\<exists>q u. co_drive (process_readings cfg d b rs) s [(Ran False io, id)] = ([q], u, Some (Inr False))
     \<and> aq_writer u = consume (fst t) w'"
  using assms
  by (cases b) (simp_all add: acq_run co_unfolds upd_inst_def observe_ambiguity_def log_event_def upd_writer_def cong: lazy_congs)

text \<open>What a commit leaves alone, whether it succeeds or raises.\<close>

definition same_ledger :: "wr \<Rightarrow> wr \<Rightarrow> bool" where
  "same_ledger s s' = (wr_retained s' = wr_retained s \<and> wr_stopping s' = wr_stopping s)"

lemma day_loop_ledger:
  "day_loop cfg rows errors end s = (s', r) \<Longrightarrow>
     same_ledger s s' \<and> (r \<noteq> Inr False \<longrightarrow> wr_disk_full s' = wr_disk_full s)"
  by (induction cfg rows errors "end" s rule: day_loop.induct)
    (auto simp: same_ledger_def Let_def note_locked_def day_committed_def signal_persistence_failure_def split: if_splits)

lemma write_day_ledger:
  "write_day_batch cfg io batch s = (s', r) \<Longrightarrow>
     same_ledger s s' \<and> (r \<noteq> Inr False \<longrightarrow> wr_disk_full s' = wr_disk_full s)"
  by (auto simp: write_day_batch_def same_ledger_def dest: day_loop_ledger [unfolded same_ledger_def] split: sum.splits if_splits)

lemma write_live_days_ledger:
  "write_live_days cfg io batch ds s = (s', r) \<Longrightarrow>
     same_ledger s s' \<and> (r \<noteq> Inr False \<longrightarrow> wr_disk_full s' = wr_disk_full s)"
proof (induction ds arbitrary: s)
  case (Cons d ds)
  obtain s1 q where w: "write_day_batch cfg (io d) (filter (\<lambda>r. day_of r = d) batch) s = (s1, q)"
    by (cases "write_day_batch cfg (io d) (filter (\<lambda>r. day_of r = d) batch) s")
  note d = write_day_ledger [OF w]
  consider "q \<noteq> Inr True" "s' = s1" "r = q" | "q = Inr True" "write_live_days cfg io batch ds s1 = (s', r)"
    using Cons.prems w by (auto split: sum.splits bool.splits)
  thus ?case
  proof cases
    case 2
    from Cons.IH [OF 2(2)] show ?thesis using d 2(1) by (auto simp: same_ledger_def)
  qed (use d in simp)
qed (simp add: same_ledger_def)

lemma failed_commit_ledger:
  assumes "commit_owner wc False io bs s = (s', Inl e)"
  shows "same_ledger s s' \<and> wr_disk_full s' = wr_disk_full s"
proof -
  let ?rs = "map live_reading bs"
  obtain s1 q where w: "write_live_days wc io ?rs (days_of ?rs) s = (s1, q)"
    by (cases "write_live_days wc io ?rs (days_of ?rs) s")
  show ?thesis using assms w write_live_days_ledger [OF w]
    by (auto simp: commit_owner_def write_live_batch_def issue_committed_batch_def Let_def same_ledger_def
        split: if_splits sum.splits option.splits bool.splits)
qed

text \<open>A poll that binds and whose commit raises, whatever the writer's state.\<close>

definition failing_poll :: "wr_cfg \<Rightarrow> raw_reading list \<times> (int \<Rightarrow> day_io) \<Rightarrow> bool" where
  "failing_poll wc p =
     (fst p \<noteq> [] \<and> (\<exists>bs. bind_all (wc_bind wc) (fst p) = Inr bs
        \<and> (\<forall>w. \<exists>w' e. commit_owner wc False (snd p) bs w = (w', Inl (Exn e)))))"

text \<open>Polls one after the other, each with its owner task run by the writer's thread.\<close>

fun run_polls :: "acq_cfg \<Rightarrow> poll_device \<Rightarrow> (raw_reading list \<times> (int \<Rightarrow> day_io)) list \<Rightarrow> acq \<Rightarrow> acq" where
  "run_polls cfg d [] s = s"
| "run_polls cfg d ((rs, io) # ps) s =
     run_polls cfg d ps (fst (snd (co_drive (process_readings cfg d True rs) s [(Ran False io, id)])))"

lemma failing_poll_step:
  assumes "ac_writer cfg = Some wc" "wc_live wc" "ac_throttle cfg = None" "\<not> ac_calibration cfg"
    and "failing_poll wc (rs, io)" "\<not> wr_stopping (aq_writer s)" "\<not> wr_disk_full (aq_writer s)"
    and "s' = fst (snd (co_drive (process_readings cfg d True rs) s [(Ran False io, id)]))"
  shows "\<not> wr_stopping (aq_writer s') \<and> \<not> wr_disk_full (aq_writer s')
    \<and> min COMMIT_SETTLEMENT_CAPACITY (length (wr_retained (aq_writer s)) + 1) \<le> length (wr_retained (aq_writer s'))"
proof -
  obtain bs where rs: "rs \<noteq> []" "bind_all (wc_bind wc) rs = Inr bs"
    and fails: "\<And>w. \<exists>w' e. commit_owner wc False io bs w = (w', Inl (Exn e))"
    using assms(5) by (auto simp: failing_poll_def)
  show ?thesis
  proof (cases "COMMIT_SETTLEMENT_CAPACITY \<le> length (wr_retained (aq_writer s))")
    case True
    hence "begin_committed wc rs (aq_writer s) = (aq_writer s, Inl (Exn ''commit settlement capacity exhausted; admission refused''))"
      using assms(2,6) by (simp add: begin_committed_def)
    from refused_run [OF assms(1-4,7) rs(1) this] obtain t
      where "co_drive (process_readings cfg d True rs) s [(Ran False io, id)] = ([], t, Some (Inr False))" "aq_writer t = aq_writer s"
      by blast
    thus ?thesis using assms(6-8) True by simp
  next
    case False
    let ?n = "wr_next (aq_writer s)"
    let ?w = "(aq_writer s)\<lparr> wr_next := ?n + 1, wr_retained := wr_retained (aq_writer s) @ [?n] \<rparr>"
    have b: "begin_committed wc rs (aq_writer s) = (?w, Inr (?n, bs))" using False assms(2,6) rs(2) by (simp add: begin_committed_def)
    obtain w' e where f: "commit_owner wc False io bs ?w = (w', Inl (Exn e))" using fails by blast
    from failed_run [OF assms(1-4,7) rs(1) b, unfolded snd_conv, OF f] obtain q u
      where "co_drive (process_readings cfg d True rs) s [(Ran False io, id)] = ([q], u, Some (Inr False))" "aq_writer u = consume ?n w'"
      unfolding fst_conv by metis
    thus ?thesis using assms(6-8) failed_commit_ledger [OF f] by (simp add: consume_def same_ledger_def)
  qed
qed

lemma failing_polls:
  assumes "ac_writer cfg = Some wc" "wc_live wc" "ac_throttle cfg = None" "\<not> ac_calibration cfg"
    and "list_all (failing_poll wc) polls" "\<not> wr_stopping (aq_writer s)" "\<not> wr_disk_full (aq_writer s)"
  shows "\<not> wr_stopping (aq_writer (run_polls cfg d polls s)) \<and> \<not> wr_disk_full (aq_writer (run_polls cfg d polls s))
    \<and> min COMMIT_SETTLEMENT_CAPACITY (length (wr_retained (aq_writer s)) + length polls)
        \<le> length (wr_retained (aq_writer (run_polls cfg d polls s)))"
  using assms(5-7)
proof (induction polls arbitrary: s)
  case (Cons p polls)
  obtain rs io where p: "p = (rs, io)" by (cases p)
  define s' where "s' = fst (snd (co_drive (process_readings cfg d True rs) s [(Ran False io, id)]))"
  have "failing_poll wc (rs, io)" using Cons.prems(1) by (simp add: p)
  note step = failing_poll_step [OF assms(1-4) this Cons.prems(2,3) s'_def]
  from Cons.IH [of s'] step Cons.prems(1) show ?case by (auto simp: p s'_def [symmetric])
qed auto


text \<open>Not a number under status OK binds, and the writer's thread refuses it.\<close>

definition garbage_poll :: "raw_reading list \<times> (int \<Rightarrow> day_io)" where
  "garbage_poll = ([acq_sample ''T1'' NaN], commits)"


section \<open>Failed polls\<close>

lemma wp_any:
  "(\<And>x g s. Q x g s) \<Longrightarrow> (\<And>e g s. E e g s) \<Longrightarrow> wp (rely_aw R (\<lambda>_ _ _. True)) p Q E g s"
  by (induction p arbitrary: g s) (auto simp: rely_aw_def)

abbreviation any_aw :: "(acq_req \<times> acq_ans) list \<Rightarrow> acq \<Rightarrow> acq_req \<Rightarrow> _ \<Rightarrow> bool" where
  "any_aw \<equiv> rely_aw (\<lambda>_ _. True) (\<lambda>_ _ _. True)"

text \<open>The history tells that the readings of a poll reached both brokers, or that its failure was reported.\<close>

definition reached_brokers :: "acq_cfg \<Rightarrow> raw_reading list \<Rightarrow> (acq_req \<times> acq_ans) list \<Rightarrow> bool" where
  "reached_brokers cfg rs g =
     ((\<exists>pub auth envs a. (PublishData pub auth envs, a) \<in> set g \<and> was_ok a \<and> pub \<noteq> [])
      \<and> (ac_safety_broker cfg \<longrightarrow> (\<exists>a. (PublishSafety rs, a) \<in> set g \<and> was_ok a)))"

definition reported :: "string \<Rightarrow> (acq_req \<times> acq_ans) list \<Rightarrow> bool" where
  "reported name g = (\<exists>reason a. (FailedPoll name reason, a) \<in> set g)"

lemma wp_publish_reaches:
  "wp any_aw (publish cfg name rs c) (\<lambda>b g s. b \<longrightarrow> reached_brokers cfg rs g) (\<lambda>_ _ _. True) g s"
proof -
  obtain pub envs auth where c: "c = (pub, envs, auth)" by (cases c) auto
  let ?rest = "co_then (co_when (ac_safety_broker cfg) (aw_done (PublishSafety rs)))
       (co_then (co_when (pub \<noteq> [] \<and> auth) (note_recovered cfg name)) (Ret (pub \<noteq> [])))"
  have rest: "wp any_aw ?rest (\<lambda>b g s. b \<longrightarrow> reached_brokers cfg rs g) (\<lambda>_ _ _. True) g s"
    if "pub \<noteq> [] \<longrightarrow> (\<exists>pub auth envs a. (PublishData pub auth envs, a) \<in> set g \<and> was_ok a \<and> pub \<noteq> [])" for g s
    using that
    by (auto simp: co_simps wp_aw_done note_recovered_def rely_aw_def reached_brokers_def split: option.split acq_ans.split)
  show ?thesis
  proof (cases "pub = []")
    case False
    have "wp any_aw (aw_done (PublishData pub auth envs))
        (\<lambda>_. wp any_aw ?rest (\<lambda>b g s. b \<longrightarrow> reached_brokers cfg rs g) (\<lambda>_ _ _. True)) (\<lambda>_ _ _. True) g s"
      unfolding wp_aw_done
    proof (rule rely_awI, simp)
      fix s' a
      show "case a of Threw e \<Rightarrow> True
          | _ \<Rightarrow> wp any_aw ?rest (\<lambda>b g s. b \<longrightarrow> reached_brokers cfg rs g) (\<lambda>_ _ _. True) (g @ [(PublishData pub auth envs, a)]) s'"
      proof (cases "was_ok a")
        case True
        hence "\<exists>pub' auth' envs' a'. (PublishData pub' auth' envs', a') \<in> set (g @ [(PublishData pub auth envs, a)]) \<and> was_ok a' \<and> pub' \<noteq> []"
          using False by (intro exI [of _ pub] exI [of _ auth] exI [of _ envs] exI [of _ a]) simp
        from rest [OF impI [OF this], of s'] show ?thesis by (cases a) (simp_all only: acq_ans.case)
      qed (cases a; simp)
    qed
    thus ?thesis using False unfolding publish_def c by (simp add: wp_then wp_when)
  qed (use rest in \<open>simp add: publish_def c co_simps\<close>)
qed

lemma wp_process_reaches:
  "wp any_aw (process_readings cfg d b rs) (\<lambda>r g s. r \<longrightarrow> reached_brokers cfg rs g) (\<lambda>_ _ _. True) g s"
proof -
  have pub: "wp any_aw (case r of None \<Rightarrow> Ret False
      | Some c \<Rightarrow> co_then (co_modify (count_srdg srdg p)) (publish cfg (dr_name d) rs c))
      (\<lambda>r g s. r \<longrightarrow> reached_brokers cfg rs g) (\<lambda>_ _ _. True) g s" for r srdg p g s
    by (cases r) (simp_all add: wp_then wp_modify wp_publish_reaches)
  have sel: "wp any_aw (process_selected cfg d rs selected) (\<lambda>r g s. r \<longrightarrow> reached_brokers cfg rs g) (\<lambda>_ _ _. True) g s"
    for selected g s
    unfolding process_selected_def wp_bind
  proof (rule wp_any)
    fix x :: "raw_reading list \<times> pending option" and g s
    obtain srdg p where x: "x = (srdg, p)" by (cases x)
    show "wp any_aw (case x of (srdg, p) \<Rightarrow>
      co_bind (case ac_writer cfg of
          Some wc \<Rightarrow> if selected @ srdg = [] then Ret (Some (selected, None, False))
                     else persist cfg wc (dr_name d) selected (selected @ srdg)
        | None \<Rightarrow> Ret (Some (selected, None, False))) (\<lambda>r. case r of
        None \<Rightarrow> Ret False
      | Some c \<Rightarrow> co_then (co_modify (count_srdg srdg p)) (publish cfg (dr_name d) rs c)))
     (\<lambda>r g s. r \<longrightarrow> reached_brokers cfg rs g) (\<lambda>_ _ _. True) g s"
      unfolding x prod.case wp_bind by (rule wp_any [OF pub]) simp
  qed simp
  show ?thesis
    by (auto simp: process_readings_def wp_bind wp_then wp_when wp_modify sel intro!: wp_any)
qed

text \<open>
  C23: A failed poll is never silent. When publishing the failed-poll readings of a driver ends, then their
  publication reached the data broker and the safety broker (if there is one), or the failed-poll safety
  handler was called for that instrument, or the task was cancelled. Any exception is one of the last two.
\<close>

theorem failed_poll_never_silent:
  assumes "ac_failed_handler cfg" "dr_failure_readings d \<noteq> []"
    and "co_drive (publish_failed_poll cfg d) s as = (qs, t, Some r)"
  shows "case r of
      Inr x \<Rightarrow> reached_brokers cfg (dr_failure_readings d) (answered (co_trace (publish_failed_poll cfg d) s as))
               \<or> reported (dr_name d) (answered (co_trace (publish_failed_poll cfg d) s as))
    | Inl e \<Rightarrow> e = Cancelled \<or> reported (dr_name d) (answered (co_trace (publish_failed_poll cfg d) s as))"
proof -
  let ?Q = "\<lambda>_ g s. reached_brokers cfg (dr_failure_readings d) g \<or> reported (dr_name d) g"
  let ?E = "\<lambda>e g s. e = Cancelled \<or> reported (dr_name d) g"
  have rep: "wp any_aw (report_failed_poll cfg (dr_name d) reason) (\<lambda>_ g s. reported (dr_name d) g) (\<lambda>_ g s. reported (dr_name d) g) g s"
    for reason g s
    using assms(1) by (auto simp: report_failed_poll_def wp_aw_done rely_aw_def reported_def split: acq_ans.split)
  have "wp any_aw (publish_failed_poll cfg d) ?Q ?E [] s"
    unfolding publish_failed_poll_def using assms(2)
    by (auto simp: wp_bind wp_attempt wp_then wp_when intro!: rely.wp_weaken [OF wp_process_reaches] rely.wp_weaken [OF rep])
  from rely_end [OF this assms(3)] show ?thesis by (auto simp: interference_in_def split: sum.split)
qed


definition full_acq :: acq where
  "full_acq = acq_init\<lparr> aq_writer := wr_init\<lparr> wr_disk_full := True \<rparr> \<rparr>"

definition silent_driver :: poll_device where
  "silent_driver = no_driver\<lparr> dr_failure_readings := [(acq_sample ''T1'' NaN)\<lparr> r_status := SENSOR_ERROR \<rparr>] \<rparr>"

theorem failed_poll_never_silent_witness:
  "\<exists>qs t. co_drive (publish_failed_poll plain_acq silent_driver) full_acq [(Replied, id)] = (qs, t, Some (Inr ()))
    \<and> reported ''LS218'' (answered (co_trace (publish_failed_poll plain_acq silent_driver) full_acq [(Replied, id)]))"
proof -
  have run: "\<exists>qs t. co_drive (publish_failed_poll plain_acq silent_driver) full_acq [(Replied, id)] = (qs, t, Some (Inr ()))"
    and tr: "\<exists>u. co_trace (publish_failed_poll plain_acq silent_driver) full_acq [(Replied, id)]
      = [(FailedPoll ''LS218'' ''failed-poll samples could not obtain persistence-backed publication authority'', u, Some Replied)]"
    by (simp_all add: publish_failed_poll_def report_failed_poll_def aw_done_def full_acq_def silent_driver_def process_readings_def
        plain_unfolds co_unfolds cong: lazy_congs)
  have cfg: "ac_failed_handler plain_acq" "dr_failure_readings silent_driver \<noteq> []" by (simp_all add: plain_acq_def silent_driver_def)
  have name: "dr_name silent_driver = ''LS218''" by (simp add: silent_driver_def no_driver_def)
  have none: "\<not> reached_brokers plain_acq rs (answered (co_trace (publish_failed_poll plain_acq silent_driver) full_acq [(Replied, id)]))" for rs
    using tr by (auto simp: reached_brokers_def)
  from run obtain qs t where r: "co_drive (publish_failed_poll plain_acq silent_driver) full_acq [(Replied, id)] = (qs, t, Some (Inr ()))"
    by blast
  from failed_poll_never_silent [OF cfg r] none show ?thesis unfolding name using r by auto
qed

section \<open>A poll ends\<close>

abbreviation any_acq :: "acq_req \<Rightarrow> bool" where "any_acq \<equiv> (\<lambda>_. True)"

lemma within_acq_ans [within_intros]:
  "(\<And>e. co_within R (f e) m) \<Longrightarrow> co_within R p1 m \<Longrightarrow> (\<And>rs. co_within R (h rs) m) \<Longrightarrow> co_within R p2 m
   \<Longrightarrow> (\<And>b io. co_within R (k b io) m) \<Longrightarrow> (\<And>b. co_within R (u b) m) \<Longrightarrow> (\<And>n. co_within R (v n) m) \<Longrightarrow> (\<And>x. co_within R (w x) m) \<Longrightarrow>
   co_within R (case a of Threw e \<Rightarrow> f e | Replied \<Rightarrow> p1 | Readings rs \<Rightarrow> h rs | OwnerCancelled \<Rightarrow> p2 | Ran b io \<Rightarrow> k b io
      | Flag b \<Rightarrow> u b | Generation n \<Rightarrow> v n | Evidence x \<Rightarrow> w x) m"
  by (cases a) auto

lemma within_on_writer [within_intros]: "co_within R (on_writer f) 0"
  by (auto simp: on_writer_def co_result_def split: prod.split sum.split)

lemma within_aw_done [within_intros]: "co_within any_acq (aw_done q) 1"
  by (simp add: aw_done_def split: acq_ans.split)

lemma within_settlement_wait [within_intros]: "co_within any_acq (settlement_wait wc t) 1"
proof -
  have "co_within any_acq (co_finally (on_writer f) (co_modify h)) 0" for f :: "wr \<Rightarrow> wr \<times> (aexn + receipt option)" and h :: "acq \<Rightarrow> acq"
    by (rule within_mono, (rule within_intros | simp)+)
  thus ?thesis by (auto simp: settlement_wait_def co_unfolds split: acq_ans.split)
qed

lemma within_await_receipt [within_intros]: "co_within any_acq (await_receipt cfg wc rs) 2"
proof -
  have cancel: "co_within any_acq (settle_after_cancel cfg wc t) 1" for t
    unfolding settle_after_cancel_def settle_committed_def by (rule within_mono, (rule within_intros | simp)+)
  show ?thesis
    unfolding await_receipt_def by (rule within_mono, (rule within_intros cancel | simp)+)
qed

lemma within_persist [within_intros]: "co_within any_acq (persist cfg wc name selected combined) 2"
proof -
  have c: "co_within any_acq (commit_batch cfg wc n combined) 2" for n
    unfolding commit_batch_def by (rule within_mono, (rule within_intros | simp)+)
  have i: "co_within any_acq (write_immediate wc combined) 1"
  proof -
    have "co_within any_acq (if b then Raise (Exn ''RuntimeError'') else on_writer f) 0" for b and f :: "wr \<Rightarrow> wr \<times> (aexn + bool)"
      by (simp add: within_on_writer)
    thus ?thesis by (auto simp: write_immediate_def split: acq_ans.split)
  qed
  show ?thesis unfolding persist_def by (rule within_mono, (rule within_intros c i | simp)+)
qed

lemma within_process [within_intros]: "co_within any_acq (process_readings cfg d b rs) 5"
proof -
  have srdg: "co_within any_acq (read_srdg cfg d rs) 1" for rs
  proof -
    have "co_within any_acq (aw_readings q) 1" for q by (simp add: aw_readings_def split: acq_ans.split)
    note a = this
    show ?thesis unfolding read_srdg_def by (rule within_mono, (rule within_intros a | simp)+)
  qed
  have sel: "co_within any_acq (select_readings cfg rs) 0"
    by (auto simp: select_readings_def split: option.split prod.split)
  have pub: "co_within any_acq (publish cfg (dr_name d) rs c) 2" for c rs
  proof -
    have "co_within any_acq (note_recovered cfg (dr_name d)) 0"
      by (auto simp: note_recovered_def co_unfolds split: option.split)
    note n = this
    show ?thesis unfolding publish_def by (rule within_mono, (rule within_intros n | simp)+)
  qed
  have proc: "co_within any_acq (process_selected cfg d rs selected) 5" for rs selected
    unfolding process_selected_def by (rule within_mono, (rule within_intros srdg pub | simp)+)
  show ?thesis unfolding process_readings_def by (rule within_mono, (rule within_intros sel proc | simp)+)
qed

lemma within_failed: "co_within any_acq (publish_failed_poll cfg d) 6"
  unfolding publish_failed_poll_def report_failed_poll_def by (rule within_mono, (rule within_intros | simp)+)

text \<open>
  A poll ends. Sending a poll, or the failed-poll readings of a driver, through the pipeline makes at most
  six requests, and it has ended once that many were answered, however they were answered and whatever
  other tasks did meanwhile.
\<close>

theorem pipeline_ends:
  assumes "6 \<le> length as"
  shows "snd (snd (co_drive (process_readings cfg d b rs) s as)) \<noteq> None
    \<and> snd (snd (co_drive (publish_failed_poll cfg d) s as)) \<noteq> None
    \<and> length (fst (co_drive (process_readings cfg d b rs) s as)) \<le> 6
    \<and> length (fst (co_drive (publish_failed_poll cfg d) s as)) \<le> 6"
proof -
  have p: "co_within any_acq (process_readings cfg d b rs) 6" by (rule within_mono [OF within_process]) simp
  show ?thesis
    using within_drive_ends [OF p assms] within_drive_ends [OF within_failed assms]
      within_drive_bounded [OF p] within_drive_bounded [OF within_failed] by blast
qed

theorem pipeline_ends_witness:
  "snd (snd (co_drive (publish_failed_poll plain_acq silent_driver) full_acq (replicate 6 (Replied, id)))) \<noteq> None"
  using pipeline_ends [of "replicate 6 (Replied, id)"] by simp

end
