(* ===== verification/SchedRuns.thy ===== *)
theory SchedRuns
  imports SchedStopProps SchedOwner SchedStart AcquireRuns
begin

text \<open>
  Concrete runs of the scheduler, on which its theorems are applied: a reviewed source that connects and is
  read, is disconnected by a stop, a terminal bus, a start with a shared bus, a failed poll whose publication
  raises.
\<close>

section \<open>A reviewed source\<close>

definition source_cfg :: acq_cfg where
  "source_cfg = plain_acq\<lparr> ac_abandon := Some (\<lambda>_ _. ReturnsNone), ac_recovery_handler := Some (\<lambda>_. True) \<rparr>"

definition source_dev :: poll_device where
  "source_dev = no_driver\<lparr> dr_name := ''K'', dr_reviewed := True, dr_sealed := True \<rparr>"

definition source_evidence :: off_evidence where
  "source_evidence = from_global_result VERIFIED_OFF DEVICE_REPORTED_OFF"

lemma source_evidence_ok: "satisfies_tier source_evidence"
  by (simp add: source_evidence_def satisfies_tier_def from_global_result_def off_result_satisfies_tier_def)

lemma typed_init: "sched_typed acq_init"
  by (simp add: sched_typed_def acq_init_def spawned_once_def inst_typed_def attempt_typed_def fresh_inst_def fresh_attempt_def)

lemmas source_unfolds = source_cfg_def source_dev_def plain_acq_def no_driver_def acq_init_def me_def upd_def upd_inst_def
  upd_attempt_def connected_def reviewed_binding_def

section \<open>The exact disconnection\<close>

lemma disconnect_run:
  "\<exists>t. co_drive (co_bind (disconnect_reviewed_exact source_cfg source_dev (Some 0)) (\<lambda>_. Ret ())) acq_init [(Flag True, id)]
     = ([ReviewedDisconnect ''K'' None], t, Some (Inr ()))"
  by (simp add: disconnect_reviewed_exact_def aw_flag_def co_unfolds source_unfolds fresh_inst_def set_required_def set_generation_def Let_def
      cong: lazy_congs)


section \<open>The owner of a connect\<close>

definition child_ends :: "nat \<Rightarrow> acq \<Rightarrow> acq" where
  "child_ends n s = s\<lparr> aq_tasks := (aq_tasks s)(n := Finished (Inr ResNone)) \<rparr>"

definition owner_answers :: "(acq_ans \<times> (acq \<Rightarrow> acq)) list" where
  "owner_answers = [(Generation 7, id), (Replied, child_ends 0), (Replied, id), (Evidence source_evidence, id)]"

lemma owner_run:
  "\<exists>t. co_drive (own_reviewed_connect source_cfg source_dev 0) acq_init owner_answers
     = ([ConnectBegin ''K'', WaitFirst 0 1, WaitTask 1 None, ConnectComplete ''K'' 7], t, Some (Inr ()))
   \<and> ra_connected_committed (aq_attempts t 0)"
  by (simp add: own_reviewed_connect_def owner_connect_def owner_io_def owner_complete_def aw_generation_def aw_evidence_def aw_done_def
      create_task_def task_result_def task_done_def require_not_abandoned_def request_cancel_def owner_answers_def child_ends_def
      source_evidence_ok co_unfolds source_unfolds fresh_attempt_def fresh_inst_def set_required_def set_generation_def Let_def cong: lazy_congs)

theorem connect_owner_decides_witness:
  "\<exists>t. co_drive (own_reviewed_connect source_cfg source_dev 0) acq_init owner_answers
     = ([ConnectBegin ''K'', WaitFirst 0 1, WaitTask 1 None, ConnectComplete ''K'' 7], t, Some (Inr ()))
   \<and> committed_with source_dev (answered (co_trace (own_reviewed_connect source_cfg source_dev 0) acq_init owner_answers)) (aq_attempts t 0)"
proof -
  obtain t where t: "co_drive (own_reviewed_connect source_cfg source_dev 0) acq_init owner_answers
     = ([ConnectBegin ''K'', WaitFirst 0 1, WaitTask 1 None, ConnectComplete ''K'' 7], t, Some (Inr ()))"
    and c: "ra_connected_committed (aq_attempts t 0)" using owner_run by blast
  have i: "interference_in (owner_kept 0) owner_answers"
    by (simp add: owner_answers_def owner_kept_def child_ends_def Let_def)
  have f: "\<not> ra_connected_committed (aq_attempts acq_init 0)" "\<not> ra_settled_safe (aq_attempts acq_init 0)"
    by (simp_all add: acq_init_def fresh_attempt_def)
  from connect_owner_decides [OF f i t] c t show ?thesis by (auto simp: failed_safely_def)
qed

section \<open>A read\<close>

text \<open>The owner of the first connect returns with a committed attempt.\<close>

definition owner_returns :: "acq \<Rightarrow> acq" where
  "owner_returns s =
     (if aq_spawned s = [(0, OwnConnect ''K'' 0)]
      then upd_attempt 0 (\<lambda>x. x\<lparr> ra_connected_committed := True, ra_off_evidence := Some source_evidence \<rparr>) (child_ends 0 s)
      else s)"

lemma owner_returns_kept: "connects_kept source_dev s (owner_returns s)"
proof -
  have "sched_typed (owner_returns s)" if "sched_typed s"
  proof (cases "aq_spawned s = [(0, OwnConnect ''K'' 0)]")
    case True
    have "attempt_typed (owner_returns s) a (aq_attempts (owner_returns s) a)" for a
    proof -
      have "attempt_typed s a (aq_attempts s a)" using that by (simp add: sched_typed_def)
      thus ?thesis using True
        by (auto simp: owner_returns_def attempt_typed_def spawned_def child_ends_def upd_attempt_def source_evidence_ok)
    qed
    moreover have "inst_typed (owner_returns s) n (aq_inst (owner_returns s) n)" for n
      using that True by (auto simp: sched_typed_def inst_typed_def owner_returns_def spawned_def child_ends_def upd_attempt_def)
    moreover have "spawned_once (owner_returns s)"
      using that True by (simp add: sched_typed_def spawned_once_def owner_returns_def child_ends_def upd_attempt_def)
    ultimately show ?thesis by (simp add: sched_typed_def)
  qed (simp add: owner_returns_def that)
  thus ?thesis
    by (auto simp: connects_kept_def typing_kept_def owner_returns_def child_ends_def upd_attempt_def me_def last_owner_def)
qed

lemma read_run:
  "\<exists>u t. co_trace (poll_loop source_cfg source_dev 1) acq_init [(Replied, owner_returns)]
     = [(WaitTask 0 (Some 10), u, Some Replied), (DriverRead ''K'' 10, t, None)]"
  by (simp add: poll_loop_def poll_iteration_def poll_body_def poll_guarded_def poll_connect_def connect_driver_def connect_reviewed_def
      adjudicate_attempt_def new_attempt_def create_task_def await_owner_def aw_done_def aw_readings_def task_result_def task_done_def
      poll_read_def read_clock_def connect_authority_complete_def owner_returns_def child_ends_def source_evidence_ok co_unfolds source_unfolds
      fresh_attempt_def fresh_inst_def Let_def cong: lazy_congs)

theorem reviewed_read_authorised_witness:
  "\<exists>u t. co_trace (poll_loop source_cfg source_dev 1) acq_init [(Replied, owner_returns)]
     = [(WaitTask 0 (Some 10), u, Some Replied), (DriverRead ''K'' 10, t, None)]
   \<and> (barriers_passed source_dev t \<or> connect_settled source_dev t)"
proof -
  obtain u t where r: "co_trace (poll_loop source_cfg source_dev 1) acq_init [(Replied, owner_returns)]
     = [(WaitTask 0 (Some 10), u, Some Replied), (DriverRead ''K'' 10, t, None)]" using read_run by blast
  have b: "reviewed_binding source_dev" by (simp add: source_unfolds)
  have i: "interference_in (connects_kept source_dev) [(Replied, owner_returns)]" by (simp add: owner_returns_kept)
  have q: "(DriverRead ''K'' 10, t, None) \<in> set (co_trace (poll_loop source_cfg source_dev 1) acq_init [(Replied, owner_returns)])"
    unfolding r by simp
  from reviewed_read_authorised [OF b typed_init i q] r show ?thesis by blast
qed

section \<open>A stop\<close>

definition source_on :: acq where
  "source_on = acq_init\<lparr> aq_connected := (\<lambda>n. n = ''K''), aq_inst := (\<lambda>_. fresh_inst\<lparr> is_generation := Some 7 \<rparr>) \<rparr>"

text \<open>The disconnect task ends: the source is off.\<close>

definition disconnect_ends :: "acq \<Rightarrow> acq" where
  "disconnect_ends s =
     set_required False source_dev (set_generation None source_dev
       (s\<lparr> aq_connected := (aq_connected s)(''K'' := False), aq_tasks := (aq_tasks s)(0 := Finished (Inr (ResBool True))) \<rparr>))"

lemma stop_run:
  "\<exists>t. co_drive (sched_stop source_cfg [source_dev]) source_on [(Replied, disconnect_ends)] = ([WaitTask 0 (Some 4)], t, Some (Inr ()))"
  by (simp add: sched_stop_def stop_drain_def poll_tasks_def live_def stop_revoke_def stop_settle_def abandon_attempt_def reviewed_tasks_def
      stop_all_def stop_one_def set_task_def stop_attempt_def bus_operation_live_def stop_disconnect_def needs_disconnect_def remaining_def
      disconnect_driver_def disconnect_reviewed_def start_disconnect_task_def await_disconnect_task_def create_task_def task_result_def
      task_done_def aw_done_def read_clock_def disconnect_ends_def disconnect_receipt_holds_def set_required_def set_generation_def
      set_disconnect_task_def set_running_def source_on_def co_unfolds source_unfolds fresh_inst_def Let_def cong: lazy_congs)


section \<open>A shared bus\<close>

definition gpib :: bus_descriptor where
  "gpib = \<lparr> bu_bus_id = ''gpib0'', bu_levels = {DEVICE_CLEAR}, bu_recovery_timeout_s = 5 \<rparr>"

definition gpib_dev :: "string \<Rightarrow> poll_device" where
  "gpib_dev n = no_driver\<lparr> dr_name := n, dr_descriptor := Some gpib, dr_participant := True \<rparr>"

definition gpib_group :: bus_group where
  "gpib_group =
     \<lparr> bg_id = ''gpib0'', bg_devices = [gpib_dev ''A''], bg_descriptor = Some gpib, bg_coordinator = False, bg_async_clear = True,
       bg_async_reopen = True \<rparr>"

definition bus_down :: acq where
  "bus_down = acq_init\<lparr> aq_connected := (\<lambda>_. True), aq_terminal_bus := [''gpib0''] \<rparr>"

lemma terminal_run:
  "\<exists>t. co_drive (co_bind (bus_loop plain_acq gpib_group 1) (\<lambda>_. Ret ())) bus_down [] = ([], t, Some (Inr ()))"
  by (simp add: bus_loop_def bus_coordinators_def List.map_filter_def bus_pass_def bus_is_due_def bus_device_def bus_disconnect_barrier_def
      bus_guarded_def bus_device_io_def bus_try_device_def bus_read_device_def bounded_bus_read_def bus_refuses_def make_terminal_def
      bus_read_terminal_def publish_all_failed_def publish_failed_poll_def read_clock_def set_due_def bus_deadline_def
      bus_down_def gpib_group_def gpib_dev_def co_unfolds source_unfolds fresh_inst_def Let_def cong: lazy_congs)


section \<open>A start\<close>

definition three_devices :: "poll_device list" where
  "three_devices = [gpib_dev ''A'', source_dev, gpib_dev ''B'']"

lemma three_started_run: "\<exists>t. co_drive (sched_start source_cfg three_devices) acq_init [] = ([], t, Some (Inr ()))"
proof -
  have "\<not> handlers_missing source_cfg" by (simp add: handlers_missing_def source_cfg_def plain_acq_def)
  moreover have "\<not> list_ex contradictory (shared_groups three_devices [])"
    by (simp add: three_devices_def gpib_dev_def source_unfolds add_to_group_def contradictory_def)
  ultimately show ?thesis using drive_start by blast
qed

theorem start_serializes_buses_witness:
  "\<exists>t m. co_drive (sched_start source_cfg three_devices) acq_init [] = ([], t, Some (Inr ()))
   \<and> polled_by m (gpib_dev ''A'') t \<and> is_task (me (gpib_dev ''B'') t) = Some m \<and> is_task (me source_dev t) \<noteq> Some m"
proof -
  obtain t where t: "co_drive (sched_start source_cfg three_devices) acq_init [] = ([], t, Some (Inr ()))" using three_started_run by blast
  have d: "distinct (map dr_name three_devices)" by (simp add: three_devices_def gpib_dev_def source_unfolds)
  have m: "gpib_dev ''A'' \<in> set three_devices" "gpib_dev ''B'' \<in> set three_devices" "source_dev \<in> set three_devices"
    by (simp_all add: three_devices_def)
  have e: "dr_enabled (gpib_dev n)" "dr_enabled source_dev" for n by (simp_all add: gpib_dev_def source_unfolds)
  have b: "bus_of (gpib_dev n) = Some ''gpib0''" "bus_of source_dev = None" for n
    by (simp_all add: bus_of_def gpib_dev_def gpib_def source_unfolds)
  have ne: "gpib_dev ''A'' \<noteq> source_dev" using b by (metis option.distinct(1))
  note ab = start_serializes_buses [OF d typed_init t m(1,2) e(1) e(1)]
    and as = start_serializes_buses [OF d typed_init t m(1,3) e(1) e(2)]
  obtain k where k: "polled_by k (gpib_dev ''A'') t" using ab by auto
  have "is_task (me (gpib_dev ''A'') t) = is_task (me (gpib_dev ''B'') t)" using ab b by simp
  moreover have "is_task (me (gpib_dev ''A'') t) \<noteq> is_task (me source_dev t)" using as b ne by simp
  ultimately show ?thesis using k t by (auto simp: polled_by_def)
qed

section \<open>A failed poll\<close>

definition failing_dev :: poll_device where
  "failing_dev = no_driver\<lparr> dr_failure_readings := [acq_sample ''T1'' (Fin 4)] \<rparr>"

definition ls_on :: acq where
  "ls_on = acq_init\<lparr> aq_connected := (\<lambda>_. True) \<rparr>"

definition refused_publication :: "(acq_ans \<times> (acq \<Rightarrow> acq)) list" where
  "refused_publication = [(Ran False commits, id), (Threw (Exn ''RuntimeError''), id), (Replied, id)]"

lemma publication_raises:
  "\<exists>qs t. co_drive (publish_failed_poll plain_acq failing_dev) (upd failing_dev count_error ls_on) refused_publication
     = (qs, t, Some (Inl (Exn ''RuntimeError'')))"
  by (simp add: publish_failed_poll_def report_failed_poll_def refused_publication_def failing_dev_def ls_on_def acq_run co_unfolds
      plain_unfolds write_unfolds upd_def upd_inst_def count_error_def upd_writer_def consume_def observe_commit_def count_srdg_def Let_def
      cong: lazy_congs)

theorem failed_poll_error_ends_polling_witness:
  "\<exists>qs t. co_drive (poll_loop_n plain_acq failing_dev (Suc 1000) 1) ls_on ((Threw TimedOut, id) # refused_publication)
     = (DriverRead ''LS218'' 10 # qs, t, Some (Inl (Exn ''RuntimeError'')))"
proof -
  obtain qs t where p: "co_drive (publish_failed_poll plain_acq failing_dev) (upd failing_dev count_error (id ls_on)) refused_publication
     = (qs, t, Some (Inl (Exn ''RuntimeError'')))" using publication_raises by auto
  have f: "aq_running ls_on" "connected failing_dev ls_on" "is_attempt (me failing_dev ls_on) = None" "\<not> reviewed_binding failing_dev"
    "TimedOut \<noteq> Cancelled" "dr_name failing_dev = ''LS218''" "dr_read_timeout_s failing_dev = 10"
    by (simp_all add: ls_on_def failing_dev_def acq_init_def no_driver_def connected_def me_def fresh_inst_def reviewed_binding_def)
  from failed_poll_error_ends_polling [where f = id and n = 1000 and deadline = 1, OF f(1-5) p]
  show ?thesis unfolding f(6,7) by blast
qed

end
