(* ===== verification/Supervision.thy ===== *)
theory Supervision
  imports SafetyChildren
begin

text \<open>
  The supervisor of the long-lived tasks of the engine (\<^verbatim>\<open>src/cryodaq/engine_wiring/supervision.py\<close>):
  the decision taken when a supervised task ends, the registry \<open>TaskSupervisor\<close>, and the owner of the
  shutdown of the safety manager. What the handler does is a list of \<open>sup_effect\<close>s, in order. A task is
  a number; \<open>factory\<close> and \<open>hook\<close> are what the task factory and the \<open>on_spawn\<close> callback raise, if they
  do. The steps of the event loop that concern the supervisor (a task ends, a done-callback runs, a timer
  fires, the engine registers, spawns or stops) are the relation \<open>sup_step\<close>.
\<close>

section \<open>The decision\<close>

definition SUPERVISE_BACKOFF_BASE_S :: real where "SUPERVISE_BACKOFF_BASE_S = 1"
definition SUPERVISE_BACKOFF_MAX_S :: real where "SUPERVISE_BACKOFF_MAX_S = 60"
definition SAFETY_TASK_MAX_RESTARTS :: nat where "SAFETY_TASK_MAX_RESTARTS = 2"
definition SUPERVISE_RESET_WINDOW_S :: real where "SUPERVISE_RESET_WINDOW_S = 300"

datatype sup_effect =
    RaiseAlarm string string
  | ScheduleRestart real
  | LatchFault string string

datatype exit_verdict = ExitIgnored | ExitRestart | ExitFaultLatch

text \<open>Python multiplies a float with an integer by converting the integer, which overflows from the
  midpoint above the largest double on.\<close>

definition float_of_int :: "nat \<Rightarrow> real result" where
  "float_of_int n =
     (if n < 2 ^ 1024 - 2 ^ 970 then Inr (of_nat n)
      else Inl (OverflowError ''int too large to convert to float''))"

definition restart_delay :: "nat \<Rightarrow> real result" where
  "restart_delay count =
     res_bind (float_of_int (2 ^ (count - 1)))
       (\<lambda>f. Inr (min (SUPERVISE_BACKOFF_BASE_S * f) SUPERVISE_BACKOFF_MAX_S))"

fun exit_cause :: "string \<Rightarrow> child_outcome \<Rightarrow> string" where
  "exit_cause name (ChCancelled n) = ''supervised task '' @ name @ '' was cancelled unexpectedly''"
| "exit_cause name ChCompleted = ''supervised task '' @ name @ '' returned unexpectedly''"
| "exit_cause name ChFailed = ''exception of '' @ name"

definition count_exit :: "string \<Rightarrow> real \<Rightarrow> (string \<Rightarrow> nat option) \<Rightarrow> nat" where
  "count_exit name running counts =
     (if SUPERVISE_RESET_WINDOW_S \<le> running then 0
      else case counts name of None \<Rightarrow> 0 | Some n \<Rightarrow> n) + 1"

definition handle_supervised_task_exit ::
  "string \<Rightarrow> child_outcome \<Rightarrow> bool \<Rightarrow> (string \<Rightarrow> nat option) \<Rightarrow> bool \<Rightarrow> real \<Rightarrow> bool
     \<Rightarrow> sup_effect list \<times> (string \<Rightarrow> nat option) \<times> exit_verdict result" where
  "handle_supervised_task_exit name out stopping counts critical running fault_immediately =
     (if stopping then ([], counts, Inr ExitIgnored)
      else
        (let exc = exit_cause name out; alarm = RaiseAlarm name exc
         in if critical \<and> fault_immediately
            then ([alarm, LatchFault name exc], counts, Inr ExitFaultLatch)
            else
              (let count = count_exit name running counts; counts1 = counts(name \<mapsto> count)
               in if critical \<and> SAFETY_TASK_MAX_RESTARTS < count
                  then ([alarm, LatchFault name exc], counts1, Inr ExitFaultLatch)
                  else (case restart_delay count of
                          Inl e \<Rightarrow> ([alarm], counts1, Inl e)
                        | Inr delay \<Rightarrow> ([alarm, ScheduleRestart delay], counts1, Inr ExitRestart)))))"

section \<open>The registry\<close>

text \<open>What the closures of one registration capture: the name and whether the task is safety critical.\<close>

type_synonym registration = "string \<times> bool"

text \<open>
  \<open>sv_callbacks\<close> are the done-callbacks attached and not yet run, \<open>sv_timers\<close> the pending \<open>call_later\<close>
  handles with their due times, \<open>sv_dispatched\<close> the alarm and latch tasks created, \<open>sv_backstop\<close> the
  exceptions of callbacks and timers, which the loop hands to its exception handler.
\<close>

record supervisor =
  sv_stopping :: bool
  sv_tasks :: "string \<Rightarrow> nat option"
  sv_restarts :: "string \<Rightarrow> nat option"
  sv_spawn_times :: "string \<Rightarrow> real option"
  sv_dispatched :: "sup_effect list"
  sv_outcomes :: "nat \<Rightarrow> child_outcome option"
  sv_callbacks :: "(nat \<times> registration) list"
  sv_timers :: "(real \<times> registration) list"
  sv_backstop :: "(string \<times> py_exn) list"

definition supervisor_init :: supervisor where
  "supervisor_init =
     \<lparr> sv_stopping = False, sv_tasks = (\<lambda>_. None), sv_restarts = (\<lambda>_. None), sv_spawn_times = (\<lambda>_. None),
       sv_dispatched = [], sv_outcomes = (\<lambda>_. None), sv_callbacks = [], sv_timers = [], sv_backstop = [] \<rparr>"

definition register :: "registration \<Rightarrow> nat \<Rightarrow> py_exn option \<Rightarrow> real \<Rightarrow> supervisor \<Rightarrow> nat result \<times> supervisor" where
  "register reg task hook now s =
     (let s1 = s\<lparr> sv_tasks := (sv_tasks s)(fst reg \<mapsto> task),
                  sv_spawn_times := (sv_spawn_times s)(fst reg \<mapsto> now) \<rparr>
      in case hook of
           Some e \<Rightarrow> (Inl e, s1)
         | None \<Rightarrow> (Inr task, s1\<lparr> sv_callbacks := sv_callbacks s1 @ [(task, reg)] \<rparr>))"

definition supervisor_spawn :: "registration \<Rightarrow> nat \<Rightarrow> py_exn option \<Rightarrow> py_exn option \<Rightarrow> real \<Rightarrow> supervisor
    \<Rightarrow> nat result \<times> supervisor" where
  "supervisor_spawn reg task factory hook now s =
     (if sv_stopping s
      then (case sv_tasks s (fst reg) of Some t \<Rightarrow> (Inr t, s) | None \<Rightarrow> (Inl (KeyError (fst reg)), s))
      else case factory of
             Some e \<Rightarrow> (Inl e, s)
           | None \<Rightarrow> register reg task hook now s)"

definition supervisor_stop :: "supervisor \<Rightarrow> supervisor" where
  "supervisor_stop s = s\<lparr> sv_stopping := True \<rparr>"

definition perform :: "registration \<Rightarrow> real \<Rightarrow> sup_effect \<Rightarrow> supervisor \<Rightarrow> supervisor" where
  "perform reg now ef s =
     (case ef of
        ScheduleRestart delay \<Rightarrow> s\<lparr> sv_timers := sv_timers s @ [(now + delay, reg)] \<rparr>
      | _ \<Rightarrow> s\<lparr> sv_dispatched := sv_dispatched s @ [ef] \<rparr>)"

text \<open>The done-callback. \<open>m\<close> is the safety manager, which knows the cancellations its own stop issued.\<close>

definition expected_stop_cancellation :: "sm \<Rightarrow> registration \<Rightarrow> nat \<Rightarrow> child_outcome \<Rightarrow> supervisor \<Rightarrow> bool" where
  "expected_stop_cancellation m reg task out s =
     (sv_stopping s \<and> snd reg \<and> is_stop_cancelled_child \<lparr> ch_id = task, ch_outcome = Some out \<rparr> m)"

definition supervised_done :: "sm \<Rightarrow> registration \<Rightarrow> nat \<Rightarrow> child_outcome \<Rightarrow> real \<Rightarrow> supervisor
    \<Rightarrow> exit_verdict result \<times> supervisor" where
  "supervised_done m reg task out now s =
     (let spawned_at = (case sv_spawn_times s (fst reg) of Some t \<Rightarrow> t | None \<Rightarrow> now);
          expected = expected_stop_cancellation m reg task out s;
          (effects, counts, verdict) =
             handle_supervised_task_exit (fst reg) out (sv_stopping s \<and> (\<not> snd reg \<or> expected)) (sv_restarts s)
               (snd reg) (now - spawned_at) (sv_stopping s \<and> snd reg \<and> \<not> expected)
      in (verdict, fold (perform reg now) effects (s\<lparr> sv_restarts := counts \<rparr>)))"

text \<open>An exception of a callback or timer goes to the exception handler of the loop, which only logs it.\<close>

definition backstop :: "string \<Rightarrow> 'a result \<times> supervisor \<Rightarrow> supervisor" where
  "backstop name rs =
     (case fst rs of
        Inl e \<Rightarrow> (snd rs)\<lparr> sv_backstop := sv_backstop (snd rs) @ [(name, e)] \<rparr>
      | Inr _ \<Rightarrow> snd rs)"

section \<open>The steps of the event loop\<close>

text \<open>A registration or spawn of the engine itself that raises ends its startup and has no step here.\<close>

definition drop_nth :: "nat \<Rightarrow> 'a list \<Rightarrow> 'a list" where
  "drop_nth i xs = take i xs @ drop (Suc i) xs"

datatype sup_label =
    TaskEnds nat child_outcome
  | CallbackRuns sm nat real
  | TimerFires nat nat "py_exn option" "py_exn option" real
  | EngineRegisters registration nat real
  | EngineSpawns registration nat real
  | EngineStops

inductive sup_step :: "supervisor \<Rightarrow> sup_label \<Rightarrow> supervisor \<Rightarrow> bool" where
  ends: "sv_outcomes s t = None \<Longrightarrow>
     sup_step s (TaskEnds t out) (s\<lparr> sv_outcomes := (sv_outcomes s)(t \<mapsto> out) \<rparr>)"
| callback: "i < length (sv_callbacks s) \<Longrightarrow> sv_callbacks s ! i = (t, reg) \<Longrightarrow> sv_outcomes s t = Some out \<Longrightarrow>
     sup_step s (CallbackRuns m i now)
       (backstop (fst reg) (supervised_done m reg t out now (s\<lparr> sv_callbacks := drop_nth i (sv_callbacks s) \<rparr>)))"
| timer: "i < length (sv_timers s) \<Longrightarrow> sv_timers s ! i = (due, reg) \<Longrightarrow> due \<le> now \<Longrightarrow> sv_outcomes s t = None \<Longrightarrow>
     sup_step s (TimerFires i t factory hook now)
       (backstop (fst reg) (supervisor_spawn reg t factory hook now (s\<lparr> sv_timers := drop_nth i (sv_timers s) \<rparr>)))"
| registers: "sup_step s (EngineRegisters reg t now) (snd (register reg t None now s))"
| spawns: "sv_outcomes s t = None \<Longrightarrow>
     sup_step s (EngineSpawns reg t now) (snd (supervisor_spawn reg t None None now s))"
| stops: "sup_step s EngineStops (supervisor_stop s)"

inductive sup_run :: "supervisor \<Rightarrow> sup_label list \<Rightarrow> supervisor \<Rightarrow> bool" where
  run_nil: "sup_run s [] s"
| run_step: "sup_run s ls t \<Longrightarrow> sup_step t l u \<Longrightarrow> sup_run s (ls @ [l]) u"

inductive_cases sup_stepE: "sup_step s l t"

section \<open>Backoff\<close>

lemma delay_le: "count \<le> 1024 \<Longrightarrow> restart_delay count = Inr (min (2 ^ (count - 1)) 60)"
proof -
  assume "count \<le> 1024"
  hence "(2::nat) ^ (count - 1) \<le> 2 ^ 1023" by (intro power_increasing) auto
  also have "\<dots> < 2 ^ 1024 - 2 ^ 970" by simp
  finally show ?thesis
    by (simp add: restart_delay_def float_of_int_def SUPERVISE_BACKOFF_BASE_S_def SUPERVISE_BACKOFF_MAX_S_def)
qed

lemma delay_gt:
  "1024 < count \<Longrightarrow> restart_delay count = Inl (OverflowError ''int too large to convert to float'')"
proof -
  assume "1024 < count"
  hence "(2::nat) ^ 1024 \<le> 2 ^ (count - 1)" by (intro power_increasing) auto
  moreover have "(2::nat) ^ 1024 - 2 ^ 970 \<le> 2 ^ 1024" by simp
  ultimately have "\<not> (2::nat) ^ (count - 1) < 2 ^ 1024 - 2 ^ 970" by (metis le_trans not_le)
  thus ?thesis by (simp add: restart_delay_def float_of_int_def)
qed

lemma delay_cases:
  obtains (delay) d where "restart_delay count = Inr d" "count \<le> 1024"
  | (overflow) e where "restart_delay count = Inl e" "1024 < count"
  using delay_le [of count] delay_gt [of count] by (meson not_le)

section \<open>Successive deaths of one task\<close>

fun exits :: "string \<Rightarrow> bool \<Rightarrow> (string \<Rightarrow> nat option) \<Rightarrow> (child_outcome \<times> real) list
    \<Rightarrow> (sup_effect list \<times> exit_verdict result) list" where
  "exits name critical counts [] = []"
| "exits name critical counts ((out, running) # rs) =
     (let (effects, counts1, verdict) = handle_supervised_task_exit name out False counts critical running False
      in (effects, verdict) # exits name critical counts1 rs)"

text \<open>The count after the deaths \<open>rs\<close>: the deaths since the last incarnation that ran for the window.\<close>

definition streak :: "real list \<Rightarrow> nat \<Rightarrow> nat" where
  "streak rs c = foldl (\<lambda>c r. (if SUPERVISE_RESET_WINDOW_S \<le> r then 0 else c) + 1) c rs"

lemma count_exit_streak:
  "count_exit name running counts = streak [running] (case counts name of None \<Rightarrow> 0 | Some n \<Rightarrow> n)"
  by (simp add: count_exit_def streak_def)

lemma handle_counts:
  "fst (snd (handle_supervised_task_exit name out False counts critical running False)) =
     counts(name \<mapsto> count_exit name running counts)"
  by (simp add: handle_supervised_task_exit_def Let_def split: sum.split)

definition exit_of :: "string \<Rightarrow> bool \<Rightarrow> child_outcome \<Rightarrow> nat \<Rightarrow> sup_effect list \<times> exit_verdict result" where
  "exit_of name critical out count =
     (let exc = exit_cause name out
      in if critical \<and> 2 < count then ([RaiseAlarm name exc, LatchFault name exc], Inr ExitFaultLatch)
         else case restart_delay count of
                Inl e \<Rightarrow> ([RaiseAlarm name exc], Inl e)
              | Inr d \<Rightarrow> ([RaiseAlarm name exc, ScheduleRestart d], Inr ExitRestart))"

lemma handle_exit_of:
  "handle_supervised_task_exit name out False counts critical running False =
     (let c = count_exit name running counts; (effects, verdict) = exit_of name critical out c
      in (effects, counts(name \<mapsto> c), verdict))"
  by (simp add: handle_supervised_task_exit_def exit_of_def Let_def SAFETY_TASK_MAX_RESTARTS_def split: sum.split)

lemma length_exits [simp]: "length (exits name critical counts rs) = length rs"
  by (induction rs arbitrary: counts) (auto simp: Let_def split: prod.split)

lemma exits_nth:
  "i < length rs \<Longrightarrow>
     exits name critical counts rs ! i =
       exit_of name critical (fst (rs ! i))
         (streak (map snd (take (Suc i) rs)) (case counts name of None \<Rightarrow> 0 | Some n \<Rightarrow> n))"
proof (induction rs arbitrary: counts i)
  case (Cons r rs)
  obtain out running where r: "r = (out, running)" by (cases r)
  let ?c = "count_exit name running counts"
  show ?case
  proof (cases i)
    case 0
    thus ?thesis by (simp add: r handle_exit_of Let_def count_exit_streak split: prod.split)
  next
    case (Suc j)
    have "exits name critical counts (r # rs) ! i = exits name critical (counts(name \<mapsto> ?c)) rs ! j"
      by (simp add: r Suc handle_exit_of Let_def split: prod.split)
    also have "\<dots> = exit_of name critical (fst (rs ! j)) (streak (map snd (take (Suc j) rs)) ?c)"
      using Cons.IH [of j "counts(name \<mapsto> ?c)"] Cons.prems Suc by (simp add: fun_upd_def)
    finally show ?thesis by (simp add: Suc r count_exit_streak streak_def)
  qed
qed simp

lemma streak_snoc: "streak (rs @ [r]) c = (if SUPERVISE_RESET_WINDOW_S \<le> r then 1 else Suc (streak rs c))"
  by (simp add: streak_def)

lemma streak_Nil [simp]: "streak [] c = c"
  by (simp add: streak_def)

lemma streak_rapid: "(\<And>r. r \<in> set rs \<Longrightarrow> r < 300) \<Longrightarrow> streak rs c = c + length rs"
proof (induction rs rule: rev_induct)
  case (snoc r rs)
  have "r < 300" using snoc.prems by simp
  moreover have "streak rs c = c + length rs" using snoc by simp
  ultimately show ?case by (simp add: streak_snoc SUPERVISE_RESET_WINDOW_S_def)
qed simp

lemma streak_gt_two:
  assumes "n < length rs"
  shows "2 < streak (take (Suc n) rs) 0 \<longleftrightarrow> 2 \<le> n \<and> rs ! n < 300 \<and> rs ! (n - 1) < 300"
proof -
  have pos: "0 < streak (take (Suc k) rs) 0" if "k < length rs" for k
    using that by (simp add: take_Suc_conv_app_nth streak_snoc)
  have step: "streak (take (Suc k) rs) 0 = (if 300 \<le> rs ! k then 1 else Suc (streak (take k rs) 0))" if "k < length rs" for k
    using that by (simp add: take_Suc_conv_app_nth streak_snoc SUPERVISE_RESET_WINDOW_S_def)
  consider "n = 0" | "n = 1" | k where "n = Suc (Suc k)" by (metis One_nat_def not0_implies_Suc)
  thus ?thesis
  proof cases
    case 1
    thus ?thesis using step [of 0] assms by simp
  next
    case 2
    moreover have "rs \<noteq> []" using assms by auto
    ultimately show ?thesis using step [of 0] step [of 1] assms by simp
  next
    case (3 k)
    thus ?thesis using step [of n] step [of "Suc k"] pos [of k] assms by auto
  qed
qed



text \<open>C38: a task that is not safety critical and dies each time within 300 s of its start is restarted with
  a doubling delay of at most 60 s up to its 1024th death. At the next one the computation of the delay
  overflows: the alarm is raised, but nothing restarts the task.\<close>

theorem crash_loop_ends:
  assumes "\<And>r. r \<in> set rs \<Longrightarrow> snd r < 300" "i < length rs"
  shows "exits name False (\<lambda>_. None) rs ! i =
           (if i < 1024
            then ([RaiseAlarm name (exit_cause name (fst (rs ! i))), ScheduleRestart (min (2 ^ i) 60)], Inr ExitRestart)
            else ([RaiseAlarm name (exit_cause name (fst (rs ! i)))],
                  Inl (OverflowError ''int too large to convert to float'')))"
proof -
  have "r < 300" if "r \<in> set (map snd (take (Suc i) rs))" for r
    using that assms(1) by (fastforce dest: in_set_takeD)
  hence "streak (map snd (take (Suc i) rs)) 0 = Suc i"
    using streak_rapid [of "map snd (take (Suc i) rs)" 0] assms(2) by simp
  thus ?thesis
    using delay_le [of "Suc i"] delay_gt [of "Suc i"] by (simp add: exits_nth [OF assms(2)] exit_of_def Let_def)
qed

theorem crash_loop_ends_witness:
  "exits ''alarm_v2_tick'' False (\<lambda>_. None) (replicate 1025 (ChFailed, 1)) ! 1024 =
     ([RaiseAlarm ''alarm_v2_tick'' ''exception of alarm_v2_tick''],
      Inl (OverflowError ''int too large to convert to float''))"
  using crash_loop_ends [of "replicate 1025 (ChFailed, 1)" 1024 "''alarm_v2_tick''"] by simp


section \<open>No task is lost\<close>

lemma mem_drop_nth: "x \<in> set xs \<Longrightarrow> i < length xs \<Longrightarrow> x = xs ! i \<or> x \<in> set (drop_nth i xs)"
  by (metis Un_iff drop_nth_def id_take_nth_drop insert_iff list.simps(15) set_append)

fun is_alarm :: "sup_effect \<Rightarrow> bool" where
  "is_alarm (RaiseAlarm n x) = True"
| "is_alarm _ = False"

fun label_raises :: "sup_label \<Rightarrow> bool" where
  "label_raises (TimerFires i t factory hook now) = (factory \<noteq> None \<or> hook \<noteq> None)"
| "label_raises _ = False"

fun is_death :: "sup_label \<Rightarrow> bool" where
  "is_death (CallbackRuns m i now) = True"
| "is_death _ = False"

definition deaths :: "sup_label list \<Rightarrow> nat" where
  "deaths ls = length (filter is_death ls)"

lemma deaths_snoc [simp]: "deaths (ls @ [l]) = deaths ls + (if is_death l then 1 else 0)"
  by (simp add: deaths_def)

lemma exit_of_cases:
  obtains (latch) exc where "exit_of name critical out count = ([RaiseAlarm name exc, LatchFault name exc], Inr ExitFaultLatch)"
  | (restart) exc d where "exit_of name critical out count = ([RaiseAlarm name exc, ScheduleRestart d], Inr ExitRestart)"
  | (overflow) exc e where "exit_of name critical out count = ([RaiseAlarm name exc], Inl e)" "1024 < count"
  by (cases rule: delay_cases [of count]; cases "critical \<and> 2 < count") (auto simp: exit_of_def Let_def)

lemma task_done_live:
  assumes "\<not> sv_stopping s" "exit_of (fst reg) (snd reg) out count = (effects, verdict)"
    and "count = count_exit (fst reg) (now - (case sv_spawn_times s (fst reg) of Some t \<Rightarrow> t | None \<Rightarrow> now)) (sv_restarts s)"
  shows "supervised_done m reg t out now s =
           (verdict, fold (perform reg now) effects (s\<lparr> sv_restarts := (sv_restarts s)(fst reg \<mapsto> count) \<rparr>))"
  using assms(1,2) by (simp add: supervised_done_def Let_def handle_exit_of assms(3))

definition held :: "supervisor \<Rightarrow> string \<Rightarrow> nat \<Rightarrow> bool" where
  "held s n t =
     ((\<exists>c. (t, n, c) \<in> set (sv_callbacks s)) \<or> (\<exists>d c. (d, n, c) \<in> set (sv_timers s))
      \<or> (\<exists>x. LatchFault n x \<in> set (sv_dispatched s)))"

definition sup_inv :: "supervisor \<Rightarrow> nat \<Rightarrow> bool" where
  "sup_inv s k =
     (sv_stopping s \<or>
      (\<forall>n t. sv_tasks s n = Some t \<longrightarrow> held s n t \<or> 1025 \<le> k)
      \<and> (\<forall>n c. sv_restarts s n = Some c \<longrightarrow> c \<le> k)
      \<and> length (filter is_alarm (sv_dispatched s)) = k)"

lemma inv_register:
  assumes "sup_inv s k" shows "sup_inv (snd (register reg t None now s)) k"
  using assms by (cases reg) (auto simp: sup_inv_def register_def Let_def held_def)

lemma count_exit_le: "(\<And>c. counts name = Some c \<Longrightarrow> c \<le> k) \<Longrightarrow> count_exit name running counts \<le> Suc k"
  by (auto simp: count_exit_def split: option.split)

lemma inv_task_done:
  assumes inv: "sup_inv s k" and i: "i < length (sv_callbacks s)" "sv_callbacks s ! i = (t, reg)"
    and live: "\<not> sv_stopping s"
  shows "sup_inv (backstop (fst reg) (supervised_done m reg t out now (s\<lparr> sv_callbacks := drop_nth i (sv_callbacks s) \<rparr>))) (Suc k)"
proof -
  let ?s = "s\<lparr> sv_callbacks := drop_nth i (sv_callbacks s) \<rparr>"
  define count where "count = count_exit (fst reg)
      (now - (case sv_spawn_times ?s (fst reg) of Some t \<Rightarrow> t | None \<Rightarrow> now)) (sv_restarts ?s)"
  note live_step = task_done_live [of ?s reg out count, OF _ _ count_def]
  have tasks: "\<And>n t. sv_tasks s n = Some t \<Longrightarrow> held s n t \<or> 1025 \<le> k"
    and restarts: "\<And>n c. sv_restarts s n = Some c \<Longrightarrow> c \<le> k"
    and alarms: "length (filter is_alarm (sv_dispatched s)) = k" using inv live by (auto simp: sup_inv_def)
  have le: "count \<le> Suc k" unfolding count_def by (rule count_exit_le) (simp add: restarts)
  have rest: "\<And>n c. ((sv_restarts s)(fst reg \<mapsto> count)) n = Some c \<Longrightarrow> c \<le> Suc k"
    using restarts le by (auto simp: le_SucI split: if_splits)
  define r where "r = backstop (fst reg) (supervised_done m reg t out now ?s)"
  note r_step = r_def backstop_def perform_def
  have kept: "held r n t'" if "held s n t'"
    and "set (drop_nth i (sv_callbacks s)) \<subseteq> set (sv_callbacks r)" "set (sv_timers s) \<subseteq> set (sv_timers r)"
      "set (sv_dispatched s) \<subseteq> set (sv_dispatched r)" "held r (fst reg) t'" for n t'
    using that mem_drop_nth [OF _ i(1)] i(2) by (cases "n = fst reg") (fastforce simp: held_def)+
  have "sup_inv r (Suc k)"
  proof (cases rule: exit_of_cases [of "fst reg" "snd reg" out count])
    case (latch exc)
    have sel: "sv_tasks r = sv_tasks s" "sv_restarts r = (sv_restarts s)(fst reg \<mapsto> count)"
      "sv_callbacks r = drop_nth i (sv_callbacks s)" "sv_timers r = sv_timers s"
      "sv_dispatched r = sv_dispatched s @ [RaiseAlarm (fst reg) exc, LatchFault (fst reg) exc]"
      using live by (simp_all add: r_step live_step [OF _ latch])
    have "held r (fst reg) t'" for t' by (auto simp: held_def sel)
    hence "held s n t' \<Longrightarrow> held r n t'" for n t' using kept [of n t'] by (auto simp: sel)
    thus ?thesis using tasks rest alarms by (auto simp: sup_inv_def sel)
  next
    case (restart exc d)
    have sel: "sv_tasks r = sv_tasks s" "sv_restarts r = (sv_restarts s)(fst reg \<mapsto> count)"
      "sv_callbacks r = drop_nth i (sv_callbacks s)" "sv_timers r = sv_timers s @ [(now + d, reg)]"
      "sv_dispatched r = sv_dispatched s @ [RaiseAlarm (fst reg) exc]"
      using live by (simp_all add: r_step live_step [OF _ restart])
    have "held r (fst reg) t'" for t' by (cases reg) (auto simp: held_def sel)
    hence "held s n t' \<Longrightarrow> held r n t'" for n t' using kept [of n t'] by (auto simp: sel)
    thus ?thesis using tasks rest alarms by (auto simp: sup_inv_def sel)
  next
    case (overflow exc e)
    have sel: "sv_restarts r = (sv_restarts s)(fst reg \<mapsto> count)"
      "sv_dispatched r = sv_dispatched s @ [RaiseAlarm (fst reg) exc]"
      using live by (simp_all add: r_step live_step [OF _ overflow(1)])
    show ?thesis using overflow(2) le rest alarms by (auto simp: sup_inv_def sel)
  qed
  thus ?thesis by (simp add: r_def)
qed

lemma perform_stopping [simp]: "sv_stopping (perform reg now ef s) = sv_stopping s"
  by (simp add: perform_def split: sup_effect.split)

lemma fold_perform_stopping [simp]: "sv_stopping (fold (perform reg now) efs s) = sv_stopping s"
  by (induction efs arbitrary: s) auto

lemma task_done_stopping [simp]: "sv_stopping (snd (supervised_done m reg t out now s)) = sv_stopping s"
  by (simp add: supervised_done_def Let_def split: prod.split)

lemma register_stopping [simp]: "sv_stopping (snd (register reg t hook now s)) = sv_stopping s"
  by (simp add: register_def Let_def split: option.split)

lemma spawn_stopping [simp]: "sv_stopping (snd (supervisor_spawn reg t factory hook now s)) = sv_stopping s"
  by (simp add: supervisor_spawn_def split: option.split)

lemma backstop_stopping [simp]: "sv_stopping (backstop name rs) = sv_stopping (snd rs)"
  by (simp add: backstop_def split: sum.split)

lemma stopping_step: "sup_step s l t \<Longrightarrow> sv_stopping s \<Longrightarrow> sv_stopping t"
  by (erule sup_stepE) (auto simp: supervisor_stop_def)

lemma inv_timer:
  assumes inv: "sup_inv s k" and i: "i < length (sv_timers s)" "sv_timers s ! i = (due, reg)"
    and live: "\<not> sv_stopping s"
  shows "sup_inv (backstop (fst reg) (supervisor_spawn reg t None None now (s\<lparr> sv_timers := drop_nth i (sv_timers s) \<rparr>))) k"
proof -
  let ?s = "s\<lparr> sv_timers := drop_nth i (sv_timers s) \<rparr>"
  define r where "r = backstop (fst reg) (supervisor_spawn reg t None None now ?s)"
  have sel: "sv_tasks r = (sv_tasks s)(fst reg \<mapsto> t)" "sv_restarts r = sv_restarts s"
    "sv_callbacks r = sv_callbacks s @ [(t, reg)]" "sv_timers r = drop_nth i (sv_timers s)"
    "sv_dispatched r = sv_dispatched s"
    using live by (simp_all add: r_def supervisor_spawn_def register_def Let_def backstop_def)
  have "held r (fst reg) t" by (cases reg) (auto simp: held_def sel)
  moreover have "held r n t'" if "held s n t'" "n \<noteq> fst reg" for n t'
    using that mem_drop_nth [OF _ i(1)] i(2) by (fastforce simp: held_def sel)
  ultimately have "sup_inv r k" using inv live by (auto simp: sup_inv_def sel)
  thus ?thesis by (simp add: r_def)
qed

lemma inv_step:
  assumes step: "sup_step s l t" and inv: "sup_inv s k" and quiet: "\<not> label_raises l"
  shows "sup_inv t (k + (if is_death l then 1 else 0))"
proof (cases "sv_stopping s")
  case True
  thus ?thesis using stopping_step [OF step] by (simp add: sup_inv_def)
next
  case live: False
  from step show ?thesis
  proof cases
    case ends
    thus ?thesis using inv by (simp add: sup_inv_def held_def)
  next
    case (callback i t reg out m now)
    thus ?thesis using inv_task_done [OF inv callback(3,4) live] by simp
  next
    case (timer i due reg now t factory hook)
    thus ?thesis using inv_timer [OF inv timer(3,4) live] quiet by simp
  next
    case (registers reg t now)
    thus ?thesis using inv_register [OF inv] by simp
  next
    case (spawns t reg now)
    thus ?thesis using inv_register [OF inv] live by (simp add: supervisor_spawn_def)
  next
    case stops
    thus ?thesis by (simp add: supervisor_stop_def sup_inv_def)
  qed
qed

lemma inv_run: "sup_run s ls t \<Longrightarrow> sup_inv s 0 \<Longrightarrow> \<forall>l\<in>set ls. \<not> label_raises l \<Longrightarrow> sup_inv t (deaths ls)"
proof (induction rule: sup_run.induct)
  case (run_step s ls t l u)
  thus ?case using inv_step [of t l u "deaths ls"] by simp
qed (simp add: deaths_def)


text \<open>A run: a task is registered, fails, and waits for its restart.\<close>

definition tick_reg :: registration where
  "tick_reg = (''alarm_v2_tick'', False)"

definition failing_run :: "sup_label list" where
  "failing_run =
     [EngineRegisters tick_reg 7 1, TaskEnds 7 ChFailed, CallbackRuns (sm_init True None None None 0) 0 5]"

lemma failing_run_runs:
  "\<exists>s. sup_run supervisor_init failing_run s \<and> \<not> sv_stopping s \<and> sv_tasks s ''alarm_v2_tick'' = Some 7
     \<and> sv_callbacks s = [] \<and> sv_timers s = [(6, tick_reg)] \<and> length (sv_dispatched s) = 1"
proof -
  let ?m = "sm_init True None None None 0"
  define s1 where "s1 = snd (register tick_reg 7 None 1 supervisor_init)"
  define s2 where "s2 = s1\<lparr> sv_outcomes := (sv_outcomes s1)(7 \<mapsto> ChFailed) \<rparr>"
  define s3 where "s3 = backstop (fst tick_reg)
      (supervised_done ?m tick_reg 7 ChFailed 5 (s2\<lparr> sv_callbacks := drop_nth 0 (sv_callbacks s2) \<rparr>))"
  have r1: "sup_run supervisor_init [EngineRegisters tick_reg 7 1] s1"
    using run_step [OF run_nil registers] by (simp add: s1_def)
  have s1: "sv_outcomes s1 7 = None" "sv_callbacks s1 = [(7, tick_reg)]"
    by (simp_all add: s1_def register_def supervisor_init_def Let_def)
  have r2: "sup_run supervisor_init [EngineRegisters tick_reg 7 1, TaskEnds 7 ChFailed] s2"
    using run_step [OF r1 ends [OF s1(1), of ChFailed]] by (simp add: s2_def)
  have "sup_step s2 (CallbackRuns ?m 0 5) s3"
    unfolding s3_def by (rule callback) (simp_all add: s2_def s1)
  hence "sup_run supervisor_init failing_run s3" using run_step [OF r2] by (simp add: failing_run_def)
  moreover have "s3 = snd (supervised_done ?m tick_reg 7 ChFailed 5 (s2\<lparr> sv_callbacks := [] \<rparr>))
      \<and> sv_timers s3 = [(6, tick_reg)] \<and> sv_callbacks s3 = [] \<and> length (sv_dispatched s3) = 1"
    using delay_le [of 1]
    by (simp add: s3_def s2_def s1_def register_def supervisor_init_def tick_reg_def drop_nth_def supervised_done_def
        handle_supervised_task_exit_def expected_stop_cancellation_def count_exit_def SUPERVISE_RESET_WINDOW_S_def
        perform_def backstop_def)
  moreover have "\<not> sv_stopping s3" "sv_tasks s3 ''alarm_v2_tick'' = Some 7"
    using delay_le [of 1]
    by (simp_all add: s3_def s2_def s1_def register_def supervisor_init_def tick_reg_def drop_nth_def supervised_done_def
        handle_supervised_task_exit_def expected_stop_cancellation_def count_exit_def SUPERVISE_RESET_WINDOW_S_def
        perform_def backstop_def)
  ultimately show ?thesis by blast
qed


section \<open>The owner of the shutdown\<close>

text \<open>
  \<open>stop_safety_manager_with_hold\<close>: what reaches the owner while it awaits the shielded stop task or the
  shielded retry delay. \<open>StopRaised\<close> is an unverified shutdown, a cancellation of the stop task itself or any
  other exception; the delay ends, or its task is cancelled or raises.
\<close>

datatype hold_event = CallerCancelled | StopReturned | StopRaised py_exn | DelayEnded | DelayRaised py_exn

datatype hold_outcome = HoldPending | HoldReturned bool | HoldRaised py_exn

datatype hold_phase = AwaitStop | AwaitDelay

fun stop_with_hold :: "hold_phase \<Rightarrow> bool \<Rightarrow> hold_event list \<Rightarrow> hold_outcome" where
  "stop_with_hold ph caller_cancelled [] = HoldPending"
| "stop_with_hold ph caller_cancelled (CallerCancelled # es) = stop_with_hold ph True es"
| "stop_with_hold AwaitStop caller_cancelled (StopReturned # es) = HoldReturned caller_cancelled"
| "stop_with_hold AwaitStop caller_cancelled (StopRaised e # es) = stop_with_hold AwaitDelay caller_cancelled es"
| "stop_with_hold AwaitDelay caller_cancelled (DelayEnded # es) = stop_with_hold AwaitStop caller_cancelled es"
| "stop_with_hold AwaitDelay caller_cancelled (DelayRaised e # es) = HoldRaised e"
| "stop_with_hold ph caller_cancelled (_ # es) = HoldPending"

text \<open>Only a stop that returned releases the owner, however often the caller is cancelled and the stop fails.\<close>

lemma hold_returns_settled:
  "stop_with_hold ph c es = HoldReturned c' \<Longrightarrow> StopReturned \<in> set es"
  by (induction ph c es rule: stop_with_hold.induct) auto

text \<open>Nothing but a failure of the retry delay itself ends the hold otherwise.\<close>

lemma hold_raises_delay:
  "stop_with_hold ph c es = HoldRaised e \<Longrightarrow> DelayRaised e \<in> set es"
  by (induction ph c es rule: stop_with_hold.induct) auto

text \<open>Failed attempts and cancellations keep the owner; the next stop that returns settles it.\<close>

lemma hold_persists:
  "stop_with_hold AwaitStop c (concat (map (\<lambda>(n, e, m). replicate n CallerCancelled @ [StopRaised e]
       @ replicate m CallerCancelled @ [DelayEnded]) rounds) @ [StopReturned])
   = HoldReturned (c \<or> (\<exists>(n, e, m)\<in>set rounds. 0 < n + m))"
proof -
  have skip: "stop_with_hold ph c (replicate n CallerCancelled @ es) = stop_with_hold ph (c \<or> 0 < n) es" for ph c n es
    by (induction n arbitrary: c) auto
  show ?thesis by (induction rounds arbitrary: c) (auto simp: skip)
qed

end
