(* ===== verification/Annunciation.thy ===== *)
theory Annunciation
  imports AlarmState "HOL-Library.Product_Lexorder"
begin

text \<open>
  The registry of audible activations (\<^verbatim>\<open>src/cryodaq/core/annunciation.py\<close>): the projection of the active
  alarms and of a latched safety fault onto activations with exact identities, and the acknowledgement of
  sound. \<open>sync\<close> reads attributes of foreign objects and checks their types, so its input says of each
  attribute whether it has the type the code asks for.
\<close>

section \<open>Input\<close>

datatype num_attr = NumInt int | NumFloat pyfloat | NumOther

record raw_event =
  rv_triggered_at :: num_attr
  rv_activation_id :: "int option"
  rv_level :: "string option"
  rv_acknowledged :: "bool option"

record raw_status =
  rs_state :: "string option"
  rs_fault_revision :: "int option"
  rs_fault_activated_at :: num_attr

text \<open>\<open>type(x) in (int, float)\<close>, and \<open>float(x)\<close>, which overflows on a large integer.\<close>

definition is_num :: "num_attr \<Rightarrow> bool" where
  "is_num x = (x \<noteq> NumOther)"

definition to_float :: "num_attr \<Rightarrow> pyfloat result" where
  "to_float x =
     (case x of
        NumInt i \<Rightarrow> if \<bar>i\<bar> < 2 ^ 1024 - 2 ^ 970 then Inr (Fin (of_int i))
                    else Inl (OverflowError ''int too large to convert to float'')
      | NumFloat f \<Rightarrow> Inr f
      | NumOther \<Rightarrow> Inl (TypeError ''float''))"

text \<open>\<open>str.upper\<close>, as far as it can yield one of the three ASCII words: besides the ASCII letters the dotless i.\<close>

fun py_upper :: "string \<Rightarrow> string" where
  "py_upper (c # d # cs) =
     (if c = CHR 0xC4 \<and> d = CHR 0xB1 then CHR ''I'' # py_upper cs else py_upper_char c # py_upper (d # cs))"
| "py_upper cs = map py_upper_char cs"

section \<open>State\<close>

record ann_record =
  an_activation_id :: string
  an_source :: string
  an_source_key :: string
  an_discriminator :: int
  an_severity :: string
  an_activated_at :: pyfloat
  an_acknowledged :: bool

type_synonym ann_key = "string \<times> string"

record annunciation =
  an_engine_instance_id :: string
  an_sequence :: nat
  an_snapshot_revision :: nat
  an_initialized :: bool
  an_active :: "(ann_key \<times> ann_record) list"

definition annunciation_init :: "string \<Rightarrow> annunciation result" where
  "annunciation_init engine_instance_id =
     (if \<not> valid_request_id engine_instance_id
      then Inl (ValueError ''engine_instance_id must be exactly 32 lowercase hexadecimal characters'')
      else Inr \<lparr> an_engine_instance_id = engine_instance_id, an_sequence = 0, an_snapshot_revision = 0,
                 an_initialized = False, an_active = [] \<rparr>)"

text \<open>Decimal digits, for \<open>f"a{sequence}"\<close>.\<close>

fun decimal :: "nat \<Rightarrow> string" where
  "decimal n = (if n < 10 then [char_of (48 + n)] else decimal (n div 10) @ [char_of (48 + n mod 10)])"

declare decimal.simps [simp del]

definition activation_name :: "nat \<Rightarrow> string" where
  "activation_name n = CHR ''a'' # decimal n"

section \<open>The projection\<close>

definition unavailable :: py_exn where
  "unavailable = ValueError ''AnnunciationProjectionUnavailable''"

type_synonym projection = "int \<times> string \<times> pyfloat \<times> bool"

definition finite_attr :: "num_attr \<Rightarrow> pyfloat result" where
  "finite_attr x =
     (if \<not> is_num x then Inl unavailable
      else res_bind (to_float x) (\<lambda>f. if fl_isfinite f then Inr f else Inl unavailable))"

definition project_event :: "raw_event \<Rightarrow> projection result" where
  "project_event ev =
     res_bind (finite_attr (rv_triggered_at ev)) (\<lambda>at_time.
       case (rv_activation_id ev, rv_level ev, rv_acknowledged ev) of
         (Some sequence, Some severity, Some acknowledged) \<Rightarrow>
           (if sequence \<le> 0 \<or> py_upper severity \<notin> {''INFO'', ''WARNING'', ''CRITICAL''} then Inl unavailable
            else Inr (sequence, py_upper severity, at_time, acknowledged))
       | _ \<Rightarrow> Inl unavailable)"

fun project_alarms :: "(string option \<times> raw_event) list \<Rightarrow> (ann_key \<times> projection) list
    \<Rightarrow> (ann_key \<times> projection) list result" where
  "project_alarms [] acc = Inr acc"
| "project_alarms ((alarm_id, ev) # rest) acc =
     (case alarm_id of
        None \<Rightarrow> Inl unavailable
      | Some n \<Rightarrow>
          if n = [] then Inl unavailable
          else res_bind (project_event ev) (\<lambda>p. project_alarms rest (dict_set (''alarm_v2'', n) p acc)))"

definition project_fault :: "raw_status \<Rightarrow> (ann_key \<times> projection) list \<Rightarrow> (ann_key \<times> projection) list result" where
  "project_fault st acc =
     (case (rs_state st, rs_fault_revision st) of
        (Some state, Some revision) \<Rightarrow>
          (if state \<notin> {''safe_off'', ''ready'', ''run_permitted'', ''running'', ''fault_latched'', ''manual_recovery''}
              \<or> revision < 0
           then Inl unavailable
           else if state = ''fault_latched''
           then (if revision \<le> 0 then Inl unavailable
                 else res_bind (finite_attr (rs_fault_activated_at st))
                        (\<lambda>at_time. Inr (dict_set (''safety_fault'', ''safety_manager'')
                                          (revision, ''CRITICAL'', at_time, False) acc)))
           else Inr acc)
      | _ \<Rightarrow> Inl unavailable)"

text \<open>One entry of the next projection, with the sequence number it leaves.\<close>

definition next_record :: "(ann_key \<times> ann_record) list \<Rightarrow> nat \<Rightarrow> ann_key \<Rightarrow> projection \<Rightarrow> nat \<times> ann_record" where
  "next_record active sequence key p =
     (let (discriminator, severity, activated_at, acknowledged) = p;
          fresh = (Suc sequence,
                   \<lparr> an_activation_id = activation_name (Suc sequence), an_source = fst key, an_source_key = snd key,
                     an_discriminator = discriminator, an_severity = severity, an_activated_at = activated_at,
                     an_acknowledged = False \<rparr>);
          (sequence1, current) =
            (case dict_get active key of
               None \<Rightarrow> fresh
             | Some c \<Rightarrow> if an_discriminator c \<noteq> discriminator then fresh
                          else (sequence, c\<lparr> an_severity := severity, an_activated_at := activated_at \<rparr>))
      in (sequence1, if fst key = ''alarm_v2'' then current\<lparr> an_acknowledged := acknowledged \<rparr> else current))"

fun next_active :: "(ann_key \<times> ann_record) list \<Rightarrow> (ann_key \<times> projection) list \<Rightarrow> nat
    \<Rightarrow> nat \<times> (ann_key \<times> ann_record) list" where
  "next_active active [] sequence = (sequence, [])"
| "next_active active ((key, p) # rest) sequence =
     (let (sequence1, current) = next_record active sequence key p;
          (sequence2, tail) = next_active active rest sequence1
      in (sequence2, (key, current) # tail))"

text \<open>\<open>==\<close> of dictionaries ignores their order.\<close>

definition dict_eq :: "('k \<times> 'v) list \<Rightarrow> ('k \<times> 'v) list \<Rightarrow> bool" where
  "dict_eq a b = (length a = length b \<and> list_all (\<lambda>(k, v). dict_get b k = Some v) a)"

definition project :: "(string option \<times> raw_event) list option \<Rightarrow> raw_status option \<Rightarrow> (ann_key \<times> projection) list result" where
  "project alarm_active safety_status =
     (case (alarm_active, safety_status) of
        (Some alarms, Some st) \<Rightarrow> res_bind (project_alarms alarms []) (project_fault st)
      | _ \<Rightarrow> Inl unavailable)"

definition sync :: "(string option \<times> raw_event) list option \<Rightarrow> raw_status option \<Rightarrow> annunciation
    \<Rightarrow> unit result \<times> annunciation" where
  "sync alarm_active safety_status r =
     (case project alarm_active safety_status of
        Inl e \<Rightarrow> (Inl e, r)
      | Inr projected \<Rightarrow>
          (let (sequence, nxt) = next_active (an_active r) projected (an_sequence r)
           in (Inr (),
               if \<not> an_initialized r
               then r\<lparr> an_initialized := True, an_sequence := sequence, an_active := nxt, an_snapshot_revision := 1 \<rparr>
               else if \<not> dict_eq nxt (an_active r)
               then r\<lparr> an_sequence := sequence, an_active := nxt,
                       an_snapshot_revision := an_snapshot_revision r + 1 \<rparr>
               else r)))"

section \<open>Queries and the acknowledgement of sound\<close>

text \<open>The published form of an activation leaves out the identity of the source activation.\<close>

definition published :: "ann_record \<Rightarrow> string \<times> string \<times> string \<times> string \<times> pyfloat \<times> bool" where
  "published c = (an_activation_id c, an_source c, an_source_key c, an_severity c, an_activated_at c, an_acknowledged c)"

record ann_snapshot =
  as_engine_instance_id :: string
  as_snapshot_revision :: nat
  as_activations :: "(string \<times> string \<times> string \<times> string \<times> pyfloat \<times> bool) list"

definition ann_snapshot_of :: "annunciation \<Rightarrow> ann_snapshot" where
  "ann_snapshot_of r =
     \<lparr> as_engine_instance_id = an_engine_instance_id r, as_snapshot_revision = an_snapshot_revision r,
       as_activations = map published (sort_key (\<lambda>c. (an_source c, an_source_key c)) (map snd (an_active r))) \<rparr>"

definition resolve :: "string option \<Rightarrow> string option \<Rightarrow> annunciation \<Rightarrow> ann_record option" where
  "resolve engine_instance_id activation_id r =
     (if engine_instance_id \<noteq> Some (an_engine_instance_id r) then None
      else case activation_id of
             None \<Rightarrow> None
           | Some i \<Rightarrow> find (\<lambda>c. an_activation_id c = i) (map snd (an_active r)))"

fun mark_first :: "('v \<Rightarrow> bool) \<Rightarrow> ('v \<Rightarrow> 'v) \<Rightarrow> ('k \<times> 'v) list \<Rightarrow> ('k \<times> 'v) list" where
  "mark_first q f [] = []"
| "mark_first q f ((k, v) # xs) = (if q v then (k, f v) # xs else (k, v) # mark_first q f xs)"

definition acknowledge_safety_audio :: "string \<Rightarrow> annunciation \<Rightarrow> bool \<times> annunciation" where
  "acknowledge_safety_audio activation_id r =
     (let q = (\<lambda>c. an_activation_id c = activation_id \<and> an_source c = ''safety_fault'')
      in case find q (map snd (an_active r)) of
           None \<Rightarrow> (False, r)
         | Some c \<Rightarrow>
             (True, if an_acknowledged c then r
                    else r\<lparr> an_active := mark_first q (\<lambda>c. c\<lparr> an_acknowledged := True \<rparr>) (an_active r),
                            an_snapshot_revision := an_snapshot_revision r + 1 \<rparr>))"


section \<open>Names of activations\<close>

definition undecimal :: "string \<Rightarrow> nat" where
  "undecimal cs = foldl (\<lambda>n c. 10 * n + (of_char c - 48)) 0 cs"

lemma undecimal_decimal: "undecimal (decimal n) = n"
proof (induction n rule: decimal.induct)
  case (1 n)
  show ?case
  proof (cases "n < 10")
    case True
    thus ?thesis by (simp add: decimal.simps [of n] undecimal_def)
  next
    case False
    hence "undecimal (decimal (n div 10)) = n div 10" using 1 by simp
    thus ?thesis using False by (simp add: decimal.simps [of n] undecimal_def)
  qed
qed

lemma activation_name_inject [simp]: "activation_name m = activation_name n \<longleftrightarrow> m = n"
  by (metis activation_name_def list.inject undecimal_decimal)

section \<open>The invariant\<close>

definition entry_ok :: "nat \<Rightarrow> ann_key \<times> ann_record \<Rightarrow> bool" where
  "entry_ok sequence e =
     (fst e = (an_source (snd e), an_source_key (snd e))
      \<and> (\<exists>n. 0 < n \<and> n \<le> sequence \<and> an_activation_id (snd e) = activation_name n))"

definition ann_ok :: "annunciation \<Rightarrow> bool" where
  "ann_ok r =
     (distinct (map fst (an_active r)) \<and> list_all (entry_ok (an_sequence r)) (an_active r)
      \<and> distinct (map (\<lambda>e. an_activation_id (snd e)) (an_active r))
      \<and> (an_initialized r \<longleftrightarrow> 0 < an_snapshot_revision r) \<and> (\<not> an_initialized r \<longrightarrow> an_active r = []))"

definition same_activation :: "ann_record \<Rightarrow> ann_record \<Rightarrow> bool" where
  "same_activation a b =
     (an_activation_id a = an_activation_id b \<and> an_source a = an_source b \<and> an_source_key a = an_source_key b
      \<and> an_discriminator a = an_discriminator b)"

lemma same_refl [simp]: "same_activation a a"
  by (simp add: same_activation_def)

lemma same_trans: "same_activation a b \<Longrightarrow> same_activation b c \<Longrightarrow> same_activation a c"
  by (simp add: same_activation_def)

lemma next_record_cases:
  assumes "next_record active sequence key p = (sequence1, c)" "list_all (entry_ok n) active"
  shows "(sequence1 = sequence \<and> (\<exists>c0. dict_get active key = Some c0 \<and> same_activation c c0))
       \<or> (sequence1 = Suc sequence \<and> an_activation_id c = activation_name (Suc sequence))"
    and "fst key = an_source c \<and> snd key = an_source_key c \<and> an_discriminator c = fst p"
    and "fst key = ''alarm_v2'' \<Longrightarrow> an_acknowledged c = snd (snd (snd p))"
proof -
  have *: "an_source c0 = fst key \<and> an_source_key c0 = snd key" if "dict_get active key = Some c0" for c0
    using dict_get_mem [OF that] assms(2) by (auto simp: list_all_iff entry_ok_def)
  show "(sequence1 = sequence \<and> (\<exists>c0. dict_get active key = Some c0 \<and> same_activation c c0))
       \<or> (sequence1 = Suc sequence \<and> an_activation_id c = activation_name (Suc sequence))"
    using assms(1) by (auto simp: next_record_def Let_def same_activation_def split: prod.splits option.splits if_splits)
  show "fst key = an_source c \<and> snd key = an_source_key c \<and> an_discriminator c = fst p"
    using assms(1) * by (auto simp: next_record_def Let_def split: prod.splits option.splits if_splits)
  show "fst key = ''alarm_v2'' \<Longrightarrow> an_acknowledged c = snd (snd (snd p))"
    using assms(1) by (auto simp: next_record_def Let_def split: prod.splits option.splits if_splits)
qed

definition from_active :: "(ann_key \<times> ann_record) list \<Rightarrow> nat \<Rightarrow> nat \<Rightarrow> ann_key \<times> ann_record \<Rightarrow> bool" where
  "from_active active lo hi e =
     (fst e = (an_source (snd e), an_source_key (snd e))
      \<and> ((\<exists>c0. dict_get active (fst e) = Some c0 \<and> same_activation (snd e) c0)
         \<or> (\<exists>n. lo < n \<and> n \<le> hi \<and> an_activation_id (snd e) = activation_name n)))"

lemma from_active_mono: "from_active active lo hi e \<Longrightarrow> lo' \<le> lo \<Longrightarrow> hi \<le> hi' \<Longrightarrow> from_active active lo' hi' e"
  by (fastforce simp: from_active_def)

lemma next_active_from:
  assumes "list_all (entry_ok n) active"
  shows "next_active active ps sequence = (sequence1, out) \<Longrightarrow>
     map fst out = map fst ps \<and> sequence \<le> sequence1 \<and> list_all (from_active active sequence sequence1) out"
proof (induction ps arbitrary: sequence sequence1 out)
  case (Cons kp ps)
  obtain key p where kp: "kp = (key, p)" by (cases kp)
  obtain s1 c where c: "next_record active sequence key p = (s1, c)" by fastforce
  obtain s2 tail where tail: "next_active active ps s1 = (s2, tail)" by fastforce
  have out: "out = (key, c) # tail" "sequence1 = s2" using Cons.prems by (auto simp: kp c tail)
  note cs = next_record_cases [OF c assms]
  from Cons.IH [OF tail] have ih: "map fst tail = map fst ps" "s1 \<le> s2" "list_all (from_active active s1 s2) tail" by auto
  have le: "sequence \<le> s1" using cs(1) by auto
  have "from_active active sequence s2 (key, c)"
    using cs(1,2) ih(2) by (cases key) (auto simp: from_active_def)
  moreover have "list_all (from_active active sequence s2) tail"
    using ih(3) le by (auto simp: list_all_iff intro: from_active_mono)
  ultimately show ?case using out ih le by (simp add: kp)
qed simp

lemma ids_unique:
  "distinct (map (\<lambda>e. an_activation_id (snd e)) xs) \<Longrightarrow> (k, c) \<in> set xs \<Longrightarrow> (k', c') \<in> set xs \<Longrightarrow>
     an_activation_id c = an_activation_id c' \<Longrightarrow> k = k' \<and> c = c'"
  by (auto simp: distinct_map dest: inj_onD [of _ _ "(k, c)" "(k', c')"])

lemma from_active_distinct:
  assumes "list_all (entry_ok lo) active" "distinct (map (\<lambda>e. an_activation_id (snd e)) active)"
  shows "next_active active ps lo' = (hi, out) \<Longrightarrow> distinct (map fst ps) \<Longrightarrow> lo \<le> lo' \<Longrightarrow>
     distinct (map (\<lambda>e. an_activation_id (snd e)) out)"
proof (induction ps arbitrary: lo' hi out)
  case (Cons kp ps)
  obtain key p where kp: "kp = (key, p)" by (cases kp)
  obtain s1 c where c: "next_record active lo' key p = (s1, c)" by fastforce
  obtain s2 tail where tail: "next_active active ps s1 = (s2, tail)" by fastforce
  have out: "out = (key, c) # tail" using Cons.prems(1) by (simp add: kp c tail)
  note cs = next_record_cases [OF c assms(1)]
  have le: "lo' \<le> s1" using cs(1) by auto
  have dt: "distinct (map (\<lambda>e. an_activation_id (snd e)) tail)"
    using Cons.IH [OF tail] Cons.prems(2,3) le by (simp add: kp)
  have old: "\<exists>n\<le>lo. an_activation_id c0 = activation_name n" if "(k, c0) \<in> set active" for k c0
    using that assms(1) by (auto simp: list_all_iff entry_ok_def)
  have ne: "an_activation_id c \<noteq> an_activation_id c'" if e: "(k', c') \<in> set tail" for k' c'
  proof
    assume eq: "an_activation_id c = an_activation_id c'"
    note src = next_active_from [OF assms(1) tail]
    have k': "k' \<noteq> key" using e src Cons.prems(2) by (metis distinct.simps(2) fst_conv imageI kp list.set_map list.simps(9))
    have "from_active active s1 s2 (k', c')" using src e by (auto simp: list_all_iff)
    then consider (kept) c0 where "dict_get active k' = Some c0" "same_activation c' c0"
      | (new) n where "s1 < n" "an_activation_id c' = activation_name n" by (auto simp: from_active_def)
    thus False
    proof cases
      case kept
      from cs(1) consider (a) d0 where "dict_get active key = Some d0" "same_activation c d0"
        | (b) "an_activation_id c = activation_name (Suc lo')" by blast
      thus False
      proof cases
        case a
        hence "an_activation_id d0 = an_activation_id c0" using kept eq by (simp add: same_activation_def)
        moreover have "(key, d0) \<in> set active" "(k', c0) \<in> set active" using a kept by (auto dest: dict_get_mem)
        ultimately show False using ids_unique [OF assms(2)] k' by blast
      next
        case b
        obtain n where "n \<le> lo" "an_activation_id c0 = activation_name n" using old dict_get_mem [OF kept(1)] by blast
        thus False using b kept eq Cons.prems(3) by (simp add: same_activation_def)
      qed
    next
      case new
      from cs(1) show False
      proof (elim disjE conjE exE)
        fix d0 assume d0: "dict_get active key = Some d0" "same_activation c d0" "s1 = lo'"
        obtain n' where "n' \<le> lo" "an_activation_id d0 = activation_name n'"
          using old dict_get_mem [OF d0(1)] by blast
        thus False using d0 new eq Cons.prems(3) by (simp add: same_activation_def)
      next
        assume "s1 = Suc lo'" "an_activation_id c = activation_name (Suc lo')"
        thus False using new eq by simp
      qed
    qed
  qed
  have "an_activation_id c \<noteq> an_activation_id (snd e)" if "e \<in> set tail" for e
    using ne [of "fst e" "snd e"] that by simp
  thus ?case using dt by (auto simp: out)
qed simp


section \<open>The operations keep the invariant\<close>

lemma project_alarms_distinct: "project_alarms evs acc = Inr ps \<Longrightarrow> distinct (map fst acc) \<Longrightarrow> distinct (map fst ps)"
  by (induction evs acc rule: project_alarms.induct)
     (auto simp: res_bind_Inr_iff distinct_update split: option.splits if_splits)

lemma project_fault_distinct: "project_fault st acc = Inr ps \<Longrightarrow> distinct (map fst acc) \<Longrightarrow> distinct (map fst ps)"
  by (auto simp: project_fault_def res_bind_Inr_iff distinct_update split: option.splits if_splits)

lemma project_distinct: "project alarm_active st = Inr ps \<Longrightarrow> distinct (map fst ps)"
  by (auto simp: project_def res_bind_Inr_iff split: option.splits
      intro: project_fault_distinct dest!: project_alarms_distinct)

text \<open>What one operation may do: activations are kept or new, and the revision moves with every change.\<close>

definition succession :: "annunciation \<Rightarrow> annunciation \<Rightarrow> bool" where
  "succession r t =
     (an_engine_instance_id t = an_engine_instance_id r \<and> an_sequence r \<le> an_sequence t
      \<and> an_snapshot_revision r \<le> an_snapshot_revision t
      \<and> (an_snapshot_revision r = an_snapshot_revision t \<longrightarrow> an_active t = an_active r)
      \<and> list_all (from_active (an_active r) (an_sequence r) (an_sequence t)) (an_active t))"

lemma ok_from_self: "ann_ok r \<Longrightarrow> list_all (from_active (an_active r) s t) (an_active r)"
  by (fastforce simp: ann_ok_def list_all_iff from_active_def entry_ok_def)

lemma succession_refl: "ann_ok r \<Longrightarrow> succession r r"
  by (simp add: succession_def ok_from_self)

lemma from_trans:
  assumes "from_active (an_active s) (an_sequence s) (an_sequence t) e" "succession r s" "ann_ok s"
    and "an_sequence s \<le> an_sequence t"
  shows "from_active (an_active r) (an_sequence r) (an_sequence t) e"
proof -
  from assms(1) consider (kept) c where "dict_get (an_active s) (fst e) = Some c" "same_activation (snd e) c"
    | (new) n where "an_sequence s < n" "n \<le> an_sequence t" "an_activation_id (snd e) = activation_name n"
    by (auto simp: from_active_def)
  thus ?thesis
  proof cases
    case kept
    have "from_active (an_active r) (an_sequence r) (an_sequence s) (fst e, c)"
      using assms(2) dict_get_mem [OF kept(1)] by (auto simp: succession_def list_all_iff)
    thus ?thesis using kept(2) assms(1,4)
      by (fastforce simp: from_active_def same_activation_def)
  next
    case new
    thus ?thesis using assms(1,2) by (fastforce simp: from_active_def succession_def)
  qed
qed

lemma succession_trans: "succession r s \<Longrightarrow> succession s t \<Longrightarrow> ann_ok s \<Longrightarrow> succession r t"
  using from_trans [of s t _ r] by (auto simp: succession_def list_all_iff)

lemma sync_step:
  assumes "ann_ok r" shows "ann_ok (snd (sync as st r)) \<and> succession r (snd (sync as st r))"
proof (cases "project as st")
  case (Inl e)
  thus ?thesis using assms by (simp add: sync_def succession_refl)
next
  case (Inr ps)
  obtain sequence nxt where n: "next_active (an_active r) ps (an_sequence r) = (sequence, nxt)" by fastforce
  have ok: "list_all (entry_ok (an_sequence r)) (an_active r)"
    "distinct (map (\<lambda>e. an_activation_id (snd e)) (an_active r))" using assms by (auto simp: ann_ok_def)
  note src = next_active_from [OF ok(1) n]
  have d: "distinct (map fst nxt)" "distinct (map (\<lambda>e. an_activation_id (snd e)) nxt)"
    using project_distinct [OF Inr] src from_active_distinct [OF ok n] by simp_all
  have e: "list_all (entry_ok sequence) nxt"
    unfolding list_all_iff
  proof
    fix e assume "e \<in> set nxt"
    hence "from_active (an_active r) (an_sequence r) sequence e" using src by (auto simp: list_all_iff)
    then consider (kept) c where "fst e = (an_source (snd e), an_source_key (snd e))"
        "dict_get (an_active r) (fst e) = Some c" "same_activation (snd e) c"
      | (new) n where "fst e = (an_source (snd e), an_source_key (snd e))"
        "an_sequence r < n" "n \<le> sequence" "an_activation_id (snd e) = activation_name n"
      unfolding from_active_def by blast
    thus "entry_ok sequence e"
    proof cases
      case kept
      have "entry_ok (an_sequence r) (fst e, c)"
        using ok(1) dict_get_mem [OF kept(2)] by (auto simp: list_all_iff)
      then obtain n where n: "0 < n" "n \<le> an_sequence r" "an_activation_id c = activation_name n"
        by (auto simp: entry_ok_def)
      moreover have "n \<le> sequence" using n src by simp
      ultimately show ?thesis using kept unfolding entry_ok_def same_activation_def by metis
    next
      case new
      thus ?thesis unfolding entry_ok_def by (metis gr0I not_less_zero)
    qed
  qed
  let ?t = "\<lambda>m. r\<lparr> an_initialized := True, an_sequence := sequence, an_active := nxt, an_snapshot_revision := m \<rparr>"
  have ok_t: "ann_ok (?t m)" if "0 < m" for m using that d e by (simp add: ann_ok_def)
  have succ_t: "succession r (?t m)" if "an_snapshot_revision r < m" for m
    using that src by (simp add: succession_def)
  show ?thesis
  proof (cases "an_initialized r")
    case False
    hence "snd (sync as st r) = r\<lparr> an_initialized := True, an_sequence := sequence, an_active := nxt,
        an_snapshot_revision := 1 \<rparr>" by (simp add: sync_def Inr n)
    moreover have "an_snapshot_revision r < 1" using False assms by (simp add: ann_ok_def)
    ultimately show ?thesis using ok_t [of 1] succ_t [of 1] by simp
  next
    case True
    show ?thesis
    proof (cases "dict_eq nxt (an_active r)")
      case same: True
      thus ?thesis using True assms by (simp add: sync_def Inr n succession_refl)
    next
      case False
      hence "snd (sync as st r) = r\<lparr> an_initialized := True, an_sequence := sequence, an_active := nxt,
          an_snapshot_revision := an_snapshot_revision r + 1 \<rparr>" using True by (simp add: sync_def Inr n)
      thus ?thesis using ok_t [of "an_snapshot_revision r + 1"] succ_t [of "an_snapshot_revision r + 1"] by simp
    qed
  qed
qed

lemma mark_first_unchanged: "find q (map snd xs) = None \<Longrightarrow> mark_first q f xs = xs"
  by (induction q f xs rule: mark_first.induct) (auto split: if_splits)

lemma mark_first_rel:
  "(\<And>v. R v v) \<Longrightarrow> (\<And>v. q v \<Longrightarrow> R v (f v)) \<Longrightarrow>
     list_all2 (\<lambda>a b. fst a = fst b \<and> R (snd a) (snd b)) xs (mark_first q f xs)"
  by (induction q f xs rule: mark_first.induct) (auto simp: list_all2_refl)

lemma ack_step:
  assumes "ann_ok r" shows "ann_ok (snd (acknowledge_safety_audio i r)) \<and> succession r (snd (acknowledge_safety_audio i r))"
proof -
  let ?q = "\<lambda>c. an_activation_id c = i \<and> an_source c = ''safety_fault''"
  let ?xs = "mark_first ?q (\<lambda>c. c\<lparr> an_acknowledged := True \<rparr>) (an_active r)"
  have rel: "list_all2 (\<lambda>a b. fst a = fst b \<and> same_activation (snd b) (snd a)) (an_active r) ?xs"
    by (rule mark_first_rel) (simp_all add: same_activation_def)
  have "map fst ?xs = map fst (an_active r)"
    "map (\<lambda>e. an_activation_id (snd e)) ?xs = map (\<lambda>e. an_activation_id (snd e)) (an_active r)"
    using rel by (auto simp: list_all2_conv_all_nth same_activation_def intro!: nth_equalityI)
  moreover have "list_all (entry_ok (an_sequence r)) ?xs"
    using rel assms by (auto simp: list_all2_conv_all_nth list_all_length ann_ok_def entry_ok_def same_activation_def)
  moreover have "list_all (from_active (an_active r) (an_sequence r) (an_sequence r)) ?xs"
    unfolding list_all_length
  proof (intro allI impI)
    fix k assume k: "k < length ?xs"
    let ?e = "an_active r ! k"
    have *: "?e \<in> set (an_active r)" "fst ?e = fst (?xs ! k)" "same_activation (snd (?xs ! k)) (snd ?e)"
      using rel k by (auto simp: list_all2_conv_all_nth)
    have "dict_get (an_active r) (fst ?e) = Some (snd ?e)"
      using *(1) assms by (intro map_of_is_SomeI) (simp_all add: ann_ok_def)
    thus "from_active (an_active r) (an_sequence r) (an_sequence r) (?xs ! k)"
      using * assms by (auto simp: from_active_def ann_ok_def list_all_iff entry_ok_def same_activation_def)
  qed
  moreover have "an_active r = [] \<Longrightarrow> ?xs = []" by simp
  ultimately show ?thesis using assms succession_refl [OF assms]
    by (cases "find ?q (map snd (an_active r))")
       (auto simp: acknowledge_safety_audio_def Let_def ann_ok_def succession_def)
qed


section \<open>Runs\<close>

datatype ann_op =
    OpSync "(string option \<times> raw_event) list option" "raw_status option"
  | OpAckSound string

definition ann_exec :: "ann_op \<Rightarrow> annunciation \<Rightarrow> annunciation" where
  "ann_exec op r = (case op of OpSync as st \<Rightarrow> snd (sync as st r) | OpAckSound i \<Rightarrow> snd (acknowledge_safety_audio i r))"

lemma run_step: "ann_ok r \<Longrightarrow> ann_ok (fold ann_exec ops r) \<and> succession r (fold ann_exec ops r)"
proof (induction ops arbitrary: r)
  case Nil
  thus ?case by (simp add: succession_refl)
next
  case (Cons op ops)
  have 1: "ann_ok (ann_exec op r)" "succession r (ann_exec op r)"
    using sync_step [OF Cons.prems] ack_step [OF Cons.prems] by (cases op; simp add: ann_exec_def)+
  thus ?case using Cons.IH [OF 1(1)] succession_trans [OF 1(2)] by auto
qed

lemma init_ok: "annunciation_init i = Inr r \<Longrightarrow> ann_ok r"
  by (auto simp: annunciation_init_def ann_ok_def split: if_splits)

text \<open>A registry that follows one alarm, first unacknowledged and then acknowledged by its manager.\<close>

definition sample_id :: string where
  "sample_id = ''00112233445566778899aabbccddeeff''"

definition sample_registry :: annunciation where
  "sample_registry =
     \<lparr> an_engine_instance_id = sample_id, an_sequence = 0, an_snapshot_revision = 0, an_initialized = False,
       an_active = [] \<rparr>"

definition warm_shield :: "bool \<Rightarrow> (string option \<times> raw_event) list" where
  "warm_shield acked =
     [(Some ''warm_shield'', \<lparr> rv_triggered_at = NumFloat (Fin 5), rv_activation_id = Some 3,
                              rv_level = Some ''WARNING'', rv_acknowledged = Some acked \<rparr>)]"

definition safe_status :: raw_status where
  "safe_status = \<lparr> rs_state = Some ''safe_off'', rs_fault_revision = Some 0, rs_fault_activated_at = NumFloat (Fin 0) \<rparr>"

definition warm_record :: "bool \<Rightarrow> ann_record" where
  "warm_record acked =
     \<lparr> an_activation_id = ''a1'', an_source = ''alarm_v2'', an_source_key = ''warm_shield'', an_discriminator = 3,
       an_severity = ''WARNING'', an_activated_at = Fin 5, an_acknowledged = acked \<rparr>"

definition warm_registry :: "nat \<Rightarrow> bool \<Rightarrow> annunciation" where
  "warm_registry revision acked =
     \<lparr> an_engine_instance_id = sample_id, an_sequence = 1, an_snapshot_revision = revision, an_initialized = True,
       an_active = [((''alarm_v2'', ''warm_shield''), warm_record acked)] \<rparr>"

lemma sample_init: "annunciation_init sample_id = Inr sample_registry"
  by (simp add: annunciation_init_def sample_registry_def sample_id_def valid_request_id_def hex_char_def)

lemma warm_project:
  "project (Some (warm_shield acked)) (Some safe_status)
     = Inr [((''alarm_v2'', ''warm_shield''), 3, ''WARNING'', Fin 5, acked)]"
  by (simp add: project_def warm_shield_def safe_status_def project_event_def finite_attr_def is_num_def to_float_def
      project_fault_def py_upper_char_def)

lemma warm_name: "activation_name (Suc 0) = ''a1''"
  by code_simp

lemma warm_silent: "acknowledge_safety_audio i (warm_registry n acked) = (False, warm_registry n acked)"
  by (simp add: acknowledge_safety_audio_def warm_registry_def warm_record_def)

lemma warm_first: "sync (Some (warm_shield acked)) (Some safe_status) sample_registry = (Inr (), warm_registry 1 acked)"
  unfolding sync_def warm_project
  by (simp add: sample_registry_def next_record_def warm_name warm_registry_def warm_record_def)

lemma warm_second:
  "sync (Some (warm_shield True)) (Some safe_status) (warm_registry 1 False) = (Inr (), warm_registry 2 True)"
  unfolding sync_def warm_project
  by (simp add: warm_registry_def warm_record_def next_record_def dict_eq_def)

lemma warm_again:
  "sync (Some (warm_shield acked)) (Some safe_status) (warm_registry n acked) = (Inr (), warm_registry n acked)"
  unfolding sync_def warm_project
  by (simp add: warm_registry_def warm_record_def next_record_def dict_eq_def)



text \<open>a snapshot is determined by its revision: two states of one registry with the same revision
  publish the same snapshot and know the same activations.\<close>

theorem snapshot_revision_exact:
  assumes "annunciation_init i = Inr r0" "r1 = fold ann_exec ops r0" "r2 = fold ann_exec ops' r1"
    and "an_snapshot_revision r1 = an_snapshot_revision r2"
  shows "ann_snapshot_of r1 = ann_snapshot_of r2 \<and> an_active r1 = an_active r2"
proof -
  have "succession r1 r2" using run_step run_step [OF init_ok [OF assms(1)]] assms(2,3) by simp
  thus ?thesis using assms(4) by (simp add: succession_def ann_snapshot_of_def)
qed

theorem snapshot_revision_exact_witness:
  "ann_snapshot_of (warm_registry 1 False)
     = ann_snapshot_of (fold ann_exec [OpSync (Some (warm_shield False)) (Some safe_status), OpAckSound ''a1'',
         OpSync None (Some safe_status)] (warm_registry 1 False))"
proof -
  have 1: "warm_registry 1 False = fold ann_exec [OpSync (Some (warm_shield False)) (Some safe_status)] sample_registry"
    by (simp add: ann_exec_def warm_first)
  have "an_snapshot_revision (warm_registry 1 False)
      = an_snapshot_revision (fold ann_exec [OpSync (Some (warm_shield False)) (Some safe_status), OpAckSound ''a1'',
         OpSync None (Some safe_status)] (warm_registry 1 False))"
    using warm_again [of False 1] by (simp add: ann_exec_def warm_silent sync_def [of None] project_def)
  thus ?thesis using snapshot_revision_exact [OF sample_init 1 refl] by blast
qed

section \<open>Acknowledgements of sound leave alarms alone\<close>

lemma mark_first_mem:
  "(k, c) \<in> set (mark_first q f xs) \<Longrightarrow> (k, c) \<in> set xs \<or> (\<exists>d. (k, d) \<in> set xs \<and> q d \<and> c = f d)"
  by (induction q f xs rule: mark_first.induct) (auto split: if_splits)

lemma sound_ack_keeps_alarms:
  assumes "ann_ok r" "((''alarm_v2'', n), c) \<in> set (an_active (ann_exec (OpAckSound i) r))"
  shows "((''alarm_v2'', n), c) \<in> set (an_active r)"
proof -
  have "an_source d = ''alarm_v2''" if "((''alarm_v2'', n), d) \<in> set (an_active r)" for d
    using that assms(1) by (auto simp: ann_ok_def list_all_iff entry_ok_def)
  thus ?thesis using assms(2)
    by (auto simp: ann_exec_def acknowledge_safety_audio_def Let_def dest!: mark_first_mem split: option.splits if_splits)
qed

lemma sound_acks_keep_alarms:
  "ann_ok r \<Longrightarrow> ((''alarm_v2'', n), c) \<in> set (an_active (fold (\<lambda>i. ann_exec (OpAckSound i)) ids r)) \<Longrightarrow>
     ((''alarm_v2'', n), c) \<in> set (an_active r)"
proof (induction ids arbitrary: r)
  case (Cons i rest)
  have "ann_ok (ann_exec (OpAckSound i) r)" using run_step [of r "[OpAckSound i]"] Cons.prems(1) by simp
  from Cons.IH [OF this] Cons.prems(2) have "((''alarm_v2'', n), c) \<in> set (an_active (ann_exec (OpAckSound i) r))" by simp
  thus ?case by (rule sound_ack_keeps_alarms [OF Cons.prems(1)])
qed simp

lemma next_active_flag:
  assumes "list_all (entry_ok m) active"
  shows "next_active active ps sequence = (sequence1, out) \<Longrightarrow> ((''alarm_v2'', n), c) \<in> set out \<Longrightarrow>
     \<exists>p. ((''alarm_v2'', n), p) \<in> set ps \<and> an_acknowledged c = snd (snd (snd p)) \<and> an_discriminator c = fst p"
proof (induction ps arbitrary: sequence sequence1 out)
  case (Cons kp ps)
  obtain key p where kp: "kp = (key, p)" by (cases kp)
  obtain s1 d where d: "next_record active sequence key p = (s1, d)" by fastforce
  obtain s2 tail where tail: "next_active active ps s1 = (s2, tail)" by fastforce
  have out: "out = (key, d) # tail" using Cons.prems(1) by (simp add: kp d tail)
  show ?case
  proof (cases "((''alarm_v2'', n), c) \<in> set tail")
    case True
    thus ?thesis using Cons.IH [OF tail] by auto
  next
    case False
    hence "key = (''alarm_v2'', n)" "c = d" using Cons.prems(2) by (auto simp: out)
    thus ?thesis using next_record_cases(2,3) [OF d assms] by (intro exI [of _ p]) (simp add: kp)
  qed
qed simp

lemma dict_set_mem: "(k, v) \<in> set (dict_set k' v' xs) \<Longrightarrow> (k, v) \<in> set xs \<or> (k = k' \<and> v = v')"
  by (induction xs) (auto split: if_splits)

lemma project_alarms_flag:
  "project_alarms evs acc = Inr ps \<Longrightarrow> ((''alarm_v2'', n), p) \<in> set ps \<Longrightarrow>
     ((''alarm_v2'', n), p) \<in> set acc \<or> (\<exists>ev. (Some n, ev) \<in> set evs \<and> project_event ev = Inr p)"
proof (induction evs acc rule: project_alarms.induct)
  case (2 alarm_id ev rest acc)
  then obtain m q where m: "alarm_id = Some m" "m \<noteq> []" "project_event ev = Inr q"
    "project_alarms rest (dict_set (''alarm_v2'', m) q acc) = Inr ps"
    by (auto simp: res_bind_Inr_iff split: option.splits if_splits)
  from 2(1) [OF m(1,2) m(4) 2(3)] show ?case
    using m by (auto dest!: dict_set_mem)
qed simp

lemma project_event_flags:
  "project_event ev = Inr p \<Longrightarrow>
     rv_acknowledged ev = Some (snd (snd (snd p))) \<and> rv_activation_id ev = Some (fst p)"
  by (cases "rv_activation_id ev"; cases "rv_level ev"; cases "rv_acknowledged ev")
     (auto simp: project_event_def res_bind_Inr_iff split: if_splits)

lemma project_fault_mem:
  "project_fault st qs = Inr ps \<Longrightarrow> ((''alarm_v2'', n), p) \<in> set ps \<Longrightarrow> ((''alarm_v2'', n), p) \<in> set qs"
  by (cases "rs_state st"; cases "rs_fault_revision st")
     (auto simp: project_fault_def res_bind_Inr_iff dest!: dict_set_mem split: if_splits)

lemma project_flag:
  assumes "project (Some alarms) (Some st) = Inr ps" "((''alarm_v2'', n), p) \<in> set ps"
  shows "\<exists>ev. (Some n, ev) \<in> set alarms \<and> rv_acknowledged ev = Some (snd (snd (snd p))) \<and> rv_activation_id ev = Some (fst p)"
proof -
  obtain qs where q: "project_alarms alarms [] = Inr qs" "project_fault st qs = Inr ps"
    using assms(1) by (auto simp: project_def res_bind_Inr_iff)
  have "((''alarm_v2'', n), p) \<in> set qs"
    using project_fault_mem [OF q(2) assms(2)] .
  then obtain ev where "(Some n, ev) \<in> set alarms" "project_event ev = Inr p"
    using project_alarms_flag [OF q(1), of n p] by auto
  thus ?thesis using project_event_flags by blast
qed

lemma dict_eq_mem: "dict_eq a b \<Longrightarrow> distinct (map fst a) \<Longrightarrow> e \<in> set b \<Longrightarrow> distinct (map fst b) \<Longrightarrow> e \<in> set a"
proof -
  assume eq: "dict_eq a b" and d: "distinct (map fst a)" "distinct (map fst b)" and e: "e \<in> set b"
  have sub: "set a \<subseteq> set b" using eq by (auto simp: dict_eq_def list_all_iff dest: map_of_SomeD)
  have "card (set a) = card (set b)"
    using eq d by (metis dict_eq_def distinct_card distinct_map)
  hence "set a = set b" using sub by (simp add: card_subset_eq)
  thus ?thesis using e by simp
qed

text \<open>C40: the acknowledgement of an alarm belongs to the alarm manager: after a successful synchronisation and
  any number of acknowledgements of sound, an activation of an alarm carries exactly the activation and
  the acknowledgement which the manager reported for it.\<close>

theorem alarm_acknowledgement_projected:
  assumes "annunciation_init i = Inr r0" "sync (Some alarms) (Some st) (fold ann_exec ops r0) = (Inr (), r)"
    and "((''alarm_v2'', n), c) \<in> set (an_active (fold (\<lambda>i. ann_exec (OpAckSound i)) ids r))"
  shows "\<exists>ev. (Some n, ev) \<in> set alarms \<and> rv_acknowledged ev = Some (an_acknowledged c)
              \<and> rv_activation_id ev = Some (an_discriminator c)"
proof -
  let ?r = "fold ann_exec ops r0"
  have ok: "ann_ok ?r" using run_step [OF init_ok [OF assms(1)]] by simp
  have ok_r: "ann_ok r" using sync_step [OF ok, of "Some alarms" "Some st"] assms(2) by simp
  note c = sound_acks_keep_alarms [OF ok_r assms(3)]
  obtain ps where ps: "project (Some alarms) (Some st) = Inr ps" using assms(2) by (auto simp: sync_def split: sum.splits)
  obtain sequence nxt where n: "next_active (an_active ?r) ps (an_sequence ?r) = (sequence, nxt)" by fastforce
  have ok': "list_all (entry_ok (an_sequence ?r)) (an_active ?r)" using ok by (simp add: ann_ok_def)
  have d: "distinct (map fst nxt)" using next_active_from [OF ok' n] project_distinct [OF ps] by simp
  have "an_active r = nxt \<or> (an_active r = an_active ?r \<and> dict_eq nxt (an_active ?r))"
    using assms(2) by (auto simp: sync_def ps n split: if_splits)
  hence "((''alarm_v2'', n), c) \<in> set nxt"
    using c dict_eq_mem [OF _ d] ok by (auto simp: ann_ok_def)
  then obtain p where p: "((''alarm_v2'', n), p) \<in> set ps" "an_acknowledged c = snd (snd (snd p))"
    "an_discriminator c = fst p" using next_active_flag [OF ok' n] by blast
  show ?thesis using project_flag [OF ps p(1)] unfolding p(2,3) .
qed


theorem alarm_acknowledgement_projected_witness:
  "\<exists>ev. (Some ''warm_shield'', ev) \<in> set (warm_shield True)
        \<and> rv_acknowledged ev = Some (an_acknowledged (warm_record True))
        \<and> rv_activation_id ev = Some (an_discriminator (warm_record True))"
proof -
  have "sync (Some (warm_shield True)) (Some safe_status)
      (fold ann_exec [OpSync (Some (warm_shield False)) (Some safe_status)] sample_registry) = (Inr (), warm_registry 2 True)"
    using warm_second by (simp add: ann_exec_def warm_first)
  thus ?thesis
    by (rule alarm_acknowledgement_projected [OF sample_init, where n = "''warm_shield''" and ids = "[''a1'']"])
       (simp add: ann_exec_def warm_silent, simp add: warm_registry_def)
qed

end
