(* ===== verification/AckStore.thy ===== *)
theory AckStore
  imports Annunciation
begin

text \<open>
  The durable outbox of alarm acknowledgements (\<^verbatim>\<open>src/cryodaq/storage/sqlite_writer.py\<close>): its rows, their
  validation, and its transactions. A table is a list of rows; a transaction answers and leaves the next
  table, the same one when it rolls back. The environment of a transaction says whether SQLite, the
  verification of the schema or a deadline fails it, which request ids are in the quarantine of legacy
  rows, and what \<open>time.time()\<close> returns. The byte lengths of the two JSON texts are parameters; the texts
  themselves are canonical, so they are equal exactly when their contents are.
\<close>

section \<open>Rows\<close>

datatype ack_state = Prepared | Committed | Published | Aborted

record ack_event =
  ev_request :: string
  ev_fingerprint :: string
  ev_alarm :: string
  ev_activation :: string
  ev_engine :: string
  ev_source :: string
  ev_acknowledged_at :: pyfloat
  ev_operator :: string
  ev_reason :: string

record ack_receipt =
  ar_request :: string
  ar_fingerprint :: string
  ar_alarm :: string
  ar_activation :: string
  ar_engine :: string
  ar_source :: string
  ar_acknowledged_at :: pyfloat

record outbox_row =
  ob_request :: string
  ob_fingerprint :: string
  ob_alarm :: string
  ob_activation :: string
  ob_engine :: string
  ob_source :: string
  ob_operator :: string
  ob_reason :: string
  ob_state :: ack_state
  ob_event :: ack_event
  ob_receipt :: ack_receipt
  ob_terminal :: "(string \<times> string) option"
  ob_created :: real
  ob_updated :: real

text \<open>\<open>RuntimeError\<close>, the conflict of a reused request id, and the cancellation of the waiting task;
  \<open>AxFuel\<close> marks a run cut short and is no exception of the code.\<close>

datatype ack_exn = AxCancelled | AxConflict | AxError string | AxFuel

record ack_cfg =
  ac_event_bytes :: "ack_event \<Rightarrow> nat"
  ac_receipt_bytes :: "ack_receipt \<Rightarrow> nat"

record tx_env =
  tx_fault :: bool
  tx_quarantined :: "string \<Rightarrow> bool"
  tx_now :: pyfloat

definition MAX_IDENTITY_FIELD_BYTES :: nat where "MAX_IDENTITY_FIELD_BYTES = 4096"
definition MAX_TEXT_FIELD_BYTES :: nat where "MAX_TEXT_FIELD_BYTES = 1024 * 1024"
definition ACK_MAX_JSON_BYTES :: nat where "ACK_MAX_JSON_BYTES = 1024 * 1024"
definition ACK_MAX_ROW_BYTES :: nat where "ACK_MAX_ROW_BYTES = 2 * 1024 * 1024 + 4096"
definition ACK_MAX_PENDING :: nat where "ACK_MAX_PENDING = 1024"
definition ACK_MAX_PENDING_BYTES :: nat where "ACK_MAX_PENDING_BYTES = 8 * 1024 * 1024"
definition ACK_MAX_TOTAL :: nat where "ACK_MAX_TOTAL = 4096"
definition ACK_MAX_TOTAL_BYTES :: nat where "ACK_MAX_TOTAL_BYTES = 272 * 1024 * 1024"
definition ACK_MIN_TERMINAL_RETAINED :: nat where "ACK_MIN_TERMINAL_RETAINED = 128"
definition ACK_MAX_PRUNE_PER_ADMISSION :: nat where "ACK_MAX_PRUNE_PER_ADMISSION = 4096"
definition RESTART_ABORT_CODE :: string where "RESTART_ABORT_CODE = ''engine_restart_before_ack_commit''"
definition ACTIVATION_ABORT_CODE :: string where
  "ACTIVATION_ABORT_CODE = ''activation_changed_before_ack_commit''"

definition valid_request :: "string \<Rightarrow> string \<Rightarrow> bool" where
  "valid_request rid fp = (valid_request_id rid \<and> length fp = 64 \<and> list_all hex_char fp)"

definition ack_text :: "nat \<Rightarrow> string \<Rightarrow> bool" where
  "ack_text n v = (v \<noteq> [] \<and> length v \<le> n)"

definition is_canonical_source_activation_id :: "string \<Rightarrow> bool" where
  "is_canonical_source_activation_id v =
     (1 \<le> length v \<and> length v \<le> 64 \<and> list_all (\<lambda>c. c \<in> set ''0123456789'') v \<and> hd v \<noteq> CHR ''0'')"

definition identity_ok :: "outbox_row \<Rightarrow> bool" where
  "identity_ok r =
     (valid_request (ob_request r) (ob_fingerprint r) \<and> ack_text MAX_IDENTITY_FIELD_BYTES (ob_alarm r)
      \<and> ack_text MAX_IDENTITY_FIELD_BYTES (ob_activation r) \<and> valid_request_id (ob_engine r)
      \<and> is_canonical_source_activation_id (ob_source r) \<and> ack_text MAX_IDENTITY_FIELD_BYTES (ob_operator r)
      \<and> ack_text MAX_TEXT_FIELD_BYTES (ob_reason r))"

definition payload_identity_ok :: "outbox_row \<Rightarrow> bool" where
  "payload_identity_ok r =
     (let e = ob_event r; c = ob_receipt r
      in ev_request e = ob_request r \<and> ev_fingerprint e = ob_fingerprint r \<and> ev_alarm e = ob_alarm r
         \<and> ev_activation e = ob_activation r \<and> ev_engine e = ob_engine r \<and> ev_source e = ob_source r
         \<and> ar_request c = ob_request r \<and> ar_fingerprint c = ob_fingerprint r \<and> ar_alarm c = ob_alarm r
         \<and> ar_activation c = ob_activation r \<and> ar_engine c = ob_engine r \<and> ar_source c = ob_source r
         \<and> ev_operator e = ob_operator r \<and> ev_reason e = ob_reason r
         \<and> fl_isfinite (ev_acknowledged_at e) \<and> fl_less (Fin 0) (ev_acknowledged_at e)
         \<and> ar_acknowledged_at c = ev_acknowledged_at e)"

definition terminal_ok :: "outbox_row \<Rightarrow> bool" where
  "terminal_ok r =
     (case ob_terminal r of
        None \<Rightarrow> ob_state r \<noteq> Aborted
      | Some (code, engine) \<Rightarrow>
          ob_state r = Aborted \<and> valid_request_id engine
          \<and> (code = RESTART_ABORT_CODE \<and> engine \<noteq> ob_engine r \<or> code = ACTIVATION_ABORT_CODE \<and> engine = ob_engine r))"

definition row_bytes :: "ack_cfg \<Rightarrow> outbox_row \<Rightarrow> nat" where
  "row_bytes cfg r =
     length ''committed'' + length ACTIVATION_ABORT_CODE + 32 + length (ob_request r) + length (ob_fingerprint r)
     + length (ob_alarm r) + length (ob_activation r) + length (ob_engine r) + length (ob_source r)
     + length (ob_operator r) + length (ob_reason r) + ac_event_bytes cfg (ob_event r)
     + ac_receipt_bytes cfg (ob_receipt r)"

definition json_ok :: "ack_cfg \<Rightarrow> ack_event \<Rightarrow> ack_receipt \<Rightarrow> bool" where
  "json_ok cfg e c = (ac_event_bytes cfg e \<le> ACK_MAX_JSON_BYTES \<and> ac_receipt_bytes cfg c \<le> ACK_MAX_JSON_BYTES)"

definition alarm_ack_record :: "ack_cfg \<Rightarrow> outbox_row \<Rightarrow> bool" where
  "alarm_ack_record cfg r =
     (identity_ok r \<and> terminal_ok r \<and> 0 \<le> ob_created r \<and> 0 \<le> ob_updated r \<and> ob_created r \<le> ob_updated r
      \<and> json_ok cfg (ob_event r) (ob_receipt r) \<and> payload_identity_ok r \<and> row_bytes cfg r \<le> ACK_MAX_ROW_BYTES)"

section \<open>Transactions\<close>

type_synonym outbox = "outbox_row list"

definition outbox_row_of :: "outbox \<Rightarrow> string \<Rightarrow> outbox_row option" where
  "outbox_row_of db rid = find (\<lambda>r. ob_request r = rid) db"

definition row_pending :: "outbox_row \<Rightarrow> bool" where
  "row_pending r = (ob_state r = Prepared \<or> ob_state r = Committed)"

definition bytes_of :: "ack_cfg \<Rightarrow> outbox \<Rightarrow> nat" where
  "bytes_of cfg db = sum_list (map (row_bytes cfg) db)"

text \<open>The validation of the whole registry that opens every transaction.\<close>

definition registry_usage :: "ack_cfg \<Rightarrow> tx_env \<Rightarrow> outbox \<Rightarrow> bool" where
  "registry_usage cfg env db =
     (let open_rows = filter row_pending db
      in list_all (\<lambda>r. \<not> tx_quarantined env (ob_request r)) open_rows
         \<and> length open_rows \<le> ACK_MAX_PENDING \<and> bytes_of cfg open_rows \<le> ACK_MAX_PENDING_BYTES
         \<and> length db \<le> ACK_MAX_TOTAL \<and> list_all (alarm_ack_record cfg) db \<and> bytes_of cfg db \<le> ACK_MAX_TOTAL_BYTES)"

type_synonym 'a tx_answer = "ack_exn + 'a"

abbreviation ack_refused :: "string \<Rightarrow> 'a tx_answer" where
  "ack_refused what \<equiv> Inl (AxError what)"

text \<open>A transaction on one request: it is opened, checked, and rolled back if it raises.\<close>

definition transaction ::
  "ack_cfg \<Rightarrow> tx_env \<Rightarrow> string \<Rightarrow> (outbox \<Rightarrow> 'a tx_answer \<times> outbox) \<Rightarrow> outbox \<Rightarrow> 'a tx_answer \<times> outbox" where
  "transaction cfg env rid body db =
     (if tx_fault env \<or> \<not> registry_usage cfg env db then (ack_refused ''transaction failed'', db)
      else if tx_quarantined env rid then (ack_refused ''request identity is quarantined'', db)
      else (case body db of (Inl e, db') \<Rightarrow> (Inl e, db) | (Inr x, db') \<Rightarrow> (Inr x, db')))"

definition find_outbox :: "ack_cfg \<Rightarrow> tx_env \<Rightarrow> string \<Rightarrow> string \<Rightarrow> outbox \<Rightarrow> outbox_row option tx_answer \<times> outbox" where
  "find_outbox cfg env rid fp db =
     (if \<not> valid_request rid fp then (ack_refused ''request identity is invalid'', db)
      else transaction cfg env rid
        (\<lambda>db. case outbox_row_of db rid of
                None \<Rightarrow> (Inr None, db)
              | Some r \<Rightarrow> if ob_fingerprint r \<noteq> fp then (Inl AxConflict, db) else (Inr (Some r), db)) db)"

section \<open>Admission\<close>

definition fits :: "ack_cfg \<Rightarrow> nat \<Rightarrow> outbox \<Rightarrow> bool" where
  "fits cfg proposed db =
     (length db + 1 \<le> ACK_MAX_TOTAL \<and> bytes_of cfg db + proposed \<le> ACK_MAX_TOTAL_BYTES)"

definition delete_row :: "string \<Rightarrow> outbox \<Rightarrow> outbox" where
  "delete_row rid db = filter (\<lambda>r. ob_request r \<noteq> rid) db"

fun prune_loop :: "ack_cfg \<Rightarrow> nat \<Rightarrow> outbox_row list \<Rightarrow> outbox \<Rightarrow> outbox" where
  "prune_loop cfg proposed [] db = db"
| "prune_loop cfg proposed (c # cs) db =
     (let db1 = delete_row (ob_request c) db
      in if fits cfg proposed db1 then db1 else prune_loop cfg proposed cs db1)"

definition prune_candidates :: "outbox \<Rightarrow> outbox_row list" where
  "prune_candidates db =
     (let terminal = filter (\<lambda>r. \<not> row_pending r) db;
          floor = min (length terminal) ACK_MIN_TERMINAL_RETAINED
      in take (min (length terminal - floor) ACK_MAX_PRUNE_PER_ADMISSION)
           (sort_key (\<lambda>r. (ob_updated r, ob_request r)) terminal))"

definition prune_for_admission :: "ack_cfg \<Rightarrow> nat \<Rightarrow> outbox \<Rightarrow> outbox tx_answer" where
  "prune_for_admission cfg proposed db =
     (if fits cfg proposed db then Inr db
      else if prune_candidates db = [] then ack_refused ''registry capacity cannot admit another request''
      else (let db1 = prune_loop cfg proposed (prune_candidates db) db
            in if fits cfg proposed db1 then Inr db1
               else ack_refused ''registry capacity cannot admit another request''))"

text \<open>The columns a preparation is called with are those of \<open>r\<close>; its state and times are set here.\<close>

definition new_row :: "outbox_row \<Rightarrow> real \<Rightarrow> outbox_row" where
  "new_row r now = r\<lparr> ob_state := Prepared, ob_terminal := None, ob_created := now, ob_updated := now \<rparr>"

definition same_content :: "outbox_row \<Rightarrow> outbox_row \<Rightarrow> bool" where
  "same_content a b =
     (ob_request a = ob_request b \<and> ob_fingerprint a = ob_fingerprint b \<and> ob_alarm a = ob_alarm b
      \<and> ob_activation a = ob_activation b \<and> ob_engine a = ob_engine b \<and> ob_source a = ob_source b
      \<and> ob_operator a = ob_operator b \<and> ob_reason a = ob_reason b \<and> ob_event a = ob_event b
      \<and> ob_receipt a = ob_receipt b)"

definition admit_row :: "ack_cfg \<Rightarrow> tx_env \<Rightarrow> outbox_row \<Rightarrow> outbox \<Rightarrow> outbox_row tx_answer \<times> outbox" where
  "admit_row cfg env r db =
     (case prune_for_admission cfg (row_bytes cfg r) db of
        Inl e \<Rightarrow> (Inl e, db)
      | Inr db1 \<Rightarrow>
          (if ACK_MAX_PENDING < length (filter row_pending db1) + 1 then (ack_refused ''pending count exceeds cap'', db)
           else if ACK_MAX_PENDING_BYTES < bytes_of cfg (filter row_pending db1) + row_bytes cfg r
           then (ack_refused ''pending bytes exceed cap'', db)
           else (case tx_now env of
                   Fin now \<Rightarrow>
                     (if now < 0 then (ack_refused ''clock authority is invalid'', db)
                      else (let db2 = db1 @ [new_row r now]
                            in if registry_usage cfg env db2 then (Inr (new_row r now), db2)
                               else (ack_refused ''admission was not exact'', db)))
                 | _ \<Rightarrow> (ack_refused ''clock authority is invalid'', db))))"

definition prepare_outbox :: "ack_cfg \<Rightarrow> tx_env \<Rightarrow> outbox_row \<Rightarrow> outbox \<Rightarrow> outbox_row tx_answer \<times> outbox" where
  "prepare_outbox cfg env r db =
     (if \<not> identity_ok r \<or> \<not> json_ok cfg (ob_event r) (ob_receipt r) \<or> \<not> payload_identity_ok r
         \<or> ACK_MAX_ROW_BYTES < row_bytes cfg r
      then (ack_refused ''invalid preparation'', db)
      else transaction cfg env (ob_request r)
        (\<lambda>db. case outbox_row_of db (ob_request r) of
                Some cur \<Rightarrow> if same_content cur r then (Inr cur, db) else (Inl AxConflict, db)
              | None \<Rightarrow> admit_row cfg env r db) db)"

section \<open>Transitions of a row\<close>

definition replace_row :: "outbox_row \<Rightarrow> outbox \<Rightarrow> outbox" where
  "replace_row r db = map (\<lambda>x. if ob_request x = ob_request r then r else x) db"

definition clock_after :: "tx_env \<Rightarrow> outbox_row \<Rightarrow> real option" where
  "clock_after env r =
     (case tx_now env of
        Fin now \<Rightarrow> if now < ob_created r \<or> now < ob_updated r then None else Some now
      | _ \<Rightarrow> None)"

definition commit_outbox ::
  "ack_cfg \<Rightarrow> tx_env \<Rightarrow> string \<Rightarrow> string \<Rightarrow> ack_event \<Rightarrow> ack_receipt \<Rightarrow> outbox \<Rightarrow> outbox_row tx_answer \<times> outbox" where
  "commit_outbox cfg env rid fp ev rc db =
     (if \<not> valid_request rid fp \<or> \<not> json_ok cfg ev rc then (ack_refused ''request identity is invalid'', db)
      else transaction cfg env rid
        (\<lambda>db. case outbox_row_of db rid of
                None \<Rightarrow> (ack_refused ''durable preparation is missing'', db)
              | Some r \<Rightarrow>
                  (if ob_fingerprint r \<noteq> fp then (Inl AxConflict, db)
                   else if ob_event r \<noteq> ev \<or> ob_receipt r \<noteq> rc
                   then (ack_refused ''commit does not match its durable preparation'', db)
                   else (case ob_state r of
                           Committed \<Rightarrow> (Inr r, db)
                         | Published \<Rightarrow> (Inr r, db)
                         | Aborted \<Rightarrow> (ack_refused ''aborted request cannot commit'', db)
                         | Prepared \<Rightarrow>
                             (case clock_after env r of
                                None \<Rightarrow> (ack_refused ''clock authority is invalid'', db)
                              | Some now \<Rightarrow>
                                  (let r1 = r\<lparr> ob_state := Committed, ob_updated := now \<rparr>
                                   in (Inr r1, replace_row r1 db)))))) db)"

definition publish_outbox ::
  "ack_cfg \<Rightarrow> tx_env \<Rightarrow> string \<Rightarrow> string \<Rightarrow> ack_event \<Rightarrow> ack_receipt \<Rightarrow> outbox \<Rightarrow> outbox_row tx_answer \<times> outbox" where
  "publish_outbox cfg env rid fp ev rc db =
     (if \<not> valid_request rid fp \<or> \<not> json_ok cfg ev rc then (ack_refused ''request identity is invalid'', db)
      else transaction cfg env rid
        (\<lambda>db. case outbox_row_of db rid of
                None \<Rightarrow> (ack_refused ''outbox receipt is missing'', db)
              | Some r \<Rightarrow>
                  (if ob_fingerprint r \<noteq> fp then (Inl AxConflict, db)
                   else if ob_event r \<noteq> ev \<or> ob_receipt r \<noteq> rc
                   then (ack_refused ''publication does not match its committed payload'', db)
                   else (case ob_state r of
                           Prepared \<Rightarrow> (ack_refused ''event cannot publish before state commit'', db)
                         | Published \<Rightarrow> (Inr r, db)
                         | Aborted \<Rightarrow> (ack_refused ''aborted request cannot publish'', db)
                         | Committed \<Rightarrow>
                             (case clock_after env r of
                                None \<Rightarrow> (ack_refused ''clock authority is invalid'', db)
                              | Some now \<Rightarrow>
                                  (let r1 = r\<lparr> ob_state := Published, ob_updated := now \<rparr>
                                   in (Inr r1, replace_row r1 db)))))) db)"

record disposition =
  ds_request :: string
  ds_fingerprint :: string
  ds_prior_engine :: string
  ds_activation :: string
  ds_source :: string
  ds_code :: string
  ds_recovery_engine :: string
  ds_disposed_at :: real

definition abort_row :: "string \<Rightarrow> string \<Rightarrow> real \<Rightarrow> outbox_row \<Rightarrow> outbox_row" where
  "abort_row code engine now r = r\<lparr> ob_state := Aborted, ob_terminal := Some (code, engine), ob_updated := now \<rparr>"

definition disposition_of :: "string \<Rightarrow> string \<Rightarrow> real \<Rightarrow> outbox_row \<Rightarrow> disposition tx_answer" where
  "disposition_of code engine at_time r =
     (if at_time \<le> 0 then ack_refused ''abort disposition authority is invalid''
      else Inr \<lparr> ds_request = ob_request r, ds_fingerprint = ob_fingerprint r, ds_prior_engine = ob_engine r,
                 ds_activation = ob_activation r, ds_source = ob_source r, ds_code = code,
                 ds_recovery_engine = engine, ds_disposed_at = at_time \<rparr>)"

definition abort_outbox ::
  "ack_cfg \<Rightarrow> tx_env \<Rightarrow> string \<Rightarrow> string \<Rightarrow> string \<Rightarrow> string \<Rightarrow> string \<Rightarrow> ack_event \<Rightarrow> ack_receipt \<Rightarrow> outbox
     \<Rightarrow> disposition tx_answer \<times> outbox" where
  "abort_outbox cfg env rid fp engine activation source ev rc db =
     (if \<not> valid_request rid fp \<or> \<not> valid_request_id engine \<or> \<not> ack_text MAX_IDENTITY_FIELD_BYTES activation
         \<or> \<not> is_canonical_source_activation_id source \<or> \<not> json_ok cfg ev rc
      then (ack_refused ''request identity is invalid'', db)
      else transaction cfg env rid
        (\<lambda>db. case outbox_row_of db rid of
                None \<Rightarrow> (ack_refused ''durable preparation is missing'', db)
              | Some r \<Rightarrow>
                  (if ob_fingerprint r \<noteq> fp then (Inl AxConflict, db)
                   else if ob_engine r \<noteq> engine \<or> ob_activation r \<noteq> activation \<or> ob_source r \<noteq> source
                           \<or> ob_event r \<noteq> ev \<or> ob_receipt r \<noteq> rc
                   then (Inl AxConflict, db)
                   else (case ob_state r of
                           Aborted \<Rightarrow>
                             (if ob_terminal r \<noteq> Some (ACTIVATION_ABORT_CODE, engine)
                              then (ack_refused ''request has a different terminal disposition'', db)
                              else (disposition_of ACTIVATION_ABORT_CODE engine (ob_updated r) r, db))
                         | Committed \<Rightarrow> (ack_refused ''committed request cannot be aborted'', db)
                         | Published \<Rightarrow> (ack_refused ''committed request cannot be aborted'', db)
                         | Prepared \<Rightarrow>
                             (case clock_after env r of
                                None \<Rightarrow> (ack_refused ''disposition clock authority is invalid'', db)
                              | Some now \<Rightarrow>
                                  (let r1 = abort_row ACTIVATION_ABORT_CODE engine now r
                                   in (disposition_of ACTIVATION_ABORT_CODE engine now r1, replace_row r1 db)))))) db)"

text \<open>At the start of an engine every prepared row of an earlier incarnation is disposed of at once.\<close>

definition abort_prepared_outbox ::
  "ack_cfg \<Rightarrow> tx_env \<Rightarrow> string \<Rightarrow> outbox \<Rightarrow> disposition list tx_answer \<times> outbox" where
  "abort_prepared_outbox cfg env engine db =
     (let prepared = sort_key ob_request (filter (\<lambda>r. ob_state r = Prepared) db)
      in if \<not> valid_request_id engine then (ack_refused ''recovery engine identity is invalid'', db)
         else if tx_fault env \<or> \<not> registry_usage cfg env db then (ack_refused ''transaction failed'', db)
         else if prepared = [] then (Inr [], db)
         else if list_ex (\<lambda>r. ob_engine r = engine) prepared
         then (ack_refused ''recovery engine incarnation must differ from every prepared request'', db)
         else (case tx_now env of
                 Fin now \<Rightarrow>
                   (if now \<le> 0 \<or> list_ex (\<lambda>r. clock_after env r = None) prepared
                    then (ack_refused ''disposition clock authority is invalid'', db)
                    else (Inr (map (\<lambda>r. \<lparr> ds_request = ob_request r, ds_fingerprint = ob_fingerprint r,
                                           ds_prior_engine = ob_engine r, ds_activation = ob_activation r,
                                           ds_source = ob_source r, ds_code = RESTART_ABORT_CODE,
                                           ds_recovery_engine = engine, ds_disposed_at = now \<rparr>) prepared),
                          map (\<lambda>r. if ob_state r = Prepared then abort_row RESTART_ABORT_CODE engine now r else r) db))
               | _ \<Rightarrow> (ack_refused ''disposition clock authority is invalid'', db)))"

text \<open>What the start replays: the committed rows, oldest first.\<close>

definition committed_outbox :: "ack_cfg \<Rightarrow> tx_env \<Rightarrow> outbox \<Rightarrow> outbox_row list tx_answer" where
  "committed_outbox cfg env db =
     (if tx_fault env \<or> \<not> registry_usage cfg env db then ack_refused ''committed enumeration failed''
      else Inr (sort_key (\<lambda>r. (ob_created r, ob_request r)) (filter (\<lambda>r. ob_state r = Committed) db)))"


section \<open>The life of a request\<close>

text \<open>
  The specification of the outbox: a request is absent, prepared, committed, published or aborted; its
  content never changes, and only a settled one is forgotten.
\<close>

fun request_step :: "outbox_row option \<Rightarrow> outbox_row option \<Rightarrow> bool" where
  "request_step None None = True"
| "request_step None (Some t) = (ob_state t = Prepared \<and> ob_terminal t = None)"
| "request_step (Some r) None = (\<not> row_pending r)"
| "request_step (Some r) (Some t) =
     (t = r \<or> (same_content r t
               \<and> (ob_state r, ob_state t) \<in> {(Prepared, Committed), (Committed, Published), (Prepared, Aborted)}))"

datatype outbox_op =
    OpFind string string
  | OpPrepare outbox_row
  | OpCommit string string ack_event ack_receipt
  | OpPublish string string ack_event ack_receipt
  | OpAbort string string string string string ack_event ack_receipt
  | OpAbortPrepared string

definition raised :: "'a tx_answer \<times> outbox \<Rightarrow> bool \<times> outbox" where
  "raised ax = (case fst ax of Inl e \<Rightarrow> True | Inr x \<Rightarrow> False, snd ax)"

definition outbox_exec :: "ack_cfg \<Rightarrow> tx_env \<Rightarrow> outbox_op \<Rightarrow> outbox \<Rightarrow> bool \<times> outbox" where
  "outbox_exec cfg env op db =
     (case op of
        OpFind rid fp \<Rightarrow> raised (find_outbox cfg env rid fp db)
      | OpPrepare r \<Rightarrow> raised (prepare_outbox cfg env r db)
      | OpCommit rid fp ev rc \<Rightarrow> raised (commit_outbox cfg env rid fp ev rc db)
      | OpPublish rid fp ev rc \<Rightarrow> raised (publish_outbox cfg env rid fp ev rc db)
      | OpAbort rid fp en ac so ev rc \<Rightarrow> raised (abort_outbox cfg env rid fp en ac so ev rc db)
      | OpAbortPrepared en \<Rightarrow> raised (abort_prepared_outbox cfg env en db))"

definition table_ok :: "outbox \<Rightarrow> bool" where
  "table_ok db = distinct (map ob_request db)"

definition table_step :: "outbox \<Rightarrow> outbox \<Rightarrow> bool" where
  "table_step db db' =
     ((table_ok db \<longrightarrow> table_ok db') \<and> (table_ok db \<longrightarrow> (\<forall>rid. request_step (outbox_row_of db rid) (outbox_row_of db' rid))))"

lemma request_step_refl: "request_step r r"
  by (cases r) auto

lemma table_step_refl: "table_step db db"
  by (simp add: table_step_def request_step_refl)

lemma outbox_row_of_Nil [simp]: "outbox_row_of [] rid = None"
  and outbox_row_of_Cons [simp]: "outbox_row_of (r # db) rid = (if ob_request r = rid then Some r else outbox_row_of db rid)"
  by (simp_all add: outbox_row_of_def)

lemma row_of_request: "outbox_row_of db rid = Some r \<Longrightarrow> ob_request r = rid \<and> r \<in> set db"
  by (induction db) (auto split: if_splits)

lemma row_of_mem: "table_ok db \<Longrightarrow> r \<in> set db \<Longrightarrow> outbox_row_of db (ob_request r) = Some r"
  by (induction db) (auto simp: table_ok_def)

lemma row_of_append: "outbox_row_of (db @ [r]) rid =
    (case outbox_row_of db rid of Some x \<Rightarrow> Some x | None \<Rightarrow> if ob_request r = rid then Some r else None)"
  by (induction db) auto

lemma row_of_delete: "outbox_row_of (delete_row k db) rid = (if rid = k then None else outbox_row_of db rid)"
  by (induction db) (auto simp: delete_row_def)

lemma row_of_replace:
  "outbox_row_of (replace_row r db) rid =
     (if rid = ob_request r then map_option (\<lambda>_. r) (outbox_row_of db rid) else outbox_row_of db rid)"
  by (induction db) (auto simp: replace_row_def)

lemma row_of_None: "outbox_row_of db rid = None \<longleftrightarrow> rid \<notin> ob_request ` set db"
  by (induction db) auto

lemma table_ok_delete: "table_ok db \<Longrightarrow> table_ok (delete_row k db)"
  by (simp add: table_ok_def delete_row_def distinct_map_filter)

lemma table_ok_replace: "table_ok db \<Longrightarrow> table_ok (replace_row r db)"
proof -
  have "map ob_request (replace_row r db) = map ob_request db" by (simp add: replace_row_def)
  thus "table_ok db \<Longrightarrow> table_ok (replace_row r db)" by (simp add: table_ok_def)
qed

lemma replace_step:
  assumes "outbox_row_of db rid = Some r" "ob_request t = rid" "request_step (Some r) (Some t)"
  shows "table_step db (replace_row t db)"
  using assms by (auto simp: table_step_def table_ok_replace row_of_replace request_step_refl)

section \<open>Pruning\<close>

lemma prune_loop_rows:
  "outbox_row_of (prune_loop cfg n cs db) rid = outbox_row_of db rid
   \<or> (rid \<in> ob_request ` set cs \<and> outbox_row_of (prune_loop cfg n cs db) rid = None)"
proof (induction cs arbitrary: db)
  case (Cons c cs)
  show ?case using Cons.IH [of "delete_row (ob_request c) db"]
    by (cases "rid = ob_request c") (auto simp: Let_def row_of_delete)
qed simp

lemma prune_loop_ok: "table_ok db \<Longrightarrow> table_ok (prune_loop cfg n cs db)"
  by (induction cs arbitrary: db) (auto simp: Let_def table_ok_delete)

lemma prune_loop_subset: "set (prune_loop cfg n cs db) \<subseteq> set db"
proof (induction cs arbitrary: db)
  case (Cons c cs)
  have "set (delete_row (ob_request c) db) \<subseteq> set db" by (auto simp: delete_row_def)
  thus ?case using Cons.IH [of "delete_row (ob_request c) db"] by (auto simp: Let_def)
qed simp

lemma candidates_settled: "c \<in> set (prune_candidates db) \<Longrightarrow> c \<in> set db \<and> \<not> row_pending c"
  by (auto simp: prune_candidates_def Let_def dest!: in_set_takeD)

lemma prune_step:
  assumes "prune_for_admission cfg n db = Inr db1"
  shows "table_step db db1"
proof -
  have "db1 = db \<or> db1 = prune_loop cfg n (prune_candidates db) db"
    using assms by (auto simp: prune_for_admission_def Let_def split: if_splits)
  moreover have "request_step (outbox_row_of db rid) (outbox_row_of (prune_loop cfg n (prune_candidates db) db) rid)"
    if ok: "table_ok db" for rid
  proof (cases "rid \<in> ob_request ` set (prune_candidates db)")
    case True
    then obtain c where c: "c \<in> set (prune_candidates db)" "rid = ob_request c" by auto
    have "outbox_row_of db rid = Some c" using row_of_mem [OF ok] candidates_settled [OF c(1)] c(2) by simp
    thus ?thesis
      using prune_loop_rows [of cfg n "prune_candidates db" db rid] candidates_settled [OF c(1)]
      by (auto simp: request_step_refl)
  next
    case False
    thus ?thesis using prune_loop_rows [of cfg n "prune_candidates db" db rid] by (auto simp: request_step_refl)
  qed
  ultimately show ?thesis by (auto simp: table_step_def prune_loop_ok request_step_refl)
qed

lemma admit_cases:
  assumes "admit_row cfg env r db = (a, db')"
  obtains (refused) e where "a = Inl e" "db' = db"
  | (admitted) db1 now where "prune_for_admission cfg (row_bytes cfg r) db = Inr db1" "a = Inr (new_row r now)"
      "db' = db1 @ [new_row r now]" "registry_usage cfg env db'"
  using assms by (auto simp: admit_row_def Let_def split: sum.splits pyfloat.splits if_splits)

section \<open>Every transaction is a step of the specification\<close>

lemma transaction_cases:
  assumes "transaction cfg env rid body db = (a, db')"
  obtains (rolled_back) e where "a = Inl e" "db' = db"
  | (completed) x where "registry_usage cfg env db" "a = Inr x" "body db = (Inr x, db')"
  using assms by (auto simp: transaction_def split: if_splits prod.splits sum.splits)

lemma find_step: "find_outbox cfg env rid fp db = (a, db') \<Longrightarrow> db' = db"
  unfolding find_outbox_def
  by (auto split: if_splits option.splits elim!: transaction_cases)

lemma admit_step:
  assumes "admit_row cfg env r db = (a, db')" "outbox_row_of db (ob_request r) = None"
  shows "table_step db db'"
  using assms(1)
proof (cases rule: admit_cases)
  case (refused e)
  thus ?thesis by (simp add: table_step_refl)
next
  case (admitted db1 now)
  note pruned = prune_step [OF admitted(1)]
  have sub: "set db1 \<subseteq> set db"
    using admitted(1) prune_loop_subset by (fastforce simp: prune_for_admission_def Let_def split: if_splits)
  hence absent: "outbox_row_of db1 (ob_request r) = None" using assms(2) by (auto simp: row_of_None)
  have new: "ob_request (new_row r now) = ob_request r" by (simp add: new_row_def)
  show ?thesis unfolding table_step_def
  proof (intro conjI impI allI)
    assume ok: "table_ok db"
    have "table_ok db1" using pruned ok by (simp add: table_step_def)
    thus "table_ok db'" using absent by (simp add: admitted(3) table_ok_def new row_of_None)
    fix rid
    show "request_step (outbox_row_of db rid) (outbox_row_of db' rid)"
    proof (cases "rid = ob_request r")
      case True
      thus ?thesis using absent assms(2) by (simp add: admitted(3) row_of_append new new_row_def)
    next
      case False
      hence "outbox_row_of db' rid = outbox_row_of db1 rid" by (simp add: admitted(3) row_of_append new split: option.split)
      thus ?thesis using pruned ok by (simp add: table_step_def)
    qed
  qed
qed

lemma prepare_step:
  assumes "prepare_outbox cfg env r db = (a, db')"
  shows "table_step db db'"
proof -
  let ?body = "\<lambda>db. case outbox_row_of db (ob_request r) of
                Some cur \<Rightarrow> if same_content cur r then (Inr cur, db) else (Inl AxConflict, db)
              | None \<Rightarrow> admit_row cfg env r db"
  have "db' = db \<or> transaction cfg env (ob_request r) ?body db = (a, db')"
    using assms by (auto simp: prepare_outbox_def split: if_splits)
  thus ?thesis
  proof
    assume "transaction cfg env (ob_request r) ?body db = (a, db')"
    thus ?thesis
      by (cases rule: transaction_cases)
         (auto simp: table_step_refl split: option.splits if_splits intro: admit_step)
  qed (simp add: table_step_refl)
qed

lemma settle_content [simp]:
  "same_content r (r\<lparr> ob_state := st, ob_updated := now \<rparr>)" "same_content r (abort_row c e now r)"
  "ob_request (abort_row c e now r) = ob_request r" "ob_state (abort_row c e now r) = Aborted"
  by (simp_all add: same_content_def abort_row_def)

lemma commit_cases:
  assumes "commit_outbox cfg env rid fp ev rc db = (a, db')"
  obtains (refused) e where "a = Inl e" "db' = db"
  | (before) r where "a = Inr r" "db' = db" "outbox_row_of db rid = Some r" "ob_state r \<in> {Committed, Published}"
      "ob_fingerprint r = fp" "ob_event r = ev" "ob_receipt r = rc"
  | (now) r t where "outbox_row_of db rid = Some r" "ob_state r = Prepared" "a = Inr (r\<lparr> ob_state := Committed, ob_updated := t \<rparr>)"
      "db' = replace_row (r\<lparr> ob_state := Committed, ob_updated := t \<rparr>) db"
      "ob_fingerprint r = fp" "ob_event r = ev" "ob_receipt r = rc"
proof -
  let ?body = "\<lambda>db. case outbox_row_of db rid of
                None \<Rightarrow> (ack_refused ''durable preparation is missing'', db)
              | Some r \<Rightarrow>
                  (if ob_fingerprint r \<noteq> fp then (Inl AxConflict, db)
                   else if ob_event r \<noteq> ev \<or> ob_receipt r \<noteq> rc
                   then (ack_refused ''commit does not match its durable preparation'', db)
                   else (case ob_state r of
                           Committed \<Rightarrow> (Inr r, db)
                         | Published \<Rightarrow> (Inr r, db)
                         | Aborted \<Rightarrow> (ack_refused ''aborted request cannot commit'', db)
                         | Prepared \<Rightarrow>
                             (case clock_after env r of
                                None \<Rightarrow> (ack_refused ''clock authority is invalid'', db)
                              | Some now \<Rightarrow>
                                  (let r1 = r\<lparr> ob_state := Committed, ob_updated := now \<rparr>
                                   in (Inr r1, replace_row r1 db)))))"
  have "(\<exists>e. a = Inl e \<and> db' = db) \<or> transaction cfg env rid ?body db = (a, db')"
    using assms by (auto simp: commit_outbox_def split: if_splits)
  thus thesis
  proof
    assume "transaction cfg env rid ?body db = (a, db')"
    thus thesis
    proof (cases rule: transaction_cases)
      case (completed x)
      show thesis
      proof (cases "outbox_row_of db rid")
        case (Some r)
        thus thesis using completed before [of r] now [of r]
          by (cases "ob_state r") (auto simp: Let_def split: if_splits option.splits)
      qed (use completed in simp)
    qed (use refused in blast)
  qed (use refused in blast)
qed

lemma commit_step: "commit_outbox cfg env rid fp ev rc db = (a, db') \<Longrightarrow> table_step db db'"
proof (erule commit_cases)
  fix r t
  assume "outbox_row_of db rid = Some r" "ob_state r = Prepared"
    "db' = replace_row (r\<lparr> ob_state := Committed, ob_updated := t \<rparr>) db"
  thus "table_step db db'" using row_of_request [of db rid r] by (auto intro!: replace_step)
qed (simp_all add: table_step_refl)

lemma commit_answer_durable:
  assumes "commit_outbox cfg env rid fp ev rc db = (Inr t, db')"
  shows "outbox_row_of db' rid = Some t \<and> ob_state t \<in> {Committed, Published} \<and> ob_fingerprint t = fp
         \<and> ob_event t = ev \<and> ob_receipt t = rc"
  using assms
proof (cases rule: commit_cases)
  case (now r t')
  thus ?thesis using row_of_request [OF now(1)] by (simp add: row_of_replace)
qed auto

lemma transaction_step:
  "transaction cfg env rid body db = (a, db') \<Longrightarrow> (\<And>x db1. body db = (Inr x, db1) \<Longrightarrow> table_step db db1) \<Longrightarrow>
     table_step db db'"
  by (erule transaction_cases) (auto simp: table_step_refl)

lemma publish_step: "publish_outbox cfg env rid fp ev rc db = (a, db') \<Longrightarrow> table_step db db'"
  unfolding publish_outbox_def
  by (auto simp: table_step_refl Let_def row_of_request split: if_splits option.splits ack_state.splits
      elim!: transaction_step intro!: replace_step)

lemma abort_step: "abort_outbox cfg env rid fp en ac so ev rc db = (a, db') \<Longrightarrow> table_step db db'"
  unfolding abort_outbox_def
  by (auto simp: table_step_refl Let_def row_of_request split: if_splits option.splits ack_state.splits
      elim!: transaction_step intro!: replace_step)

lemma row_of_map: "(\<And>r. ob_request (f r) = ob_request r) \<Longrightarrow> outbox_row_of (map f db) rid = map_option f (outbox_row_of db rid)"
  by (induction db) auto

lemma abort_prepared_cases:
  assumes "abort_prepared_outbox cfg env en db = (a, db')"
  shows "db' = db \<or> (\<exists>now. db' = map (\<lambda>r. if ob_state r = Prepared then abort_row RESTART_ABORT_CODE en now r else r) db
                          \<and> (\<exists>x. a = Inr x))"
  using assms by (auto simp: abort_prepared_outbox_def Let_def split: if_splits pyfloat.splits)

lemma abort_prepared_step:
  assumes "abort_prepared_outbox cfg env en db = (a, db')"
  shows "table_step db db'"
proof -
  have "table_step db (map (\<lambda>r. if ob_state r = Prepared then abort_row RESTART_ABORT_CODE en now r else r) db)" for now
  proof -
    let ?f = "\<lambda>r. if ob_state r = Prepared then abort_row RESTART_ABORT_CODE en now r else r"
    have "map ob_request (map ?f db) = map ob_request db" by simp
    moreover have "request_step x (map_option ?f x)" for x
      by (cases x) (auto simp: request_step_refl)
    ultimately show ?thesis unfolding table_step_def table_ok_def by (auto simp: row_of_map simp del: map_map)
  qed
  thus ?thesis using abort_prepared_cases [OF assms] table_step_refl by blast
qed

lemma raised_iff: "raised ax = (failed, db') \<longleftrightarrow> (\<exists>a. ax = (a, db') \<and> failed = (\<exists>e. a = Inl e))"
  by (cases ax) (auto simp: raised_def split: sum.split)

lemma exec_step: "outbox_exec cfg env op db = (failed, db') \<Longrightarrow> table_step db db'"
  by (cases op)
     (auto simp: outbox_exec_def raised_iff table_step_refl
        dest!: find_step prepare_step commit_step publish_step abort_step abort_prepared_step)

section \<open>A transaction that raises leaves the table\<close>

lemma transaction_rollback: "transaction cfg env rid body db = (Inl e, db') \<Longrightarrow> db' = db"
  by (erule transaction_cases) auto

lemma rollbacks:
  "prepare_outbox cfg env r db = (Inl e, db') \<Longrightarrow> db' = db"
  "commit_outbox cfg env rid fp ev rc db = (Inl e, db') \<Longrightarrow> db' = db"
  "publish_outbox cfg env rid fp ev rc db = (Inl e, db') \<Longrightarrow> db' = db"
  "abort_outbox cfg env rid fp en ac so ev rc db = (Inl e', db') \<Longrightarrow> db' = db"
  "abort_prepared_outbox cfg env en db = (Inl e'', db') \<Longrightarrow> db' = db"
  by (auto simp: prepare_outbox_def commit_outbox_def publish_outbox_def abort_outbox_def split: if_splits
      dest: transaction_rollback abort_prepared_cases)

lemma exec_rollback: "outbox_exec cfg env op db = (True, db') \<Longrightarrow> db' = db"
  by (cases op) (auto simp: outbox_exec_def raised_iff dest: find_step rollbacks)

section \<open>Properties\<close>

text \<open>C34: the outbox implements the life cycle of its requests: whatever operation runs, in whatever environment,
  every request stays unique and makes at most one step (it is prepared, committed once prepared, published
  once committed, aborted once prepared, forgotten once settled), its content never changes, and an
  operation that raises changes nothing.\<close>

theorem outbox_follows_lifecycle:
  assumes "outbox_exec cfg env op db = (failed, db')" "table_ok db"
  shows "table_ok db' \<and> (\<forall>rid. request_step (outbox_row_of db rid) (outbox_row_of db' rid)) \<and> (failed \<longrightarrow> db' = db)"
  using exec_step [OF assms(1)] exec_rollback assms by (auto simp: table_step_def)

text \<open>Settled rows are retained.\<close>

definition settled_rows :: "outbox \<Rightarrow> outbox_row list" where
  "settled_rows db = filter (\<lambda>r. \<not> row_pending r) db"

lemma length_delete_row: "table_ok db \<Longrightarrow> length (filter q db) \<le> Suc (length (filter q (delete_row k db)))"
proof (induction db)
  case (Cons r db)
  show ?case
  proof (cases "ob_request r = k")
    case True
    hence "delete_row k db = db" using Cons.prems unfolding delete_row_def table_ok_def
      by (intro filter_True ballI) (metis distinct.simps(2) imageI list.set_map list.simps(9))
    thus ?thesis using True by (simp add: delete_row_def)
  next
    case False
    thus ?thesis using Cons by (auto simp: table_ok_def delete_row_def)
  qed
qed simp

lemma prune_loop_length:
  "table_ok db \<Longrightarrow> length (filter q db) \<le> length (filter q (prune_loop cfg n cs db)) + length cs"
proof (induction cs arbitrary: db)
  case (Cons c cs)
  have ok: "table_ok (delete_row (ob_request c) db)" using Cons.prems by (rule table_ok_delete)
  show ?case using Cons.IH [OF ok] length_delete_row [OF Cons.prems, of q "ob_request c"]
    by (auto simp: Let_def)
qed simp

lemma prune_retains:
  assumes "prune_for_admission cfg n db = Inr db1" "table_ok db"
  shows "min ACK_MIN_TERMINAL_RETAINED (length (settled_rows db)) \<le> length (settled_rows db1)"
proof -
  have "db1 = db \<or> db1 = prune_loop cfg n (prune_candidates db) db"
    using assms by (auto simp: prune_for_admission_def Let_def split: if_splits)
  moreover have "length (prune_candidates db) \<le> length (settled_rows db) - min (length (settled_rows db)) ACK_MIN_TERMINAL_RETAINED"
    by (simp add: prune_candidates_def Let_def settled_rows_def)
  ultimately show ?thesis
    using prune_loop_length [OF assms(2), of "\<lambda>r. \<not> row_pending r" cfg n "prune_candidates db"]
    by (auto simp: settled_rows_def)
qed



section \<open>A run of the outbox\<close>

definition outbox_cfg :: ack_cfg where
  "outbox_cfg = \<lparr> ac_event_bytes = (\<lambda>_. 500), ac_receipt_bytes = (\<lambda>_. 400) \<rparr>"

definition outbox_env :: "real \<Rightarrow> tx_env" where
  "outbox_env now = \<lparr> tx_fault = False, tx_quarantined = (\<lambda>_. False), tx_now = Fin now \<rparr>"

definition sample_fp :: string where
  "sample_fp = sample_id @ sample_id"

definition sample_row :: outbox_row where
  "sample_row =
     \<lparr> ob_request = sample_id, ob_fingerprint = sample_fp, ob_alarm = ''warm_shield'', ob_activation = ''a1'',
       ob_engine = sample_id, ob_source = ''3'', ob_operator = ''operator'', ob_reason = ''seen'', ob_state = Prepared,
       ob_event = \<lparr> ev_request = sample_id, ev_fingerprint = sample_fp, ev_alarm = ''warm_shield'',
                    ev_activation = ''a1'', ev_engine = sample_id, ev_source = ''3'', ev_acknowledged_at = Fin 7,
                    ev_operator = ''operator'', ev_reason = ''seen'' \<rparr>,
       ob_receipt = \<lparr> ar_request = sample_id, ar_fingerprint = sample_fp, ar_alarm = ''warm_shield'',
                      ar_activation = ''a1'', ar_engine = sample_id, ar_source = ''3'', ar_acknowledged_at = Fin 7 \<rparr>,
       ob_terminal = None, ob_created = 10, ob_updated = 10 \<rparr>"

definition sample_committed :: outbox_row where
  "sample_committed = sample_row\<lparr> ob_state := Committed, ob_updated := 11 \<rparr>"

lemma sample_ids: "valid_request_id sample_id" "valid_request sample_id sample_fp"
  "is_canonical_source_activation_id ''3''"
  by code_simp+

lemma sample_id_length: "length sample_id = 32" "length sample_fp = 64"
  by code_simp+

lemma sample_record: "alarm_ack_record outbox_cfg sample_row" "alarm_ack_record outbox_cfg sample_committed"
  using sample_ids sample_id_length
  by (simp_all add: alarm_ack_record_def identity_ok_def terminal_ok_def payload_identity_ok_def json_ok_def row_bytes_def
      sample_row_def sample_committed_def outbox_cfg_def ack_text_def Let_def fl_isfinite_def MAX_IDENTITY_FIELD_BYTES_def
      MAX_TEXT_FIELD_BYTES_def ACK_MAX_JSON_BYTES_def ACK_MAX_ROW_BYTES_def ACTIVATION_ABORT_CODE_def)

lemma sample_bytes: "row_bytes outbox_cfg sample_row \<le> 2000" "row_bytes outbox_cfg sample_committed \<le> 2000"
  using sample_id_length
  by (simp_all add: row_bytes_def sample_row_def sample_committed_def outbox_cfg_def ACTIVATION_ABORT_CODE_def)

lemma sample_usage: "registry_usage outbox_cfg (outbox_env t) []" "registry_usage outbox_cfg (outbox_env t) [sample_row]"
  using sample_record sample_bytes
  by (auto simp: registry_usage_def Let_def bytes_of_def outbox_env_def ACK_MAX_PENDING_def ACK_MAX_PENDING_BYTES_def
      ACK_MAX_TOTAL_def ACK_MAX_TOTAL_BYTES_def)

lemma sample_prepared: "prepare_outbox outbox_cfg (outbox_env 10) sample_row [] = (Inr sample_row, [sample_row])"
proof -
  have new: "new_row sample_row 10 = sample_row" by (simp add: new_row_def sample_row_def)
  have "fits outbox_cfg (row_bytes outbox_cfg sample_row) []"
    using sample_bytes by (simp add: fits_def bytes_of_def ACK_MAX_TOTAL_def ACK_MAX_TOTAL_BYTES_def)
  hence "admit_row outbox_cfg (outbox_env 10) sample_row [] = (Inr sample_row, [sample_row])"
    using sample_usage(2) [of 10] sample_bytes
    by (simp add: admit_row_def prune_for_admission_def new outbox_env_def ACK_MAX_PENDING_def
        ACK_MAX_PENDING_BYTES_def bytes_of_def)
  moreover have "identity_ok sample_row" "json_ok outbox_cfg (ob_event sample_row) (ob_receipt sample_row)"
    "payload_identity_ok sample_row" "row_bytes outbox_cfg sample_row \<le> ACK_MAX_ROW_BYTES"
    using sample_record(1) by (simp_all add: alarm_ack_record_def)
  ultimately show ?thesis using sample_usage(1) [of 10]
    by (simp add: prepare_outbox_def transaction_def outbox_env_def)
qed

lemma sample_commits:
  "outbox_exec outbox_cfg (outbox_env 11) (OpCommit sample_id sample_fp (ob_event sample_row) (ob_receipt sample_row)) [sample_row]
     = (False, [sample_committed])"
proof -
  have "json_ok outbox_cfg (ob_event sample_row) (ob_receipt sample_row)" using sample_record(1) by (simp add: alarm_ack_record_def)
  moreover have "ob_request sample_row = sample_id" "ob_fingerprint sample_row = sample_fp" "ob_state sample_row = Prepared"
    "clock_after (outbox_env 11) sample_row = Some 11" "ob_request sample_committed = sample_id"
    by (simp_all add: sample_row_def sample_committed_def clock_after_def outbox_env_def)
  ultimately show ?thesis using sample_usage(2) [of 11] sample_ids
    by (simp add: outbox_exec_def raised_def commit_outbox_def transaction_def replace_row_def Let_def
        flip: sample_committed_def) (simp add: outbox_env_def)
qed

theorem outbox_follows_lifecycle_witness:
  "request_step (outbox_row_of [sample_row] sample_id) (outbox_row_of [sample_committed] sample_id)
   \<and> ob_state sample_committed = Committed"
  using outbox_follows_lifecycle [OF sample_commits] by (simp add: table_ok_def sample_committed_def)


end
