(* ===== verification/Spec2Isabelle.thy ===== *)
theory Spec2Isabelle
  imports Rate Tracker AlarmEval AlarmState Vacuum Interlocks SafetyBroker EventBus DataBroker
    SafetyOffProps SafetyStopProps SafetyCheckProps SafetyRunProps SafetyOpsProps SafetyShutdown Commands
    CooldownProps SensorDiagProps SmuProps SchedRuns
    Supervision Annunciation AckStore
begin

text \<open>
  A verification library for CryoDAQ, the data acquisition and safety program of a cryogenic test
  stand (Python, under \<^verbatim>\<open>src/cryodaq\<close>).

  THE PROGRAM. A scheduler polls the drivers of the instruments, alone or in turn on a shared bus. What it
  reads goes through one pipeline: it is thinned for the archive, committed to SQLite, and only then
  published, as committed, to the data broker (lossy, with a required publication path), and raw to the
  safety broker (never lossy: an overflow is a fault). The safety manager is the only authority that may
  switch on the source of heat, a Keithley SMU: it keeps a state machine, latches faults, commands OFF and
  publishes a snapshot for the operator. The driver of the SMU keeps its own account of what it knows of
  the outputs. The interlock engine watches protected channels and calls into the safety manager. The
  alarm engine evaluates configured conditions over channel states and rates; the cooldown alarm, the
  sensor diagnostics and the vacuum guard are further sources of alarms. Commands from outside pass the
  command authority, replies a structural contract.

  THE THEORIES, in the order in which they import each other.
  \<^item> \<open>Prelude\<close>: results with Python exceptions, IEEE comparisons on extended reals (\<open>pyfloat\<close>),
    dictionaries as association lists in insertion order, bounded logs (locale \<open>bounded_log\<close>).
    \<open>Readings\<close>: readings and SMU channels (\<^verbatim>\<open>drivers/base.py\<close>, \<^verbatim>\<open>core/smu_channel.py\<close>).
    \<open>Coroutines\<close>: coroutines of one event loop as values, their weakest preconditions (locale
    \<open>await_logic\<close>), histories of their requests, bounds on their awaits; \<open>CoKeeps\<close>: their state invariants.
  \<^item> \<open>Rate\<close> (\<^verbatim>\<open>core/rate_estimator.py\<close>), \<open>Tracker\<close> (\<^verbatim>\<open>core/channel_state.py\<close>), \<open>AlarmEval\<close> and
    \<open>AlarmState\<close> (\<^verbatim>\<open>core/alarm_v2.py\<close>), \<open>Vacuum\<close> (\<^verbatim>\<open>core/vacuum_guard.py\<close>), \<open>CooldownAlarm\<close> and
    \<open>CooldownProps\<close> (\<^verbatim>\<open>core/cooldown_alarm.py\<close>), \<open>SensorDiag\<close> and \<open>SensorDiagProps\<close>
    (\<^verbatim>\<open>core/sensor_diagnostics.py\<close>).
  \<^item> \<open>Interlocks\<close> (\<^verbatim>\<open>core/interlock.py\<close>): conditions, latching trips, debounced escalation of dead
    channels, recovery of warnings, re-arming. External callables are fields of \<open>callbacks\<close>; what the
    engine calls is a list of \<open>effect\<close>s.
  \<^item> \<open>Queues\<close> (\<open>asyncio.Queue\<close>, locale \<open>fifo\<close>), \<open>SafetyBroker\<close>, \<open>EventBus\<close>, \<open>DataBroker\<close>
    (\<^verbatim>\<open>core/safety_broker.py\<close>, \<^verbatim>\<open>core/event_bus.py\<close>, \<^verbatim>\<open>core/broker.py\<close>). \<open>Commands\<close>
    (\<^verbatim>\<open>core/command_authority.py\<close>, \<^verbatim>\<open>core/command_reply_contract.py\<close>).
  \<^item> The safety manager (\<^verbatim>\<open>core/safety_manager.py\<close>) in layers: \<open>SourceOff\<close> (OFF evidence of
    \<^verbatim>\<open>drivers/contracts.py\<close>, what the driver exposes), \<open>SafetyState\<close> (the record \<open>sm\<close>),
    \<open>SafetySnapshot\<close> (the operator snapshot, transitions, abort generations, the synchronous fault
    latch), \<open>SafetyChecks\<close> (qualification, preconditions, periodic checks), \<open>SafetyChildren\<close> (child
    tasks, the interference of other tasks), \<open>SafetyOff\<close> (fault settlement, emergency OFF, stop,
    interlock trips), \<open>SafetyRun\<close> (starting a source), \<open>SafetyOps\<close> (live updates, acknowledgement, the
    connection lifecycle, blind guards), \<open>SafetyShutdown\<close> (stopping the manager). \<open>SafetyOffProps\<close>,
    \<open>SafetyStopProps\<close>, \<open>SafetyCheckProps\<close>, \<open>SafetyRunProps\<close>, \<open>SafetyTrace\<close> and \<open>SafetyOpsProps\<close> hold their
    properties, \<open>SafetySamples\<close> the concrete managers of the witnesses.
  \<^item> The Keithley driver (\<^verbatim>\<open>drivers/instruments/keithley_2604b.py\<close>): \<open>SmuProtocol\<close> (its response
    language), \<open>SmuDriver\<close> (its state and synchronous steps), \<open>SmuOps\<close>, \<open>SmuSource\<close> and \<open>SmuLifecycle\<close> (its
    operations as coroutines). \<open>SmuLogic\<close>, \<open>SmuRules\<close> and \<open>SmuSafe\<close> prove that each operation keeps a
    guarantee about the outputs under the interference of all others, \<open>SmuSystem\<close> composes any number of
    them with an instrument, \<open>SmuBounds\<close> and \<open>SmuStart\<close> bound and order their requests, \<open>SmuExample\<close>
    runs them, \<open>SmuProps\<close> states the properties.
  \<^item> Acquisition (\<^verbatim>\<open>core/scheduler.py\<close>, \<^verbatim>\<open>core/housekeeping.py\<close>, \<^verbatim>\<open>core/calibration_acquisition.py\<close>,
    \<^verbatim>\<open>storage/sqlite_writer.py\<close>, \<^verbatim>\<open>storage/sentinel.py\<close>): \<open>Throttle\<close>, \<open>CalAcquire\<close> and \<open>SqliteWrites\<close> are the
    services, \<open>SchedState\<close> the state of the scheduler, \<open>Acquire\<close> the pipeline with its properties in
    \<open>AcquireProps\<close> and runs in \<open>AcquireRuns\<close>, \<open>Reviewed\<close> the lifecycle of a reviewed source, \<open>PollLoop\<close> and
    \<open>BusPoll\<close> the two poll loops, \<open>SchedStop\<close> registration, start and stop. \<open>SchedTyping\<close> has the typing of the
    store and the interface \<open>sched_inv\<close> of an invariant, \<open>SchedKeeps\<close> proves once that every coroutine keeps
    every such invariant; \<open>SchedSafe\<close>, \<open>SchedStopProps\<close>, \<open>SchedOwner\<close> and \<open>SchedStart\<close> interpret it and hold the
    properties, \<open>SchedRuns\<close> the concrete runs.

  \<item> Around them: \<open>Supervision\<close> (\<^verbatim>\<open>engine_wiring/supervision.py\<close>: the supervisor of the long-lived tasks as a
    step relation of the event loop, the owner of the shutdown), \<open>Annunciation\<close> (\<^verbatim>\<open>core/annunciation.py\<close>: the
    registry of audible activations), \<open>AckStore\<close> (the durable outbox of alarm acknowledgements in
    \<^verbatim>\<open>storage/sqlite_writer.py\<close>, as transactions on a table of rows, against the life cycle of a request).

  TIME AND CONCURRENCY. The program is asynchronous on one event loop: code between two awaits is
  atomic. In the theories of the safety manager an operation that holds the command lock is one function;
  each of its awaits takes from an environment argument the answer it gets, whether its caller was
  cancelled, and the list of \<open>env_event\<close>s other tasks perform meanwhile. The locale \<open>interference\<close>
  states what such events may do: abort generations only grow, a latch stays and cuts every earlier
  generation, nobody else activates a source. The relation \<open>interferes\<close> is proved for every event and
  for every shutdown path; \<open>quiet\<close> is the weaker one a start satisfies up to its start command.
  The driver and the scheduler are coroutines: each await is a request, and any answer and any state that
  a relation on the interference admits may come back. What this relation admits is proved of the
  coroutines themselves (the guarantee of the driver, the typing of the scheduler's store), so that the
  assumption on the others is met by them. Objects shared between tasks, child tasks and connect
  attempts, have addresses. Clocks are real numbers, stored timestamps are part of the state.

  BOUNDS. Loops of the code that recurse over a list do so here. The retry loop of a locked database has its
  own bound, proved sufficient. The poll loops run as long as the scheduler does and are modelled for any
  number of iterations; every claim about them holds for all numbers. Queue and log bounds are those of
  the code (500 safety events, 1000 interlock events and alarm history entries). Floats are extended reals
  with NaN and infinities: comparisons follow IEEE, arithmetic is exact.

  WHAT THE LEMMAS SHOW. Safety manager: an emergency OFF, a stop or an interlock trip never claims
  more than the device confirmed; a new fault latches and commands OFF (and a case in which it does
  not, when the operator snapshot outgrows its bounds); a start sends at most one bounded command, is
  not overtaken when it reports success, and leaves nothing behind when it does not; a way in which
  a start consumes a latched fault it should not; the exact conditions of the periodic checks and of an
  acknowledgement; a stop of the manager ends with a reported OFF. Driver: whenever it does not call its
  outputs unverified they are off, whatever was interleaved; an output is only switched on by a start with
  current authority after all of its configuration; regulation steps are bounded; every call ends. Storage
  and pipeline: only committed readings are published, a failed poll reaches both brokers or the safety
  handler, and a leak that ends all acquisition after 1024 failed commits. Scheduler: the store stays
  typed; a reviewed source is read with authority only, its connect is committed on evidence only, and a
  stop that returns has settled everything; a terminal bus stays silent; a start gives a bus to one task;
  an exception of the failed-poll pipeline ends the polling of an instrument for good. Interlocks:
  violations always trip, trips stay latched, dead channels escalate exactly on time. Brokers: nothing is
  lost silently. Supervision: no task is lost, a dying safety child latches at its third rapid death, and a
  backoff that overflows after 1024 deaths. Acknowledgements: identities of activations are never reused,
  a request of the outbox is prepared, committed, published or aborted once and in order. Alarms: losing a sensor neither fires nor clears, clearing needs evidence, revisions
  identify the active set, diagnostic alarms match published anomalies, an overtaken tick of the cooldown
  alarm has no effect. Rates: bounded ordered buffers, exact slopes on lines.

  NOT MODELLED. Of the safety manager: configuration loading, status reporting, concurrent callers sharing
  one running global OFF (each gets its own answer). Of the interlock engine: the parsing of
  interlocks.yaml. Of the driver: the mock mode apart from what shares its code, the transport (its lock
  is modelled, its bytes are not). Of the scheduler: the validation of an instrument's timing, statistics.
  Of storage: SQL and its schema, catalogs, everything after the commit (rotation, archives, export); the
  JSON texts of an acknowledgement are their contents, their lengths are parameters. The
  other drivers and transports, the engine and launcher that wire the parts, the experiment manager, the
  ZeroMQ bridge, analytics, reports, assistant, GUI and web are not modelled: they are wiring, file and
  network I/O or numerical libraries around the parts above; the manifest lists them with reasons. Texts
  shown to people are reduced to what identifies them, except where their length matters.
\<close>

end
